(* ===== verification/Prelude.thy ===== *)
theory Prelude
  imports Main "HOL-Library.Word" "HOL-Library.Signed_Division"
begin

text \<open>
  Shared vocabulary of the development: Go's \<open>int64\<close> (as \<open>64 word\<close> where the code
  relies on the absence of overflow, and as \<open>int\<close> with the wrap-around written out
  where it does not guard against it), error results, and the list and map lemmas that
  several components use.
\<close>

named_theorems go_arith "facts about 64-bit arithmetic that the bounds proofs share"
named_theorems res_simps "rewrite rules for error results"
named_theorems unfold_step "definitions a step of a component unfolds to"

section \<open>64-bit integers\<close>

type_synonym int64 = "64 word"

text \<open>Two's complement wrap-around of a mathematical integer to 64 bits.\<close>

definition wrap64 :: "int \<Rightarrow> int" where
  "wrap64 x = (x + 2 ^ 63) mod 2 ^ 64 - 2 ^ 63"

definition in64 :: "int \<Rightarrow> bool" where
  "in64 x \<longleftrightarrow> - (2 ^ 63) \<le> x \<and> x < 2 ^ 63"

lemma in64_num: "in64 x \<longleftrightarrow> - 9223372036854775808 \<le> x \<and> x < 9223372036854775808"
  by (simp add: in64_def)

lemma wrap64_id [go_arith]: "in64 x \<Longrightarrow> wrap64 x = x"
  by (simp add: in64_def wrap64_def)

lemma wrap64_in64: "in64 (wrap64 x)"
proof -
  have "0 \<le> (x + 2 ^ 63) mod 2 ^ 64" and "(x + 2 ^ 63) mod 2 ^ 64 < (2 ^ 64 :: int)"
    by simp_all
  then show ?thesis
    by (simp add: in64_def wrap64_def)
qed

lemma wrap64_sint: "wrap64 x = sint (word_of_int x :: int64)"
  by (simp add: wrap64_def sint_sbintrunc' signed_take_bit_eq_take_bit_shift take_bit_eq_mod)

lemma sint_in64 [go_arith]: "in64 (sint (w :: int64))"
  using sint_range_size [of w] by (simp add: in64_def word_size)

lemma sint_of_in64 [go_arith]: "in64 x \<Longrightarrow> sint (word_of_int x :: int64) = x"
  using wrap64_sint [of x] by (simp add: wrap64_id)

text \<open>Go's \<open>/\<close> and \<open>%\<close> on \<open>int64\<close> truncate towards zero.\<close>

definition quot64 :: "int64 \<Rightarrow> int64 \<Rightarrow> int64" where
  "quot64 a b = word_of_int (sint a sdiv sint b)"

definition rem64 :: "int64 \<Rightarrow> int64 \<Rightarrow> int64" where
  "rem64 a b = word_of_int (sint a smod sint b)"

lemma sdiv_nonneg [go_arith]: "0 \<le> a \<Longrightarrow> 0 < b \<Longrightarrow> a sdiv b = a div (b :: int)"
  by (cases "a = 0") (simp_all add: signed_divide_int_def)

lemma smod_nonneg [go_arith]: "0 \<le> a \<Longrightarrow> 0 < b \<Longrightarrow> a smod b = a mod (b :: int)"
  by (cases "a = 0") (simp_all add: signed_modulo_int_def)

lemma smod_eq_0_iff: "0 < b \<Longrightarrow> a smod b = 0 \<longleftrightarrow> a mod (b :: int) = 0"
proof (cases "0 \<le> a")
  case False
  assume "0 < b"
  with False have "a smod b = - ((- a) mod b)"
    by (simp add: signed_modulo_int_def signed_divide_int_def minus_div_mult_eq_mod [symmetric] algebra_simps)
  then show ?thesis by (simp add: mod_eq_0_iff_dvd)
qed (simp add: smod_nonneg)

lemma sint_plus: "in64 (sint a + sint b) \<Longrightarrow> sint (a + b) = sint a + sint (b :: int64)"
  using wrap64_sint [of "sint a + sint b"] by (simp add: wrap64_id)

lemma sint_minus: "in64 (sint a - sint b) \<Longrightarrow> sint (a - b) = sint a - sint (b :: int64)"
  using wrap64_sint [of "sint a - sint b"] by (simp add: wrap64_id)

lemma sint_times: "in64 (sint a * sint b) \<Longrightarrow> sint (a * b) = sint a * sint (b :: int64)"
  using wrap64_sint [of "sint a * sint b"] by (simp add: wrap64_id)

section \<open>Results of fallible operations\<close>

text \<open>
  A Go function that returns \<open>(T, error)\<close> is a function into \<open>'e + 'a\<close>: \<open>Inl\<close> is the
  early return with an error, \<open>Inr\<close> the value. \<open>bind_res\<close> is the sequencing written
  \<open>if err != nil { return err }\<close> in the source.
\<close>

definition bind_res :: "'e + 'a \<Rightarrow> ('a \<Rightarrow> 'e + 'b) \<Rightarrow> 'e + 'b" where
  "bind_res r f = (case r of Inl e \<Rightarrow> Inl e | Inr x \<Rightarrow> f x)"

definition require :: "bool \<Rightarrow> 'e \<Rightarrow> 'e + unit" where
  "require b e = (if b then Inr () else Inl e)"

lemma bind_res_Inl [simp, res_simps]: "bind_res (Inl e) f = Inl e"
  by (simp add: bind_res_def)

lemma bind_res_Inr [simp, res_simps]: "bind_res (Inr x) f = f x"
  by (simp add: bind_res_def)

lemma bind_res_eq_Inr [res_simps]: "bind_res r f = Inr y \<longleftrightarrow> (\<exists>x. r = Inr x \<and> f x = Inr y)"
  by (cases r) simp_all

lemma bind_res_eq_Inl [res_simps]:
  "bind_res r f = Inl e \<longleftrightarrow> r = Inl e \<or> (\<exists>x. r = Inr x \<and> f x = Inl e)"
  by (cases r) simp_all

lemma require_eq_Inr [simp, res_simps]: "require b e = Inr u \<longleftrightarrow> b"
  by (simp add: require_def)

lemma require_eq_Inl [simp, res_simps]: "require b e = Inl e' \<longleftrightarrow> \<not> b \<and> e' = e"
  by (auto simp: require_def)

lemma require_True [simp]: "require True e = Inr ()" and require_False [simp]: "require False e = Inl e"
  by (simp_all add: require_def)

lemma bind_res_cong [fundef_cong]:
  "r = r' \<Longrightarrow> (\<And>x. r' = Inr x \<Longrightarrow> f x = g x) \<Longrightarrow> bind_res r f = bind_res r' g"
  by (cases r') simp_all

text \<open>A loop over a slice whose body may return an error: the first error ends the loop.\<close>

fun fold_res :: "('x \<Rightarrow> 's \<Rightarrow> 'e + 's) \<Rightarrow> 'x list \<Rightarrow> 's \<Rightarrow> 'e + 's" where
  "fold_res f [] s = Inr s"
| "fold_res f (x # xs) s = bind_res (f x s) (fold_res f xs)"

lemma fold_res_append [simp]:
  "fold_res f (xs @ ys) s = bind_res (fold_res f xs s) (fold_res f ys)"
proof (induction xs arbitrary: s)
  case (Cons x xs)
  show ?case by (cases "f x s") (simp_all add: Cons.IH)
qed simp

lemma fold_res_invariant:
  assumes "fold_res f xs s = Inr t" and "P s"
    and "\<And>x s t. x \<in> set xs \<Longrightarrow> P s \<Longrightarrow> f x s = Inr t \<Longrightarrow> P t"
  shows "P t"
  using assms
proof (induction xs arbitrary: s)
  case (Cons x xs)
  from Cons.prems(1) obtain s' where "f x s = Inr s'" and rest: "fold_res f xs s' = Inr t"
    by (auto simp: res_simps)
  with Cons.prems have "P s'" by (meson list.set_intros(1))
  with rest show ?case
    using Cons.prems(3) by (intro Cons.IH) (auto intro: list.set_intros(2))
qed simp

section \<open>Sums over table rows\<close>

text \<open>\<open>SELECT COALESCE(SUM(f),0) FROM rows WHERE p\<close>.\<close>

definition sum_where :: "('a \<Rightarrow> bool) \<Rightarrow> ('a \<Rightarrow> int) \<Rightarrow> 'a list \<Rightarrow> int" where
  "sum_where p f xs = sum_list (map f (filter p xs))"

lemma sum_where_Nil [simp]: "sum_where p f [] = 0"
  by (simp add: sum_where_def)

lemma sum_where_Cons [simp]:
  "sum_where p f (x # xs) = (if p x then f x else 0) + sum_where p f xs"
  by (simp add: sum_where_def)

lemma sum_where_append [simp]: "sum_where p f (xs @ ys) = sum_where p f xs + sum_where p f ys"
  by (simp add: sum_where_def)

lemma sum_where_nonneg: "(\<And>x. x \<in> set xs \<Longrightarrow> p x \<Longrightarrow> 0 \<le> f x) \<Longrightarrow> 0 \<le> sum_where p f xs"
  by (induction xs) (auto intro: add_nonneg_nonneg)

lemma sum_where_cong:
  "(\<And>x. x \<in> set xs \<Longrightarrow> p x = q x) \<Longrightarrow> (\<And>x. x \<in> set xs \<Longrightarrow> q x \<Longrightarrow> f x = g x) \<Longrightarrow>
    sum_where p f xs = sum_where q g xs"
  by (induction xs) auto

lemma sum_where_none: "(\<And>x. x \<in> set xs \<Longrightarrow> \<not> p x) \<Longrightarrow> sum_where p f xs = 0"
  by (induction xs) auto

section \<open>Go slices\<close>

text \<open>Removing the element at an index with \<open>copy(s[i:], s[i+1:])\<close> and truncation.\<close>

definition remove_at :: "nat \<Rightarrow> 'a list \<Rightarrow> 'a list" where
  "remove_at i xs = take i xs @ drop (Suc i) xs"

lemma length_remove_at [simp]: "i < length xs \<Longrightarrow> length (remove_at i xs) = length xs - 1"
  by (simp add: remove_at_def)

lemma set_remove_at: "set (remove_at i xs) \<subseteq> set xs"
  by (auto simp: remove_at_def dest: in_set_takeD in_set_dropD)

section \<open>Decimal numbers and strings\<close>

definition digit_char :: "nat \<Rightarrow> char" where
  "digit_char d = char_of (48 + d)"

fun nat_string :: "nat \<Rightarrow> string" where
  "nat_string n = (if n < 10 then [digit_char n] else nat_string (n div 10) @ [digit_char (n mod 10)])"

declare nat_string.simps [simp del]

text \<open>\<open>strconv.FormatInt(n, 10)\<close> and the \<open>%d\<close> verb of \<open>fmt.Sprintf\<close>.\<close>

definition itoa :: "int \<Rightarrow> string" where
  "itoa n = (if n < 0 then CHR ''-'' # nat_string (nat (- n)) else nat_string (nat n))"

definition digits_value :: "string \<Rightarrow> nat" where
  "digits_value s = foldl (\<lambda>v c. 10 * v + (of_char c - 48)) 0 s"

lemma of_char_digit [simp]: "d < 10 \<Longrightarrow> of_char (digit_char d) = (48 + d :: nat)"
  by (simp add: digit_char_def)

lemma digits_value_snoc [simp]:
  "digits_value (s @ [c]) = 10 * digits_value s + (of_char c - 48)"
  by (simp add: digits_value_def)

lemma digits_value_nat_string [simp]: "digits_value (nat_string n) = n"
proof (induction n rule: nat_string.induct)
  case (1 n)
  show ?case
  proof (cases "n < 10")
    case True
    then show ?thesis by (simp add: nat_string.simps [of n] digits_value_def)
  next
    case False
    with 1 show ?thesis by (simp add: nat_string.simps [of n])
  qed
qed

lemma nat_string_digits: "c \<in> set (nat_string n) \<Longrightarrow> 48 \<le> (of_char c :: nat) \<and> (of_char c :: nat) \<le> 57"
proof (induction n rule: nat_string.induct)
  case (1 n)
  then show ?case by (cases "n < 10") (auto simp: nat_string.simps [of n])
qed

lemma nat_string_nonempty [simp]: "nat_string n \<noteq> []"
  by (simp add: nat_string.simps [of n])

lemma nat_string_inject [simp]: "nat_string a = nat_string b \<longleftrightarrow> a = b"
  by (metis digits_value_nat_string)

lemma minus_notin_nat_string: "CHR ''-'' \<notin> set (nat_string n)"
  using nat_string_digits [of "CHR ''-''" n] by auto

lemma itoa_inject [simp]: "itoa a = itoa b \<longleftrightarrow> a = b"
proof -
  have neg: "CHR ''-'' # s \<noteq> nat_string n" for s n
    using minus_notin_nat_string [of n] by (metis list.set_intros(1))
  show ?thesis using neg neg [symmetric] by (auto simp: itoa_def)
qed

lemma colon_notin_itoa [simp]: "CHR '':'' \<notin> set (itoa n)"
  using nat_string_digits [of "CHR '':''"] by (auto simp: itoa_def)

text \<open>\<open>strings.HasPrefix\<close> and \<open>strings.Contains(s, "c")\<close> for one byte.\<close>

definition has_prefix :: "string \<Rightarrow> string \<Rightarrow> bool" where
  "has_prefix s p \<longleftrightarrow> take (length p) s = p"

definition contains_char :: "string \<Rightarrow> char \<Rightarrow> bool" where
  "contains_char s c \<longleftrightarrow> c \<in> set s"

lemma has_prefix_append [simp]: "has_prefix (p @ s) p"
  by (simp add: has_prefix_def)

lemma has_prefix_iff: "has_prefix s p \<longleftrightarrow> (\<exists>t. s = p @ t)"
  by (metis append_eq_conv_conj append_take_drop_id has_prefix_def)

end
