(* ===== verification/Calendar.thy ===== *)
theory Calendar
  imports Prelude
begin

text \<open>
  The part of Go's \<open>time\<close> package the program uses for billing periods: the year and month of
  a Unix time in a location and the Unix time of the first instant of a month. A location is
  the function from a UTC instant to its offset in seconds; the time zone database that names
  locations is data outside the program and a parameter of the definitions that need it.
\<close>

section \<open>Years and months\<close>

definition leap_year :: "int \<Rightarrow> bool" where
  "leap_year y \<longleftrightarrow> y mod 4 = 0 \<and> (y mod 100 \<noteq> 0 \<or> y mod 400 = 0)"

definition year_days :: "int \<Rightarrow> int" where
  "year_days y = (if leap_year y then 366 else 365)"

definition month_days :: "int \<Rightarrow> int \<Rightarrow> int" where
  "month_days y m =
    (if m = 2 then (if leap_year y then 29 else 28)
     else if m = 4 \<or> m = 6 \<or> m = 9 \<or> m = 11 then 30 else 31)"

definition leaps_to :: "int \<Rightarrow> int" where
  "leaps_to y = y div 4 - y div 100 + y div 400"

text \<open>Days from 1970-01-01 to January 1st of a year.\<close>

definition days_before_year :: "int \<Rightarrow> int" where
  "days_before_year y = 365 * (y - 1970) + leaps_to (y - 1) - leaps_to 1969"

text \<open>Days from January 1st to the first day of a month (1 to 12).\<close>

definition days_before_month :: "int \<Rightarrow> int \<Rightarrow> int" where
  "days_before_month y m = sum_list (map (month_days y) [1..m - 1])"

lemma year_days_bounds: "365 \<le> year_days y" "year_days y \<le> 366"
  by (simp_all add: year_days_def)

lemma month_days_bounds: "28 \<le> month_days y m" "month_days y m \<le> 31"
  by (simp_all add: month_days_def)

lemma div_step: "0 < k \<Longrightarrow> y div k = (y - 1) div k + (of_bool (y mod k = 0) :: int)"
proof -
  assume k: "0 < k"
  show ?thesis
  proof (cases "y mod k = 0")
    case True
    then obtain q where q: "y = k * q" by auto
    have "(k * q - 1) div k = q - 1"
      using k by (intro int_div_pos_eq [where r = "k - 1"]) (simp_all add: algebra_simps)
    with True k q show ?thesis by simp
  next
    case False
    have y: "y = k * (y div k) + y mod k" by simp
    moreover have "0 < y mod k" using False pos_mod_sign [OF k, of y] by linarith
    moreover have "y mod k < k" using k by simp
    ultimately have "(y - 1) div k = y div k"
      using k by (intro int_div_pos_eq [where r = "y mod k - 1"]) linarith+
    with False show ?thesis by simp
  qed
qed

lemma of_bool_leap:
  fixes a b c :: bool
  assumes "b \<Longrightarrow> a" "c \<Longrightarrow> b"
  shows "of_bool a - of_bool b + of_bool c = (of_bool (a \<and> (\<not> b \<or> c)) :: int)"
  using assms by (cases a; cases b; cases c) auto

lemma leaps_to_step: "leaps_to y = leaps_to (y - 1) + of_bool (leap_year y)"
proof -
  have "y div 4 = (y - 1) div 4 + (of_bool (y mod 4 = 0) :: int)" by (rule div_step) simp
  moreover have "y div 100 = (y - 1) div 100 + (of_bool (y mod 100 = 0) :: int)"
    by (rule div_step) simp
  moreover have "y div 400 = (y - 1) div 400 + (of_bool (y mod 400 = 0) :: int)"
    by (rule div_step) simp
  ultimately have "leaps_to y = leaps_to (y - 1) +
      (of_bool (y mod 4 = 0) - of_bool (y mod 100 = 0) + of_bool (y mod 400 = 0))"
    unfolding leaps_to_def by presburger
  moreover have "y mod 100 = 0 \<Longrightarrow> y mod 4 = 0" and "y mod 400 = 0 \<Longrightarrow> y mod 100 = 0"
    using mod_mod_cancel [of 4 100 y] mod_mod_cancel [of 100 400 y] by simp_all
  ultimately show ?thesis
    unfolding leap_year_def by (simp only: of_bool_leap)
qed

lemma days_before_year_Suc: "days_before_year (y + 1) = days_before_year y + year_days y"
  using leaps_to_step [of y]
  by (cases "leap_year y") (simp_all add: days_before_year_def year_days_def)

text \<open>The year of a day count relative to January 1st of a guess \<open>y\<close>, and the day of that year.\<close>

function civil_year :: "int \<Rightarrow> int \<Rightarrow> int \<times> int" where
  "civil_year y d =
    (if d < 0 then civil_year (y - 1) (d + year_days (y - 1))
     else if d < year_days y then (y, d)
     else civil_year (y + 1) (d - year_days y))"
  by pat_completeness auto
termination
proof (relation "measure (\<lambda>(y, d). if d < 0 then 1000 + nat (- d) else nat d)", goal_cases)
  case (2 y d)
  then show ?case using year_days_bounds [of "y - 1"] by auto
next
  case (3 y d)
  then show ?case using year_days_bounds [of y] by auto
qed simp

declare civil_year.simps [simp del]

lemma civil_year_correct:
  "civil_year y d = (y', d') \<Longrightarrow>
    0 \<le> d' \<and> d' < year_days y' \<and> days_before_year y' + d' = days_before_year y + d"
proof (induction y d rule: civil_year.induct)
  case (1 y d)
  show ?case
  proof (cases "d < 0")
    case True
    with "1.prems" have eq: "civil_year (y - 1) (d + year_days (y - 1)) = (y', d')"
      by (simp add: civil_year.simps [of y d])
    from "1.IH"(1) [OF True eq] show ?thesis
      using days_before_year_Suc [of "y - 1"] by simp
  next
    case False
    show ?thesis
    proof (cases "d < year_days y")
      case True
      with False "1.prems" show ?thesis by (simp add: civil_year.simps [of y d])
    next
      case ge: False
      with False "1.prems" have eq: "civil_year (y + 1) (d - year_days y) = (y', d')"
        by (simp add: civil_year.simps [of y d])
      from "1.IH"(2) [OF False ge eq] show ?thesis
        using days_before_year_Suc [of y] by simp
    qed
  qed
qed

text \<open>The month of a day of the year.\<close>

function civil_month :: "int \<Rightarrow> int \<Rightarrow> int \<Rightarrow> int" where
  "civil_month y m d =
    (if m \<ge> 12 \<or> d < month_days y m then m else civil_month y (m + 1) (d - month_days y m))"
  by pat_completeness auto
termination
  by (relation "measure (\<lambda>(y, m, d). nat (12 - m))") auto

declare civil_month.simps [simp del]

lemma days_before_month_Suc:
  "1 \<le> m \<Longrightarrow> days_before_month y (m + 1) = days_before_month y m + month_days y m"
proof -
  assume "1 \<le> m"
  then have "[1..m] = [1..m - 1] @ [m]"
    using upto_split1 [of 1 "m" m] by (simp add: upto_rec2)
  then show ?thesis by (simp add: days_before_month_def)
qed

lemma days_before_month_1 [simp]: "days_before_month y 1 = 0"
  by (simp add: days_before_month_def)

lemma days_before_month_13: "days_before_month y 13 = year_days y"
  by (simp add: days_before_month_def month_days_def year_days_def upto.simps)

lemma civil_month_correct:
  assumes "1 \<le> m" "m \<le> 12" "0 \<le> d" "days_before_month y m + d < year_days y"
  shows "1 \<le> civil_month y m d \<and> civil_month y m d \<le> 12 \<and>
    days_before_month y (civil_month y m d) \<le> days_before_month y m + d \<and>
    days_before_month y m + d < days_before_month y (civil_month y m d + 1)"
  using assms
proof (induction y m d rule: civil_month.induct)
  case (1 y m d)
  show ?case
  proof (cases "m \<ge> 12 \<or> d < month_days y m")
    case True
    have "m = 12 \<Longrightarrow> days_before_month y (m + 1) = year_days y"
      using days_before_month_13 [of y] by simp
    with True 1(2-5) show ?thesis
      using days_before_month_Suc [of m y] by (auto simp: civil_month.simps [of y m d])
  next
    case False
    with 1(2-5) have "days_before_month y (m + 1) + (d - month_days y m) < year_days y"
      by (simp add: days_before_month_Suc)
    with False 1(2-5) have "1 \<le> civil_month y (m + 1) (d - month_days y m) \<and>
      civil_month y (m + 1) (d - month_days y m) \<le> 12 \<and>
      days_before_month y (civil_month y (m + 1) (d - month_days y m)) \<le> days_before_month y m + d \<and>
      days_before_month y m + d < days_before_month y (civil_month y (m + 1) (d - month_days y m) + 1)"
      using 1(1) [OF False] by (simp add: days_before_month_Suc [of m])
    with False show ?thesis
      by (simp only: civil_month.simps [of y m d] if_False)
  qed
qed

section \<open>Locations\<close>

type_synonym location = "int \<Rightarrow> int"

text \<open>\<open>time.Unix(t, 0).In(loc)\<close>, as year and month.\<close>

definition year_month_in :: "location \<Rightarrow> int \<Rightarrow> int \<times> int" where
  "year_month_in loc t =
    (let days = (t + loc t) div 86400; yd = civil_year 1970 days
     in (fst yd, civil_month (fst yd) 1 (snd yd)))"

text \<open>
  \<open>time.Date(y, m, 1, 0, 0, 0, 0, loc).Unix()\<close>: the month is normalised into the year, and the
  offset is the one in force at the instant the first guess gives.
\<close>

definition month_start_local :: "int \<Rightarrow> int \<Rightarrow> int" where
  "month_start_local y m =
    (let y' = y + (m - 1) div 12; m' = (m - 1) mod 12 + 1
     in 86400 * (days_before_year y' + days_before_month y' m'))"

definition month_start_unix :: "location \<Rightarrow> int \<Rightarrow> int \<Rightarrow> int" where
  "month_start_unix loc y m =
    (let t = month_start_local y m; off = loc t in if off = 0 then t else t - loc (t - off))"

lemma month_start_local_next:
  assumes "1 \<le> m" "m \<le> 12"
  shows "month_start_local y (m + 1) = 86400 * (days_before_year y + days_before_month y (m + 1))"
proof (cases "m = 12")
  case True
  then show ?thesis
    using days_before_month_13 [of y] by (simp add: month_start_local_def days_before_year_Suc)
next
  case False
  with assms have "m div 12 = 0" "m mod 12 = m" by auto
  then show ?thesis by (simp add: month_start_local_def add.commute)
qed

lemma month_start_local_this:
  assumes "1 \<le> m" "m \<le> 12"
  shows "month_start_local y m = 86400 * (days_before_year y + days_before_month y m)"
proof -
  from assms have "(m - 1) div 12 = 0" "(m - 1) mod 12 = m - 1" by auto
  then show ?thesis by (simp add: month_start_local_def)
qed

text \<open>A local time lies between the first instant of its month and that of the next one.\<close>

lemma year_month_bounds:
  assumes "year_month_in loc t = (y, m)"
  shows "1 \<le> m" "m \<le> 12" "month_start_local y m \<le> t + loc t"
    "t + loc t < month_start_local y (m + 1)"
proof -
  define days where "days = (t + loc t) div 86400"
  obtain d where yd: "civil_year 1970 days = (y, d)" and m: "m = civil_month y 1 d"
    using assms by (auto simp: year_month_in_def days_def Let_def prod_eq_iff)
  from civil_year_correct [OF yd]
  have d: "0 \<le> d" "d < year_days y" "days_before_year y + d = days"
    by (simp_all add: days_before_year_def)
  from civil_month_correct [of 1 d y] d m
  have mm: "1 \<le> m" "m \<le> 12" "days_before_month y m \<le> d" "d < days_before_month y (m + 1)"
    by simp_all
  then show "1 \<le> m" "m \<le> 12" by simp_all
  have t: "86400 * days \<le> t + loc t" "t + loc t < 86400 * (days + 1)"
    unfolding days_def by (simp_all add: pos_mod_bound minus_mod_eq_mult_div [symmetric])
  from mm d t show "month_start_local y m \<le> t + loc t"
    by (simp add: month_start_local_this)
  from mm d t show "t + loc t < month_start_local y (m + 1)"
    by (simp add: month_start_local_next)
qed

lemma month_start_unix_fixed: "month_start_unix (\<lambda>_. off) y m = month_start_local y m - off"
  by (simp add: month_start_unix_def Let_def)

end
