(* ===== verification/Metering.thy ===== *)
theory Metering
  imports Calendar
begin

text \<open>
  The account and quota domain of \<open>backend/internal/domain\<close>: the data of \<open>account.go\<close> and
  \<open>entitlement.go\<close> (\<open>MountAccess\<close>, \<open>QuotaMeter\<close>, \<open>Entitlement\<close>, \<open>PlanSlot\<close>, \<open>User\<close>,
  \<open>Record\<close>), the weighted traffic arithmetic (\<open>WeightedBytes\<close>, \<open>AddCounter\<close>) at its 64-bit
  width and as the integer function it refines, the quota reading of a user and the quota
  period boundaries (\<open>NextPeriod\<close>).
\<close>

section \<open>Counters\<close>

definition CounterLimit :: int where
  "CounterLimit = 2 ^ 60"

lemma CounterLimit_num: "CounterLimit = 1152921504606846976"
  by (simp add: CounterLimit_def)

datatype meter_error =
    InvalidWeightedTraffic | WeightedLimitExceeded | TrafficLimitExceeded
  | InvalidQuotaCycle | UnknownTimezone

text \<open>\<open>WeightedBytes\<close> as written, on \<open>int64\<close>: the product is split so that it cannot overflow.\<close>

definition WeightedBytes64 :: "int64 \<Rightarrow> int64 \<Rightarrow> int64 \<Rightarrow> meter_error + (int64 \<times> int64)" where
  "WeightedBytes64 bytes rate remainder =
    (let limit = word_of_int CounterLimit in
     if bytes <s 0 \<or> limit <s bytes \<or> rate <s 0 \<or> 100000 <s rate \<or> rem64 rate 10 \<noteq> 0
        \<or> remainder <s 0 \<or> 1000 \<le>s remainder
     then Inl InvalidWeightedTraffic
     else
       let whole = quot64 bytes 1000; fraction = rem64 bytes 1000 * rate + remainder in
       if 0 <s rate \<and> quot64 (limit - quot64 fraction 1000) rate <s whole
       then Inl WeightedLimitExceeded
       else Inr (whole * rate + quot64 fraction 1000, rem64 fraction 1000))"

text \<open>The same function on mathematical integers.\<close>

definition WeightedBytes :: "int \<Rightarrow> int \<Rightarrow> int \<Rightarrow> meter_error + (int \<times> int)" where
  "WeightedBytes bytes rate remainder =
    (if bytes < 0 \<or> CounterLimit < bytes \<or> rate < 0 \<or> 100000 < rate \<or> rate mod 10 \<noteq> 0
        \<or> remainder < 0 \<or> 1000 \<le> remainder
     then Inl InvalidWeightedTraffic
     else
       let whole = bytes div 1000; fraction = (bytes mod 1000) * rate + remainder in
       if 0 < rate \<and> (CounterLimit - fraction div 1000) div rate < whole
       then Inl WeightedLimitExceeded
       else Inr (whole * rate + fraction div 1000, fraction mod 1000))"

definition AddCounter64 :: "int64 \<Rightarrow> int64 \<Rightarrow> meter_error + int64" where
  "AddCounter64 previous delta =
    (if previous <s 0 \<or> delta <s 0 \<or> word_of_int CounterLimit - delta <s previous
     then Inl TrafficLimitExceeded else Inr (previous + delta))"

definition AddCounter :: "int \<Rightarrow> int \<Rightarrow> meter_error + int" where
  "AddCounter previous delta =
    (if previous < 0 \<or> delta < 0 \<or> CounterLimit - delta < previous
     then Inl TrafficLimitExceeded else Inr (previous + delta))"

text \<open>Reading a 64-bit result as integers.\<close>

definition sint_pair :: "meter_error + (int64 \<times> int64) \<Rightarrow> meter_error + (int \<times> int)" where
  "sint_pair = map_sum id (map_prod sint sint)"

subsection \<open>No intermediate value leaves the 64-bit range\<close>

lemma sint_word_CounterLimit: "sint (word_of_int CounterLimit :: int64) = CounterLimit"
  by (rule sint_of_in64) (simp add: CounterLimit_def in64_def)

lemma sint_quot64:
  assumes "0 \<le> sint a" "0 < sint b"
  shows "sint (quot64 a b) = sint a div sint b"
proof -
  have "0 \<le> sint a div sint b" "sint a div sint b \<le> sint a"
    using assms int_div_le_self [of "sint a" "sint b"]
    by (cases "sint a = 0"; simp add: pos_imp_zdiv_nonneg_iff)+
  with sint_in64 [of a] have "in64 (sint a div sint b)"
    by (simp add: in64_def)
  with assms show ?thesis by (simp add: quot64_def sdiv_nonneg sint_of_in64)
qed

lemma sint_rem64:
  assumes "0 \<le> sint a" "0 < sint b"
  shows "sint (rem64 a b) = sint a mod sint b"
proof -
  have "in64 (sint a mod sint b)"
    using sint_in64 [of b] pos_mod_bound [of "sint b" "sint a"] pos_mod_sign [of "sint b" "sint a"] assms
    unfolding in64_def by linarith
  with assms show ?thesis by (simp add: rem64_def smod_nonneg sint_of_in64)
qed

lemma sint_small_numerals:
  "sint (1000 :: int64) = 1000" "sint (100000 :: int64) = 100000" "sint (10 :: int64) = 10"
  by simp_all

lemma WeightedBytes64_guard:
  fixes bytes rate remainder :: int64
  shows "(bytes <s 0 \<or> word_of_int CounterLimit <s bytes \<or> rate <s 0 \<or> 100000 <s rate \<or> rem64 rate 10 \<noteq> 0
     \<or> remainder <s 0 \<or> 1000 \<le>s remainder) \<longleftrightarrow>
   (sint bytes < 0 \<or> CounterLimit < sint bytes \<or> sint rate < 0 \<or> 100000 < sint rate
     \<or> sint rate mod 10 \<noteq> 0 \<or> sint remainder < 0 \<or> 1000 \<le> sint remainder)"
proof (cases "sint rate < 0")
  case False
  then have "rem64 rate 10 = 0 \<longleftrightarrow> sint rate mod 10 = 0"
    using sint_rem64 [of rate 10] signed_eq_0_iff [where 'a = int, of "rem64 rate 10"] by simp
  then show ?thesis
    by (simp add: word_sless_alt word_sle_eq sint_word_CounterLimit)
qed (simp add: word_sless_alt)

text \<open>Bounds of the two products of the code, over the integers.\<close>

lemma fraction_bounds:
  fixes b r m :: int
  assumes "0 \<le> r" "r \<le> 100000" "0 \<le> m" "m < 1000"
  shows "0 \<le> (b mod 1000) * r" "0 \<le> (b mod 1000) * r + m" "(b mod 1000) * r + m \<le> 99900999"
    "0 \<le> ((b mod 1000) * r + m) div 1000" "((b mod 1000) * r + m) div 1000 \<le> 99900"
proof -
  have "(b mod 1000) * r \<le> 999 * 100000"
    using assms pos_mod_bound [of 1000 b] by (intro mult_mono) simp_all
  then show hi: "(b mod 1000) * r + m \<le> 99900999" using assms by simp
  show "0 \<le> (b mod 1000) * r" using assms by simp
  then show lo: "0 \<le> (b mod 1000) * r + m" using assms by simp
  from hi lo show "0 \<le> ((b mod 1000) * r + m) div 1000" "((b mod 1000) * r + m) div 1000 \<le> 99900"
    by (simp, linarith)
qed

lemma whole_product_bounds:
  fixes w r q :: int
  assumes "0 \<le> w" "0 \<le> r" "q \<le> CounterLimit" "\<not> (0 < r \<and> (CounterLimit - q) div r < w)"
  shows "0 \<le> w * r" "w * r \<le> CounterLimit - q"
proof -
  show "0 \<le> w * r" using assms by simp
  show "w * r \<le> CounterLimit - q"
  proof (cases "0 < r")
    case True
    with assms have "w * r \<le> (CounterLimit - q) div r * r" by simp
    also have "\<dots> \<le> CounterLimit - q"
      using True minus_mod_eq_div_mult [of "CounterLimit - q" r] pos_mod_sign [of r "CounterLimit - q"]
      by linarith
    finally show ?thesis .
  qed (use assms in simp)
qed

text \<open>The 64-bit values of the code's intermediate results, inside the accepted range.\<close>

lemma WeightedBytes64_fraction:
  fixes bytes rate remainder :: int64
  assumes "0 \<le> sint bytes" "0 \<le> sint rate" "sint rate \<le> 100000" "0 \<le> sint remainder" "sint remainder < 1000"
  defines "f \<equiv> (sint bytes mod 1000) * sint rate + sint remainder"
    and "fw \<equiv> rem64 bytes 1000 * rate + remainder"
  shows "sint (quot64 fw 1000) = f div 1000" "sint (rem64 fw 1000) = f mod 1000"
    "sint (word_of_int CounterLimit - quot64 fw 1000) = CounterLimit - f div 1000"
proof -
  note fb = fraction_bounds [OF assms(2-5), of "sint bytes", folded f_def]
  have rem: "sint (rem64 bytes 1000) = sint bytes mod 1000"
    using assms sint_rem64 [of bytes 1000] by simp
  have "sint (rem64 bytes 1000 * rate) = (sint bytes mod 1000) * sint rate"
    using fb assms(4,5) rem by (subst sint_times) (auto simp: in64_def f_def)
  then have fw: "sint fw = f"
    unfolding fw_def using fb by (subst sint_plus) (simp_all add: in64_def f_def)
  show q: "sint (quot64 fw 1000) = f div 1000" "sint (rem64 fw 1000) = f mod 1000"
    using fb fw sint_quot64 [of fw 1000] sint_rem64 [of fw 1000] by simp_all
  show "sint (word_of_int CounterLimit - quot64 fw 1000) = CounterLimit - f div 1000"
    using fb q by (subst sint_minus) (simp_all add: sint_word_CounterLimit in64_def CounterLimit_def)
qed

lemma sint_product_sum:
  fixes w r q :: int64
  assumes "0 \<le> sint w" "0 \<le> sint r" "0 \<le> sint q" "sint q \<le> CounterLimit"
    and "\<not> (0 < sint r \<and> (CounterLimit - sint q) div sint r < sint w)"
  shows "sint (w * r + q) = sint w * sint r + sint q"
proof -
  note pb = whole_product_bounds [OF assms(1,2,4,5)]
  then have "in64 (sint w * sint r)"
    using assms(3,4) unfolding in64_num CounterLimit_num by linarith
  moreover have "in64 (sint w * sint r + sint q)"
    using pb assms(3,4) unfolding in64_num CounterLimit_num by linarith
  ultimately show ?thesis by (simp add: sint_plus sint_times)
qed

text \<open>For every choice of 64-bit arguments the code computes the integer function.\<close>

lemma WeightedBytes64_sint:
  "sint_pair (WeightedBytes64 bytes rate remainder) =
     WeightedBytes (sint bytes) (sint rate) (sint remainder)"
proof (cases "sint bytes < 0 \<or> CounterLimit < sint bytes \<or> sint rate < 0 \<or> 100000 < sint rate
     \<or> sint rate mod 10 \<noteq> 0 \<or> sint remainder < 0 \<or> 1000 \<le> sint remainder")
  case True
  then show ?thesis
    unfolding WeightedBytes64_def Let_def WeightedBytes64_guard
    by (simp add: WeightedBytes_def sint_pair_def)
next
  case False
  define w fw where "w = quot64 bytes 1000" and "fw = rem64 bytes 1000 * rate + remainder"
  define f where "f = (sint bytes mod 1000) * sint rate + sint remainder"
  have w: "sint w = sint bytes div 1000" "0 \<le> sint w"
    using False sint_quot64 [of bytes 1000] by (simp_all add: w_def pos_imp_zdiv_nonneg_iff)
  have fq: "sint (quot64 fw 1000) = f div 1000" "sint (rem64 fw 1000) = f mod 1000"
    and lim: "sint (word_of_int CounterLimit - quot64 fw 1000) = CounterLimit - f div 1000"
    using False WeightedBytes64_fraction [of bytes rate remainder] by (simp_all add: fw_def f_def)
  have fd: "0 \<le> f div 1000" "f div 1000 \<le> 99900"
    using False fraction_bounds(4,5) [of "sint rate" "sint remainder"] by (simp_all add: f_def)
  have test: "0 <s rate \<and> quot64 (word_of_int CounterLimit - quot64 fw 1000) rate <s w
      \<longleftrightarrow> 0 < sint rate \<and> (CounterLimit - f div 1000) div sint rate < sint w"
    using fd lim sint_quot64 [of "word_of_int CounterLimit - quot64 fw 1000" rate]
    by (auto simp: word_sless_alt CounterLimit_def)
  show ?thesis
  proof (cases "0 < sint rate \<and> (CounterLimit - f div 1000) div sint rate < sint w")
    case over: True
    with False test w show ?thesis
      unfolding WeightedBytes64_def Let_def WeightedBytes64_guard WeightedBytes_def
      by (simp add: sint_pair_def fw_def [symmetric] w_def [symmetric] f_def [symmetric])
  next
    case fits: False
    with w(2) fq fd False have "sint (w * rate + quot64 fw 1000) = sint w * sint rate + f div 1000"
      using sint_product_sum [of w rate "quot64 fw 1000"] by (simp add: CounterLimit_def)
    with False fits test w fq show ?thesis
      unfolding WeightedBytes64_def Let_def WeightedBytes64_guard WeightedBytes_def
      by (auto simp: sint_pair_def fw_def [symmetric] w_def [symmetric] f_def [symmetric])
  qed
qed

lemma AddCounter64_sint: "map_sum id sint (AddCounter64 p d) = AddCounter (sint p) (sint d)"
proof (cases "sint p < 0 \<or> sint d < 0")
  case False
  have lim: "sint (word_of_int CounterLimit - d) = CounterLimit - sint d"
    using False sint_in64 [of d]
    by (subst sint_minus) (auto simp: sint_word_CounterLimit in64_def CounterLimit_def)
  show ?thesis
  proof (cases "CounterLimit - sint d < sint p")
    case ok: False
    then have "sint (p + d) = sint p + sint d"
      using False by (subst sint_plus) (simp_all add: in64_def CounterLimit_def)
    with ok False lim show ?thesis
      by (simp add: AddCounter64_def AddCounter_def word_sless_alt)
  qed (use lim in \<open>simp add: AddCounter64_def AddCounter_def word_sless_alt\<close>)
qed (auto simp: AddCounter64_def AddCounter_def word_sless_alt)

subsection \<open>What a weighted charge is worth\<close>

definition weighted_args :: "int \<Rightarrow> int \<Rightarrow> int \<Rightarrow> bool" where
  "weighted_args bytes rate remainder \<longleftrightarrow>
    0 \<le> bytes \<and> bytes \<le> CounterLimit \<and> 0 \<le> rate \<and> rate \<le> 100000 \<and> rate mod 10 = 0
    \<and> 0 \<le> remainder \<and> remainder < 1000"

lemma div_mult_less_iff: "0 < r \<Longrightarrow> a div r < w \<longleftrightarrow> a < w * (r :: int)"
proof -
  assume r: "0 < r"
  have "a div r < w \<longleftrightarrow> \<not> w \<le> a div r" by auto
  also have "w \<le> a div r \<longleftrightarrow> w * r \<le> a"
  proof
    assume "w \<le> a div r"
    with r have "w * r \<le> a div r * r" by simp
    with r show "w * r \<le> a"
      using minus_mod_eq_div_mult [of a r] pos_mod_sign [of r a] by linarith
  next
    assume "w * r \<le> a"
    with r show "w \<le> a div r" using zdiv_mono1 [of "w * r" a r] by simp
  qed
  finally show ?thesis by auto
qed

lemma split_product:
  fixes b r m :: int
  shows "b div 1000 * r + ((b mod 1000) * r + m) div 1000 = (b * r + m) div 1000"
    and "((b mod 1000) * r + m) mod 1000 = (b * r + m) mod 1000"
proof -
  have "(b div 1000 * 1000 + b mod 1000) * r + m = b div 1000 * r * 1000 + ((b mod 1000) * r + m)"
    by (simp only: algebra_simps)
  then have eq: "b * r + m = b div 1000 * r * 1000 + ((b mod 1000) * r + m)"
    by simp
  have "(w * 1000 + f) div 1000 = w + f div 1000" "(w * 1000 + f) mod 1000 = f mod 1000" for w f :: int
    by simp_all
  then show "b div 1000 * r + ((b mod 1000) * r + m) div 1000 = (b * r + m) div 1000"
    and "((b mod 1000) * r + m) mod 1000 = (b * r + m) mod 1000"
    unfolding eq by (simp_all only:)
qed

lemma WeightedBytes_fits_iff:
  assumes "weighted_args b r m"
  shows "(0 < r \<and> (CounterLimit - ((b mod 1000) * r + m) div 1000) div r < b div 1000)
    \<longleftrightarrow> CounterLimit < (b * r + m) div 1000"
proof (cases "0 < r")
  case True
  define q where "q = ((b mod 1000) * r + m) div 1000"
  have "(CounterLimit - q) div r < b div 1000 \<longleftrightarrow> CounterLimit - q < b div 1000 * r"
    using True div_mult_less_iff [of r "CounterLimit - q" "b div 1000"] by simp
  with True split_product(1) [of b r m] show ?thesis by (auto simp: q_def)
next
  case False
  with assms have "r = 0" by (simp add: weighted_args_def)
  with assms show ?thesis by (simp add: weighted_args_def CounterLimit_num)
qed

text \<open>The charge is the exact weighted amount; the residue below one byte is carried.\<close>

lemma WeightedBytes_eq:
  "WeightedBytes b r m =
    (if \<not> weighted_args b r m then Inl InvalidWeightedTraffic
     else if CounterLimit < (b * r + m) div 1000 then Inl WeightedLimitExceeded
     else Inr ((b * r + m) div 1000, (b * r + m) mod 1000))"
proof (cases "weighted_args b r m")
  case True
  then show ?thesis
    unfolding WeightedBytes_def Let_def WeightedBytes_fits_iff [OF True] split_product
    by (simp add: weighted_args_def not_less)
next
  case False
  then show ?thesis by (auto simp: WeightedBytes_def weighted_args_def)
qed

lemma WeightedBytes_exact:
  assumes "WeightedBytes b r m = Inr (q, m')"
  shows "1000 * q + m' = b * r + m" "0 \<le> q" "q \<le> CounterLimit" "0 \<le> m'" "m' < 1000"
proof -
  from assms have ok: "weighted_args b r m" "(b * r + m) div 1000 \<le> CounterLimit"
    and q: "q = (b * r + m) div 1000" "m' = (b * r + m) mod 1000"
    by (auto simp: WeightedBytes_eq split: if_splits)
  from ok have "0 \<le> b * r + m" by (simp add: weighted_args_def)
  with ok q show "1000 * q + m' = b * r + m" "0 \<le> q" "q \<le> CounterLimit" "0 \<le> m'" "m' < 1000"
    by (simp_all add: pos_imp_zdiv_nonneg_iff)
qed

lemma AddCounter_Inr [simp]:
  "AddCounter p d = Inr t \<longleftrightarrow> 0 \<le> p \<and> 0 \<le> d \<and> p + d \<le> CounterLimit \<and> t = p + d"
  by (auto simp: AddCounter_def)

text \<open>
  A stream of samples of one direction at one rate, as the metering loop charges it: each
  sample is weighted with the residue of the previous one and added to the counter.
\<close>

definition charge_sample :: "int \<Rightarrow> int \<Rightarrow> int \<times> int \<Rightarrow> meter_error + (int \<times> int)" where
  "charge_sample rate delta s =
    bind_res (WeightedBytes delta rate (snd s)) (\<lambda>(cost, residue).
    bind_res (AddCounter (fst s) cost) (\<lambda>total. Inr (total, residue)))"

lemma charge_sample_exact:
  "charge_sample rate delta s = Inr t \<Longrightarrow>
    1000 * fst t + snd t = 1000 * fst s + snd s + rate * delta \<and> 0 \<le> snd t \<and> snd t < 1000"
  by (auto simp: charge_sample_def res_simps algebra_simps dest: WeightedBytes_exact)

lemma charge_samples_exact:
  "fold_res (charge_sample rate) deltas s = Inr t \<Longrightarrow> 0 \<le> snd s \<Longrightarrow> snd s < 1000 \<Longrightarrow>
    1000 * fst t + snd t = 1000 * fst s + snd s + rate * sum_list deltas \<and> 0 \<le> snd t \<and> snd t < 1000"
proof (induction deltas arbitrary: s)
  case (Cons d ds)
  then obtain s' where "charge_sample rate d s = Inr s'" "fold_res (charge_sample rate) ds s' = Inr t"
    by (auto simp: res_simps)
  with Cons.IH [of s'] charge_sample_exact [of rate d s s'] show ?case
    by (simp add: algebra_simps)
qed simp

section \<open>Accounts\<close>

record MountAccess =
  ma_TokenID :: string
  ma_MasterID :: string
  ma_UserID :: int
  ma_NodeIDs :: "string list"
  ma_LeaseUntil :: int
  ma_Revision :: int
  ma_Generation :: string

record QuotaMeter =
  qm_InitialUpload :: int
  qm_InitialDownload :: int
  qm_PeriodID :: string
  qm_Start :: int
  qm_End :: int
  qm_PendingReset :: bool
  qm_Upload :: int
  qm_Download :: int
  qm_UploadRemainder :: int
  qm_DownloadRemainder :: int
  qm_BaseUpload :: int
  qm_BaseDownload :: int
  qm_RawBaseUpload :: int
  qm_RawBaseDownload :: int

text \<open>The Go map of node rates is an association list with distinct keys.\<close>

type_synonym rates = "(string \<times> int) list"

record Entitlement =
  en_PlanID :: string
  en_OrderID :: string
  en_RenewalOrderID :: string
  en_Version :: int
  en_Name :: string
  en_GroupIDs :: "string list"
  en_NodeIDs :: "string list"
  en_NodeRates :: rates
  en_Cycle :: string
  en_Timezone :: string
  en_AssignedAt :: int
  en_Revision :: string

record PlanSlot =
  ps_Entitlement :: "Entitlement option"
  ps_OrderID :: string
  ps_RenewalOrderID :: string
  ps_NodeRates :: rates
  ps_Quota :: int
  ps_Expires :: int
  ps_PausedAt :: int
  ps_VLESS :: bool
  ps_HY2 :: bool
  ps_Meter :: "QuotaMeter option"

record User =
  u_NodeGroupIDs :: "string list option"
  u_Mount :: "MountAccess option"
  u_Archived :: bool
  u_ID :: int
  u_Username :: string
  u_Role :: string
  u_Enabled :: bool
  u_VLESS :: bool
  u_HY2 :: bool
  u_Expires :: int
  u_Quota :: int
  u_Upload :: int
  u_Download :: int
  u_VLESSTraffic :: int
  u_HY2Traffic :: int
  u_Created :: int
  u_LastSub :: int
  u_CompiledGroups :: "string list option"
  u_Meter :: "QuotaMeter option"
  u_Entitlement :: "Entitlement option"
  u_PlanQueue :: "PlanSlot list"

record Credentials =
  cr_PublicToken :: string
  cr_HYGeneration :: nat
  cr_HY2 :: string
  cr_Token :: string
  cr_VLESS :: "(string \<times> string) list"

text \<open>
  \<open>Record\<close> embeds \<open>User\<close>: it is the record extension of \<open>User\<close> by the stored credentials and
  the resolved group access.
\<close>

record Record = User +
  r_Credentials :: Credentials
  r_Password :: string
  r_AccessResolved :: bool
  r_AllowedGroups :: "string list"

section \<open>Quota readings\<close>

definition QuotaUpload :: "('a) User_scheme \<Rightarrow> int" where
  "QuotaUpload u = (case u_Meter u of None \<Rightarrow> u_Upload u
     | Some m \<Rightarrow> max 0 (qm_Upload m - qm_BaseUpload m))"

definition QuotaDownload :: "('a) User_scheme \<Rightarrow> int" where
  "QuotaDownload u = (case u_Meter u of None \<Rightarrow> u_Download u
     | Some m \<Rightarrow> max 0 (qm_Download m - qm_BaseDownload m))"

definition QuotaUsed :: "('a) User_scheme \<Rightarrow> int" where
  "QuotaUsed u = QuotaUpload u + QuotaDownload u"

definition empty_meter :: QuotaMeter where
  "empty_meter = \<lparr>qm_InitialUpload = 0, qm_InitialDownload = 0, qm_PeriodID = [], qm_Start = 0,
    qm_End = 0, qm_PendingReset = False, qm_Upload = 0, qm_Download = 0, qm_UploadRemainder = 0,
    qm_DownloadRemainder = 0, qm_BaseUpload = 0, qm_BaseDownload = 0, qm_RawBaseUpload = 0,
    qm_RawBaseDownload = 0\<rparr>"

definition InitMeter :: "string \<Rightarrow> int \<Rightarrow> ('a) User_scheme \<Rightarrow> ('a) User_scheme" where
  "InitMeter period now u =
    (if u_Meter u \<noteq> None then u
     else u\<lparr>u_Meter := Some (empty_meter\<lparr>qm_PeriodID := period, qm_Start := now,
       qm_Upload := u_Upload u, qm_Download := u_Download u,
       qm_InitialUpload := u_Upload u, qm_InitialDownload := u_Download u\<rparr>)\<rparr>)"

definition Active :: "int \<Rightarrow> ('a) User_scheme \<Rightarrow> bool" where
  "Active now u \<longleftrightarrow>
     u_Enabled u
   \<and> (case u_Mount u of None \<Rightarrow> True | Some m \<Rightarrow> ma_LeaseUntil m > now)
   \<and> (u_Expires u = 0 \<or> u_Expires u > now)
   \<and> (case u_Meter u of None \<Rightarrow> True
       | Some m \<Rightarrow> \<not> qm_PendingReset m \<and> (qm_End m = 0 \<or> qm_End m > now))
   \<and> (u_Quota u = 0 \<or> QuotaUsed u < u_Quota u)"

lemma QuotaUsed_cong:
  "u_Meter u = u_Meter v \<Longrightarrow> u_Upload u = u_Upload v \<Longrightarrow> u_Download u = u_Download v \<Longrightarrow>
    QuotaUsed u = QuotaUsed v"
  by (simp add: QuotaUsed_def QuotaUpload_def QuotaDownload_def split: option.splits)

lemma InitMeter_Some [simp]: "u_Meter u = Some m \<Longrightarrow> InitMeter p now u = u"
  by (simp add: InitMeter_def)

lemma InitMeter_has_meter: "\<exists>m. u_Meter (InitMeter p now u) = Some m"
  by (cases "u_Meter u") (simp_all add: InitMeter_def)

lemma InitMeter_fields [simp]:
  "u_ID (InitMeter p now u) = u_ID u" "u_Entitlement (InitMeter p now u) = u_Entitlement u"
  "u_PlanQueue (InitMeter p now u) = u_PlanQueue u" "u_Expires (InitMeter p now u) = u_Expires u"
  "u_Quota (InitMeter p now u) = u_Quota u" "u_Enabled (InitMeter p now u) = u_Enabled u"
  "u_Role (InitMeter p now u) = u_Role u" "u_Upload (InitMeter p now u) = u_Upload u"
  "u_Download (InitMeter p now u) = u_Download u" "u_VLESS (InitMeter p now u) = u_VLESS u"
  "u_HY2 (InitMeter p now u) = u_HY2 u" "u_Mount (InitMeter p now u) = u_Mount u"
  "u_NodeGroupIDs (InitMeter p now u) = u_NodeGroupIDs u"
  by (simp_all add: InitMeter_def)

text \<open>The counters every accepted update keeps inside; their sums stay far from 64 bits.\<close>

definition meter_in_range :: "QuotaMeter \<Rightarrow> bool" where
  "meter_in_range m \<longleftrightarrow>
    0 \<le> qm_Upload m \<and> qm_Upload m \<le> CounterLimit \<and> 0 \<le> qm_Download m \<and> qm_Download m \<le> CounterLimit
    \<and> 0 \<le> qm_UploadRemainder m \<and> qm_UploadRemainder m < 1000
    \<and> 0 \<le> qm_DownloadRemainder m \<and> qm_DownloadRemainder m < 1000
    \<and> 0 \<le> qm_BaseUpload m \<and> qm_BaseUpload m \<le> CounterLimit
    \<and> 0 \<le> qm_BaseDownload m \<and> qm_BaseDownload m \<le> CounterLimit"

definition user_in_range :: "('a) User_scheme \<Rightarrow> bool" where
  "user_in_range u \<longleftrightarrow>
    0 \<le> u_Upload u \<and> u_Upload u \<le> CounterLimit \<and> 0 \<le> u_Download u \<and> u_Download u \<le> CounterLimit
    \<and> 0 \<le> u_VLESSTraffic u \<and> u_VLESSTraffic u \<le> CounterLimit
    \<and> 0 \<le> u_HY2Traffic u \<and> u_HY2Traffic u \<le> CounterLimit
    \<and> (case u_Meter u of None \<Rightarrow> True | Some m \<Rightarrow> meter_in_range m)"

lemma QuotaUsed_bounds: "user_in_range u \<Longrightarrow> 0 \<le> QuotaUsed u \<and> QuotaUsed u \<le> 2 * CounterLimit"
  by (auto simp: user_in_range_def meter_in_range_def QuotaUsed_def QuotaUpload_def QuotaDownload_def
      split: option.splits)

lemma InitMeter_in_range: "user_in_range u \<Longrightarrow> user_in_range (InitMeter p now u)"
  by (cases "u_Meter u") (auto simp: user_in_range_def InitMeter_def meter_in_range_def empty_meter_def CounterLimit_def)

section \<open>Quota periods\<close>

text \<open>
  \<open>NextPeriod\<close>; the time zone database (\<open>time.LoadLocation\<close>) is the parameter \<open>tz\<close>.
\<close>

definition NextPeriod :: "(string \<Rightarrow> location option) \<Rightarrow> int \<Rightarrow> string \<Rightarrow> string \<Rightarrow> meter_error + int" where
  "NextPeriod tz start cycle zone =
    (if cycle = '''' \<or> cycle = ''none'' then Inr 0
     else if cycle = ''30d'' then Inr (start + 30 * 86400)
     else if cycle = ''month'' then
       (case tz zone of
          None \<Rightarrow> Inl UnknownTimezone
        | Some loc \<Rightarrow> (let (y, m) = year_month_in loc start in Inr (month_start_unix loc y (m + 1))))
     else Inl InvalidQuotaCycle)"

lemma NextPeriod_month_fixed:
  assumes "tz zone = Some (\<lambda>_. off)" and "NextPeriod tz start ''month'' zone = Inr next"
  shows "start < next"
    and "\<exists>y m. 1 \<le> m \<and> m \<le> 12 \<and> next = month_start_local y (m + 1) - off \<and> month_start_local y m - off \<le> start"
proof -
  obtain y m where ym: "year_month_in (\<lambda>_. off) start = (y, m)" by fastforce
  with assms have "next = month_start_local y (m + 1) - off"
    by (simp add: NextPeriod_def month_start_unix_fixed)
  with year_month_bounds [OF ym] have "start < next \<and> 1 \<le> m \<and> m \<le> 12 \<and>
    next = month_start_local y (m + 1) - off \<and> month_start_local y m - off \<le> start" by simp
  then show "start < next"
    and "\<exists>y m. 1 \<le> m \<and> m \<le> 12 \<and> next = month_start_local y (m + 1) - off \<and> month_start_local y m - off \<le> start"
    by blast+
qed

end
