(* ===== verification/Ledger.thy ===== *)
theory Ledger
  imports Metering "HOL-Library.AList"
begin

text \<open>
  The wallet ledger (\<open>backend/internal/controlplane/commerce_types.go\<close>, \<open>postMoney\<close>): the
  tables \<open>wallet_accounts\<close>, \<open>money_transactions\<close> and \<open>money_entries\<close> with the constraints of
  the schema, the posting of one movement inside a transaction, and the reconciliation that
  \<open>commerce_integrity.go\<close> runs at startup. An error result stands for the rolled back
  transaction: the caller keeps the ledger it had.
\<close>

section \<open>Errors of the commerce handlers\<close>

text \<open>
  \<open>Fail status what\<close> is a \<open>commerceError\<close> (the message in English), \<open>Conflict\<close> is
  \<open>errCommerceConflict\<close>, \<open>NoRows\<close> is \<open>sql.ErrNoRows\<close>, \<open>Unique\<close> a violated unique index.
\<close>

datatype commerce_error =
    Fail nat string
  | Conflict
  | NoRows string
  | Unique string
  | Meter meter_error
  | Broken string

definition moneyLimit :: int where
  "moneyLimit = 100000000000"

section \<open>Tables\<close>

record Wallet =
  w_available :: int
  w_held :: int
  w_revision :: int

record MoneyTx =
  mt_id :: string
  mt_event_key :: string
  mt_user :: int
  mt_actor :: int
  mt_revision :: int
  mt_kind :: string
  mt_amount :: int
  mt_available :: int
  mt_held :: int
  mt_reason :: string
  mt_reference :: string
  mt_created :: int

record MoneyEntry =
  me_tx :: string
  me_account :: string
  me_amount :: int

record ledger =
  l_wallets :: "(int \<times> Wallet) list"
  l_txs :: "MoneyTx list"
  l_entries :: "MoneyEntry list"

definition empty_ledger :: ledger where
  "empty_ledger = \<lparr>l_wallets = [], l_txs = [], l_entries = []\<rparr>"

definition new_wallet :: Wallet where
  "new_wallet = \<lparr>w_available = 0, w_held = 0, w_revision = 0\<rparr>"

text \<open>\<open>wallet\<close>: a user without a row has an empty wallet.\<close>

definition wallet_of :: "ledger \<Rightarrow> int \<Rightarrow> Wallet" where
  "wallet_of L user = (case map_of (l_wallets L) user of None \<Rightarrow> new_wallet | Some w \<Rightarrow> w)"

definition available_account :: "int \<Rightarrow> string" where
  "available_account user = ''user:'' @ itoa user @ '':available''"

definition held_account :: "int \<Rightarrow> string" where
  "held_account user = ''user:'' @ itoa user @ '':held''"

definition system_account :: "string \<Rightarrow> string" where
  "system_account kind = ''system:'' @ kind"

lemma append_eq_same_suffix: "a @ c = b @ c \<longleftrightarrow> a = b"
  by simp

lemma account_names [simp]:
  "available_account a = available_account b \<longleftrightarrow> a = b"
  "held_account a = held_account b \<longleftrightarrow> a = b"
  "available_account a \<noteq> held_account b" "held_account b \<noteq> available_account a"
  "system_account k \<noteq> available_account a" "available_account a \<noteq> system_account k"
  "system_account k \<noteq> held_account a" "held_account a \<noteq> system_account k"
proof -
  have "last (available_account a) \<noteq> last (held_account b)"
    by (simp add: available_account_def held_account_def)
  then show "available_account a \<noteq> held_account b" "held_account b \<noteq> available_account a" by metis+
qed (simp_all add: available_account_def held_account_def system_account_def)

section \<open>Posting a movement\<close>

text \<open>The bounds of the conditional \<open>UPDATE wallet_accounts\<close>.\<close>

definition movement_allowed :: "Wallet \<Rightarrow> int \<Rightarrow> int \<Rightarrow> bool" where
  "movement_allowed w da dh \<longleftrightarrow>
    w_available w + da \<ge> 0 \<and> w_available w + da \<le> moneyLimit \<and>
    w_held w + dh \<ge> 0 \<and> w_held w + dh \<le> moneyLimit \<and>
    w_available w + w_held w + da + dh \<le> moneyLimit"

text \<open>The balances the previous transaction of the wallet recorded.\<close>

definition checkpoint :: "ledger \<Rightarrow> int \<Rightarrow> int \<Rightarrow> (int \<times> int) option" where
  "checkpoint L user revision =
    (if revision > 1 then
       map_option (\<lambda>t. (mt_available t, mt_held t))
         (find (\<lambda>t. mt_user t = user \<and> mt_revision t = revision - 1) (l_txs L))
     else Some (0, 0))"

definition ledger_entries :: "string \<Rightarrow> int \<Rightarrow> string \<Rightarrow> int \<Rightarrow> int \<Rightarrow> MoneyEntry list" where
  "ledger_entries txid user kind da dh =
    filter (\<lambda>e. me_amount e \<noteq> 0)
      [\<lparr>me_tx = txid, me_account = available_account user, me_amount = da\<rparr>,
       \<lparr>me_tx = txid, me_account = held_account user, me_amount = dh\<rparr>,
       \<lparr>me_tx = txid, me_account = system_account kind, me_amount = - (da + dh)\<rparr>]"

definition tx_conflict :: "ledger \<Rightarrow> MoneyTx \<Rightarrow> bool" where
  "tx_conflict L t \<longleftrightarrow>
    list_ex (\<lambda>s. mt_id s = mt_id t \<or> mt_event_key s = mt_event_key t \<or>
                  mt_user s = mt_user t \<and> mt_revision s = mt_revision t) (l_txs L)"

definition moved :: "int \<Rightarrow> int \<Rightarrow> Wallet \<Rightarrow> Wallet" where
  "moved da dh w =
    \<lparr>w_available = w_available w + da, w_held = w_held w + dh, w_revision = w_revision w + 1\<rparr>"

lemma moved_simps [simp]:
  "w_available (moved da dh w) = w_available w + da" "w_held (moved da dh w) = w_held w + dh"
  "w_revision (moved da dh w) = w_revision w + 1"
  by (simp_all add: moved_def)

definition money_row ::
  "int \<Rightarrow> string \<Rightarrow> int \<Rightarrow> int \<Rightarrow> string \<Rightarrow> string \<Rightarrow> string \<Rightarrow> string \<Rightarrow> int \<Rightarrow> int \<Rightarrow> Wallet \<Rightarrow> MoneyTx"
where
  "money_row now txid user actor event kind reference reason da dh w =
    \<lparr>mt_id = txid, mt_event_key = event, mt_user = user, mt_actor = actor,
     mt_revision = w_revision w, mt_kind = kind, mt_amount = (if da + dh = 0 then dh else da + dh),
     mt_available = w_available w, mt_held = w_held w, mt_reason = reason,
     mt_reference = reference, mt_created = now\<rparr>"

lemma money_row_simps [simp]:
  "mt_id (money_row now txid user actor event kind reference reason da dh w) = txid"
  "mt_event_key (money_row now txid user actor event kind reference reason da dh w) = event"
  "mt_user (money_row now txid user actor event kind reference reason da dh w) = user"
  "mt_revision (money_row now txid user actor event kind reference reason da dh w) = w_revision w"
  "mt_available (money_row now txid user actor event kind reference reason da dh w) = w_available w"
  "mt_held (money_row now txid user actor event kind reference reason da dh w) = w_held w"
  "mt_kind (money_row now txid user actor event kind reference reason da dh w) = kind"
  "mt_reference (money_row now txid user actor event kind reference reason da dh w) = reference"
  by (simp_all add: money_row_def)

definition postMoney ::
  "int \<Rightarrow> string \<Rightarrow> int \<Rightarrow> int \<Rightarrow> string \<Rightarrow> string \<Rightarrow> string \<Rightarrow> string \<Rightarrow> int \<Rightarrow> int \<Rightarrow> ledger \<Rightarrow>
     commerce_error + (Wallet \<times> ledger)"
where
  "postMoney now txid user actor event kind reference reason da dh L =
    (let w = wallet_of L user in
     if \<not> movement_allowed w da dh then Inl (Fail 409 ''insufficient balance or limit exceeded'')
     else
       let w' = moved da dh w;
           t = money_row now txid user actor event kind reference reason da dh w'
       in case checkpoint L user (w_revision w') of
            None \<Rightarrow> Inl (NoRows ''wallet checkpoint'')
          | Some before \<Rightarrow>
             if before \<noteq> (w_available w' - da, w_held w' - dh)
             then Inl (Fail 409 ''ledger verification failed'')
             else if tx_conflict L t then Inl (Unique ''money_transactions'')
             else Inr (w', L\<lparr>l_wallets := AList.update user w' (l_wallets L),
                             l_txs := l_txs L @ [t],
                             l_entries := l_entries L @ ledger_entries txid user kind da dh\<rparr>))"

section \<open>The reconciliation of the ledger\<close>

definition entries_of :: "ledger \<Rightarrow> string \<Rightarrow> MoneyEntry list" where
  "entries_of L txid = filter (\<lambda>e. me_tx e = txid) (l_entries L)"

definition account_sum :: "ledger \<Rightarrow> string \<Rightarrow> int" where
  "account_sum L account = sum_where (\<lambda>e. me_account e = account) me_amount (l_entries L)"

text \<open>The four ledger queries of \<open>validateCommerce\<close> and its comparison of wallets and entries.\<close>

definition txs_balanced :: "ledger \<Rightarrow> bool" where
  "txs_balanced L \<longleftrightarrow>
    list_all (\<lambda>t. 2 \<le> length (entries_of L (mt_id t)) \<and> sum_list (map me_amount (entries_of L (mt_id t))) = 0)
      (l_txs L)"

definition wallets_valid :: "int list \<Rightarrow> ledger \<Rightarrow> bool" where
  "wallets_valid users L \<longleftrightarrow>
    list_all (\<lambda>(u, w). u \<in> set users \<and> 0 \<le> w_available w \<and> 0 \<le> w_held w \<and>
       w_available w + w_held w \<le> moneyLimit \<and>
       w_revision w = int (length (filter (\<lambda>t. mt_user t = u) (l_txs L)))) (l_wallets L)"

definition txs_have_wallet :: "ledger \<Rightarrow> bool" where
  "txs_have_wallet L \<longleftrightarrow> list_all (\<lambda>t. mt_user t \<in> fst ` set (l_wallets L)) (l_txs L)"

definition entries_have_tx :: "ledger \<Rightarrow> bool" where
  "entries_have_tx L \<longleftrightarrow> list_all (\<lambda>e. me_tx e \<in> mt_id ` set (l_txs L)) (l_entries L)"

definition wallets_match :: "ledger \<Rightarrow> bool" where
  "wallets_match L \<longleftrightarrow>
    list_all (\<lambda>(u, w). account_sum L (available_account u) = w_available w \<and>
                        account_sum L (held_account u) = w_held w) (l_wallets L)"

definition validateLedger :: "int list \<Rightarrow> ledger \<Rightarrow> bool" where
  "validateLedger users L \<longleftrightarrow>
    txs_balanced L \<and> wallets_valid users L \<and> txs_have_wallet L \<and> entries_have_tx L \<and> wallets_match L"

lemmas ledger_checks = validateLedger_def txs_balanced_def wallets_valid_def txs_have_wallet_def
  entries_have_tx_def wallets_match_def

text \<open>
  What the tables keep besides: one row per wallet, and for every wallet the transactions are
  numbered \<open>1, \<dots>, revision\<close>, the last one recording the wallet's balances. A user without a row
  has no entries either.
\<close>

definition revisions :: "ledger \<Rightarrow> int \<Rightarrow> int list" where
  "revisions L user = map mt_revision (filter (\<lambda>t. mt_user t = user) (l_txs L))"

definition chained :: "ledger \<Rightarrow> bool" where
  "chained L \<longleftrightarrow> distinct (map fst (l_wallets L)) \<and> distinct (map mt_id (l_txs L)) \<and>
    distinct (map mt_event_key (l_txs L)) \<and>
    (\<forall>user. account_sum L (available_account user) = w_available (wallet_of L user) \<and>
       account_sum L (held_account user) = w_held (wallet_of L user)) \<and>
    (\<forall>user. revisions L user = [1..w_revision (wallet_of L user)] \<and>
       0 \<le> w_revision (wallet_of L user) \<and>
       (w_revision (wallet_of L user) = 0 \<longrightarrow> wallet_of L user = new_wallet)) \<and>
    (\<forall>t \<in> set (l_txs L). mt_revision t = w_revision (wallet_of L (mt_user t)) \<longrightarrow>
       mt_available t = w_available (wallet_of L (mt_user t)) \<and> mt_held t = w_held (wallet_of L (mt_user t)))"

definition ledger_ok :: "int list \<Rightarrow> ledger \<Rightarrow> bool" where
  "ledger_ok users L \<longleftrightarrow> validateLedger users L \<and> chained L"

lemma ledger_ok_empty: "ledger_ok users empty_ledger"
  by (simp add: ledger_ok_def ledger_checks chained_def revisions_def wallet_of_def new_wallet_def
      empty_ledger_def account_sum_def)

section \<open>What a posting does\<close>

lemma wallet_of_update [simp]:
  "wallet_of (L\<lparr>l_wallets := AList.update u w (l_wallets L), l_txs := ts, l_entries := es\<rparr>) v =
    (if v = u then w else wallet_of L v)"
  by (simp add: wallet_of_def update_conv')

definition posted ::
  "int \<Rightarrow> string \<Rightarrow> int \<Rightarrow> int \<Rightarrow> string \<Rightarrow> string \<Rightarrow> string \<Rightarrow> string \<Rightarrow> int \<Rightarrow> int \<Rightarrow> ledger \<Rightarrow> ledger"
where
  "posted now txid user actor event kind reference reason da dh L =
    (let w' = moved da dh (wallet_of L user) in
     L\<lparr>l_wallets := AList.update user w' (l_wallets L),
       l_txs := l_txs L @ [money_row now txid user actor event kind reference reason da dh w'],
       l_entries := l_entries L @ ledger_entries txid user kind da dh\<rparr>)"

lemma posted_wallet:
  "wallet_of (posted now txid user actor event kind reference reason da dh L) v =
    (if v = user then moved da dh (wallet_of L user) else wallet_of L v)"
  by (simp add: posted_def Let_def)

lemma posted_txs:
  "l_txs (posted now txid user actor event kind reference reason da dh L) =
    l_txs L @ [money_row now txid user actor event kind reference reason da dh (moved da dh (wallet_of L user))]"
  by (simp add: posted_def Let_def)

lemma posted_entries:
  "l_entries (posted now txid user actor event kind reference reason da dh L) =
    l_entries L @ ledger_entries txid user kind da dh"
  by (simp add: posted_def Let_def)

lemma posted_wallets:
  "l_wallets (posted now txid user actor event kind reference reason da dh L) =
    AList.update user (moved da dh (wallet_of L user)) (l_wallets L)"
  by (simp add: posted_def Let_def)

lemma postMoney_cases:
  "postMoney now txid user actor event kind reference reason da dh L = Inr (w', L') \<longleftrightarrow>
     movement_allowed (wallet_of L user) da dh \<and>
     checkpoint L user (w_revision (wallet_of L user) + 1) =
       Some (w_available (wallet_of L user), w_held (wallet_of L user)) \<and>
     \<not> tx_conflict L (money_row now txid user actor event kind reference reason da dh
         (moved da dh (wallet_of L user))) \<and>
     w' = moved da dh (wallet_of L user) \<and>
     L' = posted now txid user actor event kind reference reason da dh L"
  unfolding postMoney_def posted_def Let_def
  by (auto split: option.splits if_splits)

lemma ledger_entries_facts:
  assumes "(da, dh) \<noteq> (0, 0)"
  shows "2 \<le> length (ledger_entries txid user kind da dh)"
    and "sum_list (map me_amount (ledger_entries txid user kind da dh)) = 0"
    and "e \<in> set (ledger_entries txid user kind da dh) \<Longrightarrow> me_tx e = txid"
  using assms by (auto simp: ledger_entries_def split: if_splits)

lemma ledger_entries_sum:
  "sum_where (\<lambda>e. me_account e = available_account u) me_amount (ledger_entries txid user kind da dh) =
     (if u = user then da else 0)"
  "sum_where (\<lambda>e. me_account e = held_account u) me_amount (ledger_entries txid user kind da dh) =
     (if u = user then dh else 0)"
  by (auto simp: ledger_entries_def)

lemma posted_account_sum:
  "account_sum (posted now txid user actor event kind reference reason da dh L) (available_account u) =
     account_sum L (available_account u) + (if u = user then da else 0)"
  "account_sum (posted now txid user actor event kind reference reason da dh L) (held_account u) =
     account_sum L (held_account u) + (if u = user then dh else 0)"
  by (simp_all add: account_sum_def posted_entries ledger_entries_sum)

lemma posted_entries_of:
  assumes "entries_have_tx L" "txid \<notin> mt_id ` set (l_txs L)" "(da, dh) \<noteq> (0, 0)"
  shows "entries_of (posted now txid user actor event kind reference reason da dh L) t =
    (if t = txid then ledger_entries txid user kind da dh else entries_of L t)"
proof -
  have old: "filter (\<lambda>e. me_tx e = txid) (l_entries L) = []"
    using assms(1,2) by (fastforce simp: filter_empty_conv entries_have_tx_def list_all_iff)
  have new: "filter (\<lambda>e. me_tx e = txid) (ledger_entries txid user kind da dh) = ledger_entries txid user kind da dh"
    using ledger_entries_facts(3)[OF assms(3)] by (simp add: filter_id_conv)
  have other: "t \<noteq> txid \<Longrightarrow> filter (\<lambda>e. me_tx e = t) (ledger_entries txid user kind da dh) = []"
    using ledger_entries_facts(3)[OF assms(3)] by (auto simp: filter_empty_conv)
  show ?thesis
    using old new other by (simp add: entries_of_def posted_entries)
qed

lemma tx_conflict_iff:
  "tx_conflict L t \<longleftrightarrow> mt_id t \<in> mt_id ` set (l_txs L) \<or> mt_event_key t \<in> mt_event_key ` set (l_txs L) \<or>
     mt_revision t \<in> set (revisions L (mt_user t))"
  unfolding tx_conflict_def list_ex_iff revisions_def set_map set_filter image_iff bex_disj_distrib
  by (simp add: Bex_def eq_commute)

lemma posted_revisions:
  "revisions (posted now txid user actor event kind reference reason da dh L) u =
    revisions L u @ (if u = user then [w_revision (wallet_of L user) + 1] else [])"
  by (simp add: revisions_def posted_txs)

lemma length_revisions:
  "length (revisions L u) = length (filter (\<lambda>t. mt_user t = u) (l_txs L))"
  by (simp add: revisions_def)

section \<open>The ledger invariant is kept\<close>

lemma chained_facts:
  assumes "chained L"
  shows "revisions L u = [1..w_revision (wallet_of L u)]" "0 \<le> w_revision (wallet_of L u)"
    "w_revision (wallet_of L u) = 0 \<Longrightarrow> wallet_of L u = new_wallet"
    "account_sum L (available_account u) = w_available (wallet_of L u)"
    "account_sum L (held_account u) = w_held (wallet_of L u)"
    "distinct (map fst (l_wallets L))" "distinct (map mt_id (l_txs L))"
    "distinct (map mt_event_key (l_txs L))"
    "t \<in> set (l_txs L) \<Longrightarrow> mt_revision t = w_revision (wallet_of L (mt_user t)) \<Longrightarrow>
       mt_available t = w_available (wallet_of L (mt_user t)) \<and> mt_held t = w_held (wallet_of L (mt_user t))"
  using assms by (auto simp: chained_def)

lemma checkpoint_ok:
  assumes "chained L"
  shows "checkpoint L user (w_revision (wallet_of L user) + 1) =
    Some (w_available (wallet_of L user), w_held (wallet_of L user))"
proof (cases "w_revision (wallet_of L user) = 0")
  case True
  then show ?thesis
    using chained_facts(3)[OF assms True] by (simp add: checkpoint_def new_wallet_def)
next
  case False
  let ?r = "w_revision (wallet_of L user)"
  have pos: "0 < ?r" using False chained_facts(2)[OF assms, of user] by simp
  then have "?r \<in> set (revisions L user)"
    using chained_facts(1)[OF assms, of user] by simp
  then have "\<exists>t \<in> set (l_txs L). mt_user t = user \<and> mt_revision t = ?r"
    by (auto simp: revisions_def)
  then obtain t where t: "find (\<lambda>t. mt_user t = user \<and> mt_revision t = ?r) (l_txs L) = Some t"
    by (cases "find (\<lambda>t. mt_user t = user \<and> mt_revision t = ?r) (l_txs L)") (auto simp: find_None_iff)
  then have "t \<in> set (l_txs L)" "mt_user t = user" "mt_revision t = ?r"
    by (auto simp: find_Some_iff)
  then show ?thesis
    using t pos chained_facts(9)[OF assms, of t] by (simp add: checkpoint_def)
qed

lemma revision_fresh:
  assumes "chained L"
  shows "w_revision (wallet_of L user) + 1 \<notin> set (revisions L user)"
  using chained_facts(1)[OF assms, of user] by simp

lemma upto_snoc: "0 \<le> r \<Longrightarrow> [1..r] @ [r + 1] = [1..r + (1::int)]"
  by (simp add: upto_rec2)

lemma chained_posted:
  assumes ok: "chained L" and fresh: "\<not> tx_conflict L (money_row now txid user actor event kind reference reason
      da dh (moved da dh (wallet_of L user)))"
  shows "chained (posted now txid user actor event kind reference reason da dh L)" (is "chained ?L")
proof -
  note f = chained_facts[OF ok]
  have new: "txid \<notin> mt_id ` set (l_txs L)" "event \<notin> mt_event_key ` set (l_txs L)"
    using fresh by (simp_all add: tx_conflict_iff)
  have "distinct (map fst (l_wallets ?L))"
    using f(6) by (simp add: posted_wallets distinct_update)
  moreover have "distinct (map mt_id (l_txs ?L))" "distinct (map mt_event_key (l_txs ?L))"
    using f(7,8) new by (simp_all add: posted_txs image_iff)
  moreover have "account_sum ?L (available_account u) = w_available (wallet_of ?L u) \<and>
      account_sum ?L (held_account u) = w_held (wallet_of ?L u)" for u
    using f(4,5) by (simp add: posted_account_sum posted_wallet)
  moreover have "revisions ?L u = [1..w_revision (wallet_of ?L u)] \<and> 0 \<le> w_revision (wallet_of ?L u) \<and>
      (w_revision (wallet_of ?L u) = 0 \<longrightarrow> wallet_of ?L u = new_wallet)" for u
    using f(1)[of u] f(2)[of u] f(3)[of u] upto_snoc[OF f(2)[of u]]
    by (auto simp: posted_revisions posted_wallet)
  moreover have "mt_available t = w_available (wallet_of ?L (mt_user t)) \<and> mt_held t = w_held (wallet_of ?L (mt_user t))"
    if t: "t \<in> set (l_txs ?L)" "mt_revision t = w_revision (wallet_of ?L (mt_user t))" for t
  proof (cases "t \<in> set (l_txs L)")
    case True
    then have "mt_revision t \<in> set (revisions L (mt_user t))" by (auto simp: revisions_def)
    then have "mt_revision t \<le> w_revision (wallet_of L (mt_user t))" using f(1) by simp
    then show ?thesis using t(2) True f(9)[of t] by (auto simp: posted_wallet split: if_splits)
  next
    case False
    then show ?thesis using t by (simp add: posted_txs posted_wallet)
  qed
  ultimately show ?thesis by (simp add: chained_def)
qed

lemma validateLedger_posted:
  assumes ok: "ledger_ok users L" and u: "user \<in> set users"
    and fresh: "\<not> tx_conflict L (money_row now txid user actor event kind reference reason
      da dh (moved da dh (wallet_of L user)))"
    and allowed: "movement_allowed (wallet_of L user) da dh" and nz: "(da, dh) \<noteq> (0, 0)"
  shows "validateLedger users (posted now txid user actor event kind reference reason da dh L)"
    (is "validateLedger users ?L")
proof -
  have val: "validateLedger users L" and ch: "chained L" using ok by (simp_all add: ledger_ok_def)
  note checks = val[unfolded validateLedger_def]
  have ch': "chained ?L" by (rule chained_posted[OF ch fresh])
  have new: "txid \<notin> mt_id ` set (l_txs L)" using fresh by (simp add: tx_conflict_iff)
  have rows: "(v, w) \<in> set (l_wallets ?L) \<Longrightarrow> w = wallet_of ?L v \<and> (v = user \<or> (v, wallet_of L v) \<in> set (l_wallets L))" for v w
  proof -
    assume vw: "(v, w) \<in> set (l_wallets ?L)"
    then have m: "map_of (l_wallets ?L) v = Some w"
      using chained_facts(6)[OF ch'] by (simp add: map_of_eq_Some_iff)
    then have "w = wallet_of ?L v" by (simp add: wallet_of_def)
    moreover have "v = user \<or> (v, wallet_of L v) \<in> set (l_wallets L)"
      using m by (auto simp: posted_wallets update_conv' wallet_of_def dest: map_of_SomeD split: if_splits)
    ultimately show ?thesis by simp
  qed
  have "txs_balanced ?L"
    using checks new ledger_entries_facts(1,2)[OF nz]
    by (auto simp: txs_balanced_def list_all_iff posted_entries_of[OF _ new nz] posted_txs)
  moreover have "wallets_valid users ?L"
    unfolding wallets_valid_def list_all_iff
  proof (clarify, goal_cases)
    case (1 v w)
    note r = rows[OF 1]
    have "w_revision (wallet_of ?L v) = int (length (filter (\<lambda>t. mt_user t = v) (l_txs ?L)))"
      using chained_facts(1,2)[OF ch', of v] length_revisions[of ?L v] by simp
    then show ?case
      using r checks u allowed
      by (auto simp: posted_wallet wallets_valid_def list_all_iff movement_allowed_def split: if_splits)
  qed
  moreover have "txs_have_wallet ?L"
    using checks by (auto simp: txs_have_wallet_def list_all_iff posted_txs posted_wallets dom_update image_iff)
  moreover have "entries_have_tx ?L"
    using checks ledger_entries_facts(3)[OF nz]
    by (auto simp: entries_have_tx_def list_all_iff posted_entries posted_txs)
  moreover have "wallets_match ?L"
    using rows chained_facts(4,5)[OF ch'] by (auto simp: wallets_match_def list_all_iff)
  ultimately show ?thesis by (simp add: validateLedger_def)
qed

theorem postMoney_keeps_ledger:
  assumes "ledger_ok users L" "user \<in> set users" "(da, dh) \<noteq> (0, 0)"
    and "postMoney now txid user actor event kind reference reason da dh L = Inr (w', L')"
  shows "ledger_ok users L'"
  using assms validateLedger_posted[OF assms(1,2) _ _ assms(3)] chained_posted
  by (auto simp: postMoney_cases ledger_ok_def)

text \<open>Under the invariant only the balance bounds and reused keys refuse a movement.\<close>

lemma postMoney_outcome:
  assumes "chained L"
  shows "postMoney now txid user actor event kind reference reason da dh L =
    (if \<not> movement_allowed (wallet_of L user) da dh
     then Inl (Fail 409 ''insufficient balance or limit exceeded'')
     else if txid \<in> mt_id ` set (l_txs L) \<or> event \<in> mt_event_key ` set (l_txs L)
     then Inl (Unique ''money_transactions'')
     else Inr (moved da dh (wallet_of L user),
               posted now txid user actor event kind reference reason da dh L))"
  using checkpoint_ok[OF assms, of user] revision_fresh[OF assms, of user]
  by (auto simp: postMoney_def posted_def Let_def tx_conflict_iff)

lemma postMoney_event_recorded:
  assumes "postMoney now txid user actor event kind reference reason da dh L = Inr (w', L')"
  shows "event \<in> mt_event_key ` set (l_txs L')"
  using assms by (auto simp: postMoney_cases posted_txs)

lemma postMoney_txs_grow:
  assumes "postMoney now txid user actor event kind reference reason da dh L = Inr (w', L')"
  shows "\<exists>t. l_txs L' = l_txs L @ [t] \<and> mt_event_key t = event \<and> mt_user t = user"
  using assms by (auto simp: postMoney_cases posted_txs)

lemma postMoney_wallets:
  assumes "postMoney now txid user actor event kind reference reason da dh L = Inr (w', L')"
  shows "wallet_of L' v = (if v = user then moved da dh (wallet_of L user) else wallet_of L v)"
  using assms by (auto simp: postMoney_cases posted_wallet)

lemma ledger_ok_bounds:
  assumes "ledger_ok users L"
  shows "0 \<le> w_available (wallet_of L u)" "0 \<le> w_held (wallet_of L u)"
    "w_available (wallet_of L u) + w_held (wallet_of L u) \<le> moneyLimit"
  using assms unfolding ledger_ok_def validateLedger_def wallets_valid_def wallet_of_def
  by (auto simp: new_wallet_def moneyLimit_def list_all_iff dest!: map_of_SomeD split: option.splits)

section \<open>The interface the order and payment handlers use\<close>

text \<open>
  What a handler relies on: a movement keeps the invariant of the accounts, changes exactly the
  balances of its user by its deltas, and cannot be made twice under one event key.
\<close>

record movement =
  mv_now :: int
  mv_tx :: string
  mv_user :: int
  mv_actor :: int
  mv_event :: string
  mv_kind :: string
  mv_reference :: string
  mv_reason :: string
  mv_available :: int
  mv_held :: int

locale wallet_service =
  fixes inv :: "'l \<Rightarrow> bool"
    and available :: "'l \<Rightarrow> int \<Rightarrow> int"
    and held :: "'l \<Rightarrow> int \<Rightarrow> int"
    and done_events :: "'l \<Rightarrow> string set"
    and legal :: "movement \<Rightarrow> bool"
    and post :: "movement \<Rightarrow> 'l \<Rightarrow> 'e + 'l"
  assumes post_inv: "inv l \<Longrightarrow> legal m \<Longrightarrow> post m l = Inr l' \<Longrightarrow> inv l'"
    and post_available: "post m l = Inr l' \<Longrightarrow>
      available l' u = available l u + (if u = mv_user m then mv_available m else 0)"
    and post_held: "post m l = Inr l' \<Longrightarrow>
      held l' u = held l u + (if u = mv_user m then mv_held m else 0)"
    and post_events: "post m l = Inr l' \<Longrightarrow>
      mv_event m \<notin> done_events l \<and> done_events l' = insert (mv_event m) (done_events l)"
    and inv_bounds: "inv l \<Longrightarrow> 0 \<le> available l u \<and> 0 \<le> held l u"
begin

primrec post_all :: "movement list \<Rightarrow> 'l \<Rightarrow> 'e + 'l" where
  "post_all [] l = Inr l"
| "post_all (m # ms) l = bind_res (post m l) (post_all ms)"

lemma post_all_inv:
  "inv l \<Longrightarrow> list_all legal ms \<Longrightarrow> post_all ms l = Inr l' \<Longrightarrow> inv l'"
  by (induction ms arbitrary: l) (auto simp: bind_res_eq_Inr dest: post_inv)

lemma post_all_available:
  "post_all ms l = Inr l' \<Longrightarrow>
    available l' u = available l u + sum_where (\<lambda>m. mv_user m = u) mv_available ms"
  by (induction ms arbitrary: l) (auto simp: bind_res_eq_Inr post_available split: if_splits)

lemma post_all_held:
  "post_all ms l = Inr l' \<Longrightarrow> held l' u = held l u + sum_where (\<lambda>m. mv_user m = u) mv_held ms"
  by (induction ms arbitrary: l) (auto simp: bind_res_eq_Inr post_held)

lemma post_all_events:
  "post_all ms l = Inr l' \<Longrightarrow> distinct (map mv_event ms) \<and>
     set (map mv_event ms) \<inter> done_events l = {} \<and>
     done_events l' = done_events l \<union> set (map mv_event ms)"
proof (induction ms arbitrary: l)
  case (Cons m ms)
  then obtain k where k: "post m l = Inr k" "post_all ms k = Inr l'"
    by (auto simp: bind_res_eq_Inr)
  show ?case using Cons.IH[OF k(2)] post_events[OF k(1)] by auto
qed simp

text \<open>No event is ever posted twice.\<close>

lemma no_replay: "post m l = Inr l' \<Longrightarrow> mv_event m' = mv_event m \<Longrightarrow> \<nexists>l''. post m' l' = Inr l''"
  using post_events[of m l l'] post_events[of m' l'] by auto

lemma held_within: "inv l' \<Longrightarrow> post m l = Inr l' \<Longrightarrow> - mv_held m \<le> held l (mv_user m)"
  using inv_bounds[of l' "mv_user m"] post_held[of m l l' "mv_user m"] by simp

lemma available_within: "inv l' \<Longrightarrow> post m l = Inr l' \<Longrightarrow> - mv_available m \<le> available l (mv_user m)"
  using inv_bounds[of l' "mv_user m"] post_available[of m l l' "mv_user m"] by simp

end

definition post_movement :: "movement \<Rightarrow> ledger \<Rightarrow> commerce_error + ledger" where
  "post_movement m L =
    bind_res (postMoney (mv_now m) (mv_tx m) (mv_user m) (mv_actor m) (mv_event m) (mv_kind m)
                (mv_reference m) (mv_reason m) (mv_available m) (mv_held m) L) (\<lambda>(w, L'). Inr L')"

lemma post_movement_Inr:
  "post_movement m L = Inr L' \<longleftrightarrow>
    (\<exists>w. postMoney (mv_now m) (mv_tx m) (mv_user m) (mv_actor m) (mv_event m) (mv_kind m)
            (mv_reference m) (mv_reason m) (mv_available m) (mv_held m) L = Inr (w, L'))"
  by (auto simp: post_movement_def bind_res_eq_Inr)

definition available_of :: "ledger \<Rightarrow> int \<Rightarrow> int" where
  "available_of L u = w_available (wallet_of L u)"

definition held_of :: "ledger \<Rightarrow> int \<Rightarrow> int" where
  "held_of L u = w_held (wallet_of L u)"

definition events_of :: "ledger \<Rightarrow> string set" where
  "events_of L = mt_event_key ` set (l_txs L)"

interpretation wallets: wallet_service "ledger_ok users" available_of held_of events_of
  "\<lambda>m. mv_user m \<in> set users \<and> (mv_available m, mv_held m) \<noteq> (0, 0)" post_movement for users
proof unfold_locales
  fix l l' m
  assume "post_movement m l = Inr l'"
  then obtain w where w: "postMoney (mv_now m) (mv_tx m) (mv_user m) (mv_actor m) (mv_event m) (mv_kind m)
            (mv_reference m) (mv_reason m) (mv_available m) (mv_held m) l = Inr (w, l')"
    by (auto simp: post_movement_Inr)
  show "available_of l' u = available_of l u + (if u = mv_user m then mv_available m else 0)"
    and "held_of l' u = held_of l u + (if u = mv_user m then mv_held m else 0)" for u
    by (simp_all add: available_of_def held_of_def postMoney_wallets[OF w])
  show "mv_event m \<notin> events_of l \<and> events_of l' = insert (mv_event m) (events_of l)"
    using w by (auto simp: events_of_def postMoney_cases tx_conflict_iff posted_txs)
  assume "ledger_ok users l" "mv_user m \<in> set users \<and> (mv_available m, mv_held m) \<noteq> (0, 0)"
  then show "ledger_ok users l'" using postMoney_keeps_ledger[OF _ _ _ w] by simp
next
  fix l u
  assume "ledger_ok users l"
  then show "0 \<le> available_of l u \<and> 0 \<le> held_of l u"
    by (simp add: available_of_def held_of_def ledger_ok_bounds)
qed

end
