(* ===== verification/Plans.thy ===== *)
theory Plans
  imports Metering
begin

text \<open>
  Plans, node groups and the entitlement queue of one user
  (\<open>backend/internal/controlplane/node_policy.go\<close>, \<open>fixed_node_groups.go\<close>,
  \<open>entitlement_store.go\<close>, \<open>plan_live_update.go\<close>): assigning a plan, pausing the current one,
  restoring the last paused one, and which nodes an entitlement selects. Slices and pointers
  that the code clones are values here. Random tokens, the SHA-256 digest and the time zone
  database are arguments.
\<close>

section \<open>Nodes, groups and plans\<close>

definition legacyPrivateGroup :: string where "legacyPrivateGroup = ''legacy-private''"
definition legacyPublicGroup :: string where "legacyPublicGroup = ''legacy-public''"
definition defaultSubsiteGroup :: string where "defaultSubsiteGroup = ''default-subsite''"
definition publicManager :: string where "publicManager = ''public_proxy''"

lemmas group_names = legacyPrivateGroup_def legacyPublicGroup_def defaultSubsiteGroup_def publicManager_def

text \<open>The policy part of a node; probe results and exit credentials play no role here.\<close>

record Node =
  nd_AccessKey :: string
  nd_PolicyVersion :: int
  nd_RateMilli :: int
  nd_RateRevision :: string
  nd_GroupIDs :: "string list"
  nd_ManagedBy :: string
  nd_ExitID :: string
  nd_ID :: string
  nd_Name :: string
  nd_Protocol :: string
  nd_Enabled :: bool

record NodeGroup =
  ng_ID :: string
  ng_Name :: string
  ng_Description :: string
  ng_Scope :: string
  ng_Enabled :: bool
  ng_Sort :: int
  ng_Revision :: string

record Plan =
  pl_ID :: string
  pl_Version :: int
  pl_Name :: string
  pl_Description :: string
  pl_Category :: string
  pl_Notes :: string
  pl_Archived :: bool
  pl_Sort :: int
  pl_Quota :: int
  pl_ValidDays :: int
  pl_Cycle :: string
  pl_Timezone :: string
  pl_GroupIDs :: "string list"
  pl_NodeIDs :: "string list"
  pl_NodeRates :: rates
  pl_VLESS :: bool
  pl_HY2 :: bool
  pl_System :: bool
  pl_Kind :: string
  pl_Price :: int

definition normalizeNodePolicy :: "Node \<Rightarrow> Node" where
  "normalizeNodePolicy n =
    (if nd_PolicyVersion n = 0
     then n\<lparr>nd_PolicyVersion := 1, nd_RateMilli := 1000, nd_RateRevision := ''legacy-1'',
            nd_GroupIDs := (if nd_ManagedBy n = publicManager then [legacyPublicGroup]
                            else [legacyPrivateGroup])\<rparr>
     else n)"

definition nodeRate :: "Node \<Rightarrow> int" where
  "nodeRate n = nd_RateMilli (normalizeNodePolicy n)"

definition localNodeGroup :: "Node \<Rightarrow> string" where
  "localNodeGroup n = (if nd_ManagedBy n = publicManager then legacyPublicGroup else legacyPrivateGroup)"

definition fixedGroupIDs :: "string list \<Rightarrow> string list" where
  "fixedGroupIDs ids =
    filter (\<lambda>g. g \<in> set ids) [legacyPrivateGroup, defaultSubsiteGroup, legacyPublicGroup]"

section \<open>Node selection\<close>

definition planNodeKey :: "Node \<Rightarrow> string" where
  "planNodeKey n = (if nd_AccessKey n \<noteq> [] then nd_AccessKey n else localNodeGroup n @ ''/'' @ nd_ID n)"

definition group_key :: "string \<Rightarrow> string \<Rightarrow> bool" where
  "group_key grp key \<longleftrightarrow> has_prefix key (grp @ ''/'')"

text \<open>Selections stored before site-qualified keys: bare identifiers of this site's own nodes.\<close>

definition bare_key :: "string \<Rightarrow> string \<Rightarrow> bool" where
  "bare_key grp key \<longleftrightarrow> \<not> contains_char key (CHR ''/'') \<and> grp \<noteq> defaultSubsiteGroup"

definition planGroupHasExplicitNodes :: "Entitlement option \<Rightarrow> string \<Rightarrow> bool" where
  "planGroupHasExplicitNodes e grp =
    (case e of None \<Rightarrow> False
     | Some en \<Rightarrow> list_ex (\<lambda>id. group_key grp id \<or> bare_key grp id) (en_NodeIDs en))"

definition planSelectsNode :: "Entitlement option \<Rightarrow> Node \<Rightarrow> string \<Rightarrow> bool" where
  "planSelectsNode e n grp =
    (case e of None \<Rightarrow> True
     | Some en \<Rightarrow>
        if \<not> planGroupHasExplicitNodes e grp then True
        else list_ex (\<lambda>id. group_key grp id \<and> id = planNodeKey n
                       \<or> bare_key grp id \<and> nd_AccessKey n = [] \<and> id = nd_ID n) (en_NodeIDs en))"

definition userNodeGroupIDs :: "('a) User_scheme \<Rightarrow> string list" where
  "userNodeGroupIDs u =
    (case u_Entitlement u of
       Some e \<Rightarrow> en_GroupIDs e
     | None \<Rightarrow> (case u_NodeGroupIDs u of Some ids \<Rightarrow> ids
                | None \<Rightarrow> [legacyPrivateGroup, legacyPublicGroup]))"

text \<open>\<open>resolveAccess\<close>: only enabled groups remain; an unknown group is not enabled.\<close>

definition group_enabled :: "NodeGroup list \<Rightarrow> string \<Rightarrow> bool" where
  "group_enabled groups key =
    (case map_of (rev (map (\<lambda>g. (ng_ID g, ng_Enabled g)) groups)) key of None \<Rightarrow> False | Some b \<Rightarrow> b)"

definition resolveAccess :: "NodeGroup list \<Rightarrow> Record list \<Rightarrow> Record list" where
  "resolveAccess groups records =
    map (\<lambda>r. r\<lparr>r_AccessResolved := True,
                r_AllowedGroups := filter (group_enabled groups) (userNodeGroupIDs r)\<rparr>) records"

definition access_groups :: "Record \<Rightarrow> string list" where
  "access_groups r =
    (if r_AccessResolved r then r_AllowedGroups r
     else case u_CompiledGroups r of Some ids \<Rightarrow> ids | None \<Rightarrow> userNodeGroupIDs r)"

definition nodeGroupAllowed :: "Record \<Rightarrow> Node \<Rightarrow> bool" where
  "nodeGroupAllowed r n =
    (case u_Mount r of
       Some m \<Rightarrow> list_ex (\<lambda>id. id = nd_ID n) (ma_NodeIDs m)
     | None \<Rightarrow>
        list_ex (\<lambda>grp. list_ex (\<lambda>id. grp = id \<and> planSelectsNode (u_Entitlement r) n grp) (access_groups r))
          (nd_GroupIDs (normalizeNodePolicy n)))"

text \<open>\<open>planNodePolicy\<close>: the package multiplier under the qualified key, else under the bare node id.\<close>

definition planNodePolicy :: "(string \<Rightarrow> string) \<Rightarrow> Entitlement option \<Rightarrow> Node \<Rightarrow> Node" where
  "planNodePolicy digest e n =
    (case e of None \<Rightarrow> n
     | Some en \<Rightarrow>
        if en_NodeRates en = [] then n
        else
          let apply = (\<lambda>key rate. if rate = nd_RateMilli n then n
                else n\<lparr>nd_RateMilli := rate,
                       nd_RateRevision := nd_RateRevision n @ '':plan:'' @ en_Revision en @ '':''
                         @ digest (key @ '':'' @ itoa rate)\<rparr>)
          in (case map_of (en_NodeRates en) (planNodeKey n) of
                Some rate \<Rightarrow> apply (planNodeKey n) rate
              | None \<Rightarrow> (case map_of (en_NodeRates en) (nd_ID n) of
                    Some rate \<Rightarrow> apply (nd_ID n) rate
                  | None \<Rightarrow> n)))"

section \<open>Assigning, pausing and restoring a plan\<close>

definition assignPlan ::
  "(string \<Rightarrow> location option) \<Rightarrow> string \<Rightarrow> string \<Rightarrow> Plan \<Rightarrow> int \<Rightarrow> string \<Rightarrow> ('a) User_scheme \<Rightarrow> ('a) User_scheme"
where
  "assignPlan tz periodToken revToken p now orderID r0 =
    (let r = InitMeter (''period-'' @ periodToken) now (r0\<lparr>u_NodeGroupIDs := None\<rparr>);
         e = \<lparr>en_PlanID = pl_ID p, en_OrderID = orderID, en_RenewalOrderID = [], en_Version = pl_Version p,
              en_Name = pl_Name p, en_GroupIDs = pl_GroupIDs p, en_NodeIDs = pl_NodeIDs p,
              en_NodeRates = pl_NodeRates p, en_Cycle = pl_Cycle p, en_Timezone = pl_Timezone p,
              en_AssignedAt = now, en_Revision = revToken\<rparr>;
         periodEnd = (case NextPeriod tz now (pl_Cycle p) (pl_Timezone p) of Inl _ \<Rightarrow> 0 | Inr t \<Rightarrow> t)
     in r\<lparr>u_Entitlement := Some e, u_Quota := pl_Quota p, u_VLESS := pl_VLESS p, u_HY2 := pl_HY2 p,
          u_Expires := (if pl_ValidDays p > 0 then now + pl_ValidDays p * 86400 else 0),
          u_Meter := map_option (\<lambda>m. m\<lparr>qm_End := periodEnd\<rparr>) (u_Meter r)\<rparr>)"

definition pauseCurrentPlan :: "int \<Rightarrow> ('a) User_scheme \<Rightarrow> ('a) User_scheme" where
  "pauseCurrentPlan now r =
    (case u_Entitlement r of
       None \<Rightarrow> r
     | Some e \<Rightarrow>
        if u_Expires r \<noteq> 0 \<and> u_Expires r \<le> now then r
        else r\<lparr>u_PlanQueue := u_PlanQueue r @ [\<lparr>ps_Entitlement = Some e, ps_OrderID = en_OrderID e,
               ps_RenewalOrderID = en_RenewalOrderID e, ps_NodeRates = en_NodeRates e,
               ps_Quota = u_Quota r, ps_Expires = u_Expires r, ps_PausedAt = now,
               ps_VLESS = u_VLESS r, ps_HY2 = u_HY2 r, ps_Meter = u_Meter r\<rparr>]\<rparr>)"

definition restorePreviousPlan ::
  "string \<Rightarrow> string \<Rightarrow> int \<Rightarrow> ('a) User_scheme \<Rightarrow> bool \<times> ('a) User_scheme"
where
  "restorePreviousPlan periodToken revToken now r0 =
    (if u_PlanQueue r0 = [] then (False, r0)
     else
       let slot = last (u_PlanQueue r0);
           r = r0\<lparr>u_PlanQueue := butlast (u_PlanQueue r0), u_Entitlement := ps_Entitlement slot\<rparr>
       in case ps_Entitlement slot of
            None \<Rightarrow> (False, r)
          | Some e \<Rightarrow>
             let expires = (if ps_Expires slot = 0 then 0
                            else now + max 0 (ps_Expires slot - ps_PausedAt slot));
                 r1 = r\<lparr>u_NodeGroupIDs := None, u_Quota := ps_Quota slot, u_VLESS := ps_VLESS slot,
                        u_HY2 := ps_HY2 slot, u_Expires := expires, u_Meter := ps_Meter slot\<rparr>;
                 r2 = (case ps_Meter slot of
                         None \<Rightarrow> InitMeter (''period-'' @ periodToken) now r1
                       | Some m \<Rightarrow> r1\<lparr>u_Meter := Some (m\<lparr>
                             qm_End := (if qm_End m > 0 then now + max 0 (qm_End m - ps_PausedAt slot)
                                        else qm_End m),
                             qm_Start := now, qm_PendingReset := False\<rparr>)\<rparr>)
             in (True, r2\<lparr>u_Entitlement :=
                   Some (e\<lparr>en_NodeRates := ps_NodeRates slot, en_Revision := revToken\<rparr>)\<rparr>))"

section \<open>The queue of paused plans\<close>

lemma assignPlan_fields [simp]:
  "u_PlanQueue (assignPlan tz pt rt p now oid r) = u_PlanQueue r"
  "u_ID (assignPlan tz pt rt p now oid r) = u_ID r"
  "u_Upload (assignPlan tz pt rt p now oid r) = u_Upload r"
  "u_Download (assignPlan tz pt rt p now oid r) = u_Download r"
  "u_Quota (assignPlan tz pt rt p now oid r) = pl_Quota p"
  "u_Enabled (assignPlan tz pt rt p now oid r) = u_Enabled r"
  "u_Role (assignPlan tz pt rt p now oid r) = u_Role r"
  "u_Mount (assignPlan tz pt rt p now oid r) = u_Mount r"
  by (simp_all add: assignPlan_def Let_def)

lemma assignPlan_entitlement:
  "\<exists>e. u_Entitlement (assignPlan tz pt rt p now oid r) = Some e \<and> en_OrderID e = oid \<and>
     en_PlanID e = pl_ID p \<and> en_GroupIDs e = pl_GroupIDs p \<and> en_NodeIDs e = pl_NodeIDs p \<and>
     en_Revision e = rt \<and> en_RenewalOrderID e = []"
  by (simp add: assignPlan_def Let_def)

lemma assignPlan_meter:
  "u_Meter r = Some m \<Longrightarrow> \<exists>t. u_Meter (assignPlan tz pt rt p now oid r) = Some (m\<lparr>qm_End := t\<rparr>)"
  by (simp add: assignPlan_def Let_def InitMeter_def) (rule exI, rule refl)

lemma pauseCurrentPlan_fields [simp]:
  "u_ID (pauseCurrentPlan now r) = u_ID r" "u_Meter (pauseCurrentPlan now r) = u_Meter r"
  "u_Upload (pauseCurrentPlan now r) = u_Upload r" "u_Download (pauseCurrentPlan now r) = u_Download r"
  "u_Entitlement (pauseCurrentPlan now r) = u_Entitlement r"
  "u_Enabled (pauseCurrentPlan now r) = u_Enabled r" "u_Role (pauseCurrentPlan now r) = u_Role r"
  by (simp_all add: pauseCurrentPlan_def split: option.splits)

lemma pauseCurrentPlan_queue:
  assumes "u_Entitlement r = Some e" "u_Expires r = 0 \<or> now < u_Expires r"
  shows "\<exists>slot. u_PlanQueue (pauseCurrentPlan now r) = u_PlanQueue r @ [slot] \<and>
    ps_Entitlement slot = Some e \<and> ps_NodeRates slot = en_NodeRates e \<and> ps_Quota slot = u_Quota r \<and>
    ps_Expires slot = u_Expires r \<and> ps_PausedAt slot = now \<and> ps_VLESS slot = u_VLESS r \<and>
    ps_HY2 slot = u_HY2 r \<and> ps_Meter slot = u_Meter r \<and> ps_OrderID slot = en_OrderID e \<and>
    ps_RenewalOrderID slot = en_RenewalOrderID e"
  using assms by (auto simp: pauseCurrentPlan_def)

text \<open>
  What a restore gives back when the last slot is the pause of an active plan: the rest of its
  lifetime and of its quota period, counted from now.
\<close>

definition resumed :: "int \<Rightarrow> int \<Rightarrow> int \<Rightarrow> int" where
  "resumed t paused now = (if t = 0 then 0 else now + (t - paused))"

lemma restore_paused:
  assumes paused: "u_PlanQueue r = u_PlanQueue u @ [slot]"
    "u_PlanQueue (pauseCurrentPlan t0 u) = u_PlanQueue u @ [slot]"
    and u: "u_Entitlement u = Some e" "u_Meter u = Some m" "u_Expires u = 0 \<or> t0 < u_Expires u"
    and restored: "restorePreviousPlan pt rt t1 r = (ok, v)"
  shows "ok" "u_PlanQueue v = u_PlanQueue u" "u_Entitlement v = Some (e\<lparr>en_Revision := rt\<rparr>)"
    "u_Quota v = u_Quota u" "u_VLESS v = u_VLESS u" "u_HY2 v = u_HY2 u"
    "u_Expires v = resumed (u_Expires u) t0 t1"
    "u_Meter v = Some (m\<lparr>qm_Start := t1, qm_PendingReset := False,
       qm_End := (if qm_End m > 0 then t1 + max 0 (qm_End m - t0) else qm_End m)\<rparr>)"
proof -
  from pauseCurrentPlan_queue [OF u(1,3)] paused(2)
  have slot: "ps_Entitlement slot = Some e" "ps_NodeRates slot = en_NodeRates e"
    "ps_Quota slot = u_Quota u" "ps_Expires slot = u_Expires u" "ps_PausedAt slot = t0"
    "ps_VLESS slot = u_VLESS u" "ps_HY2 slot = u_HY2 u" "ps_Meter slot = Some m"
    using u(2) by auto
  from u(3) have "(if u_Expires u = 0 then 0 else t1 + max 0 (u_Expires u - t0)) =
      resumed (u_Expires u) t0 t1"
    by (auto simp: resumed_def)
  with restored paused(1) slot show "ok" "u_PlanQueue v = u_PlanQueue u"
    "u_Entitlement v = Some (e\<lparr>en_Revision := rt\<rparr>)"
    "u_Quota v = u_Quota u" "u_VLESS v = u_VLESS u" "u_HY2 v = u_HY2 u"
    "u_Expires v = resumed (u_Expires u) t0 t1"
    "u_Meter v = Some (m\<lparr>qm_Start := t1, qm_PendingReset := False,
       qm_End := (if qm_End m > 0 then t1 + max 0 (qm_End m - t0) else qm_End m)\<rparr>)"
    by (auto simp: restorePreviousPlan_def Let_def)
qed

text \<open>
  The queue is a stack: whatever happens to the account while another plan is active (only the
  queue must be untouched), restoring gives the paused plan back with the same remaining time,
  the same usage and the queue below it.
\<close>

lemma pause_assign_restore:
  assumes "u_Entitlement u = Some e" "u_Meter u = Some m" "u_Expires u = 0 \<or> t0 < u_Expires u"
    and "u_PlanQueue r = u_PlanQueue (assignPlan tz at1 at2 p t0 oid (pauseCurrentPlan t0 u))"
    and "restorePreviousPlan pt rt t1 r = (ok, v)"
  shows "ok \<and> u_PlanQueue v = u_PlanQueue u \<and> u_Entitlement v = Some (e\<lparr>en_Revision := rt\<rparr>) \<and>
    u_Quota v = u_Quota u \<and> u_VLESS v = u_VLESS u \<and> u_HY2 v = u_HY2 u \<and>
    u_Expires v = resumed (u_Expires u) t0 t1 \<and> QuotaUsed v = QuotaUsed u"
proof -
  from pauseCurrentPlan_queue [OF assms(1,3)] obtain slot where
    q: "u_PlanQueue (pauseCurrentPlan t0 u) = u_PlanQueue u @ [slot]" by blast
  with assms(4) have "u_PlanQueue r = u_PlanQueue u @ [slot]" by simp
  note restored = restore_paused [OF this q assms(1,2,3,5)]
  have "QuotaUsed v = QuotaUsed u"
    using restored(8) assms(2) by (simp add: QuotaUsed_def QuotaUpload_def QuotaDownload_def)
  with restored show ?thesis by simp
qed

text \<open>
  The weighted lifetime counters of the meter return to their value at the pause, although the
  domain documentation calls them counters that are never reset.
\<close>

lemma restore_rewinds_meter:
  assumes "u_PlanQueue r \<noteq> []" "ps_Entitlement (last (u_PlanQueue r)) = Some e"
    and "ps_Meter (last (u_PlanQueue r)) = Some m"
  shows "\<exists>m'. u_Meter (snd (restorePreviousPlan pt rt now r)) = Some m' \<and>
    qm_Upload m' = qm_Upload m \<and> qm_Download m' = qm_Download m"
  using assms by (simp add: restorePreviousPlan_def Let_def)

lemma restore_empty [simp]: "u_PlanQueue r = [] \<Longrightarrow> restorePreviousPlan pt rt now r = (False, r)"
  by (simp add: restorePreviousPlan_def)

section \<open>Which nodes an entitlement selects\<close>

lemma planSelectsNode_None [simp]: "planSelectsNode None n grp"
  by (simp add: planSelectsNode_def)

lemma planSelectsNode_explicit:
  assumes "planGroupHasExplicitNodes (Some e) grp" "planSelectsNode (Some e) n grp"
  shows "planNodeKey n \<in> set (en_NodeIDs e) \<and> group_key grp (planNodeKey n)
    \<or> nd_AccessKey n = [] \<and> nd_ID n \<in> set (en_NodeIDs e) \<and> bare_key grp (nd_ID n)"
  using assms by (auto simp: planSelectsNode_def list_ex_iff)

text \<open>
  The key of a node mounted from a site never coincides with the key or the bare identifier of a
  local node, so a selection of one never admits the other.
\<close>

definition mounted_key :: "string \<Rightarrow> string \<Rightarrow> string" where
  "mounted_key site node = defaultSubsiteGroup @ ''/'' @ site @ ''/'' @ node"

lemma planNodeKey_local: "nd_AccessKey n = [] \<Longrightarrow> planNodeKey n = localNodeGroup n @ ''/'' @ nd_ID n"
  by (simp add: planNodeKey_def)

lemma mounted_key_not_local: "mounted_key site node \<noteq> localNodeGroup n @ ''/'' @ x"
  by (simp add: mounted_key_def localNodeGroup_def group_names)

lemma mounted_key_not_bare: "\<not> bare_key grp (mounted_key site node)"
  by (simp add: mounted_key_def bare_key_def contains_char_def group_names)

lemma mounted_selection_excludes_local:
  assumes "nd_AccessKey n = []" "\<forall>k \<in> set (en_NodeIDs e). \<exists>site node. k = mounted_key site node"
    and "planGroupHasExplicitNodes (Some e) grp"
  shows "\<not> planSelectsNode (Some e) n grp"
proof
  assume "planSelectsNode (Some e) n grp"
  with planSelectsNode_explicit [OF assms(3)] have
    "planNodeKey n \<in> set (en_NodeIDs e) \<or> nd_ID n \<in> set (en_NodeIDs e) \<and> bare_key grp (nd_ID n)"
    by blast
  with assms(1,2) mounted_key_not_local mounted_key_not_bare planNodeKey_local show False
    by metis
qed

lemma nodeGroupAllowed_mount: "u_Mount r = Some m \<Longrightarrow> nodeGroupAllowed r n \<longleftrightarrow> nd_ID n \<in> set (ma_NodeIDs m)"
  by (auto simp: nodeGroupAllowed_def list_ex_iff)

lemma nodeGroupAllowed_resolved:
  assumes "u_Mount r = None" "r_AccessResolved r" "nodeGroupAllowed r n"
  shows "\<exists>g. g \<in> set (r_AllowedGroups r) \<and> g \<in> set (nd_GroupIDs (normalizeNodePolicy n))
    \<and> planSelectsNode (u_Entitlement r) n g"
  using assms by (auto simp: nodeGroupAllowed_def access_groups_def list_ex_iff)

text \<open>
  After \<open>resolveAccess\<close> a member without a mount identity reaches a node only through a group
  that is enabled, that its entitlement grants and whose selection admits the node.
\<close>

lemma resolved_access_sound:
  assumes "r' \<in> set (resolveAccess groups records)" "nodeGroupAllowed r' n" "u_Mount r' = None"
  shows "\<exists>r g. r \<in> set records \<and> g \<in> set (userNodeGroupIDs r) \<and> group_enabled groups g
    \<and> g \<in> set (nd_GroupIDs (normalizeNodePolicy n)) \<and> planSelectsNode (u_Entitlement r) n g
    \<and> u_ID r' = u_ID r"
proof -
  from assms(1) obtain r where r: "r \<in> set records"
    "r' = r\<lparr>r_AccessResolved := True, r_AllowedGroups := filter (group_enabled groups) (userNodeGroupIDs r)\<rparr>"
    by (auto simp: resolveAccess_def)
  with nodeGroupAllowed_resolved [of r' n] assms(2,3) show ?thesis by auto
qed

text \<open>The rate a package sets for a node is the rate charged; nothing else of the node changes.\<close>

lemma planNodePolicy_rate:
  assumes "e = Some en"
  shows "nd_RateMilli (planNodePolicy digest e n) =
    (case map_of (en_NodeRates en) (planNodeKey n) of Some r \<Rightarrow> r
     | None \<Rightarrow> (case map_of (en_NodeRates en) (nd_ID n) of Some r \<Rightarrow> r | None \<Rightarrow> nd_RateMilli n))"
  using assms by (simp add: planNodePolicy_def Let_def split: option.splits)

lemma planNodePolicy_frame [simp]:
  "nd_ID (planNodePolicy digest e n) = nd_ID n" "nd_GroupIDs (planNodePolicy digest e n) = nd_GroupIDs n"
  "nd_AccessKey (planNodePolicy digest e n) = nd_AccessKey n"
  by (simp_all add: planNodePolicy_def Let_def split: option.splits)

section \<open>Locating and removing the entitlement of an order\<close>

definition slot_order_id :: "PlanSlot \<Rightarrow> string" where
  "slot_order_id s =
    (if ps_OrderID s \<noteq> [] then ps_OrderID s
     else case ps_Entitlement s of None \<Rightarrow> []
       | Some e \<Rightarrow> if en_OrderID e \<noteq> [] then en_OrderID e else en_RenewalOrderID e)"

definition slot_matches :: "string \<Rightarrow> PlanSlot \<Rightarrow> bool" where
  "slot_matches orderID s \<longleftrightarrow> slot_order_id s = orderID \<or> ps_RenewalOrderID s = orderID"

fun queue_position :: "string \<Rightarrow> PlanSlot list \<Rightarrow> nat \<Rightarrow> nat option" where
  "queue_position orderID [] i = None"
| "queue_position orderID (s # ss) i =
    (if slot_matches orderID s then Some i else queue_position orderID ss (Suc i))"

datatype position = NotFound | ActivePlan | QueuedPlan nat

definition owns_active :: "string \<Rightarrow> ('a) User_scheme \<Rightarrow> bool" where
  "owns_active orderID u = (case u_Entitlement u of None \<Rightarrow> False
     | Some e \<Rightarrow> en_OrderID e = orderID \<or> en_RenewalOrderID e = orderID)"

definition orderEntitlementPosition :: "('a) User_scheme \<Rightarrow> string \<Rightarrow> position" where
  "orderEntitlementPosition u orderID =
    (if orderID = [] then NotFound
     else if owns_active orderID u then ActivePlan
     else case queue_position orderID (u_PlanQueue u) 0 of Some i \<Rightarrow> QueuedPlan i | None \<Rightarrow> NotFound)"

definition removeQueuedEntitlement :: "nat \<Rightarrow> ('a) User_scheme \<Rightarrow> ('a) User_scheme option" where
  "removeQueuedEntitlement index u =
    (if index \<ge> length (u_PlanQueue u) then None
     else Some (u\<lparr>u_PlanQueue := remove_at index (u_PlanQueue u)\<rparr>))"

lemma queue_position_Some:
  "queue_position oid ss k = Some i \<Longrightarrow>
    \<exists>j. i = k + j \<and> j < length ss \<and> slot_matches oid (ss ! j) \<and> (\<forall>l < j. \<not> slot_matches oid (ss ! l))"
proof (induction ss arbitrary: k)
  case (Cons s ss)
  show ?case
  proof (cases "slot_matches oid s")
    case True
    with Cons.prems show ?thesis by (intro exI [of _ 0]) simp
  next
    case False
    with Cons.prems have "queue_position oid ss (Suc k) = Some i" by simp
    from Cons.IH [OF this] obtain j where j: "i = Suc k + j" "j < length ss"
      "slot_matches oid (ss ! j)" "\<forall>l < j. \<not> slot_matches oid (ss ! l)" by blast
    have "\<not> slot_matches oid ((s # ss) ! l)" if "l < Suc j" for l
      using False j(4) that by (cases l) simp_all
    with j show ?thesis by (intro exI [of _ "Suc j"]) simp
  qed
qed simp

lemma position_queued:
  assumes "orderEntitlementPosition u oid = QueuedPlan i"
  shows "i < length (u_PlanQueue u)" "slot_matches oid (u_PlanQueue u ! i)"
    "\<forall>j < i. \<not> slot_matches oid (u_PlanQueue u ! j)" "\<not> owns_active oid u" "oid \<noteq> []"
  using assms queue_position_Some [of oid "u_PlanQueue u" 0]
  by (auto simp: orderEntitlementPosition_def split: if_splits option.splits)

section \<open>Live edits of a plan\<close>

definition sameNodeRates :: "rates \<Rightarrow> rates \<Rightarrow> bool" where
  "sameNodeRates a b \<longleftrightarrow> length a = length b \<and> list_all (\<lambda>(k, r). map_of b k = Some r) a"

definition syncPlanUser :: "string \<Rightarrow> Plan \<Rightarrow> User \<Rightarrow> bool \<times> User" where
  "syncPlanUser token p u =
    (case u_Entitlement u of None \<Rightarrow> (False, u)
     | Some e \<Rightarrow>
        if en_PlanID e = pl_ID p \<and>
           (en_GroupIDs e \<noteq> pl_GroupIDs p \<or> en_NodeIDs e \<noteq> pl_NodeIDs p \<or>
            \<not> sameNodeRates (en_NodeRates e) (pl_NodeRates p) \<or>
            u_VLESS u \<noteq> pl_VLESS p \<or> u_HY2 u \<noteq> pl_HY2 p)
        then (True, u\<lparr>u_Entitlement := Some (e\<lparr>en_GroupIDs := pl_GroupIDs p, en_NodeIDs := pl_NodeIDs p,
                  en_NodeRates := pl_NodeRates p, en_Version := pl_Version p, en_Revision := token\<rparr>),
                u_VLESS := pl_VLESS p, u_HY2 := pl_HY2 p\<rparr>)
        else (False, u))"

text \<open>
  \<open>syncActivePlanEntitlements\<close> over the rows of \<open>users\<close>, one token per row, and the count of
  updated rows.
\<close>

definition syncActivePlanEntitlements :: "(int \<Rightarrow> string) \<Rightarrow> Plan \<Rightarrow> User list \<Rightarrow> int \<times> User list" where
  "syncActivePlanEntitlements token p users =
    (let rs = map (\<lambda>u. syncPlanUser (token (u_ID u)) p u) users
     in (int (length (filter fst rs)), map snd rs))"

lemma syncPlanUser_billing:
  "u_Quota (snd (syncPlanUser t p u)) = u_Quota u" "u_Expires (snd (syncPlanUser t p u)) = u_Expires u"
  "u_PlanQueue (snd (syncPlanUser t p u)) = u_PlanQueue u" "u_Meter (snd (syncPlanUser t p u)) = u_Meter u"
  "u_ID (snd (syncPlanUser t p u)) = u_ID u"
  "map_option en_OrderID (u_Entitlement (snd (syncPlanUser t p u))) = map_option en_OrderID (u_Entitlement u)"
  "map_option en_Name (u_Entitlement (snd (syncPlanUser t p u))) = map_option en_Name (u_Entitlement u)"
  by (auto simp: syncPlanUser_def split: option.splits)

lemma syncPlanUser_policy:
  assumes "u_Entitlement (snd (syncPlanUser t p u)) = Some e" "en_PlanID e = pl_ID p"
  shows "en_GroupIDs e = pl_GroupIDs p" "en_NodeIDs e = pl_NodeIDs p"
    "sameNodeRates (en_NodeRates e) (pl_NodeRates p) \<or> en_NodeRates e = pl_NodeRates p"
    "u_VLESS (snd (syncPlanUser t p u)) = pl_VLESS p" "u_HY2 (snd (syncPlanUser t p u)) = pl_HY2 p"
  using assms by (auto simp: syncPlanUser_def split: option.splits if_splits)

lemma syncPlanUser_other:
  "map_option en_PlanID (u_Entitlement u) \<noteq> Some (pl_ID p) \<Longrightarrow> syncPlanUser t p u = (False, u)"
  by (auto simp: syncPlanUser_def split: option.splits)

end
