(* ===== verification/Sites.thy ===== *)
theory Sites
  imports Plans
begin

text \<open>
  Business (child) sites as the controller keeps them
  (\<open>backend/internal/controlplane/business_types.go\<close>, \<open>business_quota.go\<close>,
  \<open>business_policy.go\<close>, and \<open>purchaseSiteBudgets\<close> of \<open>commerce_fulfilment.go\<close>): the quota a site
  has been issued, what the next snapshot may issue, the share of a new plan each site gets, and
  the monthly budget with its cool-down. Go maps are association lists; a missing key reads as
  the zero value.
\<close>

section \<open>Go maps\<close>

definition map_get :: "'v \<Rightarrow> ('k \<times> 'v) list \<Rightarrow> 'k \<Rightarrow> 'v" where
  "map_get zero m k = (case map_of m k of None \<Rightarrow> zero | Some v \<Rightarrow> v)"

definition map_put :: "'k \<Rightarrow> 'v \<Rightarrow> ('k \<times> 'v) list \<Rightarrow> ('k \<times> 'v) list" where
  "map_put k v m = (k, v) # filter (\<lambda>e. fst e \<noteq> k) m"

definition map_has :: "('k \<times> 'v) list \<Rightarrow> 'k \<Rightarrow> bool" where
  "map_has m k \<longleftrightarrow> map_of m k \<noteq> None"

lemma map_of_filter_other: "k \<noteq> j \<Longrightarrow> map_of (filter (\<lambda>e. fst e \<noteq> k) m) j = map_of m j"
  by (induction m) auto

lemma map_of_map_put [simp]: "map_of (map_put k v m) j = (if j = k then Some v else map_of m j)"
  by (simp add: map_put_def map_of_filter_other)

lemma map_get_put [simp]: "map_get z (map_put k v m) j = (if j = k then v else map_get z m j)"
  by (simp add: map_get_def)

lemma map_has_put [simp]: "map_has (map_put k v m) j \<longleftrightarrow> j = k \<or> map_has m j"
  by (simp add: map_has_def)

lemma map_get_Nil [simp]: "map_get z [] k = z" and map_has_Nil [simp]: "\<not> map_has [] k"
  by (simp_all add: map_get_def map_has_def)

section \<open>Grants, usage and sites\<close>

definition businessLeaseSeconds :: int where "businessLeaseSeconds = 900"
definition defaultBudgetCooldownSeconds :: int where "defaultBudgetCooldownSeconds = 24 * 60 * 60"
definition maxBudgetCooldownSeconds :: int where "maxBudgetCooldownSeconds = 365 * 24 * 60 * 60"

lemmas budget_constants = businessLeaseSeconds_def defaultBudgetCooldownSeconds_def maxBudgetCooldownSeconds_def

record BusinessGrant =
  bg_PeriodID :: string
  bg_Budget :: int
  bg_UserID :: int
  bg_Quota :: int

record BusinessUsage =
  bu_PeriodID :: string
  bu_UploadRemainder :: int
  bu_DownloadRemainder :: int
  bu_Metered :: bool
  bu_QuotaUpload :: int
  bu_QuotaDownload :: int
  bu_Upload :: int
  bu_Download :: int
  bu_VLESS :: int
  bu_HY2 :: int

definition no_usage :: BusinessUsage where
  "no_usage = \<lparr>bu_PeriodID = [], bu_UploadRemainder = 0, bu_DownloadRemainder = 0, bu_Metered = False,
     bu_QuotaUpload = 0, bu_QuotaDownload = 0, bu_Upload = 0, bu_Download = 0, bu_VLESS = 0, bu_HY2 = 0\<rparr>"

definition usage_total :: "BusinessUsage \<Rightarrow> int" where
  "usage_total v = (if bu_Metered v then bu_QuotaUpload v + bu_QuotaDownload v else bu_Upload v + bu_Download v)"

definition usage_rawTotal :: "BusinessUsage \<Rightarrow> int" where
  "usage_rawTotal v = bu_Upload v + bu_Download v"

record BusinessCommand =
  bc_ID :: string
  bc_Kind :: string
  bc_NodeID :: string
  bc_Created :: int
  bc_State :: string

text \<open>
  The fields of \<open>BusinessSite\<close> the quota and metering code reads and writes. \<open>bs_Mount\<close> keeps the
  nodes of the mounted catalogue, \<open>bs_Protocol\<close> the protocol of \<open>Info\<close>.
\<close>

record BusinessSite =
  bs_ID :: string
  bs_Enabled :: bool
  bs_Removed :: bool
  bs_OwnerID :: int
  bs_Mount :: "Node list option"
  bs_Protocol :: "int option"
  bs_DefaultNodes :: "Node list"
  bs_Nodes :: "Node list"
  bs_RateRules :: "(string \<times> int) list"
  bs_PeriodRules :: "(string \<times> bool) list"
  bs_UsageBaseline :: "(int \<times> BusinessUsage) list"
  bs_MonthlyBudget :: int
  bs_MonthlyUsage :: int
  bs_MonthlyBudgetPeriod :: string
  bs_CooldownSeconds :: int
  bs_BudgetCooldownUntil :: int
  bs_Commands :: "BusinessCommand list"
  bs_Grants :: "BusinessGrant list"
  bs_Revision :: string
  bs_Applied :: string
  bs_Desired :: string
  bs_LeaseUntil :: int
  bs_Usage :: "(int \<times> BusinessUsage) list"
  bs_Issued :: "(int \<times> int) list"
  bs_IssuedUnlimited :: "(int \<times> bool) list"
  bs_SentGrants :: "BusinessGrant list"
  bs_IssuedNodes :: "Node list"
  bs_SentNodes :: "Node list"

definition site_usage :: "BusinessSite \<Rightarrow> int \<Rightarrow> BusinessUsage" where
  "site_usage v user = map_get no_usage (bs_Usage v) user"

definition site_issued :: "BusinessSite \<Rightarrow> int \<Rightarrow> int" where
  "site_issued v user = map_get 0 (bs_Issued v) user"

definition site_unlimited :: "BusinessSite \<Rightarrow> int \<Rightarrow> bool" where
  "site_unlimited v user = map_get False (bs_IssuedUnlimited v) user"

lemmas site_readings = site_usage_def site_issued_def site_unlimited_def

section \<open>The monthly budget\<close>

text \<open>\<open>time.Unix(now, 0).UTC().Format("2006-01")\<close>.\<close>

definition pad_left :: "nat \<Rightarrow> string \<Rightarrow> string" where
  "pad_left n s = replicate (n - length s) (CHR ''0'') @ s"

definition utc_month :: "int \<Rightarrow> string" where
  "utc_month now = (let (y, m) = year_month_in (\<lambda>_. 0) now
     in pad_left 4 (itoa y) @ ''-'' @ pad_left 2 (itoa m))"

definition cooldown_or_default :: "int \<Rightarrow> int" where
  "cooldown_or_default s =
    (if s \<le> 0 \<or> s > maxBudgetCooldownSeconds then defaultBudgetCooldownSeconds else s)"

definition markBudgetExhausted :: "int \<Rightarrow> BusinessSite \<Rightarrow> BusinessSite" where
  "markBudgetExhausted now v =
    (if bs_MonthlyBudget v \<le> 0 \<or> bs_MonthlyUsage v < bs_MonthlyBudget v then v
     else let s = cooldown_or_default (bs_CooldownSeconds v)
          in v\<lparr>bs_CooldownSeconds := s, bs_BudgetCooldownUntil := now + s\<rparr>)"

definition refreshMonthlyBudget :: "int \<Rightarrow> BusinessSite \<Rightarrow> BusinessSite" where
  "refreshMonthlyBudget now v =
    (let period = utc_month now;
         v1 = (if bs_MonthlyBudgetPeriod v \<noteq> period
                  \<or> bs_BudgetCooldownUntil v > 0 \<and> now \<ge> bs_BudgetCooldownUntil v
               then v\<lparr>bs_MonthlyBudgetPeriod := period, bs_MonthlyUsage := 0, bs_BudgetCooldownUntil := 0\<rparr>
               else v);
         v2 = v1\<lparr>bs_CooldownSeconds := cooldown_or_default (bs_CooldownSeconds v1)\<rparr>
     in if bs_BudgetCooldownUntil v2 = 0 \<and> bs_MonthlyBudget v2 > 0
           \<and> bs_MonthlyUsage v2 \<ge> bs_MonthlyBudget v2
        then markBudgetExhausted now v2 else v2)"

definition monthlyBudgetAvailable :: "int \<Rightarrow> BusinessSite \<Rightarrow> bool" where
  "monthlyBudgetAvailable now v \<longleftrightarrow>
    bs_MonthlyBudget v \<le> 0 \<or> bs_BudgetCooldownUntil v \<le> now \<and> bs_MonthlyUsage v < bs_MonthlyBudget v"

lemma cooldown_bounds: "0 < cooldown_or_default s" "cooldown_or_default s \<le> maxBudgetCooldownSeconds"
  by (simp_all add: cooldown_or_default_def budget_constants)

lemma cooldown_idem [simp]: "cooldown_or_default (cooldown_or_default s) = cooldown_or_default s"
  by (simp add: cooldown_or_default_def budget_constants)

lemma refresh_period [simp]: "bs_MonthlyBudgetPeriod (refreshMonthlyBudget now v) = utc_month now"
  by (simp add: refreshMonthlyBudget_def Let_def markBudgetExhausted_def)

lemma refresh_keeps_budget [simp]: "bs_MonthlyBudget (refreshMonthlyBudget now v) = bs_MonthlyBudget v"
  by (simp add: refreshMonthlyBudget_def Let_def markBudgetExhausted_def)

text \<open>A refreshed site is either open, or paused until a moment that lies in the future.\<close>

lemma refresh_open_or_cooling:
  "0 \<le> now \<Longrightarrow> 0 \<le> bs_BudgetCooldownUntil v \<Longrightarrow> monthlyBudgetAvailable now (refreshMonthlyBudget now v) \<or> now < bs_BudgetCooldownUntil (refreshMonthlyBudget now v)"
  using cooldown_bounds(1) [of "bs_CooldownSeconds v"]
  by (auto simp: refreshMonthlyBudget_def Let_def markBudgetExhausted_def monthlyBudgetAvailable_def)

lemma refresh_cooldown_bounded:
  assumes "0 \<le> now" "bs_BudgetCooldownUntil v \<le> now + maxBudgetCooldownSeconds"
  shows "bs_BudgetCooldownUntil (refreshMonthlyBudget now v) \<le> now + maxBudgetCooldownSeconds"
  using assms cooldown_bounds(2) [of "bs_CooldownSeconds v"]
  by (auto simp: refreshMonthlyBudget_def Let_def markBudgetExhausted_def budget_constants)

lemma refresh_idem:
  assumes "0 \<le> now"
  shows "refreshMonthlyBudget now (refreshMonthlyBudget now v) = refreshMonthlyBudget now v"
  using assms cooldown_bounds(1) [of "bs_CooldownSeconds v"]
  by (auto simp: refreshMonthlyBudget_def Let_def markBudgetExhausted_def)

section \<open>What a site still holds\<close>

definition siteReservation :: "BusinessSite \<Rightarrow> int \<Rightarrow> int" where
  "siteReservation v user =
    (let limit = foldl (\<lambda>limit g. if bg_UserID g = user \<and> bg_Quota g > limit then bg_Quota g else limit)
                   (site_issued v user) (bs_Grants v)
     in max 0 (limit - usage_total (site_usage v user)))"

definition siteRuntimeReservation :: "BusinessSite \<Rightarrow> int \<Rightarrow> int" where
  "siteRuntimeReservation v user =
    (if site_unlimited v user then 0
     else max 0 (site_issued v user - usage_total (site_usage v user)))"

lemma siteRuntimeReservation_nonneg [simp]: "0 \<le> siteRuntimeReservation v user"
  by (simp add: siteRuntimeReservation_def)

text \<open>\<open>businessRemainingQuota\<close>: an unlimited issue, or reservations of at least the rest, leave nothing.\<close>

fun remaining_after :: "string \<Rightarrow> int \<Rightarrow> BusinessSite list \<Rightarrow> int \<Rightarrow> int" where
  "remaining_after siteID user [] remaining = remaining"
| "remaining_after siteID user (s # ss) remaining =
    (if bs_ID s = siteID then remaining_after siteID user ss remaining
     else if site_unlimited s user then 0
     else if siteRuntimeReservation s user \<ge> remaining then 0
     else remaining_after siteID user ss (remaining - siteRuntimeReservation s user))"

definition businessRemainingQuota :: "BusinessSite list \<Rightarrow> ('a) User_scheme \<Rightarrow> string \<Rightarrow> int" where
  "businessRemainingQuota sites user siteID =
    (if u_Quota user = 0 then 0
     else remaining_after siteID (u_ID user) sites (max 0 (u_Quota user - QuotaUsed user)))"

text \<open>
  \<open>effectiveBusinessGrant\<close> and \<open>effectiveBusinessSnapshotGrant\<close> have the same body.
\<close>

definition effectiveBusinessSnapshotGrant ::
  "BusinessSite list \<Rightarrow> ('a) User_scheme \<Rightarrow> BusinessSite \<Rightarrow> BusinessGrant \<Rightarrow> meter_error + (BusinessGrant \<times> bool)"
where
  "effectiveBusinessSnapshotGrant sites user site grant =
    (let used = usage_total (site_usage site (u_ID user)) in
     if bg_UserID grant \<noteq> u_ID user then Inr (grant, False)
     else if bg_Quota grant > 0 \<and> used \<ge> bg_Quota grant then Inr (grant, False)
     else if u_Quota user = 0 then Inr (grant, True)
     else
       let remaining = businessRemainingQuota sites user (bs_ID site) in
       if remaining \<le> 0 then Inr (grant, False)
       else bind_res (AddCounter used remaining) (\<lambda>maxQuota.
         let g = (if bg_Quota grant = 0 \<or> bg_Quota grant > maxQuota
                  then grant\<lparr>bg_Quota := maxQuota\<rparr> else grant)
         in if bg_Quota g \<le> used then Inr (g, False) else Inr (g, True)))"

definition effectiveBusinessGrant ::
  "BusinessSite list \<Rightarrow> ('a) User_scheme \<Rightarrow> BusinessSite \<Rightarrow> BusinessGrant \<Rightarrow> meter_error + (BusinessGrant \<times> bool)"
where
  "effectiveBusinessGrant sites user site grant = effectiveBusinessSnapshotGrant sites user site grant"

text \<open>The reservations the other sites hold, as a sum.\<close>

definition reserved_elsewhere :: "BusinessSite list \<Rightarrow> int \<Rightarrow> string \<Rightarrow> int" where
  "reserved_elsewhere sites user siteID =
    sum_where (\<lambda>s. bs_ID s \<noteq> siteID) (\<lambda>s. siteRuntimeReservation s user) sites"

lemma reserved_elsewhere_nonneg [simp]: "0 \<le> reserved_elsewhere sites user siteID"
  by (simp add: reserved_elsewhere_def sum_where_nonneg)

lemma remaining_after_bound:
  "0 \<le> r \<Longrightarrow> 0 \<le> remaining_after sid u ss r \<and>
     (remaining_after sid u ss r > 0 \<longrightarrow> remaining_after sid u ss r + reserved_elsewhere ss u sid = r)"
proof (induction ss arbitrary: r)
  case Nil
  then show ?case by (simp add: reserved_elsewhere_def)
next
  case (Cons s ss)
  from Cons.IH [of r] Cons.IH [of "r - siteRuntimeReservation s u"] Cons.prems show ?case
    by (auto simp: reserved_elsewhere_def)
qed

lemma businessRemainingQuota_nonneg: "0 \<le> businessRemainingQuota sites user sid"
  by (simp add: businessRemainingQuota_def remaining_after_bound)

lemma businessRemainingQuota_exact:
  assumes "0 < businessRemainingQuota sites user sid"
  shows "u_Quota user \<noteq> 0"
    and "businessRemainingQuota sites user sid + reserved_elsewhere sites (u_ID user) sid
      = u_Quota user - QuotaUsed user"
proof -
  show nz: "u_Quota user \<noteq> 0" using assms by (auto simp: businessRemainingQuota_def)
  let ?r = "max 0 (u_Quota user - QuotaUsed user)"
  from remaining_after_bound [of ?r sid "u_ID user" sites] assms nz
  have eq: "businessRemainingQuota sites user sid + reserved_elsewhere sites (u_ID user) sid = ?r"
    by (simp add: businessRemainingQuota_def)
  with assms reserved_elsewhere_nonneg [of sites "u_ID user" sid] have "0 < ?r" by linarith
  with eq show "businessRemainingQuota sites user sid + reserved_elsewhere sites (u_ID user) sid
      = u_Quota user - QuotaUsed user" by (simp add: max_def split: if_splits)
qed

lemma effective_grant_within:
  assumes "effectiveBusinessSnapshotGrant sites user site grant = Inr (g, True)" "u_Quota user \<noteq> 0"
  shows "bg_UserID g = u_ID user" "usage_total (site_usage site (u_ID user)) < bg_Quota g"
    "bg_Quota g - usage_total (site_usage site (u_ID user)) + reserved_elsewhere sites (u_ID user) (bs_ID site)
       \<le> u_Quota user - QuotaUsed user"
    "bg_Quota grant > 0 \<Longrightarrow> bg_Quota g \<le> bg_Quota grant"
    "bg_Quota g \<le> CounterLimit"
proof -
  let ?used = "usage_total (site_usage site (u_ID user))"
  let ?rem = "businessRemainingQuota sites user (bs_ID site)"
  from assms have rem: "0 < ?rem" and u: "bg_UserID grant = u_ID user"
    and g: "bg_Quota g \<le> ?used + ?rem" "?used < bg_Quota g" "bg_UserID g = bg_UserID grant"
      "?used + ?rem \<le> CounterLimit" "bg_Quota grant > 0 \<longrightarrow> bg_Quota g \<le> bg_Quota grant"
    by (auto simp: effectiveBusinessSnapshotGrant_def Let_def res_simps split: if_splits)
  from g u show "bg_UserID g = u_ID user" "?used < bg_Quota g"
    "bg_Quota grant > 0 \<Longrightarrow> bg_Quota g \<le> bg_Quota grant" "bg_Quota g \<le> CounterLimit" by simp_all
  from businessRemainingQuota_exact(2) [OF rem] g(1) show
    "bg_Quota g - ?used + reserved_elsewhere sites (u_ID user) (bs_ID site) \<le> u_Quota user - QuotaUsed user"
    by linarith
qed

section \<open>The snapshot sent to a site\<close>

text \<open>
  \<open>secret seed site label\<close> is \<open>businessSecret\<close> (an HMAC) and \<open>uuid\<close> the version 4 formatting of
  the SHA-256 of a string.
\<close>

definition businessRecord ::
  "(string \<Rightarrow> string \<Rightarrow> string \<Rightarrow> string) \<Rightarrow> (string \<Rightarrow> string) \<Rightarrow> string \<Rightarrow> Node list \<Rightarrow> Record \<Rightarrow> Record"
where
  "businessRecord secret uuid site nodes r =
    (let seed = secret (cr_HY2 (r_Credentials r)) site ''account'' in
     r\<lparr>r_Password := [], u_LastSub := 0, u_Role := ''user'',
       r_Credentials :=
         \<lparr>cr_PublicToken = secret seed site ''local-public'', cr_HYGeneration = cr_HYGeneration (r_Credentials r),
          cr_HY2 = seed, cr_Token = secret seed site ''local-token'',
          cr_VLESS = map (\<lambda>n. (nd_ID n, uuid (secret seed site (nd_ID n))))
            (filter (\<lambda>n. nd_Protocol n = ''vless'') nodes)\<rparr>\<rparr>)"

record BusinessSnapshot =
  ss_SiteID :: string
  ss_Nodes :: "Node list"
  ss_Users :: "(User \<times> Credentials) list"
  ss_Commands :: "BusinessCommand list"
  ss_IssuedAt :: int
  ss_LeaseSeconds :: int
  ss_RuntimeMode :: string

text \<open>The environment of a snapshot: the clock, the secrets, what other stores answer.\<close>

record snapshot_env =
  se_now :: int
  se_secret :: "string \<Rightarrow> string \<Rightarrow> string \<Rightarrow> string"
  se_uuid :: "string \<Rightarrow> string"
  se_nodes :: "Node list"
  se_owner_enabled :: bool
  se_mode :: string
  se_revision :: "BusinessSnapshot \<Rightarrow> string"

definition old_protocol :: "BusinessSite \<Rightarrow> bool" where
  "old_protocol v = (case bs_Protocol v of None \<Rightarrow> False | Some p \<Rightarrow> p < 2)"

text \<open>The inner loop over the grants of the site: the first one that may be issued to the member.\<close>

fun pick_grant ::
  "BusinessSite list \<Rightarrow> BusinessSite \<Rightarrow> Record \<Rightarrow> BusinessGrant list \<Rightarrow> meter_error + BusinessGrant option"
where
  "pick_grant sites v r [] = Inr None"
| "pick_grant sites v r (g # gs) =
    (if bg_UserID g \<noteq> u_ID r then pick_grant sites v r gs
     else if bg_Quota g > 0 \<and> usage_total (site_usage v (u_ID r)) \<ge> bg_Quota g
     then pick_grant sites v r gs
     else bind_res (effectiveBusinessSnapshotGrant sites r v g) (\<lambda>(issued, allowed).
       if \<not> allowed then pick_grant sites v r gs
       else if old_protocol v \<and> (u_Entitlement r \<noteq> None \<or> u_NodeGroupIDs r \<noteq> None)
       then pick_grant sites v r gs
       else Inr (Some issued)))"

definition period_rule :: "int \<Rightarrow> string \<Rightarrow> string" where
  "period_rule user period = itoa user @ ''/'' @ period"

definition snapshot_meter :: "QuotaMeter \<Rightarrow> QuotaMeter" where
  "snapshot_meter m =
    m\<lparr>qm_Upload := 0, qm_Download := 0, qm_BaseUpload := 0, qm_BaseDownload := 0,
      qm_RawBaseUpload := 0, qm_RawBaseDownload := 0, qm_UploadRemainder := 0,
      qm_DownloadRemainder := 0, qm_InitialUpload := 0, qm_InitialDownload := 0\<rparr>"

definition snapshot_account ::
  "snapshot_env \<Rightarrow> BusinessSite \<Rightarrow> BusinessGrant \<Rightarrow> Record \<Rightarrow> (User \<times> Credentials) \<times> BusinessGrant \<times> BusinessSite"
where
  "snapshot_account env v g r0 =
    (let r1 = InitMeter (''legacy-'' @ itoa (u_ID r0)) (u_Created r0)
                (businessRecord (se_secret env) (se_uuid env) (bs_ID v) (se_nodes env) r0);
         r2 = r1\<lparr>u_CompiledGroups := Some (r_AllowedGroups r1), u_Meter := map_option snapshot_meter (u_Meter r1)\<rparr>;
         period = (case u_Meter r2 of None \<Rightarrow> bg_PeriodID g | Some m \<Rightarrow> qm_PeriodID m);
         v' = v\<lparr>bs_PeriodRules := map_put (period_rule (u_ID r2) period) True (bs_PeriodRules v)\<rparr>;
         r3 = (if old_protocol v then r2\<lparr>u_Meter := None, u_CompiledGroups := None\<rparr> else r2);
         r4 = r3\<lparr>u_Quota := bg_Quota g, u_Upload := 0, u_Download := 0, u_VLESSTraffic := 0, u_HY2Traffic := 0\<rparr>
     in ((User.truncate r4, r_Credentials r4), g\<lparr>bg_PeriodID := period\<rparr>, v'))"

text \<open>The loop over the members; the site is \<open>v\<close>, its accounts and grants accumulate.\<close>

fun snapshot_users ::
  "snapshot_env \<Rightarrow> BusinessSite list \<Rightarrow> Record list \<Rightarrow> BusinessSite \<Rightarrow>
     meter_error + ((User \<times> Credentials) list \<times> BusinessGrant list \<times> BusinessSite)"
where
  "snapshot_users env sites [] v = Inr ([], [], v)"
| "snapshot_users env sites (r # rs) v =
    (if \<not> monthlyBudgetAvailable (se_now env) v then Inr ([], [], v)
     else if \<not> bs_Enabled v \<or> \<not> se_owner_enabled env \<or> \<not> Active (se_now env) r
     then snapshot_users env sites rs v
     else bind_res (pick_grant sites v r (bs_Grants v)) (\<lambda>picked.
       case picked of
         None \<Rightarrow> snapshot_users env sites rs v
       | Some g \<Rightarrow> (let (acc, g', v') = snapshot_account env v g r in
           bind_res (snapshot_users env sites rs v') (\<lambda>(accs, gs, v''). Inr (acc # accs, g' # gs, v'')))))"

definition issue_grant :: "BusinessSite \<Rightarrow> BusinessGrant \<Rightarrow> BusinessSite" where
  "issue_grant v g =
    (if bg_Quota g = 0 then v\<lparr>bs_IssuedUnlimited := map_put (bg_UserID g) True (bs_IssuedUnlimited v)\<rparr>
     else if bg_Quota g > site_issued v (bg_UserID g)
     then v\<lparr>bs_Issued := map_put (bg_UserID g) (bg_Quota g) (bs_Issued v)\<rparr> else v)"

definition businessSnapshot ::
  "snapshot_env \<Rightarrow> NodeGroup list \<Rightarrow> BusinessSite list \<Rightarrow> Record list \<Rightarrow> BusinessSite \<Rightarrow>
     meter_error + (BusinessSnapshot \<times> BusinessSite)"
where
  "businessSnapshot env groups sites users v0 =
    (let v = refreshMonthlyBudget (se_now env) v0 in
     bind_res (snapshot_users env sites (resolveAccess groups users) v) (\<lambda>(accounts, grants, v1).
       let commands = (if bs_Enabled v1 \<and> se_owner_enabled env
             then filter (\<lambda>c. bc_State c = ''queued'' \<or> bc_State c = ''running'') (bs_Commands v1) else []);
           out = \<lparr>ss_SiteID = bs_ID v1, ss_Nodes = se_nodes env, ss_Users = accounts, ss_Commands = commands,
                  ss_IssuedAt = se_now env, ss_LeaseSeconds = businessLeaseSeconds, ss_RuntimeMode = se_mode env\<rparr>;
           v2 = v1\<lparr>bs_Desired := se_revision env out, bs_SentGrants := grants, bs_SentNodes := se_nodes env,
                   bs_RateRules := foldl (\<lambda>m n. let n = normalizeNodePolicy n
                      in map_put (nd_ID n @ ''/'' @ nd_RateRevision n) (nd_RateMilli n) m)
                      (bs_RateRules v1) (se_nodes env),
                   bs_LeaseUntil := ss_IssuedAt out + ss_LeaseSeconds out\<rparr>
       in Inr (out, foldl issue_grant v2 grants)))"

section \<open>Shares of a new plan\<close>

text \<open>
  \<open>purchaseSiteBudgets\<close>; \<open>local\<close> are the nodes of this panel, \<open>nodes_of\<close> the materialized nodes of
  a site and \<open>owner_enabled\<close> the answer of \<open>businessOwnerEnabled\<close>.
\<close>

definition plan_allows :: "Record \<Rightarrow> Node list \<Rightarrow> bool" where
  "plan_allows u nodes =
    list_ex (\<lambda>n. nd_Enabled n \<and> nodeGroupAllowed u n \<and>
       (nd_Protocol n = ''vless'' \<and> u_VLESS u \<or> nd_Protocol n = ''hy2'' \<and> u_HY2 u)) nodes"

definition site_eligible :: "(BusinessSite \<Rightarrow> Node list) \<Rightarrow> (BusinessSite \<Rightarrow> bool) \<Rightarrow> Record \<Rightarrow> BusinessSite \<Rightarrow> bool" where
  "site_eligible nodes_of owner_enabled u s \<longleftrightarrow>
    bs_Enabled s \<and> \<not> bs_Removed s \<and> owner_enabled s \<and>
    (bs_Mount s \<noteq> None \<or> list_ex (\<lambda>g. bg_UserID g = u_ID u) (bs_Grants s)) \<and>
    plan_allows u (nodes_of s)"

fun allot :: "int \<Rightarrow> int \<Rightarrow> BusinessSite list \<Rightarrow> int \<Rightarrow> (string \<times> int) list" where
  "allot quota shares [] remaining = []"
| "allot quota shares (s # ss) remaining =
    (if bs_Mount s \<noteq> None then allot quota shares ss remaining
     else if quota = 0 then (bs_ID s, 0) # allot quota shares ss remaining
     else if remaining = 0 then allot quota shares ss remaining
     else let budget = min remaining (max 1 (quota div max 1 shares))
          in (bs_ID s, budget) # allot quota shares ss (remaining - budget))"

definition purchaseSiteBudgets ::
  "Node list \<Rightarrow> (BusinessSite \<Rightarrow> Node list) \<Rightarrow> (BusinessSite \<Rightarrow> bool) \<Rightarrow> Record \<Rightarrow> BusinessSite list \<Rightarrow> (string \<times> int) list"
where
  "purchaseSiteBudgets local_nodes nodes_of owner_enabled u sites =
    (let eligible = filter (site_eligible nodes_of owner_enabled u) sites;
         shares = (if plan_allows u local_nodes then 1 else 0) + int (length eligible)
     in allot (u_Quota u) shares eligible (u_Quota u))"

lemma allot_bound:
  "0 < quota \<Longrightarrow> 0 \<le> r \<Longrightarrow> sum_list (map snd (allot quota shares ss r)) \<le> r \<and>
     (\<forall>b \<in> set (map snd (allot quota shares ss r)). 1 \<le> b)"
proof (induction ss arbitrary: r)
  case (Cons s ss)
  define b where "b = min r (max 1 (quota div max 1 shares))"
  have ge: "0 \<le> r - b" and pos: "r \<noteq> 0 \<Longrightarrow> 1 \<le> b" using Cons.prems(2) by (auto simp: b_def)
  note ih = Cons.IH [OF Cons.prems]
  note ih' = Cons.IH [OF Cons.prems(1) ge]
  show ?case
  proof (cases "bs_Mount s \<noteq> None \<or> r = 0")
    case True
    then show ?thesis using ih Cons.prems(1) by auto
  next
    case False
    then have "allot quota shares (s # ss) r = (bs_ID s, b) # allot quota shares ss (r - b)"
      using Cons.prems(1) by (simp add: b_def Let_def)
    then show ?thesis using ih' pos False by simp
  qed
qed simp

lemma allot_unlimited: "b \<in> set (map snd (allot 0 shares ss r)) \<Longrightarrow> b = 0"
  by (induction ss arbitrary: r) (auto split: if_splits)

section \<open>No oversold quota\<close>

text \<open>What all sites may still consume of a member's quota.\<close>

definition total_reserved :: "BusinessSite list \<Rightarrow> int \<Rightarrow> int" where
  "total_reserved sites user = sum_where (\<lambda>_. True) (\<lambda>s. siteRuntimeReservation s user) sites"

definition replace_site :: "BusinessSite \<Rightarrow> BusinessSite list \<Rightarrow> BusinessSite list" where
  "replace_site v sites = map (\<lambda>s. if bs_ID s = bs_ID v then v else s) sites"

definition metered :: "BusinessSite \<Rightarrow> BusinessSite \<Rightarrow> bool" where
  "metered v v' \<longleftrightarrow> bs_Usage v' = bs_Usage v \<and> bs_ID v' = bs_ID v"

lemma total_reserved_split:
  assumes "distinct (map bs_ID sites)" "v \<in> set sites"
  shows "total_reserved sites u = siteRuntimeReservation v u + reserved_elsewhere sites u (bs_ID v)"
  using assms
proof (induction sites)
  case (Cons s ss)
  show ?case
  proof (cases "s = v")
    case True
    with Cons.prems have "\<forall>t \<in> set ss. bs_ID t \<noteq> bs_ID v" by (auto simp: image_iff)
    then have "reserved_elsewhere ss u (bs_ID v) = total_reserved ss u"
      unfolding reserved_elsewhere_def total_reserved_def by (intro sum_where_cong) auto
    with True show ?thesis by (simp add: total_reserved_def reserved_elsewhere_def)
  next
    case False
    with Cons.prems have "bs_ID s \<noteq> bs_ID v" "v \<in> set ss" by force+
    with Cons show ?thesis by (simp add: total_reserved_def reserved_elsewhere_def)
  qed
qed simp

lemma reserved_elsewhere_replace [simp]:
  "reserved_elsewhere (replace_site v sites) u (bs_ID v) = reserved_elsewhere sites u (bs_ID v)"
  by (induction sites) (auto simp: reserved_elsewhere_def replace_site_def)

lemma replace_site_ids [simp]: "map bs_ID (replace_site v sites) = map bs_ID sites"
  by (induction sites) (auto simp: replace_site_def)

text \<open>Issuing the grants of a snapshot.\<close>

lemma issue_grant_metered [simp]:
  "bs_Usage (issue_grant v g) = bs_Usage v" "bs_ID (issue_grant v g) = bs_ID v"
  by (simp_all add: issue_grant_def)

lemma issue_grant_reservation:
  "siteRuntimeReservation (issue_grant v g) u \<le> max (siteRuntimeReservation v u)
     (if bg_UserID g = u \<and> bg_Quota g \<noteq> 0 then bg_Quota g - usage_total (site_usage v u) else 0)"
  by (auto simp: issue_grant_def siteRuntimeReservation_def site_readings)

lemma issue_grants_reservation:
  assumes "\<forall>g \<in> set gs. bg_UserID g = u \<and> bg_Quota g \<noteq> 0 \<longrightarrow> bg_Quota g - usage_total (site_usage v u) \<le> b"
    and "0 \<le> b"
  shows "siteRuntimeReservation (foldl issue_grant v gs) u \<le> max (siteRuntimeReservation v u) b"
  using assms(1)
proof (induction gs arbitrary: v)
  case (Cons g gs)
  have same: "site_usage (issue_grant v g) u = site_usage v u" by (simp add: site_usage_def)
  have "siteRuntimeReservation (foldl issue_grant (issue_grant v g) gs) u \<le>
      max (siteRuntimeReservation (issue_grant v g) u) b"
    using Cons.prems by (intro Cons.IH) (auto simp: same)
  moreover have "siteRuntimeReservation (issue_grant v g) u \<le> max (siteRuntimeReservation v u) b"
    using issue_grant_reservation [of v g u] Cons.prems assms(2) by (auto split: if_splits)
  ultimately show ?case by simp
qed simp

lemma issue_grants_metered [simp]:
  "bs_Usage (foldl issue_grant v gs) = bs_Usage v" "bs_ID (foldl issue_grant v gs) = bs_ID v"
  by (induction gs arbitrary: v) simp_all

lemma pick_grant_effective:
  "pick_grant sites v r gs = Inr (Some g) \<Longrightarrow>
     \<exists>g0 \<in> set gs. effectiveBusinessSnapshotGrant sites r v g0 = Inr (g, True)"
  by (induction gs) (auto simp: res_simps split: if_splits)

text \<open>Two sites with the same readings of usage and identity get the same effective grants.\<close>

lemma snapshot_account_frame:
  assumes "snapshot_account env v g r = (acc, g', v')"
  shows "bs_Usage v' = bs_Usage v" "bs_ID v' = bs_ID v" "bs_Issued v' = bs_Issued v"
    "bs_IssuedUnlimited v' = bs_IssuedUnlimited v" "bg_UserID g' = bg_UserID g" "bg_Quota g' = bg_Quota g"
    "bs_Grants v' = bs_Grants v"
  using assms by (auto simp: snapshot_account_def Let_def)

lemma site_usage_cong: "bs_Usage v = bs_Usage w \<Longrightarrow> site_usage v u = site_usage w u"
  by (simp add: site_usage_def)

definition grant_backed :: "BusinessSite list \<Rightarrow> Record list \<Rightarrow> BusinessSite \<Rightarrow> BusinessGrant \<Rightarrow> bool" where
  "grant_backed sites users v g \<longleftrightarrow>
    (\<exists>r \<in> set users. bg_UserID g = u_ID r \<and>
       (u_Quota r \<noteq> 0 \<longrightarrow> bg_Quota g - usage_total (site_usage v (u_ID r)) + reserved_elsewhere sites (u_ID r) (bs_ID v)
          \<le> u_Quota r - QuotaUsed r))"

lemma snapshot_users_backed:
  assumes "snapshot_users env sites rs v = Inr (accs, gs, v')"
  shows "(\<forall>g \<in> set gs. grant_backed sites rs v g) \<and> bs_Usage v' = bs_Usage v \<and> bs_ID v' = bs_ID v \<and>
    bs_Issued v' = bs_Issued v \<and> bs_IssuedUnlimited v' = bs_IssuedUnlimited v"
  using assms
proof (induction rs arbitrary: v accs gs v')
  case (Cons r rs)
  have weaken: "\<And>w g. grant_backed sites rs w g \<Longrightarrow> grant_backed sites (r # rs) w g"
    by (auto simp: grant_backed_def)
  consider "\<not> monthlyBudgetAvailable (se_now env) v"
    | "monthlyBudgetAvailable (se_now env) v" "snapshot_users env sites rs v = Inr (accs, gs, v')"
    | g acc g' w accs' gs' where "monthlyBudgetAvailable (se_now env) v"
        "pick_grant sites v r (bs_Grants v) = Inr (Some g)" "snapshot_account env v g r = (acc, g', w)"
        "snapshot_users env sites rs w = Inr (accs', gs', v')" "gs = g' # gs'"
  proof (cases "monthlyBudgetAvailable (se_now env) v \<and> bs_Enabled v \<and> se_owner_enabled env \<and> Active (se_now env) r")
    case True
    with Cons.prems obtain p where p: "pick_grant sites v r (bs_Grants v) = Inr p"
      by (auto simp: res_simps)
    show ?thesis
    proof (cases p)
      case None
      with True p Cons.prems that(2) show ?thesis by simp
    next
      case (Some g)
      obtain acc g' w where acc: "snapshot_account env v g r = (acc, g', w)" by (metis prod_cases3)
      with True p Some Cons.prems obtain accs' gs' where
        "snapshot_users env sites rs w = Inr (accs', gs', v')" "gs = g' # gs'"
        by (auto simp: res_simps)
      with True p Some acc that(3) show ?thesis by simp
    qed
  next
    case False
    with Cons.prems that(1,2) show ?thesis by (auto split: if_splits)
  qed
  then show ?case
  proof cases
    case 1
    with Cons.prems show ?thesis by simp
  next
    case 2
    from Cons.IH [OF 2(2)] weaken show ?thesis by blast
  next
    case 3
    note fr = snapshot_account_frame [OF 3(3)]
    from pick_grant_effective [OF 3(2)] obtain g0 where
      g0: "effectiveBusinessSnapshotGrant sites r v g0 = Inr (g, True)" by blast
    have "bg_UserID g = u_ID r"
      using g0 by (auto simp: effectiveBusinessSnapshotGrant_def Let_def res_simps split: if_splits)
    with effective_grant_within [OF g0] fr have "grant_backed sites (r # rs) v g'"
      by (auto simp: grant_backed_def)
    moreover have "grant_backed sites rs w h \<longleftrightarrow> grant_backed sites rs v h" for h
      using fr site_usage_cong [OF fr(1)] by (simp add: grant_backed_def)
    ultimately show ?thesis using Cons.IH [OF 3(4)] weaken fr 3(5) by auto
  qed
qed simp

lemma refresh_frame [simp]:
  "bs_Usage (refreshMonthlyBudget now v) = bs_Usage v" "bs_ID (refreshMonthlyBudget now v) = bs_ID v"
  "bs_Issued (refreshMonthlyBudget now v) = bs_Issued v"
  "bs_IssuedUnlimited (refreshMonthlyBudget now v) = bs_IssuedUnlimited v"
  "bs_Grants (refreshMonthlyBudget now v) = bs_Grants v"
  "bs_SentGrants (refreshMonthlyBudget now v) = bs_SentGrants v"
  by (simp_all add: refreshMonthlyBudget_def Let_def markBudgetExhausted_def)

lemma resolveAccess_origin:
  assumes "r' \<in> set (resolveAccess groups users)"
  shows "\<exists>r \<in> set users. u_ID r' = u_ID r \<and> u_Quota r' = u_Quota r \<and> QuotaUsed r' = QuotaUsed r"
proof -
  from assms obtain r where r: "r \<in> set users"
    "r' = r\<lparr>r_AccessResolved := True, r_AllowedGroups := filter (group_enabled groups) (userNodeGroupIDs r)\<rparr>"
    by (auto simp: resolveAccess_def)
  have "QuotaUsed r' = QuotaUsed r" by (rule QuotaUsed_cong) (simp_all add: r(2))
  with r show ?thesis by (intro bexI [of _ r]) simp_all
qed

lemma businessSnapshot_within:
  assumes snap: "businessSnapshot env groups sites users v = Inr (out, v')"
    and ids: "distinct (map u_ID users)" and r: "r \<in> set users" "u_Quota r \<noteq> 0"
  shows "siteRuntimeReservation v' (u_ID r) \<le>
    max (siteRuntimeReservation v (u_ID r))
      (max 0 (u_Quota r - QuotaUsed r - reserved_elsewhere sites (u_ID r) (bs_ID v)))"
    and "bs_Usage v' = bs_Usage v" "bs_ID v' = bs_ID v"
proof -
  let ?v = "refreshMonthlyBudget (se_now env) v" and ?rs = "resolveAccess groups users"
  obtain accs gs v1 where loop: "snapshot_users env sites ?rs ?v = Inr (accs, gs, v1)"
    using snap by (auto simp: businessSnapshot_def Let_def res_simps)
  then obtain v2 where v2: "v' = foldl issue_grant v2 gs" "bs_Usage v2 = bs_Usage v1" "bs_ID v2 = bs_ID v1"
      "bs_Issued v2 = bs_Issued v1" "bs_IssuedUnlimited v2 = bs_IssuedUnlimited v1"
    using snap by (auto simp: businessSnapshot_def Let_def)
  note b = snapshot_users_backed [OF loop]
  show "bs_Usage v' = bs_Usage v" "bs_ID v' = bs_ID v" using v2 b by simp_all
  have use: "site_usage v2 u = site_usage v u" for u using v2 b by (simp add: site_usage_def)
  have res: "siteRuntimeReservation v2 u = siteRuntimeReservation v u" for u
    using v2 b use by (simp add: siteRuntimeReservation_def site_issued_def site_unlimited_def)
  have "\<forall>g \<in> set gs. bg_UserID g = u_ID r \<and> bg_Quota g \<noteq> 0 \<longrightarrow>
      bg_Quota g - usage_total (site_usage v2 (u_ID r)) \<le>
        max 0 (u_Quota r - QuotaUsed r - reserved_elsewhere sites (u_ID r) (bs_ID v))"
  proof (intro ballI impI)
    fix g assume g: "g \<in> set gs" "bg_UserID g = u_ID r \<and> bg_Quota g \<noteq> 0"
    with b have "grant_backed sites ?rs ?v g" by blast
    then obtain r1 where r1: "r1 \<in> set ?rs" "bg_UserID g = u_ID r1"
      "u_Quota r1 \<noteq> 0 \<longrightarrow> bg_Quota g - usage_total (site_usage ?v (u_ID r1)) + reserved_elsewhere sites (u_ID r1) (bs_ID ?v)
          \<le> u_Quota r1 - QuotaUsed r1" unfolding grant_backed_def by blast
    from resolveAccess_origin [OF r1(1)] obtain r2 where r2: "r2 \<in> set users" "u_ID r1 = u_ID r2"
      "u_Quota r1 = u_Quota r2" "QuotaUsed r1 = QuotaUsed r2" by blast
    with g r1(2) r(1) ids have "r2 = r" by (metis distinct_map inj_onD)
    with r1(3) r2 r(2) use show "bg_Quota g - usage_total (site_usage v2 (u_ID r)) \<le>
        max 0 (u_Quota r - QuotaUsed r - reserved_elsewhere sites (u_ID r) (bs_ID v))"
      by (simp add: site_usage_def)
  qed
  from issue_grants_reservation [OF this] show "siteRuntimeReservation v' (u_ID r) \<le>
    max (siteRuntimeReservation v (u_ID r))
      (max 0 (u_Quota r - QuotaUsed r - reserved_elsewhere sites (u_ID r) (bs_ID v)))"
    using v2(1) res by simp
qed

lemma replace_site_member: "v \<in> set sites \<Longrightarrow> bs_ID v' = bs_ID v \<Longrightarrow> v' \<in> set (replace_site v' sites)"
  by (force simp: replace_site_def image_iff)

lemma reserved_max:
  fixes a b e q :: int
  shows "0 \<le> a \<Longrightarrow> b \<le> max a (max 0 (q - e)) \<Longrightarrow> b + e \<le> max (a + e) q"
  by (auto simp: max_def split: if_splits)

lemma snapshot_total_reserved:
  assumes "businessSnapshot env groups sites users v = Inr (out, v')"
    and "distinct (map u_ID users)" "r \<in> set users" "u_Quota r \<noteq> 0"
    and "distinct (map bs_ID sites)" "v \<in> set sites"
  shows "total_reserved (replace_site v' sites) (u_ID r) \<le>
    max (total_reserved sites (u_ID r)) (u_Quota r - QuotaUsed r)"
proof -
  note w = businessSnapshot_within [OF assms(1-4)]
  have "total_reserved (replace_site v' sites) (u_ID r) =
      siteRuntimeReservation v' (u_ID r) + reserved_elsewhere (replace_site v' sites) (u_ID r) (bs_ID v')"
    using assms(5,6) w(3) replace_site_member by (intro total_reserved_split) (simp_all add: replace_site_ids [unfolded map_map])
  also have "reserved_elsewhere (replace_site v' sites) (u_ID r) (bs_ID v') = reserved_elsewhere sites (u_ID r) (bs_ID v)"
    using reserved_elsewhere_replace [of v'] w(3) by simp
  finally show ?thesis
    using total_reserved_split [OF assms(5,6), of "u_ID r"] w(1)
      reserved_max [OF siteRuntimeReservation_nonneg [of v "u_ID r"]] by simp
qed

section \<open>The allowance of the local core\<close>

text \<open>
  The controller's part of \<open>coreRecords\<close>: the quota of a member minus what the sites hold, with the
  64-bit sum of the source. \<open>None\<close> is the record with \<open>Enabled\<close> cleared.
\<close>

fun reserve_all :: "BusinessSite list \<Rightarrow> int \<Rightarrow> int \<Rightarrow> int option" where
  "reserve_all [] user acc = Some acc"
| "reserve_all (s # ss) user acc =
    (if site_unlimited s user then None
     else reserve_all ss user (wrap64 (acc + siteRuntimeReservation s user)))"

definition core_record :: "BusinessSite list \<Rightarrow> Record \<Rightarrow> Record" where
  "core_record sites r =
    (if u_Quota r = 0 then r
     else case reserve_all sites (u_ID r) 0 of
       None \<Rightarrow> r\<lparr>u_Enabled := False\<rparr>
     | Some reserved \<Rightarrow>
         if reserved \<ge> u_Quota r then r\<lparr>u_Enabled := False\<rparr>
         else r\<lparr>u_Quota := u_Quota r - reserved\<rparr>)"

lemma reserve_all_exact:
  assumes "reserve_all sites u acc = Some t" "0 \<le> acc" "acc + total_reserved sites u < 2 ^ 63"
  shows "t = acc + total_reserved sites u"
  using assms
proof (induction sites arbitrary: acc)
  case (Cons s ss)
  have nn: "0 \<le> total_reserved ss u" by (simp add: total_reserved_def sum_where_nonneg)
  have tot: "total_reserved (s # ss) u = siteRuntimeReservation s u + total_reserved ss u"
    by (simp add: total_reserved_def)
  have "acc + siteRuntimeReservation s u < 2 ^ 63" "0 \<le> acc + siteRuntimeReservation s u"
    using nn siteRuntimeReservation_nonneg [of s u] Cons.prems(2,3) tot by linarith+
  then have w: "wrap64 (acc + siteRuntimeReservation s u) = acc + siteRuntimeReservation s u"
    by (intro wrap64_id) (simp add: in64_num)
  from Cons.prems(1) w have "reserve_all ss u (acc + siteRuntimeReservation s u) = Some t"
    by (simp split: if_splits)
  from Cons.IH [OF this] show ?case
    using Cons.prems(2,3) siteRuntimeReservation_nonneg [of s u] tot by linarith
qed (simp add: total_reserved_def)

text \<open>What the local core may still carry plus what the sites hold never exceeds the plan.\<close>

lemma core_record_within:
  assumes "u_Quota r \<noteq> 0" "total_reserved sites (u_ID r) < 2 ^ 63"
  shows "u_Enabled (core_record sites r) \<Longrightarrow>
    u_Quota (core_record sites r) + total_reserved sites (u_ID r) = u_Quota r \<and> 0 < u_Quota (core_record sites r)"
  using assms reserve_all_exact [of sites "u_ID r" 0]
  by (auto simp: core_record_def split: option.splits if_splits)

end
