(* ===== verification/Shop.thy ===== *)
theory Shop
  imports Ledger Sites
begin

text \<open>
  The data model of the shop (\<open>backend/internal/controlplane/commerce_types.go\<close>,
  \<open>commerce_orders.go\<close>, \<open>payment_core.go\<close>, \<open>payment_receipts.go\<close>, \<open>payment_refunds.go\<close> and the
  schema under \<open>persistence/migrations\<close>): offers, orders, refund requests, payment attempts and
  receipts, the tables that hold them, and the statements several handlers share.
\<close>

section \<open>Rows\<close>

text \<open>
  \<open>UPDATE rows SET f WHERE p\<close> is \<open>set_where p f rows\<close>, its count of affected rows \<open>affected p rows\<close>,
  and \<open>SELECT \<dots> WHERE key = k\<close> over a primary key is \<open>row_with key k rows\<close>.
\<close>

definition set_where :: "('r \<Rightarrow> bool) \<Rightarrow> ('r \<Rightarrow> 'r) \<Rightarrow> 'r list \<Rightarrow> 'r list" where
  "set_where p f rows = map (\<lambda>r. if p r then f r else r) rows"

definition affected :: "('r \<Rightarrow> bool) \<Rightarrow> 'r list \<Rightarrow> nat" where
  "affected p rows = length (filter p rows)"

definition row_with :: "('r \<Rightarrow> 'k) \<Rightarrow> 'k \<Rightarrow> 'r list \<Rightarrow> 'r option" where
  "row_with key k rows = find (\<lambda>r. key r = k) rows"

lemma set_where_Nil [simp]: "set_where p f [] = []"
  and set_where_Cons [simp]: "set_where p f (r # rs) = (if p r then f r else r) # set_where p f rs"
  by (simp_all add: set_where_def)

lemma set_set_where: "set (set_where p f rows) = (\<lambda>r. if p r then f r else r) ` set rows"
  by (simp add: set_where_def)

lemma map_set_where_key:
  "(\<And>r. p r \<Longrightarrow> key (f r) = key r) \<Longrightarrow> map key (set_where p f rows) = map key rows"
  by (induction rows) auto

lemma row_with_Some: "row_with key k rows = Some r \<Longrightarrow> r \<in> set rows \<and> key r = k"
  by (auto simp: row_with_def find_Some_iff)

lemma row_with_None: "row_with key k rows = None \<longleftrightarrow> k \<notin> key ` set rows"
  by (auto simp: row_with_def find_None_iff)

lemma row_with_unique:
  "distinct (map key rows) \<Longrightarrow> r \<in> set rows \<Longrightarrow> row_with key (key r) rows = Some r"
  by (induction rows) (auto simp: row_with_def)

text \<open>Updating the one row of a primary key changes a sum by the difference of that row.\<close>

lemma sum_where_set_where:
  assumes "distinct (map key rows)" "r \<in> set rows" "key r = k"
    and "\<And>s. s \<in> set rows \<Longrightarrow> p s \<Longrightarrow> key s = k" "p r"
  shows "sum_where q g (set_where p f rows) =
    sum_where q g rows - (if q r then g r else 0) + (if q (f r) then g (f r) else 0)"
  using assms
proof (induction rows)
  case (Cons s rows)
  show ?case
  proof (cases "s = r")
    case True
    then have "\<forall>t \<in> set rows. \<not> p t" using Cons.prems(1,3,4) by (auto simp: image_iff)
    then have "set_where p f rows = rows" by (simp add: set_where_def cong: map_cong)
    then show ?thesis using True Cons.prems(5) by simp
  next
    case False
    then have "r \<in> set rows" using Cons.prems(2) by simp
    moreover have "\<not> p s"
      using Cons.prems(1,3,4) \<open>r \<in> set rows\<close> by (auto simp: image_iff)
    ultimately show ?thesis using Cons by simp
  qed
qed simp

lemma sum_where_untouched:
  "(\<And>s. s \<in> set rows \<Longrightarrow> p s \<Longrightarrow> q (f s) = q s \<and> (q s \<longrightarrow> g (f s) = g s)) \<Longrightarrow>
    sum_where q g (set_where p f rows) = sum_where q g rows"
  by (induction rows) auto

section \<open>Offers, orders and refund requests\<close>

record Offer =
  of_ID :: string
  of_Version :: int
  of_Enabled :: bool
  of_Price :: int
  of_PurchaseLimit :: int
  of_Plan :: Plan

datatype order_state =
    Pending | Provisioning | Completed | Cancelled | Expired | Failed
  | Refunding | Refunded | RefundPending | RefundRequested

datatype order_kind = Purchase | Renew

datatype request_state = Requested | RequestCancelled | Rejected | Approved

record RefundRequest =
  rq_ID :: string
  rq_OrderID :: string
  rq_UserID :: int
  rq_State :: request_state
  rq_Revision :: int
  rq_Reason :: string
  rq_ActorID :: int
  rq_Created :: int
  rq_Updated :: int
  rq_DecidedBy :: int
  rq_DecidedAt :: int

record Order =
  o_ID :: string
  o_UserID :: int
  o_State :: order_state
  o_Created :: int
  o_Updated :: int
  o_Expires :: int
  o_Offer :: Offer
  o_Action :: order_kind
  o_BeforeExpiry :: int
  o_BeforeRevision :: string
  o_AppliedRevision :: string
  o_Expected :: string
  o_PreviousEnd :: int
  o_Started :: int
  o_NextAttempt :: int
  o_Attempts :: int
  o_Message :: string
  o_RefundStatus :: "request_state option"
  o_RefundRequestID :: string
  o_RefundRequest :: "RefundRequest option"
  o_RefundAmount :: int
  o_RefundAmountSet :: bool
  o_PaymentAttemptID :: string
  o_PaymentProviderID :: string

text \<open>A row of \<open>commerce_orders\<close>: the indexed columns and the document.\<close>

record OrderRow =
  or_id :: string
  or_user :: int
  or_state :: order_state
  or_created :: int
  or_updated :: int
  or_expires :: int
  or_doc :: Order

definition active_states :: "order_state list" where
  "active_states = [Pending, Provisioning, Refunding]"

section \<open>Payments\<close>

record PaymentAttempt =
  pa_ID :: string
  pa_OrderID :: string
  pa_UserID :: int
  pa_ProviderID :: string
  pa_State :: string
  pa_Amount :: int
  pa_Currency :: string
  pa_MerchantRef :: string
  pa_ExternalRef :: string
  pa_Created :: int
  pa_Updated :: int
  pa_Expires :: int
  pa_Purpose :: string
  pa_Message :: string
  pa_AccountScope :: string

record PaymentReceipt =
  pr_ID :: string
  pr_AccountScope :: string
  pr_ProviderID :: string
  pr_ExternalRef :: string
  pr_AttemptID :: string
  pr_OrderID :: string
  pr_UserID :: int
  pr_Amount :: int
  pr_Currency :: string
  pr_State :: string
  pr_Reason :: string
  pr_Created :: int
  pr_Updated :: int

record PaymentRefund =
  pf_ID :: string
  pf_ReceiptID :: string
  pf_AccountScope :: string
  pf_ProviderID :: string
  pf_State :: string
  pf_Amount :: int
  pf_Currency :: string
  pf_ExternalRef :: string
  pf_ActorID :: int
  pf_Reason :: string
  pf_Attempts :: int
  pf_NextAttempt :: int
  pf_Message :: string
  pf_Created :: int
  pf_Updated :: int

record PaymentEvent =
  pe_ProviderID :: string
  pe_ExternalID :: string
  pe_PayloadHash :: string
  pe_State :: string
  pe_OrderID :: string
  pe_AttemptID :: string
  pe_Processed :: int
  pe_Message :: string

section \<open>Requests, replies and notices\<close>

record create_request =
  cq_OfferID :: string
  cq_OfferVersion :: int
  cq_OperationID :: string

record action_request =
  aq_ID :: string
  aq_Action :: string
  aq_OperationID :: string
  aq_PaymentAttemptID :: string
  aq_Reason :: string
  aq_RefundRequestID :: string
  aq_RefundRevision :: int

record refund_request =
  fq_ReceiptID :: string
  fq_Action :: string
  fq_ExternalRef :: string
  fq_Reason :: string
  fq_OperationID :: string

datatype commerce_request =
    CreateRequest create_request | ActionRequest action_request | PaymentRefundRequest refund_request

datatype commerce_reply = OrderReply Order | PaymentRefundReply PaymentRefund

text \<open>A row of \<open>commerce_requests\<close>; the stored response is sealed and opened by the vault.\<close>

record ReplayRow =
  ry_id :: string
  ry_user :: int
  ry_fingerprint :: string
  ry_response :: commerce_reply

record EventRow =
  ev_id :: string
  ev_user :: int
  ev_body :: string
  ev_created :: int
  ev_notified :: bool

record MessageRow =
  msg_title :: string
  msg_body :: string
  msg_created :: int
  msg_recipients :: "int list"

section \<open>The store\<close>

record Shop =
  sh_ledger :: ledger
  sh_users :: "Record list"
  sh_plans :: "Plan list"
  sh_offers :: "Offer list"
  sh_orders :: "OrderRow list"
  sh_requests :: "RefundRequest list"
  sh_attempts :: "PaymentAttempt list"
  sh_receipts :: "PaymentReceipt list"
  sh_refunds :: "PaymentRefund list"
  sh_payment_events :: "PaymentEvent list"
  sh_replays :: "ReplayRow list"
  sh_events :: "EventRow list"
  sh_messages :: "MessageRow list"
  sh_periods :: "((int \<times> string) \<times> User) list"
  sh_sites :: "BusinessSite list"

text \<open>
  What a handler asks of its surroundings: the clock, the random tokens by purpose, the digests,
  the time zone database, the settings, the site policy check (\<open>validateEntitlementSites\<close>) and the
  chain lock of a crypto payment.
\<close>

record commerce_env =
  ce_now :: int
  ce_token :: "string \<Rightarrow> string"
  ce_tz :: "string \<Rightarrow> location option"
  ce_version :: "Record \<Rightarrow> string"
  ce_fingerprint :: "commerce_request \<Rightarrow> string"
  ce_payment_module :: bool
  ce_sites_ok :: "Record \<Rightarrow> commerce_error + unit"
  ce_crypto_lock :: "Order \<Rightarrow> commerce_error + unit"

section \<open>Statements the handlers share\<close>

definition user_record :: "Shop \<Rightarrow> int \<Rightarrow> Record option" where
  "user_record S user = row_with u_ID user (sh_users S)"

definition find_offer :: "Shop \<Rightarrow> string \<Rightarrow> Offer option" where
  "find_offer S oid = row_with of_ID oid (sh_offers S)"

definition find_plan :: "Shop \<Rightarrow> string \<Rightarrow> Plan option" where
  "find_plan S pid = row_with pl_ID pid (sh_plans S)"

text \<open>\<open>order\<close>: the document, with the state migration 017 left in old documents normalized.\<close>

definition normalize_state :: "Order \<Rightarrow> Order" where
  "normalize_state ord = (if o_State ord = RefundRequested then ord\<lparr>o_State := Completed\<rparr> else ord)"

definition find_order :: "Shop \<Rightarrow> string \<Rightarrow> Order option" where
  "find_order S oid = map_option (\<lambda>r. normalize_state (or_doc r)) (row_with or_id oid (sh_orders S))"

text \<open>\<open>refundRequest\<close>: the latest request of the order, \<open>ORDER BY created DESC, id DESC\<close>.\<close>

fun later_request :: "RefundRequest \<Rightarrow> RefundRequest option \<Rightarrow> (string \<Rightarrow> string \<Rightarrow> bool) \<Rightarrow> RefundRequest option" where
  "later_request r None lt = Some r"
| "later_request r (Some q) lt =
    (if rq_Created q < rq_Created r \<or> rq_Created q = rq_Created r \<and> lt (rq_ID q) (rq_ID r)
     then Some r else Some q)"

fun string_less :: "string \<Rightarrow> string \<Rightarrow> bool" where
  "string_less _ [] = False"
| "string_less [] (y # ys) = True"
| "string_less (x # xs) (y # ys) =
    ((of_char x :: nat) < of_char y \<or> x = y \<and> string_less xs ys)"

definition refundRequest :: "Shop \<Rightarrow> string \<Rightarrow> RefundRequest option" where
  "refundRequest S oid =
    fold (\<lambda>r best. if rq_OrderID r = oid then later_request r best string_less else best) (sh_requests S) None"

definition enrichOrder :: "Shop \<Rightarrow> Order \<Rightarrow> Order" where
  "enrichOrder S ord =
    (let r = refundRequest S (o_ID ord);
         o1 = ord\<lparr>o_RefundRequest := r\<rparr>;
         o2 = (case r of None \<Rightarrow> o1
               | Some q \<Rightarrow> o1\<lparr>o_RefundStatus := Some (rq_State q), o_RefundRequestID := rq_ID q\<rparr>)
     in normalize_state o2)"

text \<open>\<open>saveOrder\<close>, with the unique index over the active orders of a user.\<close>

definition saveOrder :: "int \<Rightarrow> Order \<Rightarrow> order_state \<Rightarrow> Shop \<Rightarrow> commerce_error + Shop" where
  "saveOrder now ord previous S =
    (let doc = ord\<lparr>o_Updated := now\<rparr>; hit = (\<lambda>r. or_id r = o_ID ord \<and> or_state r = previous) in
     if affected hit (sh_orders S) \<noteq> 1 then Inl Conflict
     else if o_State doc \<in> set active_states \<and>
       list_ex (\<lambda>r. or_user r = o_UserID ord \<and> or_id r \<noteq> o_ID ord \<and> or_state r \<in> set active_states) (sh_orders S)
     then Inl (Unique ''commerce_order_active'')
     else Inr (S\<lparr>sh_orders := set_where hit
            (\<lambda>r. r\<lparr>or_state := o_State doc, or_updated := now, or_doc := doc\<rparr>) (sh_orders S)\<rparr>))"

text \<open>\<open>txUser\<close> writes the \<open>User\<close> document; the credentials of the row stay.\<close>

definition with_user :: "User \<Rightarrow> Record \<Rightarrow> Record" where
  "with_user u r = User.extend u (User.more r)"

definition txUser :: "Record \<Rightarrow> Shop \<Rightarrow> commerce_error + Shop" where
  "txUser u S =
    (if affected (\<lambda>r. u_ID r = u_ID u) (sh_users S) \<noteq> 1 then Inl Conflict
     else Inr (S\<lparr>sh_users := set_where (\<lambda>r. u_ID r = u_ID u) (with_user (User.truncate u)) (sh_users S)\<rparr>))"

definition post_money ::
  "commerce_env \<Rightarrow> int \<Rightarrow> int \<Rightarrow> string \<Rightarrow> string \<Rightarrow> string \<Rightarrow> string \<Rightarrow> int \<Rightarrow> int \<Rightarrow> Shop \<Rightarrow> commerce_error + Shop"
where
  "post_money env user actor event kind reference reason da dh S =
    bind_res (postMoney (ce_now env) (ce_token env ''GYB'') user actor event kind reference reason da dh (sh_ledger S))
      (\<lambda>(w, L). Inr (S\<lparr>sh_ledger := L\<rparr>))"

text \<open>\<open>commerceEvent\<close>: \<open>ON CONFLICT(id) DO NOTHING\<close>.\<close>

definition commerceEvent :: "int \<Rightarrow> int \<Rightarrow> string \<Rightarrow> string \<Rightarrow> Shop \<Rightarrow> Shop" where
  "commerceEvent now user eid body S =
    (if eid \<in> ev_id ` set (sh_events S) then S
     else S\<lparr>sh_events := sh_events S @ [\<lparr>ev_id = eid, ev_user = user, ev_body = body, ev_created = now,
              ev_notified = False\<rparr>]\<rparr>)"

definition notifyCommerceOwnersTitle :: "string \<Rightarrow> string \<Rightarrow> int \<Rightarrow> Shop \<Rightarrow> Shop" where
  "notifyCommerceOwnersTitle title body now S =
    S\<lparr>sh_messages := sh_messages S @ [\<lparr>msg_title = title, msg_body = body, msg_created = now,
        msg_recipients = map u_ID (filter (\<lambda>u. u_Role u = ''owner'' \<and> u_Enabled u) (sh_users S))\<rparr>]\<rparr>"

definition notifyCommerceOwners :: "string \<Rightarrow> int \<Rightarrow> Shop \<Rightarrow> Shop" where
  "notifyCommerceOwners body now S = notifyCommerceOwnersTitle ''refund request awaiting review'' body now S"

definition paymentMarkReceiptRefund :: "int \<Rightarrow> string \<Rightarrow> string \<Rightarrow> Shop \<Rightarrow> Shop" where
  "paymentMarkReceiptRefund now attempt reason S =
    S\<lparr>sh_receipts := set_where (\<lambda>r. pr_AttemptID r = attempt \<and> pr_State r \<in> {''verified'', ''applied''})
        (\<lambda>r. r\<lparr>pr_State := ''refund_required'', pr_Reason := reason, pr_Updated := now\<rparr>) (sh_receipts S)\<rparr>"

text \<open>\<open>UPDATE payment_attempts SET \<dots> WHERE id = attempt AND state IN states\<close>.\<close>

definition set_attempt ::
  "string \<Rightarrow> string list \<Rightarrow> (PaymentAttempt \<Rightarrow> PaymentAttempt) \<Rightarrow> Shop \<Rightarrow> Shop"
where
  "set_attempt attempt states f S =
    S\<lparr>sh_attempts := set_where (\<lambda>a. pa_ID a = attempt \<and> pa_State a \<in> set states) f (sh_attempts S)\<rparr>"

definition commercePendingExcept :: "int \<Rightarrow> string \<Rightarrow> Shop \<Rightarrow> bool" where
  "commercePendingExcept user exclude S \<longleftrightarrow>
    list_ex (\<lambda>r. or_user r = user \<and> or_state r \<in> set active_states \<and> (exclude = [] \<or> or_id r \<noteq> exclude))
      (sh_orders S)"

definition commercePending :: "int \<Rightarrow> Shop \<Rightarrow> bool" where
  "commercePending user S = commercePendingExcept user [] S"

definition commerceBarrier :: "int \<Rightarrow> Shop \<Rightarrow> bool" where
  "commerceBarrier user S \<longleftrightarrow>
    list_ex (\<lambda>r. or_user r = user \<and> or_state r \<in> {Provisioning, Refunding}) (sh_orders S)"

section \<open>Idempotent requests\<close>

section \<open>Strings\<close>

text \<open>
  Strings are UTF-8 byte strings. \<open>strings.TrimSpace\<close> strips the encodings of the Unicode white
  space; \<open>len([]rune(s))\<close> counts the bytes that do not continue a sequence.
\<close>

definition space_encodings :: "string list" where
  "space_encodings =
    map (\<lambda>n. [char_of n]) [9, 10, 11, 12, 13, 32 :: nat] @
    map (map char_of) ([[0xC2, 0x85], [0xC2, 0xA0], [0xE1, 0x9A, 0x80], [0xE2, 0x80, 0xA8],
      [0xE2, 0x80, 0xA9], [0xE2, 0x80, 0xAF], [0xE2, 0x81, 0x9F], [0xE3, 0x80, 0x80]] @
      map (\<lambda>n. [0xE2, 0x80, n]) [0x80 ..< 0x8B :: nat])"

fun drop_spaces :: "nat \<Rightarrow> string list \<Rightarrow> string \<Rightarrow> string" where
  "drop_spaces 0 spaces s = s"
| "drop_spaces (Suc n) spaces s =
    (case find (has_prefix s) spaces of None \<Rightarrow> s | Some p \<Rightarrow> drop_spaces n spaces (drop (length p) s))"

definition trim_space :: "string \<Rightarrow> string" where
  "trim_space s = (let l = drop_spaces (length s) space_encodings s
     in rev (drop_spaces (length l) (map rev space_encodings) (rev l)))"

definition rune_count :: "string \<Rightarrow> nat" where
  "rune_count s = length (filter (\<lambda>c. let n = of_char c :: nat in n < 0x80 \<or> 0xBF < n) s)"

text \<open>The operation pattern: 16 to 80 letters, digits, underscores and hyphens.\<close>

definition operation_char :: "char \<Rightarrow> bool" where
  "operation_char c \<longleftrightarrow> (let n = of_char c :: nat in
     65 \<le> n \<and> n \<le> 90 \<or> 97 \<le> n \<and> n \<le> 122 \<or> 48 \<le> n \<and> n \<le> 57 \<or> c = CHR ''_'' \<or> c = CHR ''-'')"

definition valid_operation :: "string \<Rightarrow> bool" where
  "valid_operation s \<longleftrightarrow> 16 \<le> length s \<and> length s \<le> 80 \<and> list_all operation_char s"

definition commerceReplay ::
  "commerce_env \<Rightarrow> int \<Rightarrow> string \<Rightarrow> commerce_request \<Rightarrow> Shop \<Rightarrow> commerce_error + commerce_reply option"
where
  "commerceReplay env actor op request S =
    (if \<not> valid_operation op then Inl (Fail 400 ''missing operation id'')
     else case row_with ry_id op (sh_replays S) of
       None \<Rightarrow> Inr None
     | Some y \<Rightarrow>
         if ry_user y \<noteq> actor \<or> ry_fingerprint y \<noteq> ce_fingerprint env request
         then Inl (Fail 409 ''operation id already used'')
         else Inr (Some (ry_response y)))"

definition saveCommerceRequest ::
  "commerce_env \<Rightarrow> int \<Rightarrow> string \<Rightarrow> commerce_request \<Rightarrow> commerce_reply \<Rightarrow> Shop \<Rightarrow> commerce_error + Shop"
where
  "saveCommerceRequest env actor op request reply S =
    (if op \<in> ry_id ` set (sh_replays S) then Inl (Unique ''commerce_requests'')
     else Inr (S\<lparr>sh_replays := sh_replays S @ [\<lparr>ry_id = op, ry_user = actor,
            ry_fingerprint = ce_fingerprint env request, ry_response = reply\<rparr>]\<rparr>))"

end
