(* ===== verification/Payment_Codec.thy ===== *)
theory Payment_Codec
  imports Shop "HOL-Library.Char_ord" "HOL-Library.List_Lexorder"
begin

text \<open>
  What a payment callback says (\<open>backend/internal/controlplane/payment_core.go\<close>): decimal amounts in
  cents, the text the epay signature covers, and the verification of an epay notification. The MD5
  digest is the argument \<open>md5\<close>.
\<close>

section \<open>Splitting a string\<close>

text \<open>\<open>strings.Split(s, c)\<close> for a one-byte separator.\<close>

fun split_on :: "char \<Rightarrow> string \<Rightarrow> string list" where
  "split_on c [] = [[]]"
| "split_on c (x # xs) =
    (if x = c then [] # split_on c xs
     else case split_on c xs of [] \<Rightarrow> [[x]] | p # ps \<Rightarrow> (x # p) # ps)"

lemma split_on_free: "c \<notin> set s \<Longrightarrow> split_on c s = [s]"
  by (induction s) auto

lemma split_on_append: "c \<notin> set a \<Longrightarrow> split_on c (a @ c # b) = a # split_on c b"
  by (induction a) auto

section \<open>Amounts\<close>

definition is_digit :: "char \<Rightarrow> bool" where
  "is_digit c \<longleftrightarrow> 48 \<le> (of_char c :: nat) \<and> (of_char c :: nat) \<le> 57"

text \<open>\<open>strconv.ParseInt(s, 10, 64)\<close> of a digit string: an error beyond 64 bits and on the empty string.\<close>

definition parse_digits :: "string \<Rightarrow> string + int" where
  "parse_digits s =
    (if s = [] \<or> int (digits_value s) \<ge> 2 ^ 63 then Inl ''invalid number'' else Inr (int (digits_value s)))"

definition paymentCents :: "string \<Rightarrow> string + int" where
  "paymentCents value0 =
    (let value = trim_space value0; parts = split_on (CHR ''.'') value in
     if value = [] then Inl ''missing payment amount''
     else if length parts > 2 \<or> hd parts = [] then Inl ''invalid payment amount''
     else
       let frac = (if length parts = 2 then parts ! 1 else []) in
       if length frac > 2 then Inl ''payment amount has too many decimals''
       else if \<not> list_all is_digit (hd parts @ frac) then Inl ''invalid payment amount''
       else case parse_digits (hd parts) of Inl e \<Rightarrow> Inl ''payment amount exceeds limit''
       | Inr whole \<Rightarrow>
           if whole > moneyLimit div 100 then Inl ''payment amount exceeds limit''
           else bind_res (parse_digits (frac @ replicate (2 - length frac) (CHR ''0''))) (\<lambda>n.
             let amount = whole * 100 + n in
             if amount \<le> 0 \<or> amount > moneyLimit then Inl ''payment amount exceeds limit'' else Inr amount))"

text \<open>The amount \<open>createPaymentCheckout\<close> writes: \<open>fmt.Sprintf("%d.%02d", a / 100, a % 100)\<close>.\<close>

definition checkout_money :: "int \<Rightarrow> string" where
  "checkout_money amount = itoa (amount div 100) @ ''.'' @ pad_left 2 (itoa (amount mod 100))"

text \<open>\<open>moneyValue\<close>: a positive whole number of cents, at most twelve digits.\<close>

definition moneyValue :: "string \<Rightarrow> commerce_error + int" where
  "moneyValue s =
    (if \<not> (s \<noteq> [] \<and> length s \<le> 12 \<and> list_all is_digit s \<and> hd s \<noteq> CHR ''0'')
     then Inl (Fail 400 ''amount must be positive cents'')
     else if int (digits_value s) > moneyLimit then Inl (Fail 400 ''amount exceeds limit'')
     else Inr (int (digits_value s)))"

lemma paymentCents_bounds: "paymentCents v = Inr n \<Longrightarrow> 0 < n \<and> n \<le> moneyLimit"
  unfolding paymentCents_def Let_def
  by (auto simp: res_simps split: if_splits sum.splits)

lemma moneyValue_bounds: "moneyValue s = Inr n \<Longrightarrow> 0 \<le> n \<and> n \<le> moneyLimit"
  by (auto simp: moneyValue_def split: if_splits)

subsection \<open>The amount of a checkout is read back\<close>

lemma nat_string_is_digit: "c \<in> set (nat_string n) \<Longrightarrow> is_digit c"
  using nat_string_digits by (simp add: is_digit_def)

lemma itoa_nonneg: "0 \<le> n \<Longrightarrow> itoa n = nat_string (nat n)"
  by (simp add: itoa_def)

lemma digit_facts: "is_digit c \<Longrightarrow> c \<noteq> CHR ''.'' \<and> c \<noteq> CHR '' '' \<and> c \<noteq> CHR ''-''"
  by (auto simp: is_digit_def)

lemma space_encodings_edges:
  "\<forall>p \<in> set space_encodings. p \<noteq> [] \<and> \<not> is_digit (hd p) \<and> \<not> is_digit (last p)"
  by (simp add: space_encodings_def is_digit_def upt_conv_Cons)

lemma no_space_prefix:
  assumes "\<forall>p \<in> set ps. p \<noteq> [] \<and> \<not> is_digit (hd p)" "s \<noteq> []" "is_digit (hd s)"
  shows "drop_spaces n ps s = s"
proof -
  have "\<not> has_prefix s p" if "p \<in> set ps" for p
  proof
    assume "has_prefix s p"
    then obtain t where "s = p @ t" by (auto simp: has_prefix_iff)
    with assms that show False by (auto simp: hd_append)
  qed
  then have "find (has_prefix s) ps = None" by (simp add: find_None_iff)
  then show ?thesis by (cases n) simp_all
qed

lemma trim_space_digits:
  assumes "s \<noteq> []" "is_digit (hd s)" "is_digit (last s)"
  shows "trim_space s = s"
proof -
  have "\<forall>p \<in> set (map rev space_encodings). p \<noteq> [] \<and> \<not> is_digit (hd p)"
    using space_encodings_edges by (auto simp: hd_rev)
  then show ?thesis
    using assms space_encodings_edges
    by (simp add: trim_space_def Let_def no_space_prefix hd_rev)
qed

lemma two_digits_checked:
  "\<forall>k \<in> set [0 ..< 100]. length (pad_left 2 (nat_string k)) = 2 \<and> digits_value (pad_left 2 (nat_string k)) = k \<and>
     list_all is_digit (pad_left 2 (nat_string k))"
  by code_simp

lemma two_digits:
  assumes "0 \<le> n" "n < 100"
  shows "length (pad_left 2 (itoa n)) = 2" "int (digits_value (pad_left 2 (itoa n))) = n"
    "list_all is_digit (pad_left 2 (itoa n))"
proof -
  from assms have "nat n \<in> set [0 ..< 100]" by auto
  with two_digits_checked assms show "length (pad_left 2 (itoa n)) = 2"
    "int (digits_value (pad_left 2 (itoa n))) = n" "list_all is_digit (pad_left 2 (itoa n))"
    by (auto simp: itoa_nonneg)
qed

lemma paymentCents_checkout:
  assumes "0 < amount" "amount \<le> moneyLimit"
  shows "paymentCents (checkout_money amount) = Inr amount"
proof -
  let ?w = "itoa (amount div 100)" and ?f = "pad_left 2 (itoa (amount mod 100))"
  have w: "?w = nat_string (nat (amount div 100))" using assms by (simp add: itoa_nonneg)
  note f = two_digits [of "amount mod 100", simplified]
  have wd: "list_all is_digit ?w" "?w \<noteq> []" using w nat_string_is_digit by (auto simp: list_all_iff)
  have nodot: "CHR ''.'' \<notin> set ?w" "CHR ''.'' \<notin> set ?f"
    using wd(1) f(3) digit_facts by (auto simp: list_all_iff)
  have fne: "?f \<noteq> []" using f(1) by (metis list.size(3) zero_neq_numeral)
  have trim: "trim_space (checkout_money amount) = checkout_money amount"
  proof (rule trim_space_digits)
    show "is_digit (hd (checkout_money amount))" using wd by (cases ?w) (auto simp: checkout_money_def)
    have "last (checkout_money amount) = last ?f" using fne by (simp add: checkout_money_def)
    moreover have "is_digit (last ?f)" using f(3) fne by (simp add: list_all_iff)
    ultimately show "is_digit (last (checkout_money amount))" by simp
  qed (simp add: checkout_money_def)
  have parts: "split_on (CHR ''.'') (checkout_money amount) = [?w, ?f]"
    using nodot by (simp add: checkout_money_def split_on_append split_on_free)
  have ne: "checkout_money amount \<noteq> []" by (simp add: checkout_money_def)
  have wv: "parse_digits ?w = Inr (amount div 100)"
  proof -
    have "amount div 100 \<le> moneyLimit div 100" using assms(2) by (rule zdiv_mono1) simp
    then show ?thesis using wd(2) w assms(1) by (simp add: parse_digits_def moneyLimit_def)
  qed
  have fv: "parse_digits ?f = Inr (amount mod 100)"
  proof -
    have "amount mod 100 < 100" by simp
    then show ?thesis using f(2) fne by (simp add: parse_digits_def)
  qed
  have lim: "amount div 100 \<le> moneyLimit div 100" using assms(2) by (rule zdiv_mono1) simp
  show ?thesis
    using assms wd(1) f(1,3) wv fv lim wd(2)
    by (simp add: paymentCents_def Let_def trim parts ne not_le not_less)
qed

section \<open>The epay notification\<close>

text \<open>\<open>url.Values\<close> as an association list; \<open>Get\<close> is the first value of a key or the empty string.\<close>

type_synonym form_values = "(string \<times> string list) list"

definition form_get :: "form_values \<Rightarrow> string \<Rightarrow> string" where
  "form_get values key = (case map_of values key of None \<Rightarrow> [] | Some vs \<Rightarrow> (case vs of [] \<Rightarrow> [] | v # _ \<Rightarrow> v))"

definition signed_keys :: "form_values \<Rightarrow> string list" where
  "signed_keys values =
    sort (filter (\<lambda>k. k \<noteq> ''sign'' \<and> k \<noteq> ''sign_type'' \<and> form_get values k \<noteq> []) (remdups (map fst values)))"

fun join_pairs :: "(string \<times> string) list \<Rightarrow> string" where
  "join_pairs [] = []"
| "join_pairs [(k, v)] = k @ ''='' @ v"
| "join_pairs ((k, v) # ps) = k @ ''='' @ v @ ''&'' @ join_pairs ps"

definition epay_text :: "form_values \<Rightarrow> string" where
  "epay_text values = join_pairs (map (\<lambda>k. (k, form_get values k)) (signed_keys values))"

definition epaySign :: "(string \<Rightarrow> string) \<Rightarrow> form_values \<Rightarrow> string \<Rightarrow> string" where
  "epaySign md5 values secret = md5 (epay_text values @ secret)"

text \<open>Letter case of ASCII letters; the compared words are ASCII.\<close>

definition lower_char :: "char \<Rightarrow> char" where
  "lower_char c = (let n = of_char c :: nat in if 65 \<le> n \<and> n \<le> 90 then char_of (n + 32) else c)"

definition upper_char :: "char \<Rightarrow> char" where
  "upper_char c = (let n = of_char c :: nat in if 97 \<le> n \<and> n \<le> 122 then char_of (n - 32) else c)"

record PaymentProvider =
  pp_ID :: string
  pp_Code :: string
  pp_Config :: "(string \<times> string) list"

definition config_of :: "PaymentProvider \<Rightarrow> string \<Rightarrow> string" where
  "config_of p key = map_get [] (pp_Config p) key"

record verifiedPaymentEvent =
  vp_EventID :: string
  vp_MerchantRef :: string
  vp_ExternalRef :: string
  vp_Amount :: int
  vp_Currency :: string
  vp_Status :: string
  vp_RefundID :: string
  vp_RefundStatus :: string
  vp_ReviewReason :: string

definition verifyEpay ::
  "(string \<Rightarrow> string) \<Rightarrow> PaymentProvider \<Rightarrow> form_values \<Rightarrow> string + verifiedPaymentEvent"
where
  "verifyEpay md5 p values =
    (if list_ex (\<lambda>(k, vs). length vs \<noteq> 1) values then Inl ''ambiguous payment parameters''
     else if config_of p ''secret'' = [] \<or> form_get values ''pid'' \<noteq> config_of p ''merchant_id'' \<or>
        map upper_char (form_get values ''sign_type'') \<noteq> ''MD5''
     then Inl ''payment merchant or signature type mismatch''
     else if form_get values ''sign'' = [] \<or>
        map lower_char (form_get values ''sign'') \<noteq> epaySign md5 values (config_of p ''secret'')
     then Inl ''payment signature verification failed''
     else
       let status = map lower_char (trim_space (form_get values ''trade_status'')) in
       if status = [] then Inl ''payment status is missing''
       else bind_res (paymentCents (form_get values ''money'')) (\<lambda>amount.
         let event = form_get values ''trade_no''; merchant = form_get values ''out_trade_no'' in
         if event = [] \<or> merchant = [] \<or> length event > 200 \<or> length merchant > 200
         then Inl ''payment event reference is missing''
         else Inr \<lparr>vp_EventID = event, vp_MerchantRef = merchant, vp_ExternalRef = event, vp_Amount = amount,
                vp_Currency = ''CNY'', vp_Status = status, vp_RefundID = [], vp_RefundStatus = [],
                vp_ReviewReason = []\<rparr>))"

text \<open>The parameters of the checkout link, and the notification the gateway answers with.\<close>

definition checkout_values :: "(string \<Rightarrow> string) \<Rightarrow> PaymentProvider \<Rightarrow> PaymentAttempt \<Rightarrow> string \<Rightarrow> string \<Rightarrow> form_values" where
  "checkout_values md5 p a notifyURL returnURL =
    (let base = [(''money'', [checkout_money (pa_Amount a)]),
                 (''name'', [if pa_Purpose a = ''topup'' then ''Guangyue topup'' else ''Guangyue plan'']),
                 (''notify_url'', [notifyURL]), (''return_url'', [returnURL]),
                 (''out_trade_no'', [pa_MerchantRef a]), (''pid'', [trim_space (config_of p ''merchant_id'')])];
         values = (let ch = trim_space (config_of p ''channel'') in if ch \<noteq> [] then base @ [(''type'', [ch])] else base)
     in values @ [(''sign'', [epaySign md5 values (config_of p ''secret'')]), (''sign_type'', [''MD5''])])"

text \<open>What a verified notification guarantees.\<close>

lemma verifyEpay_sound:
  assumes "verifyEpay md5 p values = Inr event"
  shows "config_of p ''secret'' \<noteq> []" "form_get values ''pid'' = config_of p ''merchant_id''"
    "map lower_char (form_get values ''sign'') = md5 (epay_text values @ config_of p ''secret'')"
    "0 < vp_Amount event" "vp_Amount event \<le> moneyLimit" "paymentCents (form_get values ''money'') = Inr (vp_Amount event)"
    "vp_MerchantRef event = form_get values ''out_trade_no''" "vp_ExternalRef event = form_get values ''trade_no''"
    "vp_EventID event \<noteq> []" "vp_MerchantRef event \<noteq> []" "length (vp_ExternalRef event) \<le> 200"
    "\<forall>(k, vs) \<in> set values. length vs = 1"
  using assms paymentCents_bounds [of "form_get values ''money''" "vp_Amount event"]
  unfolding verifyEpay_def Let_def
  by (auto simp: res_simps epaySign_def list_ex_iff split: if_splits)

text \<open>
  The signed text does not escape separators: two different forms can share it, so the signature
  alone does not determine the fields.
\<close>

lemma epay_text_ambiguous:
  "\<exists>f g. f \<noteq> g \<and> epay_text f = epay_text g \<and> form_get f ''money'' \<noteq> form_get g ''money''"
proof (intro exI conjI)
  let ?f = "[(''attach'', [''x&money=9'']), (''pid'', [''1''])]"
  let ?g = "[(''attach'', [''x'']), (''money'', [''9'']), (''pid'', [''1''])]"
  show "?f \<noteq> ?g" by simp
  show "epay_text ?f = epay_text ?g" by code_simp
  show "form_get ?f ''money'' \<noteq> form_get ?g ''money''" by code_simp
qed

end
