(* ===== verification/Checkout.thy ===== *)
theory Checkout
  imports Shop
begin

text \<open>
  Placing an order and acting on it: \<open>createOrder\<close> and its helpers
  (\<open>backend/internal/controlplane/commerce_orders.go\<close>) and \<open>orderAction\<close>
  (\<open>commerce_order_actions.go\<close>). Every action first computes a draft from what the handler
  read (order, account, latest refund request), then one transaction writes it.
\<close>

section \<open>Refundable amount\<close>

text \<open>
  The proportional formulas multiply before they divide, on \<open>int64\<close>; Go's division truncates.
\<close>

definition refundableOrderAmount :: "Order \<Rightarrow> ('a) User_scheme \<Rightarrow> int \<Rightarrow> int" where
  "refundableOrderAmount ord u now =
    (let amount = of_Price (o_Offer ord); p = of_Plan (o_Offer ord) in
     if amount \<le> 0 then 0
     else if orderEntitlementPosition u (o_ID ord) \<noteq> ActivePlan then amount
     else if pl_Quota p > 0 \<and> QuotaUsed u > 0 then
       let used = min (pl_Quota p) (max 0 (QuotaUsed u))
       in wrap64 (amount * (pl_Quota p - used)) sdiv pl_Quota p
     else
       let total = pl_ValidDays p * 86400; left = max 0 (u_Expires u - now) in
       if pl_Quota p = 0 \<and> pl_ValidDays p > 0
          \<and> (case u_Entitlement u of None \<Rightarrow> False | Some e \<Rightarrow> en_AssignedAt e > 0)
          \<and> total > 0 \<and> left < total
       then wrap64 (amount * left) sdiv total
       else amount)"

section \<open>Placing an order\<close>

definition countOfferPurchases :: "int \<Rightarrow> string \<Rightarrow> string \<Rightarrow> Shop \<Rightarrow> int" where
  "countOfferPurchases user offerID exclude S =
    int (length (filter (\<lambda>r. or_user r = user \<and> or_id r \<noteq> exclude \<and>
        or_state r \<in> {Pending, Provisioning, Completed, Refunding} \<and>
        of_ID (o_Offer (or_doc r)) = offerID) (sh_orders S)))"

definition requirePaymentModule :: "commerce_env \<Rightarrow> commerce_error + unit" where
  "requirePaymentModule env = require (ce_payment_module env) (Fail 403 ''payment module disabled'')"

definition limit_reached :: "int \<Rightarrow> Offer \<Rightarrow> string \<Rightarrow> Shop \<Rightarrow> bool" where
  "limit_reached user off exclude S \<longleftrightarrow>
    of_PurchaseLimit off > 0 \<and> countOfferPurchases user (of_ID off) exclude S \<ge> of_PurchaseLimit off"

definition pending_reset :: "('a) User_scheme \<Rightarrow> bool" where
  "pending_reset u = (case u_Meter u of None \<Rightarrow> False | Some m \<Rightarrow> qm_PendingReset m)"

text \<open>\<open>renew\<close> for the very plan version that is active, else \<open>purchase\<close>.\<close>

definition order_kind_for :: "int \<Rightarrow> Record \<Rightarrow> Offer \<Rightarrow> commerce_error + order_kind" where
  "order_kind_for now actor off =
    (let p = of_Plan off in
     case u_Entitlement actor of None \<Rightarrow> Inr Purchase
     | Some e \<Rightarrow>
        if (u_Expires actor = 0 \<or> u_Expires actor > now) \<and> en_PlanID e = pl_ID p \<and> en_Version e = pl_Version p
        then if u_Expires actor = 0 \<or> pl_ValidDays p = 0
             then Inl (Fail 409 ''permanent entitlement needs no renewal'') else Inr Renew
        else Inr Purchase)"

definition new_order :: "commerce_env \<Rightarrow> Record \<Rightarrow> Offer \<Rightarrow> order_kind \<Rightarrow> Order" where
  "new_order env actor off kind =
    \<lparr>o_ID = ce_token env ''GYO'', o_UserID = u_ID actor, o_State = Pending, o_Created = ce_now env,
     o_Updated = ce_now env, o_Expires = ce_now env + 900, o_Offer = off, o_Action = kind,
     o_BeforeExpiry = u_Expires actor,
     o_BeforeRevision = (case u_Entitlement actor of None \<Rightarrow> [] | Some e \<Rightarrow> en_Revision e),
     o_AppliedRevision = [], o_Expected = ce_version env actor, o_PreviousEnd = 0, o_Started = 0,
     o_NextAttempt = 0, o_Attempts = 0, o_Message = [], o_RefundStatus = None, o_RefundRequestID = [],
     o_RefundRequest = None, o_RefundAmount = 0, o_RefundAmountSet = False, o_PaymentAttemptID = [],
     o_PaymentProviderID = []\<rparr>"

text \<open>\<open>INSERT INTO commerce_orders\<close>: a taken id or a second active order is reported as a conflict.\<close>

definition insert_order :: "Order \<Rightarrow> Shop \<Rightarrow> commerce_error + Shop" where
  "insert_order ord S =
    (if o_ID ord \<in> or_id ` set (sh_orders S) \<or>
        list_ex (\<lambda>r. or_user r = o_UserID ord \<and> or_state r \<in> set active_states) (sh_orders S)
     then Inl (Fail 409 ''finish the open order first'')
     else Inr (S\<lparr>sh_orders := sh_orders S @ [\<lparr>or_id = o_ID ord, or_user = o_UserID ord,
            or_state = o_State ord, or_created = o_Created ord, or_updated = o_Updated ord,
            or_expires = o_Expires ord, or_doc = ord\<rparr>]\<rparr>))"

definition createOrder ::
  "commerce_env \<Rightarrow> Record \<Rightarrow> create_request \<Rightarrow> Shop \<Rightarrow> commerce_error + (commerce_reply \<times> Shop)"
where
  "createOrder env actor req S =
    bind_res (requirePaymentModule env) (\<lambda>_.
    bind_res (commerceReplay env (u_ID actor) (cq_OperationID req) (CreateRequest req) S) (\<lambda>replay.
    case replay of Some reply \<Rightarrow> Inr (reply, S)
    | None \<Rightarrow>
       (case find_offer S (cq_OfferID req) of
          None \<Rightarrow> Inl (Fail 409 ''offer changed or withdrawn'')
        | Some off \<Rightarrow>
          bind_res (require (of_Enabled off \<and> of_Version off = cq_OfferVersion req)
                      (Fail 409 ''offer changed or withdrawn'')) (\<lambda>_.
          bind_res (require (case find_plan S (pl_ID (of_Plan off)) of None \<Rightarrow> False
                             | Some p \<Rightarrow> \<not> pl_Archived p) (Fail 409 ''plan archived'')) (\<lambda>_.
          bind_res (require (\<not> limit_reached (u_ID actor) off [] S)
                      (Fail 409 ''purchase limit reached'')) (\<lambda>_.
          bind_res (require (\<not> pending_reset actor) (Fail 409 ''old period is settling'')) (\<lambda>_.
          bind_res (require (\<not> commercePending (u_ID actor) S) (Fail 409 ''finish the open order first'')) (\<lambda>_.
          bind_res (order_kind_for (ce_now env) actor off) (\<lambda>kind.
          bind_res (ce_sites_ok env (assignPlan (ce_tz env) (ce_token env ''period'')
                      (ce_token env ''GYV'') (of_Plan off) (ce_now env) [] actor)) (\<lambda>_.
          let ord = new_order env actor off kind in
          bind_res (insert_order ord S) (\<lambda>S1.
          bind_res (saveCommerceRequest env (u_ID actor) (cq_OperationID req) (CreateRequest req)
                      (OrderReply ord) S1) (\<lambda>S2.
          Inr (OrderReply ord, S2)))))))))))))"

section \<open>Drafts of order actions\<close>

record draft =
  dr_order :: Order
  dr_user :: Record
  dr_available :: int
  dr_held :: int
  dr_kind :: string
  dr_queued :: "nat option"
  dr_queuedRenewal :: bool

definition plain_draft :: "Order \<Rightarrow> Record \<Rightarrow> draft" where
  "plain_draft ord u = \<lparr>dr_order = ord, dr_user = u, dr_available = 0, dr_held = 0, dr_kind = [],
     dr_queued = None, dr_queuedRenewal = False\<rparr>"

definition set_pending_reset :: "bool \<Rightarrow> Record \<Rightarrow> Record" where
  "set_pending_reset b u = u\<lparr>u_Meter := map_option (\<lambda>m. m\<lparr>qm_PendingReset := b\<rparr>) (u_Meter u)\<rparr>"

definition legacy_period :: "Record \<Rightarrow> string" where
  "legacy_period u = ''legacy-'' @ itoa (u_ID u)"

text \<open>
  \<open>SELECT MIN(created) FROM payment_receipts\<close>: without a row the scan fails and the payment does not
  count as made in time.
\<close>

definition paid_in_time :: "Order \<Rightarrow> string \<Rightarrow> Shop \<Rightarrow> bool" where
  "paid_in_time ord attempt S \<longleftrightarrow>
    o_PaymentAttemptID ord \<noteq> [] \<and> attempt = o_PaymentAttemptID ord \<and>
    (let created = map pr_Created (filter (\<lambda>r. pr_AttemptID r = o_PaymentAttemptID ord \<and>
           pr_State r \<in> {''verified'', ''applied''}) (sh_receipts S))
     in created \<noteq> [] \<and> 0 < fold min (tl created) (hd created) \<and> fold min (tl created) (hd created) < o_Expires ord)"

definition attempt_paid :: "Order \<Rightarrow> Shop \<Rightarrow> bool" where
  "attempt_paid ord S \<longleftrightarrow>
    (case find (\<lambda>a. pa_ID a = o_PaymentAttemptID ord \<and> pa_OrderID a = o_ID ord) (sh_attempts S) of
       None \<Rightarrow> False | Some a \<Rightarrow> pa_State a = ''paid'')"

text \<open>
  A confirmed order: the old period waits for its settlement and, unless a provider was paid, the
  price moves from the available to the held balance.
\<close>

definition confirmed :: "int \<Rightarrow> Order \<Rightarrow> Record \<Rightarrow> draft" where
  "confirmed now ord u =
    (let u1 = InitMeter (legacy_period u) now u; online = o_PaymentAttemptID ord \<noteq> [];
         o1 = ord\<lparr>o_PreviousEnd := (case u_Meter u1 of None \<Rightarrow> 0 | Some m \<Rightarrow> qm_End m),
                  o_Started := now, o_State := Provisioning,
                  o_Message := (if online then ''online payment confirmed, provisioning''
                                else ''balance held, provisioning'')\<rparr>;
         u2 = (if o_Action ord = Purchase then set_pending_reset True u1 else u1);
         price = of_Price (o_Offer ord)
     in if online then plain_draft o1 u2
        else (plain_draft o1 u2)\<lparr>dr_available := - price, dr_held := price, dr_kind := ''hold''\<rparr>)"

definition confirm_draft ::
  "commerce_env \<Rightarrow> Record \<Rightarrow> action_request \<Rightarrow> Shop \<Rightarrow> Order \<Rightarrow> Record \<Rightarrow> commerce_error + draft"
where
  "confirm_draft env actor req S ord u =
    (let now = ce_now env; p = of_Plan (o_Offer ord); online = o_PaymentAttemptID ord \<noteq> [] in
     bind_res (if o_PaymentAttemptID ord = [] then requirePaymentModule env else Inr ()) (\<lambda>_.
     bind_res (require (u_ID actor = o_UserID ord) (Fail 403 ''only the owner of the order may confirm'')) (\<lambda>_.
     case find_offer S (of_ID (o_Offer ord)) of None \<Rightarrow> Inl (Fail 409 ''offer suspended'')
     | Some off \<Rightarrow>
       bind_res (require (of_Enabled off \<and> (case find_plan S (pl_ID p) of None \<Rightarrow> False | Some q \<Rightarrow> \<not> pl_Archived q))
                   (Fail 409 ''offer suspended'')) (\<lambda>_.
       bind_res (require (\<not> limit_reached (u_ID u) off (o_ID ord) S) (Fail 409 ''purchase limit reached'')) (\<lambda>_.
       bind_res (require (\<not> (o_State ord \<noteq> Pending \<or>
             o_Expires ord \<le> now \<and> \<not> paid_in_time ord (aq_PaymentAttemptID req) S \<or> \<not> u_Enabled u \<or>
             o_Expected ord \<noteq> ce_version env u \<or> pending_reset u))
           (Fail 409 ''order or entitlement changed'')) (\<lambda>_.
       bind_res (if online
           then require (trim_space (aq_PaymentAttemptID req) = o_PaymentAttemptID ord \<and> attempt_paid ord S)
                  (Fail 409 ''finish the online payment first'')
           else require (trim_space (aq_PaymentAttemptID req) = []) (Fail 409 ''invalid payment method'')) (\<lambda>_.
       let future = (if o_Action ord = Renew
             then u\<lparr>u_Expires := u_Expires u + pl_ValidDays p * 86400\<rparr>
             else assignPlan (ce_tz env) (ce_token env ''period'') (ce_token env ''GYV'') p now (o_ID ord) u) in
       bind_res (ce_sites_ok env future) (\<lambda>_.
       Inr (confirmed now ord u)))))))))"

definition cancelled_draft :: "Order \<Rightarrow> Record \<Rightarrow> draft" where
  "cancelled_draft ord u =
    (let o1 = ord\<lparr>o_State := Cancelled, o_Message := ''order cancelled''\<rparr>;
         price = of_Price (o_Offer ord) in
     if o_State ord \<noteq> Provisioning then plain_draft o1 u
     else
       let u1 = (if o_Action ord = Purchase then set_pending_reset False u else u); d = plain_draft o1 u1 in
       if o_PaymentAttemptID ord = []
       then d\<lparr>dr_available := price, dr_held := - price, dr_kind := ''release''\<rparr> else d)"

definition cancel_draft :: "Order \<Rightarrow> Record \<Rightarrow> commerce_error + draft" where
  "cancel_draft ord u =
    (if o_State ord \<noteq> Pending \<and> o_State ord \<noteq> Provisioning then Inl (Fail 409 ''order cannot be cancelled'')
     else Inr (cancelled_draft ord u))"

definition is_requested :: "RefundRequest option \<Rightarrow> bool" where
  "is_requested r = (case r of None \<Rightarrow> False | Some q \<Rightarrow> rq_State q = Requested)"

definition request_refund_draft ::
  "commerce_env \<Rightarrow> Record \<Rightarrow> action_request \<Rightarrow> RefundRequest option \<Rightarrow> Order \<Rightarrow> Record \<Rightarrow> commerce_error + draft"
where
  "request_refund_draft env actor req request ord u =
    (if u_ID actor \<noteq> o_UserID ord then Inl (Fail 403 ''only the owner of the order may request a refund'')
     else if rune_count (aq_Reason req) > 500 then Inl (Fail 400 ''reason too long'')
     else if o_State ord \<noteq> Completed then Inl (Fail 409 ''order state does not allow a refund request'')
     else if orderEntitlementPosition u (o_ID ord) = NotFound then Inl (Fail 409 ''entitlement was replaced'')
     else if is_requested request then Inl (Fail 409 ''a refund request is pending'')
     else
       let rid = ce_token env ''GYRR'' in
       Inr (plain_draft (ord\<lparr>o_State := Completed, o_Message := ''refund request submitted'',
          o_RefundStatus := Some Requested, o_RefundRequestID := rid,
          o_RefundRequest := Some \<lparr>rq_ID = rid, rq_OrderID = o_ID ord, rq_UserID = o_UserID ord,
             rq_State = Requested, rq_Revision = 1, rq_Reason = aq_Reason req, rq_ActorID = u_ID actor,
             rq_Created = ce_now env, rq_Updated = ce_now env, rq_DecidedBy = 0, rq_DecidedAt = 0\<rparr>\<rparr>) u))"

definition cancel_refund_draft ::
  "Record \<Rightarrow> action_request \<Rightarrow> RefundRequest option \<Rightarrow> Order \<Rightarrow> Record \<Rightarrow> commerce_error + draft"
where
  "cancel_refund_draft actor req request ord u =
    (if u_ID actor \<noteq> o_UserID ord then Inl (Fail 403 ''only the owner of the order may cancel the request'')
     else if rune_count (aq_Reason req) > 500 then Inl (Fail 400 ''reason too long'')
     else if o_State ord \<noteq> Completed \<or> \<not> is_requested request then Inl (Fail 409 ''no pending refund request'')
     else Inr (plain_draft (ord\<lparr>o_State := Completed, o_Message := ''refund request cancelled'',
            o_RefundStatus := Some RequestCancelled,
            o_RefundRequest := map_option (\<lambda>q. q\<lparr>rq_State := RequestCancelled, rq_Revision := rq_Revision q + 1\<rparr>) request\<rparr>) u))"

definition reject_refund_draft ::
  "Record \<Rightarrow> action_request \<Rightarrow> RefundRequest option \<Rightarrow> Order \<Rightarrow> Record \<Rightarrow> commerce_error + draft"
where
  "reject_refund_draft actor req request ord u =
    (if u_Role actor \<noteq> ''owner'' then Inl (Fail 403 ''administrator required'')
     else if o_State ord \<noteq> Completed \<or> \<not> is_requested request then Inl (Fail 409 ''no pending refund request'')
     else if rune_count (aq_Reason req) > 500 then Inl (Fail 400 ''reason too long'')
     else Inr (plain_draft (ord\<lparr>o_State := Completed,
            o_Message := (if aq_Reason req = [] then ''refund request rejected''
                          else ''refund request rejected: '' @ aq_Reason req),
            o_RefundStatus := Some Rejected,
            o_RefundRequest := map_option (\<lambda>q. q\<lparr>rq_State := Rejected, rq_Reason := aq_Reason req,
               rq_Revision := rq_Revision q + 1\<rparr>) request\<rparr>) u))"

definition approve_request :: "RefundRequest option \<Rightarrow> Order \<Rightarrow> Order" where
  "approve_request request ord =
    (if is_requested request
     then ord\<lparr>o_RefundStatus := Some Approved,
            o_RefundRequest := map_option (\<lambda>q. q\<lparr>rq_State := Approved, rq_Revision := rq_Revision q + 1\<rparr>) request\<rparr>
     else ord)"

text \<open>A queued plan is dropped at once; the active one is first revoked by the worker.\<close>

definition refund_queued :: "RefundRequest option \<Rightarrow> nat \<Rightarrow> Order \<Rightarrow> Record \<Rightarrow> draft" where
  "refund_queued request i o1 u =
    (let o2 = (if o_PaymentAttemptID o1 \<noteq> []
               then o1\<lparr>o_State := RefundPending, o_Message := ''queued entitlement removed, awaiting provider refund''\<rparr>
               else o1\<lparr>o_State := Refunded, o_Message := ''queued entitlement removed, balance returned''\<rparr>)
     in (plain_draft (approve_request request o2) u)\<lparr>dr_queued := Some i,
          dr_queuedRenewal := (o_Action o1 = Renew \<and> i < length (u_PlanQueue u) \<and>
             ps_RenewalOrderID (u_PlanQueue u ! i) = o_ID o1)\<rparr>)"

definition refund_active :: "int \<Rightarrow> RefundRequest option \<Rightarrow> Order \<Rightarrow> Record \<Rightarrow> draft" where
  "refund_active now request o1 u =
    (let u1 = set_pending_reset True (InitMeter (legacy_period u) now u);
         o2 = o1\<lparr>o_Started := now, o_NextAttempt := 0, o_State := Refunding,
            o_Message := (if o_PaymentAttemptID o1 \<noteq> [] then ''awaiting revocation, then provider refund''
                          else ''awaiting revocation, then balance refund'')\<rparr>
     in plain_draft (approve_request request o2) u1)"

definition refund_draft ::
  "commerce_env \<Rightarrow> RefundRequest option \<Rightarrow> Shop \<Rightarrow> Order \<Rightarrow> Record \<Rightarrow> commerce_error + draft"
where
  "refund_draft env request S ord u =
    (if o_State ord \<noteq> Completed \<and> o_State ord \<noteq> RefundRequested
     then Inl (Fail 409 ''order state does not allow a refund'')
     else
       let now = ce_now env; position = orderEntitlementPosition u (o_ID ord) in
       if position = NotFound then Inl (Fail 409 ''entitlement was replaced'')
       else if commercePendingExcept (u_ID u) (o_ID ord) S then Inl (Fail 409 ''finish the open order first'')
       else
         let o1 = ord\<lparr>o_RefundAmount := refundableOrderAmount ord u now, o_RefundAmountSet := True\<rparr> in
         (case position of
            QueuedPlan i \<Rightarrow> Inr (refund_queued request i o1 u)
          | _ \<Rightarrow> Inr (refund_active now request o1 u)))"

section \<open>The transaction of an order action\<close>

text \<open>The order row is locked and read again; a changed state or payment is a conflict.\<close>

definition lock_order :: "Order \<Rightarrow> order_state \<Rightarrow> Shop \<Rightarrow> commerce_error + unit" where
  "lock_order ord old S =
    (case find_order S (o_ID ord) of None \<Rightarrow> Inl (NoRows ''commerce_orders'')
     | Some locked \<Rightarrow>
         require (o_State locked = old \<and> o_PaymentAttemptID locked = o_PaymentAttemptID ord \<and>
                  o_PaymentProviderID locked = o_PaymentProviderID ord) Conflict)"

definition lock_payment :: "Order \<Rightarrow> Shop \<Rightarrow> commerce_error + unit" where
  "lock_payment ord S =
    require (affected (\<lambda>a. pa_ID a = o_PaymentAttemptID ord \<and> pa_State a = ''paid'') (sh_attempts S) = 1)
      (Fail 409 ''online payment changed'')"

definition cancel_payment :: "int \<Rightarrow> Order \<Rightarrow> Shop \<Rightarrow> Shop" where
  "cancel_payment now ord S =
    paymentMarkReceiptRefund now (o_PaymentAttemptID ord) ''order cancelled, refund through the provider''
      (set_attempt (o_PaymentAttemptID ord) [''created'', ''awaiting_customer'', ''paid'']
         (\<lambda>a. a\<lparr>pa_State := (if pa_State a = ''paid'' then ''refund_required'' else ''cancelled''), pa_Updated := now\<rparr>) S)"

text \<open>The attempt and its receipts wait for a refund through the provider.\<close>

definition require_provider_refund :: "int \<Rightarrow> Order \<Rightarrow> Shop \<Rightarrow> Shop" where
  "require_provider_refund now ord S =
    paymentMarkReceiptRefund now (o_PaymentAttemptID ord) (o_Message ord)
      (set_attempt (o_PaymentAttemptID ord) [''completed'', ''paid'']
         (\<lambda>a. a\<lparr>pa_State := ''refund_required'', pa_Updated := now, pa_Message := o_Message ord\<rparr>) S)"

definition clear_renewal :: "nat \<Rightarrow> int \<Rightarrow> Record \<Rightarrow> Record" where
  "clear_renewal i expiry u =
    u\<lparr>u_PlanQueue := (u_PlanQueue u)[i := (u_PlanQueue u ! i)\<lparr>ps_Expires := expiry, ps_RenewalOrderID := [],
        ps_Entitlement := map_option (\<lambda>e. e\<lparr>en_RenewalOrderID := []\<rparr>) (ps_Entitlement (u_PlanQueue u ! i))\<rparr>]\<rparr>"

definition drop_queued :: "draft \<Rightarrow> commerce_error + Record" where
  "drop_queued d =
    (case dr_queued d of None \<Rightarrow> Inr (dr_user d)
     | Some i \<Rightarrow>
        if dr_queuedRenewal d then Inr (clear_renewal i (o_BeforeExpiry (dr_order d)) (dr_user d))
        else (case removeQueuedEntitlement i (dr_user d) of
                None \<Rightarrow> Inl (Fail 409 ''queued entitlement changed'') | Some u \<Rightarrow> Inr u))"

definition pay_queued_refund :: "commerce_env \<Rightarrow> Record \<Rightarrow> draft \<Rightarrow> Shop \<Rightarrow> commerce_error + Shop" where
  "pay_queued_refund env actor d S =
    (let ord = dr_order d in
     if dr_queued d = None then Inr S
     else if o_PaymentAttemptID ord \<noteq> [] then Inr (require_provider_refund (ce_now env) ord S)
     else if of_Price (o_Offer ord) > 0
     then post_money env (u_ID (dr_user d)) (u_ID actor) (''refund:'' @ o_ID ord) ''refund'' (o_ID ord)
            (o_Message ord) (o_RefundAmount ord) 0 S
     else Inr S)"

definition insert_refund_request ::
  "commerce_env \<Rightarrow> Record \<Rightarrow> action_request \<Rightarrow> Order \<Rightarrow> Shop \<Rightarrow> commerce_error + Shop"
where
  "insert_refund_request env actor req ord S =
    (if list_ex (\<lambda>q. rq_ID q = o_RefundRequestID ord \<or> rq_OrderID q = o_ID ord \<and> rq_State q = Requested)
          (sh_requests S)
     then Inl (Unique ''commerce_refund_requests'')
     else Inr (S\<lparr>sh_requests := sh_requests S @ [\<lparr>rq_ID = o_RefundRequestID ord, rq_OrderID = o_ID ord,
            rq_UserID = o_UserID ord, rq_State = Requested, rq_Revision = 1, rq_Reason = aq_Reason req,
            rq_ActorID = u_ID actor, rq_Created = ce_now env, rq_Updated = ce_now env, rq_DecidedBy = 0,
            rq_DecidedAt = 0\<rparr>]\<rparr>))"

definition decide_refund_request ::
  "commerce_env \<Rightarrow> Record \<Rightarrow> action_request \<Rightarrow> RefundRequest \<Rightarrow> Shop \<Rightarrow> commerce_error + Shop"
where
  "decide_refund_request env actor req q S =
    (let state = (if aq_Action req = ''cancel_refund'' then RequestCancelled
                  else if aq_Action req = ''reject_refund'' then Rejected else Approved);
         hit = (\<lambda>r. rq_ID r = rq_ID q \<and> rq_State r = Requested \<and> rq_Revision r = rq_Revision q) in
     if affected hit (sh_requests S) \<noteq> 1 then Inl (Fail 409 ''refund request changed'')
     else Inr (S\<lparr>sh_requests := set_where hit (\<lambda>r. r\<lparr>rq_State := state, rq_Reason := aq_Reason req,
            rq_Revision := rq_Revision r + 1, rq_Updated := ce_now env, rq_DecidedBy := u_ID actor,
            rq_DecidedAt := ce_now env\<rparr>) (sh_requests S)\<rparr>))"

definition request_step ::
  "commerce_env \<Rightarrow> Record \<Rightarrow> action_request \<Rightarrow> RefundRequest option \<Rightarrow> Order \<Rightarrow> Shop \<Rightarrow> commerce_error + Shop"
where
  "request_step env actor req request ord S =
    (if aq_Action req = ''request_refund'' then insert_refund_request env actor req ord S
     else if aq_Action req \<in> {''cancel_refund'', ''reject_refund'', ''refund''}
     then (case request of None \<Rightarrow> Inr S
           | Some q \<Rightarrow> if rq_State q = Requested then decide_refund_request env actor req q S else Inr S)
     else Inr S)"

definition money_step :: "commerce_env \<Rightarrow> Record \<Rightarrow> draft \<Rightarrow> Shop \<Rightarrow> commerce_error + Shop" where
  "money_step env actor d S =
    (let ord = dr_order d in
     if dr_kind d \<noteq> [] \<and> of_Price (o_Offer ord) > 0
     then post_money env (u_ID (dr_user d)) (u_ID actor) (dr_kind d @ '':'' @ o_ID ord) (dr_kind d) (o_ID ord)
            (o_Message ord) (dr_available d) (dr_held d) S
     else Inr S)"

definition notice_step :: "commerce_env \<Rightarrow> action_request \<Rightarrow> Order \<Rightarrow> int \<Rightarrow> Shop \<Rightarrow> Shop" where
  "notice_step env req ord user S =
    (if aq_Action req = ''request_refund''
     then notifyCommerceOwners (o_ID ord @ '' user #'' @ itoa (o_UserID ord) @ '' submitted a refund request'') (ce_now env) S
     else if aq_Action req = ''cancel_refund''
     then notifyCommerceOwnersTitle ''refund request cancelled''
            (o_ID ord @ '' user #'' @ itoa (o_UserID ord) @ '' cancelled the refund request'') (ce_now env) S
     else if aq_Action req = ''reject_refund''
     then commerceEvent (ce_now env) user (''order:'' @ o_ID ord @ '':refund_rejected:'' @ aq_OperationID req)
            (''order '' @ o_ID ord @ '' refund request rejected''
              @ (if aq_Reason req \<noteq> [] then '' reason: '' @ aq_Reason req else [])) S
     else S)"

definition commit_draft ::
  "commerce_env \<Rightarrow> Record \<Rightarrow> action_request \<Rightarrow> RefundRequest option \<Rightarrow> order_state \<Rightarrow> draft \<Rightarrow> Shop \<Rightarrow>
     commerce_error + (Order \<times> Shop)"
where
  "commit_draft env actor req request old d S =
    (let confirm = aq_Action req = ''confirm''; cancel = aq_Action req = ''cancel'';
         online = o_PaymentAttemptID (dr_order d) \<noteq> [] in
     bind_res (if confirm \<and> o_PaymentProviderID (dr_order d) = ''crypto'' then ce_crypto_lock env (dr_order d) else Inr ()) (\<lambda>_.
     bind_res (lock_order (dr_order d) old S) (\<lambda>_.
     bind_res (if confirm \<and> online then lock_payment (dr_order d) S else Inr ()) (\<lambda>_.
     let S1 = (if cancel \<and> online then cancel_payment (ce_now env) (dr_order d) S else S);
         d1 = (if cancel \<and> online \<and> old = Provisioning
               then d\<lparr>dr_order := (dr_order d)\<lparr>o_Message := ''order cancelled; refund the online payment manually''\<rparr>\<rparr>
               else d) in
     bind_res (drop_queued d1) (\<lambda>u.
     bind_res (pay_queued_refund env actor d1 S1) (\<lambda>S2.
     bind_res (request_step env actor req request (dr_order d1) S2) (\<lambda>S3.
     bind_res (money_step env actor d1 S3) (\<lambda>S4.
     bind_res (saveOrder (ce_now env) (dr_order d1) old S4) (\<lambda>S5.
     bind_res (txUser u S5) (\<lambda>S6.
     let S7 = notice_step env req (dr_order d1) (u_ID u) S6 in
     bind_res (saveCommerceRequest env (u_ID actor) (aq_OperationID req) (ActionRequest req)
                 (OrderReply (dr_order d1)) S7) (\<lambda>S8.
     Inr (dr_order d1, S8))))))))))))"

text \<open>\<open>commerceActor\<close>: the account must exist and be enabled; an administrator proves the password.\<close>

definition commerceActor ::
  "(Record \<Rightarrow> bool) \<Rightarrow> Record \<Rightarrow> bool \<Rightarrow> Shop \<Rightarrow> commerce_error + Record"
where
  "commerceActor password_ok actor admin S =
    (case user_record S (u_ID actor) of None \<Rightarrow> Inl (Fail 401 ''sign in'')
     | Some u \<Rightarrow>
        if \<not> u_Enabled u then Inl (Fail 401 ''sign in'')
        else if admin \<and> (u_Role u \<noteq> ''owner'' \<or> \<not> password_ok u)
        then Inl (Fail 403 ''administrator password required'') else Inr u)"

definition request_version_ok :: "action_request \<Rightarrow> RefundRequest option \<Rightarrow> commerce_error + unit" where
  "request_version_ok req request =
    bind_res (require (aq_RefundRequestID req = [] \<or>
        (case request of None \<Rightarrow> False
         | Some q \<Rightarrow> rq_ID q = aq_RefundRequestID req \<and> aq_RefundRevision req \<ge> 1 \<and> rq_Revision q = aq_RefundRevision req))
      (Fail 409 ''refund request changed'')) (\<lambda>_.
    require (\<not> (is_requested request \<and> aq_Action req \<in> {''cancel_refund'', ''reject_refund'', ''refund''} \<and>
                (aq_RefundRequestID req = [] \<or> aq_RefundRevision req < 1)))
      (Fail 409 ''refund request id and version required''))"

definition action_draft ::
  "commerce_env \<Rightarrow> Record \<Rightarrow> action_request \<Rightarrow> RefundRequest option \<Rightarrow> Shop \<Rightarrow> Order \<Rightarrow> Record \<Rightarrow> commerce_error + draft"
where
  "action_draft env actor req request S ord u =
    (if aq_Action req = ''confirm'' then confirm_draft env actor req S ord u
     else if aq_Action req = ''cancel'' then cancel_draft ord u
     else if aq_Action req = ''request_refund'' then request_refund_draft env actor req request ord u
     else if aq_Action req = ''cancel_refund'' then cancel_refund_draft actor req request ord u
     else if aq_Action req = ''reject_refund'' then reject_refund_draft actor req request ord u
     else if aq_Action req = ''refund'' then refund_draft env request S ord u
     else Inl (Fail 400 ''unknown order action''))"

definition orderAction ::
  "commerce_env \<Rightarrow> (Record \<Rightarrow> bool) \<Rightarrow> Record \<Rightarrow> action_request \<Rightarrow> Shop \<Rightarrow> commerce_error + (commerce_reply \<times> Shop)"
where
  "orderAction env password_ok actor req0 S =
    (let req = req0\<lparr>aq_Reason := trim_space (aq_Reason req0)\<rparr> in
     bind_res (if aq_Action req = ''refund'' \<or> aq_Action req = ''reject_refund''
               then commerceActor password_ok actor True S else Inr actor) (\<lambda>_.
     bind_res (commerceReplay env (u_ID actor) (aq_OperationID req) (ActionRequest req) S) (\<lambda>replay.
     case replay of Some reply \<Rightarrow> Inr (reply, S)
     | None \<Rightarrow>
        (case find_order S (aq_ID req) of None \<Rightarrow> Inl (Fail 404 ''no such order'')
         | Some ord0 \<Rightarrow>
           let ord = enrichOrder S ord0 in
           bind_res (require (u_Role actor = ''owner'' \<or> u_ID actor = o_UserID ord)
             (if aq_Action req \<in> {''request_refund'', ''cancel_refund'', ''reject_refund''}
              then Fail 403 ''not your order'' else Fail 404 ''no such order'')) (\<lambda>_.
           case user_record S (o_UserID ord) of None \<Rightarrow> Inl (NoRows ''users'')
           | Some u \<Rightarrow>
              let request = refundRequest S (o_ID ord) in
              bind_res (request_version_ok req request) (\<lambda>_.
              bind_res (action_draft env actor req request S ord u) (\<lambda>d.
              bind_res (commit_draft env actor req request (o_State ord) d S) (\<lambda>(ord', S').
              Inr (OrderReply ord', S')))))))))"

end
