(* ===== verification/Fulfilment.thy ===== *)
theory Fulfilment
  imports Checkout
begin

text \<open>
  The worker that carries confirmed orders out
  (\<open>backend/internal/controlplane/commerce_fulfilment.go\<close>): \<open>fulfilOrder\<close>, \<open>failProvisioning\<close>,
  the sweep \<open>commerceWork\<close> with its back-off, and the delivery of notices. A transaction that
  fails leaves the store as it was; what ran before it (the settling of old connections) stays.
\<close>

section \<open>Surroundings of the worker\<close>

text \<open>
  \<open>fe_settle\<close> is \<open>reconcile\<close>, \<open>collect\<close> and \<open>settleHYRevocations\<close> in this order: the new store and
  the first error. \<open>fe_chain_ok\<close> reads the invoice and the availability of its chain.
\<close>

record fulfil_env =
  fe_commerce :: commerce_env
  fe_settle :: "Shop \<Rightarrow> Shop \<times> commerce_error option"
  fe_local_nodes :: "Node list"
  fe_nodes_of :: "BusinessSite \<Rightarrow> Node list"
  fe_owner_enabled :: "BusinessSite \<Rightarrow> bool"
  fe_chain_ok :: "Order \<Rightarrow> commerce_error + unit"

definition state_name :: "order_state \<Rightarrow> string" where
  "state_name s = (case s of Pending \<Rightarrow> ''pending'' | Provisioning \<Rightarrow> ''provisioning''
     | Completed \<Rightarrow> ''completed'' | Cancelled \<Rightarrow> ''cancelled'' | Expired \<Rightarrow> ''expired''
     | Failed \<Rightarrow> ''failed'' | Refunding \<Rightarrow> ''refunding'' | Refunded \<Rightarrow> ''refunded''
     | RefundPending \<Rightarrow> ''refund_pending'' | RefundRequested \<Rightarrow> ''refund_requested'')"

section \<open>Giving up\<close>

text \<open>The paid attempt and its receipts are kept for a refund through the provider.\<close>

definition fail_payment :: "int \<Rightarrow> Order \<Rightarrow> string \<Rightarrow> Shop \<Rightarrow> Shop" where
  "fail_payment now ord reason S =
    paymentMarkReceiptRefund now (o_PaymentAttemptID ord) reason
      (set_attempt (o_PaymentAttemptID ord) [''paid'', ''completed'']
         (\<lambda>a. a\<lparr>pa_State := ''refund_required'', pa_Updated := now\<rparr>) S)"

definition release_hold :: "commerce_env \<Rightarrow> int \<Rightarrow> Order \<Rightarrow> string \<Rightarrow> Shop \<Rightarrow> commerce_error + Shop" where
  "release_hold env user ord message S =
    (if of_Price (o_Offer ord) > 0
     then post_money env user 0 (''release:'' @ o_ID ord) ''release'' (o_ID ord) message
            (of_Price (o_Offer ord)) (- of_Price (o_Offer ord)) S
     else Inr S)"

definition failProvisioning :: "commerce_env \<Rightarrow> Order \<Rightarrow> string \<Rightarrow> Shop \<Rightarrow> commerce_error + Shop" where
  "failProvisioning env ord message S =
    (case user_record S (o_UserID ord) of None \<Rightarrow> Inl (NoRows ''users'')
     | Some u0 \<Rightarrow>
        let now = ce_now env; online = o_PaymentAttemptID ord \<noteq> [];
            ord1 = ord\<lparr>o_State := Failed,
              o_Message := (if online then message @ ''; refund the online payment manually'' else message)\<rparr>;
            u = (if o_Action ord = Purchase then set_pending_reset False u0 else u0) in
        bind_res (if online then Inr (fail_payment now ord ''provisioning failed, refund through the provider'' S)
                  else release_hold env (u_ID u) ord message S) (\<lambda>S1.
        bind_res (txUser u S1) (\<lambda>S2.
        bind_res (saveOrder now ord1 Provisioning S2) (\<lambda>S3.
        Inr (commerceEvent now (u_ID u) (''order:'' @ o_ID ord @ '':failed'') (o_ID ord @ '' '' @ message) S3)))))"

section \<open>New grants of the sites\<close>

text \<open>A changed grant list is written; sites keep their order.\<close>

fun regrant ::
  "(string \<times> int) list \<Rightarrow> string \<Rightarrow> int \<Rightarrow> BusinessSite \<Rightarrow> BusinessGrant list \<Rightarrow> meter_error + BusinessGrant list"
where
  "regrant budgets period user s [] = Inr []"
| "regrant budgets period user s (g # gs) =
    (if bg_UserID g \<noteq> user
     then bind_res (regrant budgets period user s gs) (\<lambda>r. Inr (g # r))
     else case map_of budgets (bs_ID s) of
       None \<Rightarrow> regrant budgets period user s gs
     | Some budget \<Rightarrow>
        if bs_Mount s \<noteq> None then regrant budgets period user s gs
        else
          bind_res (if budget > 0 then AddCounter (usage_total (site_usage s user)) budget else Inr 0) (\<lambda>quota.
          bind_res (regrant budgets period user s gs) (\<lambda>r.
          Inr (g\<lparr>bg_Budget := budget, bg_Quota := quota, bg_PeriodID := period\<rparr> # r))))"

definition has_grant :: "int \<Rightarrow> BusinessSite \<Rightarrow> bool" where
  "has_grant user s \<longleftrightarrow> list_ex (\<lambda>g. bg_UserID g = user) (bs_Grants s)"

definition regrant_site ::
  "string \<Rightarrow> (string \<times> int) list \<Rightarrow> string \<Rightarrow> int \<Rightarrow> BusinessSite \<Rightarrow> BusinessSite list \<Rightarrow> meter_error + BusinessSite list"
where
  "regrant_site revision budgets period user s stored =
    (if \<not> has_grant user s then Inr stored
     else bind_res (regrant budgets period user s (bs_Grants s)) (\<lambda>gs.
       Inr (set_where (\<lambda>t. bs_ID t = bs_ID s) (\<lambda>_. s\<lparr>bs_Grants := gs, bs_Revision := revision\<rparr>) stored)))"

section \<open>Activating a purchase\<close>

text \<open>
  The account after a purchase: the running plan is queued, the new one assigned, the meter opens
  a new period. \<open>m.End\<close> is 0 when \<open>NextPeriod\<close> fails.
\<close>

definition open_period :: "int \<Rightarrow> string \<Rightarrow> int \<Rightarrow> Record \<Rightarrow> Record" where
  "open_period now period periodEnd u =
    u\<lparr>u_Meter := map_option (\<lambda>m. m\<lparr>qm_PeriodID := period, qm_Start := now, qm_End := periodEnd,
        qm_PendingReset := False, qm_BaseUpload := qm_Upload m, qm_BaseDownload := qm_Download m,
        qm_RawBaseUpload := u_Upload u, qm_RawBaseDownload := u_Download u,
        qm_UploadRemainder := 0, qm_DownloadRemainder := 0\<rparr>) (u_Meter u)\<rparr>"

definition activate_purchase :: "commerce_env \<Rightarrow> Order \<Rightarrow> Record \<Rightarrow> Record" where
  "activate_purchase env ord u =
    (let now = ce_now env; p = of_Plan (o_Offer ord);
         periodEnd = (case NextPeriod (ce_tz env) now (pl_Cycle p) (pl_Timezone p) of Inl _ \<Rightarrow> 0 | Inr t \<Rightarrow> t)
     in open_period now (ce_token env ''GYCYCLE'') periodEnd
          (assignPlan (ce_tz env) (ce_token env ''period'') (ce_token env ''GYV'') p now (o_ID ord)
             (pauseCurrentPlan now u)))"

definition insert_period :: "int \<Rightarrow> string \<Rightarrow> User \<Rightarrow> Shop \<Rightarrow> Shop" where
  "insert_period user period doc S =
    (if (user, period) \<in> fst ` set (sh_periods S) then S
     else S\<lparr>sh_periods := sh_periods S @ [((user, period), doc)]\<rparr>)"

text \<open>
  The error variable of the source is one: an error of \<open>NextPeriod\<close> suppresses the insert into
  \<open>quota_periods\<close>, and the write of a changed site overwrites it.
\<close>

definition apply_purchase ::
  "commerce_env \<Rightarrow> (string \<times> int) list \<Rightarrow> BusinessSite list \<Rightarrow> Order \<Rightarrow> Record \<Rightarrow> Shop \<Rightarrow>
     commerce_error + (Record \<times> Shop)"
where
  "apply_purchase env budgets sites ord u0 S =
    (case u_Meter u0 of None \<Rightarrow> Inl (Broken ''no meter'')
     | Some m0 \<Rightarrow>
        let p = of_Plan (o_Offer ord); u = activate_purchase env ord u0;
            next = NextPeriod (ce_tz env) (ce_now env) (pl_Cycle p) (pl_Timezone p);
            S1 = (case next of Inl _ \<Rightarrow> S
                  | Inr _ \<Rightarrow> insert_period (u_ID u0) (qm_PeriodID m0) (User.truncate u0) S) in
        case fold_res (regrant_site (ce_token env ''GYV-site'') budgets (ce_token env ''GYCYCLE'') (u_ID u0))
               sites (sh_sites S1) of
          Inl e \<Rightarrow> Inl (Meter e)
        | Inr stored \<Rightarrow>
           (case next of
              Inl e \<Rightarrow> if list_ex (has_grant (u_ID u0)) sites then Inr (u, S1\<lparr>sh_sites := stored\<rparr>) else Inl (Meter e)
            | Inr _ \<Rightarrow> Inr (u, S1\<lparr>sh_sites := stored\<rparr>)))"

definition apply_renewal :: "commerce_env \<Rightarrow> Order \<Rightarrow> Record \<Rightarrow> commerce_error + Record" where
  "apply_renewal env ord u =
    (case u_Entitlement u of None \<Rightarrow> Inl (Broken ''no entitlement'')
     | Some e \<Rightarrow> Inr (u\<lparr>u_Expires := max (ce_now env) (u_Expires u) + pl_ValidDays (of_Plan (o_Offer ord)) * 86400,
          u_Entitlement := Some (e\<lparr>en_RenewalOrderID := o_ID ord, en_Revision := ce_token env ''GYV''\<rparr>)\<rparr>))"

section \<open>The three ways an order leaves the worker\<close>

text \<open>Each yields the account, the order and the store before \<open>txUser\<close> and \<open>saveOrder\<close>.\<close>

definition fail_disabled :: "commerce_env \<Rightarrow> Order \<Rightarrow> Record \<Rightarrow> Shop \<Rightarrow> commerce_error + (Record \<times> Order \<times> Shop)" where
  "fail_disabled env ord u0 S =
    (let u = set_pending_reset False u0; online = o_PaymentAttemptID ord \<noteq> [];
         msg = ''account disabled, balance released'';
         ord1 = ord\<lparr>o_State := Failed,
           o_Message := (if online then msg @ ''; refund the online payment manually'' else msg)\<rparr> in
     bind_res (if online then Inr (fail_payment (ce_now env) ord ''account disabled, refund through the provider'' S)
               else release_hold env (u_ID u) ord msg S) (\<lambda>S1. Inr (u, ord1, S1)))"

definition finish_refund :: "commerce_env \<Rightarrow> Order \<Rightarrow> Record \<Rightarrow> Shop \<Rightarrow> commerce_error + (Record \<times> Order \<times> Shop)" where
  "finish_refund env ord u0 S =
    (if \<not> owns_active (o_ID ord) u0 then Inl (Fail 409 ''refund does not match the entitlement'')
     else case u_Meter u0 of None \<Rightarrow> Inl (Broken ''no meter'')
     | Some m \<Rightarrow>
        let u1 = set_pending_reset False u0;
            u = (if o_Action ord = Renew
                 then u1\<lparr>u_Expires := o_BeforeExpiry ord,
                        u_Entitlement := map_option (\<lambda>e. e\<lparr>en_RenewalOrderID := [], en_Revision := ce_token env ''GYV''\<rparr>)
                          (u_Entitlement u1)\<rparr>
                 else u1\<lparr>u_Expires := ce_now env\<rparr>) in
        if o_PaymentAttemptID ord \<noteq> []
        then let ord1 = ord\<lparr>o_State := RefundPending, o_Message := ''entitlement revoked, awaiting provider refund''\<rparr>
             in Inr (u, ord1, require_provider_refund (ce_now env) ord1 S)
        else let ord1 = ord\<lparr>o_State := Refunded, o_Message := ''balance returned''\<rparr>
             in bind_res (if o_RefundAmount ord > 0
                          then post_money env (u_ID u) 0 (''refund:'' @ o_ID ord) ''refund'' (o_ID ord)
                                 (o_Message ord1) (o_RefundAmount ord) 0 S
                          else Inr S) (\<lambda>S1. Inr (u, ord1, S1)))"

definition complete_order ::
  "commerce_env \<Rightarrow> (string \<times> int) list \<Rightarrow> BusinessSite list \<Rightarrow> Order \<Rightarrow> Record \<Rightarrow> Shop \<Rightarrow>
     commerce_error + (Record \<times> Order \<times> Shop)"
where
  "complete_order env budgets sites ord u0 S =
    bind_res (if o_Action ord = Renew then bind_res (apply_renewal env ord u0) (\<lambda>u. Inr (u, S))
              else apply_purchase env budgets sites ord u0 S) (\<lambda>(u, S1).
    let price = of_Price (o_Offer ord);
        ord1 = ord\<lparr>o_AppliedRevision := (case u_Entitlement u of None \<Rightarrow> [] | Some e \<Rightarrow> en_Revision e),
                   o_State := Completed, o_Message := ''entitlement active''\<rparr> in
    bind_res (if o_PaymentAttemptID ord \<noteq> []
              then Inr (set_attempt (o_PaymentAttemptID ord) [''paid'']
                     (\<lambda>a. a\<lparr>pa_State := ''completed'', pa_Message := ''plan active'', pa_Updated := ce_now env\<rparr>) S1)
              else if price > 0
              then post_money env (u_ID u) 0 (''capture:'' @ o_ID ord) ''purchase'' (o_ID ord) (o_Message ord1) 0 (- price) S1
              else Inr S1) (\<lambda>S2. Inr (u, ord1, S2)))"

section \<open>Carrying an order out\<close>

definition old_grants_settled :: "int \<Rightarrow> BusinessSite list \<Rightarrow> bool" where
  "old_grants_settled user sites \<longleftrightarrow>
    list_all (\<lambda>s. \<not> map_has (bs_Issued s) user \<and> \<not> site_unlimited s user \<and>
       list_all (\<lambda>g. bg_UserID g \<noteq> user) (bs_SentGrants s)) sites"

definition lock_worker_order :: "Order \<Rightarrow> Shop \<Rightarrow> commerce_error + unit" where
  "lock_worker_order ord S =
    (case row_with or_id (o_ID ord) (sh_orders S) of None \<Rightarrow> Inl (NoRows ''commerce_orders'')
     | Some r \<Rightarrow> require (or_state r = o_State ord \<and> o_PaymentAttemptID (or_doc r) = o_PaymentAttemptID ord) Conflict)"

definition fulfil_transaction ::
  "commerce_env \<Rightarrow> (string \<times> int) list \<Rightarrow> BusinessSite list \<Rightarrow> Order \<Rightarrow> Record \<Rightarrow> Shop \<Rightarrow> commerce_error + Shop"
where
  "fulfil_transaction env budgets sites ord u S =
    bind_res (if o_State ord = Provisioning \<and> o_PaymentProviderID ord = ''crypto'' then ce_crypto_lock env ord else Inr ()) (\<lambda>_.
    bind_res (lock_worker_order ord S) (\<lambda>_.
    bind_res (if \<not> u_Enabled u \<and> o_State ord = Provisioning then fail_disabled env ord u S
              else if o_State ord = Refunding then finish_refund env ord u S
              else complete_order env budgets sites ord u S) (\<lambda>(u', ord', S1).
    bind_res (txUser u' S1) (\<lambda>S2.
    bind_res (saveOrder (ce_now env) ord' (o_State ord) S2) (\<lambda>S3.
    Inr (commerceEvent (ce_now env) (u_ID u') (''order:'' @ o_ID ord @ '':'' @ state_name (o_State ord'))
           (o_ID ord @ '' '' @ o_Message ord') S3))))))"

text \<open>An error keeps the store the transaction started from.\<close>

definition or_keep :: "Shop \<Rightarrow> commerce_error + Shop \<Rightarrow> Shop \<times> commerce_error option" where
  "or_keep S r = (case r of Inl e \<Rightarrow> (S, Some e) | Inr S' \<Rightarrow> (S', None))"

definition future_user :: "commerce_env \<Rightarrow> Order \<Rightarrow> Record \<Rightarrow> Record" where
  "future_user env ord u =
    (if o_Action ord = Purchase
     then assignPlan (ce_tz env) (ce_token env ''period'') (ce_token env ''GYV'') (of_Plan (o_Offer ord)) (ce_now env) [] u
     else u\<lparr>u_Expires := max (ce_now env) (u_Expires u) + pl_ValidDays (of_Plan (o_Offer ord)) * 86400\<rparr>)"

definition fulfil_settled ::
  "fulfil_env \<Rightarrow> BusinessSite list \<Rightarrow> Order \<Rightarrow> Record \<Rightarrow> Shop \<Rightarrow> Shop \<times> commerce_error option"
where
  "fulfil_settled env sites ord u S =
    (let ce = fe_commerce env; future = future_user ce ord u in
     case (if o_State ord = Provisioning then ce_sites_ok ce future else Inr ()) of
       Inl _ \<Rightarrow> or_keep S (failProvisioning ce ord ''site policy changed, balance released'' S)
     | Inr _ \<Rightarrow>
        let budgets = (if o_State ord = Provisioning \<and> o_Action ord = Purchase
              then purchaseSiteBudgets (fe_local_nodes env) (fe_nodes_of env) (fe_owner_enabled env) future sites
              else [])
        in or_keep S (fulfil_transaction ce budgets sites ord u S))"

definition fulfilOrder :: "fulfil_env \<Rightarrow> Order \<Rightarrow> Shop \<Rightarrow> Shop \<times> commerce_error option" where
  "fulfilOrder env ord S =
    (case user_record S (o_UserID ord) of None \<Rightarrow> (S, Some (NoRows ''users''))
     | Some u \<Rightarrow>
        let sites = sh_sites S in
        if o_Action ord = Purchase \<or> o_State ord = Refunding then
          if \<not> old_grants_settled (u_ID u) sites then (S, None)
          else (case fe_settle env S of
                  (S1, Some e) \<Rightarrow> (S1, Some e)
                | (S1, None) \<Rightarrow>
                    (case user_record S1 (u_ID u) of None \<Rightarrow> (S1, Some (NoRows ''users''))
                     | Some u1 \<Rightarrow> fulfil_settled env sites ord u1 S1))
        else fulfil_settled env sites ord u S)"

section \<open>The sweep over open orders\<close>

definition persistOrder :: "int \<Rightarrow> Order \<Rightarrow> order_state \<Rightarrow> Shop \<Rightarrow> Shop \<times> commerce_error option" where
  "persistOrder now ord old S = or_keep S (saveOrder now ord old S)"

text \<open>Seconds until the next attempt.\<close>

definition backoff :: "int \<Rightarrow> int" where
  "backoff attempts = min 60 (2 ^ nat (min attempts 6))"

definition problem :: "commerce_error option \<Rightarrow> commerce_error list" where
  "problem e = (case e of None \<Rightarrow> [] | Some x \<Rightarrow> [x])"

definition expire_order :: "int \<Rightarrow> Order \<Rightarrow> Shop \<Rightarrow> Shop \<times> commerce_error list" where
  "expire_order now ord S =
    (let online = o_PaymentAttemptID ord \<noteq> []; attempt = row_with pa_ID (o_PaymentAttemptID ord) (sh_attempts S);
         ord1 = ord\<lparr>o_State := Expired, o_Message := ''order confirmation timed out''\<rparr> in
     if online \<and> attempt = None then (S, [NoRows ''payment_attempts''])
     else if online \<and> map_option pa_State attempt = Some ''paid'' then (S, [])
     else
       let S1 = (if online then set_attempt (o_PaymentAttemptID ord) [''created'', ''awaiting_customer'']
                   (\<lambda>a. a\<lparr>pa_State := ''expired'', pa_Updated := now\<rparr>) S else S);
           (S2, e) = persistOrder now ord1 Pending S1
       in (S2, problem e))"

definition retry_later :: "int \<Rightarrow> Order \<Rightarrow> commerce_error option \<Rightarrow> Shop \<Rightarrow> Shop \<times> commerce_error list" where
  "retry_later now ord e S =
    (case find_order S (o_ID ord) of None \<Rightarrow> (S, [NoRows ''commerce_orders''])
     | Some current \<Rightarrow>
        if o_State current \<noteq> o_State ord then (S, [])
        else
          let c = current\<lparr>o_Attempts := o_Attempts current + 1,
                o_NextAttempt := now + backoff (o_Attempts current + 1),
                o_Message := (if e \<noteq> None then ''not finished, will be retried''
                              else ''waiting for old connections and sites'')\<rparr>;
              (S1, e1) = persistOrder now c (o_State c) S
          in (S1, problem e1))"

definition work_order :: "fulfil_env \<Rightarrow> Order \<Rightarrow> Shop \<Rightarrow> Shop \<times> commerce_error list" where
  "work_order env ord S =
    (let ce = fe_commerce env; now = ce_now ce in
     if o_NextAttempt ord > now then (S, [])
     else if o_State ord = Pending then
       if o_PaymentProviderID ord = ''crypto'' \<or> o_Expires ord > now then (S, []) else expire_order now ord S
     else case (if o_State ord = Provisioning \<and> o_PaymentProviderID ord = ''crypto'' then fe_chain_ok env ord else Inr ()) of
       Inl e \<Rightarrow> (S, [e])
     | Inr _ \<Rightarrow>
        let (S1, e) = (if o_State ord = Provisioning \<and> now - o_Started ord \<ge> 1800
                       then or_keep S (failProvisioning ce ord ''provisioning timed out, balance released'' S)
                       else fulfilOrder env ord S);
            (S2, ps) = retry_later now ord e S1
        in (S2, problem e @ ps))"

definition open_orders :: "Shop \<Rightarrow> Order list" where
  "open_orders S = map or_doc (take 100 (sort_key or_created (filter (\<lambda>r. or_state r \<in> set active_states) (sh_orders S))))"

text \<open>
  \<open>commerceNotifications\<close>: the oldest twenty events become messages.
\<close>

definition deliver_event :: "int \<Rightarrow> EventRow \<Rightarrow> Shop \<Rightarrow> Shop" where
  "deliver_event now v S =
    S\<lparr>sh_messages := sh_messages S @ [\<lparr>msg_title = ''account and service notice'', msg_body = ev_body v,
         msg_created = now, msg_recipients = map u_ID (filter (\<lambda>u. u_ID u = ev_user v) (sh_users S))\<rparr>],
      sh_events := set_where (\<lambda>e. ev_id e = ev_id v \<and> \<not> ev_notified e) (\<lambda>e. e\<lparr>ev_notified := True\<rparr>) (sh_events S)\<rparr>"

definition commerceNotifications :: "int \<Rightarrow> Shop \<Rightarrow> Shop" where
  "commerceNotifications now S =
    fold (deliver_event now) (take 20 (sort_key ev_created (filter (\<lambda>e. \<not> ev_notified e) (sh_events S)))) S"

text \<open>One sweep; \<open>env_of\<close> gives each order its own clock reading and tokens.\<close>

fun work_orders :: "(Order \<Rightarrow> fulfil_env) \<Rightarrow> Order list \<Rightarrow> Shop \<Rightarrow> Shop \<times> commerce_error list" where
  "work_orders env_of [] S = (S, [])"
| "work_orders env_of (ord # ords) S =
    (let (S1, ps) = work_order (env_of ord) ord S; (S2, qs) = work_orders env_of ords S1 in (S2, ps @ qs))"

definition commerceWork :: "(Order \<Rightarrow> fulfil_env) \<Rightarrow> int \<Rightarrow> Shop \<Rightarrow> Shop \<times> commerce_error list" where
  "commerceWork env_of now S =
    (let (S1, ps) = work_orders env_of (open_orders S) S in (commerceNotifications now S1, ps))"

end
