(* ===== verification/Payments.thy ===== *)
theory Payments
  imports Payment_Codec Fulfilment
begin

text \<open>
  Provider payments (\<open>backend/internal/controlplane/payment_receipts.go\<close> and
  \<open>payment_refunds.go\<close>): a verified provider event becomes at most one receipt, the receipt is
  applied to an order or a top-up or marked for refund, and refunds go back through the provider.
  A function that runs its own transaction returns the new store and the error, if any.
\<close>

section \<open>Surroundings\<close>

text \<open>
  \<open>py_scope\<close> is \<open>paymentAccountScope\<close>, \<open>py_hash\<close> the digest of a callback body, \<open>py_provider\<close> and
  \<open>py_attempt_provider\<close> read the sealed provider documents, \<open>py_chain_ok\<close> the invoice and chain of
  a crypto payment, \<open>py_books_ok\<close> whether the startup check passed.
\<close>

record pay_env =
  py_commerce :: commerce_env
  py_scope :: "PaymentProvider \<Rightarrow> string"
  py_hash :: "string \<Rightarrow> string"
  py_provider :: "string \<Rightarrow> PaymentProvider option"
  py_attempt_provider :: "PaymentAttempt \<Rightarrow> PaymentProvider option"
  py_chain_ok :: "PaymentAttempt \<Rightarrow> commerce_error + unit"
  py_books_ok :: bool

definition py_now :: "pay_env \<Rightarrow> int" where
  "py_now env = ce_now (py_commerce env)"

definition raw_order :: "Shop \<Rightarrow> string \<Rightarrow> Order option" where
  "raw_order S oid = map_option or_doc (row_with or_id oid (sh_orders S))"

text \<open>\<open>ORDER BY created DESC, id DESC LIMIT 1\<close>.\<close>

definition newer_attempt :: "PaymentAttempt \<Rightarrow> PaymentAttempt option \<Rightarrow> PaymentAttempt option" where
  "newer_attempt a best = (case best of None \<Rightarrow> Some a
     | Some b \<Rightarrow> if pa_Created b < pa_Created a \<or> pa_Created b = pa_Created a \<and> string_less (pa_ID b) (pa_ID a)
                 then Some a else Some b)"

definition attempt_by_merchant :: "Shop \<Rightarrow> string \<Rightarrow> string \<Rightarrow> PaymentAttempt option" where
  "attempt_by_merchant S provider merchant =
    fold (\<lambda>a best. if pa_ProviderID a = provider \<and> pa_MerchantRef a = merchant then newer_attempt a best else best)
      (sh_attempts S) None"

section \<open>Recording a verified event\<close>

definition event_known :: "PaymentProvider \<Rightarrow> verifiedPaymentEvent \<Rightarrow> string \<Rightarrow> Shop \<Rightarrow> bool" where
  "event_known p event hash S \<longleftrightarrow>
    list_ex (\<lambda>v. pe_ProviderID v = pp_ID p \<and> (pe_ExternalID v = vp_EventID event \<or> pe_PayloadHash v = hash))
      (sh_payment_events S)"

definition new_event :: "PaymentProvider \<Rightarrow> verifiedPaymentEvent \<Rightarrow> string \<Rightarrow> PaymentEvent" where
  "new_event p event hash = \<lparr>pe_ProviderID = pp_ID p, pe_ExternalID = vp_EventID event, pe_PayloadHash = hash,
     pe_State = ''verified'', pe_OrderID = [], pe_AttemptID = [], pe_Processed = 0, pe_Message = []\<rparr>"

definition set_event ::
  "PaymentProvider \<Rightarrow> verifiedPaymentEvent \<Rightarrow> (PaymentEvent \<Rightarrow> bool) \<Rightarrow> (PaymentEvent \<Rightarrow> PaymentEvent) \<Rightarrow> Shop \<Rightarrow> Shop"
where
  "set_event p event cond f S = S\<lparr>sh_payment_events :=
     set_where (\<lambda>v. pe_ProviderID v = pp_ID p \<and> pe_ExternalID v = vp_EventID event \<and> cond v) f (sh_payment_events S)\<rparr>"

definition new_receipt ::
  "pay_env \<Rightarrow> PaymentProvider \<Rightarrow> verifiedPaymentEvent \<Rightarrow> PaymentAttempt option \<Rightarrow> PaymentReceipt"
where
  "new_receipt env p event attempt =
    \<lparr>pr_ID = ce_token (py_commerce env) ''GYR'', pr_AccountScope = py_scope env p, pr_ProviderID = pp_ID p,
     pr_ExternalRef = vp_ExternalRef event,
     pr_AttemptID = (case attempt of None \<Rightarrow> [] | Some a \<Rightarrow> pa_ID a),
     pr_OrderID = (case attempt of None \<Rightarrow> [] | Some a \<Rightarrow> pa_OrderID a),
     pr_UserID = (case attempt of None \<Rightarrow> 0 | Some a \<Rightarrow> pa_UserID a),
     pr_Amount = vp_Amount event,
     pr_Currency = (if vp_Currency event = [] then ''CNY'' else vp_Currency event),
     pr_State = (if attempt = None then ''review_required'' else ''verified''),
     pr_Reason = (if attempt \<noteq> None then [] else if vp_ReviewReason event \<noteq> [] then vp_ReviewReason event
                  else ''no matching payment, review the merchant account''),
     pr_Created = py_now env, pr_Updated = py_now env\<rparr>"

definition open_attempt :: "PaymentAttempt \<Rightarrow> bool" where
  "open_attempt a \<longleftrightarrow> pa_State a = ''created'' \<or> pa_State a = ''awaiting_customer''"

text \<open>Why a payment cannot be applied; the empty string when it can.\<close>

definition attempt_reason :: "pay_env \<Rightarrow> string \<Rightarrow> PaymentReceipt \<Rightarrow> PaymentAttempt \<Rightarrow> string" where
  "attempt_reason env scope receipt a =
    (if pa_ExternalRef a \<noteq> [] then ''payment already has another receipt''
     else if pa_AccountScope a \<noteq> [] \<and> pa_AccountScope a \<noteq> scope then ''merchant account mismatch''
     else if pa_Amount a \<noteq> pr_Amount receipt \<or> pa_Currency a \<noteq> pr_Currency receipt then ''amount or currency mismatch''
     else if \<not> open_attempt a then ''payment already ended''
     else if pa_Expires a \<le> py_now env then ''payment expired''
     else [])"

definition order_reason :: "PaymentAttempt \<Rightarrow> Shop \<Rightarrow> string" where
  "order_reason a S =
    (if pa_OrderID a = [] then []
     else case raw_order S (pa_OrderID a) of
       None \<Rightarrow> ''order does not exist''
     | Some ord \<Rightarrow> if o_PaymentAttemptID ord \<noteq> pa_ID a \<or> o_State ord \<noteq> Pending
                   then ''order chose another payment or ended'' else [])"

definition payment_reason :: "pay_env \<Rightarrow> string \<Rightarrow> PaymentReceipt \<Rightarrow> PaymentAttempt \<Rightarrow> Shop \<Rightarrow> string" where
  "payment_reason env scope receipt a S =
    (if attempt_reason env scope receipt a \<noteq> [] then attempt_reason env scope receipt a else order_reason a S)"

text \<open>A pending order whose payment cannot be applied fails.\<close>

definition fail_pending_order :: "int \<Rightarrow> string \<Rightarrow> string \<Rightarrow> string \<Rightarrow> Shop \<Rightarrow> commerce_error + Shop" where
  "fail_pending_order now oid attempt reason S =
    (if oid = [] then Inr S
     else case raw_order S oid of None \<Rightarrow> Inr S
     | Some ord \<Rightarrow>
        if o_State ord = Pending \<and> o_PaymentAttemptID ord = attempt
        then saveOrder now (ord\<lparr>o_State := Failed, o_Message := reason\<rparr>) Pending S
        else Inr S)"

definition claim_attempt ::
  "pay_env \<Rightarrow> string \<Rightarrow> verifiedPaymentEvent \<Rightarrow> PaymentReceipt \<Rightarrow> PaymentAttempt \<Rightarrow> Shop \<Rightarrow> commerce_error + Shop"
where
  "claim_attempt env scope event receipt a S =
    (let now = py_now env; reason = payment_reason env scope receipt a S;
         state = (if reason = [] then ''paid'' else ''refund_required'');
         message = (if reason = [] then ''payment confirmed'' else reason) in
     bind_res
       (if pa_ExternalRef a \<noteq> [] then Inr S
        else bind_res (if reason \<noteq> [] then fail_pending_order now (pa_OrderID a) (pa_ID a) reason S else Inr S) (\<lambda>S1.
          if list_ex (\<lambda>b. pa_ID b \<noteq> pa_ID a \<and> pa_ProviderID b = pa_ProviderID a \<and>
                pa_ExternalRef b = vp_ExternalRef event) (sh_attempts S1)
          then Inl (Unique ''payment_attempt_external'')
          else Inr (S1\<lparr>sh_attempts := set_where (\<lambda>b. pa_ID b = pa_ID a \<and> pa_ExternalRef b = [])
                 (\<lambda>b. b\<lparr>pa_State := state, pa_ExternalRef := vp_ExternalRef event, pa_Updated := now, pa_Message := message\<rparr>)
                 (sh_attempts S1)\<rparr>)))
       (\<lambda>S2. Inr (S2\<lparr>sh_receipts := set_where (\<lambda>r. pr_ID r = pr_ID receipt)
            (\<lambda>r. r\<lparr>pr_State := (if reason = [] then pr_State receipt else ''refund_required''),
                   pr_Reason := (if reason = [] then pr_Reason receipt else reason)\<rparr>) (sh_receipts S2)\<rparr>)))"

definition same_transaction :: "string \<Rightarrow> string \<Rightarrow> PaymentReceipt \<Rightarrow> bool" where
  "same_transaction scope ref r \<longleftrightarrow> pr_AccountScope r = scope \<and> pr_ExternalRef r = ref"

definition mark_duplicate ::
  "int \<Rightarrow> PaymentProvider \<Rightarrow> verifiedPaymentEvent \<Rightarrow> PaymentReceipt \<Rightarrow> PaymentReceipt \<Rightarrow> Shop \<Rightarrow> Shop"
where
  "mark_duplicate now p event existing receipt S =
    (let message = (if pr_AttemptID existing \<noteq> pr_AttemptID receipt \<or> pr_Amount existing \<noteq> vp_Amount event
            \<or> pr_Currency existing \<noteq> pr_Currency receipt
          then ''transaction belongs to another receipt'' else ''duplicate callback, not credited again'')
     in set_event p event (\<lambda>v. pe_Processed v = 0)
          (\<lambda>v. v\<lparr>pe_State := ''duplicate'', pe_Processed := now, pe_Message := message\<rparr>) S)"

definition mark_recorded :: "int \<Rightarrow> PaymentProvider \<Rightarrow> verifiedPaymentEvent \<Rightarrow> PaymentReceipt \<Rightarrow> Shop \<Rightarrow> Shop" where
  "mark_recorded now p event receipt S = set_event p event (\<lambda>_. True)
     (\<lambda>v. v\<lparr>pe_State := ''recorded'', pe_Processed := now, pe_OrderID := pr_OrderID receipt,
            pe_AttemptID := pr_AttemptID receipt, pe_Message := ''one receipt recorded''\<rparr>) S"

text \<open>The attempt is locked and read again before the receipt claims it.\<close>

definition claim_found ::
  "pay_env \<Rightarrow> string \<Rightarrow> verifiedPaymentEvent \<Rightarrow> PaymentReceipt \<Rightarrow> PaymentAttempt option \<Rightarrow> Shop \<Rightarrow> commerce_error + Shop"
where
  "claim_found env scope event receipt found S =
    (case found of None \<Rightarrow> Inr S
     | Some f \<Rightarrow> (case row_with pa_ID (pa_ID f) (sh_attempts S) of None \<Rightarrow> Inl (NoRows ''payment_attempts'')
         | Some a \<Rightarrow> claim_attempt env scope event receipt a S))"

text \<open>The transaction of \<open>recordPaymentEvent\<close>: the store and whether a new receipt was made.\<close>

definition record_event_tx ::
  "pay_env \<Rightarrow> PaymentProvider \<Rightarrow> verifiedPaymentEvent \<Rightarrow> string \<Rightarrow> Shop \<Rightarrow> commerce_error + (bool \<times> Shop)"
where
  "record_event_tx env p event body S =
    (let now = py_now env; scope = py_scope env p; hash = py_hash env body in
     if vp_ExternalRef event = [] \<or> length (vp_ExternalRef event) > 200 \<or> vp_Amount event \<le> 0 \<or> vp_Amount event > moneyLimit
     then Inl (Broken ''invalid payment receipt'')
     else if event_known p event hash S then Inr (False, S)
     else
       let S1 = S\<lparr>sh_payment_events := sh_payment_events S @ [new_event p event hash]\<rparr>;
           found = attempt_by_merchant S1 (pp_ID p) (vp_MerchantRef event);
           receipt = new_receipt env p event found in
       case find (same_transaction scope (vp_ExternalRef event)) (sh_receipts S1) of
         Some existing \<Rightarrow> Inr (False, mark_duplicate now p event existing receipt S1)
       | None \<Rightarrow>
           if pr_ID receipt \<in> pr_ID ` set (sh_receipts S1) then Inl (Unique ''payment_receipts'')
           else
             bind_res (claim_found env scope event receipt found (S1\<lparr>sh_receipts := sh_receipts S1 @ [receipt]\<rparr>)) (\<lambda>S2.
             Inr (True, mark_recorded now p event receipt S2)))"

section \<open>Applying a receipt\<close>

definition set_receipt :: "string \<Rightarrow> string \<Rightarrow> (PaymentReceipt \<Rightarrow> PaymentReceipt) \<Rightarrow> Shop \<Rightarrow> Shop" where
  "set_receipt rid state f S =
    S\<lparr>sh_receipts := set_where (\<lambda>r. pr_ID r = rid \<and> pr_State r = state) f (sh_receipts S)\<rparr>"

definition apply_receipt :: "int \<Rightarrow> string \<Rightarrow> string \<Rightarrow> Shop \<Rightarrow> Shop" where
  "apply_receipt now rid reason S = set_receipt rid ''verified''
     (\<lambda>r. r\<lparr>pr_State := ''applied'', pr_Reason := reason, pr_Updated := now\<rparr>) S"

definition refund_required_tx :: "pay_env \<Rightarrow> string \<Rightarrow> string \<Rightarrow> Shop \<Rightarrow> commerce_error + Shop" where
  "refund_required_tx env rid reason S =
    (let now = py_now env in
     case row_with pr_ID rid (sh_receipts S) of None \<Rightarrow> Inl (NoRows ''payment_receipts'')
     | Some receipt \<Rightarrow>
       (case row_with pa_ID (pr_AttemptID receipt) (sh_attempts S) of None \<Rightarrow> Inl (NoRows ''payment_attempts'')
        | Some a \<Rightarrow>
          let ord = (if pr_OrderID receipt = [] then None else raw_order S (pr_OrderID receipt)) in
          if (case ord of None \<Rightarrow> False | Some q \<Rightarrow> o_PaymentAttemptID q = pa_ID a \<and>
                (o_State q = Provisioning \<or> o_State q = Completed) \<and> pa_State a \<noteq> ''refund_required'')
          then Inr (apply_receipt now rid ''payment confirmed, provisioning'' S)
          else if pr_State receipt \<noteq> ''verified'' then Inr S
          else
            let S1 = set_receipt rid ''verified''
                  (\<lambda>r. r\<lparr>pr_State := ''refund_required'', pr_Reason := reason, pr_Updated := now\<rparr>) S;
                S2 = S1\<lparr>sh_attempts := set_where (\<lambda>b. pa_ID b = pr_AttemptID receipt \<and>
                        pa_ExternalRef b = pr_ExternalRef receipt \<and> pa_State b = ''paid'')
                      (\<lambda>b. b\<lparr>pa_State := ''refund_required'', pa_Message := reason, pa_Updated := now\<rparr>) (sh_attempts S1)\<rparr>
            in fail_pending_order now (pr_OrderID receipt) (pa_ID a) reason S2))"

definition paymentRefundRequired :: "pay_env \<Rightarrow> string \<Rightarrow> string \<Rightarrow> Shop \<Rightarrow> Shop \<times> commerce_error option" where
  "paymentRefundRequired env rid reason S = or_keep S (refund_required_tx env rid reason S)"

definition credit_topup_tx :: "pay_env \<Rightarrow> PaymentReceipt \<Rightarrow> PaymentAttempt \<Rightarrow> Shop \<Rightarrow> commerce_error + Shop" where
  "credit_topup_tx env receipt a S =
    (let now = py_now env in
     if affected (\<lambda>b. pa_ID b = pa_ID a \<and> pa_State b \<in> {''paid'', ''completed''}) (sh_attempts S) \<noteq> 1 then Inl Conflict
     else if affected (\<lambda>r. pr_ID r = pr_ID receipt \<and> pr_State r = ''verified'') (sh_receipts S) = 0 then Inr S
     else
       bind_res (post_money (py_commerce env) (pa_UserID a) 0 (''payment:'' @ pr_ID receipt) ''online_topup'' (pr_ID receipt)
                   ''online balance topup'' (pr_Amount receipt) 0
                   (apply_receipt now (pr_ID receipt) ''balance credited'' S)) (\<lambda>S1.
       let S2 = S1\<lparr>sh_attempts := set_where (\<lambda>b. pa_ID b = pa_ID a \<and> pa_State b = ''paid'' \<and>
                    pa_ExternalRef b = pr_ExternalRef receipt)
                  (\<lambda>b. b\<lparr>pa_State := ''completed'', pa_Message := ''balance credited'', pa_Updated := now\<rparr>) (sh_attempts S1)\<rparr>
       in Inr (commerceEvent now (pa_UserID a) (''payment:'' @ pr_ID receipt) ''online topup credited'' S2)))"

definition confirmExternalOrder :: "pay_env \<Rightarrow> string \<Rightarrow> Record \<Rightarrow> string \<Rightarrow> Shop \<Rightarrow> commerce_error + Shop" where
  "confirmExternalOrder env oid user attempt S =
    bind_res (orderAction (py_commerce env) (\<lambda>_. False) user
      \<lparr>aq_ID = oid, aq_Action = ''confirm'', aq_OperationID = ce_token (py_commerce env) ''operation'',
       aq_PaymentAttemptID = attempt, aq_Reason = [], aq_RefundRequestID = [], aq_RefundRevision = 0\<rparr> S)
      (\<lambda>(_, S'). Inr S')"

definition final_refusal :: "commerce_error \<Rightarrow> bool" where
  "final_refusal e = (case e of Fail status _ \<Rightarrow> status \<in> {400, 403, 404, 409} | _ \<Rightarrow> False)"

definition finish_applied :: "pay_env \<Rightarrow> string \<Rightarrow> Shop \<Rightarrow> Shop \<times> commerce_error option" where
  "finish_applied env rid S = (apply_receipt (py_now env) rid ''payment confirmed, provisioning'' S, None)"

definition reconcile_pending ::
  "pay_env \<Rightarrow> string \<Rightarrow> Order \<Rightarrow> Record \<Rightarrow> PaymentAttempt \<Rightarrow> Shop \<Rightarrow> Shop \<times> commerce_error option"
where
  "reconcile_pending env rid ord user a S =
    (case confirmExternalOrder env (o_ID ord) user (pa_ID a) S of
       Inr S' \<Rightarrow> finish_applied env rid S'
     | Inl e \<Rightarrow>
        (case find_order S (o_ID ord) of None \<Rightarrow> (S, Some (NoRows ''commerce_orders''))
         | Some current \<Rightarrow>
            if o_PaymentAttemptID current = pa_ID a \<and> (o_State current = Provisioning \<or> o_State current = Completed)
            then finish_applied env rid S
            else if final_refusal e
            then paymentRefundRequired env rid ''payment confirmed, but the order cannot be activated'' S
            else (S, Some e)))"

definition reconcile_order ::
  "pay_env \<Rightarrow> string \<Rightarrow> Record \<Rightarrow> PaymentAttempt \<Rightarrow> Shop \<Rightarrow> Shop \<times> commerce_error option"
where
  "reconcile_order env rid user a S =
    (case find_order S (pa_OrderID a) of
       None \<Rightarrow> paymentRefundRequired env rid ''order does not exist'' S
     | Some ord \<Rightarrow>
        if o_PaymentAttemptID ord \<noteq> pa_ID a then paymentRefundRequired env rid ''order uses another payment'' S
        else case (if pa_ProviderID a = ''crypto'' \<and> o_State ord \<noteq> Completed then py_chain_ok env a else Inr ()) of
          Inl e \<Rightarrow> (S, Some e)
        | Inr _ \<Rightarrow>
            if o_State ord = Pending then reconcile_pending env rid ord user a S
            else if o_State ord = Provisioning \<or> o_State ord = Completed then finish_applied env rid S
            else paymentRefundRequired env rid ''order cancelled, expired or failed'' S)"

definition reconcilePaymentReceipt :: "pay_env \<Rightarrow> string \<Rightarrow> Shop \<Rightarrow> Shop \<times> commerce_error option" where
  "reconcilePaymentReceipt env rid S =
    (case row_with pr_ID rid (sh_receipts S) of None \<Rightarrow> (S, Some (NoRows ''payment_receipts''))
     | Some receipt \<Rightarrow>
       if pr_State receipt \<noteq> ''verified'' then (S, None)
       else case row_with pa_ID (pr_AttemptID receipt) (sh_attempts S) of None \<Rightarrow> (S, Some (NoRows ''payment_attempts''))
       | Some a \<Rightarrow>
         if pa_State a \<in> {''refund_required'', ''cancelled'', ''expired''}
         then paymentRefundRequired env rid ''order was not activated'' S
         else if \<not> py_books_ok env then (S, Some (Broken ''commerce records failed integrity check''))
         else case user_record S (pa_UserID a) of
           None \<Rightarrow> paymentRefundRequired env rid ''user disabled or deleted'' S
         | Some user \<Rightarrow>
           if \<not> u_Enabled user then paymentRefundRequired env rid ''user disabled or deleted'' S
           else if pa_Purpose a = ''topup'' then
             (case credit_topup_tx env receipt a S of
                Inr S' \<Rightarrow> (S', None)
              | Inl e \<Rightarrow> if e = Fail 409 ''insufficient balance or limit exceeded''
                  then paymentRefundRequired env rid ''balance limit exceeded'' S else (S, Some e))
           else reconcile_order env rid user a S)"

definition recordPaymentEvent ::
  "pay_env \<Rightarrow> PaymentProvider \<Rightarrow> verifiedPaymentEvent \<Rightarrow> string \<Rightarrow> Shop \<Rightarrow> Shop \<times> commerce_error option"
where
  "recordPaymentEvent env p event body S =
    (case record_event_tx env p event body S of
       Inl e \<Rightarrow> (S, Some e)
     | Inr (False, S') \<Rightarrow> (S', None)
     | Inr (True, S') \<Rightarrow> (fst (reconcilePaymentReceipt env (ce_token (py_commerce env) ''GYR'') S'), None))"

section \<open>The payment worker\<close>

text \<open>
  \<open>paymentWork\<close> after the recovery of legacy receipts: reconcile the verified receipts, then the two
  sweeps over receipts and attempts.
\<close>

fun reconcile_all :: "(string \<Rightarrow> pay_env) \<Rightarrow> string list \<Rightarrow> Shop \<Rightarrow> Shop \<times> commerce_error list" where
  "reconcile_all env_of [] S = (S, [])"
| "reconcile_all env_of (rid # rids) S =
    (let (S1, e) = reconcilePaymentReceipt (env_of rid) rid S; (S2, es) = reconcile_all env_of rids S1
     in (S2, problem e @ es))"

definition sweep_receipts :: "int \<Rightarrow> Shop \<Rightarrow> Shop" where
  "sweep_receipts now S = S\<lparr>sh_receipts := set_where
     (\<lambda>r. pr_State r \<in> {''verified'', ''applied''} \<and>
          (\<exists>a \<in> set (sh_attempts S). pa_ID a = pr_AttemptID r \<and> pa_State a = ''refund_required''))
     (\<lambda>r. r\<lparr>pr_State := ''refund_required'', pr_Reason := ''awaiting provider refund'', pr_Updated := now\<rparr>) (sh_receipts S)\<rparr>"

definition sweep_attempts :: "int \<Rightarrow> Shop \<Rightarrow> Shop" where
  "sweep_attempts now S = S\<lparr>sh_attempts := set_where
     (\<lambda>a. pa_ProviderID a \<noteq> ''crypto'' \<and> open_attempt a \<and> pa_Expires a \<le> now)
     (\<lambda>a. a\<lparr>pa_State := ''expired'', pa_Message := ''payment expired'', pa_Updated := now\<rparr>) (sh_attempts S)\<rparr>"

definition paymentWork :: "(string \<Rightarrow> pay_env) \<Rightarrow> int \<Rightarrow> Shop \<Rightarrow> Shop \<times> commerce_error list" where
  "paymentWork env_of now S =
    (let ids = map pr_ID (take 100 (sort_key pr_Updated (filter (\<lambda>r. pr_State r = ''verified'') (sh_receipts S))));
         (S1, es) = reconcile_all env_of ids S
     in (sweep_attempts now (sweep_receipts now S1), es))"

section \<open>Refunds through the provider\<close>

text \<open>The refund row closes the attempt and, when this was its primary payment, the order.\<close>

definition refundable_order_states :: "order_state list" where
  "refundable_order_states = [RefundPending, Failed, Cancelled, Expired]"

definition close_refunded_order :: "int \<Rightarrow> PaymentReceipt \<Rightarrow> Shop \<Rightarrow> commerce_error + Shop" where
  "close_refunded_order now receipt S =
    (case raw_order S (pr_OrderID receipt) of None \<Rightarrow> Inr S
     | Some ord \<Rightarrow>
        if o_PaymentAttemptID ord = pr_AttemptID receipt \<and> o_State ord \<in> set refundable_order_states
        then saveOrder now (ord\<lparr>o_State := Refunded, o_Message := ''refunded through the provider''\<rparr>) (o_State ord) S
        else Inr S)"

definition finishPaymentRefund :: "int \<Rightarrow> PaymentReceipt \<Rightarrow> string \<Rightarrow> Shop \<Rightarrow> commerce_error + Shop" where
  "finishPaymentRefund now receipt ref S =
    (let S1 = set_receipt (pr_ID receipt) ''refund_pending''
            (\<lambda>r. r\<lparr>pr_State := ''refunded'', pr_Reason := ''provider refund confirmed'', pr_Updated := now\<rparr>) S;
         hit = (\<lambda>a. pa_ID a = pr_AttemptID receipt \<and> pa_ExternalRef a = pr_ExternalRef receipt \<and>
                    pa_State a = ''refund_required'');
         primary = affected hit (sh_attempts S1);
         S2 = S1\<lparr>sh_attempts := set_where hit (\<lambda>a. a\<lparr>pa_State := ''refunded'', pa_Message := ''provider refund confirmed'',
                 pa_Updated := now\<rparr>) (sh_attempts S1)\<rparr> in
     bind_res (if pr_OrderID receipt \<noteq> [] \<and> primary = 1 then close_refunded_order now receipt S2 else Inr S2) (\<lambda>S3.
     Inr (if pr_UserID receipt > 0
          then commerceEvent now (pr_UserID receipt) (''refund:'' @ pr_ID receipt) (''refunded by the provider; reference '' @ ref) S3
          else S3)))"

text \<open>The amount to refund: what the review fixed, else what is left of the order now.\<close>

definition refund_amount :: "int \<Rightarrow> PaymentReceipt \<Rightarrow> Shop \<Rightarrow> int" where
  "refund_amount now receipt S =
    (if pr_OrderID receipt = [] then pr_Amount receipt
     else case find_order S (pr_OrderID receipt) of None \<Rightarrow> pr_Amount receipt
     | Some ord \<Rightarrow>
        if o_RefundAmountSet ord then o_RefundAmount ord
        else case user_record S (o_UserID ord) of None \<Rightarrow> pr_Amount receipt
        | Some u \<Rightarrow> refundableOrderAmount ord u now)"

text \<open>\<open>INSERT INTO payment_refunds\<close> with its constraints: one refund per receipt, a positive amount.\<close>

definition insert_refund :: "PaymentRefund \<Rightarrow> Shop \<Rightarrow> commerce_error + Shop" where
  "insert_refund f S =
    (if pf_Amount f \<le> 0 then Inl (Broken ''CHECK amount>0'')
     else if list_ex (\<lambda>g. pf_ID g = pf_ID f \<or> pf_ReceiptID g = pf_ReceiptID f \<or>
            pf_ExternalRef f \<noteq> [] \<and> pf_AccountScope g = pf_AccountScope f \<and> pf_ExternalRef g = pf_ExternalRef f) (sh_refunds S)
     then Inl (Unique ''payment_refunds'')
     else Inr (S\<lparr>sh_refunds := sh_refunds S @ [f]\<rparr>))"

definition valid_text :: "string \<Rightarrow> nat \<Rightarrow> bool" where
  "valid_text s limit \<longleftrightarrow> trim_space s \<noteq> [] \<and> rune_count s \<le> limit"

definition receipt_provider :: "pay_env \<Rightarrow> PaymentReceipt \<Rightarrow> Shop \<Rightarrow> commerce_error + PaymentProvider" where
  "receipt_provider env receipt S =
    (case py_provider env (pr_ProviderID receipt) of None \<Rightarrow> Inl (NoRows ''payment_providers'')
     | Some p \<Rightarrow>
        if pr_AttemptID receipt = [] then Inr p
        else case row_with pa_ID (pr_AttemptID receipt) (sh_attempts S) of None \<Rightarrow> Inl (NoRows ''payment_attempts'')
        | Some a \<Rightarrow> (case py_attempt_provider env a of None \<Rightarrow> Inl (NoRows ''payment_providers'') | Some q \<Rightarrow> Inr q))"

definition refund_allowed :: "refund_request \<Rightarrow> PaymentReceipt \<Rightarrow> PaymentProvider \<Rightarrow> commerce_error + unit" where
  "refund_allowed req receipt p =
    (let code = pp_Code p in
     bind_res (require (fq_Action req = ''request'' \<or> fq_Action req = ''confirm_manual'') (Fail 400 ''unknown refund action'')) (\<lambda>_.
     bind_res (require (code \<in> {''stripe'', ''epay'', ''webhook''}) (Fail 409 ''not a fiat channel'')) (\<lambda>_.
     bind_res (require (\<not> (fq_Action req = ''request'' \<and> code \<noteq> ''stripe'')) (Fail 409 ''refund in the merchant account first'')) (\<lambda>_.
     require (\<not> (fq_Action req = ''confirm_manual'' \<and>
         (code = ''stripe'' \<and> pr_State receipt \<noteq> ''review_required'' \<or> \<not> valid_text (fq_ExternalRef req) 200)))
       (Fail 400 ''refund reference required'')))))"

definition new_refund ::
  "pay_env \<Rightarrow> Record \<Rightarrow> refund_request \<Rightarrow> PaymentReceipt \<Rightarrow> PaymentProvider \<Rightarrow> int \<Rightarrow> PaymentRefund"
where
  "new_refund env actor req receipt p amount =
    (let manual = fq_Action req = ''confirm_manual'' in
     \<lparr>pf_ID = ce_token (py_commerce env) ''GYRF'', pf_ReceiptID = pr_ID receipt, pf_AccountScope = pr_AccountScope receipt,
      pf_ProviderID = pp_ID p, pf_State = (if manual then ''succeeded'' else ''queued''), pf_Amount = amount,
      pf_Currency = pr_Currency receipt, pf_ExternalRef = fq_ExternalRef req, pf_ActorID = u_ID actor,
      pf_Reason = fq_Reason req, pf_Attempts = 0, pf_NextAttempt = 0,
      pf_Message = (if manual then ''refund confirmed by an administrator'' else ''queued for provider refund''),
      pf_Created = py_now env, pf_Updated = py_now env\<rparr>)"

definition paymentRefundAction ::
  "pay_env \<Rightarrow> (Record \<Rightarrow> bool) \<Rightarrow> Record \<Rightarrow> refund_request \<Rightarrow> Shop \<Rightarrow> commerce_error + (commerce_reply \<times> Shop)"
where
  "paymentRefundAction env password_ok actor req0 S =
    (let ce = py_commerce env; now = py_now env;
         req = req0\<lparr>fq_Reason := trim_space (fq_Reason req0), fq_ExternalRef := trim_space (fq_ExternalRef req0)\<rparr> in
     bind_res (commerceActor password_ok actor True S) (\<lambda>_.
     bind_res (require (valid_text (fq_Reason req) 300) (Fail 400 ''refund reason required'')) (\<lambda>_.
     bind_res (commerceReplay ce (u_ID actor) (fq_OperationID req) (PaymentRefundRequest req) S) (\<lambda>replay.
     case replay of Some reply \<Rightarrow> Inr (reply, S)
     | None \<Rightarrow>
       (case row_with pr_ID (fq_ReceiptID req) (sh_receipts S) of None \<Rightarrow> Inl (Fail 404 ''no such receipt'')
        | Some receipt \<Rightarrow>
          bind_res (require (pr_State receipt = ''refund_required'' \<or>
              pr_State receipt = ''review_required'' \<and> fq_Action req = ''confirm_manual'') (Fail 409 ''receipt cannot be refunded'')) (\<lambda>_.
          bind_res (receipt_provider env receipt S) (\<lambda>p.
          bind_res (refund_allowed req receipt p) (\<lambda>_.
          let refund = new_refund env actor req receipt p (refund_amount now receipt S);
              hit = (\<lambda>r. pr_ID r = pr_ID receipt \<and> pr_State r = pr_State receipt) in
          bind_res (require (affected hit (sh_receipts S) = 1) (Fail 409 ''refund state changed'')) (\<lambda>_.
          bind_res (insert_refund refund (S\<lparr>sh_receipts := set_where hit
                      (\<lambda>r. r\<lparr>pr_State := ''refund_pending'', pr_Updated := now\<rparr>) (sh_receipts S)\<rparr>)) (\<lambda>S1.
          bind_res (if fq_Action req = ''confirm_manual'' then finishPaymentRefund now receipt (pf_ExternalRef refund) S1
                    else Inr S1) (\<lambda>S2.
          bind_res (saveCommerceRequest ce (u_ID actor) (fq_OperationID req) (PaymentRefundRequest req)
                      (PaymentRefundReply refund) S2) (\<lambda>S3.
          Inr (PaymentRefundReply refund, S3)))))))))))))"

text \<open>What Stripe reports of a refund.\<close>

record stripeRefund =
  sr_ID :: string
  sr_PaymentIntent :: string
  sr_Amount :: int
  sr_Currency :: string
  sr_Status :: string

definition refund_outcome :: "string \<Rightarrow> string \<times> string" where
  "refund_outcome status =
    (if status = ''succeeded'' then (''succeeded'', ''provider confirmed the refund'')
     else if status = ''failed'' \<or> status = ''canceled'' then (''failed'', ''provider refund failed'')
     else (''pending'', ''provider is processing the refund''))"

definition recordStripeRefund ::
  "pay_env \<Rightarrow> PaymentProvider \<Rightarrow> verifiedPaymentEvent \<Rightarrow> Shop \<Rightarrow> commerce_error + Shop"
where
  "recordStripeRefund env p event S =
    (let now = py_now env in
     if vp_RefundID event = [] \<or> vp_ExternalRef event = [] then Inl (Broken ''invalid refund identity'')
     else case find (same_transaction (py_scope env p) (vp_ExternalRef event)) (sh_receipts S) of None \<Rightarrow> Inr S
     | Some receipt \<Rightarrow>
       (case row_with pf_ReceiptID (pr_ID receipt) (sh_refunds S) of None \<Rightarrow> Inr S
        | Some f \<Rightarrow>
          if pf_State f = ''succeeded'' then Inr S
          else
            let expected = (if pf_Amount f = 0 then pr_Amount receipt else pf_Amount f);
                (next, message) = refund_outcome (vp_RefundStatus event);
                hit = (\<lambda>g. pf_ID g = pf_ID f \<and> pf_State g \<in> {''queued'', ''processing'', ''pending''} \<and>
                   (pf_ExternalRef g = [] \<or> pf_ExternalRef g = vp_RefundID event)) in
            if pf_ExternalRef f \<noteq> [] \<and> pf_ExternalRef f \<noteq> vp_RefundID event \<or> vp_Amount event \<noteq> expected \<or>
               vp_Currency event \<noteq> pr_Currency receipt
            then Inl (Broken ''refund receipt mismatch'')
            else if affected hit (sh_refunds S) = 0 then Inr S
            else
              let S1 = S\<lparr>sh_refunds := set_where hit (\<lambda>g. g\<lparr>pf_State := next, pf_ExternalRef := vp_RefundID event,
                    pf_Message := message, pf_Updated := now, pf_NextAttempt := now + 60\<rparr>) (sh_refunds S)\<rparr> in
              if next = ''succeeded'' then finishPaymentRefund now receipt (vp_RefundID event) S1
              else if next = ''failed''
              then Inr (S1\<lparr>sh_receipts := set_where (\<lambda>r. pr_ID r = pr_ID receipt)
                     (\<lambda>r. r\<lparr>pr_Reason := message, pr_Updated := now\<rparr>) (sh_receipts S1)\<rparr>)
              else Inr S1))"

text \<open>
  One refund of \<open>paymentRefundWork\<close>. \<open>get\<close> and \<open>post\<close> are the two Stripe calls; \<open>post\<close> receives the
  payment intent, the amount and the idempotency key.
\<close>

definition set_refund :: "string \<Rightarrow> string list \<Rightarrow> (PaymentRefund \<Rightarrow> PaymentRefund) \<Rightarrow> Shop \<Rightarrow> Shop" where
  "set_refund fid states f S =
    S\<lparr>sh_refunds := set_where (\<lambda>g. pf_ID g = fid \<and> pf_State g \<in> set states) f (sh_refunds S)\<rparr>"

definition refund_claimable :: "int \<Rightarrow> PaymentRefund \<Rightarrow> bool" where
  "refund_claimable now g \<longleftrightarrow> pf_State g \<in> {''queued'', ''processing'', ''pending''} \<and> pf_NextAttempt g \<le> now"

definition work_refund ::
  "pay_env \<Rightarrow> (string \<Rightarrow> commerce_error + stripeRefund) \<Rightarrow> (string \<Rightarrow> int \<Rightarrow> string \<Rightarrow> commerce_error + stripeRefund) \<Rightarrow>
     PaymentRefund \<Rightarrow> Shop \<Rightarrow> Shop \<times> commerce_error option"
where
  "work_refund env get post refund S =
    (let now = py_now env; hit = (\<lambda>g. pf_ID g = pf_ID refund \<and> refund_claimable now g) in
     if affected hit (sh_refunds S) = 0 then (S, None)
     else
       let S1 = S\<lparr>sh_refunds := set_where hit (\<lambda>g. g\<lparr>pf_State := ''processing'', pf_NextAttempt := now + 60,
              pf_Attempts := pf_Attempts g + 1, pf_Updated := now\<rparr>) (sh_refunds S)\<rparr> in
       case row_with pr_ID (pf_ReceiptID refund) (sh_receipts S1) of None \<Rightarrow> (S1, Some (NoRows ''payment_receipts''))
       | Some receipt \<Rightarrow>
         (case row_with pa_ID (pr_AttemptID receipt) (sh_attempts S1) of None \<Rightarrow> (S1, Some (NoRows ''payment_attempts''))
          | Some a \<Rightarrow>
            (case py_attempt_provider env a of None \<Rightarrow> (S1, Some (NoRows ''payment_providers''))
             | Some p \<Rightarrow>
               if pp_Code p \<noteq> ''stripe''
               then (set_refund (pf_ID refund) [''processing'']
                       (\<lambda>g. g\<lparr>pf_State := ''failed'', pf_Message := ''not a Stripe payment'', pf_Updated := now\<rparr>) S1, None)
               else
                 (case (if pf_ExternalRef refund \<noteq> [] then get (pf_ExternalRef refund)
                        else post (pr_ExternalRef receipt) (pr_Amount receipt) (''gy-refund-'' @ pf_ID refund)) of
                    Inl e \<Rightarrow> (set_refund (pf_ID refund) [''processing'']
                       (\<lambda>g. g\<lparr>pf_State := ''pending'', pf_Message := ''provider error'', pf_Updated := now\<rparr>) S1, Some e)
                  | Inr remote \<Rightarrow>
                      or_keep S1 (recordStripeRefund env p
                        \<lparr>vp_EventID = [], vp_MerchantRef = [], vp_ExternalRef = sr_PaymentIntent remote,
                         vp_Amount = sr_Amount remote, vp_Currency = map upper_char (sr_Currency remote), vp_Status = [],
                         vp_RefundID = sr_ID remote, vp_RefundStatus = sr_Status remote, vp_ReviewReason = []\<rparr> S1)))))"

definition due_refunds :: "int \<Rightarrow> Shop \<Rightarrow> PaymentRefund list" where
  "due_refunds now S = take 20 (sort_key pf_Created (filter (refund_claimable now) (sh_refunds S)))"

fun paymentRefundWork ::
  "(PaymentRefund \<Rightarrow> pay_env) \<Rightarrow> (string \<Rightarrow> commerce_error + stripeRefund) \<Rightarrow>
     (string \<Rightarrow> int \<Rightarrow> string \<Rightarrow> commerce_error + stripeRefund) \<Rightarrow> PaymentRefund list \<Rightarrow> Shop \<Rightarrow> Shop \<times> commerce_error list"
where
  "paymentRefundWork env_of get post [] S = (S, [])"
| "paymentRefundWork env_of get post (f # fs) S =
    (let (S1, e) = work_refund (env_of f) get post f S; (S2, es) = paymentRefundWork env_of get post fs S1
     in (S2, problem e @ es))"

end
