(* ===== verification/Shop_Safety.thy ===== *)
theory Shop_Safety
  imports Fulfilment
begin

text \<open>
  What every shop operation keeps: the ledger reconciles, the balance held for a user is the price
  of the order the wallet pays and the worker still has to carry out, and rows agree with their
  documents. \<open>validateCommerce\<close> (\<open>commerce_integrity.go\<close>), the check that runs at startup and
  before a backup is restored, is modelled here and compared with the invariant.
\<close>

section \<open>The invariant\<close>

definition order_hold :: "Order \<Rightarrow> int" where
  "order_hold ord = (if o_State ord = Provisioning \<and> o_PaymentAttemptID ord = [] then of_Price (o_Offer ord) else 0)"

definition row_hold :: "OrderRow \<Rightarrow> int" where
  "row_hold r = (if or_state r = Provisioning \<and> o_PaymentAttemptID (or_doc r) = []
     then of_Price (o_Offer (or_doc r)) else 0)"

definition hold_sum :: "OrderRow list \<Rightarrow> int \<Rightarrow> int" where
  "hold_sum rows user = sum_where (\<lambda>r. or_user r = user) row_hold rows"

definition price_ok :: "int \<Rightarrow> bool" where
  "price_ok p \<longleftrightarrow> 0 \<le> p \<and> p \<le> moneyLimit"

definition row_ok :: "int list \<Rightarrow> OrderRow \<Rightarrow> bool" where
  "row_ok users r \<longleftrightarrow> or_id r = o_ID (or_doc r) \<and> or_user r = o_UserID (or_doc r) \<and>
     or_state r = o_State (or_doc r) \<and> or_state r \<noteq> RefundRequested \<and>
     price_ok (of_Price (o_Offer (or_doc r))) \<and> or_user r \<in> set users"

definition user_ids :: "Shop \<Rightarrow> int list" where
  "user_ids S = map u_ID (sh_users S)"

definition one_active :: "OrderRow list \<Rightarrow> bool" where
  "one_active rows \<longleftrightarrow> (\<forall>r \<in> set rows. \<forall>s \<in> set rows. or_user r = or_user s \<and>
     or_state r \<in> set active_states \<and> or_state s \<in> set active_states \<longrightarrow> or_id r = or_id s)"

definition shop_ok :: "Shop \<Rightarrow> bool" where
  "shop_ok S \<longleftrightarrow> ledger_ok (user_ids S) (sh_ledger S) \<and> distinct (user_ids S) \<and>
     distinct (map or_id (sh_orders S)) \<and> (\<forall>r \<in> set (sh_orders S). row_ok (user_ids S) r) \<and>
     (\<forall>f \<in> set (sh_offers S). price_ok (of_Price f)) \<and>
     (\<forall>user. held_of (sh_ledger S) user = hold_sum (sh_orders S) user) \<and> one_active (sh_orders S)"

text \<open>The parts of the store the invariant reads.\<close>

definition same_core :: "Shop \<Rightarrow> Shop \<Rightarrow> bool" where
  "same_core S T \<longleftrightarrow> sh_ledger T = sh_ledger S \<and> user_ids T = user_ids S \<and>
     sh_orders T = sh_orders S \<and> sh_offers T = sh_offers S"

lemma same_core_refl [simp, intro]: "same_core S S"
  by (simp add: same_core_def)

lemma same_core_trans: "same_core S T \<Longrightarrow> same_core T U \<Longrightarrow> same_core S U"
  by (simp add: same_core_def)

lemma shop_ok_core: "same_core S T \<Longrightarrow> shop_ok T \<longleftrightarrow> shop_ok S"
  by (simp add: same_core_def shop_ok_def)

named_theorems core_intros

lemma core_receipts [core_intros]: "same_core S (paymentMarkReceiptRefund now a r S)"
  and core_attempt [core_intros]: "same_core S (set_attempt a st f S)"
  and core_event [core_intros]: "same_core S (commerceEvent now u e b S)"
  and core_owners [core_intros]: "same_core S (notifyCommerceOwnersTitle t b now S)"
  by (simp_all add: same_core_def user_ids_def paymentMarkReceiptRefund_def set_attempt_def commerceEvent_def
      notifyCommerceOwnersTitle_def)

lemma core_payments [core_intros]:
  "same_core S (cancel_payment now ord S)" "same_core S (require_provider_refund now ord S)"
  "same_core S (fail_payment now ord reason S)" "same_core S (notice_step env req ord user S)"
  unfolding cancel_payment_def require_provider_refund_def fail_payment_def notice_step_def notifyCommerceOwners_def
  by (auto intro: same_core_trans core_attempt core_receipts core_owners core_event)

lemma core_requests [core_intros]:
  "insert_refund_request env actor req ord S = Inr T \<Longrightarrow> same_core S T"
  "decide_refund_request env actor req q S = Inr T \<Longrightarrow> same_core S T"
  "saveCommerceRequest env a op rq reply S = Inr T \<Longrightarrow> same_core S T"
  by (auto simp: insert_refund_request_def decide_refund_request_def saveCommerceRequest_def Let_def
      same_core_def user_ids_def split: if_splits)

lemma core_request_step [core_intros]: "request_step env actor req request ord S = Inr T \<Longrightarrow> same_core S T"
  by (auto simp: request_step_def core_requests split: if_splits option.splits)

lemma map_key_with_user: "u_ID (with_user (User.truncate u) r) = u_ID u"
  by (simp add: with_user_def User.truncate_def User.extend_def)

lemma core_txUser [core_intros]: "txUser u S = Inr T \<Longrightarrow> same_core S T"
  by (auto simp: txUser_def same_core_def user_ids_def map_key_with_user split: if_splits
      intro!: map_set_where_key)

section \<open>Postings and saved orders\<close>

text \<open>A posting of a handler is a movement of the wallet interface.\<close>

lemma post_money_movement:
  assumes "post_money env user actor event kind reference reason da dh S = Inr T"
  shows "\<exists>m. post_movement m (sh_ledger S) = Inr (sh_ledger T) \<and> mv_user m = user \<and> mv_available m = da \<and>
    mv_held m = dh \<and> mv_event m = event \<and> T = S\<lparr>sh_ledger := sh_ledger T\<rparr>"
proof -
  let ?m = "\<lparr>mv_now = ce_now env, mv_tx = ce_token env ''GYB'', mv_user = user, mv_actor = actor, mv_event = event,
    mv_kind = kind, mv_reference = reference, mv_reason = reason, mv_available = da, mv_held = dh\<rparr>"
  from assms have "post_movement ?m (sh_ledger S) = Inr (sh_ledger T)" "T = S\<lparr>sh_ledger := sh_ledger T\<rparr>"
    by (auto simp: post_money_def post_movement_def res_simps)
  then show ?thesis by (intro exI [of _ ?m]) simp
qed

definition paid_core :: "int \<Rightarrow> int \<Rightarrow> Shop \<Rightarrow> Shop \<Rightarrow> bool" where
  "paid_core user dh S T \<longleftrightarrow>
    (ledger_ok (user_ids S) (sh_ledger S) \<longrightarrow> ledger_ok (user_ids S) (sh_ledger T)) \<and>
    (\<forall>v. held_of (sh_ledger T) v = held_of (sh_ledger S) v + (if v = user then dh else 0)) \<and>
    user_ids T = user_ids S \<and> sh_orders T = sh_orders S \<and> sh_offers T = sh_offers S"

lemma paid_core_same: "same_core S T \<Longrightarrow> paid_core user 0 S T"
  by (simp add: paid_core_def same_core_def)

lemma paid_core_trans: "same_core S T \<Longrightarrow> paid_core user dh T U \<Longrightarrow> paid_core user dh S U"
  "paid_core user dh S T \<Longrightarrow> same_core T U \<Longrightarrow> paid_core user dh S U"
  by (simp_all add: paid_core_def same_core_def)

lemma paid_core_add: "paid_core user a S T \<Longrightarrow> paid_core user b T U \<Longrightarrow> paid_core user (a + b) S U"
  by (simp add: paid_core_def)

lemma post_money_core:
  assumes "post_money env user actor event kind reference reason da dh S = Inr T"
    and "user \<in> set (user_ids S)" "(da, dh) \<noteq> (0, 0)"
  shows "paid_core user dh S T"
proof -
  from post_money_movement [OF assms(1)] obtain m where m:
    "post_movement m (sh_ledger S) = Inr (sh_ledger T)" "mv_user m = user" "mv_available m = da" "mv_held m = dh"
    "T = S\<lparr>sh_ledger := sh_ledger T\<rparr>" by blast
  have "user_ids T = user_ids S" "sh_orders T = sh_orders S" "sh_offers T = sh_offers S"
    by (subst m(5), simp add: user_ids_def)+
  with m(1-4) assms(2,3) wallets.post_inv [of "user_ids S" "sh_ledger S" m "sh_ledger T"]
    wallets.post_held [OF m(1)] show ?thesis by (auto simp: paid_core_def)
qed

text \<open>Saving an order changes the held sum of its user by the difference of its hold.\<close>

lemma saveOrder_Inr:
  assumes "saveOrder now ord previous S = Inr T"
  shows "\<exists>r. r \<in> set (sh_orders S) \<and> or_id r = o_ID ord \<and> or_state r = previous"
    and "T = S\<lparr>sh_orders := set_where (\<lambda>r. or_id r = o_ID ord \<and> or_state r = previous)
       (\<lambda>r. r\<lparr>or_state := o_State ord, or_updated := now, or_doc := ord\<lparr>o_Updated := now\<rparr>\<rparr>) (sh_orders S)\<rparr>"
    and "o_State ord \<in> set active_states \<Longrightarrow>
      \<not> list_ex (\<lambda>r. or_user r = o_UserID ord \<and> or_id r \<noteq> o_ID ord \<and> or_state r \<in> set active_states) (sh_orders S)"
proof -
  from assms have "affected (\<lambda>r. or_id r = o_ID ord \<and> or_state r = previous) (sh_orders S) = 1"
    by (auto simp: saveOrder_def Let_def split: if_splits)
  then have "filter (\<lambda>r. or_id r = o_ID ord \<and> or_state r = previous) (sh_orders S) \<noteq> []"
    by (auto simp: affected_def)
  then show "\<exists>r. r \<in> set (sh_orders S) \<and> or_id r = o_ID ord \<and> or_state r = previous"
    by (auto simp: filter_empty_conv)
qed (use assms in \<open>auto simp: saveOrder_def Let_def split: if_splits\<close>)

definition saved_row :: "int \<Rightarrow> Order \<Rightarrow> OrderRow \<Rightarrow> OrderRow" where
  "saved_row now ord r = r\<lparr>or_state := o_State ord, or_updated := now, or_doc := ord\<lparr>o_Updated := now\<rparr>\<rparr>"

lemma saved_row_simps [simp]:
  "or_id (saved_row now ord r) = or_id r" "or_user (saved_row now ord r) = or_user r"
  "or_state (saved_row now ord r) = o_State ord" "or_doc (saved_row now ord r) = ord\<lparr>o_Updated := now\<rparr>"
  "row_hold (saved_row now ord r) = order_hold ord"
  by (simp_all add: saved_row_def row_hold_def order_hold_def)

text \<open>What the order of a handler has in common with the row it came from.\<close>

definition same_order :: "Order \<Rightarrow> Order \<Rightarrow> bool" where
  "same_order o1 o2 \<longleftrightarrow> o_ID o1 = o_ID o2 \<and> o_UserID o1 = o_UserID o2 \<and> o_Offer o1 = o_Offer o2 \<and>
     o_PaymentAttemptID o1 = o_PaymentAttemptID o2"

lemma same_order_refl [simp]: "same_order ord ord"
  by (simp add: same_order_def)

lemma saveOrder_row:
  assumes save: "saveOrder now ord previous S = Inr T" and dist: "distinct (map or_id (sh_orders S))"
  obtains r where "r \<in> set (sh_orders S)" "or_id r = o_ID ord" "or_state r = previous"
    "T = S\<lparr>sh_orders := set_where (\<lambda>r. or_id r = o_ID ord) (saved_row now ord) (sh_orders S)\<rparr>"
proof -
  from saveOrder_Inr(1) [OF save] obtain r where r: "r \<in> set (sh_orders S)" "or_id r = o_ID ord" "or_state r = previous"
    by blast
  have uniq: "s = r" if "s \<in> set (sh_orders S)" "or_id s = o_ID ord" for s
    using dist r that by (metis distinct_map inj_onD)
  have "set_where (\<lambda>r. or_id r = o_ID ord \<and> or_state r = previous) (saved_row now ord) (sh_orders S) =
      set_where (\<lambda>r. or_id r = o_ID ord) (saved_row now ord) (sh_orders S)"
    using r unfolding set_where_def by (intro map_cong) (auto dest: uniq)
  moreover have "T = S\<lparr>sh_orders := set_where (\<lambda>r. or_id r = o_ID ord \<and> or_state r = previous) (saved_row now ord) (sh_orders S)\<rparr>"
    using saveOrder_Inr(2) [OF save] unfolding saved_row_def .
  ultimately show thesis using that [OF r] by simp
qed

lemma set_saved:
  assumes "distinct (map or_id rows)" "r \<in> set rows"
  shows "s \<in> set (set_where (\<lambda>q. or_id q = or_id r) (saved_row now ord) rows) \<longleftrightarrow>
    s = saved_row now ord r \<or> s \<in> set rows \<and> or_id s \<noteq> or_id r"
proof -
  have "q = r" if "q \<in> set rows" "or_id q = or_id r" for q
    using assms that by (metis distinct_map inj_onD)
  with assms(2) show ?thesis by (auto simp: set_set_where image_iff)
qed

lemma shop_ok_saved:
  assumes save: "saveOrder now ord previous S = Inr T"
    and ids: "distinct (user_ids S)" "distinct (map or_id (sh_orders S))"
    and rows: "\<forall>r \<in> set (sh_orders S). row_ok (user_ids S) r"
    and offers: "\<forall>f \<in> set (sh_offers S). price_ok (of_Price f)"
    and one: "one_active (sh_orders S)" and ledger: "ledger_ok (user_ids S) (sh_ledger S)"
    and r: "r \<in> set (sh_orders S)" "same_order ord (or_doc r)" and st: "o_State ord \<noteq> RefundRequested"
    and held: "\<forall>u. held_of (sh_ledger S) u = hold_sum (sh_orders S) u +
       (if u = o_UserID ord then order_hold ord - row_hold r else 0)"
  shows "shop_ok T"
proof -
  from rows r(1) have ok: "row_ok (user_ids S) r" by blast
  with r(2) have idr: "or_id r = o_ID ord" "or_user r = o_UserID ord" and doc: "of_Price (o_Offer (or_doc r)) = of_Price (o_Offer ord)"
    by (auto simp: same_order_def row_ok_def)
  obtain T_eq: "T = S\<lparr>sh_orders := set_where (\<lambda>q. or_id q = or_id r) (saved_row now ord) (sh_orders S)\<rparr>"
    using saveOrder_row [OF save ids(2)] idr(1) by metis
  define rows' where "rows' = set_where (\<lambda>q. or_id q = or_id r) (saved_row now ord) (sh_orders S)"
  have core: "sh_ledger T = sh_ledger S" "user_ids T = user_ids S" "sh_offers T = sh_offers S" "sh_orders T = rows'"
    by (simp_all add: T_eq user_ids_def rows'_def)
  note mem = set_saved [OF ids(2) r(1), of _ now ord, folded rows'_def]
  have "distinct (map or_id rows')"
    using ids(2) by (simp add: rows'_def map_set_where_key)
  moreover have "\<forall>s \<in> set rows'. row_ok (user_ids S) s"
    using rows ok doc st idr by (auto simp: mem row_ok_def)
  moreover have "hold_sum rows' u = hold_sum (sh_orders S) u +
       (if u = o_UserID ord then order_hold ord - row_hold r else 0)" for u
    unfolding hold_sum_def rows'_def
    by (subst sum_where_set_where [where key = or_id and r = r and k = "or_id r"])
       (use ids(2) r(1) idr(2) in auto)
  moreover have "one_active rows'"
  proof -
    have alone: "or_id s = or_id r" if "o_State ord \<in> set active_states" "s \<in> set (sh_orders S)"
        "or_user s = or_user r" "or_state s \<in> set active_states" for s
      using saveOrder_Inr(3) [OF save that(1)] that idr by (auto simp: list_ex_iff)
    show ?thesis
      unfolding one_active_def
    proof (intro ballI impI)
      fix a b assume "a \<in> set rows'" "b \<in> set rows'"
        and ab: "or_user a = or_user b \<and> or_state a \<in> set active_states \<and> or_state b \<in> set active_states"
      then consider "a = saved_row now ord r" "b = saved_row now ord r"
        | "a = saved_row now ord r" "b \<in> set (sh_orders S)"
        | "a \<in> set (sh_orders S)" "b = saved_row now ord r"
        | "a \<in> set (sh_orders S)" "b \<in> set (sh_orders S)"
        unfolding mem by blast
      then show "or_id a = or_id b"
      proof cases
        case 2 then show ?thesis using ab alone [of b] by simp
      next
        case 3 then show ?thesis using ab alone [of a] by simp
      next
        case 4 then show ?thesis using ab one unfolding one_active_def by blast
      qed simp
    qed
  qed
  ultimately show ?thesis using ids(1) offers ledger held by (simp add: shop_ok_def core)
qed

text \<open>The common end of every handler: money moved, the order saved.\<close>

lemma shop_ok_step:
  assumes ok: "shop_ok S" and paid: "paid_core (o_UserID ord) dh S S1" and save: "saveOrder now ord previous S1 = Inr T"
    and r: "r \<in> set (sh_orders S)" "same_order ord (or_doc r)" and st: "o_State ord \<noteq> RefundRequested"
    and dh: "dh = order_hold ord - row_hold r"
  shows "shop_ok T"
  by (rule shop_ok_saved [OF save, where r = r])
     (use ok paid r st dh in \<open>auto simp: shop_ok_def paid_core_def\<close>)

section \<open>Placing an order keeps the invariant\<close>

lemma shop_ok_insert:
  assumes ok: "shop_ok S" and ins: "insert_order ord S = Inr T"
    and u: "o_UserID ord \<in> set (user_ids S)" and st: "o_State ord = Pending" and p: "price_ok (of_Price (o_Offer ord))"
  shows "shop_ok T"
proof -
  define row where "row = \<lparr>or_id = o_ID ord, or_user = o_UserID ord, or_state = o_State ord, or_created = o_Created ord,
     or_updated = o_Updated ord, or_expires = o_Expires ord, or_doc = ord\<rparr>"
  have row: "or_id row = o_ID ord" "or_user row = o_UserID ord" "or_state row = Pending" "or_doc row = ord" "row_hold row = 0"
    by (simp_all add: row_def st row_hold_def)
  from ins have T: "T = S\<lparr>sh_orders := sh_orders S @ [row]\<rparr>"
    and new: "o_ID ord \<notin> or_id ` set (sh_orders S)"
    and alone: "\<forall>r \<in> set (sh_orders S). or_user r = o_UserID ord \<longrightarrow> or_state r \<notin> set active_states"
    by (auto simp: insert_order_def row_def list_ex_iff split: if_splits)
  have core: "sh_ledger T = sh_ledger S" "user_ids T = user_ids S" "sh_offers T = sh_offers S"
    "sh_orders T = sh_orders S @ [row]"
    by (simp_all add: T user_ids_def)
  have "row_ok (user_ids S) row" using u st p by (simp add: row_ok_def row)
  moreover have "one_active (sh_orders S @ [row])"
    using ok alone row unfolding shop_ok_def one_active_def set_append list.set by (metis UnE empty_iff insertE)
  moreover have "hold_sum (sh_orders S @ [row]) v = hold_sum (sh_orders S) v" for v
    by (simp add: hold_sum_def row)
  ultimately show ?thesis using ok new by (auto simp: shop_ok_def core row)
qed

lemma createOrder_Inr:
  assumes "createOrder env actor req S = Inr (reply, T)"
  shows "(T = S \<and> commerceReplay env (u_ID actor) (cq_OperationID req) (CreateRequest req) S = Inr (Some reply)) \<or>
    (\<exists>off kind S1. find_offer S (cq_OfferID req) = Some off \<and> of_Enabled off \<and> of_Version off = cq_OfferVersion req \<and>
       \<not> limit_reached (u_ID actor) off [] S \<and> \<not> commercePending (u_ID actor) S \<and> \<not> pending_reset actor \<and>
       commerceReplay env (u_ID actor) (cq_OperationID req) (CreateRequest req) S = Inr None \<and>
       insert_order (new_order env actor off kind) S = Inr S1 \<and> reply = OrderReply (new_order env actor off kind) \<and>
       saveCommerceRequest env (u_ID actor) (cq_OperationID req) (CreateRequest req) reply S1 = Inr T)"
proof -
  obtain rep where rep: "commerceReplay env (u_ID actor) (cq_OperationID req) (CreateRequest req) S = Inr rep"
    using assms by (auto simp: createOrder_def res_simps)
  show ?thesis
  proof (cases rep)
    case (Some y)
    then show ?thesis using assms rep by (auto simp: createOrder_def res_simps)
  next
    case None
    then show ?thesis using assms rep unfolding createOrder_def Let_def
      by (auto simp: res_simps split: option.splits)
  qed
qed

lemma new_order_simps [simp]:
  "o_UserID (new_order env actor off kind) = u_ID actor" "o_State (new_order env actor off kind) = Pending"
  "o_Offer (new_order env actor off kind) = off" "o_PaymentAttemptID (new_order env actor off kind) = []"
  "o_ID (new_order env actor off kind) = ce_token env ''GYO''"
  by (simp_all add: new_order_def)

theorem createOrder_keeps:
  assumes ok: "shop_ok S" and u: "u_ID actor \<in> set (user_ids S)"
    and create: "createOrder env actor req S = Inr (reply, T)"
  shows "shop_ok T"
  using createOrder_Inr [OF create]
proof (elim disjE exE conjE)
  fix off kind S1
  assume off: "find_offer S (cq_OfferID req) = Some off" and ins: "insert_order (new_order env actor off kind) S = Inr S1"
    and save: "saveCommerceRequest env (u_ID actor) (cq_OperationID req) (CreateRequest req) reply S1 = Inr T"
  from off ok have "price_ok (of_Price off)"
    by (auto simp: find_offer_def shop_ok_def dest!: row_with_Some)
  with shop_ok_insert [OF ok ins] u have "shop_ok S1" by simp
  with core_requests(3) [OF save] show ?thesis by (simp add: shop_ok_core)
qed (use ok in simp)

section \<open>Acting on an order keeps the invariant\<close>

definition draft_ok :: "Order \<Rightarrow> Record \<Rightarrow> draft \<Rightarrow> bool" where
  "draft_ok ord u d \<longleftrightarrow> same_order (dr_order d) ord \<and> u_ID (dr_user d) = u_ID u \<and>
     o_State (dr_order d) \<noteq> RefundRequested \<and>
     (if dr_kind d = [] then order_hold (dr_order d) = order_hold ord
      else dr_queued d = None \<and> dr_held d = order_hold (dr_order d) - order_hold ord \<and>
           (of_Price (o_Offer ord) > 0 \<longrightarrow> dr_held d \<noteq> 0)) \<and>
     (dr_queued d \<noteq> None \<longrightarrow> of_Price (o_Offer ord) > 0 \<longrightarrow> o_RefundAmount (dr_order d) \<noteq> 0)"

lemma plain_draft_simps [simp]:
  "dr_order (plain_draft ord u) = ord" "dr_user (plain_draft ord u) = u" "dr_available (plain_draft ord u) = 0"
  "dr_held (plain_draft ord u) = 0" "dr_kind (plain_draft ord u) = []" "dr_queued (plain_draft ord u) = None"
  "dr_queuedRenewal (plain_draft ord u) = False"
  by (simp_all add: plain_draft_def)

lemma set_pending_reset_ID [simp]: "u_ID (set_pending_reset b u) = u_ID u"
  by (simp add: set_pending_reset_def)

lemma approve_request_simps [simp]:
  "o_ID (approve_request q ord) = o_ID ord" "o_UserID (approve_request q ord) = o_UserID ord"
  "o_Offer (approve_request q ord) = o_Offer ord" "o_State (approve_request q ord) = o_State ord"
  "o_PaymentAttemptID (approve_request q ord) = o_PaymentAttemptID ord"
  "o_RefundAmount (approve_request q ord) = o_RefundAmount ord" "o_Message (approve_request q ord) = o_Message ord"
  "o_Action (approve_request q ord) = o_Action ord" "o_BeforeExpiry (approve_request q ord) = o_BeforeExpiry ord"
  by (simp_all add: approve_request_def)

lemma confirm_draft_Inr:
  "confirm_draft env actor req S ord u = Inr d \<Longrightarrow> d = confirmed (ce_now env) ord u \<and> o_State ord = Pending \<and>
     u_ID actor = o_UserID ord"
  unfolding confirm_draft_def Let_def by (clarsimp simp: res_simps split: option.splits)

lemma confirmed_ok: "o_State ord = Pending \<Longrightarrow> draft_ok ord u (confirmed now ord u)"
  by (simp add: confirmed_def Let_def draft_ok_def same_order_def order_hold_def)

lemma confirm_draft_ok: "confirm_draft env actor req S ord u = Inr d \<Longrightarrow> draft_ok ord u d"
  using confirm_draft_Inr confirmed_ok by blast

lemma cancel_draft_ok: "cancel_draft ord u = Inr d \<Longrightarrow> draft_ok ord u d"
  unfolding cancel_draft_def cancelled_draft_def Let_def
  by (auto simp: draft_ok_def same_order_def order_hold_def split: if_splits)

lemma request_drafts_ok:
  "request_refund_draft env actor req request ord u = Inr d \<Longrightarrow> draft_ok ord u d"
  "cancel_refund_draft actor req request ord u = Inr d \<Longrightarrow> draft_ok ord u d"
  "reject_refund_draft actor req request ord u = Inr d \<Longrightarrow> draft_ok ord u d"
  unfolding request_refund_draft_def cancel_refund_draft_def reject_refund_draft_def Let_def
  by (auto simp: draft_ok_def same_order_def order_hold_def split: if_splits)

lemma refundable_queued:
  "orderEntitlementPosition u (o_ID ord) \<noteq> ActivePlan \<Longrightarrow>
     refundableOrderAmount ord u now = max 0 (of_Price (o_Offer ord))"
  by (simp add: refundableOrderAmount_def Let_def)

lemma refund_queued_ok:
  "o_State ord = Completed \<or> o_State ord = RefundRequested \<Longrightarrow> same_order o1 ord \<Longrightarrow>
    (of_Price (o_Offer ord) > 0 \<longrightarrow> o_RefundAmount o1 \<noteq> 0) \<Longrightarrow> draft_ok ord u (refund_queued request i o1 u)"
  by (auto simp: refund_queued_def Let_def draft_ok_def same_order_def order_hold_def)

lemma refund_active_ok:
  "o_State ord = Completed \<or> o_State ord = RefundRequested \<Longrightarrow> same_order o1 ord \<Longrightarrow>
    draft_ok ord u (refund_active now request o1 u)"
  by (auto simp: refund_active_def Let_def draft_ok_def same_order_def order_hold_def)

lemma refund_draft_Inr:
  assumes "refund_draft env request S ord u = Inr d"
  defines "o1 \<equiv> ord\<lparr>o_RefundAmount := refundableOrderAmount ord u (ce_now env), o_RefundAmountSet := True\<rparr>"
  shows "o_State ord = Completed \<or> o_State ord = RefundRequested"
    and "(\<exists>i. orderEntitlementPosition u (o_ID ord) = QueuedPlan i \<and> d = refund_queued request i o1 u) \<or>
      orderEntitlementPosition u (o_ID ord) = ActivePlan \<and> d = refund_active (ce_now env) request o1 u"
  using assms(1) unfolding refund_draft_def Let_def o1_def by (auto split: if_splits position.splits)

lemma refund_draft_ok:
  assumes "refund_draft env request S ord u = Inr d"
  shows "draft_ok ord u d"
  using refund_draft_Inr [OF assms]
  by (auto intro!: refund_queued_ok refund_active_ok simp: same_order_def refundable_queued)

lemmas draft_oks = confirm_draft_ok cancel_draft_ok request_drafts_ok refund_draft_ok

lemma action_draft_ok: "action_draft env actor req request S ord u = Inr d \<Longrightarrow> draft_ok ord u d"
  unfolding action_draft_def by (auto split: if_splits dest: draft_oks)

text \<open>The steps of the transaction, one balance change at most.\<close>

lemma drop_queued_ID: "drop_queued d = Inr u \<Longrightarrow> u_ID u = u_ID (dr_user d)"
  by (auto simp: drop_queued_def clear_renewal_def removeQueuedEntitlement_def split: option.splits if_splits)

lemma pay_queued_core:
  assumes "pay_queued_refund env actor d S = Inr T" "draft_ok ord u d" "u_ID u \<in> set (user_ids S)"
  shows "paid_core (u_ID u) 0 S T"
proof -
  from assms(2) have d: "u_ID (dr_user d) = u_ID u" "o_Offer (dr_order d) = o_Offer ord"
    by (simp_all add: draft_ok_def same_order_def)
  consider "T = S" | "T = require_provider_refund (ce_now env) (dr_order d) S"
    | "dr_queued d \<noteq> None" "of_Price (o_Offer ord) > 0"
      "post_money env (u_ID u) (u_ID actor) (''refund:'' @ o_ID (dr_order d)) ''refund'' (o_ID (dr_order d))
            (o_Message (dr_order d)) (o_RefundAmount (dr_order d)) 0 S = Inr T"
    using assms(1) d by (auto simp: pay_queued_refund_def Let_def split: if_splits)
  then show ?thesis
  proof cases
    case 3
    with assms(2) have "o_RefundAmount (dr_order d) \<noteq> 0" by (auto simp: draft_ok_def)
    with post_money_core [OF 3(3) assms(3)] show ?thesis by simp
  qed (auto intro!: paid_core_same core_payments)
qed

lemma money_step_core:
  assumes "money_step env actor d S = Inr T" "draft_ok ord u d" "u_ID u \<in> set (user_ids S)"
    and price: "price_ok (of_Price (o_Offer ord))"
  shows "paid_core (u_ID u) (order_hold (dr_order d) - order_hold ord) S T"
proof (cases "dr_kind d \<noteq> [] \<and> of_Price (o_Offer ord) > 0")
  case True
  with assms(2) have d: "u_ID (dr_user d) = u_ID u" "o_Offer (dr_order d) = o_Offer ord"
      "dr_held d = order_hold (dr_order d) - order_hold ord" "dr_held d \<noteq> 0"
    by (simp_all add: draft_ok_def same_order_def)
  with assms(1) True have "post_money env (u_ID u) (u_ID actor) (dr_kind d @ '':'' @ o_ID (dr_order d)) (dr_kind d)
      (o_ID (dr_order d)) (o_Message (dr_order d)) (dr_available d) (dr_held d) S = Inr T"
    by (simp add: money_step_def Let_def)
  from post_money_core [OF this assms(3)] d show ?thesis by simp
next
  case False
  with assms(1,2) have "T = S" by (auto simp: money_step_def Let_def draft_ok_def same_order_def)
  moreover have "order_hold (dr_order d) - order_hold ord = 0"
  proof (cases "dr_kind d = []")
    case True with assms(2) show ?thesis by (simp add: draft_ok_def)
  next
    case kind: False
    with False price have "of_Price (o_Offer ord) = 0" by (simp add: price_ok_def)
    with assms(2) kind show ?thesis
      by (auto simp: draft_ok_def same_order_def order_hold_def)
  qed
  ultimately show ?thesis by (simp add: paid_core_same)
qed

text \<open>A stored order, as the handlers read it.\<close>

lemma find_order_row:
  assumes ok: "shop_ok S" and find: "find_order S oid = Some ord"
  obtains r where "r \<in> set (sh_orders S)" "or_id r = oid" "or_doc r = ord" "row_ok (user_ids S) r"
    "o_ID ord = oid" "or_state r = o_State ord" "o_UserID ord \<in> set (user_ids S)" "price_ok (of_Price (o_Offer ord))"
proof -
  from find obtain r where r: "row_with or_id oid (sh_orders S) = Some r" "ord = normalize_state (or_doc r)"
    by (auto simp: find_order_def)
  from row_with_Some [OF r(1)] have "r \<in> set (sh_orders S)" "or_id r = oid" by simp_all
  moreover from this ok have row: "row_ok (user_ids S) r" by (simp add: shop_ok_def)
  moreover from row have "o_State (or_doc r) \<noteq> RefundRequested" by (auto simp: row_ok_def)
  with r(2) have "or_doc r = ord" by (simp add: normalize_state_def)
  ultimately have *: "r \<in> set (sh_orders S)" "or_id r = oid" "or_doc r = ord" "row_ok (user_ids S) r" by blast+
  then have "o_ID ord = oid" "or_state r = o_State ord" "o_UserID ord \<in> set (user_ids S)"
    "price_ok (of_Price (o_Offer ord))" by (auto simp: row_ok_def)
  with * show thesis using that by blast
qed

lemma same_order_simps:
  "same_order o1 o2 \<Longrightarrow> o_ID o1 = o_ID o2" "same_order o1 o2 \<Longrightarrow> o_UserID o1 = o_UserID o2"
  "same_order o1 o2 \<Longrightarrow> o_Offer o1 = o_Offer o2" "same_order o1 o2 \<Longrightarrow> o_PaymentAttemptID o1 = o_PaymentAttemptID o2"
  by (simp_all add: same_order_def)

lemma draft_ok_message:
  "draft_ok ord u d \<Longrightarrow> draft_ok ord u (d\<lparr>dr_order := (dr_order d)\<lparr>o_Message := m\<rparr>\<rparr>)"
proof -
  have "order_hold ((dr_order d)\<lparr>o_Message := m\<rparr>) = order_hold (dr_order d)" by (simp add: order_hold_def)
  then show "draft_ok ord u d \<Longrightarrow> draft_ok ord u (d\<lparr>dr_order := (dr_order d)\<lparr>o_Message := m\<rparr>\<rparr>)"
    by (auto simp: draft_ok_def same_order_def)
qed

text \<open>The draft as the transaction writes it: cancelling a paid order changes the message only.\<close>

definition committed :: "action_request \<Rightarrow> order_state \<Rightarrow> draft \<Rightarrow> draft" where
  "committed req old d =
    (if aq_Action req = ''cancel'' \<and> o_PaymentAttemptID (dr_order d) \<noteq> [] \<and> old = Provisioning
     then d\<lparr>dr_order := (dr_order d)\<lparr>o_Message := ''order cancelled; refund the online payment manually''\<rparr>\<rparr>
     else d)"

lemma committed_ok: "draft_ok ord u d \<Longrightarrow> draft_ok ord u (committed req old d)"
  by (simp add: committed_def draft_ok_message)

lemma commit_draft_Inr:
  assumes "commit_draft env actor req request old d S = Inr (ord', T)"
  obtains S1 u' S2 S3 S4 S5 S6 where
    "ord' = dr_order (committed req old d)" "same_core S S1" "drop_queued (committed req old d) = Inr u'"
    "pay_queued_refund env actor (committed req old d) S1 = Inr S2"
    "request_step env actor req request ord' S2 = Inr S3"
    "money_step env actor (committed req old d) S3 = Inr S4"
    "saveOrder (ce_now env) ord' old S4 = Inr S5" "txUser u' S5 = Inr S6"
    "saveCommerceRequest env (u_ID actor) (aq_OperationID req) (ActionRequest req) (OrderReply ord')
       (notice_step env req ord' (u_ID u') S6) = Inr T"
    "lock_order (dr_order d) old S = Inr ()"
proof -
  define S1 where "S1 = (if aq_Action req = ''cancel'' \<and> o_PaymentAttemptID (dr_order d) \<noteq> []
     then cancel_payment (ce_now env) (dr_order d) S else S)"
  have core: "same_core S S1" by (simp add: S1_def core_payments)
  from assms that [OF _ core] show thesis
    unfolding commit_draft_def Let_def S1_def [symmetric] committed_def
    by (simp only: res_simps) (elim exE conjE, simp)
qed

lemma commit_draft_keeps:
  assumes ok: "shop_ok S" and r: "r \<in> set (sh_orders S)" "same_order ord (or_doc r)" "row_hold r = order_hold ord"
    and d: "draft_ok ord u d" and u: "u_ID u = o_UserID ord"
    and commit: "commit_draft env actor req request old d S = Inr (ord', T)"
  shows "shop_ok T"
proof -
  let ?d = "committed req old d"
  obtain S1 u' S2 S3 S4 S5 S6 where
    ord': "ord' = dr_order ?d" and c1: "same_core S S1"
    and pay: "pay_queued_refund env actor ?d S1 = Inr S2"
    and req: "request_step env actor req request ord' S2 = Inr S3"
    and money: "money_step env actor ?d S3 = Inr S4"
    and save: "saveOrder (ce_now env) ord' old S4 = Inr S5" and tx: "txUser u' S5 = Inr S6"
    and rep: "saveCommerceRequest env (u_ID actor) (aq_OperationID req) (ActionRequest req) (OrderReply ord')
       (notice_step env req ord' (u_ID u') S6) = Inr T"
    by (rule commit_draft_Inr [OF commit]) blast
  note dok = committed_ok [OF d, of req old]
  have same: "same_order ord' ord" using dok by (simp add: ord' draft_ok_def)
  from ok r(1) have row: "row_ok (user_ids S) r" by (simp add: shop_ok_def)
  with r(2) have user: "u_ID u \<in> set (user_ids S)" and price: "price_ok (of_Price (o_Offer ord))"
    by (auto simp: row_ok_def same_order_def u)
  have ids1: "user_ids S1 = user_ids S" using c1 by (simp add: same_core_def)
  have p2: "paid_core (u_ID u) 0 S S2"
    using pay_queued_core [OF pay dok] user c1 ids1 by (auto intro: paid_core_trans(1))
  have c3: "same_core S2 S3" by (rule core_request_step [OF req])
  have ids3: "user_ids S3 = user_ids S" using p2 c3 by (simp add: paid_core_def same_core_def)
  have "paid_core (u_ID u) (order_hold ord' - order_hold ord) S3 S4"
    using money_step_core [OF money dok _ price] user ids3 by (simp add: ord')
  with p2 c3 have "paid_core (u_ID u) (order_hold ord' - order_hold ord) S S4"
    using paid_core_add [of "u_ID u" 0 S S3 "order_hold ord' - order_hold ord" S4] paid_core_trans(2) by simp
  then have paid: "paid_core (o_UserID ord') (order_hold ord' - row_hold r) S S4"
    using same r(3) u by (simp add: same_order_simps(2))
  have "shop_ok S5"
  proof (rule shop_ok_step [OF ok paid save r(1)])
    show "same_order ord' (or_doc r)" using same r(2) by (simp add: same_order_def)
    show "o_State ord' \<noteq> RefundRequested" using dok by (simp add: ord' draft_ok_def)
  qed simp
  moreover have "same_core S5 T"
    using core_txUser [OF tx] core_payments(4) core_requests(3) [OF rep] by (blast intro: same_core_trans)
  ultimately show ?thesis by (simp add: shop_ok_core)
qed

lemma enrichOrder_simps:
  assumes "o_State ord \<noteq> RefundRequested"
  shows "same_order (enrichOrder S ord) ord" "o_State (enrichOrder S ord) = o_State ord"
    "order_hold (enrichOrder S ord) = order_hold ord"
  using assms by (auto simp: enrichOrder_def Let_def normalize_state_def same_order_def order_hold_def split: option.splits)

lemma orderAction_Inr:
  assumes "orderAction env pw actor req0 S = Inr (reply, T)"
  defines "req \<equiv> req0\<lparr>aq_Reason := trim_space (aq_Reason req0)\<rparr>"
  shows "(T = S \<and> commerceReplay env (u_ID actor) (aq_OperationID req) (ActionRequest req) S = Inr (Some reply)) \<or>
    (\<exists>ord0 u d ord'. commerceReplay env (u_ID actor) (aq_OperationID req) (ActionRequest req) S = Inr None \<and>
       find_order S (aq_ID req) = Some ord0 \<and>
       (u_Role actor \<noteq> ''owner'' \<longrightarrow> u_ID actor = o_UserID (enrichOrder S ord0)) \<and>
       user_record S (o_UserID (enrichOrder S ord0)) = Some u \<and>
       action_draft env actor req (refundRequest S (o_ID (enrichOrder S ord0))) S (enrichOrder S ord0) u = Inr d \<and>
       commit_draft env actor req (refundRequest S (o_ID (enrichOrder S ord0))) (o_State (enrichOrder S ord0)) d S
         = Inr (ord', T) \<and> reply = OrderReply ord')"
proof -
  obtain rep where rep: "commerceReplay env (u_ID actor) (aq_OperationID req) (ActionRequest req) S = Inr rep"
    using assms(1) unfolding orderAction_def Let_def req_def by (auto simp: res_simps)
  show ?thesis
  proof (cases rep)
    case (Some y)
    then show ?thesis using assms(1) rep unfolding orderAction_def Let_def req_def [symmetric] by (auto simp: res_simps)
  next
    case None
    then show ?thesis using assms(1) rep unfolding orderAction_def Let_def req_def [symmetric]
      by (clarsimp simp: res_simps split: option.splits)
  qed
qed

theorem orderAction_keeps:
  assumes ok: "shop_ok S" and act: "orderAction env pw actor req0 S = Inr (reply, T)"
  shows "shop_ok T"
  using orderAction_Inr [OF act]
proof (elim disjE exE conjE)
  fix ord0 u d ord'
  let ?req = "req0\<lparr>aq_Reason := trim_space (aq_Reason req0)\<rparr>" and ?ord = "enrichOrder S ord0"
  assume find: "find_order S (aq_ID ?req) = Some ord0" and u: "user_record S (o_UserID ?ord) = Some u"
    and draft: "action_draft env actor ?req (refundRequest S (o_ID ?ord)) S ?ord u = Inr d"
    and commit: "commit_draft env actor ?req (refundRequest S (o_ID ?ord)) (o_State ?ord) d S = Inr (ord', T)"
  obtain r where r: "r \<in> set (sh_orders S)" "or_doc r = ord0" "or_state r = o_State ord0" "row_ok (user_ids S) r"
    by (rule find_order_row [OF ok find]) blast
  then have st: "o_State ord0 \<noteq> RefundRequested" by (simp add: row_ok_def)
  note e = enrichOrder_simps [OF st, of S]
  have "row_hold r = order_hold ?ord"
    using r e(3) by (simp add: row_hold_def order_hold_def)
  moreover have "u_ID u = o_UserID ?ord" using u by (auto simp: user_record_def dest!: row_with_Some)
  ultimately show ?thesis
    using commit_draft_keeps [OF ok r(1) _ _ action_draft_ok [OF draft] _ commit] e(1) r(2) by simp
qed (use ok in simp)

section \<open>The worker keeps the invariant\<close>

text \<open>An order as the sweep loaded it is still the stored document.\<close>

definition loaded :: "Shop \<Rightarrow> Order \<Rightarrow> bool" where
  "loaded S ord \<longleftrightarrow> (\<exists>r \<in> set (sh_orders S). or_doc r = ord)"

lemma loaded_row:
  assumes "shop_ok S" "loaded S ord"
  obtains r where "r \<in> set (sh_orders S)" "or_doc r = ord" "row_ok (user_ids S) r" "or_id r = o_ID ord"
    "row_hold r = order_hold ord" "o_UserID ord \<in> set (user_ids S)" "price_ok (of_Price (o_Offer ord))"
    "o_State ord \<noteq> RefundRequested"
proof -
  from assms obtain r where r: "r \<in> set (sh_orders S)" "or_doc r = ord" "row_ok (user_ids S) r"
    by (auto simp: loaded_def shop_ok_def)
  then have "or_id r = o_ID ord" "row_hold r = order_hold ord" "o_UserID ord \<in> set (user_ids S)"
    "price_ok (of_Price (o_Offer ord))" "o_State ord \<noteq> RefundRequested"
    by (auto simp: row_ok_def row_hold_def order_hold_def)
  with r that show thesis by blast
qed

lemma user_record_ID: "user_record S i = Some u \<Longrightarrow> u_ID u = i \<and> i \<in> set (user_ids S)"
  by (auto simp: user_record_def user_ids_def dest!: row_with_Some)

text \<open>The three endings change the held balance by what the order held.\<close>

lemma release_hold_core:
  assumes "release_hold env user ord msg S = Inr T" "user \<in> set (user_ids S)" "price_ok (of_Price (o_Offer ord))"
  shows "paid_core user (- of_Price (o_Offer ord)) S T"
proof (cases "of_Price (o_Offer ord) > 0")
  case True
  with assms(1) have "post_money env user 0 (''release:'' @ o_ID ord) ''release'' (o_ID ord) msg
      (of_Price (o_Offer ord)) (- of_Price (o_Offer ord)) S = Inr T" by (simp add: release_hold_def)
  from post_money_core [OF this assms(2)] True show ?thesis by simp
next
  case False
  with assms(1,3) have "T = S" "of_Price (o_Offer ord) = 0" by (auto simp: release_hold_def price_ok_def)
  then show ?thesis by (simp add: paid_core_same)
qed

lemma fail_payment_or_release:
  assumes "(if o_PaymentAttemptID ord \<noteq> [] then Inr (fail_payment now ord reason S)
      else release_hold env user ord msg S) = Inr T"
    and "user \<in> set (user_ids S)" "price_ok (of_Price (o_Offer ord))" "o_State ord = Provisioning"
  shows "paid_core user (- order_hold ord) S T"
proof (cases "o_PaymentAttemptID ord = []")
  case True
  with assms release_hold_core [OF _ assms(2,3)] show ?thesis by (simp add: order_hold_def)
next
  case False
  with assms show ?thesis by (auto simp: order_hold_def intro: paid_core_same core_payments)
qed

lemma failProvisioning_Inr:
  assumes fail: "failProvisioning env ord msg S = Inr T"
  obtains u ord1 S1 S2 S3 where "u_ID u = o_UserID ord" "same_order ord1 ord" "o_State ord1 = Failed"
    "(if o_PaymentAttemptID ord \<noteq> []
      then Inr (fail_payment (ce_now env) ord ''provisioning failed, refund through the provider'' S)
      else release_hold env (u_ID u) ord msg S) = Inr S1"
    "txUser u S1 = Inr S2" "saveOrder (ce_now env) ord1 Provisioning S2 = Inr S3"
    "T = commerceEvent (ce_now env) (u_ID u) (''order:'' @ o_ID ord @ '':failed'') (o_ID ord @ '' '' @ msg) S3"
proof -
  from fail obtain u0 where u0: "user_record S (o_UserID ord) = Some u0"
    by (auto simp: failProvisioning_def split: option.splits)
  define u where "u = (if o_Action ord = Purchase then set_pending_reset False u0 else u0)"
  define ord1 where "ord1 = ord\<lparr>o_State := Failed,
     o_Message := (if o_PaymentAttemptID ord \<noteq> [] then msg @ ''; refund the online payment manually'' else msg)\<rparr>"
  have "u_ID u = o_UserID ord" "same_order ord1 ord" "o_State ord1 = Failed"
    using user_record_ID [OF u0] by (simp_all add: u_def ord1_def same_order_def)
  moreover have "bind_res (if o_PaymentAttemptID ord \<noteq> []
      then Inr (fail_payment (ce_now env) ord ''provisioning failed, refund through the provider'' S)
      else release_hold env (u_ID u) ord msg S) (\<lambda>S1. bind_res (txUser u S1) (\<lambda>S2.
      bind_res (saveOrder (ce_now env) ord1 Provisioning S2) (\<lambda>S3.
      Inr (commerceEvent (ce_now env) (u_ID u) (''order:'' @ o_ID ord @ '':failed'') (o_ID ord @ '' '' @ msg) S3)))) = Inr T"
    using fail u0 unfolding failProvisioning_def u_def ord1_def Let_def by (simp only: option.case)
  ultimately show thesis
    using that [of u ord1] unfolding bind_res_eq_Inr sum.inject by blast
qed

lemma failProvisioning_keeps:
  assumes ok: "shop_ok S" and ld: "loaded S ord" and st: "o_State ord = Provisioning"
    and fail: "failProvisioning env ord msg S = Inr T"
  shows "shop_ok T"
proof -
  obtain r where r: "r \<in> set (sh_orders S)" "or_doc r = ord" "row_hold r = order_hold ord"
    "o_UserID ord \<in> set (user_ids S)" "price_ok (of_Price (o_Offer ord))"
    by (rule loaded_row [OF ok ld]) blast
  from failProvisioning_Inr [OF fail] obtain u ord1 S1 S2 S3 where u: "u_ID u = o_UserID ord"
    and o1: "same_order ord1 ord" "o_State ord1 = Failed"
    and m: "(if o_PaymentAttemptID ord \<noteq> []
      then Inr (fail_payment (ce_now env) ord ''provisioning failed, refund through the provider'' S)
      else release_hold env (u_ID u) ord msg S) = Inr S1"
    and tx: "txUser u S1 = Inr S2" and save: "saveOrder (ce_now env) ord1 Provisioning S2 = Inr S3"
    and T: "T = commerceEvent (ce_now env) (u_ID u) (''order:'' @ o_ID ord @ '':failed'') (o_ID ord @ '' '' @ msg) S3"
    by metis
  have "paid_core (o_UserID ord) (- order_hold ord) S S1"
    using fail_payment_or_release [OF m _ r(5) st] r(4) u by simp
  then have "paid_core (o_UserID ord1) (- order_hold ord) S S2"
    using core_txUser [OF tx] paid_core_trans(2) o1 by (simp add: same_order_simps(2))
  from shop_ok_step [OF ok this save r(1)] r(2,3) o1 have "shop_ok S3"
    by (simp add: order_hold_def)
  then show ?thesis using T core_event shop_ok_core by blast
qed

definition ending_ok :: "Order \<Rightarrow> Record \<Rightarrow> Shop \<Rightarrow> Record \<times> Order \<times> Shop \<Rightarrow> bool" where
  "ending_ok ord u S = (\<lambda>(u', ord', T). u_ID u' = u_ID u \<and> same_order ord' ord \<and> order_hold ord' = 0 \<and>
     o_State ord' \<noteq> RefundRequested \<and> paid_core (u_ID u) (- order_hold ord) S T)"

lemma fail_disabled_ok:
  assumes "fail_disabled env ord u S = Inr x" "u_ID u \<in> set (user_ids S)" "price_ok (of_Price (o_Offer ord))"
    and "o_State ord = Provisioning"
  shows "ending_ok ord u S x"
proof -
  let ?msg = "''account disabled, balance released''"
  let ?ord = "ord\<lparr>o_State := Failed, o_Message := (if o_PaymentAttemptID ord \<noteq> []
     then ?msg @ ''; refund the online payment manually'' else ?msg)\<rparr>"
  from assms(1) obtain S1 where x: "x = (set_pending_reset False u, ?ord, S1)"
    and m: "(if o_PaymentAttemptID ord \<noteq> []
       then Inr (fail_payment (ce_now env) ord ''account disabled, refund through the provider'' S)
       else release_hold env (u_ID (set_pending_reset False u)) ord ?msg S) = Inr S1"
    unfolding fail_disabled_def Let_def bind_res_eq_Inr by blast
  from fail_payment_or_release [OF m _ assms(3,4)] assms(2) show ?thesis
    by (simp add: x ending_ok_def same_order_def order_hold_def)
qed

lemma finish_refund_ok:
  assumes "finish_refund env ord u S = Inr x" "u_ID u \<in> set (user_ids S)" "o_State ord = Refunding"
  shows "ending_ok ord u S x"
proof -
  obtain u' ord1 T where x: "x = (u', ord1, T)" by (cases x) auto
  from assms(1) have "u_ID u' = u_ID u" "same_order ord1 ord" "o_State ord1 = Refunded \<or> o_State ord1 = RefundPending"
    and "T = require_provider_refund (ce_now env) ord1 S \<or> T = S \<or> o_RefundAmount ord > 0 \<and>
       post_money env (u_ID u) 0 (''refund:'' @ o_ID ord) ''refund'' (o_ID ord) ''balance returned'' (o_RefundAmount ord) 0 S = Inr T"
    unfolding finish_refund_def Let_def x
    by (auto simp: res_simps same_order_def split: if_splits option.splits)
  then show ?thesis
    using assms(2,3) post_money_core [of env "u_ID u" 0 "''refund:'' @ o_ID ord" "''refund''" "o_ID ord" "''balance returned''" "o_RefundAmount ord" 0 S T]
    by (auto simp: x ending_ok_def order_hold_def intro: paid_core_same core_payments)
qed

lemma activate_purchase_ID [simp]: "u_ID (activate_purchase env ord u) = u_ID u"
  by (simp add: activate_purchase_def open_period_def Let_def)

lemma apply_purchase_core:
  assumes "apply_purchase env budgets sites ord u S = Inr (u', T)"
  shows "u_ID u' = u_ID u \<and> same_core S T"
proof -
  have period: "same_core S (insert_period a b c S)" for a b c
    by (simp add: insert_period_def same_core_def user_ids_def)
  have sites: "same_core S0 (S0\<lparr>sh_sites := x\<rparr>)" for S0 x
    by (simp add: same_core_def user_ids_def)
  from assms have "u_ID u' = u_ID u \<and> (\<exists>S1 x. (S1 = S \<or> (\<exists>a b c. S1 = insert_period a b c S)) \<and> T = S1\<lparr>sh_sites := x\<rparr>)"
    unfolding apply_purchase_def Let_def by (simp split: option.splits sum.splits if_splits) (metis activate_purchase_ID)+
  then show ?thesis using same_core_trans [OF period sites] sites by auto
qed

lemma complete_order_ok:
  assumes "complete_order env budgets sites ord u S = Inr x" "u_ID u \<in> set (user_ids S)"
    and "o_State ord = Provisioning" "price_ok (of_Price (o_Offer ord))"
  shows "ending_ok ord u S x"
proof -
  from assms(1) obtain u' S1 where act:
    "(if o_Action ord = Renew then bind_res (apply_renewal env ord u) (\<lambda>u. Inr (u, S))
      else apply_purchase env budgets sites ord u S) = Inr (u', S1)"
    by (auto simp: complete_order_def bind_res_eq_Inr)
  have c: "u_ID u' = u_ID u" "same_core S S1"
    using act apply_purchase_core by (auto simp: apply_renewal_def bind_res_eq_Inr split: if_splits option.splits)
  let ?ord = "ord\<lparr>o_AppliedRevision := (case u_Entitlement u' of None \<Rightarrow> [] | Some e \<Rightarrow> en_Revision e),
                   o_State := Completed, o_Message := ''entitlement active''\<rparr>"
  from assms(1) act obtain T where x: "x = (u', ?ord, T)"
    and m: "(if o_PaymentAttemptID ord \<noteq> []
              then Inr (set_attempt (o_PaymentAttemptID ord) [''paid'']
                     (\<lambda>a. a\<lparr>pa_State := ''completed'', pa_Message := ''plan active'', pa_Updated := ce_now env\<rparr>) S1)
              else if of_Price (o_Offer ord) > 0
              then post_money env (u_ID u') 0 (''capture:'' @ o_ID ord) ''purchase'' (o_ID ord) (o_Message ?ord) 0
                     (- of_Price (o_Offer ord)) S1
              else Inr S1) = Inr T"
    unfolding complete_order_def Let_def by (auto simp: bind_res_eq_Inr)
  have "paid_core (u_ID u) (- order_hold ord) S1 T"
  proof (cases "o_PaymentAttemptID ord = [] \<and> of_Price (o_Offer ord) > 0")
    case True
    with m have "post_money env (u_ID u') 0 (''capture:'' @ o_ID ord) ''purchase'' (o_ID ord) (o_Message ?ord) 0
                     (- of_Price (o_Offer ord)) S1 = Inr T" by simp
    from post_money_core [OF this] True c assms(2,3) show ?thesis
      by (simp add: order_hold_def same_core_def)
  next
    case False
    with m assms(3,4) have "order_hold ord = 0" by (auto simp: order_hold_def price_ok_def)
    with m False show ?thesis by (auto intro!: paid_core_same core_attempt split: if_splits)
  qed
  with c show ?thesis
    by (simp add: x ending_ok_def same_order_def order_hold_def paid_core_trans(1))
qed

lemma fulfil_transaction_keeps:
  assumes ok: "shop_ok S" and ld: "loaded S ord" and st: "o_State ord = Provisioning \<or> o_State ord = Refunding"
    and u: "u_ID u = o_UserID ord" and run: "fulfil_transaction env budgets sites ord u S = Inr T"
  shows "shop_ok T"
proof -
  obtain r where r: "r \<in> set (sh_orders S)" "or_doc r = ord" "row_hold r = order_hold ord"
    "o_UserID ord \<in> set (user_ids S)" "price_ok (of_Price (o_Offer ord))"
    by (rule loaded_row [OF ok ld]) blast
  from run obtain u' ord' S1 S2 S3 where
    e: "(if \<not> u_Enabled u \<and> o_State ord = Provisioning then fail_disabled env ord u S
         else if o_State ord = Refunding then finish_refund env ord u S
         else complete_order env budgets sites ord u S) = Inr (u', ord', S1)"
    and tx: "txUser u' S1 = Inr S2" and save: "saveOrder (ce_now env) ord' (o_State ord) S2 = Inr S3"
    and T: "T = commerceEvent (ce_now env) (u_ID u') (''order:'' @ o_ID ord @ '':'' @ state_name (o_State ord'))
           (o_ID ord @ '' '' @ o_Message ord') S3"
    unfolding fulfil_transaction_def by (auto simp: bind_res_eq_Inr)
  have uid: "u_ID u \<in> set (user_ids S)" using u r(4) by simp
  have "ending_ok ord u S (u', ord', S1)"
    using e st fail_disabled_ok [OF _ uid r(5)] finish_refund_ok [OF _ uid] complete_order_ok [OF _ uid _ r(5)]
    by (auto split: if_splits)
  then have e: "same_order ord' ord" "order_hold ord' = 0" "o_State ord' \<noteq> RefundRequested"
    "paid_core (u_ID u) (- order_hold ord) S S1" by (simp_all add: ending_ok_def)
  have "paid_core (o_UserID ord') (- order_hold ord) S S2"
    using e(1,4) u core_txUser [OF tx] paid_core_trans(2) by (simp add: same_order_simps(2))
  from shop_ok_step [OF ok this save r(1)] r(2,3) e(1-3) have "shop_ok S3" by simp
  then show ?thesis using T core_event shop_ok_core by blast
qed

text \<open>
  What is assumed of \<open>reconcile\<close>, \<open>collect\<close> and \<open>settleHYRevocations\<close>: they leave ledger, orders,
  offers and the set of accounts alone.
\<close>

definition settles_frame :: "fulfil_env \<Rightarrow> bool" where
  "settles_frame env \<longleftrightarrow> (\<forall>S. same_core S (fst (fe_settle env S)))"

lemma or_keep_cases: "or_keep S r = (T, e) \<Longrightarrow> T = S \<or> r = Inr T"
  by (auto simp: or_keep_def split: sum.splits)

lemma fulfil_settled_keeps:
  assumes "shop_ok S" "loaded S ord" "o_State ord = Provisioning \<or> o_State ord = Refunding" "u_ID u = o_UserID ord"
    and run: "fulfil_settled env sites ord u S = (T, e)"
  shows "shop_ok T"
proof (cases "if o_State ord = Provisioning then ce_sites_ok (fe_commerce env) (future_user (fe_commerce env) ord u) else Inr ()")
  case (Inl x)
  then have st: "o_State ord = Provisioning" by (auto split: if_splits)
  from Inl run have "or_keep S (failProvisioning (fe_commerce env) ord ''site policy changed, balance released'' S) = (T, e)"
    by (simp add: fulfil_settled_def Let_def)
  from or_keep_cases [OF this] failProvisioning_keeps [OF assms(1,2) st] assms(1) show ?thesis by blast
next
  case (Inr x)
  then obtain budgets where "or_keep S (fulfil_transaction (fe_commerce env) budgets sites ord u S) = (T, e)"
    using run by (auto simp: fulfil_settled_def Let_def)
  from or_keep_cases [OF this] fulfil_transaction_keeps [OF assms(1-4)] assms(1) show ?thesis by blast
qed

lemma loaded_core: "same_core S T \<Longrightarrow> loaded T ord \<longleftrightarrow> loaded S ord"
  by (simp add: loaded_def same_core_def)

lemma fulfilOrder_keeps:
  assumes "shop_ok S" "loaded S ord" "o_State ord = Provisioning \<or> o_State ord = Refunding" "settles_frame env"
    and run: "fulfilOrder env ord S = (T, e)"
  shows "shop_ok T"
proof -
  obtain S1 se where s1: "fe_settle env S = (S1, se)" by fastforce
  with assms(4) have core: "same_core S S1" by (metis fst_conv settles_frame_def)
  then have ok1: "shop_ok S1" "loaded S1 ord" using assms(1,2) by (simp_all add: shop_ok_core loaded_core)
  from run s1 have "T = S \<or> T = S1 \<or>
      (\<exists>u. user_record S (o_UserID ord) = Some u \<and> fulfil_settled env (sh_sites S) ord u S = (T, e)) \<or>
      (\<exists>u u1. user_record S (o_UserID ord) = Some u \<and> user_record S1 (u_ID u) = Some u1 \<and>
         fulfil_settled env (sh_sites S) ord u1 S1 = (T, e))"
    unfolding fulfilOrder_def Let_def by (auto split: option.splits if_splits)
  then show ?thesis
    using assms(1) ok1(1) fulfil_settled_keeps [OF assms(1-3)] fulfil_settled_keeps [OF ok1 assms(3)] user_record_ID
    by metis
qed

text \<open>Saving an order without moving money, when its hold stays.\<close>

lemma resave_keeps:
  assumes ok: "shop_ok S" and r: "r \<in> set (sh_orders S)" "same_order ord (or_doc r)" "order_hold ord = row_hold r"
    and st: "o_State ord \<noteq> RefundRequested" and core: "same_core S S1"
    and run: "persistOrder now ord old S1 = (T, e)"
  shows "shop_ok T"
proof -
  from run have "T = S1 \<or> saveOrder now ord old S1 = Inr T" unfolding persistOrder_def by (rule or_keep_cases)
  then show ?thesis
    using ok core shop_ok_step [OF ok paid_core_same [OF core] _ r(1,2) st] r(3) by (auto simp: shop_ok_core)
qed

lemma expire_order_keeps:
  assumes ok: "shop_ok S" and ld: "loaded S ord" and st: "o_State ord = Pending"
    and run: "expire_order now ord S = (T, ps)"
  shows "shop_ok T"
proof -
  obtain r where r: "r \<in> set (sh_orders S)" "or_doc r = ord" "row_hold r = order_hold ord"
    by (rule loaded_row [OF ok ld]) blast
  let ?ord = "ord\<lparr>o_State := Expired, o_Message := ''order confirmation timed out''\<rparr>"
  from run have "T = S \<or> (\<exists>S1 e. same_core S S1 \<and> persistOrder now ?ord Pending S1 = (T, e))"
    unfolding expire_order_def Let_def
    by (auto split: if_splits prod.splits intro: core_attempt)
  then show ?thesis
    using ok resave_keeps [OF ok r(1), of ?ord] r(2,3) st by (auto simp: same_order_def order_hold_def)
qed

lemma retry_later_keeps:
  assumes ok: "shop_ok S" and run: "retry_later now ord e S = (T, ps)"
  shows "shop_ok T"
proof (cases "find_order S (o_ID ord)")
  case None
  with run ok show ?thesis by (simp add: retry_later_def)
next
  case (Some current)
  obtain r where r: "r \<in> set (sh_orders S)" "or_doc r = current" "or_state r = o_State current" "row_ok (user_ids S) r"
    by (rule find_order_row [OF ok Some]) blast
  let ?c = "\<lambda>m. current\<lparr>o_Attempts := o_Attempts current + 1, o_NextAttempt := now + backoff (o_Attempts current + 1),
     o_Message := m\<rparr>"
  from run Some have "T = S \<or> (\<exists>m e1. persistOrder now (?c m) (o_State current) S = (T, e1))"
    unfolding retry_later_def Let_def by (auto split: if_splits prod.splits)
  then show ?thesis
    using ok resave_keeps [OF ok r(1), of "?c m" S now "o_State current" T for m] r(2-4)
    by (auto simp: same_order_def order_hold_def row_hold_def row_ok_def)
qed

text \<open>Only the row of the order at hand changes.\<close>

definition others_kept :: "string \<Rightarrow> Shop \<Rightarrow> Shop \<Rightarrow> bool" where
  "others_kept oid S T \<longleftrightarrow> map or_id (sh_orders T) = map or_id (sh_orders S) \<and>
     (\<forall>r. or_id r \<noteq> oid \<longrightarrow> r \<in> set (sh_orders S) \<longrightarrow> r \<in> set (sh_orders T))"

lemma others_kept_trans: "others_kept i S T \<Longrightarrow> others_kept i T U \<Longrightarrow> others_kept i S U"
  by (simp add: others_kept_def)

lemma others_kept_core: "same_core S T \<Longrightarrow> others_kept i S T"
  by (simp add: others_kept_def same_core_def)

lemma others_kept_refl [simp]: "others_kept i S S"
  by (simp add: others_kept_def)

lemma others_kept_paid: "paid_core u d S T \<Longrightarrow> others_kept i S T"
  by (simp add: others_kept_def paid_core_def)

lemma others_kept_save: "saveOrder now ord old S = Inr T \<Longrightarrow> others_kept (o_ID ord) S T"
  by (frule saveOrder_Inr(2))
     (force simp: others_kept_def set_set_where image_iff intro!: map_set_where_key)

lemma post_money_orders: "post_money env user actor event kind reference reason da dh S = Inr T \<Longrightarrow> sh_orders T = sh_orders S"
  by (auto simp: post_money_def bind_res_eq_Inr)

lemma release_hold_orders: "release_hold env user ord msg S = Inr T \<Longrightarrow> sh_orders T = sh_orders S"
  by (auto simp: release_hold_def dest: post_money_orders split: if_splits)

lemma same_core_orders: "same_core S T \<Longrightarrow> sh_orders T = sh_orders S"
  by (simp add: same_core_def)

lemma others_kept_orders: "sh_orders T = sh_orders S \<Longrightarrow> others_kept i S T"
  by (simp add: others_kept_def)

lemma payment_orders: "sh_orders (fail_payment now ord reason S) = sh_orders S"
    "sh_orders (require_provider_refund now ord S) = sh_orders S" "sh_orders (set_attempt a b f S) = sh_orders S"
  by (simp_all add: same_core_orders core_payments core_attempt)

lemma failProvisioning_others:
  assumes "failProvisioning env ord msg S = Inr T"
  shows "others_kept (o_ID ord) S T"
proof -
  from failProvisioning_Inr [OF assms] obtain u ord1 S1 S2 S3 where "same_order ord1 ord"
    and m: "(if o_PaymentAttemptID ord \<noteq> []
      then Inr (fail_payment (ce_now env) ord ''provisioning failed, refund through the provider'' S)
      else release_hold env (u_ID u) ord msg S) = Inr S1"
    and tx: "txUser u S1 = Inr S2" and save: "saveOrder (ce_now env) ord1 Provisioning S2 = Inr S3"
    and T: "T = commerceEvent (ce_now env) (u_ID u) (''order:'' @ o_ID ord @ '':failed'') (o_ID ord @ '' '' @ msg) S3"
    by metis
  from m have "sh_orders S1 = sh_orders S"
    using release_hold_orders by (auto simp: payment_orders split: if_splits)
  then have a: "others_kept (o_ID ord) S S1" by (rule others_kept_orders)
  have b: "others_kept (o_ID ord) S1 S2" by (rule others_kept_core [OF core_txUser [OF tx]])
  have c: "others_kept (o_ID ord) S2 S3"
    using others_kept_save [OF save] \<open>same_order ord1 ord\<close> by (simp add: same_order_simps(1))
  have d: "others_kept (o_ID ord) S3 T" unfolding T by (rule others_kept_core [OF core_event])
  show ?thesis by (rule others_kept_trans [OF a others_kept_trans [OF b others_kept_trans [OF c d]]])
qed

lemma fulfil_transaction_others:
  assumes ok: "shop_ok S" and ld: "loaded S ord" and st: "o_State ord = Provisioning \<or> o_State ord = Refunding"
    and u: "u_ID u = o_UserID ord" and run: "fulfil_transaction env budgets sites ord u S = Inr T"
  shows "others_kept (o_ID ord) S T"
proof -
  obtain r where r: "o_UserID ord \<in> set (user_ids S)" "price_ok (of_Price (o_Offer ord))"
    by (rule loaded_row [OF ok ld]) blast
  from run obtain u' ord' S1 S2 S3 where
    e: "(if \<not> u_Enabled u \<and> o_State ord = Provisioning then fail_disabled env ord u S
         else if o_State ord = Refunding then finish_refund env ord u S
         else complete_order env budgets sites ord u S) = Inr (u', ord', S1)"
    and tx: "txUser u' S1 = Inr S2" and save: "saveOrder (ce_now env) ord' (o_State ord) S2 = Inr S3"
    and T: "T = commerceEvent (ce_now env) (u_ID u') (''order:'' @ o_ID ord @ '':'' @ state_name (o_State ord'))
           (o_ID ord @ '' '' @ o_Message ord') S3"
    unfolding fulfil_transaction_def by (auto simp: bind_res_eq_Inr)
  have uid: "u_ID u \<in> set (user_ids S)" using u r(1) by simp
  have "ending_ok ord u S (u', ord', S1)"
    using e st fail_disabled_ok [OF _ uid r(2)] finish_refund_ok [OF _ uid] complete_order_ok [OF _ uid _ r(2)]
    by (auto split: if_splits)
  then have same: "same_order ord' ord" and a: "others_kept (o_ID ord) S S1"
    by (auto simp: ending_ok_def intro: others_kept_paid)
  have b: "others_kept (o_ID ord) S1 S2" by (rule others_kept_core [OF core_txUser [OF tx]])
  have c: "others_kept (o_ID ord) S2 S3"
    using others_kept_save [OF save] same by (simp add: same_order_simps(1))
  have d: "others_kept (o_ID ord) S3 T" unfolding T by (rule others_kept_core [OF core_event])
  show ?thesis by (rule others_kept_trans [OF a others_kept_trans [OF b others_kept_trans [OF c d]]])
qed

lemma fulfil_settled_others:
  assumes "shop_ok S" "loaded S ord" "o_State ord = Provisioning \<or> o_State ord = Refunding" "u_ID u = o_UserID ord"
    and run: "fulfil_settled env sites ord u S = (T, e)"
  shows "others_kept (o_ID ord) S T"
proof (cases "if o_State ord = Provisioning then ce_sites_ok (fe_commerce env) (future_user (fe_commerce env) ord u) else Inr ()")
  case (Inl x)
  with run have "or_keep S (failProvisioning (fe_commerce env) ord ''site policy changed, balance released'' S) = (T, e)"
    by (simp add: fulfil_settled_def Let_def)
  from or_keep_cases [OF this] show ?thesis using failProvisioning_others by auto
next
  case (Inr x)
  then obtain budgets where "or_keep S (fulfil_transaction (fe_commerce env) budgets sites ord u S) = (T, e)"
    using run by (auto simp: fulfil_settled_def Let_def)
  from or_keep_cases [OF this] show ?thesis using fulfil_transaction_others [OF assms(1-4)] by auto
qed

lemma fulfilOrder_others:
  assumes "shop_ok S" "loaded S ord" "o_State ord = Provisioning \<or> o_State ord = Refunding" "settles_frame env"
    and run: "fulfilOrder env ord S = (T, e)"
  shows "others_kept (o_ID ord) S T"
proof -
  obtain S1 se where s1: "fe_settle env S = (S1, se)" by fastforce
  with assms(4) have core: "same_core S S1" by (metis fst_conv settles_frame_def)
  then have ok1: "shop_ok S1" "loaded S1 ord" using assms(1,2) by (simp_all add: shop_ok_core loaded_core)
  from run s1 consider "T = S" | "T = S1"
    | u where "user_record S (o_UserID ord) = Some u" "fulfil_settled env (sh_sites S) ord u S = (T, e)"
    | u u1 where "user_record S (o_UserID ord) = Some u" "user_record S1 (u_ID u) = Some u1"
         "fulfil_settled env (sh_sites S) ord u1 S1 = (T, e)"
    unfolding fulfilOrder_def Let_def by (auto split: option.splits if_splits)
  then show ?thesis
  proof cases
    case 2 then show ?thesis using others_kept_core [OF core] by simp
  next
    case (3 u) then show ?thesis using fulfil_settled_others [OF assms(1-3)] user_record_ID by metis
  next
    case (4 u u1)
    then have "u_ID u1 = o_UserID ord" using user_record_ID by metis
    from others_kept_trans [OF others_kept_core [OF core] fulfil_settled_others [OF ok1 assms(3) this 4(3)]]
    show ?thesis .
  qed simp
qed

lemma persist_others: "persistOrder now ord old S = (T, e) \<Longrightarrow> others_kept (o_ID ord) S T"
  unfolding persistOrder_def by (drule or_keep_cases) (auto dest: others_kept_save)

lemma find_order_ID:
  "shop_ok S \<Longrightarrow> find_order S oid = Some ord \<Longrightarrow> o_ID ord = oid"
  by (elim find_order_row) auto

lemma expire_order_others: "expire_order now ord S = (T, ps) \<Longrightarrow> others_kept (o_ID ord) S T"
proof -
  assume run: "expire_order now ord S = (T, ps)"
  let ?ord = "ord\<lparr>o_State := Expired, o_Message := ''order confirmation timed out''\<rparr>"
  from run have "T = S \<or> (\<exists>S1 e. same_core S S1 \<and> persistOrder now ?ord Pending S1 = (T, e))"
    unfolding expire_order_def Let_def by (auto split: if_splits prod.splits intro: core_attempt)
  then show ?thesis
    using persist_others [of now ?ord Pending _ T] others_kept_core others_kept_trans by fastforce
qed

lemma retry_later_others: "shop_ok S \<Longrightarrow> retry_later now ord e S = (T, ps) \<Longrightarrow> others_kept (o_ID ord) S T"
  unfolding retry_later_def Let_def
  by (auto split: option.splits if_splits prod.splits dest!: persist_others dest: find_order_ID)

lemma work_order_keeps:
  assumes ok: "shop_ok S" and ld: "loaded S ord" and st: "o_State ord \<in> set active_states"
    and env: "settles_frame env" and run: "work_order env ord S = (T, ps)"
  shows "shop_ok T \<and> others_kept (o_ID ord) S T"
proof -
  let ?ce = "fe_commerce env"
  define step where "step = (if o_State ord = Provisioning \<and> ce_now ?ce - o_Started ord \<ge> 1800
       then or_keep S (failProvisioning ?ce ord ''provisioning timed out, balance released'' S)
       else fulfilOrder env ord S)"
  obtain S1 e where s1: "step = (S1, e)" by fastforce
  from run consider "T = S" | "o_State ord = Pending" "expire_order (ce_now ?ce) ord S = (T, ps)"
    | qs where "o_State ord \<noteq> Pending" "retry_later (ce_now ?ce) ord e S1 = (T, qs)"
    unfolding work_order_def Let_def step_def [symmetric] s1
    by (auto split: if_splits sum.splits prod.splits)
  then show ?thesis
  proof cases
    case 1 then show ?thesis using ok by simp
  next
    case 2 then show ?thesis using expire_order_keeps [OF ok ld] expire_order_others by blast
  next
    case (3 qs)
    with st have st': "o_State ord = Provisioning \<or> o_State ord = Refunding" by (auto simp: active_states_def)
    have "shop_ok S1 \<and> others_kept (o_ID ord) S S1"
    proof (cases "o_State ord = Provisioning \<and> ce_now ?ce - o_Started ord \<ge> 1800")
      case True
      with s1 have "or_keep S (failProvisioning ?ce ord ''provisioning timed out, balance released'' S) = (S1, e)"
        by (simp add: step_def)
      from or_keep_cases [OF this] True show ?thesis
        using ok failProvisioning_keeps [OF ok ld] failProvisioning_others by auto
    next
      case False
      then have "fulfilOrder env ord S = (S1, e)" using s1 by (auto simp: step_def)
      then show ?thesis using fulfilOrder_keeps [OF ok ld st' env] fulfilOrder_others [OF ok ld st' env] by blast
    qed
    then show ?thesis
      using retry_later_keeps [OF _ 3(2)] retry_later_others [OF _ 3(2)] others_kept_trans by blast
  qed
qed

lemma loaded_others: "others_kept i S T \<Longrightarrow> shop_ok S \<Longrightarrow> loaded S ord \<Longrightarrow> o_ID ord \<noteq> i \<Longrightarrow> loaded T ord"
  by (fastforce simp: others_kept_def loaded_def shop_ok_def row_ok_def)

lemma work_orders_keeps:
  assumes "shop_ok S" "\<forall>ord \<in> set ords. loaded S ord \<and> o_State ord \<in> set active_states"
    and "distinct (map o_ID ords)" "\<And>ord. settles_frame (env_of ord)"
    and "work_orders env_of ords S = (T, ps)"
  shows "shop_ok T"
  using assms
proof (induction ords arbitrary: S T ps)
  case (Cons ord ords)
  obtain S1 qs where s1: "work_order (env_of ord) ord S = (S1, qs)" by fastforce
  then obtain qs' where rest: "work_orders env_of ords S1 = (T, qs')"
    using Cons.prems(5) by (auto simp: Let_def split: prod.splits)
  have w: "shop_ok S1" "others_kept (o_ID ord) S S1"
    using work_order_keeps [OF Cons.prems(1) _ _ Cons.prems(4) s1] Cons.prems(2) by auto
  have "\<forall>q \<in> set ords. loaded S1 q \<and> o_State q \<in> set active_states"
    using Cons.prems(2,3) loaded_others [OF w(2) Cons.prems(1)] by (auto simp: image_iff)
  from Cons.IH [OF w(1) this _ Cons.prems(4) rest] Cons.prems(3) show ?case by simp
qed simp

lemma open_orders_ok:
  assumes "shop_ok S"
  shows "\<forall>ord \<in> set (open_orders S). loaded S ord \<and> o_State ord \<in> set active_states"
    and "distinct (map o_ID (open_orders S))"
proof -
  let ?rows = "filter (\<lambda>r. or_state r \<in> set active_states) (sh_orders S)"
  let ?take = "take 100 (sort_key or_created ?rows)"
  have mem: "r \<in> set (sh_orders S) \<and> or_state r \<in> set active_states" if "r \<in> set ?take" for r
    using in_set_takeD [OF that] by simp
  show "\<forall>ord \<in> set (open_orders S). loaded S ord \<and> o_State ord \<in> set active_states"
  proof
    fix ord assume "ord \<in> set (open_orders S)"
    then obtain r where r: "r \<in> set ?take" "ord = or_doc r" by (auto simp: open_orders_def)
    from mem [OF r(1)] have m: "r \<in> set (sh_orders S)" "or_state r \<in> set active_states" by simp_all
    then have "row_ok (user_ids S) r" using assms by (simp add: shop_ok_def)
    with m r(2) show "loaded S ord \<and> o_State ord \<in> set active_states" by (auto simp: loaded_def row_ok_def)
  qed
  have "distinct (map or_id ?rows)"
    using assms by (simp add: shop_ok_def distinct_map_filter)
  then have "distinct (map or_id (sort_key or_created ?rows))"
    by (simp add: distinct_map)
  then have "distinct (map or_id ?take)" by (simp add: take_map [symmetric])
  moreover have "map o_ID (open_orders S) = map or_id ?take"
  proof -
    have "o_ID (or_doc r) = or_id r" if "r \<in> set ?take" for r
      using mem [OF that] assms by (auto simp: shop_ok_def row_ok_def)
    then show ?thesis unfolding open_orders_def map_map by (intro map_cong) simp_all
  qed
  ultimately show "distinct (map o_ID (open_orders S))" by simp
qed

lemma deliver_core: "same_core S (deliver_event now v S)"
  by (simp add: same_core_def deliver_event_def user_ids_def)

lemma notifications_core: "same_core S (commerceNotifications now S)"
proof -
  have "same_core S (fold (deliver_event now) vs S)" for vs
    by (induction vs arbitrary: S) (auto intro: same_core_trans deliver_core)
  then show ?thesis by (simp add: commerceNotifications_def)
qed

theorem commerceWork_keeps:
  assumes "shop_ok S" "\<And>ord. settles_frame (env_of ord)" "commerceWork env_of now S = (T, ps)"
  shows "shop_ok T"
proof -
  obtain S1 where s1: "work_orders env_of (open_orders S) S = (S1, ps)" "T = commerceNotifications now S1"
    using assms(3) by (auto simp: commerceWork_def Let_def split: prod.splits)
  from work_orders_keeps [OF assms(1) open_orders_ok [OF assms(1)] assms(2) s1(1)] s1(2) show ?thesis
    using notifications_core shop_ok_core by blast
qed

section \<open>The startup check\<close>

text \<open>
  The part of \<open>validateCommerce\<close> over ledger, wallets and orders; \<open>heldOrders\<close> is its map from
  users to the price of their open wallet orders, a key of which exists also for a price of 0.
\<close>

fun heldOrders :: "OrderRow list \<Rightarrow> (int \<times> int) list \<Rightarrow> (int \<times> int) list" where
  "heldOrders [] m = m"
| "heldOrders (r # rs) m =
    (if or_state r = Provisioning \<and> o_PaymentAttemptID (or_doc r) = []
     then heldOrders rs (map_put (or_user r) (map_get 0 m (or_user r) + of_Price (o_Offer (or_doc r))) m)
     else heldOrders rs m)"

definition order_snapshot_ok :: "OrderRow \<Rightarrow> bool" where
  "order_snapshot_ok r \<longleftrightarrow> o_ID (or_doc r) = or_id r \<and> o_UserID (or_doc r) = or_user r \<and>
     o_State (or_doc r) = or_state r \<and> 0 \<le> of_Price (o_Offer (or_doc r)) \<and>
     of_Price (o_Offer (or_doc r)) \<le> moneyLimit"

definition validateCommerce :: "Shop \<Rightarrow> bool" where
  "validateCommerce S \<longleftrightarrow>
    (let held = heldOrders (sh_orders S) []; wallet_rows = l_wallets (sh_ledger S) in
     validateLedger (user_ids S) (sh_ledger S) \<and> list_all order_snapshot_ok (sh_orders S) \<and>
     list_all (\<lambda>(u, w). map_get 0 held u = w_held w) wallet_rows \<and>
     list_all (\<lambda>(u, amount). u \<in> fst ` set wallet_rows) held)"

lemma heldOrders_sum:
  "map_get 0 (heldOrders rows m) u = map_get 0 m u + hold_sum rows u"
  by (induction rows m rule: heldOrders.induct) (auto simp: hold_sum_def row_hold_def)

definition wallet_order :: "OrderRow \<Rightarrow> bool" where
  "wallet_order r \<longleftrightarrow> or_state r = Provisioning \<and> o_PaymentAttemptID (or_doc r) = []"

lemma map_has_iff: "map_has m k \<longleftrightarrow> k \<in> fst ` set m"
  by (simp add: map_has_def map_of_eq_None_iff)

lemma heldOrders_keys:
  "map_has (heldOrders rows m) u \<longleftrightarrow> map_has m u \<or> (\<exists>r \<in> set rows. wallet_order r \<and> or_user r = u)"
  by (induction rows m rule: heldOrders.induct) (auto simp: wallet_order_def)

text \<open>
  Under the invariant the check can fail in one way only: an order the wallet pays, of a user who
  has no wallet row. Such an order is free.
\<close>

lemma validateCommerce_iff:
  assumes "shop_ok S"
  shows "validateCommerce S \<longleftrightarrow>
    (\<forall>r \<in> set (sh_orders S). wallet_order r \<longrightarrow> or_user r \<in> fst ` set (l_wallets (sh_ledger S)))"
proof -
  have rows: "list_all order_snapshot_ok (sh_orders S)"
    using assms by (auto simp: shop_ok_def row_ok_def price_ok_def order_snapshot_ok_def list_all_iff)
  have led: "validateLedger (user_ids S) (sh_ledger S)" using assms by (simp add: shop_ok_def ledger_ok_def)
  have dist: "distinct (map fst (l_wallets (sh_ledger S)))"
    using assms by (auto simp: shop_ok_def ledger_ok_def dest: chained_facts(6))
  have "map_get 0 (heldOrders (sh_orders S) []) u = w_held w" if "(u, w) \<in> set (l_wallets (sh_ledger S))" for u w
  proof -
    have "wallet_of (sh_ledger S) u = w" using that dist by (simp add: wallet_of_def)
    moreover have "held_of (sh_ledger S) u = hold_sum (sh_orders S) u" using assms by (simp add: shop_ok_def)
    ultimately show ?thesis by (simp add: heldOrders_sum held_of_def)
  qed
  then have held: "list_all (\<lambda>(u, w). map_get 0 (heldOrders (sh_orders S) []) u = w_held w) (l_wallets (sh_ledger S))"
    by (auto simp: list_all_iff)
  have "list_all (\<lambda>(u, amount). u \<in> W) h \<longleftrightarrow> (\<forall>u. map_has h u \<longrightarrow> u \<in> W)" for W and h :: "(int \<times> int) list"
    by (force simp: list_all_iff map_has_iff)
  then show ?thesis
    using rows led held by (auto simp: validateCommerce_def Let_def heldOrders_keys)
qed

lemma wallet_order_without_wallet_is_free:
  assumes "shop_ok S" "r \<in> set (sh_orders S)" "wallet_order r" "or_user r \<notin> fst ` set (l_wallets (sh_ledger S))"
  shows "of_Price (o_Offer (or_doc r)) = 0"
proof -
  have "map_of (l_wallets (sh_ledger S)) (or_user r) = None" using assms(4) by (simp add: map_of_eq_None_iff)
  then have "held_of (sh_ledger S) (or_user r) = 0" by (simp add: held_of_def wallet_of_def new_wallet_def)
  with assms(1) have zero: "hold_sum (sh_orders S) (or_user r) = 0" by (simp add: shop_ok_def)
  have nn: "0 \<le> row_hold s" if "s \<in> set (sh_orders S)" for s
    using assms(1) that by (auto simp: shop_ok_def row_ok_def price_ok_def row_hold_def)
  have "row_hold r \<le> hold_sum rows (or_user r)" if "r \<in> set rows" "\<forall>s \<in> set rows. 0 \<le> row_hold s" for rows
    using that
  proof (induction rows)
    case (Cons s rows)
    have "0 \<le> hold_sum rows (or_user r)"
      using Cons.prems(2) by (auto simp: hold_sum_def intro!: sum_where_nonneg)
    then show ?case using Cons by (cases "s = r") (auto simp: hold_sum_def)
  qed simp
  from this [OF assms(2)] nn zero assms(3) show ?thesis
    using assms(1,2) by (auto simp: wallet_order_def row_hold_def shop_ok_def row_ok_def price_ok_def)
qed

end
