(* ===== verification/Payment_Safety.thy ===== *)
theory Payment_Safety
  imports Payments Shop_Safety "HOL-Library.Sublist"
begin

text \<open>
  What the payment operations keep: the shop invariant, one receipt per provider transaction, one
  refund per receipt; a replayed callback changes nothing and a top-up is credited once.
\<close>

section \<open>The shop invariant\<close>

lemma core_tables [core_intros]:
  "same_core S (S\<lparr>sh_receipts := rs\<rparr>)" "same_core S (S\<lparr>sh_attempts := as\<rparr>)" "same_core S (S\<lparr>sh_refunds := fs\<rparr>)"
  "same_core S (S\<lparr>sh_payment_events := es\<rparr>)"
  by (simp_all add: same_core_def user_ids_def)

lemma core_payment_steps [core_intros]:
  "same_core S (set_event p event c f S)" "same_core S (set_receipt rid st g S)" "same_core S (apply_receipt now rid m S)"
  "same_core S (sweep_receipts now S)" "same_core S (sweep_attempts now S)" "same_core S (set_refund fid sts h S)"
  by (simp_all add: set_event_def set_receipt_def apply_receipt_def sweep_receipts_def sweep_attempts_def set_refund_def
      core_tables)

lemma shop_ok_core_trans: "shop_ok S \<Longrightarrow> same_core S T \<Longrightarrow> shop_ok T"
  by (simp add: shop_ok_core)

lemma shop_ok_tables [simp]:
  "shop_ok (S\<lparr>sh_receipts := rs\<rparr>) \<longleftrightarrow> shop_ok S" "shop_ok (S\<lparr>sh_attempts := as\<rparr>) \<longleftrightarrow> shop_ok S"
  "shop_ok (S\<lparr>sh_refunds := fs\<rparr>) \<longleftrightarrow> shop_ok S" "shop_ok (S\<lparr>sh_payment_events := es\<rparr>) \<longleftrightarrow> shop_ok S"
  by (rule shop_ok_core, rule core_tables)+

lemma shop_ok_payment_steps [simp]:
  "shop_ok (set_event p event c f S) \<longleftrightarrow> shop_ok S" "shop_ok (set_receipt rid st g S) \<longleftrightarrow> shop_ok S"
  "shop_ok (apply_receipt now rid m S) \<longleftrightarrow> shop_ok S" "shop_ok (sweep_receipts now S) \<longleftrightarrow> shop_ok S"
  "shop_ok (sweep_attempts now S) \<longleftrightarrow> shop_ok S" "shop_ok (set_refund fid sts h S) \<longleftrightarrow> shop_ok S"
  "shop_ok (commerceEvent now u e b S) \<longleftrightarrow> shop_ok S"
  by (rule shop_ok_core, rule core_payment_steps core_event)+

lemma raw_order_row:
  assumes "shop_ok S" "raw_order S oid = Some ord"
  shows "loaded S ord \<and> o_ID ord = oid"
proof -
  from assms(2) obtain r where r: "row_with or_id oid (sh_orders S) = Some r" "or_doc r = ord"
    by (auto simp: raw_order_def)
  from row_with_Some [OF r(1)] assms(1) r(2) show ?thesis by (auto simp: loaded_def shop_ok_def row_ok_def)
qed

text \<open>Saving an order whose hold is nothing before and after.\<close>

lemma resave_idle:
  assumes ok: "shop_ok S" and ld: "loaded S ord" and hold: "order_hold ord = 0" "order_hold ord' = 0"
    and same: "same_order ord' ord" and st: "o_State ord' \<noteq> RefundRequested"
    and core: "same_core S S1" and save: "saveOrder now ord' old S1 = Inr T"
  shows "shop_ok T"
proof -
  obtain r where r: "r \<in> set (sh_orders S)" "or_doc r = ord" "row_hold r = order_hold ord"
    by (rule loaded_row [OF ok ld]) blast
  show ?thesis
    by (rule shop_ok_step [OF ok paid_core_same [OF core] save r(1)]) (use same st hold r in simp_all)
qed

lemma fail_pending_keeps:
  assumes "shop_ok S" "fail_pending_order now oid attempt reason S = Inr T"
  shows "shop_ok T"
proof -
  from assms(2) consider "T = S"
    | ord where "raw_order S oid = Some ord" "o_State ord = Pending"
        "saveOrder now (ord\<lparr>o_State := Failed, o_Message := reason\<rparr>) Pending S = Inr T"
    by (auto simp: fail_pending_order_def split: if_splits option.splits)
  then show ?thesis
  proof cases
    case 2
    from raw_order_row [OF assms(1) 2(1)] 2(2,3) show ?thesis
      by (intro resave_idle [OF assms(1) _ _ _ _ _ same_core_refl 2(3), of ord])
         (simp_all add: order_hold_def same_order_def)
  qed (use assms(1) in simp)
qed

lemma claim_attempt_keeps:
  "shop_ok S \<Longrightarrow> claim_attempt env scope event receipt a S = Inr T \<Longrightarrow> shop_ok T"
  unfolding claim_attempt_def Let_def
  by (auto simp: bind_res_eq_Inr dest: fail_pending_keeps split: if_splits)

lemma shop_ok_marks [simp]:
  "shop_ok (mark_duplicate now p event existing receipt S) \<longleftrightarrow> shop_ok S"
  "shop_ok (mark_recorded now p event receipt S) \<longleftrightarrow> shop_ok S"
  by (simp_all add: mark_duplicate_def mark_recorded_def)

lemma claim_found_keeps:
  "shop_ok S \<Longrightarrow> claim_found env scope event receipt found S = Inr T \<Longrightarrow> shop_ok T"
  unfolding claim_found_def by (auto split: option.splits dest: claim_attempt_keeps)

definition event_row :: "pay_env \<Rightarrow> PaymentProvider \<Rightarrow> verifiedPaymentEvent \<Rightarrow> string \<Rightarrow> Shop \<Rightarrow> Shop" where
  "event_row env p event body S =
    S\<lparr>sh_payment_events := sh_payment_events S @ [new_event p event (py_hash env body)]\<rparr>"

definition event_receipt :: "pay_env \<Rightarrow> PaymentProvider \<Rightarrow> verifiedPaymentEvent \<Rightarrow> string \<Rightarrow> Shop \<Rightarrow> PaymentReceipt" where
  "event_receipt env p event body S =
    new_receipt env p event (attempt_by_merchant (event_row env p event body S) (pp_ID p) (vp_MerchantRef event))"

text \<open>The three ways the transaction commits.\<close>

lemma record_event_Inr:
  assumes "record_event_tx env p event body S = Inr (new, T)"
  obtains "\<not> new" "T = S" "event_known p event (py_hash env body) S"
  | existing where "\<not> new" "T = mark_duplicate (py_now env) p event existing (event_receipt env p event body S)
      (event_row env p event body S)"
  | found S2 where "new" "0 < vp_Amount event" "vp_Amount event \<le> moneyLimit"
      "pr_ID (event_receipt env p event body S) \<notin> pr_ID ` set (sh_receipts S)"
      "find (same_transaction (py_scope env p) (vp_ExternalRef event)) (sh_receipts S) = None"
      "claim_found env (py_scope env p) event (event_receipt env p event body S) found
        ((event_row env p event body S)\<lparr>sh_receipts := sh_receipts S @ [event_receipt env p event body S]\<rparr>) = Inr S2"
      "T = mark_recorded (py_now env) p event (event_receipt env p event body S) S2"
proof -
  let ?S1 = "event_row env p event body S" and ?r = "event_receipt env p event body S"
  let ?found = "attempt_by_merchant ?S1 (pp_ID p) (vp_MerchantRef event)"
  let ?go = "claim_found env (py_scope env p) event ?r ?found (?S1\<lparr>sh_receipts := sh_receipts S @ [?r]\<rparr>)"
  have rows: "sh_receipts ?S1 = sh_receipts S" by (simp add: event_row_def)
  note run = assms [unfolded record_event_tx_def Let_def, folded event_row_def, folded event_receipt_def, unfolded rows]
  have amount: "0 < vp_Amount event" "vp_Amount event \<le> moneyLimit" using run by (auto split: if_splits)
  show thesis
  proof (cases "event_known p event (py_hash env body) S")
    case True
    with run have "\<not> new" "T = S" by (auto split: if_splits)
    with True show thesis by (intro that(1))
  next
    case unknown: False
    show thesis
    proof (cases "find (same_transaction (py_scope env p) (vp_ExternalRef event)) (sh_receipts S)")
      case (Some existing)
      with unknown run have "\<not> new" "T = mark_duplicate (py_now env) p event existing ?r ?S1"
        by (simp_all split: if_splits)
      then show thesis by (rule that(2))
    next
      case None
      with unknown run have fresh: "pr_ID ?r \<notin> pr_ID ` set (sh_receipts S)" and
        go: "bind_res ?go (\<lambda>S2. Inr (True, mark_recorded (py_now env) p event ?r S2)) = Inr (new, T)"
        by (simp_all split: if_splits)
      from go obtain S2 where "?go = Inr S2" "new" "T = mark_recorded (py_now env) p event ?r S2"
        by (cases ?go) simp_all
      with None fresh amount show thesis by (intro that(3))
    qed
  qed
qed

lemma record_event_keeps:
  assumes "shop_ok S" "record_event_tx env p event body S = Inr (new, T)"
  shows "shop_ok T"
  using record_event_Inr [OF assms(2)]
proof cases
  case (3 found S2)
  then show ?thesis using assms(1) claim_found_keeps [OF _ 3(6)] by (simp add: event_row_def)
qed (use assms(1) in \<open>simp_all add: event_row_def\<close>)

lemma refund_required_keeps:
  assumes "shop_ok S" "refund_required_tx env rid reason S = Inr T"
  shows "shop_ok T"
proof -
  have "shop_ok T" if "fail_pending_order now oid a m S1 = Inr T" "shop_ok S1" for now oid a m S1
    using that fail_pending_keeps by blast
  with assms show ?thesis
    unfolding refund_required_tx_def Let_def by (auto split: option.splits if_splits)
qed

lemma paymentRefundRequired_keeps: "shop_ok S \<Longrightarrow> shop_ok (fst (paymentRefundRequired env rid reason S))"
  by (auto simp: paymentRefundRequired_def or_keep_def dest: refund_required_keeps split: sum.splits)

definition receipts_ok :: "Shop \<Rightarrow> bool" where
  "receipts_ok S \<longleftrightarrow> distinct (map pr_ID (sh_receipts S)) \<and>
     distinct (map (\<lambda>r. (pr_AccountScope r, pr_ExternalRef r)) (sh_receipts S)) \<and>
     (\<forall>r \<in> set (sh_receipts S). 0 < pr_Amount r \<and> pr_Amount r \<le> moneyLimit)"

lemma credit_topup_keeps:
  assumes ok: "shop_ok S" and user: "pa_UserID a \<in> set (user_ids S)" and amount: "0 < pr_Amount receipt"
    and run: "credit_topup_tx env receipt a S = Inr T"
  shows "shop_ok T"
proof -
  define S0 where "S0 = apply_receipt (py_now env) (pr_ID receipt) ''balance credited'' S"
  define ref where "ref = ''payment:'' @ pr_ID receipt"
  define kind where "kind = ''online_topup''"
  define why where "why = ''online balance topup''"
  have "T = S \<or> (\<exists>S1. post_money (py_commerce env) (pa_UserID a) 0 ref kind (pr_ID receipt) why
      (pr_Amount receipt) 0 S0 = Inr S1 \<and> (shop_ok S1 \<longrightarrow> shop_ok T))"
    using run unfolding credit_topup_tx_def Let_def ref_def [symmetric] kind_def [symmetric] why_def [symmetric]
      S0_def [symmetric]
    by (auto simp: bind_res_eq_Inr split: if_splits)
  then show ?thesis
  proof (elim disjE exE conjE)
    fix S1 assume post: "post_money (py_commerce env) (pa_UserID a) 0 ref kind (pr_ID receipt) why
      (pr_Amount receipt) 0 S0 = Inr S1" and T: "shop_ok S1 \<longrightarrow> shop_ok T"
    have core: "same_core S S0" unfolding S0_def by (rule core_payment_steps)
    have "paid_core (pa_UserID a) 0 S0 S1"
      using post_money_core [OF post] user amount core by (simp add: same_core_def)
    moreover have "shop_ok S0" using ok core shop_ok_core by blast
    ultimately have "shop_ok S1" by (simp add: shop_ok_def paid_core_def)
    with T show ?thesis by simp
  qed (use ok in simp)
qed

lemma confirmExternalOrder_keeps:
  "shop_ok S \<Longrightarrow> confirmExternalOrder env oid user a S = Inr T \<Longrightarrow> shop_ok T"
  unfolding confirmExternalOrder_def by (auto simp: bind_res_eq_Inr dest: orderAction_keeps)

lemma reconcile_order_keeps: "shop_ok S \<Longrightarrow> shop_ok (fst (reconcile_order env rid user a S))"
  unfolding reconcile_order_def reconcile_pending_def finish_applied_def
  by (auto split: option.splits sum.splits if_splits dest: confirmExternalOrder_keeps intro: paymentRefundRequired_keeps)

theorem reconcilePaymentReceipt_keeps:
  assumes "shop_ok S" "receipts_ok S"
  shows "shop_ok (fst (reconcilePaymentReceipt env rid S))"
proof -
  have amount: "0 < pr_Amount r" if "row_with pr_ID rid (sh_receipts S) = Some r" for r
    using assms(2) row_with_Some [OF that] by (auto simp: receipts_ok_def)
  show ?thesis
    unfolding reconcilePaymentReceipt_def
    using assms(1) amount
    by (auto split: option.splits sum.splits dest: credit_topup_keeps user_record_ID
        intro: paymentRefundRequired_keeps reconcile_order_keeps)
qed

section \<open>One receipt per provider transaction\<close>

text \<open>Operations that leave the identity and amount of every receipt alone.\<close>

definition receipt_key :: "PaymentReceipt \<Rightarrow> string \<times> string \<times> string \<times> int" where
  "receipt_key r = (pr_ID r, pr_AccountScope r, pr_ExternalRef r, pr_Amount r)"

definition same_receipts :: "Shop \<Rightarrow> Shop \<Rightarrow> bool" where
  "same_receipts S T \<longleftrightarrow> map receipt_key (sh_receipts T) = map receipt_key (sh_receipts S)"

lemma receipts_ok_key:
  "receipts_ok S \<longleftrightarrow> (let ks = map receipt_key (sh_receipts S) in distinct (map fst ks) \<and>
     distinct (map (\<lambda>k. (fst (snd k), fst (snd (snd k)))) ks) \<and>
     (\<forall>k \<in> set ks. 0 < snd (snd (snd k)) \<and> snd (snd (snd k)) \<le> moneyLimit))"
  by (simp add: receipts_ok_def Let_def receipt_key_def comp_def)

lemma receipts_ok_same: "same_receipts S T \<Longrightarrow> receipts_ok T \<longleftrightarrow> receipts_ok S"
  by (simp add: receipts_ok_key same_receipts_def)

lemma same_receipts_refl [simp, intro]: "same_receipts S S"
  by (simp add: same_receipts_def)

lemma same_receipts_trans: "same_receipts S T \<Longrightarrow> same_receipts T U \<Longrightarrow> same_receipts S U"
  by (simp add: same_receipts_def)

lemma same_receipts_eq: "sh_receipts T = sh_receipts S \<Longrightarrow> same_receipts S T"
  by (simp add: same_receipts_def)

lemma same_receipts_set_where:
  "(\<And>r. receipt_key (f r) = receipt_key r) \<Longrightarrow> same_receipts S (S\<lparr>sh_receipts := set_where p f (sh_receipts S)\<rparr>)"
  by (simp add: same_receipts_def map_set_where_key)

lemma same_receipts_steps:
  "same_receipts S (set_event p event c f S)" "same_receipts S (apply_receipt now rid m S)"
  "same_receipts S (sweep_receipts now S)" "same_receipts S (sweep_attempts now S)"
  "same_receipts S (paymentMarkReceiptRefund now a m S)" "same_receipts S (set_attempt a st g S)"
  "same_receipts S (commerceEvent now u e b S)"
  "(\<And>r. receipt_key (h r) = receipt_key r) \<Longrightarrow> same_receipts S (set_receipt rid state h S)"
  by (simp_all add: same_receipts_def set_event_def apply_receipt_def set_receipt_def sweep_receipts_def
      sweep_attempts_def paymentMarkReceiptRefund_def set_attempt_def commerceEvent_def map_set_where_key receipt_key_def)

lemma saveOrder_receipts: "saveOrder now ord old S = Inr T \<Longrightarrow> sh_receipts T = sh_receipts S"
  by (auto simp: saveOrder_def Let_def split: if_splits)

lemma fail_pending_receipts: "fail_pending_order now oid a m S = Inr T \<Longrightarrow> sh_receipts T = sh_receipts S"
  by (auto simp: fail_pending_order_def dest: saveOrder_receipts split: if_splits option.splits)

lemma claim_attempt_receipts:
  assumes "claim_attempt env scope event receipt a S = Inr T"
  shows "same_receipts S T"
proof -
  from assms have "\<exists>S1. sh_receipts S1 = sh_receipts S \<and> same_receipts S1 T"
    unfolding claim_attempt_def Let_def
    by (auto simp: bind_res_eq_Inr same_receipts_def map_set_where_key receipt_key_def
        dest: fail_pending_receipts split: if_splits)
  then show ?thesis by (auto simp: same_receipts_def)
qed

lemma claim_found_receipts: "claim_found env scope event receipt found S = Inr T \<Longrightarrow> same_receipts S T"
  unfolding claim_found_def by (auto split: option.splits dest: claim_attempt_receipts)

lemma same_receipts_marks:
  "same_receipts S (mark_duplicate now p event existing receipt S)" "same_receipts S (mark_recorded now p event receipt S)"
  by (simp_all add: mark_duplicate_def mark_recorded_def Let_def same_receipts_steps)

theorem record_event_receipts:
  assumes ok: "receipts_ok S" and run: "record_event_tx env p event body S = Inr (new, T)"
  shows "receipts_ok T"
    and "new \<Longrightarrow> \<exists>r. r \<in> set (sh_receipts T) \<and> pr_AccountScope r = py_scope env p \<and>
       pr_ExternalRef r = vp_ExternalRef event \<and> pr_Amount r = vp_Amount event"
proof -
  let ?rec = "event_receipt env p event body S"
  let ?S1 = "event_row env p event body S"
  let ?S2 = "?S1\<lparr>sh_receipts := sh_receipts S @ [?rec]\<rparr>"
  have rec: "receipt_key ?rec = (pr_ID ?rec, py_scope env p, vp_ExternalRef event, vp_Amount event)"
    by (simp add: receipt_key_def event_receipt_def new_receipt_def)
  have S1: "same_receipts S ?S1" by (simp add: same_receipts_def event_row_def)
  have "receipts_ok T \<and> (new \<longrightarrow> (\<exists>r. r \<in> set (sh_receipts T) \<and> pr_AccountScope r = py_scope env p \<and>
       pr_ExternalRef r = vp_ExternalRef event \<and> pr_Amount r = vp_Amount event))"
    using record_event_Inr [OF run]
  proof cases
    case 1
    with ok show ?thesis by simp
  next
    case (2 existing)
    then have "same_receipts S T" using S1 same_receipts_marks(1) same_receipts_trans by blast
    with 2 ok receipts_ok_same show ?thesis by blast
  next
    case (3 found S3)
    have same: "same_receipts ?S2 T"
      using claim_found_receipts [OF 3(6)] same_receipts_marks(2) same_receipts_trans unfolding 3(7) by blast
    have "(py_scope env p, vp_ExternalRef event) \<notin> (\<lambda>r. (pr_AccountScope r, pr_ExternalRef r)) ` set (sh_receipts S)"
      using 3(5) by (auto simp: find_None_iff same_transaction_def)
    with ok 3(2-4) rec have "receipts_ok ?S2" by (auto simp: receipts_ok_def receipt_key_def)
    then have "receipts_ok T" using receipts_ok_same [OF same] by blast
    moreover have "receipt_key ?rec \<in> set (map receipt_key (sh_receipts T))"
      using same by (simp add: same_receipts_def)
    then obtain r where "r \<in> set (sh_receipts T)" "receipt_key r = receipt_key ?rec"
      by (metis (no_types, lifting) imageE list.set_map)
    ultimately show ?thesis using rec by (auto simp: receipt_key_def)
  qed
  then show "receipts_ok T" "new \<Longrightarrow> \<exists>r. r \<in> set (sh_receipts T) \<and> pr_AccountScope r = py_scope env p \<and>
       pr_ExternalRef r = vp_ExternalRef event \<and> pr_Amount r = vp_Amount event" by simp_all
qed

text \<open>A callback delivered again is answered from the stored event: nothing changes.\<close>

definition event_keys :: "Shop \<Rightarrow> (string \<times> string \<times> string) list" where
  "event_keys S = map (\<lambda>v. (pe_ProviderID v, pe_ExternalID v, pe_PayloadHash v)) (sh_payment_events S)"

lemma event_known_keys:
  "event_known p event hash S \<longleftrightarrow>
    (\<exists>k \<in> set (event_keys S). fst k = pp_ID p \<and> (fst (snd k) = vp_EventID event \<or> snd (snd k) = hash))"
  by (auto simp: event_known_def event_keys_def list_ex_iff)

lemma marks_keys:
  "event_keys (mark_duplicate now p event existing receipt S) = event_keys S"
  "event_keys (mark_recorded now p event receipt S) = event_keys S"
  by (simp_all add: event_keys_def mark_duplicate_def mark_recorded_def set_event_def Let_def map_set_where_key)

lemma saveOrder_events: "saveOrder now ord old S = Inr T \<Longrightarrow> sh_payment_events T = sh_payment_events S"
  by (auto simp: saveOrder_def Let_def split: if_splits)

lemma fail_pending_events:
  "fail_pending_order now oid a m S = Inr T \<Longrightarrow> sh_payment_events T = sh_payment_events S"
  by (auto simp: fail_pending_order_def dest: saveOrder_events split: if_splits option.splits)

lemma claim_found_events:
  "claim_found env scope event receipt found S = Inr T \<Longrightarrow> sh_payment_events T = sh_payment_events S"
  unfolding claim_found_def claim_attempt_def Let_def
  by (auto simp: bind_res_eq_Inr dest: fail_pending_events split: if_splits option.splits)

lemma record_event_known:
  assumes "record_event_tx env p event body S = Inr (new, T)"
  shows "event_known p event (py_hash env body) T"
proof -
  have row: "event_known p event (py_hash env body) (event_row env p event body S)"
    by (simp add: event_known_def event_row_def new_event_def)
  show ?thesis
    using record_event_Inr [OF assms]
  proof cases
    case (2 existing)
    then show ?thesis using row by (simp add: event_known_keys marks_keys)
  next
    case (3 found S2)
    from claim_found_events [OF 3(6)] have "event_keys S2 = event_keys (event_row env p event body S)"
      by (simp add: event_keys_def)
    then show ?thesis using 3(7) row by (simp add: event_known_keys marks_keys)
  qed simp
qed

section \<open>What an operation leaves in the books\<close>

text \<open>
  What most operations leave alone: identity and amount of every receipt, the callbacks, the refunds,
  and the ledger up to new transactions at its end.
\<close>

definition books_kept :: "Shop \<Rightarrow> Shop \<Rightarrow> bool" where
  "books_kept S T \<longleftrightarrow> same_receipts S T \<and> sh_payment_events T = sh_payment_events S \<and> sh_refunds T = sh_refunds S \<and>
     prefix (l_txs (sh_ledger S)) (l_txs (sh_ledger T))"

lemma books_kept_refl [simp, intro]: "books_kept S S"
  by (simp add: books_kept_def)

lemma books_kept_trans: "books_kept S T \<Longrightarrow> books_kept T U \<Longrightarrow> books_kept S U"
  by (auto simp: books_kept_def intro: same_receipts_trans prefix_order.trans)

lemma books_kept_tables:
  "sh_receipts T = sh_receipts S \<Longrightarrow> sh_payment_events T = sh_payment_events S \<Longrightarrow> sh_refunds T = sh_refunds S \<Longrightarrow>
    prefix (l_txs (sh_ledger S)) (l_txs (sh_ledger T)) \<Longrightarrow> books_kept S T"
  by (simp add: books_kept_def same_receipts_eq)

lemma books_kept_writes:
  "saveOrder now ord old S = Inr T \<Longrightarrow> books_kept S T"
  "post_money ce user actor event kind reference reason da dh S = Inr T \<Longrightarrow> books_kept S T"
  "txUser u S = Inr T \<Longrightarrow> books_kept S T"
  "saveCommerceRequest ce i op rq rp S = Inr T \<Longrightarrow> books_kept S T"
  "insert_refund_request ce who req ord S = Inr T \<Longrightarrow> books_kept S T"
  "decide_refund_request ce who req q S = Inr T \<Longrightarrow> books_kept S T"
  by (rule books_kept_tables; auto simp: saveOrder_def post_money_def txUser_def saveCommerceRequest_def
      insert_refund_request_def decide_refund_request_def Let_def bind_res_eq_Inr dest!: postMoney_txs_grow split: if_splits)+

lemma books_kept_steps:
  "books_kept S (commerceEvent now u e b S)" "books_kept S (notice_step ce req ord u S)"
  "books_kept S (paymentMarkReceiptRefund now a m S)" "books_kept S (set_attempt a st g S)"
  "books_kept S (apply_receipt now rid m S)" "books_kept S (sweep_receipts now S)" "books_kept S (sweep_attempts now S)"
  by (simp_all add: books_kept_def same_receipts_steps commerceEvent_def notice_step_def notifyCommerceOwners_def
      notifyCommerceOwnersTitle_def paymentMarkReceiptRefund_def set_attempt_def apply_receipt_def set_receipt_def
      sweep_receipts_def sweep_attempts_def same_receipts_eq)
    (simp_all add: same_receipts_def map_set_where_key receipt_key_def)

lemma books_kept_cancel: "books_kept S (cancel_payment now ord S)" "books_kept S (require_provider_refund now ord S)"
  unfolding cancel_payment_def require_provider_refund_def by (blast intro: books_kept_trans books_kept_steps)+

lemma books_kept_draft_steps:
  "pay_queued_refund ce actor d S = Inr T \<Longrightarrow> books_kept S T"
  "request_step ce actor req q ord S = Inr T \<Longrightarrow> books_kept S T"
  "money_step ce actor d S = Inr T \<Longrightarrow> books_kept S T"
  by (auto simp: pay_queued_refund_def request_step_def money_step_def Let_def
      intro: books_kept_cancel books_kept_writes split: if_splits option.splits)

lemma commit_draft_pay:
  assumes "commit_draft ce actor req request old d S = Inr (ord', T)"
  shows "books_kept S T"
proof -
  define S1 where "S1 = (if aq_Action req = ''cancel'' \<and> o_PaymentAttemptID (dr_order d) \<noteq> []
     then cancel_payment (ce_now ce) (dr_order d) S else S)"
  have 1: "books_kept S S1" by (simp add: S1_def books_kept_cancel)
  define d1 where "d1 = (if aq_Action req = ''cancel'' \<and> o_PaymentAttemptID (dr_order d) \<noteq> [] \<and> old = Provisioning
     then d\<lparr>dr_order := (dr_order d)\<lparr>o_Message := ''order cancelled; refund the online payment manually''\<rparr>\<rparr> else d)"
  show ?thesis
    using assms unfolding commit_draft_def Let_def S1_def [symmetric] d1_def [symmetric]
    apply (simp only: res_simps)
    apply (elim exE conjE)
    subgoal premises prems for _ _ _ u' S2 S3 S4 S5 S6 S7
    proof -
      have "books_kept S S4"
        by (rule books_kept_trans [OF 1 books_kept_trans [OF books_kept_draft_steps(1) [OF prems(5)]
              books_kept_trans [OF books_kept_draft_steps(2) [OF prems(6)] books_kept_draft_steps(3) [OF prems(7)]]]])
      then have "books_kept S S6"
        using books_kept_writes(1) [OF prems(8)] books_kept_writes(3) [OF prems(9)] by (blast intro: books_kept_trans)
      then have "books_kept S (notice_step ce req (dr_order d1) (u_ID u') S6)"
        using books_kept_steps(2) by (rule books_kept_trans)
      with books_kept_writes(4) [OF prems(10)] prems(11) show ?thesis by (auto intro: books_kept_trans)
    qed
    done
qed

lemma orderAction_pay: "orderAction ce pw actor req S = Inr (reply, T) \<Longrightarrow> books_kept S T"
  by (drule orderAction_Inr) (auto dest: commit_draft_pay)

lemma fail_pending_pay: "fail_pending_order now oid a m S = Inr T \<Longrightarrow> books_kept S T"
  by (auto simp: fail_pending_order_def intro: books_kept_writes split: if_splits option.splits)

lemma refund_required_pay:
  assumes "refund_required_tx env rid reason S = Inr T"
  shows "books_kept S T"
proof -
  have key: "\<And>f. (\<And>r. receipt_key (f r) = receipt_key r) \<Longrightarrow> books_kept S (set_receipt rid st f S)" for st
    by (simp add: books_kept_def same_receipts_steps) (simp add: set_receipt_def)
  from assms consider "T = S" | "T = apply_receipt (py_now env) rid ''payment confirmed, provisioning'' S"
    | S2 oid a where "books_kept S S2" "fail_pending_order (py_now env) oid a reason S2 = Inr T"
  proof -
    assume t: "T = S \<Longrightarrow> thesis" "T = apply_receipt (py_now env) rid ''payment confirmed, provisioning'' S \<Longrightarrow> thesis"
      "\<And>S2 oid a. books_kept S S2 \<Longrightarrow> fail_pending_order (py_now env) oid a reason S2 = Inr T \<Longrightarrow> thesis"
    define S1 where "S1 = set_receipt rid ''verified''
                  (\<lambda>r. r\<lparr>pr_State := ''refund_required'', pr_Reason := reason, pr_Updated := py_now env\<rparr>) S"
    have S1: "books_kept S S1" unfolding S1_def by (rule key) (simp add: receipt_key_def)
    have "books_kept S (S1\<lparr>sh_attempts := as\<rparr>)" for as using S1 by (simp add: books_kept_def same_receipts_def)
    then show thesis using assms t unfolding refund_required_tx_def Let_def S1_def [symmetric]
      by (auto split: option.splits if_splits)
  qed
  then show ?thesis by cases (auto intro: books_kept_steps books_kept_trans fail_pending_pay)
qed

lemma paymentRefundRequired_pay: "books_kept S (fst (paymentRefundRequired env rid reason S))"
  by (auto simp: paymentRefundRequired_def or_keep_def dest: refund_required_pay split: sum.splits)

lemma books_kept_under:
  "books_kept S (T\<lparr>sh_attempts := as\<rparr>) \<longleftrightarrow> books_kept S T"
  "books_kept S (commerceEvent now u e b T) \<longleftrightarrow> books_kept S T"
  by (simp_all add: books_kept_def same_receipts_def commerceEvent_def)

lemma credit_topup_pay: "credit_topup_tx env receipt a S = Inr T \<Longrightarrow> books_kept S T"
proof -
  define S0 where "S0 = apply_receipt (py_now env) (pr_ID receipt) ''balance credited'' S"
  define ref where "ref = ''payment:'' @ pr_ID receipt"
  define kind where "kind = ''online_topup''"
  define why where "why = ''online balance topup''"
  assume "credit_topup_tx env receipt a S = Inr T"
  then have "T = S \<or> (\<exists>S1. post_money (py_commerce env) (pa_UserID a) 0 ref kind (pr_ID receipt) why
      (pr_Amount receipt) 0 S0 = Inr S1 \<and> books_kept S1 T)"
    unfolding credit_topup_tx_def Let_def ref_def [symmetric] kind_def [symmetric] why_def [symmetric] S0_def [symmetric]
    by (auto simp: bind_res_eq_Inr books_kept_under split: if_splits)
  moreover have S0: "books_kept S S0" unfolding S0_def by (rule books_kept_steps)
  ultimately show ?thesis
  proof (elim disjE exE conjE)
    fix S1 assume "post_money (py_commerce env) (pa_UserID a) 0 ref kind (pr_ID receipt) why (pr_Amount receipt) 0 S0 = Inr S1"
      and "books_kept S1 T"
    then show ?thesis using S0 books_kept_writes(2) [of "py_commerce env"] by (meson books_kept_trans)
  qed simp
qed

lemma confirmExternalOrder_pay: "confirmExternalOrder env oid user a S = Inr T \<Longrightarrow> books_kept S T"
  unfolding confirmExternalOrder_def by (auto simp: bind_res_eq_Inr dest: orderAction_pay)

lemma reconcile_pending_pay: "books_kept S (fst (reconcile_pending env rid ord user a S))"
proof (cases "confirmExternalOrder env (o_ID ord) user (pa_ID a) S")
  case (Inr T)
  with books_kept_trans [OF confirmExternalOrder_pay [OF Inr] books_kept_steps(5)] show ?thesis
    by (simp add: reconcile_pending_def finish_applied_def)
next
  case (Inl e)
  then show ?thesis
    by (simp add: reconcile_pending_def finish_applied_def paymentRefundRequired_pay books_kept_steps split: option.split)
qed

lemma reconcile_order_pay: "books_kept S (fst (reconcile_order env rid user a S))"
  unfolding reconcile_order_def finish_applied_def
  by (simp add: paymentRefundRequired_pay reconcile_pending_pay books_kept_steps split: option.split sum.split)

lemma reconcilePaymentReceipt_pay: "books_kept S (fst (reconcilePaymentReceipt env rid S))"
  unfolding reconcilePaymentReceipt_def
  by (auto split: option.splits sum.splits intro: paymentRefundRequired_pay reconcile_order_pay credit_topup_pay)

lemma receipts_ok_pay: "books_kept S T \<Longrightarrow> receipts_ok S \<Longrightarrow> receipts_ok T"
  unfolding books_kept_def using receipts_ok_same by blast

section \<open>Callbacks\<close>

lemma recordPaymentEvent_cases:
  assumes "recordPaymentEvent env p event body S = (T, e)"
  obtains err where "record_event_tx env p event body S = Inl err" "T = S" "e = Some err"
  | "record_event_tx env p event body S = Inr (False, T)" "e = None"
  | U where "record_event_tx env p event body S = Inr (True, U)" "e = None"
      "T = fst (reconcilePaymentReceipt env (ce_token (py_commerce env) ''GYR'') U)"
proof (cases "record_event_tx env p event body S")
  case (Inl err)
  with assms have "T = S" "e = Some err" by (simp_all add: recordPaymentEvent_def)
  with Inl show thesis by (intro that(1))
next
  case (Inr r)
  obtain new U where r: "r = (new, U)" by (cases r)
  show thesis
  proof (cases new)
    case True
    with Inr r assms have "e = None" "T = fst (reconcilePaymentReceipt env (ce_token (py_commerce env) ''GYR'') U)"
      by (auto simp: recordPaymentEvent_def)
    with True Inr r show thesis by (intro that(3)) simp_all
  next
    case False
    with Inr r assms have "e = None" "T = U" by (auto simp: recordPaymentEvent_def)
    with False Inr r show thesis by (intro that(2)) simp_all
  qed
qed

theorem recordPaymentEvent_keeps:
  assumes "shop_ok S" "receipts_ok S" "recordPaymentEvent env p event body S = (T, e)"
  shows "shop_ok T" "receipts_ok T"
proof -
  have "shop_ok T \<and> receipts_ok T"
    using assms(3)
  proof (cases rule: recordPaymentEvent_cases)
    case 2
    with assms(1,2) show ?thesis by (simp add: record_event_keeps record_event_receipts(1))
  next
    case (3 U)
    then have "shop_ok U" "receipts_ok U"
      using assms(1,2) by (simp_all add: record_event_keeps record_event_receipts(1))
    with 3(3) show ?thesis
      using reconcilePaymentReceipt_keeps receipts_ok_pay [OF reconcilePaymentReceipt_pay] by simp
  qed (use assms in simp)
  then show "shop_ok T" "receipts_ok T" by simp_all
qed

lemma record_event_valid:
  assumes "record_event_tx env p event body S = Inr r"
  shows "vp_ExternalRef event \<noteq> []" "length (vp_ExternalRef event) \<le> 200" "0 < vp_Amount event" "vp_Amount event \<le> moneyLimit"
  using assms unfolding record_event_tx_def Let_def by (auto split: if_splits)

lemma record_event_again:
  assumes "record_event_tx env p event body S = Inr r" "event_known p event (py_hash env' body) T"
  shows "record_event_tx env' p event body T = Inr (False, T)"
  using record_event_valid [OF assms(1)] assms(2) by (simp add: record_event_tx_def Let_def)

lemma known_event_id: "event_known p event h S \<Longrightarrow> sh_payment_events T = sh_payment_events S \<Longrightarrow> event_known p event h T"
  by (simp add: event_known_def)

text \<open>A callback that was accepted changes nothing when it is delivered again, at any later time.\<close>

lemma callback_again:
  assumes run: "recordPaymentEvent env p event body S = (T, None)" and hash: "py_hash env' body = py_hash env body"
  shows "recordPaymentEvent env' p event body T = (T, None)"
  using run
proof (cases rule: recordPaymentEvent_cases)
  case 2
  then have "record_event_tx env' p event body T = Inr (False, T)"
    using record_event_again record_event_known hash by metis
  then show ?thesis by (simp add: recordPaymentEvent_def)
next
  case (3 U)
  have "sh_payment_events T = sh_payment_events U"
    using reconcilePaymentReceipt_pay [of U env "ce_token (py_commerce env) ''GYR''"] 3(3) by (simp add: books_kept_def)
  then have "event_known p event (py_hash env' body) T"
    using record_event_known [OF 3(1)] hash by (simp add: event_known_def)
  then have "record_event_tx env' p event body T = Inr (False, T)"
    using record_event_again 3(1) by metis
  then show ?thesis by (simp add: recordPaymentEvent_def)
qed simp

text \<open>A second event for a recorded transaction moves no money, order, account or receipt.\<close>

lemma transaction_once:
  assumes known: "\<exists>r \<in> set (sh_receipts S). pr_AccountScope r = py_scope env p \<and> pr_ExternalRef r = vp_ExternalRef event"
    and run: "recordPaymentEvent env p event body S = (T, e)"
  shows "sh_receipts T = sh_receipts S \<and> sh_ledger T = sh_ledger S \<and> sh_orders T = sh_orders S \<and> sh_users T = sh_users S \<and>
    sh_attempts T = sh_attempts S"
proof -
  have some: "find (same_transaction (py_scope env p) (vp_ExternalRef event)) (sh_receipts S) \<noteq> None"
    using known by (auto simp: find_None_iff same_transaction_def)
  have tx: "sh_receipts U = sh_receipts S \<and> sh_ledger U = sh_ledger S \<and> sh_orders U = sh_orders S \<and> sh_users U = sh_users S \<and>
      sh_attempts U = sh_attempts S \<and> \<not> new"
    if "record_event_tx env p event body S = Inr (new, U)" for new U
    using record_event_Inr [OF that]
    by cases (use some in \<open>auto simp: mark_duplicate_def set_event_def event_row_def Let_def\<close>)
  show ?thesis
    using run by (cases rule: recordPaymentEvent_cases) (auto dest: tx)
qed

section \<open>The payment worker\<close>

lemma reconcile_all_keeps:
  "shop_ok S \<Longrightarrow> receipts_ok S \<Longrightarrow> shop_ok (fst (reconcile_all env_of rids S)) \<and> receipts_ok (fst (reconcile_all env_of rids S))"
proof (induction rids arbitrary: S)
  case (Cons rid rids)
  let ?S1 = "fst (reconcilePaymentReceipt (env_of rid) rid S)"
  have "shop_ok ?S1" "receipts_ok ?S1"
    using Cons.prems reconcilePaymentReceipt_keeps receipts_ok_pay [OF reconcilePaymentReceipt_pay] by simp_all
  from Cons.IH [OF this] show ?case by (simp add: case_prod_beta)
qed simp

theorem paymentWork_keeps:
  assumes "shop_ok S" "receipts_ok S"
  shows "shop_ok (fst (paymentWork env_of now S))" "receipts_ok (fst (paymentWork env_of now S))"
proof -
  define ids where "ids = map pr_ID (take 100 (sort_key pr_Updated (filter (\<lambda>r. pr_State r = ''verified'') (sh_receipts S))))"
  define S1 where "S1 = fst (reconcile_all env_of ids S)"
  have S1: "shop_ok S1" "receipts_ok S1" using reconcile_all_keeps [OF assms] by (simp_all add: S1_def)
  have run: "fst (paymentWork env_of now S) = sweep_attempts now (sweep_receipts now S1)"
    by (simp add: paymentWork_def ids_def S1_def case_prod_beta Let_def)
  from S1(1) show "shop_ok (fst (paymentWork env_of now S))" by (simp add: run)
  show "receipts_ok (fst (paymentWork env_of now S))"
    unfolding run using books_kept_trans [OF books_kept_steps(6) books_kept_steps(7)] S1(2) by (rule receipts_ok_pay)
qed

section \<open>Refunds\<close>

lemma close_refunded_keeps:
  assumes "shop_ok S" "close_refunded_order now receipt S = Inr T"
  shows "shop_ok T \<and> books_kept S T"
proof -
  from assms(2) consider "T = S"
    | ord where "raw_order S (pr_OrderID receipt) = Some ord" "o_State ord \<in> set refundable_order_states"
        "saveOrder now (ord\<lparr>o_State := Refunded, o_Message := ''refunded through the provider''\<rparr>) (o_State ord) S = Inr T"
    by (auto simp: close_refunded_order_def split: if_splits option.splits)
  then show ?thesis
  proof cases
    case (2 ord)
    have "order_hold ord = 0" using 2(2) by (auto simp: order_hold_def refundable_order_states_def)
    with raw_order_row [OF assms(1) 2(1)] 2(3) have "shop_ok T"
      by (intro resave_idle [OF assms(1) _ _ _ _ _ same_core_refl 2(3), of ord])
         (simp_all add: order_hold_def same_order_def)
    with books_kept_writes(1) [OF 2(3)] show ?thesis by simp
  qed (use assms(1) in simp)
qed

lemma finishPaymentRefund_keeps:
  assumes ok: "shop_ok S" and run: "finishPaymentRefund now receipt ref S = Inr T"
  shows "shop_ok T" "books_kept S T"
proof -
  define S1 where "S1 = set_receipt (pr_ID receipt) ''refund_pending''
            (\<lambda>r. r\<lparr>pr_State := ''refunded'', pr_Reason := ''provider refund confirmed'', pr_Updated := now\<rparr>) S"
  have S1: "shop_ok S1" "books_kept S S1"
    using ok by (simp_all add: S1_def books_kept_def same_receipts_steps receipt_key_def) (simp_all add: set_receipt_def)
  obtain as b S3 where S3: "(if b then close_refunded_order now receipt (S1\<lparr>sh_attempts := as\<rparr>) else Inr (S1\<lparr>sh_attempts := as\<rparr>)) = Inr S3"
    "T = S3 \<or> (\<exists>u e m. T = commerceEvent now u e m S3)"
    using run unfolding finishPaymentRefund_def Let_def S1_def [symmetric]
    apply (simp only: res_simps sum.inject)
    apply (elim exE conjE)
    subgoal premises prems for S3
    proof (rule prems(1))
      show "T = S3 \<or> (\<exists>u e m. T = commerceEvent now u e m S3)" using prems(3) by (metis (full_types))
    qed (rule prems(2))
    done
  have S2: "shop_ok (S1\<lparr>sh_attempts := as\<rparr>)" "books_kept S (S1\<lparr>sh_attempts := as\<rparr>)"
    using S1 by (simp_all add: books_kept_under)
  have "shop_ok S3 \<and> books_kept S S3"
    using S3(1) S2 close_refunded_keeps [OF S2(1)] by (auto intro: books_kept_trans split: if_splits)
  with S3(2) show "shop_ok T" "books_kept S T" by (auto simp: books_kept_under)
qed

definition refunds_ok :: "Shop \<Rightarrow> bool" where
  "refunds_ok S \<longleftrightarrow> distinct (map pf_ReceiptID (sh_refunds S)) \<and> distinct (map pf_ID (sh_refunds S)) \<and>
     (\<forall>f \<in> set (sh_refunds S). 0 < pf_Amount f)"

lemma refunds_ok_pay: "books_kept S T \<Longrightarrow> refunds_ok T \<longleftrightarrow> refunds_ok S"
  by (simp add: books_kept_def refunds_ok_def)

lemma insert_refund_keeps:
  assumes "insert_refund f S = Inr T"
  shows "same_core S T" "same_receipts S T" "refunds_ok S \<Longrightarrow> refunds_ok T"
    "\<forall>g \<in> set (sh_refunds S). pf_ReceiptID g \<noteq> pf_ReceiptID f"
proof -
  have new: "0 < pf_Amount f" "\<forall>g \<in> set (sh_refunds S). pf_ID g \<noteq> pf_ID f \<and> pf_ReceiptID g \<noteq> pf_ReceiptID f"
    and T: "T = S\<lparr>sh_refunds := sh_refunds S @ [f]\<rparr>"
    using assms by (auto simp: insert_refund_def list_ex_iff split: if_splits)
  from T show "same_core S T" "same_receipts S T" by (simp_all add: core_tables same_receipts_def)
  from new show "refunds_ok S \<Longrightarrow> refunds_ok T" by (fastforce simp: refunds_ok_def T)
  from new show "\<forall>g \<in> set (sh_refunds S). pf_ReceiptID g \<noteq> pf_ReceiptID f" by blast
qed

lemma commerceReplay_core: "saveCommerceRequest ce i op rq rp S = Inr T \<Longrightarrow> same_core S T"
  by (rule core_requests(3))

lemma paymentRefundAction_Inr:
  assumes "paymentRefundAction env pw actor req0 S = Inr (reply, T)"
  defines "req \<equiv> req0\<lparr>fq_Reason := trim_space (fq_Reason req0), fq_ExternalRef := trim_space (fq_ExternalRef req0)\<rparr>"
  obtains "T = S"
  | receipt refund S1 S2 hit f where "row_with pr_ID (fq_ReceiptID req) (sh_receipts S) = Some receipt"
      "reply = PaymentRefundReply refund" "pf_ReceiptID refund = pr_ID receipt" "pf_Amount refund = refund_amount (py_now env) receipt S"
      "pr_State receipt \<in> {''refund_required'', ''review_required''}"
      "\<And>r. receipt_key (f r) = receipt_key r"
      "insert_refund refund (S\<lparr>sh_receipts := set_where hit f (sh_receipts S)\<rparr>) = Inr S1"
      "S2 = S1 \<or> finishPaymentRefund (py_now env) receipt (pf_ExternalRef refund) S1 = Inr S2"
      "saveCommerceRequest (py_commerce env) (u_ID actor) (fq_OperationID req) (PaymentRefundRequest req) reply S2 = Inr T"
proof -
  note run = assms(1) [unfolded paymentRefundAction_def Let_def, folded req_def]
  obtain y where y: "commerceReplay (py_commerce env) (u_ID actor) (fq_OperationID req) (PaymentRefundRequest req) S = Inr y"
    using run by (auto simp: res_simps)
  show thesis
  proof (cases y)
    case (Some z)
    have "T = S" using run by (simp only: y Some res_simps option.case sum.inject) (elim exE conjE, simp)
    then show thesis by (rule that(1))
  next
    case None
    obtain receipt where r: "row_with pr_ID (fq_ReceiptID req) (sh_receipts S) = Some receipt"
      using run by (cases "row_with pr_ID (fq_ReceiptID req) (sh_receipts S)") (auto simp only: y None res_simps option.case)
    show thesis
      using run
      apply (simp only: y None r res_simps option.case sum.inject prod.inject)
      apply (elim exE conjE)
      subgoal premises prems for _ _ _ prov _ _ S1 S2 T1
      proof (rule that(2) [OF r prems(10) [symmetric] _ _ _ _ prems(7)])
        show "pr_State receipt \<in> {''refund_required'', ''review_required''}" using prems(3) by blast
        show "S2 = S1 \<or> finishPaymentRefund (py_now env) receipt (pf_ExternalRef
            (new_refund env actor req receipt prov (refund_amount (py_now env) receipt S))) S1 = Inr S2"
          using prems(8) by (simp split: if_splits)
        show "saveCommerceRequest (py_commerce env) (u_ID actor) (fq_OperationID req) (PaymentRefundRequest req) reply S2 = Inr T"
          using prems(9-11) by simp
      qed (simp_all add: new_refund_def Let_def receipt_key_def)
      done
  qed
qed

lemma books_kept_rows:
  "same_receipts S (S\<lparr>sh_receipts := set_where hit f (sh_receipts S)\<rparr>)" if "\<And>r. receipt_key (f r) = receipt_key r"
  using that by (rule same_receipts_set_where)

theorem paymentRefundAction_keeps:
  assumes ok: "shop_ok S" "receipts_ok S" "refunds_ok S" and run: "paymentRefundAction env pw actor req S = Inr (reply, T)"
  shows "shop_ok T" "receipts_ok T" "refunds_ok T"
proof -
  have "shop_ok T \<and> receipts_ok T \<and> refunds_ok T"
    using run
  proof (cases rule: paymentRefundAction_Inr)
    case (2 receipt refund S1 S2 hit f)
    let ?S0 = "S\<lparr>sh_receipts := set_where hit f (sh_receipts S)\<rparr>"
    have S0: "shop_ok ?S0" "same_receipts S ?S0" "refunds_ok ?S0"
      using ok(1,3) books_kept_rows [OF 2(6)] by (simp_all add: refunds_ok_def)
    have S1: "shop_ok S1" "receipts_ok S1" "refunds_ok S1"
      using insert_refund_keeps [OF 2(7)] S0 ok(2) shop_ok_core_trans receipts_ok_same same_receipts_trans by blast+
    have S2: "shop_ok S2" "books_kept S1 S2"
      using 2(8) S1(1) finishPaymentRefund_keeps [OF S1(1)] by auto
    have "books_kept S1 T" using S2(2) books_kept_writes(4) [OF 2(9)] by (rule books_kept_trans)
    moreover have "shop_ok T" using S2(1) core_requests(3) [OF 2(9)] by (rule shop_ok_core_trans)
    ultimately show ?thesis using S1 receipts_ok_pay refunds_ok_pay by blast
  qed (use ok in simp)
  then show "shop_ok T" "receipts_ok T" "refunds_ok T" by simp_all
qed

definition refund_key :: "PaymentRefund \<Rightarrow> string \<times> string \<times> int" where
  "refund_key f = (pf_ID f, pf_ReceiptID f, pf_Amount f)"

definition same_refunds :: "Shop \<Rightarrow> Shop \<Rightarrow> bool" where
  "same_refunds S T \<longleftrightarrow> map refund_key (sh_refunds T) = map refund_key (sh_refunds S)"

lemma refunds_ok_key:
  "refunds_ok S \<longleftrightarrow> (let ks = map refund_key (sh_refunds S) in distinct (map (\<lambda>k. fst (snd k)) ks) \<and>
     distinct (map fst ks) \<and> (\<forall>k \<in> set ks. 0 < snd (snd k)))"
  by (simp add: refunds_ok_def refund_key_def Let_def comp_def)

lemma refunds_ok_same: "same_refunds S T \<Longrightarrow> refunds_ok T \<longleftrightarrow> refunds_ok S"
  by (simp add: refunds_ok_key same_refunds_def)

lemma same_refunds_pay: "books_kept S T \<Longrightarrow> same_refunds S T"
  by (simp add: books_kept_def same_refunds_def)

lemma same_refunds_trans: "same_refunds S T \<Longrightarrow> same_refunds T U \<Longrightarrow> same_refunds S U"
  by (simp add: same_refunds_def)

definition refund_frame :: "Shop \<Rightarrow> Shop \<Rightarrow> bool" where
  "refund_frame S T \<longleftrightarrow> same_receipts S T \<and> same_refunds S T \<and> sh_payment_events T = sh_payment_events S \<and>
     prefix (l_txs (sh_ledger S)) (l_txs (sh_ledger T))"

lemma refund_frame_trans: "refund_frame S T \<Longrightarrow> refund_frame T U \<Longrightarrow> refund_frame S U"
  by (auto simp: refund_frame_def intro: same_receipts_trans same_refunds_trans prefix_order.trans)

lemma refund_frame_refl [simp]: "refund_frame S S"
  by (simp add: refund_frame_def same_refunds_def)

lemma refund_frame_pay: "books_kept S T \<Longrightarrow> refund_frame S T"
  by (simp add: refund_frame_def same_refunds_pay) (simp add: books_kept_def)

lemma refund_frame_write:
  "(\<And>g. refund_key (h g) = refund_key g) \<Longrightarrow> refund_frame S (S\<lparr>sh_refunds := set_where hit h (sh_refunds S)\<rparr>)"
  by (simp add: refund_frame_def same_receipts_def same_refunds_def map_set_where_key)

lemma refund_frame_ok: "refund_frame S T \<Longrightarrow> receipts_ok S \<Longrightarrow> refunds_ok S \<Longrightarrow> receipts_ok T \<and> refunds_ok T"
  unfolding refund_frame_def using receipts_ok_same refunds_ok_same by blast

lemma if_result:
  "(if b then Inl e else r) = Inr y \<longleftrightarrow> \<not> b \<and> r = Inr y"
  "(if b then Inr x else r) = Inr y \<longleftrightarrow> b \<and> x = y \<or> \<not> b \<and> r = Inr y"
  "(if b then r else r') = Inr y \<longleftrightarrow> b \<and> r = Inr y \<or> \<not> b \<and> r' = Inr y"
  "(Inr x :: 'e + 'a) = Inr y \<longleftrightarrow> x = y"
  by auto

lemma recordStripeRefund_Inr:
  assumes "recordStripeRefund env p event S = Inr T"
  obtains "T = S"
  | hit h receipt ref T1 where "\<And>g. refund_key (h g) = refund_key g"
      "T1 = S\<lparr>sh_refunds := set_where hit h (sh_refunds S)\<rparr>"
      "finishPaymentRefund (py_now env) receipt ref T1 = Inr T \<or> T = T1 \<or>
       (\<exists>hit2 f. (\<forall>r. receipt_key (f r) = receipt_key r) \<and> T = T1\<lparr>sh_receipts := set_where hit2 f (sh_receipts T1)\<rparr>)"
proof (cases "find (same_transaction (py_scope env p) (vp_ExternalRef event)) (sh_receipts S)")
  case None
  with assms show thesis by (intro that(1)) (simp add: recordStripeRefund_def Let_def split: if_splits)
next
  case (Some receipt)
  show thesis
  proof (cases "row_with pf_ReceiptID (pr_ID receipt) (sh_refunds S)")
    case None
    with Some assms show thesis by (intro that(1)) (simp add: recordStripeRefund_def Let_def split: if_splits)
  next
    case f: (Some f)
    obtain next_state message where out: "refund_outcome (vp_RefundStatus event) = (next_state, message)"
      by (cases "refund_outcome (vp_RefundStatus event)")
    define hit :: "PaymentRefund \<Rightarrow> bool" where "hit = (\<lambda>g. pf_ID g = pf_ID f \<and> pf_State g \<in> {''queued'', ''processing'', ''pending''} \<and>
                   (pf_ExternalRef g = [] \<or> pf_ExternalRef g = vp_RefundID event))"
    define h :: "PaymentRefund \<Rightarrow> PaymentRefund" where "h = (\<lambda>g. g\<lparr>pf_State := next_state, pf_ExternalRef := vp_RefundID event,
                    pf_Message := message, pf_Updated := py_now env, pf_NextAttempt := py_now env + 60\<rparr>)"
    define T1 where "T1 = S\<lparr>sh_refunds := set_where hit h (sh_refunds S)\<rparr>"
    define mark :: "PaymentReceipt \<Rightarrow> PaymentReceipt" where "mark = (\<lambda>r. r\<lparr>pr_Reason := message, pr_Updated := py_now env\<rparr>)"
    have key: "\<And>g. refund_key (h g) = refund_key g" "\<forall>r. receipt_key (mark r) = receipt_key r"
      by (simp_all add: h_def refund_key_def mark_def receipt_key_def)
    note run = assms [unfolded recordStripeRefund_def Let_def Some f out option.case prod.case,
        folded hit_def h_def, folded T1_def, folded mark_def, unfolded if_result]
    from run consider "T = S" | "finishPaymentRefund (py_now env) receipt (vp_RefundID event) T1 = Inr T" | "T = T1"
      | "T = T1\<lparr>sh_receipts := set_where (\<lambda>r. pr_ID r = pr_ID receipt) mark (sh_receipts T1)\<rparr>"
      by blast
    then show thesis
      by cases (use that(1) that(2) [OF key(1) T1_def, of receipt "vp_RefundID event"] key(2) in blast)+
  qed
qed

theorem recordStripeRefund_keeps:
  assumes ok: "shop_ok S" and run: "recordStripeRefund env p event S = Inr T"
  shows "shop_ok T" "refund_frame S T"
proof -
  have "shop_ok T \<and> refund_frame S T"
    using run
  proof (cases rule: recordStripeRefund_Inr)
    case (2 hit h receipt ref T1)
    have T1: "shop_ok T1" "refund_frame S T1" using ok refund_frame_write [OF 2(1)] by (simp_all add: 2(2))
    from 2(3) have "shop_ok T \<and> refund_frame T1 T"
    proof (elim disjE exE conjE)
      assume "finishPaymentRefund (py_now env) receipt ref T1 = Inr T"
      with finishPaymentRefund_keeps [OF T1(1)] refund_frame_pay show ?thesis by blast
    next
      fix hit2 f assume "\<forall>r. receipt_key (f r) = receipt_key r" "T = T1\<lparr>sh_receipts := set_where hit2 f (sh_receipts T1)\<rparr>"
      with T1(1) same_receipts_set_where [of f T1 hit2] show ?thesis
        by (simp add: refund_frame_def same_refunds_def)
    qed (use T1(1) in simp)
    with T1 refund_frame_trans show ?thesis by blast
  qed (use ok in simp)
  then show "shop_ok T" "refund_frame S T" by simp_all
qed

text \<open>\<open>paymentRefundWork\<close>: every branch writes the refund row without touching its identity or amount.\<close>

definition claimed :: "int \<Rightarrow> PaymentRefund \<Rightarrow> Shop \<Rightarrow> Shop" where
  "claimed now refund S = S\<lparr>sh_refunds := set_where (\<lambda>g. pf_ID g = pf_ID refund \<and> refund_claimable now g)
     (\<lambda>g. g\<lparr>pf_State := ''processing'', pf_NextAttempt := now + 60, pf_Attempts := pf_Attempts g + 1,
            pf_Updated := now\<rparr>) (sh_refunds S)\<rparr>"

lemma claimed_frame: "shop_ok (claimed now refund S) \<longleftrightarrow> shop_ok S" "refund_frame S (claimed now refund S)"
proof -
  show "shop_ok (claimed now refund S) \<longleftrightarrow> shop_ok S" by (simp add: claimed_def)
  show "refund_frame S (claimed now refund S)"
    unfolding claimed_def by (rule refund_frame_write) (simp add: refund_key_def)
qed

lemma set_refund_frame:
  "(\<And>g. refund_key (h g) = refund_key g) \<Longrightarrow> refund_frame S (set_refund fid sts h S)"
  unfolding set_refund_def by (rule refund_frame_write)

lemma or_keep_frame:
  assumes "shop_ok S" "\<And>T. r = Inr T \<Longrightarrow> shop_ok T \<and> refund_frame S T"
  shows "shop_ok (fst (or_keep S r)) \<and> refund_frame S (fst (or_keep S r))"
  using assms by (cases r) (simp_all add: or_keep_def)

theorem work_refund_keeps:
  assumes ok: "shop_ok S"
  shows "shop_ok (fst (work_refund env get post refund S))" "refund_frame S (fst (work_refund env get post refund S))"
proof -
  let ?now = "py_now env"
  define C where "C = claimed ?now refund S"
  have C: "shop_ok C" "refund_frame S C" using ok claimed_frame by (simp_all add: C_def)
  have failed: "shop_ok (set_refund i sts h C) \<and> refund_frame S (set_refund i sts h C)"
    if "\<And>g. refund_key (h g) = refund_key g" for i sts h
    using C refund_frame_trans [OF C(2) set_refund_frame] that by simp
  have rec: "shop_ok (fst (or_keep C (recordStripeRefund env p ev C))) \<and>
      refund_frame S (fst (or_keep C (recordStripeRefund env p ev C)))" for p ev
  proof -
    have "shop_ok (fst (or_keep C (recordStripeRefund env p ev C))) \<and>
        refund_frame C (fst (or_keep C (recordStripeRefund env p ev C)))"
      using recordStripeRefund_keeps [OF C(1)] by (intro or_keep_frame [OF C(1)]) blast
    then show ?thesis using refund_frame_trans [OF C(2)] by blast
  qed
  have "shop_ok (fst (work_refund env get post refund S)) \<and> refund_frame S (fst (work_refund env get post refund S))"
    unfolding work_refund_def Let_def claimed_def [symmetric] C_def [symmetric]
    using ok C failed rec by (simp add: refund_key_def split: option.split sum.split)
  then show "shop_ok (fst (work_refund env get post refund S))" "refund_frame S (fst (work_refund env get post refund S))"
    by simp_all
qed

lemma paymentRefundWork_keeps:
  "shop_ok S \<Longrightarrow> shop_ok (fst (paymentRefundWork env_of get post fs S)) \<and>
    refund_frame S (fst (paymentRefundWork env_of get post fs S))"
proof (induction fs arbitrary: S)
  case (Cons f fs)
  let ?S1 = "fst (work_refund (env_of f) get post f S)"
  have "shop_ok ?S1" "refund_frame S ?S1" using Cons.prems work_refund_keeps by simp_all
  with Cons.IH [OF this(1)] refund_frame_trans [OF this(2)] show ?case by (simp add: case_prod_beta)
qed simp

text \<open>
  A refund of a part of the receipt: Stripe is asked for the whole receipt, so its answer never
  matches the stored amount and the refund never succeeds.
\<close>

lemma find_transaction:
  assumes "receipts_ok S" "row_with pr_ID rid (sh_receipts S) = Some receipt"
  shows "find (same_transaction (pr_AccountScope receipt) (pr_ExternalRef receipt)) (sh_receipts S) = Some receipt"
proof -
  let ?p = "same_transaction (pr_AccountScope receipt) (pr_ExternalRef receipt)"
  have mem: "receipt \<in> set (sh_receipts S)" using row_with_Some [OF assms(2)] by simp
  then obtain r where r: "find ?p (sh_receipts S) = Some r"
    by (cases "find ?p (sh_receipts S)") (auto simp: find_None_iff same_transaction_def)
  then have "r \<in> set (sh_receipts S)" "?p r" by (auto simp: find_Some_iff)
  moreover have "inj_on (\<lambda>r. (pr_AccountScope r, pr_ExternalRef r)) (set (sh_receipts S))"
    using assms(1) by (simp add: receipts_ok_def distinct_map)
  ultimately have "r = receipt" using mem by (auto simp: same_transaction_def inj_on_def)
  with r show ?thesis by simp
qed

lemma partial_refund_stuck:
  assumes ok: "receipts_ok S" "refunds_ok S" and refund: "refund \<in> set (sh_refunds S)" "refund_claimable (py_now env) refund"
    and fresh: "pf_ExternalRef refund = []" and part: "pf_Amount refund \<noteq> pr_Amount receipt"
    and receipt: "row_with pr_ID (pf_ReceiptID refund) (sh_receipts S) = Some receipt" "pr_ExternalRef receipt \<noteq> []"
    and attempt: "row_with pa_ID (pr_AttemptID receipt) (sh_attempts S) = Some a"
    and provider: "py_attempt_provider env a = Some p" "pp_Code p = ''stripe''" "py_scope env p = pr_AccountScope receipt"
    and stripe: "post (pr_ExternalRef receipt) (pr_Amount receipt) (''gy-refund-'' @ pf_ID refund) = Inr remote"
      "sr_ID remote \<noteq> []" "sr_PaymentIntent remote = pr_ExternalRef receipt" "sr_Amount remote = pr_Amount receipt"
  shows "work_refund env get post refund S = (claimed (py_now env) refund S, Some (Broken ''refund receipt mismatch''))"
proof -
  let ?C = "claimed (py_now env) refund S"
  let ?hit = "\<lambda>g. pf_ID g = pf_ID refund \<and> refund_claimable (py_now env) g"
  have hit: "affected ?hit (sh_refunds S) \<noteq> 0" using refund by (auto simp: affected_def filter_empty_conv)
  have rows: "sh_receipts ?C = sh_receipts S" "sh_attempts ?C = sh_attempts S" by (simp_all add: claimed_def)
  have "refund_frame S ?C" by (rule claimed_frame)
  then have C: "refunds_ok ?C" using refund_frame_ok ok by blast
  define g where "g = refund\<lparr>pf_State := ''processing'', pf_NextAttempt := py_now env + 60,
     pf_Attempts := pf_Attempts refund + 1, pf_Updated := py_now env\<rparr>"
  have g: "g \<in> set (sh_refunds ?C)" "pf_ReceiptID g = pf_ReceiptID refund" "pf_Amount g = pf_Amount refund"
      "pf_State g = ''processing''"
    using refund by (force simp: claimed_def set_set_where g_def)+
  have row: "row_with pf_ReceiptID (pf_ReceiptID refund) (sh_refunds ?C) = Some g"
    using row_with_unique [of pf_ReceiptID "sh_refunds ?C" g] C g(1,2) by (simp add: refunds_ok_def)
  have pid: "pr_ID receipt = pf_ReceiptID refund" using row_with_Some [OF receipt(1)] by simp
  have find: "find (same_transaction (py_scope env p) (pr_ExternalRef receipt)) (sh_receipts ?C) = Some receipt"
    using find_transaction [OF ok(1) receipt(1)] by (simp add: provider(3) rows)
  have pos: "0 < pf_Amount refund" using ok(2) refund(1) by (simp add: refunds_ok_def)
  have "recordStripeRefund env p \<lparr>vp_EventID = [], vp_MerchantRef = [], vp_ExternalRef = sr_PaymentIntent remote,
      vp_Amount = sr_Amount remote, vp_Currency = map upper_char (sr_Currency remote), vp_Status = [],
      vp_RefundID = sr_ID remote, vp_RefundStatus = sr_Status remote, vp_ReviewReason = []\<rparr> ?C
    = Inl (Broken ''refund receipt mismatch'')"
    using stripe(2-4) receipt(2) part pos g(3,4) find row
    by (simp add: recordStripeRefund_def pid Let_def split: prod.split)
  with hit receipt(1) attempt provider(1,2) fresh stripe(1) rows show ?thesis
    by (simp add: work_refund_def Let_def or_keep_def flip: claimed_def)
qed

end
