(* ===== verification/Quota_Cycles.thy ===== *)
theory Quota_Cycles
  imports Fulfilment
begin

text \<open>
  The sweep over quota periods (\<open>entitlement_cycles.go\<close>, \<open>advanceQuotaPeriods\<close>): a plan that has ended gives
  way to the last paused one, a quota period that has ended is closed, archived and reopened. Both first block the
  account, wait until no subsite holds a grant of it, and settle the connections of the local core.
\<close>

section \<open>Surroundings\<close>

text \<open>
  \<open>cy_settle\<close> is \<open>reconcile\<close>, \<open>collect\<close> and \<open>settleHYRevocations\<close>, \<open>cy_reconcile\<close> the
  \<open>reconcile\<close> after a plan came back.
\<close>

record cycle_env =
  cy_commerce :: commerce_env
  cy_settle :: "Shop \<Rightarrow> Shop \<times> commerce_error option"
  cy_reconcile :: "Shop \<Rightarrow> Shop \<times> commerce_error option"

text \<open>
  What one round of the loop leaves: the store, the sites as the sweep holds them in memory, and the error that ends
  the sweep.
\<close>

type_synonym cycle_round = "Shop \<times> BusinessSite list \<times> commerce_error option"

text \<open>\<open>Store.save\<close> of a stored account: every column is written.\<close>

definition save_record :: "commerce_env \<Rightarrow> Record \<Rightarrow> Shop \<Rightarrow> Shop" where
  "save_record env u S =
    (let c = r_Credentials u;
         u' = (if cr_PublicToken c = [] then u\<lparr>r_Credentials := c\<lparr>cr_PublicToken := ce_token env ''public''\<rparr>\<rparr> else u)
     in S\<lparr>sh_users := set_where (\<lambda>r. u_ID r = u_ID u) (\<lambda>_. u') (sh_users S)\<rparr>)"

text \<open>\<open>UPDATE users SET doc=? WHERE id=?\<close>.\<close>

definition write_user :: "Record \<Rightarrow> Shop \<Rightarrow> Shop" where
  "write_user u S = S\<lparr>sh_users := set_where (\<lambda>r. u_ID r = u_ID u) (with_user (User.truncate u)) (sh_users S)\<rparr>"

definition settled :: "cycle_env \<Rightarrow> BusinessSite list \<Rightarrow> int \<Rightarrow> (Shop \<Rightarrow> Record \<Rightarrow> cycle_round) \<Rightarrow> Shop \<Rightarrow> cycle_round" where
  "settled env sites user k S =
    (if \<not> old_grants_settled user sites then (S, sites, None)
     else case cy_settle env S of
       (S1, Some e) \<Rightarrow> (S1, sites, Some e)
     | (S1, None) \<Rightarrow> (case user_record S1 user of None \<Rightarrow> (S1, sites, Some (NoRows ''users'')) | Some u \<Rightarrow> k S1 u))"

section \<open>A plan that has ended\<close>

definition plan_over :: "int \<Rightarrow> Record \<Rightarrow> bool" where
  "plan_over now u \<longleftrightarrow> u_PlanQueue u \<noteq> [] \<and> u_Expires u > 0 \<and> now \<ge> u_Expires u"

definition meter_of :: "Record \<Rightarrow> QuotaMeter" where
  "meter_of u = (case u_Meter u of None \<Rightarrow> empty_meter | Some m \<Rightarrow> m)"

definition swap_plan :: "cycle_env \<Rightarrow> BusinessSite list \<Rightarrow> Shop \<Rightarrow> Record \<Rightarrow> cycle_round" where
  "swap_plan env sites S u =
    (let ce = cy_commerce env; oldPeriod = (case u_Meter u of None \<Rightarrow> [] | Some m \<Rightarrow> qm_PeriodID m) in
     case restorePreviousPlan (ce_token ce ''period'') (ce_token ce ''GYV'') (ce_now ce) u of
       (False, _) \<Rightarrow> (S, sites, None)
     | (True, v) \<Rightarrow>
         let S1 = (if oldPeriod \<noteq> [] then insert_period (u_ID u) oldPeriod (User.truncate u) S else S);
             (S2, e) = cy_reconcile env (write_user v S1)
         in (S2, sites, e))"

definition end_plan :: "cycle_env \<Rightarrow> BusinessSite list \<Rightarrow> Shop \<Rightarrow> Record \<Rightarrow> cycle_round" where
  "end_plan env sites S u0 =
    (let ce = cy_commerce env; u = InitMeter (''period-'' @ ce_token ce ''period'') (ce_now ce) u0 in
     if \<not> qm_PendingReset (meter_of u) then (save_record ce (set_pending_reset True u) S, sites, None)
     else settled env sites (u_ID u) (swap_plan env sites) S)"

section \<open>A period that has ended\<close>

text \<open>Where the next period starts: whole cycles after the end of the last one.\<close>

definition cycle_start :: "(string \<Rightarrow> location option) \<Rightarrow> int \<Rightarrow> QuotaMeter \<Rightarrow> Entitlement option \<Rightarrow> meter_error + int" where
  "cycle_start tz now m ent =
    (case ent of None \<Rightarrow> Inr now
     | Some e \<Rightarrow>
        if qm_End m > 0 \<and> qm_End m \<le> now
        then if en_Cycle e = ''30d'' then Inr (qm_End m + (now - qm_End m) div (30 * 86400) * (30 * 86400))
             else if en_Cycle e = ''month''
             then (case tz (en_Timezone e) of None \<Rightarrow> Inl UnknownTimezone
                   | Some loc \<Rightarrow> (let (y, mo) = year_month_in loc now in Inr (month_start_unix loc y mo)))
             else Inr (qm_End m)
        else Inr now)"

definition cycle_end :: "(string \<Rightarrow> location option) \<Rightarrow> int \<Rightarrow> Entitlement option \<Rightarrow> meter_error + int" where
  "cycle_end tz start ent = (case ent of None \<Rightarrow> Inr 0 | Some e \<Rightarrow> NextPeriod tz start (en_Cycle e) (en_Timezone e))"

text \<open>A grant of the account moves into the new period: its quota is the lifetime usage plus its budget.\<close>

definition renew_grant :: "int \<Rightarrow> string \<Rightarrow> BusinessSite \<Rightarrow> BusinessGrant \<Rightarrow> meter_error + BusinessGrant" where
  "renew_grant user period s g =
    (if bg_UserID g \<noteq> user then Inr g
     else let budget = (if bg_Budget g = 0 \<and> bg_Quota g > 0 then bg_Quota g else bg_Budget g) in
       bind_res (if bg_Quota g > 0 then AddCounter (usage_total (site_usage s user)) budget else Inr (bg_Quota g)) (\<lambda>quota.
       Inr (g\<lparr>bg_Budget := budget, bg_Quota := quota, bg_PeriodID := period\<rparr>)))"

fun renew_grants :: "int \<Rightarrow> string \<Rightarrow> BusinessSite \<Rightarrow> BusinessGrant list \<Rightarrow> meter_error + BusinessGrant list" where
  "renew_grants user period s [] = Inr []"
| "renew_grants user period s (g # gs) =
    bind_res (renew_grant user period s g) (\<lambda>h. bind_res (renew_grants user period s gs) (\<lambda>hs. Inr (h # hs)))"

definition renew_site :: "string \<Rightarrow> int \<Rightarrow> string \<Rightarrow> BusinessSite \<Rightarrow> meter_error + BusinessSite" where
  "renew_site revision user period s =
    (if \<not> has_grant user s then Inr s
     else bind_res (renew_grants user period s (bs_Grants s)) (\<lambda>gs. Inr (s\<lparr>bs_Grants := gs, bs_Revision := revision\<rparr>)))"

fun renew_sites :: "string \<Rightarrow> int \<Rightarrow> string \<Rightarrow> BusinessSite list \<Rightarrow> meter_error + BusinessSite list" where
  "renew_sites revision user period [] = Inr []"
| "renew_sites revision user period (s # sites) =
    bind_res (renew_site revision user period s) (\<lambda>t. bind_res (renew_sites revision user period sites) (\<lambda>ts. Inr (t # ts)))"

text \<open>\<open>UPDATE business_sites SET doc=? WHERE id=?\<close> for every site that changed.\<close>

definition store_sites :: "int \<Rightarrow> BusinessSite list \<Rightarrow> BusinessSite list \<Rightarrow> BusinessSite list" where
  "store_sites user sites stored =
    fold (\<lambda>s. if has_grant user s then set_where (\<lambda>t. bs_ID t = bs_ID s) (\<lambda>_. s) else (\<lambda>ts. ts)) sites stored"

definition renew_period :: "cycle_env \<Rightarrow> BusinessSite list \<Rightarrow> Shop \<Rightarrow> Record \<Rightarrow> cycle_round" where
  "renew_period env sites S u =
    (let ce = cy_commerce env; now = ce_now ce; period = ''period-'' @ ce_token ce ''period'' in
     case u_Meter u of None \<Rightarrow> (S, sites, Some (Broken ''no meter''))
     | Some m \<Rightarrow>
        (case bind_res (cycle_start (ce_tz ce) now m (u_Entitlement u)) (\<lambda>start.
              bind_res (cycle_end (ce_tz ce) start (u_Entitlement u)) (\<lambda>fin. Inr (start, fin))) of
           Inl e \<Rightarrow> (S, sites, Some (Meter e))
         | Inr (start, fin) \<Rightarrow>
            (case renew_sites (ce_token ce ''GYV-site'') (u_ID u) period sites of
               Inl e \<Rightarrow> (S, sites, Some (Meter e))
             | Inr sites' \<Rightarrow>
                let S1 = insert_period (u_ID u) (qm_PeriodID m) (User.truncate u) S;
                    S2 = S1\<lparr>sh_sites := store_sites (u_ID u) sites' (sh_sites S1)\<rparr>
                in (write_user (open_period start period fin u) S2, sites', None))))"

definition end_period :: "cycle_env \<Rightarrow> BusinessSite list \<Rightarrow> Shop \<Rightarrow> Record \<Rightarrow> cycle_round" where
  "end_period env sites S u =
    (let ce = cy_commerce env; now = ce_now ce in
     case u_Meter u of None \<Rightarrow> (S, sites, None)
     | Some m \<Rightarrow>
        let due = \<not> qm_PendingReset m \<and> qm_End m > 0 \<and> now \<ge> qm_End m;
            S1 = (if due then save_record ce (set_pending_reset True u) S else S)
        in if \<not> (qm_PendingReset m \<or> due) then (S1, sites, None)
           else settled env sites (u_ID u) (renew_period env sites) S1)"

section \<open>The sweep\<close>

definition advance_user :: "cycle_env \<Rightarrow> Record \<Rightarrow> Shop \<Rightarrow> BusinessSite list \<Rightarrow> cycle_round" where
  "advance_user env u S sites =
    (if commerceBarrier (u_ID u) S then (S, sites, None)
     else if plan_over (ce_now (cy_commerce env)) u then end_plan env sites S u
     else end_period env sites S u)"

fun advance_users :: "(int \<Rightarrow> cycle_env) \<Rightarrow> Record list \<Rightarrow> Shop \<Rightarrow> BusinessSite list \<Rightarrow> cycle_round" where
  "advance_users env_of [] S sites = (S, sites, None)"
| "advance_users env_of (u # us) S sites =
    (case advance_user (env_of (u_ID u)) u S sites of
       (S1, sites1, Some e) \<Rightarrow> (S1, sites1, Some e)
     | (S1, sites1, None) \<Rightarrow> advance_users env_of us S1 sites1)"

text \<open>The environment of an account carries its random tokens; the clock is read once, by the caller.\<close>

definition advanceQuotaPeriods :: "(int \<Rightarrow> cycle_env) \<Rightarrow> bool \<Rightarrow> Shop \<Rightarrow> Shop \<times> commerce_error option" where
  "advanceQuotaPeriods env_of businessAgent S =
    (if businessAgent then (S, None)
     else case advance_users env_of (sh_users S) S (sh_sites S) of (T, _, e) \<Rightarrow> (T, e))"

end
