(* ===== verification/Cycle_Safety.thy ===== *)
theory Cycle_Safety
  imports Quota_Cycles Payment_Safety
begin

text \<open>
  What the sweep over quota periods keeps: it leaves orders, money and receipts alone. Also what a written account and an
  opened period look like, and that a period of 30 days contains the present.
\<close>

section \<open>Orders and money are left alone\<close>

definition quiet :: "Shop \<Rightarrow> Shop \<Rightarrow> bool" where
  "quiet S T \<longleftrightarrow> same_core S T \<and> books_kept S T"

lemma quiet_refl [simp, intro]: "quiet S S"
  by (simp add: quiet_def)

lemma quiet_trans: "quiet S T \<Longrightarrow> quiet T U \<Longrightarrow> quiet S U"
  by (auto simp: quiet_def intro: same_core_trans books_kept_trans)

definition cycle_quiet :: "cycle_env \<Rightarrow> bool" where
  "cycle_quiet env \<longleftrightarrow> (\<forall>S. quiet S (fst (cy_settle env S)) \<and> quiet S (fst (cy_reconcile env S)))"

lemma quiet_users:
  assumes "map u_ID users = user_ids S"
  shows "quiet S (S\<lparr>sh_users := users\<rparr>)"
  using assms by (simp add: quiet_def same_core_def user_ids_def books_kept_def same_receipts_def)

lemma quiet_save: "quiet S (save_record env u S)"
  unfolding save_record_def Let_def
  by (rule quiet_users, unfold user_ids_def, rule map_set_where_key) simp

lemma quiet_write: "quiet S (write_user u S)"
  unfolding write_user_def
  by (rule quiet_users, unfold user_ids_def, rule map_set_where_key) (simp add: map_key_with_user)

lemma quiet_period: "quiet S (insert_period user period doc S)"
  by (simp add: insert_period_def quiet_def same_core_def user_ids_def books_kept_def same_receipts_def)

lemma quiet_sites: "quiet S (S\<lparr>sh_sites := sites\<rparr>)"
  by (simp add: quiet_def same_core_def user_ids_def books_kept_def same_receipts_def)

lemma quiet_settled:
  assumes "cycle_quiet env" "\<And>S1 u. quiet S1 (fst (k S1 u))"
  shows "quiet S (fst (settled env sites user k S))"
proof (cases "cy_settle env S")
  case (Pair S1 e)
  have q: "quiet S S1" using assms(1) Pair unfolding cycle_quiet_def by (metis fst_conv)
  then show ?thesis
    using quiet_trans [OF q assms(2)] by (simp add: settled_def Pair split: option.split)
qed

lemma quiet_swap: "cycle_quiet env \<Longrightarrow> quiet S (fst (swap_plan env sites S u))"
proof -
  assume q: "cycle_quiet env"
  have r: "quiet T (fst (cy_reconcile env T))" for T using q by (simp add: cycle_quiet_def)
  have "quiet S (fst (cy_reconcile env (write_user v (insert_period i p d S))))" for v i p d
    by (rule quiet_trans [OF quiet_trans [OF quiet_period quiet_write] r])
  moreover have "quiet S (fst (cy_reconcile env (write_user v S)))" for v
    by (rule quiet_trans [OF quiet_write r])
  ultimately show ?thesis
    unfolding swap_plan_def Let_def by (simp add: case_prod_beta split: option.split bool.split)
qed

lemma quiet_renew: "quiet S (fst (renew_period env sites S u))"
proof -
  have "quiet S (write_user v ((insert_period i p d S)\<lparr>sh_sites := ss\<rparr>))" for v i p d ss
    by (rule quiet_trans [OF quiet_trans [OF quiet_period quiet_sites] quiet_write])
  then show ?thesis
    unfolding renew_period_def Let_def by (simp split: option.split sum.split prod.split)
qed

lemma quiet_advance_user: "cycle_quiet env \<Longrightarrow> quiet S (fst (advance_user env u S sites))"
proof -
  assume q: "cycle_quiet env"
  have "quiet S (fst (end_plan env sites S u))"
    unfolding end_plan_def Let_def using quiet_settled [OF q, of "swap_plan env sites"] quiet_swap [OF q] quiet_save by simp
  moreover have "quiet S (fst (end_period env sites S u))"
  proof -
    have k: "quiet T (fst (settled env sites i (renew_period env sites) T))" for T i
      by (rule quiet_settled [OF q quiet_renew])
    have s: "quiet S (fst (settled env sites i (renew_period env sites) (save_record ce v S)))" for i ce v
      by (rule quiet_trans [OF quiet_save k])
    from k s quiet_save show ?thesis by (simp add: end_period_def Let_def split: option.split)
  qed
  ultimately show ?thesis by (simp add: advance_user_def)
qed

lemma quiet_advance_users: "(\<And>i. cycle_quiet (env_of i)) \<Longrightarrow> quiet S (fst (advance_users env_of us S sites))"
proof (induction us arbitrary: S sites)
  case (Cons u us)
  obtain S1 sites1 e where a: "advance_user (env_of (u_ID u)) u S sites = (S1, sites1, e)" by (cases "advance_user (env_of (u_ID u)) u S sites")
  have "quiet S S1" using quiet_advance_user [OF Cons.prems, of S _ u sites] a by (metis fst_conv)
  then show ?case using Cons.IH [OF Cons.prems] quiet_trans by (auto simp: a split: option.split)
qed simp

lemma advance_quiet:
  assumes "\<And>i. cycle_quiet (env_of i)" "advanceQuotaPeriods env_of agent S = (T, e)"
  shows "same_core S T \<and> books_kept S T"
proof -
  have "T = S \<or> T = fst (advance_users env_of (sh_users S) S (sh_sites S))"
    using assms(2) by (auto simp: advanceQuotaPeriods_def case_prod_beta split: if_splits)
  then have "quiet S T" using quiet_advance_users [OF assms(1)] by auto
  then show ?thesis by (simp add: quiet_def)
qed

section \<open>A new period\<close>

lemma row_with_set_where:
  assumes "\<And>r. u_ID r = k \<Longrightarrow> u_ID (f r) = k"
  shows "row_with u_ID k (set_where (\<lambda>r. u_ID r = k) f rows) = map_option f (row_with u_ID k (rows :: Record list))"
  using assms by (induction rows) (auto simp: row_with_def)

lemma with_user_same: "User.more r = User.more v \<Longrightarrow> with_user (User.truncate v) r = v"
  by (cases v) (simp add: with_user_def User.defs)

lemma user_record_write:
  assumes "user_record S (u_ID v) = Some r" "User.more r = User.more v"
  shows "user_record (write_user v S) (u_ID v) = Some v"
  using assms by (simp add: user_record_def write_user_def row_with_set_where map_key_with_user with_user_same)

lemma user_record_frame [simp]:
  "user_record (insert_period i p d S) = user_record S" "user_record (S\<lparr>sh_sites := ss\<rparr>) = user_record S"
  by (simp_all add: fun_eq_iff user_record_def insert_period_def)

lemma open_period_used: "u_Meter u = Some m \<Longrightarrow> QuotaUsed (open_period start period fin u) = 0"
  by (simp add: open_period_def QuotaUsed_def QuotaUpload_def QuotaDownload_def)

lemma save_record_user:
  assumes "user_record S (u_ID u) = Some r"
  shows "\<exists>v. user_record (save_record ce u S) (u_ID u) = Some v \<and> u_Meter v = u_Meter u"
  using assms by (simp add: user_record_def save_record_def Let_def row_with_set_where)

text \<open>With a cycle of 30 days the new period contains the present and keeps its phase.\<close>

lemma thirty_days:
  assumes "en_Cycle e = ''30d''" "cycle_start tz now m (Some e) = Inr start" "cycle_end tz start (Some e) = Inr fin"
  shows "start \<le> now \<and> now < fin \<and> fin = start + 30 * 86400 \<and>
    (0 < qm_End m \<and> qm_End m \<le> now \<longrightarrow> (30 * 86400) dvd (start - qm_End m))"
proof -
  have fin: "fin = start + 30 * 86400" using assms(1,3) by (simp add: cycle_end_def NextPeriod_def)
  show ?thesis
  proof (cases "0 < qm_End m \<and> qm_End m \<le> now")
    case True
    define k where "k = (now - qm_End m) div (30 * 86400)"
    have start: "start = qm_End m + k * (30 * 86400)" using assms(1,2) True by (simp add: cycle_start_def k_def)
    have "now - qm_End m = k * (30 * 86400) + (now - qm_End m) mod (30 * 86400)" unfolding k_def by simp
    moreover have "0 \<le> (now - qm_End m) mod (30 * 86400)" "(now - qm_End m) mod (30 * 86400) < 30 * 86400" by simp_all
    ultimately have "start \<le> now" "now < fin" unfolding fin start by linarith+
    with fin start show ?thesis by simp
  next
    case False
    with assms(1,2) have "start = now" by (auto simp: cycle_start_def split: if_splits)
    moreover from this fin have "now < fin" by simp
    ultimately show ?thesis using fin False by blast
  qed
qed

end
