(* ===== verification/Shop_Steps.thy ===== *)
theory Shop_Steps
  imports Payment_Safety Cycle_Safety
begin

text \<open>
  The shop as a state machine: one event per handler or worker run, the reachable stores, and the
  invariant that holds in all of them. The ledger and the receipts only ever grow.
\<close>

section \<open>Orders and the worker leave the books alone\<close>

lemma createOrder_books: "createOrder ce actor req S = Inr (reply, T) \<Longrightarrow> books_kept S T"
proof (drule createOrder_Inr, elim disjE exE conjE)
  fix off kind S1
  assume ins: "insert_order (new_order ce actor off kind) S = Inr S1"
    and save: "saveCommerceRequest ce (u_ID actor) (cq_OperationID req) (CreateRequest req) reply S1 = Inr T"
  have "books_kept S S1" using ins by (auto simp: insert_order_def books_kept_def same_receipts_def split: if_splits)
  then show ?thesis using books_kept_writes(4) [OF save] by (rule books_kept_trans)
qed simp

lemma release_hold_books: "release_hold ce user ord msg S = Inr T \<Longrightarrow> books_kept S T"
  by (auto simp: release_hold_def split: if_splits dest: books_kept_writes(2))

lemma fail_payment_books: "books_kept S (fail_payment now ord reason S)"
  unfolding fail_payment_def by (blast intro: books_kept_trans books_kept_steps)

lemma failProvisioning_books:
  assumes "failProvisioning ce ord msg S = Inr T"
  shows "books_kept S T"
proof -
  from failProvisioning_Inr [OF assms] obtain u ord1 S1 S2 S3 where
    m: "(if o_PaymentAttemptID ord \<noteq> []
      then Inr (fail_payment (ce_now ce) ord ''provisioning failed, refund through the provider'' S)
      else release_hold ce (u_ID u) ord msg S) = Inr S1"
    and tx: "txUser u S1 = Inr S2" and save: "saveOrder (ce_now ce) ord1 Provisioning S2 = Inr S3"
    and T: "T = commerceEvent (ce_now ce) (u_ID u) (''order:'' @ o_ID ord @ '':failed'') (o_ID ord @ '' '' @ msg) S3"
    by metis
  have "books_kept S S1" using m release_hold_books fail_payment_books by (auto split: if_splits)
  with books_kept_writes(3) [OF tx] books_kept_writes(1) [OF save] show ?thesis
    unfolding T books_kept_under by (blast intro: books_kept_trans)
qed

lemma endings_books:
  "fail_disabled ce ord u S = Inr (u', ord', T) \<Longrightarrow> books_kept S T"
  "finish_refund ce ord u S = Inr (u', ord', T) \<Longrightarrow> books_kept S T"
  "complete_order ce budgets sites ord u S = Inr (u', ord', T) \<Longrightarrow> books_kept S T"
proof -
  show "fail_disabled ce ord u S = Inr (u', ord', T) \<Longrightarrow> books_kept S T"
    by (auto simp: fail_disabled_def Let_def bind_res_eq_Inr fail_payment_books release_hold_books split: if_splits)
  show "finish_refund ce ord u S = Inr (u', ord', T) \<Longrightarrow> books_kept S T"
    by (auto simp: finish_refund_def Let_def bind_res_eq_Inr books_kept_cancel dest: books_kept_writes(2)
        split: if_splits option.splits)
  assume c: "complete_order ce budgets sites ord u S = Inr (u', ord', T)"
  have purchase: "books_kept S S1" if "apply_purchase ce budgets sites ord u S = Inr (v, S1)" for v S1
    using that unfolding apply_purchase_def Let_def insert_period_def
    by (auto simp: books_kept_def same_receipts_def split: option.splits sum.splits if_splits)
  have pay: "books_kept S1 T"
    if "(if o_PaymentAttemptID ord \<noteq> []
         then Inr (set_attempt (o_PaymentAttemptID ord) [''paid''] f S1)
         else if of_Price (o_Offer ord) > 0 then post_money ce i 0 ev k ref why da dh S1 else Inr S1) = Inr T" for f i ev k ref why da dh S1
    using that by (auto split: if_splits intro: books_kept_steps(4) dest: books_kept_writes(2))
  from c obtain v S1 where "books_kept S S1" "books_kept S1 T"
    unfolding complete_order_def Let_def
    apply (simp only: bind_res_eq_Inr split_paired_Ex prod.case sum.inject prod.inject)
    apply (elim exE conjE)
    subgoal premises prems for v S1 S2
    proof (rule prems(1))
      show "books_kept S S1" using prems(2) by (auto simp: bind_res_eq_Inr dest: purchase split: if_splits)
      show "books_kept S1 T" using prems(3,6) pay by blast
    qed
    done
  then show "books_kept S T" by (rule books_kept_trans)
qed

lemma fulfil_transaction_books:
  assumes "fulfil_transaction ce budgets sites ord u S = Inr T"
  shows "books_kept S T"
proof -
  from assms obtain u' ord' S1 S2 S3 where
    e: "(if \<not> u_Enabled u \<and> o_State ord = Provisioning then fail_disabled ce ord u S
         else if o_State ord = Refunding then finish_refund ce ord u S
         else complete_order ce budgets sites ord u S) = Inr (u', ord', S1)"
    and tx: "txUser u' S1 = Inr S2" and save: "saveOrder (ce_now ce) ord' (o_State ord) S2 = Inr S3"
    and T: "T = commerceEvent (ce_now ce) (u_ID u') (''order:'' @ o_ID ord @ '':'' @ state_name (o_State ord'))
           (o_ID ord @ '' '' @ o_Message ord') S3"
    unfolding fulfil_transaction_def by (auto simp: bind_res_eq_Inr)
  from e have "books_kept S S1" by (auto split: if_splits dest: endings_books)
  with books_kept_writes(3) [OF tx] books_kept_writes(1) [OF save] show ?thesis
    unfolding T books_kept_under by (blast intro: books_kept_trans)
qed

lemma or_keep_books: "(\<And>T. r = Inr T \<Longrightarrow> books_kept S T) \<Longrightarrow> books_kept S (fst (or_keep S r))"
  by (cases r) (simp_all add: or_keep_def)

lemma transaction_books:
  "books_kept S (fst (or_keep S (failProvisioning ce ord msg S)))"
  "books_kept S (fst (or_keep S (fulfil_transaction ce budgets sites ord u S)))"
  by (rule or_keep_books, erule failProvisioning_books fulfil_transaction_books)+

lemma fulfil_settled_books: "books_kept S (fst (fulfil_settled fe sites ord u S))"
  unfolding fulfil_settled_def Let_def by (simp add: transaction_books split: sum.split)

text \<open>What the settling of old connections (\<open>reconcile\<close>, \<open>collect\<close>, \<open>settleHYRevocations\<close>) leaves alone.\<close>

definition settles_quietly :: "fulfil_env \<Rightarrow> bool" where
  "settles_quietly fe \<longleftrightarrow> settles_frame fe \<and> (\<forall>S. books_kept S (fst (fe_settle fe S)))"

lemma fulfilOrder_books: "settles_quietly fe \<Longrightarrow> books_kept S (fst (fulfilOrder fe ord S))"
proof -
  assume q: "settles_quietly fe"
  obtain S1 se where s1: "fe_settle fe S = (S1, se)" by fastforce
  then have S1: "books_kept S S1" using q by (metis settles_quietly_def fst_conv)
  from S1 show ?thesis
    unfolding fulfilOrder_def Let_def s1
    by (auto split: option.split intro: fulfil_settled_books books_kept_trans [OF S1 fulfil_settled_books])
qed

lemma persist_books: "books_kept S (fst (persistOrder now ord old S))"
  unfolding persistOrder_def by (rule or_keep_books) (rule books_kept_writes(1))

lemma expire_books: "books_kept S (fst (expire_order now ord S))"
  unfolding expire_order_def Let_def
  by (auto simp: case_prod_beta intro: persist_books books_kept_trans [OF books_kept_steps(4) persist_books])

lemma retry_books: "books_kept S (fst (retry_later now ord e S))"
  unfolding retry_later_def Let_def by (auto simp: case_prod_beta intro: persist_books split: option.split)

lemma work_order_books: "settles_quietly fe \<Longrightarrow> books_kept S (fst (work_order fe ord S))"
proof -
  assume q: "settles_quietly fe"
  have "books_kept S (fst (retry_later now ord e (fst (fulfilOrder fe ord S))))"
    "books_kept S (fst (retry_later now ord e (fst (or_keep S (failProvisioning ce ord m S)))))" for now e ce m
    by (rule books_kept_trans [OF _ retry_books], rule fulfilOrder_books [OF q] transaction_books)+
  then show ?thesis
    unfolding work_order_def Let_def by (simp add: case_prod_beta expire_books split: sum.split)
qed

lemma work_orders_books: "(\<And>ord. settles_quietly (env_of ord)) \<Longrightarrow> books_kept S (fst (work_orders env_of ords S))"
proof (induction ords arbitrary: S)
  case (Cons ord ords)
  show ?case
    using books_kept_trans [OF work_order_books [OF Cons.prems] Cons.IH [OF Cons.prems]] by (simp add: case_prod_beta)
qed simp

lemma commerceWork_books:
  assumes "\<And>ord. settles_quietly (env_of ord)"
  shows "books_kept S (fst (commerceWork env_of now S))"
proof -
  have "books_kept T (fold (deliver_event now) vs T)" for vs T
  proof (induction vs arbitrary: T)
    case (Cons v vs)
    have "books_kept T (deliver_event now v T)" by (simp add: deliver_event_def books_kept_def same_receipts_def)
    from books_kept_trans [OF this Cons.IH] show ?case by simp
  qed simp
  then show ?thesis
    using work_orders_books [OF assms] books_kept_trans
    by (fastforce simp: commerceWork_def Let_def case_prod_beta commerceNotifications_def)
qed

section \<open>Steps\<close>

text \<open>
  One constructor per entry point. A user handler carries the account the session resolved, the
  callback events the provider document the request names.
\<close>

datatype shop_event =
    Create commerce_env Record create_request
  | Act commerce_env Record action_request
  | Callback pay_env PaymentProvider verifiedPaymentEvent string
  | RefundByStaff pay_env Record refund_request
  | StripeRefund pay_env PaymentProvider verifiedPaymentEvent
  | ShopWorker int
  | PaymentWorker int
  | RefundWorker
  | QuotaWorker

inductive shop_step :: "Shop \<Rightarrow> shop_event \<Rightarrow> Shop \<Rightarrow> bool" where
  create: "user_record S (u_ID actor) = Some actor \<Longrightarrow> createOrder ce actor req S = Inr (reply, T) \<Longrightarrow>
    shop_step S (Create ce actor req) T"
| act: "orderAction ce pw actor req S = Inr (reply, T) \<Longrightarrow> shop_step S (Act ce actor req) T"
| callback: "recordPaymentEvent env p event body S = (T, e) \<Longrightarrow> shop_step S (Callback env p event body) T"
| staff_refund: "paymentRefundAction env pw actor req S = Inr (reply, T) \<Longrightarrow> shop_step S (RefundByStaff env actor req) T"
| stripe_refund: "recordStripeRefund env p event S = Inr T \<Longrightarrow> shop_step S (StripeRefund env p event) T"
| shop_worker: "(\<And>ord. settles_quietly (env_of ord)) \<Longrightarrow> commerceWork env_of now S = (T, ps) \<Longrightarrow>
    shop_step S (ShopWorker now) T"
| payment_worker: "paymentWork pay_of now S = (T, es) \<Longrightarrow> shop_step S (PaymentWorker now) T"
| refund_worker: "paymentRefundWork refund_of get post fs S = (T, es) \<Longrightarrow> shop_step S RefundWorker T"
| quota_worker: "(\<And>i. cycle_quiet (cycle_of i)) \<Longrightarrow> advanceQuotaPeriods cycle_of agent S = (T, ce) \<Longrightarrow>
    shop_step S QuotaWorker T"

inductive_cases shop_step_elims:
  "shop_step S (Create ce actor req) T" "shop_step S (Act ce actor req) T" "shop_step S (ShopWorker now) T"

inductive_simps shop_step_callback: "shop_step S (Callback env p event body) T"

inductive reachable :: "Shop \<Rightarrow> Shop \<Rightarrow> bool" for S0 where
  start: "reachable S0 S0"
| step: "reachable S0 S \<Longrightarrow> shop_step S event T \<Longrightarrow> reachable S0 T"

definition all_ok :: "Shop \<Rightarrow> bool" where
  "all_ok S \<longleftrightarrow> shop_ok S \<and> receipts_ok S \<and> refunds_ok S"

lemma all_ok_books: "shop_ok T \<Longrightarrow> books_kept S T \<Longrightarrow> all_ok S \<Longrightarrow> all_ok T"
  unfolding all_ok_def using receipts_ok_pay refunds_ok_pay by blast

lemma all_ok_frame: "shop_ok T \<Longrightarrow> refund_frame S T \<Longrightarrow> all_ok S \<Longrightarrow> all_ok T"
  unfolding all_ok_def using refund_frame_ok by blast

lemma settles_quietly_frame: "settles_quietly fe \<Longrightarrow> settles_frame fe"
  by (simp add: settles_quietly_def)

text \<open>Recording an event leaves refunds and ledger alone; what follows it keeps the books.\<close>

lemma record_event_refunds:
  assumes "record_event_tx env p event body S = Inr (new, T)"
  shows "sh_refunds T = sh_refunds S \<and> sh_ledger T = sh_ledger S"
proof -
  have save: "sh_refunds V = sh_refunds U \<and> sh_ledger V = sh_ledger U" if "saveOrder now ord old U = Inr V" for now ord old U V
    using that by (auto simp: saveOrder_def Let_def split: if_splits)
  have fail: "sh_refunds V = sh_refunds U \<and> sh_ledger V = sh_ledger U" if "fail_pending_order now oid a m U = Inr V" for now oid a m U V
    using that by (auto simp: fail_pending_order_def dest: save split: if_splits option.splits)
  have claim: "sh_refunds V = sh_refunds U \<and> sh_ledger V = sh_ledger U" if "claim_found env scope ev r f U = Inr V" for scope ev r f U V
    using that unfolding claim_found_def claim_attempt_def Let_def
    by (auto simp: bind_res_eq_Inr dest: fail split: if_splits option.splits)
  show ?thesis
    using record_event_Inr [OF assms]
    by cases (auto simp: mark_duplicate_def mark_recorded_def set_event_def event_row_def Let_def dest: claim)
qed

lemma recordPaymentEvent_refunds:
  assumes "recordPaymentEvent env p event body S = (T, e)"
  shows "sh_refunds T = sh_refunds S \<and> prefix (l_txs (sh_ledger S)) (l_txs (sh_ledger T))"
  using assms
proof (cases rule: recordPaymentEvent_cases)
  case 2 then show ?thesis by (simp add: record_event_refunds)
next
  case (3 U)
  then show ?thesis
    using record_event_refunds [OF 3(1)] reconcilePaymentReceipt_pay [of U env "ce_token (py_commerce env) ''GYR''"]
    by (simp add: books_kept_def)
qed simp

lemma paymentWork_books: "books_kept S (fst (paymentWork env_of now S))"
proof -
  have "books_kept U (fst (reconcile_all env_of rids U))" for rids U
  proof (induction rids arbitrary: U)
    case (Cons rid rids)
    from books_kept_trans [OF reconcilePaymentReceipt_pay Cons.IH] show ?case by (simp add: case_prod_beta)
  qed simp
  from books_kept_trans [OF this books_kept_trans [OF books_kept_steps(6) books_kept_steps(7)]]
  show ?thesis by (simp add: paymentWork_def Let_def case_prod_beta)
qed

lemma step_keeps:
  assumes "shop_step S event T" "all_ok S"
  shows "all_ok T"
  using assms
proof (induction rule: shop_step.induct)
  case (create S actor ce req reply T)
  then show ?case
    using createOrder_keeps createOrder_books all_ok_books user_record_ID by (metis all_ok_def)
next
  case (act ce pw actor req S reply T)
  then show ?case using orderAction_keeps orderAction_pay all_ok_books by (metis all_ok_def)
next
  case (callback env p event body S T e)
  then show ?case
    using recordPaymentEvent_keeps [OF _ _ callback(1)] recordPaymentEvent_refunds [OF callback(1)]
    by (simp add: all_ok_def refunds_ok_def)
next
  case (staff_refund env pw actor req S reply T)
  then show ?case using paymentRefundAction_keeps by (metis all_ok_def)
next
  case (stripe_refund env p event S T)
  then show ?case using recordStripeRefund_keeps all_ok_frame by (metis all_ok_def)
next
  case (shop_worker env_of now S T ps)
  have "shop_ok S" using shop_worker(3) by (simp add: all_ok_def)
  then have "shop_ok T"
    using settles_quietly_frame [OF shop_worker(1)] shop_worker(2) by (rule commerceWork_keeps)
  moreover have "books_kept S T"
    using commerceWork_books [of env_of S now, OF shop_worker(1)] by (simp add: shop_worker(2))
  ultimately show ?case using shop_worker(3) by (rule all_ok_books)
next
  case (payment_worker pay_of now S T es)
  have T: "T = fst (paymentWork pay_of now S)" using payment_worker(1) by simp
  have "shop_ok T" using paymentWork_keeps(1) payment_worker(2) by (simp add: T all_ok_def)
  then show ?case using paymentWork_books payment_worker(2) unfolding T by (rule all_ok_books)
next
  case (refund_worker refund_of get post fs S T es)
  then show ?case
    using paymentRefundWork_keeps [of S refund_of get post fs] refund_frame_ok [of S T] by (simp add: all_ok_def)
next
  case (quota_worker cycle_of agent S T ce)
  have "same_core S T" "books_kept S T" using advance_quiet [OF quota_worker(1,2)] by simp_all
  with quota_worker(3) shop_ok_core show ?case by (metis all_ok_books all_ok_def)
qed

lemma reachable_ok: "reachable S0 S \<Longrightarrow> all_ok S0 \<Longrightarrow> all_ok S"
  by (induction rule: reachable.induct) (auto intro: step_keeps)

section \<open>The books only grow\<close>

text \<open>No step changes or removes a posted transaction, or the identity and amount of a receipt.\<close>

definition books_grow :: "Shop \<Rightarrow> Shop \<Rightarrow> bool" where
  "books_grow S T \<longleftrightarrow> prefix (l_txs (sh_ledger S)) (l_txs (sh_ledger T)) \<and>
     prefix (map receipt_key (sh_receipts S)) (map receipt_key (sh_receipts T)) \<and>
     prefix (map refund_key (sh_refunds S)) (map refund_key (sh_refunds T))"

lemma book_keys:
  "receipt_key = (\<lambda>r. (pr_ID r, pr_AccountScope r, pr_ExternalRef r, pr_Amount r))"
  "refund_key = (\<lambda>f. (pf_ID f, pf_ReceiptID f, pf_Amount f))"
  by (simp_all add: fun_eq_iff receipt_key_def refund_key_def)

lemma books_grow_refl: "books_grow S S"
  by (simp add: books_grow_def)

lemma books_grow_trans: "books_grow S T \<Longrightarrow> books_grow T U \<Longrightarrow> books_grow S U"
  by (auto simp: books_grow_def intro: prefix_order.trans)

lemma books_kept_grow: "books_kept S T \<Longrightarrow> books_grow S T"
  by (simp add: books_kept_def books_grow_def same_receipts_def)

lemma refund_frame_grow: "refund_frame S T \<Longrightarrow> books_grow S T"
  by (simp add: refund_frame_def books_grow_def same_receipts_def same_refunds_def)

lemma record_event_grow:
  assumes "record_event_tx env p event body S = Inr (new, T)"
  shows "books_grow S T"
proof -
  have "prefix (map receipt_key (sh_receipts S)) (map receipt_key (sh_receipts T))"
    using record_event_Inr [OF assms]
  proof cases
    case (2 existing)
    then show ?thesis
      using same_receipts_marks(1) [of "event_row env p event body S"] by (simp add: same_receipts_def event_row_def)
  next
    case (3 found S3)
    then show ?thesis
      using claim_found_receipts [OF 3(6)] same_receipts_marks(2) [of S3] by (simp add: same_receipts_def)
  qed simp
  with record_event_refunds [OF assms] show ?thesis by (simp add: books_grow_def)
qed

lemma recordPaymentEvent_grow:
  assumes "recordPaymentEvent env p event body S = (T, e)"
  shows "books_grow S T"
  using assms
proof (cases rule: recordPaymentEvent_cases)
  case (3 U)
  then show ?thesis
    using books_grow_trans [OF record_event_grow [OF 3(1)] books_kept_grow [OF reconcilePaymentReceipt_pay]] by simp
qed (auto simp: books_grow_refl dest: record_event_grow)

lemma paymentRefundAction_grow:
  assumes ok: "shop_ok S" and run: "paymentRefundAction env pw actor req S = Inr (reply, T)"
  shows "books_grow S T"
  using run
proof (cases rule: paymentRefundAction_Inr)
  case (2 receipt refund S1 S2 hit f)
  let ?S0 = "S\<lparr>sh_receipts := set_where hit f (sh_receipts S)\<rparr>"
  have "books_grow S S1"
    using 2(7) books_kept_rows [OF 2(6), of S hit]
    by (auto simp: insert_refund_def books_grow_def same_receipts_def split: if_splits)
  moreover have "shop_ok S1" using insert_refund_keeps(1) [OF 2(7)] ok shop_ok_core by (simp add: shop_ok_core)
  then have "books_kept S1 S2" using 2(8) finishPaymentRefund_keeps(2) by blast
  ultimately show ?thesis using books_kept_writes(4) [OF 2(9)] books_kept_grow books_grow_trans by blast
qed (simp add: books_grow_refl)

lemma step_grow:
  assumes "shop_step S event T" "shop_ok S"
  shows "books_grow S T"
  using assms
proof (induction rule: shop_step.induct)
  case (shop_worker env_of now S T ps)
  then show ?case
    using books_kept_grow [OF commerceWork_books [of env_of S now, OF shop_worker(1)]] by simp
next
  case (payment_worker pay_of now S T es)
  then show ?case using books_kept_grow [OF paymentWork_books [of S pay_of now]] by simp
next
  case (refund_worker refund_of get post fs S T es)
  then show ?case using paymentRefundWork_keeps [of S refund_of get post fs] refund_frame_grow by simp
next
  case (stripe_refund env p event S T)
  then show ?case using recordStripeRefund_keeps(2) refund_frame_grow by blast
next
  case (quota_worker cycle_of agent S T ce)
  show ?case using advance_quiet [OF quota_worker(1,2)] books_kept_grow by blast
qed (auto intro: books_kept_grow createOrder_books orderAction_pay recordPaymentEvent_grow paymentRefundAction_grow)

lemma reachable_grow: "reachable S0 S \<Longrightarrow> shop_ok S0 \<Longrightarrow> all_ok S0 \<Longrightarrow> books_grow S0 S"
proof (induction rule: reachable.induct)
  case (step S event T)
  then have "shop_ok S" using reachable_ok by (auto simp: all_ok_def)
  with step step_grow books_grow_trans show ?case by blast
qed (simp add: books_grow_refl)

lemma reachable_trans: "reachable S T \<Longrightarrow> reachable R S \<Longrightarrow> reachable R T"
  by (induction rule: reachable.induct) (auto intro: reachable.step)

end
