(* ===== verification/Samples.thy ===== *)
theory Samples
  imports Shop_Steps
begin

text \<open>
  A small concrete panel: two accounts, one plan, a paid and a free offer, a funded wallet. The
  witnesses of the properties evaluate the operations on it.
\<close>

definition sample_credentials :: Credentials where
  "sample_credentials = \<lparr>cr_PublicToken = ''pub'', cr_HYGeneration = 1, cr_HY2 = ''hy'', cr_Token = ''tok'', cr_VLESS = []\<rparr>"

definition sample_account :: "int \<Rightarrow> string \<Rightarrow> Record" where
  "sample_account i role =
    \<lparr>u_NodeGroupIDs = None, u_Mount = None, u_Archived = False, u_ID = i, u_Username = ''user'' @ itoa i, u_Role = role,
     u_Enabled = True, u_VLESS = True, u_HY2 = True, u_Expires = 0, u_Quota = 0, u_Upload = 0, u_Download = 0,
     u_VLESSTraffic = 0, u_HY2Traffic = 0, u_Created = 1, u_LastSub = 0, u_CompiledGroups = None, u_Meter = None,
     u_Entitlement = None, u_PlanQueue = [], r_Credentials = sample_credentials, r_Password = ''hash'',
     r_AccessResolved = False, r_AllowedGroups = []\<rparr>"

definition sample_owner :: Record where
  "sample_owner = sample_account 1 ''owner''"

definition sample_user :: Record where
  "sample_user = sample_account 7 ''user''"

definition sample_plan :: Plan where
  "sample_plan = \<lparr>pl_ID = ''PL1'', pl_Version = 1, pl_Name = ''monthly'', pl_Description = [], pl_Category = [], pl_Notes = [],
     pl_Archived = False, pl_Sort = 0, pl_Quota = 1000000000, pl_ValidDays = 30, pl_Cycle = ''30d'', pl_Timezone = ''UTC'',
     pl_GroupIDs = [legacyPrivateGroup], pl_NodeIDs = [], pl_NodeRates = [], pl_VLESS = True, pl_HY2 = True,
     pl_System = False, pl_Kind = [], pl_Price = 1500\<rparr>"

definition sample_offer :: Offer where
  "sample_offer = \<lparr>of_ID = ''OF1'', of_Version = 1, of_Enabled = True, of_Price = 1500, of_PurchaseLimit = 0, of_Plan = sample_plan\<rparr>"

definition free_offer :: Offer where
  "free_offer = sample_offer\<lparr>of_ID := ''OF2'', of_Price := 0\<rparr>"

definition utc :: "string \<Rightarrow> location option" where
  "utc zone = (if zone = ''UTC'' then Some (\<lambda>_. 0) else None)"

definition sample_fingerprint :: "commerce_request \<Rightarrow> string" where
  "sample_fingerprint r = (case r of CreateRequest q \<Rightarrow> ''create:'' @ cq_OfferID q
     | ActionRequest q \<Rightarrow> ''act:'' @ aq_Action q @ aq_ID q | PaymentRefundRequest q \<Rightarrow> ''refund:'' @ fq_ReceiptID q)"

definition sample_env :: "int \<Rightarrow> commerce_env" where
  "sample_env now = \<lparr>ce_now = now, ce_token = (\<lambda>kind. kind @ ''-'' @ itoa now), ce_tz = utc, ce_version = (\<lambda>u. ''v1''),
     ce_fingerprint = sample_fingerprint, ce_payment_module = True, ce_sites_ok = (\<lambda>_. Inr ()), ce_crypto_lock = (\<lambda>_. Inr ())\<rparr>"

definition empty_shop :: Shop where
  "empty_shop = \<lparr>sh_ledger = empty_ledger, sh_users = [sample_owner, sample_user], sh_plans = [sample_plan],
     sh_offers = [sample_offer, free_offer], sh_orders = [], sh_requests = [], sh_attempts = [], sh_receipts = [],
     sh_refunds = [], sh_payment_events = [], sh_replays = [], sh_events = [], sh_messages = [], sh_periods = [],
     sh_sites = []\<rparr>"

lemma empty_shop_ok: "shop_ok empty_shop" "receipts_ok empty_shop" "refunds_ok empty_shop"
  using ledger_ok_empty [of "user_ids empty_shop"]
  by (simp_all add: shop_ok_def empty_shop_def user_ids_def sample_owner_def sample_user_def sample_account_def
      sample_offer_def free_offer_def price_ok_def moneyLimit_def held_of_def wallet_of_def empty_ledger_def new_wallet_def
      hold_sum_def one_active_def receipts_ok_def refunds_ok_def)

section \<open>An order placed and confirmed\<close>

lemma bind_res_weak_cong: "r = r' \<Longrightarrow> bind_res r f = bind_res r' f"
  by simp

lemma sample_operations:
  "valid_operation ''operation-create-1''" "valid_operation ''operation-create-2''"
  "valid_operation ''operation-confirm-1''" "valid_operation ''operation-cancel-1''"
  by code_simp+

lemma sample_numbers:
  "itoa 2000 = ''2000''" "itoa 7 = ''7''" "itoa 1 = ''1''" "itoa 1000 = ''1000''" "itoa 2100 = ''2100''" "itoa 2200 = ''2200''"
  by code_simp+

lemmas sample_data = sample_offer_def free_offer_def sample_plan_def sample_user_def sample_owner_def sample_account_def
  sample_credentials_def empty_shop_def sample_env_def sample_fingerprint_def utc_def sample_numbers

definition create_paid :: create_request where
  "create_paid = \<lparr>cq_OfferID = ''OF1'', cq_OfferVersion = 1, cq_OperationID = ''operation-create-1''\<rparr>"

definition create_free :: create_request where
  "create_free = \<lparr>cq_OfferID = ''OF2'', cq_OfferVersion = 1, cq_OperationID = ''operation-create-2''\<rparr>"

definition order_act :: "string \<Rightarrow> string \<Rightarrow> action_request" where
  "order_act action op = \<lparr>aq_ID = ''GYO-2000'', aq_Action = action, aq_OperationID = op, aq_PaymentAttemptID = [],
     aq_Reason = [], aq_RefundRequestID = [], aq_RefundRevision = 0\<rparr>"

definition sample_order :: "Offer \<Rightarrow> Order" where
  "sample_order off = new_order (sample_env 2000) sample_user off Purchase"

definition order_row :: "Order \<Rightarrow> OrderRow" where
  "order_row ord = \<lparr>or_id = o_ID ord, or_user = o_UserID ord, or_state = o_State ord, or_created = o_Created ord,
     or_updated = o_Updated ord, or_expires = o_Expires ord, or_doc = ord\<rparr>"

definition replay_row :: "commerce_request \<Rightarrow> string \<Rightarrow> commerce_reply \<Rightarrow> ReplayRow" where
  "replay_row rq op reply = \<lparr>ry_id = op, ry_user = 7, ry_fingerprint = sample_fingerprint rq, ry_response = reply\<rparr>"

definition pending_shop :: "create_request \<Rightarrow> Offer \<Rightarrow> Shop \<Rightarrow> Shop" where
  "pending_shop req off S = S\<lparr>sh_orders := [order_row (sample_order off)],
     sh_replays := [replay_row (CreateRequest req) (cq_OperationID req) (OrderReply (sample_order off))]\<rparr>"

lemmas create_defs = createOrder_def requirePaymentModule_def commerceReplay_def row_with_def find_offer_def find_plan_def
  limit_reached_def pending_reset_def commercePending_def commercePendingExcept_def order_kind_for_def insert_order_def
  saveCommerceRequest_def pending_shop_def order_row_def replay_row_def sample_order_def new_order_def Let_def sample_operations

lemma create_paid_runs:
  "createOrder (sample_env 2000) sample_user create_paid (empty_shop\<lparr>sh_ledger := L\<rparr>)
    = Inr (OrderReply (sample_order sample_offer), pending_shop create_paid sample_offer (empty_shop\<lparr>sh_ledger := L\<rparr>))"
  by (simp add: create_defs create_paid_def sample_data cong: bind_res_weak_cong)

lemma create_free_runs:
  "createOrder (sample_env 2000) sample_user create_free (empty_shop\<lparr>sh_ledger := L\<rparr>)
    = Inr (OrderReply (sample_order free_offer), pending_shop create_free free_offer (empty_shop\<lparr>sh_ledger := L\<rparr>))"
  by (simp add: create_defs create_free_def sample_data cong: bind_res_weak_cong)

lemma trim_nothing [simp]: "trim_space [] = []" "rune_count [] = 0"
  by (simp_all add: trim_space_def rune_count_def)

definition confirmed_order :: "Offer \<Rightarrow> Order" where
  "confirmed_order off = (sample_order off)\<lparr>o_Started := 2100, o_State := Provisioning,
     o_Message := ''balance held, provisioning''\<rparr>"

lemmas action_defs = orderAction_def order_act_def confirm_draft_def action_draft_def request_version_ok_def refundRequest_def
  enrichOrder_def find_order_def user_record_def normalize_state_def is_requested_def countOfferPurchases_def attempt_paid_def
  paid_in_time_def confirmed_order_def

lemmas commit_defs = commit_draft_def lock_order_def find_order_def row_with_def plain_draft_def drop_queued_def pay_queued_refund_def
  request_step_def money_step_def saveOrder_def affected_def set_where_def txUser_def notice_step_def saveCommerceRequest_def
  normalize_state_def

definition confirm_act :: action_request where
  "confirm_act = order_act ''confirm'' ''operation-confirm-1''"

definition waiting_user :: Record where
  "waiting_user = set_pending_reset True (InitMeter ''legacy-7'' 2100 sample_user)"

definition saved_order :: "Offer \<Rightarrow> Order" where
  "saved_order off = (confirmed_order off)\<lparr>o_Updated := 2100\<rparr>"

definition confirmed_shop :: "create_request \<Rightarrow> Offer \<Rightarrow> ledger \<Rightarrow> Shop" where
  "confirmed_shop req off L = empty_shop\<lparr>sh_ledger := L, sh_users := [sample_owner, waiting_user],
     sh_orders := [(order_row (sample_order off))\<lparr>or_state := Provisioning, or_updated := 2100, or_doc := saved_order off\<rparr>],
     sh_replays := [replay_row (CreateRequest req) (cq_OperationID req) (OrderReply (sample_order off)),
       replay_row (ActionRequest confirm_act) ''operation-confirm-1'' (OrderReply (confirmed_order off))]\<rparr>"

lemma confirm_draft_free:
  "orderAction (sample_env 2100) (\<lambda>_. False) sample_user confirm_act (pending_shop create_free free_offer (empty_shop\<lparr>sh_ledger := L\<rparr>))
   = bind_res (commit_draft (sample_env 2100) sample_user confirm_act None Pending
       (confirmed 2100 (sample_order free_offer) sample_user) (pending_shop create_free free_offer (empty_shop\<lparr>sh_ledger := L\<rparr>)))
     (\<lambda>(ord', S'). Inr (OrderReply ord', S'))"
  by (simp add: action_defs confirm_act_def create_defs create_free_def sample_data cong: bind_res_weak_cong)

lemma confirm_draft_paid:
  "orderAction (sample_env 2100) (\<lambda>_. False) sample_user confirm_act (pending_shop create_paid sample_offer (empty_shop\<lparr>sh_ledger := L\<rparr>))
   = bind_res (commit_draft (sample_env 2100) sample_user confirm_act None Pending
       (confirmed 2100 (sample_order sample_offer) sample_user) (pending_shop create_paid sample_offer (empty_shop\<lparr>sh_ledger := L\<rparr>)))
     (\<lambda>(ord', S'). Inr (OrderReply ord', S'))"
  by (simp add: action_defs confirm_act_def create_defs create_paid_def sample_data cong: bind_res_weak_cong)

lemma sample_confirmed:
  "confirmed 2100 (sample_order off) sample_user =
    (plain_draft (confirmed_order off) waiting_user)\<lparr>dr_available := - of_Price off, dr_held := of_Price off, dr_kind := ''hold''\<rparr>"
  by (simp add: confirmed_def Let_def sample_order_def new_order_def confirmed_order_def waiting_user_def legacy_period_def
      sample_data plain_draft_def InitMeter_def empty_meter_def)

lemma commit_free:
  "commit_draft (sample_env 2100) sample_user confirm_act None Pending
     ((plain_draft (confirmed_order free_offer) waiting_user)\<lparr>dr_available := - of_Price free_offer, dr_held := of_Price free_offer, dr_kind := ''hold''\<rparr>)
     (pending_shop create_free free_offer (empty_shop\<lparr>sh_ledger := L\<rparr>))
   = Inr (confirmed_order free_offer, confirmed_shop create_free free_offer L)"
  by (simp add: commit_defs confirm_act_def order_act_def pending_shop_def confirmed_shop_def order_row_def replay_row_def saved_order_def
      confirmed_order_def sample_order_def new_order_def create_free_def waiting_user_def active_states_def set_pending_reset_def InitMeter_def
      with_user_def User.defs empty_meter_def sample_data Let_def cong: bind_res_weak_cong)

lemma commit_paid:
  assumes "postMoney 2100 ''GYB-2100'' 7 7 ''hold:GYO-2000'' ''hold'' ''GYO-2000'' ''balance held, provisioning'' (- 1500) 1500 L
    = Inr (w, L')"
  shows "commit_draft (sample_env 2100) sample_user confirm_act None Pending
     ((plain_draft (confirmed_order sample_offer) waiting_user)\<lparr>dr_available := - of_Price sample_offer,
        dr_held := of_Price sample_offer, dr_kind := ''hold''\<rparr>)
     (pending_shop create_paid sample_offer (empty_shop\<lparr>sh_ledger := L\<rparr>))
   = Inr (confirmed_order sample_offer, confirmed_shop create_paid sample_offer L')"
  using assms
  by (simp add: commit_defs confirm_act_def order_act_def pending_shop_def confirmed_shop_def order_row_def replay_row_def saved_order_def
      confirmed_order_def sample_order_def new_order_def create_paid_def waiting_user_def active_states_def set_pending_reset_def InitMeter_def
      with_user_def User.defs empty_meter_def sample_data Let_def post_money_def cong: bind_res_weak_cong)

definition ledger_of :: "commerce_error + (Wallet \<times> ledger) \<Rightarrow> ledger" where
  "ledger_of r = (case r of Inl _ \<Rightarrow> empty_ledger | Inr (_, L) \<Rightarrow> L)"

definition topup :: "ledger \<Rightarrow> commerce_error + (Wallet \<times> ledger)" where
  "topup L = postMoney 1000 ''GYB-1000'' 7 1 ''topup-1'' ''topup'' ''manual'' ''cash'' 5000 0 L"

definition funded_ledger :: ledger where
  "funded_ledger = ledger_of (topup empty_ledger)"

definition hold :: "ledger \<Rightarrow> commerce_error + (Wallet \<times> ledger)" where
  "hold L = postMoney 2100 ''GYB-2100'' 7 7 ''hold:GYO-2000'' ''hold'' ''GYO-2000'' ''balance held, provisioning'' (- 1500) 1500 L"

definition held_ledger :: ledger where
  "held_ledger = ledger_of (hold funded_ledger)"

definition funded_shop :: Shop where
  "funded_shop = empty_shop\<lparr>sh_ledger := funded_ledger\<rparr>"

lemma topup_runs: "topup empty_ledger = Inr (\<lparr>w_available = 5000, w_held = 0, w_revision = 1\<rparr>, funded_ledger)"
  unfolding funded_ledger_def by code_simp

lemma hold_runs: "hold funded_ledger = Inr (\<lparr>w_available = 3500, w_held = 1500, w_revision = 2\<rparr>, held_ledger)"
  unfolding held_ledger_def by code_simp

lemma funded_ledger_ok: "ledger_ok [1, 7] funded_ledger"
  using topup_runs unfolding topup_def
  by (intro postMoney_keeps_ledger [OF ledger_ok_empty]) simp_all

lemma funded_shop_ok: "shop_ok funded_shop" "receipts_ok funded_shop" "refunds_ok funded_shop"
proof -
  have "user_ids funded_shop = [1, 7]" by (simp add: user_ids_def funded_shop_def sample_data)
  moreover have "held_of funded_ledger user = 0" for user
    using postMoney_wallets [OF topup_runs [unfolded topup_def], of user]
    by (simp add: held_of_def) (simp add: wallet_of_def empty_ledger_def new_wallet_def moved_def)
  ultimately show "shop_ok funded_shop"
    using empty_shop_ok(1) funded_ledger_ok by (simp add: shop_ok_def funded_shop_def user_ids_def sample_data hold_sum_def)
  show "receipts_ok funded_shop" "refunds_ok funded_shop"
    using empty_shop_ok(2,3) by (simp_all add: funded_shop_def receipts_ok_def refunds_ok_def)
qed

text \<open>The paid order placed and confirmed in the funded shop, the free one in the empty shop.\<close>

lemma create_paid_sample:
  "createOrder (sample_env 2000) sample_user create_paid funded_shop
    = Inr (OrderReply (sample_order sample_offer), pending_shop create_paid sample_offer funded_shop)"
  unfolding funded_shop_def by (rule create_paid_runs)

lemma create_free_sample:
  "createOrder (sample_env 2000) sample_user create_free empty_shop
    = Inr (OrderReply (sample_order free_offer), pending_shop create_free free_offer empty_shop)"
  using create_free_runs [of empty_ledger] by (simp add: empty_shop_def)

lemma confirm_paid_sample:
  "orderAction (sample_env 2100) (\<lambda>_. False) sample_user confirm_act (pending_shop create_paid sample_offer funded_shop)
    = Inr (OrderReply (confirmed_order sample_offer), confirmed_shop create_paid sample_offer held_ledger)"
  using commit_paid [OF hold_runs [unfolded hold_def]] confirm_draft_paid [of funded_ledger] unfolding funded_shop_def
  by (simp add: sample_confirmed)

lemma confirm_free_sample:
  "orderAction (sample_env 2100) (\<lambda>_. False) sample_user confirm_act (pending_shop create_free free_offer empty_shop)
    = Inr (OrderReply (confirmed_order free_offer), confirmed_shop create_free free_offer empty_ledger)"
proof -
  have "empty_shop\<lparr>sh_ledger := empty_ledger\<rparr> = empty_shop" by (simp add: empty_shop_def)
  then show ?thesis
    using commit_free [of empty_ledger] confirm_draft_free [of empty_ledger] by (simp add: sample_confirmed)
qed

lemma pending_free_ok: "shop_ok (pending_shop create_free free_offer empty_shop)"
  by (rule createOrder_keeps [OF empty_shop_ok(1) _ create_free_sample]) (simp add: user_ids_def sample_data)

lemma pending_paid_ok: "shop_ok (pending_shop create_paid sample_offer funded_shop)"
  by (rule createOrder_keeps [OF funded_shop_ok(1) _ create_paid_sample]) (simp add: user_ids_def sample_data funded_shop_def)

lemma confirmed_free_ok: "shop_ok (confirmed_shop create_free free_offer empty_ledger)"
  by (rule orderAction_keeps [OF pending_free_ok confirm_free_sample])

lemma confirmed_paid_ok: "shop_ok (confirmed_shop create_paid sample_offer held_ledger)"
  by (rule orderAction_keeps [OF pending_paid_ok confirm_paid_sample])

section \<open>A subsite with one grant\<close>

definition metered_user :: Record where
  "metered_user = sample_user\<lparr>u_Quota := 1000000, u_Expires := 0\<rparr>"

definition sample_grant :: BusinessGrant where
  "sample_grant = \<lparr>bg_PeriodID = [], bg_Budget = 0, bg_UserID = 7, bg_Quota = 400000\<rparr>"

definition sample_site :: BusinessSite where
  "sample_site = \<lparr>bs_ID = ''S1'', bs_Enabled = True, bs_Removed = False, bs_OwnerID = 1, bs_Mount = None, bs_Protocol = Some 3,
     bs_DefaultNodes = [], bs_Nodes = [], bs_RateRules = [], bs_PeriodRules = [], bs_UsageBaseline = [], bs_MonthlyBudget = 0,
     bs_MonthlyUsage = 0, bs_MonthlyBudgetPeriod = [], bs_CooldownSeconds = 0, bs_BudgetCooldownUntil = 0, bs_Commands = [],
     bs_Grants = [sample_grant], bs_Revision = ''r1'', bs_Applied = [], bs_Desired = [], bs_LeaseUntil = 0, bs_Usage = [],
     bs_Issued = [], bs_IssuedUnlimited = [], bs_SentGrants = [], bs_IssuedNodes = [], bs_SentNodes = []\<rparr>"

definition sample_snapshot_env :: snapshot_env where
  "sample_snapshot_env = \<lparr>se_now = 3000, se_secret = (\<lambda>_ _ _. ''secret''), se_uuid = (\<lambda>s. s), se_nodes = [],
     se_owner_enabled = True, se_mode = ''active'', se_revision = (\<lambda>_. ''rev'')\<rparr>"

lemma sample_snapshot:
  "case businessSnapshot sample_snapshot_env [] [sample_site] [metered_user] sample_site of
     Inl _ \<Rightarrow> False | Inr (out, v) \<Rightarrow> bs_Issued v = [(7, 400000)]"
  by code_simp

section \<open>A payment\<close>

lemma sample_number_3000: "itoa 3000 = ''3000''"
  by code_simp


definition sample_provider :: PaymentProvider where
  "sample_provider = \<lparr>pp_ID = ''epay-1'', pp_Code = ''epay'', pp_Config = []\<rparr>"

definition sample_pay :: "int \<Rightarrow> pay_env" where
  "sample_pay now = \<lparr>py_commerce = sample_env now, py_scope = pp_ID, py_hash = (\<lambda>s. s), py_provider = (\<lambda>_. Some sample_provider),
     py_attempt_provider = (\<lambda>_. Some sample_provider), py_chain_ok = (\<lambda>_. Inr ()), py_books_ok = True\<rparr>"

definition sample_event :: verifiedPaymentEvent where
  "sample_event = \<lparr>vp_EventID = ''ev1'', vp_MerchantRef = ''GYP-1'', vp_ExternalRef = ''tx-1'', vp_Amount = 1500,
     vp_Currency = ''CNY'', vp_Status = ''TRADE_SUCCESS'', vp_RefundID = [], vp_RefundStatus = [], vp_ReviewReason = []\<rparr>"

definition received_shop :: Shop where
  "received_shop = fst (recordPaymentEvent (sample_pay 3000) sample_provider sample_event ''body'' funded_shop)"

lemma callback_runs:
  "recordPaymentEvent (sample_pay 3000) sample_provider sample_event ''body'' funded_shop = (received_shop, None) \<and>
    map receipt_key (sh_receipts received_shop) = [(''GYR-3000'', ''epay-1'', ''tx-1'', 1500)]"
proof -
  have "snd (recordPaymentEvent (sample_pay 3000) sample_provider sample_event ''body'' funded_shop) = None \<and>
    map receipt_key (sh_receipts (fst (recordPaymentEvent (sample_pay 3000) sample_provider sample_event ''body'' funded_shop)))
      = [(''GYR-3000'', ''epay-1'', ''tx-1'', 1500)]"
    by (simp add: recordPaymentEvent_def record_event_tx_def funded_shop_def sample_event_def sample_pay_def event_known_def
      new_receipt_def attempt_by_merchant_def py_now_def claim_found_def mark_recorded_def set_event_def sample_provider_def
      reconcilePaymentReceipt_def row_with_def receipt_key_def sample_data sample_number_3000 moneyLimit_def Let_def)
  then show ?thesis by (simp add: received_shop_def prod_eq_iff)
qed

lemmas callback_sample = conjunct1 [OF callback_runs] and received_keys = conjunct2 [OF callback_runs]

section \<open>A run\<close>

lemma funded_all_ok: "all_ok funded_shop"
  by (simp add: all_ok_def funded_shop_ok)

lemma sample_reachable: "reachable funded_shop (confirmed_shop create_paid sample_offer held_ledger)"
proof -
  have "shop_step funded_shop (Create (sample_env 2000) sample_user create_paid) (pending_shop create_paid sample_offer funded_shop)"
    by (rule shop_step.create [OF _ create_paid_sample]) (simp add: user_record_def row_with_def funded_shop_def sample_data)
  moreover have "shop_step (pending_shop create_paid sample_offer funded_shop) (Act (sample_env 2100) sample_user confirm_act)
      (confirmed_shop create_paid sample_offer held_ledger)"
    by (rule shop_step.act [OF confirm_paid_sample])
  ultimately show ?thesis by (blast intro: reachable.intros)
qed

lemma sample_reachable_free: "reachable empty_shop (confirmed_shop create_free free_offer empty_ledger)"
proof -
  have "shop_step empty_shop (Create (sample_env 2000) sample_user create_free) (pending_shop create_free free_offer empty_shop)"
    by (rule shop_step.create [OF _ create_free_sample]) (simp add: user_record_def row_with_def sample_data)
  moreover have "shop_step (pending_shop create_free free_offer empty_shop) (Act (sample_env 2100) sample_user confirm_act)
      (confirmed_shop create_free free_offer empty_ledger)"
    by (rule shop_step.act [OF confirm_free_sample])
  ultimately show ?thesis by (blast intro: reachable.intros)
qed

section \<open>A refund of a part\<close>

definition stripe_provider :: PaymentProvider where
  "stripe_provider = \<lparr>pp_ID = ''stripe-1'', pp_Code = ''stripe'', pp_Config = []\<rparr>"

definition stripe_env :: pay_env where
  "stripe_env = (sample_pay 9000)\<lparr>py_attempt_provider := (\<lambda>_. Some stripe_provider)\<rparr>"

definition stripe_attempt :: PaymentAttempt where
  "stripe_attempt = \<lparr>pa_ID = ''GYP-2'', pa_OrderID = ''GYO-1'', pa_UserID = 7, pa_ProviderID = ''stripe-1'',
     pa_State = ''refund_required'', pa_Amount = 1500, pa_Currency = ''CNY'', pa_MerchantRef = ''GYP-2'', pa_ExternalRef = ''pi_1'',
     pa_Created = 10, pa_Updated = 10, pa_Expires = 900, pa_Purpose = ''order'', pa_Message = [], pa_AccountScope = ''stripe-1''\<rparr>"

definition stripe_receipt :: PaymentReceipt where
  "stripe_receipt = \<lparr>pr_ID = ''GYR-2'', pr_AccountScope = ''stripe-1'', pr_ProviderID = ''stripe-1'', pr_ExternalRef = ''pi_1'',
     pr_AttemptID = ''GYP-2'', pr_OrderID = ''GYO-1'', pr_UserID = 7, pr_Amount = 1500, pr_Currency = ''CNY'',
     pr_State = ''refund_pending'', pr_Reason = [], pr_Created = 20, pr_Updated = 30\<rparr>"

definition part_refund :: PaymentRefund where
  "part_refund = \<lparr>pf_ID = ''GYRF-2'', pf_ReceiptID = ''GYR-2'', pf_AccountScope = ''stripe-1'', pf_ProviderID = ''stripe-1'',
     pf_State = ''queued'', pf_Amount = 700, pf_Currency = ''CNY'', pf_ExternalRef = [], pf_ActorID = 1, pf_Reason = ''used'',
     pf_Attempts = 0, pf_NextAttempt = 0, pf_Message = [], pf_Created = 40, pf_Updated = 40\<rparr>"

definition stripe_answer :: stripeRefund where
  "stripe_answer = \<lparr>sr_ID = ''re_1'', sr_PaymentIntent = ''pi_1'', sr_Amount = 1500, sr_Currency = ''cny'', sr_Status = ''succeeded''\<rparr>"

definition stripe_post :: "string \<Rightarrow> int \<Rightarrow> string \<Rightarrow> commerce_error + stripeRefund" where
  "stripe_post intent amount key = Inr (stripe_answer\<lparr>sr_PaymentIntent := intent, sr_Amount := amount\<rparr>)"

definition refunding_shop :: Shop where
  "refunding_shop = empty_shop\<lparr>sh_attempts := [stripe_attempt], sh_receipts := [stripe_receipt], sh_refunds := [part_refund]\<rparr>"

section \<open>Plans, nodes and payments of the remaining witnesses\<close>

definition running_user :: Record where
  "running_user = sample_user\<lparr>u_Expires := 1000, u_Quota := 5000,
     u_Meter := Some (empty_meter\<lparr>qm_PeriodID := ''P0'', qm_Start := 50, qm_Upload := 300\<rparr>),
     u_Entitlement := Some \<lparr>en_PlanID = ''PL0'', en_OrderID = ''GYO-2000'', en_RenewalOrderID = [], en_Version = 1, en_Name = ''old'',
       en_GroupIDs = [legacyPrivateGroup], en_NodeIDs = [], en_NodeRates = [], en_Cycle = ''none'', en_Timezone = ''UTC'',
       en_AssignedAt = 50, en_Revision = ''R0''\<rparr>\<rparr>"

definition private_group :: NodeGroup where
  "private_group = \<lparr>ng_ID = legacyPrivateGroup, ng_Name = [], ng_Description = [], ng_Scope = [], ng_Enabled = True, ng_Sort = 0,
     ng_Revision = []\<rparr>"

definition private_node :: Node where
  "private_node = \<lparr>nd_AccessKey = [], nd_PolicyVersion = 1, nd_RateMilli = 1000, nd_RateRevision = ''r1'',
     nd_GroupIDs = [legacyPrivateGroup], nd_ManagedBy = [], nd_ExitID = [], nd_ID = ''n1'', nd_Name = ''n1'', nd_Protocol = ''vless'',
     nd_Enabled = True\<rparr>"

definition issued_site :: BusinessSite where
  "issued_site = sample_site\<lparr>bs_Issued := [(7, 400000)]\<rparr>"

definition sample_digest :: "string \<Rightarrow> string" where
  "sample_digest s = take 4 s"

definition epay_provider :: PaymentProvider where
  "epay_provider = \<lparr>pp_ID = ''epay-1'', pp_Code = ''epay'', pp_Config = [(''secret'', ''k''), (''merchant_id'', ''1001'')]\<rparr>"

definition epay_fields :: form_values where
  "epay_fields = [(''money'', [''15.00'']), (''out_trade_no'', [''GYP-1'']), (''pid'', [''1001'']), (''trade_no'', [''tx1'']),
     (''trade_status'', [''1''])]"

definition epay_callback :: form_values where
  "epay_callback = epay_fields @ [(''sign'', [epaySign sample_digest epay_fields ''k'']), (''sign_type'', [''MD5''])]"

definition large_order :: Order where
  "large_order = (sample_order sample_offer)\<lparr>o_Offer := sample_offer\<lparr>of_Price := 1000000,
     of_Plan := sample_plan\<lparr>pl_Quota := 10 * 1024 ^ 4\<rparr>\<rparr>\<rparr>"

definition large_user :: Record where
  "large_user = running_user\<lparr>u_Meter := Some (empty_meter\<lparr>qm_Upload := 1\<rparr>)\<rparr>"

lemma epay_callback_runs:
  "case verifyEpay sample_digest epay_provider epay_callback of Inl _ \<Rightarrow> False | Inr event \<Rightarrow> vp_Amount event = 1500"
proof -
  have money: "paymentCents ''15.00'' = Inr 1500"
  proof -
    have "checkout_money 1500 = ''15.00''" by code_simp
    with paymentCents_checkout [of 1500] show ?thesis by (simp add: moneyLimit_def)
  qed
  have status: "trim_space ''1'' = ''1''"
    by (rule trim_space_digits) (simp_all add: is_digit_def)
  have cases: "map lower_char ''mone'' = ''mone''" "map upper_char ''MD5'' = ''MD5''" "map lower_char ''1'' = ''1''"
    by (code_simp, code_simp, code_simp)
  show ?thesis
    using money status cases
    by (simp add: verifyEpay_def epay_callback_def epay_fields_def epay_provider_def sample_digest_def epaySign_def epay_text_def
        signed_keys_def form_get_def config_of_def map_get_def Let_def)
qed

end
