(* ===== verification/Refund_Rounds.thy ===== *)
theory Refund_Rounds
  imports Payment_Safety
begin

text \<open>
  A refund of a part of a Stripe receipt over all rounds of the refund worker: each round asks Stripe for the whole
  receipt, rejects the answer, and leaves the refund to be tried again.
\<close>

text \<open>Rounds of the worker on the refund with the key \<open>i\<close>; each reads the row it then works on.\<close>

fun refund_rounds ::
  "(string \<Rightarrow> commerce_error + stripeRefund) \<Rightarrow> (string \<Rightarrow> int \<Rightarrow> string \<Rightarrow> commerce_error + stripeRefund) \<Rightarrow>
     string \<Rightarrow> pay_env list \<Rightarrow> Shop \<Rightarrow> Shop \<times> commerce_error option list"
where
  "refund_rounds get post i [] S = (S, [])"
| "refund_rounds get post i (env # envs) S =
    (case row_with pf_ID i (sh_refunds S) of None \<Rightarrow> (S, [])
     | Some g \<Rightarrow> (let (S1, e) = work_refund env get post g S; (T, es) = refund_rounds get post i envs S1 in (T, e # es)))"

text \<open>The refund and the rows around it: what a round needs and keeps.\<close>

definition waiting_refund :: "PaymentAttempt \<Rightarrow> PaymentReceipt \<Rightarrow> PaymentRefund \<Rightarrow> Shop \<Rightarrow> bool" where
  "waiting_refund a receipt g S \<longleftrightarrow> receipts_ok S \<and> refunds_ok S \<and> row_with pf_ID (pf_ID g) (sh_refunds S) = Some g \<and>
     pf_State g \<in> {''queued'', ''processing'', ''pending''} \<and> pf_ExternalRef g = [] \<and>
     row_with pr_ID (pf_ReceiptID g) (sh_receipts S) = Some receipt \<and> row_with pa_ID (pr_AttemptID receipt) (sh_attempts S) = Some a"

definition whole_refunded :: "(string \<Rightarrow> int \<Rightarrow> string \<Rightarrow> commerce_error + stripeRefund) \<Rightarrow> PaymentReceipt \<Rightarrow> string \<Rightarrow> bool" where
  "whole_refunded post receipt i \<longleftrightarrow>
    (case post (pr_ExternalRef receipt) (pr_Amount receipt) (''gy-refund-'' @ i) of Inl e \<Rightarrow> False
     | Inr remote \<Rightarrow> sr_ID remote \<noteq> [] \<and> sr_PaymentIntent remote = pr_ExternalRef receipt \<and> sr_Amount remote = pr_Amount receipt)"

definition stripe_account :: "PaymentAttempt \<Rightarrow> PaymentReceipt \<Rightarrow> pay_env \<Rightarrow> bool" where
  "stripe_account a receipt env \<longleftrightarrow>
    (case py_attempt_provider env a of None \<Rightarrow> False
     | Some p \<Rightarrow> pp_Code p = ''stripe'' \<and> py_scope env p = pr_AccountScope receipt)"

lemma refund_not_due:
  assumes "refunds_ok S" "g \<in> set (sh_refunds S)" "\<not> refund_claimable (py_now env) g"
  shows "work_refund env get post g S = (S, None)"
proof -
  have "inj_on pf_ID (set (sh_refunds S))" using assms(1) by (simp add: refunds_ok_def distinct_map)
  then have "affected (\<lambda>f. pf_ID f = pf_ID g \<and> refund_claimable (py_now env) f) (sh_refunds S) = 0"
    using assms(2,3) by (auto simp: affected_def filter_empty_conv dest: inj_onD)
  then show ?thesis by (simp add: work_refund_def Let_def)
qed

lemma round_of_refund:
  assumes w: "waiting_refund a receipt g S" and part: "pf_Amount g \<noteq> pr_Amount receipt" "pr_ExternalRef receipt \<noteq> []"
    and stripe: "whole_refunded post receipt (pf_ID g)" "stripe_account a receipt env"
    and run: "work_refund env get post g S = (S1, e)"
  shows "e = (if refund_claimable (py_now env) g then Some (Broken ''refund receipt mismatch'') else None)"
    "S1\<lparr>sh_refunds := sh_refunds S\<rparr> = S"
    "\<exists>h. waiting_refund a receipt h S1 \<and> pf_ID h = pf_ID g \<and> pf_Amount h = pf_Amount g \<and>
      pf_Attempts h = pf_Attempts g + (if e = None then 0 else 1) \<and> pf_State h = (if e = None then pf_State g else ''processing'') \<and>
      pf_NextAttempt h = (if e = None then pf_NextAttempt g else py_now env + 60)"
proof -
  have row: "row_with pf_ID (pf_ID g) (sh_refunds S) = Some g" and ok: "receipts_ok S" "refunds_ok S"
    using w by (simp_all add: waiting_refund_def)
  have mem: "g \<in> set (sh_refunds S)" using row_with_Some [OF row] by simp
  have "e = (if refund_claimable (py_now env) g then Some (Broken ''refund receipt mismatch'') else None) \<and>
    S1\<lparr>sh_refunds := sh_refunds S\<rparr> = S \<and>
    (\<exists>h. waiting_refund a receipt h S1 \<and> pf_ID h = pf_ID g \<and> pf_Amount h = pf_Amount g \<and>
      pf_Attempts h = pf_Attempts g + (if e = None then 0 else 1) \<and> pf_State h = (if e = None then pf_State g else ''processing'') \<and>
      pf_NextAttempt h = (if e = None then pf_NextAttempt g else py_now env + 60))"
  proof (cases "refund_claimable (py_now env) g")
    case False
    then have "S1 = S \<and> e = None" using refund_not_due [OF ok(2) mem] run by auto
    with False w show ?thesis by auto
  next
    case True
    obtain remote where r: "post (pr_ExternalRef receipt) (pr_Amount receipt) (''gy-refund-'' @ pf_ID g) = Inr remote"
      "sr_ID remote \<noteq> []" "sr_PaymentIntent remote = pr_ExternalRef receipt" "sr_Amount remote = pr_Amount receipt"
      using stripe(1) by (auto simp: whole_refunded_def split: sum.split_asm)
    obtain p where p: "py_attempt_provider env a = Some p" "pp_Code p = ''stripe''" "py_scope env p = pr_AccountScope receipt"
      using stripe(2) by (auto simp: stripe_account_def split: option.split_asm)
    let ?C = "claimed (py_now env) g S"
    have stuck: "S1 = ?C" "e = Some (Broken ''refund receipt mismatch'')"
      using partial_refund_stuck [where post = post, OF ok mem True _ part(1) _ part(2) _ p r, of get] w run
      by (simp_all add: waiting_refund_def)
    define h where "h = g\<lparr>pf_State := ''processing'', pf_NextAttempt := py_now env + 60, pf_Attempts := pf_Attempts g + 1,
      pf_Updated := py_now env\<rparr>"
    have "refund_frame S ?C" by (rule claimed_frame)
    then have C: "receipts_ok ?C" "refunds_ok ?C" using refund_frame_ok ok by blast+
    have "h \<in> set (sh_refunds ?C)" using mem True by (force simp: claimed_def set_set_where h_def)
    then have "row_with pf_ID (pf_ID h) (sh_refunds ?C) = Some h"
      using row_with_unique [of pf_ID "sh_refunds ?C" h] C(2) by (simp add: refunds_ok_def)
    with C w have "waiting_refund a receipt h ?C" by (simp add: waiting_refund_def h_def claimed_def)
    moreover have "?C\<lparr>sh_refunds := sh_refunds S\<rparr> = S" by (simp add: claimed_def)
    ultimately show ?thesis using True unfolding stuck by (auto simp: h_def)
  qed
  then show "e = (if refund_claimable (py_now env) g then Some (Broken ''refund receipt mismatch'') else None)"
    "S1\<lparr>sh_refunds := sh_refunds S\<rparr> = S"
    "\<exists>h. waiting_refund a receipt h S1 \<and> pf_ID h = pf_ID g \<and> pf_Amount h = pf_Amount g \<and>
      pf_Attempts h = pf_Attempts g + (if e = None then 0 else 1) \<and> pf_State h = (if e = None then pf_State g else ''processing'') \<and>
      pf_NextAttempt h = (if e = None then pf_NextAttempt g else py_now env + 60)"
    by blast+
qed

lemma rounds_of_refund:
  assumes "waiting_refund a receipt g S" "pf_Amount g \<noteq> pr_Amount receipt" "pr_ExternalRef receipt \<noteq> []"
    and "whole_refunded post receipt (pf_ID g)" "list_all (stripe_account a receipt) envs"
    and "refund_rounds get post (pf_ID g) envs S = (T, es)"
  shows "length es = length envs \<and> T\<lparr>sh_refunds := sh_refunds S\<rparr> = S \<and>
    list_all (\<lambda>e. e = None \<or> e = Some (Broken ''refund receipt mismatch'')) es \<and>
    (\<exists>h. waiting_refund a receipt h T \<and> pf_ID h = pf_ID g \<and> pf_Amount h = pf_Amount g \<and>
       pf_Attempts h = pf_Attempts g + int (length (filter (\<lambda>e. e \<noteq> None) es)) \<and>
       pf_State h = (if list_all (\<lambda>e. e = None) es then pf_State g else ''processing''))"
  using assms
proof (induction envs arbitrary: g S es)
  case (Cons env envs)
  obtain S1 e where step: "work_refund env get post g S = (S1, e)" by fastforce
  have row: "row_with pf_ID (pf_ID g) (sh_refunds S) = Some g" using Cons.prems(1) by (simp add: waiting_refund_def)
  obtain T' es' where rest: "refund_rounds get post (pf_ID g) envs S1 = (T', es')" by fastforce
  have T: "T = T'" "es = e # es'" using Cons.prems(6) row step rest by simp_all
  have "stripe_account a receipt env" using Cons.prems(5) by simp
  note one = round_of_refund [OF Cons.prems(1-4) this step]
  from one(3) obtain h where h: "waiting_refund a receipt h S1" "pf_ID h = pf_ID g" "pf_Amount h = pf_Amount g"
    "pf_Attempts h = pf_Attempts g + (if e = None then 0 else 1)" "pf_State h = (if e = None then pf_State g else ''processing'')"
    by blast
  have ih: "length es' = length envs \<and> T\<lparr>sh_refunds := sh_refunds S1\<rparr> = S1 \<and>
    list_all (\<lambda>e. e = None \<or> e = Some (Broken ''refund receipt mismatch'')) es' \<and>
    (\<exists>k. waiting_refund a receipt k T \<and> pf_ID k = pf_ID h \<and> pf_Amount k = pf_Amount h \<and>
       pf_Attempts k = pf_Attempts h + int (length (filter (\<lambda>e. e \<noteq> None) es')) \<and>
       pf_State k = (if list_all (\<lambda>e. e = None) es' then pf_State h else ''processing''))"
    using Cons.IH [of h S1 es'] h(1-3) Cons.prems(2-5) rest by (simp add: T(1))
  have "T\<lparr>sh_refunds := sh_refunds S\<rparr> = (T\<lparr>sh_refunds := sh_refunds S1\<rparr>)\<lparr>sh_refunds := sh_refunds S\<rparr>" by simp
  also have "\<dots> = S1\<lparr>sh_refunds := sh_refunds S\<rparr>" using ih by (simp only:)
  finally have frame: "T\<lparr>sh_refunds := sh_refunds S\<rparr> = S" using one(2) by simp
  have e: "e = None \<or> e = Some (Broken ''refund receipt mismatch'')" using one(1) by simp
  from ih frame e h(2-5) show ?case unfolding T(2) by auto
qed auto

end
