(* ===== verification/Free_Orders.thy ===== *)
theory Free_Orders
  imports Shop_Steps
begin

text \<open>
  The confirmation of an order without a price: nothing is posted, so no wallet row is created, and the startup check of the
  commerce tables, which expects a wallet row for every open wallet order, fails.
\<close>

lemma free_confirmed:
  assumes ok: "shop_ok S" and act: "orderAction env pw actor req0 S = Inr (reply, T)" "aq_Action req0 = ''confirm''" "T \<noteq> S"
    and find: "find_order S (aq_ID req0) = Some ord" and free: "of_Price (o_Offer ord) = 0" "o_PaymentAttemptID ord = []"
  shows "sh_ledger T = sh_ledger S" "\<exists>r \<in> set (sh_orders T). or_id r = aq_ID req0 \<and> or_user r = o_UserID ord \<and>
    wallet_order r \<and> of_Price (o_Offer (or_doc r)) = 0"
proof -
  let ?req = "req0\<lparr>aq_Reason := trim_space (aq_Reason req0)\<rparr>" and ?ord = "enrichOrder S ord"
  obtain u d ord' where draft: "action_draft env actor ?req (refundRequest S (o_ID ?ord)) S ?ord u = Inr d"
    and commit: "commit_draft env actor ?req (refundRequest S (o_ID ?ord)) (o_State ?ord) d S = Inr (ord', T)"
    using orderAction_Inr [OF act(1)] act(3) find by auto
  obtain r where r: "r \<in> set (sh_orders S)" "or_id r = aq_ID req0" "or_doc r = ord" "row_ok (user_ids S) r" "o_ID ord = aq_ID req0"
    by (rule find_order_row [OF ok find]) blast
  then have "o_State ord \<noteq> RefundRequested" by (auto simp: row_ok_def)
  note e = enrichOrder_simps [OF this, of S]
  then have same: "o_ID ?ord = o_ID ord" "o_UserID ?ord = o_UserID ord" "o_Offer ?ord = o_Offer ord" "o_PaymentAttemptID ?ord = []"
    using free(2) by (simp_all add: same_order_def)
  have d: "d = confirmed (ce_now env) ?ord u"
    using draft act(2) confirm_draft_Inr [of env actor ?req S ?ord u d] by (simp add: action_draft_def)
  define o1 where "o1 = dr_order d"
  have o1: "o_State o1 = Provisioning" "o_PaymentAttemptID o1 = []" "o_Offer o1 = o_Offer ord" "o_ID o1 = aq_ID req0"
    "dr_queued d = None"
    using same r(5) by (simp_all add: o1_def d confirmed_def Let_def)
  have noop: "committed ?req (o_State ?ord) d = d" using act(2) by (simp add: committed_def)
  obtain S1 u' S2 S3 S4 S5 S6 where
    ord': "ord' = dr_order d" and c1: "same_core S S1"
    and pay: "pay_queued_refund env actor d S1 = Inr S2"
    and req: "request_step env actor ?req (refundRequest S (o_ID ?ord)) ord' S2 = Inr S3"
    and money: "money_step env actor d S3 = Inr S4"
    and save: "saveOrder (ce_now env) ord' (o_State ?ord) S4 = Inr S5" and tx: "txUser u' S5 = Inr S6"
    and rep: "saveCommerceRequest env (u_ID actor) (aq_OperationID ?req) (ActionRequest ?req) (OrderReply ord')
       (notice_step env ?req ord' (u_ID u') S6) = Inr T"
    by (rule commit_draft_Inr [OF commit, unfolded noop]) blast
  have "S2 = S1" using pay o1(5) by (simp add: pay_queued_refund_def Let_def)
  moreover have "same_core S2 S3" by (rule core_request_step [OF req])
  moreover have "S4 = S3" using money o1(3) free(1) by (simp add: money_step_def Let_def o1_def)
  ultimately have c4: "same_core S S4" using c1 same_core_trans by metis
  then have orders: "sh_orders S4 = sh_orders S" "sh_ledger S4 = sh_ledger S" by (simp_all add: same_core_def)
  have dist: "distinct (map or_id (sh_orders S))" using ok by (simp add: shop_ok_def)
  obtain S5: "S5 = S4\<lparr>sh_orders := set_where (\<lambda>q. or_id q = o_ID ord') (saved_row (ce_now env) ord') (sh_orders S4)\<rparr>"
    using saveOrder_row [OF save] dist orders(1) by metis
  have "same_core S5 T"
    using core_txUser [OF tx] core_payments(4) core_requests(3) [OF rep] by (blast intro: same_core_trans)
  then have T: "sh_ledger T = sh_ledger S" "sh_orders T = set_where (\<lambda>q. or_id q = or_id r) (saved_row (ce_now env) o1) (sh_orders S)"
    using orders o1(4) r(2) by (simp_all add: same_core_def S5 ord' o1_def)
  show "sh_ledger T = sh_ledger S" by (rule T(1))
  have "saved_row (ce_now env) o1 r \<in> set (sh_orders T)" unfolding T(2) set_saved [OF dist r(1)] by simp
  moreover have "or_user r = o_UserID ord" using r(3,4) by (simp add: row_ok_def)
  ultimately show "\<exists>r \<in> set (sh_orders T). or_id r = aq_ID req0 \<and> or_user r = o_UserID ord \<and> wallet_order r \<and>
      of_Price (o_Offer (or_doc r)) = 0"
    using r(2) o1(1-3) free(1) by (intro bexI [of _ "saved_row (ce_now env) o1 r"]) (simp_all add: wallet_order_def)
qed

theorem free_order_blocks:
  assumes ok: "shop_ok S" and act: "orderAction env pw actor req0 S = Inr (reply, T)" "aq_Action req0 = ''confirm''" "T \<noteq> S"
    and find: "find_order S (aq_ID req0) = Some ord" and free: "of_Price (o_Offer ord) = 0" "o_PaymentAttemptID ord = []"
    and wallet: "o_UserID ord \<notin> fst ` set (l_wallets (sh_ledger S))"
  shows "shop_ok T \<and> sh_ledger T = sh_ledger S \<and>
    (\<exists>r \<in> set (sh_orders T). or_id r = aq_ID req0 \<and> wallet_order r \<and> of_Price (o_Offer (or_doc r)) = 0 \<and>
       or_user r \<notin> fst ` set (l_wallets (sh_ledger T))) \<and> \<not> validateCommerce T"
proof -
  note c = free_confirmed [OF ok act find free]
  have T: "shop_ok T" by (rule orderAction_keeps [OF ok act(1)])
  from c wallet obtain r where r: "r \<in> set (sh_orders T)" "or_id r = aq_ID req0" "wallet_order r" "of_Price (o_Offer (or_doc r)) = 0"
    "or_user r \<notin> fst ` set (l_wallets (sh_ledger T))" by auto
  then have "\<not> validateCommerce T" using validateCommerce_iff [OF T] by blast
  with T c(1) r show ?thesis by blast
qed

end
