(* ===== verification/Posting_Outcome.thy ===== *)
theory Posting_Outcome
  imports Ledger
begin

text \<open>
  What posting a movement to a consistent ledger does, written out: the bounds that refuse it, the keys that must be new,
  and the wallet, the transaction and the entries it leaves.
\<close>

text \<open>The balances after a movement stay in range, separately and together.\<close>

lemma movement_allowed_bounds:
  "movement_allowed w da dh \<longleftrightarrow> 0 \<le> w_available w + da \<and> 0 \<le> w_held w + dh \<and>
     w_available w + da + (w_held w + dh) \<le> moneyLimit"
  by (auto simp: movement_allowed_def)

text \<open>A posted movement: the wallet moves, a transaction records the new balances, and balanced entries move the accounts.\<close>

definition posts :: "int \<Rightarrow> string \<Rightarrow> int \<Rightarrow> string \<Rightarrow> int \<Rightarrow> int \<Rightarrow> ledger \<Rightarrow> ledger \<Rightarrow> bool" where
  "posts now txid user event da dh L L' \<longleftrightarrow>
    (\<exists>w t es. wallet_of L' user = w \<and>
       w_available w = w_available (wallet_of L user) + da \<and> w_held w = w_held (wallet_of L user) + dh \<and>
       w_revision w = w_revision (wallet_of L user) + 1 \<and> (\<forall>v. v \<noteq> user \<longrightarrow> wallet_of L' v = wallet_of L v) \<and>
       l_txs L' = l_txs L @ [t] \<and> mt_id t = txid \<and> mt_event_key t = event \<and> mt_user t = user \<and> mt_created t = now \<and>
       mt_revision t = w_revision w \<and> mt_available t = w_available w \<and> mt_held t = w_held w \<and>
       l_entries L' = l_entries L @ es \<and> list_all (\<lambda>e. me_tx e = txid \<and> me_amount e \<noteq> 0) es \<and>
       sum_list (map me_amount es) = 0 \<and> ((da, dh) \<noteq> (0, 0) \<longrightarrow> 2 \<le> length es)) \<and>
    (\<forall>v. account_sum L' (available_account v) = account_sum L (available_account v) + (if v = user then da else 0) \<and>
       account_sum L' (held_account v) = account_sum L (held_account v) + (if v = user then dh else 0))"

lemma posted_posts: "posts now txid user event da dh L (posted now txid user actor event kind reference reason da dh L)"
proof -
  let ?L = "posted now txid user actor event kind reference reason da dh L" and ?es = "ledger_entries txid user kind da dh"
  have es: "list_all (\<lambda>e. me_tx e = txid \<and> me_amount e \<noteq> 0) ?es" "sum_list (map me_amount ?es) = 0"
    by (auto simp: ledger_entries_def)
  let ?w = "moved da dh (wallet_of L user)"
  have "(da, dh) \<noteq> (0, 0) \<longrightarrow> 2 \<le> length ?es" using ledger_entries_facts(1) by blast
  with es show ?thesis
    unfolding posts_def
    by (intro conjI exI [of _ ?w] exI [of _ "money_row now txid user actor event kind reference reason da dh ?w"] exI [of _ ?es])
      (simp_all add: posted_wallet posted_txs posted_entries posted_account_sum money_row_def)
qed

theorem posting_outcome:
  assumes "chained L" and a: "a = w_available (wallet_of L user) + da" and h: "h = w_held (wallet_of L user) + dh"
  shows "if a < 0 \<or> h < 0 \<or> a + h > moneyLimit
    then postMoney now txid user actor event kind reference reason da dh L
      = Inl (Fail 409 ''insufficient balance or limit exceeded'')
    else if txid \<in> mt_id ` set (l_txs L) \<or> event \<in> mt_event_key ` set (l_txs L)
    then postMoney now txid user actor event kind reference reason da dh L = Inl (Unique ''money_transactions'')
    else \<exists>L'. postMoney now txid user actor event kind reference reason da dh L = Inr (wallet_of L' user, L') \<and>
      posts now txid user event da dh L L'"
proof -
  have bounds: "movement_allowed (wallet_of L user) da dh \<longleftrightarrow> \<not> (a < 0 \<or> h < 0 \<or> a + h > moneyLimit)"
    unfolding movement_allowed_bounds a h by auto
  show ?thesis
    unfolding postMoney_outcome [OF assms(1)] bounds
    using posted_posts [of now txid user event da dh L actor kind reference reason] posted_wallet [where v = user and user = user]
    by auto
qed

end
