(* ===== verification/Money_Samples.thy ===== *)
theory Money_Samples
  imports Samples Refund_Rounds Free_Orders Posting_Outcome
begin

text \<open>
  The inputs of the properties on single movements: a posting and its refusal, a free order confirmed without a wallet,
  a partial refund over two rounds of the worker, a refund that wraps, and a purchase split between two subsites.
\<close>

section \<open>Postings\<close>

lemma funded_wallet: "wallet_of funded_ledger 7 = \<lparr>w_available = 5000, w_held = 0, w_revision = 1\<rparr>" "chained funded_ledger"
proof -
  show "wallet_of funded_ledger 7 = \<lparr>w_available = 5000, w_held = 0, w_revision = 1\<rparr>"
    using postMoney_wallets [OF topup_runs [unfolded topup_def], of 7]
    by (simp add: wallet_of_def empty_ledger_def new_wallet_def moved_def)
  show "chained funded_ledger" using funded_ledger_ok by (simp add: ledger_ok_def)
qed

section \<open>A free order\<close>

definition free_pending :: Shop where
  "free_pending = pending_shop create_free free_offer empty_shop"

lemma free_facts:
  "aq_Action confirm_act = ''confirm''" "confirmed_shop create_free free_offer empty_ledger \<noteq> free_pending"
  "find_order free_pending (aq_ID confirm_act) = Some (sample_order free_offer)"
  "of_Price (o_Offer (sample_order free_offer)) = 0" "o_PaymentAttemptID (sample_order free_offer) = []"
  "o_UserID (sample_order free_offer) \<notin> fst ` set (l_wallets (sh_ledger free_pending))"
  by (simp_all add: free_pending_def confirm_act_def order_act_def confirmed_shop_def pending_shop_def find_order_def row_with_def
      order_row_def sample_order_def new_order_def normalize_state_def empty_ledger_def sample_data)

section \<open>A partial refund\<close>

definition stripe_later :: pay_env where
  "stripe_later = (sample_pay 9100)\<lparr>py_attempt_provider := (\<lambda>_. Some stripe_provider)\<rparr>"

definition stripe_rounds :: "Shop \<times> commerce_error option list" where
  "stripe_rounds = refund_rounds (\<lambda>_. Inl Conflict) stripe_post ''GYRF-2'' [stripe_env, stripe_later] refunding_shop"

lemma stripe_waiting:
  "waiting_refund stripe_attempt stripe_receipt part_refund refunding_shop" "pf_Amount part_refund \<noteq> pr_Amount stripe_receipt"
  "pr_ExternalRef stripe_receipt \<noteq> []" "whole_refunded stripe_post stripe_receipt (pf_ID part_refund)"
  "list_all (stripe_account stripe_attempt stripe_receipt) [stripe_env, stripe_later]"
  by (simp_all add: waiting_refund_def whole_refunded_def stripe_account_def stripe_later_def refunding_shop_def receipts_ok_def
      refunds_ok_def part_refund_def stripe_receipt_def stripe_attempt_def
      stripe_provider_def stripe_answer_def stripe_post_def stripe_env_def row_with_def empty_shop_def
      moneyLimit_def sample_pay_def py_now_def sample_env_def)

lemma stripe_rounds_run:
  "refund_rounds (\<lambda>_. Inl Conflict) stripe_post (pf_ID part_refund) [stripe_env, stripe_later] refunding_shop
    = (fst stripe_rounds, snd stripe_rounds)"
  by (simp add: stripe_rounds_def part_refund_def)

lemma stripe_rounds_errors: "snd stripe_rounds = [Some (Broken ''refund receipt mismatch''), Some (Broken ''refund receipt mismatch'')]"
proof -
  obtain S1 e1 where r1: "work_refund stripe_env (\<lambda>_. Inl Conflict) stripe_post part_refund refunding_shop = (S1, e1)" by fastforce
  have account: "stripe_account stripe_attempt stripe_receipt stripe_env" "stripe_account stripe_attempt stripe_receipt stripe_later"
    using stripe_waiting(5) by simp_all
  note one = round_of_refund [OF stripe_waiting(1-4) account(1) r1]
  have due: "refund_claimable (py_now stripe_env) part_refund" "py_now stripe_env = 9000" "py_now stripe_later = 9100"
    by (simp_all add: refund_claimable_def part_refund_def py_now_def stripe_env_def stripe_later_def sample_pay_def sample_env_def)
  from one(1) due(1) have e1: "e1 = Some (Broken ''refund receipt mismatch'')" by simp
  from one(3) due(2) obtain h where h: "waiting_refund stripe_attempt stripe_receipt h S1" "pf_ID h = pf_ID part_refund"
    "pf_Amount h = pf_Amount part_refund" "pf_State h = ''processing''" "pf_NextAttempt h = 9060" by (auto simp: e1)
  obtain S2 e2 where r2: "work_refund stripe_later (\<lambda>_. Inl Conflict) stripe_post h S1 = (S2, e2)" by fastforce
  have "pf_Amount h \<noteq> pr_Amount stripe_receipt" "whole_refunded stripe_post stripe_receipt (pf_ID h)"
    using stripe_waiting(2,4) h(2,3) by simp_all
  from round_of_refund(1) [OF h(1) this(1) stripe_waiting(3) this(2) account(2) r2] h(4,5) due(3)
  have e2: "e2 = Some (Broken ''refund receipt mismatch'')" by (simp add: refund_claimable_def)
  have "row_with pf_ID ''GYRF-2'' (sh_refunds refunding_shop) = Some part_refund" "row_with pf_ID ''GYRF-2'' (sh_refunds S1) = Some h"
    using stripe_waiting(1) h(1,2) by (simp_all add: waiting_refund_def part_refund_def)
  with r1 r2 e1 e2 show ?thesis by (simp add: stripe_rounds_def)
qed

section \<open>A refund that wraps\<close>

lemma large_facts:
  "0 < of_Price (o_Offer large_order)" "orderEntitlementPosition large_user (o_ID large_order) = ActivePlan" "0 < QuotaUsed large_user"
  "2 ^ 63 \<le> of_Price (o_Offer large_order) * (pl_Quota (of_Plan (o_Offer large_order)) - QuotaUsed large_user)"
  "of_Price (o_Offer large_order) * (pl_Quota (of_Plan (o_Offer large_order)) - QuotaUsed large_user) < 2 ^ 64"
  "QuotaUsed large_user \<le> pl_Quota (of_Plan (o_Offer large_order))" "pl_Quota (of_Plan (o_Offer large_order)) < 2 ^ 63"
  "pl_Quota (of_Plan (o_Offer large_order)) \<le> 2 ^ 64 - of_Price (o_Offer large_order) * (pl_Quota (of_Plan (o_Offer large_order)) - QuotaUsed large_user)"
  by (simp_all add: large_order_def large_user_def orderEntitlementPosition_def owns_active_def
      QuotaUsed_def QuotaUpload_def QuotaDownload_def sample_order_def new_order_def
      running_user_def empty_meter_def sample_data Let_def)

section \<open>A purchase with two subsites\<close>

definition open_user :: Record where
  "open_user = metered_user\<lparr>r_AccessResolved := True, r_AllowedGroups := [legacyPrivateGroup]\<rparr>"

definition two_sites :: "BusinessSite list" where
  "two_sites = [sample_site, sample_site\<lparr>bs_ID := ''S2''\<rparr>]"

lemma split_sites:
  "purchaseSiteBudgets [private_node] (\<lambda>_. [private_node]) (\<lambda>_. True) open_user two_sites = [(''S1'', 333333), (''S2'', 333333)]"
  by code_simp

end
