(* ===== verification/Refund_Amount.thy ===== *)
theory Refund_Amount
  imports Checkout
begin

text \<open>
  The amount a refund returns (\<open>refundableOrderAmount\<close>): proportional to what is left of the plan,
  between nothing and the price as long as the 64-bit product does not wrap, and what it becomes when it does.
\<close>

lemma share_bounds:
  fixes a q left :: int
  assumes "0 < a" "0 < q" "0 \<le> left" "left \<le> q" "a * q < 2 ^ 63"
  shows "wrap64 (a * left) sdiv q = a * left div q" "0 \<le> a * left div q" "a * left div q \<le> a"
proof -
  have le: "0 \<le> a * left" "a * left \<le> a * q" using assms by (simp_all add: mult_left_mono)
  with assms(5) have "wrap64 (a * left) = a * left" by (intro wrap64_id) (auto simp: in64_def)
  with le(1) assms(2) show "wrap64 (a * left) sdiv q = a * left div q" by (simp add: sdiv_nonneg)
  show "0 \<le> a * left div q" using le(1) assms(2) by (simp add: pos_imp_zdiv_nonneg_iff)
  have "a * left div q \<le> a * q div q" using le(2) assms(2) by (rule zdiv_mono1)
  then show "a * left div q \<le> a" using assms(2) by simp
qed

text \<open>What the order is refunded by: the whole price, or the share of traffic or of days that is left.\<close>

definition days_total :: "Order \<Rightarrow> int" where
  "days_total ord = pl_ValidDays (of_Plan (o_Offer ord)) * 86400"

lemma refundable_bounds:
  assumes "0 \<le> of_Price (o_Offer ord)" "0 \<le> pl_Quota (of_Plan (o_Offer ord))"
    and "of_Price (o_Offer ord) * pl_Quota (of_Plan (o_Offer ord)) < 2 ^ 63"
    and "of_Price (o_Offer ord) * days_total ord < 2 ^ 63"
  shows "0 \<le> refundableOrderAmount ord u now \<and> refundableOrderAmount ord u now \<le> of_Price (o_Offer ord)"
proof -
  let ?a = "of_Price (o_Offer ord)" and ?p = "of_Plan (o_Offer ord)"
  let ?used = "min (pl_Quota ?p) (max 0 (QuotaUsed u))" and ?left = "max 0 (u_Expires u - now)"
  consider "refundableOrderAmount ord u now = 0" | "refundableOrderAmount ord u now = ?a"
    | "0 < ?a" "0 < pl_Quota ?p" "refundableOrderAmount ord u now = wrap64 (?a * (pl_Quota ?p - ?used)) sdiv pl_Quota ?p"
    | "0 < ?a" "0 < days_total ord" "?left < days_total ord" "refundableOrderAmount ord u now = wrap64 (?a * ?left) sdiv days_total ord"
  proof -
    have pick: "(if a \<le> 0 then 0 else if n then a else if q \<and> k then x else if r \<and> v \<and> w \<and> d \<and> t then y else a) = (0 :: int)
        \<or> (if a \<le> 0 then 0 else if n then a else if q \<and> k then x else if r \<and> v \<and> w \<and> d \<and> t then y else a) = a
        \<or> 0 < a \<and> q \<and> (if a \<le> 0 then 0 else if n then a else if q \<and> k then x else if r \<and> v \<and> w \<and> d \<and> t then y else a) = x
        \<or> 0 < a \<and> d \<and> t \<and> (if a \<le> 0 then 0 else if n then a else if q \<and> k then x else if r \<and> v \<and> w \<and> d \<and> t then y else a) = y"
      for a x y :: int and n q k r v w d t by auto
    from that pick show thesis unfolding refundableOrderAmount_def Let_def days_total_def by blast
  qed
  then show ?thesis
  proof cases
    case 3
    then show ?thesis using share_bounds [of ?a "pl_Quota ?p" "pl_Quota ?p - ?used"] assms(3) by simp
  next
    case 4
    then show ?thesis using share_bounds [of ?a "days_total ord" ?left] assms(4) by simp
  qed (use assms(1) in simp_all)
qed

text \<open>The exact share of the traffic that is left.\<close>

lemma refundable_traffic_share:
  assumes "0 < of_Price (o_Offer ord)" "orderEntitlementPosition u (o_ID ord) = ActivePlan"
    and "0 < pl_Quota (of_Plan (o_Offer ord))" "0 < QuotaUsed u" "QuotaUsed u \<le> pl_Quota (of_Plan (o_Offer ord))"
    and "of_Price (o_Offer ord) * pl_Quota (of_Plan (o_Offer ord)) < 2 ^ 63"
  shows "refundableOrderAmount ord u now =
    of_Price (o_Offer ord) * (pl_Quota (of_Plan (o_Offer ord)) - QuotaUsed u) div pl_Quota (of_Plan (o_Offer ord))"
  using assms share_bounds(1) [of "of_Price (o_Offer ord)" "pl_Quota (of_Plan (o_Offer ord))" "pl_Quota (of_Plan (o_Offer ord)) - QuotaUsed u"]
  by (simp add: refundableOrderAmount_def Let_def)

text \<open>When the product needs the 64th bit, it wraps to a negative number and the division follows its sign.\<close>

lemma refundable_wraps:
  assumes "0 < of_Price (o_Offer ord)" "orderEntitlementPosition u (o_ID ord) = ActivePlan" "0 < QuotaUsed u"
    and product: "P = of_Price (o_Offer ord) * (pl_Quota (of_Plan (o_Offer ord)) - QuotaUsed u)" "2 ^ 63 \<le> P" "P < 2 ^ 64"
    and quota: "QuotaUsed u \<le> pl_Quota (of_Plan (o_Offer ord))" "pl_Quota (of_Plan (o_Offer ord)) < 2 ^ 63"
  shows "refundableOrderAmount ord u now = - ((2 ^ 64 - P) div pl_Quota (of_Plan (o_Offer ord)))"
    "refundableOrderAmount ord u now < 0 \<longleftrightarrow> pl_Quota (of_Plan (o_Offer ord)) \<le> 2 ^ 64 - P"
    "refundableOrderAmount ord u now < P div pl_Quota (of_Plan (o_Offer ord))"
proof -
  let ?q = "pl_Quota (of_Plan (o_Offer ord))"
  have q: "0 < ?q" using assms(3) quota(1) by simp
  have "wrap64 P = P - 2 ^ 64"
  proof -
    have "(P + 2 ^ 63) mod 2 ^ 64 = (P + 2 ^ 63 - 2 ^ 64) mod 2 ^ 64" by (rule minus_mod_self2 [symmetric])
    also have "\<dots> = P + 2 ^ 63 - 2 ^ 64" using product(2,3) by (intro mod_pos_pos_trivial) simp_all
    finally show ?thesis by (simp add: wrap64_def)
  qed
  then have "wrap64 P sdiv ?q = - ((2 ^ 64 - P) div ?q)" using product(3) q by (simp add: signed_divide_int_def)
  then show exact: "refundableOrderAmount ord u now = - ((2 ^ 64 - P) div ?q)"
    using assms(1-3) q quota(1) by (simp add: refundableOrderAmount_def Let_def product(1))
  have "0 < (2 ^ 64 - P) div ?q \<longleftrightarrow> ?q \<le> 2 ^ 64 - P" using q by (simp add: pos_imp_zdiv_pos_iff)
  then show "refundableOrderAmount ord u now < 0 \<longleftrightarrow> ?q \<le> 2 ^ 64 - P" unfolding exact by linarith
  have "0 \<le> (2 ^ 64 - P) div ?q" using q product(3) by (simp add: pos_imp_zdiv_nonneg_iff)
  moreover have "0 < P div ?q" using q product(2) quota(2) by (simp add: pos_imp_zdiv_pos_iff)
  ultimately show "refundableOrderAmount ord u now < P div ?q" unfolding exact by linarith
qed

end
