(* ===== verification/Node_Meter.thy ===== *)
theory Node_Meter
  imports Sites
begin

text \<open>
  Metering at the panel that carries the traffic (\<open>backend/internal/controlplane/usage_meter.go\<close>,
  \<open>business_usage_ack.go\<close>): the counters of the proxy cores are turned into deltas, weighted with
  the rate of the node for the user's plan, added to the account and to the per-node rows, and the
  rows stay pending until the controller has acknowledged them.
\<close>

section \<open>Tables\<close>

record NodeUsage =
  nu_UserID :: int
  nu_NodeID :: string
  nu_PeriodID :: string
  nu_RateRevision :: string
  nu_RateMilli :: int
  nu_Upload :: int
  nu_Download :: int

text \<open>The primary key of \<open>node_usage\<close> and \<open>business_usage_acks\<close>.\<close>

type_synonym usage_key = "int \<times> string \<times> string \<times> string"

definition row_key :: "NodeUsage \<Rightarrow> usage_key" where
  "row_key r = (nu_UserID r, nu_NodeID r, nu_PeriodID r, nu_RateRevision r)"

record Counter =
  ct_Key :: string
  ct_Generation :: string
  ct_Protocol :: string
  ct_Direction :: string
  ct_NodeID :: string
  ct_UserID :: int
  ct_Value :: int

record Meters =
  ms_users :: "(int \<times> User) list"
  ms_nodes :: "Node list"
  ms_policies :: "(string \<times> Node) list"
  ms_checkpoints :: "(string \<times> string \<times> int) list"
  ms_usage :: "NodeUsage list"
  ms_acks :: "(usage_key \<times> int \<times> int) list"
  ms_traffic :: "((int \<times> int) \<times> int \<times> int) list"

text \<open>\<open>NilMeter\<close> is the panic of a dereferenced nil meter; \<open>InitMeter\<close> rules it out.\<close>

datatype metering_error =
  InvalidCounter | Counter meter_error | NilMeter | UnknownRow | InvalidAcknowledgement

definition meter_res :: "meter_error + 'a \<Rightarrow> metering_error + 'a" where
  "meter_res r = (case r of Inl e \<Rightarrow> Inl (Counter e) | Inr x \<Rightarrow> Inr x)"

lemma meter_res_eq_Inr [simp, res_simps]: "meter_res r = Inr x \<longleftrightarrow> r = Inr x"
  by (cases r) (simp_all add: meter_res_def)

lemma meter_res_Inr [simp]: "meter_res (Inr x) = Inr x"
  by (simp add: meter_res_def)

text \<open>\<open>INSERT \<dots> ON CONFLICT DO UPDATE SET upload=upload+excluded.upload, \<dots>\<close>: the rate of a row stays.\<close>

definition add_usage :: "usage_key \<Rightarrow> int \<Rightarrow> int \<Rightarrow> int \<Rightarrow> NodeUsage list \<Rightarrow> NodeUsage list" where
  "add_usage k rate up down rows =
    (if list_ex (\<lambda>r. row_key r = k) rows
     then map (\<lambda>r. if row_key r = k
            then r\<lparr>nu_Upload := nu_Upload r + up, nu_Download := nu_Download r + down\<rparr> else r) rows
     else rows @ [\<lparr>nu_UserID = fst k, nu_NodeID = fst (snd k), nu_PeriodID = fst (snd (snd k)),
                  nu_RateRevision = snd (snd (snd k)), nu_RateMilli = rate, nu_Upload = up, nu_Download = down\<rparr>])"

definition add_traffic ::
  "int \<times> int \<Rightarrow> int \<Rightarrow> int \<Rightarrow> ((int \<times> int) \<times> int \<times> int) list \<Rightarrow> ((int \<times> int) \<times> int \<times> int) list"
where
  "add_traffic k up down rows =
    map_put k (fst (map_get (0, 0) rows k) + up, snd (map_get (0, 0) rows k) + down) rows"

section \<open>Charging one counter\<close>

definition zero_node :: Node where
  "zero_node = \<lparr>nd_AccessKey = [], nd_PolicyVersion = 0, nd_RateMilli = 0, nd_RateRevision = [], nd_GroupIDs = [],
     nd_ManagedBy = [], nd_ExitID = [], nd_ID = [], nd_Name = [], nd_Protocol = [], nd_Enabled = False\<rparr>"

definition node_policies :: "Node list \<Rightarrow> (string \<times> Node) list" where
  "node_policies nodes =
    foldl (\<lambda>m n. let p = normalizeNodePolicy n in map_put (planNodeKey p) p (map_put (nd_ID p) p m)) [] nodes"

definition retain_policies :: "(string \<times> Node) list \<Rightarrow> (string \<times> Node) list \<Rightarrow> (string \<times> Node) list" where
  "retain_policies policies rows = foldl (\<lambda>m (k, n). map_put k n m) rows policies"

definition node_policy :: "(string \<times> Node) list \<Rightarrow> (string \<times> Node) list \<Rightarrow> string \<Rightarrow> Node" where
  "node_policy policies retained nodeID =
    (case map_of policies nodeID of Some n \<Rightarrow> n
     | None \<Rightarrow> (case map_of retained nodeID of Some n \<Rightarrow> n
        | None \<Rightarrow> normalizeNodePolicy (zero_node\<lparr>nd_ID := nodeID\<rparr>)))"

definition valid_counter :: "Counter \<Rightarrow> bool" where
  "valid_counter c \<longleftrightarrow> 0 < ct_UserID c \<and> 0 \<le> ct_Value c \<and> ct_Value c \<le> CounterLimit
     \<and> (ct_Direction c = ''up'' \<or> ct_Direction c = ''down'') \<and> (ct_Protocol c = ''vless'' \<or> ct_Protocol c = ''hy2'')"

text \<open>A counter that restarted, or a new generation of the core, counts from zero.\<close>

definition counter_delta :: "(string \<times> string \<times> int) list \<Rightarrow> Counter \<Rightarrow> int" where
  "counter_delta checkpoints c =
    (let (gen, seen) = map_get ([], 0) checkpoints (ct_Key c) in
     if gen = ct_Generation c \<and> ct_Value c \<ge> seen then ct_Value c - seen else ct_Value c)"

definition counter_node :: "Counter \<Rightarrow> string" where
  "counter_node c = (if ct_NodeID c = [] then ct_Protocol c @ ''-main'' else ct_NodeID c)"

text \<open>The four counters a delta moves, in the order of the code.\<close>

definition charge_up :: "string \<Rightarrow> int \<Rightarrow> int \<Rightarrow> User \<Rightarrow> metering_error + User" where
  "charge_up protocol delta rate u =
    (case u_Meter u of None \<Rightarrow> Inl NilMeter
     | Some m \<Rightarrow>
       bind_res (meter_res (WeightedBytes delta rate (qm_UploadRemainder m))) (\<lambda>(cost, residue).
       bind_res (meter_res (AddCounter (u_Upload u) delta)) (\<lambda>raw.
       bind_res (meter_res (AddCounter (if protocol = ''vless'' then u_VLESSTraffic u else u_HY2Traffic u) delta)) (\<lambda>pt.
       bind_res (meter_res (AddCounter (qm_Upload m) cost)) (\<lambda>weighted.
       let u1 = u\<lparr>u_Upload := raw, u_Meter := Some (m\<lparr>qm_Upload := weighted, qm_UploadRemainder := residue\<rparr>)\<rparr>
       in Inr (if protocol = ''vless'' then u1\<lparr>u_VLESSTraffic := pt\<rparr> else u1\<lparr>u_HY2Traffic := pt\<rparr>))))))"

definition charge_down :: "string \<Rightarrow> int \<Rightarrow> int \<Rightarrow> User \<Rightarrow> metering_error + User" where
  "charge_down protocol delta rate u =
    (case u_Meter u of None \<Rightarrow> Inl NilMeter
     | Some m \<Rightarrow>
       bind_res (meter_res (WeightedBytes delta rate (qm_DownloadRemainder m))) (\<lambda>(cost, residue).
       bind_res (meter_res (AddCounter (u_Download u) delta)) (\<lambda>raw.
       bind_res (meter_res (AddCounter (if protocol = ''vless'' then u_VLESSTraffic u else u_HY2Traffic u) delta)) (\<lambda>pt.
       bind_res (meter_res (AddCounter (qm_Download m) cost)) (\<lambda>weighted.
       let u1 = u\<lparr>u_Download := raw, u_Meter := Some (m\<lparr>qm_Download := weighted, qm_DownloadRemainder := residue\<rparr>)\<rparr>
       in Inr (if protocol = ''vless'' then u1\<lparr>u_VLESSTraffic := pt\<rparr> else u1\<lparr>u_HY2Traffic := pt\<rparr>))))))"

definition charge :: "string \<Rightarrow> string \<Rightarrow> int \<Rightarrow> int \<Rightarrow> User \<Rightarrow> metering_error + User" where
  "charge direction protocol delta rate u =
    (if direction = ''up'' then charge_up protocol delta rate u else charge_down protocol delta rate u)"

section \<open>A sample of all counters\<close>

text \<open>\<open>me_logs\<close> is \<open>logsEnabledLocked\<close>, \<open>me_digest\<close> the digest in a package rate revision.\<close>

record meter_env =
  me_now :: int
  me_logs :: bool
  me_digest :: "string \<Rightarrow> string"

text \<open>The accounts a run has touched are kept in memory and written at its end.\<close>

definition loaded_user :: "meter_env \<Rightarrow> Meters \<Rightarrow> (int \<times> User) list \<Rightarrow> int \<Rightarrow> User option" where
  "loaded_user env S cache i =
    (case map_of cache i of Some u \<Rightarrow> Some u
     | None \<Rightarrow> map_option (InitMeter (''legacy-'' @ itoa i) (me_now env)) (map_of (ms_users S) i))"

definition charge_node :: "meter_env \<Rightarrow> (string \<times> Node) list \<Rightarrow> Meters \<Rightarrow> Counter \<Rightarrow> User \<Rightarrow> Node" where
  "charge_node env policies S c u =
    planNodePolicy (me_digest env) (u_Entitlement u) (node_policy policies (ms_policies S) (counter_node c))"

definition period_of :: "User \<Rightarrow> string" where
  "period_of u = (case u_Meter u of None \<Rightarrow> [] | Some m \<Rightarrow> qm_PeriodID m)"

definition record_delta :: "meter_env \<Rightarrow> Counter \<Rightarrow> Node \<Rightarrow> string \<Rightarrow> int \<Rightarrow> Meters \<Rightarrow> Meters" where
  "record_delta env c n period delta S =
    (let up = (if ct_Direction c = ''up'' then delta else 0); down = (if ct_Direction c = ''up'' then 0 else delta);
         S1 = S\<lparr>ms_usage := add_usage (ct_UserID c, counter_node c, period, nd_RateRevision n) (nd_RateMilli n) up down (ms_usage S)\<rparr>
     in if me_logs env then S1\<lparr>ms_traffic := add_traffic (me_now env div 3600 * 3600, ct_UserID c) up down (ms_traffic S1)\<rparr> else S1)"

definition charge_delta ::
  "meter_env \<Rightarrow> (string \<times> Node) list \<Rightarrow> Counter \<Rightarrow> int \<Rightarrow> Meters \<Rightarrow> (int \<times> User) list \<Rightarrow>
     metering_error + (Meters \<times> (int \<times> User) list)"
where
  "charge_delta env policies c delta S cache =
    (case loaded_user env S cache (ct_UserID c) of
       None \<Rightarrow> Inr (S, cache)
     | Some u \<Rightarrow>
         bind_res (charge (ct_Direction c) (ct_Protocol c) delta (nd_RateMilli (charge_node env policies S c u)) u) (\<lambda>u'.
         Inr (record_delta env c (charge_node env policies S c u) (period_of u) delta S, map_put (ct_UserID c) u' cache)))"

definition account_counter ::
  "meter_env \<Rightarrow> (string \<times> Node) list \<Rightarrow> Counter \<Rightarrow> Meters \<times> (int \<times> User) list \<Rightarrow> metering_error + (Meters \<times> (int \<times> User) list)"
where
  "account_counter env policies c st =
    (let S = fst st; cache = snd st in
     if \<not> valid_counter c then Inl InvalidCounter
     else
       let delta = counter_delta (ms_checkpoints S) c;
           S1 = S\<lparr>ms_checkpoints := map_put (ct_Key c) (ct_Generation c, ct_Value c) (ms_checkpoints S)\<rparr>
       in if delta = 0 then Inr (S1, cache) else charge_delta env policies c delta S1 cache)"

definition flush_users :: "(int \<times> User) list \<Rightarrow> (int \<times> User) list \<Rightarrow> (int \<times> User) list" where
  "flush_users cache rows = map (\<lambda>(i, u). (i, case map_of cache i of Some u' \<Rightarrow> u' | None \<Rightarrow> u)) rows"

text \<open>\<open>Store.account\<close>.\<close>

definition account :: "meter_env \<Rightarrow> Counter list \<Rightarrow> Meters \<Rightarrow> metering_error + Meters" where
  "account env counters S =
    (if counters = [] then Inr S
     else
       let policies = node_policies (ms_nodes S) in
       bind_res (fold_res (account_counter env policies) counters
                   (S\<lparr>ms_policies := retain_policies policies (ms_policies S)\<rparr>, [])) (\<lambda>(S1, cache).
       let S2 = S1\<lparr>ms_users := flush_users cache (ms_users S1)\<rparr> in
       Inr (if me_logs env then S2\<lparr>ms_traffic := filter (\<lambda>e. fst (fst e) \<ge> me_now env - 30 * 24 * 3600) (ms_traffic S2)\<rparr> else S2)))"

section \<open>Pending rows and acknowledgements\<close>

definition ack_of :: "Meters \<Rightarrow> usage_key \<Rightarrow> (int \<times> int) option" where
  "ack_of S k = map_of (ms_acks S) k"

definition row_pending :: "Meters \<Rightarrow> NodeUsage \<Rightarrow> bool" where
  "row_pending S r = (case ack_of S (row_key r) of None \<Rightarrow> True
     | Some (up, down) \<Rightarrow> nu_Upload r > up \<or> nu_Download r > down)"

text \<open>\<open>ORDER BY user_id, node_id, period_id, rate_revision\<close> plays no role for the reader; table order here.\<close>

definition pendingNodeUsage :: "Meters \<Rightarrow> NodeUsage list" where
  "pendingNodeUsage S = filter (row_pending S) (ms_usage S)"

text \<open>An acknowledgement never goes back: the update is skipped when it is behind in either direction.\<close>

definition put_ack :: "NodeUsage \<Rightarrow> Meters \<Rightarrow> Meters" where
  "put_ack v S =
    (case ack_of S (row_key v) of
       None \<Rightarrow> S\<lparr>ms_acks := (row_key v, nu_Upload v, nu_Download v) # ms_acks S\<rparr>
     | Some (up, down) \<Rightarrow>
         if up \<le> nu_Upload v \<and> down \<le> nu_Download v
         then S\<lparr>ms_acks := map_put (row_key v) (nu_Upload v, nu_Download v) (ms_acks S)\<rparr> else S)"

definition ack_row :: "NodeUsage \<Rightarrow> Meters \<Rightarrow> metering_error + Meters" where
  "ack_row v S =
    (case find (\<lambda>r. row_key r = row_key v) (ms_usage S) of
       None \<Rightarrow> Inl UnknownRow
     | Some r \<Rightarrow>
         if nu_Upload v < 0 \<or> nu_Download v < 0 \<or> nu_Upload v > nu_Upload r \<or> nu_Download v > nu_Download r
            \<or> nu_RateMilli v \<noteq> nu_RateMilli r
         then Inl InvalidAcknowledgement else Inr (put_ack v S))"

definition ackBusinessUsage :: "NodeUsage list \<Rightarrow> Meters \<Rightarrow> metering_error + Meters" where
  "ackBusinessUsage rows S = fold_res ack_row rows S"


section \<open>What a sample keeps\<close>

text \<open>
  The quantities an account and its per-node rows both record: bytes per direction, bytes per
  protocol, and weighted bytes in thousandths.
\<close>

datatype level = RawUp | RawDown | Protocols | CostUp | CostDown

fun user_level :: "level \<Rightarrow> User \<Rightarrow> int" where
  "user_level RawUp u = u_Upload u"
| "user_level RawDown u = u_Download u"
| "user_level Protocols u = u_VLESSTraffic u + u_HY2Traffic u"
| "user_level CostUp u = (case u_Meter u of None \<Rightarrow> 1000 * u_Upload u
     | Some m \<Rightarrow> 1000 * qm_Upload m + qm_UploadRemainder m)"
| "user_level CostDown u = (case u_Meter u of None \<Rightarrow> 1000 * u_Download u
     | Some m \<Rightarrow> 1000 * qm_Download m + qm_DownloadRemainder m)"

fun delta_level :: "level \<Rightarrow> int \<Rightarrow> int \<Rightarrow> int \<Rightarrow> int" where
  "delta_level RawUp rate up down = up"
| "delta_level RawDown rate up down = down"
| "delta_level Protocols rate up down = up + down"
| "delta_level CostUp rate up down = rate * up"
| "delta_level CostDown rate up down = rate * down"

definition row_level :: "level \<Rightarrow> NodeUsage \<Rightarrow> int" where
  "row_level l r = delta_level l (nu_RateMilli r) (nu_Upload r) (nu_Download r)"

definition usage_level :: "level \<Rightarrow> NodeUsage list \<Rightarrow> int \<Rightarrow> int" where
  "usage_level l rows i = sum_where (\<lambda>r. nu_UserID r = i) (row_level l) rows"

lemma delta_level_add:
  "delta_level l rate (a + up) (b + down) = delta_level l rate a b + delta_level l rate up down"
  by (cases l) (simp_all add: algebra_simps)

lemma delta_level_zero [simp]: "delta_level l rate 0 0 = 0"
  by (cases l) simp_all

lemma user_level_InitMeter [simp]: "user_level l (InitMeter p now u) = user_level l u"
  by (cases l; cases "u_Meter u") (simp_all add: InitMeter_def empty_meter_def)

definition up_part :: "string \<Rightarrow> int \<Rightarrow> int" where
  "up_part direction delta = (if direction = ''up'' then delta else 0)"

definition down_part :: "string \<Rightarrow> int \<Rightarrow> int" where
  "down_part direction delta = (if direction = ''up'' then 0 else delta)"

definition valid_rate :: "int \<Rightarrow> bool" where
  "valid_rate rate \<longleftrightarrow> 0 \<le> rate \<and> rate \<le> 100000 \<and> rate mod 10 = 0"

lemma WeightedBytes_valid_rate: "WeightedBytes b rate m = Inr q \<Longrightarrow> valid_rate rate"
  by (simp add: WeightedBytes_def valid_rate_def split: if_splits)

lemma charge_up_Inr:
  assumes "charge_up protocol delta rate u = Inr u'"
  obtains m cost residue where "u_Meter u = Some m" "WeightedBytes delta rate (qm_UploadRemainder m) = Inr (cost, residue)"
    "1000 * cost + residue = rate * delta + qm_UploadRemainder m" "0 \<le> residue" "residue < 1000"
    "AddCounter (u_Upload u) delta = Inr (u_Upload u + delta)" "AddCounter (qm_Upload m) cost = Inr (qm_Upload m + cost)"
    "u_Upload u' = u_Upload u + delta" "u_Download u' = u_Download u"
    "u_VLESSTraffic u' + u_HY2Traffic u' = u_VLESSTraffic u + u_HY2Traffic u + delta"
    "u_Meter u' = Some (m\<lparr>qm_Upload := qm_Upload m + cost, qm_UploadRemainder := residue\<rparr>)"
    "u_Entitlement u' = u_Entitlement u" "u_Role u' = u_Role u" "valid_rate rate"
    "user_in_range u \<Longrightarrow> 0 \<le> u_VLESSTraffic u' \<and> u_VLESSTraffic u' \<le> CounterLimit \<and> 0 \<le> u_HY2Traffic u' \<and> u_HY2Traffic u' \<le> CounterLimit"
proof (cases "u_Meter u")
  case (Some m)
  with assms obtain cost residue where w: "WeightedBytes delta rate (qm_UploadRemainder m) = Inr (cost, residue)"
    and a: "AddCounter (u_Upload u) delta = Inr (u_Upload u + delta)" "AddCounter (qm_Upload m) cost = Inr (qm_Upload m + cost)"
    and p: "AddCounter (if protocol = ''vless'' then u_VLESSTraffic u else u_HY2Traffic u) delta
        = Inr ((if protocol = ''vless'' then u_VLESSTraffic u else u_HY2Traffic u) + delta)"
    and u': "u' = (let u1 = u\<lparr>u_Upload := u_Upload u + delta,
        u_Meter := Some (m\<lparr>qm_Upload := qm_Upload m + cost, qm_UploadRemainder := residue\<rparr>)\<rparr> in
        if protocol = ''vless'' then u1\<lparr>u_VLESSTraffic := u_VLESSTraffic u + delta\<rparr>
        else u1\<lparr>u_HY2Traffic := u_HY2Traffic u + delta\<rparr>)"
    by (auto simp: charge_up_def res_simps Let_def split: if_splits)
  from WeightedBytes_exact [OF w]
  have exact: "1000 * cost + residue = rate * delta + qm_UploadRemainder m" "0 \<le> residue" "residue < 1000"
    by (simp_all add: algebra_simps)
  have valid: "valid_rate rate" by (rule WeightedBytes_valid_rate [OF w])
  show thesis
    by (rule that [OF Some w exact a]) (use p valid in \<open>auto simp: u' Let_def user_in_range_def split: if_splits\<close>)
qed (use assms in \<open>simp add: charge_up_def\<close>)

lemma charge_down_Inr:
  assumes "charge_down protocol delta rate u = Inr u'"
  obtains m cost residue where "u_Meter u = Some m" "WeightedBytes delta rate (qm_DownloadRemainder m) = Inr (cost, residue)"
    "1000 * cost + residue = rate * delta + qm_DownloadRemainder m" "0 \<le> residue" "residue < 1000"
    "AddCounter (u_Download u) delta = Inr (u_Download u + delta)" "AddCounter (qm_Download m) cost = Inr (qm_Download m + cost)"
    "u_Download u' = u_Download u + delta" "u_Upload u' = u_Upload u"
    "u_VLESSTraffic u' + u_HY2Traffic u' = u_VLESSTraffic u + u_HY2Traffic u + delta"
    "u_Meter u' = Some (m\<lparr>qm_Download := qm_Download m + cost, qm_DownloadRemainder := residue\<rparr>)"
    "u_Entitlement u' = u_Entitlement u" "u_Role u' = u_Role u" "valid_rate rate"
    "user_in_range u \<Longrightarrow> 0 \<le> u_VLESSTraffic u' \<and> u_VLESSTraffic u' \<le> CounterLimit \<and> 0 \<le> u_HY2Traffic u' \<and> u_HY2Traffic u' \<le> CounterLimit"
proof (cases "u_Meter u")
  case (Some m)
  with assms obtain cost residue where w: "WeightedBytes delta rate (qm_DownloadRemainder m) = Inr (cost, residue)"
    and a: "AddCounter (u_Download u) delta = Inr (u_Download u + delta)" "AddCounter (qm_Download m) cost = Inr (qm_Download m + cost)"
    and p: "AddCounter (if protocol = ''vless'' then u_VLESSTraffic u else u_HY2Traffic u) delta
        = Inr ((if protocol = ''vless'' then u_VLESSTraffic u else u_HY2Traffic u) + delta)"
    and u': "u' = (let u1 = u\<lparr>u_Download := u_Download u + delta,
        u_Meter := Some (m\<lparr>qm_Download := qm_Download m + cost, qm_DownloadRemainder := residue\<rparr>)\<rparr> in
        if protocol = ''vless'' then u1\<lparr>u_VLESSTraffic := u_VLESSTraffic u + delta\<rparr>
        else u1\<lparr>u_HY2Traffic := u_HY2Traffic u + delta\<rparr>)"
    by (auto simp: charge_down_def res_simps Let_def split: if_splits)
  from WeightedBytes_exact [OF w]
  have exact: "1000 * cost + residue = rate * delta + qm_DownloadRemainder m" "0 \<le> residue" "residue < 1000"
    by (simp_all add: algebra_simps)
  have valid: "valid_rate rate" by (rule WeightedBytes_valid_rate [OF w])
  show thesis
    by (rule that [OF Some w exact a]) (use p valid in \<open>auto simp: u' Let_def user_in_range_def split: if_splits\<close>)
qed (use assms in \<open>simp add: charge_down_def\<close>)

lemma charge_level:
  assumes "charge direction protocol delta rate u = Inr u'"
  shows "user_level l u' = user_level l u + delta_level l rate (up_part direction delta) (down_part direction delta)"
proof (cases "direction = ''up''")
  case True
  with assms have "charge_up protocol delta rate u = Inr u'" by (simp add: charge_def)
  then show ?thesis
    by (rule charge_up_Inr) (cases l; simp add: up_part_def down_part_def True)
next
  case False
  with assms have "charge_down protocol delta rate u = Inr u'" by (simp add: charge_def)
  then show ?thesis
    by (rule charge_down_Inr) (cases l; simp add: up_part_def down_part_def False)
qed

lemma charge_range:
  assumes "charge direction protocol delta rate u = Inr u'"
  shows "\<exists>m m'. u_Meter u = Some m \<and> u_Meter u' = Some m' \<and> qm_PeriodID m' = qm_PeriodID m \<and>
    (user_in_range u \<longrightarrow> user_in_range u') \<and> u_Entitlement u' = u_Entitlement u \<and> u_Role u' = u_Role u \<and>
    qm_InitialUpload m' = qm_InitialUpload m \<and> qm_InitialDownload m' = qm_InitialDownload m \<and> valid_rate rate"
proof (cases "direction = ''up''")
  case True
  with assms have "charge_up protocol delta rate u = Inr u'" by (simp add: charge_def)
  then show ?thesis
    by (rule charge_up_Inr) (auto simp: user_in_range_def meter_in_range_def)
next
  case False
  with assms have "charge_down protocol delta rate u = Inr u'" by (simp add: charge_def)
  then show ?thesis
    by (rule charge_down_Inr) (auto simp: user_in_range_def meter_in_range_def)
qed

lemma add_usage_keys:
  "set (map row_key (add_usage k rate up down rows)) = insert k (set (map row_key rows))"
  "distinct (map row_key rows) \<Longrightarrow> distinct (map row_key (add_usage k rate up down rows))"
proof -
  have keep: "row_key (if row_key r = k then r\<lparr>nu_Upload := a, nu_Download := b\<rparr> else r) = row_key r" for r a b
    by (simp add: row_key_def)
  have new: "row_key \<lparr>nu_UserID = fst k, nu_NodeID = fst (snd k), nu_PeriodID = fst (snd (snd k)),
      nu_RateRevision = snd (snd (snd k)), nu_RateMilli = rate, nu_Upload = up, nu_Download = down\<rparr> = k"
    by (simp add: row_key_def)
  show "set (map row_key (add_usage k rate up down rows)) = insert k (set (map row_key rows))"
    by (simp only: add_usage_def list_ex_iff map_map o_def keep map_append list.map new split: if_split) auto
  show "distinct (map row_key rows) \<Longrightarrow> distinct (map row_key (add_usage k rate up down rows))"
    by (simp only: add_usage_def list_ex_iff map_map o_def keep map_append list.map new split: if_split) auto
qed

lemma sum_where_bump:
  assumes "distinct (map row_key rows)" "\<exists>r \<in> set rows. row_key r = k"
    and rate: "\<And>r. r \<in> set rows \<Longrightarrow> row_key r = k \<Longrightarrow> nu_RateMilli r = rate"
  shows "usage_level l (map (\<lambda>r. if row_key r = k then r\<lparr>nu_Upload := nu_Upload r + up, nu_Download := nu_Download r + down\<rparr> else r) rows) i
    = usage_level l rows i + (if fst k = i then delta_level l rate up down else 0)"
  using assms
proof (induction rows)
  case (Cons r rs)
  show ?case
  proof (cases "row_key r = k")
    case True
    with Cons.prems(1) have "k \<notin> row_key ` set rs" by simp
    then have no: "row_key s \<noteq> k" if "s \<in> set rs" for s using that by (metis imageI)
    then have "map (\<lambda>r. if row_key r = k then r\<lparr>nu_Upload := nu_Upload r + up, nu_Download := nu_Download r + down\<rparr> else r) rs = rs"
      by (intro map_idI) simp
    with True Cons.prems(3) [of r] show ?thesis
      by (auto simp: usage_level_def row_level_def delta_level_add row_key_def)
  next
    case False
    with Cons show ?thesis by (auto simp: usage_level_def)
  qed
qed simp

lemma usage_level_add:
  assumes "distinct (map row_key rows)" "\<And>r. r \<in> set rows \<Longrightarrow> row_key r = k \<Longrightarrow> nu_RateMilli r = rate"
  shows "usage_level l (add_usage k rate up down rows) i
    = usage_level l rows i + (if fst k = i then delta_level l rate up down else 0)"
proof (cases "\<exists>r \<in> set rows. row_key r = k")
  case True
  with sum_where_bump [OF assms(1) True assms(2)] show ?thesis
    by (simp add: add_usage_def list_ex_iff)
next
  case False
  then show ?thesis by (auto simp: add_usage_def list_ex_iff usage_level_def row_level_def)
qed


subsection \<open>Rows and accounts move together\<close>

text \<open>A rate revision of a node names one rate; rows are unique and never negative.\<close>

definition rows_ok :: "(string \<Rightarrow> string \<Rightarrow> int) \<Rightarrow> NodeUsage list \<Rightarrow> bool" where
  "rows_ok rate_of rows \<longleftrightarrow> distinct (map row_key rows) \<and>
    (\<forall>r \<in> set rows. nu_RateMilli r = rate_of (nu_NodeID r) (nu_RateRevision r) \<and> valid_rate (nu_RateMilli r) \<and> 0 \<le> nu_Upload r \<and> 0 \<le> nu_Download r)"

definition rows_le :: "NodeUsage list \<Rightarrow> NodeUsage list \<Rightarrow> bool" where
  "rows_le rows rows' \<longleftrightarrow> (\<forall>r \<in> set rows. \<exists>r' \<in> set rows'. row_key r' = row_key r \<and>
     nu_RateMilli r' = nu_RateMilli r \<and> nu_Upload r \<le> nu_Upload r' \<and> nu_Download r \<le> nu_Download r')"

lemma rows_le_refl [simp]: "rows_le rows rows"
  unfolding rows_le_def by blast

lemma rows_le_trans: "rows_le a b \<Longrightarrow> rows_le b c \<Longrightarrow> rows_le a c"
  unfolding rows_le_def by (metis order_trans)

definition meter_follows :: "User \<Rightarrow> User \<Rightarrow> bool" where
  "meter_follows u u' \<longleftrightarrow> u_Entitlement u' = u_Entitlement u \<and> u_Role u' = u_Role u \<and> (user_in_range u \<longrightarrow> user_in_range u') \<and>
    (\<forall>m. u_Meter u = Some m \<longrightarrow> (\<exists>m'. u_Meter u' = Some m' \<and> qm_PeriodID m' = qm_PeriodID m \<and>
       qm_InitialUpload m' = qm_InitialUpload m \<and> qm_InitialDownload m' = qm_InitialDownload m))"

lemma meter_follows_refl [simp]: "meter_follows u u"
  by (simp add: meter_follows_def)

lemma meter_follows_trans: "meter_follows u v \<Longrightarrow> meter_follows v w \<Longrightarrow> meter_follows u w"
  unfolding meter_follows_def by metis

lemma meter_follows_InitMeter [simp]: "meter_follows u (InitMeter p now u)"
  by (cases "u_Meter u") (simp_all add: meter_follows_def InitMeter_in_range)

definition user_moves :: "int \<Rightarrow> NodeUsage list \<Rightarrow> NodeUsage list \<Rightarrow> User \<Rightarrow> User \<Rightarrow> bool" where
  "user_moves i rows rows' u u' \<longleftrightarrow> meter_follows u u' \<and>
    (\<forall>l. user_level l u' - usage_level l rows' i = user_level l u - usage_level l rows i)"

definition books_move ::
  "NodeUsage list \<Rightarrow> NodeUsage list \<Rightarrow> (int \<Rightarrow> User option) \<Rightarrow> (int \<Rightarrow> User option) \<Rightarrow> bool"
where
  "books_move rows rows' users users' \<longleftrightarrow> rows_le rows rows' \<and>
     (\<forall>i. rel_option (user_moves i rows rows') (users i) (users' i))"

lemma books_move_refl [simp]: "books_move rows rows users users"
proof -
  have "rel_option (user_moves i rows rows) (users i) (users i)" for i
    by (rule option.rel_refl) (simp add: user_moves_def)
  then show ?thesis by (simp add: books_move_def)
qed

lemma books_move_trans:
  assumes "books_move rows rows' users users'" "books_move rows' rows'' users' users''"
  shows "books_move rows rows'' users users''"
proof -
  have "rel_option (user_moves i rows rows'') (users i) (users'' i)" for i
  proof -
    have "rel_option (user_moves i rows rows') (users i) (users' i)"
      "rel_option (user_moves i rows' rows'') (users' i) (users'' i)"
      using assms by (simp_all add: books_move_def)
    then show ?thesis
      by (cases "users i"; cases "users' i"; cases "users'' i")
        (auto simp: user_moves_def intro: meter_follows_trans)
  qed
  with assms show ?thesis by (auto simp: books_move_def intro: rows_le_trans)
qed

definition current_user :: "Meters \<Rightarrow> (int \<times> User) list \<Rightarrow> int \<Rightarrow> User option" where
  "current_user S cache i = (case map_of cache i of Some u \<Rightarrow> Some u | None \<Rightarrow> map_of (ms_users S) i)"

lemma current_user_cong: "ms_users S' = ms_users S \<Longrightarrow> current_user S' = current_user S"
  by (intro ext) (simp add: current_user_def split: option.split)

lemma loaded_user_cases:
  assumes "loaded_user env S cache i = Some u"
  obtains u0 where "current_user S cache i = Some u0" "meter_follows u0 u" "\<And>l. user_level l u = user_level l u0"
proof (cases "map_of cache i")
  case None
  with assms obtain u0 where "map_of (ms_users S) i = Some u0" "u = InitMeter (''legacy-'' @ itoa i) (me_now env) u0"
    by (auto simp: loaded_user_def)
  with None show thesis by (intro that [of u0]) (simp_all add: current_user_def)
next
  case (Some u1)
  with assms show thesis by (intro that [of u1]) (simp_all add: loaded_user_def current_user_def)
qed

lemma counter_delta_nonneg: "valid_counter c \<Longrightarrow> 0 \<le> counter_delta cps c"
  by (auto simp: counter_delta_def valid_counter_def split: prod.splits)

lemma add_usage_rows_le: "0 \<le> up \<Longrightarrow> 0 \<le> down \<Longrightarrow> rows_le rows (add_usage k rate up down rows)"
proof (unfold rows_le_def, intro ballI)
  fix r assume "0 \<le> up" "0 \<le> down" and r: "r \<in> set rows"
  define r' where "r' = (if row_key r = k then r\<lparr>nu_Upload := nu_Upload r + up, nu_Download := nu_Download r + down\<rparr> else r)"
  have "r' \<in> set (add_usage k rate up down rows)"
    using r by (auto simp: add_usage_def r'_def list_ex_iff)
  moreover have "row_key r' = row_key r" "nu_RateMilli r' = nu_RateMilli r" "nu_Upload r \<le> nu_Upload r'" "nu_Download r \<le> nu_Download r'"
    using \<open>0 \<le> up\<close> \<open>0 \<le> down\<close> by (simp_all add: r'_def row_key_def)
  ultimately show "\<exists>r' \<in> set (add_usage k rate up down rows). row_key r' = row_key r \<and>
      nu_RateMilli r' = nu_RateMilli r \<and> nu_Upload r \<le> nu_Upload r' \<and> nu_Download r \<le> nu_Download r'" by blast
qed

lemma add_usage_rows_ok:
  assumes "rows_ok rate_of rows" "0 \<le> up" "0 \<le> down" "valid_rate rate" "rate = rate_of (fst (snd k)) (snd (snd (snd k)))"
  shows "rows_ok rate_of (add_usage k rate up down rows)"
  unfolding rows_ok_def
proof
  show "distinct (map row_key (add_usage k rate up down rows))"
    using assms(1) by (simp add: rows_ok_def add_usage_keys)
  show "\<forall>r \<in> set (add_usage k rate up down rows).
      nu_RateMilli r = rate_of (nu_NodeID r) (nu_RateRevision r) \<and> valid_rate (nu_RateMilli r) \<and> 0 \<le> nu_Upload r \<and> 0 \<le> nu_Download r"
    using assms by (auto simp: rows_ok_def add_usage_def split: if_splits)
qed

lemma account_counter_keeps:
  assumes run: "account_counter env policies c (S, cache) = Inr (S', cache')"
    and ok: "rows_ok rate_of (ms_usage S)"
    and fixed: "\<And>u. current_user S cache (ct_UserID c) = Some u \<Longrightarrow>
      nd_RateMilli (charge_node env policies S c u) = rate_of (counter_node c) (nd_RateRevision (charge_node env policies S c u))"
  shows "rows_ok rate_of (ms_usage S') \<and> books_move (ms_usage S) (ms_usage S') (current_user S cache) (current_user S' cache') \<and>
    ms_users S' = ms_users S \<and> ms_policies S' = ms_policies S \<and> ms_nodes S' = ms_nodes S \<and> ms_acks S' = ms_acks S"
proof -
  define delta where "delta = counter_delta (ms_checkpoints S) c"
  define S1 where "S1 = S\<lparr>ms_checkpoints := map_put (ct_Key c) (ct_Generation c, ct_Value c) (ms_checkpoints S)\<rparr>"
  have S1: "ms_usage S1 = ms_usage S" "ms_users S1 = ms_users S" "ms_policies S1 = ms_policies S"
    "ms_nodes S1 = ms_nodes S" "ms_acks S1 = ms_acks S"
    by (simp_all add: S1_def)
  have cur1: "current_user S1 = current_user S" by (rule current_user_cong [OF S1(2)])
  have valid: "valid_counter c" using run by (simp add: account_counter_def split: if_splits)
  have run': "(if delta = 0 then Inr (S1, cache) else charge_delta env policies c delta S1 cache) = Inr (S', cache')"
    using run valid by (simp add: account_counter_def Let_def delta_def S1_def split: if_splits)
  show ?thesis
  proof (cases "delta = 0 \<or> loaded_user env S1 cache (ct_UserID c) = None")
    case True
    with run' have "S' = S1" "cache' = cache" by (auto simp: charge_delta_def split: if_splits)
    with S1 cur1 ok show ?thesis by simp
  next
    case False
    then obtain u where u: "loaded_user env S1 cache (ct_UserID c) = Some u" and nz: "delta \<noteq> 0" by blast
    define n where "n = charge_node env policies S1 c u"
    from run' u nz obtain u' where ch: "charge (ct_Direction c) (ct_Protocol c) delta (nd_RateMilli n) u = Inr u'"
      and S': "S' = record_delta env c n (period_of u) delta S1" and cache': "cache' = map_put (ct_UserID c) u' cache"
      by (auto simp: charge_delta_def res_simps n_def)
    obtain u0 where u0: "current_user S cache (ct_UserID c) = Some u0" "meter_follows u0 u"
        "\<And>l. user_level l u = user_level l u0"
      using u cur1 by (metis loaded_user_cases)
    have n: "n = charge_node env policies S c u0"
      using u0(2) S1(3) by (simp add: n_def charge_node_def meter_follows_def)
    define k where "k = (ct_UserID c, counter_node c, period_of u, nd_RateRevision n)"
    define up where "up = up_part (ct_Direction c) delta"
    define down where "down = down_part (ct_Direction c) delta"
    have pos: "0 \<le> up" "0 \<le> down"
      using counter_delta_nonneg [OF valid] by (simp_all add: up_def down_def up_part_def down_part_def delta_def)
    have rate: "nd_RateMilli n = rate_of (fst (snd k)) (snd (snd (snd k)))"
      using fixed [OF u0(1)] by (simp add: n k_def)
    have S'_fields: "ms_usage S' = add_usage k (nd_RateMilli n) up down (ms_usage S)"
      "ms_users S' = ms_users S" "ms_policies S' = ms_policies S" "ms_nodes S' = ms_nodes S" "ms_acks S' = ms_acks S"
      using S1 by (simp_all add: S' record_delta_def Let_def k_def up_def down_def up_part_def down_part_def)
    have same_rate: "nu_RateMilli r = nd_RateMilli n" if "r \<in> set (ms_usage S)" "row_key r = k" for r
      using that ok rate by (auto simp: rows_ok_def row_key_def k_def)
    have lev: "usage_level l (ms_usage S') i = usage_level l (ms_usage S) i +
        (if ct_UserID c = i then delta_level l (nd_RateMilli n) up down else 0)" for l i
      using usage_level_add [of "ms_usage S" k "nd_RateMilli n" l up down i] ok same_rate
      by (simp add: S'_fields rows_ok_def k_def)
    have cur: "current_user S' cache' i = (if i = ct_UserID c then Some u' else current_user S cache i)" for i
      by (simp add: current_user_def cache' S'_fields split: option.split)
    have moved: "user_moves (ct_UserID c) (ms_usage S) (ms_usage S') u0 u'"
    proof -
      obtain m m' where "u_Meter u = Some m" "u_Meter u' = Some m'" "qm_PeriodID m' = qm_PeriodID m"
        "user_in_range u \<longrightarrow> user_in_range u'" "u_Entitlement u' = u_Entitlement u" "u_Role u' = u_Role u"
        "qm_InitialUpload m' = qm_InitialUpload m" "qm_InitialDownload m' = qm_InitialDownload m"
        using charge_range [OF ch] by blast
      then have "meter_follows u u'" by (simp add: meter_follows_def)
      with u0(2) have "meter_follows u0 u'" by (rule meter_follows_trans)
      moreover have "user_level l u' = user_level l u0 + delta_level l (nd_RateMilli n) up down" for l
        using charge_level [OF ch] u0(3) by (simp add: up_def down_def)
      ultimately show ?thesis by (simp add: user_moves_def lev)
    qed
    have "rel_option (user_moves i (ms_usage S) (ms_usage S')) (current_user S cache i) (current_user S' cache' i)" for i
    proof (cases "i = ct_UserID c")
      case False
      then have "user_moves i (ms_usage S) (ms_usage S') v v" for v by (auto simp: user_moves_def lev)
      with False show ?thesis by (simp add: cur option.rel_refl)
    qed (simp add: cur u0(1) moved)
    moreover have "rows_le (ms_usage S) (ms_usage S')"
      using pos by (simp add: S'_fields add_usage_rows_le)
    ultimately have "books_move (ms_usage S) (ms_usage S') (current_user S cache) (current_user S' cache')"
      by (simp add: books_move_def)
    moreover have "rows_ok rate_of (ms_usage S')"
      using add_usage_rows_ok [OF ok pos _ rate] charge_range [OF ch] unfolding S'_fields by blast
    ultimately show ?thesis using S'_fields by simp
  qed
qed


text \<open>For every account and node, the effective rate is the one its revision names.\<close>

definition policies_fixed ::
  "(string \<Rightarrow> string \<Rightarrow> int) \<Rightarrow> (string \<Rightarrow> string) \<Rightarrow> (string \<Rightarrow> Node) \<Rightarrow> (int \<Rightarrow> User option) \<Rightarrow> bool"
where
  "policies_fixed rate_of digest policy users \<longleftrightarrow>
    (\<forall>i u node. users i = Some u \<longrightarrow>
       nd_RateMilli (planNodePolicy digest (u_Entitlement u) (policy node))
       = rate_of node (nd_RateRevision (planNodePolicy digest (u_Entitlement u) (policy node))))"

lemma books_move_entitlement:
  assumes "books_move rows rows' users users'" "users' i = Some u'"
  obtains u where "users i = Some u" "meter_follows u u'" "user_moves i rows rows' u u'"
proof -
  have "rel_option (user_moves i rows rows') (users i) (users' i)" using assms(1) by (simp add: books_move_def)
  with assms(2) obtain u where "users i = Some u" "user_moves i rows rows' u u'" by (cases "users i") auto
  then show thesis by (intro that [of u]) (simp_all add: user_moves_def)
qed

lemma policies_fixed_move:
  assumes "policies_fixed rate_of digest policy users" "books_move rows rows' users users'"
  shows "policies_fixed rate_of digest policy users'"
  unfolding policies_fixed_def
proof (intro allI impI)
  fix i u' node assume "users' i = Some u'"
  with assms(2) obtain u where "users i = Some u" "meter_follows u u'" by (rule books_move_entitlement)
  with assms(1) show "nd_RateMilli (planNodePolicy digest (u_Entitlement u') (policy node))
      = rate_of node (nd_RateRevision (planNodePolicy digest (u_Entitlement u') (policy node)))"
    by (simp add: policies_fixed_def meter_follows_def)
qed

lemma account_counters_keep:
  assumes "fold_res (account_counter env policies) cs (S, cache) = Inr (S', cache')"
    and "rows_ok rate_of (ms_usage S)"
    and "policies_fixed rate_of (me_digest env) (node_policy policies (ms_policies S)) (current_user S cache)"
  shows "rows_ok rate_of (ms_usage S') \<and> books_move (ms_usage S) (ms_usage S') (current_user S cache) (current_user S' cache') \<and>
    ms_users S' = ms_users S \<and> ms_policies S' = ms_policies S \<and> ms_nodes S' = ms_nodes S \<and> ms_acks S' = ms_acks S"
  using assms
proof (induction cs arbitrary: S cache)
  case Nil
  then show ?case by (simp only: fold_res.simps sum.inject prod.inject) simp
next
  case (Cons c cs)
  then obtain S1 cache1 where step: "account_counter env policies c (S, cache) = Inr (S1, cache1)"
    and rest: "fold_res (account_counter env policies) cs (S1, cache1) = Inr (S', cache')"
    by (auto simp: res_simps)
  have keeps: "rows_ok rate_of (ms_usage S1) \<and> books_move (ms_usage S) (ms_usage S1) (current_user S cache) (current_user S1 cache1) \<and>
    ms_users S1 = ms_users S \<and> ms_policies S1 = ms_policies S \<and> ms_nodes S1 = ms_nodes S \<and> ms_acks S1 = ms_acks S"
    using account_counter_keeps [OF step Cons.prems(2)] Cons.prems(3)
    by (simp add: policies_fixed_def charge_node_def)
  then have move: "books_move (ms_usage S) (ms_usage S1) (current_user S cache) (current_user S1 cache1)"
    and pol: "ms_policies S1 = ms_policies S" by simp_all
  have "policies_fixed rate_of (me_digest env) (node_policy policies (ms_policies S1)) (current_user S1 cache1)"
    unfolding pol by (rule policies_fixed_move [OF Cons.prems(3) move])
  with Cons.IH [OF rest] keeps show ?case by (auto intro: books_move_trans)
qed

lemma map_of_flush:
  "map_of (flush_users cache rows) i
    = map_option (\<lambda>u. case map_of cache i of Some u' \<Rightarrow> u' | None \<Rightarrow> u) (map_of rows i)"
  by (induction rows) (auto simp: flush_users_def split: option.split)

lemma map_of_rev_distinct: "distinct (map fst ps) \<Longrightarrow> map_of (rev ps) = map_of ps"
  by (subst map_of_inject_set) (simp_all add: rev_map [symmetric])

lemma map_of_retain: "map_of (retain_policies ps rows) k = (case map_of (rev ps) k of Some n \<Rightarrow> Some n | None \<Rightarrow> map_of rows k)"
  unfolding retain_policies_def
  by (induction ps arbitrary: rows) (auto split: option.splits simp: map_add_def)

lemma node_policies_distinct: "distinct (map fst (node_policies nodes))"
proof -
  have put: "distinct (map fst (map_put k v m))" if "distinct (map fst m)" for k and v :: Node and m
    using that by (auto simp: map_put_def distinct_map_filter)
  have "distinct (map fst (foldl (\<lambda>m n. let p = normalizeNodePolicy n in map_put (planNodeKey p) p (map_put (nd_ID p) p m)) m nodes))"
    if "distinct (map fst m)" for m
    using that by (induction nodes arbitrary: m) (simp_all add: Let_def put)
  then show ?thesis by (simp add: node_policies_def)
qed

lemma node_policy_retained:
  "distinct (map fst ps) \<Longrightarrow> node_policy ps (retain_policies ps rows) = node_policy ps rows"
  by (intro ext) (auto simp: node_policy_def map_of_retain map_of_rev_distinct split: option.splits)

text \<open>The effective policies of a panel, and what one sample keeps of the books.\<close>

definition revisions_fixed :: "(string \<Rightarrow> string \<Rightarrow> int) \<Rightarrow> (string \<Rightarrow> string) \<Rightarrow> Meters \<Rightarrow> bool" where
  "revisions_fixed rate_of digest S \<longleftrightarrow>
    policies_fixed rate_of digest (node_policy (node_policies (ms_nodes S)) (ms_policies S)) (map_of (ms_users S))"

definition meters_move :: "Meters \<Rightarrow> Meters \<Rightarrow> bool" where
  "meters_move S T \<longleftrightarrow> books_move (ms_usage S) (ms_usage T) (map_of (ms_users S)) (map_of (ms_users T)) \<and>
     ms_acks T = ms_acks S \<and> map fst (ms_users T) = map fst (ms_users S)"

lemma meters_move_trans: "meters_move S T \<Longrightarrow> meters_move T U \<Longrightarrow> meters_move S U"
  unfolding meters_move_def by (metis books_move_trans)

lemma meters_move_refl [simp]: "meters_move S S"
  by (simp add: meters_move_def)

lemma account_keeps:
  assumes run: "account env counters S = Inr T"
    and ok: "rows_ok rate_of (ms_usage S)" and fixed: "revisions_fixed rate_of (me_digest env) S"
  shows "rows_ok rate_of (ms_usage T) \<and> revisions_fixed rate_of (me_digest env) T \<and> meters_move S T"
proof (cases "counters = []")
  case True
  with run ok fixed show ?thesis by (simp add: account_def meters_move_def)
next
  case False
  define ps where "ps = node_policies (ms_nodes S)"
  define S0 where "S0 = S\<lparr>ms_policies := retain_policies ps (ms_policies S)\<rparr>"
  from run False obtain S1 cache where fold: "fold_res (account_counter env ps) counters (S0, []) = Inr (S1, cache)"
    and T: "ms_users T = flush_users cache (ms_users S1)" "ms_usage T = ms_usage S1" "ms_policies T = ms_policies S1"
      "ms_nodes T = ms_nodes S1" "ms_acks T = ms_acks S1"
    by (auto simp: account_def res_simps Let_def ps_def S0_def split: prod.splits if_splits)
  have np: "node_policy ps (ms_policies S0) = node_policy ps (ms_policies S)"
    using node_policy_retained [of ps] node_policies_distinct by (simp add: S0_def ps_def)
  have cur0: "current_user S0 [] = map_of (ms_users S)" by (auto simp: current_user_def S0_def)
  have k: "rows_ok rate_of (ms_usage S1) \<and> books_move (ms_usage S0) (ms_usage S1) (current_user S0 []) (current_user S1 cache) \<and>
    ms_users S1 = ms_users S0 \<and> ms_policies S1 = ms_policies S0 \<and> ms_nodes S1 = ms_nodes S0 \<and> ms_acks S1 = ms_acks S0"
  proof (rule account_counters_keep [OF fold])
    show "rows_ok rate_of (ms_usage S0)" using ok by (simp add: S0_def)
    show "policies_fixed rate_of (me_digest env) (node_policy ps (ms_policies S0)) (current_user S0 [])"
      using fixed by (simp only: np cur0 revisions_fixed_def ps_def [symmetric])
  qed
  then have move: "books_move (ms_usage S) (ms_usage S1) (map_of (ms_users S)) (current_user S1 cache)"
    by (simp add: cur0) (simp add: S0_def)
  have users: "map_of (ms_users T) = current_user S1 cache"
  proof
    fix i
    have "rel_option (user_moves i (ms_usage S) (ms_usage S1)) (map_of (ms_users S) i) (current_user S1 cache i)"
      using move by (simp add: books_move_def)
    moreover have "ms_users S1 = ms_users S" using k by (simp add: S0_def)
    ultimately show "map_of (ms_users T) i = current_user S1 cache i"
      by (cases "map_of (ms_users S) i"; cases "map_of cache i") (simp_all add: T map_of_flush current_user_def)
  qed
  have nodes: "ms_nodes T = ms_nodes S" "ms_policies T = ms_policies S0" using k by (simp_all add: T S0_def)
  have "revisions_fixed rate_of (me_digest env) T"
    using policies_fixed_move [OF _ move] fixed
    by (simp add: revisions_fixed_def nodes users np ps_def [symmetric])
  moreover have "ms_acks T = ms_acks S" using k by (simp add: T S0_def)
  moreover have "map fst (ms_users T) = map fst (ms_users S)"
    using k by (simp add: T flush_users_def S0_def case_prod_beta o_def)
  ultimately show ?thesis using k move unfolding meters_move_def users T(2) by blast
qed

text \<open>Several samples in a row.\<close>

definition account_all :: "(meter_env \<times> Counter list) list \<Rightarrow> Meters \<Rightarrow> metering_error + Meters" where
  "account_all = fold_res (\<lambda>(env, counters). account env counters)"

lemma account_all_keeps:
  assumes "account_all samples S = Inr T" "rows_ok rate_of (ms_usage S)" "revisions_fixed rate_of digest S"
    and "\<And>env cs. (env, cs) \<in> set samples \<Longrightarrow> me_digest env = digest"
  shows "rows_ok rate_of (ms_usage T) \<and> revisions_fixed rate_of digest T \<and> meters_move S T"
  using assms
proof (induction samples arbitrary: S)
  case Nil
  then show ?case by (simp add: account_all_def meters_move_def)
next
  case (Cons s ss)
  obtain env cs where s: "s = (env, cs)" by fastforce
  with Cons.prems obtain S1 where step: "account env cs S = Inr S1" and rest: "account_all ss S1 = Inr T"
    by (auto simp: account_all_def res_simps)
  have digest: "me_digest env = digest" using Cons.prems(4) [of env cs] s by simp
  from account_keeps [OF step] Cons.prems(2,3) digest
  have k: "rows_ok rate_of (ms_usage S1)" "revisions_fixed rate_of digest S1" "meters_move S S1" by simp_all
  from Cons.IH [OF rest k(1,2)] Cons.prems(4) k(3) show ?case by (auto intro: meters_move_trans)
qed

end
