(* ===== verification/Usage_Report.thy ===== *)
theory Usage_Report
  imports Node_Meter "HOL-Library.Char_ord" "HOL-Library.List_Lexorder"
begin

text \<open>
  What the controller does with the traffic report of a subsite
  (\<open>backend/internal/controlplane/business_meter.go\<close>, \<open>acceptBusinessUsage\<close> of
  \<open>business_quota.go\<close>): the weighted totals are recomputed from the per-node rows, late traffic of
  closed periods is archived, accounts and watermarks move by the difference, and an acknowledged
  allocation is released only by a complete report. Go maps are association lists with distinct
  keys; the code runs through them in no particular order.
\<close>

section \<open>Reports and tables\<close>

record BusinessHeartbeat =
  bh_Protocol :: int
  bh_Applied :: string
  bh_Usage :: "(int \<times> BusinessUsage) list"
  bh_NodeUsage :: "NodeUsage list"
  bh_UsageBaseline :: "(int \<times> BusinessUsage) list"

record Reports =
  rp_users :: "(int \<times> User) list"
  rp_node_usage :: "(string \<times> NodeUsage) list"
  rp_periods :: "((int \<times> string) \<times> User) list"
  rp_traffic :: "((int \<times> int) \<times> int \<times> int) list"
  rp_sites :: "BusinessSite list"

datatype report_error = Refused string | Limit meter_error

definition limit_res :: "meter_error + 'a \<Rightarrow> report_error + 'a" where
  "limit_res r = (case r of Inl e \<Rightarrow> Inl (Limit e) | Inr x \<Rightarrow> Inr x)"

lemma limit_res_eq_Inr [simp, res_simps]: "limit_res r = Inr x \<longleftrightarrow> r = Inr x"
  by (cases r) (simp_all add: limit_res_def)

lemma limit_res_Inr [simp]: "limit_res (Inr x) = Inr x"
  by (simp add: limit_res_def)

definition businessUsageOf :: "('a) User_scheme \<Rightarrow> BusinessUsage" where
  "businessUsageOf u =
    (let v = \<lparr>bu_PeriodID = [], bu_UploadRemainder = 0, bu_DownloadRemainder = 0, bu_Metered = True,
              bu_QuotaUpload = u_Upload u, bu_QuotaDownload = u_Download u, bu_Upload = u_Upload u,
              bu_Download = u_Download u, bu_VLESS = u_VLESSTraffic u, bu_HY2 = u_HY2Traffic u\<rparr>
     in case u_Meter u of None \<Rightarrow> v
        | Some m \<Rightarrow> v\<lparr>bu_PeriodID := qm_PeriodID m, bu_QuotaUpload := qm_Upload m, bu_QuotaDownload := qm_Download m,
             bu_UploadRemainder := qm_UploadRemainder m, bu_DownloadRemainder := qm_DownloadRemainder m\<rparr>)"

definition usageIdentity :: "NodeUsage \<Rightarrow> string" where
  "usageIdentity r = itoa (nu_UserID r) @ ''/'' @ nu_NodeID r @ ''/'' @ nu_PeriodID r @ ''/'' @ nu_RateRevision r"

definition businessUsageKey :: "int \<Rightarrow> string" where
  "businessUsageKey i = itoa i"

definition period_issued :: "BusinessSite \<Rightarrow> int \<Rightarrow> string \<Rightarrow> bool" where
  "period_issued v i period = map_get False (bs_PeriodRules v) (businessUsageKey i @ ''/'' @ period)"

definition issued_rate :: "BusinessSite \<Rightarrow> NodeUsage \<Rightarrow> int option" where
  "issued_rate v row = map_of (bs_RateRules v) (nu_NodeID row @ ''/'' @ nu_RateRevision row)"

text \<open>The row of a site's table with the key of a reported row; \<open>sql.ErrNoRows\<close> reads as zeros.\<close>

definition stored_counts :: "(string \<times> NodeUsage) list \<Rightarrow> string \<Rightarrow> NodeUsage \<Rightarrow> int \<times> int" where
  "stored_counts table site row =
    (case find (\<lambda>e. fst e = site \<and> row_key (snd e) = row_key row) table of
       None \<Rightarrow> (0, 0) | Some e \<Rightarrow> (nu_Upload (snd e), nu_Download (snd e)))"

section \<open>Recomputing the weighted totals\<close>

record meter_sum =
  sm_up :: int
  sm_down :: int
  sm_qup :: int
  sm_qdown :: int
  sm_ru :: int
  sm_rd :: int

definition start_sum :: "BusinessUsage \<Rightarrow> meter_sum" where
  "start_sum old =
    (if bu_Metered old
     then \<lparr>sm_up = bu_Upload old, sm_down = bu_Download old, sm_qup = bu_QuotaUpload old, sm_qdown = bu_QuotaDownload old,
           sm_ru = bu_UploadRemainder old, sm_rd = bu_DownloadRemainder old\<rparr>
     else \<lparr>sm_up = bu_Upload old, sm_down = bu_Download old, sm_qup = bu_Upload old, sm_qdown = bu_Download old,
           sm_ru = 0, sm_rd = 0\<rparr>)"

definition baseline_invalid :: "BusinessUsage \<Rightarrow> bool" where
  "baseline_invalid base \<longleftrightarrow> bu_Upload base < 0 \<or> bu_Download base < 0 \<or>
     bu_Upload base > CounterLimit \<or> bu_Download base > CounterLimit"

text \<open>The one-time baseline of traffic from before per-node metering.\<close>

definition check_baseline ::
  "BusinessSite \<Rightarrow> int \<Rightarrow> BusinessUsage \<Rightarrow> BusinessUsage \<Rightarrow> report_error + (meter_sum \<times> BusinessSite)"
where
  "check_baseline v i old base =
    (case map_of (bs_UsageBaseline v) i of
       Some prior \<Rightarrow>
         if bu_Upload prior \<noteq> bu_Upload base \<or> bu_Download prior \<noteq> bu_Download base
         then Inl (Refused ''legacy usage baseline changed'') else Inr (start_sum old, v)
     | None \<Rightarrow>
         if bu_Metered old \<and> (bu_Upload base \<noteq> 0 \<or> bu_Download base \<noteq> 0)
         then Inl (Refused ''unexpected usage baseline'')
         else if \<not> bu_Metered old \<and> (bu_Upload base < bu_Upload old \<or> bu_Download base < bu_Download old)
         then Inl (Refused ''incomplete legacy baseline'')
         else Inr (if bu_Metered old then start_sum old
                   else (start_sum old)\<lparr>sm_up := bu_Upload base, sm_down := bu_Download base,
                          sm_qup := bu_Upload base, sm_qdown := bu_Download base\<rparr>,
                   v\<lparr>bs_UsageBaseline := map_put i base (bs_UsageBaseline v)\<rparr>))"

definition verify_user ::
  "BusinessHeartbeat \<Rightarrow> int \<times> BusinessUsage \<Rightarrow> (int \<times> meter_sum) list \<times> BusinessSite \<Rightarrow>
     report_error + ((int \<times> meter_sum) list \<times> BusinessSite)"
where
  "verify_user inb entry st =
    (let i = fst entry; next = snd entry; v = snd st; old = site_usage v i in
     if \<not> bu_Metered next then Inl (Refused ''missing weighted traffic'')
     else case map_of (bh_UsageBaseline inb) i of
       None \<Rightarrow> Inl (Refused ''invalid legacy usage baseline'')
     | Some base \<Rightarrow>
         if baseline_invalid base then Inl (Refused ''invalid legacy usage baseline'')
         else bind_res (check_baseline v i old base) (\<lambda>(s, v').
           if bu_PeriodID next \<noteq> bu_PeriodID old \<and> bu_Metered old
           then if \<not> period_issued v i (bu_PeriodID next) then Inl (Refused ''unissued quota period'')
                else Inr (map_put i (s\<lparr>sm_ru := 0, sm_rd := 0\<rparr>) (fst st), v')
           else Inr (map_put i s (fst st), v')))"

text \<open>The totals of a user after the difference \<open>(du, dd)\<close> of one row.\<close>

definition add_row :: "int \<Rightarrow> int \<Rightarrow> int \<Rightarrow> meter_sum \<Rightarrow> report_error + meter_sum" where
  "add_row du dd rate s =
    bind_res (limit_res (AddCounter (sm_up s) du)) (\<lambda>up.
    bind_res (limit_res (AddCounter (sm_down s) dd)) (\<lambda>down.
    bind_res (limit_res (WeightedBytes du rate (sm_ru s))) (\<lambda>(qu, ru).
    bind_res (limit_res (WeightedBytes dd rate (sm_rd s))) (\<lambda>(qd, rd).
    bind_res (limit_res (AddCounter (sm_qup s) qu)) (\<lambda>qup.
    bind_res (limit_res (AddCounter (sm_qdown s) qd)) (\<lambda>qdown.
    Inr \<lparr>sm_up = up, sm_down = down, sm_qup = qup, sm_qdown = qdown, sm_ru = ru, sm_rd = rd\<rparr>))))))"

definition verify_row ::
  "BusinessSite \<Rightarrow> (string \<times> NodeUsage) list \<Rightarrow> NodeUsage \<Rightarrow> string list \<times> (int \<times> meter_sum) list \<Rightarrow>
     report_error + (string list \<times> (int \<times> meter_sum) list)"
where
  "verify_row v table row st =
    (let key = usageIdentity row; stored = stored_counts table (bs_ID v) row in
     if key \<in> set (fst st) then Inl (Refused ''duplicate node usage row'')
     else if nu_UserID row \<le> 0 \<or> nu_NodeID row = [] \<or> nu_Upload row < 0 \<or> nu_Download row < 0
     then Inl (Refused ''invalid node usage row'')
     else if issued_rate v row \<noteq> Some (nu_RateMilli row) \<or> \<not> period_issued v (nu_UserID row) (nu_PeriodID row)
     then Inl (Refused ''usage rule or quota period was not issued'')
     else if nu_Upload row < fst stored \<or> nu_Download row < snd stored
     then Inl (Refused ''node usage watermark moved backwards'')
     else case map_of (snd st) (nu_UserID row) of
       None \<Rightarrow> Inl (Refused ''missing aggregate usage'')
     | Some s \<Rightarrow>
         bind_res (add_row (nu_Upload row - fst stored) (nu_Download row - snd stored) (nu_RateMilli row) s) (\<lambda>s'.
         Inr (key # fst st, map_put (nu_UserID row) s' (snd st))))"

definition totals_agree :: "meter_sum \<Rightarrow> BusinessUsage \<Rightarrow> bool" where
  "totals_agree s next \<longleftrightarrow> bu_Upload next = sm_up s \<and> bu_Download next = sm_down s \<and>
     bu_QuotaUpload next = sm_qup s \<and> bu_QuotaDownload next = sm_qdown s \<and>
     bu_UploadRemainder next = sm_ru s \<and> bu_DownloadRemainder next = sm_rd s"

definition verifyBusinessMeter ::
  "BusinessSite \<Rightarrow> BusinessHeartbeat \<Rightarrow> (string \<times> NodeUsage) list \<Rightarrow> report_error + BusinessSite"
where
  "verifyBusinessMeter v inb table =
    (if bh_Protocol inb < 2
     then (case bs_Protocol v of
         Some p \<Rightarrow> if p \<ge> 2 then Inl (Refused ''meter protocol downgrade rejected'') else Inr v
       | None \<Rightarrow> Inr v)
     else if length (bh_NodeUsage inb) > 32768 then Inl (Refused ''node usage report too large'')
     else
       bind_res (fold_res (verify_user inb) (bh_Usage inb) ([], v)) (\<lambda>(sums, v').
       bind_res (fold_res (verify_row v' table) (bh_NodeUsage inb) ([], sums)) (\<lambda>(_, totals).
       if list_all (\<lambda>(i, next). case map_of totals i of None \<Rightarrow> False | Some s \<Rightarrow> totals_agree s next) (bh_Usage inb)
       then Inr v' else Inl (Refused ''weighted usage verification failed''))))"

section \<open>Late traffic of closed periods\<close>

record closedBusinessDelta =
  cd_upload :: int
  cd_download :: int
  cd_quotaUpload :: int
  cd_quotaDownload :: int

definition no_delta :: closedBusinessDelta where
  "no_delta = \<lparr>cd_upload = 0, cd_download = 0, cd_quotaUpload = 0, cd_quotaDownload = 0\<rparr>"

text \<open>The archived account of a period and the residues its late traffic continues from.\<close>

record closedBusinessPeriod =
  cp_user :: User
  cp_uploadRemainder :: int
  cp_downloadRemainder :: int

definition businessNodeProtocol :: "BusinessSite \<Rightarrow> string \<Rightarrow> string" where
  "businessNodeProtocol v i =
    (case find (\<lambda>n. nd_ID n = i) ((case bs_Mount v of Some ns \<Rightarrow> ns | None \<Rightarrow> []) @ bs_SentNodes v @ bs_IssuedNodes v @ bs_Nodes v @ bs_DefaultNodes v) of
       Some n \<Rightarrow> nd_Protocol n
     | None \<Rightarrow> if i = ''hy2-main'' \<or> has_prefix i ''hy2-'' then ''hy2'' else ''vless'')"

definition open_closed :: "string \<Rightarrow> User \<Rightarrow> closedBusinessPeriod" where
  "open_closed period doc =
    (let u = InitMeter period (u_Created doc) doc;
         m = (case u_Meter u of Some m \<Rightarrow> m | None \<Rightarrow> empty_meter);
         m' = (if qm_PeriodID m = [] then m\<lparr>qm_PeriodID := period\<rparr> else m)
     in \<lparr>cp_user = u\<lparr>u_Meter := Some m'\<rparr>, cp_uploadRemainder = qm_UploadRemainder m',
         cp_downloadRemainder = qm_DownloadRemainder m'\<rparr>)"

definition charge_closed ::
  "bool \<Rightarrow> int \<Rightarrow> int \<Rightarrow> int \<Rightarrow> closedBusinessPeriod \<Rightarrow> report_error + (closedBusinessPeriod \<times> int \<times> int)"
where
  "charge_closed hy2 du dd rate c =
    (let u = cp_user c; m = (case u_Meter u of Some m \<Rightarrow> m | None \<Rightarrow> empty_meter) in
     bind_res (limit_res (WeightedBytes du rate (cp_uploadRemainder c))) (\<lambda>(qu, ru).
     bind_res (limit_res (WeightedBytes dd rate (cp_downloadRemainder c))) (\<lambda>(qd, rd).
     bind_res (limit_res (AddCounter (u_Upload u) du)) (\<lambda>up.
     bind_res (limit_res (AddCounter (u_Download u) dd)) (\<lambda>down.
     bind_res (limit_res (AddCounter (if hy2 then u_HY2Traffic u else u_VLESSTraffic u) du)) (\<lambda>p1.
     bind_res (limit_res (AddCounter p1 dd)) (\<lambda>p2.
     bind_res (limit_res (AddCounter (qm_Upload m) qu)) (\<lambda>wu.
     bind_res (limit_res (AddCounter (qm_Download m) qd)) (\<lambda>wd.
     let u1 = u\<lparr>u_Upload := up, u_Download := down, u_Meter := Some (m\<lparr>qm_Upload := wu, qm_Download := wd\<rparr>)\<rparr>;
         u2 = (if hy2 then u1\<lparr>u_HY2Traffic := p2\<rparr> else u1\<lparr>u_VLESSTraffic := p2\<rparr>)
     in Inr (\<lparr>cp_user = u2, cp_uploadRemainder = ru, cp_downloadRemainder = rd\<rparr>, qu, qd))))))))))"

definition add_delta :: "int \<Rightarrow> int \<Rightarrow> int \<Rightarrow> int \<Rightarrow> closedBusinessDelta \<Rightarrow> report_error + closedBusinessDelta" where
  "add_delta du dd qu qd d =
    bind_res (limit_res (AddCounter (cd_upload d) du)) (\<lambda>up.
    bind_res (limit_res (AddCounter (cd_download d) dd)) (\<lambda>down.
    bind_res (limit_res (AddCounter (cd_quotaUpload d) qu)) (\<lambda>wu.
    bind_res (limit_res (AddCounter (cd_quotaDownload d) qd)) (\<lambda>wd.
    Inr \<lparr>cd_upload = up, cd_download = down, cd_quotaUpload = wu, cd_quotaDownload = wd\<rparr>))))"

type_synonym closed_state =
  "((int \<times> string) \<times> closedBusinessPeriod) list \<times> (int \<times> closedBusinessDelta) list"

definition close_row ::
  "BusinessSite \<Rightarrow> Reports \<Rightarrow> NodeUsage \<Rightarrow> closed_state \<Rightarrow> report_error + closed_state"
where
  "close_row v R row st =
    (let (states, deltas) = st; stored = stored_counts (rp_node_usage R) (bs_ID v) row;
         du = nu_Upload row - fst stored; dd = nu_Download row - snd stored;
         key = (nu_UserID row, nu_PeriodID row) in
     if du \<le> 0 \<and> dd \<le> 0 then Inr st
     else case map_of (rp_periods R) key of
       None \<Rightarrow> Inr st
     | Some doc \<Rightarrow>
         let c = (case map_of states key of Some c \<Rightarrow> c | None \<Rightarrow> open_closed (nu_PeriodID row) doc) in
         bind_res (charge_closed (businessNodeProtocol v (nu_NodeID row) = ''hy2'') du dd (nu_RateMilli row) c) (\<lambda>(c', qu, qd).
         bind_res (add_delta du dd qu qd (map_get no_delta deltas (nu_UserID row))) (\<lambda>d.
         Inr (map_put key c' states, map_put (nu_UserID row) d deltas))))"

definition closed_document :: "closedBusinessPeriod \<Rightarrow> User" where
  "closed_document c = (cp_user c)\<lparr>u_Meter := map_option (\<lambda>m. m\<lparr>qm_UploadRemainder := cp_uploadRemainder c,
     qm_DownloadRemainder := cp_downloadRemainder c\<rparr>) (u_Meter (cp_user c))\<rparr>"

definition reconcileClosedBusinessUsage ::
  "BusinessSite \<Rightarrow> NodeUsage list \<Rightarrow> Reports \<Rightarrow> report_error + (Reports \<times> (int \<times> closedBusinessDelta) list)"
where
  "reconcileClosedBusinessUsage v rows R =
    bind_res (fold_res (close_row v R) (sort_key usageIdentity rows) ([], [])) (\<lambda>(states, deltas).
    Inr (R\<lparr>rp_periods := foldl (\<lambda>t (k, c). map_put k (closed_document c) t) (rp_periods R) states\<rparr>, deltas))"

section \<open>Accepting a report\<close>

fun raise_grants :: "int \<Rightarrow> int \<Rightarrow> BusinessGrant list \<Rightarrow> report_error + BusinessGrant list" where
  "raise_grants i inc [] = Inr []"
| "raise_grants i inc (g # gs) =
    (if bg_UserID g = i \<and> bg_Quota g > 0
     then bind_res (limit_res (AddCounter (bg_Quota g) inc)) (\<lambda>q.
          bind_res (raise_grants i inc gs) (\<lambda>gs'. Inr (g\<lparr>bg_Quota := q\<rparr> # gs')))
     else bind_res (raise_grants i inc gs) (\<lambda>gs'. Inr (g # gs')))"

definition raise_issued :: "int \<Rightarrow> int \<Rightarrow> BusinessSite \<Rightarrow> report_error + BusinessSite" where
  "raise_issued i inc v =
    (if site_issued v i > 0
     then bind_res (limit_res (AddCounter (site_issued v i) inc)) (\<lambda>q. Inr (v\<lparr>bs_Issued := map_put i q (bs_Issued v)\<rparr>))
     else Inr v)"

text \<open>Late traffic raises the reservation with the watermark, so it does not use up the new grant.\<close>

definition raise_reservation :: "int \<times> closedBusinessDelta \<Rightarrow> BusinessSite \<Rightarrow> report_error + BusinessSite" where
  "raise_reservation entry v =
    (let i = fst entry; d = snd entry in
     bind_res (limit_res (AddCounter (cd_quotaUpload d) (cd_quotaDownload d))) (\<lambda>inc.
     if inc = 0 then Inr v
     else
       bind_res (raise_grants i inc (bs_Grants v)) (\<lambda>gs.
       bind_res (raise_grants i inc (bs_SentGrants v)) (\<lambda>sent.
       raise_issued i inc (v\<lparr>bs_Grants := gs, bs_SentGrants := sent\<rparr>)))))"

definition counts_valid :: "int \<Rightarrow> BusinessUsage \<Rightarrow> bool" where
  "counts_valid i next \<longleftrightarrow> 0 < i \<and> 0 \<le> bu_Upload next \<and> 0 \<le> bu_Download next \<and> 0 \<le> bu_VLESS next \<and> 0 \<le> bu_HY2 next \<and>
     bu_Upload next \<le> CounterLimit \<and> bu_Download next \<le> CounterLimit \<and> bu_VLESS next \<le> CounterLimit \<and>
     bu_HY2 next \<le> CounterLimit \<and> usage_rawTotal next = bu_VLESS next + bu_HY2 next"

definition site_authorizes :: "BusinessSite \<Rightarrow> int \<Rightarrow> bool" where
  "site_authorizes v i \<longleftrightarrow> map_has (bs_Usage v) i \<or> list_ex (\<lambda>g. bg_UserID g = i) (bs_SentGrants v) \<or> map_has (bs_Issued v) i"

text \<open>The checks of one entry against the watermark the controller holds.\<close>

definition check_entry :: "BusinessSite \<Rightarrow> int \<Rightarrow> BusinessUsage \<Rightarrow> report_error + unit" where
  "check_entry v i next =
    (let previous = site_usage v i in
     if \<not> counts_valid i next then Inl (Refused ''invalid traffic report'')
     else if \<not> site_authorizes v i then Inl (Refused ''traffic user is not assigned to this site'')
     else if bu_Metered next \<and> (bu_QuotaUpload next < 0 \<or> bu_QuotaDownload next < 0 \<or>
               bu_QuotaUpload next > CounterLimit \<or> bu_QuotaDownload next > CounterLimit)
     then Inl (Refused ''invalid weighted traffic report'')
     else if bu_Metered next \<and> bu_Metered previous \<and>
             (bu_QuotaUpload next < bu_QuotaUpload previous \<or> bu_QuotaDownload next < bu_QuotaDownload previous)
     then Inl (Refused ''weighted watermark moved backwards'')
     else if bu_Upload next < bu_Upload previous \<or> bu_Download next < bu_Download previous \<or>
             bu_VLESS next < bu_VLESS previous \<or> bu_HY2 next < bu_HY2 previous
     then Inl (Refused ''business counters moved backwards; restore requires reconciliation'')
     else Inr ())"

definition charge_month :: "int \<Rightarrow> int \<Rightarrow> int \<Rightarrow> BusinessSite \<Rightarrow> report_error + BusinessSite" where
  "charge_month now du dd v =
    (if du > 0 \<or> dd > 0
     then bind_res (limit_res (AddCounter (bs_MonthlyUsage v) du)) (\<lambda>m.
          bind_res (limit_res (AddCounter m dd)) (\<lambda>m'.
          Inr (markBudgetExhausted now (v\<lparr>bs_MonthlyUsage := m'\<rparr>))))
     else Inr v)"

text \<open>The weighted part of a report is new since the last watermark; an unmetered report counts raw bytes.\<close>

definition quota_delta :: "BusinessUsage \<Rightarrow> BusinessUsage \<Rightarrow> int \<times> int" where
  "quota_delta previous next =
    (if bu_Metered next
     then (bu_QuotaUpload next - (if bu_Metered previous then bu_QuotaUpload previous else bu_Upload previous),
           bu_QuotaDownload next - (if bu_Metered previous then bu_QuotaDownload previous else bu_Download previous))
     else (bu_Upload next - bu_Upload previous, bu_Download next - bu_Download previous))"

definition rebase_late :: "closedBusinessDelta \<Rightarrow> QuotaMeter \<Rightarrow> report_error + QuotaMeter" where
  "rebase_late late m =
    (if cd_quotaUpload late > 0 \<or> cd_quotaDownload late > 0
     then bind_res (limit_res (AddCounter (qm_BaseUpload m) (cd_quotaUpload late))) (\<lambda>bu.
          bind_res (limit_res (AddCounter (qm_BaseDownload m) (cd_quotaDownload late))) (\<lambda>bd.
          bind_res (limit_res (AddCounter (qm_RawBaseUpload m) (cd_upload late))) (\<lambda>ru.
          bind_res (limit_res (AddCounter (qm_RawBaseDownload m) (cd_download late))) (\<lambda>rd.
          Inr (m\<lparr>qm_BaseUpload := bu, qm_BaseDownload := bd, qm_RawBaseUpload := ru, qm_RawBaseDownload := rd\<rparr>)))))
     else Inr m)"

definition charge_report ::
  "int \<Rightarrow> closedBusinessDelta \<Rightarrow> int \<Rightarrow> BusinessUsage \<Rightarrow> BusinessUsage \<Rightarrow> User \<Rightarrow> report_error + User"
where
  "charge_report now late i previous next u0 =
    (let du = bu_Upload next - bu_Upload previous; dd = bu_Download next - bu_Download previous in
     if u_Upload u0 > CounterLimit - du \<or> u_Download u0 > CounterLimit - dd
     then Inl (Refused ''traffic counter limit exceeded'')
     else
       let u = InitMeter (''legacy-'' @ businessUsageKey i) now u0;
           m = (case u_Meter u of Some m \<Rightarrow> m | None \<Rightarrow> empty_meter); q = quota_delta previous next in
       bind_res (limit_res (AddCounter (qm_Upload m) (fst q))) (\<lambda>wu.
       bind_res (limit_res (AddCounter (qm_Download m) (snd q))) (\<lambda>wd.
       bind_res (rebase_late late (m\<lparr>qm_Upload := wu, qm_Download := wd\<rparr>)) (\<lambda>m'.
       Inr (u\<lparr>u_Upload := u_Upload u + du, u_Download := u_Download u + dd,
              u_VLESSTraffic := u_VLESSTraffic u + (bu_VLESS next - bu_VLESS previous),
              u_HY2Traffic := u_HY2Traffic u + (bu_HY2 next - bu_HY2 previous), u_Meter := Some m'\<rparr>)))))"

definition set_user :: "int \<Rightarrow> User \<Rightarrow> (int \<times> User) list \<Rightarrow> (int \<times> User) list" where
  "set_user i u rows = map (\<lambda>(j, w). (j, if j = i then u else w)) rows"

definition put_usage :: "int \<Rightarrow> BusinessUsage \<Rightarrow> BusinessSite \<Rightarrow> BusinessSite" where
  "put_usage i next v = v\<lparr>bs_Usage := map_put i next (bs_Usage v)\<rparr>"

text \<open>The account and the hourly history; a deleted account stays acknowledged without being recreated.\<close>

definition charge_tables ::
  "int \<Rightarrow> bool \<Rightarrow> closedBusinessDelta \<Rightarrow> int \<Rightarrow> BusinessUsage \<Rightarrow> BusinessUsage \<Rightarrow> Reports \<Rightarrow> report_error + Reports"
where
  "charge_tables now history late i previous next R =
    (let du = bu_Upload next - bu_Upload previous; dd = bu_Download next - bu_Download previous in
     if du = 0 \<and> dd = 0 then Inr R
     else case map_of (rp_users R) i of
       None \<Rightarrow> Inr R
     | Some u0 \<Rightarrow>
         bind_res (charge_report now late i previous next u0) (\<lambda>u.
         let R1 = R\<lparr>rp_users := set_user i u (rp_users R)\<rparr>
         in Inr (if history then R1\<lparr>rp_traffic := add_traffic (now div 3600 * 3600, i) du dd (rp_traffic R1)\<rparr> else R1)))"

definition accept_entry ::
  "int \<Rightarrow> bool \<Rightarrow> (int \<times> closedBusinessDelta) list \<Rightarrow> int \<times> BusinessUsage \<Rightarrow> BusinessSite \<times> Reports \<Rightarrow>
     report_error + (BusinessSite \<times> Reports)"
where
  "accept_entry now history closed entry st =
    (let i = fst entry; next = snd entry; v = fst st; R = snd st; previous = site_usage v i in
     bind_res (check_entry v i next) (\<lambda>_.
     bind_res (charge_month now (bu_Upload next - bu_Upload previous) (bu_Download next - bu_Download previous) v) (\<lambda>v1.
     bind_res (charge_tables now history (map_get no_delta closed i) i previous next R) (\<lambda>R1.
     Inr (put_usage i next v1, R1)))))"

text \<open>An acknowledged allocation is released by a report that covers everyone who ever had one.\<close>

definition required_users :: "BusinessSite \<Rightarrow> int list" where
  "required_users v = map fst (bs_Issued v) @ map fst (bs_IssuedUnlimited v) @ map fst (bs_Usage v) @ map bg_UserID (bs_SentGrants v)"

definition release_allocation :: "BusinessHeartbeat \<Rightarrow> BusinessSite \<Rightarrow> report_error + BusinessSite" where
  "release_allocation inb v =
    (if bh_Applied inb \<noteq> [] \<and> bh_Applied inb = bs_Desired v
     then if list_ex (\<lambda>i. \<not> map_has (bh_Usage inb) i) (required_users v)
          then Inl (Refused ''incomplete acknowledged traffic report'')
          else Inr (v\<lparr>bs_IssuedNodes := bs_SentNodes v, bs_Applied := bh_Applied inb,
                 bs_Issued := foldl (\<lambda>m g. map_put (bg_UserID g) (bg_Quota g) m) [] (bs_SentGrants v),
                 bs_IssuedUnlimited := foldl (\<lambda>m g. if bg_Quota g = 0 then map_put (bg_UserID g) True m else m) [] (bs_SentGrants v)\<rparr>)
     else Inr v)"

definition put_row :: "string \<Rightarrow> NodeUsage \<Rightarrow> (string \<times> NodeUsage) list \<Rightarrow> (string \<times> NodeUsage) list" where
  "put_row site row table =
    (if list_ex (\<lambda>e. fst e = site \<and> row_key (snd e) = row_key row) table
     then map (\<lambda>e. if fst e = site \<and> row_key (snd e) = row_key row
            then (fst e, (snd e)\<lparr>nu_Upload := nu_Upload row, nu_Download := nu_Download row\<rparr>) else e) table
     else table @ [(site, row)])"

definition save_site :: "BusinessSite \<Rightarrow> Reports \<Rightarrow> Reports" where
  "save_site v R = R\<lparr>rp_sites := map (\<lambda>s. if bs_ID s = bs_ID v then v else s) (rp_sites R)\<rparr>"

text \<open>\<open>acceptBusinessUsage\<close>: the site the caller holds and the tables, or the error and the rolled back transaction.\<close>

definition acceptBusinessUsage ::
  "int \<Rightarrow> bool \<Rightarrow> BusinessHeartbeat \<Rightarrow> BusinessSite \<Rightarrow> Reports \<Rightarrow> report_error + (BusinessSite \<times> Reports)"
where
  "acceptBusinessUsage now history inb v0 R =
    bind_res (verifyBusinessMeter (refreshMonthlyBudget now v0) inb (rp_node_usage R)) (\<lambda>v1.
    bind_res (reconcileClosedBusinessUsage v1 (bh_NodeUsage inb) R) (\<lambda>(R1, closed).
    bind_res (fold_res raise_reservation closed v1) (\<lambda>v2.
    bind_res (fold_res (accept_entry now history closed) (bh_Usage inb) (v2, R1)) (\<lambda>(v3, R2).
    bind_res (release_allocation inb v3) (\<lambda>v4.
    let R3 = R2\<lparr>rp_node_usage := foldl (\<lambda>t row. put_row (bs_ID v4) row t) (rp_node_usage R2) (bh_NodeUsage inb)\<rparr>
    in Inr (v4, save_site v4 R3))))))"

section \<open>The report a subsite sends\<close>

definition baseline_of :: "User \<Rightarrow> BusinessUsage" where
  "baseline_of u =
    (case u_Meter u of None \<Rightarrow> no_usage\<lparr>bu_Upload := u_Upload u, bu_Download := u_Download u\<rparr>
     | Some m \<Rightarrow> no_usage\<lparr>bu_Upload := qm_InitialUpload m, bu_Download := qm_InitialDownload m\<rparr>)"

definition reported_users :: "Meters \<Rightarrow> (int \<times> User) list" where
  "reported_users A = filter (\<lambda>(i, u). u_Role u = ''user'') (ms_users A)"

definition agent_report :: "string \<Rightarrow> Meters \<Rightarrow> BusinessHeartbeat" where
  "agent_report applied A =
    \<lparr>bh_Protocol = 2, bh_Applied = applied, bh_Usage = map (\<lambda>(i, u). (i, businessUsageOf u)) (reported_users A),
     bh_NodeUsage = pendingNodeUsage A, bh_UsageBaseline = map (\<lambda>(i, u). (i, baseline_of u)) (reported_users A)\<rparr>"

end
