(* ===== verification/Usage_Sync.thy ===== *)
theory Usage_Sync
  imports Usage_Report
begin

text \<open>
  The subsite and the controller agree: the controller recomputes the weighted totals from the per-node
  rows in its own order, and an honest subsite, whatever its cores counted in the meantime, is never
  refused. What both sides hold is compared by levels (\<open>user_level\<close>, \<open>sum_level\<close>, \<open>usage_level\<close>), which
  do not depend on the order of the samples.
\<close>

section \<open>Rows by key\<close>

lemma rows_leE:
  assumes "rows_le a b" "r \<in> set a"
  obtains r' where "r' \<in> set b" "row_key r' = row_key r" "nu_RateMilli r' = nu_RateMilli r"
    "nu_Upload r \<le> nu_Upload r'" "nu_Download r \<le> nu_Download r'"
  using assms unfolding rows_le_def by blast

definition site_rows :: "(string \<times> NodeUsage) list \<Rightarrow> string \<Rightarrow> NodeUsage list" where
  "site_rows table site = map snd (filter (\<lambda>e. fst e = site) table)"

definition level_at :: "level \<Rightarrow> NodeUsage list \<Rightarrow> usage_key \<Rightarrow> int" where
  "level_at l rows k = (case find (\<lambda>r. row_key r = k) rows of None \<Rightarrow> 0 | Some r \<Rightarrow> row_level l r)"

lemma find_filter_snd:
  "find (\<lambda>e. fst e = site \<and> P (snd e)) table = map_option (\<lambda>r. (site, r)) (find P (site_rows table site))"
  by (induction table) (auto simp: site_rows_def)

lemma stored_counts_rows:
  "stored_counts table site row =
    (case find (\<lambda>r. row_key r = row_key row) (site_rows table site) of None \<Rightarrow> (0, 0) | Some r \<Rightarrow> (nu_Upload r, nu_Download r))"
  unfolding stored_counts_def find_filter_snd [where P = "\<lambda>r. row_key r = row_key row"] by (auto split: option.split)

lemma find_row_key: "distinct (map row_key rows) \<Longrightarrow> r \<in> set rows \<Longrightarrow> find (\<lambda>s. row_key s = row_key r) rows = Some r"
proof (induction rows)
  case (Cons s rows)
  show ?case
  proof (cases "s = r")
    case False
    with Cons.prems have "r \<in> set rows" by simp
    with Cons.prems(1) have "row_key s \<noteq> row_key r" by (metis distinct.simps(2) image_eqI list.set_map list.simps(9))
    with Cons \<open>r \<in> set rows\<close> show ?thesis by simp
  qed simp
qed simp

lemma row_unique:
  assumes "distinct (map row_key rows)" "r \<in> set rows" "s \<in> set rows" "row_key s = row_key r"
  shows "s = r"
  using find_row_key [OF assms(1,2)] find_row_key [OF assms(1,3)] assms(4) by simp

lemma level_at_row: "distinct (map row_key rows) \<Longrightarrow> r \<in> set rows \<Longrightarrow> level_at l rows (row_key r) = row_level l r"
  by (simp add: level_at_def find_row_key)

lemma level_at_none: "k \<notin> row_key ` set rows \<Longrightarrow> level_at l rows k = 0"
  by (auto simp: level_at_def find_Some_iff split: option.split)

lemma sum_where_set:
  assumes "distinct (map row_key rows)"
  shows "sum_where (\<lambda>r. nu_UserID r = i) (\<lambda>r. f (row_key r)) rows = (\<Sum>k \<in> {k \<in> row_key ` set rows. fst k = i}. f k)"
  using assms
proof (induction rows)
  case (Cons r rows)
  have user: "fst (row_key r) = nu_UserID r" by (simp add: row_key_def)
  show ?case
  proof (cases "nu_UserID r = i")
    case True
    then have "{k \<in> row_key ` set (r # rows). fst k = i} = insert (row_key r) {k \<in> row_key ` set rows. fst k = i}"
      using user by auto
    moreover have "row_key r \<notin> {k \<in> row_key ` set rows. fst k = i}" using Cons.prems by simp
    ultimately show ?thesis using Cons True by simp
  next
    case False
    then have "{k \<in> row_key ` set (r # rows). fst k = i} = {k \<in> row_key ` set rows. fst k = i}"
      using user by auto
    with Cons False show ?thesis by simp
  qed
qed simp

lemma usage_level_set:
  assumes "distinct (map row_key rows)"
  shows "usage_level l rows i = (\<Sum>k \<in> {k \<in> row_key ` set rows. fst k = i}. level_at l rows k)"
proof -
  have "usage_level l rows i = sum_where (\<lambda>r. nu_UserID r = i) (\<lambda>r. level_at l rows (row_key r)) rows"
    unfolding usage_level_def using assms by (intro sum_where_cong) (simp_all add: level_at_row)
  with sum_where_set [OF assms] show ?thesis by simp
qed

lemma sum_where_diff: "sum_where p (\<lambda>r. f r - g r) rows = sum_where p f rows - sum_where p g rows"
  by (induction rows) auto

lemma sum_where_filter_zero:
  "(\<And>r. r \<in> set rows \<Longrightarrow> \<not> q r \<Longrightarrow> f r = 0) \<Longrightarrow> sum_where p f (filter q rows) = sum_where p f rows"
  by (induction rows) auto

text \<open>What the pending rows are ahead of the stored ones is what all rows are ahead of them.\<close>

lemma pending_level:
  assumes "distinct (map row_key rows)" "distinct (map row_key stored)" "row_key ` set stored \<subseteq> row_key ` set rows"
    and "\<And>r. r \<in> set rows \<Longrightarrow> \<not> q r \<Longrightarrow> level_at l stored (row_key r) = row_level l r"
  shows "sum_where (\<lambda>r. nu_UserID r = i) (\<lambda>r. row_level l r - level_at l stored (row_key r)) (filter q rows)
    = usage_level l rows i - usage_level l stored i"
proof -
  have "sum_where (\<lambda>r. nu_UserID r = i) (\<lambda>r. row_level l r - level_at l stored (row_key r)) (filter q rows)
      = sum_where (\<lambda>r. nu_UserID r = i) (\<lambda>r. row_level l r - level_at l stored (row_key r)) rows"
    using assms(4) by (intro sum_where_filter_zero) simp
  also have "\<dots> = usage_level l rows i - sum_where (\<lambda>r. nu_UserID r = i) (\<lambda>r. level_at l stored (row_key r)) rows"
    by (simp add: sum_where_diff usage_level_def)
  also have "sum_where (\<lambda>r. nu_UserID r = i) (\<lambda>r. level_at l stored (row_key r)) rows
      = (\<Sum>k \<in> {k \<in> row_key ` set rows. fst k = i}. level_at l stored k)"
    by (rule sum_where_set [OF assms(1)])
  also have "\<dots> = (\<Sum>k \<in> {k \<in> row_key ` set stored. fst k = i}. level_at l stored k)"
  proof (rule sum.mono_neutral_right)
    show "finite {k \<in> row_key ` set rows. fst k = i}" by simp
    show "{k \<in> row_key ` set stored. fst k = i} \<subseteq> {k \<in> row_key ` set rows. fst k = i}" using assms(3) by auto
    show "\<forall>k \<in> {k \<in> row_key ` set rows. fst k = i} - {k \<in> row_key ` set stored. fst k = i}. level_at l stored k = 0"
    proof
      fix k assume "k \<in> {k \<in> row_key ` set rows. fst k = i} - {k \<in> row_key ` set stored. fst k = i}"
      then have "k \<notin> row_key ` set stored" by blast
      then show "level_at l stored k = 0" by (rule level_at_none)
    qed
  qed
  also have "\<dots> = usage_level l stored i"
    by (simp add: usage_level_set [OF assms(2)])
  finally show ?thesis .
qed

section \<open>The totals of the controller\<close>

fun sum_level :: "level \<Rightarrow> meter_sum \<Rightarrow> int" where
  "sum_level RawUp s = sm_up s"
| "sum_level RawDown s = sm_down s"
| "sum_level Protocols s = sm_up s + sm_down s"
| "sum_level CostUp s = 1000 * sm_qup s + sm_ru s"
| "sum_level CostDown s = 1000 * sm_qdown s + sm_rd s"

definition sum_ok :: "meter_sum \<Rightarrow> bool" where
  "sum_ok s \<longleftrightarrow> 0 \<le> sm_up s \<and> 0 \<le> sm_down s \<and> 0 \<le> sm_qup s \<and> 0 \<le> sm_qdown s \<and>
     0 \<le> sm_ru s \<and> sm_ru s < 1000 \<and> 0 \<le> sm_rd s \<and> sm_rd s < 1000"

text \<open>No level of the totals exceeds the final one, so no counter of the controller overflows.\<close>

definition level_limit :: "level \<Rightarrow> int" where
  "level_limit l = (case l of RawUp \<Rightarrow> CounterLimit | RawDown \<Rightarrow> CounterLimit | Protocols \<Rightarrow> 2 * CounterLimit
     | CostUp \<Rightarrow> 1000 * CounterLimit + 999 | CostDown \<Rightarrow> 1000 * CounterLimit + 999)"

lemma weighted_succeeds:
  assumes "valid_rate rate" "0 \<le> d" "d \<le> CounterLimit" "0 \<le> q" "0 \<le> r" "r < 1000" "1000 * q + r + rate * d \<le> 1000 * CounterLimit + 999"
  obtains cost r' where "WeightedBytes d rate r = Inr (cost, r')" "AddCounter q cost = Inr (q + cost)"
    "1000 * (q + cost) + r' = 1000 * q + r + rate * d" "0 \<le> cost" "0 \<le> r'" "r' < 1000"
proof -
  have args: "weighted_args d rate r" using assms by (auto simp: weighted_args_def valid_rate_def)
  have nonneg: "0 \<le> d * rate + r" using assms by (simp add: valid_rate_def)
  have "q + (d * rate + r) div 1000 \<le> CounterLimit"
  proof -
    have "(d * rate + r) div 1000 \<le> (1000 * (CounterLimit - q) + 999) div 1000"
      using assms(7) by (intro zdiv_mono1) (simp_all add: algebra_simps)
    then show ?thesis by simp
  qed
  moreover have cost: "0 \<le> (d * rate + r) div 1000" using nonneg by (simp add: pos_imp_zdiv_nonneg_iff)
  ultimately have W: "WeightedBytes d rate r = Inr ((d * rate + r) div 1000, (d * rate + r) mod 1000)"
    using args assms(4) by (simp add: WeightedBytes_eq)
  from WeightedBytes_exact [OF W] cost assms(4) \<open>q + _ \<le> CounterLimit\<close> show thesis
    by (intro that [OF W]) (simp_all add: algebra_simps)
qed

lemma add_row_succeeds:
  assumes "sum_ok s" "valid_rate rate" "0 \<le> du" "0 \<le> dd"
    and bound: "\<And>l. sum_level l s + delta_level l rate du dd \<le> level_limit l"
  obtains s' where "add_row du dd rate s = Inr s'" "sum_ok s'"
    "\<And>l. sum_level l s' = sum_level l s + delta_level l rate du dd"
proof -
  have up: "sm_up s + du \<le> CounterLimit" and down: "sm_down s + dd \<le> CounterLimit"
    using bound [of RawUp] bound [of RawDown] by (simp_all add: level_limit_def)
  have "du \<le> CounterLimit" "dd \<le> CounterLimit" using up down assms(1) by (simp_all add: sum_ok_def)
  moreover have "1000 * sm_qup s + sm_ru s + rate * du \<le> 1000 * CounterLimit + 999"
    "1000 * sm_qdown s + sm_rd s + rate * dd \<le> 1000 * CounterLimit + 999"
    using bound [of CostUp] bound [of CostDown] by (simp_all add: level_limit_def)
  ultimately obtain qu ru qd rd where
    w: "WeightedBytes du rate (sm_ru s) = Inr (qu, ru)" "AddCounter (sm_qup s) qu = Inr (sm_qup s + qu)"
      "1000 * (sm_qup s + qu) + ru = 1000 * sm_qup s + sm_ru s + rate * du" "0 \<le> qu" "0 \<le> ru" "ru < 1000"
    and z: "WeightedBytes dd rate (sm_rd s) = Inr (qd, rd)" "AddCounter (sm_qdown s) qd = Inr (sm_qdown s + qd)"
      "1000 * (sm_qdown s + qd) + rd = 1000 * sm_qdown s + sm_rd s + rate * dd" "0 \<le> qd" "0 \<le> rd" "rd < 1000"
    using assms(1,2,3,4) by (metis sum_ok_def weighted_succeeds)
  have a: "AddCounter (sm_up s) du = Inr (sm_up s + du)" "AddCounter (sm_down s) dd = Inr (sm_down s + dd)"
    using assms up down by (simp_all add: sum_ok_def)
  define s' where "s' = \<lparr>sm_up = sm_up s + du, sm_down = sm_down s + dd, sm_qup = sm_qup s + qu,
    sm_qdown = sm_qdown s + qd, sm_ru = ru, sm_rd = rd\<rparr>"
  have "add_row du dd rate s = Inr s'"
    unfolding add_row_def a w(1) z(1) limit_res_Inr bind_res_Inr prod.case w(2) z(2) s'_def ..
  moreover have "sum_ok s'" using assms w z by (simp add: sum_ok_def s'_def)
  moreover have "sum_level l s' = sum_level l s + delta_level l rate du dd" for l
    using w(3) z(3) by (cases l) (simp_all add: s'_def)
  ultimately show thesis by (rule that)
qed


section \<open>Agreement of the two sides\<close>

text \<open>The totals \<open>verify_user\<close> starts a user with; the fractions restart when the period has changed.\<close>

definition opening_sum :: "BusinessSite \<Rightarrow> int \<Rightarrow> BusinessUsage \<Rightarrow> meter_sum" where
  "opening_sum v i base =
    (let s = start_sum (site_usage v i) in
     if map_has (bs_UsageBaseline v) i \<or> bu_Metered (site_usage v i) then s
     else s\<lparr>sm_up := bu_Upload base, sm_down := bu_Download base, sm_qup := bu_Upload base, sm_qdown := bu_Download base\<rparr>)"

definition first_sum :: "BusinessSite \<Rightarrow> int \<Rightarrow> User \<Rightarrow> meter_sum" where
  "first_sum v i u =
    (let s = opening_sum v i (baseline_of u) in
     if period_of u \<noteq> bu_PeriodID (site_usage v i) \<and> bu_Metered (site_usage v i) then s\<lparr>sm_ru := 0, sm_rd := 0\<rparr> else s)"

definition period_accepted :: "BusinessSite \<Rightarrow> int \<Rightarrow> User \<Rightarrow> bool" where
  "period_accepted v i u \<longleftrightarrow> (bu_Metered (site_usage v i) \<longrightarrow>
     bu_PeriodID (site_usage v i) = period_of u \<or> period_issued v i (period_of u))"

lemma businessUsageOf_period [simp]: "bu_PeriodID (businessUsageOf u) = period_of u"
  by (simp add: businessUsageOf_def period_of_def Let_def split: option.split)

lemma businessUsageOf_metered [simp]: "bu_Metered (businessUsageOf u)"
  by (simp add: businessUsageOf_def Let_def split: option.split)

definition baseline_agrees :: "BusinessSite \<Rightarrow> int \<Rightarrow> BusinessUsage \<Rightarrow> bool" where
  "baseline_agrees v i base \<longleftrightarrow> \<not> baseline_invalid base \<and>
    (case map_of (bs_UsageBaseline v) i of
       Some prior \<Rightarrow> bu_Upload prior = bu_Upload base \<and> bu_Download prior = bu_Download base
     | None \<Rightarrow> if bu_Metered (site_usage v i) then bu_Upload base = 0 \<and> bu_Download base = 0
               else bu_Upload (site_usage v i) \<le> bu_Upload base \<and> bu_Download (site_usage v i) \<le> bu_Download base)"

definition user_synced :: "BusinessSite \<Rightarrow> int \<Rightarrow> User \<Rightarrow> bool" where
  "user_synced v i u \<longleftrightarrow> user_in_range u \<and> baseline_agrees v i (baseline_of u) \<and> sum_ok (first_sum v i u) \<and>
    (\<exists>m. u_Meter u = Some m)"

definition acks_stored :: "(usage_key \<times> int \<times> int) list \<Rightarrow> NodeUsage list \<Rightarrow> bool" where
  "acks_stored acks stored \<longleftrightarrow> (\<forall>k a b. map_of acks k = Some (a, b) \<longrightarrow>
     (\<exists>r \<in> set stored. row_key r = k \<and> a \<le> nu_Upload r \<and> b \<le> nu_Download r))"

text \<open>
  Subsite \<open>A\<close> and the controller with the site record \<open>v\<close> and its row table agree: what an account is
  ahead of the controller's totals is what its rows are ahead of the stored rows, at every level.
\<close>

definition in_sync ::
  "(string \<Rightarrow> string \<Rightarrow> int) \<Rightarrow> Meters \<Rightarrow> BusinessSite \<Rightarrow> (string \<times> NodeUsage) list \<Rightarrow> bool"
where
  "in_sync rate_of A v table \<longleftrightarrow>
    distinct (map fst (ms_users A)) \<and> rows_ok rate_of (ms_usage A) \<and> rows_ok rate_of (site_rows table (bs_ID v)) \<and>
    rows_le (site_rows table (bs_ID v)) (ms_usage A) \<and> acks_stored (ms_acks A) (site_rows table (bs_ID v)) \<and>
    (\<forall>i u. map_of (ms_users A) i = Some u \<longrightarrow> u_Role u = ''user'' \<longrightarrow> user_synced v i u \<and>
       (\<forall>l. user_level l u - sum_level l (first_sum v i u)
          = usage_level l (ms_usage A) i - usage_level l (site_rows table (bs_ID v)) i))"

lemma meter_follows_synced:
  assumes "meter_follows u u'" "user_synced v i u"
  shows "user_synced v i u'" "baseline_of u' = baseline_of u" "period_of u' = period_of u" "first_sum v i u' = first_sum v i u"
proof -
  obtain m where m: "u_Meter u = Some m"
    using assms(2) unfolding user_synced_def by blast
  with assms(1) obtain m' where m': "u_Meter u' = Some m'" "qm_PeriodID m' = qm_PeriodID m"
    "qm_InitialUpload m' = qm_InitialUpload m" "qm_InitialDownload m' = qm_InitialDownload m"
    unfolding meter_follows_def by blast
  show base: "baseline_of u' = baseline_of u" by (simp add: baseline_of_def m m')
  show per: "period_of u' = period_of u" by (simp add: period_of_def m m')
  show first: "first_sum v i u' = first_sum v i u" by (simp add: first_sum_def base per)
  show "user_synced v i u'"
    using assms m m' unfolding user_synced_def base first meter_follows_def by auto
qed

text \<open>Whatever the cores count, agreement stays.\<close>

lemma in_sync_move:
  assumes "in_sync rate_of A v table" "meters_move A A'" "rows_ok rate_of (ms_usage A')"
  shows "in_sync rate_of A' v table"
proof -
  have move: "books_move (ms_usage A) (ms_usage A') (map_of (ms_users A)) (map_of (ms_users A'))"
    and keys: "map fst (ms_users A') = map fst (ms_users A)" and acks: "ms_acks A' = ms_acks A"
    using assms(2) by (simp_all add: meters_move_def)
  have "user_synced v i u' \<and> (\<forall>l. user_level l u' - sum_level l (first_sum v i u')
      = usage_level l (ms_usage A') i - usage_level l (site_rows table (bs_ID v)) i)"
    if u': "map_of (ms_users A') i = Some u'" "u_Role u' = ''user''" for i u'
  proof -
    from move u'(1) obtain u where u: "map_of (ms_users A) i = Some u" "meter_follows u u'"
        "user_moves i (ms_usage A) (ms_usage A') u u'" by (rule books_move_entitlement)
    then have "u_Role u = ''user''" using u'(2) by (simp add: meter_follows_def)
    with assms(1) u(1) have s: "user_synced v i u" and lev: "user_level l u - sum_level l (first_sum v i u)
        = usage_level l (ms_usage A) i - usage_level l (site_rows table (bs_ID v)) i" for l
      by (simp_all add: in_sync_def)
    have moved: "user_level l u' = user_level l u - usage_level l (ms_usage A) i + usage_level l (ms_usage A') i" for l
      using u(3) by (simp add: user_moves_def algebra_simps)
    have "user_level l u' - sum_level l (first_sum v i u)
        = usage_level l (ms_usage A') i - usage_level l (site_rows table (bs_ID v)) i" for l
      using lev [of l] moved [of l] by linarith
    with meter_follows_synced [OF u(2) s] show ?thesis by simp
  qed
  moreover have "rows_le (site_rows table (bs_ID v)) (ms_usage A')"
    using assms(1) move by (auto simp: in_sync_def books_move_def intro: rows_le_trans)
  ultimately show ?thesis using assms(1,3) by (simp add: in_sync_def keys acks)
qed

lemma in_sync_account:
  assumes "in_sync rate_of A v table" "account_all samples A = Inr A'" "revisions_fixed rate_of digest A"
    and "\<And>env cs. (env, cs) \<in> set samples \<Longrightarrow> me_digest env = digest"
  shows "in_sync rate_of A' v table"
proof -
  have "rows_ok rate_of (ms_usage A)" using assms(1) by (simp add: in_sync_def)
  from account_all_keeps [OF assms(2) this assms(3,4)]
  show ?thesis by (intro in_sync_move [OF assms(1)]) simp_all
qed

text \<open>A row that is not pending is stored as it is.\<close>

lemma settled_row:
  assumes "in_sync rate_of A v table" "r \<in> set (ms_usage A)" "\<not> row_pending A r"
  shows "level_at l (site_rows table (bs_ID v)) (row_key r) = row_level l r"
proof -
  obtain a b where acked: "map_of (ms_acks A) (row_key r) = Some (a, b)"
    using assms(3) by (cases "map_of (ms_acks A) (row_key r)") (auto simp: row_pending_def ack_of_def)
  then have ab: "nu_Upload r \<le> a" "nu_Download r \<le> b"
    using assms(3) by (simp_all add: row_pending_def ack_of_def not_less)
  from assms(1) acked obtain e where e: "e \<in> set (site_rows table (bs_ID v))" "row_key e = row_key r" "a \<le> nu_Upload e" "b \<le> nu_Download e"
    unfolding in_sync_def acks_stored_def by blast
  with assms(1) obtain r' where r': "r' \<in> set (ms_usage A)" "row_key r' = row_key e" "nu_RateMilli r' = nu_RateMilli e"
      "nu_Upload e \<le> nu_Upload r'" "nu_Download e \<le> nu_Download r'"
    unfolding in_sync_def rows_le_def by blast
  have "distinct (map row_key (ms_usage A))" "distinct (map row_key (site_rows table (bs_ID v)))"
    using assms(1) by (simp_all add: in_sync_def rows_ok_def)
  moreover from this have "r' = r" using r'(1,2) e(2) assms(2) by (intro row_unique [of "ms_usage A"]) simp_all
  moreover from this have "nu_Upload e = nu_Upload r" "nu_Download e = nu_Download r" using e r' ab by simp_all
  ultimately show ?thesis
    using level_at_row [of "site_rows table (bs_ID v)" e l] e r' by (simp add: row_level_def)
qed

lemma sync_pending_level:
  assumes "in_sync rate_of A v table"
  shows "sum_where (\<lambda>r. nu_UserID r = i) (\<lambda>r. row_level l r - level_at l (site_rows table (bs_ID v)) (row_key r)) (pendingNodeUsage A)
    = usage_level l (ms_usage A) i - usage_level l (site_rows table (bs_ID v)) i"
  unfolding pendingNodeUsage_def
proof (rule pending_level)
  show "distinct (map row_key (ms_usage A))" "distinct (map row_key (site_rows table (bs_ID v)))"
    using assms by (simp_all add: in_sync_def rows_ok_def)
  have le: "rows_le (site_rows table (bs_ID v)) (ms_usage A)" using assms by (simp add: in_sync_def)
  show "row_key ` set (site_rows table (bs_ID v)) \<subseteq> row_key ` set (ms_usage A)"
  proof
    fix k assume "k \<in> row_key ` set (site_rows table (bs_ID v))"
    with le obtain r where "r \<in> set (ms_usage A)" "row_key r = k" unfolding rows_le_def by blast
    then show "k \<in> row_key ` set (ms_usage A)" by blast
  qed
qed (rule settled_row [OF assms])


section \<open>An honest report is accepted\<close>

lemma check_baseline_agrees:
  assumes "baseline_agrees v i base"
  shows "check_baseline v i (site_usage v i) base = Inr (opening_sum v i base,
    if map_has (bs_UsageBaseline v) i then v else v\<lparr>bs_UsageBaseline := map_put i base (bs_UsageBaseline v)\<rparr>)"
proof (cases "map_of (bs_UsageBaseline v) i")
  case None
  with assms show ?thesis
    by (cases "bu_Metered (site_usage v i)") (auto simp: baseline_agrees_def check_baseline_def opening_sum_def map_has_def)
next
  case (Some prior)
  with assms show ?thesis
    by (simp add: baseline_agrees_def check_baseline_def opening_sum_def map_has_def)
qed

text \<open>Registering baselines changes nothing else the checks read.\<close>

definition only_baselines :: "BusinessSite \<Rightarrow> BusinessSite \<Rightarrow> bool" where
  "only_baselines v v' \<longleftrightarrow> (\<exists>B. v' = v\<lparr>bs_UsageBaseline := B\<rparr>)"

lemma only_baselines_refl [simp]: "only_baselines v v"
  unfolding only_baselines_def by (rule exI [of _ "bs_UsageBaseline v"]) simp

lemma only_baselines_fields:
  assumes "only_baselines v v'"
  shows "bs_ID v' = bs_ID v" "bs_Usage v' = bs_Usage v" "bs_RateRules v' = bs_RateRules v" "bs_PeriodRules v' = bs_PeriodRules v"
    "site_usage v' = site_usage v"
  using assms by (auto simp: only_baselines_def site_usage_def fun_eq_iff)

lemma only_baselines_put: "only_baselines v v' \<Longrightarrow> only_baselines v (v'\<lparr>bs_UsageBaseline := B\<rparr>)"
  by (auto simp: only_baselines_def)

lemma verify_users_succeed:
  assumes "distinct (map fst users)" "only_baselines v v1"
    and "\<And>i u. (i, u) \<in> set users \<Longrightarrow> map_of (bs_UsageBaseline v1) i = map_of (bs_UsageBaseline v) i"
    and "\<And>i u. (i, u) \<in> set users \<Longrightarrow> user_synced v i u \<and> map_of (bh_UsageBaseline inb) i = Some (baseline_of u) \<and> period_accepted v i u"
  shows "\<exists>sums' v'. fold_res (verify_user inb) (map (\<lambda>(i, u). (i, businessUsageOf u)) users) (sums, v1) = Inr (sums', v') \<and>
    only_baselines v v' \<and> (\<forall>i. map_of sums' i = (case map_of users i of Some u \<Rightarrow> Some (first_sum v i u) | None \<Rightarrow> map_of sums i))"
  using assms
proof (induction users arbitrary: sums v1)
  case Nil
  then show ?case by simp
next
  case (Cons e users)
  obtain i u where e: "e = (i, u)" by fastforce
  with Cons.prems(4) have s: "user_synced v i u" and base: "map_of (bh_UsageBaseline inb) i = Some (baseline_of u)"
    and issued: "period_accepted v i u"
    by simp_all
  note f = only_baselines_fields [OF Cons.prems(2)]
  have same: "map_of (bs_UsageBaseline v1) i = map_of (bs_UsageBaseline v) i" using Cons.prems(3) [of i u] e by simp
  then have has: "map_has (bs_UsageBaseline v1) i = map_has (bs_UsageBaseline v) i" by (simp add: map_has_def)
  have "baseline_agrees v i (baseline_of u)" using s by (simp add: user_synced_def)
  then have agrees: "baseline_agrees v1 i (baseline_of u)" and bo: "\<not> baseline_invalid (baseline_of u)"
    unfolding baseline_agrees_def same f(5) by simp_all
  have open1: "opening_sum v1 i (baseline_of u) = opening_sum v i (baseline_of u)"
    using f has by (simp add: opening_sum_def)
  define v2 where "v2 = (if map_has (bs_UsageBaseline v1) i then v1
      else v1\<lparr>bs_UsageBaseline := map_put i (baseline_of u) (bs_UsageBaseline v1)\<rparr>)"
  have step: "verify_user inb (i, businessUsageOf u) (sums, v1) = Inr (map_put i (first_sum v i u) sums, v2)"
    unfolding verify_user_def Let_def fst_conv snd_conv base option.case check_baseline_agrees [OF agrees]
    using issued bo by (cases "bu_Metered (site_usage v i)") (auto simp: open1 v2_def f first_sum_def period_accepted_def period_issued_def)
  have "\<exists>sums' v'. fold_res (verify_user inb) (map (\<lambda>(i, u). (i, businessUsageOf u)) users)
        (map_put i (first_sum v i u) sums, v2) = Inr (sums', v') \<and> only_baselines v v' \<and>
      (\<forall>j. map_of sums' j = (case map_of users j of Some u \<Rightarrow> Some (first_sum v j u)
         | None \<Rightarrow> map_of (map_put i (first_sum v i u) sums) j))"
  proof (rule Cons.IH)
    show "distinct (map fst users)" using Cons.prems(1) by simp
    show "only_baselines v v2" using Cons.prems(2) by (simp add: v2_def only_baselines_put)
    show "user_synced v j w \<and> map_of (bh_UsageBaseline inb) j = Some (baseline_of w) \<and> period_accepted v j w" if "(j, w) \<in> set users" for j w
      using Cons.prems(4) that by simp
    show "map_of (bs_UsageBaseline v2) j = map_of (bs_UsageBaseline v) j" if "(j, w) \<in> set users" for j w
    proof -
      have "j \<noteq> i" using Cons.prems(1) that e by (auto simp: image_iff)
      then show ?thesis using Cons.prems(3) [of j w] that by (simp add: v2_def)
    qed
  qed
  then obtain sums' v' where rest: "fold_res (verify_user inb) (map (\<lambda>(i, u). (i, businessUsageOf u)) users)
        (map_put i (first_sum v i u) sums, v2) = Inr (sums', v')" "only_baselines v v'"
    and sums': "\<And>j. map_of sums' j = (case map_of users j of Some u \<Rightarrow> Some (first_sum v j u)
         | None \<Rightarrow> map_of (map_put i (first_sum v i u) sums) j)" by blast
  have "i \<notin> fst ` set users" using Cons.prems(1) e by simp
  then have "map_of users i = None" by (simp add: map_of_eq_None_iff)
  with rest sums' step e show ?case by (auto split: option.split)
qed

text \<open>Rows the controller has issued rates and periods for, with names it can tell apart.\<close>

definition row_issued :: "BusinessSite \<Rightarrow> NodeUsage \<Rightarrow> bool" where
  "row_issued v r \<longleftrightarrow> 0 < nu_UserID r \<and> nu_NodeID r \<noteq> [] \<and> issued_rate v r = Some (nu_RateMilli r) \<and>
     period_issued v (nu_UserID r) (nu_PeriodID r) \<and> CHR ''/'' \<notin> set (nu_NodeID r) \<and> CHR ''/'' \<notin> set (nu_PeriodID r)"

lemma slash_split: "a @ c # s = b @ c # t \<Longrightarrow> c \<notin> set a \<Longrightarrow> c \<notin> set b \<Longrightarrow> a = b \<and> s = t"
proof (induction a arbitrary: b)
  case Nil
  then show ?case by (cases b) auto
next
  case (Cons x a)
  then show ?case by (cases b) auto
qed

lemma slash_notin_itoa [simp]: "CHR ''/'' \<notin> set (itoa n)"
  using nat_string_digits [of "CHR ''/''"] by (auto simp: itoa_def)

lemma usageIdentity_inject:
  assumes "usageIdentity r = usageIdentity s" "row_issued v r" "row_issued v s"
  shows "row_key r = row_key s"
proof -
  have eq: "itoa (nu_UserID r) @ CHR ''/'' # nu_NodeID r @ CHR ''/'' # nu_PeriodID r @ CHR ''/'' # nu_RateRevision r
      = itoa (nu_UserID s) @ CHR ''/'' # nu_NodeID s @ CHR ''/'' # nu_PeriodID s @ CHR ''/'' # nu_RateRevision s"
    using assms(1) by (simp add: usageIdentity_def)
  have a: "itoa (nu_UserID r) = itoa (nu_UserID s)"
    "nu_NodeID r @ CHR ''/'' # nu_PeriodID r @ CHR ''/'' # nu_RateRevision r
      = nu_NodeID s @ CHR ''/'' # nu_PeriodID s @ CHR ''/'' # nu_RateRevision s"
    using slash_split [OF eq] by simp_all
  have b: "nu_NodeID r = nu_NodeID s" "nu_PeriodID r @ CHR ''/'' # nu_RateRevision r = nu_PeriodID s @ CHR ''/'' # nu_RateRevision s"
    using slash_split [OF a(2)] assms(2,3) by (simp_all add: row_issued_def)
  have "nu_PeriodID r = nu_PeriodID s" "nu_RateRevision r = nu_RateRevision s"
    using slash_split [OF b(2)] assms(2,3) by (simp_all add: row_issued_def)
  with a b show ?thesis by (simp add: row_key_def)
qed


lemma delta_level_diff: "delta_level l rate (a - b) (c - d) = delta_level l rate a c - delta_level l rate b d"
  by (cases l) (simp_all add: algebra_simps)

text \<open>What a row adds to the totals is what it is ahead of the stored row.\<close>

lemma row_ahead:
  assumes "rows_ok rate_of (site_rows table site)" "nu_RateMilli r = rate_of (nu_NodeID r) (nu_RateRevision r)"
  shows "delta_level l (nu_RateMilli r) (nu_Upload r - fst (stored_counts table site r)) (nu_Download r - snd (stored_counts table site r))
    = row_level l r - level_at l (site_rows table site) (row_key r)"
proof (cases "find (\<lambda>e. row_key e = row_key r) (site_rows table site)")
  case None
  then show ?thesis by (simp add: stored_counts_rows level_at_def row_level_def)
next
  case (Some e)
  then have "e \<in> set (site_rows table site)" "row_key e = row_key r" by (auto simp: find_Some_iff)
  with assms have "nu_RateMilli e = nu_RateMilli r" by (simp add: rows_ok_def row_key_def)
  with Some show ?thesis by (simp add: stored_counts_rows level_at_def row_level_def delta_level_diff)
qed

definition ahead :: "level \<Rightarrow> NodeUsage list \<Rightarrow> NodeUsage list \<Rightarrow> int \<Rightarrow> int" where
  "ahead l stored rows i = sum_where (\<lambda>r. nu_UserID r = i) (\<lambda>r. row_level l r - level_at l stored (row_key r)) rows"

definition row_sendable :: "(string \<Rightarrow> string \<Rightarrow> int) \<Rightarrow> BusinessSite \<Rightarrow> (string \<times> NodeUsage) list \<Rightarrow> NodeUsage \<Rightarrow> bool" where
  "row_sendable rate_of v table r \<longleftrightarrow> row_issued v r \<and> valid_rate (nu_RateMilli r) \<and>
     nu_RateMilli r = rate_of (nu_NodeID r) (nu_RateRevision r) \<and> 0 \<le> nu_Upload r \<and> 0 \<le> nu_Download r \<and>
     fst (stored_counts table (bs_ID v) r) \<le> nu_Upload r \<and> snd (stored_counts table (bs_ID v) r) \<le> nu_Download r"

lemma verify_row_succeeds:
  assumes "rows_ok rate_of (site_rows table (bs_ID v))" "row_sendable rate_of v table r" "usageIdentity r \<notin> set seen"
    and "map_of sums (nu_UserID r) = Some s" "sum_ok s"
    and "\<And>l. sum_level l s + (row_level l r - level_at l (site_rows table (bs_ID v)) (row_key r)) \<le> level_limit l"
  obtains s' where "verify_row v table r (seen, sums) = Inr (usageIdentity r # seen, map_put (nu_UserID r) s' sums)" "sum_ok s'"
    "\<And>l. sum_level l s' = sum_level l s + (row_level l r - level_at l (site_rows table (bs_ID v)) (row_key r))"
proof -
  have rate: "nu_RateMilli r = rate_of (nu_NodeID r) (nu_RateRevision r)" "valid_rate (nu_RateMilli r)"
    using assms(2) unfolding row_sendable_def by blast+
  have counts: "0 \<le> nu_Upload r" "0 \<le> nu_Download r"
      "fst (stored_counts table (bs_ID v) r) \<le> nu_Upload r" "snd (stored_counts table (bs_ID v) r) \<le> nu_Download r"
    and issued: "row_issued v r"
    using assms(2) by (simp_all add: row_sendable_def)
  note step = row_ahead [OF assms(1) rate(1)]
  have "sum_level l s + delta_level l (nu_RateMilli r) (nu_Upload r - fst (stored_counts table (bs_ID v) r))
      (nu_Download r - snd (stored_counts table (bs_ID v) r)) \<le> level_limit l" for l
    using assms(6) by (simp add: step)
  then obtain s' where s': "add_row (nu_Upload r - fst (stored_counts table (bs_ID v) r))
        (nu_Download r - snd (stored_counts table (bs_ID v) r)) (nu_RateMilli r) s = Inr s'" "sum_ok s'"
      "\<And>l. sum_level l s' = sum_level l s + delta_level l (nu_RateMilli r) (nu_Upload r - fst (stored_counts table (bs_ID v) r))
        (nu_Download r - snd (stored_counts table (bs_ID v) r))"
    using add_row_succeeds [OF assms(5) rate(2), of "nu_Upload r - fst (stored_counts table (bs_ID v) r)"
        "nu_Download r - snd (stored_counts table (bs_ID v) r)"] counts by auto
  have "verify_row v table r (seen, sums) = Inr (usageIdentity r # seen, map_put (nu_UserID r) s' sums)"
    using issued counts assms(3,4) s'(1) by (simp add: verify_row_def Let_def row_issued_def)
  then show thesis using s'(2,3) by (intro that) (simp_all add: step)
qed

lemma verify_rows_succeed:
  assumes "rows_ok rate_of (site_rows table (bs_ID v))"
    and "\<And>r. r \<in> set rows \<Longrightarrow> row_sendable rate_of v table r"
    and "distinct (map usageIdentity rows)" "set (map usageIdentity rows) \<inter> set seen = {}"
    and "\<And>r. r \<in> set rows \<Longrightarrow> map_of sums (nu_UserID r) \<noteq> None"
    and "\<And>i s. map_of sums i = Some s \<Longrightarrow> sum_ok s \<and> (\<forall>l. sum_level l s + ahead l (site_rows table (bs_ID v)) rows i \<le> level_limit l)"
  shows "\<exists>seen' totals. fold_res (verify_row v table) rows (seen, sums) = Inr (seen', totals) \<and>
    (\<forall>i s. map_of sums i = Some s \<longrightarrow> (\<exists>t. map_of totals i = Some t \<and> sum_ok t \<and>
       (\<forall>l. sum_level l t = sum_level l s + ahead l (site_rows table (bs_ID v)) rows i)))"
  using assms(2-)
proof (induction rows arbitrary: seen sums)
  case Nil
  then show ?case by (simp add: ahead_def)
next
  case (Cons r rows)
  obtain s where s: "map_of sums (nu_UserID r) = Some s" using Cons.prems(4) [of r] by auto
  have ok: "sum_ok s" and bound: "sum_level l s + ahead l (site_rows table (bs_ID v)) (r # rows) (nu_UserID r) \<le> level_limit l" for l
    using Cons.prems(5) [OF s] by blast+
  have later: "0 \<le> ahead l (site_rows table (bs_ID v)) rows i" for l i
    unfolding ahead_def
  proof (rule sum_where_nonneg)
    fix q assume "q \<in> set rows"
    then have q: "row_sendable rate_of v table q" using Cons.prems(1) by simp
    then have "row_level l q - level_at l (site_rows table (bs_ID v)) (row_key q)
        = delta_level l (nu_RateMilli q) (nu_Upload q - fst (stored_counts table (bs_ID v) q)) (nu_Download q - snd (stored_counts table (bs_ID v) q))"
      using row_ahead [OF assms(1), of q l] by (simp add: row_sendable_def)
    also have "\<dots> \<ge> 0" using q by (cases l) (simp_all add: row_sendable_def valid_rate_def)
    finally show "0 \<le> row_level l q - level_at l (site_rows table (bs_ID v)) (row_key q)" .
  qed
  have "sum_level l s + (row_level l r - level_at l (site_rows table (bs_ID v)) (row_key r)) \<le> level_limit l" for l
    using bound [of l] later [of l "nu_UserID r"] by (simp add: ahead_def)
  then obtain s' where
    step: "verify_row v table r (seen, sums) = Inr (usageIdentity r # seen, map_put (nu_UserID r) s' sums)" "sum_ok s'"
      "\<And>l. sum_level l s' = sum_level l s + (row_level l r - level_at l (site_rows table (bs_ID v)) (row_key r))"
    using verify_row_succeeds [OF assms(1) Cons.prems(1) _ s ok, of seen] Cons.prems(3) by auto
  have "\<exists>seen' totals. fold_res (verify_row v table) rows (usageIdentity r # seen, map_put (nu_UserID r) s' sums) = Inr (seen', totals) \<and>
    (\<forall>i t0. map_of (map_put (nu_UserID r) s' sums) i = Some t0 \<longrightarrow> (\<exists>t. map_of totals i = Some t \<and> sum_ok t \<and>
       (\<forall>l. sum_level l t = sum_level l t0 + ahead l (site_rows table (bs_ID v)) rows i)))"
  proof (rule Cons.IH)
    show "row_sendable rate_of v table q" if "q \<in> set rows" for q using Cons.prems(1) that by simp
    show "distinct (map usageIdentity rows)" using Cons.prems(2) by simp
    show "set (map usageIdentity rows) \<inter> set (usageIdentity r # seen) = {}" using Cons.prems(2,3) by auto
    show "map_of (map_put (nu_UserID r) s' sums) (nu_UserID q) \<noteq> None" if "q \<in> set rows" for q
      using Cons.prems(4) [of q] that by simp
    show "sum_ok t0 \<and> (\<forall>l. sum_level l t0 + ahead l (site_rows table (bs_ID v)) rows i \<le> level_limit l)"
      if "map_of (map_put (nu_UserID r) s' sums) i = Some t0" for i t0
    proof (cases "i = nu_UserID r")
      case True
      with that have t0: "t0 = s'" by simp
      have "sum_level l s' + ahead l (site_rows table (bs_ID v)) rows (nu_UserID r) \<le> level_limit l" for l
        using bound [of l] step(3) [of l] by (simp add: ahead_def add.assoc)
      with step(2) True t0 show ?thesis by simp
    next
      case False
      with that Cons.prems(5) [of i t0] show ?thesis by (auto simp: ahead_def)
    qed
  qed
  then obtain seen' totals where rest: "fold_res (verify_row v table) rows (usageIdentity r # seen, map_put (nu_UserID r) s' sums) = Inr (seen', totals)"
    and levels: "\<And>i t0. map_of (map_put (nu_UserID r) s' sums) i = Some t0 \<Longrightarrow> \<exists>t. map_of totals i = Some t \<and> sum_ok t \<and>
       (\<forall>l. sum_level l t = sum_level l t0 + ahead l (site_rows table (bs_ID v)) rows i)" by blast
  have "\<exists>t. map_of totals i = Some t \<and> sum_ok t \<and> (\<forall>l. sum_level l t = sum_level l s0 + ahead l (site_rows table (bs_ID v)) (r # rows) i)"
    if s0: "map_of sums i = Some s0" for i s0
  proof (cases "i = nu_UserID r")
    case True
    with levels [of i s'] s s0 step(3) show ?thesis by (simp add: ahead_def add.assoc)
  next
    case False
    with levels [of i s0] s0 show ?thesis by (simp add: ahead_def)
  qed
  with step(1) rest show ?case by simp
qed


text \<open>Totals at the levels of an account are the totals the account reports.\<close>

lemma thousandths_unique:
  assumes "1000 * a + r = 1000 * b + (s :: int)" "0 \<le> r" "r < 1000" "0 \<le> s" "s < 1000"
  shows "a = b \<and> r = s"
proof -
  have "(1000 * a + r) div 1000 = a" "(1000 * b + s) div 1000 = b" using assms by simp_all
  with assms(1) show ?thesis by simp
qed

lemma totals_from_levels:
  assumes "sum_ok t" "user_in_range u" "u_Meter u = Some m" "\<And>l. sum_level l t = user_level l u"
  shows "totals_agree t (businessUsageOf u)"
proof -
  have range: "0 \<le> qm_UploadRemainder m" "qm_UploadRemainder m < 1000" "0 \<le> qm_DownloadRemainder m" "qm_DownloadRemainder m < 1000"
    using assms(2,3) by (simp_all add: user_in_range_def meter_in_range_def)
  have "1000 * sm_qup t + sm_ru t = 1000 * qm_Upload m + qm_UploadRemainder m"
    "1000 * sm_qdown t + sm_rd t = 1000 * qm_Download m + qm_DownloadRemainder m"
    using assms(4) [of CostUp] assms(4) [of CostDown] assms(3) by simp_all
  then have "sm_qup t = qm_Upload m \<and> sm_ru t = qm_UploadRemainder m" "sm_qdown t = qm_Download m \<and> sm_rd t = qm_DownloadRemainder m"
    using range assms(1) unfolding sum_ok_def by (intro thousandths_unique; simp)+
  moreover have "sm_up t = u_Upload u" "sm_down t = u_Download u"
    using assms(4) [of RawUp] assms(4) [of RawDown] by simp_all
  ultimately show ?thesis by (simp add: totals_agree_def businessUsageOf_def Let_def assms(3))
qed

lemma user_level_limit:
  assumes "user_in_range u" "u_Meter u = Some m"
  shows "user_level l u \<le> level_limit l"
  using assms by (cases l) (auto simp: user_in_range_def meter_in_range_def level_limit_def)

lemma only_baselines_row:
  assumes "only_baselines v v'"
  shows "row_issued v' = row_issued v" "row_sendable rate_of v' table = row_sendable rate_of v table"
  using only_baselines_fields [OF assms]
  by (auto simp: fun_eq_iff row_issued_def issued_rate_def period_issued_def row_sendable_def)

theorem honest_report_verified:
  assumes sync: "in_sync rate_of A v table"
    and issued: "\<And>r. r \<in> set (pendingNodeUsage A) \<Longrightarrow> row_issued v r"
    and owners: "\<And>r. r \<in> set (pendingNodeUsage A) \<Longrightarrow> nu_UserID r \<in> fst ` set (reported_users A)"
    and periods: "\<And>i u. (i, u) \<in> set (reported_users A) \<Longrightarrow> period_accepted v i u"
    and size: "length (pendingNodeUsage A) \<le> 32768"
  shows "\<exists>v'. verifyBusinessMeter v (agent_report applied A) table = Inr v' \<and> only_baselines v v'"
proof -
  define inb where "inb = agent_report applied A"
  define stored where "stored = site_rows table (bs_ID v)"
  have dist: "distinct (map fst (ms_users A))" using sync by (simp add: in_sync_def)
  then have distr: "distinct (map fst (reported_users A))" by (simp add: reported_users_def distinct_map_filter)
  have reported: "map_of (ms_users A) i = Some u \<and> u_Role u = ''user''" if "(i, u) \<in> set (reported_users A)" for i u
    using that dist by (auto simp: reported_users_def)
  have synced: "user_synced v i u" "\<And>l. user_level l u - sum_level l (first_sum v i u)
      = usage_level l (ms_usage A) i - usage_level l stored i" if "(i, u) \<in> set (reported_users A)" for i u
    using sync reported [OF that] by (simp_all add: in_sync_def stored_def)
  have base: "map_of (bh_UsageBaseline inb) i = Some (baseline_of u)" if "(i, u) \<in> set (reported_users A)" for i u
  proof -
    have "map_of (bh_UsageBaseline inb) i = map_option baseline_of (map_of (reported_users A) i)"
      by (simp add: inb_def agent_report_def map_of_map)
    with that distr show ?thesis by simp
  qed
  obtain sums v' where users: "fold_res (verify_user inb) (map (\<lambda>(i, u). (i, businessUsageOf u)) (reported_users A)) ([], v) = Inr (sums, v')"
    and v': "only_baselines v v'"
    and sums': "\<And>i. map_of sums i = (case map_of (reported_users A) i of Some u \<Rightarrow> Some (first_sum v i u) | None \<Rightarrow> map_of [] i)"
    using verify_users_succeed [OF distr only_baselines_refl [of v], of inb "[]"] synced(1) base periods by blast
  have sums: "map_of sums i = (case map_of (reported_users A) i of Some u \<Rightarrow> Some (first_sum v i u) | None \<Rightarrow> None)" for i
    using sums' [of i] by (simp split: option.splits)
  note f = only_baselines_fields [OF v']
  have le: "rows_ok rate_of stored" "rows_le stored (ms_usage A)" "rows_ok rate_of (ms_usage A)"
    using sync by (simp_all add: in_sync_def stored_def)
  have stored_le: "fst (stored_counts table (bs_ID v) r) \<le> nu_Upload r \<and> snd (stored_counts table (bs_ID v) r) \<le> nu_Download r"
    if r: "r \<in> set (ms_usage A)" for r
  proof (cases "find (\<lambda>e. row_key e = row_key r) stored")
    case None
    with r le show ?thesis by (simp add: stored_counts_rows stored_def rows_ok_def)
  next
    case (Some e)
    then have "e \<in> set stored" "row_key e = row_key r" by (auto simp: find_Some_iff)
    with le(2) obtain r' where "r' \<in> set (ms_usage A)" "row_key r' = row_key r" "nu_Upload e \<le> nu_Upload r'" "nu_Download e \<le> nu_Download r'"
      unfolding rows_le_def by metis
    moreover from this have "r' = r" using r le(3) by (intro row_unique [of "ms_usage A"]) (simp_all add: rows_ok_def)
    ultimately show ?thesis using Some by (simp add: stored_counts_rows stored_def)
  qed
  have sendable: "row_sendable rate_of v' table r" if "r \<in> set (pendingNodeUsage A)" for r
  proof -
    have r: "r \<in> set (ms_usage A)" using that by (simp add: pendingNodeUsage_def)
    have "nu_RateMilli r = rate_of (nu_NodeID r) (nu_RateRevision r) \<and> valid_rate (nu_RateMilli r) \<and> 0 \<le> nu_Upload r \<and> 0 \<le> nu_Download r"
      using le(3) r unfolding rows_ok_def by blast
    then show ?thesis unfolding only_baselines_row [OF v'] row_sendable_def
      using issued [OF that] stored_le [OF r] by blast
  qed
  have ident: "distinct (map usageIdentity (pendingNodeUsage A))"
  proof -
    have "distinct (map row_key (pendingNodeUsage A))" using le(3) by (simp add: rows_ok_def pendingNodeUsage_def distinct_map_filter)
    then have "distinct (pendingNodeUsage A)" "inj_on row_key (set (pendingNodeUsage A))" by (simp_all add: distinct_map)
    moreover have "inj_on usageIdentity (set (pendingNodeUsage A))"
    proof (rule inj_onI)
      fix r s assume "r \<in> set (pendingNodeUsage A)" "s \<in> set (pendingNodeUsage A)" "usageIdentity r = usageIdentity s"
      moreover from this have "row_key r = row_key s" using usageIdentity_inject issued by blast
      ultimately show "r = s" using \<open>inj_on row_key _\<close> by (simp add: inj_on_eq_iff)
    qed
    ultimately show ?thesis by (simp add: distinct_map)
  qed
  have ahead: "ahead l stored (pendingNodeUsage A) i = usage_level l (ms_usage A) i - usage_level l stored i" for l i
    using sync_pending_level [OF sync] by (simp add: ahead_def stored_def)
  have start: "sum_ok s \<and> (\<forall>l. sum_level l s + ahead l stored (pendingNodeUsage A) i = user_level l u)
      \<and> s = first_sum v i u \<and> user_in_range u \<and> (\<exists>m. u_Meter u = Some m)"
    if "map_of sums i = Some s" "map_of (reported_users A) i = Some u" for i s u
  proof -
    have "s = first_sum v i u" "(i, u) \<in> set (reported_users A)" using that sums by (simp_all add: map_of_SomeD)
    with synced show ?thesis unfolding ahead user_synced_def by (metis add.commute diff_add_cancel)
  qed
  have known: "\<exists>u. map_of (reported_users A) i = Some u" if "map_of sums i = Some s" for i s
    using that sums by (cases "map_of (reported_users A) i") auto
  have "\<exists>seen' totals. fold_res (verify_row v' table) (pendingNodeUsage A) ([], sums) = Inr (seen', totals) \<and>
    (\<forall>i s. map_of sums i = Some s \<longrightarrow> (\<exists>t. map_of totals i = Some t \<and> sum_ok t \<and>
       (\<forall>l. sum_level l t = sum_level l s + ahead l (site_rows table (bs_ID v')) (pendingNodeUsage A) i)))"
  proof (rule verify_rows_succeed)
    show "rows_ok rate_of (site_rows table (bs_ID v'))" using le(1) by (simp add: f stored_def)
    show "map_of sums (nu_UserID r) \<noteq> None" if "r \<in> set (pendingNodeUsage A)" for r
      using owners [OF that] by (auto simp: sums map_of_eq_None_iff split: option.split)
    show "sum_ok s \<and> (\<forall>l. sum_level l s + ahead l (site_rows table (bs_ID v')) (pendingNodeUsage A) i \<le> level_limit l)"
      if s: "map_of sums i = Some s" for i s
    proof -
      obtain u where u: "map_of (reported_users A) i = Some u" using known [OF s] by blast
      from start [OF s u] show ?thesis unfolding f(1) stored_def [symmetric] by (metis user_level_limit)
    qed
  qed (use sendable ident in auto)
  then obtain seen totals where rows: "fold_res (verify_row v' table) (pendingNodeUsage A) ([], sums) = Inr (seen, totals)"
    and totals: "\<And>i s. map_of sums i = Some s \<Longrightarrow> \<exists>t. map_of totals i = Some t \<and> sum_ok t \<and>
       (\<forall>l. sum_level l t = sum_level l s + ahead l stored (pendingNodeUsage A) i)"
    by (auto simp: f stored_def)
  have "list_all (\<lambda>(i, next). case map_of totals i of None \<Rightarrow> False | Some s \<Rightarrow> totals_agree s next) (bh_Usage inb)"
    unfolding list_all_iff
  proof
    fix e assume "e \<in> set (bh_Usage inb)"
    then obtain i u where e: "e = (i, businessUsageOf u)" and iu: "(i, u) \<in> set (reported_users A)"
      by (auto simp: inb_def agent_report_def)
    have u: "map_of (reported_users A) i = Some u" using iu distr by simp
    then have s: "map_of sums i = Some (first_sum v i u)" by (simp add: sums)
    obtain t where t: "map_of totals i = Some t" "sum_ok t"
        "\<And>l. sum_level l t = sum_level l (first_sum v i u) + ahead l stored (pendingNodeUsage A) i"
      using totals [OF s] by blast
    obtain m where "u_Meter u = Some m" "user_in_range u" using start [OF s u] by blast
    moreover have "sum_level l t = user_level l u" for l using t(3) start [OF s u] by simp
    ultimately have "totals_agree t (businessUsageOf u)" using t(2) by (intro totals_from_levels)
    with t(1) e show "case e of (i, next) \<Rightarrow> (case map_of totals i of None \<Rightarrow> False | Some s \<Rightarrow> totals_agree s next)" by simp
  qed
  moreover have "bh_Protocol inb = 2" "bh_NodeUsage inb = pendingNodeUsage A"
    "bh_Usage inb = map (\<lambda>(i, u). (i, businessUsageOf u)) (reported_users A)" by (simp_all add: inb_def agent_report_def)
  ultimately have "verifyBusinessMeter v inb table = Inr v'"
    using users rows size by (simp add: verifyBusinessMeter_def)
  with v' show ?thesis unfolding inb_def by blast
qed


section \<open>Acceptance keeps the agreement\<close>

definition same_meters :: "BusinessSite \<Rightarrow> BusinessSite \<Rightarrow> bool" where
  "same_meters v v' \<longleftrightarrow> bs_ID v' = bs_ID v \<and> bs_Usage v' = bs_Usage v \<and> bs_UsageBaseline v' = bs_UsageBaseline v"

lemma same_meters_refl [simp]: "same_meters v v"
  by (simp add: same_meters_def)

lemma same_meters_trans: "same_meters a b \<Longrightarrow> same_meters b c \<Longrightarrow> same_meters a c"
  by (simp add: same_meters_def)

lemma same_meters_refresh [simp]: "same_meters v (refreshMonthlyBudget now v)"
  by (simp add: same_meters_def refreshMonthlyBudget_def Let_def markBudgetExhausted_def)

lemma raise_issued_meters: "raise_issued i inc v = Inr v' \<Longrightarrow> same_meters v v'"
  by (auto simp: raise_issued_def res_simps same_meters_def split: if_splits)

lemma raise_reservation_meters: "raise_reservation e v = Inr v' \<Longrightarrow> same_meters v v'"
  by (auto simp: raise_reservation_def res_simps Let_def same_meters_def split: if_splits dest!: raise_issued_meters)

lemma charge_month_meters: "charge_month now du dd v = Inr v' \<Longrightarrow> same_meters v v'"
  by (auto simp: charge_month_def res_simps same_meters_def markBudgetExhausted_def Let_def split: if_splits)

lemma release_allocation_meters: "release_allocation inb v = Inr v' \<Longrightarrow> same_meters v v'"
  by (auto simp: release_allocation_def same_meters_def split: if_splits)

lemma charge_tables_frame:
  assumes "charge_tables now history late i previous next R = Inr R'"
  shows "rp_node_usage R' = rp_node_usage R \<and> rp_sites R' = rp_sites R \<and> rp_periods R' = rp_periods R"
  using assms unfolding charge_tables_def Let_def
  by (auto simp: res_simps split: if_splits option.splits)

lemma accept_entry_Inr:
  assumes "accept_entry now history closed (i, next) (v, R) = Inr (v', R')"
  shows "bs_ID v' = bs_ID v \<and> bs_UsageBaseline v' = bs_UsageBaseline v \<and> bs_Usage v' = map_put i next (bs_Usage v) \<and>
    rp_node_usage R' = rp_node_usage R \<and> rp_sites R' = rp_sites R \<and> rp_periods R' = rp_periods R \<and> check_entry v i next = Inr ()"
proof -
  from assms obtain v1 where check: "check_entry v i next = Inr ()"
    and v1: "charge_month now (bu_Upload next - bu_Upload (site_usage v i)) (bu_Download next - bu_Download (site_usage v i)) v = Inr v1"
    and R': "charge_tables now history (map_get no_delta closed i) i (site_usage v i) next R = Inr R'" and v': "v' = put_usage i next v1"
    by (simp add: accept_entry_def Let_def res_simps) blast
  from charge_month_meters [OF v1] charge_tables_frame [OF R'] check v' show ?thesis
    by (simp add: put_usage_def same_meters_def)
qed

lemma accept_entries_Inr:
  assumes "fold_res (accept_entry now history closed) entries (v, R) = Inr (v', R')" "distinct (map fst entries)"
  shows "bs_ID v' = bs_ID v \<and> bs_UsageBaseline v' = bs_UsageBaseline v \<and> rp_node_usage R' = rp_node_usage R \<and>
    rp_sites R' = rp_sites R \<and> rp_periods R' = rp_periods R \<and>
    (\<forall>i. map_of (bs_Usage v') i = (case map_of entries i of Some next \<Rightarrow> Some next | None \<Rightarrow> map_of (bs_Usage v) i))"
  using assms
proof (induction entries arbitrary: v R)
  case Nil
  then show ?case by (simp only: fold_res.simps sum.inject prod.inject) simp
next
  case (Cons e entries)
  obtain i n where e: "e = (i, n)" by fastforce
  with Cons.prems obtain v1 R1 where step: "accept_entry now history closed (i, n) (v, R) = Inr (v1, R1)"
    and rest: "fold_res (accept_entry now history closed) entries (v1, R1) = Inr (v', R')"
    by (auto simp: res_simps)
  have IH: "bs_ID v' = bs_ID v1 \<and> bs_UsageBaseline v' = bs_UsageBaseline v1 \<and> rp_node_usage R' = rp_node_usage R1 \<and>
    rp_sites R' = rp_sites R1 \<and> rp_periods R' = rp_periods R1 \<and>
    (\<forall>i. map_of (bs_Usage v') i = (case map_of entries i of Some next \<Rightarrow> Some next | None \<Rightarrow> map_of (bs_Usage v1) i))"
    using Cons.IH [OF rest] Cons.prems(2) by simp
  have "i \<notin> fst ` set entries" using Cons.prems(2) e by simp
  then have "map_of entries i = None" by (simp add: map_of_eq_None_iff)
  with IH accept_entry_Inr [OF step] show ?case by (auto simp: e split: option.split)
qed

lemma fold_same_meters:
  assumes "fold_res raise_reservation closed v = Inr v'"
  shows "same_meters v v'"
  using assms
proof (induction closed arbitrary: v)
  case (Cons e closed)
  then obtain v1 where "raise_reservation e v = Inr v1" "fold_res raise_reservation closed v1 = Inr v'" by (auto simp: res_simps)
  with Cons.IH raise_reservation_meters show ?case by (metis same_meters_trans)
qed simp

lemma verifyBusinessMeter_baselines:
  assumes "verifyBusinessMeter v inb table = Inr v'"
  shows "only_baselines v v'"
proof (cases "bh_Protocol inb < 2")
  case True
  with assms have "v' = v" by (auto simp: verifyBusinessMeter_def split: option.splits if_splits)
  then show ?thesis by simp
next
  case False
  with assms obtain sums where "fold_res (verify_user inb) (bh_Usage inb) ([], v) = Inr (sums, v')"
    by (auto simp: verifyBusinessMeter_def res_simps split: if_splits)
  moreover have "only_baselines v (snd st')"
    if "verify_user inb e st = Inr st'" "only_baselines v (snd st)" for e st st'
  proof -
    have "snd st' = snd st \<or> (\<exists>B. snd st' = snd st\<lparr>bs_UsageBaseline := B\<rparr>)"
      using that(1) unfolding verify_user_def Let_def
      by (auto simp: res_simps check_baseline_def split: if_splits option.splits)
    with that(2) show ?thesis by (auto simp: only_baselines_put)
  qed
  ultimately show ?thesis
    using fold_res_invariant [of "verify_user inb" "bh_Usage inb" "([], v)" "(sums, v')" "\<lambda>st. only_baselines v (snd st)"] by auto
qed

lemma reconcileClosed_frame:
  assumes "reconcileClosedBusinessUsage v rows R = Inr (R', closed)"
  shows "rp_users R' = rp_users R \<and> rp_node_usage R' = rp_node_usage R \<and> rp_sites R' = rp_sites R \<and> rp_traffic R' = rp_traffic R"
  using assms by (auto simp: reconcileClosedBusinessUsage_def res_simps)

text \<open>What an accepted report leaves: the watermarks are the reported totals, the rows the reported rows.\<close>

theorem accept_Inr:
  assumes "acceptBusinessUsage now history inb v R = Inr (v', R')" "distinct (map fst (bh_Usage inb))"
  obtains v1 where "verifyBusinessMeter (refreshMonthlyBudget now v) inb (rp_node_usage R) = Inr v1"
    "only_baselines (refreshMonthlyBudget now v) v1" "bs_ID v' = bs_ID v" "bs_UsageBaseline v' = bs_UsageBaseline v1"
    "\<And>i. map_of (bs_Usage v') i = (case map_of (bh_Usage inb) i of Some next \<Rightarrow> Some next | None \<Rightarrow> map_of (bs_Usage v) i)"
    "rp_node_usage R' = foldl (\<lambda>t row. put_row (bs_ID v) row t) (rp_node_usage R) (bh_NodeUsage inb)"
proof -
  from assms(1) obtain v1 R1 closed v2 v3 R2 v4 where
    v1: "verifyBusinessMeter (refreshMonthlyBudget now v) inb (rp_node_usage R) = Inr v1"
    and R1: "reconcileClosedBusinessUsage v1 (bh_NodeUsage inb) R = Inr (R1, closed)"
    and v2: "fold_res raise_reservation closed v1 = Inr v2"
    and v3: "fold_res (accept_entry now history closed) (bh_Usage inb) (v2, R1) = Inr (v3, R2)"
    and v4: "release_allocation inb v3 = Inr v4" and v': "v' = v4"
    and R': "R' = save_site v4 (R2\<lparr>rp_node_usage := foldl (\<lambda>t row. put_row (bs_ID v4) row t) (rp_node_usage R2) (bh_NodeUsage inb)\<rparr>)"
    unfolding acceptBusinessUsage_def Let_def by (auto simp: res_simps)
  note base = verifyBusinessMeter_baselines [OF v1]
  have a: "same_meters v1 v2" by (rule fold_same_meters [OF v2])
  have c: "same_meters v3 v4" by (rule release_allocation_meters [OF v4])
  note b = accept_entries_Inr [OF v3 assms(2)]
  have r: "same_meters v (refreshMonthlyBudget now v)" by simp
  show thesis
  proof (rule that [OF v1 base])
    show "bs_ID v' = bs_ID v" "bs_UsageBaseline v' = bs_UsageBaseline v1"
      using a b c r only_baselines_fields [OF base] by (simp_all add: v' same_meters_def)
    show "map_of (bs_Usage v') i = (case map_of (bh_Usage inb) i of Some next \<Rightarrow> Some next | None \<Rightarrow> map_of (bs_Usage v) i)" for i
      using a b c r only_baselines_fields [OF base] by (simp add: v' same_meters_def split: option.split)
    show "rp_node_usage R' = foldl (\<lambda>t row. put_row (bs_ID v) row t) (rp_node_usage R) (bh_NodeUsage inb)"
      using a b c r only_baselines_fields [OF base] reconcileClosed_frame [OF R1]
      by (simp add: R' save_site_def same_meters_def)
  qed
qed


lemma put_row_site_rows:
  "site_rows (put_row site row table) site =
    (if row_key row \<in> row_key ` set (site_rows table site)
     then map (\<lambda>r. if row_key r = row_key row then r\<lparr>nu_Upload := nu_Upload row, nu_Download := nu_Download row\<rparr> else r) (site_rows table site)
     else site_rows table site @ [row])"
proof -
  have ex: "list_ex (\<lambda>e. fst e = site \<and> row_key (snd e) = row_key row) table \<longleftrightarrow> row_key row \<in> row_key ` set (site_rows table site)"
    by (induction table) (auto simp: site_rows_def)
  have "map snd (filter (\<lambda>e. fst e = site) (map (\<lambda>e. if fst e = site \<and> row_key (snd e) = row_key row
            then (fst e, (snd e)\<lparr>nu_Upload := nu_Upload row, nu_Download := nu_Download row\<rparr>) else e) t))
      = map (\<lambda>r. if row_key r = row_key row then r\<lparr>nu_Upload := nu_Upload row, nu_Download := nu_Download row\<rparr> else r)
          (map snd (filter (\<lambda>e. fst e = site) t))" for t :: "(string \<times> NodeUsage) list"
    by (induction t) auto
  then show ?thesis by (simp add: put_row_def ex) (simp add: site_rows_def)
qed

lemma put_row_keys:
  "row_key ` set (site_rows (put_row site row table) site) = insert (row_key row) (row_key ` set (site_rows table site))"
proof -
  have "row_key (if row_key r = row_key row then r\<lparr>nu_Upload := a, nu_Download := b\<rparr> else r) = row_key r" for r a b
    by (simp add: row_key_def)
  note keep = this
  show ?thesis
  proof (cases "row_key row \<in> row_key ` set (site_rows table site)")
    case True
    then show ?thesis by (simp only: put_row_site_rows if_True set_map image_image keep) (simp add: insert_absorb)
  next
    case False
    then show ?thesis by (simp add: put_row_site_rows)
  qed
qed

lemma put_rows_keys:
  "row_key ` set (site_rows (foldl (\<lambda>t row. put_row site row t) table rows) site) = row_key ` set rows \<union> row_key ` set (site_rows table site)"
  by (induction rows arbitrary: table) (auto simp: put_row_keys)

text \<open>Storing the rows of an honest subsite: between what was stored and what the subsite has.\<close>

definition rows_between :: "NodeUsage list \<Rightarrow> NodeUsage list \<Rightarrow> NodeUsage list \<Rightarrow> bool" where
  "rows_between stored rows all \<longleftrightarrow> rows_le stored rows \<and> rows_le rows all"

lemma put_row_keeps:
  assumes ok: "rows_ok rate_of (site_rows table site)" "rows_ok rate_of all" and le: "rows_le (site_rows table site) all"
    and row: "row \<in> set all"
  shows "rows_ok rate_of (site_rows (put_row site row table) site)" (is ?A)
    "rows_le (site_rows table site) (site_rows (put_row site row table) site)" (is ?B)
    "rows_le (site_rows (put_row site row table) site) all" (is ?C)
    "\<And>l. level_at l (site_rows (put_row site row table) site) (row_key row) = row_level l row"
    "\<And>l k. k \<noteq> row_key row \<Longrightarrow> level_at l (site_rows (put_row site row table) site) k = level_at l (site_rows table site) k"
proof -
  define stored where "stored = site_rows table site"
  define upd where "upd = (\<lambda>r. if row_key r = row_key row then r\<lparr>nu_Upload := nu_Upload row, nu_Download := nu_Download row\<rparr> else r)"
  have new: "site_rows (put_row site row table) site =
      (if row_key row \<in> row_key ` set stored then map upd stored else stored @ [row])"
    by (simp add: put_row_site_rows stored_def upd_def)
  have key: "row_key (upd r) = row_key r" for r by (simp add: upd_def row_key_def)
  have rowok: "nu_RateMilli row = rate_of (nu_NodeID row) (nu_RateRevision row) \<and> valid_rate (nu_RateMilli row) \<and> 0 \<le> nu_Upload row \<and> 0 \<le> nu_Download row"
    using ok(2) row unfolding rows_ok_def by blast
  have rate: "nu_RateMilli r = nu_RateMilli row" if "r \<in> set stored" "row_key r = row_key row" for r
    using that ok(1) rowok by (simp add: rows_ok_def stored_def row_key_def)
  have below: "nu_Upload r \<le> nu_Upload row \<and> nu_Download r \<le> nu_Download row" if "r \<in> set stored" "row_key r = row_key row" for r
  proof -
    have r: "r \<in> set stored" by (rule that(1))
    obtain r' where "r' \<in> set all" "row_key r' = row_key r" "nu_Upload r \<le> nu_Upload r'" "nu_Download r \<le> nu_Download r'"
      by (rule rows_leE [OF le [folded stored_def] r])
    moreover from this have "r' = row" using ok(2) row that(2) by (intro row_unique [of all]) (simp_all add: rows_ok_def)
    ultimately show ?thesis by simp
  qed
  have upd_ok: "nu_RateMilli (upd r) = rate_of (nu_NodeID (upd r)) (nu_RateRevision (upd r)) \<and> valid_rate (nu_RateMilli (upd r)) \<and>
      0 \<le> nu_Upload (upd r) \<and> 0 \<le> nu_Download (upd r)" if "r \<in> set stored" for r
  proof -
    have r: "nu_RateMilli r = rate_of (nu_NodeID r) (nu_RateRevision r) \<and> valid_rate (nu_RateMilli r) \<and> 0 \<le> nu_Upload r \<and> 0 \<le> nu_Download r"
      using ok(1) that unfolding rows_ok_def stored_def by blast
    show ?thesis
    proof (cases "row_key r = row_key row")
      case True
      have "nu_NodeID (upd r) = nu_NodeID r" "nu_RateRevision (upd r) = nu_RateRevision r" "nu_RateMilli (upd r) = nu_RateMilli r"
        "nu_Upload (upd r) = nu_Upload row" "nu_Download (upd r) = nu_Download row" using True by (simp_all add: upd_def)
      with r rowok show ?thesis by metis
    next
      case False
      then have "upd r = r" by (simp add: upd_def)
      with r show ?thesis by metis
    qed
  qed
  have dist: "distinct (map row_key stored)" using ok(1) by (simp add: rows_ok_def stored_def)
  have "distinct (map row_key (site_rows (put_row site row table) site))"
    using dist by (simp add: new key o_def)
  moreover have "nu_RateMilli r = rate_of (nu_NodeID r) (nu_RateRevision r) \<and> valid_rate (nu_RateMilli r) \<and> 0 \<le> nu_Upload r \<and> 0 \<le> nu_Download r"
    if "r \<in> set (site_rows (put_row site row table) site)" for r
  proof -
    from that consider "r = row" | r0 where "r0 \<in> set stored" "r = upd r0" | "r \<in> set stored"
      by (auto simp: new split: if_splits)
    then show ?thesis
    proof cases
      case 1
      with rowok show ?thesis by metis
    next
      case 2
      with upd_ok [of r0] show ?thesis by metis
    next
      case 3
      with ok(1) show ?thesis unfolding rows_ok_def stored_def by metis
    qed
  qed
  ultimately show ?A unfolding rows_ok_def by blast
  show ?B
    unfolding rows_le_def stored_def [symmetric]
  proof
    fix r assume r: "r \<in> set stored"
    show "\<exists>r' \<in> set (site_rows (put_row site row table) site). row_key r' = row_key r \<and> nu_RateMilli r' = nu_RateMilli r \<and>
        nu_Upload r \<le> nu_Upload r' \<and> nu_Download r \<le> nu_Download r'"
    proof (cases "row_key row \<in> row_key ` set stored")
      case True
      have "nu_RateMilli (upd r) = nu_RateMilli r" "nu_Upload r \<le> nu_Upload (upd r)" "nu_Download r \<le> nu_Download (upd r)"
        using below [OF r] by (auto simp: upd_def)
      with True r key show ?thesis by (intro bexI [of _ "upd r"]) (simp_all add: new)
    next
      case False
      with r show ?thesis by (intro bexI [of _ r]) (simp_all add: new)
    qed
  qed
  show ?C
    unfolding rows_le_def
  proof
    fix r assume "r \<in> set (site_rows (put_row site row table) site)"
    then consider (row) "r = row" | (old) r0 where "r0 \<in> set stored" "r = upd r0" "row_key r0 = row_key row" | (same) "r \<in> set stored"
      by (auto simp: new upd_def split: if_splits)
    then show "\<exists>r' \<in> set all. row_key r' = row_key r \<and> nu_RateMilli r' = nu_RateMilli r \<and> nu_Upload r \<le> nu_Upload r' \<and> nu_Download r \<le> nu_Download r'"
    proof cases
      case row
      with \<open>row \<in> set all\<close> show ?thesis by blast
    next
      case old
      then have "row_key row = row_key r \<and> nu_RateMilli row = nu_RateMilli r \<and> nu_Upload r \<le> nu_Upload row \<and> nu_Download r \<le> nu_Download row"
        using rate [OF old(1,3)] key [of r0] by (simp add: upd_def)
      with \<open>row \<in> set all\<close> show ?thesis by blast
    next
      case same
      then show ?thesis by (rule rows_leE [OF le [folded stored_def]]) blast
    qed
  qed
  show "level_at l (site_rows (put_row site row table) site) (row_key row) = row_level l row" for l
  proof (cases "row_key row \<in> row_key ` set stored")
    case True
    then obtain r where r: "r \<in> set stored" "row_key r = row_key row" by auto
    have "level_at l (map upd stored) (row_key (upd r)) = row_level l (upd r)"
      using r dist by (intro level_at_row) (simp_all add: key o_def)
    with True r rate [OF r] show ?thesis by (simp add: new key) (simp add: upd_def row_level_def)
  next
    case False
    have "find (\<lambda>r. row_key r = row_key row) (rs @ [row]) = Some row" if "row_key row \<notin> row_key ` set rs" for rs
      using that by (induction rs) (simp_all add: eq_commute)
    with False show ?thesis by (simp add: new level_at_def)
  qed
  show "level_at l (site_rows (put_row site row table) site) k = level_at l (site_rows table site) k" if k: "k \<noteq> row_key row" for l k
  proof -
    have "find (\<lambda>r. row_key r = k) (map upd rs) = find (\<lambda>r. row_key r = k) rs" for rs
    proof (induction rs)
      case (Cons a rs)
      show ?case
      proof (cases "row_key a = k")
        case True
        then have "upd a = a" using k by (simp add: upd_def)
        with True show ?thesis by simp
      next
        case False
        with Cons show ?thesis by (simp add: key)
      qed
    qed simp
    moreover have "find (\<lambda>r. row_key r = k) (rs @ [row]) = find (\<lambda>r. row_key r = k) rs" for rs
      using k by (induction rs) auto
    ultimately show ?thesis by (simp add: level_at_def new stored_def [symmetric])
  qed
qed

lemma put_rows_keep:
  assumes "rows_ok rate_of (site_rows table site)" "rows_ok rate_of all" "rows_le (site_rows table site) all"
    and "set rows \<subseteq> set all"
  shows "rows_ok rate_of (site_rows (foldl (\<lambda>t row. put_row site row t) table rows) site) \<and>
    rows_le (site_rows table site) (site_rows (foldl (\<lambda>t row. put_row site row t) table rows) site) \<and>
    rows_le (site_rows (foldl (\<lambda>t row. put_row site row t) table rows) site) all \<and>
    (\<forall>l. \<forall>r \<in> set all. r \<in> set rows \<or> level_at l (site_rows table site) (row_key r) = row_level l r \<longrightarrow>
       level_at l (site_rows (foldl (\<lambda>t row. put_row site row t) table rows) site) (row_key r) = row_level l r)"
  using assms
proof (induction rows arbitrary: table)
  case Nil
  then show ?case by simp
next
  case (Cons row rows)
  have row: "row \<in> set all" using Cons.prems(4) by simp
  note k = put_row_keeps [OF Cons.prems(1,2,3) row]
  have IH: "rows_ok rate_of (site_rows (foldl (\<lambda>t row. put_row site row t) (put_row site row table) rows) site) \<and>
    rows_le (site_rows (put_row site row table) site) (site_rows (foldl (\<lambda>t row. put_row site row t) (put_row site row table) rows) site) \<and>
    rows_le (site_rows (foldl (\<lambda>t row. put_row site row t) (put_row site row table) rows) site) all \<and>
    (\<forall>l. \<forall>r \<in> set all. r \<in> set rows \<or> level_at l (site_rows (put_row site row table) site) (row_key r) = row_level l r \<longrightarrow>
       level_at l (site_rows (foldl (\<lambda>t row. put_row site row t) (put_row site row table) rows) site) (row_key r) = row_level l r)"
    using Cons.prems(4) by (intro Cons.IH k(1) Cons.prems(2) k(3)) simp
  have "level_at l (site_rows (put_row site row table) site) (row_key r) = row_level l r"
    if "r \<in> set all" "r = row \<or> level_at l (site_rows table site) (row_key r) = row_level l r" for l r
  proof (cases "row_key r = row_key row")
    case True
    then have "r = row" using that(1) row Cons.prems(2) by (intro row_unique [of all]) (simp_all add: rows_ok_def)
    with k(4) show ?thesis by simp
  next
    case False
    then show ?thesis using k(5) that(2) by auto
  qed
  with IH k(2) show ?case by (auto intro: rows_le_trans)
qed


lemma usage_level_eq:
  assumes "distinct (map row_key a)" "distinct (map row_key b)" "row_key ` set b \<subseteq> row_key ` set a"
    "\<And>r. r \<in> set a \<Longrightarrow> level_at l b (row_key r) = row_level l r"
  shows "usage_level l b i = usage_level l a i"
  using pending_level [OF assms(1,2,3), of "\<lambda>_. False" l i] assms(4) by simp

lemma rows_le_keys: "rows_le a b \<Longrightarrow> row_key ` set a \<subseteq> row_key ` set b"
  by (auto elim!: rows_leE) (metis image_eqI rows_leE)

lemma verify_user_Inr:
  assumes "verify_user inb e st = Inr st'"
  shows "\<exists>base s v'. map_of (bh_UsageBaseline inb) (fst e) = Some base \<and> \<not> baseline_invalid base \<and>
    check_baseline (snd st) (fst e) (site_usage (snd st) (fst e)) base = Inr (s, v') \<and> snd st' = v'"
proof (cases "map_of (bh_UsageBaseline inb) (fst e)")
  case None
  with assms show ?thesis by (simp add: verify_user_def Let_def split: if_splits)
next
  case (Some base)
  then have valid: "\<not> baseline_invalid base" using assms by (simp add: verify_user_def Let_def split: if_splits)
  show ?thesis
  proof (cases "check_baseline (snd st) (fst e) (site_usage (snd st) (fst e)) base")
    case (Inl x)
    with assms Some valid show ?thesis by (simp add: verify_user_def Let_def split: if_splits)
  next
    case (Inr p)
    obtain s v' where "p = (s, v')" by fastforce
    with assms Some valid Inr show ?thesis
      by (auto simp: verify_user_def Let_def split: if_splits)
  qed
qed

lemma only_baselines_verified:
  assumes "only_baselines v v1" "verifyBusinessMeter v inb table = Inr v1" "\<not> bh_Protocol inb < 2"
    and "i \<in> fst ` set (bh_Usage inb)" "distinct (map fst (bh_Usage inb))"
  shows "\<exists>base. map_of (bh_UsageBaseline inb) i = Some base \<and> \<not> baseline_invalid base \<and>
    (\<exists>b. map_of (bs_UsageBaseline v1) i = Some b \<and> bu_Upload b = bu_Upload base \<and> bu_Download b = bu_Download base)"
proof -
  define registered where "registered = (\<lambda>(st :: (int \<times> meter_sum) list \<times> BusinessSite) j. \<exists>base. map_of (bh_UsageBaseline inb) j = Some base \<and>
    \<not> baseline_invalid base \<and> (\<exists>b. map_of (bs_UsageBaseline (snd st)) j = Some b \<and> bu_Upload b = bu_Upload base \<and> bu_Download b = bu_Download base))"
  have step: "registered st' (fst e) \<and> (\<forall>j. registered st j \<longrightarrow> registered st' j)" if "verify_user inb e st = Inr st'" for e st st'
  proof -
    note step = verify_user_Inr [OF that]
    obtain base s v' where base: "map_of (bh_UsageBaseline inb) (fst e) = Some base" "\<not> baseline_invalid base"
      and check: "check_baseline (snd st) (fst e) (site_usage (snd st) (fst e)) base = Inr (s, v')" and "snd st' = v'"
      using step by blast
    moreover have "(\<exists>b. map_of (bs_UsageBaseline v') (fst e) = Some b \<and> bu_Upload b = bu_Upload base \<and> bu_Download b = bu_Download base) \<and>
        (\<forall>j. j \<noteq> fst e \<longrightarrow> map_of (bs_UsageBaseline v') j = map_of (bs_UsageBaseline (snd st)) j)"
      using check by (auto simp: check_baseline_def split: option.splits if_splits)
    ultimately have now: "registered st' (fst e)" and other: "\<And>j. j \<noteq> fst e \<Longrightarrow> registered st j \<Longrightarrow> registered st' j"
      by (auto simp: registered_def)
    have "registered st' j" if "registered st j" for j
      using now other [of j] that by (cases "j = fst e") simp_all
    with now show ?thesis by blast
  qed
  have all: "\<forall>e \<in> set es. registered st' (fst e)" if "fold_res (verify_user inb) es st = Inr st'" for es st st'
    using that
  proof (induction es arbitrary: st)
    case (Cons e es)
    then obtain st1 where e: "verify_user inb e st = Inr st1" and es: "fold_res (verify_user inb) es st1 = Inr st'"
      by (auto simp: res_simps)
    have "registered st1 (fst e)" using step [OF e] by blast
    then have "registered st' (fst e)"
      by (rule fold_res_invariant [OF es, of "\<lambda>st. registered st (fst e)"]) (use step in blast)
    with Cons.IH [OF es] show ?case by simp
  qed simp
  from assms(2,3) obtain sums where "fold_res (verify_user inb) (bh_Usage inb) ([], v) = Inr (sums, v1)"
    by (auto simp: verifyBusinessMeter_def res_simps split: if_splits)
  from all [OF this] assms(4) show ?thesis by (auto simp: registered_def)
qed

lemma acks_stored_mono:
  assumes "acks_stored acks stored" "rows_le stored stored'"
  shows "acks_stored acks stored'"
  unfolding acks_stored_def
proof (intro allI impI)
  fix k a b assume "map_of acks k = Some (a, b)"
  with assms(1) obtain r where r: "r \<in> set stored" "row_key r = k" "a \<le> nu_Upload r" "b \<le> nu_Download r"
    unfolding acks_stored_def by blast
  obtain r' where "r' \<in> set stored'" "row_key r' = row_key r" "nu_Upload r \<le> nu_Upload r'" "nu_Download r \<le> nu_Download r'"
    by (rule rows_leE [OF assms(2) r(1)])
  with r show "\<exists>r \<in> set stored'. row_key r = k \<and> a \<le> nu_Upload r \<and> b \<le> nu_Download r"
    by (intro bexI [of _ r']) simp_all
qed

theorem accepted_in_sync:
  assumes sync: "in_sync rate_of A v (rp_node_usage R)"
    and acc: "acceptBusinessUsage now history (agent_report applied A) v R = Inr (v', R')"
  shows "in_sync rate_of A v' (rp_node_usage R') \<and> (\<forall>r \<in> set (pendingNodeUsage A). \<exists>e \<in> set (site_rows (rp_node_usage R') (bs_ID v')).
    row_key e = row_key r \<and> nu_Upload r \<le> nu_Upload e \<and> nu_Download r \<le> nu_Download e)"
proof -
  define inb where "inb = agent_report applied A"
  define stored where "stored = site_rows (rp_node_usage R) (bs_ID v)"
  define stored' where "stored' = site_rows (rp_node_usage R') (bs_ID v')"
  have inb: "bh_Usage inb = map (\<lambda>(i, u). (i, businessUsageOf u)) (reported_users A)" "bh_NodeUsage inb = pendingNodeUsage A"
    "bh_UsageBaseline inb = map (\<lambda>(i, u). (i, baseline_of u)) (reported_users A)" "\<not> bh_Protocol inb < 2"
    by (simp_all add: inb_def agent_report_def)
  have dist: "distinct (map fst (ms_users A))" using sync by (simp add: in_sync_def)
  then have distr: "distinct (map fst (reported_users A))" by (simp add: reported_users_def distinct_map_filter)
  then have distu: "distinct (map fst (bh_Usage inb))" by (simp add: inb(1) o_def case_prod_beta)
  obtain v1 where v1: "verifyBusinessMeter (refreshMonthlyBudget now v) inb (rp_node_usage R) = Inr v1"
      "only_baselines (refreshMonthlyBudget now v) v1" and v': "bs_ID v' = bs_ID v" "bs_UsageBaseline v' = bs_UsageBaseline v1"
      "\<And>i. map_of (bs_Usage v') i = (case map_of (bh_Usage inb) i of Some next \<Rightarrow> Some next | None \<Rightarrow> map_of (bs_Usage v) i)"
    and R': "rp_node_usage R' = foldl (\<lambda>t row. put_row (bs_ID v) row t) (rp_node_usage R) (bh_NodeUsage inb)"
    by (rule accept_Inr [OF acc [folded inb_def] distu]) blast
  have old: "rows_ok rate_of stored" "rows_ok rate_of (ms_usage A)" "rows_le stored (ms_usage A)" "acks_stored (ms_acks A) stored"
    using sync by (simp_all add: in_sync_def stored_def)
  have sub: "set (pendingNodeUsage A) \<subseteq> set (ms_usage A)" by (simp add: pendingNodeUsage_def)
  have stored': "stored' = site_rows (foldl (\<lambda>t row. put_row (bs_ID v) row t) (rp_node_usage R) (pendingNodeUsage A)) (bs_ID v)"
    by (simp add: stored'_def R' v' inb)
  have rows: "rows_ok rate_of stored'" "rows_le stored stored'" "rows_le stored' (ms_usage A)"
    and levels: "\<And>l r. r \<in> set (ms_usage A) \<Longrightarrow> r \<in> set (pendingNodeUsage A) \<or> level_at l stored (row_key r) = row_level l r \<Longrightarrow>
      level_at l stored' (row_key r) = row_level l r"
    using put_rows_keep [OF old(1) [unfolded stored_def] old(2) old(3) [unfolded stored_def] sub]
    unfolding stored' stored_def by blast+
  have all_levels: "level_at l stored' (row_key r) = row_level l r" if "r \<in> set (ms_usage A)" for l r
    using levels [OF that, of l] settled_row [OF sync that, of l] that by (auto simp: pendingNodeUsage_def stored_def)
  have same: "usage_level l stored' i = usage_level l (ms_usage A) i" for l i
    using rows(1) old(2) rows_le_keys [OF rows(3)] all_levels by (intro usage_level_eq) (simp_all add: rows_ok_def)
  have user: "user_synced v' i u \<and> (\<forall>l. user_level l u - sum_level l (first_sum v' i u)
      = usage_level l (ms_usage A) i - usage_level l stored' i)"
    if u: "map_of (ms_users A) i = Some u" "u_Role u = ''user''" for i u
  proof -
    have s: "user_synced v i u" using sync u by (simp add: in_sync_def)
    obtain m where m: "u_Meter u = Some m" using s unfolding user_synced_def by blast
    have range: "user_in_range u" using s by (simp add: user_synced_def)
    have "(i, u) \<in> set (reported_users A)" using u by (auto simp: reported_users_def dest: map_of_SomeD)
    then have ru: "map_of (reported_users A) i = Some u" using distr by simp
    have entry: "map_of (bh_Usage inb) i = Some (businessUsageOf u)" "map_of (bh_UsageBaseline inb) i = Some (baseline_of u)"
      using ru by (simp_all add: inb map_of_map)
    have usage: "site_usage v' i = businessUsageOf u" by (simp add: site_usage_def map_get_def v'(3) entry)
    have "i \<in> fst ` set (bh_Usage inb)" using entry(1) by (metis map_of_SomeD fst_conv image_eqI)
    from only_baselines_verified [OF v1(2,1) inb(4) this distu] entry(2)
    obtain b where b: "map_of (bs_UsageBaseline v1) i = Some b" "bu_Upload b = bu_Upload (baseline_of u)"
      "bu_Download b = bu_Download (baseline_of u)" "\<not> baseline_invalid (baseline_of u)" by auto
    have opened: "first_sum v' i u = \<lparr>sm_up = u_Upload u, sm_down = u_Download u, sm_qup = qm_Upload m,
        sm_qdown = qm_Download m, sm_ru = qm_UploadRemainder m, sm_rd = qm_DownloadRemainder m\<rparr>"
      using m by (simp add: first_sum_def opening_sum_def start_sum_def usage)
        (simp add: businessUsageOf_def Let_def)
    have "sum_ok (first_sum v' i u)"
      using range m by (simp add: opened sum_ok_def user_in_range_def meter_in_range_def)
    moreover have "baseline_agrees v' i (baseline_of u)" using b by (simp add: baseline_agrees_def v')
    ultimately have synced: "user_synced v' i u"
      using range m by (simp add: user_synced_def usage businessUsageOf_def Let_def)
    have raw: "u_VLESSTraffic u + u_HY2Traffic u = u_Upload u + u_Download u"
    proof -
      have "user_level l u - sum_level l (first_sum v i u) = usage_level l (ms_usage A) i - usage_level l stored i" for l
        using sync u by (simp add: in_sync_def stored_def)
      from this [of Protocols] this [of RawUp] this [of RawDown]
      have "u_VLESSTraffic u + u_HY2Traffic u - (u_Upload u + u_Download u)
        = usage_level Protocols (ms_usage A) i - usage_level RawUp (ms_usage A) i - usage_level RawDown (ms_usage A) i
          - (usage_level Protocols stored i - usage_level RawUp stored i - usage_level RawDown stored i)" by simp
      moreover have "usage_level Protocols rows i = usage_level RawUp rows i + usage_level RawDown rows i" for rows
        by (induction rows) (simp_all add: usage_level_def row_level_def)
      ultimately show ?thesis by simp
    qed
    have "user_level l u = sum_level l (first_sum v' i u)" for l
      using m raw by (cases l) (simp_all add: opened)
    with synced show ?thesis by (simp add: same)
  qed
  have "acks_stored (ms_acks A) stored'"
    by (rule acks_stored_mono [OF old(4) rows(2)])
  with user rows old dist have "in_sync rate_of A v' (rp_node_usage R')"
    by (simp add: in_sync_def stored'_def)
  moreover have "\<exists>e \<in> set stored'. row_key e = row_key r \<and> nu_Upload r \<le> nu_Upload e \<and> nu_Download r \<le> nu_Download e"
    if "r \<in> set (pendingNodeUsage A)" for r
  proof -
    have r: "r \<in> set (ms_usage A)" using that sub by blast
    have "row_key r \<in> row_key ` set stored'" using that by (simp add: stored' put_rows_keys)
    then obtain e where e: "e \<in> set stored'" "row_key e = row_key r" by auto
    have "level_at l stored' (row_key r) = row_level l e" for l
      using level_at_row [of stored' e l] e rows(1) by (simp add: rows_ok_def)
    with all_levels [OF r] have "row_level l e = row_level l r" for l by simp
    from this [of RawUp] this [of RawDown] e show ?thesis by (auto simp: row_level_def)
  qed
  ultimately show ?thesis by (simp add: stored'_def)
qed

end
