(* ===== verification/Subsite_Accounts.thy ===== *)
theory Subsite_Accounts
  imports Usage_Sync
begin

text \<open>
  How a subsite takes over the accounts of a snapshot (\<open>applyBusinessSnapshot\<close> and
  \<open>replaceBusinessState\<close> in \<open>backend/internal/controlplane/business_agent.go\<close>): the policy of every
  account comes from the controller, its counters stay, local owners stay, and accounts that left the
  snapshot are retired under a reserved name. The last section shows when the agreement of
  \<open>Usage_Sync\<close> survives: an account may change its quota period once its traffic is reported.
\<close>

section \<open>Names and identities\<close>

definition is_alpha :: "char \<Rightarrow> bool" where
  "is_alpha c \<longleftrightarrow> (let n = of_char c :: nat in 65 \<le> n \<and> n \<le> 90 \<or> 97 \<le> n \<and> n \<le> 122)"

definition is_decimal :: "char \<Rightarrow> bool" where
  "is_decimal c \<longleftrightarrow> (let n = of_char c :: nat in 48 \<le> n \<and> n \<le> 57)"

definition is_hex :: "char \<Rightarrow> bool" where
  "is_hex c \<longleftrightarrow> (let n = of_char c :: nat in 48 \<le> n \<and> n \<le> 57 \<or> 65 \<le> n \<and> n \<le> 70 \<or> 97 \<le> n \<and> n \<le> 102)"

text \<open>\<open>^[a-zA-Z0-9][a-zA-Z0-9_.-]{2,31}$\<close>.\<close>

definition usernamePattern :: "string \<Rightarrow> bool" where
  "usernamePattern s \<longleftrightarrow> 3 \<le> length s \<and> length s \<le> 32 \<and> (is_alpha (s ! 0) \<or> is_decimal (s ! 0)) \<and>
     list_all (\<lambda>c. is_alpha c \<or> is_decimal c \<or> c \<in> set ''_.-'') (drop 1 s)"

text \<open>Groups of 8, 4, 4, 4 and 12 hexadecimal digits with dashes between them.\<close>

definition uuidPattern :: "string \<Rightarrow> bool" where
  "uuidPattern s \<longleftrightarrow> length s = 36 \<and>
     list_all (\<lambda>(i, c). if i \<in> {8, 13, 18, 23} then c = CHR ''-'' else is_hex c) (zip [0..<36] s)"

definition businessManagedUsername :: "(string \<Rightarrow> string) \<Rightarrow> string \<Rightarrow> int \<Rightarrow> string list \<Rightarrow> string" where
  "businessManagedUsername digest name i used =
    (let suffix = ''-m'' @ itoa i;
         alias = (if length name + length suffix > 32 then take (32 - length suffix) name else name) @ suffix
     in if length alias \<ge> 3 \<and> usernamePattern alias \<and> alias \<notin> set used then alias
        else ''m'' @ itoa i @ ''-'' @ take 8 (digest name))"

definition retired_name :: "int \<Rightarrow> string" where
  "retired_name i = ''~retired:'' @ businessUsageKey i"

section \<open>The accounts of a snapshot\<close>

datatype adopt_error = InvalidAccount | DuplicateName | InvalidIdentity | UsernameTaken

definition invalid_account :: "int list \<Rightarrow> User \<Rightarrow> Credentials \<Rightarrow> bool" where
  "invalid_account seen u c \<longleftrightarrow> u_ID u \<le> 0 \<or> u_ID u \<in> set seen \<or> \<not> usernamePattern (u_Username u) \<or> u_Role u \<noteq> ''user'' \<or>
     u_Quota u < 0 \<or> u_Quota u > CounterLimit \<or> length (cr_HY2 c) \<noteq> 43"

definition merge_meter :: "QuotaMeter option \<Rightarrow> QuotaMeter \<Rightarrow> QuotaMeter" where
  "merge_meter snapshot m0 =
    (let m = (case snapshot of None \<Rightarrow> m0
              | Some s \<Rightarrow> (let m1 = (if qm_PeriodID m0 \<noteq> qm_PeriodID s
                                then m0\<lparr>qm_UploadRemainder := 0, qm_DownloadRemainder := 0\<rparr> else m0)
                  in m1\<lparr>qm_PeriodID := qm_PeriodID s, qm_Start := qm_Start s, qm_End := qm_End s, qm_PendingReset := qm_PendingReset s\<rparr>))
     in m\<lparr>qm_BaseUpload := 0, qm_BaseDownload := 0\<rparr>)"

text \<open>The body of the loop over the stored accounts with the identifier of the received one.\<close>

definition merge_old :: "int \<Rightarrow> User \<Rightarrow> Record \<Rightarrow> Record \<Rightarrow> Record" where
  "merge_old now u old r =
    (let r1 = r\<lparr>u_Upload := u_Upload old, u_Download := u_Download old, u_VLESSTraffic := u_VLESSTraffic old,
               u_HY2Traffic := u_HY2Traffic old\<rparr>;
         r2 = (case u_Meter old of None \<Rightarrow> r1 | Some m \<Rightarrow> r1\<lparr>u_Meter := Some (merge_meter (u_Meter u) m)\<rparr>);
         generation = max (cr_HYGeneration (r_Credentials r2)) (cr_HYGeneration (r_Credentials old));
         generation' = (if Active now old \<noteq> Active now r2 \<or> u_HY2 old \<noteq> u_HY2 r2 then Suc generation else generation)
     in r2\<lparr>r_Credentials := (r_Credentials r2)\<lparr>cr_HYGeneration := generation'\<rparr>\<rparr>)"

definition received_record :: "User \<Rightarrow> Credentials \<Rightarrow> Record" where
  "received_record u c =
    User.extend (u\<lparr>u_Upload := 0, u_Download := 0, u_VLESSTraffic := 0, u_HY2Traffic := 0\<rparr>)
      (Record.fields c ''!'' False [])"

record adopt_env =
  ad_now :: int
  ad_digest :: "string \<Rightarrow> string"
  ad_nodes :: "Node list"

definition local_names :: "Record list \<Rightarrow> string list" where
  "local_names old = map u_Username (filter (\<lambda>r. u_Role r = ''owner'') old)"

definition adopted_name :: "adopt_env \<Rightarrow> Record list \<Rightarrow> string list \<Rightarrow> User \<Rightarrow> string" where
  "adopted_name env old names u =
    (if u_Username u \<in> set (local_names old) then businessManagedUsername (ad_digest env) (u_Username u) (u_ID u) names
     else u_Username u)"

definition adopted_record :: "adopt_env \<Rightarrow> Record list \<Rightarrow> User \<Rightarrow> Credentials \<Rightarrow> Record" where
  "adopted_record env old u c =
    foldl (\<lambda>r x. if u_ID x = u_ID u then merge_old (ad_now env) u x r else r) (received_record u c) old"

definition adopt_account ::
  "adopt_env \<Rightarrow> Record list \<Rightarrow> User \<times> Credentials \<Rightarrow> Record list \<times> int list \<times> string list \<Rightarrow>
     adopt_error + (Record list \<times> int list \<times> string list)"
where
  "adopt_account env old received st =
    (let (records, seen, names) = st; (u0, c) = received in
     if invalid_account seen u0 c then Inl InvalidAccount
     else
       let u = u0\<lparr>u_Username := adopted_name env old names u0\<rparr> in
       if u_Username u \<in> set names then Inl DuplicateName
       else
         let r = adopted_record env old u c in
         if list_ex (\<lambda>n. nd_Protocol n = ''vless'' \<and> \<not> uuidPattern (map_get [] (cr_VLESS (r_Credentials r)) (nd_ID n))) (ad_nodes env)
         then Inl InvalidIdentity
         else Inr (records @ [r], u_ID u # seen, u_Username u # names))"

definition retire :: "Record \<Rightarrow> Record" where
  "retire r = r\<lparr>u_Enabled := False, u_Username := retired_name (u_ID r)\<rparr>"

definition adopt_accounts :: "adopt_env \<Rightarrow> (User \<times> Credentials) list \<Rightarrow> Record list \<Rightarrow> adopt_error + Record list" where
  "adopt_accounts env accounts old =
    bind_res (fold_res (adopt_account env old) accounts ([], [], [])) (\<lambda>(records, seen, names).
    let owners = filter (\<lambda>r. u_Role r = ''owner'') old; seen' = seen @ map u_ID owners
    in Inr (records @ owners @ map retire (filter (\<lambda>r. u_ID r \<notin> set seen') old)))"

section \<open>Replacing the table\<close>

definition retired :: "Record \<Rightarrow> bool" where
  "retired r \<longleftrightarrow> \<not> u_Enabled r \<and> has_prefix (u_Username r) ''~retired:''"

definition rename_row :: "Record \<Rightarrow> Record list \<Rightarrow> adopt_error + Record list" where
  "rename_row r rows =
    (if list_ex (\<lambda>x. u_ID x = u_ID r) rows \<and> list_ex (\<lambda>x. u_ID x \<noteq> u_ID r \<and> u_Username x = u_Username r) rows
     then Inl UsernameTaken
     else Inr (map (\<lambda>x. if u_ID x = u_ID r then x\<lparr>u_Username := u_Username r\<rparr> else x) rows))"

text \<open>
  The upsert of one account; names are unique, passwords of managed accounts are never stored. The hash of the
  random access token, unique as well, is left out.
\<close>

definition upsert_row :: "Record \<Rightarrow> Record list \<Rightarrow> adopt_error + Record list" where
  "upsert_row r0 rows =
    (let r = (if u_Role r0 = ''owner'' then r0 else r0\<lparr>r_Password := ''!''\<rparr>) in
     if list_ex (\<lambda>x. u_ID x \<noteq> u_ID r \<and> u_Username x = u_Username r) rows then Inl UsernameTaken
     else if list_ex (\<lambda>x. u_ID x = u_ID r) rows then Inr (map (\<lambda>x. if u_ID x = u_ID r then r else x) rows)
     else Inr (rows @ [r]))"

definition replaceBusinessState :: "Record list \<Rightarrow> Record list \<Rightarrow> adopt_error + Record list" where
  "replaceBusinessState records rows =
    bind_res (fold_res rename_row (filter retired records) (filter (\<lambda>r. u_ID r \<in> set (map u_ID records)) rows))
      (fold_res upsert_row records)"

section \<open>Rolling back\<close>

text \<open>A policy that cannot be applied is withdrawn; the counters sampled meanwhile are kept.\<close>

definition preserve_account :: "Record \<Rightarrow> Record \<Rightarrow> Record" where
  "preserve_account u old =
    (let r = old\<lparr>u_Upload := u_Upload u, u_Download := u_Download u, u_VLESSTraffic := u_VLESSTraffic u, u_HY2Traffic := u_HY2Traffic u\<rparr>
     in case u_Meter u of None \<Rightarrow> r
        | Some m \<Rightarrow>
            (case u_Meter old of Some m0 \<Rightarrow> if qm_PeriodID m0 \<noteq> qm_PeriodID m then r\<lparr>u_Enabled := False\<rparr> else r | None \<Rightarrow> r)
              \<lparr>u_Meter := Some m\<rparr>)"

definition preserveBusinessAccounting :: "Record list \<Rightarrow> Record list \<Rightarrow> Record list" where
  "preserveBusinessAccounting previous current =
    map (\<lambda>old. case find (\<lambda>u. u_ID u = u_ID old) current of None \<Rightarrow> old | Some u \<Rightarrow> preserve_account u old) previous
    @ map retire (filter (\<lambda>u. u_ID u \<notin> set (map u_ID previous)) current)"

section \<open>What the adoption keeps\<close>

definition account_of :: "Record list \<Rightarrow> int \<Rightarrow> Record option" where
  "account_of rows i = find (\<lambda>r. u_ID r = i) rows"

definition unique_ids :: "Record list \<Rightarrow> bool" where
  "unique_ids rows \<longleftrightarrow> distinct (map u_ID rows)"

lemma account_of_Nil [simp]: "account_of [] i = None"
  and account_of_Cons [simp]: "account_of (r # rows) i = (if u_ID r = i then Some r else account_of rows i)"
  by (simp_all add: account_of_def)

lemma account_of_append [simp]:
  "account_of (xs @ ys) i = (case account_of xs i of Some r \<Rightarrow> Some r | None \<Rightarrow> account_of ys i)"
  by (induction xs) simp_all

lemma account_of_None: "account_of rows i = None \<longleftrightarrow> i \<notin> u_ID ` set rows"
  by (induction rows) auto

lemma account_of_Some: "account_of rows i = Some r \<Longrightarrow> r \<in> set rows \<and> u_ID r = i"
  by (induction rows) (auto split: if_splits)

lemma account_of_unique: "unique_ids rows \<Longrightarrow> r \<in> set rows \<Longrightarrow> account_of rows (u_ID r) = Some r"
  by (induction rows) (auto simp: unique_ids_def)

lemma account_of_update:
  "(\<And>x. u_ID (f x) = u_ID x) \<Longrightarrow>
    account_of (map (\<lambda>x. if u_ID x = k then f x else x) rows) i
      = (if i = k then map_option f (account_of rows i) else account_of rows i)"
  by (induction rows) auto

definition same_counters :: "Record \<Rightarrow> Record \<Rightarrow> bool" where
  "same_counters r r' \<longleftrightarrow> u_Upload r' = u_Upload r \<and> u_Download r' = u_Download r \<and>
     u_VLESSTraffic r' = u_VLESSTraffic r \<and> u_HY2Traffic r' = u_HY2Traffic r \<and>
     (\<forall>m. u_Meter r = Some m \<longrightarrow> (\<exists>m'. u_Meter r' = Some m' \<and> qm_Upload m' = qm_Upload m \<and> qm_Download m' = qm_Download m \<and>
        qm_InitialUpload m' = qm_InitialUpload m \<and> qm_InitialDownload m' = qm_InitialDownload m \<and>
        (qm_UploadRemainder m' = qm_UploadRemainder m \<and> qm_DownloadRemainder m' = qm_DownloadRemainder m \<or>
         qm_PeriodID m' \<noteq> qm_PeriodID m \<and> qm_UploadRemainder m' = 0 \<and> qm_DownloadRemainder m' = 0)))"

lemma same_counters_refl [simp]: "same_counters r r"
  by (simp add: same_counters_def)

lemma received_record_simps [simp]:
  "u_ID (received_record u c) = u_ID u" "u_Role (received_record u c) = u_Role u"
  "u_Username (received_record u c) = u_Username u" "u_Entitlement (received_record u c) = u_Entitlement u"
  "u_Meter (received_record u c) = u_Meter u" "u_Upload (received_record u c) = 0" "u_Download (received_record u c) = 0"
  "u_VLESSTraffic (received_record u c) = 0" "u_HY2Traffic (received_record u c) = 0" "r_Password (received_record u c) = ''!''"
  by (simp_all add: received_record_def User.defs Record.defs)

lemma merge_old_simps [simp]:
  "u_ID (merge_old now u x r) = u_ID r" "u_Role (merge_old now u x r) = u_Role r"
  "u_Username (merge_old now u x r) = u_Username r" "u_Entitlement (merge_old now u x r) = u_Entitlement r"
  "u_Upload (merge_old now u x r) = u_Upload x" "u_Download (merge_old now u x r) = u_Download x"
  "u_VLESSTraffic (merge_old now u x r) = u_VLESSTraffic x" "u_HY2Traffic (merge_old now u x r) = u_HY2Traffic x"
  "r_Password (merge_old now u x r) = r_Password r"
  "u_Meter (merge_old now u x r) = (case u_Meter x of None \<Rightarrow> u_Meter r | Some m \<Rightarrow> Some (merge_meter (u_Meter u) m))"
  by (simp_all add: merge_old_def Let_def split: option.split)

lemma merge_meter_simps [simp]:
  "qm_Upload (merge_meter s m) = qm_Upload m" "qm_Download (merge_meter s m) = qm_Download m"
  "qm_InitialUpload (merge_meter s m) = qm_InitialUpload m" "qm_InitialDownload (merge_meter s m) = qm_InitialDownload m"
  by (simp_all add: merge_meter_def Let_def split: option.split)

lemma merge_old_counters: "same_counters x (merge_old now u x r)"
  by (auto simp: same_counters_def merge_meter_def Let_def split: option.split)

lemma adopted_record_eq:
  assumes "unique_ids old"
  shows "adopted_record env old u c = (case account_of old (u_ID u) of None \<Rightarrow> received_record u c
    | Some x \<Rightarrow> merge_old (ad_now env) u x (received_record u c))"
proof -
  have none: "foldl (\<lambda>r x. if u_ID x = u_ID u then merge_old (ad_now env) u x r else r) r rows = r"
    if "u_ID u \<notin> u_ID ` set rows" for rows r
    using that by (induction rows arbitrary: r) auto
  have "foldl (\<lambda>r x. if u_ID x = u_ID u then merge_old (ad_now env) u x r else r) r rows
      = (case account_of rows (u_ID u) of None \<Rightarrow> r | Some x \<Rightarrow> merge_old (ad_now env) u x r)"
    if "unique_ids rows" for rows r
    using that
  proof (induction rows arbitrary: r)
    case (Cons x rows)
    then have "u_ID x \<notin> u_ID ` set rows" and u: "unique_ids rows" by (auto simp: unique_ids_def)
    then show ?case using none [of rows] Cons.IH [OF u] by (auto split: option.split)
  qed simp
  with assms show ?thesis by (simp add: adopted_record_def)
qed

lemma adopted_record_simps [simp]:
  assumes "unique_ids old"
  shows "u_ID (adopted_record env old u c) = u_ID u" "u_Role (adopted_record env old u c) = u_Role u"
    "u_Username (adopted_record env old u c) = u_Username u" "u_Entitlement (adopted_record env old u c) = u_Entitlement u"
    "r_Password (adopted_record env old u c) = ''!''"
  using assms by (simp_all add: adopted_record_eq split: option.split)

text \<open>The records of the received accounts, with the names they end up with.\<close>

definition is_received :: "adopt_env \<Rightarrow> Record list \<Rightarrow> (User \<times> Credentials) list \<Rightarrow> Record \<Rightarrow> bool" where
  "is_received env old accounts r \<longleftrightarrow> (\<exists>u c name. (u, c) \<in> set accounts \<and> u_Role u = ''user'' \<and>
     r = adopted_record env old (u\<lparr>u_Username := name\<rparr>) c)"

lemma adopt_fold:
  assumes "fold_res (adopt_account env old) accounts st = Inr st'" "unique_ids old"
    and "snd (snd st) = rev (map u_Username (fst st))" "fst (snd st) = rev (map u_ID (fst st))" "unique_ids (fst st)"
  shows "\<exists>new. fst st' = fst st @ new \<and> map u_ID new = map (u_ID \<circ> fst) accounts \<and> unique_ids (fst st') \<and>
    fst (snd st') = rev (map u_ID (fst st')) \<and> snd (snd st') = rev (map u_Username (fst st')) \<and>
    (\<forall>r \<in> set new. is_received env old accounts r)"
  using assms
proof (induction accounts arbitrary: st)
  case Nil
  then show ?case by simp
next
  case (Cons e accounts)
  obtain u c where e: "e = (u, c)" by fastforce
  obtain records seen names where st: "st = (records, seen, names)" by (metis prod_cases3)
  from Cons.prems(1) obtain st1 where step: "adopt_account env old (u, c) st = Inr st1"
    and rest: "fold_res (adopt_account env old) accounts st1 = Inr st'" by (auto simp: e res_simps)
  define u1 where "u1 = u\<lparr>u_Username := adopted_name env old names u\<rparr>"
  define r where "r = adopted_record env old u1 c"
  from step have valid: "\<not> invalid_account seen u c" and st1: "st1 = (records @ [r], u_ID u1 # seen, u_Username u1 # names)"
    by (auto simp: adopt_account_def Let_def st u1_def r_def split: if_splits)
  have r: "u_ID r = u_ID u" "u_Username r = u_Username u1"
    using Cons.prems(2) by (simp_all add: r_def u1_def)
  have fresh: "u_ID u \<notin> set seen" "u_Role u = ''user''" using valid by (simp_all add: invalid_account_def)
  have "unique_ids (records @ [r])"
    using Cons.prems(4,5) fresh r by (auto simp: st unique_ids_def)
  then have "\<exists>new. fst st' = fst st1 @ new \<and> map u_ID new = map (u_ID \<circ> fst) accounts \<and> unique_ids (fst st') \<and>
    fst (snd st') = rev (map u_ID (fst st')) \<and> snd (snd st') = rev (map u_Username (fst st')) \<and>
    (\<forall>r \<in> set new. is_received env old accounts r)"
    using Cons.prems r by (intro Cons.IH [OF rest]) (simp_all add: st st1 u1_def)
  then obtain new where new: "fst st' = fst st1 @ new" "map u_ID new = map (u_ID \<circ> fst) accounts" "unique_ids (fst st')"
    "fst (snd st') = rev (map u_ID (fst st'))" "snd (snd st') = rev (map u_Username (fst st'))"
    and rec_: "\<And>s. s \<in> set new \<Longrightarrow> is_received env old accounts s" by blast
  have "is_received env old (e # accounts) r"
    using fresh unfolding is_received_def r_def u1_def e by auto
  moreover have "is_received env old (e # accounts) s" if "s \<in> set new" for s
    using rec_ [OF that] unfolding is_received_def by auto
  ultimately show ?case
    using new r by (intro exI [of _ "r # new"]) (simp add: st st1 e)
qed

text \<open>An identifier of a local owner is not one of the controller's.\<close>

definition owners_apart :: "(User \<times> Credentials) list \<Rightarrow> Record list \<Rightarrow> bool" where
  "owners_apart accounts old \<longleftrightarrow> (\<forall>r \<in> set old. u_Role r = ''owner'' \<longrightarrow> u_ID r \<notin> (u_ID \<circ> fst) ` set accounts)"

definition received_ids :: "(User \<times> Credentials) list \<Rightarrow> int list" where
  "received_ids accounts = map (u_ID \<circ> fst) accounts"

lemma adopt_accounts_Inr:
  assumes "adopt_accounts env accounts old = Inr records" "unique_ids old" "owners_apart accounts old"
  shows "unique_ids records"
    and "\<And>i. i \<in> set (received_ids accounts) \<Longrightarrow> \<exists>r. account_of records i = Some r \<and> is_received env old accounts r"
    and "\<And>i. i \<notin> set (received_ids accounts) \<Longrightarrow> account_of records i
      = map_option (\<lambda>r. if u_Role r = ''owner'' then r else retire r) (account_of old i)"
proof -
  obtain st where fold: "fold_res (adopt_account env old) accounts ([], [], []) = Inr st"
    using assms(1) by (auto simp: adopt_accounts_def res_simps)
  define new where "new = fst st"
  from adopt_fold [OF fold assms(2)] have new: "map u_ID new = received_ids accounts" "unique_ids new"
    "fst (snd st) = rev (map u_ID new)" and received: "\<And>r. r \<in> set new \<Longrightarrow> is_received env old accounts r"
    unfolding new_def received_ids_def by (simp_all add: unique_ids_def del: map_map) (metis)
  define owners where "owners = filter (\<lambda>r. u_Role r = ''owner'') old"
  define rest where "rest = filter (\<lambda>r. u_ID r \<notin> set (received_ids accounts) \<and> u_ID r \<notin> u_ID ` set owners) old"
  have records: "records = new @ owners @ map retire rest"
  proof -
    from fold assms(1) have "records = fst st @ owners @ map retire (filter (\<lambda>r. u_ID r \<notin> set (fst (snd st) @ map u_ID owners)) old)"
      by (cases st) (simp add: adopt_accounts_def Let_def owners_def)
    then show ?thesis by (simp add: new_def [symmetric] new(3) rest_def new(1) [symmetric] del: set_map) simp
  qed
  have old: "distinct (map u_ID old)" using assms(2) by (simp add: unique_ids_def)
  have apart: "u_ID r \<notin> set (received_ids accounts)" if "r \<in> set owners" for r
    using assms(3) that by (auto simp: owners_apart_def owners_def received_ids_def)
  have rid [simp]: "u_ID (retire r) = u_ID r" for r by (simp add: retire_def)
  have ids: "u_ID ` set new = set (received_ids accounts)" using new(1) by (metis set_map)
  have "distinct (map u_ID owners)" "distinct (map u_ID rest)"
    using old by (simp_all add: owners_def rest_def distinct_map_filter)
  moreover have "set (received_ids accounts) \<inter> u_ID ` set owners = {}" "set (received_ids accounts) \<inter> u_ID ` set rest = {}"
    using apart by (auto simp: rest_def)
  moreover have "u_ID ` set owners \<inter> u_ID ` set rest = {}" by (auto simp: rest_def image_iff)
  ultimately show "unique_ids records"
    using new(2) by (simp add: unique_ids_def records o_def ids Int_Un_distrib)
  show "\<exists>r. account_of records i = Some r \<and> is_received env old accounts r" if i: "i \<in> set (received_ids accounts)" for i
  proof -
    obtain r where r: "account_of new i = Some r" using i ids account_of_None [of new i] by (cases "account_of new i") auto
    then have "r \<in> set new" by (simp add: account_of_Some)
    with r received show ?thesis by (simp add: records)
  qed
  show "account_of records i = map_option (\<lambda>r. if u_Role r = ''owner'' then r else retire r) (account_of old i)"
    if i: "i \<notin> set (received_ids accounts)" for i
  proof -
    have n: "account_of new i = None" using i ids by (simp add: account_of_None)
    show ?thesis
    proof (cases "account_of old i")
      case None
      then have "i \<notin> u_ID ` set old" by (simp add: account_of_None)
      then have "account_of owners i = None" "account_of (map retire rest) i = None"
        by (auto simp: account_of_None owners_def rest_def)
      with None n show ?thesis by (simp add: records)
    next
      case (Some r)
      then have r: "r \<in> set old" "u_ID r = i" by (simp_all add: account_of_Some)
      show ?thesis
      proof (cases "u_Role r = ''owner''")
        case True
        then have "r \<in> set owners" using r by (simp add: owners_def)
        moreover have "unique_ids owners" using old by (simp add: unique_ids_def owners_def distinct_map_filter)
        ultimately have "account_of owners i = Some r" using account_of_unique r by metis
        with Some True n show ?thesis by (simp add: records)
      next
        case False
        have "i \<notin> u_ID ` set owners"
        proof
          assume "i \<in> u_ID ` set owners"
          then obtain s where s: "s \<in> set old" "u_ID s = i" "u_Role s = ''owner''" by (auto simp: owners_def)
          with account_of_unique [OF assms(2)] Some have "s = r" by fastforce
          with s False show False by simp
        qed
        then have o: "account_of owners i = None" and "r \<in> set rest" using r i by (simp_all add: account_of_None rest_def)
        moreover have "unique_ids (map retire rest)" using old by (simp add: unique_ids_def rest_def distinct_map_filter o_def)
        ultimately have "account_of (map retire rest) i = Some (retire r)"
          using account_of_unique [of "map retire rest" "retire r"] r(2) by simp
        with Some False n o show ?thesis by (simp add: records)
      qed
    qed
  qed
qed

definition stored_row :: "Record \<Rightarrow> Record" where
  "stored_row r = (if u_Role r = ''owner'' then r else r\<lparr>r_Password := ''!''\<rparr>)"

lemma stored_row_simps [simp]:
  "u_ID (stored_row r) = u_ID r" "u_Role (stored_row r) = u_Role r" "u_Username (stored_row r) = u_Username r"
  by (simp_all add: stored_row_def)

lemma same_counters_stored [simp]: "same_counters x (stored_row r) = same_counters x r"
  by (simp add: stored_row_def same_counters_def)

lemma upsert_row_Inr:
  assumes "upsert_row r rows = Inr rows'"
  shows "account_of rows' i = (if i = u_ID r then Some (stored_row r) else account_of rows i)"
proof (cases "list_ex (\<lambda>x. u_ID x = u_ID r) rows")
  case True
  then have "account_of rows (u_ID r) \<noteq> None" by (auto simp: account_of_None list_ex_iff intro: rev_image_eqI)
  moreover have "account_of (map (\<lambda>x. if u_ID x = u_ID r then stored_row r else x) rows) i
      = (if i = u_ID r then map_option (\<lambda>_. stored_row r) (account_of rows i) else account_of rows i)"
    by (induction rows) auto
  ultimately show ?thesis using assms True
    by (auto simp: upsert_row_def Let_def stored_row_def [symmetric] split: if_splits)
next
  case False
  then have "account_of rows (u_ID r) = None" by (auto simp: account_of_None list_ex_iff)
  with assms False show ?thesis
    by (auto simp: upsert_row_def Let_def stored_row_def [symmetric] split: if_splits option.split)
qed

lemma upsert_rows_Inr:
  assumes "fold_res upsert_row records rows = Inr rows'" "unique_ids records"
  shows "account_of rows' i = (case account_of records i of Some r \<Rightarrow> Some (stored_row r) | None \<Rightarrow> account_of rows i)"
  using assms
proof (induction records arbitrary: rows)
  case (Cons r records)
  then obtain rows1 where step: "upsert_row r rows = Inr rows1" and rest: "fold_res upsert_row records rows1 = Inr rows'"
    by (auto simp: res_simps)
  have u: "unique_ids records" and n: "account_of records (u_ID r) = None"
    using Cons.prems(2) by (simp_all add: unique_ids_def account_of_None)
  show ?case using Cons.IH [OF rest u] upsert_row_Inr [OF step, of i] n by (auto split: option.splits)
qed simp

lemma rename_rows_None:
  assumes "fold_res rename_row records rows = Inr rows'" "account_of rows i = None"
  shows "account_of rows' i = None"
  using assms
proof (induction records arbitrary: rows)
  case (Cons r records)
  then obtain rows1 where step: "rename_row r rows = Inr rows1" and rest: "fold_res rename_row records rows1 = Inr rows'"
    by (auto simp: res_simps)
  have "account_of rows1 i = None"
    using step Cons.prems(2) by (auto simp: rename_row_def account_of_update split: if_splits)
  then show ?case by (rule Cons.IH [OF rest])
qed simp

theorem replaceBusinessState_Inr:
  assumes "replaceBusinessState records rows = Inr rows'" "unique_ids records"
  shows "account_of rows' i = map_option stored_row (account_of records i)"
proof -
  define kept where "kept = filter (\<lambda>r. u_ID r \<in> set (map u_ID records)) rows"
  from assms(1) obtain rows1 where rename: "fold_res rename_row (filter retired records) kept = Inr rows1"
    and upsert: "fold_res upsert_row records rows1 = Inr rows'" by (auto simp: replaceBusinessState_def res_simps kept_def)
  show ?thesis
  proof (cases "account_of records i")
    case None
    then have "account_of kept i = None" by (auto simp: account_of_None kept_def)
    then have "account_of rows1 i = None" by (rule rename_rows_None [OF rename])
    with None upsert_rows_Inr [OF upsert assms(2)] show ?thesis by simp
  next
    case (Some r)
    with upsert_rows_Inr [OF upsert assms(2)] show ?thesis by simp
  qed
qed

lemma replaceBusinessState_ids:
  assumes "replaceBusinessState records rows = Inr rows'" "unique_ids rows"
  shows "unique_ids rows'"
proof -
  have rename: "unique_ids t" if "rename_row r s = Inr t" "unique_ids s" for r s t
  proof -
    have "u_ID \<circ> (\<lambda>x. if u_ID x = u_ID r then x\<lparr>u_Username := u_Username r\<rparr> else x) = (u_ID :: Record \<Rightarrow> int)" by auto
    with that show ?thesis by (auto simp: rename_row_def unique_ids_def split: if_splits)
  qed
  have upsert: "unique_ids t" if "upsert_row r s = Inr t" "unique_ids s" for r s t
  proof -
    have "u_ID \<circ> (\<lambda>x. if u_ID x = u_ID r then stored_row r else x) = (u_ID :: Record \<Rightarrow> int)" by auto
    with that show ?thesis
      by (auto simp: upsert_row_def Let_def stored_row_def [symmetric] unique_ids_def list_ex_iff split: if_splits) blast
  qed
  from assms(1) obtain s where s: "fold_res rename_row (filter retired records) (filter (\<lambda>r. u_ID r \<in> set (map u_ID records)) rows) = Inr s"
    and t: "fold_res upsert_row records s = Inr rows'" by (auto simp: replaceBusinessState_def res_simps)
  have "unique_ids (filter (\<lambda>r. u_ID r \<in> set (map u_ID records)) rows)"
    using assms(2) by (simp add: unique_ids_def distinct_map_filter)
  with s have "unique_ids s" by (rule fold_res_invariant) (use rename in blast)
  with t show ?thesis by (rule fold_res_invariant) (use upsert in blast)
qed

text \<open>A rollback keeps the latest counters of every account, and one with a changed period stays withdrawn.\<close>

lemma preserve_account_simps [simp]:
  "u_ID (preserve_account u r) = u_ID r" "u_Upload (preserve_account u r) = u_Upload u" "u_Download (preserve_account u r) = u_Download u"
  "u_VLESSTraffic (preserve_account u r) = u_VLESSTraffic u" "u_HY2Traffic (preserve_account u r) = u_HY2Traffic u"
  "u_Meter u = Some m \<Longrightarrow> u_Meter (preserve_account u r) = Some m"
  "u_Meter u = Some m \<Longrightarrow> u_Meter r = Some m0 \<Longrightarrow> qm_PeriodID m0 \<noteq> qm_PeriodID m \<Longrightarrow> \<not> u_Enabled (preserve_account u r)"
  by (simp_all add: preserve_account_def Let_def split: option.split)

definition counters_of :: "Record \<Rightarrow> int \<times> int \<times> int \<times> int" where
  "counters_of r = (u_Upload r, u_Download r, u_VLESSTraffic r, u_HY2Traffic r)"

theorem rollback_counters:
  assumes "unique_ids previous" "unique_ids current" "u \<in> set current"
  shows "\<exists>r. account_of (preserveBusinessAccounting previous current) (u_ID u) = Some r \<and> counters_of r = counters_of u \<and>
    (\<forall>m. u_Meter u = Some m \<longrightarrow> u_Meter r = Some m \<and>
       (\<forall>old m0. account_of previous (u_ID u) = Some old \<longrightarrow> u_Meter old = Some m0 \<longrightarrow> qm_PeriodID m0 \<noteq> qm_PeriodID m \<longrightarrow> \<not> u_Enabled r)) \<and>
    (account_of previous (u_ID u) = None \<longrightarrow> \<not> u_Enabled r)"
proof -
  define f where "f = (\<lambda>old. case find (\<lambda>u. u_ID u = u_ID old) current of None \<Rightarrow> old | Some u \<Rightarrow> preserve_account u old)"
  have fid: "u_ID (f old) = u_ID old" for old by (simp add: f_def split: option.split)
  have kept: "account_of (map f rows) i = map_option f (account_of rows i)" for rows i by (induction rows) (simp_all add: fid)
  define extra where "extra = filter (\<lambda>u. u_ID u \<notin> set (map u_ID previous)) current"
  have whole: "preserveBusinessAccounting previous current = map f previous @ map retire extra"
    by (simp add: preserveBusinessAccounting_def f_def extra_def)
  have u: "find (\<lambda>w. u_ID w = u_ID u) current = Some u"
    using account_of_unique [OF assms(2,3)] by (simp add: account_of_def)
  show ?thesis
  proof (cases "account_of previous (u_ID u)")
    case None
    then have "u \<in> set extra" using assms(3) account_of_None [of previous] by (simp add: extra_def)
    moreover have "unique_ids extra" using assms(2) by (simp add: extra_def unique_ids_def distinct_map_filter)
    ultimately have "account_of extra (u_ID u) = Some u" by (intro account_of_unique)
    then have "account_of (map retire extra) (u_ID u) = Some (retire u)"
      by (induction extra) (auto simp: retire_def split: if_splits)
    with None show ?thesis by (simp add: whole kept) (simp add: retire_def counters_of_def)
  next
    case (Some old)
    then have "f old = preserve_account u old" using account_of_Some [OF Some] u by (simp add: f_def)
    with Some show ?thesis by (auto simp: whole kept counters_of_def)
  qed
qed

text \<open>Every stored account survives an applied snapshot with its counters; owners survive unchanged.\<close>

theorem adoption_keeps_counters:
  assumes "adopt_accounts env accounts old = Inr records" "replaceBusinessState records old = Inr rows"
    and "unique_ids old" "owners_apart accounts old" "x \<in> set old"
  shows "\<exists>r. account_of rows (u_ID x) = Some r \<and> same_counters x r \<and> (u_Role x = ''owner'' \<longrightarrow> r = x) \<and>
    (u_Role x \<noteq> ''owner'' \<and> u_ID x \<notin> set (received_ids accounts) \<longrightarrow> \<not> u_Enabled r \<and> u_Username r = retired_name (u_ID x))"
proof -
  note a = adopt_accounts_Inr [OF assms(1,3,4)]
  note s = replaceBusinessState_Inr [OF assms(2) a(1)]
  have x: "account_of old (u_ID x) = Some x" using assms(3,5) by (simp add: account_of_unique)
  show ?thesis
  proof (cases "u_ID x \<in> set (received_ids accounts)")
    case True
    then obtain r where r: "account_of records (u_ID x) = Some r" "is_received env old accounts r" using a(2) by blast
    then obtain u c name where u: "r = adopted_record env old (u\<lparr>u_Username := name\<rparr>) c" unfolding is_received_def by blast
    have "u_ID u = u_ID x" using account_of_Some [OF r(1)] u assms(3) by simp
    with u x assms(3) have "r = merge_old (ad_now env) (u\<lparr>u_Username := name\<rparr>) x (received_record (u\<lparr>u_Username := name\<rparr>) c)"
      by (simp add: adopted_record_eq)
    then have "same_counters x (stored_row r)" by (simp add: merge_old_counters)
    moreover have "u_Role x \<noteq> ''owner''" using assms(4,5) True by (auto simp: owners_apart_def received_ids_def)
    ultimately show ?thesis using s r(1) True by simp
  next
    case False
    with a(3) [OF False] x s [of "u_ID x"] show ?thesis
      by (auto simp: stored_row_def retire_def same_counters_def)
  qed
qed

section \<open>Agreement across an applied snapshot\<close>

definition agent_users :: "Record list \<Rightarrow> (int \<times> User) list" where
  "agent_users rows = map (\<lambda>r. (u_ID r, User.truncate r)) rows"

lemma map_of_agent_users [simp]: "map_of (agent_users rows) i = map_option User.truncate (account_of rows i)"
  by (induction rows) (auto simp: agent_users_def)

text \<open>
  An account the site never had, or one of its own; a new period is one whose predecessor has no
  unreported row, and not the one the controller still stands at.
\<close>

definition never_seen :: "BusinessSite \<Rightarrow> Meters \<Rightarrow> int \<Rightarrow> bool" where
  "never_seen v A i \<longleftrightarrow> map_of (bs_Usage v) i = None \<and> map_of (bs_UsageBaseline v) i = None \<and> (\<forall>r \<in> set (ms_usage A). nu_UserID r \<noteq> i)"

definition reported_out :: "Meters \<Rightarrow> int \<Rightarrow> bool" where
  "reported_out A i \<longleftrightarrow> (\<forall>r \<in> set (pendingNodeUsage A). nu_UserID r \<noteq> i)"

definition account_ready :: "BusinessSite \<Rightarrow> Meters \<Rightarrow> Record list \<Rightarrow> User \<Rightarrow> bool" where
  "account_ready v A old u \<longleftrightarrow>
    (case account_of old (u_ID u) of
       None \<Rightarrow> never_seen v A (u_ID u) \<and> (\<exists>s. u_Meter u = Some s \<and> snapshot_meter s = s)
     | Some x \<Rightarrow> u_Role x = ''user'' \<and>
         (\<forall>m s. u_Meter x = Some m \<longrightarrow> u_Meter u = Some s \<longrightarrow> qm_PeriodID s \<noteq> qm_PeriodID m \<longrightarrow>
            reported_out A (u_ID u) \<and> qm_PeriodID s \<noteq> bu_PeriodID (site_usage v (u_ID u))))"

text \<open>One account with its levels; \<open>lead\<close> is what its rows are ahead of the stored rows.\<close>

definition account_synced :: "BusinessSite \<Rightarrow> int \<Rightarrow> (level \<Rightarrow> int) \<Rightarrow> User \<Rightarrow> bool" where
  "account_synced v i lead u \<longleftrightarrow> user_synced v i u \<and> (\<forall>l. user_level l u - sum_level l (first_sum v i u) = lead l)"

lemma in_sync_accounts:
  "in_sync rate_of A v table \<longleftrightarrow>
    distinct (map fst (ms_users A)) \<and> rows_ok rate_of (ms_usage A) \<and> rows_ok rate_of (site_rows table (bs_ID v)) \<and>
    rows_le (site_rows table (bs_ID v)) (ms_usage A) \<and> acks_stored (ms_acks A) (site_rows table (bs_ID v)) \<and>
    (\<forall>i u. map_of (ms_users A) i = Some u \<longrightarrow> u_Role u = ''user'' \<longrightarrow>
       account_synced v i (\<lambda>l. usage_level l (ms_usage A) i - usage_level l (site_rows table (bs_ID v)) i) u)"
  by (simp add: in_sync_def account_synced_def)

lemma account_synced_new:
  assumes "map_of (bs_Usage v) i = None" "map_of (bs_UsageBaseline v) i = None" "u_Meter u = Some s" "snapshot_meter s = s"
    "u_Upload u = 0" "u_Download u = 0" "u_VLESSTraffic u = 0" "u_HY2Traffic u = 0"
  shows "account_synced v i (\<lambda>l. 0) u"
proof -
  have "qm_Upload (snapshot_meter s) = 0" "qm_Download (snapshot_meter s) = 0" "qm_BaseUpload (snapshot_meter s) = 0"
    "qm_BaseDownload (snapshot_meter s) = 0" "qm_UploadRemainder (snapshot_meter s) = 0" "qm_DownloadRemainder (snapshot_meter s) = 0"
    "qm_InitialUpload (snapshot_meter s) = 0" "qm_InitialDownload (snapshot_meter s) = 0"
    by (simp_all add: snapshot_meter_def)
  note s = this [unfolded assms(4)]
  have none: "site_usage v i = no_usage" using assms(1) by (simp add: site_usage_def map_get_def)
  have base: "bu_Upload (baseline_of u) = 0" "bu_Download (baseline_of u) = 0" using assms(3) s by (simp_all add: baseline_of_def)
  have first: "first_sum v i u = \<lparr>sm_up = 0, sm_down = 0, sm_qup = 0, sm_qdown = 0, sm_ru = 0, sm_rd = 0\<rparr>"
    using assms(2) base by (simp add: first_sum_def opening_sum_def none start_sum_def no_usage_def map_has_def)
  have "user_in_range u" using assms s by (simp add: user_in_range_def meter_in_range_def CounterLimit_def)
  moreover have "baseline_agrees v i (baseline_of u)"
    using assms(2) base by (simp add: baseline_agrees_def baseline_invalid_def none no_usage_def CounterLimit_def)
  ultimately have "user_synced v i u" using assms(3) by (simp add: user_synced_def first sum_ok_def)
  moreover have "user_level l u = sum_level l (first_sum v i u)" for l
    using assms s by (cases l) (simp_all add: first)
  ultimately show ?thesis by (simp add: account_synced_def)
qed

lemma account_synced_same_period:
  assumes "account_synced v i lead u" "u_Meter u = Some m" "u_Meter u' = Some m'" "qm_PeriodID m' = qm_PeriodID m"
    and "qm_Upload m' = qm_Upload m" "qm_Download m' = qm_Download m" "qm_UploadRemainder m' = qm_UploadRemainder m"
    and "qm_DownloadRemainder m' = qm_DownloadRemainder m" "qm_InitialUpload m' = qm_InitialUpload m"
    and "qm_InitialDownload m' = qm_InitialDownload m" "meter_in_range m \<Longrightarrow> meter_in_range m'"
    and "u_Upload u' = u_Upload u" "u_Download u' = u_Download u" "u_VLESSTraffic u' = u_VLESSTraffic u" "u_HY2Traffic u' = u_HY2Traffic u"
  shows "account_synced v i lead u'"
proof -
  have same: "baseline_of u' = baseline_of u" "period_of u' = period_of u" using assms by (simp_all add: baseline_of_def period_of_def)
  then have first: "first_sum v i u' = first_sum v i u" by (simp add: first_sum_def)
  have "user_level l u' = user_level l u" for l using assms by (cases l) simp_all
  moreover have "user_in_range u \<Longrightarrow> user_in_range u'" using assms by (simp add: user_in_range_def)
  ultimately show ?thesis using assms(1,3) by (simp add: account_synced_def user_synced_def same first)
qed

lemma account_synced_new_period:
  assumes "account_synced v i (\<lambda>l. 0) u" "u_Meter u = Some m" "u_Meter u' = Some m'"
    and "qm_PeriodID m' \<noteq> bu_PeriodID (site_usage v i)"
    and "qm_Upload m' = qm_Upload m" "qm_Download m' = qm_Download m" "qm_UploadRemainder m' = 0" "qm_DownloadRemainder m' = 0"
    and "qm_InitialUpload m' = qm_InitialUpload m" "qm_InitialDownload m' = qm_InitialDownload m" "meter_in_range m \<Longrightarrow> meter_in_range m'"
    and "u_Upload u' = u_Upload u" "u_Download u' = u_Download u" "u_VLESSTraffic u' = u_VLESSTraffic u" "u_HY2Traffic u' = u_HY2Traffic u"
  shows "account_synced v i (\<lambda>l. 0) u'"
proof -
  define s where "s = first_sum v i u"
  have base: "baseline_of u' = baseline_of u" using assms by (simp add: baseline_of_def)
  have synced: "user_in_range u" "baseline_agrees v i (baseline_of u)" "sum_ok s" "\<And>l. user_level l u = sum_level l s"
    using assms(1) by (simp_all add: account_synced_def user_synced_def s_def)
  have tot: "totals_agree s (businessUsageOf u)" using synced assms(2) by (intro totals_from_levels) auto
  then have m: "sm_qup s = qm_Upload m" "sm_qdown s = qm_Download m" "sm_up s = u_Upload u" "sm_down s = u_Download u"
    using assms(2) by (simp_all add: totals_agree_def businessUsageOf_def Let_def)
  have fresh: "first_sum v i u' = s\<lparr>sm_ru := 0, sm_rd := 0\<rparr>"
  proof (cases "bu_Metered (site_usage v i)")
    case True
    then show ?thesis using assms(3,4) by (simp add: first_sum_def base period_of_def s_def Let_def)
  next
    case False
    then have "first_sum v i u' = s" by (simp add: first_sum_def base s_def Let_def)
    moreover have "sm_ru s = 0" "sm_rd s = 0"
      using False by (simp_all add: s_def first_sum_def opening_sum_def start_sum_def Let_def)
    ultimately show ?thesis by simp
  qed
  have "user_in_range u'" using synced(1) assms by (simp add: user_in_range_def)
  moreover have "sum_ok (first_sum v i u')" using synced(3) by (simp add: fresh sum_ok_def)
  ultimately have "user_synced v i u'" using synced(2) assms(3) by (simp add: user_synced_def base)
  moreover have "user_level l u' = sum_level l (first_sum v i u')" for l
    using assms m synced(4) [of Protocols] by (cases l) (simp_all add: fresh)
  ultimately show ?thesis by (simp add: account_synced_def)
qed


lemma adopted_account:
  assumes sync: "in_sync rate_of A v table" and users: "ms_users A = agent_users old" and ids: "unique_ids old"
    and ready: "\<And>u c. (u, c) \<in> set accounts \<Longrightarrow> account_ready v A old u"
    and r: "is_received env old accounts r"
  shows "account_synced v (u_ID r) (\<lambda>l. usage_level l (ms_usage A) (u_ID r) - usage_level l (site_rows table (bs_ID v)) (u_ID r))
    (User.truncate (stored_row r))"
proof -
  define i where "i = u_ID r"
  define lead where "lead = (\<lambda>l. usage_level l (ms_usage A) i - usage_level l (site_rows table (bs_ID v)) i)"
  obtain u0 c name where u0: "(u0, c) \<in> set accounts" and r': "r = adopted_record env old (u0\<lparr>u_Username := name\<rparr>) c"
    using r unfolding is_received_def by blast
  define u where "u = u0\<lparr>u_Username := name\<rparr>"
  have i: "u_ID u0 = i" "u_ID u = i" using ids by (simp_all add: i_def r' u_def)
  have trunc: "u_Meter (User.truncate (stored_row r)) = u_Meter r" "u_Upload (User.truncate (stored_row r)) = u_Upload r"
    "u_Download (User.truncate (stored_row r)) = u_Download r" "u_VLESSTraffic (User.truncate (stored_row r)) = u_VLESSTraffic r"
    "u_HY2Traffic (User.truncate (stored_row r)) = u_HY2Traffic r"
    by (simp_all add: User.defs stored_row_def)
  show ?thesis
  proof (cases "account_of old i")
    case None
    then have fresh: "never_seen v A i" "\<exists>s. u_Meter u0 = Some s \<and> snapshot_meter s = s"
      using ready [OF u0] by (simp_all add: account_ready_def i)
    have "usage_level l (ms_usage A) i = 0" for l
      using fresh(1) by (auto simp: usage_level_def never_seen_def intro: sum_where_none)
    moreover have "usage_level l (site_rows table (bs_ID v)) i = 0" for l
    proof -
      have "rows_le (site_rows table (bs_ID v)) (ms_usage A)" using sync by (simp add: in_sync_def)
      then have "nu_UserID e \<noteq> i" if "e \<in> set (site_rows table (bs_ID v))" for e
        using fresh(1) that by (auto simp: never_seen_def row_key_def elim!: rows_leE)
      then show ?thesis by (auto simp: usage_level_def intro: sum_where_none)
    qed
    ultimately have zero: "lead = (\<lambda>l. 0)" by (simp add: lead_def)
    have "r = received_record u c" using None ids by (simp add: r' u_def [symmetric] adopted_record_eq i)
    then have "u_Meter r = u_Meter u0" "u_Upload r = 0" "u_Download r = 0" "u_VLESSTraffic r = 0" "u_HY2Traffic r = 0"
      by (simp_all add: u_def)
    moreover obtain s where "u_Meter u0 = Some s" "snapshot_meter s = s" using fresh(2) by blast
    moreover have "map_of (bs_Usage v) i = None" "map_of (bs_UsageBaseline v) i = None" using fresh(1) by (simp_all add: never_seen_def)
    ultimately have "account_synced v i (\<lambda>l. 0) (User.truncate (stored_row r))"
      by (intro account_synced_new) (simp_all add: trunc)
    then show ?thesis using zero by (simp add: lead_def i_def)
  next
    case (Some x)
    with ready [OF u0] have role: "u_Role x = ''user''"
      and switch: "\<And>m s. u_Meter x = Some m \<Longrightarrow> u_Meter u0 = Some s \<Longrightarrow> qm_PeriodID s \<noteq> qm_PeriodID m \<Longrightarrow>
        reported_out A i \<and> qm_PeriodID s \<noteq> bu_PeriodID (site_usage v i)"
      by (simp_all add: account_ready_def i)
    have xs: "map_of (ms_users A) i = Some (User.truncate x)" using Some by (simp add: users)
    have "u_Role (User.truncate x) = ''user''" using role by (simp add: User.defs)
    with sync xs have synced: "account_synced v i lead (User.truncate x)" by (simp add: in_sync_accounts lead_def)
    then obtain m where m: "u_Meter x = Some m" by (auto simp: account_synced_def user_synced_def User.defs)
    have req: "r = merge_old (ad_now env) u x (received_record u c)" using Some ids by (simp add: r' u_def [symmetric] adopted_record_eq i)
    define m' where "m' = merge_meter (u_Meter u0) m"
    have new: "u_Meter r = Some m'" "u_Upload r = u_Upload x" "u_Download r = u_Download x"
      "u_VLESSTraffic r = u_VLESSTraffic x" "u_HY2Traffic r = u_HY2Traffic x"
      by (simp_all add: req m m'_def u_def)
    have range: "meter_in_range m \<Longrightarrow> meter_in_range m'"
      by (simp add: m'_def merge_meter_def meter_in_range_def CounterLimit_def Let_def split: option.split)
    have tx: "u_Meter (User.truncate x) = Some m" "u_Upload (User.truncate x) = u_Upload x" "u_Download (User.truncate x) = u_Download x"
      "u_VLESSTraffic (User.truncate x) = u_VLESSTraffic x" "u_HY2Traffic (User.truncate x) = u_HY2Traffic x"
      by (simp_all add: User.defs m)
    show ?thesis
    proof (cases "qm_PeriodID m' = qm_PeriodID m")
      case True
      then have "qm_UploadRemainder m' = qm_UploadRemainder m" "qm_DownloadRemainder m' = qm_DownloadRemainder m"
        by (auto simp: m'_def merge_meter_def Let_def split: option.splits)
      then have "account_synced v i lead (User.truncate (stored_row r))"
        using True range by (intro account_synced_same_period [OF synced tx(1)]) (simp_all add: trunc new tx m'_def)
      then show ?thesis by (simp add: lead_def i_def)
    next
      case False
      then obtain s where s: "u_Meter u0 = Some s" "qm_PeriodID s \<noteq> qm_PeriodID m" "qm_PeriodID m' = qm_PeriodID s"
        "qm_UploadRemainder m' = 0" "qm_DownloadRemainder m' = 0"
        by (auto simp: m'_def merge_meter_def Let_def split: option.splits if_splits)
      with switch [OF m] have out: "reported_out A i" "qm_PeriodID m' \<noteq> bu_PeriodID (site_usage v i)" by simp_all
      have "lead l = 0" for l
      proof -
        have "sum_where (\<lambda>r. nu_UserID r = i) (\<lambda>r. row_level l r - level_at l (site_rows table (bs_ID v)) (row_key r)) (pendingNodeUsage A) = 0"
          using out(1) by (auto simp: reported_out_def intro: sum_where_none)
        with sync_pending_level [OF sync, of i l] show ?thesis by (simp add: lead_def)
      qed
      then have zero: "lead = (\<lambda>l. 0)" by blast
      have "account_synced v i (\<lambda>l. 0) (User.truncate (stored_row r))"
        using range s out(2)
        by (intro account_synced_new_period [OF synced [unfolded zero] tx(1)]) (simp_all add: trunc new tx m'_def)
      then show ?thesis using zero by (simp add: lead_def i_def)
    qed
  qed
qed

theorem adopted_in_sync:
  assumes sync: "in_sync rate_of A v table" and users: "ms_users A = agent_users old"
    and ready: "\<And>u c. (u, c) \<in> set accounts \<Longrightarrow> account_ready v A old u"
    and adopt: "adopt_accounts env accounts old = Inr records" and replace: "replaceBusinessState records old = Inr rows"
    and A': "A' = A\<lparr>ms_users := agent_users rows, ms_nodes := nodes\<rparr>"
  shows "in_sync rate_of A' v table"
proof -
  have ids: "unique_ids old" using sync by (simp add: in_sync_def users agent_users_def unique_ids_def o_def)
  have apart: "owners_apart accounts old"
    unfolding owners_apart_def
  proof (intro ballI impI notI)
    fix x assume x: "x \<in> set old" "u_Role x = ''owner''" and "u_ID x \<in> (u_ID \<circ> fst) ` set accounts"
    then obtain u c where "(u, c) \<in> set accounts" "u_ID u = u_ID x" by auto
    with ready have "account_ready v A old u" by blast
    with account_of_unique [OF ids x(1)] x(2) \<open>u_ID u = u_ID x\<close> show False by (simp add: account_ready_def)
  qed
  note a = adopt_accounts_Inr [OF adopt ids apart]
  note s = replaceBusinessState_Inr [OF replace a(1)]
  have "account_synced v i (\<lambda>l. usage_level l (ms_usage A) i - usage_level l (site_rows table (bs_ID v)) i) w"
    if w: "map_of (agent_users rows) i = Some w" "u_Role w = ''user''" for i w
  proof -
    from w(1) s obtain r where r: "account_of records i = Some r" and wr: "w = User.truncate (stored_row r)" by auto
    have ri: "u_ID r = i" using account_of_Some [OF r] by simp
    show ?thesis
    proof (cases "i \<in> set (received_ids accounts)")
      case True
      from a(2) [OF True] r have "is_received env old accounts r" by auto
      from adopted_account [OF sync users ids ready this] show ?thesis by (simp add: wr ri)
    next
      case False
      with a(3) r obtain x where x: "account_of old i = Some x" "r = (if u_Role x = ''owner'' then x else retire x)" by auto
      have role: "u_Role r = ''user''" using w(2) by (simp add: wr User.defs)
      then have "u_Role x \<noteq> ''owner''" using x(2) by auto
      then have rx: "r = retire x" using x(2) by simp
      have xs: "map_of (ms_users A) i = Some (User.truncate x)" "u_Role (User.truncate x) = ''user''"
        using x(1) role by (simp_all add: users rx retire_def User.defs)
      with sync have synced: "account_synced v i (\<lambda>l. usage_level l (ms_usage A) i - usage_level l (site_rows table (bs_ID v)) i) (User.truncate x)"
        by (simp add: in_sync_accounts)
      then obtain m where m: "u_Meter (User.truncate x) = Some m" by (auto simp: account_synced_def user_synced_def)
      show ?thesis
        by (rule account_synced_same_period [OF synced m, of _ m])
          (use m in \<open>simp_all add: wr rx stored_row_def retire_def User.defs\<close>)
    qed
  qed
  moreover have "distinct (map fst (agent_users rows))" using replaceBusinessState_ids [OF replace ids] by (simp add: unique_ids_def agent_users_def o_def)
  ultimately show ?thesis using sync by (simp add: in_sync_accounts A')
qed

end
