(* ===== verification/Subsite_Protocol.thy ===== *)
theory Subsite_Protocol
  imports Subsite_Accounts
begin

text \<open>
  The metering protocol between a subsite and the controller as a state machine: samples of the cores,
  reports the controller accepts, replies that may be lost, acknowledgements, snapshots issued and
  snapshots applied. The agreement of \<open>Usage_Sync\<close> is an invariant of every run, so an honest report is
  never refused, whatever the interleaving and whichever replies are lost.
\<close>

section \<open>Acknowledgements\<close>

lemma put_ack_frame [simp]:
  "ms_users (put_ack r A) = ms_users A" "ms_usage (put_ack r A) = ms_usage A" "ms_nodes (put_ack r A) = ms_nodes A"
  "ms_policies (put_ack r A) = ms_policies A"
  by (simp_all add: put_ack_def split: option.split)

definition row_stored :: "NodeUsage list \<Rightarrow> NodeUsage \<Rightarrow> bool" where
  "row_stored stored r \<longleftrightarrow> (\<exists>e \<in> set stored. row_key e = row_key r \<and> nu_Upload r \<le> nu_Upload e \<and> nu_Download r \<le> nu_Download e)"

lemma row_stored_mono: "row_stored stored r \<Longrightarrow> rows_le stored stored' \<Longrightarrow> row_stored stored' r"
  unfolding row_stored_def rows_le_def by (metis order_trans)

lemma put_ack_stored:
  assumes "acks_stored (ms_acks A) stored" "row_stored stored r"
  shows "acks_stored (ms_acks (put_ack r A)) stored"
  unfolding acks_stored_def
proof (intro allI impI)
  fix k a b assume k: "map_of (ms_acks (put_ack r A)) k = Some (a, b)"
  then have "k = row_key r \<and> a = nu_Upload r \<and> b = nu_Download r \<or> map_of (ms_acks A) k = Some (a, b)"
    by (auto simp: put_ack_def ack_of_def split: option.splits if_splits)
  then show "\<exists>r \<in> set stored. row_key r = k \<and> a \<le> nu_Upload r \<and> b \<le> nu_Download r"
    using assms unfolding acks_stored_def row_stored_def by metis
qed

lemma ackBusinessUsage_keeps:
  assumes "ackBusinessUsage rows A = Inr A'" "\<And>r. r \<in> set rows \<Longrightarrow> row_stored stored r" "acks_stored (ms_acks A) stored"
  shows "acks_stored (ms_acks A') stored \<and> ms_users A' = ms_users A \<and> ms_usage A' = ms_usage A \<and>
    ms_nodes A' = ms_nodes A \<and> ms_policies A' = ms_policies A"
  using assms
proof (induction rows arbitrary: A)
  case Nil
  then show ?case by (simp add: ackBusinessUsage_def)
next
  case (Cons r rows)
  from Cons.prems(1) obtain A1 where step: "ack_row r A = Inr A1" and rest: "ackBusinessUsage rows A1 = Inr A'"
    by (auto simp: ackBusinessUsage_def res_simps)
  from step have A1: "A1 = put_ack r A" by (simp add: ack_row_def split: option.splits if_splits)
  have "acks_stored (ms_acks A1) stored"
    unfolding A1 using Cons.prems(2,3) by (intro put_ack_stored) simp_all
  from Cons.IH [OF rest _ this] Cons.prems(2) show ?case by (simp add: A1)
qed

lemma in_sync_ack:
  assumes "in_sync rate_of A v table" "ackBusinessUsage rows A = Inr A'"
    and "\<And>r. r \<in> set rows \<Longrightarrow> row_stored (site_rows table (bs_ID v)) r"
  shows "in_sync rate_of A' v table" "revisions_fixed rate_of digest A \<Longrightarrow> revisions_fixed rate_of digest A'"
proof -
  have "acks_stored (ms_acks A) (site_rows table (bs_ID v))" using assms(1) by (simp add: in_sync_def)
  note k = ackBusinessUsage_keeps [OF assms(2,3) this]
  then show "in_sync rate_of A' v table" using assms(1) by (simp add: in_sync_def)
  from k show "revisions_fixed rate_of digest A \<Longrightarrow> revisions_fixed rate_of digest A'"
    by (simp add: revisions_fixed_def)
qed

section \<open>The controller's own changes\<close>

lemma in_sync_meters:
  assumes "in_sync rate_of A v table" "same_meters v v'"
  shows "in_sync rate_of A v' table"
proof -
  have f: "bs_ID v' = bs_ID v" "site_usage v' = site_usage v" "bs_UsageBaseline v' = bs_UsageBaseline v"
    using assms(2) by (simp_all add: same_meters_def site_usage_def fun_eq_iff)
  have "opening_sum v' = opening_sum v" "baseline_agrees v' = baseline_agrees v"
    unfolding fun_eq_iff opening_sum_def baseline_agrees_def f by simp_all
  moreover from this have "first_sum v' = first_sum v" by (simp add: fun_eq_iff first_sum_def f)
  moreover from calculation have "user_synced v' = user_synced v" by (simp add: fun_eq_iff user_synced_def)
  ultimately show ?thesis using assms(1) by (simp add: in_sync_def f)
qed

lemma snapshot_users_meters: "snapshot_users env sites rs v = Inr (accounts, grants, v') \<Longrightarrow> same_meters v v'"
proof (induction rs arbitrary: v accounts grants v')
  case (Cons r rs)
  show ?case
  proof (cases "\<not> monthlyBudgetAvailable (se_now env) v")
    case False
    note open_ = this
    show ?thesis
    proof (cases "\<not> bs_Enabled v \<or> \<not> se_owner_enabled env \<or> \<not> Active (se_now env) r")
      case True
      with Cons.prems open_ Cons.IH show ?thesis by simp
    next
      case False
      with Cons.prems open_ obtain picked where p: "pick_grant sites v r (bs_Grants v) = Inr picked"
        by (auto simp: res_simps)
      show ?thesis
      proof (cases picked)
        case None
        with Cons.prems open_ False p Cons.IH show ?thesis by simp
      next
        case (Some g)
        obtain acc g' v1 where s: "snapshot_account env v g r = (acc, g', v1)" by (metis prod_cases3)
        then have "same_meters v v1" by (auto simp: snapshot_account_def Let_def same_meters_def)
        moreover from Cons.prems open_ False p Some s obtain accs gs where "snapshot_users env sites rs v1 = Inr (accs, gs, v')"
          by (auto simp: res_simps)
        ultimately show ?thesis using Cons.IH by (metis same_meters_trans)
      qed
    qed
  qed (use Cons.prems in simp)
qed simp

lemma businessSnapshot_meters:
  assumes "businessSnapshot env groups sites users v = Inr (out, v')"
  shows "same_meters v v'"
proof -
  have issue: "same_meters w (foldl issue_grant w gs)" for gs w
  proof (induction gs arbitrary: w)
    case (Cons g gs)
    have "same_meters w (issue_grant w g)" by (simp add: issue_grant_def same_meters_def)
    with Cons.IH show ?case by (metis foldl_Cons same_meters_trans)
  qed simp
  show ?thesis
  proof (cases "snapshot_users env sites (resolveAccess groups users) (refreshMonthlyBudget (se_now env) v)")
    case (Inl e)
    with assms show ?thesis by (simp add: businessSnapshot_def)
  next
    case (Inr x)
    obtain accounts grants v1 where x: "x = (accounts, grants, v1)" by (metis prod_cases3)
    from assms Inr x obtain a b c d where
      "v' = foldl issue_grant (v1\<lparr>bs_Desired := a, bs_SentGrants := grants, bs_SentNodes := b, bs_RateRules := c, bs_LeaseUntil := d\<rparr>) grants"
      unfolding businessSnapshot_def Let_def by (simp; blast)
    moreover have "same_meters v1 (v1\<lparr>bs_Desired := a, bs_SentGrants := grants, bs_SentNodes := b, bs_RateRules := c, bs_LeaseUntil := d\<rparr>)"
      by (simp add: same_meters_def)
    moreover have "same_meters (refreshMonthlyBudget (se_now env) v) v1"
      using Inr x by (simp add: snapshot_users_meters)
    ultimately show ?thesis using issue by (metis same_meters_refresh same_meters_trans)
  qed
qed

section \<open>The protocol\<close>

record protocol =
  pt_agent :: Meters
  pt_site :: BusinessSite
  pt_tables :: Reports
  pt_ack :: "NodeUsage list"

text \<open>
  \<open>pt_ack\<close> are the rows of the last reply that reached the subsite. A report may be accepted although
  its reply is lost; the rows then stay pending and are reported again.
\<close>

inductive protocol_step :: "(string \<Rightarrow> string \<Rightarrow> int) \<Rightarrow> (string \<Rightarrow> string) \<Rightarrow> protocol \<Rightarrow> protocol \<Rightarrow> bool" for rate_of digest where
  sampled: "account env counters (pt_agent P) = Inr A \<Longrightarrow> me_digest env = digest \<Longrightarrow>
    protocol_step rate_of digest P (P\<lparr>pt_agent := A\<rparr>)"
| reported: "acceptBusinessUsage now history (agent_report applied (pt_agent P)) (pt_site P) (pt_tables P) = Inr (v, R) \<Longrightarrow>
    protocol_step rate_of digest P (P\<lparr>pt_site := v, pt_tables := R, pt_ack := pendingNodeUsage (pt_agent P)\<rparr>)"
| reply_lost: "acceptBusinessUsage now history (agent_report applied (pt_agent P)) (pt_site P) (pt_tables P) = Inr (v, R) \<Longrightarrow>
    protocol_step rate_of digest P (P\<lparr>pt_site := v, pt_tables := R\<rparr>)"
| acknowledged: "ackBusinessUsage (pt_ack P) (pt_agent P) = Inr A \<Longrightarrow>
    protocol_step rate_of digest P (P\<lparr>pt_agent := A\<rparr>)"
| snapshot: "businessSnapshot env groups sites users (pt_site P) = Inr (out, v) \<Longrightarrow>
    protocol_step rate_of digest P (P\<lparr>pt_site := v\<rparr>)"
| adopted: "ms_users (pt_agent P) = agent_users old \<Longrightarrow> adopt_accounts env accounts old = Inr records \<Longrightarrow>
    replaceBusinessState records old = Inr rows \<Longrightarrow>
    (\<And>u c. (u, c) \<in> set accounts \<Longrightarrow> account_ready (pt_site P) (pt_agent P) old u) \<Longrightarrow>
    A = (pt_agent P)\<lparr>ms_users := agent_users rows, ms_nodes := nodes\<rparr> \<Longrightarrow> revisions_fixed rate_of digest A \<Longrightarrow>
    protocol_step rate_of digest P (P\<lparr>pt_agent := A\<rparr>)"
| administered: "same_meters (pt_site P) v \<Longrightarrow> protocol_step rate_of digest P (P\<lparr>pt_site := v\<rparr>)"

inductive_cases protocol_stepE: "protocol_step rate_of digest P Q"

inductive protocol_run :: "(string \<Rightarrow> string \<Rightarrow> int) \<Rightarrow> (string \<Rightarrow> string) \<Rightarrow> protocol \<Rightarrow> protocol \<Rightarrow> bool" for rate_of digest where
  idle: "protocol_run rate_of digest P P"
| further: "protocol_run rate_of digest P Q \<Longrightarrow> protocol_step rate_of digest Q Q' \<Longrightarrow> protocol_run rate_of digest P Q'"

definition stored_rows :: "protocol \<Rightarrow> NodeUsage list" where
  "stored_rows P = site_rows (rp_node_usage (pt_tables P)) (bs_ID (pt_site P))"

definition agreed :: "(string \<Rightarrow> string \<Rightarrow> int) \<Rightarrow> (string \<Rightarrow> string) \<Rightarrow> protocol \<Rightarrow> bool" where
  "agreed rate_of digest P \<longleftrightarrow> in_sync rate_of (pt_agent P) (pt_site P) (rp_node_usage (pt_tables P)) \<and>
     revisions_fixed rate_of digest (pt_agent P) \<and> (\<forall>r \<in> set (pt_ack P). row_stored (stored_rows P) r)"

lemma accepted_rows_le:
  assumes "in_sync rate_of A v (rp_node_usage R)" "acceptBusinessUsage now history (agent_report applied A) v R = Inr (v', R')"
  shows "rows_le (site_rows (rp_node_usage R) (bs_ID v)) (site_rows (rp_node_usage R') (bs_ID v'))"
proof -
  have dist: "distinct (map fst (bh_Usage (agent_report applied A)))"
    using assms(1) by (simp add: in_sync_def agent_report_def reported_users_def o_def case_prod_beta distinct_map_filter)
  have new: "bs_ID v' = bs_ID v" "rp_node_usage R' = foldl (\<lambda>t row. put_row (bs_ID v) row t) (rp_node_usage R) (pendingNodeUsage A)"
    using accept_Inr [OF assms(2) dist] by (auto simp: agent_report_def)
  have "set (pendingNodeUsage A) \<subseteq> set (ms_usage A)" by (simp add: pendingNodeUsage_def)
  with assms(1) put_rows_keep [of rate_of "rp_node_usage R" "bs_ID v" "ms_usage A" "pendingNodeUsage A"]
  show ?thesis by (simp add: in_sync_def new)
qed

lemma accepted_agreed:
  assumes "agreed rate_of digest P"
    and "acceptBusinessUsage now history (agent_report applied (pt_agent P)) (pt_site P) (pt_tables P) = Inr (v, R)"
  shows "agreed rate_of digest (P\<lparr>pt_site := v, pt_tables := R, pt_ack := pendingNodeUsage (pt_agent P)\<rparr>)"
    "agreed rate_of digest (P\<lparr>pt_site := v, pt_tables := R\<rparr>)"
proof -
  have sync: "in_sync rate_of (pt_agent P) (pt_site P) (rp_node_usage (pt_tables P))"
    and fixed: "revisions_fixed rate_of digest (pt_agent P)"
    and acks: "\<And>r. r \<in> set (pt_ack P) \<Longrightarrow> row_stored (stored_rows P) r"
    using assms(1) by (simp_all add: agreed_def)
  note new = accepted_in_sync [OF sync assms(2)]
  from new fixed show "agreed rate_of digest (P\<lparr>pt_site := v, pt_tables := R, pt_ack := pendingNodeUsage (pt_agent P)\<rparr>)"
    by (simp add: agreed_def stored_rows_def row_stored_def)
  have "row_stored (site_rows (rp_node_usage R) (bs_ID v)) r" if "r \<in> set (pt_ack P)" for r
    using row_stored_mono [OF acks [OF that, unfolded stored_rows_def] accepted_rows_le [OF sync assms(2)]] .
  with new fixed show "agreed rate_of digest (P\<lparr>pt_site := v, pt_tables := R\<rparr>)"
    by (simp add: agreed_def stored_rows_def)
qed

lemma step_agreed:
  assumes "protocol_step rate_of digest P Q" "agreed rate_of digest P"
  shows "agreed rate_of digest Q"
  using assms
proof (cases rule: protocol_step.cases)
  case (sampled env counters A)
  have sync: "in_sync rate_of (pt_agent P) (pt_site P) (rp_node_usage (pt_tables P))"
    and fixed: "revisions_fixed rate_of (me_digest env) (pt_agent P)"
    using assms(2) sampled by (simp_all add: agreed_def)
  have ok: "rows_ok rate_of (ms_usage (pt_agent P))" using sync by (simp add: in_sync_def)
  have k: "rows_ok rate_of (ms_usage A)" "revisions_fixed rate_of (me_digest env) A" "meters_move (pt_agent P) A"
    using account_keeps [OF sampled(2) ok fixed] by simp_all
  have "in_sync rate_of A (pt_site P) (rp_node_usage (pt_tables P))" by (rule in_sync_move [OF sync k(3,1)])
  with k(2) assms(2) sampled show ?thesis by (simp add: agreed_def stored_rows_def)
next
  case (reported now history applied v R)
  with accepted_agreed(1) [OF assms(2)] show ?thesis by simp
next
  case (reply_lost now history applied v R)
  with accepted_agreed(2) [OF assms(2)] show ?thesis by simp
next
  case (acknowledged A)
  have sync: "in_sync rate_of (pt_agent P) (pt_site P) (rp_node_usage (pt_tables P))"
    and acks: "\<And>r. r \<in> set (pt_ack P) \<Longrightarrow> row_stored (site_rows (rp_node_usage (pt_tables P)) (bs_ID (pt_site P))) r"
    using assms(2) by (simp_all add: agreed_def stored_rows_def)
  from in_sync_ack [OF sync acknowledged(2) acks] assms(2) acknowledged(1) show ?thesis
    by (simp add: agreed_def stored_rows_def)
next
  case (snapshot env groups sites users out v)
  have "same_meters (pt_site P) v" by (rule businessSnapshot_meters [OF snapshot(2)])
  with in_sync_meters [OF _ this] assms(2) snapshot(1) show ?thesis by (simp add: agreed_def stored_rows_def same_meters_def)
next
  case (adopted old env accounts records rows A nodes)
  have sync: "in_sync rate_of (pt_agent P) (pt_site P) (rp_node_usage (pt_tables P))" using assms(2) by (simp add: agreed_def)
  have "in_sync rate_of A (pt_site P) (rp_node_usage (pt_tables P))"
    by (rule adopted_in_sync [OF sync adopted(2) _ adopted(3,4,6)]) (rule adopted(5))
  with adopted(1,7) assms(2) show ?thesis by (simp add: agreed_def stored_rows_def)
next
  case (administered v)
  with in_sync_meters assms(2) show ?thesis by (auto simp: agreed_def stored_rows_def same_meters_def)
qed

lemma run_agreed: "protocol_run rate_of digest P Q \<Longrightarrow> agreed rate_of digest P \<Longrightarrow> agreed rate_of digest Q"
  by (induction rule: protocol_run.induct) (auto intro: step_agreed)

end
