(* ===== verification/Report_Safety.thy ===== *)
theory Report_Safety
  imports Subsite_Protocol
begin

text \<open>
  What the controller promises about one report (\<open>acceptBusinessUsage\<close>): the same report counts once,
  an acknowledged allocation shrinks only with a complete report of the snapshot that was sent last, and
  a sample that repeats counter values charges nothing.
\<close>

section \<open>A repeated sample\<close>

definition checkpointed :: "Meters \<Rightarrow> Counter \<Rightarrow> bool" where
  "checkpointed S c \<longleftrightarrow> map_of (ms_checkpoints S) (ct_Key c) = Some (ct_Generation c, ct_Value c)"

lemma checkpointed_delta: "checkpointed S c \<Longrightarrow> counter_delta (ms_checkpoints S) c = 0"
  by (simp add: checkpointed_def counter_delta_def map_get_def)

lemma record_delta_checkpoints [simp]: "ms_checkpoints (record_delta env c n p d S) = ms_checkpoints S"
  by (simp add: record_delta_def Let_def)

lemma account_counter_checkpoints:
  assumes "account_counter env policies c st = Inr st'"
  shows "map_of (ms_checkpoints (fst st')) = (map_of (ms_checkpoints (fst st)))(ct_Key c \<mapsto> (ct_Generation c, ct_Value c))"
    and "valid_counter c"
  using assms
  by (auto simp: account_counter_def Let_def charge_delta_def res_simps fun_eq_iff split: if_splits option.splits)

lemma account_counters_checkpointed:
  assumes "fold_res (account_counter env policies) cs st = Inr st'" "distinct (map ct_Key cs)"
  shows "\<forall>c \<in> set cs. checkpointed (fst st') c \<and> valid_counter c"
    and "\<And>k. k \<notin> ct_Key ` set cs \<Longrightarrow> map_of (ms_checkpoints (fst st')) k = map_of (ms_checkpoints (fst st)) k"
  using assms
proof (induction cs arbitrary: st)
  case (Cons c cs)
  {
    case 1
    then obtain st1 where step: "account_counter env policies c st = Inr st1"
      and rest: "fold_res (account_counter env policies) cs st1 = Inr st'" by (auto simp: res_simps)
    have "distinct (map ct_Key cs)" "ct_Key c \<notin> ct_Key ` set cs" using 1 by simp_all
    with Cons.IH(1) [OF rest] Cons.IH(2) [OF _ rest, of "ct_Key c"] account_counter_checkpoints [OF step]
    show ?case by (simp add: checkpointed_def)
  next
    case (2 k)
    then obtain st1 where step: "account_counter env policies c st = Inr st1"
      and rest: "fold_res (account_counter env policies) cs st1 = Inr st'" by (auto simp: res_simps)
    with Cons.IH(2) [OF _ rest, of k] account_counter_checkpoints(1) [OF step] 2 show ?case by simp
  }
qed simp_all

lemma account_counters_idle:
  assumes "\<forall>c \<in> set cs. checkpointed S c \<and> valid_counter c"
  shows "\<exists>cps. fold_res (account_counter env policies) cs (S, cache) = Inr (S\<lparr>ms_checkpoints := cps\<rparr>, cache) \<and> map_of cps = map_of (ms_checkpoints S)"
  using assms
proof (induction cs arbitrary: S)
  case Nil
  then show ?case by (intro exI [of _ "ms_checkpoints S"]) simp
next
  case (Cons c cs)
  define S1 where "S1 = S\<lparr>ms_checkpoints := map_put (ct_Key c) (ct_Generation c, ct_Value c) (ms_checkpoints S)\<rparr>"
  have c: "checkpointed S c" "valid_counter c" using Cons.prems by simp_all
  have step: "account_counter env policies c (S, cache) = Inr (S1, cache)"
    using c(2) checkpointed_delta [OF c(1)] by (simp add: account_counter_def Let_def S1_def)
  have same: "map_of (ms_checkpoints S1) = map_of (ms_checkpoints S)"
    using c(1) by (auto simp: S1_def checkpointed_def fun_eq_iff)
  then have "\<forall>c \<in> set cs. checkpointed S1 c \<and> valid_counter c" using Cons.prems by (simp add: checkpointed_def)
  from Cons.IH [OF this] obtain cps where "fold_res (account_counter env policies) cs (S1, cache) = Inr (S1\<lparr>ms_checkpoints := cps\<rparr>, cache)"
    "map_of cps = map_of (ms_checkpoints S1)" by blast
  then show ?case using step same by (intro exI [of _ cps]) (simp add: S1_def)
qed

lemma flush_users_Nil [simp]: "flush_users [] rows = rows"
  by (simp add: flush_users_def case_prod_beta)

theorem repeated_sample:
  assumes "account env cs S = Inr T" "distinct (map ct_Key cs)"
  shows "\<exists>U. account env' cs T = Inr U \<and> ms_users U = ms_users T \<and> ms_usage U = ms_usage T"
proof (cases "cs = []")
  case True
  then show ?thesis by (simp add: account_def)
next
  case False
  with assms(1) obtain S1 cache policies where
    fold: "fold_res (account_counter env policies) cs (S\<lparr>ms_policies := retain_policies policies (ms_policies S)\<rparr>, []) = Inr (S1, cache)"
    and T: "ms_checkpoints T = ms_checkpoints S1"
    by (auto simp: account_def Let_def res_simps split: if_splits)
  from account_counters_checkpointed(1) [OF fold assms(2)]
  have idle: "\<forall>c \<in> set cs. checkpointed (T\<lparr>ms_policies := p\<rparr>) c \<and> valid_counter c" for p by (simp add: checkpointed_def T)
  define p where "p = retain_policies (node_policies (ms_nodes T)) (ms_policies T)"
  obtain cps where "fold_res (account_counter env' (node_policies (ms_nodes T))) cs (T\<lparr>ms_policies := p\<rparr>, [])
      = Inr (T\<lparr>ms_policies := p, ms_checkpoints := cps\<rparr>, [])"
    using account_counters_idle [OF idle [of p]] by (metis (no_types))
  with False show ?thesis by (simp add: account_def Let_def p_def)
qed

section \<open>A repeated report\<close>

lemma stored_counts_put_row:
  "stored_counts (put_row site row table) site r
    = (if row_key r = row_key row then (nu_Upload row, nu_Download row) else stored_counts table site r)"
proof -
  define hit where "hit = (\<lambda>e. fst e = site \<and> row_key (snd e) = row_key row)"
  define f where "f = (\<lambda>e. if hit e then (fst e, (snd e)\<lparr>nu_Upload := nu_Upload row, nu_Download := nu_Download row\<rparr>) else e)"
  have fk: "fst (f e) = fst e" "row_key (snd (f e)) = row_key (snd e)" for e by (simp_all add: f_def row_key_def)
  have find_map: "find (\<lambda>e. fst e = site \<and> row_key (snd e) = row_key r) (map f table)
      = map_option f (find (\<lambda>e. fst e = site \<and> row_key (snd e) = row_key r) table)"
    by (induction table) (simp_all add: fk)
  show ?thesis
  proof (cases "list_ex hit table")
    case True
    then have put: "put_row site row table = map f table" by (simp add: put_row_def hit_def f_def)
    show ?thesis
    proof (cases "row_key r = row_key row")
      case True
      then have "(\<lambda>e. fst e = site \<and> row_key (snd e) = row_key r) = hit" by (simp add: hit_def)
      moreover obtain e where "find hit table = Some e" "hit e"
        using \<open>list_ex hit table\<close> by (cases "find hit table") (auto simp: find_None_iff find_Some_iff list_ex_iff)
      ultimately show ?thesis using True find_map by (simp add: stored_counts_def put f_def)
    next
      case False
      have "f e = e" if "find (\<lambda>e. fst e = site \<and> row_key (snd e) = row_key r) table = Some e" for e
        using that False by (auto simp: find_Some_iff f_def hit_def)
      then show ?thesis using False by (cases "find (\<lambda>e. fst e = site \<and> row_key (snd e) = row_key r) table")
        (simp_all add: stored_counts_def put find_map)
    qed
  next
    case False
    then have put: "put_row site row table = table @ [(site, row)]" by (simp add: put_row_def hit_def)
    have app: "find P (xs @ ys) = (case find P xs of Some e \<Rightarrow> Some e | None \<Rightarrow> find P ys)" for P and xs ys :: "(string \<times> NodeUsage) list"
      by (induction xs) simp_all
    have "find hit table = None" using False by (simp add: find_None_iff list_ex_iff)
    then show ?thesis by (auto simp: stored_counts_def put app hit_def split: option.splits)
  qed
qed

lemma stored_counts_put_rows:
  assumes "distinct (map row_key rows)" "r \<in> set rows"
  shows "stored_counts (foldl (\<lambda>t row. put_row site row t) table rows) site r = (nu_Upload r, nu_Download r)"
proof -
  have other: "stored_counts (foldl (\<lambda>t row. put_row site row t) table rows) site r = stored_counts table site r"
    if "row_key r \<notin> row_key ` set rows" for rows r table
    using that by (induction rows arbitrary: table) (simp_all add: stored_counts_put_row)
  from assms show ?thesis
  proof (induction rows arbitrary: table)
    case (Cons x rows)
    show ?case
    proof (cases "r \<in> set rows")
      case True
      with Cons show ?thesis by simp
    next
      case False
      with Cons.prems have "r = x" "row_key x \<notin> row_key ` set rows" by auto
      then show ?thesis by (simp add: other stored_counts_put_row)
    qed
  qed simp
qed

lemma close_rows_idle:
  assumes "\<forall>row \<in> set rows. stored_counts (rp_node_usage R) (bs_ID v) row = (nu_Upload row, nu_Download row)"
  shows "reconcileClosedBusinessUsage v rows R = Inr (R, [])"
proof -
  have "fold_res (close_row v R) rows st = Inr st"
    if "\<forall>row \<in> set rows. stored_counts (rp_node_usage R) (bs_ID v) row = (nu_Upload row, nu_Download row)" for rows st
    using that by (induction rows) (simp_all add: close_row_def Let_def split: prod.split)
  with assms show ?thesis by (simp add: reconcileClosedBusinessUsage_def)
qed

text \<open>An entry at the watermark moves nothing but its own mark.\<close>

lemma accept_entry_idle:
  assumes "accept_entry now history closed (i, next) (v, R) = Inr st" "map_of (bs_Usage v) i = Some next"
  shows "st = (put_usage i next v, R)"
proof -
  have "site_usage v i = next" using assms(2) by (simp add: site_usage_def map_get_def)
  with assms(1) show ?thesis
    by (simp add: accept_entry_def Let_def res_simps charge_month_def charge_tables_def)
qed

lemma accept_entries_idle:
  assumes "fold_res (accept_entry now history closed) entries (v, R) = Inr (v', R')"
    and "\<And>i next. (i, next) \<in> set entries \<Longrightarrow> map_of (bs_Usage v) i = Some next"
  shows "R' = R \<and> bs_MonthlyUsage v' = bs_MonthlyUsage v"
  using assms
proof (induction entries arbitrary: v)
  case Nil
  then show ?case by simp
next
  case (Cons e entries)
  obtain i n where e: "e = (i, n)" by fastforce
  with Cons.prems obtain v1 R1 where step: "accept_entry now history closed (i, n) (v, R) = Inr (v1, R1)"
    and rest: "fold_res (accept_entry now history closed) entries (v1, R1) = Inr (v', R')" by (auto simp: res_simps)
  have n: "map_of (bs_Usage v) i = Some n" using Cons.prems(2) by (simp add: e)
  have v1: "v1 = put_usage i n v" "R1 = R" using accept_entry_idle [OF step n] by simp_all
  have "map_of (bs_Usage v1) j = Some w" if "(j, w) \<in> set entries" for j w
    using Cons.prems(2) [of j w] that n by (auto simp: v1 put_usage_def)
  from Cons.IH [OF rest [unfolded v1(2)] this] show ?case by (simp add: v1 put_usage_def)
qed

lemma verify_rows_identity:
  assumes "fold_res (verify_row v table) rows (seen, sums) = Inr st"
  shows "distinct (map usageIdentity rows) \<and> set (map usageIdentity rows) \<inter> set seen = {}"
  using assms
proof (induction rows arbitrary: seen sums)
  case (Cons r rows)
  then obtain st1 where step: "verify_row v table r (seen, sums) = Inr st1"
    and rest: "fold_res (verify_row v table) rows st1 = Inr st" by (auto simp: res_simps)
  from step have "usageIdentity r \<notin> set seen" "fst st1 = usageIdentity r # seen"
    by (auto simp: verify_row_def Let_def res_simps split: if_splits option.splits)
  moreover from this rest have "distinct (map usageIdentity rows) \<and> set (map usageIdentity rows) \<inter> set (usageIdentity r # seen) = {}"
    by (intro Cons.IH [of _ "snd st1"]) (metis prod.collapse)
  ultimately show ?case by auto
qed simp

lemma verified_rows_distinct:
  assumes "verifyBusinessMeter v inb table = Inr v'" "\<not> bh_Protocol inb < 2"
  shows "distinct (map row_key (bh_NodeUsage inb))"
proof -
  from assms obtain sums w st where "fold_res (verify_row w table) (bh_NodeUsage inb) ([], sums) = Inr st"
    by (auto simp: verifyBusinessMeter_def res_simps split: if_splits)
  then have d: "distinct (map usageIdentity (bh_NodeUsage inb))" using verify_rows_identity by blast
  have "usageIdentity = (\<lambda>(u, n, p, q). itoa u @ ''/'' @ n @ ''/'' @ p @ ''/'' @ q) \<circ> row_key"
    by (simp add: fun_eq_iff usageIdentity_def row_key_def)
  then have "distinct (map (\<lambda>(u, n, p, q). itoa u @ ''/'' @ n @ ''/'' @ p @ ''/'' @ q) (map row_key (bh_NodeUsage inb)))"
    using d by simp
  then show ?thesis unfolding distinct_map by blast
qed

theorem repeated_report:
  assumes first: "acceptBusinessUsage now history inb v R = Inr (v1, R1)"
    and again: "acceptBusinessUsage now' history' inb v1 R1 = Inr (v2, R2)"
    and keys: "distinct (map fst (bh_Usage inb))" and protocol: "\<not> bh_Protocol inb < 2"
  shows "rp_users R2 = rp_users R1 \<and> rp_traffic R2 = rp_traffic R1 \<and> rp_periods R2 = rp_periods R1 \<and>
    bs_MonthlyUsage v2 = bs_MonthlyUsage (refreshMonthlyBudget now' v1)"
proof -
  obtain w0 where verified: "verifyBusinessMeter (refreshMonthlyBudget now v) inb (rp_node_usage R) = Inr w0"
    and v1: "bs_ID v1 = bs_ID v"
      "\<And>i. map_of (bs_Usage v1) i = (case map_of (bh_Usage inb) i of Some next \<Rightarrow> Some next | None \<Rightarrow> map_of (bs_Usage v) i)"
    and rows: "rp_node_usage R1 = foldl (\<lambda>t row. put_row (bs_ID v) row t) (rp_node_usage R) (bh_NodeUsage inb)"
    by (rule accept_Inr [OF first keys]) blast
  from again obtain w R' closed w2 w3 R3 where
    w: "verifyBusinessMeter (refreshMonthlyBudget now' v1) inb (rp_node_usage R1) = Inr w"
    and closed: "reconcileClosedBusinessUsage w (bh_NodeUsage inb) R1 = Inr (R', closed)"
    and w2: "fold_res raise_reservation closed w = Inr w2"
    and w3: "fold_res (accept_entry now' history' closed) (bh_Usage inb) (w2, R') = Inr (w3, R3)"
    and v2: "release_allocation inb w3 = Inr v2"
    and R2: "R2 = save_site v2 (R3\<lparr>rp_node_usage := foldl (\<lambda>t row. put_row (bs_ID v2) row t) (rp_node_usage R3) (bh_NodeUsage inb)\<rparr>)"
    unfolding acceptBusinessUsage_def Let_def by (auto simp: res_simps)
  have base: "only_baselines (refreshMonthlyBudget now' v1) w" by (rule verifyBusinessMeter_baselines [OF w])
  have refreshed: "bs_ID (refreshMonthlyBudget now' v1) = bs_ID v1" "bs_Usage (refreshMonthlyBudget now' v1) = bs_Usage v1"
    using same_meters_refresh [of v1 now'] by (simp_all add: same_meters_def)
  have wf: "bs_ID w = bs_ID v" "bs_Usage w = bs_Usage v1" "bs_MonthlyUsage w = bs_MonthlyUsage (refreshMonthlyBudget now' v1)"
    using base refreshed v1(1) by (auto simp: only_baselines_def)
  have "stored_counts (rp_node_usage R1) (bs_ID w) row = (nu_Upload row, nu_Download row)" if "row \<in> set (bh_NodeUsage inb)" for row
    unfolding rows wf(1) by (rule stored_counts_put_rows [OF verified_rows_distinct [OF verified protocol] that])
  then have "reconcileClosedBusinessUsage w (bh_NodeUsage inb) R1 = Inr (R1, [])" by (intro close_rows_idle) blast
  with closed w2 have idle: "R' = R1" "closed = []" "w2 = w" by simp_all
  have marks: "map_of (bs_Usage w) i = Some next" if "(i, next) \<in> set (bh_Usage inb)" for i "next"
    using that keys by (simp add: wf(2) v1(2))
  from accept_entries_idle [OF w3 [unfolded idle] marks] have "R3 = R1" "bs_MonthlyUsage w3 = bs_MonthlyUsage w" by simp_all
  moreover have "bs_MonthlyUsage v2 = bs_MonthlyUsage w3"
    using v2 by (auto simp: release_allocation_def split: if_splits)
  ultimately show ?thesis using wf(3) by (simp add: R2 save_site_def)
qed

section \<open>Allocations\<close>

text \<open>Issued amounts never shrink and unlimited grants never end outside the release.\<close>

definition issue_kept :: "BusinessSite \<Rightarrow> BusinessSite \<Rightarrow> bool" where
  "issue_kept v w \<longleftrightarrow> bs_Desired w = bs_Desired v \<and> bs_IssuedUnlimited w = bs_IssuedUnlimited v \<and>
     fst ` set (bs_Issued w) = fst ` set (bs_Issued v) \<and> map bg_UserID (bs_SentGrants w) = map bg_UserID (bs_SentGrants v) \<and>
     fst ` set (bs_Usage v) \<subseteq> fst ` set (bs_Usage w) \<and> (\<forall>i. site_issued v i \<le> site_issued w i)"

lemma issue_kept_refl [simp]: "issue_kept v v"
  by (simp add: issue_kept_def)

lemma issue_kept_trans: "issue_kept a b \<Longrightarrow> issue_kept b c \<Longrightarrow> issue_kept a c"
  unfolding issue_kept_def by (metis order_trans)

lemma issue_kept_fields:
  "bs_Desired w = bs_Desired v \<Longrightarrow> bs_IssuedUnlimited w = bs_IssuedUnlimited v \<Longrightarrow> bs_Issued w = bs_Issued v \<Longrightarrow>
    bs_SentGrants w = bs_SentGrants v \<Longrightarrow> bs_Usage w = bs_Usage v \<Longrightarrow> issue_kept v w"
  by (simp add: issue_kept_def site_issued_def)

lemma issue_kept_refresh [simp]: "issue_kept v (refreshMonthlyBudget now v)"
  by (rule issue_kept_fields) (simp_all add: refreshMonthlyBudget_def markBudgetExhausted_def Let_def)

lemma issue_kept_baselines: "only_baselines v w \<Longrightarrow> issue_kept v w"
  by (rule issue_kept_fields) (auto simp: only_baselines_def)

lemma raise_grants_users: "raise_grants i inc gs = Inr gs' \<Longrightarrow> map bg_UserID gs' = map bg_UserID gs"
  by (induction gs arbitrary: gs') (auto simp: res_simps split: if_splits)

lemma site_issued_put: "site_issued (v\<lparr>bs_Issued := map_put i q (bs_Issued v)\<rparr>) j = (if j = i then q else site_issued v j)"
  by (simp add: site_issued_def map_get_def)

lemma raise_reservation_kept:
  assumes "raise_reservation e v = Inr w"
  shows "issue_kept v w"
proof -
  from assms obtain inc where inc: "AddCounter (cd_quotaUpload (snd e)) (cd_quotaDownload (snd e)) = Inr inc" "0 \<le> inc"
    by (auto simp: raise_reservation_def Let_def res_simps AddCounter_def split: if_splits)
  show ?thesis
  proof (cases "inc = 0")
    case True
    with assms inc show ?thesis by (simp add: raise_reservation_def Let_def)
  next
    case False
    with assms inc obtain gs sent where
      sent: "raise_grants (fst e) inc (bs_SentGrants v) = Inr sent"
      and raise: "raise_issued (fst e) inc (v\<lparr>bs_Grants := gs, bs_SentGrants := sent\<rparr>) = Inr w"
      by (auto simp: raise_reservation_def Let_def res_simps)
    define u where "u = v\<lparr>bs_Grants := gs, bs_SentGrants := sent\<rparr>"
    have u: "issue_kept v u" using raise_grants_users [OF sent] by (simp add: issue_kept_def u_def site_issued_def)
    have "issue_kept u w"
    proof (cases "site_issued u (fst e) > 0")
      case True
      then have in_: "fst e \<in> fst ` set (bs_Issued u)"
        by (auto simp: site_issued_def map_get_def split: option.splits dest!: map_of_SomeD intro: rev_image_eqI)
      from raise True obtain q where q: "AddCounter (site_issued u (fst e)) inc = Inr q"
        and w: "w = u\<lparr>bs_Issued := map_put (fst e) q (bs_Issued u)\<rparr>"
        by (auto simp: raise_issued_def u_def res_simps)
      have "site_issued u (fst e) \<le> q" using q inc(2) by (auto simp: AddCounter_def split: if_splits)
      then have "site_issued u j \<le> site_issued w j" for j by (simp add: w site_issued_put)
      moreover have "fst ` set (map_put (fst e) q (bs_Issued u)) = fst ` set (bs_Issued u)"
        using in_ by (auto simp: map_put_def)
      ultimately show ?thesis by (simp add: issue_kept_def w)
    next
      case False
      with raise show ?thesis by (simp add: raise_issued_def u_def)
    qed
    with u show ?thesis by (rule issue_kept_trans)
  qed
qed


lemma fold_reservation_kept: "fold_res raise_reservation closed v = Inr w \<Longrightarrow> issue_kept v w"
  by (rule fold_res_invariant [of raise_reservation closed v w "issue_kept v"])
    (auto intro: issue_kept_trans raise_reservation_kept)

lemma accept_entry_kept:
  assumes "accept_entry now history closed e st = Inr st'"
  shows "issue_kept (fst st) (fst st')"
proof -
  from assms obtain v1 where m: "charge_month now (bu_Upload (snd e) - bu_Upload (site_usage (fst st) (fst e)))
      (bu_Download (snd e) - bu_Download (site_usage (fst st) (fst e))) (fst st) = Inr v1"
    and st': "fst st' = put_usage (fst e) (snd e) v1"
    by (auto simp: accept_entry_def Let_def res_simps)
  have "issue_kept (fst st) v1"
    using m by (intro issue_kept_fields)
      (auto simp: charge_month_def res_simps markBudgetExhausted_def Let_def split: if_splits)
  moreover have "issue_kept v1 (put_usage (fst e) (snd e) v1)"
    by (auto simp: issue_kept_def put_usage_def site_issued_def map_put_def)
  ultimately show ?thesis unfolding st' by (rule issue_kept_trans)
qed

lemma accept_entries_kept: "fold_res (accept_entry now history closed) entries st = Inr st' \<Longrightarrow> issue_kept (fst st) (fst st')"
  by (rule fold_res_invariant [of "accept_entry now history closed" entries st st' "\<lambda>s. issue_kept (fst st) (fst s)"])
    (auto intro: issue_kept_trans accept_entry_kept)

lemma required_users_kept:
  assumes "issue_kept v w"
  shows "set (required_users v) \<subseteq> set (required_users w)"
proof -
  have "bg_UserID ` set (bs_SentGrants w) = bg_UserID ` set (bs_SentGrants v)"
    using assms unfolding issue_kept_def by (metis set_map)
  with assms show ?thesis by (auto simp: required_users_def issue_kept_def)
qed

lemma map_has_fst: "map_has m k \<longleftrightarrow> k \<in> fst ` set m"
  using map_of_eq_None_iff [of m k] by (cases "map_of m k") (simp_all add: map_has_def)

theorem release_complete:
  assumes "acceptBusinessUsage now history inb v R = Inr (v', R')"
    and "site_issued v' i < site_issued v i \<or> site_unlimited v i \<and> \<not> site_unlimited v' i"
  shows "bh_Applied inb \<noteq> [] \<and> bh_Applied inb = bs_Desired v \<and> set (required_users v) \<subseteq> fst ` set (bh_Usage inb)"
proof -
  from assms(1) obtain v1 R1 closed v2 v3 R2 where
    v1: "verifyBusinessMeter (refreshMonthlyBudget now v) inb (rp_node_usage R) = Inr v1"
    and v2: "fold_res raise_reservation closed v1 = Inr v2"
    and v3: "fold_res (accept_entry now history closed) (bh_Usage inb) (v2, R1) = Inr (v3, R2)"
    and v4: "release_allocation inb v3 = Inr v'"
    unfolding acceptBusinessUsage_def Let_def by (auto simp: res_simps)
  have "issue_kept v v1"
    by (rule issue_kept_trans [OF issue_kept_refresh issue_kept_baselines [OF verifyBusinessMeter_baselines [OF v1]]])
  moreover have "issue_kept v2 v3" using accept_entries_kept [OF v3] by simp
  ultimately have "issue_kept v v3"
    using fold_reservation_kept [OF v2] by (blast intro: issue_kept_trans)
  then have kept: "bs_Desired v3 = bs_Desired v" "site_unlimited v3 i = site_unlimited v i" "site_issued v i \<le> site_issued v3 i"
    "set (required_users v) \<subseteq> set (required_users v3)"
    by (simp_all add: issue_kept_def site_unlimited_def required_users_kept)
  then have "v' \<noteq> v3" using assms(2) by auto
  with v4 have applied: "bh_Applied inb \<noteq> []" "bh_Applied inb = bs_Desired v3"
    and all: "\<not> list_ex (\<lambda>i. \<not> map_has (bh_Usage inb) i) (required_users v3)"
    by (auto simp: release_allocation_def split: if_splits)
  from all have "set (required_users v3) \<subseteq> fst ` set (bh_Usage inb)"
    by (auto simp: list_ex_iff map_has_fst)
  with kept applied show ?thesis by auto
qed


section \<open>Honest reports\<close>

lemma refresh_rules [simp]:
  "bs_RateRules (refreshMonthlyBudget now v) = bs_RateRules v" "bs_PeriodRules (refreshMonthlyBudget now v) = bs_PeriodRules v"
  by (simp_all add: refreshMonthlyBudget_def markBudgetExhausted_def Let_def)

text \<open>What the controller must have issued for the report of a subsite, and that the report fits one message.\<close>

definition report_issued :: "Meters \<Rightarrow> BusinessSite \<Rightarrow> bool" where
  "report_issued A v \<longleftrightarrow> length (pendingNodeUsage A) \<le> 32768 \<and>
     (\<forall>r \<in> set (pendingNodeUsage A). row_issued v r \<and> nu_UserID r \<in> fst ` set (reported_users A)) \<and>
     (\<forall>(i, u) \<in> set (reported_users A). period_accepted v i u)"

theorem honest_run_verified:
  assumes "protocol_run rate_of digest P Q" "agreed rate_of digest P" "report_issued (pt_agent Q) (pt_site Q)"
  shows "\<exists>v. verifyBusinessMeter (refreshMonthlyBudget now (pt_site Q)) (agent_report applied (pt_agent Q)) (rp_node_usage (pt_tables Q)) = Inr v"
proof -
  have "in_sync rate_of (pt_agent Q) (pt_site Q) (rp_node_usage (pt_tables Q))"
    using run_agreed [OF assms(1,2)] by (simp add: agreed_def)
  then have sync: "in_sync rate_of (pt_agent Q) (refreshMonthlyBudget now (pt_site Q)) (rp_node_usage (pt_tables Q))"
    by (rule in_sync_meters) simp
  have usage: "site_usage (refreshMonthlyBudget now (pt_site Q)) = site_usage (pt_site Q)"
    using same_meters_refresh [of "pt_site Q" now] by (simp add: same_meters_def site_usage_def fun_eq_iff)
  have row: "row_issued (refreshMonthlyBudget now (pt_site Q)) = row_issued (pt_site Q)"
    and period: "period_accepted (refreshMonthlyBudget now (pt_site Q)) = period_accepted (pt_site Q)"
    by (simp_all add: fun_eq_iff row_issued_def issued_rate_def period_issued_def period_accepted_def usage)
  have "\<exists>v'. verifyBusinessMeter (refreshMonthlyBudget now (pt_site Q)) (agent_report applied (pt_agent Q)) (rp_node_usage (pt_tables Q)) = Inr v' \<and>
      only_baselines (refreshMonthlyBudget now (pt_site Q)) v'"
    by (rule honest_report_verified [OF sync]) (use assms(3) in \<open>auto simp: report_issued_def row period\<close>)
  then show ?thesis by blast
qed

end
