(* ===== verification/Late_Traffic.thy ===== *)
theory Late_Traffic
  imports Subsite_Protocol
begin

text \<open>
  The other direction of the check of reports: an accepted report adds up at every level. Hence a subsite that took a new
  quota period over while traffic with a fraction of a byte was unreported is refused from then on.
\<close>

section \<open>What an accepted report adds up to\<close>

lemma add_row_exact:
  assumes "add_row du dd rate s = Inr s'"
  shows "sum_level l s' = sum_level l s + delta_level l rate du dd"
proof -
  obtain qu ru qd rd where w: "WeightedBytes du rate (sm_ru s) = Inr (qu, ru)" "WeightedBytes dd rate (sm_rd s) = Inr (qd, rd)"
    and s': "s' = \<lparr>sm_up = sm_up s + du, sm_down = sm_down s + dd, sm_qup = sm_qup s + qu, sm_qdown = sm_qdown s + qd, sm_ru = ru, sm_rd = rd\<rparr>"
    using assms by (auto simp: add_row_def bind_res_eq_Inr AddCounter_def split: if_split_asm)
  show ?thesis using WeightedBytes_exact(1) [OF w(1)] WeightedBytes_exact(1) [OF w(2)]
    by (cases l) (simp_all add: s' algebra_simps)
qed

text \<open>What a reported row adds to its account: the counts beyond the stored row, at the rate of the row.\<close>

definition row_gain :: "level \<Rightarrow> (string \<times> NodeUsage) list \<Rightarrow> string \<Rightarrow> NodeUsage \<Rightarrow> int" where
  "row_gain l table site r = delta_level l (nu_RateMilli r)
     (nu_Upload r - fst (stored_counts table site r)) (nu_Download r - snd (stored_counts table site r))"

definition gains :: "level \<Rightarrow> (string \<times> NodeUsage) list \<Rightarrow> string \<Rightarrow> NodeUsage list \<Rightarrow> int \<Rightarrow> int" where
  "gains l table site rows i = sum_where (\<lambda>r. nu_UserID r = i) (row_gain l table site) rows"

text \<open>A row the check lets pass: the issued rate and period, and no count below the stored one.\<close>

definition row_accepted :: "BusinessSite \<Rightarrow> (string \<times> NodeUsage) list \<Rightarrow> NodeUsage \<Rightarrow> bool" where
  "row_accepted v table r \<longleftrightarrow> issued_rate v r = Some (nu_RateMilli r) \<and> period_issued v (nu_UserID r) (nu_PeriodID r) \<and>
     fst (stored_counts table (bs_ID v) r) \<le> nu_Upload r \<and> snd (stored_counts table (bs_ID v) r) \<le> nu_Download r"

lemma verify_row_exact:
  assumes "verify_row v table r (seen, sums) = Inr (seen', totals)"
  shows "row_accepted v table r" "map_of sums i = Some s \<Longrightarrow>
    \<exists>t. map_of totals i = Some t \<and> (\<forall>l. sum_level l t = sum_level l s + gains l table (bs_ID v) [r] i)"
proof -
  obtain s0 s' where ok: "row_accepted v table r" and s0: "map_of sums (nu_UserID r) = Some s0"
    and add: "add_row (nu_Upload r - fst (stored_counts table (bs_ID v) r)) (nu_Download r - snd (stored_counts table (bs_ID v) r)) (nu_RateMilli r) s0 = Inr s'"
    and totals: "totals = map_put (nu_UserID r) s' sums"
    using assms by (auto simp: verify_row_def Let_def bind_res_eq_Inr row_accepted_def not_less split: if_split_asm option.split_asm)
  show "row_accepted v table r" by (rule ok)
  show "\<exists>t. map_of totals i = Some t \<and> (\<forall>l. sum_level l t = sum_level l s + gains l table (bs_ID v) [r] i)" if "map_of sums i = Some s"
    using add_row_exact [OF add] s0 that by (cases "i = nu_UserID r") (auto simp: totals gains_def row_gain_def)
qed

lemma verify_rows_exact:
  assumes "fold_res (verify_row v table) rows (seen, sums) = Inr (seen', totals)" "map_of sums i = Some s"
  shows "list_all (row_accepted v table) rows \<and>
    (\<exists>t. map_of totals i = Some t \<and> (\<forall>l. sum_level l t = sum_level l s + gains l table (bs_ID v) rows i))"
  using assms
proof (induction rows arbitrary: seen sums s)
  case (Cons r rows)
  obtain seen1 sums1 where step: "verify_row v table r (seen, sums) = Inr (seen1, sums1)"
    and rest: "fold_res (verify_row v table) rows (seen1, sums1) = Inr (seen', totals)"
    using Cons.prems(1) by (auto simp: res_simps)
  obtain s1 where s1: "map_of sums1 i = Some s1" "\<And>l. sum_level l s1 = sum_level l s + gains l table (bs_ID v) [r] i"
    using verify_row_exact(2) [OF step Cons.prems(2)] by auto
  obtain t where t: "map_of totals i = Some t" "\<And>l. sum_level l t = sum_level l s1 + gains l table (bs_ID v) rows i"
    and ok: "list_all (row_accepted v table) rows"
    using Cons.IH [OF rest s1(1)] by auto
  have "gains l table (bs_ID v) (r # rows) i = gains l table (bs_ID v) [r] i + gains l table (bs_ID v) rows i" for l
    by (simp add: gains_def)
  with t s1(2) ok verify_row_exact(1) [OF step] show ?case by simp
qed (simp add: gains_def)

text \<open>Where a metered account starts.\<close>

definition restart_sum :: "BusinessUsage \<Rightarrow> BusinessUsage \<Rightarrow> meter_sum" where
  "restart_sum old reported =
    (if bu_PeriodID reported \<noteq> bu_PeriodID old then (start_sum old)\<lparr>sm_ru := 0, sm_rd := 0\<rparr> else start_sum old)"

lemma check_baseline_metered:
  assumes "check_baseline v i old base = Inr (s, v')" "bu_Metered old"
  shows "s = start_sum old"
  using assms by (auto simp: check_baseline_def split: option.split_asm if_split_asm)

lemma check_baseline_only: "check_baseline v i old base = Inr (s, v') \<Longrightarrow> only_baselines v v'"
  by (auto simp: check_baseline_def only_baselines_def intro: only_baselines_refl [unfolded only_baselines_def] split: option.split_asm if_split_asm)

lemma verify_user_start:
  assumes "verify_user inb (j, reported) (sums, v) = Inr (sums', v')" "only_baselines v0 v"
  shows "only_baselines v0 v' \<and> (\<forall>i. i \<noteq> j \<longrightarrow> map_of sums' i = map_of sums i) \<and>
    (bu_Metered (site_usage v0 j) \<longrightarrow> map_of sums' j = Some (restart_sum (site_usage v0 j) reported))"
proof -
  have use: "site_usage v = site_usage v0" by (rule only_baselines_fields(5) [OF assms(2)])
  obtain base s w where c: "check_baseline v j (site_usage v0 j) base = Inr (s, w)" and v': "v' = w"
    and sums': "sums' = map_put j (if bu_PeriodID reported \<noteq> bu_PeriodID (site_usage v0 j) \<and> bu_Metered (site_usage v0 j)
      then s\<lparr>sm_ru := 0, sm_rd := 0\<rparr> else s) sums"
    using assms(1) by (auto simp: verify_user_def Let_def use bind_res_eq_Inr split: if_split_asm option.split_asm)
  have "only_baselines v0 v'" using assms(2) check_baseline_only [OF c] by (auto simp: v' only_baselines_def)
  with check_baseline_metered [OF c] show ?thesis by (auto simp: sums' restart_sum_def)
qed

lemma verify_users_start:
  assumes "fold_res (verify_user inb) users (sums, v) = Inr (sums', v')" "only_baselines v0 v" "distinct (map fst users)"
  shows "only_baselines v0 v' \<and> (\<forall>i. i \<notin> fst ` set users \<longrightarrow> map_of sums' i = map_of sums i) \<and>
    (\<forall>(i, reported) \<in> set users. bu_Metered (site_usage v0 i) \<longrightarrow> map_of sums' i = Some (restart_sum (site_usage v0 i) reported))"
  using assms
proof (induction users arbitrary: sums v)
  case (Cons e users)
  obtain j reported where e: "e = (j, reported)" by fastforce
  obtain sums1 v1 where step: "verify_user inb (j, reported) (sums, v) = Inr (sums1, v1)"
    and rest: "fold_res (verify_user inb) users (sums1, v1) = Inr (sums', v')"
    using Cons.prems(1) by (auto simp: res_simps e)
  note s = verify_user_start [OF step Cons.prems(2)]
  note ih = Cons.IH [OF rest conjunct1 [OF s]]
  show ?case using ih s Cons.prems(3) by (auto simp: e)
qed simp

text \<open>Whatever a subsite sends: an accepted total of a metered account is the stored one plus what its rows gain.\<close>

theorem verified_totals:
  assumes run: "verifyBusinessMeter v inb table = Inr v'" and protocol: "2 \<le> bh_Protocol inb"
    and keys: "distinct (map fst (bh_Usage inb))" and mem: "(i, reported) \<in> set (bh_Usage inb)" and metered: "bu_Metered (site_usage v i)"
  shows "list_all (row_accepted v table) (bh_NodeUsage inb) \<and> (\<exists>t. totals_agree t reported \<and>
    (\<forall>l. sum_level l t = sum_level l (restart_sum (site_usage v i) reported) + gains l table (bs_ID v) (bh_NodeUsage inb) i))"
proof -
  obtain sums w seen totals where users: "fold_res (verify_user inb) (bh_Usage inb) ([], v) = Inr (sums, w)"
    and rows: "fold_res (verify_row w table) (bh_NodeUsage inb) ([], sums) = Inr (seen, totals)"
    and agree: "list_all (\<lambda>(i, next). case map_of totals i of None \<Rightarrow> False | Some s \<Rightarrow> totals_agree s next) (bh_Usage inb)"
    using run protocol by (auto simp: verifyBusinessMeter_def bind_res_eq_Inr split: if_split_asm)
  note start = verify_users_start [OF users only_baselines_refl keys]
  then have first: "map_of sums i = Some (restart_sum (site_usage v i) reported)" using mem metered by auto
  note f = only_baselines_fields [OF conjunct1 [OF start]]
  have same: "row_accepted w = row_accepted v" by (auto simp: fun_eq_iff row_accepted_def issued_rate_def period_issued_def f)
  obtain t where t: "map_of totals i = Some t" "\<And>l. sum_level l t = sum_level l (restart_sum (site_usage v i) reported)
      + gains l table (bs_ID v) (bh_NodeUsage inb) i" and ok: "list_all (row_accepted v table) (bh_NodeUsage inb)"
    using verify_rows_exact [OF rows first] by (auto simp: f(1) same)
  have "totals_agree t reported" using agree mem t(1) by (auto simp: list_all_iff)
  with t(2) ok show ?thesis by blast
qed

lemma accepted_totals:
  assumes accept: "acceptBusinessUsage now history inb v R = Inr (v', R')" and protocol: "2 \<le> bh_Protocol inb"
    and keys: "distinct (map fst (bh_Usage inb))" and mem: "(i, reported) \<in> set (bh_Usage inb)" and metered: "bu_Metered (site_usage v i)"
  shows "list_all (row_accepted v (rp_node_usage R)) (bh_NodeUsage inb) \<and>
    bu_Upload reported = bu_Upload (site_usage v i) + gains RawUp (rp_node_usage R) (bs_ID v) (bh_NodeUsage inb) i \<and>
    bu_Download reported = bu_Download (site_usage v i) + gains RawDown (rp_node_usage R) (bs_ID v) (bh_NodeUsage inb) i \<and>
    1000 * bu_QuotaUpload reported + bu_UploadRemainder reported = 1000 * bu_QuotaUpload (site_usage v i)
      + (if bu_PeriodID reported = bu_PeriodID (site_usage v i) then bu_UploadRemainder (site_usage v i) else 0)
      + gains CostUp (rp_node_usage R) (bs_ID v) (bh_NodeUsage inb) i \<and>
    1000 * bu_QuotaDownload reported + bu_DownloadRemainder reported = 1000 * bu_QuotaDownload (site_usage v i)
      + (if bu_PeriodID reported = bu_PeriodID (site_usage v i) then bu_DownloadRemainder (site_usage v i) else 0)
      + gains CostDown (rp_node_usage R) (bs_ID v) (bh_NodeUsage inb) i"
proof -
  define w where "w = refreshMonthlyBudget now v"
  have m: "same_meters v w" unfolding w_def by (rule same_meters_refresh)
  have rules: "bs_RateRules w = bs_RateRules v" "bs_PeriodRules w = bs_PeriodRules v"
    unfolding w_def by (simp_all add: refreshMonthlyBudget_def markBudgetExhausted_def Let_def)
  from m have same: "bs_ID w = bs_ID v" "site_usage w i = site_usage v i"
    by (simp_all add: same_meters_def site_usage_def)
  have rows: "row_accepted w = row_accepted v"
    by (simp add: fun_eq_iff row_accepted_def issued_rate_def period_issued_def rules same(1))
  obtain w' where run: "verifyBusinessMeter w inb (rp_node_usage R) = Inr w'"
    using accept by (auto simp: acceptBusinessUsage_def w_def bind_res_eq_Inr)
  have start: "sum_level RawUp (restart_sum (site_usage v i) reported) = bu_Upload (site_usage v i)"
    "sum_level RawDown (restart_sum (site_usage v i) reported) = bu_Download (site_usage v i)"
    "sum_level CostUp (restart_sum (site_usage v i) reported) = 1000 * bu_QuotaUpload (site_usage v i)
      + (if bu_PeriodID reported = bu_PeriodID (site_usage v i) then bu_UploadRemainder (site_usage v i) else 0)"
    "sum_level CostDown (restart_sum (site_usage v i) reported) = 1000 * bu_QuotaDownload (site_usage v i)
      + (if bu_PeriodID reported = bu_PeriodID (site_usage v i) then bu_DownloadRemainder (site_usage v i) else 0)"
    using metered by (simp_all add: restart_sum_def start_sum_def)
  obtain t where ok: "list_all (row_accepted v (rp_node_usage R)) (bh_NodeUsage inb)" and t: "totals_agree t reported"
    "\<And>l. sum_level l t = sum_level l (restart_sum (site_usage v i) reported) + gains l (rp_node_usage R) (bs_ID v) (bh_NodeUsage inb) i"
    using verified_totals [OF run protocol keys mem] metered by (auto simp: same rows)
  show ?thesis using ok t(1) t(2) [of RawUp] t(2) [of RawDown] t(2) [of CostUp] t(2) [of CostDown]
    unfolding start by (simp add: totals_agree_def)
qed

text \<open>The tables of the two sides agree, whatever the accounts say.\<close>

definition tables_in_sync :: "(string \<Rightarrow> string \<Rightarrow> int) \<Rightarrow> Meters \<Rightarrow> BusinessSite \<Rightarrow> (string \<times> NodeUsage) list \<Rightarrow> bool" where
  "tables_in_sync rate_of A v table \<longleftrightarrow> in_sync rate_of (A\<lparr>ms_users := []\<rparr>) v table"

lemma tables_in_sync_eq:
  "tables_in_sync rate_of A v table \<longleftrightarrow> rows_ok rate_of (ms_usage A) \<and> rows_ok rate_of (site_rows table (bs_ID v)) \<and>
    rows_le (site_rows table (bs_ID v)) (ms_usage A) \<and> acks_stored (ms_acks A) (site_rows table (bs_ID v))"
  by (simp add: tables_in_sync_def in_sync_def)

lemma pending_without_users: "pendingNodeUsage (A\<lparr>ms_users := us\<rparr>) = pendingNodeUsage A"
  by (simp add: pendingNodeUsage_def row_pending_def ack_of_def cong: filter_cong)

lemma pending_gains:
  assumes "tables_in_sync rate_of A v table"
  shows "gains l table (bs_ID v) (pendingNodeUsage A) i = usage_level l (ms_usage A) i - usage_level l (site_rows table (bs_ID v)) i"
proof -
  have ok: "rows_ok rate_of (site_rows table (bs_ID v))" "rows_ok rate_of (ms_usage A)" using assms by (simp_all add: tables_in_sync_eq)
  have "row_gain l table (bs_ID v) r = row_level l r - level_at l (site_rows table (bs_ID v)) (row_key r)" if "r \<in> set (pendingNodeUsage A)" for r
    using row_ahead [OF ok(1), of r l] ok(2) that by (auto simp: row_gain_def pendingNodeUsage_def rows_ok_def)
  then have "gains l table (bs_ID v) (pendingNodeUsage A) i
      = sum_where (\<lambda>r. nu_UserID r = i) (\<lambda>r. row_level l r - level_at l (site_rows table (bs_ID v)) (row_key r)) (pendingNodeUsage A)"
    unfolding gains_def sum_where_def by (intro arg_cong [of _ _ sum_list] map_cong) simp_all
  then show ?thesis
    using sync_pending_level [OF assms [unfolded tables_in_sync_def], of i l] by (simp add: pending_without_users)
qed

lemma accepted_report_exact:
  assumes run: "verifyBusinessMeter v (agent_report applied A) table = Inr v'" and sync: "tables_in_sync rate_of A v table"
    and keys: "distinct (map fst (ms_users A))" and u: "map_of (ms_users A) i = Some u" "u_Role u = ''user''"
    and metered: "bu_Metered (site_usage v i)"
  shows "\<exists>t. totals_agree t (businessUsageOf u) \<and>
    (\<forall>l. sum_level l t = sum_level l (restart_sum (site_usage v i) (businessUsageOf u))
       + usage_level l (ms_usage A) i - usage_level l (site_rows table (bs_ID v)) i)"
proof -
  have dist: "distinct (map fst (bh_Usage (agent_report applied A)))"
    using keys by (simp add: agent_report_def reported_users_def o_def case_prod_beta distinct_map_filter)
  have mem: "(i, businessUsageOf u) \<in> set (bh_Usage (agent_report applied A))"
    using u by (force simp: agent_report_def reported_users_def dest: map_of_SomeD)
  have rows: "bh_NodeUsage (agent_report applied A) = pendingNodeUsage A" "2 \<le> bh_Protocol (agent_report applied A)"
    by (simp_all add: agent_report_def)
  show ?thesis using verified_totals [OF run rows(2) dist mem metered] by (simp add: rows(1) pending_gains [OF sync] algebra_simps)
qed

section \<open>A period that changes under a fraction of a byte\<close>

lemma restart_new_period:
  assumes "bu_Metered old" "period_of u \<noteq> bu_PeriodID old"
  shows "sum_level CostUp (restart_sum old (businessUsageOf u)) = 1000 * bu_QuotaUpload old"
    "sum_level CostDown (restart_sum old (businessUsageOf u)) = 1000 * bu_QuotaDownload old"
  using assms by (simp_all add: restart_sum_def start_sum_def)

lemma totals_cost:
  assumes "totals_agree t (businessUsageOf u)" "u_Meter u = Some m"
  shows "sum_level CostUp t = user_level CostUp u" "sum_level CostDown t = user_level CostDown u"
  using assms by (simp_all add: totals_agree_def businessUsageOf_def Let_def)

text \<open>The fraction of weighted bytes that the rows of an account are ahead of the controller's.\<close>

definition late_fraction :: "level \<Rightarrow> Meters \<Rightarrow> BusinessSite \<Rightarrow> (string \<times> NodeUsage) list \<Rightarrow> int \<Rightarrow> int" where
  "late_fraction l A v table i = (usage_level l (ms_usage A) i - usage_level l (site_rows table (bs_ID v)) i) mod 1000"

text \<open>An account that took over the new period with its totals and without its fractions.\<close>

lemma restarted_refused:
  assumes sync: "tables_in_sync rate_of A v table" and keys: "distinct (map fst (ms_users A))"
    and r: "map_of (ms_users A) i = Some r" "u_Role r = ''user''" "u_Meter r = Some m"
      "qm_UploadRemainder m = 0" "qm_DownloadRemainder m = 0" "qm_PeriodID m \<noteq> bu_PeriodID (site_usage v i)"
    and metered: "bu_Metered (site_usage v i)"
    and late: "late_fraction CostUp A v table i \<noteq> 0 \<or> late_fraction CostDown A v table i \<noteq> 0"
    and move: "meters_move A A'" "rows_ok rate_of (ms_usage A')"
  shows "verifyBusinessMeter v (agent_report applied A') table \<noteq> Inr v'"
proof
  assume run: "verifyBusinessMeter v (agent_report applied A') table = Inr v'"
  have books: "books_move (ms_usage A) (ms_usage A') (map_of (ms_users A)) (map_of (ms_users A'))"
    and frame: "map fst (ms_users A') = map fst (ms_users A)" "ms_acks A' = ms_acks A"
    using move(1) by (simp_all add: meters_move_def)
  have sync': "tables_in_sync rate_of A' v table"
    using sync move(2) books by (auto simp: tables_in_sync_eq frame books_move_def intro: rows_le_trans)
  have "rel_option (user_moves i (ms_usage A) (ms_usage A')) (Some r) (map_of (ms_users A') i)"
    using books r(1) unfolding books_move_def by metis
  then obtain u where u: "map_of (ms_users A') i = Some u" "user_moves i (ms_usage A) (ms_usage A') r u"
    by (cases "map_of (ms_users A') i") auto
  then obtain m' where m': "u_Meter u = Some m'" "qm_PeriodID m' = qm_PeriodID m" "u_Role u = ''user''"
    using r(2,3) by (auto simp: user_moves_def meter_follows_def)
  have level: "user_level l u = user_level l r - usage_level l (ms_usage A) i + usage_level l (ms_usage A') i" for l
    using u(2) by (simp add: user_moves_def algebra_simps)
  have period: "period_of u \<noteq> bu_PeriodID (site_usage v i)" using m' r(6) by (simp add: period_of_def)
  have keys': "distinct (map fst (ms_users A'))" using keys frame(1) by simp
  obtain t where t: "totals_agree t (businessUsageOf u)" "\<And>l. sum_level l t = sum_level l (restart_sum (site_usage v i) (businessUsageOf u))
       + usage_level l (ms_usage A') i - usage_level l (site_rows table (bs_ID v)) i"
    using accepted_report_exact [OF run sync' keys' u(1) m'(3) metered] by blast
  have "usage_level CostUp (ms_usage A) i - usage_level CostUp (site_rows table (bs_ID v)) i
      = 1000 * (qm_Upload m - bu_QuotaUpload (site_usage v i))"
    using t(2) [of CostUp] totals_cost(1) [OF t(1) m'(1)] level [of CostUp] restart_new_period(1) [OF metered period] r(3,4) by simp
  moreover have "usage_level CostDown (ms_usage A) i - usage_level CostDown (site_rows table (bs_ID v)) i
      = 1000 * (qm_Download m - bu_QuotaDownload (site_usage v i))"
    using t(2) [of CostDown] totals_cost(2) [OF t(1) m'(1)] level [of CostDown] restart_new_period(2) [OF metered period] r(3,5) by simp
  ultimately show False using late by (simp add: late_fraction_def)
qed

lemma merge_meter_restarts:
  assumes "qm_PeriodID s \<noteq> qm_PeriodID m"
  shows "qm_UploadRemainder (merge_meter (Some s) m) = 0" "qm_DownloadRemainder (merge_meter (Some s) m) = 0"
    "qm_PeriodID (merge_meter (Some s) m) = qm_PeriodID s"
  using assms by (simp_all add: merge_meter_def Let_def)

text \<open>A snapshot that gives an account a period other than the one of its meter and the one last reported.\<close>

definition changes_period :: "(User \<times> Credentials) list \<Rightarrow> int \<Rightarrow> QuotaMeter \<Rightarrow> string \<Rightarrow> bool" where
  "changes_period accounts i m reported \<longleftrightarrow> i \<in> set (received_ids accounts) \<and>
    list_all (\<lambda>(w, c). u_ID w = i \<longrightarrow> (case u_Meter w of None \<Rightarrow> False
      | Some s \<Rightarrow> qm_PeriodID s \<noteq> qm_PeriodID m \<and> qm_PeriodID s \<noteq> reported)) accounts"

lemma adopted_restarts:
  assumes adopt: "adopt_accounts env accounts old = Inr records" "replaceBusinessState records old = Inr rows"
    and old: "unique_ids old" "owners_apart accounts old" "x \<in> set old" "u_Meter x = Some m"
    and snap: "changes_period accounts (u_ID x) m p"
  shows "\<exists>r m'. map_of (agent_users rows) (u_ID x) = Some r \<and> u_Role r = ''user'' \<and> u_Meter r = Some m' \<and>
    qm_UploadRemainder m' = 0 \<and> qm_DownloadRemainder m' = 0 \<and> qm_PeriodID m' \<noteq> p"
proof -
  note a = adopt_accounts_Inr [OF adopt(1) old(1,2)]
  obtain r where r: "account_of records (u_ID x) = Some r" "is_received env old accounts r" using a(2) snap by (auto simp: changes_period_def)
  then obtain w c name where w: "(w, c) \<in> set accounts" "u_Role w = ''user''" "r = adopted_record env old (w\<lparr>u_Username := name\<rparr>) c"
    unfolding is_received_def by blast
  have id: "u_ID w = u_ID x" using account_of_Some [OF r(1)] w(3) old(1) by simp
  obtain s where s: "u_Meter w = Some s" "qm_PeriodID s \<noteq> qm_PeriodID m" "qm_PeriodID s \<noteq> p"
    using snap w(1) id by (auto simp: changes_period_def list_all_iff split: option.split_asm)
  have x: "account_of old (u_ID x) = Some x" using old(1,3) by (rule account_of_unique)
  have "r = merge_old (ad_now env) (w\<lparr>u_Username := name\<rparr>) x (received_record (w\<lparr>u_Username := name\<rparr>) c)"
    using w(3) x id old(1) by (simp add: adopted_record_eq)
  then have "u_Meter r = Some (merge_meter (Some s) m)" "u_Role r = ''user''" using old(4) s(1) w(2) by simp_all
  then have "u_Meter (User.truncate (stored_row r)) = Some (merge_meter (Some s) m)" "u_Role (User.truncate (stored_row r)) = ''user''"
    by (simp_all add: User.defs stored_row_def)
  moreover have "map_of (agent_users rows) (u_ID x) = Some (User.truncate (stored_row r))"
    using replaceBusinessState_Inr [OF adopt(2) a(1), of "u_ID x"] r(1) by simp
  ultimately show ?thesis using merge_meter_restarts [OF s(2)] s(3)
    by (intro exI [of _ "User.truncate (stored_row r)"] exI [of _ "merge_meter (Some s) m"] conjI) simp_all
qed

text \<open>The whole event: the late traffic, the snapshot, any samples after it, and the report.\<close>

theorem late_fraction_refused:
  assumes sync: "in_sync rate_of A v (rp_node_usage R)"
    and adopt: "ms_users A = agent_users old" "adopt_accounts env accounts old = Inr records" "replaceBusinessState records old = Inr rows"
    and old: "unique_ids old" "owners_apart accounts old" "x \<in> set old" "u_Meter x = Some m"
    and snap: "changes_period accounts (u_ID x) m (bu_PeriodID (site_usage v (u_ID x)))"
    and metered: "bu_Metered (site_usage v (u_ID x))"
    and late: "late_fraction CostUp A v (rp_node_usage R) (u_ID x) \<noteq> 0 \<or> late_fraction CostDown A v (rp_node_usage R) (u_ID x) \<noteq> 0"
    and later: "account_all samples (A\<lparr>ms_users := agent_users rows, ms_nodes := nodes\<rparr>) = Inr A'"
      "revisions_fixed rate_of digest (A\<lparr>ms_users := agent_users rows, ms_nodes := nodes\<rparr>)"
      "list_all (\<lambda>(menv, cs). me_digest menv = digest) samples"
  shows "\<exists>e. acceptBusinessUsage now history (agent_report applied A') v R = Inl e"
proof -
  define B where "B = A\<lparr>ms_users := agent_users rows, ms_nodes := nodes\<rparr>"
  define w where "w = refreshMonthlyBudget now v"
  have same: "bs_ID w = bs_ID v" "site_usage w = site_usage v"
    using same_meters_refresh [of v now] by (simp_all add: w_def same_meters_def site_usage_def fun_eq_iff)
  have tables: "tables_in_sync rate_of B w (rp_node_usage R)" using sync by (simp add: tables_in_sync_eq in_sync_def B_def same)
  have users: "ms_users B = agent_users rows" by (simp add: B_def)
  obtain r m' where r: "map_of (ms_users B) (u_ID x) = Some r" "u_Role r = ''user''" "u_Meter r = Some m'"
    "qm_UploadRemainder m' = 0" "qm_DownloadRemainder m' = 0" "qm_PeriodID m' \<noteq> bu_PeriodID (site_usage w (u_ID x))"
    unfolding users same using adopted_restarts [OF adopt(2,3) old snap] by blast
  have keys: "distinct (map fst (ms_users B))"
    using replaceBusinessState_ids [OF adopt(3) old(1)] by (simp add: B_def agent_users_def unique_ids_def o_def)
  have rows: "rows_ok rate_of (ms_usage B)" using tables by (simp add: tables_in_sync_eq)
  have moved: "rows_ok rate_of (ms_usage A')" "meters_move B A'"
    using account_all_keeps [OF later(1) [folded B_def] rows later(2) [folded B_def]] later(3) by (auto simp: list_all_iff)
  have late': "late_fraction CostUp B w (rp_node_usage R) (u_ID x) \<noteq> 0 \<or> late_fraction CostDown B w (rp_node_usage R) (u_ID x) \<noteq> 0"
    using late by (simp add: late_fraction_def B_def same)
  have "verifyBusinessMeter w (agent_report applied A') (rp_node_usage R) \<noteq> Inr v'" for v'
    by (rule restarted_refused [OF tables keys r _ late' moved(2,1)]) (simp add: same metered)
  then obtain e where "verifyBusinessMeter w (agent_report applied A') (rp_node_usage R) = Inl e"
    by (cases "verifyBusinessMeter w (agent_report applied A') (rp_node_usage R)") auto
  then show ?thesis by (simp add: acceptBusinessUsage_def w_def)
qed

end
