(* ===== verification/Subsite_Samples.thy ===== *)
theory Subsite_Samples
  imports Report_Safety Late_Traffic
begin

text \<open>
  A concrete subsite with one node at rate 1.5 and one account, its site record at the controller, and
  one report; the witnesses of the properties evaluate the operations on them.
\<close>

definition sub_node :: Node where
  "sub_node = zero_node\<lparr>nd_ID := ''n1'', nd_Protocol := ''vless'', nd_Enabled := True, nd_PolicyVersion := 1,
     nd_RateMilli := 1500, nd_RateRevision := ''fast''\<rparr>"

definition sub_rate :: "string \<Rightarrow> string \<Rightarrow> int" where
  "sub_rate node revision = (if revision = ''fast'' then 1500 else 1000)"

definition sub_digest :: "string \<Rightarrow> string" where
  "sub_digest s = s"

definition sub_user :: User where
  "sub_user = \<lparr>u_NodeGroupIDs = None, u_Mount = None, u_Archived = False, u_ID = 7, u_Username = ''user7'', u_Role = ''user'',
     u_Enabled = True, u_VLESS = True, u_HY2 = True, u_Expires = 0, u_Quota = 1000, u_Upload = 0, u_Download = 0,
     u_VLESSTraffic = 0, u_HY2Traffic = 0, u_Created = 1, u_LastSub = 0, u_CompiledGroups = None,
     u_Meter = Some (empty_meter\<lparr>qm_PeriodID := ''p1''\<rparr>), u_Entitlement = None, u_PlanQueue = []\<rparr>"

definition sub_meters :: Meters where
  "sub_meters = \<lparr>ms_users = [(7, sub_user)], ms_nodes = [sub_node], ms_policies = [], ms_checkpoints = [], ms_usage = [],
     ms_acks = [], ms_traffic = []\<rparr>"

definition sub_site :: BusinessSite where
  "sub_site = \<lparr>bs_ID = ''s1'', bs_Enabled = True, bs_Removed = False, bs_OwnerID = 1, bs_Mount = None, bs_Protocol = Some 2,
     bs_DefaultNodes = [], bs_Nodes = [], bs_RateRules = [(''n1/fast'', 1500)], bs_PeriodRules = [(''7/p1'', True), (''7/p2'', True)],
     bs_UsageBaseline = [], bs_MonthlyBudget = 0, bs_MonthlyUsage = 0, bs_MonthlyBudgetPeriod = ''1970-01'', bs_CooldownSeconds = 3600,
     bs_BudgetCooldownUntil = 0, bs_Commands = [], bs_Grants = [], bs_Revision = [], bs_Applied = [], bs_Desired = ''rev1'',
     bs_LeaseUntil = 0, bs_Usage = [], bs_Issued = [(7, 1000)], bs_IssuedUnlimited = [],
     bs_SentGrants = [], bs_IssuedNodes = [], bs_SentNodes = [sub_node]\<rparr>"

definition sub_tables :: Reports where
  "sub_tables = \<lparr>rp_users = [(7, sub_user)], rp_node_usage = [], rp_periods = [], rp_traffic = [], rp_sites = [sub_site]\<rparr>"

definition sub_counter :: "int \<Rightarrow> Counter" where
  "sub_counter n = \<lparr>ct_Key = ''k'', ct_Generation = ''g'', ct_Protocol = ''vless'', ct_Direction = ''up'', ct_NodeID = ''n1'', ct_UserID = 7, ct_Value = n\<rparr>"

definition sub_env :: meter_env where
  "sub_env = \<lparr>me_now = 5000, me_logs = True, me_digest = sub_digest\<rparr>"

definition sub_charged :: User where
  "sub_charged = sub_user\<lparr>u_Upload := 5, u_VLESSTraffic := 5,
     u_Meter := Some (empty_meter\<lparr>qm_PeriodID := ''p1'', qm_Upload := 7, qm_UploadRemainder := 500\<rparr>)\<rparr>"

definition sub_row :: NodeUsage where
  "sub_row = \<lparr>nu_UserID = 7, nu_NodeID = ''n1'', nu_PeriodID = ''p1'', nu_RateRevision = ''fast'', nu_RateMilli = 1500,
     nu_Upload = 5, nu_Download = 0\<rparr>"

definition sub_sampled :: Meters where
  "sub_sampled = sub_meters\<lparr>ms_users := [(7, sub_charged)], ms_policies := [(''n1'', sub_node), (''legacy-private/n1'', sub_node)],
     ms_checkpoints := [(''k'', ''g'', 5)], ms_usage := [sub_row], ms_traffic := [((3600, 7), 5, 0)]\<rparr>"

lemma sub_account: "account sub_env [sub_counter 5] sub_meters = Inr sub_sampled"
  by code_simp

definition sub_usage :: BusinessUsage where
  "sub_usage = no_usage\<lparr>bu_PeriodID := ''p1'', bu_UploadRemainder := 500, bu_Metered := True, bu_QuotaUpload := 7, bu_Upload := 5, bu_VLESS := 5\<rparr>"

definition sub_report :: BusinessHeartbeat where
  "sub_report = \<lparr>bh_Protocol = 2, bh_Applied = ''rev1'', bh_Usage = [(7, sub_usage)], bh_NodeUsage = [sub_row], bh_UsageBaseline = [(7, no_usage)]\<rparr>"

lemma sub_reported: "agent_report ''rev1'' sub_sampled = sub_report"
  by code_simp

lemma sub_month: "utc_month 5000 = ''1970-01''"
  by code_simp

lemma sub_refreshed: "refreshMonthlyBudget 5000 sub_site = sub_site"
  by (simp add: refreshMonthlyBudget_def sub_month sub_site_def cooldown_or_default_def markBudgetExhausted_def Let_def
      maxBudgetCooldownSeconds_def defaultBudgetCooldownSeconds_def)

definition sub_verified :: BusinessSite where
  "sub_verified = sub_site\<lparr>bs_UsageBaseline := [(7, no_usage)]\<rparr>"

lemma sub_verify: "verifyBusinessMeter sub_site sub_report [] = Inr sub_verified"
  by code_simp

lemma sub_reconcile: "reconcileClosedBusinessUsage sub_verified [sub_row] sub_tables = Inr (sub_tables, [])"
  by code_simp


definition sub_owed :: User where
  "sub_owed = sub_user\<lparr>u_Upload := 5, u_VLESSTraffic := 5, u_Meter := Some (empty_meter\<lparr>qm_PeriodID := ''p1'', qm_Upload := 7\<rparr>)\<rparr>"

definition sub_marked :: BusinessSite where
  "sub_marked = sub_verified\<lparr>bs_MonthlyUsage := 5, bs_Usage := [(7, sub_usage)]\<rparr>"

definition sub_moved :: Reports where
  "sub_moved = sub_tables\<lparr>rp_users := [(7, sub_owed)], rp_traffic := [((3600, 7), 5, 0)]\<rparr>"

lemma sub_entry: "accept_entry 5000 True [] (7, sub_usage) (sub_verified, sub_tables) = Inr (sub_marked, sub_moved)"
  by code_simp

definition sub_released :: BusinessSite where
  "sub_released = sub_marked\<lparr>bs_IssuedNodes := [sub_node], bs_Applied := ''rev1'', bs_Issued := []\<rparr>"

lemma sub_release: "release_allocation sub_report sub_marked = Inr sub_released"
  by code_simp

definition sub_stored :: Reports where
  "sub_stored = sub_moved\<lparr>rp_node_usage := [(''s1'', sub_row)], rp_sites := [sub_released]\<rparr>"

lemma sub_saved: "save_site sub_released (sub_moved\<lparr>rp_node_usage := foldl (\<lambda>t row. put_row (bs_ID sub_released) row t) (rp_node_usage sub_moved) [sub_row]\<rparr>) = sub_stored"
  by code_simp

lemma sub_report_parts [simp]: "bh_NodeUsage sub_report = [sub_row]" "bh_Usage sub_report = [(7, sub_usage)]"
    "bh_Protocol sub_report = 2" "rp_node_usage sub_tables = []"
  by (simp_all add: sub_report_def sub_tables_def)

lemma sub_accept: "acceptBusinessUsage 5000 True sub_report sub_site sub_tables = Inr (sub_released, sub_stored)"
  by (simp add: acceptBusinessUsage_def sub_refreshed sub_verify sub_reconcile sub_entry sub_release sub_saved [simplified] Let_def
      del: foldl_Cons foldl.simps) (simp add: sub_saved [simplified])

text \<open>The same report once more.\<close>

lemma sub_refreshed_again: "refreshMonthlyBudget 5000 sub_released = sub_released"
  by (simp add: refreshMonthlyBudget_def sub_month sub_released_def sub_marked_def sub_verified_def sub_site_def cooldown_or_default_def
      markBudgetExhausted_def Let_def maxBudgetCooldownSeconds_def defaultBudgetCooldownSeconds_def)

lemma sub_verify_again: "verifyBusinessMeter sub_released sub_report [(''s1'', sub_row)] = Inr sub_released"
  by code_simp

lemma sub_reconcile_again: "reconcileClosedBusinessUsage sub_released [sub_row] sub_stored = Inr (sub_stored, [])"
  by code_simp

lemma sub_entry_again: "accept_entry 5000 True [] (7, sub_usage) (sub_released, sub_stored) = Inr (sub_released, sub_stored)"
  by code_simp

lemma sub_release_again: "release_allocation sub_report sub_released = Inr sub_released"
  by code_simp

lemma sub_saved_again: "save_site sub_released (sub_stored\<lparr>rp_node_usage := put_row (bs_ID sub_released) sub_row (rp_node_usage sub_stored)\<rparr>) = sub_stored"
  by code_simp

lemma sub_stored_rows [simp]: "rp_node_usage sub_stored = [(''s1'', sub_row)]"
  by (simp add: sub_stored_def)

lemma sub_accept_again: "acceptBusinessUsage 5000 True sub_report sub_released sub_stored = Inr (sub_released, sub_stored)"
  using sub_saved_again
  by (simp add: acceptBusinessUsage_def sub_refreshed_again sub_verify_again sub_reconcile_again sub_entry_again sub_release_again Let_def)


section \<open>A run of the protocol\<close>

definition sub_start :: protocol where
  "sub_start = \<lparr>pt_agent = sub_meters, pt_site = sub_site, pt_tables = sub_tables, pt_ack = []\<rparr>"

lemma sub_fixed: "revisions_fixed sub_rate sub_digest sub_meters"
proof -
  have p: "node_policies [sub_node] = [(''legacy-private/n1'', sub_node), (''n1'', sub_node)]" by code_simp
  have n: "node_policy (node_policies [sub_node]) [] y
      = (if y = ''legacy-private/n1'' \<or> y = ''n1'' then sub_node else normalizeNodePolicy (zero_node\<lparr>nd_ID := y\<rparr>))" for y
    unfolding p by (simp add: node_policy_def)
  have "nd_RateMilli (node_policy (node_policies [sub_node]) [] y) = sub_rate x (nd_RateRevision (node_policy (node_policies [sub_node]) [] y))" for x y
    unfolding n by (simp add: normalizeNodePolicy_def zero_node_def sub_node_def sub_rate_def)
  then show ?thesis
    by (simp add: revisions_fixed_def policies_fixed_def sub_meters_def sub_user_def planNodePolicy_def)
qed

lemma sub_agreed: "agreed sub_rate sub_digest sub_start"
proof -
  have "user_synced sub_site 7 sub_user"
    by (simp add: user_synced_def user_in_range_def meter_in_range_def baseline_agrees_def baseline_invalid_def baseline_of_def
        first_sum_def opening_sum_def start_sum_def sum_ok_def sub_user_def sub_site_def empty_meter_def site_usage_def map_get_def
        no_usage_def CounterLimit_def Let_def map_has_def)
  moreover have "user_level l sub_user = sum_level l (first_sum sub_site 7 sub_user)" for l
    by (cases l) (simp_all add: baseline_of_def first_sum_def opening_sum_def start_sum_def sub_user_def sub_site_def empty_meter_def
        site_usage_def map_get_def no_usage_def Let_def map_has_def)
  ultimately have "in_sync sub_rate sub_meters sub_site []"
    by (simp add: in_sync_def sub_meters_def site_rows_def rows_ok_def rows_le_def acks_stored_def usage_level_def)
  with sub_fixed show ?thesis by (simp add: agreed_def sub_start_def)
qed

definition sub_carried :: protocol where
  "sub_carried = sub_start\<lparr>pt_agent := sub_sampled\<rparr>"

lemma sub_run: "protocol_run sub_rate sub_digest sub_start sub_carried"
proof (rule protocol_run.further [OF protocol_run.idle])
  show "protocol_step sub_rate sub_digest sub_start sub_carried"
    unfolding sub_carried_def
  proof (rule protocol_step.sampled)
    show "account sub_env [sub_counter 5] (pt_agent sub_start) = Inr sub_sampled" by (simp add: sub_start_def sub_account)
    show "me_digest sub_env = sub_digest" by (simp add: sub_env_def)
  qed
qed

lemma sub_pending: "pendingNodeUsage sub_sampled = [sub_row]" "reported_users sub_sampled = [(7, sub_charged)]"
  by code_simp+

lemma sub_issued: "row_issued sub_site sub_row" "period_accepted sub_site 7 sub_charged"
  by code_simp+

definition sub_delivered :: protocol where
  "sub_delivered = sub_carried\<lparr>pt_site := sub_released, pt_tables := sub_stored, pt_ack := [sub_row]\<rparr>"

definition sub_acked :: Meters where
  "sub_acked = sub_sampled\<lparr>ms_acks := [((7, ''n1'', ''p1'', ''fast''), 5, 0)]\<rparr>"

lemma sub_ack: "ackBusinessUsage [sub_row] sub_sampled = Inr sub_acked"
  by code_simp

definition sub_settled :: protocol where
  "sub_settled = sub_delivered\<lparr>pt_agent := sub_acked\<rparr>"

lemma sub_run_settled: "protocol_run sub_rate sub_digest sub_start sub_settled"
proof (rule protocol_run.further [OF protocol_run.further [OF sub_run]])
  have "acceptBusinessUsage 5000 True (agent_report ''rev1'' (pt_agent sub_carried)) (pt_site sub_carried) (pt_tables sub_carried)
      = Inr (sub_released, sub_stored)"
    by (simp add: sub_carried_def sub_start_def sub_reported sub_accept)
  from protocol_step.reported [OF this] show "protocol_step sub_rate sub_digest sub_carried sub_delivered"
    by (simp add: sub_delivered_def sub_carried_def sub_pending)
  have "ackBusinessUsage (pt_ack sub_delivered) (pt_agent sub_delivered) = Inr sub_acked"
    by (simp add: sub_delivered_def sub_carried_def sub_ack)
  from protocol_step.acknowledged [OF this] show "protocol_step sub_rate sub_digest sub_delivered sub_settled"
    by (simp add: sub_settled_def)
qed

section \<open>A period that changes under unreported traffic\<close>

definition sub_late_user :: User where
  "sub_late_user = sub_user\<lparr>u_Upload := 6, u_VLESSTraffic := 6, u_Meter := Some (empty_meter\<lparr>qm_PeriodID := ''p1'', qm_Upload := 9\<rparr>)\<rparr>"

definition sub_late :: Meters where
  "sub_late = sub_sampled\<lparr>ms_users := [(7, sub_late_user)], ms_policies := [(''n1'', sub_node), (''legacy-private/n1'', sub_node)],
     ms_checkpoints := [(''k'', ''g'', 6)], ms_usage := [sub_row\<lparr>nu_Upload := 6\<rparr>], ms_traffic := [((3600, 7), 6, 0)]\<rparr>"

lemma sub_account_late: "account sub_env [sub_counter 6] sub_sampled = Inr sub_late"
  by code_simp

definition sub_credentials :: Credentials where
  "sub_credentials = \<lparr>cr_PublicToken = [], cr_HYGeneration = 0, cr_HY2 = replicate 43 (CHR ''h''), cr_Token = [], cr_VLESS = []\<rparr>"

definition sub_snapshot_user :: User where
  "sub_snapshot_user = sub_user\<lparr>u_Meter := Some (empty_meter\<lparr>qm_PeriodID := ''p2''\<rparr>)\<rparr>"

definition sub_record :: "User \<Rightarrow> Record" where
  "sub_record u = User.extend u (Record.fields sub_credentials ''!'' False [])"

definition sub_next :: "int \<Rightarrow> int \<Rightarrow> User" where
  "sub_next raw weighted = sub_user\<lparr>u_Upload := raw, u_VLESSTraffic := raw,
     u_Meter := Some (empty_meter\<lparr>qm_PeriodID := ''p2'', qm_Upload := weighted\<rparr>)\<rparr>"

definition sub_adopt :: adopt_env where
  "sub_adopt = \<lparr>ad_now = 6000, ad_digest = sub_digest, ad_nodes = []\<rparr>"

lemma sub_adopts:
  "adopt_accounts sub_adopt [(sub_snapshot_user, sub_credentials)] [sub_record sub_charged] = Inr [sub_record (sub_next 5 7)]"
  "adopt_accounts sub_adopt [(sub_snapshot_user, sub_credentials)] [sub_record sub_late_user] = Inr [sub_record (sub_next 6 9)]"
  by code_simp+

lemma sub_replaces:
  "replaceBusinessState [sub_record (sub_next 5 7)] [sub_record sub_charged] = Inr [sub_record (sub_next 5 7)]"
  "replaceBusinessState [sub_record (sub_next 6 9)] [sub_record sub_late_user] = Inr [sub_record (sub_next 6 9)]"
  by code_simp+

lemma sub_agents:
  "agent_users [sub_record sub_charged] = ms_users sub_sampled" "agent_users [sub_record sub_late_user] = ms_users sub_late"
  "agent_users [sub_record (sub_next raw weighted)] = [(7, sub_next raw weighted)]"
  by (simp_all add: agent_users_def sub_record_def User.defs sub_charged_def sub_user_def sub_sampled_def sub_late_user_def sub_late_def sub_next_def)

definition sub_next_usage :: "int \<Rightarrow> int \<Rightarrow> BusinessUsage" where
  "sub_next_usage raw weighted = \<lparr>bu_PeriodID = ''p2'', bu_UploadRemainder = 0, bu_DownloadRemainder = 0, bu_Metered = True,
     bu_QuotaUpload = weighted, bu_QuotaDownload = 0, bu_Upload = raw, bu_Download = 0, bu_VLESS = raw, bu_HY2 = 0\<rparr>"

definition sub_late_row :: NodeUsage where
  "sub_late_row = \<lparr>nu_UserID = 7, nu_NodeID = ''n1'', nu_PeriodID = ''p1'', nu_RateRevision = ''fast'', nu_RateMilli = 1500,
     nu_Upload = 6, nu_Download = 0\<rparr>"

definition sub_next_report :: "int \<Rightarrow> int \<Rightarrow> NodeUsage \<Rightarrow> BusinessHeartbeat" where
  "sub_next_report raw weighted row = \<lparr>bh_Protocol = 2, bh_Applied = ''rev2'', bh_Usage = [(7, sub_next_usage raw weighted)],
     bh_NodeUsage = [row], bh_UsageBaseline = [(7, no_usage)]\<rparr>"

lemma sub_next_reports:
  "agent_report ''rev2'' (sub_sampled\<lparr>ms_users := [(7, sub_next 5 7)]\<rparr>) = sub_next_report 5 7 sub_row"
  "agent_report ''rev2'' (sub_late\<lparr>ms_users := [(7, sub_next 6 9)]\<rparr>) = sub_next_report 6 9 sub_late_row"
  by code_simp+

lemma sub_next_verified: "verifyBusinessMeter sub_released (sub_next_report 5 7 sub_row) [(''s1'', sub_row)] = Inr sub_released"
  by code_simp

lemma sub_late_refused: "verifyBusinessMeter sub_released (sub_next_report 6 9 sub_late_row) [(''s1'', sub_row)]
    = Inl (Refused ''weighted usage verification failed'')"
  by code_simp

lemma sub_unique: "unique_ids [sub_record u]"
  by (simp add: unique_ids_def)

lemma sub_apart: "owners_apart [(sub_snapshot_user, sub_credentials)] [sub_record sub_charged]"
  by (simp add: owners_apart_def sub_record_def User.defs sub_charged_def sub_user_def)

text \<open>The state the controller and the subsite are in when the new period arrives after the late traffic.\<close>

lemma sub_late_sync: "in_sync sub_rate sub_late sub_released (rp_node_usage sub_stored)"
proof -
  have run: "protocol_run sub_rate sub_digest sub_start sub_delivered"
  proof (rule protocol_run.further [OF sub_run])
    have "acceptBusinessUsage 5000 True (agent_report ''rev1'' (pt_agent sub_carried)) (pt_site sub_carried) (pt_tables sub_carried)
        = Inr (sub_released, sub_stored)"
      by (simp add: sub_carried_def sub_start_def sub_reported sub_accept)
    from protocol_step.reported [OF this] show "protocol_step sub_rate sub_digest sub_carried sub_delivered"
      by (simp add: sub_delivered_def sub_carried_def sub_pending)
  qed
  have "account sub_env [sub_counter 6] (pt_agent sub_delivered) = Inr sub_late"
    by (simp add: sub_delivered_def sub_carried_def sub_account_late)
  from protocol_step.sampled [OF this] have "protocol_step sub_rate sub_digest sub_delivered (sub_delivered\<lparr>pt_agent := sub_late\<rparr>)"
    by (simp add: sub_env_def)
  from run_agreed [OF protocol_run.further [OF run this] sub_agreed] show ?thesis
    by (simp add: agreed_def sub_delivered_def)
qed

lemma sub_late_unreported: "late_fraction CostUp sub_late sub_released (rp_node_usage sub_stored) 7 \<noteq> 0"
  by code_simp

lemma sub_late_changes:
  "changes_period [(sub_snapshot_user, sub_credentials)] 7 (empty_meter\<lparr>qm_PeriodID := ''p1'', qm_Upload := 9\<rparr>)
     (bu_PeriodID (site_usage sub_released 7))"
  "bu_Metered (site_usage sub_released 7)"
  by code_simp+

lemma sub_late_apart: "owners_apart [(sub_snapshot_user, sub_credentials)] [sub_record sub_late_user]"
  by (simp add: owners_apart_def sub_record_def User.defs sub_late_user_def sub_user_def)

lemma sub_late_meter:
  "u_ID (sub_record sub_late_user) = 7" "u_Meter (sub_record sub_late_user) = Some (empty_meter\<lparr>qm_PeriodID := ''p1'', qm_Upload := 9\<rparr>)"
  by (simp_all add: sub_record_def User.defs sub_late_user_def sub_user_def)

lemma sub_late_fixed: "revisions_fixed sub_rate sub_digest (sub_late\<lparr>ms_users := agent_users [sub_record (sub_next 6 9)], ms_nodes := []\<rparr>)"
  unfolding sub_agents revisions_fixed_def policies_fixed_def
  by (auto simp: sub_late_def sub_sampled_def sub_meters_def sub_next_def sub_user_def sub_rate_def sub_node_def planNodePolicy_def
      node_policy_def node_policies_def normalizeNodePolicy_def zero_node_def split: option.split if_splits)

text \<open>A second report with one more byte in the same period.\<close>

definition sub_more_usage :: BusinessUsage where
  "sub_more_usage = sub_usage\<lparr>bu_UploadRemainder := 0, bu_QuotaUpload := 9, bu_Upload := 6, bu_VLESS := 6\<rparr>"

definition sub_more :: BusinessHeartbeat where
  "sub_more = sub_report\<lparr>bh_Usage := [(7, sub_more_usage)], bh_NodeUsage := [sub_row\<lparr>nu_Upload := 6\<rparr>]\<rparr>"

lemma sub_accept_more: "\<exists>v R. acceptBusinessUsage 5000 True sub_more sub_released sub_stored = Inr (v, R)"
proof -
  have "(case acceptBusinessUsage 5000 True sub_more sub_released sub_stored of Inl e \<Rightarrow> False | Inr r \<Rightarrow> True)" by code_simp
  then show ?thesis by (cases "acceptBusinessUsage 5000 True sub_more sub_released sub_stored") auto
qed

lemma sub_more_parts [simp]: "bh_Usage sub_more = [(7, sub_more_usage)]" "bh_NodeUsage sub_more = [sub_row\<lparr>nu_Upload := 6\<rparr>]"
  "bh_Protocol sub_more = 2"
  by (simp_all add: sub_more_def)

lemma sub_released_usage: "site_usage sub_released 7 = sub_usage"
  by code_simp

end
