(* ===== verification/Client_Hello.thy ===== *)
theory Client_Hello
  imports Prelude
begin

text \<open>
  The public TLS entry (\<open>backend/internal/ingressgateway/clienthello.go\<close>, the domain rules of
  \<open>config.go\<close>, the dispatch of \<open>server.go\<close>): the ClientHello is read from one or more TLS records,
  parsed for the server name and the application protocols, and the connection goes to the panel, to the ACME
  responder or, with every consumed byte replayed, to a Reality upstream. A connection is the list of bytes the
  peer will send before the deadline; a read past its end is the error of \<open>io.ReadFull\<close>.
\<close>

section \<open>Bytes and names\<close>

type_synonym byte = "8 word"

definition text_of :: "byte list \<Rightarrow> string" where
  "text_of bs = map (\<lambda>b. char_of (unat b)) bs"

text \<open>
  \<open>strings.ToLower\<close> on the bytes of a name. Apart from the ASCII capitals, two runes have an ASCII lower
  case: the Kelvin sign (bytes E2 84 AA) and the capital I with a dot (C4 B0). All others keep a byte above 127, here
  the bytes themselves, and \<open>validDomain\<close> refuses them either way.
\<close>

fun to_lower :: "byte list \<Rightarrow> byte list" where
  "to_lower [] = []"
| "to_lower [b] = [if 65 \<le> b \<and> b \<le> 90 then b + 32 else b]"
| "to_lower [b, c] = (if b = 0xC4 \<and> c = 0xB0 then [0x69] else (if 65 \<le> b \<and> b \<le> 90 then b + 32 else b) # to_lower [c])"
| "to_lower (b # c # d # bs) =
    (if b = 0xC4 \<and> c = 0xB0 then 0x69 # to_lower (d # bs)
     else if b = 0xE2 \<and> c = 0x84 \<and> d = 0xAA then 0x6B # to_lower bs
     else (if 65 \<le> b \<and> b \<le> 90 then b + 32 else b) # to_lower (c # d # bs))"

definition label_char :: "char \<Rightarrow> bool" where
  "label_char c \<longleftrightarrow> (let n = of_char c :: nat in 97 \<le> n \<and> n \<le> 122 \<or> 48 \<le> n \<and> n \<le> 57)"

text \<open>\<open>[a-z0-9](?:[a-z0-9-]*[a-z0-9])?\<close>.\<close>

definition domain_label :: "string \<Rightarrow> bool" where
  "domain_label l \<longleftrightarrow> l \<noteq> [] \<and> label_char (hd l) \<and> label_char (last l) \<and> list_all (\<lambda>c. label_char c \<or> c = CHR ''-'') l"

fun labels :: "string \<Rightarrow> string list" where
  "labels [] = [[]]"
| "labels (c # s) = (if c = CHR ''.'' then [] # labels s else (case labels s of l # ls \<Rightarrow> (c # l) # ls | [] \<Rightarrow> [[c]]))"

definition domainPattern :: "string \<Rightarrow> bool" where
  "domainPattern s \<longleftrightarrow> 2 \<le> length (labels s) \<and> list_all domain_label (labels s)"

definition validDomain :: "string \<Rightarrow> bool" where
  "validDomain s \<longleftrightarrow> length s \<le> 63 \<and> domainPattern s"

section \<open>The cursor\<close>

datatype hello_error =
  Malformed | InvalidServerName | ServerNameRequired | MixedACME
| ShortRead | InvalidRecord | NotClientHello | InvalidLength | TooManyFragments

definition take_bytes :: "nat \<Rightarrow> byte list \<Rightarrow> hello_error + (byte list \<times> byte list)" where
  "take_bytes n c = (if n > length c then Inl Malformed else Inr (take n c, drop n c))"

definition u8 :: "byte list \<Rightarrow> hello_error + (nat \<times> byte list)" where
  "u8 c = bind_res (take_bytes 1 c) (\<lambda>(b, c). Inr (unat (b ! 0), c))"

definition u16 :: "byte list \<Rightarrow> hello_error + (nat \<times> byte list)" where
  "u16 c = bind_res (take_bytes 2 c) (\<lambda>(b, c). Inr (256 * unat (b ! 0) + unat (b ! 1), c))"

lemma take_bytes_Inr [simp]: "take_bytes n c = Inr (a, b) \<longleftrightarrow> n \<le> length c \<and> a = take n c \<and> b = drop n c"
  by (auto simp: take_bytes_def)

lemma u8_Inr: "u8 c = Inr (n, c') \<longleftrightarrow> (\<exists>b. c = b # c' \<and> n = unat b)"
  by (cases c) (auto simp: u8_def res_simps)

lemma u16_Inr: "u16 c = Inr (n, c') \<longleftrightarrow> (\<exists>a b. c = a # b # c' \<and> n = 256 * unat a + unat b)"
proof (cases c rule: to_lower.cases)
  case (3 b d)
  then show ?thesis by (auto simp: u16_def res_simps numeral_2_eq_2)
next
  case (4 b d e bs)
  then show ?thesis by (auto simp: u16_def res_simps numeral_2_eq_2)
qed (auto simp: u16_def res_simps)

section \<open>Extensions\<close>

text \<open>The server names of extension 0: one host name.\<close>

function server_names :: "byte list \<Rightarrow> string \<Rightarrow> hello_error + string" where
  "server_names e name =
    (if e = [] then Inr name
     else bind_res (u8 e) (\<lambda>(kind, e1).
       if kind \<noteq> 0 \<or> name \<noteq> [] then Inl Malformed
       else bind_res (u16 e1) (\<lambda>(n, e2). bind_res (take_bytes n e2) (\<lambda>(v, e3).
         let name' = text_of (to_lower v) in
         if \<not> validDomain name' then Inl InvalidServerName else server_names e3 name'))))"
  by pat_completeness auto
termination
  by (relation "measure (\<lambda>(e, name). length e)") (auto simp: u8_Inr u16_Inr)

text \<open>The protocols of extension 16.\<close>

function alpn_protocols :: "byte list \<Rightarrow> string list \<Rightarrow> hello_error + string list" where
  "alpn_protocols e ps =
    (if e = [] then Inr ps
     else bind_res (u8 e) (\<lambda>(n, e1).
       if n = 0 then Inl Malformed
       else bind_res (take_bytes n e1) (\<lambda>(v, e2). alpn_protocols e2 (ps @ [text_of v]))))"
  by pat_completeness auto
termination
  by (relation "measure (\<lambda>(e, ps). length e)") (auto simp: u8_Inr)

definition extension :: "nat \<Rightarrow> byte list \<Rightarrow> string \<times> string list \<Rightarrow> hello_error + (string \<times> string list)" where
  "extension kind value st =
    (if kind = 0 then
       bind_res (u16 value) (\<lambda>(n, e). if n \<noteq> length e then Inl Malformed
         else bind_res (server_names e (fst st)) (\<lambda>name. Inr (name, snd st)))
     else if kind = 16 then
       bind_res (u16 value) (\<lambda>(n, e). if n \<noteq> length e \<or> n = 0 then Inl Malformed
         else bind_res (alpn_protocols e (snd st)) (\<lambda>ps. Inr (fst st, ps)))
     else Inr st)"

function extensions :: "byte list \<Rightarrow> nat list \<Rightarrow> string \<times> string list \<Rightarrow> hello_error + (string \<times> string list)" where
  "extensions c seen st =
    (if c = [] then Inr st
     else bind_res (u16 c) (\<lambda>(kind, c1). bind_res (u16 c1) (\<lambda>(n, c2). bind_res (take_bytes n c2) (\<lambda>(value, c3).
       if kind \<in> set seen then Inl Malformed
       else bind_res (extension kind value st) (\<lambda>st'. extensions c3 (kind # seen) st')))))"
  by pat_completeness auto
termination
  by (relation "measure (\<lambda>(c, seen, st). length c)") (auto simp: u16_Inr)

declare server_names.simps [simp del] alpn_protocols.simps [simp del] extensions.simps [simp del]

definition parseHelloBody :: "byte list \<Rightarrow> hello_error + (string \<times> string list)" where
  "parseHelloBody b =
    bind_res (take_bytes 34 b) (\<lambda>(_, c).
    bind_res (u8 c) (\<lambda>(n, c).
    bind_res (if n > 32 then Inl Malformed else take_bytes n c) (\<lambda>(_, c).
    bind_res (u16 c) (\<lambda>(n, c).
    bind_res (if n < 2 \<or> n mod 2 \<noteq> 0 then Inl Malformed else take_bytes n c) (\<lambda>(_, c).
    bind_res (u8 c) (\<lambda>(n, c).
    bind_res (if n = 0 then Inl Malformed else take_bytes n c) (\<lambda>(_, c).
    bind_res (u16 c) (\<lambda>(n, c).
    if n \<noteq> length c then Inl Malformed
    else bind_res (extensions c [] ([], [])) (\<lambda>(name, protocols).
      if name = [] then Inl ServerNameRequired
      else if list_ex (\<lambda>p. p = ''acme-tls/1'' \<and> length protocols \<noteq> 1) protocols then Inl MixedACME
      else Inr (name, protocols))))))))))"

section \<open>Records\<close>

definition maxHelloBytes :: nat where "maxHelloBytes = 65536"
definition maxHelloRecords :: nat where "maxHelloRecords = 128"

definition read_full :: "nat \<Rightarrow> byte list \<Rightarrow> hello_error + (byte list \<times> byte list)" where
  "read_full n r = (if n > length r then Inl ShortRead else Inr (take n r, drop n r))"

definition record_size :: "byte list \<Rightarrow> nat" where
  "record_size h = 256 * unat (h ! 3) + unat (h ! 4)"

definition invalid_record :: "byte list \<Rightarrow> byte list \<Rightarrow> bool" where
  "invalid_record h raw \<longleftrightarrow> h ! 0 \<noteq> 22 \<or> h ! 1 \<noteq> 3 \<or> h ! 2 > 3 \<or> record_size h = 0 \<or> record_size h > 18432 \<or>
     length raw + 5 + record_size h > maxHelloBytes"

definition hello_length :: "byte list \<Rightarrow> nat" where
  "hello_length body = 4 + unat (body ! 1) * 2 ^ 16 + unat (body ! 2) * 2 ^ 8 + unat (body ! 3)"

text \<open>What the handshake says about its length, once its header is complete; 0 is \<open>not known yet\<close>.\<close>

definition wanted_length :: "byte list \<Rightarrow> nat \<Rightarrow> hello_error + nat" where
  "wanted_length body wanted =
    (if length body \<ge> 4 \<and> wanted = 0
     then if body ! 0 \<noteq> 1 then Inl NotClientHello
          else if hello_length body < 42 \<or> hello_length body > maxHelloBytes - 5 then Inl InvalidLength
          else Inr (hello_length body)
     else Inr wanted)"

record clientHello =
  ch_serverName :: string
  ch_protocols :: "string list"
  ch_raw :: "byte list"

text \<open>The loop, with the records still allowed; the rest of the connection is returned unread.\<close>

fun read_records :: "nat \<Rightarrow> byte list \<Rightarrow> byte list \<Rightarrow> byte list \<Rightarrow> nat \<Rightarrow> hello_error + (clientHello \<times> byte list)" where
  "read_records 0 r raw body wanted = Inl TooManyFragments"
| "read_records (Suc records) r raw body wanted =
    bind_res (read_full 5 r) (\<lambda>(h, r1).
    if invalid_record h raw then Inl InvalidRecord
    else bind_res (read_full (record_size h) r1) (\<lambda>(b, r2).
    let raw' = raw @ h @ b; body' = body @ b in
    bind_res (wanted_length body' wanted) (\<lambda>wanted'.
    if wanted' > 0 \<and> length body' \<ge> wanted'
    then bind_res (parseHelloBody (drop 4 (take wanted' body'))) (\<lambda>(name, protocols).
      Inr (\<lparr>ch_serverName = name, ch_protocols = protocols, ch_raw = raw'\<rparr>, r2))
    else read_records records r2 raw' body' wanted')))"

definition readClientHello :: "byte list \<Rightarrow> hello_error + (clientHello \<times> byte list)" where
  "readClientHello r = read_records maxHelloRecords r [] [] 0"

section \<open>Dispatch\<close>

record gateway_config =
  gc_PanelDomain :: string
  gc_NodeDomain :: string
  gc_RealitySNI :: string
  gc_RealityUpstream :: string
  gc_RealitySocketDir :: string

definition owns :: "gateway_config \<Rightarrow> string \<Rightarrow> bool" where
  "owns c name \<longleftrightarrow> name = gc_PanelDomain c \<or> name = gc_NodeDomain c"

definition domains :: "gateway_config \<Rightarrow> string list" where
  "domains c = (if gc_PanelDomain c = gc_NodeDomain c then [gc_PanelDomain c] else [gc_PanelDomain c, gc_NodeDomain c])"

datatype upstream = Tcp string | Unix string

text \<open>
  \<open>is_socket\<close> is what \<open>os.Lstat\<close> says of a path; \<open>filepath.Join\<close> of the clean directory of the
  configuration and a valid domain is their concatenation.
\<close>

definition realityTarget :: "gateway_config \<Rightarrow> (string \<Rightarrow> bool) \<Rightarrow> string \<Rightarrow> upstream option" where
  "realityTarget c is_socket name =
    (if \<not> validDomain name \<or> owns c name then None
     else if name = gc_RealitySNI c then Some (Tcp (gc_RealityUpstream c))
     else let path = gc_RealitySocketDir c @ ''/'' @ name @ ''.sock'' in
       if is_socket path then Some (Unix path) else None)"

datatype route =
  Closed
| AnswerACME "byte list"
| Panel "byte list"
| Relay upstream "byte list"

text \<open>The bytes of a route are what its reader sees: the consumed ones, then the rest of the connection.\<close>

definition dispatch :: "gateway_config \<Rightarrow> (string \<Rightarrow> bool) \<Rightarrow> bool \<Rightarrow> byte list \<Rightarrow> route" where
  "dispatch c is_socket maintenance r =
    (case readClientHello r of
       Inl _ \<Rightarrow> Closed
     | Inr (hello, rest) \<Rightarrow>
         let replay = ch_raw hello @ rest in
         if owns c (ch_serverName hello)
         then if ch_protocols hello = [''acme-tls/1''] then AnswerACME replay else Panel replay
         else if ''acme-tls/1'' \<in> set (ch_protocols hello) then Closed
         else if maintenance then Closed
         else case realityTarget c is_socket (ch_serverName hello) of None \<Rightarrow> Closed | Some u \<Rightarrow> Relay u replay)"

section \<open>What a parsed ClientHello guarantees\<close>

lemma read_full_Inr [simp]: "read_full n r = Inr (a, b) \<longleftrightarrow> r = a @ b \<and> length a = n"
  by (auto simp: read_full_def)

text \<open>One record: what an accepted run has read, and how it went on.\<close>

lemma read_records_Inr:
  assumes "read_records (Suc records) r raw body wanted = Inr (hello, rest)"
  obtains h b r2 wanted' where "r = h @ b @ r2" "length h = 5" "length b = record_size h" "\<not> invalid_record h raw"
    "wanted_length (body @ b) wanted = Inr wanted'"
    "rest = r2 \<and> ch_raw hello = raw @ h @ b \<and> 0 < wanted' \<and> wanted' \<le> length (body @ b) \<and>
        parseHelloBody (drop 4 (take wanted' (body @ b))) = Inr (ch_serverName hello, ch_protocols hello)
     \<or> read_records records r2 (raw @ h @ b) (body @ b) wanted' = Inr (hello, rest)"
  using assms by (auto simp: res_simps Let_def split: if_splits)

lemma read_records_replay:
  assumes "read_records records r raw body wanted = Inr (hello, rest)"
  shows "ch_raw hello @ rest = raw @ r \<and> length (ch_raw hello) \<le> maxHelloBytes"
  using assms
proof (induction records arbitrary: r raw body wanted)
  case (Suc records)
  from Suc.prems show ?case
  proof (rule read_records_Inr)
    fix h b r2 wanted'
    assume r: "r = h @ b @ r2" "length h = 5" "length b = record_size h" and h: "\<not> invalid_record h raw"
      and step: "rest = r2 \<and> ch_raw hello = raw @ h @ b \<and> 0 < wanted' \<and> wanted' \<le> length (body @ b) \<and>
        parseHelloBody (drop 4 (take wanted' (body @ b))) = Inr (ch_serverName hello, ch_protocols hello)
     \<or> read_records records r2 (raw @ h @ b) (body @ b) wanted' = Inr (hello, rest)"
    from step show ?thesis
    proof
      assume "read_records records r2 (raw @ h @ b) (body @ b) wanted' = Inr (hello, rest)"
      from Suc.IH [OF this] r show ?thesis by simp
    qed (use r h in \<open>auto simp: invalid_record_def\<close>)
  qed
qed simp

lemma server_names_valid:
  assumes "server_names e name = Inr name'" "name = [] \<or> validDomain name"
  shows "name' = [] \<or> validDomain name'"
  using assms
proof (induction e name rule: server_names.induct)
  case (1 e name)
  show ?case
  proof (cases "e = []")
    case True
    with 1(2,3) show ?thesis by (simp add: server_names.simps)
  next
    case False
    with 1(2) obtain kind e1 n e2 v e3 where s: "u8 e = Inr (kind, e1)" "\<not> (kind \<noteq> 0 \<or> name \<noteq> [])" "u16 e1 = Inr (n, e2)"
      "take_bytes n e2 = Inr (v, e3)" "validDomain (text_of (to_lower v))" "server_names e3 (text_of (to_lower v)) = Inr name'"
      by (subst (asm) server_names.simps) (auto simp: res_simps Let_def split: if_splits)
    then show ?thesis using 1(1) [OF False s(1) refl s(2) s(3) refl s(4) refl refl] by simp
  qed
qed

lemma extension_valid:
  assumes "extension kind value st = Inr st'" "fst st = [] \<or> validDomain (fst st)"
  shows "fst st' = [] \<or> validDomain (fst st')"
  using assms server_names_valid by (fastforce simp: extension_def res_simps split: if_splits)

lemma extensions_valid:
  assumes "extensions c seen st = Inr st'" "fst st = [] \<or> validDomain (fst st)"
  shows "fst st' = [] \<or> validDomain (fst st')"
  using assms
proof (induction c seen st rule: extensions.induct)
  case (1 c seen st)
  show ?case
  proof (cases "c = []")
    case True
    with 1(2,3) show ?thesis by (simp add: extensions.simps)
  next
    case False
    with 1(2) obtain kind c1 n c2 v c3 st1 where s: "u16 c = Inr (kind, c1)" "u16 c1 = Inr (n, c2)" "take_bytes n c2 = Inr (v, c3)"
      "kind \<notin> set seen" "extension kind v st = Inr st1" "extensions c3 (kind # seen) st1 = Inr st'"
      by (subst (asm) extensions.simps) (auto simp: res_simps split: if_splits)
    have "fst st1 = [] \<or> validDomain (fst st1)" by (rule extension_valid [OF s(5) 1(3)])
    then show ?thesis using 1(1) [OF False s(1) refl s(2) refl s(3) refl s(4,5)] s(6) by simp
  qed
qed

lemma parseHelloBody_valid:
  assumes "parseHelloBody b = Inr (name, protocols)"
  shows "validDomain name \<and> (''acme-tls/1'' \<in> set protocols \<longrightarrow> protocols = [''acme-tls/1''])"
proof -
  from assms obtain c where e: "extensions c [] ([], []) = Inr (name, protocols)" "name \<noteq> []"
    and mixed: "\<not> list_ex (\<lambda>p. p = ''acme-tls/1'' \<and> length protocols \<noteq> 1) protocols"
    unfolding parseHelloBody_def by (auto simp: res_simps split: if_splits)
  have "validDomain name" using extensions_valid [OF e(1)] e(2) by simp
  moreover have "protocols = [''acme-tls/1'']" if "''acme-tls/1'' \<in> set protocols"
    using mixed that by (cases protocols) (auto simp: list_ex_iff length_Suc_conv)
  ultimately show ?thesis by blast
qed

lemma read_records_valid:
  assumes "read_records records r raw body wanted = Inr (hello, rest)"
  shows "validDomain (ch_serverName hello) \<and> (''acme-tls/1'' \<in> set (ch_protocols hello) \<longrightarrow> ch_protocols hello = [''acme-tls/1''])"
  using assms
proof (induction records arbitrary: r raw body wanted)
  case (Suc records)
  from Suc.prems show ?case
    by (rule read_records_Inr) (use Suc.IH parseHelloBody_valid in blast)
qed simp

lemma labels_join: "c \<in> set s \<Longrightarrow> c = CHR ''.'' \<or> (\<exists>l \<in> set (labels s). c \<in> set l)"
  by (induction s rule: labels.induct) (auto split: list.splits)

text \<open>A valid domain has no path separator, so a socket path stays in its directory.\<close>

lemma validDomain_chars:
  assumes "validDomain s" "c \<in> set s"
  shows "c = CHR ''.'' \<or> c = CHR ''-'' \<or> label_char c"
  using labels_join [OF assms(2)] assms(1)
  by (auto simp: validDomain_def domainPattern_def list_all_iff domain_label_def)

lemma validDomain_slash: "validDomain s \<Longrightarrow> CHR ''/'' \<notin> set s"
  using validDomain_chars [of s "CHR ''/''"] by (auto simp: label_char_def)

theorem dispatched_relay:
  assumes "dispatch c is_socket maintenance r = Relay u bytes"
  shows "bytes = r \<and> \<not> maintenance \<and> (\<exists>hello rest. readClientHello r = Inr (hello, rest) \<and>
    length (ch_raw hello) \<le> maxHelloBytes \<and> validDomain (ch_serverName hello) \<and> \<not> owns c (ch_serverName hello) \<and>
    ''acme-tls/1'' \<notin> set (ch_protocols hello) \<and>
    (ch_serverName hello = gc_RealitySNI c \<and> u = Tcp (gc_RealityUpstream c) \<or>
     ch_serverName hello \<noteq> gc_RealitySNI c \<and> CHR ''/'' \<notin> set (ch_serverName hello) \<and>
     is_socket (gc_RealitySocketDir c @ ''/'' @ ch_serverName hello @ ''.sock'') \<and>
     u = Unix (gc_RealitySocketDir c @ ''/'' @ ch_serverName hello @ ''.sock'')))"
proof -
  from assms obtain hello rest where h: "readClientHello r = Inr (hello, rest)" "\<not> owns c (ch_serverName hello)"
    "''acme-tls/1'' \<notin> set (ch_protocols hello)" "\<not> maintenance" "realityTarget c is_socket (ch_serverName hello) = Some u"
    "bytes = ch_raw hello @ rest"
    by (auto simp: dispatch_def Let_def split: sum.splits if_splits option.splits)
  have replay: "ch_raw hello @ rest = r" "length (ch_raw hello) \<le> maxHelloBytes" "validDomain (ch_serverName hello)"
    using read_records_replay [OF h(1) [unfolded readClientHello_def]] read_records_valid [OF h(1) [unfolded readClientHello_def]] by simp_all
  have "ch_serverName hello = gc_RealitySNI c \<and> u = Tcp (gc_RealityUpstream c) \<or>
     ch_serverName hello \<noteq> gc_RealitySNI c \<and> CHR ''/'' \<notin> set (ch_serverName hello) \<and>
     is_socket (gc_RealitySocketDir c @ ''/'' @ ch_serverName hello @ ''.sock'') \<and>
     u = Unix (gc_RealitySocketDir c @ ''/'' @ ch_serverName hello @ ''.sock'')"
    using h(5) validDomain_slash [OF replay(3)] by (auto simp: realityTarget_def Let_def split: if_splits)
  with h replay show ?thesis by blast
qed

theorem dispatched_own:
  assumes "dispatch c is_socket maintenance r = AnswerACME bytes \<or> dispatch c is_socket maintenance r = Panel bytes"
  shows "bytes = r"
proof -
  from assms obtain hello rest where h: "readClientHello r = Inr (hello, rest)" "bytes = ch_raw hello @ rest"
    by (auto simp: dispatch_def Let_def split: sum.splits if_splits option.splits)
  with read_records_replay [OF h(1) [unfolded readClientHello_def]] show ?thesis by simp
qed

end
