(* ===== verification/Hello_Roundtrip.thy ===== *)
theory Hello_Roundtrip
  imports Client_Hello
begin

text \<open>
  The reference for the ClientHello reader: an encoder of offers after RFC 8446, the splitting of the handshake over
  TLS records, and the proof that \<open>readClientHello\<close> reads back, from every splitting within the bounds of the
  gateway, the name and the protocols that were offered.
\<close>

section \<open>Encoding\<close>

definition enc8 :: "nat \<Rightarrow> byte list" where "enc8 n = [word_of_nat n]"
definition enc16 :: "nat \<Rightarrow> byte list" where "enc16 n = [word_of_nat (n div 256), word_of_nat n]"
definition enc24 :: "nat \<Rightarrow> byte list" where "enc24 n = [word_of_nat (n div 65536), word_of_nat (n div 256), word_of_nat n]"

datatype hello_ext = Sni "byte list" | Alpn "byte list list" | Other nat "byte list"

fun ext_kind :: "hello_ext \<Rightarrow> nat" where
  "ext_kind (Sni _) = 0"
| "ext_kind (Alpn _) = 16"
| "ext_kind (Other k _) = k"

definition enc_protocols :: "byte list list \<Rightarrow> byte list" where
  "enc_protocols ps = concat (map (\<lambda>p. enc8 (length p) @ p) ps)"

fun ext_value :: "hello_ext \<Rightarrow> byte list" where
  "ext_value (Sni n) = enc16 (3 + length n) @ enc8 0 @ enc16 (length n) @ n"
| "ext_value (Alpn ps) = enc16 (length (enc_protocols ps)) @ enc_protocols ps"
| "ext_value (Other _ v) = v"

definition enc_ext :: "hello_ext \<Rightarrow> byte list" where
  "enc_ext e = enc16 (ext_kind e) @ enc16 (length (ext_value e)) @ ext_value e"

fun ext_ok :: "hello_ext \<Rightarrow> bool" where
  "ext_ok (Sni n) \<longleftrightarrow> validDomain (text_of (to_lower n))"
| "ext_ok (Alpn ps) \<longleftrightarrow> ps \<noteq> [] \<and> list_all (\<lambda>p. p \<noteq> [] \<and> length p < 256) ps"
| "ext_ok (Other k v) \<longleftrightarrow> k \<noteq> 0 \<and> k \<noteq> 16 \<and> k < 65536"

text \<open>What an extension says.\<close>

fun ext_meaning :: "hello_ext \<Rightarrow> string \<times> string list \<Rightarrow> string \<times> string list" where
  "ext_meaning (Sni n) st = (text_of (to_lower n), snd st)"
| "ext_meaning (Alpn ps) st = (fst st, map text_of ps)"
| "ext_meaning (Other _ _) st = st"

record offer =
  of_random :: "byte list"
  of_session :: "byte list"
  of_suites :: "byte list"
  of_compression :: "byte list"
  of_exts :: "hello_ext list"

definition enc_exts :: "hello_ext list \<Rightarrow> byte list" where
  "enc_exts es = concat (map enc_ext es)"

definition offered :: "hello_ext list \<Rightarrow> string \<times> string list" where
  "offered es = fold ext_meaning es ([], [])"

definition enc_offer :: "offer \<Rightarrow> byte list" where
  "enc_offer h = of_random h @ enc8 (length (of_session h)) @ of_session h @ enc16 (length (of_suites h)) @ of_suites h @
     enc8 (length (of_compression h)) @ of_compression h @ enc16 (length (enc_exts (of_exts h))) @ enc_exts (of_exts h)"

definition handshake :: "offer \<Rightarrow> byte list" where
  "handshake h = [1] @ enc24 (length (enc_offer h)) @ enc_offer h"

definition offer_ok :: "offer \<Rightarrow> bool" where
  "offer_ok h \<longleftrightarrow> length (of_random h) = 34 \<and> length (of_session h) \<le> 32 \<and>
     2 \<le> length (of_suites h) \<and> even (length (of_suites h)) \<and>
     1 \<le> length (of_compression h) \<and> length (of_compression h) < 256 \<and>
     list_all ext_ok (of_exts h) \<and> distinct (map ext_kind (of_exts h)) \<and> 0 \<in> set (map ext_kind (of_exts h)) \<and>
     (''acme-tls/1'' \<in> set (snd (offered (of_exts h))) \<longrightarrow> length (snd (offered (of_exts h))) = 1)"

definition tls_record :: "byte list \<Rightarrow> byte list" where
  "tls_record b = [22, 3, 1] @ enc16 (length b) @ b"

section \<open>Numbers and fields\<close>

lemma unat_byte: "unat (word_of_nat n :: byte) = n mod 256"
  by (simp add: unat_of_nat)

lemma u8_enc [simp]: "n < 256 \<Longrightarrow> u8 (enc8 n @ c) = Inr (n, c)"
  by (simp add: u8_Inr enc8_def unat_byte)

lemma u16_enc [simp]: "n < 65536 \<Longrightarrow> u16 (enc16 n @ c) = Inr (n, c)"
proof -
  assume "n < 65536"
  then have "n div 256 < 256" by (simp add: div_less_iff_less_mult)
  then have "n = 256 * unat (word_of_nat (n div 256) :: byte) + unat (word_of_nat n :: byte)"
    by (simp add: unat_byte)
  then show ?thesis by (simp add: u16_Inr enc16_def)
qed

lemma take_bytes_append [simp]: "n = length a \<Longrightarrow> take_bytes n (a @ c) = Inr (a, c)"
  by simp

lemma length_enc [simp]: "length (enc8 n) = 1" "length (enc16 n) = 2" "length (enc24 n) = 3"
  by (simp_all add: enc8_def enc16_def enc24_def)

lemma enc_not_Nil [simp]: "enc8 n \<noteq> []" "enc16 n \<noteq> []"
  by (simp_all add: enc8_def enc16_def)

section \<open>Extensions\<close>

lemma server_names_enc:
  assumes "validDomain (text_of (to_lower n))" "length n < 65536"
  shows "server_names (enc8 0 @ enc16 (length n) @ n) [] = Inr (text_of (to_lower n))"
  using assms take_bytes_append [of "length n" n "[]"]
  by (simp add: server_names.simps [of "_ @ _"] server_names.simps [of "[]"] res_simps del: take_bytes_Inr)

lemma alpn_protocols_enc:
  "list_all (\<lambda>p. p \<noteq> [] \<and> length p < 256) ps \<Longrightarrow> alpn_protocols (enc_protocols ps) qs = Inr (qs @ map text_of ps)"
proof (induction ps arbitrary: qs)
  case Nil
  then show ?case by (simp add: enc_protocols_def alpn_protocols.simps)
next
  case (Cons p ps)
  have "alpn_protocols (enc8 (length p) @ p @ enc_protocols ps) qs = alpn_protocols (enc_protocols ps) (qs @ [text_of p])"
    using Cons.prems by (subst alpn_protocols.simps) (simp add: res_simps)
  with Cons show ?case by (simp add: enc_protocols_def)
qed

lemma extension_enc:
  assumes "ext_ok e" "length (ext_value e) < 65536" "ext_kind e = 0 \<longrightarrow> fst st = []" "ext_kind e = 16 \<longrightarrow> snd st = []"
  shows "extension (ext_kind e) (ext_value e) st = Inr (ext_meaning e st)"
proof (cases e)
  case (Sni n)
  have "extension 0 (enc16 (3 + length n) @ (enc8 0 @ enc16 (length n) @ n)) st = Inr (text_of (to_lower n), snd st)"
    unfolding extension_def using assms Sni server_names_enc [of n] by (simp add: res_simps)
  with Sni show ?thesis by simp
next
  case (Alpn ps)
  have "enc_protocols ps \<noteq> []" using assms(1) Alpn by (cases ps) (auto simp: enc_protocols_def)
  with Alpn assms alpn_protocols_enc [of ps "[]"] show ?thesis by (simp add: extension_def res_simps)
qed (use assms in \<open>simp_all add: extension_def\<close>)

lemma extensions_enc:
  assumes "list_all ext_ok es" "distinct (map ext_kind es)" "set seen \<inter> set (map ext_kind es) = {}"
    "\<forall>e \<in> set es. length (ext_value e) < 65536"
    "0 \<in> set (map ext_kind es) \<longrightarrow> fst st = []" "16 \<in> set (map ext_kind es) \<longrightarrow> snd st = []"
  shows "extensions (enc_exts es) seen st = Inr (fold ext_meaning es st)"
  using assms
proof (induction es arbitrary: seen st)
  case Nil
  then show ?case by (simp add: enc_exts_def extensions.simps)
next
  case (Cons e es)
  have k: "ext_kind e < 65536" using Cons.prems(1) by (cases e) auto
  have "extension (ext_kind e) (ext_value e) st = Inr (ext_meaning e st)"
    by (rule extension_enc) (use Cons.prems in auto)
  with k Cons.prems have "extensions (enc16 (ext_kind e) @ enc16 (length (ext_value e)) @ ext_value e @ enc_exts es) seen st
    = extensions (enc_exts es) (ext_kind e # seen) (ext_meaning e st)"
    by (subst extensions.simps) (simp add: res_simps)
  moreover have "extensions (enc_exts es) (ext_kind e # seen) (ext_meaning e st) = Inr (fold ext_meaning es (ext_meaning e st))"
    by (rule Cons.IH) (use Cons.prems in \<open>cases e; auto\<close>)+
  ultimately show ?case by (simp add: enc_exts_def enc_ext_def)
qed

lemma ext_value_short: "e \<in> set es \<Longrightarrow> length (ext_value e) \<le> length (enc_exts es)"
proof (induction es)
  case (Cons d es)
  then show ?case by (cases "e = d") (auto simp: enc_exts_def enc_ext_def)
qed simp

section \<open>The body\<close>

lemma validDomain_not_Nil: "\<not> validDomain []"
  by (simp add: validDomain_def domainPattern_def)

lemma offered_name:
  "list_all ext_ok es \<Longrightarrow> fst st \<noteq> [] \<or> 0 \<in> set (map ext_kind es) \<Longrightarrow> fst (fold ext_meaning es st) \<noteq> []"
proof (induction es arbitrary: st)
  case (Cons e es)
  show ?case
  proof (cases e)
    case (Sni n)
    with Cons.prems(1) validDomain_not_Nil have "text_of (to_lower n) \<noteq> []" by auto
    with Sni Cons show ?thesis by simp
  qed (use Cons in auto)
qed simp

lemma parseHelloBody_enc:
  assumes "offer_ok h" "length (enc_exts (of_exts h)) < 65536" "length (of_suites h) < 65536"
  shows "parseHelloBody (enc_offer h) = Inr (offered (of_exts h))"
proof -
  have e: "extensions (enc_exts (of_exts h)) [] ([], []) = Inr (offered (of_exts h))"
    unfolding offered_def
    by (rule extensions_enc) (use assms ext_value_short [of _ "of_exts h"] in \<open>auto simp: offer_ok_def intro: le_less_trans\<close>)
  have name: "fst (offered (of_exts h)) \<noteq> []"
    unfolding offered_def by (rule offered_name) (use assms(1) in \<open>simp_all add: offer_ok_def\<close>)
  have mixed: "\<not> list_ex (\<lambda>p. p = ''acme-tls/1'' \<and> length (snd (offered (of_exts h))) \<noteq> 1) (snd (offered (of_exts h)))"
    using assms(1) by (auto simp: offer_ok_def list_ex_iff)
  from assms have l: "length (of_random h) = 34" "\<not> 32 < length (of_session h)" "length (of_session h) < 256"
    "\<not> length (of_suites h) < 2" "length (of_suites h) mod 2 = 0" "of_compression h \<noteq> []" "length (of_compression h) < 256"
    by (auto simp: offer_ok_def)
  from name mixed show ?thesis
    unfolding parseHelloBody_def enc_offer_def
    by (simp add: l e assms(2,3) case_prod_beta del: take_bytes_Inr)
qed

section \<open>Records\<close>

lemma record_header:
  assumes "length b < 65536"
  shows "record_size ([22, 3, 1] @ enc16 (length b)) = length b"
proof -
  have "length b div 256 < 256" using assms by (simp add: div_less_iff_less_mult)
  then show ?thesis by (simp add: record_size_def enc16_def unat_byte)
qed

lemma handshake_length: "offer_ok h \<Longrightarrow> 47 \<le> length (handshake h)"
  by (simp add: offer_ok_def handshake_def enc_offer_def)

lemma wanted_handshake:
  assumes "offer_ok h" "length (handshake h) \<le> maxHelloBytes - 5" "body @ x = handshake h" "4 \<le> length body"
  shows "wanted_length body 0 = Inr (length (handshake h))"
proof -
  define n where "n = length (enc_offer h)"
  have n: "n < 65536" "length (handshake h) = n + 4" using assms(2) by (simp_all add: n_def handshake_def maxHelloBytes_def)
  from assms(3,4) have b: "body ! i = handshake h ! i" if "i < 4" for i
    using that by (metis nth_append order_less_le_trans)
  have "n div 65536 = 0" "n div 256 < 256" using n by (simp_all add: div_less_iff_less_mult)
  then have "unat (body ! 1) = 0" "unat (body ! 2) = n div 256" "unat (body ! 3) = n mod 256" "body ! 0 = 1"
    by (simp_all add: b handshake_def enc24_def n_def [symmetric] unat_byte numeral_2_eq_2 numeral_3_eq_3)
  then have "hello_length body = n + 4" "body ! 0 = 1"
    by (simp_all add: hello_length_def)
  with n assms(2,4) handshake_length [OF assms(1)] show ?thesis by (simp add: wanted_length_def)
qed

definition wire_length :: "byte list list \<Rightarrow> nat" where
  "wire_length fs = sum_list (map (\<lambda>b. 5 + length b) fs)"

definition fragments_ok :: "byte list list \<Rightarrow> bool" where
  "fragments_ok fs \<longleftrightarrow> fs \<noteq> [] \<and> list_all (\<lambda>b. b \<noteq> [] \<and> length b \<le> 18432) fs \<and> length fs \<le> maxHelloRecords \<and>
     wire_length fs \<le> maxHelloBytes"

definition stream :: "byte list list \<Rightarrow> byte list" where
  "stream fs = concat (map tls_record fs)"

lemma read_records_cons:
  assumes "b \<noteq> []" "length b \<le> 18432" "length raw + 5 + length b \<le> maxHelloBytes"
  shows "read_records (Suc k) (tls_record b @ r) raw body wanted =
    bind_res (wanted_length (body @ b) wanted) (\<lambda>wanted'.
      if wanted' > 0 \<and> length (body @ b) \<ge> wanted'
      then bind_res (parseHelloBody (drop 4 (take wanted' (body @ b)))) (\<lambda>(name, protocols).
        Inr (\<lparr>ch_serverName = name, ch_protocols = protocols, ch_raw = raw @ tls_record b\<rparr>, r))
      else read_records k r (raw @ tls_record b) (body @ b) wanted')"
proof -
  define hd5 where "hd5 = [22, 3, 1] @ enc16 (length b)"
  have size: "record_size hd5 = length b" unfolding hd5_def by (rule record_header) (use assms(2) in simp)
  have valid: "\<not> invalid_record hd5 raw"
    using assms size by (simp add: invalid_record_def) (simp add: hd5_def)
  have five: "read_full 5 (hd5 @ b @ r) = Inr (hd5, b @ r)" by (simp add: hd5_def)
  have body: "read_full (length b) (b @ r) = Inr (b, r)" by simp
  have whole: "tls_record b = hd5 @ b" by (simp add: tls_record_def hd5_def)
  show ?thesis unfolding whole append_assoc
    by (simp only: read_records.simps five body size valid bind_res_Inr Let_def case_prod_conv if_False append_assoc)
qed

lemma read_records_stream:
  assumes "offer_ok h" "length (handshake h) \<le> maxHelloBytes - 5" "parseHelloBody (enc_offer h) = Inr (name, protocols)"
    "body @ concat fs = handshake h" "fs \<noteq> []" "list_all (\<lambda>b. b \<noteq> [] \<and> length b \<le> 18432) fs" "length fs \<le> k"
    "length raw + wire_length fs \<le> maxHelloBytes" "wanted = (if 4 \<le> length body then length (handshake h) else 0)"
  shows "read_records k (stream fs @ rest) raw body wanted =
    Inr (\<lparr>ch_serverName = name, ch_protocols = protocols, ch_raw = raw @ stream fs\<rparr>, rest)"
  using assms(4-)
proof (induction fs arbitrary: k raw body wanted)
  case (Cons b fs)
  then obtain k' where k: "k = Suc k'" by (cases k) auto
  define len where "len = length (handshake h)"
  have len: "length (body @ b) + length (concat fs) = len" "0 < len"
    using arg_cong [OF Cons.prems(1), of length] handshake_length [OF assms(1)] by (simp_all add: len_def del: length_greater_0_conv)
  define w where "w = (if 4 \<le> length (body @ b) then len else 0)"
  have w: "wanted_length (body @ b) wanted = Inr w"
  proof (cases "4 \<le> length body")
    case True
    with Cons.prems(6) len(2) show ?thesis by (simp add: wanted_length_def w_def len_def)
  next
    case False
    with Cons.prems(6) have "wanted = 0" by simp
    with Cons.prems(1) wanted_handshake [OF assms(1,2), of "body @ b" "concat fs"] show ?thesis
      by (auto simp: w_def len_def wanted_length_def)
  qed
  have step: "read_records k (stream (b # fs) @ rest) raw body wanted =
      (if w > 0 \<and> length (body @ b) \<ge> w
       then bind_res (parseHelloBody (drop 4 (take w (body @ b)))) (\<lambda>(name, protocols).
         Inr (\<lparr>ch_serverName = name, ch_protocols = protocols, ch_raw = raw @ tls_record b\<rparr>, stream fs @ rest))
       else read_records k' (stream fs @ rest) (raw @ tls_record b) (body @ b) w)"
    using read_records_cons [of b raw k' "stream fs @ rest" body wanted] Cons.prems(3,5) w
    by (simp add: k stream_def wire_length_def)
  show ?case
  proof (cases "fs = []")
    case True
    with Cons.prems(1) have "body @ b = handshake h" by simp
    moreover from this handshake_length [OF assms(1)] have "w = length (handshake h)" by (simp add: w_def len_def)
    moreover have "drop 4 (handshake h) = enc_offer h" by (simp add: handshake_def enc24_def)
    ultimately show ?thesis using step True len assms(3) by (simp add: len_def stream_def)
  next
    case False
    with Cons.prems(3) have "concat fs \<noteq> []" by (cases fs) auto
    then have "length (concat fs) > 0" by simp
    with len(1) have "\<not> len \<le> length (body @ b)" by linarith
    then have short: "\<not> (w > 0 \<and> length (body @ b) \<ge> w)" by (simp add: w_def)
    have "read_records k' (stream fs @ rest) (raw @ tls_record b) (body @ b) w =
      Inr (\<lparr>ch_serverName = name, ch_protocols = protocols, ch_raw = (raw @ tls_record b) @ stream fs\<rparr>, rest)"
    proof (rule Cons.IH)
      show "length (raw @ tls_record b) + wire_length fs \<le> maxHelloBytes"
        using Cons.prems(5) by (simp add: wire_length_def tls_record_def)
    qed (use Cons.prems False k in \<open>simp_all add: w_def len_def\<close>)
    moreover have "(raw @ tls_record b) @ stream fs = raw @ stream (b # fs)" by (simp add: stream_def)
    ultimately show ?thesis using step short by (simp only: if_False)
  qed
qed simp

theorem readClientHello_stream:
  assumes "offer_ok h" "fragments_ok fs" "concat fs = handshake h"
  shows "readClientHello (stream fs @ rest) =
    Inr (\<lparr>ch_serverName = fst (offered (of_exts h)), ch_protocols = snd (offered (of_exts h)), ch_raw = stream fs\<rparr>, rest)"
proof -
  have "length (concat fs) + 5 \<le> wire_length fs"
    using assms(2) by (cases fs) (auto simp: fragments_ok_def wire_length_def length_concat sum_list_addf)
  then have len: "length (handshake h) \<le> maxHelloBytes - 5"
    using assms(2,3) by (simp add: fragments_ok_def) linarith
  then have "length (enc_exts (of_exts h)) < 65536" "length (of_suites h) < 65536"
    by (simp_all add: handshake_def enc_offer_def maxHelloBytes_def)
  then have parse: "parseHelloBody (enc_offer h) = Inr (fst (offered (of_exts h)), snd (offered (of_exts h)))"
    using parseHelloBody_enc [OF assms(1)] by simp
  have "read_records maxHelloRecords (stream fs @ rest) [] [] 0 =
    Inr (\<lparr>ch_serverName = fst (offered (of_exts h)), ch_protocols = snd (offered (of_exts h)), ch_raw = [] @ stream fs\<rparr>, rest)"
    by (rule read_records_stream [OF assms(1) len parse]) (use assms(2,3) in \<open>simp_all add: fragments_ok_def\<close>)
  then show ?thesis by (simp add: readClientHello_def)
qed

end
