(* ===== verification/Row_Order.thy ===== *)
theory Row_Order
  imports Prelude "HOL-Library.List_Lexorder" "HOL-Library.Char_ord"
begin

text \<open>
  \<open>ORDER BY <time>,id LIMIT 1\<close>: rows are ordered by a time, their text ids break ties.
\<close>

datatype rank = Rank int string

fun rank_created :: "rank \<Rightarrow> int" where "rank_created (Rank c i) = c"
fun rank_id :: "rank \<Rightarrow> string" where "rank_id (Rank c i) = i"

instantiation rank :: linorder
begin

definition less_rank :: "rank \<Rightarrow> rank \<Rightarrow> bool" where
  "less_rank a b \<longleftrightarrow> rank_created a < rank_created b \<or> rank_created a = rank_created b \<and> rank_id a < rank_id b"

definition less_eq_rank :: "rank \<Rightarrow> rank \<Rightarrow> bool" where
  "less_eq_rank a b \<longleftrightarrow> rank_created a < rank_created b \<or> rank_created a = rank_created b \<and> rank_id a \<le> rank_id b"

instance
proof
  fix a b c :: rank
  show "a < b \<longleftrightarrow> a \<le> b \<and> \<not> b \<le> a" by (auto simp: less_rank_def less_eq_rank_def)
  show "a \<le> a" by (simp add: less_eq_rank_def)
  show "a \<le> b \<Longrightarrow> b \<le> c \<Longrightarrow> a \<le> c" by (auto simp: less_eq_rank_def)
  show "a \<le> b \<Longrightarrow> b \<le> a \<Longrightarrow> a = b" by (cases a; cases b) (auto simp: less_eq_rank_def)
  show "a \<le> b \<or> b \<le> a" by (auto simp: less_eq_rank_def)
qed

end

text \<open>The first row in the order.\<close>

fun first_row :: "('r \<Rightarrow> rank) \<Rightarrow> 'r list \<Rightarrow> 'r option" where
  "first_row key [] = None"
| "first_row key (r # rs) = (case first_row key rs of None \<Rightarrow> Some r | Some u \<Rightarrow> Some (if key r \<le> key u then r else u))"

lemma first_row_Some: "first_row key rs = Some r \<Longrightarrow> r \<in> set rs \<and> (\<forall>u \<in> set rs. key r \<le> key u)"
proof (induction rs arbitrary: r)
  case (Cons x rs)
  show ?case
  proof (cases "first_row key rs")
    case None
    then have "rs = []" by (cases rs) (auto split: option.splits)
    with Cons.prems None show ?thesis by simp
  next
    case (Some u)
    with Cons.IH Cons.prems show ?thesis by (auto split: if_splits)
  qed
qed simp

lemma first_row_None [simp]: "first_row key rs = None \<longleftrightarrow> rs = []"
  by (cases rs) (simp_all split: option.split)

end
