(* ===== verification/Job_Queue.thy ===== *)
theory Job_Queue
  imports Row_Order
begin

text \<open>
  The durable task queue of a site (\<open>backend/internal/jobs/manager.go\<close>): the rows of the \<open>tasks\<close> table,
  the statements of every operation, the claims of the run loop with the goroutines that execute them, and their
  interleavings as a list of events. What the code receives from outside is an argument of its event: the clock, the
  random id, what the handler returns, whether its context has ended.
\<close>

section \<open>Rows\<close>

datatype task_state = Queued | Running | Succeeded | Failed | Cancelled

record Task =
  tk_ID :: string
  tk_Kind :: string
  tk_Target :: string
  tk_Guard :: string
  tk_dedup_key :: "string option"
  tk_State :: task_state
  tk_ActorID :: int
  tk_Created :: int
  tk_Started :: int
  tk_Finished :: int
  tk_NextAt :: int
  tk_Attempts :: nat
  tk_Error :: string
  tk_Result :: "string option"

definition active :: "Task \<Rightarrow> bool" where
  "active t \<longleftrightarrow> tk_State t = Queued \<or> tk_State t = Running"

definition task_key :: "string \<Rightarrow> string \<Rightarrow> string" where
  "task_key kind target = kind @ '':'' @ target"

text \<open>Byte strings written in UTF-8.\<close>

definition utf8 :: "nat list \<Rightarrow> string" where
  "utf8 = map char_of"

definition msg_waiting :: string where
  "msg_waiting = utf8 [231, 173, 137, 229, 190, 133, 232, 181, 132, 230, 186, 144, 231, 169, 186, 233, 151, 178]"
definition msg_failed :: string where
  "msg_failed = utf8 [228, 187, 187, 229, 138, 161, 230, 137, 167, 232, 161, 140, 229, 164, 177, 232, 180, 165]"
definition msg_timeout :: string where
  "msg_timeout = utf8 [228, 187, 187, 229, 138, 161, 232, 182, 133, 230, 151, 182, 230, 136, 150, 229, 183, 178, 229, 143, 150, 230, 182, 136]"
definition msg_result :: string where
  "msg_result = utf8 [228, 187, 187, 229, 138, 161, 231, 187, 147, 230, 158, 156, 232, 182, 133, 229, 135, 186, 233, 153, 144, 229, 136, 182]"

section \<open>Options and handlers\<close>

record Options =
  op_Workers :: int
  op_Capacity :: int
  op_Timeout :: int

text \<open>Durations are nanoseconds.\<close>

definition minute :: int where "minute = 60000000000"

definition clamp_options :: "Options \<Rightarrow> Options" where
  "clamp_options opts =
    \<lparr>op_Workers = (if op_Workers opts < 1 then 1 else if op_Workers opts > 8 then 8 else op_Workers opts),
     op_Capacity = (if op_Capacity opts < 1 then 64 else if op_Capacity opts > 1024 then 1024 else op_Capacity opts),
     op_Timeout = (if op_Timeout opts \<le> 0 \<or> op_Timeout opts > 5 * minute then 2 * minute else op_Timeout opts)\<rparr>"

text \<open>
  The error of a handler, with its text; \<open>BusyError\<close> is one that \<open>errors.Is\<close> finds \<open>ErrBusy\<close> in.
  A panic in the handler is an \<open>OtherError\<close> (\<open>invoke\<close>).
\<close>

datatype handler_error = BusyError string | OtherError string

fun error_text :: "handler_error \<Rightarrow> string" where
  "error_text (BusyError s) = s"
| "error_text (OtherError s) = s"

fun is_busy :: "handler_error option \<Rightarrow> bool" where
  "is_busy (Some (BusyError _)) = True"
| "is_busy _ = False"

type_synonym handler_return = "string option \<times> handler_error option"

section \<open>Submitting, reading, cancelling\<close>

datatype submit_error = UnsupportedKind | InvalidTarget | ErrFull | DuplicateID

definition get_task :: "Task list \<Rightarrow> string \<Rightarrow> Task option" where
  "get_task ts tid = find (\<lambda>t. tk_ID t = tid) ts"

definition new_task :: "string \<Rightarrow> string \<Rightarrow> string \<Rightarrow> string \<Rightarrow> int \<Rightarrow> int \<Rightarrow> Task" where
  "new_task tid kind target guard actor now =
    \<lparr>tk_ID = tid, tk_Kind = kind, tk_Target = target, tk_Guard = guard, tk_dedup_key = Some (task_key kind target),
     tk_State = Queued, tk_ActorID = actor, tk_Created = now, tk_Started = 0, tk_Finished = 0, tk_NextAt = now,
     tk_Attempts = 0, tk_Error = [], tk_Result = None\<rparr>"

text \<open>The insert fails on the primary key and on the unique \<open>dedup_key\<close>; the second cannot happen here.\<close>

definition insert_task :: "Task \<Rightarrow> Task list \<Rightarrow> submit_error + Task list" where
  "insert_task t ts =
    (if list_ex (\<lambda>x. tk_ID x = tk_ID t \<or> tk_dedup_key x \<noteq> None \<and> tk_dedup_key x = tk_dedup_key t) ts
     then Inl DuplicateID else Inr (ts @ [t]))"

definition Submit :: "Options \<Rightarrow> string list \<Rightarrow> string \<Rightarrow> string \<Rightarrow> string \<Rightarrow> int \<Rightarrow> int \<Rightarrow> string \<Rightarrow> Task list \<Rightarrow>
    submit_error + (Task \<times> Task list)" where
  "Submit opts handlers kind target guard actor now rand ts =
    bind_res (require (kind \<in> set handlers) UnsupportedKind) (\<lambda>_.
    bind_res (require (length target \<le> 200 \<and> length guard \<le> 128) InvalidTarget) (\<lambda>_.
    case find (\<lambda>t. tk_dedup_key t = Some (task_key kind target)) ts of
      Some t \<Rightarrow> Inr (t, ts)
    | None \<Rightarrow>
        if int (length (filter active ts)) \<ge> op_Capacity opts then Inl ErrFull
        else let t = new_task rand kind target guard actor now in
          bind_res (insert_task t ts) (\<lambda>ts'. Inr (t, ts'))))"

text \<open>Newest first, at most 100, without the results; ids break ties.\<close>

definition task_rank :: "Task \<Rightarrow> rank" where
  "task_rank t = Rank (tk_Created t) (tk_ID t)"

definition list_tasks :: "Task list \<Rightarrow> Task list" where
  "list_tasks ts = map (\<lambda>t. t\<lparr>tk_Result := None\<rparr>) (take 100 (rev (sort_key task_rank ts)))"

text \<open>The statements \<open>UPDATE tasks SET ... WHERE ...\<close>, as what they do to a row.\<close>

definition cancel_row :: "string \<Rightarrow> int \<Rightarrow> Task \<Rightarrow> Task" where
  "cancel_row tid now t =
    (if tk_ID t = tid \<and> active t
     then t\<lparr>tk_State := Cancelled, tk_Finished := now, tk_dedup_key := None, tk_Result := None\<rparr> else t)"

definition recover_row :: "int \<Rightarrow> Task \<Rightarrow> Task" where
  "recover_row now t =
    (if tk_State t = Running then t\<lparr>tk_State := Queued, tk_Started := 0, tk_NextAt := now, tk_Error := []\<rparr> else t)"

definition claim_row :: "string \<Rightarrow> int \<Rightarrow> Task \<Rightarrow> Task" where
  "claim_row tid now t =
    (if tk_ID t = tid \<and> tk_State t = Queued
     then t\<lparr>tk_State := Running, tk_Started := now, tk_Attempts := Suc (tk_Attempts t)\<rparr> else t)"

definition requeue_row :: "string \<Rightarrow> int \<Rightarrow> string \<Rightarrow> Task \<Rightarrow> Task" where
  "requeue_row tid at message t =
    (if tk_ID t = tid \<and> tk_State t = Running then t\<lparr>tk_State := Queued, tk_NextAt := at, tk_Error := message\<rparr> else t)"

definition finish_row :: "string \<Rightarrow> int \<Rightarrow> task_state \<Rightarrow> string \<Rightarrow> string option \<Rightarrow> Task \<Rightarrow> Task" where
  "finish_row tid now st message result t =
    (if tk_ID t = tid \<and> tk_State t = Running
     then t\<lparr>tk_State := st, tk_Finished := now, tk_dedup_key := None, tk_Error := message, tk_Result := result\<rparr> else t)"

definition Cancel :: "string \<Rightarrow> int \<Rightarrow> Task list \<Rightarrow> Task list" where
  "Cancel tid now ts = map (cancel_row tid now) ts"

definition Recover :: "int \<Rightarrow> Task list \<Rightarrow> Task list" where
  "Recover now ts = map (recover_row now) ts"

section \<open>Claiming, executing, pruning\<close>

text \<open>The claimed task as the worker gets it: the row that was read, with one more attempt.\<close>

definition claim :: "int \<Rightarrow> Task list \<Rightarrow> (Task \<times> Task list) option" where
  "claim now ts =
    (case first_row task_rank (filter (\<lambda>t. tk_State t = Queued \<and> tk_NextAt t \<le> now) ts) of
       None \<Rightarrow> None
     | Some t \<Rightarrow> Some (t\<lparr>tk_Attempts := Suc (tk_Attempts t)\<rparr>, map (claim_row (tk_ID t) now) ts))"

definition Prune :: "bool \<Rightarrow> int \<Rightarrow> Task list \<Rightarrow> Task list" where
  "Prune retain now ts =
    (let retention = (if retain then 24 * 3600 else 60);
         ts1 = filter (\<lambda>t. \<not> (tk_Finished t > 0 \<and> tk_Finished t < now - retention)) ts;
         old = drop 100 (rev (sort_key tk_Finished (filter (\<lambda>t. tk_Finished t > 0) ts1)))
     in filter (\<lambda>t. tk_ID t \<notin> set (map tk_ID old)) ts1)"

definition dispatch_handler :: "string list \<Rightarrow> Task \<Rightarrow> handler_error option \<Rightarrow> handler_return \<Rightarrow> handler_return" where
  "dispatch_handler handlers t read_error invoked =
    (case read_error of
       Some e \<Rightarrow> (None, Some e)
     | None \<Rightarrow> if tk_Kind t \<in> set handlers then invoked
               else (None, Some (OtherError ''task type is no longer supported'')))"

text \<open>What the last part of \<open>execute\<close> stores for the outcome of a handler.\<close>

definition outcome :: "(string \<Rightarrow> bool) \<Rightarrow> bool \<Rightarrow> handler_return \<Rightarrow> task_state \<times> string \<times> string option" where
  "outcome json_valid ctx_done ret =
    (let result = fst ret;
         (st, message) = (case snd ret of
            None \<Rightarrow> (Succeeded, [])
          | Some e \<Rightarrow> (Failed, if length (error_text e) > 300 then msg_failed else error_text e));
         (st, message) = (if ctx_done then (Failed, msg_timeout) else (st, message))
     in case result of
          Some b \<Rightarrow> if length b > 2 ^ 20 \<or> length b > 0 \<and> \<not> json_valid b then (Failed, msg_result, None) else (st, message, Some b)
        | None \<Rightarrow> (st, message, None))"

text \<open>
  \<open>execute\<close> after its first read: \<open>parent_done\<close> and \<open>ctx_done\<close> are \<open>parent.Err() != nil\<close> and
  \<open>ctx.Err() != nil\<close>, the latter also by a cancellation or the timeout of the task.
\<close>

definition execute :: "(string \<Rightarrow> bool) \<Rightarrow> bool \<Rightarrow> int \<Rightarrow> bool \<Rightarrow> bool \<Rightarrow> handler_return \<Rightarrow> Task \<Rightarrow> Task list \<Rightarrow> Task list" where
  "execute json_valid retain now parent_done ctx_done ret t ts =
    (if parent_done then map (requeue_row (tk_ID t) now []) ts
     else if is_busy (snd ret) \<and> tk_Attempts t < 6
     then map (requeue_row (tk_ID t) (now + 2 ^ tk_Attempts t) msg_waiting) ts
     else case outcome json_valid ctx_done ret of (st, message, result) \<Rightarrow>
       Prune retain now (map (finish_row (tk_ID t) now st message result) ts))"

end
