(* ===== verification/Job_Runner.thy ===== *)
theory Job_Runner
  imports Job_Queue
begin

text \<open>
  The run loop of \<open>jobs/manager.go\<close> with its workers: submissions, cancellations, claims, the end of each
  execution, pruning and restarts interleave as a list of events, and the laws of the table that every interleaving
  keeps. Each statement of the code is an instance of the interface \<open>row_update\<close>, each operation on the table one
  of \<open>table_update\<close>.
\<close>

section \<open>The laws of the table\<close>

definition task_row_ok :: "Task \<Rightarrow> bool" where
  "task_row_ok t \<longleftrightarrow> (if active t then tk_dedup_key t = Some (task_key (tk_Kind t) (tk_Target t)) \<and> tk_Finished t = 0
                else tk_dedup_key t = None)"

definition table_ok :: "Task list \<Rightarrow> bool" where
  "table_ok ts \<longleftrightarrow> distinct (map tk_ID ts) \<and> list_all task_row_ok ts \<and> distinct (map tk_dedup_key (filter active ts))"

definition active_count :: "Task list \<Rightarrow> nat" where
  "active_count ts = length (filter active ts)"

lemma table_ok_id: "table_ok ts \<Longrightarrow> t \<in> set ts \<Longrightarrow> u \<in> set ts \<Longrightarrow> tk_ID t = tk_ID u \<Longrightarrow> t = u"
  by (auto simp: table_ok_def distinct_map inj_on_def)

lemma task_row_ok_of: "table_ok ts \<Longrightarrow> t \<in> set ts \<Longrightarrow> task_row_ok t"
  by (simp add: table_ok_def list_all_iff)

text \<open>An operation on the table that submits nothing.\<close>

locale table_update =
  fixes upd :: "Task list \<Rightarrow> Task list"
  assumes keeps_table: "table_ok ts \<Longrightarrow> table_ok (upd ts)"
    and active_less: "table_ok ts \<Longrightarrow> active_count (upd ts) \<le> active_count ts"
    and from_row: "t' \<in> set (upd ts) \<Longrightarrow> \<exists>t \<in> set ts. tk_ID t' = tk_ID t \<and> (\<not> active t \<longrightarrow> t' = t)"
begin

lemma final_kept:
  assumes "table_ok ts" "t \<in> set ts" "\<not> active t" "t' \<in> set (upd ts)" "tk_ID t' = tk_ID t"
  shows "t' = t"
proof -
  from from_row [OF assms(4)] obtain u where u: "u \<in> set ts" "tk_ID t' = tk_ID u" "\<not> active u \<longrightarrow> t' = u" by blast
  with table_ok_id [OF assms(1) u(1) assms(2)] assms(5) have "u = t" by simp
  with u(3) assms(3) show ?thesis by simp
qed

lemma no_new_id: "tid \<notin> tk_ID ` set ts \<Longrightarrow> tid \<notin> tk_ID ` set (upd ts)"
  using from_row by fastforce

end

text \<open>A statement \<open>UPDATE ... WHERE\<close> of the manager.\<close>

locale row_update =
  fixes row :: "Task \<Rightarrow> Task"
  assumes keeps_id: "tk_ID (row t) = tk_ID t"
    and keeps_row: "task_row_ok t \<Longrightarrow> task_row_ok (row t)"
    and never_revives: "active (row t) \<Longrightarrow> active t"
    and keeps_key: "active (row t) \<Longrightarrow> tk_dedup_key (row t) = tk_dedup_key t"
    and keeps_final: "\<not> active t \<Longrightarrow> row t = t"
begin

lemma filter_active: "filter active (map row ts) = map row (filter (\<lambda>t. active (row t)) ts)"
  by (induction ts) auto

lemma active_rows: "filter (\<lambda>t. active (row t)) ts = filter (\<lambda>t. active (row t)) (filter active ts)"
  using never_revives by (induction ts) auto

lemma keys_of_active: "map tk_dedup_key (filter active (map row ts)) = map tk_dedup_key (filter (\<lambda>t. active (row t)) ts)"
  unfolding filter_active by (simp add: keeps_key)

lemma table: "table_ok ts \<Longrightarrow> table_ok (map row ts)"
proof -
  assume ok: "table_ok ts"
  have "map tk_ID (map row ts) = map tk_ID ts" by (simp add: keeps_id)
  with ok have "distinct (map tk_ID (map row ts))" by (simp only: table_ok_def)
  moreover have "list_all task_row_ok (map row ts)" using ok keeps_row by (auto simp: table_ok_def list_all_iff)
  moreover have "distinct (map tk_dedup_key (filter active (map row ts)))"
  proof -
    have "distinct (map tk_dedup_key (filter active ts))" using ok by (simp add: table_ok_def)
    then show ?thesis unfolding keys_of_active active_rows [of ts] by (rule distinct_map_filter)
  qed
  ultimately show ?thesis by (simp only: table_ok_def)
qed

lemma active_count_row: "active_count (map row ts) \<le> active_count ts"
  by (induction ts) (auto simp: active_count_def dest: never_revives)

end

sublocale row_update \<subseteq> rows: table_update "map row"
proof
  fix ts t t'
  show "table_ok ts \<Longrightarrow> table_ok (map row ts)" by (rule table)
  show "active_count (map row ts) \<le> active_count ts" by (rule active_count_row)
  show "t' \<in> set (map row ts) \<Longrightarrow> \<exists>t \<in> set ts. tk_ID t' = tk_ID t \<and> (\<not> active t \<longrightarrow> t' = t)"
    using keeps_id keeps_final by auto
qed

section \<open>The statements of the manager\<close>

text \<open>The last statement of an execution, with the state and the message of its outcome.\<close>

definition conclude_row :: "(string \<Rightarrow> bool) \<Rightarrow> bool \<Rightarrow> handler_return \<Rightarrow> string \<Rightarrow> int \<Rightarrow> Task \<Rightarrow> Task" where
  "conclude_row json_valid ctx_done ret tid now =
    (case outcome json_valid ctx_done ret of (st, message, result) \<Rightarrow> finish_row tid now st message result)"

lemma outcome_final: "outcome json_valid ctx_done ret = (st, message, result) \<Longrightarrow> st = Succeeded \<or> st = Failed"
  by (auto simp: outcome_def Let_def split: option.splits prod.splits if_splits)

interpretation cancelling: row_update "cancel_row tid now" for tid now
  by unfold_locales (auto simp: cancel_row_def task_row_ok_def active_def split: if_splits)

interpretation recovering: row_update "recover_row now" for now
  by unfold_locales (auto simp: recover_row_def task_row_ok_def active_def split: if_splits)

interpretation claiming: row_update "claim_row tid now" for tid now
  by unfold_locales (auto simp: claim_row_def task_row_ok_def active_def split: if_splits)

interpretation requeueing: row_update "requeue_row tid at message" for tid at message
  by unfold_locales (auto simp: requeue_row_def task_row_ok_def active_def split: if_splits)

interpretation concluding: row_update "conclude_row json_valid ctx_done ret tid now" for json_valid ctx_done ret tid now
proof -
  obtain st message result where o: "outcome json_valid ctx_done ret = (st, message, result)"
    by (cases "outcome json_valid ctx_done ret") auto
  show "row_update (conclude_row json_valid ctx_done ret tid now)"
    using outcome_final [OF o]
    by unfold_locales (auto simp: conclude_row_def o finish_row_def task_row_ok_def active_def split: if_splits)
qed

text \<open>Pruning removes finished rows only.\<close>

lemma table_ok_filter:
  assumes "table_ok ts"
  shows "table_ok (filter P ts)"
proof -
  have "filter active (filter P ts) = filter P (filter active ts)" by (simp add: conj_commute)
  with assms show ?thesis by (auto simp: table_ok_def list_all_iff distinct_map_filter simp del: filter_filter)
qed

lemma active_count_filter: "active_count (filter P ts) \<le> active_count ts"
  by (induction ts) (auto simp: active_count_def)

lemma Prune_filter:
  fixes ts :: "Task list"
  obtains P where "Prune retain now ts = filter P ts" "table_ok ts \<Longrightarrow> t \<in> set ts \<Longrightarrow> active t \<Longrightarrow> P t"
proof -
  define R :: "Task \<Rightarrow> bool" where "R = (\<lambda>t. \<not> (tk_Finished t > 0 \<and> tk_Finished t < now - (if retain then 24 * 3600 else 60)))"
  define old where "old = drop 100 (rev (sort_key tk_Finished (filter (\<lambda>t. tk_Finished t > 0) (filter R ts))))"
  define P where "P = (\<lambda>t. R t \<and> tk_ID t \<notin> set (map tk_ID old))"
  have "Prune retain now ts = filter P ts"
    by (simp add: Prune_def Let_def P_def R_def old_def)
  moreover have "P t" if "table_ok ts" "t \<in> set ts" "active t"
  proof -
    have unfinished: "tk_Finished t = 0" using task_row_ok_of [OF that(1,2)] that(3) by (simp add: task_row_ok_def)
    have "tk_ID t \<noteq> tk_ID u" if "u \<in> set old" for u
    proof
      assume same: "tk_ID t = tk_ID u"
      from that have "u \<in> set ts" "tk_Finished u > 0" by (auto simp: old_def dest: in_set_dropD)
      with table_ok_id [OF \<open>table_ok ts\<close> \<open>t \<in> set ts\<close> _ same] unfinished show False by simp
    qed
    with unfinished show ?thesis by (auto simp: P_def R_def)
  qed
  ultimately show thesis by (rule that)
qed

interpretation pruning: table_update "Prune retain now" for retain now
proof
  fix ts t t'
  show "table_ok ts \<Longrightarrow> table_ok (Prune retain now ts)"
    by (rule Prune_filter [of retain now ts]) (simp add: table_ok_filter)
  show "active_count (Prune retain now ts) \<le> active_count ts"
    by (rule Prune_filter [of retain now ts]) (simp add: active_count_filter)
  show "t' \<in> set (Prune retain now ts) \<Longrightarrow> \<exists>t \<in> set ts. tk_ID t' = tk_ID t \<and> (\<not> active t \<longrightarrow> t' = t)"
    by (rule Prune_filter [of retain now ts]) auto
qed

text \<open>The laws compose, so the end of an execution has them.\<close>

lemma table_update_compose:
  assumes f: "table_update f" and g: "table_update g"
  shows "table_update (\<lambda>ts. g (f ts))"
proof
  fix ts t t'
  show "table_ok ts \<Longrightarrow> table_ok (g (f ts))"
    by (rule table_update.keeps_table [OF g]) (rule table_update.keeps_table [OF f])
  show "table_ok ts \<Longrightarrow> active_count (g (f ts)) \<le> active_count ts"
    using table_update.active_less [OF f, of ts] table_update.active_less [OF g, of "f ts"]
      table_update.keeps_table [OF f, of ts] by linarith
  show "\<exists>t \<in> set ts. tk_ID t' = tk_ID t \<and> (\<not> active t \<longrightarrow> t' = t)" if t': "t' \<in> set (g (f ts))"
  proof -
    from table_update.from_row [OF g t'] obtain u where u: "u \<in> set (f ts)" "tk_ID t' = tk_ID u" "\<not> active u \<longrightarrow> t' = u" by blast
    from table_update.from_row [OF f u(1)] obtain v where "v \<in> set ts" "tk_ID u = tk_ID v" "\<not> active v \<longrightarrow> u = v" by blast
    with u show ?thesis by (intro bexI [of _ v]) auto
  qed
qed

lemma execute_cases:
  obtains "parent_done" "execute json_valid retain now parent_done ctx_done ret t = map (requeue_row (tk_ID t) now [])"
  | "\<not> parent_done" "is_busy (snd ret)" "tk_Attempts t < 6"
    "execute json_valid retain now parent_done ctx_done ret t = map (requeue_row (tk_ID t) (now + 2 ^ tk_Attempts t) msg_waiting)"
  | "\<not> parent_done" "\<not> (is_busy (snd ret) \<and> tk_Attempts t < 6)"
    "execute json_valid retain now parent_done ctx_done ret t =
      (\<lambda>ts. Prune retain now (map (conclude_row json_valid ctx_done ret (tk_ID t) now) ts))"
proof (cases parent_done)
  case True
  then show thesis by (intro that(1)) (simp_all add: fun_eq_iff execute_def)
next
  case False
  obtain st message result where o: "outcome json_valid ctx_done ret = (st, message, result)"
    by (cases "outcome json_valid ctx_done ret") auto
  show thesis
  proof (cases "is_busy (snd ret) \<and> tk_Attempts t < 6")
    case True
    with False show thesis by (intro that(2)) (simp_all add: fun_eq_iff execute_def)
  next
    case b: False
    with False show thesis
      by (intro that(3)) (simp_all only: fun_eq_iff execute_def conclude_row_def o if_False prod.case simp_thms)
  qed
qed

lemma execute_update: "table_update (execute json_valid retain now parent_done ctx_done ret t)"
  by (rule execute_cases [of parent_done json_valid retain now ctx_done ret t])
    (simp_all add: requeueing.rows.table_update_axioms
      table_update_compose [OF concluding.rows.table_update_axioms pruning.table_update_axioms])

interpretation executing: table_update "execute json_valid retain now parent_done ctx_done ret t"
  for json_valid retain now parent_done ctx_done ret t
  by (rule execute_update)

section \<open>Submitting\<close>

lemma Submit_Inr:
  assumes "Submit opts handlers kind target guard actor now rand ts = Inr (t, ts')"
  shows "ts' = ts \<and> t \<in> set ts \<and> tk_dedup_key t = Some (task_key kind target) \<or>
    t = new_task rand kind target guard actor now \<and> ts' = ts @ [t] \<and> rand \<notin> tk_ID ` set ts \<and>
      int (active_count ts) < op_Capacity opts \<and> (\<forall>u \<in> set ts. tk_dedup_key u \<noteq> Some (task_key kind target))"
proof (cases "find (\<lambda>t. tk_dedup_key t = Some (task_key kind target)) ts")
  case None
  with assms show ?thesis
    by (auto simp: Submit_def insert_task_def res_simps Let_def active_count_def find_None_iff list_ex_iff new_task_def
        split: if_splits)
next
  case (Some u)
  with assms have "t = u" "ts' = ts" by (auto simp: Submit_def res_simps)
  with Some show ?thesis by (auto simp: find_Some_iff)
qed

lemma new_task_simps [simp]:
  "tk_ID (new_task tid kind target guard actor now) = tid" "active (new_task tid kind target guard actor now)"
  "tk_State (new_task tid kind target guard actor now) = Queued" "tk_Attempts (new_task tid kind target guard actor now) = 0"
  "tk_dedup_key (new_task tid kind target guard actor now) = Some (task_key kind target)"
  "task_row_ok (new_task tid kind target guard actor now)"
  by (simp_all add: new_task_def active_def task_row_ok_def)

lemma Submit_table:
  assumes "Submit opts handlers kind target guard actor now rand ts = Inr (t, ts')" "table_ok ts"
  shows "table_ok ts'" "active_count ts' \<le> active_count ts \<or> int (active_count ts') \<le> op_Capacity opts"
    "\<And>u. u \<in> set ts' \<Longrightarrow> u \<in> set ts \<or> tk_ID u = rand \<and> rand \<notin> tk_ID ` set ts \<and> tk_State u = Queued \<and> tk_Attempts u = 0"
proof -
  have *: "ts' = ts \<or> t = new_task rand kind target guard actor now \<and> ts' = ts @ [t] \<and> rand \<notin> tk_ID ` set ts \<and>
      int (active_count ts) < op_Capacity opts \<and> Some (task_key kind target) \<notin> tk_dedup_key ` set ts"
    using Submit_Inr [OF assms(1)] by (metis imageE)
  then have "Some (task_key kind target) \<notin> tk_dedup_key ` set (filter active ts)" if "ts' \<noteq> ts" using that by auto
  with * assms(2) show "table_ok ts'" by (cases "ts' = ts") (auto simp: table_ok_def)
  from * show "active_count ts' \<le> active_count ts \<or> int (active_count ts') \<le> op_Capacity opts"
    by (auto simp: active_count_def)
  from * show "u \<in> set ts \<or> tk_ID u = rand \<and> rand \<notin> tk_ID ` set ts \<and> tk_State u = Queued \<and> tk_Attempts u = 0"
    if "u \<in> set ts'" for u using that by auto
qed

section \<open>Claiming\<close>

lemma claim_Some:
  assumes "claim now ts = Some (t, ts')"
  obtains u where "u \<in> set ts" "tk_State u = Queued" "tk_NextAt u \<le> now" "t = u\<lparr>tk_Attempts := Suc (tk_Attempts u)\<rparr>"
    "ts' = map (claim_row (tk_ID u) now) ts"
    "\<And>v. v \<in> set ts \<Longrightarrow> tk_State v = Queued \<Longrightarrow> tk_NextAt v \<le> now \<Longrightarrow> task_rank u \<le> task_rank v"
  using assms first_row_Some by (fastforce simp: claim_def split: option.splits)

section \<open>Events\<close>

text \<open>
  A worker holds its slot from the claim to the deferred release; \<open>fl_leaving\<close> says that its last statement is done.
\<close>

record flight =
  fl_task :: Task
  fl_leaving :: bool

record queue =
  qu_tasks :: "Task list"
  qu_flights :: "flight list"

datatype job_event =
  Submitted string string string int int string
| CancelledBy string int
| Claimed int
| Skipped nat
| Executed nat int bool "handler_error option" handler_return
| Interrupted nat int "handler_error option" handler_return
| Released nat
| Pruned int
| Restarted int

definition working :: "queue \<Rightarrow> flight list" where
  "working q = filter (\<lambda>f. \<not> fl_leaving f) (qu_flights q)"

definition leave :: "nat \<Rightarrow> flight list \<Rightarrow> flight list" where
  "leave i fs = fs[i := (fs ! i)\<lparr>fl_leaving := True\<rparr>]"

definition drop_nth :: "nat \<Rightarrow> 'a list \<Rightarrow> 'a list" where
  "drop_nth i xs = take i xs @ drop (Suc i) xs"

definition end_flight :: "string list \<Rightarrow> (string \<Rightarrow> bool) \<Rightarrow> bool \<Rightarrow> nat \<Rightarrow> int \<Rightarrow> bool \<Rightarrow> bool \<Rightarrow> handler_error option \<Rightarrow> handler_return \<Rightarrow>
    queue \<Rightarrow> queue option" where
  "end_flight handlers json_valid retain i now parent_done ctx_done read_error ret q =
    (if i < length (qu_flights q) \<and> \<not> fl_leaving (qu_flights q ! i)
     then let t = fl_task (qu_flights q ! i) in
       Some \<lparr>qu_tasks = execute json_valid retain now parent_done ctx_done (dispatch_handler handlers t read_error ret) t (qu_tasks q),
         qu_flights = leave i (qu_flights q)\<rparr>
     else None)"

text \<open>
  \<open>None\<close>: the event cannot happen in this state. The random id of a submission is not one of a worker's task; an
  id of the table is refused by the primary key. A restart is the end of the process or of \<open>Run\<close>, which waits for its
  workers, and the next \<open>Run\<close>.
\<close>

fun job_step :: "Options \<Rightarrow> string list \<Rightarrow> (string \<Rightarrow> bool) \<Rightarrow> bool \<Rightarrow> job_event \<Rightarrow> queue \<Rightarrow> queue option" where
  "job_step opts handlers json_valid retain (Submitted kind target guard actor now rand) q =
    (if rand \<in> set (map (\<lambda>f. tk_ID (fl_task f)) (qu_flights q)) then None
     else case Submit opts handlers kind target guard actor now rand (qu_tasks q) of
       Inl _ \<Rightarrow> Some q | Inr (_, ts) \<Rightarrow> Some (q\<lparr>qu_tasks := ts\<rparr>))"
| "job_step opts handlers json_valid retain (CancelledBy tid now) q = Some (q\<lparr>qu_tasks := Cancel tid now (qu_tasks q)\<rparr>)"
| "job_step opts handlers json_valid retain (Claimed now) q =
    (if int (length (qu_flights q)) < op_Workers opts
     then case claim now (qu_tasks q) of None \<Rightarrow> Some q
       | Some (t, ts) \<Rightarrow> Some \<lparr>qu_tasks = ts, qu_flights = qu_flights q @ [\<lparr>fl_task = t, fl_leaving = False\<rparr>]\<rparr>
     else None)"
| "job_step opts handlers json_valid retain (Skipped i) q =
    (if i < length (qu_flights q) \<and> \<not> fl_leaving (qu_flights q ! i) \<and>
        (case get_task (qu_tasks q) (tk_ID (fl_task (qu_flights q ! i))) of Some t \<Rightarrow> tk_State t \<noteq> Running | None \<Rightarrow> False)
     then Some (q\<lparr>qu_flights := leave i (qu_flights q)\<rparr>) else None)"
| "job_step opts handlers json_valid retain (Executed i now ctx_done read_error ret) q =
    end_flight handlers json_valid retain i now False ctx_done read_error ret q"
| "job_step opts handlers json_valid retain (Interrupted i now read_error ret) q =
    end_flight handlers json_valid retain i now True True read_error ret q"
| "job_step opts handlers json_valid retain (Released i) q =
    (if i < length (qu_flights q) \<and> fl_leaving (qu_flights q ! i)
     then Some (q\<lparr>qu_flights := drop_nth i (qu_flights q)\<rparr>) else None)"
| "job_step opts handlers json_valid retain (Pruned now) q = Some (q\<lparr>qu_tasks := Prune retain now (qu_tasks q)\<rparr>)"
| "job_step opts handlers json_valid retain (Restarted now) q = Some \<lparr>qu_tasks = Recover now (qu_tasks q), qu_flights = []\<rparr>"

fun job_run :: "Options \<Rightarrow> string list \<Rightarrow> (string \<Rightarrow> bool) \<Rightarrow> bool \<Rightarrow> job_event list \<Rightarrow> queue \<Rightarrow> queue option" where
  "job_run opts handlers json_valid retain [] q = Some q"
| "job_run opts handlers json_valid retain (e # es) q =
    (case job_step opts handlers json_valid retain e q of None \<Rightarrow> None | Some q' \<Rightarrow> job_run opts handlers json_valid retain es q')"

end
