(* ===== verification/Job_Safety.thy ===== *)
theory Job_Safety
  imports Job_Runner
begin

text \<open>
  What every interleaving of \<open>Job_Runner\<close> keeps: one active task per kind and target, at most the configured number
  of active tasks and of workers, every running row in the hands of exactly one worker, a bound on the executions
  of a task, and the finality of finished rows.
\<close>

section \<open>Workers and rows\<close>

definition holds :: "queue \<Rightarrow> (string \<times> nat) list" where
  "holds q = map (\<lambda>f. (tk_ID (fl_task f), tk_Attempts (fl_task f))) (working q)"

definition flights_ok :: "(string \<times> nat) list \<Rightarrow> Task list \<Rightarrow> bool" where
  "flights_ok ws ts \<longleftrightarrow> distinct (map fst ws) \<and>
     list_all (\<lambda>t. tk_State t = Running \<longrightarrow> tk_ID t \<in> set (map fst ws)) ts \<and>
     list_all (\<lambda>(w, a). list_all (\<lambda>t. tk_ID t = w \<longrightarrow> tk_State t \<noteq> Queued \<and> tk_Attempts t = a) ts) ws"

definition queue_ok :: "Options \<Rightarrow> queue \<Rightarrow> bool" where
  "queue_ok opts q \<longleftrightarrow> table_ok (qu_tasks q) \<and> int (active_count (qu_tasks q)) \<le> op_Capacity opts \<and>
     int (length (qu_flights q)) \<le> op_Workers opts \<and> flights_ok (holds q) (qu_tasks q)"

lemma flights_okI:
  assumes "distinct (map fst ws)"
    "\<And>t. t \<in> set ts \<Longrightarrow> tk_State t = Running \<Longrightarrow> tk_ID t \<in> set (map fst ws)"
    "\<And>t w a. t \<in> set ts \<Longrightarrow> (w, a) \<in> set ws \<Longrightarrow> tk_ID t = w \<Longrightarrow> tk_State t \<noteq> Queued \<and> tk_Attempts t = a"
  shows "flights_ok ws ts"
  using assms by (auto simp: flights_ok_def list_all_iff)

lemma flights_okD:
  assumes "flights_ok ws ts"
  shows "distinct (map fst ws)" "t \<in> set ts \<Longrightarrow> tk_State t = Running \<Longrightarrow> tk_ID t \<in> set (map fst ws)"
    "t \<in> set ts \<Longrightarrow> (w, a) \<in> set ws \<Longrightarrow> tk_ID t = w \<Longrightarrow> tk_State t \<noteq> Queued \<and> tk_Attempts t = a"
  using assms by (auto simp: flights_ok_def list_all_iff)

lemma flights_ok_update:
  assumes "flights_ok ws ts"
    "\<And>t'. t' \<in> set ts' \<Longrightarrow> \<exists>t \<in> set ts. tk_ID t' = tk_ID t \<and> tk_Attempts t' = tk_Attempts t \<and>
      (tk_State t' = Running \<longrightarrow> tk_State t = Running) \<and> (tk_State t' = Queued \<longrightarrow> tk_State t = Queued)"
  shows "flights_ok ws ts'"
proof (rule flights_okI)
  show "distinct (map fst ws)" by (rule flights_okD(1) [OF assms(1)])
  show "tk_ID t' \<in> set (map fst ws)" if "t' \<in> set ts'" "tk_State t' = Running" for t'
    using flights_okD(2) [OF assms(1)] assms(2) [OF that(1)] that(2) by metis
  show "tk_State t' \<noteq> Queued \<and> tk_Attempts t' = a" if "t' \<in> set ts'" "(w, a) \<in> set ws" "tk_ID t' = w" for t' w a
    using flights_okD(3) [OF assms(1)] assms(2) [OF that(1)] that(2,3) by metis
qed

lemma flights_ok_leave:
  assumes "flights_ok (A @ (w, a) # B) ts"
    "\<And>t'. t' \<in> set ts' \<Longrightarrow> t' \<in> set ts \<and> tk_ID t' \<noteq> w \<or> tk_ID t' = w \<and> tk_State t' \<noteq> Running"
  shows "flights_ok (A @ B) ts'"
proof (rule flights_okI)
  have d: "distinct (map fst (A @ (w, a) # B))" by (rule flights_okD(1) [OF assms(1)])
  then show "distinct (map fst (A @ B))" by auto
  show "tk_ID t' \<in> set (map fst (A @ B))" if "t' \<in> set ts'" "tk_State t' = Running" for t'
    using flights_okD(2) [OF assms(1), of t'] assms(2) [OF that(1)] that(2) by auto
  show "tk_State t' \<noteq> Queued \<and> tk_Attempts t' = b" if "t' \<in> set ts'" "(v, b) \<in> set (A @ B)" "tk_ID t' = v" for t' v b
  proof -
    have "w \<notin> set (map fst (A @ B))" using d by auto
    with that(2,3) have "tk_ID t' \<noteq> w" by force
    with assms(2) [OF that(1)] have "t' \<in> set ts" by blast
    moreover from that(2) have "(v, b) \<in> set (A @ (w, a) # B)" by auto
    ultimately show ?thesis using that(3) by (rule flights_okD(3) [OF assms(1)])
  qed
qed

lemma holds_leave:
  assumes "i < length (qu_flights q)" "\<not> fl_leaving (qu_flights q ! i)"
  obtains A B where "holds q = A @ (tk_ID (fl_task (qu_flights q ! i)), tk_Attempts (fl_task (qu_flights q ! i))) # B"
    "\<And>ts. holds \<lparr>qu_tasks = ts, qu_flights = leave i (qu_flights q)\<rparr> = A @ B"
proof -
  define fs f where "fs = qu_flights q" and "f = fs ! i"
  define A B where "A = filter (\<lambda>f. \<not> fl_leaving f) (take i fs)" and "B = filter (\<lambda>f. \<not> fl_leaving f) (drop (Suc i) fs)"
  have fs: "fs = take i fs @ f # drop (Suc i) fs"
    using assms(1) unfolding f_def fs_def by (rule id_take_nth_drop)
  have "filter (\<lambda>f. \<not> fl_leaving f) fs = A @ f # B"
    using assms(2) by (subst fs) (simp add: A_def B_def f_def fs_def)
  moreover have "filter (\<lambda>f. \<not> fl_leaving f) (leave i fs) = A @ B"
    using assms(1) by (simp add: leave_def upd_conv_take_nth_drop A_def B_def fs_def)
  ultimately show thesis
    by (intro that) (simp_all add: holds_def working_def fs_def f_def)
qed

lemma holds_drop:
  assumes "i < length (qu_flights q)" "fl_leaving (qu_flights q ! i)"
  shows "holds (q\<lparr>qu_flights := drop_nth i (qu_flights q)\<rparr>) = holds q"
proof -
  have "qu_flights q = take i (qu_flights q) @ qu_flights q ! i # drop (Suc i) (qu_flights q)"
    using assms(1) by (rule id_take_nth_drop)
  then have "filter (\<lambda>f. \<not> fl_leaving f) (qu_flights q) = filter (\<lambda>f. \<not> fl_leaving f) (drop_nth i (qu_flights q))"
    using assms(2) by (metis (no_types, lifting) drop_nth_def filter.simps(2) filter_append)
  then show ?thesis by (simp add: holds_def working_def)
qed

text \<open>The rows after an execution: those of other tasks as they were, and the own one not running.\<close>

lemma execute_rows:
  assumes "t' \<in> set (execute json_valid retain now parent_done ctx_done ret t ts)"
  shows "t' \<in> set ts \<and> tk_ID t' \<noteq> tk_ID t \<or> tk_ID t' = tk_ID t \<and> tk_State t' \<noteq> Running"
proof (rule execute_cases [of parent_done json_valid retain now ctx_done ret t])
  assume "execute json_valid retain now parent_done ctx_done ret t =
    (\<lambda>ts. Prune retain now (map (conclude_row json_valid ctx_done ret (tk_ID t) now) ts))"
  with assms obtain u where "u \<in> set ts" "t' = conclude_row json_valid ctx_done ret (tk_ID t) now u"
    by (rule_tac Prune_filter [of retain now "map (conclude_row json_valid ctx_done ret (tk_ID t) now) ts"]) auto
  then show ?thesis using outcome_final [of json_valid ctx_done ret]
    by (cases "outcome json_valid ctx_done ret") (auto simp: conclude_row_def finish_row_def)
qed (use assms in \<open>auto simp: requeue_row_def\<close>)

section \<open>One event\<close>

lemma queue_ok_update:
  assumes "queue_ok opts q" "table_update upd"
    "\<And>t'. t' \<in> set (upd (qu_tasks q)) \<Longrightarrow> \<exists>t \<in> set (qu_tasks q). tk_ID t' = tk_ID t \<and> tk_Attempts t' = tk_Attempts t \<and>
      (tk_State t' = Running \<longrightarrow> tk_State t = Running) \<and> (tk_State t' = Queued \<longrightarrow> tk_State t = Queued)"
  shows "queue_ok opts (q\<lparr>qu_tasks := upd (qu_tasks q)\<rparr>)"
  using assms(1) table_update.keeps_table [OF assms(2)] table_update.active_less [OF assms(2), of "qu_tasks q"]
    flights_ok_update [of "holds q" "qu_tasks q" "upd (qu_tasks q)"] assms(3)
  by (auto simp: queue_ok_def holds_def working_def)

lemma queue_ok_end_flight:
  assumes "queue_ok opts q" "end_flight handlers json_valid retain i now parent_done ctx_done read_error ret q = Some q'"
  shows "queue_ok opts q'"
proof -
  define t where "t = fl_task (qu_flights q ! i)"
  define ts' where "ts' = execute json_valid retain now parent_done ctx_done (dispatch_handler handlers t read_error ret) t (qu_tasks q)"
  from assms(2) have i: "i < length (qu_flights q)" "\<not> fl_leaving (qu_flights q ! i)"
    and q': "q' = \<lparr>qu_tasks = ts', qu_flights = leave i (qu_flights q)\<rparr>"
    by (auto simp: end_flight_def t_def ts'_def Let_def split: if_splits)
  from i obtain A B where h: "holds q = A @ (tk_ID t, tk_Attempts t) # B"
    "\<And>ts. holds \<lparr>qu_tasks = ts, qu_flights = leave i (qu_flights q)\<rparr> = A @ B"
    unfolding t_def by (rule holds_leave) blast
  have "flights_ok (A @ B) ts'"
    by (rule flights_ok_leave [of A "tk_ID t" "tk_Attempts t" B "qu_tasks q"])
      (use assms(1) h(1) execute_rows in \<open>auto simp: queue_ok_def ts'_def\<close>)
  moreover have "table_ok ts'" "active_count ts' \<le> active_count (qu_tasks q)"
    using assms(1) executing.keeps_table executing.active_less by (auto simp: queue_ok_def ts'_def)
  ultimately show ?thesis using assms(1) h(2) by (simp add: queue_ok_def q' leave_def)
qed

lemma queue_ok_claim:
  assumes "queue_ok opts q" "int (length (qu_flights q)) < op_Workers opts" "claim now (qu_tasks q) = Some (t, ts)"
  shows "queue_ok opts \<lparr>qu_tasks = ts, qu_flights = qu_flights q @ [\<lparr>fl_task = t, fl_leaving = False\<rparr>]\<rparr>"
proof -
  from assms(3) obtain u where u: "u \<in> set (qu_tasks q)" "tk_State u = Queued" "t = u\<lparr>tk_Attempts := Suc (tk_Attempts u)\<rparr>"
    "ts = map (claim_row (tk_ID u) now) (qu_tasks q)"
    by (rule claim_Some) blast
  have ok: "table_ok (qu_tasks q)" "flights_ok (holds q) (qu_tasks q)" using assms(1) by (simp_all add: queue_ok_def)
  have free: "tk_ID u \<notin> set (map fst (holds q))"
    using flights_okD(3) [OF ok(2) u(1) _ refl] u(2) by auto
  have row: "v' \<in> set (qu_tasks q) \<and> tk_ID v' \<noteq> tk_ID u \<or>
      tk_ID v' = tk_ID u \<and> tk_State v' = Running \<and> tk_Attempts v' = Suc (tk_Attempts u)" if "v' \<in> set ts" for v'
  proof -
    from that obtain v where v: "v \<in> set (qu_tasks q)" "v' = claim_row (tk_ID u) now v" by (auto simp: u(4))
    with table_ok_id [OF ok(1) v(1) u(1)] u(2) show ?thesis by (auto simp: claim_row_def)
  qed
  have "flights_ok (holds q @ [(tk_ID u, Suc (tk_Attempts u))]) ts"
  proof (rule flights_okI)
    show "distinct (map fst (holds q @ [(tk_ID u, Suc (tk_Attempts u))]))"
      using flights_okD(1) [OF ok(2)] free by simp
    show "tk_ID v \<in> set (map fst (holds q @ [(tk_ID u, Suc (tk_Attempts u))]))" if "v \<in> set ts" "tk_State v = Running" for v
      using row [OF that(1)] flights_okD(2) [OF ok(2), of v] that(2) by auto
    show "tk_State v \<noteq> Queued \<and> tk_Attempts v = a"
      if "v \<in> set ts" "(w, a) \<in> set (holds q @ [(tk_ID u, Suc (tk_Attempts u))])" "tk_ID v = w" for v w a
      using row [OF that(1)] that(2,3) flights_okD(3) [OF ok(2), of v w a] free by force
  qed
  moreover have "table_ok ts" "active_count ts \<le> active_count (qu_tasks q)"
    using claiming.rows.keeps_table [OF ok(1)] claiming.rows.active_less [OF ok(1)] by (simp_all add: u(4))
  ultimately show ?thesis using assms(1,2) u(3) by (simp add: queue_ok_def holds_def working_def)
qed

theorem job_step_ok:
  assumes "queue_ok opts q" "job_step opts handlers json_valid retain e q = Some q'"
  shows "queue_ok opts q'"
proof (cases e)
  case (Submitted kind target guard actor now rand)
  with assms(2) have r: "rand \<notin> set (map (\<lambda>f. tk_ID (fl_task f)) (qu_flights q))" by (auto split: if_splits)
  show ?thesis
  proof (cases "Submit opts handlers kind target guard actor now rand (qu_tasks q)")
    case (Inl x)
    with assms Submitted r show ?thesis by simp
  next
    case (Inr x)
    then obtain t ts where s: "Submit opts handlers kind target guard actor now rand (qu_tasks q) = Inr (t, ts)" by (cases x) auto
    from assms(1) have ok: "table_ok (qu_tasks q)" "flights_ok (holds q) (qu_tasks q)" by (simp_all add: queue_ok_def)
    have fresh: "rand \<notin> set (map fst (holds q))" using r by (auto simp: holds_def working_def)
    have "flights_ok (holds q) ts"
    proof (rule flights_okI)
      show "distinct (map fst (holds q))" by (rule flights_okD(1) [OF ok(2)])
      show "tk_ID u \<in> set (map fst (holds q))" if "u \<in> set ts" "tk_State u = Running" for u
        using Submit_table(3) [OF s ok(1) that(1)] that(2) flights_okD(2) [OF ok(2), of u] by auto
      show "tk_State u \<noteq> Queued \<and> tk_Attempts u = a" if "u \<in> set ts" "(w, a) \<in> set (holds q)" "tk_ID u = w" for u w a
      proof -
        have "w \<noteq> rand" using that(2) fresh by force
        with Submit_table(3) [OF s ok(1) that(1)] that(3) have "u \<in> set (qu_tasks q)" by auto
        then show ?thesis using that(2,3) by (rule flights_okD(3) [OF ok(2)])
      qed
    qed
    with s assms Submitted r Submit_table(1,2) [OF s ok(1)] show ?thesis
      by (auto simp: queue_ok_def holds_def working_def)
  qed
next
  case (CancelledBy tid now)
  with assms(2) have "q' = q\<lparr>qu_tasks := map (cancel_row tid now) (qu_tasks q)\<rparr>" by (simp add: Cancel_def)
  moreover have "queue_ok opts (q\<lparr>qu_tasks := map (cancel_row tid now) (qu_tasks q)\<rparr>)"
    by (rule queue_ok_update [OF assms(1) cancelling.rows.table_update_axioms]) (auto simp: cancel_row_def)
  ultimately show ?thesis by simp
next
  case (Claimed now)
  with assms queue_ok_claim show ?thesis by (auto split: if_splits option.splits)
next
  case (Skipped i)
  then obtain t where i: "i < length (qu_flights q)" "\<not> fl_leaving (qu_flights q ! i)"
    and t: "get_task (qu_tasks q) (tk_ID (fl_task (qu_flights q ! i))) = Some t" "tk_State t \<noteq> Running"
    and q': "q' = q\<lparr>qu_flights := leave i (qu_flights q)\<rparr>"
    using assms(2) by (auto split: if_splits option.splits)
  from i obtain A B where h: "holds q = A @ (tk_ID (fl_task (qu_flights q ! i)), tk_Attempts (fl_task (qu_flights q ! i))) # B"
    "\<And>ts. holds \<lparr>qu_tasks = ts, qu_flights = leave i (qu_flights q)\<rparr> = A @ B"
    by (rule holds_leave) blast
  from t(1) have t': "t \<in> set (qu_tasks q)" "tk_ID t = tk_ID (fl_task (qu_flights q ! i))"
    by (auto simp: get_task_def find_Some_iff)
  have ok: "table_ok (qu_tasks q)" "flights_ok (holds q) (qu_tasks q)" using assms(1) by (simp_all add: queue_ok_def)
  have "flights_ok (A @ B) (qu_tasks q)"
    by (rule flights_ok_leave [OF ok(2) [unfolded h(1)]]) (use table_ok_id [OF ok(1) _ t'(1)] t' t(2) in metis)
  moreover have "holds q' = A @ B" using h(2) [of "qu_tasks q"] by (simp add: q' holds_def working_def)
  ultimately show ?thesis using assms(1) by (simp add: queue_ok_def q' leave_def)
next
  case (Executed i now ctx_done read_error ret)
  with assms queue_ok_end_flight show ?thesis by simp
next
  case (Interrupted i now read_error ret)
  with assms queue_ok_end_flight show ?thesis by simp
next
  case (Released i)
  then have i: "i < length (qu_flights q)" "fl_leaving (qu_flights q ! i)" and q': "q' = q\<lparr>qu_flights := drop_nth i (qu_flights q)\<rparr>"
    using assms(2) by (auto split: if_splits)
  have "length (drop_nth i (qu_flights q)) \<le> length (qu_flights q)" using i(1) by (simp add: drop_nth_def)
  with holds_drop [OF i] assms(1) show ?thesis by (simp add: queue_ok_def q')
next
  case (Pruned now)
  have "queue_ok opts (q\<lparr>qu_tasks := Prune retain now (qu_tasks q)\<rparr>)"
    by (rule queue_ok_update [OF assms(1) pruning.table_update_axioms])
      (rule Prune_filter [of retain now "qu_tasks q"], auto)
  with assms(2) Pruned show ?thesis by simp
next
  case (Restarted now)
  have ok: "table_ok (qu_tasks q)" using assms(1) by (simp add: queue_ok_def)
  have "tk_State t \<noteq> Running" if "t \<in> set (Recover now (qu_tasks q))" for t
    using that by (auto simp: Recover_def recover_row_def)
  then have "flights_ok [] (Recover now (qu_tasks q))" by (intro flights_okI) auto
  with assms Restarted recovering.rows.keeps_table [OF ok, of now] recovering.rows.active_less [OF ok, of now] show ?thesis
    by (auto simp: queue_ok_def Recover_def holds_def working_def)
qed

definition empty_queue :: queue where "empty_queue = \<lparr>qu_tasks = [], qu_flights = []\<rparr>"

lemma empty_queue_ok: "0 \<le> op_Capacity opts \<Longrightarrow> 0 \<le> op_Workers opts \<Longrightarrow> queue_ok opts empty_queue"
  by (simp add: empty_queue_def queue_ok_def table_ok_def active_count_def flights_ok_def holds_def working_def)

text \<open>The options of \<open>New\<close> always allow some work, and never more than 8 workers and 1024 active tasks.\<close>

lemma clamp_options_bounds:
  "1 \<le> op_Workers (clamp_options opts) \<and> op_Workers (clamp_options opts) \<le> 8 \<and>
   1 \<le> op_Capacity (clamp_options opts) \<and> op_Capacity (clamp_options opts) \<le> 1024"
  by (simp add: clamp_options_def)

lemma job_run_Some:
  "job_run opts handlers json_valid retain (e # es) q = Some q' \<longleftrightarrow>
    (\<exists>p. job_step opts handlers json_valid retain e q = Some p \<and> job_run opts handlers json_valid retain es p = Some q')"
  by (simp split: option.split)

lemma job_run_ok:
  "job_run opts handlers json_valid retain es q = Some q' \<Longrightarrow> queue_ok opts q \<Longrightarrow> queue_ok opts q'"
proof (induction es arbitrary: q)
  case (Cons e es)
  then show ?case unfolding job_run_Some using job_step_ok by blast
qed simp

text \<open>In the terms of the table: keys are distinct, so active tasks of one kind and target are the same row.\<close>

lemma active_unique:
  assumes "table_ok ts" "t \<in> set ts" "u \<in> set ts" "active t" "active u" "tk_Kind t = tk_Kind u" "tk_Target t = tk_Target u"
  shows "t = u"
proof -
  have "tk_dedup_key t = tk_dedup_key u"
    using task_row_ok_of [OF assms(1,2)] task_row_ok_of [OF assms(1,3)] assms(4-) by (simp add: task_row_ok_def)
  with assms show ?thesis by (auto simp: table_ok_def distinct_map inj_on_def)
qed

lemma one_worker:
  assumes "queue_ok opts q" "t \<in> set (qu_tasks q)" "tk_State t = Running"
  shows "length (filter (\<lambda>f. tk_ID (fl_task f) = tk_ID t) (working q)) = 1"
proof -
  have ok: "flights_ok (holds q) (qu_tasks q)" using assms(1) by (simp add: queue_ok_def)
  have ids: "map fst (holds q) = map (\<lambda>f. tk_ID (fl_task f)) (working q)" by (simp add: holds_def)
  have one: "length (filter (\<lambda>y. y = x) xs) = 1" if "distinct xs" "x \<in> set xs" for x and xs :: "string list"
  proof -
    from that have "{x} \<inter> set xs = {x}" by auto
    with distinct_length_filter [OF that(1), of "\<lambda>y. y = x"] show ?thesis by (simp add: Int_commute)
  qed
  have "length (filter (\<lambda>y. y = tk_ID t) (map (\<lambda>f. tk_ID (fl_task f)) (working q))) = 1"
    using one [of "map fst (holds q)" "tk_ID t"] flights_okD(1,2) [OF ok] assms(2,3) ids by simp
  then show ?thesis by (simp add: filter_map comp_def)
qed

theorem queue_run_safe:
  assumes "job_run (clamp_options opts) handlers json_valid retain es empty_queue = Some q"
  shows "\<forall>t \<in> set (qu_tasks q). \<forall>u \<in> set (qu_tasks q).
      active t \<and> active u \<and> tk_Kind t = tk_Kind u \<and> tk_Target t = tk_Target u \<longrightarrow> t = u"
    and "length (filter active (qu_tasks q)) \<le> 1024" "length (qu_flights q) \<le> 8"
    and "\<forall>t \<in> set (qu_tasks q). tk_State t = Running \<longrightarrow>
      length (filter (\<lambda>f. tk_ID (fl_task f) = tk_ID t) (working q)) = 1"
proof -
  have c: "1 \<le> op_Workers (clamp_options opts)" "op_Workers (clamp_options opts) \<le> 8"
    "1 \<le> op_Capacity (clamp_options opts)" "op_Capacity (clamp_options opts) \<le> 1024"
    using clamp_options_bounds by simp_all
  have ok: "queue_ok (clamp_options opts) q"
    by (rule job_run_ok [OF assms empty_queue_ok]) (use c in simp_all)
  then show "length (filter active (qu_tasks q)) \<le> 1024" "length (qu_flights q) \<le> 8"
    using c by (simp_all add: queue_ok_def active_count_def)
  show "\<forall>t \<in> set (qu_tasks q). tk_State t = Running \<longrightarrow>
      length (filter (\<lambda>f. tk_ID (fl_task f) = tk_ID t) (working q)) = 1"
    using one_worker [OF ok] by blast
  from ok have "table_ok (qu_tasks q)" by (simp add: queue_ok_def)
  then show "\<forall>t \<in> set (qu_tasks q). \<forall>u \<in> set (qu_tasks q).
      active t \<and> active u \<and> tk_Kind t = tk_Kind u \<and> tk_Target t = tk_Target u \<longrightarrow> t = u"
    using active_unique by blast
qed

section \<open>Executions are bounded\<close>

text \<open>
  An answer of \<open>ErrBusy\<close> is retried while the task has fewer than six attempts. Only a shutdown or a restart lets a
  task run once more than that.
\<close>

fun interrupting :: "job_event \<Rightarrow> bool" where
  "interrupting (Interrupted _ _ _ _) = True"
| "interrupting (Restarted _) = True"
| "interrupting _ = False"

definition attempts_ok :: "nat \<Rightarrow> Task list \<Rightarrow> bool" where
  "attempts_ok n ts \<longleftrightarrow> list_all (\<lambda>t. tk_Attempts t \<le> 6 + n \<and> (tk_State t = Queued \<longrightarrow> tk_Attempts t \<le> 5 + n)) ts"

lemma attempts_okI:
  "(\<And>t. t \<in> set ts \<Longrightarrow> tk_Attempts t \<le> 6 + n \<and> (tk_State t = Queued \<longrightarrow> tk_Attempts t \<le> 5 + n)) \<Longrightarrow> attempts_ok n ts"
  by (simp add: attempts_ok_def list_all_iff)

lemma attempts_okD:
  "attempts_ok n ts \<Longrightarrow> t \<in> set ts \<Longrightarrow> tk_Attempts t \<le> 6 + n \<and> (tk_State t = Queued \<longrightarrow> tk_Attempts t \<le> 5 + n)"
  by (simp add: attempts_ok_def list_all_iff)

lemma execute_attempts:
  assumes "t' \<in> set (execute json_valid retain now parent_done ctx_done ret t ts)"
  shows "\<exists>u \<in> set ts. tk_Attempts t' = tk_Attempts u \<and>
    (tk_State t' = Queued \<longrightarrow> tk_State u = Queued \<or> tk_State u = Running \<and> tk_ID u = tk_ID t \<and> (parent_done \<or> tk_Attempts t < 6))"
proof (rule execute_cases [of parent_done json_valid retain now ctx_done ret t])
  assume "execute json_valid retain now parent_done ctx_done ret t =
    (\<lambda>ts. Prune retain now (map (conclude_row json_valid ctx_done ret (tk_ID t) now) ts))"
  with assms obtain u where "u \<in> set ts" "t' = conclude_row json_valid ctx_done ret (tk_ID t) now u"
    by (rule_tac Prune_filter [of retain now "map (conclude_row json_valid ctx_done ret (tk_ID t) now) ts"]) auto
  then show ?thesis using outcome_final [of json_valid ctx_done ret]
    by (cases "outcome json_valid ctx_done ret") (auto simp: conclude_row_def finish_row_def)
qed (use assms in \<open>auto simp: requeue_row_def\<close>)

lemma attempts_end_flight:
  assumes "attempts_ok n (qu_tasks q)" "queue_ok opts q"
    "end_flight handlers json_valid retain i now parent_done ctx_done read_error ret q = Some q'"
  shows "attempts_ok (if parent_done then Suc n else n) (qu_tasks q')"
proof (rule attempts_okI)
  define t where "t = fl_task (qu_flights q ! i)"
  fix t' assume "t' \<in> set (qu_tasks q')"
  with assms(3) have t': "t' \<in> set (execute json_valid retain now parent_done ctx_done (dispatch_handler handlers t read_error ret) t (qu_tasks q))"
    and i: "i < length (qu_flights q)" "\<not> fl_leaving (qu_flights q ! i)"
    by (auto simp: end_flight_def t_def Let_def split: if_splits)
  have held: "(tk_ID t, tk_Attempts t) \<in> set (holds q)"
    by (rule holds_leave [OF i]) (simp add: t_def)
  from execute_attempts [OF t'] obtain u where u: "u \<in> set (qu_tasks q)" "tk_Attempts t' = tk_Attempts u"
    "tk_State t' = Queued \<longrightarrow> tk_State u = Queued \<or> tk_State u = Running \<and> tk_ID u = tk_ID t \<and> (parent_done \<or> tk_Attempts t < 6)" by blast
  have "tk_Attempts u = tk_Attempts t" if "tk_ID u = tk_ID t"
    using assms(2) flights_okD(3) [OF _ u(1) held that] by (simp add: queue_ok_def)
  with attempts_okD [OF assms(1) u(1)] u(2,3)
  show "tk_Attempts t' \<le> 6 + (if parent_done then Suc n else n) \<and>
      (tk_State t' = Queued \<longrightarrow> tk_Attempts t' \<le> 5 + (if parent_done then Suc n else n))"
    by auto
qed

lemma claim_rows: "claim now ts = Some (t, ts') \<Longrightarrow> \<exists>tid. ts' = map (claim_row tid now) ts"
  by (auto simp: claim_def split: option.splits)

lemma attempts_step:
  assumes "attempts_ok n (qu_tasks q)" "queue_ok opts q" "job_step opts handlers json_valid retain e q = Some q'"
  shows "attempts_ok (if interrupting e then Suc n else n) (qu_tasks q')"
proof (cases e)
  case (Submitted kind target guard actor now rand)
  show ?thesis
  proof (cases "Submit opts handlers kind target guard actor now rand (qu_tasks q)")
    case (Inl x)
    with assms Submitted show ?thesis by (auto split: if_splits)
  next
    case (Inr x)
    then obtain t ts where s: "Submit opts handlers kind target guard actor now rand (qu_tasks q) = Inr (t, ts)" by (cases x) auto
    from assms(2) have ok: "table_ok (qu_tasks q)" by (simp add: queue_ok_def)
    have "attempts_ok n ts"
      by (rule attempts_okI) (use Submit_table(3) [OF s ok] attempts_okD [OF assms(1)] in force)
    with s assms(3) Submitted show ?thesis by (auto split: if_splits)
  qed
next
  case (CancelledBy tid now)
  with assms(1,3) show ?thesis by (auto simp: Cancel_def cancel_row_def attempts_ok_def list_all_iff)
next
  case (Claimed now)
  show ?thesis
  proof (cases "claim now (qu_tasks q)")
    case None
    with assms Claimed show ?thesis by (auto split: if_splits)
  next
    case (Some x)
    then obtain t ts where c: "claim now (qu_tasks q) = Some (t, ts)" by (cases x) auto
    then obtain tid where "ts = map (claim_row tid now) (qu_tasks q)" using claim_rows by blast
    moreover have "attempts_ok n (map (claim_row tid now) (qu_tasks q))"
      using assms(1) by (auto simp: claim_row_def attempts_ok_def list_all_iff)
    ultimately show ?thesis using c assms(3) Claimed by (auto split: if_splits)
  qed
next
  case (Skipped i)
  with assms(1,3) show ?thesis by (auto split: if_splits)
next
  case (Executed i now ctx_done read_error ret)
  with attempts_end_flight [OF assms(1,2)] assms(3) show ?thesis by fastforce
next
  case (Interrupted i now read_error ret)
  with attempts_end_flight [OF assms(1,2)] assms(3) show ?thesis by fastforce
next
  case (Released i)
  with assms(1,3) show ?thesis by (auto split: if_splits)
next
  case (Pruned now)
  have "attempts_ok n (Prune retain now (qu_tasks q))"
    by (rule Prune_filter [of retain now "qu_tasks q"]) (use assms(1) in \<open>auto simp: attempts_ok_def list_all_iff\<close>)
  with assms(3) Pruned show ?thesis by auto
next
  case (Restarted now)
  with assms(1,3) show ?thesis by (fastforce simp: Recover_def recover_row_def attempts_ok_def list_all_iff)
qed

lemma attempts_run:
  assumes "job_run opts handlers json_valid retain es q = Some q'" "attempts_ok n (qu_tasks q)" "queue_ok opts q"
  shows "attempts_ok (n + length (filter interrupting es)) (qu_tasks q')"
  using assms
proof (induction es arbitrary: n q)
  case (Cons e es)
  from Cons.prems(1) obtain p where p: "job_step opts handlers json_valid retain e q = Some p"
    "job_run opts handlers json_valid retain es p = Some q'" unfolding job_run_Some by blast
  have "attempts_ok ((if interrupting e then Suc n else n) + length (filter interrupting es)) (qu_tasks q')"
    by (rule Cons.IH [OF p(2) attempts_step [OF Cons.prems(2,3) p(1)] job_step_ok [OF Cons.prems(3) p(1)]])
  then show ?case by (auto split: if_splits)
qed simp

theorem executions_bounded:
  assumes "job_run (clamp_options opts) handlers json_valid retain es empty_queue = Some q" "t \<in> set (qu_tasks q)"
  shows "tk_Attempts t \<le> 6 + length (filter interrupting es)"
proof -
  have "queue_ok (clamp_options opts) empty_queue"
    using clamp_options_bounds [of opts] by (intro empty_queue_ok) auto
  with attempts_run [OF assms(1), of 0] attempts_okD [OF _ assms(2)] show ?thesis
    by (auto simp: empty_queue_def attempts_ok_def)
qed

section \<open>Finished rows\<close>

definition only_as :: "Task \<Rightarrow> Task list \<Rightarrow> bool" where
  "only_as t ts \<longleftrightarrow> list_all (\<lambda>u. tk_ID u = tk_ID t \<longrightarrow> u = t) ts"

fun submits_id :: "string \<Rightarrow> job_event \<Rightarrow> bool" where
  "submits_id tid (Submitted _ _ _ _ _ rand) \<longleftrightarrow> rand = tid"
| "submits_id tid _ \<longleftrightarrow> False"

lemma only_as_update:
  assumes "table_update upd" "only_as t ts" "\<not> active t"
  shows "only_as t (upd ts)"
  using table_update.from_row [OF assms(1)] assms(2,3) unfolding only_as_def list_all_iff by metis

lemma only_as_end_flight:
  assumes "end_flight handlers json_valid retain i now parent_done ctx_done read_error ret q = Some q'"
    "only_as t (qu_tasks q)" "\<not> active t"
  shows "only_as t (qu_tasks q')"
proof -
  define u where "u = fl_task (qu_flights q ! i)"
  from assms(1) have "qu_tasks q' =
      execute json_valid retain now parent_done ctx_done (dispatch_handler handlers u read_error ret) u (qu_tasks q)"
    by (auto simp: end_flight_def u_def Let_def split: if_splits)
  moreover have "only_as t (execute json_valid retain now parent_done ctx_done (dispatch_handler handlers u read_error ret) u (qu_tasks q))"
    by (rule only_as_update [OF execute_update assms(2,3)])
  ultimately show ?thesis by simp
qed

lemma only_as_step:
  assumes "only_as t (qu_tasks q)" "\<not> active t" "\<not> submits_id (tk_ID t) e"
    "job_step opts handlers json_valid retain e q = Some q'" "table_ok (qu_tasks q)"
  shows "only_as t (qu_tasks q')"
proof (cases e)
  case (Submitted kind target guard actor now rand)
  show ?thesis
  proof (cases "Submit opts handlers kind target guard actor now rand (qu_tasks q)")
    case (Inl x)
    with assms Submitted show ?thesis by (auto split: if_splits)
  next
    case (Inr x)
    then obtain u ts where s: "Submit opts handlers kind target guard actor now rand (qu_tasks q) = Inr (u, ts)" by (cases x) auto
    have "only_as t ts"
      using Submit_table(3) [OF s assms(5)] assms(1,3) Submitted by (force simp: only_as_def list_all_iff)
    with s assms(4) Submitted show ?thesis by (auto split: if_splits)
  qed
next
  case (CancelledBy tid now)
  with assms(4) only_as_update [OF cancelling.rows.table_update_axioms assms(1,2)] show ?thesis
    by (auto simp: Cancel_def)
next
  case (Claimed now)
  show ?thesis
  proof (cases "claim now (qu_tasks q)")
    case None
    with assms Claimed show ?thesis by (auto split: if_splits)
  next
    case (Some x)
    then obtain u ts where c: "claim now (qu_tasks q) = Some (u, ts)" by (cases x) auto
    then obtain tid where "ts = map (claim_row tid now) (qu_tasks q)" using claim_rows by blast
    with only_as_update [OF claiming.rows.table_update_axioms assms(1,2)] c assms(4) Claimed show ?thesis
      by (auto split: if_splits)
  qed
next
  case (Executed i now ctx_done read_error ret)
  with assms(4) have "only_as t (qu_tasks q')" by (intro only_as_end_flight [OF _ assms(1,2)]) simp
  then show ?thesis .
next
  case (Interrupted i now read_error ret)
  with assms(4) have "only_as t (qu_tasks q')" by (intro only_as_end_flight [OF _ assms(1,2)]) simp
  then show ?thesis .
next
  case (Pruned now)
  with assms(4) only_as_update [OF pruning.table_update_axioms assms(1,2)] show ?thesis by auto
next
  case (Restarted now)
  with assms(4) only_as_update [OF recovering.rows.table_update_axioms assms(1,2)] show ?thesis
    by (auto simp: Recover_def)
qed (use assms in \<open>auto split: if_splits\<close>)

theorem finished_final:
  assumes "job_run opts handlers json_valid retain es q = Some q'" "queue_ok opts q"
    "t \<in> set (qu_tasks q)" "\<not> active t" "\<not> list_ex (submits_id (tk_ID t)) es" "t' \<in> set (qu_tasks q')" "tk_ID t' = tk_ID t"
  shows "t' = t"
proof -
  have "only_as t (qu_tasks q')" if "only_as t (qu_tasks q)"
    using assms(1,2,5) that
  proof (induction es arbitrary: q)
    case (Cons e es)
    from Cons.prems(1) obtain p where p: "job_step opts handlers json_valid retain e q = Some p"
      "job_run opts handlers json_valid retain es p = Some q'" unfolding job_run_Some by blast
    have "table_ok (qu_tasks q)" using Cons.prems(2) by (simp add: queue_ok_def)
    with Cons.prems p assms(4) have "only_as t (qu_tasks p)" by (intro only_as_step [OF _ _ _ p(1)]) auto
    with Cons.IH [OF p(2) job_step_ok [OF Cons.prems(2) p(1)]] Cons.prems(3) show ?case by simp
  qed simp
  moreover have "only_as t (qu_tasks q)"
    using table_ok_id [OF _ _ assms(3)] assms(2) by (auto simp: only_as_def list_all_iff queue_ok_def)
  ultimately show ?thesis using assms(6,7) by (simp add: only_as_def list_all_iff)
qed

end
