(* ===== verification/Edge_Samples.thy ===== *)
theory Edge_Samples
  imports Hello_Roundtrip Job_Safety
begin

text \<open>
  Concrete inputs of the gateway and of the task queue: a ClientHello for one name, split over three records, and a
  queue in which a task is submitted twice, answers busy, is retried and is cancelled while it runs.
\<close>

section \<open>A ClientHello\<close>

text \<open>The name \<open>A.eu\<close> and the protocol \<open>h2\<close>.\<close>

definition hello_offer :: offer where
  "hello_offer = \<lparr>of_random = replicate 34 0, of_session = [7], of_suites = [0x13, 1], of_compression = [0],
    of_exts = [Other 43 [2, 3, 4], Sni [65, 46, 101, 117], Alpn [[0x68, 0x32]]]\<rparr>"

definition hello_fragments :: "byte list list" where
  "hello_fragments = [take 3 (handshake hello_offer), take 30 (drop 3 (handshake hello_offer)), drop 33 (handshake hello_offer)]"

definition edge_config :: gateway_config where
  "edge_config = \<lparr>gc_PanelDomain = ''p.eu'', gc_NodeDomain = ''n.eu'', gc_RealitySNI = ''a.eu'',
    gc_RealityUpstream = ''127.0.0.1:8443'', gc_RealitySocketDir = ''/run/gy''\<rparr>"

lemma hello_name: "text_of [97, 46, 101, 117] = ''a.eu''" "validDomain ''a.eu''"
  by code_simp code_simp

lemma hello_offered: "offered (of_exts hello_offer) = (''a.eu'', [text_of [0x68, 0x32]])"
  by (simp add: offered_def hello_offer_def hello_name)

lemma hello_offer_ok: "offer_ok hello_offer"
  unfolding offer_ok_def hello_offered by (simp add: hello_offer_def hello_name)

lemma hello_length_77: "length (handshake hello_offer) = 77"
  by (simp add: handshake_def enc_offer_def hello_offer_def enc_exts_def enc_ext_def enc_protocols_def)

lemma hello_fragments_ok: "fragments_ok hello_fragments" "concat hello_fragments = handshake hello_offer"
proof -
  have "handshake hello_offer \<noteq> []" using hello_length_77 by auto
  then show "fragments_ok hello_fragments"
    by (simp add: fragments_ok_def hello_fragments_def hello_length_77 wire_length_def maxHelloRecords_def maxHelloBytes_def)
  have "drop 3 (handshake hello_offer) = take 30 (drop 3 (handshake hello_offer)) @ drop 33 (handshake hello_offer)"
    using append_take_drop_id [of 30 "drop 3 (handshake hello_offer)"] by simp
  then show "concat hello_fragments = handshake hello_offer"
    using append_take_drop_id [of 3 "handshake hello_offer"] by (simp add: hello_fragments_def)
qed

lemma hello_relayed: "dispatch edge_config (\<lambda>_. False) False (stream hello_fragments @ [1, 2]) =
    Relay (Tcp ''127.0.0.1:8443'') (stream hello_fragments @ [1, 2])"
proof -
  have "text_of [0x68, 0x32] \<noteq> ''acme-tls/1''" by code_simp
  moreover have "\<not> owns edge_config ''a.eu''" by code_simp
  moreover have "realityTarget edge_config (\<lambda>_. False) ''a.eu'' = Some (Tcp ''127.0.0.1:8443'')" by code_simp
  ultimately show ?thesis
    by (simp add: dispatch_def readClientHello_stream [OF hello_offer_ok hello_fragments_ok] hello_offered)
qed

section \<open>A queue\<close>

text \<open>
  Submitted twice, claimed, busy, claimed again once the wait is over, cancelled while it runs; then the handler
  returns and the same work is submitted again.
\<close>

definition job_opts :: Options where
  "job_opts = \<lparr>op_Workers = 2, op_Capacity = 4, op_Timeout = 0\<rparr>"

definition job_row :: "task_state \<Rightarrow> int \<Rightarrow> int \<Rightarrow> int \<Rightarrow> nat \<Rightarrow> string \<Rightarrow> Task" where
  "job_row st started finished next_at attempts err =
    \<lparr>tk_ID = ''b1'', tk_Kind = ''deploy'', tk_Target = ''n1'', tk_Guard = [], tk_dedup_key = (if finished = 0 then Some ''deploy:n1'' else None),
     tk_State = st, tk_ActorID = 1, tk_Created = 100, tk_Started = started, tk_Finished = finished, tk_NextAt = next_at,
     tk_Attempts = attempts, tk_Error = err, tk_Result = None\<rparr>"

definition job_claim1 :: flight where "job_claim1 = \<lparr>fl_task = job_row Queued 0 0 100 1 [], fl_leaving = False\<rparr>"
definition job_claim2 :: flight where "job_claim2 = \<lparr>fl_task = job_row Queued 102 0 105 2 msg_waiting, fl_leaving = False\<rparr>"
definition job_gone :: flight where "job_gone = job_claim1\<lparr>fl_leaving := True\<rparr>"

definition job_queue :: "Task \<Rightarrow> flight list \<Rightarrow> queue" where
  "job_queue t fs = \<lparr>qu_tasks = [t], qu_flights = fs\<rparr>"

abbreviation job_do :: "job_event \<Rightarrow> queue \<Rightarrow> queue option" where
  "job_do \<equiv> job_step (clamp_options job_opts) [''deploy''] (\<lambda>_. True) True"

definition job_events :: "job_event list" where
  "job_events =
    [Submitted ''deploy'' ''n1'' [] 1 100 ''b1'', Submitted ''deploy'' ''n1'' [] 1 101 ''b2'', Claimed 102,
     Executed 0 103 False None (None, Some (BusyError ''busy'')), Claimed 104, Released 0, Claimed 105, CancelledBy ''b1'' 106]"

definition job_sample :: queue where
  "job_sample = job_queue (job_row Cancelled 105 106 105 2 msg_waiting) [job_claim2]"

lemma job_opts_clamped: "op_Workers (clamp_options job_opts) = 2" "op_Capacity (clamp_options job_opts) = 4"
  by (simp_all add: clamp_options_def job_opts_def)

lemmas job_values = job_opts_clamped empty_queue_def job_queue_def job_row_def job_claim1_def job_claim2_def job_gone_def
  job_sample_def new_task_def active_def Task.defs Let_def

lemma job_steps:
  "job_do (Submitted ''deploy'' ''n1'' [] 1 100 ''b1'') empty_queue = Some (job_queue (job_row Queued 0 0 100 0 []) [])"
  "job_do (Submitted ''deploy'' ''n1'' [] 1 101 ''b2'') (job_queue (job_row Queued 0 0 100 0 []) []) = Some (job_queue (job_row Queued 0 0 100 0 []) [])"
  "job_do (Claimed 102) (job_queue (job_row Queued 0 0 100 0 []) []) = Some (job_queue (job_row Running 102 0 100 1 []) [job_claim1])"
  "job_do (Executed 0 103 False None (None, Some (BusyError ''busy''))) (job_queue (job_row Running 102 0 100 1 []) [job_claim1]) =
     Some (job_queue (job_row Queued 102 0 105 1 msg_waiting) [job_gone])"
  "job_do (Claimed 104) (job_queue (job_row Queued 102 0 105 1 msg_waiting) [job_gone]) =
     Some (job_queue (job_row Queued 102 0 105 1 msg_waiting) [job_gone])"
  "job_do (Released 0) (job_queue (job_row Queued 102 0 105 1 msg_waiting) [job_gone]) =
     Some (job_queue (job_row Queued 102 0 105 1 msg_waiting) [])"
  "job_do (Claimed 105) (job_queue (job_row Queued 102 0 105 1 msg_waiting) []) =
     Some (job_queue (job_row Running 105 0 105 2 msg_waiting) [job_claim2])"
  "job_do (CancelledBy ''b1'' 106) (job_queue (job_row Running 105 0 105 2 msg_waiting) [job_claim2]) = Some job_sample"
  by (simp_all add: job_values Submit_def insert_task_def task_key_def claim_def claim_row_def end_flight_def dispatch_handler_def
      execute_def requeue_row_def leave_def drop_nth_def Cancel_def cancel_row_def)

lemma job_sample_run:
  "job_run (clamp_options job_opts) [''deploy''] (\<lambda>_. True) True job_events empty_queue = Some job_sample"
  unfolding job_events_def job_run.simps job_steps option.case by (rule refl)

lemma job_sample_ok: "queue_ok (clamp_options job_opts) job_sample"
  by (rule job_run_ok [OF job_sample_run]) (simp add: empty_queue_ok clamp_options_def)

definition job_later :: "job_event list" where
  "job_later = [Executed 0 107 True None (None, None), Submitted ''deploy'' ''n1'' [] 1 108 ''b3'']"

definition job_final :: queue where
  "job_final = \<lparr>qu_tasks = [job_row Cancelled 105 106 105 2 msg_waiting, new_task ''b3'' ''deploy'' ''n1'' [] 1 108],
    qu_flights = [job_claim2\<lparr>fl_leaving := True\<rparr>]\<rparr>"

lemma job_later_steps:
  "job_do (Executed 0 107 True None (None, None)) job_sample =
    Some (job_queue (job_row Cancelled 105 106 105 2 msg_waiting) [job_claim2\<lparr>fl_leaving := True\<rparr>])"
  "job_do (Submitted ''deploy'' ''n1'' [] 1 108 ''b3'')
    (job_queue (job_row Cancelled 105 106 105 2 msg_waiting) [job_claim2\<lparr>fl_leaving := True\<rparr>]) = Some job_final"
  by (simp_all add: job_values job_final_def Submit_def insert_task_def task_key_def end_flight_def dispatch_handler_def
      execute_def outcome_def finish_row_def Prune_def leave_def)

lemma job_sample_continues:
  "job_run (clamp_options job_opts) [''deploy''] (\<lambda>_. True) True job_later job_sample = Some job_final"
  unfolding job_later_def job_run.simps job_later_steps option.case by (rule refl)

end
