(* ===== verification/Crypto_Scan.thy ===== *)
theory Crypto_Scan
  imports Payments Payment_Codec
begin

text \<open>
  Payments on a chain: the quote of an order in token units (\<open>crypto_payments.go\<close>), canonical amounts and chain
  integers (\<open>crypto_evm.go\<close>), the amounts of an invoice (\<open>crypto_invoices.go\<close>), and the application of a scan
  of the chain with the settlement of the invoice (\<open>crypto_scanner.go\<close>). The transfers a scan found, with their
  blocks, are inputs: they come from the RPC servers.
\<close>

section \<open>Amounts\<close>

text \<open>Atoms are kept as canonical decimal text of less than 2^256 units.\<close>

definition cryptoAtoms :: "string \<Rightarrow> commerce_error + nat" where
  "cryptoAtoms s =
    (if s = [] \<or> length s > 78 \<or> (length s > 1 \<and> hd s = CHR ''0'') then Inl (Fail 409 ''amount must be canonical'')
     else if \<not> list_all is_digit s then Inl (Fail 409 ''amount must be canonical'')
     else if digits_value s \<ge> 2 ^ 256 then Inl (Fail 409 ''amount out of range'')
     else Inr (digits_value s))"

definition hex_digit :: "char \<Rightarrow> nat option" where
  "hex_digit c =
    (let n = of_char c :: nat in
     if 48 \<le> n \<and> n \<le> 57 then Some (n - 48)
     else if 97 \<le> n \<and> n \<le> 102 then Some (n - 87)
     else if 65 \<le> n \<and> n \<le> 70 then Some (n - 55) else None)"

fun hex_value :: "nat \<Rightarrow> string \<Rightarrow> nat option" where
  "hex_value v [] = Some v"
| "hex_value v (c # s) = (case hex_digit c of None \<Rightarrow> None | Some d \<Rightarrow> hex_value (16 * v + d) s)"

definition cryptoHexInt :: "string \<Rightarrow> commerce_error + nat" where
  "cryptoHexInt s =
    (if length s < 3 \<or> take 2 s \<noteq> ''0x'' \<or> length s > 66 then Inl (Fail 409 ''invalid chain integer'')
     else case hex_value 0 (drop 2 s) of None \<Rightarrow> Inl (Fail 409 ''invalid chain integer'')
     | Some v \<Rightarrow> if v \<ge> 2 ^ 256 then Inl (Fail 409 ''invalid chain integer'') else Inr v)"

text \<open>\<open>strings.ToLower\<close> of an address; addresses are ASCII.\<close>

definition lower :: "string \<Rightarrow> string" where
  "lower s = map lower_char s"

definition cryptoABIAddress :: "string \<Rightarrow> string" where
  "cryptoABIAddress address =
    replicate 24 (CHR ''0'') @ lower (if take 2 address = ''0x'' then drop 2 address else address)"

section \<open>Quotes\<close>

record CryptoAsset =
  as_ID :: string
  as_ChainID :: int
  as_Contract :: string
  as_Decimals :: int
  as_CNYPerToken :: string
  as_RateExpiresAt :: int
  as_PaymentDecimals :: int
  as_Enabled :: bool

text \<open>\<open>^(0|[1-9][0-9]{0,5})(\.[0-9]{1,8})?$\<close>; \<open>big.Rat\<close> is in lowest terms.\<close>

definition rate_parts :: "string \<Rightarrow> (string \<times> string) option" where
  "rate_parts s =
    (let whole = takeWhile (\<lambda>c. c \<noteq> CHR ''.'') s; rest = drop (length whole) s in
     if whole = [] \<or> \<not> list_all is_digit whole \<or> length whole > 6 \<or> (length whole > 1 \<and> hd whole = CHR ''0'') then None
     else if rest = [] then Some (whole, [])
     else if length rest < 2 \<or> length rest > 9 \<or> \<not> list_all is_digit (tl rest) then None
     else Some (whole, tl rest))"

definition decimal_ratio :: "string \<Rightarrow> string \<Rightarrow> nat \<times> nat" where
  "decimal_ratio whole frac =
    (let n = digits_value (whole @ frac); d = 10 ^ length frac in (n div gcd n d, d div gcd n d))"

definition cryptoQuote :: "int \<Rightarrow> CryptoAsset \<Rightarrow> commerce_error + string" where
  "cryptoQuote cents v =
    (case rate_parts (as_CNYPerToken v) of None \<Rightarrow> Inl (Fail 400 ''invalid quote'')
     | Some (whole, frac) \<Rightarrow>
        let (num, den) = decimal_ratio whole frac in
        if cents \<le> 0 \<or> cents > moneyLimit \<or> num = 0 \<or> as_Decimals v < 0 \<or> as_Decimals v > 18
          \<or> as_PaymentDecimals v < 0 \<or> as_PaymentDecimals v > as_Decimals v
        then Inl (Fail 400 ''invalid quote'')
        else
          let units = 10 ^ nat (as_PaymentDecimals v); denominator = num * 100;
              steps = (nat cents * units * den + (denominator - 1)) div denominator;
              atoms = steps * 10 ^ nat (as_Decimals v - as_PaymentDecimals v)
          in if atoms = 0 \<or> atoms \<ge> 2 ^ 256 then Inl (Fail 400 ''quote out of range'') else Inr (nat_string atoms))"

section \<open>Tables\<close>

record CryptoInvoice =
  ci_ID :: string
  ci_OrderID :: string
  ci_UserID :: int
  ci_AttemptID :: string
  ci_ChainID :: int
  ci_Address :: string
  ci_Contract :: string
  ci_ExpectedAtoms :: string
  ci_State :: string
  ci_Created :: int
  ci_Expires :: int
  ci_NextBlock :: int
  ci_FinalizedBlock :: int

record CryptoTransfer =
  tr_ChainID :: int
  tr_TxHash :: string
  tr_LogIndex :: int
  tr_InvoiceID :: string
  tr_Contract :: string
  tr_Sender :: string
  tr_Recipient :: string
  tr_Atoms :: string
  tr_BlockNumber :: int
  tr_BlockHash :: string
  tr_BlockTime :: int
  tr_State :: string
  tr_Reason :: string

record CryptoObservation =
  ob_ChainID :: int
  ob_TxHash :: string
  ob_LogIndex :: int
  ob_BlockHash :: string
  ob_InvoiceID :: string
  ob_Contract :: string
  ob_Atoms :: string
  ob_BlockNumber :: int
  ob_BlockTime :: int

record InvoiceChain =
  ic_InvoiceID :: string
  ic_ChainID :: int
  ic_NextBlock :: int
  ic_FinalizedHash :: string

record CryptoStore =
  cs_shop :: Shop
  cs_invoices :: "CryptoInvoice list"
  cs_chains :: "InvoiceChain list"
  cs_transfers :: "CryptoTransfer list"
  cs_observations :: "CryptoObservation list"
  cs_frozen :: "(int \<times> bool) list"

datatype crypto_error = Finality | Scan string | Commerce commerce_error

definition commerce_res :: "commerce_error + 'a \<Rightarrow> crypto_error + 'a" where
  "commerce_res r = (case r of Inl e \<Rightarrow> Inl (Commerce e) | Inr x \<Rightarrow> Inr x)"

definition set_invoice :: "string \<Rightarrow> (CryptoInvoice \<Rightarrow> CryptoInvoice) \<Rightarrow> CryptoStore \<Rightarrow> CryptoStore" where
  "set_invoice i f S = S\<lparr>cs_invoices := set_where (\<lambda>v. ci_ID v = i) f (cs_invoices S)\<rparr>"

definition cryptoInvoice :: "string \<Rightarrow> CryptoStore \<Rightarrow> crypto_error + CryptoInvoice" where
  "cryptoInvoice i S = (case row_with ci_ID i (cs_invoices S) of None \<Rightarrow> Inl (Commerce (NoRows ''crypto_invoices'')) | Some v \<Rightarrow> Inr v)"

section \<open>The amounts of an invoice\<close>

record InvoiceAmounts =
  am_Received :: nat
  am_Confirmed :: nat
  am_Remaining :: nat
  am_Overpaid :: nat

text \<open>A row of the union: atoms, state, block time, chain, contract.\<close>

definition add_amount :: "CryptoInvoice \<Rightarrow> string \<times> string \<times> int \<times> int \<times> string \<Rightarrow> InvoiceAmounts \<Rightarrow> commerce_error + InvoiceAmounts" where
  "add_amount v row am =
    (case row of (atoms, state, timestamp, chain, contract) \<Rightarrow>
      bind_res (cryptoAtoms atoms) (\<lambda>n.
        if chain \<noteq> ci_ChainID v \<or> contract \<noteq> ci_Contract v \<or> state = ''orphaned'' then Inr am
        else Inr (am\<lparr>am_Received := am_Received am + n,
          am_Confirmed := am_Confirmed am + (if state = ''confirmed'' \<and> timestamp < ci_Expires v then n else 0)\<rparr>)))"

definition amount_rows :: "CryptoInvoice \<Rightarrow> CryptoStore \<Rightarrow> (string \<times> string \<times> int \<times> int \<times> string) list" where
  "amount_rows v S =
    map (\<lambda>t. (tr_Atoms t, tr_State t, tr_BlockTime t, tr_ChainID t, tr_Contract t)) (filter (\<lambda>t. tr_InvoiceID t = ci_ID v) (cs_transfers S)) @
    map (\<lambda>t. (ob_Atoms t, ''observed'', ob_BlockTime t, ob_ChainID t, ob_Contract t)) (filter (\<lambda>t. ob_InvoiceID t = ci_ID v) (cs_observations S))"

text \<open>What is missing and what is too much are subtractions cut off at 0.\<close>

definition cryptoInvoiceAmounts :: "CryptoInvoice \<Rightarrow> CryptoStore \<Rightarrow> commerce_error + InvoiceAmounts" where
  "cryptoInvoiceAmounts v S =
    bind_res (fold_res (add_amount v) (amount_rows v S) \<lparr>am_Received = 0, am_Confirmed = 0, am_Remaining = 0, am_Overpaid = 0\<rparr>) (\<lambda>am.
    bind_res (cryptoAtoms (ci_ExpectedAtoms v)) (\<lambda>expected.
    Inr (am\<lparr>am_Remaining := expected - am_Confirmed am, am_Overpaid := am_Confirmed am - expected\<rparr>)))"

section \<open>Settling an invoice\<close>

record crypto_env =
  cx_now :: int
  cx_serial :: string

definition crypto_receipt :: "crypto_env \<Rightarrow> CryptoInvoice \<Rightarrow> PaymentAttempt \<Rightarrow> int \<Rightarrow> PaymentReceipt" where
  "crypto_receipt env v a paidAt =
    \<lparr>pr_ID = cx_serial env, pr_AccountScope = ''evm_crypto'', pr_ProviderID = ''crypto'', pr_ExternalRef = ''invoice:'' @ ci_ID v,
     pr_AttemptID = ci_AttemptID v, pr_OrderID = ci_OrderID v, pr_UserID = ci_UserID v, pr_Amount = pa_Amount a, pr_Currency = ''CNY'',
     pr_State = ''verified'', pr_Reason = ''payment finalized on chain'', pr_Created = paidAt, pr_Updated = cx_now env\<rparr>"

definition paid_times :: "CryptoInvoice \<Rightarrow> CryptoStore \<Rightarrow> int list" where
  "paid_times v S = map tr_BlockTime (filter (\<lambda>t. tr_InvoiceID t = ci_ID v \<and> tr_ChainID t = ci_ChainID v \<and>
     tr_Contract t = ci_Contract v \<and> tr_State t = ''confirmed'' \<and> tr_BlockTime t < ci_Expires v) (cs_transfers S))"

text \<open>The tables of the shop refuse a second receipt with the id or the reference, and a reference used by another attempt.\<close>

definition pay_invoice :: "crypto_env \<Rightarrow> CryptoInvoice \<Rightarrow> PaymentAttempt \<Rightarrow> CryptoStore \<Rightarrow> crypto_error + CryptoStore" where
  "pay_invoice env v a S =
    (if paid_times v S = [] then Inl (Commerce (NoRows ''crypto_transfers''))
     else
       let receipt = crypto_receipt env v a (Max (set (paid_times v S))); X = cs_shop S in
       if list_ex (\<lambda>r. pr_ID r = pr_ID receipt \<or> same_transaction (pr_AccountScope receipt) (pr_ExternalRef receipt) r) (sh_receipts X)
       then Inl (Commerce (Unique ''payment_receipts''))
       else if list_ex (\<lambda>b. pa_ID b \<noteq> pa_ID a \<and> pa_ProviderID b = pa_ProviderID a \<and> pa_ExternalRef b = pr_ExternalRef receipt) (sh_attempts X)
       then Inl (Commerce (Unique ''payment_attempt_external''))
       else
         let X1 = X\<lparr>sh_receipts := sh_receipts X @ [receipt]\<rparr>;
             X2 = X1\<lparr>sh_attempts := set_where (\<lambda>b. pa_ID b = ci_AttemptID v)
                (\<lambda>b. b\<lparr>pa_State := ''paid'', pa_ExternalRef := pr_ExternalRef receipt, pa_Updated := cx_now env,
                   pa_Message := ''payment finalized on chain''\<rparr>) (sh_attempts X1)\<rparr>
         in Inr (set_invoice (ci_ID v) (\<lambda>w. w\<lparr>ci_State := ''paid''\<rparr>) (S\<lparr>cs_shop := X2\<rparr>)))"

definition review_invoice :: "CryptoInvoice \<Rightarrow> CryptoStore \<Rightarrow> CryptoStore" where
  "review_invoice v S = set_invoice (ci_ID v) (\<lambda>w. w\<lparr>ci_State := ''review_required''\<rparr>) S"

definition reviews :: "CryptoInvoice \<Rightarrow> CryptoStore \<Rightarrow> nat" where
  "reviews v S = length (filter (\<lambda>t. tr_InvoiceID t = ci_ID v \<and> tr_State t = ''review_required'') (cs_transfers S))"

text \<open>The order ends with the window of the invoice.\<close>

definition expire_invoice :: "crypto_env \<Rightarrow> CryptoInvoice \<Rightarrow> Order \<Rightarrow> bool \<Rightarrow> CryptoStore \<Rightarrow> crypto_error + CryptoStore" where
  "expire_invoice env v ord funds S =
    (let ord1 = ord\<lparr>o_State := Expired, o_Message := ''crypto payment window over''\<rparr> in
     bind_res (commerce_res (saveOrder (cx_now env) ord1 Pending (cs_shop S))) (\<lambda>X.
     let S1 = set_invoice (ci_ID v) (\<lambda>w. w\<lparr>ci_State := (if funds then ''review_required'' else ''expired'')\<rparr>) (S\<lparr>cs_shop := X\<rparr>)
     in Inr (S1\<lparr>cs_shop := set_attempt (ci_AttemptID v) [''awaiting_customer'']
          (\<lambda>a. a\<lparr>pa_State := ''expired'', pa_Updated := cx_now env, pa_Message := o_Message ord1\<rparr>) (cs_shop S1)\<rparr>)))"

definition open_state :: "string \<Rightarrow> bool" where
  "open_state s \<longleftrightarrow> s = ''waiting'' \<or> s = ''review_required''"

definition settleCryptoInvoice :: "crypto_env \<Rightarrow> CryptoInvoice \<Rightarrow> bool \<Rightarrow> CryptoStore \<Rightarrow> crypto_error + CryptoStore" where
  "settleCryptoInvoice env v deadlineFinal S =
    bind_res (commerce_res (cryptoInvoiceAmounts v S)) (\<lambda>am.
    bind_res (commerce_res (cryptoAtoms (nat_string (am_Confirmed am)))) (\<lambda>confirmed.
    bind_res (commerce_res (cryptoAtoms (ci_ExpectedAtoms v))) (\<lambda>expected.
    case raw_order (cs_shop S) (ci_OrderID v) of None \<Rightarrow> Inl (Commerce (NoRows ''commerce_orders''))
    | Some ord \<Rightarrow>
      (case row_with pa_ID (ci_AttemptID v) (sh_attempts (cs_shop S)) of None \<Rightarrow> Inl (Commerce (NoRows ''payment_attempts''))
       | Some a \<Rightarrow>
          let due = confirmed \<ge> expected \<and> open_state (ci_State v) \<and> o_State ord = Pending \<and>
                o_PaymentAttemptID ord = ci_AttemptID v \<and> pa_State a = ''awaiting_customer'';
              stray = ci_State v \<noteq> ''paid'' \<and> (confirmed > 0 \<or> am_Received am \<noteq> 0) \<and>
                (o_State ord \<noteq> Pending \<or> o_PaymentAttemptID ord \<noteq> ci_AttemptID v \<or> ci_State v = ''superseded'' \<or> ci_State v = ''expired'')
          in bind_res (if due then pay_invoice env v a S else if stray then Inr (review_invoice v S) else Inr S) (\<lambda>S1.
          let state = (if due then ''paid'' else ci_State v);
              S2 = (if reviews v S1 > 0 \<and> state \<noteq> ''paid'' then review_invoice v S1 else S1)
          in if deadlineFinal \<and> open_state state \<and> confirmed < expected \<and> o_State ord = Pending \<and>
                o_PaymentAttemptID ord = ci_AttemptID v
             then expire_invoice env v ord (confirmed > 0 \<or> reviews v S1 > 0) S2 else Inr S2)))))"

section \<open>Applying a scan\<close>

record Scanned =
  sc_Address :: string
  sc_Topics :: "string list"
  sc_Data :: string
  sc_BlockNumber :: int
  sc_BlockHash :: string
  sc_TxHash :: string
  sc_Index :: int
  sc_Timestamp :: int
  sc_Final :: bool
  sc_ReviewReason :: string

definition cryptoSolanaChainID :: int where "cryptoSolanaChainID = 101"

definition cryptoTransferTopic :: string where
  "cryptoTransferTopic = ''0xddf252ad1be2c89b69c2b068fc378daa952ba7f163c4a11628f55a4df523b3ef''"

text \<open>\<open>b58\<close> decodes and encodes base58; the package is not part of the repository.\<close>

type_synonym base58 = "(string \<Rightarrow> string) \<times> (string \<Rightarrow> string)"

definition cryptoSolanaAddress :: "base58 \<Rightarrow> string \<Rightarrow> bool" where
  "cryptoSolanaAddress b58 s \<longleftrightarrow> 32 \<le> length s \<and> length s \<le> 44 \<and> length (fst b58 s) = 32 \<and> snd b58 (fst b58 s) = s"

definition cryptoSolanaSignature :: "base58 \<Rightarrow> string \<Rightarrow> bool" where
  "cryptoSolanaSignature b58 s \<longleftrightarrow> 85 \<le> length s \<and> length s \<le> 88 \<and> length (fst b58 s) = 64 \<and> snd b58 (fst b58 s) = s"

definition transfer_state :: "CryptoInvoice \<Rightarrow> int \<Rightarrow> Scanned \<Rightarrow> string \<times> string" where
  "transfer_state v chain t =
    (if \<not> sc_Final t then (''observed'', [])
     else if sc_ReviewReason t \<noteq> [] then (''review_required'', sc_ReviewReason t)
     else if chain \<noteq> ci_ChainID v \<or> sc_Address t \<noteq> ci_Contract v then (''review_required'', ''asset or chain differs from the invoice'')
     else if sc_Timestamp t \<ge> ci_Expires v then (''review_required'', ''after the deadline'')
     else if sc_Timestamp t < ci_Created v then (''review_required'', ''before the invoice'')
     else (''confirmed'', []))"

definition identity_ok :: "base58 \<Rightarrow> CryptoInvoice \<Rightarrow> int \<Rightarrow> Scanned \<Rightarrow> bool" where
  "identity_ok b58 v chain t \<longleftrightarrow>
    (if chain = cryptoSolanaChainID
     then sc_Final t \<and> length (sc_Topics t) = 3 \<and> sc_Topics t ! 0 = ''solana_transfer'' \<and> sc_Topics t ! 2 = ci_Address v \<and>
       cryptoSolanaAddress b58 (sc_Topics t ! 1) \<and> cryptoSolanaSignature b58 (sc_TxHash t) \<and>
       cryptoSolanaAddress b58 (sc_BlockHash t) \<and> sc_Index t \<le> 2 ^ 63 - 1
     else length (sc_Topics t) = 3 \<and> sc_Topics t ! 0 = cryptoTransferTopic \<and>
       sc_Topics t ! 2 = ''0x'' @ cryptoABIAddress (ci_Address v) \<and> sc_Index t \<le> 2 ^ 63 - 1)"

definition same_transfer :: "int \<Rightarrow> Scanned \<Rightarrow> CryptoTransfer \<Rightarrow> bool" where
  "same_transfer chain t r \<longleftrightarrow> tr_ChainID r = chain \<and> tr_TxHash r = sc_TxHash t \<and> tr_LogIndex r = sc_Index t"

definition observe :: "CryptoInvoice \<Rightarrow> int \<Rightarrow> Scanned \<Rightarrow> nat \<Rightarrow> CryptoStore \<Rightarrow> CryptoStore" where
  "observe v chain t atoms S =
    (let hit = (\<lambda>r. ob_ChainID r = chain \<and> ob_TxHash r = sc_TxHash t \<and> ob_BlockHash r = sc_BlockHash t \<and> ob_LogIndex r = sc_Index t);
         new = \<lparr>ob_ChainID = chain, ob_TxHash = sc_TxHash t, ob_LogIndex = sc_Index t, ob_BlockHash = sc_BlockHash t,
           ob_InvoiceID = ci_ID v, ob_Contract = sc_Address t, ob_Atoms = nat_string atoms, ob_BlockNumber = sc_BlockNumber t,
           ob_BlockTime = sc_Timestamp t\<rparr>
     in if list_ex hit (cs_observations S)
        then S\<lparr>cs_observations := set_where hit (\<lambda>r. r\<lparr>ob_InvoiceID := ob_InvoiceID new, ob_Contract := ob_Contract new,
               ob_Atoms := ob_Atoms new, ob_BlockNumber := ob_BlockNumber new, ob_BlockTime := ob_BlockTime new\<rparr>) (cs_observations S)\<rparr>
        else S\<lparr>cs_observations := cs_observations S @ [new]\<rparr>)"

text \<open>The slice \<open>l.Topics[1][len-40:]\<close> of a shorter topic panics.\<close>

definition transfer_row :: "CryptoInvoice \<Rightarrow> int \<Rightarrow> Scanned \<Rightarrow> nat \<Rightarrow> crypto_error + CryptoTransfer" where
  "transfer_row v chain t atoms =
    (let (st, reason) = transfer_state v chain t; topic = sc_Topics t ! 1 in
     bind_res (if chain = cryptoSolanaChainID then Inr (topic, ci_Address v)
               else if length topic < 40 then Inl (Scan ''slice bounds out of range'')
               else Inr (''0x'' @ drop (length topic - 40) topic, lower (ci_Address v))) (\<lambda>(sender, recipient).
     Inr \<lparr>tr_ChainID = chain, tr_TxHash = sc_TxHash t, tr_LogIndex = sc_Index t, tr_InvoiceID = ci_ID v, tr_Contract = sc_Address t,
       tr_Sender = sender, tr_Recipient = recipient, tr_Atoms = nat_string atoms, tr_BlockNumber = sc_BlockNumber t,
       tr_BlockHash = sc_BlockHash t, tr_BlockTime = sc_Timestamp t, tr_State = st, tr_Reason = reason\<rparr>))"

definition put_transfer :: "int \<Rightarrow> Scanned \<Rightarrow> CryptoTransfer \<Rightarrow> CryptoStore \<Rightarrow> crypto_error + CryptoStore" where
  "put_transfer chain t row S =
    (case find (same_transfer chain t) (cs_transfers S) of
       None \<Rightarrow> Inr (S\<lparr>cs_transfers := cs_transfers S @ [row]\<rparr>)
     | Some old \<Rightarrow>
        if tr_InvoiceID old \<noteq> tr_InvoiceID row \<or> tr_Atoms old \<noteq> tr_Atoms row \<or> tr_BlockHash old \<noteq> tr_BlockHash row then Inl Finality
        else if chain = cryptoSolanaChainID then Inr S
        else Inr (S\<lparr>cs_transfers := set_where (same_transfer chain t) (\<lambda>r. r\<lparr>tr_BlockNumber := tr_BlockNumber row,
               tr_BlockHash := tr_BlockHash row, tr_BlockTime := tr_BlockTime row, tr_State := tr_State row,
               tr_Reason := tr_Reason row\<rparr>) (cs_transfers S)\<rparr>))"

definition apply_transfer :: "base58 \<Rightarrow> CryptoInvoice \<Rightarrow> int \<Rightarrow> Scanned \<Rightarrow> CryptoStore \<Rightarrow> crypto_error + CryptoStore" where
  "apply_transfer b58 v chain t S =
    bind_res (commerce_res (cryptoHexInt (sc_Data t))) (\<lambda>atoms.
    if atoms = 0 then Inr S
    else if \<not> identity_ok b58 v chain t then Inl (Scan ''invalid transfer identity'')
    else if \<not> sc_Final t
    then if list_ex (\<lambda>r. tr_ChainID r = chain \<and> tr_TxHash r = sc_TxHash t) (cs_transfers S) then Inr S
         else Inr (observe v chain t atoms S)
    else
      let S1 = S\<lparr>cs_observations := filter (\<lambda>r. \<not> (ob_ChainID r = chain \<and> ob_TxHash r = sc_TxHash t)) (cs_observations S)\<rparr>
      in bind_res (transfer_row v chain t atoms) (\<lambda>row. put_transfer chain t row S1))"

definition cryptoLockChain :: "int \<Rightarrow> CryptoStore \<Rightarrow> crypto_error + CryptoStore" where
  "cryptoLockChain chain S =
    (case map_of (cs_frozen S) chain of
       None \<Rightarrow> Inr (S\<lparr>cs_frozen := cs_frozen S @ [(chain, False)]\<rparr>)
     | Some frozen \<Rightarrow> if frozen then Inl Finality else Inr S)"

definition freezeCryptoChain :: "int \<Rightarrow> CryptoStore \<Rightarrow> CryptoStore" where
  "freezeCryptoChain chain S =
    (if map_of (cs_frozen S) chain = None then S\<lparr>cs_frozen := cs_frozen S @ [(chain, True)]\<rparr>
     else S\<lparr>cs_frozen := set_where (\<lambda>e. fst e = chain) (\<lambda>e. (fst e, True)) (cs_frozen S)\<rparr>)"

record scan_range =
  sr_from :: int
  sr_to :: int
  sr_next :: int
  sr_hash :: string
  sr_finalNumber :: int
  sr_finalTime :: int

definition chain_row :: "string \<Rightarrow> int \<Rightarrow> InvoiceChain \<Rightarrow> bool" where
  "chain_row i chain r \<longleftrightarrow> ic_InvoiceID r = i \<and> ic_ChainID r = chain"

text \<open>Observations of the range go first, so that a rescan may orphan them; the cursor moves after the transfers.\<close>

definition drop_observations :: "string \<Rightarrow> int \<Rightarrow> scan_range \<Rightarrow> CryptoStore \<Rightarrow> CryptoStore" where
  "drop_observations i chain g S =
    S\<lparr>cs_observations := filter (\<lambda>r. \<not> (ob_InvoiceID r = i \<and> ob_ChainID r = chain \<and>
       sr_from g \<le> ob_BlockNumber r \<and> ob_BlockNumber r \<le> sr_to g)) (cs_observations S)\<rparr>"

definition move_cursor :: "CryptoInvoice \<Rightarrow> int \<Rightarrow> scan_range \<Rightarrow> CryptoStore \<Rightarrow> CryptoStore" where
  "move_cursor v chain g S =
    (let S1 = S\<lparr>cs_chains := set_where (chain_row (ci_ID v) chain)
           (\<lambda>r. r\<lparr>ic_NextBlock := sr_next g, ic_FinalizedHash := sr_hash g\<rparr>) (cs_chains S)\<rparr>
     in if chain = ci_ChainID v
        then set_invoice (ci_ID v) (\<lambda>w. w\<lparr>ci_NextBlock := sr_next g, ci_FinalizedBlock := sr_finalNumber g\<rparr>) S1 else S1)"

definition apply_range ::
  "base58 \<Rightarrow> crypto_env \<Rightarrow> CryptoInvoice \<Rightarrow> int \<Rightarrow> scan_range \<Rightarrow> Scanned list \<Rightarrow> CryptoStore \<Rightarrow> crypto_error + CryptoStore"
where
  "apply_range b58 env v chain g ts S =
    bind_res (fold_res (apply_transfer b58 v chain) ts (drop_observations (ci_ID v) chain g S)) (\<lambda>S1.
    settleCryptoInvoice env v (chain = ci_ChainID v \<and> sr_next g > sr_finalNumber g \<and> sr_finalTime g > ci_Expires v)
      (move_cursor v chain g S1))"

definition applyCryptoScan ::
  "base58 \<Rightarrow> crypto_env \<Rightarrow> string \<Rightarrow> int \<Rightarrow> scan_range \<Rightarrow> Scanned list \<Rightarrow> CryptoStore \<Rightarrow> crypto_error + CryptoStore"
where
  "applyCryptoScan b58 env i chain g ts S =
    bind_res (cryptoInvoice i S) (\<lambda>_.
    bind_res (cryptoLockChain chain S) (\<lambda>S0.
    bind_res (cryptoInvoice i S0) (\<lambda>v.
    case find (chain_row i chain) (cs_chains S0) of None \<Rightarrow> Inl (Commerce (NoRows ''crypto_invoice_chains''))
    | Some cursor \<Rightarrow> if ic_NextBlock cursor \<noteq> sr_from g then Inr S else apply_range b58 env v chain g ts S0)))"

text \<open>The scanner freezes a chain whose final history changed; any other error leaves the store.\<close>

definition scan_step ::
  "base58 \<Rightarrow> crypto_env \<Rightarrow> string \<Rightarrow> int \<Rightarrow> scan_range \<Rightarrow> Scanned list \<Rightarrow> CryptoStore \<Rightarrow> CryptoStore \<times> crypto_error option"
where
  "scan_step b58 env i chain g ts S =
    (case applyCryptoScan b58 env i chain g ts S of
       Inr T \<Rightarrow> (T, None)
     | Inl e \<Rightarrow> (if e = Finality then freezeCryptoChain chain S else S, Some e))"

end
