(* ===== verification/Crypto_Safety.thy ===== *)
theory Crypto_Safety
  imports Crypto_Scan "HOL-Library.Sublist"
begin

text \<open>
  What payments on a chain guarantee: a quote is never below the price and less than one payment step above it, the text
  of an amount is read back, an invoice is paid only by final transfers of its token inside its window, and a transfer
  stays with the invoice, amount and block it was recorded with.
\<close>

section \<open>Texts of amounts\<close>

lemma nat_string_length: "n < 10 ^ k \<Longrightarrow> 0 < k \<Longrightarrow> length (nat_string n) \<le> k"
proof (induction k arbitrary: n)
  case (Suc k)
  show ?case
  proof (cases "n < 10")
    case True
    then show ?thesis by (simp add: nat_string.simps [of n])
  next
    case False
    with Suc.prems have "n div 10 < 10 ^ k" "0 < k"
      by (auto simp: div_less_iff_less_mult intro: Suc_leI intro!: Nat.gr0I)
    with Suc.IH have "length (nat_string (n div 10)) \<le> k" by blast
    with False show ?thesis by (simp add: nat_string.simps [of n])
  qed
qed simp

lemma nat_string_leading: "10 \<le> n \<Longrightarrow> hd (nat_string n) \<noteq> CHR ''0''"
proof (induction n rule: nat_string.induct)
  case (1 n)
  have hd: "hd (nat_string n) = hd (nat_string (n div 10))"
    using "1.prems" by (simp add: nat_string.simps [of n])
  show ?case
  proof (cases "n div 10 < 10")
    case True
    have "n div 10 \<noteq> 0" using "1.prems" by (simp add: div_eq_0_iff)
    then have "(of_char (hd (nat_string (n div 10))) :: nat) \<noteq> 48"
      using True by (simp add: nat_string.simps [of "n div 10"] of_char_digit)
    with hd show ?thesis by auto
  next
    case False
    with "1.IH" "1.prems" hd show ?thesis by simp
  qed
qed

lemma cryptoAtoms_text:
  assumes "n < 2 ^ 256"
  shows "cryptoAtoms (nat_string n) = Inr n"
proof -
  have "(2 :: nat) ^ 256 < 10 ^ 78" by simp
  with assms have "length (nat_string n) \<le> 78" by (intro nat_string_length) auto
  moreover have "\<not> (length (nat_string n) > 1 \<and> hd (nat_string n) = CHR ''0'')"
    using nat_string_leading [of n] by (cases "n < 10") (auto simp: nat_string.simps [of n])
  moreover have "list_all is_digit (nat_string n)" using nat_string_is_digit by (simp add: list_all_iff)
  ultimately show ?thesis using assms by (simp add: cryptoAtoms_def)
qed

lemma cryptoAtoms_value: "cryptoAtoms s = Inr n \<Longrightarrow> n = digits_value s"
  by (auto simp: cryptoAtoms_def split: if_splits)

section \<open>Quotes\<close>

lemma ceil_div_bounds:
  fixes a b :: nat
  assumes "0 < b"
  shows "a \<le> (a + (b - 1)) div b * b" "(a + (b - 1)) div b * b < a + b"
proof -
  define q where "q = (a + (b - 1)) div b"
  have m: "a + (b - 1) = q * b + (a + (b - 1)) mod b" unfolding q_def by simp
  have r: "(a + (b - 1)) mod b < b" using assms by simp
  show "a \<le> (a + (b - 1)) div b * b" "(a + (b - 1)) div b * b < a + b"
    using m r assms unfolding q_def [symmetric] by linarith+
qed

text \<open>
  With the rate \<open>n / 10^k\<close> CNY per token, the atoms are worth at least the price and less than one payment step more.
\<close>

lemma decimal_ratio_exact:
  assumes "decimal_ratio whole frac = (num, den)"
  shows "digits_value (whole @ frac) * den = num * 10 ^ length frac" "0 < den" "0 < num \<longleftrightarrow> 0 < digits_value (whole @ frac)"
proof -
  define n d g where "n = digits_value (whole @ frac)" and "d = (10 :: nat) ^ length frac" and "g = gcd n d"
  have nd: "num = n div g" "den = d div g" using assms by (simp_all add: decimal_ratio_def Let_def n_def d_def g_def)
  have d: "0 < d" by (simp add: d_def)
  have g: "n = num * g" "d = den * g" by (simp_all add: nd g_def)
  then show "digits_value (whole @ frac) * den = num * 10 ^ length frac"
    unfolding n_def [symmetric] d_def [symmetric] by simp
  show "0 < den" using g(2) d by (cases den) auto
  have "0 < g" using g(2) d by (cases g) auto
  then show "0 < num \<longleftrightarrow> 0 < digits_value (whole @ frac)"
    unfolding n_def [symmetric] using g(1) by simp
qed

theorem quote_covers_price:
  assumes q: "cryptoQuote cents v = Inr s" and r: "rate_parts (as_CNYPerToken v) = Some (whole, frac)"
  defines "rate \<equiv> digits_value (whole @ frac)" and "scale \<equiv> 10 ^ length frac" and "unit \<equiv> 10 ^ nat (as_Decimals v)"
    and "pstep \<equiv> 10 ^ nat (as_Decimals v - as_PaymentDecimals v)"
  shows "\<exists>atoms. cryptoAtoms s = Inr atoms \<and> 0 < atoms \<and> pstep dvd atoms \<and>
    nat cents * unit * scale \<le> atoms * rate * 100 \<and> (atoms - pstep) * rate * 100 < nat cents * unit * scale"
proof -
  obtain num den where nd: "decimal_ratio whole frac = (num, den)" by fastforce
  note ratio = decimal_ratio_exact [OF nd, folded rate_def scale_def]
  define units where "units = (10 :: nat) ^ nat (as_PaymentDecimals v)"
  define a where "a = nat cents * units * den"
  define b where "b = num * 100"
  define steps where "steps = (a + (b - 1)) div b"
  from q r nd have g: "num \<noteq> 0" "0 \<le> as_PaymentDecimals v" "as_PaymentDecimals v \<le> as_Decimals v" "steps * pstep \<noteq> 0"
      "steps * pstep < 2 ^ 256" "s = nat_string (steps * pstep)"
    by (auto simp: cryptoQuote_def Let_def steps_def a_def b_def units_def pstep_def split: if_splits)
  have unit: "unit = units * pstep"
  proof -
    have "nat (as_Decimals v) = nat (as_PaymentDecimals v) + nat (as_Decimals v - as_PaymentDecimals v)" using g(2,3) by simp
    then show ?thesis by (simp add: unit_def units_def pstep_def power_add)
  qed
  have b: "0 < b" using g(1) by (simp add: b_def)
  have pos: "0 < den" "0 < pstep" "0 < scale" using ratio(2) by (simp_all add: pstep_def scale_def)
  have eq: "x * pstep * rate * 100 * den = x * b * (pstep * scale)" for x
    using ratio(1) by (simp add: b_def algebra_simps)
  have price: "nat cents * unit * scale * den = a * (pstep * scale)"
    by (simp add: unit a_def algebra_simps)
  have "nat cents * unit * scale * den \<le> steps * pstep * rate * 100 * den"
    unfolding price eq using ceil_div_bounds(1) [OF b, of a] by (simp add: steps_def)
  then have low: "nat cents * unit * scale \<le> steps * pstep * rate * 100" using pos(1) by simp
  have "steps * b < a + b" using ceil_div_bounds(2) [OF b, of a] by (simp add: steps_def)
  then have "(steps - 1) * b < a" using g(4) by (cases steps) auto
  then have "(steps - 1) * b * (pstep * scale) < a * (pstep * scale)" using pos by simp
  then have "(steps - 1) * pstep * rate * 100 * den < nat cents * unit * scale * den" unfolding price eq .
  then have "(steps - 1) * pstep * rate * 100 < nat cents * unit * scale" using pos(1) by (simp only: mult_less_cancel2)
  then have high: "(steps * pstep - pstep) * rate * 100 < nat cents * unit * scale"
    by (simp add: diff_mult_distrib)
  have "cryptoAtoms s = Inr (steps * pstep)" unfolding g(6) by (rule cryptoAtoms_text [OF g(5)])
  with low high g(4) show ?thesis by (intro exI [of _ "steps * pstep"]) simp
qed

section \<open>The confirmed amount\<close>

definition backing :: "CryptoInvoice \<Rightarrow> CryptoTransfer \<Rightarrow> bool" where
  "backing v t \<longleftrightarrow> tr_InvoiceID t = ci_ID v \<and> tr_ChainID t = ci_ChainID v \<and> tr_Contract t = ci_Contract v \<and>
     tr_State t = ''confirmed'' \<and> tr_BlockTime t < ci_Expires v"

definition row_backing :: "CryptoInvoice \<Rightarrow> string \<times> string \<times> int \<times> int \<times> string \<Rightarrow> nat" where
  "row_backing v row = (case row of (atoms, state, timestamp, chain, contract) \<Rightarrow>
     if chain = ci_ChainID v \<and> contract = ci_Contract v \<and> state = ''confirmed'' \<and> timestamp < ci_Expires v then digits_value atoms else 0)"

lemma add_amount_confirmed:
  assumes "add_amount v row am = Inr am'"
  shows "am_Confirmed am' = am_Confirmed am + row_backing v row"
proof -
  obtain atoms state timestamp chain contract where r: "row = (atoms, state, timestamp, chain, contract)" by (cases row)
  from assms obtain n where n: "cryptoAtoms atoms = Inr n" by (auto simp: add_amount_def r res_simps)
  have "n = digits_value atoms" by (rule cryptoAtoms_value [OF n])
  with assms n show ?thesis by (auto simp: add_amount_def r row_backing_def split: if_splits)
qed

lemma amounts_confirmed:
  "fold_res (add_amount v) rows am = Inr am' \<Longrightarrow> am_Confirmed am' = am_Confirmed am + sum_list (map (row_backing v) rows)"
proof (induction rows arbitrary: am)
  case (Cons row rows)
  then obtain am1 where a: "add_amount v row am = Inr am1" "fold_res (add_amount v) rows am1 = Inr am'" by (auto simp: res_simps)
  from Cons.IH [OF a(2)] add_amount_confirmed [OF a(1)] show ?case by simp
qed simp

lemma sum_backing:
  "sum_list (map (row_backing v) (amount_rows v S)) = sum_list (map (\<lambda>t. digits_value (tr_Atoms t)) (filter (backing v) (cs_transfers S)))"
proof -
  have obs: "sum_list (map (row_backing v) (map (\<lambda>t. (ob_Atoms t, ''observed'', ob_BlockTime t, ob_ChainID t, ob_Contract t)) os)) = 0" for os
    by (induction os) (simp_all add: row_backing_def)
  have tr: "sum_list (map (row_backing v) (map (\<lambda>t. (tr_Atoms t, tr_State t, tr_BlockTime t, tr_ChainID t, tr_Contract t))
      (filter (\<lambda>t. tr_InvoiceID t = ci_ID v) ts))) = sum_list (map (\<lambda>t. digits_value (tr_Atoms t)) (filter (backing v) ts))" for ts
    by (induction ts) (auto simp: row_backing_def backing_def)
  show ?thesis unfolding amount_rows_def by (simp only: map_append sum_list_append obs tr add_0_right)
qed

lemma cryptoInvoiceAmounts_confirmed:
  assumes "cryptoInvoiceAmounts v S = Inr am"
  shows "am_Confirmed am = sum_list (map (\<lambda>t. digits_value (tr_Atoms t)) (filter (backing v) (cs_transfers S)))"
proof -
  obtain am0 n where a: "fold_res (add_amount v) (amount_rows v S) \<lparr>am_Received = 0, am_Confirmed = 0, am_Remaining = 0, am_Overpaid = 0\<rparr> = Inr am0"
    "am = am0\<lparr>am_Remaining := n - am_Confirmed am0, am_Overpaid := am_Confirmed am0 - n\<rparr>"
    using assms by (auto simp: cryptoInvoiceAmounts_def bind_res_eq_Inr)
  from amounts_confirmed [OF a(1)] show ?thesis unfolding a(2) by (simp add: sum_backing)
qed

section \<open>What a scan writes\<close>

definition transfer_key :: "CryptoTransfer \<Rightarrow> int \<times> string \<times> int" where
  "transfer_key t = (tr_ChainID t, tr_TxHash t, tr_LogIndex t)"

text \<open>Attribution: with what a transfer was recorded, and to whom it belongs.\<close>

definition attribution :: "CryptoTransfer \<Rightarrow> (int \<times> string \<times> int) \<times> string \<times> string \<times> string \<times> string" where
  "attribution t = (transfer_key t, tr_InvoiceID t, tr_Atoms t, tr_BlockHash t, tr_Contract t)"

definition in_window :: "CryptoInvoice \<Rightarrow> CryptoTransfer \<Rightarrow> bool" where
  "in_window v t \<longleftrightarrow> (tr_InvoiceID t = ci_ID v \<and> tr_State t = ''confirmed'' \<longrightarrow>
     tr_ChainID t = ci_ChainID v \<and> ci_Created v \<le> tr_BlockTime t \<and> tr_BlockTime t < ci_Expires v)"

definition transfers_ok :: "CryptoStore \<Rightarrow> bool" where
  "transfers_ok S \<longleftrightarrow> distinct (map transfer_key (cs_transfers S)) \<and>
     list_all (\<lambda>v. list_all (in_window v) (cs_transfers S)) (cs_invoices S) \<and> distinct (map ci_ID (cs_invoices S))"

lemma same_transfer_key: "same_transfer chain t r \<longleftrightarrow> transfer_key r = (chain, sc_TxHash t, sc_Index t)"
  by (simp add: same_transfer_def transfer_key_def)

lemma transfer_row_Inr:
  assumes "transfer_row v chain t atoms = Inr row"
  shows "transfer_key row = (chain, sc_TxHash t, sc_Index t)" "tr_InvoiceID row = ci_ID v" "tr_Contract row = sc_Address t"
    "tr_State row = fst (transfer_state v chain t)" "tr_BlockTime row = sc_Timestamp t" "tr_ChainID row = chain"
  using assms by (auto simp: transfer_row_def transfer_key_def Let_def case_prod_beta res_simps)

lemma transfer_state_window:
  "fst (transfer_state v chain t) = ''confirmed'' \<Longrightarrow>
    chain = ci_ChainID v \<and> ci_Created v \<le> sc_Timestamp t \<and> sc_Timestamp t < ci_Expires v \<and> sc_Final t"
  by (auto simp: transfer_state_def split: if_splits)

text \<open>The rows a scan of one invoice may write.\<close>

definition written :: "CryptoInvoice \<Rightarrow> CryptoTransfer \<Rightarrow> bool" where
  "written v t \<longleftrightarrow> tr_InvoiceID t = ci_ID v \<and> in_window v t"

definition scan_writes :: "CryptoInvoice \<Rightarrow> CryptoTransfer list \<Rightarrow> CryptoTransfer list \<Rightarrow> bool" where
  "scan_writes v ts us \<longleftrightarrow> (distinct (map transfer_key ts) \<longrightarrow>
     prefix (map attribution ts) (map attribution us) \<and> distinct (map transfer_key us) \<and>
     (\<forall>u \<in> set us. u \<in> set ts \<or> written v u))"

lemma scan_writes_refl [simp, intro]: "scan_writes v ts ts"
  by (simp add: scan_writes_def)

lemma scan_writes_trans: "scan_writes v ts us \<Longrightarrow> scan_writes v us ws \<Longrightarrow> scan_writes v ts ws"
  by (auto simp: scan_writes_def intro: prefix_order.trans)

lemma put_transfer_writes:
  assumes "put_transfer chain t row S = Inr T" "transfer_row v chain t atoms = Inr row"
  shows "scan_writes v (cs_transfers S) (cs_transfers T)" "cs_invoices T = cs_invoices S" "cs_shop T = cs_shop S"
proof -
  have row: "written v row" using transfer_row_Inr [OF assms(2)] transfer_state_window [of v chain t]
    by (auto simp: written_def in_window_def)
  show "cs_invoices T = cs_invoices S" "cs_shop T = cs_shop S"
    using assms(1) by (auto simp: put_transfer_def split: option.splits if_splits)
  show "scan_writes v (cs_transfers S) (cs_transfers T)"
  proof (cases "find (same_transfer chain t) (cs_transfers S)")
    case None
    with assms(1) have T: "cs_transfers T = cs_transfers S @ [row]" by (auto simp: put_transfer_def)
    have "transfer_key row \<notin> transfer_key ` set (cs_transfers S)"
      using None transfer_row_Inr(1) [OF assms(2)] by (auto simp: find_None_iff same_transfer_key)
    with T row show ?thesis by (auto simp: scan_writes_def)
  next
    case (Some old)
    then have old: "old \<in> set (cs_transfers S)" "transfer_key old = (chain, sc_TxHash t, sc_Index t)"
      by (auto simp: find_Some_iff same_transfer_key)
    define f where "f = (\<lambda>r. r\<lparr>tr_BlockNumber := tr_BlockNumber row, tr_BlockHash := tr_BlockHash row,
        tr_BlockTime := tr_BlockTime row, tr_State := tr_State row, tr_Reason := tr_Reason row\<rparr> :: CryptoTransfer)"
    from assms(1) Some have eq: "tr_InvoiceID old = tr_InvoiceID row" "tr_BlockHash old = tr_BlockHash row"
      and T: "cs_transfers T = cs_transfers S \<or> cs_transfers T = set_where (same_transfer chain t) f (cs_transfers S)"
      by (auto simp: put_transfer_def f_def split: if_splits)
    have same: "attribution (f old) = attribution old" "transfer_key (f old) = transfer_key old"
      using eq by (simp_all add: attribution_def transfer_key_def f_def)
    have w: "written v (f old)" using row eq(1) old(2) transfer_row_Inr [OF assms(2)]
      by (auto simp: written_def in_window_def f_def transfer_key_def)
    show ?thesis unfolding scan_writes_def
    proof (rule impI)
      assume d: "distinct (map transfer_key (cs_transfers S))"
      have own: "same_transfer chain t old" using old(2) by (simp add: same_transfer_key)
      have inj: "r = old" if "r \<in> set (cs_transfers S)" "transfer_key r = transfer_key old" for r
        using d that old(1) by (simp add: distinct_map inj_on_def)
      have only: "same_transfer chain t r \<longleftrightarrow> r = old" if "r \<in> set (cs_transfers S)" for r
        using inj [OF that] own old(2) by (metis same_transfer_key)
      have upd: "set_where (same_transfer chain t) f (cs_transfers S) = map (\<lambda>r. if r = old then f old else r) (cs_transfers S)"
        unfolding set_where_def by (rule map_cong [OF refl]) (simp add: only)
      let ?us = "set_where (same_transfer chain t) f (cs_transfers S)"
      have m: "map attribution ?us = map attribution (cs_transfers S)" "map transfer_key ?us = map transfer_key (cs_transfers S)"
        unfolding upd using same by auto
      have w: "\<forall>u \<in> set ?us. u \<in> set (cs_transfers S) \<or> written v u"
        unfolding upd using w by auto
      from T show "prefix (map attribution (cs_transfers S)) (map attribution (cs_transfers T)) \<and>
          distinct (map transfer_key (cs_transfers T)) \<and> (\<forall>u \<in> set (cs_transfers T). u \<in> set (cs_transfers S) \<or> written v u)"
      proof
        assume "cs_transfers T = ?us"
        with m w d show ?thesis by (simp only: prefix_order.refl simp_thms)
      qed (use d in simp)
    qed
  qed
qed

lemma apply_transfer_writes:
  assumes "apply_transfer b58 v chain t S = Inr T"
  shows "scan_writes v (cs_transfers S) (cs_transfers T) \<and> cs_invoices T = cs_invoices S \<and> cs_shop T = cs_shop S"
proof -
  consider "T = S" | atoms where "T = observe v chain t atoms S"
    | atoms row S1 where "transfer_row v chain t atoms = Inr row" "put_transfer chain t row S1 = Inr T"
        "cs_transfers S1 = cs_transfers S" "cs_invoices S1 = cs_invoices S" "cs_shop S1 = cs_shop S"
    using assms by (auto simp: apply_transfer_def res_simps Let_def split: if_splits)
  then show ?thesis
  proof cases
    case 2
    then show ?thesis by (simp add: observe_def Let_def)
  next
    case 3
    with put_transfer_writes [OF 3(2,1)] show ?thesis by simp
  qed simp
qed

lemma apply_transfers_writes:
  "fold_res (apply_transfer b58 v chain) ts S = Inr T \<Longrightarrow>
    scan_writes v (cs_transfers S) (cs_transfers T) \<and> cs_invoices T = cs_invoices S \<and> cs_shop T = cs_shop S"
proof (induction ts arbitrary: S)
  case (Cons t ts)
  then obtain S1 where s: "apply_transfer b58 v chain t S = Inr S1" "fold_res (apply_transfer b58 v chain) ts S1 = Inr T"
    by (auto simp: res_simps)
  from apply_transfer_writes [OF s(1)] Cons.IH [OF s(2)] show ?case using scan_writes_trans by metis
qed simp

section \<open>Settlement\<close>

lemma commerce_res_Inr: "commerce_res r = Inr x \<longleftrightarrow> r = Inr x"
  by (cases r) (simp_all add: commerce_res_def)

lemma settle_cases:
  assumes "settleCryptoInvoice env v deadline S = Inr T"
  obtains am expected ord a where "cryptoInvoiceAmounts v S = Inr am" "cryptoAtoms (ci_ExpectedAtoms v) = Inr expected"
    "raw_order (cs_shop S) (ci_OrderID v) = Some ord" "row_with pa_ID (ci_AttemptID v) (sh_attempts (cs_shop S)) = Some a"
    "expected \<le> am_Confirmed am \<and> open_state (ci_State v) \<and> o_State ord = Pending \<and> o_PaymentAttemptID ord = ci_AttemptID v \<and>
       pa_State a = ''awaiting_customer'' \<and> pay_invoice env v a S = Inr T
     \<or> (\<exists>S1 S2. (S1 = S \<or> S1 = review_invoice v S) \<and> (S2 = S1 \<or> S2 = review_invoice v S1) \<and>
         (T = S2 \<or> (\<exists>funds. expire_invoice env v ord funds S2 = Inr T)))"
proof -
  from assms obtain am confirmed expected where am: "cryptoInvoiceAmounts v S = Inr am"
    "cryptoAtoms (nat_string (am_Confirmed am)) = Inr confirmed" "cryptoAtoms (ci_ExpectedAtoms v) = Inr expected"
    unfolding settleCryptoInvoice_def by (auto simp: res_simps commerce_res_Inr)
  have c: "confirmed = am_Confirmed am" using cryptoAtoms_value [OF am(2)] by simp
  from assms am obtain ord a where o: "raw_order (cs_shop S) (ci_OrderID v) = Some ord"
    "row_with pa_ID (ci_AttemptID v) (sh_attempts (cs_shop S)) = Some a"
    unfolding settleCryptoInvoice_def by (auto simp: commerce_res_def split: option.splits)
  define due where "due \<longleftrightarrow> confirmed \<ge> expected \<and> open_state (ci_State v) \<and> o_State ord = Pending \<and>
     o_PaymentAttemptID ord = ci_AttemptID v \<and> pa_State a = ''awaiting_customer''"
  show thesis
  proof (cases due)
    case True
    have "pay_invoice env v a S = Inr T"
      using assms am o True unfolding settleCryptoInvoice_def due_def
      by (auto simp: commerce_res_def res_simps Let_def open_state_def)
    with am o True c that show thesis by (auto simp: due_def)
  next
    case False
    have "\<exists>S1 S2. (S1 = S \<or> S1 = review_invoice v S) \<and> (S2 = S1 \<or> S2 = review_invoice v S1) \<and>
         (T = S2 \<or> (\<exists>funds. expire_invoice env v ord funds S2 = Inr T))"
      using assms am o False unfolding settleCryptoInvoice_def due_def [symmetric]
      by (auto simp: commerce_res_def res_simps Let_def due_def [symmetric] split: if_splits)
    with am(1,3) o that show thesis by blast
  qed
qed

text \<open>A settlement touches the state of its own invoice and the shop, nothing else of the scan.\<close>

definition invoice_data :: "CryptoInvoice \<Rightarrow> string \<times> int \<times> int \<times> int \<times> (string \<times> int \<times> string) \<times> string \<times> string \<times> string" where
  "invoice_data v = (ci_ID v, ci_ChainID v, ci_Created v, ci_Expires v, (ci_OrderID v, ci_UserID v, ci_AttemptID v), ci_Address v,
     ci_Contract v, ci_ExpectedAtoms v)"

definition scan_frame :: "CryptoStore \<Rightarrow> CryptoStore \<Rightarrow> bool" where
  "scan_frame S T \<longleftrightarrow> cs_transfers T = cs_transfers S \<and> map invoice_data (cs_invoices T) = map invoice_data (cs_invoices S)"

lemma scan_frame_trans: "scan_frame S T \<Longrightarrow> scan_frame T U \<Longrightarrow> scan_frame S U"
  by (simp add: scan_frame_def)

lemma map_invoice_data: "(\<And>v. invoice_data (f v) = invoice_data v) \<Longrightarrow> map invoice_data (set_where p f vs) = map invoice_data vs"
  by (induction vs) auto

lemma frame_set_invoice: "(\<And>v. invoice_data (f v) = invoice_data v) \<Longrightarrow> scan_frame S (set_invoice i f S)"
  by (simp add: scan_frame_def set_invoice_def map_invoice_data)

lemma frame_shop [simp]: "scan_frame S (S\<lparr>cs_shop := X\<rparr>)" "scan_frame S S"
  by (simp_all add: scan_frame_def)

lemma frame_review: "scan_frame S (review_invoice v S)"
  unfolding review_invoice_def by (rule frame_set_invoice) (simp add: invoice_data_def)

lemma frame_pay: "pay_invoice env v a S = Inr T \<Longrightarrow> scan_frame S T"
proof -
  assume "pay_invoice env v a S = Inr T"
  then obtain X where "T = set_invoice (ci_ID v) (\<lambda>w. w\<lparr>ci_State := ''paid''\<rparr>) (S\<lparr>cs_shop := X\<rparr>)"
    by (auto simp: pay_invoice_def Let_def split: if_splits)
  moreover have "scan_frame (S\<lparr>cs_shop := X\<rparr>) (set_invoice (ci_ID v) (\<lambda>w. w\<lparr>ci_State := ''paid''\<rparr>) (S\<lparr>cs_shop := X\<rparr>))"
    by (rule frame_set_invoice) (simp add: invoice_data_def)
  ultimately show ?thesis using scan_frame_trans frame_shop(1) by blast
qed

lemma expire_Inr:
  assumes "expire_invoice env v ord funds S = Inr T"
  shows "\<exists>X Y st. st \<noteq> ''paid'' \<and>
    T = (set_invoice (ci_ID v) (\<lambda>w. w\<lparr>ci_State := st\<rparr>) (S\<lparr>cs_shop := X\<rparr>))\<lparr>cs_shop := Y\<rparr>"
proof -
  define st where "st = (if funds then ''review_required'' else ''expired'')"
  obtain X where "T = (let S1 = set_invoice (ci_ID v) (\<lambda>w. w\<lparr>ci_State := st\<rparr>) (S\<lparr>cs_shop := X\<rparr>)
     in S1\<lparr>cs_shop := set_attempt (ci_AttemptID v) [''awaiting_customer'']
          (\<lambda>a. a\<lparr>pa_State := ''expired'', pa_Updated := cx_now env, pa_Message := ''crypto payment window over''\<rparr>) (cs_shop S1)\<rparr>)"
    using assms unfolding expire_invoice_def Let_def st_def bind_res_eq_Inr by auto
  moreover have "st \<noteq> ''paid''" by (simp add: st_def)
  ultimately show ?thesis unfolding Let_def by blast
qed

lemma frame_expire: "expire_invoice env v ord funds S = Inr T \<Longrightarrow> scan_frame S T"
proof -
  assume "expire_invoice env v ord funds S = Inr T"
  then obtain X Y st where "T = (set_invoice (ci_ID v) (\<lambda>w. w\<lparr>ci_State := st\<rparr>) (S\<lparr>cs_shop := X\<rparr>))\<lparr>cs_shop := Y\<rparr>"
    using expire_Inr by blast
  moreover have "scan_frame (S\<lparr>cs_shop := X\<rparr>) (set_invoice (ci_ID v) (\<lambda>w. w\<lparr>ci_State := st\<rparr>) (S\<lparr>cs_shop := X\<rparr>))"
    by (rule frame_set_invoice) (simp add: invoice_data_def)
  ultimately show ?thesis using scan_frame_trans frame_shop(1) by metis
qed

lemma frame_settle: "settleCryptoInvoice env v deadline S = Inr T \<Longrightarrow> scan_frame S T"
  by (erule settle_cases) (metis frame_pay frame_review frame_expire frame_shop(2) scan_frame_trans)

lemma invoice_set:
  assumes "\<And>v. ci_ID (f v) = ci_ID v"
  shows "row_with ci_ID i (cs_invoices (set_invoice j f S)) = map_option (\<lambda>w. if i = j then f w else w) (row_with ci_ID i (cs_invoices S))"
proof -
  have "row_with ci_ID i (set_where (\<lambda>v. ci_ID v = j) f vs) = map_option (\<lambda>w. if i = j then f w else w) (row_with ci_ID i vs)" for vs
    using assms by (induction vs) (auto simp: row_with_def)
  then show ?thesis by (simp add: set_invoice_def)
qed

text \<open>Only the payment branch makes an invoice paid.\<close>

lemma settled_paid:
  assumes run: "settleCryptoInvoice env v deadline S = Inr T" and v: "row_with ci_ID (ci_ID v) (cs_invoices S) = Some v0" "ci_State v0 \<noteq> ''paid''"
    and w: "row_with ci_ID (ci_ID v) (cs_invoices T) = Some w" "ci_State w = ''paid''"
  shows "\<exists>am expected ord a. cryptoInvoiceAmounts v S = Inr am \<and> cryptoAtoms (ci_ExpectedAtoms v) = Inr expected \<and>
    raw_order (cs_shop S) (ci_OrderID v) = Some ord \<and> row_with pa_ID (ci_AttemptID v) (sh_attempts (cs_shop S)) = Some a \<and>
    expected \<le> am_Confirmed am \<and> o_State ord = Pending \<and> o_PaymentAttemptID ord = ci_AttemptID v \<and>
    pa_State a = ''awaiting_customer'' \<and> pay_invoice env v a S = Inr T"
proof -
  have review: "\<exists>x. row_with ci_ID (ci_ID v) (cs_invoices (review_invoice v U)) = Some x \<and> ci_State x \<noteq> ''paid''"
    if "\<exists>x. row_with ci_ID (ci_ID v) (cs_invoices U) = Some x \<and> ci_State x \<noteq> ''paid''" for U
    using that by (auto simp: review_invoice_def invoice_set)
  have expire: "\<exists>x. row_with ci_ID (ci_ID v) (cs_invoices V) = Some x \<and> ci_State x \<noteq> ''paid''"
    if "\<exists>x. row_with ci_ID (ci_ID v) (cs_invoices U) = Some x \<and> ci_State x \<noteq> ''paid''" "expire_invoice env v ord funds U = Inr V" for U V ord funds
    using that(1) expire_Inr [OF that(2)] by (auto simp: invoice_set)
  have start: "\<exists>x. row_with ci_ID (ci_ID v) (cs_invoices S) = Some x \<and> ci_State x \<noteq> ''paid''" using v by blast
  from run show ?thesis
  proof (rule settle_cases)
    fix am expected ord a
    assume am: "cryptoInvoiceAmounts v S = Inr am" "cryptoAtoms (ci_ExpectedAtoms v) = Inr expected"
      "raw_order (cs_shop S) (ci_OrderID v) = Some ord" "row_with pa_ID (ci_AttemptID v) (sh_attempts (cs_shop S)) = Some a"
      and c: "expected \<le> am_Confirmed am \<and> open_state (ci_State v) \<and> o_State ord = Pending \<and> o_PaymentAttemptID ord = ci_AttemptID v \<and>
         pa_State a = ''awaiting_customer'' \<and> pay_invoice env v a S = Inr T
       \<or> (\<exists>S1 S2. (S1 = S \<or> S1 = review_invoice v S) \<and> (S2 = S1 \<or> S2 = review_invoice v S1) \<and>
         (T = S2 \<or> (\<exists>funds. expire_invoice env v ord funds S2 = Inr T)))"
    have "\<exists>x. row_with ci_ID (ci_ID v) (cs_invoices T) = Some x \<and> ci_State x \<noteq> ''paid''"
      if "\<exists>S1 S2. (S1 = S \<or> S1 = review_invoice v S) \<and> (S2 = S1 \<or> S2 = review_invoice v S1) \<and>
         (T = S2 \<or> (\<exists>funds. expire_invoice env v ord funds S2 = Inr T))"
    proof -
      from that obtain S1 S2 where s: "S1 = S \<or> S1 = review_invoice v S" "S2 = S1 \<or> S2 = review_invoice v S1"
        "T = S2 \<or> (\<exists>funds. expire_invoice env v ord funds S2 = Inr T)" by blast
      from s(1) start review have "\<exists>x. row_with ci_ID (ci_ID v) (cs_invoices S1) = Some x \<and> ci_State x \<noteq> ''paid''" by blast
      with s(2) review have "\<exists>x. row_with ci_ID (ci_ID v) (cs_invoices S2) = Some x \<and> ci_State x \<noteq> ''paid''" by blast
      with s(3) expire show ?thesis by blast
    qed
    with w c am show ?thesis by auto
  qed
qed

lemma pay_invoice_receipt:
  assumes "pay_invoice env v a S = Inr T"
  shows "\<exists>r. sh_receipts (cs_shop T) = sh_receipts (cs_shop S) @ [r] \<and> pr_Amount r = pa_Amount a \<and> pr_OrderID r = ci_OrderID v \<and>
    pr_ExternalRef r = ''invoice:'' @ ci_ID v \<and> pr_State r = ''verified'' \<and>
    \<not> list_ex (same_transaction ''evm_crypto'' (''invoice:'' @ ci_ID v)) (sh_receipts (cs_shop S))"
proof -
  let ?r = "crypto_receipt env v a (Max (set (paid_times v S)))"
  have r: "pr_Amount ?r = pa_Amount a" "pr_OrderID ?r = ci_OrderID v" "pr_ExternalRef ?r = ''invoice:'' @ ci_ID v"
    "pr_State ?r = ''verified''" "pr_AccountScope ?r = ''evm_crypto''" by (simp_all add: crypto_receipt_def)
  have "sh_receipts (cs_shop T) = sh_receipts (cs_shop S) @ [?r]"
    "\<not> list_ex (\<lambda>r. pr_ID r = pr_ID ?r \<or> same_transaction (pr_AccountScope ?r) (pr_ExternalRef ?r) r) (sh_receipts (cs_shop S))"
    using assms by (auto simp: pay_invoice_def Let_def set_invoice_def split: if_splits)
  with r show ?thesis by (intro exI [of _ ?r]) (simp add: list_ex_iff)
qed

text \<open>A successful application that moved the cursor.\<close>

definition scanned :: "crypto_env \<Rightarrow> CryptoInvoice \<Rightarrow> CryptoStore \<Rightarrow> CryptoStore \<Rightarrow> CryptoStore \<Rightarrow> bool" where
  "scanned env v S U T \<longleftrightarrow>
     scan_writes v (cs_transfers S) (cs_transfers U) \<and> map invoice_data (cs_invoices U) = map invoice_data (cs_invoices S) \<and>
     cs_shop U = cs_shop S \<and> (\<forall>x. row_with ci_ID (ci_ID v) (cs_invoices S) = Some x \<longrightarrow>
       (\<exists>y. row_with ci_ID (ci_ID v) (cs_invoices U) = Some y \<and> ci_State y = ci_State x)) \<and>
     (\<exists>d. settleCryptoInvoice env v d U = Inr T)"

lemma move_cursor_frame:
  shows "scan_frame S (move_cursor v chain g S)" "cs_shop (move_cursor v chain g S) = cs_shop S"
    "row_with ci_ID (ci_ID v) (cs_invoices S) = Some x \<Longrightarrow>
      \<exists>y. row_with ci_ID (ci_ID v) (cs_invoices (move_cursor v chain g S)) = Some y \<and> ci_State y = ci_State x"
proof -
  define C where "C = S\<lparr>cs_chains := set_where (chain_row (ci_ID v) chain)
           (\<lambda>r. r\<lparr>ic_NextBlock := sr_next g, ic_FinalizedHash := sr_hash g\<rparr>) (cs_chains S)\<rparr>"
  have m: "move_cursor v chain g S = (if chain = ci_ChainID v
        then set_invoice (ci_ID v) (\<lambda>w. w\<lparr>ci_NextBlock := sr_next g, ci_FinalizedBlock := sr_finalNumber g\<rparr>) C else C)"
    by (simp only: move_cursor_def Let_def C_def)
  have c: "scan_frame S C" "cs_shop C = cs_shop S" "cs_invoices C = cs_invoices S" by (simp_all add: C_def scan_frame_def)
  have "scan_frame C (move_cursor v chain g S)" unfolding m
    by (simp add: frame_set_invoice invoice_data_def)
  with c(1) show "scan_frame S (move_cursor v chain g S)" by (rule scan_frame_trans)
  show "cs_shop (move_cursor v chain g S) = cs_shop S" by (simp add: m c(2) set_invoice_def)
  show "row_with ci_ID (ci_ID v) (cs_invoices S) = Some x \<Longrightarrow>
      \<exists>y. row_with ci_ID (ci_ID v) (cs_invoices (move_cursor v chain g S)) = Some y \<and> ci_State y = ci_State x"
    by (simp add: m c(3) invoice_set)
qed

lemma apply_range_scanned:
  assumes "apply_range b58 env v chain g ts S = Inr T"
  shows "\<exists>U. scanned env v S U T"
proof -
  obtain S1 d where s: "fold_res (apply_transfer b58 v chain) ts (drop_observations (ci_ID v) chain g S) = Inr S1"
    "settleCryptoInvoice env v d (move_cursor v chain g S1) = Inr T"
    using assms unfolding apply_range_def bind_res_eq_Inr by blast
  have d: "cs_transfers (drop_observations (ci_ID v) chain g S) = cs_transfers S"
    "cs_invoices (drop_observations (ci_ID v) chain g S) = cs_invoices S"
    "cs_shop (drop_observations (ci_ID v) chain g S) = cs_shop S" by (simp_all add: drop_observations_def)
  note w = apply_transfers_writes [OF s(1), unfolded d]
  have f: "scan_frame S1 (move_cursor v chain g S1)" by (rule move_cursor_frame)
  have "scanned env v S (move_cursor v chain g S1) T"
    unfolding scanned_def
  proof (intro conjI allI impI exI [of _ d])
    show "scan_writes v (cs_transfers S) (cs_transfers (move_cursor v chain g S1))"
      "map invoice_data (cs_invoices (move_cursor v chain g S1)) = map invoice_data (cs_invoices S)"
      using f w by (simp_all add: scan_frame_def)
    show "cs_shop (move_cursor v chain g S1) = cs_shop S" using w by (simp add: move_cursor_frame)
    fix x assume "row_with ci_ID (ci_ID v) (cs_invoices S) = Some x"
    then show "\<exists>y. row_with ci_ID (ci_ID v) (cs_invoices (move_cursor v chain g S1)) = Some y \<and> ci_State y = ci_State x"
      using w by (intro move_cursor_frame(3)) simp
  qed (rule s(2))
  then show ?thesis ..
qed

lemma cryptoLockChain_Inr:
  "cryptoLockChain chain S = Inr S0 \<Longrightarrow> cs_transfers S0 = cs_transfers S \<and> cs_invoices S0 = cs_invoices S \<and> cs_shop S0 = cs_shop S"
  by (auto simp: cryptoLockChain_def split: option.splits if_splits)

lemma cryptoInvoice_Inr: "cryptoInvoice i S = Inr v \<longleftrightarrow> row_with ci_ID i (cs_invoices S) = Some v"
  by (simp add: cryptoInvoice_def split: option.split)

lemma applyCryptoScan_Inr:
  assumes "applyCryptoScan b58 env i chain g ts S = Inr T"
  shows "T = S \<or> (\<exists>v U. row_with ci_ID i (cs_invoices S) = Some v \<and> ci_ID v = i \<and> scanned env v S U T)"
proof -
  let ?run = "\<lambda>S0 v. (case find (chain_row i chain) (cs_chains S0) of None \<Rightarrow> Inl (Commerce (NoRows ''crypto_invoice_chains''))
      | Some cursor \<Rightarrow> if ic_NextBlock cursor \<noteq> sr_from g then Inr S else apply_range b58 env v chain g ts S0) = Inr T"
  have "\<exists>u. cryptoInvoice i S = Inr u \<and> (\<exists>S0. cryptoLockChain chain S = Inr S0 \<and> (\<exists>v. cryptoInvoice i S0 = Inr v \<and> ?run S0 v))"
    using assms by (simp only: applyCryptoScan_def bind_res_eq_Inr)
  then obtain S0 v where s: "cryptoLockChain chain S = Inr S0" "cryptoInvoice i S0 = Inr v" and run: "?run S0 v"
    by (elim exE conjE) (rule that)
  from run have "T = S \<or> apply_range b58 env v chain g ts S0 = Inr T" by (auto split: option.splits if_splits)
  then show ?thesis
  proof
    assume "apply_range b58 env v chain g ts S0 = Inr T"
    then obtain U where "scanned env v S0 U T" using apply_range_scanned by blast
    then have "scanned env v S U T" using cryptoLockChain_Inr [OF s(1)] by (simp add: scanned_def)
    moreover have v: "row_with ci_ID i (cs_invoices S) = Some v"
      using s(2) cryptoLockChain_Inr [OF s(1)] by (simp add: cryptoInvoice_Inr)
    moreover have "ci_ID v = i" using row_with_Some [OF v] by simp
    ultimately show ?thesis by (intro disjI2 exI conjI)
  qed simp
qed

lemma in_window_data: "invoice_data v = invoice_data w \<Longrightarrow> in_window v t = in_window w t"
  by (simp add: invoice_data_def in_window_def)

lemma windows_data:
  assumes "map invoice_data vs = map invoice_data ws" "list_all (\<lambda>v. list_all (in_window v) ts) ws"
  shows "list_all (\<lambda>v. list_all (in_window v) ts) vs"
  using assms
proof (induction vs arbitrary: ws)
  case (Cons v vs)
  then obtain w ws' where ws: "ws = w # ws'" by (cases ws) auto
  with Cons.prems have "invoice_data v = invoice_data w" "map invoice_data vs = map invoice_data ws'" by simp_all
  with Cons ws have "list_all (\<lambda>v. list_all (in_window v) ts) vs" by simp
  moreover have "in_window v = in_window w" using in_window_data [OF \<open>invoice_data v = invoice_data w\<close>] by (rule ext)
  ultimately show ?case using Cons.prems(2) ws by simp
qed simp

lemma distinct_data: "map invoice_data vs = map invoice_data ws \<Longrightarrow> map ci_ID vs = map ci_ID ws"
proof -
  have fst_data: "map ci_ID xs = map fst (map invoice_data xs)" for xs by (simp add: invoice_data_def comp_def)
  assume "map invoice_data vs = map invoice_data ws"
  then show ?thesis unfolding fst_data by (rule arg_cong)
qed

text \<open>Scans keep the windows and the attribution of every recorded transfer.\<close>

theorem scan_keeps_transfers:
  assumes "applyCryptoScan b58 env i chain g ts S = Inr T" "transfers_ok S"
  shows "transfers_ok T \<and> prefix (map attribution (cs_transfers S)) (map attribution (cs_transfers T))"
  using applyCryptoScan_Inr [OF assms(1)]
proof
  assume "\<exists>v U. row_with ci_ID i (cs_invoices S) = Some v \<and> ci_ID v = i \<and> scanned env v S U T"
  then obtain v U d where v: "row_with ci_ID i (cs_invoices S) = Some v" "scan_writes v (cs_transfers S) (cs_transfers U)"
    "map invoice_data (cs_invoices U) = map invoice_data (cs_invoices S)" "settleCryptoInvoice env v d U = Inr T"
    unfolding scanned_def by blast
  have f: "cs_transfers T = cs_transfers U" "map invoice_data (cs_invoices T) = map invoice_data (cs_invoices S)"
    using frame_settle [OF v(4)] v(3) by (simp_all add: scan_frame_def)
  have d: "distinct (map transfer_key (cs_transfers S))" "distinct (map ci_ID (cs_invoices S))"
    using assms(2) by (simp_all add: transfers_ok_def)
  with v(2) have u: "prefix (map attribution (cs_transfers S)) (map attribution (cs_transfers U))" "distinct (map transfer_key (cs_transfers U))"
    "\<forall>u \<in> set (cs_transfers U). u \<in> set (cs_transfers S) \<or> written v u" by (simp_all add: scan_writes_def)
  have "in_window w u" if "w \<in> set (cs_invoices S)" "u \<in> set (cs_transfers U)" for w u
  proof (cases "u \<in> set (cs_transfers S)")
    case True
    with assms(2) that(1) show ?thesis by (auto simp: transfers_ok_def list_all_iff)
  next
    case False
    with u(3) that(2) have "written v u" by blast
    moreover have "v = w" if "ci_ID v = ci_ID w"
      using d(2) \<open>w \<in> set (cs_invoices S)\<close> row_with_Some [OF v(1)] that by (auto simp: distinct_map inj_on_def)
    ultimately show ?thesis by (cases "ci_ID v = ci_ID w") (auto simp: written_def in_window_def)
  qed
  then have "list_all (\<lambda>w. list_all (in_window w) (cs_transfers U)) (cs_invoices S)" by (simp add: list_all_iff)
  with windows_data [OF f(2)] distinct_data [OF f(2)] d(2) u f(1) show ?thesis by (simp add: transfers_ok_def)
qed (use assms in simp)

theorem scan_pays:
  assumes run: "applyCryptoScan b58 env i chain g ts S = Inr T" and ok: "transfers_ok S"
    and v: "cryptoInvoice i S = Inr v" "ci_State v \<noteq> ''paid''" and w: "cryptoInvoice i T = Inr w" "ci_State w = ''paid''"
  shows "\<exists>expected ord a r. cryptoAtoms (ci_ExpectedAtoms v) = Inr expected \<and>
    expected \<le> sum_list (map (\<lambda>t. digits_value (tr_Atoms t)) (filter (backing v) (cs_transfers T))) \<and>
    distinct (map transfer_key (cs_transfers T)) \<and> list_all (\<lambda>t. backing v t \<longrightarrow> ci_Created v \<le> tr_BlockTime t) (cs_transfers T) \<and>
    raw_order (cs_shop S) (ci_OrderID v) = Some ord \<and> o_State ord = Pending \<and> o_PaymentAttemptID ord = ci_AttemptID v \<and>
    row_with pa_ID (ci_AttemptID v) (sh_attempts (cs_shop S)) = Some a \<and> pa_State a = ''awaiting_customer'' \<and>
    sh_receipts (cs_shop T) = sh_receipts (cs_shop S) @ [r] \<and> pr_Amount r = pa_Amount a \<and> pr_OrderID r = ci_OrderID v \<and>
    \<not> list_ex (same_transaction ''evm_crypto'' (''invoice:'' @ i)) (sh_receipts (cs_shop S))"
proof -
  have rows: "row_with ci_ID i (cs_invoices S) = Some v" "row_with ci_ID i (cs_invoices T) = Some w"
    using v(1) w(1) by (auto simp: cryptoInvoice_def split: option.splits)
  then have "T \<noteq> S" using v(2) w(2) by auto
  with applyCryptoScan_Inr [OF run] rows(1) obtain U where i: "ci_ID v = i" and U: "scanned env v S U T" by auto
  then obtain d x where u: "ci_ID v = i" "cs_shop U = cs_shop S"
    "row_with ci_ID i (cs_invoices U) = Some x" "ci_State x = ci_State v" "settleCryptoInvoice env v d U = Inr T"
    using rows(1) unfolding scanned_def by blast
  have "ci_State x \<noteq> ''paid''" using u(4) v(2) by simp
  from settled_paid [OF u(5), unfolded u(1), OF u(3) this rows(2) w(2)] obtain am expected ord a where
    s: "cryptoInvoiceAmounts v U = Inr am" "cryptoAtoms (ci_ExpectedAtoms v) = Inr expected"
    "raw_order (cs_shop U) (ci_OrderID v) = Some ord" "row_with pa_ID (ci_AttemptID v) (sh_attempts (cs_shop U)) = Some a"
    "expected \<le> am_Confirmed am" "o_State ord = Pending" "o_PaymentAttemptID ord = ci_AttemptID v"
    "pa_State a = ''awaiting_customer''" "pay_invoice env v a U = Inr T" by blast
  have tr: "cs_transfers T = cs_transfers U" using frame_settle [OF u(5)] by (simp add: scan_frame_def)
  have sum: "expected \<le> sum_list (map (\<lambda>t. digits_value (tr_Atoms t)) (filter (backing v) (cs_transfers T)))"
    using cryptoInvoiceAmounts_confirmed [OF s(1)] s(5) by (simp add: tr)
  have okT: "transfers_ok T" using scan_keeps_transfers [OF run ok] by simp
  have data: "map invoice_data (cs_invoices T) = map invoice_data (cs_invoices S)"
    using frame_settle [OF u(5)] U by (simp add: scan_frame_def scanned_def)
  have "invoice_data v \<in> set (map invoice_data (cs_invoices T))" unfolding data using row_with_Some [OF rows(1)] by simp
  then obtain v' where v': "v' \<in> set (cs_invoices T)" "invoice_data v' = invoice_data v" by auto
  then have win: "in_window v t" if "t \<in> set (cs_transfers T)" for t
    using okT in_window_data [OF v'(2)] that by (auto simp: transfers_ok_def list_all_iff)
  have created: "list_all (\<lambda>t. backing v t \<longrightarrow> ci_Created v \<le> tr_BlockTime t) (cs_transfers T)"
    unfolding list_all_iff using win by (auto simp: in_window_def backing_def)
  have dist: "distinct (map transfer_key (cs_transfers T))" using okT by (simp add: transfers_ok_def)
  from pay_invoice_receipt [OF s(9)] obtain r where r: "sh_receipts (cs_shop T) = sh_receipts (cs_shop U) @ [r]"
    "pr_Amount r = pa_Amount a" "pr_OrderID r = ci_OrderID v"
    "\<not> list_ex (same_transaction ''evm_crypto'' (''invoice:'' @ ci_ID v)) (sh_receipts (cs_shop U))" by blast
  show ?thesis
    by (intro exI [of _ expected] exI [of _ ord] exI [of _ a] exI [of _ r] conjI)
      (rule s [unfolded u(2)] r [unfolded u(1,2)] sum dist created)+
qed

end
