(* ===== verification/Period_Renewal.thy ===== *)
theory Period_Renewal
  imports Cycle_Safety
begin

text \<open>
  What the sweep over the quota periods does to an account whose plan still runs: it leaves it, marks it, settles its
  connections, or opens the next period, and then everything of the old period is accounted for.
\<close>

section \<open>The grants of a new period\<close>

text \<open>The grants of the account move: a limited grant gets the lifetime usage plus its budget, an unlimited one stays.\<close>

definition grant_moved :: "int \<Rightarrow> string \<Rightarrow> BusinessSite \<Rightarrow> BusinessGrant \<Rightarrow> BusinessGrant \<Rightarrow> bool" where
  "grant_moved user period s g h \<longleftrightarrow>
    (if bg_UserID g \<noteq> user then h = g
     else bg_UserID h = user \<and> bg_PeriodID h = period \<and>
       (if 0 < bg_Quota g
        then bg_Budget h = (if bg_Budget g = 0 then bg_Quota g else bg_Budget g) \<and>
          bg_Quota h = usage_total (site_usage s user) + bg_Budget h
        else bg_Quota h = bg_Quota g \<and> bg_Budget h = bg_Budget g))"

definition site_moved :: "int \<Rightarrow> string \<Rightarrow> BusinessSite \<Rightarrow> BusinessSite \<Rightarrow> bool" where
  "site_moved user period s t \<longleftrightarrow> bs_ID t = bs_ID s \<and> bs_Usage t = bs_Usage s \<and> bs_Issued t = bs_Issued s \<and>
     list_all2 (grant_moved user period s) (bs_Grants s) (bs_Grants t)"

lemma renew_grant_moved: "renew_grant user period s g = Inr h \<Longrightarrow> grant_moved user period s g h"
  by (auto simp: renew_grant_def grant_moved_def Let_def bind_res_eq_Inr AddCounter_def split: if_splits)

lemma renew_grants_moved: "renew_grants user period s gs = Inr hs \<Longrightarrow> list_all2 (grant_moved user period s) gs hs"
  by (induction gs arbitrary: hs) (auto simp: res_simps intro: renew_grant_moved)

lemma no_grant_moved:
  assumes "\<not> has_grant user s"
  shows "list_all2 (grant_moved user period s) (bs_Grants s) (bs_Grants s)"
proof -
  have "grant_moved user period s g g" if "g \<in> set (bs_Grants s)" for g
    using assms that by (auto simp: has_grant_def list_ex_iff grant_moved_def)
  then show ?thesis by (simp add: list.rel_refl_strong)
qed

lemma renew_site_moved: "renew_site revision user period s = Inr t \<Longrightarrow> site_moved user period s t"
  by (auto simp: renew_site_def site_moved_def res_simps renew_grants_moved no_grant_moved split: if_splits)

lemma renew_sites_moved: "renew_sites revision user period ss = Inr ts \<Longrightarrow> list_all2 (site_moved user period) ss ts"
  by (induction ss arbitrary: ts) (auto simp: res_simps intro: renew_site_moved)

section \<open>The next period\<close>

text \<open>The end of the period comes: the account is marked for the reset before anything else.\<close>

definition reset_due :: "int \<Rightarrow> QuotaMeter \<Rightarrow> bool" where
  "reset_due now m \<longleftrightarrow> qm_PendingReset m \<or> 0 < qm_End m \<and> qm_End m \<le> now"

definition mark_reset :: "commerce_env \<Rightarrow> Record \<Rightarrow> Shop \<Rightarrow> Shop" where
  "mark_reset ce u S =
    (case u_Meter u of None \<Rightarrow> S
     | Some m \<Rightarrow> if \<not> qm_PendingReset m \<and> reset_due (ce_now ce) m then save_record ce (set_pending_reset True u) S else S)"

text \<open>
  What a renewal leaves of an account \<open>w\<close> of the settled shop \<open>S\<close>: its old period is archived as it was settled, and it has
  a new one without usage; its lifetime counters, its quota and its other fields stay.
\<close>

definition period_renewed :: "commerce_env \<Rightarrow> Shop \<Rightarrow> Record \<Rightarrow> Shop \<Rightarrow> bool" where
  "period_renewed ce S w T \<longleftrightarrow> (\<exists>m start fin v m'. u_Meter w = Some m \<and>
     map_of (sh_periods T) (u_ID w, qm_PeriodID m)
       = Some (case map_of (sh_periods S) (u_ID w, qm_PeriodID m) of None \<Rightarrow> User.truncate w | Some d \<Rightarrow> d) \<and>
     cycle_start (ce_tz ce) (ce_now ce) m (u_Entitlement w) = Inr start \<and> cycle_end (ce_tz ce) start (u_Entitlement w) = Inr fin \<and>
     user_record T (u_ID w) = Some v \<and> u_Meter v = Some m' \<and> v\<lparr>u_Meter := u_Meter w\<rparr> = w \<and>
     qm_PeriodID m' = ''period-'' @ ce_token ce ''period'' \<and> qm_Start m' = start \<and> qm_End m' = fin \<and>
     \<not> qm_PendingReset m' \<and> QuotaUsed v = 0 \<and>
     (\<forall>e. u_Entitlement w = Some e \<and> en_Cycle e = ''30d'' \<longrightarrow> start \<le> ce_now ce \<and> ce_now ce < fin))"

lemma insert_period_lookup:
  "map_of (sh_periods (insert_period i p d S)) (i, p) = Some (case map_of (sh_periods S) (i, p) of None \<Rightarrow> d | Some x \<Rightarrow> x)"
proof (cases "(i, p) \<in> fst ` set (sh_periods S)")
  case True
  then show ?thesis by (cases "map_of (sh_periods S) (i, p)") (auto simp: insert_period_def map_of_eq_None_iff)
next
  case False
  then have "map_of (sh_periods S) (i, p) = None" by (simp add: map_of_eq_None_iff)
  with False show ?thesis by (simp add: insert_period_def map_add_def)
qed

lemma renew_period_renewed:
  assumes run: "renew_period env sites S w = (T, sites', e)" and w: "user_record S (u_ID w) = Some w" "u_Meter w = Some m"
  shows "T = S \<and> sites' = sites \<or>
    e = None \<and> period_renewed (cy_commerce env) S w T \<and>
    list_all2 (site_moved (u_ID w) (''period-'' @ ce_token (cy_commerce env) ''period'')) sites sites'"
proof -
  define ce where "ce = cy_commerce env"
  define period where "period = ''period-'' @ ce_token ce ''period''"
  consider "T = S" "sites' = sites"
  | start fin where "cycle_start (ce_tz ce) (ce_now ce) m (u_Entitlement w) = Inr start"
      "cycle_end (ce_tz ce) start (u_Entitlement w) = Inr fin"
      "renew_sites (ce_token ce ''GYV-site'') (u_ID w) period sites = Inr sites'" "e = None"
      "T = write_user (open_period start period fin w)
         ((insert_period (u_ID w) (qm_PeriodID m) (User.truncate w) S)\<lparr>sh_sites :=
            store_sites (u_ID w) sites' (sh_sites (insert_period (u_ID w) (qm_PeriodID m) (User.truncate w) S))\<rparr>)"
    using run unfolding renew_period_def ce_def [symmetric] period_def [symmetric] Let_def w(2)
    by (auto simp: res_simps split: sum.splits prod.splits)
  then show ?thesis
  proof cases
    case 2
    define v where "v = open_period start period fin w"
    have fields: "u_ID v = u_ID w" "v\<lparr>u_Meter := u_Meter w\<rparr> = w" by (simp_all add: v_def open_period_def w(2))
    obtain m' where m': "u_Meter v = Some m'" "qm_PeriodID m' = period" "qm_Start m' = start" "qm_End m' = fin" "\<not> qm_PendingReset m'"
      by (simp add: v_def open_period_def w(2))
    have written: "user_record T (u_ID w) = Some v"
      using user_record_write [of _ v w, unfolded fields(1)] w(1) unfolding 2(5) v_def [symmetric]
      by (simp add: v_def open_period_def)
    have archive: "map_of (sh_periods T) (u_ID w, qm_PeriodID m)
        = Some (case map_of (sh_periods S) (u_ID w, qm_PeriodID m) of None \<Rightarrow> User.truncate w | Some d \<Rightarrow> d)"
      unfolding 2(5) by (simp add: write_user_def insert_period_lookup)
    have days: "start \<le> ce_now ce \<and> ce_now ce < fin" if "u_Entitlement w = Some x" "en_Cycle x = ''30d''" for x
      using thirty_days [OF that(2)] 2(1,2) that(1) by metis
    have "QuotaUsed v = 0" unfolding v_def by (rule open_period_used [OF w(2)])
    then have "period_renewed ce S w T"
      unfolding period_renewed_def period_def [symmetric] using w(2) archive 2(1,2) written m' fields(2) days by blast
    with renew_sites_moved [OF 2(3)] 2(4) show ?thesis by (simp add: ce_def period_def)
  qed simp
qed

section \<open>One account of the sweep\<close>

theorem sweep_of_account:
  assumes run: "advance_user env u S sites = (T, sites', e)" and runs: "\<not> plan_over (ce_now (cy_commerce env)) u"
  shows "sites' = sites \<and> (T = S \<or> \<not> commerceBarrier (u_ID u) S \<and>
      (T = mark_reset (cy_commerce env) u S \<or>
       old_grants_settled (u_ID u) sites \<and> T = fst (cy_settle env (mark_reset (cy_commerce env) u S)))) \<or>
    old_grants_settled (u_ID u) sites \<and> \<not> commerceBarrier (u_ID u) S \<and> e = None \<and>
    (\<exists>m. u_Meter u = Some m \<and> reset_due (ce_now (cy_commerce env)) m) \<and>
    (\<exists>S2 w. cy_settle env (mark_reset (cy_commerce env) u S) = (S2, None) \<and> user_record S2 (u_ID u) = Some w \<and>
       period_renewed (cy_commerce env) S2 w T) \<and>
    list_all2 (site_moved (u_ID u) (''period-'' @ ce_token (cy_commerce env) ''period'')) sites sites'"
proof (cases "commerceBarrier (u_ID u) S \<or> u_Meter u = None")
  case True
  then have "T = S \<and> sites' = sites" using run runs by (auto simp: advance_user_def end_period_def split: if_split_asm)
  then show ?thesis by blast
next
  case False
  then obtain m where m: "u_Meter u = Some m" and free: "\<not> commerceBarrier (u_ID u) S" by auto
  define S1 where "S1 = mark_reset (cy_commerce env) u S"
  have run: "(if \<not> reset_due (ce_now (cy_commerce env)) m then (S1, sites, None)
      else settled env sites (u_ID u) (renew_period env sites) S1) = (T, sites', e)"
    using run free runs by (auto simp: advance_user_def end_period_def Let_def m S1_def mark_reset_def reset_due_def split: if_splits)
  obtain S2 x where S2: "cy_settle env S1 = (S2, x)" by fastforce
  show ?thesis
  proof (cases "reset_due (ce_now (cy_commerce env)) m \<and> old_grants_settled (u_ID u) sites \<and> x = None \<and> user_record S2 (u_ID u) \<noteq> None")
    case False
    then have "sites' = sites \<and> (T = S1 \<or> old_grants_settled (u_ID u) sites \<and> T = S2)"
      using run S2 by (auto simp: settled_def split: if_splits option.splits)
    then show ?thesis using free S2 by (auto simp: S1_def)
  next
    case True
    then obtain w where w: "user_record S2 (u_ID u) = Some w" by auto
    have id: "u_ID w = u_ID u" using w user_record_ID by blast
    have renew: "renew_period env sites S2 w = (T, sites', e)" using run True S2 w by (simp add: settled_def)
    show ?thesis
    proof (cases "u_Meter w")
      case None
      then have "T = S2 \<and> sites' = sites" using renew by (simp add: renew_period_def)
      then show ?thesis using free True S2 by (auto simp: S1_def)
    next
      case (Some m2)
      from renew_period_renewed [OF renew _ Some] w id
      show ?thesis using free True S2 m by (auto simp: S1_def)
    qed
  qed
qed

end
