(* ===== verification/Chain_Samples.thy ===== *)
theory Chain_Samples
  imports Samples Crypto_Safety Period_Renewal
begin

text \<open>
  An account whose quota period has ended with a subsite that grants it traffic, and an order paid by one transfer on
  a chain: the inputs on which the properties of the quota sweep and of the chain scan are evaluated.
\<close>

section \<open>A quota period that has ended\<close>

definition cycle_user :: Record where
  "cycle_user = running_user\<lparr>u_Meter := Some (empty_meter\<lparr>qm_PeriodID := ''P0'', qm_Start := 50, qm_End := 2900,
       qm_PendingReset := True, qm_Upload := 300\<rparr>),
     u_Entitlement := Some \<lparr>en_PlanID = ''PL0'', en_OrderID = ''GYO-1'', en_RenewalOrderID = [], en_Version = 1, en_Name = ''old'',
       en_GroupIDs = [], en_NodeIDs = [], en_NodeRates = [], en_Cycle = ''30d'', en_Timezone = ''UTC'',
       en_AssignedAt = 50, en_Revision = ''R0''\<rparr>\<rparr>"

definition cycle_sample_env :: cycle_env where
  "cycle_sample_env = \<lparr>cy_commerce = sample_env 3000, cy_settle = (\<lambda>S. (S, None)), cy_reconcile = (\<lambda>S. (S, None))\<rparr>"

definition cycle_shop :: Shop where
  "cycle_shop = empty_shop\<lparr>sh_users := [cycle_user], sh_sites := [sample_site]\<rparr>"

lemma cycle_sample_facts:
  "\<not> plan_over (ce_now (cy_commerce cycle_sample_env)) cycle_user" "u_ID cycle_user = 7"
  "user_record cycle_shop 7 = Some cycle_user" "cy_settle cycle_sample_env S = (S, None)"
  "mark_reset (cy_commerce cycle_sample_env) cycle_user cycle_shop = cycle_shop"
  by (simp_all add: cycle_sample_env_def plan_over_def cycle_user_def running_user_def cycle_shop_def
      user_record_def row_with_def mark_reset_def sample_data)

definition cycle_token :: string where
  "cycle_token = ''period-'' @ ce_token (cy_commerce cycle_sample_env) ''period''"

definition cycle_done :: "cycle_round" where
  "cycle_done =
    (let site = sample_site\<lparr>bs_Grants := [sample_grant\<lparr>bg_Budget := 400000, bg_Quota := 400000, bg_PeriodID := cycle_token\<rparr>],
           bs_Revision := ce_token (cy_commerce cycle_sample_env) ''GYV-site''\<rparr>
     in (write_user (open_period 2900 cycle_token (2900 + 30 * 86400) cycle_user)
          ((insert_period 7 ''P0'' (User.truncate cycle_user) cycle_shop)\<lparr>sh_sites := [site]\<rparr>), [site], None))"

lemma cycle_sample_run: "advance_user cycle_sample_env cycle_user cycle_shop [sample_site] = cycle_done"
proof -
  have barrier: "\<not> commerceBarrier 7 cycle_shop" by (simp add: commerceBarrier_def cycle_shop_def sample_data)
  have grants: "old_grants_settled 7 [sample_site]"
    by (simp add: old_grants_settled_def sample_site_def map_has_def site_unlimited_def)
  have meter: "u_Meter cycle_user = Some (empty_meter\<lparr>qm_PeriodID := ''P0'', qm_Start := 50, qm_End := 2900,
       qm_PendingReset := True, qm_Upload := 300\<rparr>)" by (simp add: cycle_user_def)
  have now: "ce_now (cy_commerce cycle_sample_env) = 3000" by (simp add: cycle_sample_env_def sample_env_def)
  have times: "cycle_start tz 3000 (the (u_Meter cycle_user)) (u_Entitlement cycle_user) = Inr 2900"
    "cycle_end tz 2900 (u_Entitlement cycle_user) = Inr (2900 + 30 * 86400)" for tz
    by (simp_all add: cycle_start_def cycle_end_def NextPeriod_def cycle_user_def)
  have sites: "renew_sites r 7 p [sample_site] =
      Inr [sample_site\<lparr>bs_Grants := [sample_grant\<lparr>bg_Budget := 400000, bg_Quota := 400000, bg_PeriodID := p\<rparr>], bs_Revision := r\<rparr>]" for r p
    by (simp add: renew_site_def renew_grant_def sample_site_def sample_grant_def has_grant_def site_usage_def map_get_def no_usage_def
        usage_total_def AddCounter_def CounterLimit_def)
  have "advance_user cycle_sample_env cycle_user cycle_shop [sample_site]
      = renew_period cycle_sample_env [sample_site] cycle_shop cycle_user"
    using barrier grants cycle_sample_facts
    by (simp add: advance_user_def end_period_def Let_def meter settled_def cycle_sample_env_def)
  also have "\<dots> = cycle_done"
    using times sites
    by (simp add: renew_period_def Let_def meter now cycle_done_def cycle_token_def cycle_sample_facts store_sites_def
        cycle_shop_def insert_period_def sample_site_def has_grant_def sample_grant_def)
  finally show ?thesis .
qed

lemma cycle_changed: "fst (snd cycle_done) \<noteq> [sample_site]" "snd (snd cycle_done) = None"
  by (simp_all add: cycle_done_def Let_def cycle_token_def sample_site_def sample_grant_def)

section \<open>An order paid on a chain\<close>

definition chain_asset :: CryptoAsset where
  "chain_asset = \<lparr>as_ID = ''bsc-usdt'', as_ChainID = 56, as_Contract = ''0xtoken'', as_Decimals = 6, as_CNYPerToken = ''7.5'',
     as_RateExpiresAt = 9000, as_PaymentDecimals = 4, as_Enabled = True\<rparr>"

lemma chain_asset_rate: "rate_parts (as_CNYPerToken chain_asset) = Some (''7'', ''5'')"
proof -
  have "rate_parts ''7.5'' = Some (''7'', ''5'')" by (simp add: rate_parts_def Let_def is_digit_def)
  then show ?thesis by (simp add: chain_asset_def)
qed

lemma chain_quote: "cryptoQuote 1999 chain_asset = Inr (nat_string 2665400)"
proof -
  have "decimal_ratio ''7'' ''5'' = (15, 2)" by code_simp
  then show ?thesis
    using chain_asset_rate by (simp add: cryptoQuote_def chain_asset_def moneyLimit_def Let_def)
qed

definition chain_order :: Order where
  "chain_order = (sample_order sample_offer)\<lparr>o_PaymentAttemptID := ''GYP-9''\<rparr>"

definition chain_attempt :: PaymentAttempt where
  "chain_attempt = stripe_attempt\<lparr>pa_ID := ''GYP-9'', pa_OrderID := ''GYO-2000'', pa_ProviderID := ''crypto'',
     pa_State := ''awaiting_customer'', pa_ExternalRef := []\<rparr>"

definition chain_invoice :: CryptoInvoice where
  "chain_invoice = \<lparr>ci_ID = ''GYC-1'', ci_OrderID = ''GYO-2000'', ci_UserID = 7, ci_AttemptID = ''GYP-9'', ci_ChainID = 56,
     ci_Address = ''0xAb'', ci_Contract = ''0xtoken'', ci_ExpectedAtoms = ''1500'', ci_State = ''waiting'', ci_Created = 1000,
     ci_Expires = 5000, ci_NextBlock = 10, ci_FinalizedBlock = 9\<rparr>"

definition chain_store :: CryptoStore where
  "chain_store = \<lparr>cs_shop = empty_shop\<lparr>sh_orders := [order_row chain_order], sh_attempts := [chain_attempt]\<rparr>,
     cs_invoices = [chain_invoice], cs_chains = [\<lparr>ic_InvoiceID = ''GYC-1'', ic_ChainID = 56, ic_NextBlock = 10, ic_FinalizedHash = []\<rparr>],
     cs_transfers = [], cs_observations = [], cs_frozen = []\<rparr>"

definition chain_range :: scan_range where
  "chain_range = \<lparr>sr_from = 10, sr_to = 20, sr_next = 21, sr_hash = ''h20'', sr_finalNumber = 20, sr_finalTime = 3000\<rparr>"

definition chain_log :: Scanned where
  "chain_log = \<lparr>sc_Address = ''0xtoken'', sc_Topics = [cryptoTransferTopic, replicate 64 (CHR ''a''), ''0x'' @ cryptoABIAddress ''0xAb''],
     sc_Data = ''0x5dc'', sc_BlockNumber = 15, sc_BlockHash = ''h15'', sc_TxHash = ''t1'', sc_Index = 3, sc_Timestamp = 2000,
     sc_Final = True, sc_ReviewReason = []\<rparr>"

definition chain_env :: crypto_env where
  "chain_env = \<lparr>cx_now = 3000, cx_serial = ''GYR-9''\<rparr>"

definition chain_transfer :: CryptoTransfer where
  "chain_transfer = \<lparr>tr_ChainID = 56, tr_TxHash = ''t1'', tr_LogIndex = 3, tr_InvoiceID = ''GYC-1'', tr_Contract = ''0xtoken'',
     tr_Sender = ''0x'' @ replicate 40 (CHR ''a''), tr_Recipient = lower ''0xAb'', tr_Atoms = nat_string 1500, tr_BlockNumber = 15,
     tr_BlockHash = ''h15'', tr_BlockTime = 2000, tr_State = ''confirmed'', tr_Reason = []\<rparr>"

definition chain_cursor_moved :: CryptoStore where
  "chain_cursor_moved = chain_store\<lparr>cs_invoices := [chain_invoice\<lparr>ci_NextBlock := 21, ci_FinalizedBlock := 20\<rparr>],
     cs_chains := [\<lparr>ic_InvoiceID = ''GYC-1'', ic_ChainID = 56, ic_NextBlock = 21, ic_FinalizedHash = ''h20''\<rparr>],
     cs_transfers := [chain_transfer], cs_frozen := [(56, False)]\<rparr>"

definition chain_paid :: CryptoStore where
  "chain_paid = chain_cursor_moved\<lparr>cs_invoices := [chain_invoice\<lparr>ci_NextBlock := 21, ci_FinalizedBlock := 20, ci_State := ''paid''\<rparr>],
     cs_shop := empty_shop\<lparr>sh_orders := [order_row chain_order], sh_receipts := [crypto_receipt chain_env chain_invoice chain_attempt 2000],
       sh_attempts := [chain_attempt\<lparr>pa_State := ''paid'', pa_ExternalRef := ''invoice:GYC-1'', pa_Updated := 3000,
         pa_Message := ''payment finalized on chain''\<rparr>]\<rparr>\<rparr>"

lemma chain_atoms: "cryptoHexInt ''0x5dc'' = Inr 1500" "cryptoAtoms ''1500'' = Inr 1500" "cryptoAtoms (nat_string 1500) = Inr 1500"
proof -
  have h: "hex_value 0 ''5dc'' = Some 1500" by code_simp
  show "cryptoHexInt ''0x5dc'' = Inr 1500" by (simp add: cryptoHexInt_def h del: hex_value.simps)
  have n: "nat_string 1500 = ''1500''" by code_simp
  show "cryptoAtoms (nat_string 1500) = Inr 1500" by (rule cryptoAtoms_text) simp
  then show "cryptoAtoms ''1500'' = Inr 1500" by (simp add: n)
qed

lemma chain_applied:
  "apply_transfer b58 chain_invoice 56 chain_log (chain_store\<lparr>cs_frozen := f\<rparr>) = Inr (chain_store\<lparr>cs_frozen := f, cs_transfers := [chain_transfer]\<rparr>)"
  by (simp add: apply_transfer_def chain_log_def chain_atoms commerce_res_def identity_ok_def cryptoSolanaChainID_def chain_invoice_def
      transfer_row_def transfer_state_def put_transfer_def chain_store_def chain_transfer_def Let_def)

lemma chain_settled: "settleCryptoInvoice chain_env chain_invoice False chain_cursor_moved = Inr chain_paid"
proof -
  have amounts: "cryptoInvoiceAmounts chain_invoice chain_cursor_moved = Inr \<lparr>am_Received = 1500, am_Confirmed = 1500, am_Remaining = 0, am_Overpaid = 0\<rparr>"
    by (simp add: cryptoInvoiceAmounts_def amount_rows_def add_amount_def chain_cursor_moved_def chain_transfer_def chain_store_def
        chain_invoice_def chain_atoms)
  have rows: "raw_order (cs_shop chain_cursor_moved) (ci_OrderID chain_invoice) = Some chain_order"
    "row_with pa_ID (ci_AttemptID chain_invoice) (sh_attempts (cs_shop chain_cursor_moved)) = Some chain_attempt"
    by (simp_all add: raw_order_def chain_cursor_moved_def chain_store_def row_with_def order_row_def chain_order_def sample_order_def
        new_order_def sample_data chain_invoice_def chain_attempt_def)
  have due: "ci_State chain_invoice = ''waiting''" "o_State chain_order = Pending" "o_PaymentAttemptID chain_order = ci_AttemptID chain_invoice"
    "pa_State chain_attempt = ''awaiting_customer''" "ci_ExpectedAtoms chain_invoice = ''1500''"
    by (simp_all add: chain_invoice_def chain_order_def sample_order_def new_order_def chain_attempt_def)
  have times: "paid_times chain_invoice chain_cursor_moved = [2000]"
    by (simp add: paid_times_def chain_cursor_moved_def chain_store_def chain_transfer_def chain_invoice_def)
  have pay: "pay_invoice chain_env chain_invoice chain_attempt chain_cursor_moved = Inr chain_paid"
    using times by (simp add: pay_invoice_def Let_def chain_cursor_moved_def chain_store_def empty_shop_def set_invoice_def set_where_def
        chain_paid_def chain_invoice_def chain_attempt_def crypto_receipt_def chain_env_def stripe_attempt_def)
  have reviews: "reviews chain_invoice chain_paid = 0"
    by (simp add: reviews_def chain_paid_def chain_cursor_moved_def chain_transfer_def)
  show ?thesis
    unfolding settleCryptoInvoice_def
    by (simp add: amounts rows due chain_atoms commerce_res_def pay reviews Let_def open_state_def)
qed

lemma chain_scanned: "applyCryptoScan b58 chain_env ''GYC-1'' 56 chain_range [chain_log] chain_store = Inr chain_paid"
proof -
  have "cryptoLockChain 56 chain_store = Inr (chain_store\<lparr>cs_frozen := [(56, False)]\<rparr>)"
    by (simp add: cryptoLockChain_def chain_store_def)
  moreover have "cryptoInvoice ''GYC-1'' (chain_store\<lparr>cs_frozen := f\<rparr>) = Inr chain_invoice" "cryptoInvoice ''GYC-1'' chain_store = Inr chain_invoice" for f
    by (simp_all add: cryptoInvoice_def chain_store_def row_with_def chain_invoice_def)
  moreover have "find (chain_row ''GYC-1'' 56) (cs_chains (chain_store\<lparr>cs_frozen := f\<rparr>))
      = Some \<lparr>ic_InvoiceID = ''GYC-1'', ic_ChainID = 56, ic_NextBlock = 10, ic_FinalizedHash = []\<rparr>" for f
    by (simp add: chain_store_def chain_row_def)
  moreover have "drop_observations i 56 chain_range (chain_store\<lparr>cs_frozen := f\<rparr>) = chain_store\<lparr>cs_frozen := f\<rparr>" for i f
    by (simp add: drop_observations_def chain_store_def)
  moreover have "move_cursor chain_invoice 56 chain_range (chain_store\<lparr>cs_frozen := [(56, False)], cs_transfers := [chain_transfer]\<rparr>) = chain_cursor_moved"
    by (simp add: move_cursor_def chain_invoice_def chain_store_def chain_cursor_moved_def chain_range_def set_where_def chain_row_def
        set_invoice_def Let_def)
  moreover have "sr_from chain_range = 10" "\<not> sr_finalTime chain_range > ci_Expires chain_invoice"
    by (simp_all add: chain_range_def chain_invoice_def)
  ultimately show ?thesis
    using chain_settled by (simp add: applyCryptoScan_def apply_range_def chain_applied)
qed

lemma chain_sample_facts:
  "transfers_ok chain_store" "cryptoInvoice ''GYC-1'' chain_store = Inr chain_invoice" "ci_State chain_invoice \<noteq> ''paid''"
  "cryptoInvoice ''GYC-1'' chain_paid = Inr (chain_invoice\<lparr>ci_NextBlock := 21, ci_FinalizedBlock := 20, ci_State := ''paid''\<rparr>)"
  by (simp_all add: transfers_ok_def chain_store_def chain_invoice_def cryptoInvoice_def row_with_def chain_paid_def)

end
