(* ===== verification/Sweep_Chain.thy ===== *)
theory Sweep_Chain
  imports Crypto_Scan
begin

text \<open>
  What a sweep sees of a chain: the answers of the two RPC servers and their decoding (\<open>crypto_evm.go\<close>), fee prices
  (\<open>crypto_collection_fees.go\<close>), and the signing of a transfer (\<open>crypto_signing.go\<close>). Servers, the key of a wallet and
  the transaction codec of go-ethereum are parameters.
\<close>

section \<open>Errors\<close>

text \<open>
  \<open>Declined\<close> are \<open>commerceError\<close>s and errors of the database, \<open>FeeReview\<close> is \<open>errCryptoGasReview\<close>, \<open>Forked\<close> is
  \<open>errCryptoFinality\<close>, \<open>Failure\<close> any other error.
\<close>

datatype sweep_error = Declined commerce_error | FeeReview string | Forked | Failure string

definition refuse :: "nat \<Rightarrow> string \<Rightarrow> sweep_error + 'a" where
  "refuse status message = Inl (Declined (Fail status message))"

definition shop_res :: "commerce_error + 'a \<Rightarrow> sweep_error + 'a" where
  "shop_res r = (case r of Inl e \<Rightarrow> Inl (Declined e) | Inr x \<Rightarrow> Inr x)"

lemma shop_res_Inr [simp, res_simps]: "shop_res r = Inr x \<longleftrightarrow> r = Inr x"
  by (cases r) (simp_all add: shop_res_def)

lemma shop_res_simps [simp]: "shop_res (Inr x) = Inr x" "shop_res (Inl e) = Inl (Declined e)"
  by (simp_all add: shop_res_def)

lemma refuse_Inr [simp, res_simps]: "refuse status message = Inr x \<longleftrightarrow> False"
  by (simp add: refuse_def)

section \<open>Texts of the chain\<close>

text \<open>\<open>strings.EqualFold\<close> of ASCII texts.\<close>

definition equalFold :: "string \<Rightarrow> string \<Rightarrow> bool" where
  "equalFold s t \<longleftrightarrow> lower s = lower t"

lemma equalFold_refl [simp]: "equalFold s s"
  by (simp add: equalFold_def)

definition hexadecimal :: "char \<Rightarrow> bool" where
  "hexadecimal c \<longleftrightarrow> hex_digit c \<noteq> None"

definition cryptoHash :: "string \<Rightarrow> bool" where
  "cryptoHash s \<longleftrightarrow> length s = 66 \<and> take 2 s = ''0x'' \<and> list_all hexadecimal (drop 2 s)"

text \<open>\<open>common.IsHexAddress\<close>; \<open>0X\<close> is a prefix too.\<close>

definition address_digits :: "string \<Rightarrow> string" where
  "address_digits s = (if take 2 s = ''0x'' \<or> take 2 s = ''0X'' then drop 2 s else s)"

definition isHexAddress :: "string \<Rightarrow> bool" where
  "isHexAddress s \<longleftrightarrow> length (address_digits s) = 40 \<and> list_all hexadecimal (address_digits s)"

text \<open>\<open>common.HexToAddress(s) == (common.Address{})\<close> for a hex address.\<close>

definition zeroAddress :: "string \<Rightarrow> bool" where
  "zeroAddress s \<longleftrightarrow> list_all (\<lambda>c. c = CHR ''0'') (address_digits s)"

definition cryptoHexU64 :: "string \<Rightarrow> commerce_error + nat" where
  "cryptoHexU64 s =
    (case cryptoHexInt s of Inl e \<Rightarrow> Inl (Fail 409 ''chain quantity out of range'')
     | Inr v \<Rightarrow> if v \<ge> 2 ^ 64 then Inl (Fail 409 ''chain quantity out of range'') else Inr v)"

definition hex_char :: "nat \<Rightarrow> char" where
  "hex_char d = (if d < 10 then char_of (48 + d) else char_of (87 + d))"

fun hex_text :: "nat \<Rightarrow> string" where
  "hex_text n = (if n < 16 then [hex_char n] else hex_text (n div 16) @ [hex_char (n mod 16)])"

declare hex_text.simps [simp del]

text \<open>\<open>fmt.Sprintf("%064x", amount)\<close>.\<close>

definition hex64 :: "nat \<Rightarrow> string" where
  "hex64 n = replicate (64 - length (hex_text n)) (CHR ''0'') @ hex_text n"

definition cryptoTransferData :: "string \<Rightarrow> nat \<Rightarrow> string" where
  "cryptoTransferData destination amount = ''0xa9059cbb'' @ cryptoABIAddress destination @ hex64 amount"

section \<open>Receipts\<close>

record cryptoRPCLog =
  rl_Address :: string
  rl_Topics :: "string list"
  rl_Data :: string
  rl_BlockNumber :: string
  rl_BlockHash :: string
  rl_TransactionHash :: string
  rl_LogIndex :: string
  rl_Removed :: bool

record cryptoEVMLog =
  lg_Address :: string
  lg_Topics :: "string list"
  lg_Data :: string
  lg_BlockNumber :: nat
  lg_BlockHash :: string
  lg_TxHash :: string
  lg_Index :: nat
  lg_Removed :: bool

record cryptoEVMReceipt =
  rc_TxHash :: string
  rc_BlockHash :: string
  rc_BlockNumber :: nat
  rc_From :: string
  rc_To :: string
  rc_Status :: nat
  rc_Logs :: "cryptoEVMLog list"

text \<open>A receipt as the server sends it; the target is \<open>null\<close> for the creation of a contract.\<close>

record rpc_receipt =
  rr_TransactionHash :: string
  rr_BlockHash :: string
  rr_BlockNumber :: string
  rr_From :: string
  rr_To :: "string option"
  rr_Status :: string
  rr_Logs :: "cryptoRPCLog list"

definition decodeCryptoLog :: "cryptoRPCLog \<Rightarrow> commerce_error + cryptoEVMLog" where
  "decodeCryptoLog v =
    (if \<not> isHexAddress (rl_Address v) \<or> \<not> cryptoHash (rl_BlockHash v) \<or> \<not> cryptoHash (rl_TransactionHash v)
     then Inl (Fail 409 ''invalid log identity'')
     else if \<not> list_all cryptoHash (rl_Topics v) then Inl (Fail 409 ''invalid log topics'')
     else bind_res (cryptoHexU64 (rl_BlockNumber v)) (\<lambda>block.
       bind_res (cryptoHexU64 (rl_LogIndex v)) (\<lambda>index.
       Inr \<lparr>lg_Address = lower (rl_Address v), lg_Topics = map lower (rl_Topics v), lg_Data = lower (rl_Data v),
         lg_BlockNumber = block, lg_BlockHash = lower (rl_BlockHash v), lg_TxHash = lower (rl_TransactionHash v),
         lg_Index = index, lg_Removed = rl_Removed v\<rparr>)))"

text \<open>The logs of a receipt belong to it and have different indices.\<close>

fun receipt_logs :: "cryptoEVMReceipt \<Rightarrow> nat list \<Rightarrow> cryptoRPCLog list \<Rightarrow> commerce_error + cryptoEVMLog list" where
  "receipt_logs r seen [] = Inr []"
| "receipt_logs r seen (l # ls) =
    (case decodeCryptoLog l of Inl e \<Rightarrow> Inl (Fail 409 ''log differs from its receipt'')
     | Inr x \<Rightarrow>
        if lg_Removed x \<or> lg_TxHash x \<noteq> rc_TxHash r \<or> lg_BlockNumber x \<noteq> rc_BlockNumber r \<or> lg_BlockHash x \<noteq> rc_BlockHash r
          \<or> lg_Index x \<in> set seen
        then Inl (Fail 409 ''log differs from its receipt'')
        else bind_res (receipt_logs r (lg_Index x # seen) ls) (\<lambda>xs. Inr (x # xs)))"

definition decodeCryptoReceipt :: "rpc_receipt option \<Rightarrow> commerce_error + cryptoEVMReceipt option" where
  "decodeCryptoReceipt raw =
    (case raw of None \<Rightarrow> Inr None
     | Some v \<Rightarrow>
        if \<not> cryptoHash (rr_TransactionHash v) \<or> \<not> cryptoHash (rr_BlockHash v) \<or> \<not> isHexAddress (rr_From v)
        then Inl (Fail 409 ''invalid receipt'')
        else if case rr_To v of None \<Rightarrow> False | Some t \<Rightarrow> \<not> isHexAddress t then Inl (Fail 409 ''invalid receipt target'')
        else bind_res (cryptoHexU64 (rr_BlockNumber v)) (\<lambda>block.
          case cryptoHexU64 (rr_Status v) of Inl e \<Rightarrow> Inl (Fail 409 ''invalid status'')
          | Inr status \<Rightarrow>
             if status > 1 then Inl (Fail 409 ''invalid status'')
             else
               let r = \<lparr>rc_TxHash = lower (rr_TransactionHash v), rc_BlockHash = lower (rr_BlockHash v), rc_BlockNumber = block,
                     rc_From = lower (rr_From v), rc_To = lower (case rr_To v of None \<Rightarrow> [] | Some t \<Rightarrow> t),
                     rc_Status = status, rc_Logs = []\<rparr>
               in bind_res (receipt_logs r [] (rr_Logs v)) (\<lambda>logs. Inr (Some (r\<lparr>rc_Logs := logs\<rparr>)))))"

section \<open>The servers\<close>

record cryptoEVMBlock =
  bk_Number :: nat
  bk_Hash :: string
  bk_Timestamp :: nat

text \<open>A transaction as \<open>eth_getTransactionByHash\<close> shows it.\<close>

record rpc_transaction =
  rt_Hash :: string
  rt_From :: string
  rt_To :: string
  rt_Nonce :: string
  rt_Value :: string
  rt_Input :: string
  rt_BlockHash :: string
  rt_BlockNumber :: string
  rt_ChainID :: string

text \<open>
  The answers of one observation. Pairs are the answers of both servers; the estimates take whether the price is forced to
  zero or the balance of the sender is overridden.
\<close>

record chain_client =
  cl_Finalized :: "sweep_error + cryptoEVMBlock"
  cl_Latest :: "sweep_error + cryptoEVMBlock"
  cl_gasPrice :: "sweep_error + string \<times> string"
  cl_estimate :: "bool \<Rightarrow> string \<Rightarrow> string \<Rightarrow> string \<Rightarrow> nat \<Rightarrow> sweep_error + string \<times> string"
  cl_NativeBalance :: "string \<Rightarrow> nat \<Rightarrow> sweep_error + nat"
  cl_TokenBalance :: "string \<Rightarrow> string \<Rightarrow> nat \<Rightarrow> sweep_error + nat"
  cl_ValidateToken :: "string \<Rightarrow> int \<Rightarrow> nat \<Rightarrow> sweep_error + unit"
  cl_transactionCount :: "string \<Rightarrow> sweep_error + nat"
  cl_receipt :: "string \<Rightarrow> sweep_error + rpc_receipt option \<times> rpc_receipt option"
  cl_block :: "nat \<Rightarrow> sweep_error + cryptoEVMBlock"
  cl_transaction :: "string \<Rightarrow> sweep_error + rpc_transaction \<times> rpc_transaction"
  cl_Broadcast :: "string \<Rightarrow> string \<Rightarrow> sweep_error + unit"

definition rawGasPrice :: "chain_client \<Rightarrow> sweep_error + nat" where
  "rawGasPrice c =
    bind_res (cl_gasPrice c) (\<lambda>(x, y).
    bind_res (shop_res (cryptoHexInt x)) (\<lambda>p.
    bind_res (shop_res (cryptoHexInt y)) (\<lambda>q.
    if p = 0 \<or> q = 0 then refuse 409 ''invalid gas price''
    else if max p q > 2 * min p q then refuse 409 ''gas prices differ''
    else Inr (max p q))))"

definition rawEstimateGas :: "chain_client \<Rightarrow> string \<Rightarrow> string \<Rightarrow> string \<Rightarrow> nat \<Rightarrow> sweep_error + nat" where
  "rawEstimateGas c from to data amount =
    (case (case cl_estimate c False from to data amount of Inr xy \<Rightarrow> Inr xy | Inl _ \<Rightarrow> cl_estimate c True from to data amount) of
       Inl e \<Rightarrow> refuse 409 ''no gas estimate''
     | Inr (x, y) \<Rightarrow>
        bind_res (shop_res (cryptoHexU64 x)) (\<lambda>p.
        bind_res (shop_res (cryptoHexU64 y)) (\<lambda>q.
        if max p q < 21000 \<or> max p q > 800000 then refuse 409 ''gas estimate out of range'' else Inr (max p q))))"

definition estimateGas :: "chain_client \<Rightarrow> string \<Rightarrow> string \<Rightarrow> string \<Rightarrow> nat \<Rightarrow> sweep_error + nat" where
  "estimateGas c from to data amount = bind_res (rawEstimateGas c from to data amount) (\<lambda>n. Inr ((n * 110 + 99) div 100))"

definition PendingNonce :: "chain_client \<Rightarrow> string \<Rightarrow> sweep_error + nat" where
  "PendingNonce c address =
    bind_res (cl_transactionCount c address) (\<lambda>v. if v \<ge> 2 ^ 63 then refuse 409 ''nonce out of range'' else Inr v)"

definition Receipt :: "chain_client \<Rightarrow> string \<Rightarrow> sweep_error + cryptoEVMReceipt option" where
  "Receipt c hash =
    (if \<not> cryptoHash hash then refuse 409 ''invalid hash''
     else bind_res (cl_receipt c hash) (\<lambda>(a, b).
       bind_res (shop_res (decodeCryptoReceipt a)) (\<lambda>x.
       bind_res (shop_res (decodeCryptoReceipt b)) (\<lambda>y.
       if x \<noteq> y then refuse 409 ''receipts differ''
       else case x of None \<Rightarrow> Inr None
         | Some r \<Rightarrow> if rc_TxHash r \<noteq> lower hash then refuse 409 ''receipt of another transaction'' else Inr x))))"

definition FinalReceipt :: "chain_client \<Rightarrow> string \<Rightarrow> sweep_error + cryptoEVMReceipt option" where
  "FinalReceipt c hash =
    bind_res (Receipt c hash) (\<lambda>x.
    case x of None \<Rightarrow> Inr None
    | Some r \<Rightarrow>
       bind_res (cl_Finalized c) (\<lambda>f.
       if rc_BlockNumber r > bk_Number f then Inr None
       else bind_res (cl_block c (rc_BlockNumber r)) (\<lambda>b. if bk_Hash b \<noteq> rc_BlockHash r then Inl Forked else Inr (Some r))))"

section \<open>Fees\<close>

definition cryptoFeePrice :: "nat \<Rightarrow> nat \<Rightarrow> nat" where
  "cryptoFeePrice raw percent = (raw * percent + 99) div 100"

definition cryptoSweepSelectFee :: "string \<Rightarrow> string \<Rightarrow> nat \<Rightarrow> sweep_error + string \<times> nat" where
  "cryptoSweepSelectFee feeMode gasPriceAtoms raw =
    (let mode = (if trim_space feeMode = [] then ''standard'' else trim_space feeMode) in
     if mode \<noteq> ''custom'' \<and> trim_space gasPriceAtoms \<noteq> [] then refuse 400 ''price without custom mode''
     else if mode = ''economy'' then Inr (mode, cryptoFeePrice raw 100)
     else if mode = ''standard'' then Inr (mode, cryptoFeePrice raw 110)
     else if mode = ''priority'' then Inr (mode, cryptoFeePrice raw 120)
     else if mode = ''custom''
     then (case cryptoAtoms gasPriceAtoms of Inl e \<Rightarrow> refuse 400 ''custom price out of range''
       | Inr price \<Rightarrow>
          if price < raw \<or> price > cryptoFeePrice raw 125 then refuse 400 ''custom price out of range'' else Inr (mode, price))
     else refuse 400 ''unknown fee mode'')"

section \<open>Signing\<close>

text \<open>What \<open>types.Transaction\<close> decodes to; the sender is \<open>None\<close> when the signature is invalid.\<close>

record eth_transaction =
  et_legacy :: bool
  et_hash :: string
  et_chain :: int
  et_nonce :: nat
  et_gas :: nat
  et_price :: nat
  et_sender :: "string option"
  et_to :: "string option"
  et_value :: nat
  et_data :: string

record cryptoSignedTransfer =
  sg_Raw :: string
  sg_Hash :: string
  sg_From :: string

text \<open>
  Keys and codec: \<open>ky_sign\<close> derives the key of the path and signs, \<open>ky_decode\<close> reads the signed bytes. Their contract is
  that of go-ethereum: what was signed is what is decoded, and the sender is the address of the key.
\<close>

record keys =
  ky_sign :: "string \<Rightarrow> string \<Rightarrow> int \<Rightarrow> nat \<Rightarrow> nat \<Rightarrow> nat \<Rightarrow> nat \<Rightarrow> string \<Rightarrow> string \<Rightarrow> sweep_error + cryptoSignedTransfer"
  ky_decode :: "string \<Rightarrow> eth_transaction option"

definition codec_ok :: "keys \<Rightarrow> bool" where
  "codec_ok k \<longleftrightarrow> (\<forall>mnemonic path chain nonce gas price amount to data s.
     ky_sign k mnemonic path chain nonce gas price amount to data = Inr s \<longrightarrow>
     (\<exists>t target. ky_decode k (sg_Raw s) = Some t \<and> et_legacy t \<and> et_hash t = sg_Hash s \<and> et_chain t = chain \<and> et_nonce t = nonce \<and>
        et_gas t = gas \<and> et_price t = price \<and> et_sender t = Some (sg_From s) \<and> et_to t = Some target \<and> equalFold target to \<and>
        et_value t = amount \<and> et_data t = data))"

definition path_ok :: "string \<Rightarrow> bool" where
  "path_ok path \<longleftrightarrow>
    (case split_on (CHR ''/'') path of
       [m, purpose, coin, wallet, branch, index] \<Rightarrow>
         m = ''m'' \<and> purpose = [CHR ''4'', CHR ''4'', CHR 0x27] \<and> coin = [CHR ''6'', CHR ''0'', CHR 0x27] \<and>
         wallet = [CHR ''0'', CHR 0x27] \<and> (branch = ''0'' \<or> branch = ''1'') \<and>
         (case cryptoAtoms index of Inl e \<Rightarrow> False | Inr i \<Rightarrow> i < 2 ^ 31 \<and> (branch = ''1'' \<longrightarrow> i = 0))
     | _ \<Rightarrow> False)"

definition cryptoSignTransfer ::
  "keys \<Rightarrow> string \<Rightarrow> string \<Rightarrow> int \<Rightarrow> nat \<Rightarrow> nat \<Rightarrow> nat \<Rightarrow> nat \<Rightarrow> string \<Rightarrow> string \<Rightarrow> sweep_error + cryptoSignedTransfer"
where
  "cryptoSignTransfer k mnemonic path chain nonce gas price amount to data =
    (if chain \<noteq> 1 \<and> chain \<noteq> 56 \<and> chain \<noteq> 9745 then Inl (Failure ''unsupported network'')
     else if \<not> isHexAddress to \<or> zeroAddress to \<or> gas = 0 \<or> gas > 1000000 \<or> price = 0 then Inl (Failure ''invalid parameters'')
     else if \<not> path_ok path then Inl (Failure ''path outside the hot wallet'')
     else ky_sign k mnemonic path chain nonce gas price amount to data)"

end
