(* ===== verification/Sweep_Plan.thy ===== *)
theory Sweep_Plan
  imports Sweep_Chain
begin

text \<open>
  The preview of a sweep on an EVM network (\<open>crypto_sweep.go\<close>, \<open>cryptoPreviewSweep\<close>): which addresses are emptied, what
  every transfer may cost, and whether the plan can be submitted. \<open>crypto_auto_gas.go\<close> decides which addresses may
  receive gas from the funding address.
\<close>

section \<open>Tables\<close>

record CryptoChain =
  ch_ID :: string
  ch_ChainID :: int
  ch_NativeSymbol :: string
  ch_FinalityVerified :: bool

record SweepAsset =
  sa_ID :: string
  sa_ChainID :: int
  sa_Symbol :: string
  sa_Contract :: string
  sa_Decimals :: int

record CryptoPaymentSettings =
  ps_Chains :: "CryptoChain list"
  ps_Assets :: "SweepAsset list"

record CryptoWallet =
  cw_ID :: string
  cw_Mode :: string
  cw_XPub :: string
  cw_Path :: string
  cw_RecoveryRequired :: bool
  cw_BackupConfirmed :: bool
  cw_SupportedChainIDs :: "int list"

record CryptoWalletAddress =
  wa_ID :: string
  wa_WalletID :: string
  wa_Index :: int
  wa_Path :: string
  wa_Address :: string

text \<open>A row of the join of \<open>crypto_invoices\<close> with \<open>commerce_orders\<close>.\<close>

record InvoiceAddress =
  ia_AddressID :: string
  ia_WalletID :: string
  ia_Address :: string
  ia_ChainID :: int
  ia_UserID :: int
  ia_OrderUserID :: int

text \<open>Wallets and their addresses; \<open>wt_history\<close> maps a wallet id to the hash of its receive descriptor.\<close>

record WalletTables =
  wt_wallets :: "CryptoWallet list"
  wt_history :: "(string \<times> string) list"
  wt_addresses :: "CryptoWalletAddress list"
  wt_invoices :: "InvoiceAddress list"

definition cryptoWalletByID :: "WalletTables \<Rightarrow> string \<Rightarrow> sweep_error + CryptoWallet" where
  "cryptoWalletByID W i = (case row_with cw_ID i (wt_wallets W) of None \<Rightarrow> refuse 404 ''no such wallet'' | Some v \<Rightarrow> Inr v)"

definition cryptoWalletSameDescriptor :: "WalletTables \<Rightarrow> string \<Rightarrow> string \<Rightarrow> bool" where
  "cryptoWalletSameDescriptor W a b \<longleftrightarrow>
    length (filter (\<lambda>(x, y). fst x = a \<and> fst y = b \<and> snd x = snd y) (List.product (wt_history W) (wt_history W))) = 1"

text \<open>\<open>cryptoWalletOwnerScope\<close>: the wallets with the descriptor of the wallet.\<close>

definition owner_scope :: "WalletTables \<Rightarrow> string \<Rightarrow> string \<Rightarrow> bool" where
  "owner_scope W wallet i \<longleftrightarrow> list_ex (\<lambda>(k, h). k = i \<and> map_of (wt_history W) wallet = Some h) (wt_history W)"

text \<open>\<open>LIKE\<close> of SQLite ignores the case of ASCII letters.\<close>

definition solana_path :: "string \<Rightarrow> bool" where
  "solana_path path \<longleftrightarrow>
    lower (take 11 path) = ''m/44'' @ [CHR 0x27] @ ''/501'' @ [CHR 0x27, CHR ''/'']"

definition cryptoWalletNetworkAddresses :: "WalletTables \<Rightarrow> string \<Rightarrow> CryptoWalletAddress list" where
  "cryptoWalletNetworkAddresses W wallet =
    sort_key wa_Index (filter (\<lambda>x. owner_scope W wallet (wa_WalletID x) \<and> \<not> solana_path (wa_Path x)) (wt_addresses W))"

definition cryptoSweepAllowed :: "CryptoChain \<Rightarrow> sweep_error + unit" where
  "cryptoSweepAllowed c =
    (if ch_ChainID c \<noteq> 1 \<and> ch_ChainID c \<noteq> 56 \<and> ch_ChainID c \<noteq> 9745 \<and> ch_ChainID c \<noteq> cryptoSolanaChainID
     then refuse 409 ''no finality evidence''
     else if \<not> ch_FinalityVerified c then refuse 409 ''finality not verified'' else Inr ())"

definition cryptoSweepChain :: "CryptoPaymentSettings \<Rightarrow> string \<Rightarrow> sweep_error + CryptoChain" where
  "cryptoSweepChain s i = (case row_with ch_ID i (ps_Chains s) of None \<Rightarrow> refuse 400 ''unknown network'' | Some c \<Rightarrow> Inr c)"

definition cryptoSweepWallet :: "CryptoWallet \<Rightarrow> sweep_error + unit" where
  "cryptoSweepWallet v =
    (if cw_Mode v \<noteq> ''hot'' then refuse 409 ''watch only''
     else if cw_RecoveryRequired v then refuse 409 ''recovery required''
     else if \<not> cw_BackupConfirmed v then refuse 409 ''backup not confirmed'' else Inr ())"

definition cryptoWalletSupports :: "CryptoWallet \<Rightarrow> int \<Rightarrow> bool" where
  "cryptoWalletSupports v chain \<longleftrightarrow> chain \<in> set (cw_SupportedChainIDs v)"

section \<open>Who may receive gas\<close>

text \<open>The built-in assets of \<open>cryptoDefaultSettings\<close>; contracts outside Solana are kept in lower case.\<close>

definition default_asset :: "string \<Rightarrow> int \<Rightarrow> string \<Rightarrow> string \<Rightarrow> int \<Rightarrow> SweepAsset" where
  "default_asset i chain symbol contract decimals =
    \<lparr>sa_ID = i, sa_ChainID = chain, sa_Symbol = symbol, sa_Contract = (if chain = 101 then contract else lower contract), sa_Decimals = decimals\<rparr>"

definition cryptoDefaultSettings :: "SweepAsset list" where
  "cryptoDefaultSettings =
    [default_asset ''ethereum-usdt'' 1 ''USDT'' ''0xdAC17F958D2ee523a2206206994597C13D831ec7'' 6,
     default_asset ''ethereum-usdc'' 1 ''USDC'' ''0xA0b86991c6218b36c1d19D4a2e9Eb0cE3606eB48'' 6,
     default_asset ''bsc-usdt'' 56 ''USDT'' ''0x55d398326f99059fF775485246999027B3197955'' 18,
     default_asset ''bsc-usdc'' 56 ''USDC'' ''0x8AC76a51cc950d9822D68b83fE1Ad97B32Cd580d'' 18,
     default_asset ''arbitrum-usdc'' 42161 ''USDC'' ''0xaf88d065e77c8cC2239327C5EDb3A432268e5831'' 6,
     default_asset ''arbitrum-usdt0'' 42161 ''USDT0'' ''0xFd086bC7CD5C481DCC9C85ebE478A1C0b69FCbb9'' 6,
     default_asset ''op-usdc'' 10 ''USDC'' ''0x0b2C639c533813f4Aa9D7837CAf62653d097Ff85'' 6,
     default_asset ''op-usdt0'' 10 ''USDT0'' ''0x01bFF41798a0BcF287b996046Ca68b395DbC1071'' 6,
     default_asset ''base-usdc'' 8453 ''USDC'' ''0x833589fCD6eDb6E08f4c7C32D4f71b54bdA02913'' 6,
     default_asset ''plasma-usdt0'' 9745 ''USDT0'' ''0xB8CE59FC3717ada4C02eaDF9682A9e934F625ebb'' 6,
     default_asset ''plasma-usdc'' 9745 ''USDC'' ''0x2d661C89D812261039AF9764eceaAee884f5F67F'' 6,
     default_asset ''solana-usdt'' 101 ''USDT'' ''Es9vMFrzaCERmJfrF4H2FYD4KCoNkY11McCe8BenwNYB'' 6,
     default_asset ''solana-usdc'' 101 ''USDC'' ''EPjFWdd5AufqSSqeM2qN1xzybapC8G4wEGGkZwyTDt1v'' 6]"

text \<open>A tenth of a token.\<close>

definition cryptoAutoGasEligible :: "SweepAsset \<Rightarrow> nat \<Rightarrow> bool" where
  "cryptoAutoGasEligible asset balance \<longleftrightarrow>
    1 \<le> sa_Decimals asset \<and> sa_Decimals asset \<le> 18 \<and> balance > 10 ^ nat (sa_Decimals asset - 1)"

text \<open>The address belongs to an invoice of a real order on this network, and its wallet has the descriptor of the wallet.\<close>

definition cryptoAutoGasOrder :: "WalletTables \<Rightarrow> string \<Rightarrow> int \<Rightarrow> string \<Rightarrow> SweepAsset \<Rightarrow> bool" where
  "cryptoAutoGasOrder W wallet chain addressID asset \<longleftrightarrow>
    (case row_with sa_ID (sa_ID asset) cryptoDefaultSettings of None \<Rightarrow> False
     | Some approved \<Rightarrow>
        sa_ChainID asset = chain \<and> sa_ChainID approved = chain \<and> sa_Contract approved = sa_Contract asset \<and>
        sa_Decimals approved = sa_Decimals asset \<and> (sa_Symbol approved = ''USDT'' \<or> sa_Symbol approved = ''USDC'' \<or> sa_Symbol approved = ''USDT0'') \<and>
        (case (row_with wa_ID addressID (wt_addresses W), row_with ia_AddressID addressID (wt_invoices W)) of
           (Some x, Some i) \<Rightarrow>
             wa_WalletID x = ia_WalletID i \<and> ia_ChainID i = chain \<and> ia_UserID i = ia_OrderUserID i \<and>
             (if chain = cryptoSolanaChainID then wa_Address x = ia_Address i else equalFold (wa_Address x) (ia_Address i)) \<and>
             cryptoWalletSameDescriptor W (wa_WalletID x) wallet
         | _ \<Rightarrow> False))"

section \<open>The plan\<close>

record CryptoSweepPlanItem =
  it_AddressID :: string
  it_Address :: string
  it_Path :: string
  it_AmountAtoms :: string
  it_GasLimit :: nat
  it_GasPriceAtoms :: string
  it_GasFeeAtoms :: string
  it_TopupAtoms :: string
  it_FundingGasAtoms :: string
  it_FundingGasLimit :: nat

record CryptoSweepPreview =
  pv_WalletID :: string
  pv_ChainID :: string
  pv_AssetID :: string
  pv_Destination :: string
  pv_MinAtoms :: string
  pv_MaxGasAtoms :: string
  pv_CheckedAt :: int
  pv_ExpiresAt :: int
  pv_BlockNumber :: nat
  pv_FundingAddress :: string
  pv_FundingBalanceAtoms :: string
  pv_TotalAtoms :: string
  pv_TotalTopupAtoms :: string
  pv_TotalGasAtoms :: string
  pv_RequiredFundingAtoms :: string
  pv_FundingShortfallAtoms :: string
  pv_Items :: "CryptoSweepPlanItem list"
  pv_CanSubmit :: bool
  pv_FeeMode :: string
  pv_GasPriceAtoms :: string

record cryptoSweepQuote =
  qu_ActorID :: int
  qu_Preview :: CryptoSweepPreview
  qu_Chain :: CryptoChain
  qu_Asset :: SweepAsset

record cryptoSweepInput =
  in_ChainID :: string
  in_AssetID :: string
  in_Destination :: string
  in_MinAtoms :: string
  in_MaxGasAtoms :: string
  in_AddressIDs :: "string list"
  in_Quote :: string
  in_OperationID :: string
  in_FeeMode :: string
  in_GasPriceAtoms :: string

text \<open>
  The surroundings of a preview: the derivation of addresses (\<open>cryptoDeriveAddress\<close>, \<open>cryptoFundingAddress\<close> with its
  path), the checksummed form of an address, and whether the chain is frozen.
\<close>

record preview_env =
  pe_now :: int
  pe_client :: chain_client
  pe_derive :: "string \<Rightarrow> string \<Rightarrow> int \<Rightarrow> sweep_error + string"
  pe_funding :: "CryptoWallet \<Rightarrow> sweep_error + string \<times> string"
  pe_checksum :: "string \<Rightarrow> string"
  pe_frozen :: "int \<Rightarrow> bool"

definition sweep_asset :: "CryptoPaymentSettings \<Rightarrow> CryptoChain \<Rightarrow> string \<Rightarrow> sweep_error + SweepAsset" where
  "sweep_asset s chain i =
    (if i = ''native''
     then Inr \<lparr>sa_ID = ''native'', sa_ChainID = ch_ChainID chain, sa_Symbol = ch_NativeSymbol chain, sa_Contract = [], sa_Decimals = 18\<rparr>
     else case row_with sa_ID i (ps_Assets s) of None \<Rightarrow> refuse 400 ''asset of another network''
       | Some v \<Rightarrow> if sa_ChainID v \<noteq> ch_ChainID chain then refuse 400 ''asset of another network'' else Inr v)"

text \<open>An empty budget is automatic; \<open>None\<close> here.\<close>

definition sweep_budget :: "string \<Rightarrow> sweep_error + nat option" where
  "sweep_budget s =
    (if trim_space s = [] then Inr None
     else case cryptoAtoms s of Inl e \<Rightarrow> refuse 400 ''no fee budget''
       | Inr b \<Rightarrow> if b = 0 then refuse 400 ''no fee budget'' else Inr (Some b))"

definition sweep_destination :: "preview_env \<Rightarrow> CryptoPaymentSettings \<Rightarrow> string \<Rightarrow> sweep_error + string" where
  "sweep_destination env s d =
    (if \<not> isHexAddress d \<or> zeroAddress d then refuse 400 ''invalid destination''
     else if list_ex (\<lambda>token. equalFold (pe_checksum env d) (sa_Contract token)) (ps_Assets s)
     then refuse 400 ''destination is a token contract'' else Inr (pe_checksum env d))"

definition sweep_addresses :: "WalletTables \<Rightarrow> string \<Rightarrow> string list \<Rightarrow> sweep_error + CryptoWalletAddress list" where
  "sweep_addresses W wallet ids =
    (let all = cryptoWalletNetworkAddresses W wallet; selected = remdups ids in
     if length selected > 1000 then refuse 400 ''too many addresses''
     else if selected = [] then (if length (take 1001 all) > 1000 then refuse 400 ''too many addresses'' else Inr (take 1001 all))
     else let chosen = filter (\<lambda>x. wa_ID x \<in> set selected) all in
       if length chosen \<noteq> length selected then refuse 400 ''foreign address''
       else if length chosen > 1000 then refuse 400 ''too many addresses'' else Inr chosen)"

definition cryptoFullPath :: "string \<Rightarrow> int \<Rightarrow> string" where
  "cryptoFullPath path i =
    (if length (split_on (CHR ''/'') path) = 4 then path @ ''/0'' else path) @ ''/'' @ itoa i"

definition check_address :: "preview_env \<Rightarrow> CryptoWallet \<Rightarrow> string \<Rightarrow> CryptoWalletAddress \<Rightarrow> unit \<Rightarrow> sweep_error + unit" where
  "check_address env v dest x _ =
    (case pe_derive env (cw_XPub v) (cw_Path v) (wa_Index x) of Inl e \<Rightarrow> refuse 422 ''address not derived from the wallet''
     | Inr derived \<Rightarrow>
        if derived \<noteq> wa_Address x \<or> wa_Path x \<noteq> cryptoFullPath (cw_Path v) (wa_Index x)
        then refuse 422 ''address not derived from the wallet''
        else if equalFold (wa_Address x) dest then refuse 400 ''destination is a source'' else Inr ())"

text \<open>The plan of one address; \<open>None\<close> leaves it out. Servers are asked at the block of the preview.\<close>

definition plan_gas_order :: "WalletTables \<Rightarrow> string \<Rightarrow> CryptoChain \<Rightarrow> SweepAsset \<Rightarrow> CryptoWalletAddress \<Rightarrow> nat \<Rightarrow> bool" where
  "plan_gas_order W wallet chain asset x amount \<longleftrightarrow>
    sa_Contract asset \<noteq> [] \<and> cryptoAutoGasEligible asset amount \<and> cryptoAutoGasOrder W wallet (ch_ChainID chain) (wa_ID x) asset"

definition plan_address ::
  "WalletTables \<Rightarrow> chain_client \<Rightarrow> string \<Rightarrow> CryptoChain \<Rightarrow> SweepAsset \<Rightarrow> string \<Rightarrow> string \<Rightarrow> nat \<Rightarrow> nat \<Rightarrow> nat \<Rightarrow> nat \<Rightarrow>
    CryptoWalletAddress \<Rightarrow> sweep_error + CryptoSweepPlanItem option"
where
  "plan_address W c wallet chain asset dest funding block minimum raw price x =
    bind_res (cl_NativeBalance c (wa_Address x) block) (\<lambda>native.
    bind_res (if sa_Contract asset = [] then Inr native else cl_TokenBalance c (sa_Contract asset) (wa_Address x) block) (\<lambda>amount.
    if amount = 0 \<or> amount < minimum then Inr None
    else
      bind_res (if sa_Contract asset = [] then estimateGas c (wa_Address x) dest [] 1
                else estimateGas c (wa_Address x) (sa_Contract asset) (cryptoTransferData dest amount) 0) (\<lambda>gas.
      let fee = gas * price; eligible = plan_gas_order W wallet chain asset x amount; maximumFee = gas * cryptoFeePrice raw 125 in
      bind_res (if eligible \<and> native < maximumFee then estimateGas c funding (wa_Address x) [] (maximumFee - native) else Inr 0) (\<lambda>possible.
      let item = \<lparr>it_AddressID = wa_ID x, it_Address = wa_Address x, it_Path = wa_Path x, it_AmountAtoms = nat_string amount, it_GasLimit = gas,
            it_GasPriceAtoms = nat_string price, it_GasFeeAtoms = nat_string fee, it_TopupAtoms = ''0'', it_FundingGasAtoms = ''0'',
            it_FundingGasLimit = 0\<rparr>
      in if sa_Contract asset = []
         then (if amount \<le> fee \<or> amount - fee < minimum then Inr None else Inr (Some (item\<lparr>it_AmountAtoms := nat_string (amount - fee)\<rparr>)))
         else if native < fee
         then (if \<not> eligible then Inr None
               else Inr (Some (item\<lparr>it_TopupAtoms := nat_string (fee - native), it_FundingGasAtoms := nat_string (possible * price),
                      it_FundingGasLimit := possible\<rparr>)))
         else Inr (Some item)))))"

fun plan_addresses :: "(CryptoWalletAddress \<Rightarrow> sweep_error + CryptoSweepPlanItem option) \<Rightarrow> CryptoWalletAddress list \<Rightarrow> sweep_error + CryptoSweepPlanItem list" where
  "plan_addresses f [] = Inr []"
| "plan_addresses f (x # xs) =
    bind_res (f x) (\<lambda>p. bind_res (plan_addresses f xs) (\<lambda>ps. Inr (case p of None \<Rightarrow> ps | Some i \<Rightarrow> i # ps)))"

text \<open>The sums of the plan; a text that is no amount is a nil pointer in \<open>big.Int.Add\<close>.\<close>

record plan_totals =
  pt_total :: nat
  pt_topups :: nat
  pt_fees :: nat
  pt_fundFees :: nat

definition atoms_or_panic :: "string \<Rightarrow> sweep_error + nat" where
  "atoms_or_panic s = (case cryptoAtoms s of Inl e \<Rightarrow> Inl (Failure ''nil pointer'') | Inr n \<Rightarrow> Inr n)"

definition add_item :: "CryptoSweepPlanItem \<Rightarrow> plan_totals \<Rightarrow> sweep_error + plan_totals" where
  "add_item i t =
    bind_res (atoms_or_panic (it_AmountAtoms i)) (\<lambda>amount.
    bind_res (atoms_or_panic (it_TopupAtoms i)) (\<lambda>topup.
    bind_res (atoms_or_panic (it_GasFeeAtoms i)) (\<lambda>fee.
    bind_res (atoms_or_panic (it_FundingGasAtoms i)) (\<lambda>fundFee.
    Inr \<lparr>pt_total = pt_total t + amount, pt_topups = pt_topups t + topup, pt_fees = pt_fees t + fee + fundFee,
      pt_fundFees = pt_fundFees t + fundFee\<rparr>))))"

definition plan_sums :: "CryptoSweepPlanItem list \<Rightarrow> sweep_error + plan_totals" where
  "plan_sums items = fold_res add_item items \<lparr>pt_total = 0, pt_topups = 0, pt_fees = 0, pt_fundFees = 0\<rparr>"

definition make_preview ::
  "preview_env \<Rightarrow> string \<Rightarrow> CryptoChain \<Rightarrow> SweepAsset \<Rightarrow> string \<Rightarrow> nat \<Rightarrow> nat option \<Rightarrow> nat \<Rightarrow> string \<Rightarrow> nat \<Rightarrow> string \<Rightarrow> nat \<Rightarrow>
    CryptoSweepPlanItem list \<Rightarrow> plan_totals \<Rightarrow> CryptoSweepPreview"
where
  "make_preview env wallet chain asset dest minimum budget block funding fundBalance mode price items t =
    (let limit = (case budget of None \<Rightarrow> pt_fees t | Some b \<Rightarrow> b); required = pt_topups t + pt_fundFees t in
     \<lparr>pv_WalletID = wallet, pv_ChainID = ch_ID chain, pv_AssetID = sa_ID asset, pv_Destination = dest, pv_MinAtoms = nat_string minimum,
      pv_MaxGasAtoms = nat_string limit, pv_CheckedAt = pe_now env, pv_ExpiresAt = pe_now env + 120, pv_BlockNumber = block,
      pv_FundingAddress = funding, pv_FundingBalanceAtoms = nat_string fundBalance, pv_TotalAtoms = nat_string (pt_total t),
      pv_TotalTopupAtoms = nat_string (pt_topups t), pv_TotalGasAtoms = nat_string (pt_fees t),
      pv_RequiredFundingAtoms = nat_string required, pv_FundingShortfallAtoms = nat_string (required - fundBalance), pv_Items = items,
      pv_CanSubmit = (items \<noteq> [] \<and> pt_fees t \<le> limit \<and> required \<le> fundBalance), pv_FeeMode = mode, pv_GasPriceAtoms = nat_string price\<rparr>)"

definition cryptoPreviewSweep ::
  "preview_env \<Rightarrow> WalletTables \<Rightarrow> CryptoPaymentSettings \<Rightarrow> int \<Rightarrow> string \<Rightarrow> cryptoSweepInput \<Rightarrow> sweep_error + cryptoSweepQuote"
where
  "cryptoPreviewSweep env W s actor wallet inp =
    bind_res (cryptoWalletByID W wallet) (\<lambda>v.
    bind_res (cryptoSweepWallet v) (\<lambda>_.
    bind_res (cryptoSweepChain s (in_ChainID inp)) (\<lambda>chain.
    bind_res (if cryptoWalletSupports v (ch_ChainID chain) then Inr () else refuse 409 ''network not selected'') (\<lambda>_.
    bind_res (cryptoSweepAllowed chain) (\<lambda>_.
    bind_res (if ch_ChainID chain = cryptoSolanaChainID then Inl (Failure ''solana preview'') else Inr ()) (\<lambda>_.
    bind_res (sweep_asset s chain (in_AssetID inp)) (\<lambda>asset.
    bind_res (shop_res (cryptoAtoms (in_MinAtoms inp))) (\<lambda>minimum.
    bind_res (sweep_budget (in_MaxGasAtoms inp)) (\<lambda>budget.
    bind_res (sweep_destination env s (in_Destination inp)) (\<lambda>dest.
    bind_res (if pe_frozen env (ch_ChainID chain) then refuse 409 ''chain frozen'' else Inr ()) (\<lambda>_.
    bind_res (cl_Finalized (pe_client env)) (\<lambda>block.
    bind_res (if sa_Contract asset = [] then Inr ()
              else cl_ValidateToken (pe_client env) (sa_Contract asset) (sa_Decimals asset) (bk_Number block)) (\<lambda>_.
    bind_res (pe_funding env v) (\<lambda>(funding, fundingPath).
    bind_res (if equalFold dest funding then refuse 400 ''destination is the funding address'' else Inr ()) (\<lambda>_.
    bind_res (sweep_addresses W wallet (in_AddressIDs inp)) (\<lambda>addresses.
    bind_res (fold_res (check_address env v dest) addresses ()) (\<lambda>_.
    bind_res (rawGasPrice (pe_client env)) (\<lambda>raw.
    bind_res (cryptoSweepSelectFee (in_FeeMode inp) (in_GasPriceAtoms inp) raw) (\<lambda>(mode, price).
    bind_res (cl_NativeBalance (pe_client env) funding (bk_Number block)) (\<lambda>fundBalance.
    bind_res (plan_addresses (plan_address W (pe_client env) wallet chain asset dest funding (bk_Number block) minimum raw price) addresses) (\<lambda>items.
    bind_res (plan_sums items) (\<lambda>t.
    Inr \<lparr>qu_ActorID = actor,
      qu_Preview = make_preview env wallet chain asset dest minimum budget (bk_Number block) funding fundBalance mode price items t,
      qu_Chain = chain, qu_Asset = asset\<rparr>))))))))))))))))))))))"

end
