(* ===== verification/Sweep_Store.thy ===== *)
theory Sweep_Store
  imports Sweep_Plan
begin

text \<open>
  The tables of sweeps and the checks over them: what a signed transaction must say (\<open>cryptoValidateSignedIntent\<close>), that it is
  within the approved plan (\<open>cryptoTransactionMatchesPlan\<close>), the evidence of a final state, and the check of all jobs at
  startup (\<open>crypto_sweep_integrity.go\<close>).
\<close>

section \<open>Tables\<close>

record CryptoSweepReceiptProof =
  rp_TransactionID :: string
  rp_JobID :: string
  rp_ItemID :: string
  rp_ChainID :: int
  rp_Receipt :: cryptoEVMReceipt

record cryptoChainTransaction =
  ct_ID :: string
  ct_JobID :: string
  ct_ItemID :: string
  ct_Kind :: string
  ct_ChainID :: int
  ct_From :: string
  ct_To :: string
  ct_Token :: string
  ct_Amount :: string
  ct_Nonce :: nat
  ct_Hash :: string
  ct_Raw :: string
  ct_GasLimit :: nat
  ct_GasPrice :: string
  ct_State :: string
  ct_Error :: string
  ct_BlockNumber :: nat
  ct_BlockHash :: string
  ct_Receipt :: "CryptoSweepReceiptProof option"
  ct_Updated :: int

record SweepItem =
  si_ID :: string
  si_JobID :: string
  si_AddressID :: string
  si_Address :: string
  si_Path :: string
  si_Amount :: string
  si_GasNeeded :: string
  si_State :: string
  si_Error :: string

text \<open>\<open>sj_Quote\<close> is the sealed quote (column \<open>config\<close>), \<open>sj_Doc\<close> the preview in clear.\<close>

record SweepJob =
  sj_ID :: string
  sj_ActorID :: int
  sj_OperationID :: string
  sj_Fingerprint :: string
  sj_WalletID :: string
  sj_ChainID :: int
  sj_AssetID :: string
  sj_Destination :: string
  sj_MinAtoms :: string
  sj_MaxGasAtoms :: string
  sj_State :: string
  sj_Doc :: CryptoSweepPreview
  sj_Quote :: string
  sj_Error :: string
  sj_LeaseToken :: string
  sj_LeaseUntil :: int
  sj_Created :: int
  sj_Updated :: int

record SweepStore =
  ss_jobs :: "SweepJob list"
  ss_items :: "SweepItem list"
  ss_txs :: "cryptoChainTransaction list"
  ss_frozen :: "(int \<times> bool) list"
  ss_tables :: WalletTables

text \<open>What the operations share: the vault, the digest, the codec and the funding address of a wallet.\<close>

record sweep_vault =
  va_open :: "string \<Rightarrow> cryptoSweepQuote option"
  va_digest :: "string \<Rightarrow> string"
  va_keys :: keys
  va_funding :: "CryptoWallet \<Rightarrow> sweep_error + string \<times> string"
  va_mnemonic :: "CryptoWallet \<Rightarrow> sweep_error + string"

section \<open>Signed transactions\<close>

text \<open>Where the transaction goes on the chain: a token transfer is a call of the token.\<close>

definition tx_target :: "cryptoChainTransaction \<Rightarrow> string" where
  "tx_target v = (if ct_Token v \<noteq> [] then ct_Token v else ct_To v)"

definition cryptoValidateSignedIntent :: "keys \<Rightarrow> cryptoChainTransaction \<Rightarrow> sweep_error + eth_transaction" where
  "cryptoValidateSignedIntent k v =
    (case ky_decode k (ct_Raw v) of None \<Rightarrow> refuse 422 ''stored transaction invalid''
     | Some t \<Rightarrow>
        if \<not> et_legacy t \<or> et_hash t \<noteq> ct_Hash v \<or> et_chain t \<noteq> ct_ChainID v \<or> et_nonce t \<noteq> ct_Nonce v \<or>
          et_gas t \<noteq> ct_GasLimit v \<or> nat_string (et_price t) \<noteq> ct_GasPrice v
        then refuse 422 ''stored transaction invalid''
        else if (case et_sender t of None \<Rightarrow> True | Some s \<Rightarrow> \<not> equalFold s (ct_From v)) then refuse 422 ''sender differs''
        else if (case et_to t of None \<Rightarrow> True | Some s \<Rightarrow> \<not> equalFold s (tx_target v)) then refuse 422 ''target differs''
        else bind_res (shop_res (cryptoAtoms (ct_Amount v))) (\<lambda>amount.
          if ct_Token v = []
          then (if et_value t \<noteq> amount \<or> et_data t \<noteq> [] then refuse 422 ''amount differs'' else Inr t)
          else if et_value t \<noteq> 0 \<or> ''0x'' @ et_data t \<noteq> cryptoTransferData (ct_To v) amount then refuse 422 ''token parameters differ''
          else Inr t))"

definition gas_matches :: "cryptoChainTransaction \<Rightarrow> cryptoSweepQuote \<Rightarrow> CryptoSweepPlanItem \<Rightarrow> bool" where
  "gas_matches v quote plan \<longleftrightarrow>
    (case (cryptoAtoms (ct_Amount v), cryptoAtoms (it_TopupAtoms plan)) of
       (Inr amount, Inr approved) \<Rightarrow>
         0 < amount \<and> amount \<le> approved \<and> ct_GasLimit v = it_FundingGasLimit plan \<and> ct_Token v = [] \<and>
         equalFold (ct_From v) (pv_FundingAddress (qu_Preview quote)) \<and> equalFold (ct_To v) (it_Address plan)
     | _ \<Rightarrow> False)"

definition sweep_matches :: "cryptoChainTransaction \<Rightarrow> cryptoSweepQuote \<Rightarrow> CryptoSweepPlanItem \<Rightarrow> bool" where
  "sweep_matches v quote plan \<longleftrightarrow>
    ct_Kind v = ''sweep'' \<and> ct_Amount v = it_AmountAtoms plan \<and> ct_GasLimit v = it_GasLimit plan \<and>
    equalFold (ct_From v) (it_Address plan) \<and> equalFold (ct_To v) (pv_Destination (qu_Preview quote)) \<and>
    equalFold (ct_Token v) (sa_Contract (qu_Asset quote))"

definition cryptoTransactionMatchesPlan :: "cryptoChainTransaction \<Rightarrow> cryptoSweepQuote \<Rightarrow> CryptoSweepPlanItem \<Rightarrow> sweep_error + unit" where
  "cryptoTransactionMatchesPlan v quote plan =
    (if ct_ChainID v \<noteq> ch_ChainID (qu_Chain quote) \<or> ct_GasPrice v \<noteq> it_GasPriceAtoms plan then refuse 422 ''network or fee not approved''
     else if ct_Kind v = ''gas''
     then (if gas_matches v quote plan then Inr () else refuse 422 ''gas beyond the approved top-up'')
     else if sweep_matches v quote plan then Inr () else refuse 422 ''target or amount not approved'')"

section \<open>Evidence of a final state\<close>

definition final_state :: "string \<Rightarrow> bool" where
  "final_state s \<longleftrightarrow> s = ''confirmed'' \<or> s = ''reverted''"

text \<open>A token transfer of the transaction among the logs of its receipt.\<close>

definition own_transfer :: "cryptoChainTransaction \<Rightarrow> cryptoEVMLog \<Rightarrow> bool" where
  "own_transfer v l \<longleftrightarrow> length (lg_Topics l) = 3 \<and> lg_Topics l ! 0 = cryptoTransferTopic \<and>
    lg_Topics l ! 1 = ''0x'' @ cryptoABIAddress (ct_From v) \<and> lg_Topics l ! 2 = ''0x'' @ cryptoABIAddress (ct_To v)"

fun check_logs :: "cryptoChainTransaction \<Rightarrow> cryptoEVMReceipt \<Rightarrow> nat list \<Rightarrow> nat \<Rightarrow> cryptoEVMLog list \<Rightarrow> nat option" where
  "check_logs v r seen n [] = Some n"
| "check_logs v r seen n (l # ls) =
    (if lg_Removed l \<or> lg_TxHash l \<noteq> rc_TxHash r \<or> lg_BlockHash l \<noteq> rc_BlockHash r \<or> lg_BlockNumber l \<noteq> rc_BlockNumber r
       \<or> lg_Index l \<in> set seen
     then None
     else if rc_Status r = 1 \<and> ct_Token v \<noteq> [] \<and> equalFold (lg_Address l) (ct_Token v) \<and> own_transfer v l
     then (case cryptoHexInt (lg_Data l) of Inl e \<Rightarrow> None
       | Inr amount \<Rightarrow> if nat_string amount \<noteq> ct_Amount v then None else check_logs v r (lg_Index l # seen) (Suc n) ls)
     else check_logs v r (lg_Index l # seen) n ls)"

definition validateCryptoSweepReceipt :: "cryptoChainTransaction \<Rightarrow> bool" where
  "validateCryptoSweepReceipt v \<longleftrightarrow>
    (if \<not> final_state (ct_State v)
     then (ct_State v = ''signed'' \<or> ct_State v = ''pending'') \<and> ct_BlockNumber v = 0 \<and> ct_BlockHash v = [] \<and> ct_Receipt v = None
     else case ct_Receipt v of None \<Rightarrow> False
       | Some p \<Rightarrow>
          (let r = rp_Receipt p in
           rp_TransactionID p = ct_ID v \<and> rp_JobID p = ct_JobID v \<and> rp_ItemID p = ct_ItemID v \<and> rp_ChainID p = ct_ChainID v \<and>
           rc_BlockNumber r = ct_BlockNumber v \<and> rc_BlockHash r = ct_BlockHash v \<and> cryptoHash (ct_BlockHash v) \<and>
           equalFold (rc_TxHash r) (ct_Hash v) \<and> equalFold (rc_From r) (ct_From v) \<and> equalFold (rc_To r) (tx_target v) \<and>
           rc_Status r \<le> 1 \<and> (ct_State v = ''confirmed'' \<longleftrightarrow> rc_Status r = 1) \<and>
           (case check_logs v r [] 0 (rc_Logs r) of None \<Rightarrow> False
            | Some n \<Rightarrow> rc_Status r = 1 \<and> ct_Token v \<noteq> [] \<longrightarrow> n = 1)))"

section \<open>The startup check\<close>

definition plan_for :: "CryptoSweepPreview \<Rightarrow> string \<Rightarrow> CryptoSweepPlanItem option" where
  "plan_for p address = row_with it_AddressID address (pv_Items p)"

definition item_txs :: "SweepStore \<Rightarrow> string \<Rightarrow> string \<Rightarrow> cryptoChainTransaction option" where
  "item_txs S item kind = find (\<lambda>t. ct_ItemID t = item \<and> ct_Kind t = kind) (ss_txs S)"

definition lease_ok :: "SweepJob \<Rightarrow> bool" where
  "lease_ok j \<longleftrightarrow>
    (if sj_State j \<in> {''queued'', ''waiting'', ''complete'', ''failed'', ''review_required'', ''fee_review_required'', ''cancelled''}
     then sj_LeaseToken j = [] \<and> sj_LeaseUntil j = 0
     else sj_State j = ''running'' \<and> sj_LeaseToken j \<noteq> [] \<and> sj_LeaseUntil j > 0)"

text \<open>
  The funding address of a wallet is the one \<open>cryptoFunding\<close> derives, which \<open>cryptoEnsureFunding\<close> stores at first use; the
  stored rows, their own check and the rows of deleted wallets are not part of the model.
\<close>

definition quote_agrees :: "sweep_vault \<Rightarrow> SweepStore \<Rightarrow> SweepJob \<Rightarrow> cryptoSweepQuote \<Rightarrow> bool" where
  "quote_agrees A S j q \<longleftrightarrow>
    (let p = qu_Preview q in
     sj_Doc j = p \<and> pv_CanSubmit p \<and> pv_Items p \<noteq> [] \<and> length (pv_Items p) \<le> 1000 \<and>
     qu_ActorID q = sj_ActorID j \<and> sj_Fingerprint j = va_digest A (sj_WalletID j @ ''|'' @ sj_Quote j) \<and>
     valid_operation (sj_OperationID j) \<and> pv_WalletID p = sj_WalletID j \<and> ch_ChainID (qu_Chain q) = sj_ChainID j \<and>
     pv_ChainID p = ch_ID (qu_Chain q) \<and> sa_ID (qu_Asset q) = sj_AssetID j \<and> pv_AssetID p = sj_AssetID j \<and>
     sa_ChainID (qu_Asset q) = sj_ChainID j \<and> pv_Destination p = sj_Destination j \<and> pv_MinAtoms p = sj_MinAtoms j \<and>
     pv_MaxGasAtoms p = sj_MaxGasAtoms j \<and>
     (case cryptoWalletByID (ss_tables S) (sj_WalletID j) of Inl e \<Rightarrow> False
      | Inr w \<Rightarrow> (case va_funding A w of Inl e \<Rightarrow> False | Inr (f, path) \<Rightarrow> f \<noteq> [] \<and> pv_FundingAddress p = f)) \<and>
     cryptoSweepAllowed (qu_Chain q) = Inr () \<and> 0 < sj_Created j \<and> sj_Created j \<le> sj_Updated j \<and>
     pv_CheckedAt p \<le> sj_Created j \<and> sj_Created j \<le> pv_ExpiresAt p \<and> pv_CheckedAt p < pv_ExpiresAt p)"

definition plan_owned :: "WalletTables \<Rightarrow> string \<Rightarrow> CryptoSweepPlanItem \<Rightarrow> bool" where
  "plan_owned W wallet i \<longleftrightarrow>
    (case row_with wa_ID (it_AddressID i) (wt_addresses W) of None \<Rightarrow> False
     | Some x \<Rightarrow> cryptoWalletSameDescriptor W (wa_WalletID x) wallet \<and> wa_Address x = it_Address i \<and> wa_Path x = it_Path i)"

definition item_planned :: "CryptoSweepPreview \<Rightarrow> SweepItem \<Rightarrow> bool" where
  "item_planned p i \<longleftrightarrow>
    (case plan_for p (si_AddressID i) of None \<Rightarrow> False
     | Some plan \<Rightarrow> it_Address plan = si_Address i \<and> it_Path plan = si_Path i \<and> it_AmountAtoms plan = si_Amount i \<and>
         it_TopupAtoms plan = si_GasNeeded i)"

definition tx_approved :: "sweep_vault \<Rightarrow> SweepStore \<Rightarrow> cryptoSweepQuote \<Rightarrow> cryptoChainTransaction \<Rightarrow> bool" where
  "tx_approved A S q v \<longleftrightarrow>
    (case find (\<lambda>i. si_ID i = ct_ItemID v \<and> si_JobID i = ct_JobID v) (ss_items S) of None \<Rightarrow> False
     | Some i \<Rightarrow>
        (case plan_for (qu_Preview q) (si_AddressID i) of None \<Rightarrow> False
         | Some plan \<Rightarrow> (case cryptoValidateSignedIntent (va_keys A) v of Inl e \<Rightarrow> False | Inr t \<Rightarrow> True) \<and>
             cryptoTransactionMatchesPlan v q plan = Inr () \<and> validateCryptoSweepReceipt v))"

text \<open>The state of an item against its transactions.\<close>

definition item_state_ok :: "SweepJob \<Rightarrow> SweepItem \<Rightarrow> cryptoChainTransaction option \<Rightarrow> cryptoChainTransaction option \<Rightarrow> bool" where
  "item_state_ok j i gas sweep \<longleftrightarrow>
    (sweep \<noteq> None \<and> gas \<noteq> None \<longrightarrow> ct_State (the gas) = ''confirmed'') \<and>
    (if si_State i = ''queued'' then gas = None \<and> sweep = None
     else if si_State i = ''gas_pending'' then gas \<noteq> None \<and> ct_State (the gas) \<noteq> ''reverted'' \<and> sweep = None
     else if si_State i = ''sweep_pending'' then sweep \<noteq> None \<and> (ct_State (the sweep) = ''signed'' \<or> ct_State (the sweep) = ''pending'')
     else if si_State i = ''complete'' then sweep \<noteq> None \<and> ct_State (the sweep) = ''confirmed''
     else if si_State i = ''failed''
     then (gas \<noteq> None \<and> ct_State (the gas) = ''reverted'') \<or> (sweep \<noteq> None \<and> ct_State (the sweep) = ''reverted'')
     else False) \<and>
    (sj_State j = ''complete'' \<longrightarrow> si_State i = ''complete'') \<and> (sj_State j = ''queued'' \<longrightarrow> si_State i = ''queued'') \<and>
    (sj_State j = ''cancelled'' \<longrightarrow> (\<forall>t \<in> set_option gas \<union> set_option sweep. final_state (ct_State t)))"

definition validateCryptoSweepJob :: "sweep_vault \<Rightarrow> SweepStore \<Rightarrow> SweepJob \<Rightarrow> bool" where
  "validateCryptoSweepJob A S j \<longleftrightarrow>
    (case va_open A (sj_Quote j) of None \<Rightarrow> False
     | Some q \<Rightarrow>
        (let items = filter (\<lambda>i. si_JobID i = sj_ID j) (ss_items S); txs = filter (\<lambda>t. ct_JobID t = sj_ID j) (ss_txs S) in
         quote_agrees A S j q \<and> lease_ok j \<and> distinct (map it_AddressID (pv_Items (qu_Preview q))) \<and>
         list_all (plan_owned (ss_tables S) (sj_WalletID j)) (pv_Items (qu_Preview q)) \<and>
         list_all (item_planned (qu_Preview q)) items \<and> length (remdups (map si_ID items)) = length (pv_Items (qu_Preview q)) \<and>
         list_all (tx_approved A S q) txs \<and> distinct (map (\<lambda>t. (ct_ItemID t, ct_Kind t)) txs) \<and>
         list_all (\<lambda>i. item_state_ok j i (item_txs S (si_ID i) ''gas'') (item_txs S (si_ID i) ''sweep'')) items))"

definition tx_key :: "cryptoChainTransaction \<Rightarrow> int \<times> string \<times> nat" where
  "tx_key t = (ct_ChainID t, lower (ct_From t), ct_Nonce t)"

definition validateCryptoSweeps :: "sweep_vault \<Rightarrow> SweepStore \<Rightarrow> bool" where
  "validateCryptoSweeps A S \<longleftrightarrow>
    list_all (\<lambda>i. row_with sj_ID (si_JobID i) (ss_jobs S) \<noteq> None) (ss_items S) \<and>
    list_all (\<lambda>t. case row_with si_ID (ct_ItemID t) (ss_items S) of None \<Rightarrow> False | Some i \<Rightarrow> si_JobID i = ct_JobID t) (ss_txs S) \<and>
    distinct (map tx_key (ss_txs S)) \<and> list_all (validateCryptoSweepJob A S) (ss_jobs S)"

end
