(* ===== verification/Sweep_Worker.thy ===== *)
theory Sweep_Worker
  imports Sweep_Store Row_Order
begin

text \<open>
  Sweeps in operation (\<open>crypto_sweep.go\<close>, \<open>crypto_sweep_worker.go\<close>): a quote becomes a job, a worker claims the job under
  a lease, stages one signed transaction at a time, replays it until the chain has it in a final block, and completes the
  job. An administrator retries or cancels. Only EVM networks are modelled; Solana has a worker of its own.
\<close>

section \<open>Chains\<close>

definition chain_frozen :: "int \<Rightarrow> SweepStore \<Rightarrow> bool" where
  "chain_frozen chain S \<longleftrightarrow> map_of (ss_frozen S) chain = Some True"

definition sweepChainAvailable :: "int \<Rightarrow> SweepStore \<Rightarrow> sweep_error + unit" where
  "sweepChainAvailable chain S = (if chain_frozen chain S then refuse 409 ''chain frozen'' else Inr ())"

definition sweepLockChain :: "int \<Rightarrow> SweepStore \<Rightarrow> sweep_error + SweepStore" where
  "sweepLockChain chain S =
    (case map_of (ss_frozen S) chain of
       None \<Rightarrow> Inr (S\<lparr>ss_frozen := ss_frozen S @ [(chain, False)]\<rparr>)
     | Some frozen \<Rightarrow> if frozen then Inl Forked else Inr S)"

definition sweepFreezeChain :: "int \<Rightarrow> SweepStore \<Rightarrow> SweepStore" where
  "sweepFreezeChain chain S =
    (if map_of (ss_frozen S) chain = None then S\<lparr>ss_frozen := ss_frozen S @ [(chain, True)]\<rparr>
     else S\<lparr>ss_frozen := set_where (\<lambda>e. fst e = chain) (\<lambda>e. (fst e, True)) (ss_frozen S)\<rparr>)"

section \<open>A quote becomes a job\<close>

definition ended :: "string \<Rightarrow> bool" where
  "ended s \<longleftrightarrow> s = ''complete'' \<or> s = ''cancelled''"

definition new_item :: "string \<Rightarrow> (string \<Rightarrow> string) \<Rightarrow> CryptoSweepPlanItem \<Rightarrow> SweepItem" where
  "new_item job serial x =
    \<lparr>si_ID = serial (it_AddressID x), si_JobID = job, si_AddressID = it_AddressID x, si_Address = it_Address x, si_Path = it_Path x,
     si_Amount = it_AmountAtoms x, si_GasNeeded = it_TopupAtoms x, si_State = ''queued'', si_Error = []\<rparr>"

definition insert_item :: "SweepItem \<Rightarrow> SweepItem list \<Rightarrow> sweep_error + SweepItem list" where
  "insert_item i items =
    (if list_ex (\<lambda>x. si_ID x = si_ID i \<or> (si_JobID x = si_JobID i \<and> si_AddressID x = si_AddressID i)) items
     then Inl (Declined (Unique ''crypto_sweep_items'')) else Inr (items @ [i]))"

definition new_job :: "sweep_vault \<Rightarrow> int \<Rightarrow> string \<Rightarrow> cryptoSweepInput \<Rightarrow> cryptoSweepQuote \<Rightarrow> SweepJob" where
  "new_job A now job inp q =
    (let p = qu_Preview q in
     \<lparr>sj_ID = job, sj_ActorID = qu_ActorID q, sj_OperationID = in_OperationID inp,
      sj_Fingerprint = va_digest A (pv_WalletID p @ ''|'' @ in_Quote inp), sj_WalletID = pv_WalletID p,
      sj_ChainID = ch_ChainID (qu_Chain q), sj_AssetID = sa_ID (qu_Asset q), sj_Destination = pv_Destination p,
      sj_MinAtoms = pv_MinAtoms p, sj_MaxGasAtoms = pv_MaxGasAtoms p, sj_State = ''queued'', sj_Doc = p, sj_Quote = in_Quote inp,
      sj_Error = [], sj_LeaseToken = [], sj_LeaseUntil = 0, sj_Created = now, sj_Updated = now\<rparr>)"

text \<open>The serial number of an item is drawn for its address.\<close>

definition insert_sweep ::
  "sweep_vault \<Rightarrow> int \<Rightarrow> string \<Rightarrow> (string \<Rightarrow> string) \<Rightarrow> cryptoSweepInput \<Rightarrow> cryptoSweepQuote \<Rightarrow> SweepStore \<Rightarrow> sweep_error + string \<times> SweepStore"
where
  "insert_sweep A now job serial inp q S =
    (if list_ex (\<lambda>j. sj_ID j = job) (ss_jobs S) then Inl (Declined (Unique ''crypto_sweep_jobs''))
     else bind_res (fold_res insert_item (map (new_item job serial) (pv_Items (qu_Preview q))) (ss_items S)) (\<lambda>items.
       Inr (job, S\<lparr>ss_jobs := ss_jobs S @ [new_job A now job inp q], ss_items := items\<rparr>)))"

definition cryptoCreateSweep ::
  "sweep_vault \<Rightarrow> int \<Rightarrow> string \<Rightarrow> (string \<Rightarrow> string) \<Rightarrow> int \<Rightarrow> string \<Rightarrow> cryptoSweepInput \<Rightarrow> SweepStore \<Rightarrow> sweep_error + string \<times> SweepStore"
where
  "cryptoCreateSweep A now job serial actor wallet inp S =
    (if \<not> valid_operation (in_OperationID inp) then refuse 400 ''no operation id''
     else let fingerprint = va_digest A (wallet @ ''|'' @ in_Quote inp) in
     case va_open A (in_Quote inp) of None \<Rightarrow> refuse 400 ''invalid preview''
     | Some q \<Rightarrow>
        if qu_ActorID q \<noteq> actor \<or> pv_WalletID (qu_Preview q) \<noteq> wallet \<or> pv_Items (qu_Preview q) = [] \<or> \<not> pv_CanSubmit (qu_Preview q)
        then refuse 400 ''invalid preview''
        else bind_res (sweepLockChain (ch_ChainID (qu_Chain q)) S) (\<lambda>S0.
          case row_with sj_OperationID (in_OperationID inp) (ss_jobs S0) of
            Some j \<Rightarrow> if sj_ActorID j \<noteq> actor \<or> sj_Fingerprint j \<noteq> fingerprint then refuse 409 ''operation id used'' else Inr (sj_ID j, S0)
          | None \<Rightarrow>
              (case find (\<lambda>j. sj_ActorID j = actor \<and> sj_Fingerprint j = fingerprint) (ss_jobs S0) of
                 Some j \<Rightarrow> Inr (sj_ID j, S0)
               | None \<Rightarrow>
                  if pv_ExpiresAt (qu_Preview q) < now then refuse 409 ''preview expired''
                  else bind_res (cryptoSweepAllowed (qu_Chain q)) (\<lambda>_.
                    bind_res (cryptoWalletByID (ss_tables S0) wallet) (\<lambda>v.
                    if \<not> cryptoWalletSupports v (ch_ChainID (qu_Chain q)) then refuse 409 ''network not selected''
                    else bind_res (cryptoSweepWallet v) (\<lambda>_.
                      if list_ex (\<lambda>j. sj_WalletID j = wallet \<and> sj_ChainID j = ch_ChainID (qu_Chain q) \<and> \<not> ended (sj_State j)) (ss_jobs S0)
                      then refuse 409 ''a sweep is active''
                      else insert_sweep A now job serial inp q S0))))))"

section \<open>Leases\<close>

definition claimable :: "int \<Rightarrow> SweepJob \<Rightarrow> bool" where
  "claimable now j \<longleftrightarrow> sj_State j \<in> {''queued'', ''running'', ''waiting''} \<and> sj_LeaseUntil j \<le> now"

definition set_job :: "(SweepJob \<Rightarrow> bool) \<Rightarrow> (SweepJob \<Rightarrow> SweepJob) \<Rightarrow> SweepStore \<Rightarrow> SweepStore" where
  "set_job p f S = S\<lparr>ss_jobs := set_where p f (ss_jobs S)\<rparr>"

definition cryptoSweepClaim :: "int \<Rightarrow> string \<Rightarrow> SweepStore \<Rightarrow> (string \<times> SweepStore) option" where
  "cryptoSweepClaim now token S =
    (case first_row (\<lambda>j. Rank (sj_Updated j) (sj_ID j)) (filter (claimable now) (ss_jobs S)) of
       None \<Rightarrow> None
     | Some j \<Rightarrow> Some (sj_ID j, set_job (\<lambda>x. sj_ID x = sj_ID j)
         (\<lambda>x. x\<lparr>sj_State := ''running'', sj_LeaseToken := token, sj_LeaseUntil := now + 120, sj_Updated := now\<rparr>) S))"

definition holds_lease :: "string \<Rightarrow> string \<Rightarrow> int \<Rightarrow> SweepJob \<Rightarrow> bool" where
  "holds_lease i token now j \<longleftrightarrow> sj_ID j = i \<and> sj_LeaseToken j = token \<and> sj_LeaseUntil j > now \<and> sj_State j = ''running''"

definition cryptoCheckSweepLease :: "string \<Rightarrow> string \<Rightarrow> int \<Rightarrow> SweepStore \<Rightarrow> sweep_error + unit" where
  "cryptoCheckSweepLease i token now S =
    (if length (filter (holds_lease i token now) (ss_jobs S)) = 1 then Inr () else Inl (Failure ''lease lost''))"

definition cryptoSweepFinish :: "string \<Rightarrow> string \<Rightarrow> string \<Rightarrow> string \<Rightarrow> int \<Rightarrow> SweepStore \<Rightarrow> SweepStore" where
  "cryptoSweepFinish i token state message now S =
    set_job (\<lambda>j. sj_ID j = i \<and> sj_LeaseToken j = token)
      (\<lambda>j. j\<lparr>sj_State := state, sj_Error := message, sj_LeaseToken := [], sj_LeaseUntil := 0, sj_Updated := now\<rparr>) S"

section \<open>Staging a transfer\<close>

record sweep_env =
  sv_now :: int
  sv_client :: chain_client
  sv_serial :: string

record transfer_intent =
  tn_From :: string
  tn_Path :: string
  tn_To :: string
  tn_Token :: string
  tn_Amount :: nat
  tn_Gas :: nat

text \<open>Gas for an address that holds tokens but cannot pay for their transfer; \<open>None\<close> when it can.\<close>

definition gas_intent ::
  "WalletTables \<Rightarrow> chain_client \<Rightarrow> cryptoSweepQuote \<Rightarrow> CryptoSweepPlanItem \<Rightarrow> CryptoWallet \<Rightarrow> string \<times> string \<Rightarrow> nat \<Rightarrow> nat \<Rightarrow>
    sweep_error + transfer_intent option"
where
  "gas_intent W c q plan v funding latest amount =
    (let contract = sa_Contract (qu_Asset q) in
     if \<not> cryptoAutoGasOrder W (cw_ID v) (ch_ChainID (qu_Chain q)) (it_AddressID plan) (qu_Asset q) then refuse 409 ''no order of this address''
     else bind_res (cl_TokenBalance c contract (it_Address plan) latest) (\<lambda>tokens.
       if \<not> cryptoAutoGasEligible (qu_Asset q) tokens \<or> tokens < amount then refuse 409 ''token balance too low''
       else bind_res (rawEstimateGas c (it_Address plan) contract (cryptoTransferData (pv_Destination (qu_Preview q)) amount) 0) (\<lambda>estimate.
         if estimate > it_GasLimit plan then Inl (FeeReview ''gas above the approved limit'')
         else bind_res (cl_NativeBalance c (it_Address plan) latest) (\<lambda>balance.
           bind_res (shop_res (cryptoAtoms (it_GasFeeAtoms plan))) (\<lambda>fee.
           if fee \<le> balance then Inr None
           else bind_res (shop_res (cryptoAtoms (it_TopupAtoms plan))) (\<lambda>approved.
             if fee - balance > approved then refuse 409 ''top-up above the approved amount''
             else Inr (Some \<lparr>tn_From = fst funding, tn_Path = snd funding, tn_To = it_Address plan, tn_Token = [],
                    tn_Amount = fee - balance, tn_Gas = it_FundingGasLimit plan\<rparr>)))))))"

definition sweep_intent :: "chain_client \<Rightarrow> cryptoSweepQuote \<Rightarrow> CryptoSweepPlanItem \<Rightarrow> nat \<Rightarrow> nat \<Rightarrow> sweep_error + transfer_intent option" where
  "sweep_intent c q plan block amount =
    (let token = sa_Contract (qu_Asset q);
         intent = \<lparr>tn_From = it_Address plan, tn_Path = it_Path plan, tn_To = pv_Destination (qu_Preview q), tn_Token = token,
           tn_Amount = amount, tn_Gas = it_GasLimit plan\<rparr>
     in if token = [] then Inr (Some intent)
        else bind_res (cl_ValidateToken c token (sa_Decimals (qu_Asset q)) block) (\<lambda>_.
          bind_res (cl_TokenBalance c token (it_Address plan) block) (\<lambda>balance.
          if balance < amount then refuse 409 ''token balance below the approved amount'' else Inr (Some intent))))"

text \<open>What goes on the chain: target, value and data.\<close>

definition intent_target :: "transfer_intent \<Rightarrow> string" where
  "intent_target n = (if tn_Token n \<noteq> [] then tn_Token n else tn_To n)"

definition intent_value :: "transfer_intent \<Rightarrow> nat" where
  "intent_value n = (if tn_Token n \<noteq> [] then 0 else tn_Amount n)"

definition intent_data :: "transfer_intent \<Rightarrow> string" where
  "intent_data n = (if tn_Token n \<noteq> [] then cryptoTransferData (tn_To n) (tn_Amount n) else [])"

record staged_transfer =
  sg_intent :: transfer_intent
  sg_wallet :: string
  sg_price :: nat
  sg_required :: nat
  sg_balance :: nat
  sg_nonce :: nat

definition wanted_transfer ::
  "chain_client \<Rightarrow> WalletTables \<Rightarrow> string \<Rightarrow> cryptoSweepQuote \<Rightarrow> CryptoSweepPlanItem \<Rightarrow> CryptoWallet \<Rightarrow> string \<times> string \<Rightarrow>
    nat \<Rightarrow> nat \<Rightarrow> nat \<Rightarrow> sweep_error + transfer_intent option"
where
  "wanted_transfer c W kind q plan v funding block latest amount =
    (if kind = ''gas'' then gas_intent W c q plan v funding latest amount else sweep_intent c q plan block amount)"

text \<open>Everything that is asked of the network, before the transaction of the database.\<close>

definition observe_transfer ::
  "sweep_vault \<Rightarrow> sweep_env \<Rightarrow> string \<Rightarrow> cryptoSweepQuote \<Rightarrow> CryptoSweepPlanItem \<Rightarrow> SweepStore \<Rightarrow> sweep_error + staged_transfer option"
where
  "observe_transfer A env kind q plan S =
    (let c = sv_client env; W = ss_tables S in
     bind_res (cl_Finalized c) (\<lambda>block.
     bind_res (cl_Latest c) (\<lambda>latest.
     bind_res (rawGasPrice c) (\<lambda>price.
     bind_res (shop_res (cryptoAtoms (it_GasPriceAtoms plan))) (\<lambda>approvedPrice.
     if price > approvedPrice then Inl (FeeReview ''gas price above the quote'')
     else
       bind_res (shop_res (cryptoAtoms (it_AmountAtoms plan))) (\<lambda>amount.
       bind_res (cryptoWalletByID W (pv_WalletID (qu_Preview q))) (\<lambda>v.
       bind_res (cryptoSweepWallet v) (\<lambda>_.
       bind_res (va_funding A v) (\<lambda>funding.
       bind_res (wanted_transfer c W kind q plan v funding (bk_Number block) (bk_Number latest) amount) (\<lambda>x.
       case x of None \<Rightarrow> Inr None
       | Some n \<Rightarrow>
          bind_res (rawEstimateGas c (tn_From n) (intent_target n) (intent_data n) (intent_value n)) (\<lambda>estimate.
          if estimate > tn_Gas n \<or> tn_Gas n = 0 then Inl (FeeReview ''gas above the approved limit'')
          else
            bind_res (cl_NativeBalance c (tn_From n) (bk_Number latest)) (\<lambda>balance.
            let required = intent_value n + tn_Gas n * approvedPrice in
            if balance < required then refuse 409 ''native balance too low''
            else bind_res (PendingNonce c (tn_From n)) (\<lambda>nonce.
              Inr (Some \<lparr>sg_intent = n, sg_wallet = cw_ID v, sg_price = approvedPrice, sg_required = required, sg_balance = balance,
                     sg_nonce = nonce\<rparr>))))))))))))))"

text \<open>Nonces and balances of a sender are reserved by the rows of the table.\<close>

definition same_sender :: "int \<Rightarrow> string \<Rightarrow> cryptoChainTransaction \<Rightarrow> bool" where
  "same_sender chain from t \<longleftrightarrow> ct_ChainID t = chain \<and> lower (ct_From t) = lower from"

definition reserve_nonce :: "cryptoChainTransaction list \<Rightarrow> nat \<Rightarrow> sweep_error + nat" where
  "reserve_nonce rows nonce =
    (let n = (if rows \<noteq> [] \<and> nonce \<le> Max (set (map ct_Nonce rows)) then Suc (Max (set (map ct_Nonce rows))) else nonce) in
     if n > 2 ^ 63 - 1 then Inl (Failure ''nonce out of range'') else Inr n)"

definition add_reserved :: "cryptoChainTransaction \<Rightarrow> nat \<Rightarrow> sweep_error + nat" where
  "add_reserved t r =
    (case (cryptoAtoms (ct_GasPrice t), cryptoAtoms (ct_Amount t)) of
       (Inr p, Inr n) \<Rightarrow> Inr (r + ct_GasLimit t * p + (if ct_Token t = [] then n else 0))
     | _ \<Rightarrow> Inl (Failure ''invalid reserve''))"

definition insert_tx :: "cryptoChainTransaction \<Rightarrow> cryptoChainTransaction list \<Rightarrow> sweep_error + cryptoChainTransaction list" where
  "insert_tx t txs =
    (if list_ex (\<lambda>x. ct_ID x = ct_ID t \<or> ct_Hash x = ct_Hash t \<or>
        (ct_ChainID x = ct_ChainID t \<and> ct_From x = ct_From t \<and> ct_Nonce x = ct_Nonce t) \<or>
        (ct_JobID x = ct_JobID t \<and> ct_ItemID x = ct_ItemID t \<and> ct_Kind x = ct_Kind t)) txs
     then Inl (Declined (Unique ''crypto_chain_transactions'')) else Inr (txs @ [t]))"

definition staged_row ::
  "sweep_env \<Rightarrow> string \<Rightarrow> string \<Rightarrow> string \<Rightarrow> int \<Rightarrow> staged_transfer \<Rightarrow> nat \<Rightarrow> cryptoSignedTransfer \<Rightarrow> cryptoChainTransaction"
where
  "staged_row env i item kind chain g nonce sig =
    (let n = sg_intent g in
     \<lparr>ct_ID = sv_serial env, ct_JobID = i, ct_ItemID = item, ct_Kind = kind, ct_ChainID = chain, ct_From = tn_From n, ct_To = tn_To n,
      ct_Token = tn_Token n, ct_Amount = nat_string (tn_Amount n), ct_Nonce = nonce, ct_Hash = sg_Hash sig, ct_Raw = sg_Raw sig,
      ct_GasLimit = tn_Gas n, ct_GasPrice = nat_string (sg_price g), ct_State = ''signed'', ct_Error = [], ct_BlockNumber = 0,
      ct_BlockHash = [], ct_Receipt = None, ct_Updated = sv_now env\<rparr>)"

definition set_item :: "string \<Rightarrow> string \<Rightarrow> string \<Rightarrow> SweepStore \<Rightarrow> SweepStore" where
  "set_item item state message S =
    S\<lparr>ss_items := set_where (\<lambda>i. si_ID i = item) (\<lambda>i. i\<lparr>si_State := state, si_Error := message\<rparr>) (ss_items S)\<rparr>"

text \<open>The transaction: lease, an existing row, nonce, reserves, signature, rows.\<close>

definition stage_row ::
  "sweep_vault \<Rightarrow> sweep_env \<Rightarrow> string \<Rightarrow> string \<Rightarrow> string \<Rightarrow> cryptoSweepQuote \<Rightarrow> staged_transfer \<Rightarrow> SweepStore \<Rightarrow>
    sweep_error + cryptoChainTransaction \<times> SweepStore"
where
  "stage_row A env i item kind q g S =
    (let n = sg_intent g; chain = ch_ChainID (qu_Chain q); rows = filter (same_sender chain (tn_From n)) (ss_txs S) in
     bind_res (reserve_nonce rows (sg_nonce g)) (\<lambda>nonce.
     bind_res (fold_res add_reserved (filter (\<lambda>t. \<not> final_state (ct_State t)) rows) 0) (\<lambda>reserved.
     if sg_required g + reserved > sg_balance g then refuse 409 ''balance reserved''
     else
       bind_res (cryptoWalletByID (ss_tables S) (sg_wallet g)) (\<lambda>current.
       bind_res (cryptoSweepWallet current) (\<lambda>_.
       bind_res (va_mnemonic A current) (\<lambda>mnemonic.
       bind_res (cryptoSignTransfer (va_keys A) mnemonic (tn_Path n) chain nonce (tn_Gas n) (sg_price g) (intent_value n)
           (intent_target n) (drop 2 (intent_data n))) (\<lambda>sig.
       if \<not> equalFold (sg_From sig) (tn_From n) then Inl (Failure ''signer differs'')
       else
         let row = staged_row env i item kind chain g nonce sig in
         bind_res (insert_tx row (ss_txs S)) (\<lambda>txs.
         Inr (row, set_item item (kind @ ''_pending'') [] (S\<lparr>ss_txs := txs\<rparr>))))))))))"

definition cryptoStageTransfer ::
  "sweep_vault \<Rightarrow> sweep_env \<Rightarrow> string \<Rightarrow> string \<Rightarrow> string \<Rightarrow> string \<Rightarrow> cryptoSweepQuote \<Rightarrow> CryptoSweepPlanItem \<Rightarrow> SweepStore \<Rightarrow>
    sweep_error + cryptoChainTransaction option \<times> SweepStore"
where
  "cryptoStageTransfer A env i lease item kind q plan S =
    bind_res (observe_transfer A env kind q plan S) (\<lambda>x.
    case x of None \<Rightarrow> Inr (None, S)
    | Some g \<Rightarrow>
       bind_res (sweepLockChain (ch_ChainID (qu_Chain q)) S) (\<lambda>S0.
       bind_res (cryptoCheckSweepLease i lease (sv_now env) S0) (\<lambda>_.
       case find (\<lambda>t. ct_JobID t = i \<and> ct_ItemID t = item \<and> ct_Kind t = kind) (ss_txs S0) of
         Some t \<Rightarrow> Inr (Some t, S)
       | None \<Rightarrow>
          if kind = ''gas'' \<and> \<not> cryptoAutoGasOrder (ss_tables S0) (sg_wallet g) (ch_ChainID (qu_Chain q)) (it_AddressID plan) (qu_Asset q)
          then refuse 409 ''order changed''
          else bind_res (stage_row A env i item kind q g S0) (\<lambda>(row, T). Inr (Some row, T)))))"

section \<open>Following a transaction\<close>

definition rpc_agrees :: "cryptoChainTransaction \<Rightarrow> eth_transaction \<Rightarrow> cryptoEVMReceipt \<Rightarrow> rpc_transaction \<Rightarrow> bool" where
  "rpc_agrees v t r x \<longleftrightarrow>
    cryptoHexU64 (rt_ChainID x) = Inr (nat (ct_ChainID v)) \<and> cryptoHexU64 (rt_Nonce x) = Inr (ct_Nonce v) \<and>
    cryptoHexInt (rt_Value x) = Inr (et_value t) \<and> equalFold (rt_Hash x) (ct_Hash v) \<and> equalFold (rt_From x) (ct_From v) \<and>
    equalFold (rt_To x) (tx_target v) \<and> equalFold (rt_Input x) (''0x'' @ et_data t) \<and> equalFold (rt_BlockHash x) (rc_BlockHash r) \<and>
    cryptoHexU64 (rt_BlockNumber x) = Inr (rc_BlockNumber r)"

fun count_transfers :: "cryptoChainTransaction \<Rightarrow> nat \<Rightarrow> nat \<Rightarrow> cryptoEVMLog list \<Rightarrow> nat option" where
  "count_transfers v amount n [] = Some n"
| "count_transfers v amount n (l # ls) =
    (if lg_Address l = lower (ct_Token v) \<and> own_transfer v l
     then (if cryptoHexInt (lg_Data l) = Inr amount then count_transfers v amount (Suc n) ls else None)
     else count_transfers v amount n ls)"

definition validateSignedReceipt :: "keys \<Rightarrow> chain_client \<Rightarrow> cryptoChainTransaction \<Rightarrow> cryptoEVMReceipt \<Rightarrow> sweep_error + unit" where
  "validateSignedReceipt k c v r =
    bind_res (cryptoValidateSignedIntent k v) (\<lambda>t.
    if \<not> equalFold (rc_From r) (ct_From v) \<or> \<not> equalFold (rc_To r) (tx_target v) \<or> \<not> equalFold (rc_TxHash r) (ct_Hash v)
    then refuse 422 ''receipt of another transfer''
    else bind_res (cl_transaction c (ct_Hash v)) (\<lambda>(x, y).
      if \<not> rpc_agrees v t r x \<or> \<not> rpc_agrees v t r y then refuse 422 ''servers show another transaction''
      else if rc_Status r = 1 \<and> ct_Token v \<noteq> []
      then (case cryptoAtoms (ct_Amount v) of Inl e \<Rightarrow> Inl (Failure ''nil pointer'')
        | Inr amount \<Rightarrow> (case count_transfers v amount 0 (rc_Logs r) of None \<Rightarrow> refuse 422 ''transferred amount differs''
            | Some n \<Rightarrow> if n \<noteq> 1 then refuse 422 ''no unique transfer'' else Inr ()))
      else Inr ()))"

definition set_tx :: "string \<Rightarrow> (cryptoChainTransaction \<Rightarrow> cryptoChainTransaction) \<Rightarrow> SweepStore \<Rightarrow> SweepStore" where
  "set_tx i f S = S\<lparr>ss_txs := set_where (\<lambda>t. ct_ID t = i) f (ss_txs S)\<rparr>"

definition sweep_error_text :: "sweep_error \<Rightarrow> string" where
  "sweep_error_text e = (case e of Declined (Fail status message) \<Rightarrow> message | Declined x \<Rightarrow> ''database'' | FeeReview message \<Rightarrow> message
     | Forked \<Rightarrow> ''final history changed'' | Failure message \<Rightarrow> message)"

definition is_422 :: "sweep_error \<Rightarrow> bool" where
  "is_422 e = (case e of Declined (Fail status message) \<Rightarrow> status = 422 | _ \<Rightarrow> False)"

definition wait_for_tx :: "sweep_env \<Rightarrow> string \<Rightarrow> string \<Rightarrow> cryptoChainTransaction \<Rightarrow> SweepStore \<Rightarrow> (sweep_error + bool) \<times> SweepStore" where
  "wait_for_tx env i lease v S =
    (let message = (case cl_Broadcast (sv_client env) (''0x'' @ ct_Raw v) (ct_Hash v) of Inl e \<Rightarrow> sweep_error_text e | Inr _ \<Rightarrow> ''waiting for finality'') in
     case cryptoCheckSweepLease i lease (sv_now env) S of Inl e \<Rightarrow> (Inl e, S)
     | Inr _ \<Rightarrow> (Inr False, set_tx (ct_ID v) (\<lambda>t. t\<lparr>ct_State := ''pending'', ct_Error := message, ct_Updated := sv_now env\<rparr>) S))"

definition store_proof :: "sweep_env \<Rightarrow> cryptoChainTransaction \<Rightarrow> cryptoEVMReceipt \<Rightarrow> cryptoChainTransaction \<Rightarrow> cryptoChainTransaction" where
  "store_proof env v r t =
    t\<lparr>ct_State := (if rc_Status r = 1 then ''confirmed'' else ''reverted''), ct_Error := [], ct_BlockNumber := rc_BlockNumber r,
      ct_BlockHash := rc_BlockHash r,
      ct_Receipt := Some \<lparr>rp_TransactionID = ct_ID v, rp_JobID = ct_JobID v, rp_ItemID = ct_ItemID v, rp_ChainID = ct_ChainID v, rp_Receipt = r\<rparr>,
      ct_Updated := sv_now env\<rparr>"

definition conclude_tx ::
  "keys \<Rightarrow> sweep_env \<Rightarrow> string \<Rightarrow> string \<Rightarrow> cryptoChainTransaction \<Rightarrow> cryptoEVMReceipt \<Rightarrow> SweepStore \<Rightarrow> (sweep_error + bool) \<times> SweepStore"
where
  "conclude_tx k env i lease v r S =
    (case validateSignedReceipt k (sv_client env) v r of
       Inl e \<Rightarrow> (Inl e, if is_422 e then sweepFreezeChain (ct_ChainID v) S else S)
     | Inr _ \<Rightarrow>
        (case cryptoCheckSweepLease i lease (sv_now env) S of Inl e \<Rightarrow> (Inl e, S)
         | Inr _ \<Rightarrow>
            let S1 = set_tx (ct_ID v) (store_proof env v r) S in
            if rc_Status r \<noteq> 1
            then (refuse 422 ''transaction failed on the chain'', set_item (ct_ItemID v) ''failed'' ''transaction failed on the chain'' S1)
            else (Inr True, if ct_Kind v = ''sweep'' then set_item (ct_ItemID v) ''complete'' [] S1 else S1)))"

definition cryptoProcessTransaction ::
  "sweep_vault \<Rightarrow> sweep_env \<Rightarrow> string \<Rightarrow> string \<Rightarrow> cryptoChainTransaction \<Rightarrow> SweepStore \<Rightarrow> (sweep_error + bool) \<times> SweepStore"
where
  "cryptoProcessTransaction A env i lease v S =
    (case cryptoValidateSignedIntent (va_keys A) v of Inl e \<Rightarrow> (Inl e, S)
     | Inr _ \<Rightarrow>
        if chain_frozen (ct_ChainID v) S then (refuse 409 ''chain frozen'', S)
        else if final_state (ct_State v)
        then (if (case find (\<lambda>t. ct_ID t = ct_ID v) (ss_txs S) of None \<Rightarrow> True
                  | Some t \<Rightarrow> \<not> validateCryptoSweepReceipt (v\<lparr>ct_BlockNumber := ct_BlockNumber t, ct_BlockHash := ct_BlockHash t, ct_Receipt := ct_Receipt t\<rparr>))
              then (refuse 422 ''no valid evidence'', S)
              else if ct_State v = ''confirmed'' then (Inr True, S) else (refuse 422 ''transaction failed'', S))
        else (case FinalReceipt (sv_client env) (ct_Hash v) of
                Inl Forked \<Rightarrow> (refuse 422 ''final history changed'', sweepFreezeChain (ct_ChainID v) S)
              | Inl e \<Rightarrow> (Inl e, S)
              | Inr None \<Rightarrow> wait_for_tx env i lease v S
              | Inr (Some r) \<Rightarrow> conclude_tx (va_keys A) env i lease v r S))"

section \<open>A step of a job\<close>

text \<open>A final transfer must be there for every approved item.\<close>

definition item_completed :: "sweep_vault \<Rightarrow> string \<Rightarrow> cryptoSweepQuote \<Rightarrow> SweepStore \<Rightarrow> SweepItem \<Rightarrow> CryptoSweepPlanItem list \<Rightarrow> sweep_error + CryptoSweepPlanItem list" where
  "item_completed A i q S item plans =
    (case row_with it_AddressID (si_AddressID item) plans of None \<Rightarrow> refuse 422 ''item not in the plan''
     | Some plan \<Rightarrow>
        (case find (\<lambda>t. ct_JobID t = i \<and> ct_ItemID t = si_ID item \<and> ct_Kind t = ''sweep'') (ss_txs S) of None \<Rightarrow> refuse 422 ''no transaction''
         | Some v \<Rightarrow>
            if ct_State v \<noteq> ''confirmed'' then refuse 422 ''not final''
            else bind_res (cryptoValidateSignedIntent (va_keys A) v) (\<lambda>_.
              bind_res (cryptoTransactionMatchesPlan v q plan) (\<lambda>_.
              if \<not> validateCryptoSweepReceipt v then refuse 422 ''no valid evidence''
              else Inr (filter (\<lambda>p. it_AddressID p \<noteq> si_AddressID item) plans)))))"

definition cryptoCompleteSweep :: "sweep_vault \<Rightarrow> int \<Rightarrow> string \<Rightarrow> string \<Rightarrow> cryptoSweepQuote \<Rightarrow> SweepStore \<Rightarrow> (sweep_error + unit) \<times> SweepStore" where
  "cryptoCompleteSweep A now i lease q S =
    (let items = filter (\<lambda>x. si_JobID x = i \<and> si_State x = ''complete'') (ss_items S) in
     if length items \<noteq> length (pv_Items (qu_Preview q)) then (refuse 422 ''items missing'', S)
     else case fold_res (item_completed A i q S) items (pv_Items (qu_Preview q)) of
       Inl e \<Rightarrow> (Inl e, S)
     | Inr _ \<Rightarrow> (Inr (), cryptoSweepFinish i lease ''complete'' [] now S))"

definition process_planned ::
  "sweep_vault \<Rightarrow> sweep_env \<Rightarrow> string \<Rightarrow> string \<Rightarrow> cryptoSweepQuote \<Rightarrow> CryptoSweepPlanItem \<Rightarrow> cryptoChainTransaction \<Rightarrow> SweepStore \<Rightarrow>
    (sweep_error + bool) \<times> SweepStore"
where
  "process_planned A env i lease q plan v S =
    (case cryptoTransactionMatchesPlan v q plan of Inl e \<Rightarrow> (Inl e, S)
     | Inr _ \<Rightarrow> cryptoProcessTransaction A env i lease v S)"

definition ignore_result :: "(sweep_error + bool) \<times> SweepStore \<Rightarrow> (sweep_error + unit) \<times> SweepStore" where
  "ignore_result r = (case fst r of Inl e \<Rightarrow> Inl e | Inr _ \<Rightarrow> Inr (), snd r)"

text \<open>Every observation of a step has its own clock and its own answers.\<close>

datatype phase = GasStage | GasProcess | SweepStage | SweepProcess

definition sweep_transfer ::
  "sweep_vault \<Rightarrow> (phase \<Rightarrow> sweep_env) \<Rightarrow> string \<Rightarrow> string \<Rightarrow> cryptoSweepQuote \<Rightarrow> CryptoSweepPlanItem \<Rightarrow> string \<Rightarrow> SweepStore \<Rightarrow>
    (sweep_error + unit) \<times> SweepStore"
where
  "sweep_transfer A env i lease q plan item S =
    (case cryptoStageTransfer A (env SweepStage) i lease item ''sweep'' q plan S of Inl e \<Rightarrow> (Inl e, S)
     | Inr (None, T) \<Rightarrow> (Inl (Failure ''empty transaction''), T)
     | Inr (Some v, T) \<Rightarrow> ignore_result (process_planned A (env SweepProcess) i lease q plan v T))"

definition step_item ::
  "sweep_vault \<Rightarrow> (phase \<Rightarrow> sweep_env) \<Rightarrow> string \<Rightarrow> string \<Rightarrow> cryptoSweepQuote \<Rightarrow> CryptoSweepPlanItem \<Rightarrow> string \<Rightarrow> SweepStore \<Rightarrow>
    (sweep_error + unit) \<times> SweepStore"
where
  "step_item A env i lease q plan item S =
    (case item_txs S item ''sweep'' of
       Some v \<Rightarrow> ignore_result (process_planned A (env SweepProcess) i lease q plan v S)
     | None \<Rightarrow>
        (case item_txs S item ''gas'' of
           Some v \<Rightarrow>
             (case process_planned A (env GasProcess) i lease q plan v S of
                (Inl e, T) \<Rightarrow> (Inl e, T)
              | (Inr settled, T) \<Rightarrow> if \<not> settled then (Inr (), T) else sweep_transfer A env i lease q plan item T)
         | None \<Rightarrow>
             if it_TopupAtoms plan = ''0'' then sweep_transfer A env i lease q plan item S
             else (case cryptoStageTransfer A (env GasStage) i lease item ''gas'' q plan S of Inl e \<Rightarrow> (Inl e, S)
               | Inr (Some v, T) \<Rightarrow> ignore_result (process_planned A (env GasProcess) i lease q plan v T)
               | Inr (None, T) \<Rightarrow> sweep_transfer A env i lease q plan item T)))"

text \<open>The next item: the one whose transactions were touched longest ago.\<close>

definition item_touched :: "SweepStore \<Rightarrow> SweepItem \<Rightarrow> rank" where
  "item_touched S x =
    (let ts = filter (\<lambda>t. ct_ItemID t = si_ID x) (ss_txs S) in Rank (if ts = [] then 0 else Max (set (map ct_Updated ts))) (si_ID x))"

definition cryptoSweepStep ::
  "sweep_vault \<Rightarrow> (phase \<Rightarrow> sweep_env) \<Rightarrow> int \<Rightarrow> string \<Rightarrow> string \<Rightarrow> SweepStore \<Rightarrow> (sweep_error + unit) \<times> SweepStore"
where
  "cryptoSweepStep A env now i lease S =
    (case row_with sj_ID i (ss_jobs S) of None \<Rightarrow> (Inl (Declined (NoRows ''crypto_sweep_jobs'')), S)
     | Some j \<Rightarrow>
        (case va_open A (sj_Quote j) of None \<Rightarrow> (Inl (Failure ''quote not readable''), S)
         | Some q \<Rightarrow>
            (case bind_res (sweepChainAvailable (ch_ChainID (qu_Chain q)) S) (\<lambda>_. cryptoSweepAllowed (qu_Chain q)) of Inl e \<Rightarrow> (Inl e, S)
             | Inr _ \<Rightarrow>
                let items = filter (\<lambda>x. si_JobID x = i) (ss_items S) in
                if length items \<noteq> length (pv_Items (qu_Preview q)) \<or> items = [] then (refuse 422 ''items incomplete'', S)
                else if ch_ChainID (qu_Chain q) = cryptoSolanaChainID then (Inl (Failure ''solana worker''), S)
                else (case first_row (item_touched S) (filter (\<lambda>x. si_State x \<noteq> ''complete'') items) of
                    None \<Rightarrow> cryptoCompleteSweep A now i lease q S
                  | Some x \<Rightarrow>
                      if si_State x = ''failed'' then (refuse 422 ''failed transaction'', S)
                      else (case plan_for (qu_Preview q) (si_AddressID x) of None \<Rightarrow> (Inl (Failure ''address not in the preview''), S)
                        | Some plan \<Rightarrow> step_item A env i lease q plan (si_ID x) S)))))"

text \<open>What a worker writes when its step has returned.\<close>

definition step_outcome :: "sweep_error + unit \<Rightarrow> string \<times> string" where
  "step_outcome r =
    (case r of Inr _ \<Rightarrow> (''waiting'', [])
     | Inl e \<Rightarrow> (if is_422 e then ''failed'' else (case e of FeeReview m \<Rightarrow> ''fee_review_required'' | _ \<Rightarrow> ''waiting''), sweep_error_text e))"

definition cryptoSweepWork ::
  "sweep_vault \<Rightarrow> (phase \<Rightarrow> sweep_env) \<Rightarrow> int \<Rightarrow> int \<Rightarrow> int \<Rightarrow> string \<Rightarrow> SweepStore \<Rightarrow> (sweep_error + unit) \<times> SweepStore"
where
  "cryptoSweepWork A env claimed stepped finished token S =
    (case cryptoSweepClaim claimed token S of None \<Rightarrow> (Inr (), S)
     | Some (i, S1) \<Rightarrow>
        (let (r, S2) = cryptoSweepStep A env stepped i token S1; (state, message) = step_outcome r
         in (r, cryptoSweepFinish i token state message finished S2)))"

section \<open>The administrator\<close>

definition pending_txs :: "string \<Rightarrow> SweepStore \<Rightarrow> cryptoChainTransaction list" where
  "pending_txs i S = filter (\<lambda>t. ct_JobID t = i \<and> \<not> final_state (ct_State t)) (ss_txs S)"

definition cryptoCancelSweep :: "int \<Rightarrow> string \<Rightarrow> string \<Rightarrow> SweepStore \<Rightarrow> sweep_error + SweepStore" where
  "cryptoCancelSweep now operation i S =
    (if \<not> valid_operation operation then refuse 400 ''no operation id''
     else case row_with sj_ID i (ss_jobs S) of None \<Rightarrow> Inl (Declined (NoRows ''crypto_sweep_jobs''))
     | Some j \<Rightarrow>
        if sj_State j = ''cancelled'' then Inr S
        else if sj_State j = ''complete'' then refuse 409 ''already complete''
        else if sj_LeaseUntil j > now then refuse 409 ''in progress''
        else if pending_txs i S \<noteq> [] then refuse 409 ''signed transactions pending''
        else Inr (set_job (\<lambda>x. sj_ID x = i)
               (\<lambda>x. x\<lparr>sj_State := ''cancelled'', sj_LeaseToken := [], sj_LeaseUntil := 0, sj_Updated := now\<rparr>) S))"

definition retry_item_fee :: "chain_client \<Rightarrow> cryptoSweepQuote \<Rightarrow> string \<Rightarrow> nat \<Rightarrow> SweepStore \<Rightarrow> CryptoSweepPlanItem \<Rightarrow> unit \<Rightarrow> sweep_error + unit" where
  "retry_item_fee c q i price S plan _ =
    (if list_ex (\<lambda>t. ct_JobID t = i \<and> ct_Kind t = ''sweep'' \<and> ct_From t = it_Address plan) (ss_txs S) then Inr ()
     else bind_res (shop_res (cryptoAtoms (it_GasPriceAtoms plan))) (\<lambda>approved.
       if price > approved then Inl (FeeReview ''gas price above the quote'')
       else bind_res (shop_res (cryptoAtoms (it_AmountAtoms plan))) (\<lambda>amount.
         let contract = sa_Contract (qu_Asset q); dest = pv_Destination (qu_Preview q) in
         bind_res (if contract \<noteq> [] then rawEstimateGas c (it_Address plan) contract (cryptoTransferData dest amount) 0
                   else rawEstimateGas c (it_Address plan) dest [] amount) (\<lambda>estimate.
         if estimate > it_GasLimit plan then Inl (FeeReview ''gas above the approved limit'')
         else if it_TopupAtoms plan \<noteq> ''0'' \<and>
           \<not> list_ex (\<lambda>t. ct_JobID t = i \<and> ct_Kind t = ''gas'' \<and> ct_To t = it_Address plan) (ss_txs S)
         then bind_res (shop_res (cryptoAtoms (it_TopupAtoms plan))) (\<lambda>topup.
           bind_res (rawEstimateGas c (pv_FundingAddress (qu_Preview q)) (it_Address plan) [] topup) (\<lambda>fund.
           if fund > it_FundingGasLimit plan then Inl (FeeReview ''funding gas above the limit'') else Inr ()))
         else Inr ()))))"

definition cryptoCheckEVMRetryFee :: "CryptoPaymentSettings \<Rightarrow> chain_client \<Rightarrow> string \<Rightarrow> cryptoSweepQuote \<Rightarrow> SweepStore \<Rightarrow> sweep_error + unit" where
  "cryptoCheckEVMRetryFee s c i q S =
    (case cryptoSweepChain s (ch_ID (qu_Chain q)) of Inl e \<Rightarrow> refuse 409 ''network changed''
     | Inr current \<Rightarrow>
        if ch_ChainID current \<noteq> ch_ChainID (qu_Chain q) then refuse 409 ''network changed''
        else bind_res (cl_Finalized c) (\<lambda>_.
          bind_res (rawGasPrice c) (\<lambda>price. fold_res (retry_item_fee c q i price S) (pv_Items (qu_Preview q)) ())))"

definition retry_review :: "sweep_vault \<Rightarrow> CryptoPaymentSettings \<Rightarrow> chain_client \<Rightarrow> SweepJob \<Rightarrow> SweepStore \<Rightarrow> sweep_error + unit" where
  "retry_review A s c j S =
    (if sj_State j \<noteq> ''fee_review_required'' then Inr ()
     else if \<not> validateCryptoSweeps A S then refuse 422 ''integrity check failed''
     else case va_open A (sj_Quote j) of None \<Rightarrow> Inl (Failure ''quote not readable'')
       | Some q \<Rightarrow> cryptoCheckEVMRetryFee s c (sj_ID j) q S)"

definition cryptoRetrySweep ::
  "sweep_vault \<Rightarrow> CryptoPaymentSettings \<Rightarrow> chain_client \<Rightarrow> int \<Rightarrow> string \<Rightarrow> string \<Rightarrow> SweepStore \<Rightarrow> sweep_error + SweepStore"
where
  "cryptoRetrySweep A s c now operation i S =
    (if \<not> valid_operation operation then refuse 400 ''no operation id''
     else case row_with sj_ID i (ss_jobs S) of None \<Rightarrow> Inl (Declined (NoRows ''crypto_sweep_jobs''))
     | Some j \<Rightarrow>
        bind_res (retry_review A s c j S) (\<lambda>_.
        if sj_LeaseUntil j > now then refuse 409 ''in progress''
        else if ended (sj_State j) then refuse 409 ''already ended''
        else if sj_State j = ''failed'' \<or> sj_State j = ''review_required'' then refuse 409 ''needs review''
        else Inr (set_job (\<lambda>x. sj_ID x = i)
               (\<lambda>x. x\<lparr>sj_State := ''waiting'', sj_Error := [], sj_LeaseToken := [], sj_LeaseUntil := 0, sj_Updated := now\<rparr>) S)))"

end
