(* ===== verification/Sweep_Facts.thy ===== *)
theory Sweep_Facts
  imports Sweep_Worker Crypto_Safety
begin

text \<open>
  What single operations of a sweep guarantee: amounts have one text, a staged transfer is the approved one and passes the
  checks of stored transactions, a stored receipt passes the check of its evidence, and a preview keeps to its budget.
\<close>

section \<open>Amounts have one text\<close>

lemma nat_string_snoc: "0 < n \<Longrightarrow> d < 10 \<Longrightarrow> nat_string (10 * n + d) = nat_string n @ [digit_char d]"
  by (subst nat_string.simps) simp

lemma digit_char_of: "is_digit c \<Longrightarrow> digit_char (of_char c - 48) = c"
  by (simp add: digit_char_def is_digit_def)

lemma digits_canonical:
  "list_all is_digit s \<Longrightarrow> s \<noteq> [] \<Longrightarrow> length s > 1 \<longrightarrow> hd s \<noteq> CHR ''0'' \<Longrightarrow> nat_string (digits_value s) = s"
proof (induction s rule: rev_induct)
  case (snoc c s)
  have c: "is_digit c" "of_char c - 48 < (10 :: nat)" using snoc.prems(1) by (auto simp: is_digit_def)
  show ?case
  proof (cases s)
    case Nil
    with c show ?thesis by (simp add: digits_value_def nat_string.simps [of "of_char c - 48"] digit_char_of)
  next
    case (Cons d r)
    have s: "list_all is_digit s" "s \<noteq> []" "hd s \<noteq> CHR ''0''" using snoc.prems Cons by auto
    have e: "nat_string (digits_value s) = s" using snoc.IH s by simp
    have "digits_value s \<noteq> 0"
    proof
      assume "digits_value s = 0"
      with e have "s = nat_string 0" by simp
      moreover have "nat_string 0 = ''0''" by code_simp
      ultimately have "s = ''0''" by simp
      with s(3) show False by simp
    qed
    with c e show ?thesis by (simp add: nat_string_snoc digit_char_of)
  qed
qed simp

lemma cryptoAtoms_canonical: "cryptoAtoms s = Inr n \<Longrightarrow> nat_string n = s \<and> n < 2 ^ 256"
  using digits_canonical [of s] by (auto simp: cryptoAtoms_def split: if_splits)

lemma cryptoAtoms_less: "cryptoAtoms s = Inr n \<Longrightarrow> m \<le> n \<Longrightarrow> cryptoAtoms (nat_string m) = Inr m"
  by (rule cryptoAtoms_text) (use cryptoAtoms_canonical [of s n] in linarith)

section \<open>A staged transfer\<close>

lemma equalFold_sym: "equalFold s t \<Longrightarrow> equalFold t s"
  by (simp add: equalFold_def)

lemma transfer_data_split: "CHR ''0'' # CHR ''x'' # drop 2 (cryptoTransferData a n) = cryptoTransferData a n"
  by (simp add: cryptoTransferData_def)

text \<open>What is asked of the network fixes the transfer.\<close>

lemma observed_intent:
  assumes "observe_transfer A env kind q plan S = Inr (Some g)"
  obtains block latest amount v funding where
    "cryptoAtoms (it_GasPriceAtoms plan) = Inr (sg_price g)" "cryptoAtoms (it_AmountAtoms plan) = Inr amount"
    "cryptoWalletByID (ss_tables S) (pv_WalletID (qu_Preview q)) = Inr v" "va_funding A v = Inr funding"
    "wanted_transfer (sv_client env) (ss_tables S) kind q plan v funding block latest amount = Inr (Some (sg_intent g))"
    "sg_wallet g = cw_ID v" "sg_required g = intent_value (sg_intent g) + tn_Gas (sg_intent g) * sg_price g"
    "sg_required g \<le> sg_balance g" "PendingNonce (sv_client env) (tn_From (sg_intent g)) = Inr (sg_nonce g)"
  using assms unfolding observe_transfer_def Let_def bind_res_eq_Inr
  by (auto simp: res_simps split: if_splits option.splits prod.splits)

lemma gas_intentE:
  assumes "gas_intent W c q plan v funding latest amount = Inr (Some n)"
  obtains approved where "cryptoAtoms (it_TopupAtoms plan) = Inr approved" "0 < tn_Amount n" "tn_Amount n \<le> approved"
    "tn_From n = fst funding" "tn_To n = it_Address plan" "tn_Token n = []" "tn_Gas n = it_FundingGasLimit plan"
    "cryptoAutoGasOrder W (cw_ID v) (ch_ChainID (qu_Chain q)) (it_AddressID plan) (qu_Asset q)"
  using assms unfolding gas_intent_def Let_def bind_res_eq_Inr
  by (auto simp: res_simps split: if_splits)

lemma sweep_intentE:
  assumes "sweep_intent c q plan block amount = Inr (Some n)"
  shows "n = \<lparr>tn_From = it_Address plan, tn_Path = it_Path plan, tn_To = pv_Destination (qu_Preview q), tn_Token = sa_Contract (qu_Asset q),
    tn_Amount = amount, tn_Gas = it_GasLimit plan\<rparr>"
  using assms unfolding sweep_intent_def Let_def
  by (auto simp: res_simps split: if_splits)

lemma stage_rowE:
  assumes "stage_row A env i item kind q g S = Inr (row, T)"
  obtains nonce reserved sig mnemonic txs where
    "reserve_nonce (filter (same_sender (ch_ChainID (qu_Chain q)) (tn_From (sg_intent g))) (ss_txs S)) (sg_nonce g) = Inr nonce"
    "fold_res add_reserved (filter (\<lambda>t. \<not> final_state (ct_State t))
       (filter (same_sender (ch_ChainID (qu_Chain q)) (tn_From (sg_intent g))) (ss_txs S))) 0 = Inr reserved"
    "sg_required g + reserved \<le> sg_balance g"
    "cryptoSignTransfer (va_keys A) mnemonic (tn_Path (sg_intent g)) (ch_ChainID (qu_Chain q)) nonce (tn_Gas (sg_intent g)) (sg_price g)
       (intent_value (sg_intent g)) (intent_target (sg_intent g)) (drop 2 (intent_data (sg_intent g))) = Inr sig"
    "equalFold (sg_From sig) (tn_From (sg_intent g))"
    "row = staged_row env i item kind (ch_ChainID (qu_Chain q)) g nonce sig"
    "insert_tx row (ss_txs S) = Inr txs" "T = set_item item (kind @ ''_pending'') [] (S\<lparr>ss_txs := txs\<rparr>)"
  using assms unfolding stage_row_def Let_def bind_res_eq_Inr
  by (auto simp: res_simps split: if_splits)

lemma signed_decodes:
  assumes "codec_ok k" "cryptoSignTransfer k mnemonic path chain nonce gas price amount to data = Inr s"
  shows "\<exists>t target. ky_decode k (sg_Raw s) = Some t \<and> et_legacy t \<and> et_hash t = sg_Hash s \<and> et_chain t = chain \<and> et_nonce t = nonce \<and>
        et_gas t = gas \<and> et_price t = price \<and> et_sender t = Some (sg_From s) \<and> et_to t = Some target \<and> equalFold target to \<and>
        et_value t = amount \<and> et_data t = data"
  using assms unfolding codec_ok_def cryptoSignTransfer_def by (auto split: if_splits)

text \<open>The stored row passes \<open>cryptoValidateSignedIntent\<close> and is within the plan.\<close>

lemma transfer_shape:
  assumes "wanted_transfer c W kind q plan v funding block latest amount = Inr (Some n)" "kind = ''gas'' \<or> kind = ''sweep''"
    "cryptoAtoms (it_AmountAtoms plan) = Inr amount" "fst funding = pv_FundingAddress (qu_Preview q)"
  shows "cryptoAtoms (nat_string (tn_Amount n)) = Inr (tn_Amount n)"
    "ct_Kind r = kind \<Longrightarrow> ct_ChainID r = ch_ChainID (qu_Chain q) \<Longrightarrow> ct_From r = tn_From n \<Longrightarrow> ct_To r = tn_To n \<Longrightarrow>
      ct_Token r = tn_Token n \<Longrightarrow> ct_Amount r = nat_string (tn_Amount n) \<Longrightarrow> ct_GasLimit r = tn_Gas n \<Longrightarrow>
      ct_GasPrice r = it_GasPriceAtoms plan \<Longrightarrow> cryptoTransactionMatchesPlan r q plan = Inr ()"
proof -
  have "cryptoAtoms (nat_string (tn_Amount n)) = Inr (tn_Amount n) \<and>
    (ct_Kind r = kind \<longrightarrow> ct_ChainID r = ch_ChainID (qu_Chain q) \<longrightarrow> ct_From r = tn_From n \<longrightarrow> ct_To r = tn_To n \<longrightarrow>
      ct_Token r = tn_Token n \<longrightarrow> ct_Amount r = nat_string (tn_Amount n) \<longrightarrow> ct_GasLimit r = tn_Gas n \<longrightarrow>
      ct_GasPrice r = it_GasPriceAtoms plan \<longrightarrow> cryptoTransactionMatchesPlan r q plan = Inr ())"
  proof (cases "kind = ''gas''")
    case True
    with assms(1) have "gas_intent W c q plan v funding latest amount = Inr (Some n)" by (simp add: wanted_transfer_def)
    then show ?thesis
    proof (rule gas_intentE)
      fix approved
      assume *: "cryptoAtoms (it_TopupAtoms plan) = Inr approved" "0 < tn_Amount n" "tn_Amount n \<le> approved"
        "tn_From n = fst funding" "tn_To n = it_Address plan" "tn_Token n = []" "tn_Gas n = it_FundingGasLimit plan"
      have "cryptoAtoms (nat_string (tn_Amount n)) = Inr (tn_Amount n)" by (rule cryptoAtoms_less [OF *(1,3)])
      with * True assms(4) show ?thesis by (simp add: cryptoTransactionMatchesPlan_def gas_matches_def)
    qed
  next
    case False
    with assms(1) have "n = \<lparr>tn_From = it_Address plan, tn_Path = it_Path plan, tn_To = pv_Destination (qu_Preview q),
       tn_Token = sa_Contract (qu_Asset q), tn_Amount = amount, tn_Gas = it_GasLimit plan\<rparr>"
      by (intro sweep_intentE [of c _ _ block]) (simp add: wanted_transfer_def)
    with False assms(2,3) cryptoAtoms_canonical [OF assms(3)] show ?thesis
      by (simp add: cryptoTransactionMatchesPlan_def sweep_matches_def)
  qed
  then show "cryptoAtoms (nat_string (tn_Amount n)) = Inr (tn_Amount n)"
    "ct_Kind r = kind \<Longrightarrow> ct_ChainID r = ch_ChainID (qu_Chain q) \<Longrightarrow> ct_From r = tn_From n \<Longrightarrow> ct_To r = tn_To n \<Longrightarrow>
      ct_Token r = tn_Token n \<Longrightarrow> ct_Amount r = nat_string (tn_Amount n) \<Longrightarrow> ct_GasLimit r = tn_Gas n \<Longrightarrow>
      ct_GasPrice r = it_GasPriceAtoms plan \<Longrightarrow> cryptoTransactionMatchesPlan r q plan = Inr ()"
    by simp_all
qed

lemma staged_intent_valid:
  assumes "codec_ok k" "equalFold (sg_From sig) (tn_From (sg_intent g))"
    "cryptoSignTransfer k mnemonic path chain nonce (tn_Gas (sg_intent g)) (sg_price g)
       (intent_value (sg_intent g)) (intent_target (sg_intent g)) (drop 2 (intent_data (sg_intent g))) = Inr sig"
    "cryptoAtoms (nat_string (tn_Amount (sg_intent g))) = Inr (tn_Amount (sg_intent g))"
  shows "\<exists>t. cryptoValidateSignedIntent k (staged_row env i item kind chain g nonce sig) = Inr t"
  using signed_decodes [OF assms(1,3)] assms(2,4)
  by (auto simp: cryptoValidateSignedIntent_def staged_row_def Let_def tx_target_def intent_target_def intent_value_def intent_data_def
      transfer_data_split)

lemma staged_row_good:
  assumes "observe_transfer A env kind q plan S = Inr (Some g)" "stage_row A env i item kind q g U = Inr (row, T)"
    "kind = ''gas'' \<or> kind = ''sweep''" "codec_ok (va_keys A)"
    and funding: "\<forall>v f. cryptoWalletByID (ss_tables S) (pv_WalletID (qu_Preview q)) = Inr v \<longrightarrow> va_funding A v = Inr f \<longrightarrow>
      fst f = pv_FundingAddress (qu_Preview q)"
  shows "\<exists>t. cryptoValidateSignedIntent (va_keys A) row = Inr t" "cryptoTransactionMatchesPlan row q plan = Inr ()"
    "validateCryptoSweepReceipt row" "ct_State row = ''signed''" "ct_JobID row = i" "ct_ItemID row = item" "ct_Kind row = kind"
    "ct_ChainID row = ch_ChainID (qu_Chain q)"
    "\<And>t. t \<in> set (ss_txs U) \<Longrightarrow> tx_key t \<noteq> tx_key row"
    "insert_tx row (ss_txs U) = Inr (ss_txs U @ [row])" "T = set_item item (kind @ ''_pending'') [] (U\<lparr>ss_txs := ss_txs U @ [row]\<rparr>)"
proof -
  obtain block latest amount v f where o: "cryptoAtoms (it_GasPriceAtoms plan) = Inr (sg_price g)"
    "cryptoAtoms (it_AmountAtoms plan) = Inr amount"
    "cryptoWalletByID (ss_tables S) (pv_WalletID (qu_Preview q)) = Inr v" "va_funding A v = Inr f"
    "wanted_transfer (sv_client env) (ss_tables S) kind q plan v f block latest amount = Inr (Some (sg_intent g))"
    by (rule observed_intent [OF assms(1)])
  obtain nonce sig mnemonic txs where s:
    "reserve_nonce (filter (same_sender (ch_ChainID (qu_Chain q)) (tn_From (sg_intent g))) (ss_txs U)) (sg_nonce g) = Inr nonce"
    "cryptoSignTransfer (va_keys A) mnemonic (tn_Path (sg_intent g)) (ch_ChainID (qu_Chain q)) nonce (tn_Gas (sg_intent g)) (sg_price g)
       (intent_value (sg_intent g)) (intent_target (sg_intent g)) (drop 2 (intent_data (sg_intent g))) = Inr sig"
    "equalFold (sg_From sig) (tn_From (sg_intent g))"
    "row = staged_row env i item kind (ch_ChainID (qu_Chain q)) g nonce sig"
    "insert_tx row (ss_txs U) = Inr txs" "T = set_item item (kind @ ''_pending'') [] (U\<lparr>ss_txs := txs\<rparr>)"
    by (rule stage_rowE [OF assms(2)])
  note shape = transfer_shape [OF o(5) assms(3) o(2) funding [rule_format, OF o(3,4)]]
  show "\<exists>t. cryptoValidateSignedIntent (va_keys A) row = Inr t"
    unfolding s(4) by (rule staged_intent_valid [OF assms(4) s(3,2) shape(1)])
  show "cryptoTransactionMatchesPlan row q plan = Inr ()"
    by (rule shape(2)) (use cryptoAtoms_canonical [OF o(1)] in \<open>simp_all add: s(4) staged_row_def Let_def\<close>)
  show "validateCryptoSweepReceipt row" "ct_State row = ''signed''" "ct_JobID row = i" "ct_ItemID row = item" "ct_Kind row = kind"
    "ct_ChainID row = ch_ChainID (qu_Chain q)"
    by (simp_all add: s(4) staged_row_def Let_def validateCryptoSweepReceipt_def final_state_def)
  have txs: "txs = ss_txs U @ [row]" using s(5) by (simp add: insert_tx_def split: if_splits)
  with s(5,6) show "insert_tx row (ss_txs U) = Inr (ss_txs U @ [row])"
    "T = set_item item (kind @ ''_pending'') [] (U\<lparr>ss_txs := ss_txs U @ [row]\<rparr>)" by simp_all
  show "tx_key t \<noteq> tx_key row" if t: "t \<in> set (ss_txs U)" for t
  proof
    assume key: "tx_key t = tx_key row"
    define rows where "rows = filter (same_sender (ch_ChainID (qu_Chain q)) (tn_From (sg_intent g))) (ss_txs U)"
    from key t have "t \<in> set rows" "ct_Nonce t = nonce"
      by (auto simp: rows_def same_sender_def tx_key_def s(4) staged_row_def Let_def)
    then have le: "nonce \<le> Max (set (map ct_Nonce rows))" "rows \<noteq> []" by (auto intro: Max_ge)
    define M where "M = Max (set (map ct_Nonce rows))"
    from s(1) le show False
      unfolding rows_def [symmetric] by (simp only: reserve_nonce_def Let_def M_def [symmetric]) (simp split: if_split_asm)
  qed
qed

section \<open>The evidence of a final state\<close>

lemma lower_char_idem [simp]: "lower_char (lower_char c) = lower_char c"
  by (cases c) (simp add: lower_char_def)

lemma lower_idem [simp]: "lower (lower s) = lower s"
  by (simp add: lower_def)

lemma hex_digit_lower: "hex_digit c \<noteq> None \<Longrightarrow> hex_digit (lower_char c) \<noteq> None"
  by (auto simp: hex_digit_def lower_char_def Let_def split: if_splits)

lemma cryptoHash_lower: "cryptoHash s \<Longrightarrow> cryptoHash (lower s)"
proof -
  assume s: "cryptoHash s"
  have "take 2 (lower s) = lower (take 2 s)" by (simp add: lower_def take_map)
  also have "\<dots> = ''0x''" using s by (simp add: cryptoHash_def lower_def lower_char_def)
  finally have "take 2 (lower s) = ''0x''" .
  moreover have "list_all hexadecimal (drop 2 (lower s))"
    using s hex_digit_lower by (fastforce simp: cryptoHash_def lower_def drop_map list_all_iff hexadecimal_def)
  ultimately show ?thesis using s by (simp add: cryptoHash_def lower_def)
qed

text \<open>Logs of a decoded receipt belong to it and differ in their index.\<close>

lemma decodeCryptoLog_lower: "decodeCryptoLog l = Inr x \<Longrightarrow> lower (lg_Address x) = lg_Address x"
  by (auto simp: decodeCryptoLog_def res_simps split: if_splits)

lemma receipt_logs_ok:
  assumes "receipt_logs r seen raw = Inr ls" "l \<in> set ls"
  shows "\<not> lg_Removed l \<and> lg_TxHash l = rc_TxHash r \<and> lg_BlockHash l = rc_BlockHash r \<and> lg_BlockNumber l = rc_BlockNumber r \<and>
    lg_Index l \<notin> set seen \<and> lower (lg_Address l) = lg_Address l"
  using assms
proof (induction raw arbitrary: seen ls)
  case (Cons y raw)
  from Cons.prems obtain x xs where x: "decodeCryptoLog y = Inr x" "receipt_logs r (lg_Index x # seen) raw = Inr xs" "ls = x # xs"
    "\<not> lg_Removed x" "lg_TxHash x = rc_TxHash r" "lg_BlockNumber x = rc_BlockNumber r" "lg_BlockHash x = rc_BlockHash r"
    "lg_Index x \<notin> set seen"
    by (auto simp: res_simps split: sum.splits if_splits)
  from Cons.prems(2) x(3) consider "l = x" | "l \<in> set xs" by auto
  then show ?case
    by cases (use x decodeCryptoLog_lower [OF x(1)] Cons.IH [OF x(2)] in auto)
qed simp

lemma receipt_logs_distinct: "receipt_logs r seen raw = Inr ls \<Longrightarrow> distinct (map lg_Index ls)"
proof (induction raw arbitrary: seen ls)
  case (Cons y raw)
  from Cons.prems obtain x xs where x: "receipt_logs r (lg_Index x # seen) raw = Inr xs" "ls = x # xs"
    by (auto simp: res_simps split: sum.splits if_splits)
  have "lg_Index x \<notin> lg_Index ` set xs" by (metis imageE list.set_intros(1) receipt_logs_ok [OF x(1)])
  with Cons.IH [OF x(1)] x(2) show ?case by simp
qed simp

definition logs_ok :: "cryptoEVMReceipt \<Rightarrow> cryptoEVMLog list \<Rightarrow> bool" where
  "logs_ok r ls \<longleftrightarrow> distinct (map lg_Index ls) \<and> (\<forall>l \<in> set ls. \<not> lg_Removed l \<and> lg_TxHash l = rc_TxHash r \<and>
    lg_BlockHash l = rc_BlockHash r \<and> lg_BlockNumber l = rc_BlockNumber r \<and> lower (lg_Address l) = lg_Address l)"

lemma final_receipt_ok:
  assumes "FinalReceipt c hash = Inr (Some r)"
  shows "logs_ok r (rc_Logs r)" "cryptoHash (rc_BlockHash r)" "rc_Status r \<le> 1" "rc_TxHash r = lower hash"
proof -
  from assms obtain a b where ab: "Receipt c hash = Inr (Some r)" "cl_receipt c hash = Inr (a, b)" "decodeCryptoReceipt a = Inr (Some r)"
    and hash: "rc_TxHash r = lower hash"
    by (auto simp: FinalReceipt_def Receipt_def res_simps split: option.splits if_splits prod.splits)
  then obtain v where v0: "a = Some v" by (auto simp: decodeCryptoReceipt_def split: option.split_asm)
  obtain status where status: "cryptoHexU64 (rr_Status v) = Inr status"
    using ab(3) v0 by (cases "cryptoHexU64 (rr_Status v)") (auto simp: decodeCryptoReceipt_def res_simps split: if_split_asm)
  define R where "R block = \<lparr>rc_TxHash = lower (rr_TransactionHash v), rc_BlockHash = lower (rr_BlockHash v), rc_BlockNumber = block,
    rc_From = lower (rr_From v), rc_To = lower (case rr_To v of None \<Rightarrow> [] | Some t \<Rightarrow> t), rc_Status = status, rc_Logs = []\<rparr>" for block
  obtain block logs where d: "cryptoHash (rr_BlockHash v)" "status \<le> 1" "receipt_logs (R block) [] (rr_Logs v) = Inr logs"
      "r = R block\<lparr>rc_Logs := logs\<rparr>"
    using ab(3) v0 status by (auto simp: decodeCryptoReceipt_def Let_def res_simps R_def split: if_split_asm)
  define r0 where "r0 = R block"
  have v: "cryptoHash (rr_BlockHash v)" "rc_BlockHash r0 = lower (rr_BlockHash v)" "rc_Status r0 \<le> 1"
      "receipt_logs r0 [] (rr_Logs v) = Inr (rc_Logs r)" "r = r0\<lparr>rc_Logs := rc_Logs r\<rparr>"
    using d by (simp_all add: r0_def) (simp_all add: R_def)
  have r: "rc_TxHash r = rc_TxHash r0" "rc_BlockHash r = rc_BlockHash r0" "rc_BlockNumber r = rc_BlockNumber r0" "rc_Status r = rc_Status r0"
    by (subst v(5), simp)+
  show "logs_ok r (rc_Logs r)"
    using receipt_logs_ok [OF v(4)] receipt_logs_distinct [OF v(4)] by (auto simp: logs_ok_def r)
  show "cryptoHash (rc_BlockHash r)" "rc_Status r \<le> 1" "rc_TxHash r = lower hash"
    using v(1-3) hash by (simp_all add: r cryptoHash_lower)
qed

lemma logs_ok_Cons: "logs_ok r (l # ls) \<Longrightarrow> logs_ok r ls"
  by (simp add: logs_ok_def)

lemma logs_fresh: "logs_ok r (l # ls) \<Longrightarrow> \<forall>x \<in> set (l # ls). lg_Index x \<notin> set seen \<Longrightarrow>
    \<forall>x \<in> set ls. lg_Index x \<notin> set (lg_Index l # seen)"
  unfolding logs_ok_def by (auto simp del: not_None_eq) (metis image_eqI)

text \<open>Counting the transfers at the final block gives what the later check counts.\<close>

lemma check_logs_counted:
  assumes "logs_ok r ls" "\<forall>l \<in> set ls. lg_Index l \<notin> set seen" "nat_string amount = ct_Amount v"
    "rc_Status r = 1" "ct_Token v \<noteq> []" "count_transfers v amount n ls = Some m"
  shows "check_logs v r seen n ls = Some m"
  using assms
proof (induction ls arbitrary: seen n)
  case (Cons l ls)
  have l: "\<not> lg_Removed l" "lg_TxHash l = rc_TxHash r" "lg_BlockHash l = rc_BlockHash r" "lg_BlockNumber l = rc_BlockNumber r"
    "lg_Index l \<notin> set seen" "lower (lg_Address l) = lg_Address l"
    using Cons.prems(1,2) by (simp_all add: logs_ok_def)
  have fresh: "\<forall>x \<in> set ls. lg_Index x \<notin> set (lg_Index l # seen)" by (rule logs_fresh [OF Cons.prems(1,2)])
  note IH = Cons.IH [OF logs_ok_Cons [OF Cons.prems(1)] fresh Cons.prems(3-5)]
  have fold: "equalFold (lg_Address l) (ct_Token v) \<longleftrightarrow> lg_Address l = lower (ct_Token v)"
    using l(6) by (simp add: equalFold_def)
  show ?case
  proof (cases "lg_Address l = lower (ct_Token v) \<and> own_transfer v l")
    case True
    with Cons.prems(6) have h: "cryptoHexInt (lg_Data l) = Inr amount" "count_transfers v amount (Suc n) ls = Some m"
      by (simp_all split: if_split_asm)
    with True l Cons.prems(3-5) fold IH [OF h(2)] show ?thesis by simp
  next
    case False
    with Cons.prems(6) have h: "count_transfers v amount n ls = Some m" by (simp split: if_split_asm)
    with False l fold IH [OF h] show ?thesis by auto
  qed
qed simp

lemma check_logs_plain:
  assumes "logs_ok r ls" "\<forall>l \<in> set ls. lg_Index l \<notin> set seen" "\<not> (rc_Status r = 1 \<and> ct_Token v \<noteq> [])"
  shows "check_logs v r seen n ls = Some n"
  using assms
proof (induction ls arbitrary: seen)
  case (Cons l ls)
  have "\<forall>x \<in> set ls. lg_Index x \<notin> set (lg_Index l # seen)" by (rule logs_fresh [OF Cons.prems(1,2)])
  with Cons.IH [OF logs_ok_Cons [OF Cons.prems(1)]] Cons.prems show ?case by (auto simp: logs_ok_def)
qed simp

text \<open>Only these columns of a row enter the checks of its transfer.\<close>

definition same_intent :: "cryptoChainTransaction \<Rightarrow> cryptoChainTransaction \<Rightarrow> bool" where
  "same_intent v w \<longleftrightarrow> ct_ID v = ct_ID w \<and> ct_JobID v = ct_JobID w \<and> ct_ItemID v = ct_ItemID w \<and> ct_Kind v = ct_Kind w \<and>
    ct_ChainID v = ct_ChainID w \<and> ct_From v = ct_From w \<and> ct_To v = ct_To w \<and> ct_Token v = ct_Token w \<and> ct_Amount v = ct_Amount w \<and>
    ct_Nonce v = ct_Nonce w \<and> ct_Hash v = ct_Hash w \<and> ct_Raw v = ct_Raw w \<and> ct_GasLimit v = ct_GasLimit w \<and> ct_GasPrice v = ct_GasPrice w"

lemma same_intent_refl [simp]: "same_intent v v"
  by (simp add: same_intent_def)

lemma check_logs_same: "same_intent v w \<Longrightarrow> check_logs v r seen n ls = check_logs w r seen n ls"
  by (induction ls arbitrary: seen n) (auto simp: same_intent_def own_transfer_def split: sum.splits)

lemma intent_same: "same_intent v w \<Longrightarrow> cryptoValidateSignedIntent k v = cryptoValidateSignedIntent k w"
  unfolding same_intent_def cryptoValidateSignedIntent_def tx_target_def by (elim conjE) (simp only:)

lemma matches_same: "same_intent v w \<Longrightarrow> cryptoTransactionMatchesPlan v q plan = cryptoTransactionMatchesPlan w q plan"
  unfolding same_intent_def cryptoTransactionMatchesPlan_def gas_matches_def sweep_matches_def by (elim conjE) (simp only:)

lemma store_proof_same [simp]: "same_intent (store_proof env v r v) v"
  by (simp add: same_intent_def store_proof_def)

lemma concluded_valid:
  assumes "FinalReceipt c (ct_Hash v) = Inr (Some r)" "validateSignedReceipt k c v r = Inr ()"
  shows "validateCryptoSweepReceipt (store_proof env v r v)"
proof -
  note ok = final_receipt_ok [OF assms(1)]
  have v: "equalFold (rc_From r) (ct_From v)" "equalFold (rc_To r) (tx_target v)" "equalFold (rc_TxHash r) (ct_Hash v)"
    using assms(2) by (auto simp: validateSignedReceipt_def res_simps split: if_split_asm prod.split_asm)
  have count: "\<exists>m. check_logs v r [] 0 (rc_Logs r) = Some m \<and> (rc_Status r = 1 \<and> ct_Token v \<noteq> [] \<longrightarrow> m = 1)"
  proof (cases "rc_Status r = 1 \<and> ct_Token v \<noteq> []")
    case False
    with check_logs_plain [OF ok(1), of "[]"] show ?thesis by simp
  next
    case True
    then obtain amount where a: "cryptoAtoms (ct_Amount v) = Inr amount" "count_transfers v amount 0 (rc_Logs r) = Some 1"
      using assms(2)
      by (cases "cryptoAtoms (ct_Amount v)") (auto simp: validateSignedReceipt_def res_simps split: if_split_asm prod.split_asm option.split_asm)
    have "check_logs v r [] 0 (rc_Logs r) = Some 1"
      using check_logs_counted [OF ok(1) _ _ _ _ a(2)] cryptoAtoms_canonical [OF a(1)] True by simp
    then show ?thesis by simp
  qed
  then obtain m where m: "check_logs (store_proof env v r v) r [] 0 (rc_Logs r) = Some m" "rc_Status r = 1 \<and> ct_Token v \<noteq> [] \<longrightarrow> m = 1"
    using check_logs_same [OF store_proof_same] by metis
  have fields: "ct_ID (store_proof env v r v) = ct_ID v" "ct_JobID (store_proof env v r v) = ct_JobID v"
    "ct_ItemID (store_proof env v r v) = ct_ItemID v" "ct_ChainID (store_proof env v r v) = ct_ChainID v"
    "ct_Hash (store_proof env v r v) = ct_Hash v" "ct_From (store_proof env v r v) = ct_From v"
    "ct_Token (store_proof env v r v) = ct_Token v"
    "tx_target (store_proof env v r v) = tx_target v" "ct_BlockNumber (store_proof env v r v) = rc_BlockNumber r"
    "ct_BlockHash (store_proof env v r v) = rc_BlockHash r"
    "ct_State (store_proof env v r v) = (if rc_Status r = 1 then ''confirmed'' else ''reverted'')"
    "ct_Receipt (store_proof env v r v) = Some \<lparr>rp_TransactionID = ct_ID v, rp_JobID = ct_JobID v, rp_ItemID = ct_ItemID v,
       rp_ChainID = ct_ChainID v, rp_Receipt = r\<rparr>"
    by (simp_all add: store_proof_def tx_target_def)
  show ?thesis
    unfolding validateCryptoSweepReceipt_def fields
    using v ok(2,3) m by (auto simp: final_state_def)
qed

section \<open>The preview\<close>

lemma guard_Inr: "(if b then refuse status message else Inr ()) = Inr u \<longleftrightarrow> \<not> b"
  by simp

lemma previewE:
  assumes "cryptoPreviewSweep env W s actor wallet inp = Inr q"
  obtains v chain asset minimum budget dest block funding path addresses raw mode price fund items t where
    "cryptoWalletByID W wallet = Inr v" "cryptoSweepWallet v = Inr ()" "cryptoSweepChain s (in_ChainID inp) = Inr chain"
    "cryptoSweepAllowed chain = Inr ()" "ch_ChainID chain \<noteq> cryptoSolanaChainID" "sweep_asset s chain (in_AssetID inp) = Inr asset"
    "sweep_budget (in_MaxGasAtoms inp) = Inr budget" "sweep_destination env s (in_Destination inp) = Inr dest"
    "pe_funding env v = Inr (funding, path)" "\<not> equalFold dest funding"
    "sweep_addresses W wallet (in_AddressIDs inp) = Inr addresses" "fold_res (check_address env v dest) addresses () = Inr ()"
    "rawGasPrice (pe_client env) = Inr raw" "cryptoSweepSelectFee (in_FeeMode inp) (in_GasPriceAtoms inp) raw = Inr (mode, price)"
    "plan_addresses (plan_address W (pe_client env) wallet chain asset dest funding block minimum raw price) addresses = Inr items"
    "plan_sums items = Inr t"
    "q = \<lparr>qu_ActorID = actor, qu_Preview = make_preview env wallet chain asset dest minimum budget block funding fund mode price items t,
      qu_Chain = chain, qu_Asset = asset\<rparr>"
proof -
  from assms obtain v chain where a: "cryptoWalletByID W wallet = Inr v" "cryptoSweepWallet v = Inr ()"
      "cryptoSweepChain s (in_ChainID inp) = Inr chain" "cryptoSweepAllowed chain = Inr ()" "ch_ChainID chain \<noteq> cryptoSolanaChainID"
    and rest: "bind_res (sweep_asset s chain (in_AssetID inp)) (\<lambda>asset.
      bind_res (shop_res (cryptoAtoms (in_MinAtoms inp))) (\<lambda>minimum.
      bind_res (sweep_budget (in_MaxGasAtoms inp)) (\<lambda>budget.
      bind_res (sweep_destination env s (in_Destination inp)) (\<lambda>dest.
      bind_res (if pe_frozen env (ch_ChainID chain) then refuse 409 ''chain frozen'' else Inr ()) (\<lambda>_.
      bind_res (cl_Finalized (pe_client env)) (\<lambda>block.
      bind_res (if sa_Contract asset = [] then Inr ()
                else cl_ValidateToken (pe_client env) (sa_Contract asset) (sa_Decimals asset) (bk_Number block)) (\<lambda>_.
      bind_res (pe_funding env v) (\<lambda>(funding, fundingPath).
      bind_res (if equalFold dest funding then refuse 400 ''destination is the funding address'' else Inr ()) (\<lambda>_.
      bind_res (sweep_addresses W wallet (in_AddressIDs inp)) (\<lambda>addresses.
      bind_res (fold_res (check_address env v dest) addresses ()) (\<lambda>_.
      bind_res (rawGasPrice (pe_client env)) (\<lambda>raw.
      bind_res (cryptoSweepSelectFee (in_FeeMode inp) (in_GasPriceAtoms inp) raw) (\<lambda>(mode, price).
      bind_res (cl_NativeBalance (pe_client env) funding (bk_Number block)) (\<lambda>fundBalance.
      bind_res (plan_addresses (plan_address W (pe_client env) wallet chain asset dest funding (bk_Number block) minimum raw price) addresses) (\<lambda>items.
      bind_res (plan_sums items) (\<lambda>t.
      Inr \<lparr>qu_ActorID = actor,
        qu_Preview = make_preview env wallet chain asset dest minimum budget (bk_Number block) funding fundBalance mode price items t,
        qu_Chain = chain, qu_Asset = asset\<rparr>)))))))))))))))) = Inr q"
    unfolding cryptoPreviewSweep_def by (auto simp: res_simps split: if_split_asm)
  from rest show thesis
    unfolding bind_res_eq_Inr split_paired_Ex prod.case guard_Inr
    by (elim exE conjE, intro that [OF a]) (assumption | erule sym | simp)+
qed

lemma selected_fee: "cryptoSweepSelectFee feeMode text raw = Inr (mode, price) \<Longrightarrow> raw \<le> price \<and> price \<le> cryptoFeePrice raw 125"
  by (auto simp: cryptoSweepSelectFee_def Let_def cryptoFeePrice_def res_simps split: if_split_asm sum.split_asm)

text \<open>The plan of an address names it, at the price of the preview.\<close>

definition planned_for :: "nat \<Rightarrow> CryptoWalletAddress \<Rightarrow> CryptoSweepPlanItem \<Rightarrow> bool" where
  "planned_for price x i \<longleftrightarrow> it_AddressID i = wa_ID x \<and> it_Address i = wa_Address x \<and> it_Path i = wa_Path x \<and>
    it_GasPriceAtoms i = nat_string price \<and> it_GasFeeAtoms i = nat_string (it_GasLimit i * price) \<and>
    it_FundingGasAtoms i = nat_string (it_FundingGasLimit i * price)"

lemma nat_string_0: "nat_string 0 = ''0''"
  by code_simp

lemma skip_Some: "(if b then Inr None else r) = Inr (Some i) \<longleftrightarrow> \<not> b \<and> r = Inr (Some i)"
  by simp

lemma if_Some: "(if b then r else r') = Inr (Some i) \<longleftrightarrow> b \<and> r = Inr (Some i) \<or> \<not> b \<and> r' = Inr (Some i)"
  by simp

lemma plan_address_shape:
  "plan_address W c wallet chain asset dest funding block minimum raw price x = Inr (Some i) \<Longrightarrow> planned_for price x i"
  unfolding plan_address_def Let_def skip_Some bind_res_eq_Inr if_Some
  by (elim exE conjE disjE; simp only: sum.inject option.inject sum.distinct option.distinct;
      drule sym; simp only: planned_for_def nat_string_0 CryptoSweepPlanItem.simps mult_0)

lemma plan_addresses_planned:
  assumes "plan_addresses f xs = Inr items" "\<And>x i. f x = Inr (Some i) \<Longrightarrow> planned_for price x i"
  shows "subseq (map it_AddressID items) (map wa_ID xs) \<and> (\<forall>i \<in> set items. \<exists>x \<in> set xs. planned_for price x i)"
  using assms(1)
proof (induction xs arbitrary: items)
  case (Cons x xs)
  then obtain p rest where p: "f x = Inr p" "plan_addresses f xs = Inr rest" "items = (case p of None \<Rightarrow> rest | Some i \<Rightarrow> i # rest)"
    by (auto simp: res_simps)
  note IH = Cons.IH [OF p(2)]
  show ?case
  proof (cases p)
    case None
    with p IH show ?thesis by auto
  next
    case (Some i)
    with p assms(2) have "planned_for price x i" by simp
    with p Some IH show ?thesis by (auto simp: planned_for_def)
  qed
qed simp

lemma sweep_addresses_own:
  assumes "sweep_addresses W wallet ids = Inr xs" "distinct (map wa_ID (wt_addresses W))"
  shows "set xs \<subseteq> set (cryptoWalletNetworkAddresses W wallet)" "length xs \<le> 1000" "distinct (map wa_ID xs)"
proof -
  have all: "distinct (map wa_ID (cryptoWalletNetworkAddresses W wallet))"
    using assms(2) by (simp add: cryptoWalletNetworkAddresses_def distinct_map inj_on_def)
  have ok: "set xs \<subseteq> set (cryptoWalletNetworkAddresses W wallet) \<and> length xs \<le> 1000 \<and> distinct (map wa_ID xs)"
    if "xs = take 1001 (cryptoWalletNetworkAddresses W wallet) \<and> length xs \<le> 1000 \<or>
      (\<exists>p. xs = filter p (cryptoWalletNetworkAddresses W wallet)) \<and> length xs \<le> 1000"
    using that all by (auto simp: distinct_map_filter take_map [symmetric] dest: in_set_takeD)
  have "xs = take 1001 (cryptoWalletNetworkAddresses W wallet) \<and> length xs \<le> 1000 \<or>
      (\<exists>p. xs = filter p (cryptoWalletNetworkAddresses W wallet)) \<and> length xs \<le> 1000"
    using assms(1) by (auto simp: sweep_addresses_def Let_def split: if_split_asm)
  from ok [OF this] show "set xs \<subseteq> set (cryptoWalletNetworkAddresses W wallet)" "length xs \<le> 1000" "distinct (map wa_ID xs)" by simp_all
qed

lemma check_address_ok:
  assumes "fold_res (check_address env v dest) xs () = Inr ()" "x \<in> set xs"
  shows "\<not> equalFold (wa_Address x) dest" "pe_derive env (cw_XPub v) (cw_Path v) (wa_Index x) = Inr (wa_Address x)"
proof -
  have "\<not> equalFold (wa_Address x) dest \<and> pe_derive env (cw_XPub v) (cw_Path v) (wa_Index x) = Inr (wa_Address x)"
    using assms
  proof (induction xs)
    case (Cons y ys)
    from Cons.prems(1) have "check_address env v dest y () = Inr ()" "fold_res (check_address env v dest) ys () = Inr ()"
      by (auto simp: res_simps)
    with Cons show ?case by (auto simp: check_address_def split: sum.split_asm if_split_asm)
  qed simp
  then show "\<not> equalFold (wa_Address x) dest" "pe_derive env (cw_XPub v) (cw_Path v) (wa_Index x) = Inr (wa_Address x)" by simp_all
qed

lemma sweep_asset_chain: "sweep_asset s chain i = Inr asset \<Longrightarrow> sa_ChainID asset = ch_ChainID chain"
  by (auto simp: sweep_asset_def split: if_split_asm option.split_asm)

text \<open>The sums of a plan.\<close>

lemma atoms_or_panic_Inr: "atoms_or_panic s = Inr n \<Longrightarrow> n = digits_value s"
  by (auto simp: atoms_or_panic_def cryptoAtoms_value split: sum.split_asm)

lemma plan_sums_from:
  assumes "fold_res add_item items t0 = Inr t"
  shows "pt_fees t = pt_fees t0 + (\<Sum>i\<leftarrow>items. digits_value (it_GasFeeAtoms i) + digits_value (it_FundingGasAtoms i)) \<and>
    pt_topups t = pt_topups t0 + (\<Sum>i\<leftarrow>items. digits_value (it_TopupAtoms i)) \<and>
    pt_fundFees t = pt_fundFees t0 + (\<Sum>i\<leftarrow>items. digits_value (it_FundingGasAtoms i)) \<and>
    pt_total t = pt_total t0 + (\<Sum>i\<leftarrow>items. digits_value (it_AmountAtoms i))"
  using assms
proof (induction items arbitrary: t0)
  case (Cons i items)
  from Cons.prems obtain u where u: "add_item i t0 = Inr u" "fold_res add_item items u = Inr t" by (auto simp: res_simps)
  from u(1) have "u = \<lparr>pt_total = pt_total t0 + digits_value (it_AmountAtoms i), pt_topups = pt_topups t0 + digits_value (it_TopupAtoms i),
      pt_fees = pt_fees t0 + digits_value (it_GasFeeAtoms i) + digits_value (it_FundingGasAtoms i),
      pt_fundFees = pt_fundFees t0 + digits_value (it_FundingGasAtoms i)\<rparr>"
    by (auto simp: add_item_def res_simps dest!: atoms_or_panic_Inr)
  with Cons.IH [OF u(2)] show ?case by simp
qed simp

section \<open>The budget of a preview\<close>

lemma planned_sums:
  assumes "\<forall>i \<in> set items. \<exists>x \<in> xs. planned_for price x i"
  shows "(\<Sum>i\<leftarrow>items. digits_value (it_GasFeeAtoms i) + digits_value (it_FundingGasAtoms i)) =
      (\<Sum>i\<leftarrow>items. (it_GasLimit i + it_FundingGasLimit i) * price)"
    "(\<Sum>i\<leftarrow>items. digits_value (it_TopupAtoms i)) + (\<Sum>i\<leftarrow>items. digits_value (it_FundingGasAtoms i)) =
      (\<Sum>i\<leftarrow>items. digits_value (it_TopupAtoms i) + it_FundingGasLimit i * price)"
  using assms by (induction items) (auto simp: planned_for_def algebra_simps)

definition within_budget :: "nat \<Rightarrow> nat \<Rightarrow> nat \<Rightarrow> CryptoSweepPreview \<Rightarrow> bool" where
  "within_budget price limit balance p \<longleftrightarrow>
    pv_MaxGasAtoms p = nat_string limit \<and> pv_FundingBalanceAtoms p = nat_string balance \<and>
    list_all (\<lambda>i. it_GasPriceAtoms i = nat_string price \<and> \<not> equalFold (it_Address i) (pv_Destination p)) (pv_Items p) \<and>
    \<not> equalFold (pv_Destination p) (pv_FundingAddress p) \<and>
    (\<Sum>i\<leftarrow>pv_Items p. (it_GasLimit i + it_FundingGasLimit i) * price) \<le> limit \<and>
    (\<Sum>i\<leftarrow>pv_Items p. digits_value (it_TopupAtoms i) + it_FundingGasLimit i * price) \<le> balance"

lemma preview_budget:
  assumes "cryptoPreviewSweep env W s actor wallet inp = Inr q" "pv_CanSubmit (qu_Preview q)"
  shows "\<exists>raw price limit balance. rawGasPrice (pe_client env) = Inr raw \<and> raw \<le> price \<and> price \<le> (raw * 125 + 99) div 100 \<and>
    within_budget price limit balance (qu_Preview q) \<and>
    (trim_space (in_MaxGasAtoms inp) \<noteq> [] \<longrightarrow> cryptoAtoms (in_MaxGasAtoms inp) = Inr limit)"
proof (rule previewE [OF assms(1)])
  fix v chain asset minimum budget dest block funding path addresses raw mode price fund items t
  assume d: "sweep_budget (in_MaxGasAtoms inp) = Inr budget" "\<not> equalFold dest funding"
    "fold_res (check_address env v dest) addresses () = Inr ()" "rawGasPrice (pe_client env) = Inr raw"
    "cryptoSweepSelectFee (in_FeeMode inp) (in_GasPriceAtoms inp) raw = Inr (mode, price)"
    "plan_addresses (plan_address W (pe_client env) wallet chain asset dest funding block minimum raw price) addresses = Inr items"
    "plan_sums items = Inr t"
    and q: "q = \<lparr>qu_ActorID = actor, qu_Preview = make_preview env wallet chain asset dest minimum budget block funding fund mode price items t,
      qu_Chain = chain, qu_Asset = asset\<rparr>"
  have plan: "\<forall>i \<in> set items. \<exists>x \<in> set addresses. planned_for price x i"
    using plan_addresses_planned [OF d(6), of price] plan_address_shape by blast
  have own: "\<not> equalFold (it_Address i) dest" if "i \<in> set items" for i
    using plan that check_address_ok(1) [OF d(3)] by (auto simp: planned_for_def)
  have price: "it_GasPriceAtoms i = nat_string price" if "i \<in> set items" for i
    using plan that by (auto simp: planned_for_def)
  have sums: "pt_fees t = (\<Sum>i\<leftarrow>items. (it_GasLimit i + it_FundingGasLimit i) * price)"
    "pt_topups t + pt_fundFees t = (\<Sum>i\<leftarrow>items. digits_value (it_TopupAtoms i) + it_FundingGasLimit i * price)"
    using plan_sums_from [OF d(7) [unfolded plan_sums_def]] planned_sums [OF plan] by simp_all
  define limit where "limit = (case budget of None \<Rightarrow> pt_fees t | Some b \<Rightarrow> b)"
  have can: "pt_fees t \<le> limit" "pt_topups t + pt_fundFees t \<le> fund"
    using assms(2) by (simp_all add: q make_preview_def Let_def limit_def)
  have "within_budget price limit fund (qu_Preview q)"
    unfolding within_budget_def using own price d(2) can
    by (simp add: q make_preview_def Let_def limit_def [symmetric] sums list_all_iff)
  moreover have "trim_space (in_MaxGasAtoms inp) \<noteq> [] \<longrightarrow> cryptoAtoms (in_MaxGasAtoms inp) = Inr limit"
    using d(1) by (auto simp: sweep_budget_def limit_def split: if_split_asm sum.split_asm)
  moreover have "raw \<le> price \<and> price \<le> (raw * 125 + 99) div 100"
    using selected_fee [OF d(5)] by (simp add: cryptoFeePrice_def)
  ultimately show ?thesis using d(4) by blast
qed

section \<open>Quotes of previews\<close>

text \<open>The ids of addresses and of the history of wallets are keys.\<close>

definition tables_ok :: "WalletTables \<Rightarrow> bool" where
  "tables_ok W \<longleftrightarrow> distinct (map wa_ID (wt_addresses W)) \<and> distinct (map fst (wt_history W))"

text \<open>The quote is one that \<open>cryptoPreviewSweep\<close> returned, at some time before.\<close>

definition previewed :: "sweep_vault \<Rightarrow> WalletTables \<Rightarrow> int \<Rightarrow> cryptoSweepQuote \<Rightarrow> bool" where
  "previewed A W now q \<longleftrightarrow> (\<exists>env s inp. cryptoPreviewSweep env W s (qu_ActorID q) (pv_WalletID (qu_Preview q)) inp = Inr q \<and>
     pe_funding env = va_funding A \<and> pe_now env \<le> now)"

lemma history_unique:
  "distinct (map fst H) \<Longrightarrow> (k, h) \<in> set H \<Longrightarrow> (k, h') \<in> set H \<Longrightarrow> h = h'"
  by (metis map_of_is_SomeI option.inject)

lemma same_descriptor_iff:
  assumes "distinct (map fst (wt_history W))"
  shows "cryptoWalletSameDescriptor W a b \<longleftrightarrow> (\<exists>h. (a, h) \<in> set (wt_history W) \<and> (b, h) \<in> set (wt_history W))"
proof -
  define P where "P = (\<lambda>(x, y). fst x = a \<and> fst y = b \<and> snd x = (snd y :: string))"
  define L where "L = filter P (List.product (wt_history W) (wt_history W))"
  have d: "distinct L" using assms unfolding L_def by (intro distinct_filter distinct_product) (simp_all add: distinct_map)
  have one: "x = y" if "x \<in> set L" "y \<in> set L" for x y
    using that history_unique [OF assms] by (auto simp: L_def P_def)
  have len: "length L = 1 \<longleftrightarrow> L \<noteq> []"
  proof
    assume "L \<noteq> []"
    then obtain x xs where L: "L = x # xs" by (cases L) auto
    with one [of x "hd xs"] d have "xs = []" by (cases xs) auto
    with L show "length L = 1" by simp
  qed auto
  have "cryptoWalletSameDescriptor W a b \<longleftrightarrow> length L = 1"
    by (simp add: cryptoWalletSameDescriptor_def L_def P_def)
  also have "\<dots> \<longleftrightarrow> (\<exists>h. (a, h) \<in> set (wt_history W) \<and> (b, h) \<in> set (wt_history W))"
    unfolding len by (fastforce simp: L_def P_def filter_empty_conv)
  finally show ?thesis .
qed

lemma network_address_owned:
  assumes "tables_ok W" "x \<in> set (cryptoWalletNetworkAddresses W wallet)" "planned_for price x i"
  shows "plan_owned W wallet i"
proof -
  have x: "x \<in> set (wt_addresses W)" "owner_scope W wallet (wa_WalletID x)"
    using assms(2) by (simp_all add: cryptoWalletNetworkAddresses_def)
  then obtain h where "(wa_WalletID x, h) \<in> set (wt_history W)" "map_of (wt_history W) wallet = Some h"
    by (auto simp: owner_scope_def list_ex_iff)
  then have "cryptoWalletSameDescriptor W (wa_WalletID x) wallet"
    using assms(1) by (auto simp: tables_ok_def same_descriptor_iff dest: map_of_SomeD)
  moreover have "row_with wa_ID (wa_ID x) (wt_addresses W) = Some x"
    by (rule row_with_unique) (use assms(1) x(1) in \<open>simp_all add: tables_ok_def\<close>)
  ultimately show ?thesis using assms(3) by (simp add: plan_owned_def planned_for_def)
qed

definition quote_sound :: "sweep_vault \<Rightarrow> WalletTables \<Rightarrow> int \<Rightarrow> cryptoSweepQuote \<Rightarrow> bool" where
  "quote_sound A W now q \<longleftrightarrow>
    (let p = qu_Preview q in
     (\<exists>v path. cryptoWalletByID W (pv_WalletID p) = Inr v \<and> va_funding A v = Inr (pv_FundingAddress p, path)) \<and>
     cryptoSweepAllowed (qu_Chain q) = Inr () \<and> pv_ChainID p = ch_ID (qu_Chain q) \<and> pv_AssetID p = sa_ID (qu_Asset q) \<and>
     sa_ChainID (qu_Asset q) = ch_ChainID (qu_Chain q) \<and> pv_CheckedAt p \<le> now \<and> pv_CheckedAt p < pv_ExpiresAt p \<and>
     (pv_CanSubmit p \<longrightarrow> (\<exists>price limit balance. within_budget price limit balance p)) \<and>
     length (pv_Items p) \<le> 1000 \<and> distinct (map it_AddressID (pv_Items p)) \<and> list_all (plan_owned W (pv_WalletID p)) (pv_Items p))"

lemma distinct_subseq: "subseq xs ys \<Longrightarrow> distinct ys \<Longrightarrow> distinct xs"
  by (induction rule: list_emb.induct) (auto dest: list_emb_set)

lemma previewed_sound:
  assumes "previewed A W now q" "tables_ok W"
  shows "quote_sound A W now q"
proof -
  obtain env s inp where p: "cryptoPreviewSweep env W s (qu_ActorID q) (pv_WalletID (qu_Preview q)) inp = Inr q"
    "pe_funding env = va_funding A" "pe_now env \<le> now"
    using assms(1) by (auto simp: previewed_def)
  show ?thesis
  proof (rule previewE [OF p(1)])
    fix v chain asset minimum budget dest block funding path addresses raw mode price fund items t
    assume d: "cryptoWalletByID W (pv_WalletID (qu_Preview q)) = Inr v" "cryptoSweepAllowed chain = Inr ()"
      "sweep_asset s chain (in_AssetID inp) = Inr asset" "pe_funding env v = Inr (funding, path)"
      "sweep_addresses W (pv_WalletID (qu_Preview q)) (in_AddressIDs inp) = Inr addresses"
      "plan_addresses (plan_address W (pe_client env) (pv_WalletID (qu_Preview q)) chain asset dest funding block minimum raw price) addresses = Inr items"
      and q: "q = \<lparr>qu_ActorID = qu_ActorID q, qu_Preview = make_preview env (pv_WalletID (qu_Preview q)) chain asset dest minimum budget block
        funding fund mode price items t, qu_Chain = chain, qu_Asset = asset\<rparr>"
    define w where "w = pv_WalletID (qu_Preview q)"
    have f: "qu_Chain q = chain" "qu_Asset q = asset" "pv_Items (qu_Preview q) = items" "pv_FundingAddress (qu_Preview q) = funding"
      "pv_ChainID (qu_Preview q) = ch_ID chain" "pv_AssetID (qu_Preview q) = sa_ID asset" "pv_CheckedAt (qu_Preview q) = pe_now env"
      "pv_ExpiresAt (qu_Preview q) = pe_now env + 120"
      by (subst q, simp add: make_preview_def Let_def)+
    have own: "set addresses \<subseteq> set (cryptoWalletNetworkAddresses W w)" "length addresses \<le> 1000" "distinct (map wa_ID addresses)"
      using sweep_addresses_own [OF d(5)] assms(2) by (simp_all add: tables_ok_def w_def)
    have plan: "subseq (map it_AddressID items) (map wa_ID addresses)" "\<forall>i \<in> set items. \<exists>x \<in> set addresses. planned_for price x i"
      using plan_addresses_planned [OF d(6), of price] plan_address_shape by blast+
    have "length items \<le> 1000" using list_emb_length [OF plan(1)] own(2) by simp
    moreover have "list_all (plan_owned W w) items"
      using plan(2) own(1) network_address_owned [OF assms(2)] unfolding list_all_iff by (meson subsetD)
    moreover have "pv_CanSubmit (qu_Preview q) \<longrightarrow> (\<exists>price limit balance. within_budget price limit balance (qu_Preview q))"
      using preview_budget [OF p(1)] by blast
    ultimately show ?thesis
      using d(1-4) p(2,3) distinct_subseq [OF plan(1) own(3)] sweep_asset_chain [OF d(3)]
      by (simp add: quote_sound_def f w_def)
  qed
qed

end
