(* ===== verification/Sweep_Steps.thy ===== *)
theory Sweep_Steps
  imports Sweep_Facts
begin

text \<open>
  The life of sweeps: what administrators, workers and the rest of the panel do to the tables, in any order, and the
  invariant that every one of these steps keeps. The startup check \<open>validateCryptoSweeps\<close> follows from it.
\<close>

section \<open>Rows by key\<close>

lemma row_with_set_kept:
  "(\<And>r. key (f r) = key r) \<Longrightarrow> row_with key k (set_where p f rows) = map_option (\<lambda>r. if p r then f r else r) (row_with key k rows)"
  by (induction rows) (auto simp: row_with_def)

lemma row_with_append:
  "row_with key k (xs @ ys) = (case row_with key k xs of None \<Rightarrow> row_with key k ys | Some r \<Rightarrow> Some r)"
  by (induction xs) (auto simp: row_with_def)

lemma find_unique:
  assumes "distinct (map key rows)" "r \<in> set rows" "p r"
  shows "find (\<lambda>x. key x = key r \<and> p x) rows = Some r"
  using assms by (induction rows) auto

definition quote_of :: "sweep_vault \<Rightarrow> SweepStore \<Rightarrow> string \<Rightarrow> cryptoSweepQuote option" where
  "quote_of A S i = (case row_with sj_ID i (ss_jobs S) of None \<Rightarrow> None | Some j \<Rightarrow> va_open A (sj_Quote j))"

section \<open>The invariant\<close>

text \<open>A stored transaction is valid, within the plan of its item, and has the evidence of its state.\<close>

definition tx_good :: "sweep_vault \<Rightarrow> SweepStore \<Rightarrow> cryptoChainTransaction \<Rightarrow> bool" where
  "tx_good A S t \<longleftrightarrow> (\<exists>x q plan. row_with si_ID (ct_ItemID t) (ss_items S) = Some x \<and> si_JobID x = ct_JobID t \<and>
     quote_of A S (ct_JobID t) = Some q \<and> plan_for (qu_Preview q) (si_AddressID x) = Some plan \<and>
     (\<exists>e. cryptoValidateSignedIntent (va_keys A) t = Inr e) \<and> cryptoTransactionMatchesPlan t q plan = Inr () \<and>
     validateCryptoSweepReceipt t)"

definition item_good :: "sweep_vault \<Rightarrow> SweepStore \<Rightarrow> SweepItem \<Rightarrow> bool" where
  "item_good A S x \<longleftrightarrow> (\<exists>j q. row_with sj_ID (si_JobID x) (ss_jobs S) = Some j \<and> va_open A (sj_Quote j) = Some q \<and>
     item_planned (qu_Preview q) x \<and> item_state_ok j x (item_txs S (si_ID x) ''gas'') (item_txs S (si_ID x) ''sweep''))"

definition job_good :: "sweep_vault \<Rightarrow> int \<Rightarrow> SweepStore \<Rightarrow> SweepJob \<Rightarrow> bool" where
  "job_good A now S j \<longleftrightarrow> (\<exists>q. va_open A (sj_Quote j) = Some q \<and> quote_agrees A S j q \<and> lease_ok j \<and> sj_Updated j \<le> now \<and>
     distinct (map it_AddressID (pv_Items (qu_Preview q))) \<and> (\<exists>price limit balance. within_budget price limit balance (qu_Preview q)) \<and>
     list_all (plan_owned (ss_tables S) (sj_WalletID j)) (pv_Items (qu_Preview q)) \<and>
     length (filter (\<lambda>x. si_JobID x = sj_ID j) (ss_items S)) = length (pv_Items (qu_Preview q)))"

text \<open>An item is the only one of its address in its job.\<close>

definition item_key :: "SweepItem \<Rightarrow> string \<times> string" where
  "item_key x = (si_JobID x, si_AddressID x)"

definition keys_ok :: "cryptoChainTransaction list \<Rightarrow> bool" where
  "keys_ok ts \<longleftrightarrow> distinct (map ct_ID ts) \<and> distinct (map tx_key ts) \<and> distinct (map (\<lambda>t. (ct_ItemID t, ct_Kind t)) ts)"

definition sweep_inv :: "sweep_vault \<Rightarrow> int \<Rightarrow> SweepStore \<Rightarrow> bool" where
  "sweep_inv A now S \<longleftrightarrow> tables_ok (ss_tables S) \<and> distinct (map sj_ID (ss_jobs S)) \<and> distinct (map si_ID (ss_items S)) \<and>
     distinct (map item_key (ss_items S)) \<and> keys_ok (ss_txs S) \<and>
     (\<forall>t \<in> set (ss_txs S). tx_good A S t) \<and> (\<forall>x \<in> set (ss_items S). item_good A S x) \<and> (\<forall>j \<in> set (ss_jobs S). job_good A now S j)"

lemma sweep_inv_later: "sweep_inv A now S \<Longrightarrow> now \<le> now' \<Longrightarrow> sweep_inv A now' S"
  unfolding sweep_inv_def job_good_def by fastforce

text \<open>The startup check holds in every store with the invariant.\<close>

lemma tx_good_approved:
  assumes "tx_good A S t" "distinct (map si_ID (ss_items S))" "quote_of A S (ct_JobID t) = Some q"
  shows "tx_approved A S q t"
proof -
  obtain x plan e where x: "row_with si_ID (ct_ItemID t) (ss_items S) = Some x" "si_JobID x = ct_JobID t"
    "plan_for (qu_Preview q) (si_AddressID x) = Some plan" "cryptoValidateSignedIntent (va_keys A) t = Inr e"
    "cryptoTransactionMatchesPlan t q plan = Inr ()" "validateCryptoSweepReceipt t"
    using assms(1,3) by (auto simp: tx_good_def)
  have "x \<in> set (ss_items S)" "si_ID x = ct_ItemID t" using row_with_Some [OF x(1)] by auto
  then have "find (\<lambda>i. si_ID i = ct_ItemID t \<and> si_JobID i = ct_JobID t) (ss_items S) = Some x"
    using find_unique [OF assms(2), of x "\<lambda>i. si_JobID i = ct_JobID t"] x(2) by simp
  with x show ?thesis by (simp add: tx_approved_def)
qed

lemma inv_startup_check:
  assumes "sweep_inv A now S"
  shows "validateCryptoSweeps A S"
proof -
  note inv = assms [unfolded sweep_inv_def]
  have jobs: "row_with sj_ID (sj_ID j) (ss_jobs S) = Some j" if "j \<in> set (ss_jobs S)" for j
    by (rule row_with_unique) (use inv that in simp_all)
  have "validateCryptoSweepJob A S j" if j: "j \<in> set (ss_jobs S)" for j
  proof -
    obtain q where q: "va_open A (sj_Quote j) = Some q" "quote_agrees A S j q" "lease_ok j"
      "distinct (map it_AddressID (pv_Items (qu_Preview q)))" "list_all (plan_owned (ss_tables S) (sj_WalletID j)) (pv_Items (qu_Preview q))"
      "length (filter (\<lambda>x. si_JobID x = sj_ID j) (ss_items S)) = length (pv_Items (qu_Preview q))"
      using inv j by (auto simp: job_good_def)
    have qo: "quote_of A S (sj_ID j) = Some q" using jobs [OF j] q(1) by (simp add: quote_of_def)
    have items: "item_planned (qu_Preview q) x \<and> item_state_ok j x (item_txs S (si_ID x) ''gas'') (item_txs S (si_ID x) ''sweep'')"
      if "x \<in> set (ss_items S)" "si_JobID x = sj_ID j" for x
      using inv that jobs [OF j] q(1) by (auto simp: item_good_def)
    have txs: "tx_approved A S q t" if "t \<in> set (ss_txs S)" "ct_JobID t = sj_ID j" for t
      using tx_good_approved inv that qo by auto
    have "distinct (map si_ID (filter (\<lambda>x. si_JobID x = sj_ID j) (ss_items S)))"
      "distinct (map (\<lambda>t. (ct_ItemID t, ct_Kind t)) (filter (\<lambda>t. ct_JobID t = sj_ID j) (ss_txs S)))"
      using inv by (simp_all add: keys_ok_def distinct_map_filter)
    with q items txs show ?thesis
      unfolding validateCryptoSweepJob_def q(1) option.case Let_def
      by (simp add: list_all_iff distinct_remdups_id)
  qed
  moreover have "row_with sj_ID (si_JobID x) (ss_jobs S) \<noteq> None" if "x \<in> set (ss_items S)" for x
    using inv that by (fastforce simp: item_good_def)
  moreover have "case row_with si_ID (ct_ItemID t) (ss_items S) of None \<Rightarrow> False | Some i \<Rightarrow> si_JobID i = ct_JobID t"
    if "t \<in> set (ss_txs S)" for t
    using inv that by (fastforce simp: tx_good_def)
  ultimately show ?thesis
    unfolding validateCryptoSweeps_def list_all_iff using inv by (simp add: keys_ok_def)
qed

section \<open>Changes of rows\<close>

text \<open>An update of an item leaves everything but its state and message.\<close>

definition keeps_item :: "(SweepItem \<Rightarrow> SweepItem) \<Rightarrow> bool" where
  "keeps_item g \<longleftrightarrow> (\<forall>x. si_ID (g x) = si_ID x \<and> si_JobID (g x) = si_JobID x \<and> si_AddressID (g x) = si_AddressID x \<and>
     si_Address (g x) = si_Address x \<and> si_Path (g x) = si_Path x \<and> si_Amount (g x) = si_Amount x \<and> si_GasNeeded (g x) = si_GasNeeded x)"

lemma keeps_item_id [simp]: "keeps_item (\<lambda>x. x)"
  and keeps_item_state [simp]: "keeps_item (\<lambda>x. x\<lparr>si_State := s, si_Error := m\<rparr>)"
  by (simp_all add: keeps_item_def)

definition with_rows :: "string \<Rightarrow> (SweepItem \<Rightarrow> SweepItem) \<Rightarrow> cryptoChainTransaction list \<Rightarrow> SweepStore \<Rightarrow> SweepStore" where
  "with_rows item g ts S = S\<lparr>ss_items := set_where (\<lambda>i. si_ID i = item) g (ss_items S), ss_txs := ts\<rparr>"

lemma rows_inv:
  assumes inv: "sweep_inv A now S" and g: "keeps_item g" and keys: "keys_ok ts" and good: "\<And>t. t \<in> set ts \<Longrightarrow> tx_good A S t"
    and other: "\<And>y k. y \<noteq> item \<Longrightarrow> find (\<lambda>t. ct_ItemID t = y \<and> ct_Kind t = k) ts = item_txs S y k"
    and own: "\<And>x j. x \<in> set (ss_items S) \<Longrightarrow> si_ID x = item \<Longrightarrow> row_with sj_ID (si_JobID x) (ss_jobs S) = Some j \<Longrightarrow>
      item_state_ok j x (item_txs S item ''gas'') (item_txs S item ''sweep'') \<Longrightarrow>
      item_state_ok j (g x) (find (\<lambda>t. ct_ItemID t = item \<and> ct_Kind t = ''gas'') ts) (find (\<lambda>t. ct_ItemID t = item \<and> ct_Kind t = ''sweep'') ts)"
  shows "sweep_inv A now (with_rows item g ts S)"
proof -
  define T where "T = with_rows item g ts S"
  note inv' = inv [unfolded sweep_inv_def]
  have f: "ss_jobs T = ss_jobs S" "ss_tables T = ss_tables S" "ss_txs T = ts"
    "ss_items T = set_where (\<lambda>i. si_ID i = item) g (ss_items S)"
    by (simp_all add: T_def with_rows_def)
  have qo: "quote_of A T i = quote_of A S i" for i by (simp add: quote_of_def f)
  have look: "row_with si_ID k (ss_items T) = map_option (\<lambda>r. if si_ID r = item then g r else r) (row_with si_ID k (ss_items S))" for k
    unfolding f by (rule row_with_set_kept) (use g in \<open>simp add: keeps_item_def\<close>)
  have "tx_good A T t" if t: "t \<in> set ts" for t
  proof -
    obtain x q plan where x: "row_with si_ID (ct_ItemID t) (ss_items S) = Some x" "si_JobID x = ct_JobID t"
      "quote_of A S (ct_JobID t) = Some q" "plan_for (qu_Preview q) (si_AddressID x) = Some plan"
      "(\<exists>e. cryptoValidateSignedIntent (va_keys A) t = Inr e) \<and> cryptoTransactionMatchesPlan t q plan = Inr () \<and> validateCryptoSweepReceipt t"
      using good [OF t] unfolding tx_good_def by blast
    define y where "y = (if si_ID x = item then g x else x)"
    have "row_with si_ID (ct_ItemID t) (ss_items T) = Some y" "si_JobID y = ct_JobID t" "si_AddressID y = si_AddressID x"
      using x(1,2) g by (simp_all only: look y_def) (simp_all add: keeps_item_def)
    with x(3-5) show ?thesis unfolding tx_good_def qo by metis
  qed
  moreover have "item_good A T y" if y: "y \<in> set (ss_items T)" for y
  proof -
    from y obtain x where x: "x \<in> set (ss_items S)" "y = (if si_ID x = item then g x else x)"
      by (auto simp: f set_set_where)
    from inv' x(1) obtain j q where j: "row_with sj_ID (si_JobID x) (ss_jobs S) = Some j" "va_open A (sj_Quote j) = Some q"
      "item_planned (qu_Preview q) x" "item_state_ok j x (item_txs S (si_ID x) ''gas'') (item_txs S (si_ID x) ''sweep'')"
      by (auto simp: item_good_def)
    show ?thesis
    proof (cases "si_ID x = item")
      case True
      with own [OF x(1) True j(1)] j g x(2) show ?thesis
        by (auto simp: item_good_def item_txs_def f keeps_item_def item_planned_def split: option.splits)
    next
      case False
      with other [OF False] j x(2) show ?thesis by (auto simp: item_good_def item_txs_def f)
    qed
  qed
  moreover have "job_good A now T j" if "j \<in> set (ss_jobs S)" for j
  proof -
    have "length (filter (\<lambda>x. si_JobID x = sj_ID j) (ss_items T)) = length (filter (\<lambda>x. si_JobID x = sj_ID j) (ss_items S))"
      using g unfolding f by (induction "ss_items S") (auto simp: keeps_item_def set_where_def filter_map comp_def if_distrib cong: if_cong)
    with inv' that show ?thesis by (auto simp: job_good_def quote_agrees_def f)
  qed
  moreover have "map si_ID (ss_items T) = map si_ID (ss_items S)" "map item_key (ss_items T) = map item_key (ss_items S)"
    unfolding f by (rule map_set_where_key; use g in \<open>simp add: keeps_item_def item_key_def\<close>)+
  ultimately show ?thesis
    using inv' keys unfolding T_def [symmetric] sweep_inv_def f(1-3) by auto
qed

text \<open>The transaction of an item and kind, when one row is replaced or added.\<close>

lemma set_where_one:
  assumes "distinct (map key rows)" "r \<in> set rows"
  shows "set_where (\<lambda>x. key x = key r) f rows = set_where (\<lambda>x. key x = key r) (\<lambda>_. f r) rows"
proof -
  have "x = r" if "x \<in> set rows" "key x = key r" for x
    using assms that by (meson eq_key_imp_eq_value distinct_map inj_onD)
  then show ?thesis by (auto simp: set_where_def)
qed

lemma find_set_where:
  "(\<And>r. r \<in> set rows \<Longrightarrow> p r \<Longrightarrow> P r = P w) \<Longrightarrow>
    find P (set_where p (\<lambda>_. w) rows) = map_option (\<lambda>r. if p r then w else r) (find P rows)"
  by (induction rows) auto

lemma tx_unique:
  assumes "keys_ok ts" "v \<in> set ts" "t \<in> set ts"
  shows "ct_ID t = ct_ID v \<Longrightarrow> t = v" "ct_ItemID t = ct_ItemID v \<Longrightarrow> ct_Kind t = ct_Kind v \<Longrightarrow> t = v"
  using assms unfolding keys_ok_def distinct_map by (auto dest!: inj_onD)

lemma tx_lookup:
  assumes "keys_ok ts" "v \<in> set ts"
  shows "find (\<lambda>t. ct_ItemID t = ct_ItemID v \<and> ct_Kind t = ct_Kind v) ts = Some v"
proof -
  obtain t where t: "find (\<lambda>t. ct_ItemID t = ct_ItemID v \<and> ct_Kind t = ct_Kind v) ts = Some t"
    using assms(2) by (cases "find (\<lambda>t. ct_ItemID t = ct_ItemID v \<and> ct_Kind t = ct_Kind v) ts") (auto simp: find_None_iff)
  then have "t \<in> set ts" "ct_ItemID t = ct_ItemID v" "ct_Kind t = ct_Kind v" by (auto simp: find_Some_iff)
  with tx_unique(2) [OF assms] t show ?thesis by simp
qed

lemma settled_lookup:
  assumes keys: "keys_ok (ss_txs S)" and v: "v \<in> set (ss_txs S)" and w: "same_intent w v"
  shows "find (\<lambda>t. ct_ItemID t = y \<and> ct_Kind t = k) (set_where (\<lambda>t. ct_ID t = ct_ID v) (\<lambda>_. w) (ss_txs S)) =
    (if y = ct_ItemID v \<and> k = ct_Kind v then Some w else item_txs S y k)"
proof -
  define P where "P t \<longleftrightarrow> ct_ItemID t = y \<and> ct_Kind t = k" for t :: cryptoChainTransaction
  have "find P (set_where (\<lambda>t. ct_ID t = ct_ID v) (\<lambda>_. w) (ss_txs S)) =
      map_option (\<lambda>t. if ct_ID t = ct_ID v then w else t) (find P (ss_txs S))"
    by (rule find_set_where) (use tx_unique(1) [OF keys v] w in \<open>auto simp: P_def same_intent_def\<close>)
  also have "\<dots> = (if y = ct_ItemID v \<and> k = ct_Kind v then Some w else find P (ss_txs S))"
  proof (cases "y = ct_ItemID v \<and> k = ct_Kind v")
    case True
    with tx_lookup [OF keys v] have "find P (ss_txs S) = Some v" by (simp add: P_def [abs_def])
    with True show ?thesis by simp
  next
    case False
    have "ct_ID t \<noteq> ct_ID v" if "find P (ss_txs S) = Some t" for t
    proof -
      from that have "t \<in> set (ss_txs S)" "P t" by (auto simp: find_Some_iff)
      with tx_unique(1) [OF keys v] False show ?thesis by (auto simp: P_def)
    qed
    with False show ?thesis by (cases "find P (ss_txs S)") auto
  qed
  finally show ?thesis by (simp add: P_def [abs_def] item_txs_def)
qed

lemma settle_inv:
  assumes inv: "sweep_inv A now S" and v: "v \<in> set (ss_txs S)" and w: "same_intent w v" "validateCryptoSweepReceipt w" and g: "keeps_item g"
    and own: "\<And>x j. x \<in> set (ss_items S) \<Longrightarrow> si_ID x = ct_ItemID v \<Longrightarrow> row_with sj_ID (si_JobID x) (ss_jobs S) = Some j \<Longrightarrow>
      item_state_ok j x (item_txs S (ct_ItemID v) ''gas'') (item_txs S (ct_ItemID v) ''sweep'') \<Longrightarrow>
      item_state_ok j (g x) (if ct_Kind v = ''gas'' then Some w else item_txs S (ct_ItemID v) ''gas'')
        (if ct_Kind v = ''sweep'' then Some w else item_txs S (ct_ItemID v) ''sweep'')"
  shows "sweep_inv A now (with_rows (ct_ItemID v) g (set_where (\<lambda>t. ct_ID t = ct_ID v) (\<lambda>_. w) (ss_txs S)) S)"
proof (rule rows_inv [OF inv g])
  have keys: "keys_ok (ss_txs S)" using inv by (simp add: sweep_inv_def)
  define ts where "ts = set_where (\<lambda>t. ct_ID t = ct_ID v) (\<lambda>_. w) (ss_txs S)"
  have eqs: "map ct_ID ts = map ct_ID (ss_txs S)" "map tx_key ts = map tx_key (ss_txs S)"
    "map (\<lambda>t. (ct_ItemID t, ct_Kind t)) ts = map (\<lambda>t. (ct_ItemID t, ct_Kind t)) (ss_txs S)"
    using w(1) tx_unique(1) [OF keys v] by (auto simp: ts_def set_where_def same_intent_def tx_key_def)
  show "keys_ok (set_where (\<lambda>t. ct_ID t = ct_ID v) (\<lambda>_. w) (ss_txs S))"
    using keys eqs unfolding keys_ok_def ts_def [symmetric] by simp
  show "tx_good A S t" if "t \<in> set (set_where (\<lambda>t. ct_ID t = ct_ID v) (\<lambda>_. w) (ss_txs S))" for t
  proof -
    have "tx_good A S v" using inv v by (simp add: sweep_inv_def)
    with w intent_same [OF w(1)] matches_same [OF w(1)] have "tx_good A S w" unfolding tx_good_def same_intent_def by auto
    with inv that show ?thesis by (auto simp: set_set_where sweep_inv_def)
  qed
  show "find (\<lambda>t. ct_ItemID t = y \<and> ct_Kind t = k) (set_where (\<lambda>t. ct_ID t = ct_ID v) (\<lambda>_. w) (ss_txs S)) = item_txs S y k"
    if "y \<noteq> ct_ItemID v" for y k
    using that by (simp add: settled_lookup [OF keys v w(1)])
  show "item_state_ok j (g x)
      (find (\<lambda>t. ct_ItemID t = ct_ItemID v \<and> ct_Kind t = ''gas'') (set_where (\<lambda>t. ct_ID t = ct_ID v) (\<lambda>_. w) (ss_txs S)))
      (find (\<lambda>t. ct_ItemID t = ct_ItemID v \<and> ct_Kind t = ''sweep'') (set_where (\<lambda>t. ct_ID t = ct_ID v) (\<lambda>_. w) (ss_txs S)))"
    if "x \<in> set (ss_items S)" "si_ID x = ct_ItemID v" "row_with sj_ID (si_JobID x) (ss_jobs S) = Some j"
      "item_state_ok j x (item_txs S (ct_ItemID v) ''gas'') (item_txs S (ct_ItemID v) ''sweep'')" for x j
    using own [OF that] by (simp add: settled_lookup [OF keys v w(1)] eq_commute [of _ "ct_Kind v"] cong: if_cong)
qed

lemma append_inv:
  assumes inv: "sweep_inv A now S" and row: "tx_good A S row" and ins: "insert_tx row (ss_txs S) = Inr (ss_txs S @ [row])"
    and key: "\<And>t. t \<in> set (ss_txs S) \<Longrightarrow> tx_key t \<noteq> tx_key row" and none: "item_txs S (ct_ItemID row) (ct_Kind row) = None" and g: "keeps_item g"
    and own: "\<And>x j. x \<in> set (ss_items S) \<Longrightarrow> si_ID x = ct_ItemID row \<Longrightarrow> row_with sj_ID (si_JobID x) (ss_jobs S) = Some j \<Longrightarrow>
      item_state_ok j x (item_txs S (ct_ItemID row) ''gas'') (item_txs S (ct_ItemID row) ''sweep'') \<Longrightarrow>
      item_state_ok j (g x) (if ct_Kind row = ''gas'' then Some row else item_txs S (ct_ItemID row) ''gas'')
        (if ct_Kind row = ''sweep'' then Some row else item_txs S (ct_ItemID row) ''sweep'')"
  shows "sweep_inv A now (with_rows (ct_ItemID row) g (ss_txs S @ [row]) S)"
proof (rule rows_inv [OF inv g])
  have keys: "keys_ok (ss_txs S)" using inv by (simp add: sweep_inv_def)
  have look: "find (\<lambda>t. ct_ItemID t = y \<and> ct_Kind t = k) (ss_txs S @ [row]) =
      (if y = ct_ItemID row \<and> k = ct_Kind row then Some row else item_txs S y k)" for y k
  proof -
    have "find P (xs @ [row]) = (case find P xs of None \<Rightarrow> (if P row then Some row else None) | Some t \<Rightarrow> Some t)" for P xs
      by (induction xs) auto
    with none show ?thesis by (auto simp: item_txs_def split: option.split)
  qed
  have "ct_ID row \<notin> ct_ID ` set (ss_txs S)" using ins by (auto simp: insert_tx_def list_ex_iff split: if_split_asm)
  moreover have "(ct_ItemID row, ct_Kind row) \<notin> (\<lambda>t. (ct_ItemID t, ct_Kind t)) ` set (ss_txs S)"
    using none by (auto simp: item_txs_def find_None_iff)
  moreover have "tx_key row \<notin> tx_key ` set (ss_txs S)" using key by force
  ultimately show "keys_ok (ss_txs S @ [row])" using keys by (simp add: keys_ok_def)
  show "tx_good A S t" if "t \<in> set (ss_txs S @ [row])" for t using that inv row by (auto simp: sweep_inv_def)
  show "find (\<lambda>t. ct_ItemID t = y \<and> ct_Kind t = k) (ss_txs S @ [row]) = item_txs S y k" if "y \<noteq> ct_ItemID row" for y k
    using that by (simp add: look)
  show "item_state_ok j (g x) (find (\<lambda>t. ct_ItemID t = ct_ItemID row \<and> ct_Kind t = ''gas'') (ss_txs S @ [row]))
      (find (\<lambda>t. ct_ItemID t = ct_ItemID row \<and> ct_Kind t = ''sweep'') (ss_txs S @ [row]))"
    if "x \<in> set (ss_items S)" "si_ID x = ct_ItemID row" "row_with sj_ID (si_JobID x) (ss_jobs S) = Some j"
      "item_state_ok j x (item_txs S (ct_ItemID row) ''gas'') (item_txs S (ct_ItemID row) ''sweep'')" for x j
    using own [OF that] by (simp add: look eq_commute [of _ "ct_Kind row"] cong: if_cong)
qed

text \<open>Updates of a job touch its state, message, lease and time.\<close>

definition keeps_job :: "(SweepJob \<Rightarrow> SweepJob) \<Rightarrow> bool" where
  "keeps_job f \<longleftrightarrow> (\<forall>j. \<exists>s e l u n. f j = j\<lparr>sj_State := s, sj_Error := e, sj_LeaseToken := l, sj_LeaseUntil := u, sj_Updated := n\<rparr>)"

lemma keeps_job_fields:
  assumes "keeps_job f"
  shows "sj_ID (f j) = sj_ID j" "sj_Quote (f j) = sj_Quote j" "sj_WalletID (f j) = sj_WalletID j" "sj_Created (f j) = sj_Created j"
    "sj_ActorID (f j) = sj_ActorID j" "sj_OperationID (f j) = sj_OperationID j" "sj_Fingerprint (f j) = sj_Fingerprint j"
    "sj_ChainID (f j) = sj_ChainID j" "sj_AssetID (f j) = sj_AssetID j" "sj_Destination (f j) = sj_Destination j"
    "sj_MinAtoms (f j) = sj_MinAtoms j" "sj_MaxGasAtoms (f j) = sj_MaxGasAtoms j" "sj_Doc (f j) = sj_Doc j"
  using assms [unfolded keeps_job_def, rule_format, of j] by auto

lemma quote_agrees_update:
  assumes "keeps_job f" "sj_Updated j \<le> sj_Updated (f j)" "quote_agrees A S j q"
  shows "quote_agrees A S (f j) q"
  using assms(2,3) unfolding quote_agrees_def Let_def keeps_job_fields [OF assms(1)] by auto

lemma quote_agrees_tables: "ss_tables T = ss_tables S \<Longrightarrow> quote_agrees A T j q = quote_agrees A S j q"
  by (simp add: quote_agrees_def)

text \<open>What a new state of a job requires of its items.\<close>

definition state_fits :: "SweepStore \<Rightarrow> string \<Rightarrow> SweepItem \<Rightarrow> bool" where
  "state_fits S s x \<longleftrightarrow> (s = ''complete'' \<longrightarrow> si_State x = ''complete'') \<and> s \<noteq> ''queued'' \<and>
    (s = ''cancelled'' \<longrightarrow> (\<forall>t \<in> set (ss_txs S). ct_ItemID t = si_ID x \<longrightarrow> final_state (ct_State t)))"

lemma item_txs_Some: "item_txs S y k = Some t \<Longrightarrow> t \<in> set (ss_txs S) \<and> ct_ItemID t = y \<and> ct_Kind t = k"
  by (auto simp: item_txs_def find_Some_iff)

lemma item_state_job:
  assumes "item_state_ok j x (item_txs S (si_ID x) ''gas'') (item_txs S (si_ID x) ''sweep'')" "state_fits S (sj_State j') x"
  shows "item_state_ok j' x (item_txs S (si_ID x) ''gas'') (item_txs S (si_ID x) ''sweep'')"
proof -
  have "\<forall>t \<in> set_option (item_txs S (si_ID x) ''gas'') \<union> set_option (item_txs S (si_ID x) ''sweep''). t \<in> set (ss_txs S) \<and> ct_ItemID t = si_ID x"
    using item_txs_Some by fastforce
  with assms show ?thesis unfolding item_state_ok_def state_fits_def by blast
qed

lemma jobs_inv:
  assumes inv: "sweep_inv A now S" and le: "now \<le> now'" and f: "keeps_job f"
    and upd: "\<And>j. j \<in> set (ss_jobs S) \<Longrightarrow> p j \<Longrightarrow> lease_ok (f j) \<and> sj_Updated j \<le> sj_Updated (f j) \<and> sj_Updated (f j) \<le> now'"
    and fits: "\<And>j x. j \<in> set (ss_jobs S) \<Longrightarrow> p j \<Longrightarrow> x \<in> set (ss_items S) \<Longrightarrow> si_JobID x = sj_ID j \<Longrightarrow> state_fits S (sj_State (f j)) x"
  shows "sweep_inv A now' (set_job p f S)"
proof -
  define T where "T = set_job p f S"
  have e: "ss_items T = ss_items S" "ss_txs T = ss_txs S" "ss_tables T = ss_tables S" "ss_jobs T = set_where p f (ss_jobs S)"
    by (simp_all add: T_def set_job_def)
  note inv' = sweep_inv_later [OF inv le, unfolded sweep_inv_def]
  have look: "row_with sj_ID k (ss_jobs T) = map_option (\<lambda>j. if p j then f j else j) (row_with sj_ID k (ss_jobs S))" for k
    unfolding e by (rule row_with_set_kept) (rule keeps_job_fields [OF f])
  have qo: "quote_of A T i = quote_of A S i" for i
    by (cases "row_with sj_ID i (ss_jobs S)") (simp_all add: quote_of_def look keeps_job_fields [OF f])
  have "tx_good A T t" if "t \<in> set (ss_txs S)" for t
    using inv' that by (simp add: tx_good_def qo e)
  moreover have "item_good A T x" if x: "x \<in> set (ss_items S)" for x
  proof -
    obtain j q where j: "row_with sj_ID (si_JobID x) (ss_jobs S) = Some j" "va_open A (sj_Quote j) = Some q" "item_planned (qu_Preview q) x"
      "item_state_ok j x (item_txs S (si_ID x) ''gas'') (item_txs S (si_ID x) ''sweep'')"
      using inv' x by (auto simp: item_good_def)
    define j' where "j' = (if p j then f j else j)"
    have "row_with sj_ID (si_JobID x) (ss_jobs T) = Some j'" by (simp add: look j(1) j'_def)
    moreover have "va_open A (sj_Quote j') = Some q" by (simp add: j'_def j(2) keeps_job_fields [OF f])
    moreover have "item_state_ok j' x (item_txs S (si_ID x) ''gas'') (item_txs S (si_ID x) ''sweep'')"
    proof (cases "p j")
      case True
      have "j \<in> set (ss_jobs S)" "si_JobID x = sj_ID j" using row_with_Some [OF j(1)] by auto
      with fits True x show ?thesis unfolding j'_def by (simp add: item_state_job [OF j(4)])
    qed (simp add: j'_def j(4))
    ultimately show ?thesis using j(3) by (auto simp: item_good_def item_txs_def e)
  qed
  moreover have "job_good A now' T y" if y: "y \<in> set (ss_jobs T)" for y
  proof -
    from y obtain j where j: "j \<in> set (ss_jobs S)" "y = (if p j then f j else j)" by (auto simp: e set_set_where)
    then have good: "job_good A now' S j" using inv' by simp
    show ?thesis
    proof (cases "p j")
      case True
      then have "y = f j" using j by simp
      with good upd [OF j(1) True] show ?thesis
        using quote_agrees_update [OF f, of j] unfolding job_good_def
        by (auto simp: quote_agrees_tables [OF e(3)] e keeps_job_fields [OF f])
    next
      case False
      with good j(2) show ?thesis by (auto simp: job_good_def quote_agrees_tables [OF e(3)] e)
    qed
  qed
  moreover have "map sj_ID (ss_jobs T) = map sj_ID (ss_jobs S)"
    unfolding e by (rule map_set_where_key) (rule keeps_job_fields [OF f])
  ultimately show ?thesis using inv' unfolding T_def [symmetric] sweep_inv_def e(1-3) by simp
qed

lemma frozen_inv: "sweep_inv A now S \<Longrightarrow> sweep_inv A now (S\<lparr>ss_frozen := z\<rparr>)"
  by (simp add: sweep_inv_def tx_good_def item_good_def job_good_def quote_of_def quote_agrees_def item_txs_def)

section \<open>Wallets change, quotes become jobs\<close>

text \<open>
  Wallets, addresses and invoices come and go; an address and a descriptor stay once recorded, a wallet keeps its funding
  address.
\<close>

definition grown :: "sweep_vault \<Rightarrow> WalletTables \<Rightarrow> WalletTables \<Rightarrow> bool" where
  "grown A W W' \<longleftrightarrow> tables_ok W' \<and> set (wt_addresses W) \<subseteq> set (wt_addresses W') \<and> set (wt_history W) \<subseteq> set (wt_history W') \<and>
    (\<forall>i v. cryptoWalletByID W i = Inr v \<longrightarrow> (\<exists>v'. cryptoWalletByID W' i = Inr v' \<and> va_funding A v' = va_funding A v))"

lemma grown_refl: "tables_ok W \<Longrightarrow> grown A W W"
  by (simp add: grown_def)

lemma plan_owned_grown:
  assumes "tables_ok W" "grown A W W'" "plan_owned W wallet i"
  shows "plan_owned W' wallet i"
proof -
  obtain x where x: "row_with wa_ID (it_AddressID i) (wt_addresses W) = Some x" "cryptoWalletSameDescriptor W (wa_WalletID x) wallet"
    "wa_Address x = it_Address i" "wa_Path x = it_Path i"
    using assms(3) by (auto simp: plan_owned_def split: option.splits)
  have k: "x \<in> set (wt_addresses W')" "wa_ID x = it_AddressID i" "distinct (map wa_ID (wt_addresses W'))"
    using row_with_Some [OF x(1)] assms(2) by (auto simp: grown_def tables_ok_def)
  have "row_with wa_ID (it_AddressID i) (wt_addresses W') = Some x"
    using row_with_unique [of wa_ID "wt_addresses W'" x] k by simp
  moreover have "cryptoWalletSameDescriptor W' (wa_WalletID x) wallet"
    using x(2) assms(1,2) by (auto simp: grown_def tables_ok_def same_descriptor_iff)
  ultimately show ?thesis using x(3,4) by (simp add: plan_owned_def)
qed

lemma quote_agrees_grown:
  assumes "grown A (ss_tables S) W" "quote_agrees A S j q"
  shows "quote_agrees A (S\<lparr>ss_tables := W\<rparr>) j q"
proof -
  obtain v f path where v: "cryptoWalletByID (ss_tables S) (sj_WalletID j) = Inr v" "va_funding A v = Inr (f, path)" "f \<noteq> []"
    "pv_FundingAddress (qu_Preview q) = f"
    using assms(2) by (auto simp: quote_agrees_def Let_def split: sum.splits)
  then obtain v' where "cryptoWalletByID W (sj_WalletID j) = Inr v'" "va_funding A v' = Inr (f, path)"
    using assms(1) by (metis grown_def)
  with v assms(2) show ?thesis by (simp add: quote_agrees_def Let_def)
qed

lemma tables_inv:
  assumes inv: "sweep_inv A now S" and g: "grown A (ss_tables S) W"
  shows "sweep_inv A now (S\<lparr>ss_tables := W\<rparr>)"
proof -
  note inv' = inv [unfolded sweep_inv_def]
  have "job_good A now (S\<lparr>ss_tables := W\<rparr>) j" if "j \<in> set (ss_jobs S)" for j
    using inv' that quote_agrees_grown [OF g] plan_owned_grown [OF _ g] unfolding job_good_def list_all_iff by fastforce
  with inv' g show ?thesis
    by (simp add: sweep_inv_def tx_good_def item_good_def quote_of_def item_txs_def grown_def)
qed

lemma quote_sound_grown:
  assumes "tables_ok W" "grown A W W'" "quote_sound A W now q"
  shows "quote_sound A W' now q"
proof -
  obtain v path where "cryptoWalletByID W (pv_WalletID (qu_Preview q)) = Inr v" "va_funding A v = Inr (pv_FundingAddress (qu_Preview q), path)"
    using assms(3) by (auto simp: quote_sound_def Let_def)
  then have "\<exists>v path. cryptoWalletByID W' (pv_WalletID (qu_Preview q)) = Inr v \<and> va_funding A v = Inr (pv_FundingAddress (qu_Preview q), path)"
    using assms(2) by (metis grown_def)
  with assms(3) plan_owned_grown [OF assms(1,2)] show ?thesis by (auto simp: quote_sound_def Let_def list_all_iff)
qed

lemma insert_item_Inr: "insert_item i items = Inr out \<Longrightarrow> out = items @ [i] \<and> si_ID i \<notin> si_ID ` set items \<and> item_key i \<notin> item_key ` set items"
  by (auto simp: insert_item_def list_ex_iff item_key_def split: if_split_asm)

lemma insert_items:
  assumes "fold_res insert_item (map (new_item job serial) plan) items0 = Inr items" "distinct (map si_ID items0)" "distinct (map item_key items0)"
  shows "items = items0 @ map (new_item job serial) plan" "distinct (map si_ID items)" "distinct (map item_key items)"
proof -
  have "items = items0 @ map (new_item job serial) plan \<and> distinct (map si_ID items) \<and> distinct (map item_key items)"
    using assms
  proof (induction plan arbitrary: items0)
    case (Cons x plan)
    from Cons.prems(1) obtain mid where mid: "insert_item (new_item job serial x) items0 = Inr mid"
      "fold_res insert_item (map (new_item job serial) plan) mid = Inr items"
      by (auto simp: res_simps)
    note ins = insert_item_Inr [OF mid(1)]
    have rest: "fold_res insert_item (map (new_item job serial) plan) (items0 @ [new_item job serial x]) = Inr items"
      using mid(2) ins by simp
    have "distinct (map si_ID (items0 @ [new_item job serial x]))" "distinct (map item_key (items0 @ [new_item job serial x]))"
      using Cons.prems(2,3) ins by simp_all
    from Cons.IH [OF rest this] show ?case by (metis append.assoc append_Cons append_Nil list.simps(9))
  qed simp
  then show "items = items0 @ map (new_item job serial) plan" "distinct (map si_ID items)" "distinct (map item_key items)" by blast+
qed

lemma plan_for_unique: "distinct (map it_AddressID (pv_Items p)) \<Longrightarrow> x \<in> set (pv_Items p) \<Longrightarrow> plan_for p (it_AddressID x) = Some x"
  unfolding plan_for_def by (rule row_with_unique)

text \<open>The codec is that of go-ethereum, funding addresses are not empty.\<close>

definition vault_ok :: "sweep_vault \<Rightarrow> bool" where
  "vault_ok A \<longleftrightarrow> codec_ok (va_keys A) \<and> (\<forall>v path. va_funding A v \<noteq> Inr ([], path))"

lemma new_job_agrees:
  assumes "quote_sound A (ss_tables S) now q" "vault_ok A" "0 < now"
    "valid_operation (in_OperationID inp)" "pv_CanSubmit (qu_Preview q)" "pv_Items (qu_Preview q) \<noteq> []" "now \<le> pv_ExpiresAt (qu_Preview q)"
  shows "quote_agrees A S (new_job A now job inp q) q" "lease_ok (new_job A now job inp q)"
  using assms by (auto simp: quote_agrees_def quote_sound_def new_job_def lease_ok_def Let_def vault_ok_def)

lemma insert_sweep_inv:
  assumes inv: "sweep_inv A now S" and run: "insert_sweep A now job serial inp q S = Inr (i, T)" and q: "va_open A (in_Quote inp) = Some q"
    and sound: "quote_sound A (ss_tables S) now q" and vault: "vault_ok A"
    and ok: "0 < now" "valid_operation (in_OperationID inp)" "pv_CanSubmit (qu_Preview q)" "pv_Items (qu_Preview q) \<noteq> []"
      "now \<le> pv_ExpiresAt (qu_Preview q)"
  shows "sweep_inv A now T"
proof -
  define plan new nj where "plan = pv_Items (qu_Preview q)" and "new = map (new_item job serial) plan" and "nj = new_job A now job inp q"
  note inv' = inv [unfolded sweep_inv_def]
  obtain items where fresh: "job \<notin> sj_ID ` set (ss_jobs S)" and items: "fold_res insert_item new (ss_items S) = Inr items"
    and T: "T = S\<lparr>ss_jobs := ss_jobs S @ [nj], ss_items := items\<rparr>"
    using run by (auto simp: insert_sweep_def res_simps list_ex_iff new_def plan_def nj_def split: if_split_asm)
  have all: "items = ss_items S @ new" "distinct (map si_ID items)" "distinct (map item_key items)"
    using insert_items [OF items [unfolded new_def]] inv' by (simp_all add: new_def)
  have e: "ss_jobs T = ss_jobs S @ [nj]" "ss_items T = ss_items S @ new" "ss_txs T = ss_txs S" "ss_tables T = ss_tables S"
    by (simp_all add: T all(1))
  have nid: "sj_ID nj = job" "sj_Quote nj = in_Quote inp" by (simp_all add: nj_def new_job_def Let_def)
  have old: "row_with sj_ID k (ss_jobs T) = Some j" if "row_with sj_ID k (ss_jobs S) = Some j" for k j
    using that by (simp add: e row_with_append)
  have newest: "row_with sj_ID job (ss_jobs T) = Some nj"
    using row_with_unique [of sj_ID "ss_jobs T" nj] fresh inv' nid by (simp add: e)
  have txs: "tx_good A T t" if t: "t \<in> set (ss_txs S)" for t
  proof -
    have "tx_good A S t" using inv' t by simp
    then show ?thesis
      using old unfolding tx_good_def quote_of_def by (fastforce simp: e row_with_append split: option.splits)
  qed
  have none: "item_txs T (si_ID x) k = None" if "x \<in> set new" for x k
  proof -
    have "ct_ItemID t \<noteq> si_ID x" if t: "t \<in> set (ss_txs S)" for t
    proof -
      obtain y where "row_with si_ID (ct_ItemID t) (ss_items S) = Some y" using inv' t by (auto simp: tx_good_def)
      then have "y \<in> set (ss_items S)" "si_ID y = ct_ItemID t" by (auto dest: row_with_Some)
      with all \<open>x \<in> set new\<close> show ?thesis by auto
    qed
    then show ?thesis by (auto simp: item_txs_def find_None_iff e)
  qed
  have budget: "\<exists>price limit balance. within_budget price limit balance (qu_Preview q)"
    using sound ok(3) by (auto simp: quote_sound_def Let_def)
  have d: "distinct (map it_AddressID plan)" "list_all (plan_owned (ss_tables S) (pv_WalletID (qu_Preview q))) plan"
    using sound by (simp_all add: quote_sound_def Let_def plan_def)
  have "item_good A T x" if x: "x \<in> set (ss_items T)" for x
  proof (cases "x \<in> set new")
    case True
    then obtain y where y: "y \<in> set plan" "x = new_item job serial y" by (auto simp: new_def)
    have "item_planned (qu_Preview q) x"
      using plan_for_unique [OF d(1) [unfolded plan_def] y(1) [unfolded plan_def]] by (simp add: item_planned_def y(2) new_item_def)
    moreover have "si_JobID x = job" "si_State x = ''queued''" by (simp_all add: y(2) new_item_def)
    moreover have "item_state_ok nj x None None"
      by (simp add: item_state_ok_def y(2) new_item_def nj_def new_job_def Let_def)
    ultimately show ?thesis using newest q nid none [OF True] by (auto simp: item_good_def)
  next
    case False
    then have x: "x \<in> set (ss_items S)" using x by (simp add: e)
    then have "item_good A S x" using inv' by simp
    then show ?thesis using old unfolding item_good_def item_txs_def e(3) by blast
  qed
  moreover have "job_good A now T j" if j: "j \<in> set (ss_jobs T)" for j
  proof (cases "j = nj")
    case True
    have "filter (\<lambda>x. si_JobID x = job) (ss_items S) = []"
      using inv' fresh by (force simp: filter_empty_conv item_good_def dest: row_with_Some)
    moreover have "filter (\<lambda>x. si_JobID x = job) new = new" by (simp add: new_def filter_id_conv new_item_def)
    ultimately have len: "length (filter (\<lambda>x. si_JobID x = job) (ss_items T)) = length plan" by (simp add: e new_def)
    have "sj_WalletID nj = pv_WalletID (qu_Preview q)" "sj_Updated nj = now" by (simp_all add: nj_def new_job_def Let_def)
    with new_job_agrees [OF sound vault ok, of job] d len q nid True budget show ?thesis
      unfolding job_good_def by (simp add: quote_agrees_tables [OF e(4)] e(4) nj_def [symmetric] plan_def)
  next
    case False
    then have j': "j \<in> set (ss_jobs S)" "job_good A now S j" using j inv' by (simp_all add: e)
    have "sj_ID j \<noteq> job" using fresh j'(1) by auto
    then have "filter (\<lambda>x. si_JobID x = sj_ID j) new = []" by (auto simp: filter_empty_conv new_def new_item_def)
    with j'(2) show ?thesis by (simp add: job_good_def quote_agrees_tables [OF e(4)] e)
  qed
  ultimately show ?thesis
    using inv' txs all fresh nid unfolding sweep_inv_def by (simp add: e)
qed

section \<open>A transaction is followed\<close>

text \<open>What a worker that holds the lease leaves alone.\<close>

definition skel :: "SweepStore \<Rightarrow> SweepJob list \<times> WalletTables \<times> (string \<times> string \<times> string) list \<times> (string \<times> string) list" where
  "skel S = (ss_jobs S, ss_tables S, map (\<lambda>x. (si_ID x, si_JobID x, si_AddressID x)) (ss_items S), map (\<lambda>t. (ct_ItemID t, ct_Kind t)) (ss_txs S))"

text \<open>Signed transfers stay, final ones as they are.\<close>

definition kept_txs :: "SweepStore \<Rightarrow> SweepStore \<Rightarrow> bool" where
  "kept_txs S T \<longleftrightarrow> (\<forall>t \<in> set (ss_txs S). \<exists>t' \<in> set (ss_txs T). same_intent t' t \<and> (final_state (ct_State t) \<longrightarrow> t' = t))"

lemma kept_txs_refl [simp]: "kept_txs S S"
  by (auto simp: kept_txs_def intro!: bexI)

lemma kept_txs_trans: "kept_txs S T \<Longrightarrow> kept_txs T U \<Longrightarrow> kept_txs S U"
  unfolding kept_txs_def same_intent_def by metis

lemma kept_txs_same: "ss_txs T = ss_txs S \<Longrightarrow> kept_txs S T"
  by (auto simp: kept_txs_def intro!: bexI)

lemma lease_running:
  assumes "cryptoCheckSweepLease i lease now S = Inr ()" "distinct (map sj_ID (ss_jobs S))" "row_with sj_ID i (ss_jobs S) = Some j"
  shows "sj_State j = ''running'' \<and> sj_LeaseToken j = lease"
proof -
  have "filter (holds_lease i lease now) (ss_jobs S) \<noteq> []"
    using assms(1) by (auto simp: cryptoCheckSweepLease_def split: if_split_asm)
  then obtain k where k: "k \<in> set (ss_jobs S)" "sj_ID k = i" "sj_LeaseToken k = lease" "sj_State k = ''running''"
    by (auto simp: filter_empty_conv holds_lease_def)
  with row_with_unique [OF assms(2) k(1)] assms(3) show ?thesis by simp
qed

lemma gas_moves:
  assumes "item_state_ok j x (Some v) sweep" "\<not> final_state (ct_State v)" "sj_State j = ''running''"
  shows "sweep = None" "\<not> final_state (ct_State w) \<or> ct_State w = ''confirmed'' \<Longrightarrow> item_state_ok j x (Some w) sweep"
    "ct_State w = ''reverted'' \<Longrightarrow> item_state_ok j (x\<lparr>si_State := ''failed'', si_Error := m\<rparr>) (Some w) sweep"
  using assms by (auto simp: item_state_ok_def final_state_def split: if_split_asm)

lemma sweep_moves:
  assumes "item_state_ok j x gas (Some v)" "\<not> final_state (ct_State v)" "sj_State j = ''running''"
  shows "ct_State w = ''pending'' \<Longrightarrow> item_state_ok j x gas (Some w)"
    "ct_State w = ''confirmed'' \<Longrightarrow> item_state_ok j (x\<lparr>si_State := ''complete'', si_Error := m\<rparr>) gas (Some w)"
    "ct_State w = ''reverted'' \<Longrightarrow> item_state_ok j (x\<lparr>si_State := ''failed'', si_Error := m\<rparr>) gas (Some w)"
  using assms by (auto simp: item_state_ok_def final_state_def split: if_split_asm)

text \<open>The row of a transaction is replaced by a worker with the lease.\<close>

lemma settle_running:
  assumes inv: "sweep_inv A now S" and v: "v \<in> set (ss_txs S)" "\<not> final_state (ct_State v)" and w: "same_intent w v" "validateCryptoSweepReceipt w"
    and lease: "cryptoCheckSweepLease (ct_JobID v) lease t S = Inr ()" and g: "keeps_item g"
    and gs: "g = (\<lambda>x. x) \<and> (ct_State w = ''pending'' \<or> ct_Kind v = ''gas'' \<and> ct_State w = ''confirmed'') \<or>
      (\<exists>m. g = (\<lambda>x. x\<lparr>si_State := ''failed'', si_Error := m\<rparr>)) \<and> ct_State w = ''reverted'' \<or>
      (\<exists>m. g = (\<lambda>x. x\<lparr>si_State := ''complete'', si_Error := m\<rparr>)) \<and> ct_Kind v = ''sweep'' \<and> ct_State w = ''confirmed''"
  defines "T \<equiv> with_rows (ct_ItemID v) g (set_where (\<lambda>t. ct_ID t = ct_ID v) (\<lambda>_. w) (ss_txs S)) S"
  shows "sweep_inv A now T \<and> skel T = skel S \<and> kept_txs S T \<and> item_txs T (ct_ItemID v) (ct_Kind v) = Some w"
proof -
  note inv' = inv [unfolded sweep_inv_def]
  have keys: "keys_ok (ss_txs S)" using inv' by simp
  have "sweep_inv A now T"
    unfolding T_def
  proof (rule settle_inv [OF inv v(1) w g])
    fix x j
    assume x: "x \<in> set (ss_items S)" "si_ID x = ct_ItemID v" "row_with sj_ID (si_JobID x) (ss_jobs S) = Some j"
      "item_state_ok j x (item_txs S (ct_ItemID v) ''gas'') (item_txs S (ct_ItemID v) ''sweep'')"
    have good: "tx_good A S v" using inv' v(1) by simp
    then have kind: "ct_Kind v = ''gas'' \<or> ct_Kind v = ''sweep''"
      by (auto simp: tx_good_def cryptoTransactionMatchesPlan_def sweep_matches_def split: if_split_asm)
    have "row_with si_ID (ct_ItemID v) (ss_items S) = Some x"
      using row_with_unique [of si_ID "ss_items S" x] inv' x(1,2) by simp
    then have "si_JobID x = ct_JobID v" using good by (auto simp: tx_good_def)
    then have run: "sj_State j = ''running''" using lease_running [OF lease] inv' x(3) by simp
    have own: "item_txs S (ct_ItemID v) (ct_Kind v) = Some v" using tx_lookup [OF keys v(1)] by (simp add: item_txs_def)
    from kind show "item_state_ok j (g x) (if ct_Kind v = ''gas'' then Some w else item_txs S (ct_ItemID v) ''gas'')
      (if ct_Kind v = ''sweep'' then Some w else item_txs S (ct_ItemID v) ''sweep'')"
    proof
      assume k: "ct_Kind v = ''gas''"
      with own x(4) have "item_state_ok j x (Some v) (item_txs S (ct_ItemID v) ''sweep'')" by simp
      from gas_moves(2,3) [OF this v(2) run] gs k show ?thesis by (auto simp: final_state_def)
    next
      assume k: "ct_Kind v = ''sweep''"
      with own x(4) have "item_state_ok j x (item_txs S (ct_ItemID v) ''gas'') (Some v)" by simp
      from sweep_moves [OF this v(2) run] gs k show ?thesis by auto
    qed
  qed
  moreover have "skel T = skel S"
    using g w(1) tx_unique(1) [OF keys v(1)]
    by (auto simp: skel_def T_def with_rows_def set_where_def keeps_item_def same_intent_def)
  moreover have "kept_txs S T"
    unfolding kept_txs_def
  proof
    fix u
    assume u: "u \<in> set (ss_txs S)"
    show "\<exists>t' \<in> set (ss_txs T). same_intent t' u \<and> (final_state (ct_State u) \<longrightarrow> t' = u)"
    proof (cases "ct_ID u = ct_ID v")
      case True
      then have "u = v" using tx_unique(1) [OF keys v(1) u] by simp
      moreover have "w \<in> set (ss_txs T)" using v(1) by (force simp: T_def with_rows_def set_set_where)
      ultimately show ?thesis using w(1) v(2) by blast
    next
      case False
      then have "u \<in> set (ss_txs T)" using u by (force simp: T_def with_rows_def set_set_where)
      then show ?thesis by (intro bexI [of _ u]) simp_all
    qed
  qed
  moreover have "item_txs T (ct_ItemID v) (ct_Kind v) = Some w"
    using settled_lookup [OF keys v(1) w(1), of "ct_ItemID v" "ct_Kind v"] by (simp add: item_txs_def T_def with_rows_def)
  ultimately show ?thesis by blast
qed

lemma skel_lease:
  assumes "skel T = skel S"
  shows "ss_jobs T = ss_jobs S" "ss_tables T = ss_tables S" "quote_of A T i = quote_of A S i"
  using assms by (simp_all add: skel_def quote_of_def)

lemma skel_item:
  assumes "skel T = skel S" "x \<in> set (ss_items S)"
  shows "\<exists>y \<in> set (ss_items T). si_ID y = si_ID x \<and> si_JobID y = si_JobID x \<and> si_AddressID y = si_AddressID x"
proof -
  define f where "f y = (si_ID y, si_JobID y, si_AddressID y)" for y :: SweepItem
  have "map f (ss_items T) = map f (ss_items S)" using assms(1) by (simp add: skel_def f_def [abs_def])
  then have "set (map f (ss_items T)) = set (map f (ss_items S))" by (simp only:)
  then have "f x \<in> f ` set (ss_items T)" using assms(2) by simp
  then obtain y where "f x = f y" "y \<in> set (ss_items T)" by (rule imageE)
  then show ?thesis by (intro bexI [of _ y]) (simp_all add: f_def)
qed

lemma skel_none:
  assumes "skel T = skel S"
  shows "item_txs T y k = None \<longleftrightarrow> item_txs S y k = None"
proof -
  define f where "f t = (ct_ItemID t, ct_Kind t)" for t :: cryptoChainTransaction
  have "item_txs U y k = None \<longleftrightarrow> (y, k) \<notin> set (map f (ss_txs U))" for U
    by (auto simp: item_txs_def find_None_iff f_def)
  moreover have "map f (ss_txs T) = map f (ss_txs S)" using assms by (simp add: skel_def f_def [abs_def])
  ultimately show ?thesis by (simp only:)
qed

text \<open>Freezing a chain is outside of these tables.\<close>

lemma freeze_rows [simp]:
  "ss_jobs (sweepFreezeChain c S) = ss_jobs S" "ss_items (sweepFreezeChain c S) = ss_items S" "ss_txs (sweepFreezeChain c S) = ss_txs S"
  "ss_tables (sweepFreezeChain c S) = ss_tables S"
  by (simp_all add: sweepFreezeChain_def)

lemma freeze_inv: "sweep_inv A now S \<Longrightarrow> sweep_inv A now (sweepFreezeChain c S)"
  by (simp add: sweepFreezeChain_def frozen_inv)

lemma freeze_skel [simp]: "skel (sweepFreezeChain c S) = skel S"
  by (simp add: skel_def)

lemma lock_rows:
  assumes "sweepLockChain c S = Inr T"
  shows "\<exists>z. T = S\<lparr>ss_frozen := z\<rparr>"
proof (cases "map_of (ss_frozen S) c")
  case None
  with assms show ?thesis by (auto simp: sweepLockChain_def)
next
  case (Some z)
  with assms have "T = S\<lparr>ss_frozen := ss_frozen S\<rparr>" by (simp add: sweepLockChain_def split: if_split_asm)
  then show ?thesis by blast
qed

lemma set_where_same [simp]: "set_where p (\<lambda>x. x) rows = rows"
  by (simp add: set_where_def)

lemma with_rows_tx:
  assumes "keys_ok (ss_txs S)" "v \<in> set (ss_txs S)"
  shows "set_tx (ct_ID v) f S = with_rows (ct_ItemID v) (\<lambda>x. x) (set_where (\<lambda>t. ct_ID t = ct_ID v) (\<lambda>_. f v) (ss_txs S)) S"
  using set_where_one [of ct_ID "ss_txs S" v f] assms
  by (simp add: set_tx_def with_rows_def keys_ok_def)

lemma set_item_with_rows:
  "set_item item state m (with_rows item (\<lambda>x. x) ts S) = with_rows item (\<lambda>x. x\<lparr>si_State := state, si_Error := m\<rparr>) ts S"
  by (simp add: set_item_def with_rows_def)

lemma process_inv:
  assumes inv: "sweep_inv A now S" and v: "v \<in> set (ss_txs S)"
    and run: "cryptoProcessTransaction A env (ct_JobID v) lease v S = (r, T)"
  shows "sweep_inv A now T \<and> skel T = skel S \<and> kept_txs S T \<and>
    (r = Inr True \<longrightarrow> (\<exists>w. item_txs T (ct_ItemID v) (ct_Kind v) = Some w \<and> ct_State w = ''confirmed''))"
proof -
  have keys: "keys_ok (ss_txs S)" using inv by (simp add: sweep_inv_def)
  have own: "item_txs S (ct_ItemID v) (ct_Kind v) = Some v" using tx_lookup [OF keys v] by (simp add: item_txs_def)
  have receipt: "validateCryptoSweepReceipt v" using inv v by (auto simp: sweep_inv_def tx_good_def)
  have same: "sweep_inv A now S \<and> skel S = skel S \<and> kept_txs S S" using inv by simp
  have frozen: "sweep_inv A now (sweepFreezeChain c S) \<and> skel (sweepFreezeChain c S) = skel S \<and> kept_txs S (sweepFreezeChain c S)" for c
    using freeze_inv [OF inv] by (simp add: kept_txs_same)
  show ?thesis
  proof (cases "final_state (ct_State v)")
    case True
    with run same own show ?thesis
      by (auto simp: cryptoProcessTransaction_def split: sum.split_asm if_split_asm)
  next
    case False
    consider (keep) "T = S" "r \<noteq> Inr True" | (freeze) c where "T = sweepFreezeChain c S" "r \<noteq> Inr True"
      | (wait) "wait_for_tx env (ct_JobID v) lease v S = (r, T)"
      | (final) rc where "FinalReceipt (sv_client env) (ct_Hash v) = Inr (Some rc)" "conclude_tx (va_keys A) env (ct_JobID v) lease v rc S = (r, T)"
      using run False by (auto simp: cryptoProcessTransaction_def refuse_def split: sum.split_asm if_split_asm option.split_asm sweep_error.split_asm)
    then show ?thesis
    proof cases
      case keep
      with same show ?thesis by simp
    next
      case freeze
      with frozen show ?thesis by simp
    next
      case wait
      show ?thesis
      proof (cases "cryptoCheckSweepLease (ct_JobID v) lease (sv_now env) S")
        case (Inl e)
        with wait same show ?thesis by (auto simp: wait_for_tx_def Let_def)
      next
        case lease: (Inr u)
        then have lease: "cryptoCheckSweepLease (ct_JobID v) lease (sv_now env) S = Inr ()" by simp
        define w where "w = v\<lparr>ct_State := ''pending'', ct_Error := (case cl_Broadcast (sv_client env) (''0x'' @ ct_Raw v) (ct_Hash v) of
          Inl e \<Rightarrow> sweep_error_text e | Inr _ \<Rightarrow> ''waiting for finality''), ct_Updated := sv_now env\<rparr>"
        have "same_intent w v" by (simp add: w_def same_intent_def)
        moreover have "validateCryptoSweepReceipt w"
          using receipt False by (simp add: w_def validateCryptoSweepReceipt_def final_state_def)
        moreover have "ct_State w = ''pending''" by (simp add: w_def)
        moreover have "T = with_rows (ct_ItemID v) (\<lambda>x. x) (set_where (\<lambda>t. ct_ID t = ct_ID v) (\<lambda>_. w) (ss_txs S)) S" "r = Inr False"
          using wait lease with_rows_tx [OF keys v] by (simp_all add: wait_for_tx_def Let_def w_def)
        ultimately show ?thesis
          using settle_running [OF inv v False _ _ lease, of w "\<lambda>x. x"] by simp
      qed
    next
      case final
      show ?thesis
      proof (cases "validateSignedReceipt (va_keys A) (sv_client env) v rc")
        case (Inl e)
        with final(2) same frozen show ?thesis by (auto simp: conclude_tx_def)
      next
        case (Inr u)
        show ?thesis
        proof (cases "cryptoCheckSweepLease (ct_JobID v) lease (sv_now env) S")
          case (Inl e)
          with Inr final(2) same show ?thesis by (auto simp: conclude_tx_def)
        next
          case lease: (Inr u')
          define w where "w = store_proof env v rc v"
          have good: "same_intent w v" "validateCryptoSweepReceipt w"
            using concluded_valid [OF final(1)] Inr by (simp_all add: w_def)
          have st: "ct_State w = (if rc_Status rc = 1 then ''confirmed'' else ''reverted'')" by (simp add: w_def store_proof_def)
          define g where "g = (if rc_Status rc \<noteq> 1 then (\<lambda>x. x\<lparr>si_State := ''failed'', si_Error := ''transaction failed on the chain''\<rparr>)
            else if ct_Kind v = ''sweep'' then (\<lambda>x. x\<lparr>si_State := ''complete'', si_Error := []\<rparr>) else (\<lambda>x :: SweepItem. x))"
          have T: "T = with_rows (ct_ItemID v) g (set_where (\<lambda>t. ct_ID t = ct_ID v) (\<lambda>_. w) (ss_txs S)) S"
            and r: "r = Inr True \<longrightarrow> rc_Status rc = 1"
            using final(2) Inr lease
            by (auto simp: conclude_tx_def Let_def g_def w_def with_rows_tx [OF keys v] set_item_with_rows split: if_split_asm)
          have kind: "ct_Kind v = ''gas'' \<or> ct_Kind v = ''sweep''"
            using inv v by (auto simp: sweep_inv_def tx_good_def cryptoTransactionMatchesPlan_def sweep_matches_def split: if_split_asm)
          have "sweep_inv A now T \<and> skel T = skel S \<and> kept_txs S T \<and> item_txs T (ct_ItemID v) (ct_Kind v) = Some w"
            unfolding T using lease kind st
            by (intro settle_running [OF inv v False good, of lease "sv_now env"]) (auto simp: g_def)
          with r st show ?thesis by auto
        qed
      qed
    qed
  qed
qed

section \<open>A transfer is staged\<close>

lemma funding_agrees:
  assumes "sweep_inv A now S" "quote_of A S i = Some q" "cryptoWalletByID (ss_tables S) (pv_WalletID (qu_Preview q)) = Inr v" "va_funding A v = Inr f"
  shows "fst f = pv_FundingAddress (qu_Preview q)"
proof -
  obtain j where j: "row_with sj_ID i (ss_jobs S) = Some j" "va_open A (sj_Quote j) = Some q"
    using assms(2) by (auto simp: quote_of_def split: option.splits)
  then have "quote_agrees A S j q"
    using assms(1) row_with_Some [OF j(1)] by (auto simp: sweep_inv_def job_good_def)
  with assms(3,4) show ?thesis by (cases f) (auto simp: quote_agrees_def Let_def)
qed

lemma staged_states:
  assumes "item_state_ok j x gas None" "sj_State j = ''running''" "ct_State row = ''signed''"
  shows "gas = None \<Longrightarrow> item_state_ok j (x\<lparr>si_State := ''gas_pending'', si_Error := m\<rparr>) (Some row) None"
    "(\<And>t. gas = Some t \<Longrightarrow> ct_State t = ''confirmed'') \<Longrightarrow> item_state_ok j (x\<lparr>si_State := ''sweep_pending'', si_Error := m\<rparr>) gas (Some row)"
  using assms by (auto simp: item_state_ok_def)

text \<open>The item and its place in the plan, while its job has the quote.\<close>

definition item_at :: "sweep_vault \<Rightarrow> SweepStore \<Rightarrow> string \<Rightarrow> cryptoSweepQuote \<Rightarrow> string \<Rightarrow> CryptoSweepPlanItem \<Rightarrow> bool" where
  "item_at A S i q item plan \<longleftrightarrow> quote_of A S i = Some q \<and>
    (\<exists>x \<in> set (ss_items S). si_ID x = item \<and> si_JobID x = i \<and> plan_for (qu_Preview q) (si_AddressID x) = Some plan)"

lemma item_at_skel: "skel T = skel S \<Longrightarrow> item_at A S i q item plan \<Longrightarrow> item_at A T i q item plan"
  unfolding item_at_def skel_lease(3) by (metis skel_item)

lemma kept_append: "kept_txs S (set_item item state m (S\<lparr>ss_txs := ss_txs S @ [row]\<rparr>))"
  by (auto simp: kept_txs_def set_item_def intro!: bexI)

lemma stage_row_inv:
  assumes vault: "vault_ok A" and inv: "sweep_inv A now S" and x: "item_at A S i q item plan" and kind: "kind = ''gas'' \<or> kind = ''sweep''"
    and obs: "observe_transfer A env kind q plan S = Inr (Some g)" and run: "stage_row A env i item kind q g S = Inr (row, T)"
    and lease: "cryptoCheckSweepLease i lease t S = Inr ()" and none: "item_txs S item ''sweep'' = None"
    and gas: "kind = ''gas'' \<Longrightarrow> item_txs S item ''gas'' = None"
      "kind = ''sweep'' \<Longrightarrow> \<forall>u. item_txs S item ''gas'' = Some u \<longrightarrow> ct_State u = ''confirmed''"
  shows "sweep_inv A now T \<and> kept_txs S T \<and> row \<in> set (ss_txs T) \<and> ct_JobID row = i \<and> ss_jobs T = ss_jobs S"
proof -
  have codec: "codec_ok (va_keys A)" using vault by (simp add: vault_ok_def)
  have qo: "quote_of A S i = Some q" using x by (simp add: item_at_def)
  have "\<forall>v f. cryptoWalletByID (ss_tables S) (pv_WalletID (qu_Preview q)) = Inr v \<longrightarrow> va_funding A v = Inr f \<longrightarrow>
      fst f = pv_FundingAddress (qu_Preview q)"
    using funding_agrees [OF inv qo] by blast
  note row = staged_row_good [OF obs run kind codec this]
  obtain y where y: "y \<in> set (ss_items S)" "si_ID y = item" "si_JobID y = i" "plan_for (qu_Preview q) (si_AddressID y) = Some plan"
    using x by (auto simp: item_at_def)
  have look: "row_with si_ID item (ss_items S) = Some y"
    using row_with_unique [of si_ID "ss_items S" y] inv y(1,2) by (simp add: sweep_inv_def)
  have good: "tx_good A S row"
    unfolding tx_good_def row(5,6) using look y(3,4) qo row(1-3) by blast
  have fresh: "item_txs S (ct_ItemID row) (ct_Kind row) = None" using kind gas(1) none by (auto simp: row(6,7))
  have T: "T = with_rows (ct_ItemID row) (\<lambda>x. x\<lparr>si_State := kind @ ''_pending'', si_Error := []\<rparr>) (ss_txs S @ [row]) S"
    by (simp add: row(6,11) set_item_def with_rows_def)
  have "sweep_inv A now T"
    unfolding T
  proof (rule append_inv [OF inv good row(10) row(9) fresh keeps_item_state])
    fix x j
    assume x: "x \<in> set (ss_items S)" "si_ID x = ct_ItemID row" "row_with sj_ID (si_JobID x) (ss_jobs S) = Some j"
      "item_state_ok j x (item_txs S (ct_ItemID row) ''gas'') (item_txs S (ct_ItemID row) ''sweep'')"
    have "row_with si_ID item (ss_items S) = Some x"
      using row_with_unique [of si_ID "ss_items S" x] inv x(1,2) by (simp add: sweep_inv_def row(6))
    then have "si_JobID x = i" using look y(3) by simp
    then have running: "sj_State j = ''running''" using lease_running [OF lease] inv x(3) by (simp add: sweep_inv_def)
    have ok: "item_state_ok j x (item_txs S item ''gas'') None" using x(4) none by (simp add: row(6))
    from kind show "item_state_ok j (x\<lparr>si_State := kind @ ''_pending'', si_Error := []\<rparr>)
      (if ct_Kind row = ''gas'' then Some row else item_txs S (ct_ItemID row) ''gas'')
      (if ct_Kind row = ''sweep'' then Some row else item_txs S (ct_ItemID row) ''sweep'')"
    proof
      assume k: "kind = ''gas''"
      with staged_states(1) [OF ok running row(4) gas(1)] none show ?thesis by (simp add: row(6,7))
    next
      assume k: "kind = ''sweep''"
      have "ct_State t = ''confirmed''" if "item_txs S item ''gas'' = Some t" for t using gas(2) [OF k] that by simp
      with staged_states(2) [OF ok running row(4)] k show ?thesis by (simp add: row(6,7))
    qed
  qed
  moreover have "kept_txs S T" unfolding row(11) by (rule kept_append)
  moreover have "row \<in> set (ss_txs T)" "ss_jobs T = ss_jobs S" by (simp_all add: row(11) set_item_def)
  ultimately show ?thesis using row(5) by blast
qed

lemma stage_inv:
  assumes vault: "vault_ok A" and inv: "sweep_inv A now S" and x: "item_at A S i q item plan" and kind: "kind = ''gas'' \<or> kind = ''sweep''"
    and run: "cryptoStageTransfer A env i lease item kind q plan S = Inr (out, T)" and none: "item_txs S item ''sweep'' = None"
    and gas: "kind = ''gas'' \<Longrightarrow> item_txs S item ''gas'' = None"
      "kind = ''sweep'' \<Longrightarrow> \<forall>u. item_txs S item ''gas'' = Some u \<longrightarrow> ct_State u = ''confirmed''"
  shows "sweep_inv A now T \<and> kept_txs S T \<and> ss_jobs T = ss_jobs S \<and> (out = None \<longrightarrow> T = S) \<and>
    (\<forall>v. out = Some v \<longrightarrow> v \<in> set (ss_txs T) \<and> ct_JobID v = i)"
proof -
  obtain o1 where o1: "observe_transfer A env kind q plan S = Inr o1" using run by (auto simp: cryptoStageTransfer_def res_simps)
  show ?thesis
  proof (cases o1)
    case None
    with run o1 inv show ?thesis by (simp add: cryptoStageTransfer_def)
  next
    case (Some g)
    obtain S0 where S0: "sweepLockChain (ch_ChainID (qu_Chain q)) S = Inr S0" "cryptoCheckSweepLease i lease (sv_now env) S0 = Inr ()"
      using run o1 Some by (auto simp: cryptoStageTransfer_def res_simps)
    obtain z where z: "S0 = S\<lparr>ss_frozen := z\<rparr>" using lock_rows [OF S0(1)] by blast
    show ?thesis
    proof (cases "find (\<lambda>t. ct_JobID t = i \<and> ct_ItemID t = item \<and> ct_Kind t = kind) (ss_txs S0)")
      case found: (Some t)
      then have "t \<in> set (ss_txs S)" "ct_JobID t = i" by (auto simp: z find_Some_iff)
      moreover have "out = Some t" "T = S" using run o1 Some S0 found by (simp_all add: cryptoStageTransfer_def)
      ultimately show ?thesis using inv by simp
    next
      case missing: None
      with run o1 Some S0 obtain row where row: "stage_row A env i item kind q g S0 = Inr (row, T)" "out = Some row"
        by (auto simp: cryptoStageTransfer_def res_simps split: if_split_asm)
      have "sweep_inv A now S0" using inv by (simp add: z frozen_inv)
      moreover have "item_at A S0 i q item plan" using x by (rule item_at_skel [rotated]) (simp add: z skel_def)
      moreover have "observe_transfer A env kind q plan S0 = Inr (Some g)" using o1 Some by (simp add: z observe_transfer_def)
      moreover have "item_txs S0 y k = item_txs S y k" for y k by (simp add: z item_txs_def)
      ultimately have "sweep_inv A now T \<and> kept_txs S0 T \<and> row \<in> set (ss_txs T) \<and> ct_JobID row = i \<and> ss_jobs T = ss_jobs S0"
        using stage_row_inv [OF vault _ _ kind _ row(1) S0(2)] none gas by simp
      with row(2) kept_txs_trans [OF kept_txs_same [of S0 S]] show ?thesis by (auto simp: z)
    qed
  qed
qed

section \<open>A step of a worker\<close>

definition stepped :: "sweep_vault \<Rightarrow> int \<Rightarrow> SweepStore \<Rightarrow> SweepStore \<Rightarrow> bool" where
  "stepped A now S T \<longleftrightarrow> sweep_inv A now T \<and> kept_txs S T \<and> ss_jobs T = ss_jobs S"

lemma stepped_refl: "sweep_inv A now S \<Longrightarrow> stepped A now S S"
  by (simp add: stepped_def)

lemma stepped_trans: "stepped A now S T \<Longrightarrow> stepped A now T U \<Longrightarrow> stepped A now S U"
  unfolding stepped_def using kept_txs_trans by metis

lemma process_stepped:
  assumes "sweep_inv A now S" "v \<in> set (ss_txs S)" "ct_JobID v = i" "process_planned A env i lease q plan v S = (r, T)"
  shows "stepped A now S T" "skel T = skel S" "r = Inr True \<Longrightarrow> \<exists>w. item_txs T (ct_ItemID v) (ct_Kind v) = Some w \<and> ct_State w = ''confirmed''"
proof -
  have "stepped A now S T \<and> skel T = skel S \<and> (r = Inr True \<longrightarrow> (\<exists>w. item_txs T (ct_ItemID v) (ct_Kind v) = Some w \<and> ct_State w = ''confirmed''))"
  proof (cases "cryptoTransactionMatchesPlan v q plan")
    case (Inl e)
    with assms(1,4) show ?thesis by (auto simp: process_planned_def stepped_refl)
  next
    case (Inr u)
    with assms(3,4) have run: "cryptoProcessTransaction A env (ct_JobID v) lease v S = (r, T)" by (simp add: process_planned_def)
    from process_inv [OF assms(1,2) run] skel_lease(1) [of T S] show ?thesis by (simp add: stepped_def)
  qed
  then show "stepped A now S T" "skel T = skel S" "r = Inr True \<Longrightarrow> \<exists>w. item_txs T (ct_ItemID v) (ct_Kind v) = Some w \<and> ct_State w = ''confirmed''"
    by blast+
qed

lemma ignored_stepped:
  assumes "sweep_inv A now S" "v \<in> set (ss_txs S)" "ct_JobID v = i"
  shows "stepped A now S (snd (ignore_result (process_planned A env i lease q plan v S)))"
proof (cases "process_planned A env i lease q plan v S")
  case (Pair r T)
  with process_stepped(1) [OF assms Pair] show ?thesis by (simp add: ignore_result_def)
qed

lemma sweep_transfer_stepped:
  assumes "vault_ok A" "sweep_inv A now S" "item_at A S i q item plan" "item_txs S item ''sweep'' = None"
    "\<forall>u. item_txs S item ''gas'' = Some u \<longrightarrow> ct_State u = ''confirmed''"
  shows "stepped A now S (snd (sweep_transfer A env i lease q plan item S))"
proof (cases "cryptoStageTransfer A (env SweepStage) i lease item ''sweep'' q plan S")
  case (Inl e)
  with assms(2) show ?thesis by (simp add: sweep_transfer_def stepped_refl)
next
  case (Inr p)
  obtain out T where p: "p = (out, T)" by (cases p)
  note st = stage_inv [OF assms(1-3) _ Inr [unfolded p] assms(4) _ assms(5)]
  show ?thesis
  proof (cases out)
    case None
    with Inr p st assms(2) show ?thesis by (simp add: sweep_transfer_def stepped_refl)
  next
    case (Some v)
    with st have T: "stepped A now S T" "sweep_inv A now T" "v \<in> set (ss_txs T)" "ct_JobID v = i" by (simp_all add: stepped_def)
    with stepped_trans [OF T(1) ignored_stepped [OF T(2-4)]] Inr p Some show ?thesis by (simp add: sweep_transfer_def)
  qed
qed

lemma item_tx_job:
  assumes "sweep_inv A now S" "item_at A S i q item plan" "item_txs S item k = Some v"
  shows "v \<in> set (ss_txs S)" "ct_JobID v = i" "ct_ItemID v = item" "ct_Kind v = k"
proof -
  show v: "v \<in> set (ss_txs S)" "ct_ItemID v = item" "ct_Kind v = k" using item_txs_Some [OF assms(3)] by auto
  obtain x where x: "x \<in> set (ss_items S)" "si_ID x = item" "si_JobID x = i" using assms(2) by (auto simp: item_at_def)
  have "row_with si_ID item (ss_items S) = Some x"
    using row_with_unique [of si_ID "ss_items S" x] assms(1) x by (simp add: sweep_inv_def)
  moreover have "tx_good A S v" using assms(1) v(1) by (simp add: sweep_inv_def)
  ultimately show "ct_JobID v = i" using v(2) x(3) by (auto simp: tx_good_def)
qed

lemma step_item_stepped:
  assumes vault: "vault_ok A" and inv: "sweep_inv A now S" and x: "item_at A S i q item plan"
  shows "stepped A now S (snd (step_item A env i lease q plan item S))"
proof (cases "item_txs S item ''sweep''")
  case (Some v)
  with ignored_stepped [OF inv item_tx_job(1,2) [OF inv x Some]] show ?thesis by (simp add: step_item_def)
next
  case none: None
  show ?thesis
  proof (cases "item_txs S item ''gas''")
    case gas: (Some v)
    note v = item_tx_job [OF inv x gas]
    obtain r T where p: "process_planned A (env GasProcess) i lease q plan v S = (r, T)" by fastforce
    note T = process_stepped [OF inv v(1,2) p]
    show ?thesis
    proof (cases "r = Inr True")
      case True
      obtain w where w: "item_txs T item ''gas'' = Some w" "ct_State w = ''confirmed''" using T(3) [OF True] v(3,4) by auto
      have iT: "sweep_inv A now T" using T(1) by (simp add: stepped_def)
      have "item_txs T item ''sweep'' = None" using skel_none [OF T(2)] none by simp
      with w sweep_transfer_stepped [OF vault iT item_at_skel [OF T(2) x]] stepped_trans [OF T(1)]
      have "stepped A now S (snd (sweep_transfer A env i lease q plan item T))" by simp
      with none gas p True show ?thesis by (simp add: step_item_def)
    next
      case False
      with none gas p T(1) show ?thesis by (auto simp: step_item_def split: sum.split)
    qed
  next
    case gas: None
    have sweep: "stepped A now S (snd (sweep_transfer A env i lease q plan item S))"
      by (rule sweep_transfer_stepped [OF vault inv x none]) (simp add: gas)
    show ?thesis
    proof (cases "it_TopupAtoms plan = ''0''")
      case True
      with none gas sweep show ?thesis by (simp add: step_item_def)
    next
      case topup: False
      show ?thesis
      proof (cases "cryptoStageTransfer A (env GasStage) i lease item ''gas'' q plan S")
        case (Inl e)
        with none gas topup inv show ?thesis by (simp add: step_item_def stepped_refl)
      next
        case (Inr p)
        obtain out T where p: "p = (out, T)" by (cases p)
        note st = stage_inv [OF vault inv x _ Inr [unfolded p] none gas]
        show ?thesis
        proof (cases out)
          case None
          with Inr p st none gas topup sweep show ?thesis by (simp add: step_item_def)
        next
          case (Some v)
          with st have T: "stepped A now S T" "sweep_inv A now T" "v \<in> set (ss_txs T)" "ct_JobID v = i" by (simp_all add: stepped_def)
          with stepped_trans [OF T(1) ignored_stepped [OF T(2-4)]] Inr p Some none gas topup show ?thesis by (simp add: step_item_def)
        qed
      qed
    qed
  qed
qed

text \<open>A finished job.\<close>

lemma keeps_job_finish: "keeps_job (\<lambda>j. j\<lparr>sj_State := s, sj_Error := m, sj_LeaseToken := l, sj_LeaseUntil := u, sj_Updated := n\<rparr>)"
  unfolding keeps_job_def by blast

lemma keeps_job_claim: "keeps_job (\<lambda>j. j\<lparr>sj_State := s, sj_LeaseToken := l, sj_LeaseUntil := u, sj_Updated := n\<rparr>)"
  unfolding keeps_job_def
proof
  fix j :: SweepJob
  have "j\<lparr>sj_State := s, sj_LeaseToken := l, sj_LeaseUntil := u, sj_Updated := n\<rparr> =
    j\<lparr>sj_State := s, sj_Error := sj_Error j, sj_LeaseToken := l, sj_LeaseUntil := u, sj_Updated := n\<rparr>" by simp
  then show "\<exists>s' e l' u' n'. j\<lparr>sj_State := s, sj_LeaseToken := l, sj_LeaseUntil := u, sj_Updated := n\<rparr> =
    j\<lparr>sj_State := s', sj_Error := e, sj_LeaseToken := l', sj_LeaseUntil := u', sj_Updated := n'\<rparr>" by blast
qed

definition idle_state :: "string \<Rightarrow> bool" where
  "idle_state s \<longleftrightarrow> s = ''waiting'' \<or> s = ''complete'' \<or> s = ''failed'' \<or> s = ''fee_review_required'' \<or> s = ''cancelled''"

lemma idle_inv:
  assumes inv: "sweep_inv A now S" and le: "now \<le> now'" and s: "idle_state s"
    and fits: "\<And>j x. j \<in> set (ss_jobs S) \<Longrightarrow> p j \<Longrightarrow> x \<in> set (ss_items S) \<Longrightarrow> si_JobID x = sj_ID j \<Longrightarrow> state_fits S s x"
  shows "sweep_inv A now' (set_job p (\<lambda>j. j\<lparr>sj_State := s, sj_Error := m, sj_LeaseToken := [], sj_LeaseUntil := 0, sj_Updated := now'\<rparr>) S)"
proof (rule jobs_inv [OF inv le keeps_job_finish])
  fix j
  assume "j \<in> set (ss_jobs S)"
  then have "job_good A now S j" using inv by (simp add: sweep_inv_def)
  with le have "sj_Updated j \<le> now'" by (auto simp: job_good_def)
  with s show "lease_ok (j\<lparr>sj_State := s, sj_Error := m, sj_LeaseToken := [], sj_LeaseUntil := 0, sj_Updated := now'\<rparr>) \<and>
      sj_Updated j \<le> sj_Updated (j\<lparr>sj_State := s, sj_Error := m, sj_LeaseToken := [], sj_LeaseUntil := 0, sj_Updated := now'\<rparr>) \<and>
      sj_Updated (j\<lparr>sj_State := s, sj_Error := m, sj_LeaseToken := [], sj_LeaseUntil := 0, sj_Updated := now'\<rparr>) \<le> now'"
    by (auto simp: idle_state_def lease_ok_def)
qed (simp add: fits)

lemma complete_inv:
  assumes inv: "sweep_inv A now S" and le: "now \<le> now'" and q: "quote_of A S i = Some q"
    and run: "cryptoCompleteSweep A now' i lease q S = (r, T)"
  shows "sweep_inv A now' T \<and> kept_txs S T"
proof (cases "T = S")
  case True
  with sweep_inv_later [OF inv le] show ?thesis by simp
next
  case False
  define items where "items = filter (\<lambda>x. si_JobID x = i) (ss_items S)"
  have T: "T = cryptoSweepFinish i lease ''complete'' [] now' S"
    and len: "length (filter (\<lambda>x. si_State x = ''complete'') items) = length (pv_Items (qu_Preview q))"
    using run False by (auto simp: cryptoCompleteSweep_def Let_def items_def conj_commute split: if_split_asm sum.split_asm)
  obtain j where j: "row_with sj_ID i (ss_jobs S) = Some j" "va_open A (sj_Quote j) = Some q"
    using q by (auto simp: quote_of_def split: option.splits)
  have jin: "j \<in> set (ss_jobs S)" "sj_ID j = i" using row_with_Some [OF j(1)] by auto
  then have "length items = length (pv_Items (qu_Preview q))"
    using inv j(2) by (auto simp: sweep_inv_def job_good_def items_def)
  then have same: "length (filter (\<lambda>x. si_State x = ''complete'') items) = length items" using len by simp
  have all: "\<forall>x \<in> set items. si_State x = ''complete''"
  proof (rule ccontr)
    assume "\<not> (\<forall>x \<in> set items. si_State x = ''complete'')"
    then obtain x where "x \<in> set items" "si_State x \<noteq> ''complete''" by blast
    with length_filter_less [of x items "\<lambda>x. si_State x = ''complete''"] same show False by simp
  qed
  have "sweep_inv A now' T"
    unfolding T cryptoSweepFinish_def
    by (rule idle_inv [OF inv le]) (use all in \<open>auto simp: idle_state_def state_fits_def items_def\<close>)
  moreover have "ss_txs T = ss_txs S" by (simp add: T cryptoSweepFinish_def set_job_def)
  ultimately show ?thesis by (simp add: kept_txs_same)
qed

lemma step_inv:
  assumes vault: "vault_ok A" and inv: "sweep_inv A now S" and le: "now \<le> now'" and run: "cryptoSweepStep A env now' i lease S = (r, T)"
  shows "sweep_inv A now' T \<and> kept_txs S T"
proof (cases "T = S")
  case True
  with sweep_inv_later [OF inv le] show ?thesis by simp
next
  case change: False
  note later = sweep_inv_later [OF inv le]
  obtain j q where q: "row_with sj_ID i (ss_jobs S) = Some j" "va_open A (sj_Quote j) = Some q"
    using run change by (auto simp: cryptoSweepStep_def split: option.split_asm)
  have qo: "quote_of A S i = Some q" using q by (simp add: quote_of_def)
  define items where "items = filter (\<lambda>x. si_JobID x = i) (ss_items S)"
  consider (complete) "cryptoCompleteSweep A now' i lease q S = (r, T)"
    | (item) x plan where "first_row (item_touched S) (filter (\<lambda>x. si_State x \<noteq> ''complete'') items) = Some x"
        "plan_for (qu_Preview q) (si_AddressID x) = Some plan" "step_item A env i lease q plan (si_ID x) S = (r, T)"
    using run change q by (auto simp: cryptoSweepStep_def Let_def items_def split: option.split_asm sum.split_asm if_split_asm)
  then show ?thesis
  proof cases
    case complete
    then show ?thesis by (rule complete_inv [OF inv le qo])
  next
    case item
    have "x \<in> set (ss_items S)" "si_JobID x = i" using first_row_Some [OF item(1)] by (auto simp: items_def)
    then have "item_at A S i q (si_ID x) plan" using qo item(2) by (auto simp: item_at_def)
    from step_item_stepped [OF vault later this, of env lease] item(3) show ?thesis by (simp add: stepped_def)
  qed
qed

section \<open>The other events\<close>

lemma set_job_txs [simp]: "ss_txs (set_job p f S) = ss_txs S"
  by (simp add: set_job_def)

lemma claim_inv:
  assumes inv: "sweep_inv A now S" and le: "now \<le> now'" "0 < now'" and token: "token \<noteq> []" and run: "cryptoSweepClaim now' token S = Some (i, T)"
  shows "sweep_inv A now' T \<and> kept_txs S T"
proof -
  have T: "T = set_job (\<lambda>x. sj_ID x = i)
      (\<lambda>x. x\<lparr>sj_State := ''running'', sj_LeaseToken := token, sj_LeaseUntil := now' + 120, sj_Updated := now'\<rparr>) S"
    using run by (auto simp: cryptoSweepClaim_def split: option.split_asm)
  have "sj_Updated k \<le> now'" if "k \<in> set (ss_jobs S)" for k
    using inv le that by (force simp: sweep_inv_def job_good_def)
  then have "sweep_inv A now' T"
    unfolding T by (intro jobs_inv [OF inv le(1) keeps_job_claim]) (use le token in \<open>auto simp: lease_ok_def state_fits_def\<close>)
  then show ?thesis by (simp add: T kept_txs_same)
qed

lemma finish_inv:
  assumes inv: "sweep_inv A now S" and le: "now \<le> now'"
  shows "sweep_inv A now' (cryptoSweepFinish i lease (fst (step_outcome r)) m now' S) \<and>
    kept_txs S (cryptoSweepFinish i lease (fst (step_outcome r)) m now' S)"
proof -
  have s: "fst (step_outcome r) \<in> {''waiting'', ''failed'', ''fee_review_required''}"
    by (auto simp: step_outcome_def split: sum.split sweep_error.split)
  have "sweep_inv A now' (cryptoSweepFinish i lease (fst (step_outcome r)) m now' S)"
    unfolding cryptoSweepFinish_def by (rule idle_inv [OF inv le]) (use s in \<open>auto simp: idle_state_def state_fits_def\<close>)
  then show ?thesis by (simp add: cryptoSweepFinish_def kept_txs_same)
qed

lemma cancel_inv:
  assumes inv: "sweep_inv A now S" and le: "now \<le> now'" and run: "cryptoCancelSweep now' operation i S = Inr T"
  shows "sweep_inv A now' T \<and> kept_txs S T"
proof (cases "T = S")
  case True
  with sweep_inv_later [OF inv le] show ?thesis by simp
next
  case False
  with run have T: "T = set_job (\<lambda>x. sj_ID x = i)
      (\<lambda>x. x\<lparr>sj_State := ''cancelled'', sj_LeaseToken := [], sj_LeaseUntil := 0, sj_Updated := now'\<rparr>) S" and pending: "pending_txs i S = []"
    by (auto simp: cryptoCancelSweep_def split: option.split_asm if_split_asm)
  have "final_state (ct_State t)" if t: "t \<in> set (ss_txs S)" and x: "x \<in> set (ss_items S)" "si_JobID x = i" "ct_ItemID t = si_ID x" for t x
  proof -
    have "row_with si_ID (ct_ItemID t) (ss_items S) = Some x" "tx_good A S t"
      using row_with_unique [of si_ID "ss_items S" x] inv x(1,3) t by (simp_all add: sweep_inv_def)
    then have "ct_JobID t = i" using x(2) by (auto simp: tx_good_def)
    with pending t show ?thesis by (auto simp: pending_txs_def filter_empty_conv)
  qed
  moreover have "sj_Updated k \<le> now'" if "k \<in> set (ss_jobs S)" for k
    using inv le that by (force simp: sweep_inv_def job_good_def)
  ultimately have "sweep_inv A now' T"
    unfolding T by (intro jobs_inv [OF inv le keeps_job_claim]) (auto simp: lease_ok_def state_fits_def)
  then show ?thesis by (simp add: T kept_txs_same)
qed

lemma retry_inv:
  assumes inv: "sweep_inv A now S" and le: "now \<le> now'" and run: "cryptoRetrySweep A s c now' operation i S = Inr T"
  shows "sweep_inv A now' T \<and> kept_txs S T"
proof -
  have T: "T = set_job (\<lambda>x. sj_ID x = i)
      (\<lambda>x. x\<lparr>sj_State := ''waiting'', sj_Error := [], sj_LeaseToken := [], sj_LeaseUntil := 0, sj_Updated := now'\<rparr>) S"
    using run by (auto simp: cryptoRetrySweep_def res_simps split: option.split_asm if_split_asm)
  have "sweep_inv A now' T" unfolding T by (rule idle_inv [OF inv le]) (simp_all add: idle_state_def state_fits_def)
  then show ?thesis by (simp add: T kept_txs_same)
qed

lemma create_inv:
  assumes inv: "sweep_inv A now S" and le: "now \<le> now'" "0 < now'" and vault: "vault_ok A"
    and previews: "\<And>q. va_open A (in_Quote inp) = Some q \<Longrightarrow> \<exists>W. tables_ok W \<and> grown A W (ss_tables S) \<and> previewed A W now' q"
    and run: "cryptoCreateSweep A now' job serial actor wallet inp S = Inr (i, T)"
  shows "sweep_inv A now' T \<and> kept_txs S T"
proof -
  obtain q where q: "va_open A (in_Quote inp) = Some q" using run by (auto simp: cryptoCreateSweep_def Let_def split: if_split_asm option.split_asm)
  have sound: "quote_sound A (ss_tables S) now' q"
    using previews [OF q] quote_sound_grown previewed_sound by blast
  obtain S0 where S0: "sweepLockChain (ch_ChainID (qu_Chain q)) S = Inr S0"
    using run q by (auto simp: cryptoCreateSweep_def Let_def res_simps split: if_split_asm option.split_asm)
  obtain z where z: "S0 = S\<lparr>ss_frozen := z\<rparr>" using lock_rows [OF S0] by blast
  have inv0: "sweep_inv A now' S0" unfolding z by (rule frozen_inv [OF sweep_inv_later [OF inv le(1)]])
  have sound0: "quote_sound A (ss_tables S0) now' q" using sound by (simp add: z)
  show ?thesis
  proof (cases "T = S0")
    case True
    with inv0 show ?thesis by (simp add: z kept_txs_same)
  next
    case False
    have ok: "insert_sweep A now' job serial inp q S0 = Inr (i, T)" "valid_operation (in_OperationID inp)" "pv_CanSubmit (qu_Preview q)"
      "pv_Items (qu_Preview q) \<noteq> []" "now' \<le> pv_ExpiresAt (qu_Preview q)"
      using run q S0 False by (auto simp: cryptoCreateSweep_def Let_def res_simps split: if_split_asm option.split_asm)
    have "sweep_inv A now' T" by (rule insert_sweep_inv [OF inv0 ok(1) q sound0 vault le(2) ok(2-5)])
    moreover have "ss_txs T = ss_txs S"
      using ok(1) by (auto simp: insert_sweep_def res_simps z split: if_split_asm)
    ultimately show ?thesis by (simp add: kept_txs_same)
  qed
qed

section \<open>Runs\<close>

text \<open>
  The clock and the tables. A quote was previewed on tables that have only grown since; workers have any lease and any
  answers of the network, and may stop after a step; the chain state is changed by scanners too.
\<close>

inductive sweep_step :: "sweep_vault \<Rightarrow> int \<times> SweepStore \<Rightarrow> int \<times> SweepStore \<Rightarrow> bool" for A where
  Create: "now \<le> now' \<Longrightarrow> 0 < now' \<Longrightarrow>
    (\<And>q. va_open A (in_Quote inp) = Some q \<Longrightarrow> \<exists>W. tables_ok W \<and> grown A W (ss_tables S) \<and> previewed A W now' q) \<Longrightarrow>
    cryptoCreateSweep A now' job serial actor wallet inp S = Inr (i, T) \<Longrightarrow> sweep_step A (now, S) (now', T)"
| Claim: "now \<le> now' \<Longrightarrow> 0 < now' \<Longrightarrow> token \<noteq> [] \<Longrightarrow> cryptoSweepClaim now' token S = Some (i, T) \<Longrightarrow> sweep_step A (now, S) (now', T)"
| Work: "now \<le> now' \<Longrightarrow> cryptoSweepStep A env now' i lease S = (r, T) \<Longrightarrow> sweep_step A (now, S) (now', T)"
| Finish: "now \<le> now' \<Longrightarrow> sweep_step A (now, S) (now', cryptoSweepFinish i lease (fst (step_outcome r)) (snd (step_outcome r)) now' S)"
| Cancel: "now \<le> now' \<Longrightarrow> cryptoCancelSweep now' operation i S = Inr T \<Longrightarrow> sweep_step A (now, S) (now', T)"
| Retry: "now \<le> now' \<Longrightarrow> cryptoRetrySweep A s c now' operation i S = Inr T \<Longrightarrow> sweep_step A (now, S) (now', T)"
| Freeze: "sweep_step A (now, S) (now, sweepFreezeChain chain S)"
| Tables: "grown A (ss_tables S) W \<Longrightarrow> sweep_step A (now, S) (now, S\<lparr>ss_tables := W\<rparr>)"

inductive_cases sweep_stepE: "sweep_step A (now, S) (now', T)"

inductive sweep_run :: "sweep_vault \<Rightarrow> int \<times> SweepStore \<Rightarrow> int \<times> SweepStore \<Rightarrow> bool" for A where
  Start: "sweep_run A x x"
| Continue: "sweep_run A x y \<Longrightarrow> sweep_step A y z \<Longrightarrow> sweep_run A x z"

definition empty_sweeps :: "WalletTables \<Rightarrow> SweepStore" where
  "empty_sweeps W = \<lparr>ss_jobs = [], ss_items = [], ss_txs = [], ss_frozen = [], ss_tables = W\<rparr>"

lemma empty_inv: "tables_ok W \<Longrightarrow> sweep_inv A now (empty_sweeps W)"
  by (simp add: empty_sweeps_def sweep_inv_def keys_ok_def)

lemma sweep_step_inv:
  assumes "sweep_step A x y" "vault_ok A" "sweep_inv A (fst x) (snd x)"
  shows "sweep_inv A (fst y) (snd y) \<and> kept_txs (snd x) (snd y)"
  using assms
proof cases
  case (Create now now' inp S job serial actor wallet i T)
  with create_inv [of A now S now' inp job serial actor wallet i T] assms(2,3) show ?thesis by simp
next
  case (Claim now now' token S i T)
  with claim_inv [of A now S now' token i T] assms(3) show ?thesis by simp
next
  case (Work now now' env i lease S r T)
  with step_inv [of A now S now' env i lease r T] assms(2,3) show ?thesis by simp
next
  case (Finish now now' S i lease r)
  with finish_inv [of A now S now' i lease r "snd (step_outcome r)"] assms(3) show ?thesis by simp
next
  case (Cancel now now' operation i S T)
  with cancel_inv [of A now S now' operation i T] assms(3) show ?thesis by simp
next
  case (Retry now now' s c operation i S T)
  with retry_inv [of A now S now' s c operation i T] assms(3) show ?thesis by simp
next
  case (Freeze now S chain)
  with freeze_inv [of A now S chain] assms(3) show ?thesis by (simp add: kept_txs_same)
next
  case (Tables S W now)
  with tables_inv [of A now S W] assms(3) show ?thesis by (simp add: kept_txs_same)
qed

lemma sweep_run_inv:
  assumes "sweep_run A x y" "vault_ok A" "sweep_inv A (fst x) (snd x)"
  shows "sweep_inv A (fst y) (snd y) \<and> kept_txs (snd x) (snd y)"
  using assms
proof (induction rule: sweep_run.induct)
  case (Continue x y z)
  with sweep_step_inv [OF Continue.hyps(2) Continue.prems(1)] kept_txs_trans show ?case by blast
qed simp

text \<open>A worker's turn is a run: it claims a job, steps, and finishes.\<close>

lemma work_run:
  assumes "cryptoSweepWork A env claimed stepped_at finished token S = (r, T)" "now \<le> claimed" "claimed \<le> stepped_at" "stepped_at \<le> finished"
    "0 < claimed" "token \<noteq> []"
  shows "\<exists>last. sweep_run A (now, S) (last, T)"
proof (cases "cryptoSweepClaim claimed token S")
  case None
  with assms(1) show ?thesis by (auto simp: cryptoSweepWork_def intro: sweep_run.Start)
next
  case (Some p)
  obtain i S1 where p: "p = (i, S1)" by (cases p)
  obtain r' S2 where s: "cryptoSweepStep A env stepped_at i token S1 = (r', S2)" by fastforce
  have T: "T = cryptoSweepFinish i token (fst (step_outcome r')) (snd (step_outcome r')) finished S2"
    using assms(1) Some p s by (auto simp: cryptoSweepWork_def split: prod.splits)
  have "sweep_run A (now, S) (claimed, S1)"
    by (rule sweep_run.Continue [OF sweep_run.Start sweep_step.Claim [OF assms(2,5,6) Some [unfolded p]]])
  then have "sweep_run A (now, S) (stepped_at, S2)"
    by (rule sweep_run.Continue [OF _ sweep_step.Work [OF assms(3) s]])
  then have "sweep_run A (now, S) (finished, T)"
    unfolding T by (rule sweep_run.Continue [OF _ sweep_step.Finish [OF assms(4)]])
  then show ?thesis ..
qed

text \<open>In every store that operation reaches, the check of the next start succeeds.\<close>

lemma runs_pass_startup_check:
  assumes "vault_ok A" "tables_ok W" "sweep_run A (now, empty_sweeps W) (now', S)"
  shows "validateCryptoSweeps A S"
  using sweep_run_inv [OF assms(3,1)] empty_inv [OF assms(2)] inv_startup_check by fastforce

end
