(* ===== verification/Sweep_Safety.thy ===== *)
theory Sweep_Safety
  imports Sweep_Steps
begin

text \<open>
  What the invariant of sweeps gives an administrator: fees stay within the approved budget, a complete job has emptied
  every approved address once, and a worker without the lease of a job changes nothing of it.
\<close>

section \<open>Transactions and plans\<close>

lemma job_quote:
  assumes "sweep_inv A now S" "j \<in> set (ss_jobs S)" "va_open A (sj_Quote j) = Some q"
  shows "quote_of A S (sj_ID j) = Some q" "quote_agrees A S j q" "distinct (map it_AddressID (pv_Items (qu_Preview q)))"
    "\<exists>price limit balance. within_budget price limit balance (qu_Preview q)"
    "length (filter (\<lambda>x. si_JobID x = sj_ID j) (ss_items S)) = length (pv_Items (qu_Preview q))"
proof -
  have row: "row_with sj_ID (sj_ID j) (ss_jobs S) = Some j"
    by (rule row_with_unique) (use assms in \<open>simp_all add: sweep_inv_def\<close>)
  then show "quote_of A S (sj_ID j) = Some q" using assms(3) by (simp add: quote_of_def)
  have "job_good A now S j" using assms(1,2) by (simp add: sweep_inv_def)
  then show "quote_agrees A S j q" "distinct (map it_AddressID (pv_Items (qu_Preview q)))"
    "\<exists>price limit balance. within_budget price limit balance (qu_Preview q)"
    "length (filter (\<lambda>x. si_JobID x = sj_ID j) (ss_items S)) = length (pv_Items (qu_Preview q))"
    unfolding job_good_def using assms(3) by simp_all
qed

text \<open>The item and the plan of a stored transaction.\<close>

lemma tx_plan:
  assumes "tx_good A S t" "quote_of A S (ct_JobID t) = Some q"
  obtains x plan where "x \<in> set (ss_items S)" "si_ID x = ct_ItemID t" "si_JobID x = ct_JobID t" "plan \<in> set (pv_Items (qu_Preview q))"
    "it_AddressID plan = si_AddressID x" "plan_for (qu_Preview q) (si_AddressID x) = Some plan" "ct_GasPrice t = it_GasPriceAtoms plan"
    "ct_Kind t = ''gas'' \<and> gas_matches t q plan \<or> ct_Kind t = ''sweep'' \<and> sweep_matches t q plan"
proof -
  obtain x plan where x: "row_with si_ID (ct_ItemID t) (ss_items S) = Some x" "si_JobID x = ct_JobID t"
    "plan_for (qu_Preview q) (si_AddressID x) = Some plan" "cryptoTransactionMatchesPlan t q plan = Inr ()"
    using assms by (auto simp: tx_good_def)
  show thesis
  proof (rule that [of x plan])
    show "x \<in> set (ss_items S)" "si_ID x = ct_ItemID t" using row_with_Some [OF x(1)] by auto
    show "plan \<in> set (pv_Items (qu_Preview q))" "it_AddressID plan = si_AddressID x"
      using row_with_Some [OF x(3) [unfolded plan_for_def]] by auto
    show "ct_GasPrice t = it_GasPriceAtoms plan" "ct_Kind t = ''gas'' \<and> gas_matches t q plan \<or> ct_Kind t = ''sweep'' \<and> sweep_matches t q plan"
      using x(4) by (auto simp: cryptoTransactionMatchesPlan_def sweep_matches_def split: if_split_asm)
  qed (use x in simp_all)
qed

section \<open>Fees\<close>

definition job_txs :: "SweepStore \<Rightarrow> string \<Rightarrow> cryptoChainTransaction list" where
  "job_txs S i = filter (\<lambda>t. ct_JobID t = i) (ss_txs S)"

definition signed_fees :: "SweepStore \<Rightarrow> string \<Rightarrow> nat" where
  "signed_fees S i = (\<Sum>t\<leftarrow>job_txs S i. ct_GasLimit t * digits_value (ct_GasPrice t))"

lemma fees_within_budget:
  assumes inv: "sweep_inv A now S" and j: "j \<in> set (ss_jobs S)" "va_open A (sj_Quote j) = Some q"
  shows "signed_fees S (sj_ID j) \<le> digits_value (sj_MaxGasAtoms j)"
proof -
  note jq = job_quote [OF inv j]
  obtain price limit balance where budget: "within_budget price limit balance (qu_Preview q)" using jq(4) by blast
  define p where "p = qu_Preview q"
  define ts where "ts = set (job_txs S (sj_ID j))"
  have good: "tx_good A S t \<and> t \<in> set (ss_txs S) \<and> ct_JobID t = sj_ID j" if "t \<in> ts" for t
    using that inv by (simp add: ts_def job_txs_def sweep_inv_def)
  have keys: "keys_ok (ss_txs S)" using inv by (simp add: sweep_inv_def)
  define item where "item t = the (row_with si_ID (ct_ItemID t) (ss_items S))" for t :: cryptoChainTransaction
  define plan where "plan t = the (plan_for p (si_AddressID (item t)))" for t :: cryptoChainTransaction
  define g :: "CryptoSweepPlanItem \<times> bool \<Rightarrow> nat" where "g = (\<lambda>(i, gas). (if gas then it_FundingGasLimit i else it_GasLimit i) * price)"
  have facts: "item t \<in> set (ss_items S) \<and> si_ID (item t) = ct_ItemID t \<and> si_JobID (item t) = sj_ID j \<and> plan t \<in> set (pv_Items p) \<and>
      it_AddressID (plan t) = si_AddressID (item t) \<and> (ct_Kind t = ''gas'' \<or> ct_Kind t = ''sweep'') \<and>
      ct_GasLimit t * digits_value (ct_GasPrice t) = g (plan t, ct_Kind t = ''gas'')" if t: "t \<in> ts" for t
  proof -
    have tg: "tx_good A S t" "quote_of A S (ct_JobID t) = Some q" "ct_JobID t = sj_ID j" using good [OF t] jq(1) by auto
    show ?thesis
    proof (rule tx_plan [OF tg(1,2)])
      fix x pl
      assume x: "x \<in> set (ss_items S)" "si_ID x = ct_ItemID t" "si_JobID x = ct_JobID t" "pl \<in> set (pv_Items (qu_Preview q))"
        "it_AddressID pl = si_AddressID x" "plan_for (qu_Preview q) (si_AddressID x) = Some pl" "ct_GasPrice t = it_GasPriceAtoms pl"
        "ct_Kind t = ''gas'' \<and> gas_matches t q pl \<or> ct_Kind t = ''sweep'' \<and> sweep_matches t q pl"
      have "row_with si_ID (ct_ItemID t) (ss_items S) = Some x"
        using row_with_unique [of si_ID "ss_items S" x] inv x(1,2) by (simp add: sweep_inv_def)
      then have "item t = x" "plan t = pl" using x(6) by (simp_all add: item_def plan_def p_def)
      moreover have "digits_value (ct_GasPrice t) = price"
        using budget x(4,7) by (simp add: within_budget_def list_all_iff)
      moreover have "ct_GasLimit t = (if ct_Kind t = ''gas'' then it_FundingGasLimit pl else it_GasLimit pl)"
        using x(8) by (auto simp: gas_matches_def sweep_matches_def split: sum.split_asm)
      ultimately show ?thesis using x(1-5,8) tg(3) by (auto simp: g_def p_def)
    qed
  qed
  have inj: "inj_on (\<lambda>t. (plan t, ct_Kind t = ''gas'')) ts"
  proof (rule inj_onI)
    fix t u
    assume t: "t \<in> ts" "u \<in> ts" "(plan t, ct_Kind t = ''gas'') = (plan u, ct_Kind u = ''gas'')"
    have "item_key (item t) = item_key (item u)" using facts [OF t(1)] facts [OF t(2)] t(3) by (simp add: item_key_def)
    then have "item t = item u"
      using facts [OF t(1)] facts [OF t(2)] inv by (auto simp: sweep_inv_def distinct_map dest: inj_onD)
    then have "ct_ItemID t = ct_ItemID u" "ct_Kind t = ct_Kind u" using facts [OF t(1)] facts [OF t(2)] t(3) by auto
    then show "t = u" using tx_unique(2) [OF keys] good [OF t(1)] good [OF t(2)] by blast
  qed
  have "distinct (job_txs S (sj_ID j))" using keys by (auto simp: keys_ok_def job_txs_def distinct_map)
  then have "signed_fees S (sj_ID j) = (\<Sum>t \<in> ts. ct_GasLimit t * digits_value (ct_GasPrice t))"
    by (simp add: signed_fees_def ts_def sum_list_distinct_conv_sum_set)
  also have "\<dots> = (\<Sum>t \<in> ts. g (plan t, ct_Kind t = ''gas''))" by (rule sum.cong) (use facts in auto)
  also have "\<dots> = sum g ((\<lambda>t. (plan t, ct_Kind t = ''gas'')) ` ts)" by (simp add: sum.reindex [OF inj] comp_def)
  also have "\<dots> \<le> sum g (set (pv_Items p) \<times> UNIV)"
    by (rule sum_mono2) (use facts in auto)
  also have "\<dots> = (\<Sum>i \<in> set (pv_Items p). (it_GasLimit i + it_FundingGasLimit i) * price)"
    by (simp add: sum.cartesian_product [symmetric] g_def UNIV_bool algebra_simps)
  also have "\<dots> = (\<Sum>i\<leftarrow>pv_Items p. (it_GasLimit i + it_FundingGasLimit i) * price)"
    using jq(3) by (simp add: sum_list_distinct_conv_sum_set distinct_map p_def)
  also have "\<dots> \<le> limit" using budget by (simp add: within_budget_def p_def)
  also have "limit = digits_value (sj_MaxGasAtoms j)"
  proof -
    have "pv_MaxGasAtoms p = nat_string limit" "pv_MaxGasAtoms p = sj_MaxGasAtoms j"
      using budget jq(2) by (simp_all add: within_budget_def quote_agrees_def Let_def p_def)
    then show ?thesis by (metis digits_value_nat_string)
  qed
  finally show ?thesis .
qed

section \<open>Complete jobs\<close>

definition settled_transfer :: "sweep_vault \<Rightarrow> cryptoSweepQuote \<Rightarrow> CryptoSweepPlanItem \<Rightarrow> cryptoChainTransaction \<Rightarrow> bool" where
  "settled_transfer A q plan t \<longleftrightarrow> ct_State t = ''confirmed'' \<and> sweep_matches t q plan \<and> validateCryptoSweepReceipt t \<and>
    (case cryptoValidateSignedIntent (va_keys A) t of Inl e \<Rightarrow> False | Inr x \<Rightarrow> True)"

lemma complete_job_swept:
  assumes inv: "sweep_inv A now S" and j: "j \<in> set (ss_jobs S)" "va_open A (sj_Quote j) = Some q" and complete: "sj_State j = ''complete''"
    and plan: "plan \<in> set (pv_Items (qu_Preview q))"
  shows "\<exists>t \<in> set (ss_txs S). ct_JobID t = sj_ID j \<and> settled_transfer A q plan t"
proof -
  note jq = job_quote [OF inv j]
  define items where "items = filter (\<lambda>x. si_JobID x = sj_ID j) (ss_items S)"
  have good: "item_good A S x" if "x \<in> set items" for x using inv that by (simp add: items_def sweep_inv_def)
  have row: "row_with sj_ID (si_JobID x) (ss_jobs S) = Some j" if "x \<in> set items" for x
    using row_with_unique [of sj_ID "ss_jobs S" j] inv j(1) that by (simp add: items_def sweep_inv_def)
  have sub: "si_AddressID ` set items \<subseteq> it_AddressID ` set (pv_Items (qu_Preview q))"
  proof
    fix a
    assume "a \<in> si_AddressID ` set items"
    then obtain x where x: "x \<in> set items" "a = si_AddressID x" by blast
    have "item_planned (qu_Preview q) x" using good [OF x(1)] row [OF x(1)] j(2) by (auto simp: item_good_def)
    then obtain p where "plan_for (qu_Preview q) a = Some p" by (auto simp: item_planned_def x(2) split: option.splits)
    then show "a \<in> it_AddressID ` set (pv_Items (qu_Preview q))" unfolding plan_for_def by (auto dest: row_with_Some)
  qed
  have "distinct (map item_key items)" using inv by (simp add: items_def sweep_inv_def distinct_map_filter)
  then have "inj_on item_key (set items)" "distinct items" by (simp_all add: distinct_map)
  then have "inj_on si_AddressID (set items)" by (auto simp: inj_on_def item_key_def items_def)
  then have "card (si_AddressID ` set items) = length items" using \<open>distinct items\<close> by (simp add: card_image distinct_card)
  moreover have "card (it_AddressID ` set (pv_Items (qu_Preview q))) = length (pv_Items (qu_Preview q))"
    using distinct_card [OF jq(3)] by simp
  ultimately have "si_AddressID ` set items = it_AddressID ` set (pv_Items (qu_Preview q))"
    using sub jq(5) by (intro card_subset_eq) (simp_all add: items_def)
  then obtain x where x: "x \<in> set items" "si_AddressID x = it_AddressID plan" using plan by (metis imageE imageI)
  have "item_state_ok j x (item_txs S (si_ID x) ''gas'') (item_txs S (si_ID x) ''sweep'')"
    using good [OF x(1)] row [OF x(1)] by (auto simp: item_good_def)
  then obtain t where t: "item_txs S (si_ID x) ''sweep'' = Some t" "ct_State t = ''confirmed''"
    using complete by (auto simp: item_state_ok_def)
  note tx = item_txs_Some [OF t(1)]
  have tg: "tx_good A S t" using inv tx by (simp add: sweep_inv_def)
  have look: "row_with si_ID (ct_ItemID t) (ss_items S) = Some x"
    using row_with_unique [of si_ID "ss_items S" x] inv x(1) tx by (simp add: sweep_inv_def items_def)
  then have job: "ct_JobID t = sj_ID j" using tg x(1) by (auto simp: tx_good_def items_def)
  have "plan_for (qu_Preview q) (si_AddressID x) = Some plan" using plan_for_unique [OF jq(3) plan] x(2) by simp
  then have "cryptoTransactionMatchesPlan t q plan = Inr ()" "\<exists>e. cryptoValidateSignedIntent (va_keys A) t = Inr e"
      "validateCryptoSweepReceipt t"
    using tg look jq(1) job by (auto simp: tx_good_def)
  then have "settled_transfer A q plan t"
    using t(2) tx by (auto simp: settled_transfer_def cryptoTransactionMatchesPlan_def split: if_split_asm)
  with tx job show ?thesis by blast
qed

section \<open>Lost leases\<close>

definition lease_lost :: "string \<Rightarrow> string \<Rightarrow> SweepStore \<Rightarrow> bool" where
  "lease_lost i lease S \<longleftrightarrow> list_all (\<lambda>j. \<not> (sj_ID j = i \<and> sj_LeaseToken j = lease)) (ss_jobs S)"

lemma lost_check:
  assumes "lease_lost i lease S"
  shows "\<exists>e. cryptoCheckSweepLease i lease now S = Inl e"
proof -
  have "filter (holds_lease i lease now) (ss_jobs S) = []"
    using assms by (auto simp: lease_lost_def list_all_iff filter_empty_conv holds_lease_def)
  then show ?thesis by (simp add: cryptoCheckSweepLease_def)
qed

lemma lost_finish: "lease_lost i lease S \<Longrightarrow> cryptoSweepFinish i lease state m now S = S"
proof -
  assume lost: "lease_lost i lease S"
  have "set_where (\<lambda>j. sj_ID j = i \<and> sj_LeaseToken j = lease) f (ss_jobs S) = ss_jobs S" for f
    using lost unfolding set_where_def lease_lost_def list_all_iff by (intro map_idI) auto
  then show ?thesis by (simp add: cryptoSweepFinish_def set_job_def)
qed

definition only_frozen :: "SweepStore \<Rightarrow> SweepStore \<Rightarrow> bool" where
  "only_frozen S T \<longleftrightarrow> T = S\<lparr>ss_frozen := ss_frozen T\<rparr>"

lemma only_frozen_refl [simp]: "only_frozen S S"
  by (simp add: only_frozen_def)

lemma kept_rows: "T = S\<lparr>ss_frozen := z\<rparr> \<Longrightarrow> ss_txs T = ss_txs S"
  by simp

lemma only_frozen_freeze [simp]: "only_frozen S (sweepFreezeChain c S)"
  by (simp add: only_frozen_def sweepFreezeChain_def)

lemma only_frozen_trans: "only_frozen S T \<Longrightarrow> only_frozen T U \<Longrightarrow> only_frozen S U"
  unfolding only_frozen_def by (metis SweepStore.update_convs(4) SweepStore.select_convs(4) SweepStore.surjective)

lemma lost_frozen: "only_frozen S T \<Longrightarrow> lease_lost i lease S \<Longrightarrow> lease_lost i lease T"
  unfolding only_frozen_def lease_lost_def by (metis SweepStore.ext_inject SweepStore.surjective SweepStore.update_convs(4))

lemma lost_stage:
  assumes "lease_lost i lease S" "cryptoStageTransfer A env i lease item kind q plan S = Inr (out, T)"
  shows "out = None \<and> T = S"
proof (cases "observe_transfer A env kind q plan S")
  case (Inr o1)
  have "False" if "o1 = Some g" "sweepLockChain c S = Inr S0" "cryptoCheckSweepLease i lease (sv_now env) S0 = Inr ()" for g c S0
  proof -
    from lock_rows [OF that(2)] obtain z where "S0 = S\<lparr>ss_frozen := z\<rparr>" by blast
    then have "lease_lost i lease S0" using assms(1) by (simp add: lease_lost_def)
    from lost_check [OF this, of "sv_now env"] that(3) show False by auto
  qed
  with assms(2) Inr show ?thesis
    by (cases o1) (auto simp: cryptoStageTransfer_def res_simps)
qed (use assms(2) in \<open>simp add: cryptoStageTransfer_def\<close>)

lemma lost_process:
  assumes "lease_lost i lease S" "process_planned A env i lease q plan v S = (r, T)"
  shows "only_frozen S T"
proof -
  obtain e where e: "cryptoCheckSweepLease i lease (sv_now env) S = Inl e" using lost_check [OF assms(1)] by blast
  have wait: "snd (wait_for_tx env i lease v S) = S" by (simp add: wait_for_tx_def Let_def e)
  have final: "only_frozen S (snd (conclude_tx k env i lease v rc S))" for k rc
    by (auto simp: conclude_tx_def e split: sum.split)
  have "only_frozen S (snd (cryptoProcessTransaction A env i lease v S))"
    using wait final by (auto simp: cryptoProcessTransaction_def split: sum.split option.split sweep_error.split)
  then have "only_frozen S (snd (process_planned A env i lease q plan v S))"
    by (auto simp: process_planned_def split: sum.split)
  with assms(2) show ?thesis by simp
qed

lemma lost_ignored:
  assumes "lease_lost i lease S"
  shows "only_frozen S (snd (ignore_result (process_planned A env i lease q plan v S)))"
proof (cases "process_planned A env i lease q plan v S")
  case (Pair r T)
  from lost_process [OF assms Pair] Pair show ?thesis by (simp add: ignore_result_def)
qed

lemma lost_sweep:
  assumes "lease_lost i lease S"
  shows "only_frozen S (snd (sweep_transfer A env i lease q plan item S))"
  using lost_stage [OF assms, of A "env SweepStage" item "''sweep''" q plan]
  by (auto simp: sweep_transfer_def split: sum.split prod.split option.split)

lemma lost_item:
  assumes "lease_lost i lease S"
  shows "only_frozen S (snd (step_item A env i lease q plan item S))"
proof (cases "item_txs S item ''sweep''")
  case (Some v)
  with lost_ignored [OF assms] show ?thesis by (simp add: step_item_def)
next
  case none: None
  show ?thesis
  proof (cases "item_txs S item ''gas''")
    case gas: (Some v)
    obtain r T where p: "process_planned A (env GasProcess) i lease q plan v S = (r, T)" by fastforce
    note T = lost_process [OF assms p]
    have "only_frozen S (snd (sweep_transfer A env i lease q plan item T))"
      by (rule only_frozen_trans [OF T lost_sweep [OF lost_frozen [OF T assms]]])
    with none gas p T show ?thesis by (auto simp: step_item_def split: sum.split)
  next
    case gas: None
    show ?thesis
    proof (cases "cryptoStageTransfer A (env GasStage) i lease item ''gas'' q plan S")
      case (Inl e)
      with none gas lost_sweep [OF assms] show ?thesis by (simp add: step_item_def)
    next
      case (Inr p)
      obtain out T where p: "p = (out, T)" by (cases p)
      from lost_stage [OF assms Inr [unfolded p]] Inr p none gas lost_sweep [OF assms] show ?thesis by (simp add: step_item_def)
    qed
  qed
qed

lemma lost_step:
  assumes "lease_lost i lease S" "cryptoSweepStep A env now i lease S = (r, T)"
  shows "only_frozen S T"
proof -
  have "only_frozen S (snd (cryptoCompleteSweep A now i lease q S))" for q
    by (simp add: cryptoCompleteSweep_def Let_def lost_finish [OF assms(1)] split: sum.split)
  with lost_item [OF assms(1)] have "only_frozen S (snd (cryptoSweepStep A env now i lease S))"
    by (auto simp: cryptoSweepStep_def Let_def split: sum.split option.split)
  with assms(2) show ?thesis by simp
qed

section \<open>Retries after a review of fees\<close>

lemma retry_price:
  assumes "cryptoRetrySweep A s c now operation i S = Inr T" "row_with sj_ID i (ss_jobs S) = Some j" "sj_State j = ''fee_review_required''"
    and q: "va_open A (sj_Quote j) = Some q"
  shows "validateCryptoSweeps A S \<and> (\<exists>price. rawGasPrice c = Inr price \<and>
    (\<forall>plan \<in> set (pv_Items (qu_Preview q)).
       (\<exists>t \<in> set (ss_txs S). ct_JobID t = i \<and> ct_Kind t = ''sweep'' \<and> ct_From t = it_Address plan) \<or>
       (\<exists>approved. cryptoAtoms (it_GasPriceAtoms plan) = Inr approved \<and> price \<le> approved)))"
proof -
  have id: "sj_ID j = i" using row_with_Some [OF assms(2)] by simp
  have review: "validateCryptoSweeps A S" "cryptoCheckEVMRetryFee s c i q S = Inr ()"
    using assms(1-3) q by (auto simp: cryptoRetrySweep_def retry_review_def res_simps id split: if_split_asm)
  obtain price where price: "rawGasPrice c = Inr price" "fold_res (retry_item_fee c q i price S) (pv_Items (qu_Preview q)) () = Inr ()"
    using review(2) by (auto simp: cryptoCheckEVMRetryFee_def res_simps split: sum.split_asm if_split_asm)
  have "(\<exists>t \<in> set (ss_txs S). ct_JobID t = i \<and> ct_Kind t = ''sweep'' \<and> ct_From t = it_Address plan) \<or>
       (\<exists>approved. cryptoAtoms (it_GasPriceAtoms plan) = Inr approved \<and> price \<le> approved)"
    if "fold_res (retry_item_fee c q i price S) plans () = Inr ()" "plan \<in> set plans" for plan plans
    using that
  proof (induction plans)
    case (Cons p plans)
    from Cons.prems(1) have "retry_item_fee c q i price S p () = Inr ()" "fold_res (retry_item_fee c q i price S) plans () = Inr ()"
      by (auto simp: bind_res_eq_Inr)
    with Cons show ?case
      by (auto simp: retry_item_fee_def list_ex_iff res_simps split: if_split_asm)
  qed simp
  with review(1) price show ?thesis by blast
qed

end
