(* ===== verification/Sweep_Samples.thy ===== *)
theory Sweep_Samples
  imports Sweep_Safety
begin

text \<open>
  A sweep of one address of a hot wallet on Ethereum, from the preview to the final block: the tables and answers of the
  network for the theorems on sweeps.
\<close>

section \<open>Wallet, network, keys\<close>

definition sw_source :: string where "sw_source = ''0x'' @ replicate 40 (CHR ''1'')"
definition sw_dest :: string where "sw_dest = ''0x'' @ replicate 40 (CHR ''2'')"
definition sw_fund :: string where "sw_fund = ''0x'' @ replicate 40 (CHR ''3'')"
definition sw_path :: string where "sw_path = ''m/44'' @ [CHR 0x27] @ ''/60'' @ [CHR 0x27] @ ''/0'' @ [CHR 0x27]"
definition sw_hash :: string where "sw_hash = ''0x'' @ replicate 64 (CHR ''9'')"
definition sw_block :: string where "sw_block = ''0x'' @ replicate 64 (CHR ''8'')"

definition sw_chain :: CryptoChain where
  "sw_chain = \<lparr>ch_ID = ''eth'', ch_ChainID = 1, ch_NativeSymbol = ''ETH'', ch_FinalityVerified = True\<rparr>"

definition sw_settings :: CryptoPaymentSettings where
  "sw_settings = \<lparr>ps_Chains = [sw_chain], ps_Assets = []\<rparr>"

definition sw_wallet :: CryptoWallet where
  "sw_wallet = \<lparr>cw_ID = ''w'', cw_Mode = ''hot'', cw_XPub = ''xpub'', cw_Path = sw_path, cw_RecoveryRequired = False, cw_BackupConfirmed = True,
     cw_SupportedChainIDs = [1]\<rparr>"

definition sw_address :: CryptoWalletAddress where
  "sw_address = \<lparr>wa_ID = ''a'', wa_WalletID = ''w'', wa_Index = 5, wa_Path = sw_path @ ''/0/5'', wa_Address = sw_source\<rparr>"

definition sw_tables :: WalletTables where
  "sw_tables = \<lparr>wt_wallets = [sw_wallet], wt_history = [(''w'', ''h'')], wt_addresses = [sw_address], wt_invoices = []\<rparr>"

text \<open>Answers: gas price 1, 21000 gas, a balance of 50000; the transfer is unknown at first and then final.\<close>

definition sw_client :: "(rpc_receipt option) \<Rightarrow> chain_client" where
  "sw_client r =
    \<lparr>cl_Finalized = Inr \<lparr>bk_Number = 20, bk_Hash = sw_block, bk_Timestamp = 900\<rparr>,
     cl_Latest = Inr \<lparr>bk_Number = 21, bk_Hash = sw_block, bk_Timestamp = 912\<rparr>,
     cl_gasPrice = Inr (''0x1'', ''0x1''), cl_estimate = (\<lambda>z a b d n. Inr (''0x5208'', ''0x5208'')),
     cl_NativeBalance = (\<lambda>a n. Inr 50000), cl_TokenBalance = (\<lambda>c a n. Inr 0), cl_ValidateToken = (\<lambda>c d n. Inr ()),
     cl_transactionCount = (\<lambda>a. Inr 0), cl_receipt = (\<lambda>h. Inr (r, r)),
     cl_block = (\<lambda>n. Inr \<lparr>bk_Number = n, bk_Hash = sw_block, bk_Timestamp = 900\<rparr>),
     cl_transaction = (\<lambda>h. let t = \<lparr>rt_Hash = sw_hash, rt_From = sw_source, rt_To = sw_dest, rt_Nonce = ''0x0'', rt_Value = ''0xed8'',
       rt_Input = ''0x'', rt_BlockHash = sw_block, rt_BlockNumber = ''0x13'', rt_ChainID = ''0x1''\<rparr> in Inr (t, t)),
     cl_Broadcast = (\<lambda>raw h. Inr ())\<rparr>"

definition sw_receipt :: rpc_receipt where
  "sw_receipt = \<lparr>rr_TransactionHash = sw_hash, rr_BlockHash = sw_block, rr_BlockNumber = ''0x13'', rr_From = sw_source, rr_To = Some sw_dest,
     rr_Status = ''0x1'', rr_Logs = []\<rparr>"

definition sw_item :: CryptoSweepPlanItem where
  "sw_item = \<lparr>it_AddressID = ''a'', it_Address = sw_source, it_Path = sw_path @ ''/0/5'', it_AmountAtoms = nat_string 3800, it_GasLimit = 23100,
     it_GasPriceAtoms = nat_string 2, it_GasFeeAtoms = nat_string 46200, it_TopupAtoms = ''0'', it_FundingGasAtoms = ''0'', it_FundingGasLimit = 0\<rparr>"

definition sw_preview :: CryptoSweepPreview where
  "sw_preview = \<lparr>pv_WalletID = ''w'', pv_ChainID = ''eth'', pv_AssetID = ''native'', pv_Destination = sw_dest, pv_MinAtoms = nat_string 0,
     pv_MaxGasAtoms = nat_string 46200, pv_CheckedAt = 1000, pv_ExpiresAt = 1120, pv_BlockNumber = 20, pv_FundingAddress = sw_fund,
     pv_FundingBalanceAtoms = nat_string 50000, pv_TotalAtoms = nat_string 3800, pv_TotalTopupAtoms = nat_string 0,
     pv_TotalGasAtoms = nat_string 46200, pv_RequiredFundingAtoms = nat_string 0, pv_FundingShortfallAtoms = nat_string 0,
     pv_Items = [sw_item], pv_CanSubmit = True, pv_FeeMode = ''standard'', pv_GasPriceAtoms = nat_string 2\<rparr>"

definition sw_quote :: cryptoSweepQuote where
  "sw_quote = \<lparr>qu_ActorID = 1, qu_Preview = sw_preview, qu_Chain = sw_chain,
     qu_Asset = \<lparr>sa_ID = ''native'', sa_ChainID = 1, sa_Symbol = ''ETH'', sa_Contract = [], sa_Decimals = 18\<rparr>\<rparr>"

definition sw_input :: cryptoSweepInput where
  "sw_input = \<lparr>in_ChainID = ''eth'', in_AssetID = ''native'', in_Destination = sw_dest, in_MinAtoms = ''0'', in_MaxGasAtoms = [],
     in_AddressIDs = [''a''], in_Quote = ''sealed'', in_OperationID = ''operation-sweep-1'', in_FeeMode = [], in_GasPriceAtoms = []\<rparr>"

definition sw_tx :: eth_transaction where
  "sw_tx = \<lparr>et_legacy = True, et_hash = sw_hash, et_chain = 1, et_nonce = 0, et_gas = 23100, et_price = 2, et_sender = Some sw_source,
     et_to = Some sw_dest, et_value = 3800, et_data = []\<rparr>"

definition sw_vault :: sweep_vault where
  "sw_vault =
    \<lparr>va_open = (\<lambda>s. if s = ''sealed'' then Some sw_quote else None), va_digest = (\<lambda>s. s),
     va_keys = \<lparr>ky_sign = (\<lambda>mnemonic path chain nonce gas price amount to data.
        if chain = 1 \<and> nonce = 0 \<and> gas = 23100 \<and> price = 2 \<and> amount = 3800 \<and> to = sw_dest \<and> data = []
        then Inr \<lparr>sg_Raw = ''aa'', sg_Hash = sw_hash, sg_From = sw_source\<rparr> else Inl (Failure ''no key'')),
       ky_decode = (\<lambda>raw. if raw = ''aa'' then Some sw_tx else None)\<rparr>,
     va_funding = (\<lambda>v. Inr (sw_fund, sw_path @ ''/1/0'')), va_mnemonic = (\<lambda>v. Inr ''words'')\<rparr>"

definition sw_preview_env :: preview_env where
  "sw_preview_env = \<lparr>pe_now = 1000, pe_client = sw_client None, pe_derive = (\<lambda>x p i. Inr sw_source), pe_funding = va_funding sw_vault,
     pe_checksum = (\<lambda>s. s), pe_frozen = (\<lambda>c. False)\<rparr>"

lemma sw_vault_ok: "vault_ok sw_vault" "tables_ok sw_tables"
  by (auto simp: vault_ok_def codec_ok_def sw_vault_def sw_tx_def sw_fund_def tables_ok_def sw_tables_def split: if_split_asm)

text \<open>Values of the texts of the sample.\<close>

lemma sw_digits: "hex_digit (CHR ''0'') = Some 0" "hex_digit (CHR ''1'') = Some 1" "hex_digit (CHR ''2'') = Some 2" "hex_digit (CHR ''3'') = Some 3"
  "hex_digit (CHR ''5'') = Some 5" "hex_digit (CHR ''8'') = Some 8" "hex_digit (CHR ''d'') = Some 13" "hex_digit (CHR ''e'') = Some 14"
  by code_simp+

lemma sw_values: "hex_value 0 ''1'' = Some 1" "hex_value 0 ''0'' = Some 0" "hex_value 0 ''5208'' = Some 21000" "hex_value 0 ''13'' = Some 19"
  "hex_value 0 ''ed8'' = Some 3800"
  by (simp_all add: sw_digits)

lemma sw_hex: "cryptoHexInt ''0x1'' = Inr 1" "cryptoHexInt ''0x0'' = Inr 0" "cryptoHexInt ''0x5208'' = Inr 21000" "cryptoHexInt ''0x13'' = Inr 19"
  "cryptoHexInt ''0xed8'' = Inr 3800"
  by (simp_all add: cryptoHexInt_def sw_values del: hex_value.simps)

lemma sw_hex64: "cryptoHexU64 ''0x1'' = Inr 1" "cryptoHexU64 ''0x0'' = Inr 0" "cryptoHexU64 ''0x5208'' = Inr 21000" "cryptoHexU64 ''0x13'' = Inr 19"
  by (simp_all add: cryptoHexU64_def sw_hex)

lemma sw_texts: "cryptoFullPath sw_path 5 = sw_path @ ''/0/5''" "solana_path (sw_path @ ''/0/5'') = False"
  "isHexAddress sw_dest" "isHexAddress sw_source" "\<not> zeroAddress sw_dest" "\<not> equalFold sw_dest sw_fund" "\<not> equalFold sw_source sw_dest"
  "cryptoHash sw_hash" "cryptoHash sw_block" "valid_operation ''operation-sweep-1''" "lower sw_hash = sw_hash" "lower sw_block = sw_block"
  "lower sw_source = sw_source" "lower sw_dest = sw_dest"
  by code_simp+

lemma sw_trim: "trim_space [] = []"
  by (simp add: trim_space_def)

lemma sw_atoms: "cryptoAtoms ''0'' = Inr 0" "cryptoAtoms ''5'' = Inr 5" "cryptoAtoms (nat_string 3800) = Inr 3800" "cryptoAtoms (nat_string 2) = Inr 2"
  "cryptoAtoms (nat_string 46200) = Inr 46200"
proof -
  have n: "nat_string 0 = ''0''" "nat_string 5 = ''5''" by code_simp+
  show "cryptoAtoms ''0'' = Inr 0" "cryptoAtoms ''5'' = Inr 5" unfolding n [symmetric] by (rule cryptoAtoms_text, simp)+
  show "cryptoAtoms (nat_string 3800) = Inr 3800" "cryptoAtoms (nat_string 2) = Inr 2" "cryptoAtoms (nat_string 46200) = Inr 46200"
    by (rule cryptoAtoms_text, simp)+
qed

lemma sw_path_ok: "path_ok (sw_path @ ''/0/5'')"
proof -
  have "split_on (CHR ''/'') (sw_path @ ''/0/5'') =
    [''m'', [CHR ''4'', CHR ''4'', CHR 0x27], [CHR ''6'', CHR ''0'', CHR 0x27], [CHR ''0'', CHR 0x27], ''0'', ''5'']" by code_simp
  then show ?thesis by (simp add: path_ok_def sw_atoms)
qed

section \<open>The preview\<close>

lemma sw_addresses: "sweep_addresses sw_tables ''w'' [''a''] = Inr [sw_address]"
proof -
  have "cryptoWalletNetworkAddresses sw_tables ''w'' = [sw_address]"
    using sw_texts(2) by (simp add: cryptoWalletNetworkAddresses_def sw_tables_def owner_scope_def sw_address_def)
  then show ?thesis by (simp add: sweep_addresses_def Let_def sw_address_def)
qed

lemma sw_gas: "rawGasPrice (sw_client r) = Inr 1" "rawEstimateGas (sw_client r) a b d n = Inr 21000" "estimateGas (sw_client r) a b d n = Inr 23100"
  by (simp_all add: rawGasPrice_def estimateGas_def rawEstimateGas_def sw_client_def sw_hex sw_hex64)

lemma sw_plan:
  "plan_address sw_tables (sw_client r) ''w'' sw_chain \<lparr>sa_ID = ''native'', sa_ChainID = 1, sa_Symbol = ''ETH'', sa_Contract = [], sa_Decimals = 18\<rparr>
     sw_dest sw_fund 20 0 1 2 sw_address = Inr (Some sw_item)"
proof -
  have b: "cl_NativeBalance (sw_client r) a n = Inr 50000" for a n by (simp add: sw_client_def)
  show ?thesis by (simp add: plan_address_def plan_gas_order_def Let_def sw_gas b sw_item_def sw_address_def)
qed

lemma sw_sums: "plan_sums [sw_item] = Inr \<lparr>pt_total = 3800, pt_topups = 0, pt_fees = 46200, pt_fundFees = 0\<rparr>"
  by (simp add: plan_sums_def add_item_def atoms_or_panic_def sw_item_def sw_atoms)

lemma sw_fee: "cryptoSweepSelectFee [] [] 1 = Inr (''standard'', 2)"
  by (simp add: cryptoSweepSelectFee_def sw_trim cryptoFeePrice_def)

lemma sw_previewed: "cryptoPreviewSweep sw_preview_env sw_tables sw_settings 1 ''w'' sw_input = Inr sw_quote"
proof -
  have w: "cryptoWalletByID sw_tables ''w'' = Inr sw_wallet" by (simp add: cryptoWalletByID_def row_with_def sw_tables_def sw_wallet_def)
  have c: "cryptoSweepChain sw_settings ''eth'' = Inr sw_chain" by (simp add: cryptoSweepChain_def row_with_def sw_settings_def sw_chain_def)
  have ok: "cryptoSweepWallet sw_wallet = Inr ()" "cryptoWalletSupports sw_wallet (ch_ChainID sw_chain)" "cryptoSweepAllowed sw_chain = Inr ()"
      "ch_ChainID sw_chain \<noteq> cryptoSolanaChainID"
    by (simp_all add: cryptoSweepWallet_def cryptoWalletSupports_def cryptoSweepAllowed_def sw_wallet_def sw_chain_def cryptoSolanaChainID_def)
  have d: "sweep_destination sw_preview_env sw_settings sw_dest = Inr sw_dest"
    by (simp add: sweep_destination_def sw_texts sw_settings_def sw_preview_env_def)
  have a: "check_address sw_preview_env sw_wallet sw_dest sw_address () = Inr ()"
    using sw_texts(1,7) by (simp add: check_address_def sw_preview_env_def sw_address_def sw_wallet_def)
  have e: "pe_client sw_preview_env = sw_client None" "pe_funding sw_preview_env v = Inr (sw_fund, sw_path @ ''/1/0'')"
      "\<not> pe_frozen sw_preview_env n" "pe_now sw_preview_env = 1000" for v n
    by (simp_all add: sw_preview_env_def sw_vault_def)
  have cl: "cl_Finalized (sw_client None) = Inr \<lparr>bk_Number = 20, bk_Hash = sw_block, bk_Timestamp = 900\<rparr>"
      "cl_NativeBalance (sw_client None) x n = Inr 50000" for x n
    by (simp_all add: sw_client_def)
  have asset: "sweep_asset sw_settings sw_chain ''native'' = Inr \<lparr>sa_ID = ''native'', sa_ChainID = 1, sa_Symbol = ''ETH'', sa_Contract = [], sa_Decimals = 18\<rparr>"
    by (simp add: sweep_asset_def sw_chain_def)
  have i: "in_ChainID sw_input = ''eth''" "in_AssetID sw_input = ''native''" "in_MinAtoms sw_input = ''0''" "in_MaxGasAtoms sw_input = []"
      "in_Destination sw_input = sw_dest" "in_AddressIDs sw_input = [''a'']" "in_FeeMode sw_input = []" "in_GasPriceAtoms sw_input = []"
    by (simp_all add: sw_input_def)
  have pv: "make_preview sw_preview_env ''w'' sw_chain \<lparr>sa_ID = ''native'', sa_ChainID = 1, sa_Symbol = ''ETH'', sa_Contract = [], sa_Decimals = 18\<rparr>
      sw_dest 0 None 20 sw_fund 50000 ''standard'' 2 [sw_item] \<lparr>pt_total = 3800, pt_topups = 0, pt_fees = 46200, pt_fundFees = 0\<rparr> = sw_preview"
    by (simp add: make_preview_def Let_def sw_preview_def e sw_chain_def)
  show ?thesis
    unfolding cryptoPreviewSweep_def i
    by (simp add: w c ok d a e cl asset sw_atoms sweep_budget_def sw_trim sw_texts(6) sw_addresses sw_gas sw_fee [unfolded One_nat_def] sw_plan [unfolded One_nat_def] sw_sums pv sw_quote_def)
qed

section \<open>The run\<close>

definition sw_job :: "string \<Rightarrow> string \<Rightarrow> int \<Rightarrow> int \<Rightarrow> SweepJob" where
  "sw_job state token until at = \<lparr>sj_ID = ''J'', sj_ActorID = 1, sj_OperationID = ''operation-sweep-1'', sj_Fingerprint = ''w|sealed'',
     sj_WalletID = ''w'', sj_ChainID = 1, sj_AssetID = ''native'', sj_Destination = sw_dest, sj_MinAtoms = nat_string 0,
     sj_MaxGasAtoms = nat_string 46200, sj_State = state, sj_Doc = sw_preview, sj_Quote = ''sealed'', sj_Error = [], sj_LeaseToken = token,
     sj_LeaseUntil = until, sj_Created = 1001, sj_Updated = at\<rparr>"

definition sw_row :: "string \<Rightarrow> SweepItem" where
  "sw_row state = \<lparr>si_ID = ''I'', si_JobID = ''J'', si_AddressID = ''a'', si_Address = sw_source, si_Path = sw_path @ ''/0/5'',
     si_Amount = nat_string 3800, si_GasNeeded = ''0'', si_State = state, si_Error = []\<rparr>"

definition sw_final :: cryptoEVMReceipt where
  "sw_final = \<lparr>rc_TxHash = sw_hash, rc_BlockHash = sw_block, rc_BlockNumber = 19, rc_From = sw_source, rc_To = sw_dest, rc_Status = 1, rc_Logs = []\<rparr>"

definition sw_signed :: cryptoChainTransaction where
  "sw_signed = \<lparr>ct_ID = ''T'', ct_JobID = ''J'', ct_ItemID = ''I'', ct_Kind = ''sweep'', ct_ChainID = 1, ct_From = sw_source, ct_To = sw_dest,
     ct_Token = [], ct_Amount = nat_string 3800, ct_Nonce = 0, ct_Hash = sw_hash, ct_Raw = ''aa'', ct_GasLimit = 23100,
     ct_GasPrice = nat_string 2, ct_State = ''signed'', ct_Error = [], ct_BlockNumber = 0, ct_BlockHash = [], ct_Receipt = None, ct_Updated = 1003\<rparr>"

definition sw_sent :: cryptoChainTransaction where
  "sw_sent = sw_signed\<lparr>ct_State := ''pending'', ct_Error := ''waiting for finality''\<rparr>"

definition sw_settled :: cryptoChainTransaction where
  "sw_settled = sw_signed\<lparr>ct_State := ''confirmed'', ct_BlockNumber := 19, ct_BlockHash := sw_block,
     ct_Receipt := Some \<lparr>rp_TransactionID = ''T'', rp_JobID = ''J'', rp_ItemID = ''I'', rp_ChainID = 1, rp_Receipt = sw_final\<rparr>, ct_Updated := 1011\<rparr>"

definition sw_store :: "SweepJob \<Rightarrow> SweepItem \<Rightarrow> cryptoChainTransaction list \<Rightarrow> SweepStore" where
  "sw_store j x ts = \<lparr>ss_jobs = [j], ss_items = [x], ss_txs = ts, ss_frozen = [(1, False)], ss_tables = sw_tables\<rparr>"

definition sw_env :: "rpc_receipt option \<Rightarrow> int \<Rightarrow> phase \<Rightarrow> sweep_env" where
  "sw_env r t = (\<lambda>p. \<lparr>sv_now = t, sv_client = sw_client r, sv_serial = ''T''\<rparr>)"

lemma sw_wallet_found: "cryptoWalletByID sw_tables ''w'' = Inr sw_wallet" "cryptoSweepWallet sw_wallet = Inr ()" "cryptoWalletSupports sw_wallet 1"
  "cryptoSweepAllowed sw_chain = Inr ()" "ch_ChainID sw_chain = 1"
  by (simp_all add: cryptoWalletByID_def row_with_def sw_tables_def sw_wallet_def cryptoSweepWallet_def cryptoWalletSupports_def cryptoSweepAllowed_def sw_chain_def)

lemma sw_open: "va_open sw_vault ''sealed'' = Some sw_quote" "qu_ActorID sw_quote = 1" "qu_Preview sw_quote = sw_preview" "qu_Chain sw_quote = sw_chain"
  "pv_WalletID sw_preview = ''w''" "pv_Items sw_preview = [sw_item]" "pv_CanSubmit sw_preview" "pv_ExpiresAt sw_preview = 1120"
  "pv_Destination sw_preview = sw_dest" "sa_Contract (qu_Asset sw_quote) = []"
  by (simp_all add: sw_vault_def sw_quote_def sw_preview_def)

lemma sw_created:
  "cryptoCreateSweep sw_vault 1001 ''J'' (\<lambda>a. ''I'') 1 ''w'' sw_input (empty_sweeps sw_tables) =
    Inr (''J'', sw_store (sw_job ''queued'' [] 0 1001) (sw_row ''queued'') [])"
proof -
  have i: "in_Quote sw_input = ''sealed''" "in_OperationID sw_input = ''operation-sweep-1''" by (simp_all add: sw_input_def)
  have j: "new_job sw_vault 1001 ''J'' sw_input sw_quote = sw_job ''queued'' [] 0 1001"
    by (simp add: new_job_def Let_def sw_job_def i sw_quote_def sw_preview_def sw_vault_def sw_chain_def)
  have x: "new_item ''J'' (\<lambda>a. ''I'') sw_item = sw_row ''queued''" by (simp add: new_item_def sw_item_def sw_row_def)
  show ?thesis
    unfolding cryptoCreateSweep_def i
    by (simp add: sw_open sw_texts(10) sweepLockChain_def empty_sweeps_def row_with_def sw_wallet_found insert_sweep_def i j x insert_item_def
        sw_store_def Let_def)
qed

lemma sw_claimed:
  assumes "state = ''queued'' \<or> state = ''waiting''" "until \<le> now"
  shows "cryptoSweepClaim now token (sw_store (sw_job state lease until at) x ts) = Some (''J'', sw_store (sw_job ''running'' token (now + 120) now) x ts)"
  using assms by (auto simp: cryptoSweepClaim_def sw_store_def sw_job_def claimable_def set_job_def)

lemma sw_finished:
  assumes "token \<noteq> []"
  shows "cryptoSweepFinish ''J'' token (fst (step_outcome (Inr ()))) (snd (step_outcome (Inr ()))) now (sw_store (sw_job ''running'' token until at) x ts) =
    sw_store (sw_job ''waiting'' [] 0 now) x ts"
  by (simp add: cryptoSweepFinish_def step_outcome_def sw_store_def sw_job_def set_job_def)

lemma sw_lease: "now < until \<Longrightarrow> cryptoCheckSweepLease ''J'' token now (sw_store (sw_job ''running'' token until at) x ts) = Inr ()"
  by (simp add: cryptoCheckSweepLease_def sw_store_def sw_job_def holds_lease_def)

lemma sw_intent_valid: "cryptoValidateSignedIntent (va_keys sw_vault) v = Inr sw_tx" if "same_intent v sw_signed"
proof -
  have "cryptoValidateSignedIntent (va_keys sw_vault) sw_signed = Inr sw_tx"
    by (simp add: cryptoValidateSignedIntent_def sw_signed_def sw_vault_def sw_tx_def tx_target_def sw_atoms)
  with intent_same [OF that] show ?thesis by simp
qed

lemma sw_matches: "cryptoTransactionMatchesPlan v sw_quote sw_item = Inr ()" if "same_intent v sw_signed"
proof -
  have "cryptoTransactionMatchesPlan sw_signed sw_quote sw_item = Inr ()"
    by (simp add: cryptoTransactionMatchesPlan_def sweep_matches_def sw_signed_def sw_open sw_item_def sw_chain_def)
  with matches_same [OF that] show ?thesis by simp
qed

lemma sw_same: "same_intent sw_sent sw_signed" "same_intent sw_settled sw_signed" "same_intent sw_signed sw_signed"
  by (simp_all add: same_intent_def sw_sent_def sw_settled_def)

text \<open>The first step signs the transfer and sends it.\<close>

definition sw_intent :: transfer_intent where
  "sw_intent = \<lparr>tn_From = sw_source, tn_Path = sw_path @ ''/0/5'', tn_To = sw_dest, tn_Token = [], tn_Amount = 3800, tn_Gas = 23100\<rparr>"

definition sw_staged :: staged_transfer where
  "sw_staged = \<lparr>sg_intent = sw_intent, sg_wallet = ''w'', sg_price = 2, sg_required = 50000, sg_balance = 50000, sg_nonce = 0\<rparr>"

lemma sw_item_fields: "it_AddressID sw_item = ''a''" "it_Address sw_item = sw_source" "it_Path sw_item = sw_path @ ''/0/5''"
  "cryptoAtoms (it_AmountAtoms sw_item) = Inr 3800" "it_GasLimit sw_item = 23100" "cryptoAtoms (it_GasPriceAtoms sw_item) = Inr 2"
  "it_TopupAtoms sw_item = ''0''"
  by (simp_all add: sw_item_def sw_atoms)

lemma sw_answers: "cl_Finalized (sw_client r) = Inr \<lparr>bk_Number = 20, bk_Hash = sw_block, bk_Timestamp = 900\<rparr>"
  "cl_Latest (sw_client r) = Inr \<lparr>bk_Number = 21, bk_Hash = sw_block, bk_Timestamp = 912\<rparr>"
  "cl_NativeBalance (sw_client r) a n = Inr 50000" "PendingNonce (sw_client r) a = Inr 0"
  "cl_Broadcast (sw_client r) raw h = Inr ()" "cl_receipt (sw_client r) h = Inr (r, r)"
  "cl_block (sw_client r) n = Inr \<lparr>bk_Number = n, bk_Hash = sw_block, bk_Timestamp = 900\<rparr>"
  by (simp_all add: sw_client_def PendingNonce_def)

lemma sw_observed:
  "observe_transfer sw_vault (sw_env r t p) ''sweep'' sw_quote sw_item (sw_store j x ts) = Inr (Some sw_staged)"
proof -
  have f: "va_funding sw_vault v = Inr (sw_fund, sw_path @ ''/1/0'')" for v by (simp add: sw_vault_def)
  have tables: "ss_tables (sw_store j x ts) = sw_tables" by (simp add: sw_store_def)
  have w: "wanted_transfer (sw_client r) sw_tables ''sweep'' sw_quote sw_item v q block latest 3800 = Inr (Some sw_intent)" for v q block latest
    by (simp add: wanted_transfer_def sweep_intent_def Let_def sw_open sw_item_fields sw_intent_def)
  have i: "intent_target sw_intent = sw_dest" "intent_value sw_intent = 3800" "tn_Gas sw_intent = 23100" "cw_ID sw_wallet = ''w''"
    by (simp_all add: intent_target_def intent_value_def sw_intent_def sw_wallet_def)
  show ?thesis
    by (simp add: observe_transfer_def Let_def sw_env_def sw_answers sw_gas [unfolded One_nat_def] sw_item_fields tables sw_open sw_wallet_found f w i sw_staged_def)
qed

lemma sw_stage_row:
  "stage_row sw_vault (sw_env r 1003 p) ''J'' ''I'' ''sweep'' sw_quote sw_staged (sw_store j (sw_row ''queued'') []) =
    Inr (sw_signed, sw_store j (sw_row ''sweep_pending'') [sw_signed])"
proof -
  have g: "sg_intent sw_staged = sw_intent" "sg_nonce sw_staged = 0" "sg_required sw_staged = 50000" "sg_balance sw_staged = 50000" "sg_price sw_staged = 2"
      "sg_wallet sw_staged = ''w''"
    by (simp_all add: sw_staged_def)
  have n: "intent_target sw_intent = sw_dest" "intent_value sw_intent = 3800" "intent_data sw_intent = []" "tn_Gas sw_intent = 23100"
      "tn_From sw_intent = sw_source" "tn_Path sw_intent = sw_path @ ''/0/5''" "tn_To sw_intent = sw_dest" "tn_Token sw_intent = []" "tn_Amount sw_intent = 3800"
    by (simp_all add: intent_target_def intent_value_def intent_data_def sw_intent_def)
  have sign: "cryptoSignTransfer (va_keys sw_vault) ''words'' (sw_path @ ''/0/5'') 1 0 23100 2 3800 sw_dest [] =
      Inr \<lparr>sg_Raw = ''aa'', sg_Hash = sw_hash, sg_From = sw_source\<rparr>"
    using sw_texts(3,5) sw_path_ok by (simp add: cryptoSignTransfer_def sw_vault_def)
  have m: "va_mnemonic sw_vault v = Inr ''words''" for v by (simp add: sw_vault_def)
  have row: "staged_row (sw_env r 1003 p) ''J'' ''I'' ''sweep'' 1 sw_staged 0 \<lparr>sg_Raw = ''aa'', sg_Hash = sw_hash, sg_From = sw_source\<rparr> = sw_signed"
    by (simp add: staged_row_def Let_def g n sw_env_def sw_signed_def)
  have rows: "ss_txs (sw_store j (sw_row ''queued'') []) = []" "ss_tables (sw_store j (sw_row ''queued'') []) = sw_tables" by (simp_all add: sw_store_def)
  have item: "set_item ''I'' ''sweep_pending'' [] (sw_store j (sw_row ''queued'') []\<lparr>ss_txs := [sw_signed]\<rparr>) =
      sw_store j (sw_row ''sweep_pending'') [sw_signed]"
    by (simp add: set_item_def sw_store_def sw_row_def)
  show ?thesis
    unfolding stage_row_def Let_def
    by (simp add: g n rows reserve_nonce_def sw_open sw_wallet_found m sign row insert_tx_def item)
qed

lemma sw_staged_transfer:
  "cryptoStageTransfer sw_vault (sw_env r 1003 p) ''J'' ''t'' ''I'' ''sweep'' sw_quote sw_item (sw_store (sw_job ''running'' ''t'' 1122 1002) (sw_row ''queued'') []) =
    Inr (Some sw_signed, sw_store (sw_job ''running'' ''t'' 1122 1002) (sw_row ''sweep_pending'') [sw_signed])"
proof -
  have lock: "sweepLockChain 1 (sw_store j x ts) = Inr (sw_store j x ts)" for j x ts by (simp add: sweepLockChain_def sw_store_def)
  have now: "sv_now (sw_env r 1003 p) = 1003" by (simp add: sw_env_def)
  have none: "ss_txs (sw_store j x []) = []" for j x by (simp add: sw_store_def)
  show ?thesis
    by (simp add: cryptoStageTransfer_def sw_observed sw_open sw_wallet_found lock now sw_lease none sw_stage_row)
qed

lemma sw_waited:
  "cryptoProcessTransaction sw_vault (sw_env None 1003 p) ''J'' ''t'' sw_signed (sw_store (sw_job ''running'' ''t'' 1122 1002) x [sw_signed]) =
    (Inr False, sw_store (sw_job ''running'' ''t'' 1122 1002) x [sw_sent])"
proof -
  have r: "FinalReceipt (sw_client None) sw_hash = Inr None"
    by (simp add: FinalReceipt_def Receipt_def sw_texts(8) sw_answers decodeCryptoReceipt_def)
  have s: "ct_State sw_signed = ''signed''" "ct_Hash sw_signed = sw_hash" "ct_ChainID sw_signed = 1" "ct_ID sw_signed = ''T''" by (simp_all add: sw_signed_def)
  have fr: "chain_frozen 1 (sw_store j x ts) = False" for j x ts by (simp add: chain_frozen_def sw_store_def)
  have e: "sv_client (sw_env None 1003 p) = sw_client None" "sv_now (sw_env None 1003 p) = 1003" by (simp_all add: sw_env_def)
  have set: "set_tx ''T'' (\<lambda>t. t\<lparr>ct_State := ''pending'', ct_Error := ''waiting for finality'', ct_Updated := 1003\<rparr>) (sw_store j x [sw_signed]) = sw_store j x [sw_sent]" for j x
    by (simp add: set_tx_def sw_store_def s sw_sent_def) (simp add: sw_signed_def)
  show ?thesis
    by (simp add: cryptoProcessTransaction_def sw_intent_valid [OF sw_same(3)] s fr final_state_def e r wait_for_tx_def Let_def sw_answers sw_lease set)
qed

lemma sw_quote_item: "plan_for sw_preview ''a'' = Some sw_item" "length (pv_Items sw_preview) = 1"
  by (simp_all add: plan_for_def row_with_def sw_open sw_item_def)

lemma sw_step_one:
  "cryptoSweepStep sw_vault (sw_env None 1003) 1003 ''J'' ''t'' (sw_store (sw_job ''running'' ''t'' 1122 1002) (sw_row ''queued'') []) =
    (Inr (), sw_store (sw_job ''running'' ''t'' 1122 1002) (sw_row ''sweep_pending'') [sw_sent])"
proof -
  have job: "row_with sj_ID ''J'' (ss_jobs (sw_store (sw_job a b c d) x ts)) = Some (sw_job a b c d)" "sj_Quote (sw_job a b c d) = ''sealed''" for a b c d x ts
    by (simp_all add: row_with_def sw_store_def sw_job_def)
  have av: "sweepChainAvailable 1 (sw_store j x ts) = Inr ()" for j x ts by (simp add: sweepChainAvailable_def chain_frozen_def sw_store_def)
  have items: "ss_items (sw_store j x ts) = [x]" for j x ts by (simp add: sw_store_def)
  have x: "si_JobID (sw_row st) = ''J''" "si_State (sw_row st) = st" "si_AddressID (sw_row st) = ''a''" "si_ID (sw_row st) = ''I''" for st
    by (simp_all add: sw_row_def)
  have none: "item_txs (sw_store j x []) y k = None" for j x y k by (simp add: item_txs_def sw_store_def)
  show ?thesis
    unfolding cryptoSweepStep_def
    by (simp add: job sw_open sw_wallet_found av items x sw_quote_item cryptoSolanaChainID_def Let_def step_item_def none sw_item_fields
        sweep_transfer_def sw_staged_transfer process_planned_def sw_matches [OF sw_same(3)] sw_waited ignore_result_def)
qed

text \<open>The second step finds the transfer in a final block, the third completes the job.\<close>

lemma sw_step_rows:
  "row_with sj_ID ''J'' (ss_jobs (sw_store (sw_job a b c d) x ts)) = Some (sw_job a b c d)" "sj_Quote (sw_job a b c d) = ''sealed''"
  "sweepChainAvailable 1 (sw_store j x ts) = Inr ()" "ss_items (sw_store j x ts) = [x]" "si_JobID (sw_row st) = ''J''" "si_State (sw_row st) = st"
  "si_AddressID (sw_row st) = ''a''" "si_ID (sw_row st) = ''I''" "ss_txs (sw_store j x ts) = ts" "chain_frozen 1 (sw_store j x ts) = False"
  by (simp_all add: row_with_def sw_store_def sw_job_def sweepChainAvailable_def chain_frozen_def sw_row_def)

lemma sw_final_receipt: "FinalReceipt (sw_client (Some sw_receipt)) sw_hash = Inr (Some sw_final)"
proof -
  have d: "decodeCryptoReceipt (Some sw_receipt) = Inr (Some sw_final)"
    by (simp add: decodeCryptoReceipt_def Let_def sw_receipt_def sw_texts sw_hex64 [unfolded One_nat_def] sw_final_def)
  show ?thesis
    by (simp add: FinalReceipt_def Receipt_def sw_texts(8,11) sw_answers d) (simp add: sw_final_def sw_texts)
qed

lemma sw_receipt_valid: "validateSignedReceipt (va_keys sw_vault) (sw_client r) sw_sent sw_final = Inr ()"
proof -
  have c: "cl_transaction (sw_client r) h = Inr (t, t)"
    if "t = \<lparr>rt_Hash = sw_hash, rt_From = sw_source, rt_To = sw_dest, rt_Nonce = ''0x0'', rt_Value = ''0xed8'',
       rt_Input = ''0x'', rt_BlockHash = sw_block, rt_BlockNumber = ''0x13'', rt_ChainID = ''0x1''\<rparr>" for t h
    using that by (simp add: sw_client_def Let_def)
  have s: "ct_From sw_sent = sw_source" "ct_Hash sw_sent = sw_hash" "ct_Token sw_sent = []" "ct_To sw_sent = sw_dest" "ct_ChainID sw_sent = 1" "ct_Nonce sw_sent = 0"
    by (simp_all add: sw_sent_def sw_signed_def)
  show ?thesis
    by (simp add: validateSignedReceipt_def sw_intent_valid [OF sw_same(1)] sw_final_def s tx_target_def c [OF refl] rpc_agrees_def sw_tx_def
        sw_hex sw_hex64 [unfolded One_nat_def])
qed

lemma sw_concluded:
  "cryptoProcessTransaction sw_vault (sw_env (Some sw_receipt) 1011 p) ''J'' ''u'' sw_sent
      (sw_store (sw_job ''running'' ''u'' 1130 1010) (sw_row ''sweep_pending'') [sw_sent]) =
    (Inr True, sw_store (sw_job ''running'' ''u'' 1130 1010) (sw_row ''complete'') [sw_settled])"
proof -
  have s: "ct_State sw_sent = ''pending''" "ct_Hash sw_sent = sw_hash" "ct_ChainID sw_sent = 1" "ct_ID sw_sent = ''T''" "ct_Kind sw_sent = ''sweep''"
    "ct_ItemID sw_sent = ''I''"
    by (simp_all add: sw_sent_def sw_signed_def)
  have e: "sv_client (sw_env r 1011 p) = sw_client r" "sv_now (sw_env r 1011 p) = 1011" for r by (simp_all add: sw_env_def)
  have status: "rc_Status sw_final = Suc 0" by (simp add: sw_final_def)
  have proof_row: "store_proof (sw_env r 1011 p) sw_sent sw_final sw_sent = sw_settled" for r
    by (simp add: store_proof_def e status) (simp add: sw_sent_def sw_settled_def sw_signed_def sw_final_def)
  have set: "set_item ''I'' ''complete'' [] (set_tx ''T'' (store_proof (sw_env r 1011 p) sw_sent sw_final) (sw_store j (sw_row st) [sw_sent])) =
      sw_store j (sw_row ''complete'') [sw_settled]" for j st r
    by (simp add: set_tx_def set_item_def sw_store_def s proof_row) (simp add: sw_row_def)
  show ?thesis
    by (simp add: cryptoProcessTransaction_def sw_intent_valid [OF sw_same(1)] s sw_step_rows final_state_def e sw_final_receipt conclude_tx_def
        sw_receipt_valid sw_lease status set Let_def)
qed

lemma sw_step_two:
  "cryptoSweepStep sw_vault (sw_env (Some sw_receipt) 1011) 1011 ''J'' ''u'' (sw_store (sw_job ''running'' ''u'' 1130 1010) (sw_row ''sweep_pending'') [sw_sent]) =
    (Inr (), sw_store (sw_job ''running'' ''u'' 1130 1010) (sw_row ''complete'') [sw_settled])"
proof -
  have t: "item_txs (sw_store j x [sw_sent]) ''I'' ''sweep'' = Some sw_sent" for j x
    by (simp add: item_txs_def sw_step_rows) (simp add: sw_sent_def sw_signed_def)
  show ?thesis
    unfolding cryptoSweepStep_def
    by (simp add: sw_step_rows sw_open sw_wallet_found sw_quote_item cryptoSolanaChainID_def Let_def step_item_def t
        process_planned_def sw_matches [OF sw_same(1)] sw_concluded ignore_result_def)
qed

lemma sw_evidence: "validateCryptoSweepReceipt sw_settled"
  by (simp add: validateCryptoSweepReceipt_def Let_def sw_settled_def sw_signed_def sw_final_def final_state_def sw_texts tx_target_def)

lemma sw_step_three:
  "cryptoSweepStep sw_vault (sw_env r 1021) 1021 ''J'' ''v'' (sw_store (sw_job ''running'' ''v'' 1140 1020) (sw_row ''complete'') [sw_settled]) =
    (Inr (), sw_store (sw_job ''complete'' [] 0 1021) (sw_row ''complete'') [sw_settled])"
proof -
  have s: "ct_JobID sw_settled = ''J''" "ct_ItemID sw_settled = ''I''" "ct_Kind sw_settled = ''sweep''" "ct_State sw_settled = ''confirmed''"
    by (simp_all add: sw_settled_def sw_signed_def)
  have completed: "item_completed sw_vault ''J'' sw_quote (sw_store j x [sw_settled]) (sw_row st) [sw_item] = Inr []" for j x st
    by (simp add: item_completed_def sw_step_rows row_with_def sw_item_fields s sw_intent_valid [OF sw_same(2)] sw_matches [OF sw_same(2)] sw_evidence)
  have fin: "cryptoSweepFinish ''J'' ''v'' ''complete'' [] 1021 (sw_store (sw_job ''running'' ''v'' 1140 1020) x ts) =
      sw_store (sw_job ''complete'' [] 0 1021) x ts" for x ts
    by (simp add: cryptoSweepFinish_def set_job_def sw_store_def sw_job_def)
  show ?thesis
    unfolding cryptoSweepStep_def
    by (simp add: sw_step_rows sw_open sw_wallet_found cryptoSolanaChainID_def Let_def cryptoCompleteSweep_def completed fin)
qed

definition sw_before_last :: SweepStore where
  "sw_before_last = sw_store (sw_job ''running'' ''v'' 1140 1020) (sw_row ''complete'') [sw_settled]"

definition sw_done :: SweepStore where
  "sw_done = sw_store (sw_job ''complete'' [] 0 1021) (sw_row ''complete'') [sw_settled]"

definition sw_sent_store :: SweepStore where
  "sw_sent_store = sw_store (sw_job ''running'' ''t'' 1122 1002) (sw_row ''sweep_pending'') [sw_sent]"

lemma sw_run_sent: "sweep_run sw_vault (1000, empty_sweeps sw_tables) (1003, sw_sent_store)"
proof -
  have create: "sweep_step sw_vault (1000, empty_sweeps sw_tables) (1001, sw_store (sw_job ''queued'' [] 0 1001) (sw_row ''queued'') [])"
  proof (rule sweep_step.Create [OF _ _ _ sw_created])
    fix q
    assume "va_open sw_vault (in_Quote sw_input) = Some q"
    then have q: "q = sw_quote" by (simp add: sw_input_def sw_vault_def)
    have "previewed sw_vault sw_tables 1001 q"
      unfolding previewed_def q sw_open using sw_previewed
      by (intro exI [of _ sw_preview_env] exI [of _ sw_settings] exI [of _ sw_input]) (simp add: sw_preview_env_def)
    then show "\<exists>W. tables_ok W \<and> grown sw_vault W (ss_tables (empty_sweeps sw_tables)) \<and> previewed sw_vault W 1001 q"
      using sw_vault_ok(2) grown_refl by (auto simp: empty_sweeps_def)
  qed simp_all
  have claim: "sweep_step sw_vault (1001, sw_store (sw_job ''queued'' [] 0 1001) (sw_row ''queued'') [])
      (1002, sw_store (sw_job ''running'' ''t'' 1122 1002) (sw_row ''queued'') [])"
    using sweep_step.Claim [of 1001 1002 "''t''" _ "''J''"] sw_claimed [of "''queued''" 0 1002 "''t''"] by simp
  have work: "sweep_step sw_vault (1002, sw_store (sw_job ''running'' ''t'' 1122 1002) (sw_row ''queued'') []) (1003, sw_sent_store)"
    unfolding sw_sent_store_def by (rule sweep_step.Work [OF _ sw_step_one]) simp
  show ?thesis
    by (rule sweep_run.Continue [OF sweep_run.Continue [OF sweep_run.Continue [OF sweep_run.Start create] claim] work])
qed

lemma sw_run_rest: "sweep_run sw_vault (1003, sw_sent_store) (1020, sw_before_last)"
proof -
  have fin1: "sweep_step sw_vault (1003, sw_sent_store) (1004, sw_store (sw_job ''waiting'' [] 0 1004) (sw_row ''sweep_pending'') [sw_sent])"
    using sweep_step.Finish [of 1003 1004 sw_vault sw_sent_store "''J''" "''t''" "Inr ()"] sw_finished [of "''t''"] by (simp add: sw_sent_store_def)
  have claim2: "sweep_step sw_vault (1004, sw_store (sw_job ''waiting'' [] 0 1004) (sw_row ''sweep_pending'') [sw_sent])
      (1010, sw_store (sw_job ''running'' ''u'' 1130 1010) (sw_row ''sweep_pending'') [sw_sent])"
    using sweep_step.Claim [of 1004 1010 "''u''" _ "''J''"] sw_claimed [of "''waiting''" 0 1010 "''u''"] by simp
  have work2: "sweep_step sw_vault (1010, sw_store (sw_job ''running'' ''u'' 1130 1010) (sw_row ''sweep_pending'') [sw_sent])
      (1011, sw_store (sw_job ''running'' ''u'' 1130 1010) (sw_row ''complete'') [sw_settled])"
    by (rule sweep_step.Work [OF _ sw_step_two]) simp
  have fin2: "sweep_step sw_vault (1011, sw_store (sw_job ''running'' ''u'' 1130 1010) (sw_row ''complete'') [sw_settled])
      (1012, sw_store (sw_job ''waiting'' [] 0 1012) (sw_row ''complete'') [sw_settled])"
    using sweep_step.Finish [of 1011 1012 sw_vault "sw_store (sw_job ''running'' ''u'' 1130 1010) (sw_row ''complete'') [sw_settled]" "''J''" "''u''" "Inr ()"]
      sw_finished [of "''u''"] by simp
  have claim3: "sweep_step sw_vault (1012, sw_store (sw_job ''waiting'' [] 0 1012) (sw_row ''complete'') [sw_settled]) (1020, sw_before_last)"
    using sweep_step.Claim [of 1012 1020 "''v''" _ "''J''"] sw_claimed [of "''waiting''" 0 1020 "''v''"] by (simp add: sw_before_last_def)
  note run = sweep_run.Continue [OF sweep_run.Start fin1]
  note run = sweep_run.Continue [OF sweep_run.Continue [OF run claim2] work2]
  show ?thesis by (rule sweep_run.Continue [OF sweep_run.Continue [OF run fin2] claim3])
qed

lemma sweep_run_trans: "sweep_run A x y \<Longrightarrow> sweep_run A y z \<Longrightarrow> sweep_run A x z"
  by (rotate_tac, induction rule: sweep_run.induct) (auto intro: sweep_run.Continue)

lemma sw_run_done: "sweep_run sw_vault (1003, sw_sent_store) (1021, sw_done)"
proof (rule sweep_run.Continue [OF sw_run_rest])
  show "sweep_step sw_vault (1020, sw_before_last) (1021, sw_done)"
    unfolding sw_before_last_def sw_done_def by (rule sweep_step.Work [OF _ sw_step_three]) simp
qed

lemma sw_run_all: "sweep_run sw_vault (1000, empty_sweeps sw_tables) (1021, sw_done)"
  by (rule sweep_run_trans [OF sw_run_sent sw_run_done])

end
