(* ===== verification/Crypto_Invoices.thy ===== *)
theory Crypto_Invoices
  imports Crypto_Safety Sweep_Plan Shop_Safety
begin

text \<open>
  The creation of a payment on a chain (\<open>createCryptoInvoice\<close> in \<open>crypto_invoices.go\<close>): what is checked and asked of the
  network beforehand, and the transaction that switches the order to a new attempt, allocates the next address of the
  receiving wallet and inserts the invoice. Then its presentation (\<open>decorateCryptoInvoice\<close>, \<open>cryptoInvoiceQR\<close>).
\<close>

section \<open>Tables\<close>

record PaymentChain = CryptoChain +
  ch_Enabled :: bool
  ch_RPCURL :: string
  ch_RPCBackupURL :: string

record ReceiveWallet = CryptoWallet +
  cw_Enabled :: bool
  cw_NextIndex :: int

record PaymentSettings =
  fs_Revision :: int
  fs_Enabled :: bool
  fs_WalletID :: string
  fs_InvoiceMinutes :: int
  fs_Chains :: "PaymentChain list"
  fs_Assets :: "CryptoAsset list"

text \<open>The columns of \<open>crypto_invoices\<close> that scans do not read.\<close>

record InvoiceColumns =
  ik_ID :: string
  ik_OperationID :: string
  ik_Fingerprint :: string
  ik_WalletID :: string
  ik_AddressID :: string
  ik_AssetID :: string
  ik_StartBlock :: int

text \<open>\<open>ds_attemptKeys\<close> are the idempotency keys of \<open>payment_attempts\<close>.\<close>

record InvoiceDesk =
  ds_chain :: CryptoStore
  ds_columns :: "InvoiceColumns list"
  ds_wallets :: "ReceiveWallet list"
  ds_addresses :: "CryptoWalletAddress list"
  ds_settings :: PaymentSettings
  ds_attemptKeys :: "string list"

record cryptoInvoiceInput =
  ii_OrderID :: string
  ii_AssetID :: string
  ii_OperationID :: string

text \<open>
  Surroundings: clock, serial numbers by prefix, digest of the input, the final block of a chain with its time, the check of
  the token, the derivation of addresses (from the public key, or from the secret on Solana), the proof row of a Solana address.
\<close>

record invoice_env =
  ie_now :: int
  ie_serial :: "string \<Rightarrow> string"
  ie_digest :: "cryptoInvoiceInput \<Rightarrow> string"
  ie_head :: "PaymentChain \<Rightarrow> crypto_error + nat \<times> int"
  ie_token :: "CryptoAsset \<Rightarrow> nat \<Rightarrow> crypto_error + unit"
  ie_derive :: "ReceiveWallet \<Rightarrow> int \<Rightarrow> crypto_error + string"
  ie_solana :: "ReceiveWallet \<Rightarrow> int \<Rightarrow> crypto_error + string \<times> string"
  ie_seal :: "CryptoWalletAddress \<Rightarrow> crypto_error + unit"

definition deny :: "nat \<Rightarrow> string \<Rightarrow> crypto_error + 'a" where
  "deny status message = Inl (Commerce (Fail status message))"

lemma deny_Inr [simp, res_simps]: "deny status message = Inr x \<longleftrightarrow> False"
  by (simp add: deny_def)

section \<open>Checks before the network is asked\<close>

definition cryptoChainAutomatic :: "int \<Rightarrow> bool" where
  "cryptoChainAutomatic chain \<longleftrightarrow> chain = 1 \<or> chain = 56 \<or> chain = 9745 \<or> chain = 101"

definition cryptoChainReason :: "PaymentChain \<Rightarrow> string" where
  "cryptoChainReason c =
    (if \<not> cryptoChainAutomatic (ch_ChainID c) then ''finality not verified''
     else if \<not> ch_Enabled c then ''network not enabled''
     else if ch_RPCURL c = [] \<or> ch_RPCBackupURL c = [] then ''two RPC sources needed'' else [])"

definition cryptoInvoiceReplay :: "invoice_env \<Rightarrow> int \<Rightarrow> cryptoInvoiceInput \<Rightarrow> InvoiceDesk \<Rightarrow> crypto_error + CryptoInvoice option" where
  "cryptoInvoiceReplay env actor inp S =
    (case row_with ik_OperationID (ii_OperationID inp) (ds_columns S) of None \<Rightarrow> Inr None
     | Some k \<Rightarrow>
        bind_res (cryptoInvoice (ik_ID k) (ds_chain S)) (\<lambda>v.
        if actor \<noteq> ci_UserID v \<or> ik_Fingerprint k \<noteq> ie_digest env inp then deny 409 ''operation id used'' else Inr (Some v)))"

definition payable :: "invoice_env \<Rightarrow> int \<Rightarrow> string \<Rightarrow> InvoiceDesk \<Rightarrow> bool" where
  "payable env actor order S \<longleftrightarrow>
    (case find_order (cs_shop (ds_chain S)) order of None \<Rightarrow> False
     | Some o1 \<Rightarrow> o_UserID o1 = actor \<and> o_State o1 = Pending \<and> ie_now env < o_Expires o1 \<and> 0 < of_Price (o_Offer o1))"

text \<open>What the handler has read when the transaction starts.\<close>

record invoice_plan =
  ip_settings :: PaymentSettings
  ip_asset :: CryptoAsset
  ip_chain :: PaymentChain
  ip_block :: nat

definition plan_invoice :: "invoice_env \<Rightarrow> string \<Rightarrow> InvoiceDesk \<Rightarrow> crypto_error + invoice_plan" where
  "plan_invoice env asset S =
    (let s = ds_settings S in
     case row_with as_ID asset (fs_Assets s) of None \<Rightarrow> deny 409 ''not offered''
     | Some a \<Rightarrow>
        (case row_with ch_ChainID (as_ChainID a) (fs_Chains s) of None \<Rightarrow> deny 409 ''not offered''
         | Some c \<Rightarrow>
            if \<not> fs_Enabled s \<or> \<not> as_Enabled a then deny 409 ''not offered''
            else if cryptoChainReason c \<noteq> [] then deny 409 (cryptoChainReason c)
            else if as_RateExpiresAt a \<le> ie_now env then deny 409 ''rate expired''
            else if map_of (cs_frozen (ds_chain S)) (ch_ChainID c) = Some True then deny 409 ''chain frozen''
            else bind_res (ie_head env c) (\<lambda>(block, time).
              if block > 2 ^ 63 - 2 \<or> time > ie_now env + 120 then deny 409 ''invalid final block''
              else bind_res (ie_token env a block) (\<lambda>_.
                Inr \<lparr>ip_settings = s, ip_asset = a, ip_chain = c, ip_block = block\<rparr>))))"

section \<open>The transaction\<close>

definition order_open :: "int \<Rightarrow> string \<Rightarrow> CryptoStore \<Rightarrow> bool" where
  "order_open actor order C \<longleftrightarrow>
    affected (\<lambda>r. or_id r = order \<and> or_user r = actor \<and> or_state r = Pending) (sh_orders (cs_shop C)) = 1"

definition attempt_asset :: "string \<Rightarrow> InvoiceDesk \<Rightarrow> string option" where
  "attempt_asset attempt S =
    (case row_with ci_AttemptID attempt (cs_invoices (ds_chain S)) of None \<Rightarrow> None
     | Some v \<Rightarrow> map_option ik_AssetID (row_with ik_ID (ci_ID v) (ds_columns S)))"

definition order_transfers :: "string \<Rightarrow> CryptoStore \<Rightarrow> bool" where
  "order_transfers order C \<longleftrightarrow>
    (let mine = (\<lambda>i. list_ex (\<lambda>v. ci_ID v = i \<and> ci_OrderID v = order) (cs_invoices C)) in
     list_ex (\<lambda>t. mine (tr_InvoiceID t)) (cs_transfers C) \<or> list_ex (\<lambda>t. mine (ob_InvoiceID t)) (cs_observations C))"

text \<open>An earlier payment on a chain gives way if nothing has arrived for the order; the first one sets the deadline.\<close>

definition cancel_attempt :: "int \<Rightarrow> string \<Rightarrow> CryptoStore \<Rightarrow> CryptoStore" where
  "cancel_attempt now attempt C =
    C\<lparr>cs_invoices := set_where (\<lambda>v. ci_AttemptID v = attempt \<and> ci_State v = ''waiting'') (\<lambda>v. v\<lparr>ci_State := ''superseded''\<rparr>) (cs_invoices C),
      cs_shop := set_attempt attempt [''awaiting_customer'']
        (\<lambda>a. a\<lparr>pa_State := ''cancelled'', pa_Message := ''switched to another asset'', pa_Updated := now\<rparr>) (cs_shop C)\<rparr>"

definition switch_payment :: "invoice_env \<Rightarrow> int \<Rightarrow> string \<Rightarrow> Order \<Rightarrow> InvoiceDesk \<Rightarrow> crypto_error + Order \<times> CryptoStore" where
  "switch_payment env minutes asset ord S =
    (let C = ds_chain S; attempt = o_PaymentAttemptID ord in
     if attempt = [] then Inr (ord\<lparr>o_Expires := ie_now env + minutes * 60\<rparr>, C)
     else if attempt_asset attempt S = Some asset then deny 409 ''asset has an invoice''
     else if o_PaymentProviderID ord \<noteq> ''crypto'' then deny 409 ''another payment chosen''
     else if order_transfers (o_ID ord) C then deny 409 ''transfer found''
     else case row_with pa_ID attempt (sh_attempts (cs_shop C)) of None \<Rightarrow> Inl (Commerce (NoRows ''payment_attempts''))
     | Some a \<Rightarrow> if pa_State a \<noteq> ''awaiting_customer'' then deny 409 ''payment in progress''
         else Inr (ord, cancel_attempt (ie_now env) attempt C))"

definition cryptoMaxIndex :: int where "cryptoMaxIndex = 2 ^ 31"

definition cryptoWalletReady :: "ReceiveWallet \<Rightarrow> crypto_error + unit" where
  "cryptoWalletReady v =
    (if \<not> cw_Enabled v \<or> cw_RecoveryRequired v then deny 409 ''wallet paused''
     else if cw_Mode v = ''hot'' \<and> \<not> cw_BackupConfirmed v then deny 409 ''backup not confirmed''
     else if cw_NextIndex v \<ge> cryptoMaxIndex then deny 409 ''indices used up'' else Inr ())"

definition cryptoWalletDerive :: "invoice_env \<Rightarrow> ReceiveWallet \<Rightarrow> int \<Rightarrow> bool \<Rightarrow> crypto_error + string \<times> string" where
  "cryptoWalletDerive env w index sol =
    (if index < 0 \<or> index \<ge> 2147483647 then Inl (Scan ''indices used up'')
     else if \<not> sol then bind_res (ie_derive env w index) (\<lambda>a. Inr (a, cryptoFullPath (cw_Path w) index))
     else ie_solana env w index)"

definition cryptoIsSolanaPath :: "string \<Rightarrow> bool" where
  "cryptoIsSolanaPath v \<longleftrightarrow> take 11 v = ''m/44'' @ [CHR 0x27] @ ''/501'' @ [CHR 0x27, CHR ''/'']"

definition allocate_address :: "invoice_env \<Rightarrow> ReceiveWallet \<Rightarrow> bool \<Rightarrow> InvoiceDesk \<Rightarrow> crypto_error + CryptoWalletAddress \<times> InvoiceDesk" where
  "allocate_address env w sol S =
    bind_res (cryptoWalletDerive env w (cw_NextIndex w) sol) (\<lambda>(address, path).
    let x = \<lparr>wa_ID = ie_serial env ''GYA'', wa_WalletID = cw_ID w, wa_Index = cw_NextIndex w, wa_Path = path, wa_Address = address\<rparr> in
    if list_ex (\<lambda>y. wa_ID y = wa_ID x \<or> wa_Address y = wa_Address x \<or> (wa_WalletID y = wa_WalletID x \<and> wa_Index y = wa_Index x)) (ds_addresses S)
    then Inl (Commerce (Unique ''crypto_wallet_addresses''))
    else bind_res (if cryptoIsSolanaPath path then ie_seal env x else Inr ()) (\<lambda>_.
      Inr (x, S\<lparr>ds_addresses := ds_addresses S @ [x],
        ds_wallets := set_where (\<lambda>v. cw_ID v = cw_ID w) (\<lambda>v. v\<lparr>cw_NextIndex := cw_NextIndex v + 1\<rparr>) (ds_wallets S)\<rparr>)))"

definition crypto_attempt :: "invoice_env \<Rightarrow> int \<Rightarrow> Order \<Rightarrow> PaymentAttempt" where
  "crypto_attempt env actor ord =
    \<lparr>pa_ID = ie_serial env ''GYP'', pa_OrderID = o_ID ord, pa_UserID = actor, pa_ProviderID = ''crypto'', pa_State = ''awaiting_customer'',
     pa_Amount = of_Price (o_Offer ord), pa_Currency = ''CNY'', pa_MerchantRef = ie_serial env ''GYP'', pa_ExternalRef = [],
     pa_Created = ie_now env, pa_Updated = ie_now env, pa_Expires = o_Expires ord, pa_Purpose = ''order'', pa_Message = [],
     pa_AccountScope = ''evm_crypto''\<rparr>"

definition insert_attempt :: "string \<Rightarrow> PaymentAttempt \<Rightarrow> InvoiceDesk \<Rightarrow> crypto_error + InvoiceDesk" where
  "insert_attempt key a S =
    (let X = cs_shop (ds_chain S) in
     if key \<in> set (ds_attemptKeys S) \<or> list_ex (\<lambda>b. pa_ID b = pa_ID a) (sh_attempts X) then Inl (Commerce (Unique ''payment_attempts''))
     else Inr (S\<lparr>ds_attemptKeys := ds_attemptKeys S @ [key],
       ds_chain := (ds_chain S)\<lparr>cs_shop := X\<lparr>sh_attempts := sh_attempts X @ [a]\<rparr>\<rparr>\<rparr>))"

definition new_invoice :: "invoice_env \<Rightarrow> int \<Rightarrow> Order \<Rightarrow> string \<Rightarrow> CryptoAsset \<Rightarrow> PaymentChain \<Rightarrow> nat \<Rightarrow> string \<Rightarrow> string \<Rightarrow> CryptoInvoice" where
  "new_invoice env actor ord attempt asset chain block address atoms =
    \<lparr>ci_ID = ie_serial env ''GYI'', ci_OrderID = o_ID ord, ci_UserID = actor, ci_AttemptID = attempt, ci_ChainID = ch_ChainID chain,
     ci_Address = address, ci_Contract = as_Contract asset, ci_ExpectedAtoms = atoms, ci_State = ''waiting'', ci_Created = ie_now env,
     ci_Expires = o_Expires ord, ci_NextBlock = int block, ci_FinalizedBlock = 0\<rparr>"

definition insert_invoice :: "CryptoInvoice \<Rightarrow> InvoiceColumns \<Rightarrow> InvoiceDesk \<Rightarrow> crypto_error + InvoiceDesk" where
  "insert_invoice v k S =
    (if list_ex (\<lambda>w. ci_ID w = ci_ID v \<or> ci_AttemptID w = ci_AttemptID v \<or> ci_Address w = ci_Address v) (cs_invoices (ds_chain S)) \<or>
       list_ex (\<lambda>c. ik_OperationID c = ik_OperationID k \<or> ik_AddressID c = ik_AddressID k) (ds_columns S)
     then Inl (Commerce (Unique ''crypto_invoices''))
     else Inr (S\<lparr>ds_columns := ds_columns S @ [k], ds_chain := (ds_chain S)\<lparr>cs_invoices := cs_invoices (ds_chain S) @ [v]\<rparr>\<rparr>))"

text \<open>The order points to the new attempt; its column of the deadline follows.\<close>

definition point_order :: "invoice_env \<Rightarrow> Order \<Rightarrow> string \<Rightarrow> Shop \<Rightarrow> commerce_error + Shop" where
  "point_order env ord attempt X =
    bind_res (saveOrder (ie_now env)
      (ord\<lparr>o_PaymentAttemptID := attempt, o_PaymentProviderID := ''crypto'', o_Message := ''waiting for payment on chain''\<rparr>) Pending X) (\<lambda>Y.
    Inr (Y\<lparr>sh_orders := set_where (\<lambda>r. or_id r = o_ID ord) (\<lambda>r. r\<lparr>or_expires := o_Expires ord\<rparr>) (sh_orders Y)\<rparr>))"

text \<open>From the allocation of the address to the end of the transaction.\<close>

definition issue_invoice ::
  "invoice_env \<Rightarrow> int \<Rightarrow> cryptoInvoiceInput \<Rightarrow> invoice_plan \<Rightarrow> Order \<Rightarrow> ReceiveWallet \<Rightarrow> InvoiceDesk \<Rightarrow> crypto_error + CryptoInvoice \<times> InvoiceDesk"
where
  "issue_invoice env actor inp p ord w S =
    bind_res (commerce_res (cryptoQuote (of_Price (o_Offer ord)) (ip_asset p))) (\<lambda>atoms.
    bind_res (allocate_address env w (ch_ChainID (ip_chain p) = cryptoSolanaChainID) S) (\<lambda>(x, S1).
    let a = crypto_attempt env actor ord; v = new_invoice env actor ord (pa_ID a) (ip_asset p) (ip_chain p) (ip_block p) (wa_Address x) atoms;
        k = \<lparr>ik_ID = ci_ID v, ik_OperationID = ii_OperationID inp, ik_Fingerprint = ie_digest env inp, ik_WalletID = cw_ID w,
              ik_AddressID = wa_ID x, ik_AssetID = as_ID (ip_asset p), ik_StartBlock = int (ip_block p)\<rparr> in
    bind_res (insert_attempt (ii_OperationID inp) a S1) (\<lambda>S2.
    bind_res (insert_invoice v k S2) (\<lambda>S3.
    bind_res (commerce_res (point_order env ord (pa_ID a) (cs_shop (ds_chain S3)))) (\<lambda>X.
    Inr (v, S3\<lparr>ds_chain := (ds_chain S3)\<lparr>cs_shop := X\<rparr>\<rparr>))))))"

definition open_invoice ::
  "invoice_env \<Rightarrow> int \<Rightarrow> cryptoInvoiceInput \<Rightarrow> invoice_plan \<Rightarrow> InvoiceDesk \<Rightarrow> crypto_error + CryptoInvoice \<times> bool \<times> InvoiceDesk"
where
  "open_invoice env actor inp p S =
    bind_res (cryptoLockChain (ch_ChainID (ip_chain p)) (ds_chain S)) (\<lambda>C.
    let S0 = S\<lparr>ds_chain := C\<rparr> in
    bind_res (cryptoInvoiceReplay env actor inp S0) (\<lambda>r.
    case r of Some v \<Rightarrow> Inr (v, False, S0)
    | None \<Rightarrow>
       if as_RateExpiresAt (ip_asset p) \<le> ie_now env then deny 409 ''rate expired''
       else if fs_Revision (ds_settings S0) \<noteq> fs_Revision (ip_settings p) then deny 409 ''settings changed''
       else if \<not> order_open actor (ii_OrderID inp) C then deny 409 ''order ended''
       else (case raw_order (cs_shop C) (ii_OrderID inp) of None \<Rightarrow> Inl (Commerce (NoRows ''commerce_orders''))
         | Some ord \<Rightarrow>
            if of_Price (o_Offer ord) \<le> 0 \<or> o_Expires ord \<le> ie_now env then deny 409 ''order expired''
            else if length (filter (\<lambda>v. ci_OrderID v = o_ID ord) (cs_invoices C)) \<ge> 12 then deny 409 ''too many invoices''
            else bind_res (switch_payment env (fs_InvoiceMinutes (ip_settings p)) (ii_AssetID inp) ord S0) (\<lambda>(ord1, C1).
              case row_with cw_ID (fs_WalletID (ip_settings p)) (ds_wallets S0) of None \<Rightarrow> deny 404 ''no such wallet''
              | Some w \<Rightarrow>
                 bind_res (cryptoWalletReady w) (\<lambda>_.
                 if \<not> cryptoWalletSupports (CryptoWallet.truncate w) (ch_ChainID (ip_chain p)) then deny 409 ''network not selected''
                 else bind_res (issue_invoice env actor inp p ord1 w (S0\<lparr>ds_chain := C1\<rparr>)) (\<lambda>(v, T). Inr (v, True, T)))))))"

text \<open>The first store is the one the handler read before it asked the network; the second the one of the transaction.\<close>

definition createCryptoInvoice ::
  "invoice_env \<Rightarrow> int \<Rightarrow> cryptoInvoiceInput \<Rightarrow> InvoiceDesk \<Rightarrow> InvoiceDesk \<Rightarrow> crypto_error + CryptoInvoice \<times> bool \<times> InvoiceDesk"
where
  "createCryptoInvoice env actor inp R S =
    (if \<not> valid_operation (ii_OperationID inp) then deny 400 ''no operation id''
     else bind_res (cryptoInvoiceReplay env actor inp R) (\<lambda>r.
       case r of Some v \<Rightarrow> Inr (v, False, S)
       | None \<Rightarrow>
          if \<not> payable env actor (ii_OrderID inp) R then deny 409 ''order not payable''
          else bind_res (plan_invoice env (ii_AssetID inp) R) (\<lambda>p. open_invoice env actor inp p S)))"

section \<open>Presentation\<close>

definition pad_amount :: "nat \<Rightarrow> string \<Rightarrow> string" where
  "pad_amount d s = (if length s \<le> d then replicate (Suc d - length s) (CHR ''0'') @ s else s)"

definition cryptoInvoiceQR :: "CryptoInvoice \<Rightarrow> int \<Rightarrow> string \<Rightarrow> string" where
  "cryptoInvoiceQR v decimals atoms =
    (if ci_ChainID v = cryptoSolanaChainID
     then let s = (if decimals < 0 then atoms else pad_amount (nat decimals) atoms); at = length s - nat decimals;
              amount = (if decimals > 0 then take at s @ ''.'' @ drop at s else s)
          in ''solana:'' @ ci_Address v @ ''?amount='' @ amount @ ''&spl-token='' @ ci_Contract v
     else ''ethereum:'' @ ci_Contract v @ ''@'' @ itoa (ci_ChainID v) @ ''/transfer?address='' @ ci_Address v @ ''&uint256='' @ atoms)"

text \<open>The state a customer sees; the messages of the states are texts only.\<close>

definition shown_state :: "int \<Rightarrow> CryptoInvoice \<Rightarrow> InvoiceAmounts \<Rightarrow> string" where
  "shown_state now v am =
    (if ci_State v \<noteq> ''waiting'' then ci_State v
     else
       let s1 = (if am_Received am \<noteq> 0 then ''confirming'' else ''waiting'');
           s2 = (if am_Confirmed am \<noteq> 0 \<and> am_Received am = am_Confirmed am then ''partial'' else s1)
       in if now > ci_Expires v \<and> am_Received am = 0 then ''expired'' else s2)"

definition decorateCryptoInvoice :: "int \<Rightarrow> CryptoInvoice \<Rightarrow> CryptoStore \<Rightarrow> commerce_error + string \<times> InvoiceAmounts \<times> order_state" where
  "decorateCryptoInvoice now v C =
    bind_res (cryptoInvoiceAmounts v C) (\<lambda>am.
    case find_order (cs_shop C) (ci_OrderID v) of None \<Rightarrow> Inl (NoRows ''commerce_orders'')
    | Some ord \<Rightarrow> Inr (shown_state now v am, am, o_State ord))"

end
