(* ===== verification/Transfer_Origin.thy ===== *)
theory Transfer_Origin
  imports Crypto_Safety
begin

text \<open>
  Where a confirmed transfer of an invoice comes from: a final log that a scan was given, of the token and chain of the
  invoice, with its address as receiver and a time in its window, and with the transaction, block and amount of the row.
\<close>

section \<open>Logs that pay an invoice\<close>

text \<open>Receivers are topics: the address itself on Solana, its ABI word elsewhere.\<close>

definition received_by :: "CryptoInvoice \<Rightarrow> Scanned \<Rightarrow> bool" where
  "received_by v l \<longleftrightarrow> length (sc_Topics l) = 3 \<and>
    (if ci_ChainID v = cryptoSolanaChainID then sc_Topics l ! 0 = ''solana_transfer'' \<and> sc_Topics l ! 2 = ci_Address v
     else sc_Topics l ! 0 = cryptoTransferTopic \<and> sc_Topics l ! 2 = ''0x'' @ cryptoABIAddress (ci_Address v))"

definition pays_to :: "CryptoInvoice \<Rightarrow> Scanned \<Rightarrow> CryptoTransfer \<Rightarrow> bool" where
  "pays_to v l t \<longleftrightarrow> received_by v l \<and> sc_Final l \<and> sc_Address l = ci_Contract v \<and>
     cryptoHexInt (sc_Data l) = Inr (digits_value (tr_Atoms t)) \<and>
     sc_TxHash l = tr_TxHash t \<and> sc_Index l = tr_LogIndex t \<and> sc_BlockHash l = tr_BlockHash t \<and> sc_Timestamp l = tr_BlockTime t \<and>
     ci_Created v \<le> sc_Timestamp l \<and> sc_Timestamp l < ci_Expires v"

definition backed_by :: "CryptoInvoice \<Rightarrow> Scanned list \<Rightarrow> CryptoTransfer \<Rightarrow> bool" where
  "backed_by v ls t \<longleftrightarrow> (tr_InvoiceID t = ci_ID v \<and> tr_State t = ''confirmed'' \<longrightarrow>
     tr_ChainID t = ci_ChainID v \<and> list_ex (\<lambda>l. pays_to v l t) ls)"

lemma backed_mono: "backed_by v ls t \<Longrightarrow> set ls \<subseteq> set ms \<Longrightarrow> backed_by v ms t"
  by (auto simp: backed_by_def list_ex_iff)

lemma backed_data: "invoice_data v = invoice_data w \<Longrightarrow> backed_by v ls t = backed_by w ls t"
  by (simp add: backed_by_def pays_to_def received_by_def invoice_data_def)

section \<open>Scans\<close>

lemma transfer_row_fields:
  assumes "transfer_row v chain l atoms = Inr row"
  shows "tr_TxHash row = sc_TxHash l" "tr_LogIndex row = sc_Index l" "tr_BlockHash row = sc_BlockHash l" "tr_Atoms row = nat_string atoms"
  using assms by (auto simp: transfer_row_def Let_def case_prod_beta res_simps)

lemma identity_received: "identity_ok b58 v chain l \<Longrightarrow> chain = ci_ChainID v \<Longrightarrow> received_by v l"
  by (auto simp: identity_ok_def received_by_def split: if_split_asm)

lemma row_backed:
  assumes row: "transfer_row v chain l atoms = Inr row" and ok: "identity_ok b58 v chain l" and atoms: "cryptoHexInt (sc_Data l) = Inr atoms"
    and t: "tr_InvoiceID t = tr_InvoiceID row" "transfer_key t = transfer_key row" "tr_Atoms t = tr_Atoms row" "tr_State t = tr_State row"
      "tr_BlockHash t = tr_BlockHash row" "tr_BlockTime t = tr_BlockTime row"
  shows "backed_by v [l] t"
  unfolding backed_by_def
proof (intro impI conjI)
  assume a: "tr_InvoiceID t = ci_ID v \<and> tr_State t = ''confirmed''"
  then have state: "fst (transfer_state v chain l) = ''confirmed''" using transfer_row_Inr(4) [OF row] t(4) by simp
  note w = transfer_state_window [OF state]
  have contract: "sc_Address l = ci_Contract v" using state by (auto simp: transfer_state_def split: if_splits)
  have key: "tr_ChainID t = chain" "tr_TxHash t = sc_TxHash l" "tr_LogIndex t = sc_Index l"
    using t(2) transfer_row_Inr(1) [OF row] by (simp_all add: transfer_key_def)
  show "tr_ChainID t = ci_ChainID v" using key(1) w by simp
  have "received_by v l" using identity_received [OF ok] w by simp
  then show "list_ex (\<lambda>l. pays_to v l t) [l]"
    using w contract key atoms t transfer_row_Inr(5) [OF row] transfer_row_fields [OF row] by (simp add: pays_to_def)
qed

lemma apply_transfer_backed:
  assumes run: "apply_transfer b58 v chain l S = Inr T" and t: "t \<in> set (cs_transfers T)"
    and keys: "distinct (map transfer_key (cs_transfers S))"
  shows "t \<in> set (cs_transfers S) \<or> (tr_InvoiceID t = ci_ID v \<and> backed_by v [l] t)"
proof (cases "cs_transfers T = cs_transfers S")
  case False
  obtain atoms where atoms: "cryptoHexInt (sc_Data l) = Inr atoms"
    using run by (auto simp: apply_transfer_def bind_res_eq_Inr commerce_res_Inr)
  have run': "identity_ok b58 v chain l \<and> (\<exists>row. transfer_row v chain l atoms = Inr row \<and>
      put_transfer chain l row (S\<lparr>cs_observations := filter (\<lambda>r. \<not> (ob_ChainID r = chain \<and> ob_TxHash r = sc_TxHash l)) (cs_observations S)\<rparr>) = Inr T)"
    using run False atoms
    by (auto simp: apply_transfer_def commerce_res_def observe_def Let_def bind_res_eq_Inr split: if_split_asm)
  then obtain row where ok: "identity_ok b58 v chain l" and row: "transfer_row v chain l atoms = Inr row"
    and put: "put_transfer chain l row (S\<lparr>cs_observations := filter (\<lambda>r. \<not> (ob_ChainID r = chain \<and> ob_TxHash r = sc_TxHash l)) (cs_observations S)\<rparr>) = Inr T"
    by blast
  note backed = row_backed [OF row ok atoms]
  show ?thesis
  proof (cases "find (same_transfer chain l) (cs_transfers S)")
    case None
    with put t have "t \<in> set (cs_transfers S) \<or> t = row" by (auto simp: put_transfer_def)
    then show ?thesis using backed [of row] transfer_row_Inr(2) [OF row] by auto
  next
    case (Some old)
    define f where "f = (\<lambda>r. r\<lparr>tr_BlockNumber := tr_BlockNumber row, tr_BlockHash := tr_BlockHash row,
        tr_BlockTime := tr_BlockTime row, tr_State := tr_State row, tr_Reason := tr_Reason row\<rparr> :: CryptoTransfer)"
    have eq: "tr_InvoiceID old = tr_InvoiceID row" "tr_Atoms old = tr_Atoms row"
      and T: "cs_transfers T = set_where (same_transfer chain l) f (cs_transfers S)"
      using put Some False by (auto simp: put_transfer_def f_def split: if_split_asm)
    have key: "transfer_key r = transfer_key row" if "same_transfer chain l r" for r
      using that transfer_row_Inr(1) [OF row] by (simp add: same_transfer_key)
    have old: "old \<in> set (cs_transfers S)" "same_transfer chain l old" using Some by (auto simp: find_Some_iff)
    have "t = f old" if "t \<notin> set (cs_transfers S)"
    proof -
      from t that obtain r where r: "r \<in> set (cs_transfers S)" "same_transfer chain l r" "t = f r"
        unfolding T by (auto simp: set_where_def split: if_split_asm)
      have "r = old" using keys r(1) old(1) key [OF r(2)] key [OF old(2)] by (simp add: distinct_map inj_on_def)
      with r(3) show ?thesis by simp
    qed
    moreover have "backed_by v [l] (f old)" "tr_InvoiceID (f old) = ci_ID v"
      using eq key [OF old(2)] transfer_row_Inr(2) [OF row] by (auto intro!: backed simp: f_def transfer_key_def)
    ultimately show ?thesis by auto
  qed
qed (use t in simp)

lemma apply_transfers_backed:
  assumes "fold_res (apply_transfer b58 v chain) ls S = Inr T" "distinct (map transfer_key (cs_transfers S))" "t \<in> set (cs_transfers T)"
  shows "t \<in> set (cs_transfers S) \<or> (tr_InvoiceID t = ci_ID v \<and> backed_by v ls t)"
  using assms
proof (induction ls arbitrary: S)
  case (Cons l ls)
  then obtain U where U: "apply_transfer b58 v chain l S = Inr U" "fold_res (apply_transfer b58 v chain) ls U = Inr T"
    by (auto simp: bind_res_eq_Inr)
  have "scan_writes v (cs_transfers S) (cs_transfers U)"
    using apply_transfers_writes [of b58 v chain "[l]" S U] U(1) by simp
  then have "distinct (map transfer_key (cs_transfers U))" using Cons.prems(2) by (simp add: scan_writes_def)
  from Cons.IH [OF U(2) this Cons.prems(3)] show ?case
  proof
    assume "t \<in> set (cs_transfers U)"
    from apply_transfer_backed [OF U(1) this Cons.prems(2)] show ?thesis using backed_mono [of v "[l]" t "l # ls"] by auto
  next
    assume "tr_InvoiceID t = ci_ID v \<and> backed_by v ls t"
    then show ?thesis using backed_mono [of v ls t "l # ls"] by auto
  qed
qed simp

text \<open>What one scan leaves among the transfers: those of before, and rows of its invoice with a log of its own.\<close>

theorem scan_backed:
  assumes run: "applyCryptoScan b58 env i chain g ls S = Inr T" and keys: "distinct (map transfer_key (cs_transfers S))"
    and t: "t \<in> set (cs_transfers T)"
  shows "t \<in> set (cs_transfers S) \<or>
    (\<exists>v. row_with ci_ID i (cs_invoices S) = Some v \<and> tr_InvoiceID t = ci_ID v \<and> backed_by v ls t)"
proof (cases "T = S")
  case False
  obtain S0 v where s: "cryptoLockChain chain S = Inr S0" "cryptoInvoice i S0 = Inr v" and run': "apply_range b58 env v chain g ls S0 = Inr T"
    using run False by (auto simp: applyCryptoScan_def bind_res_eq_Inr split: option.split_asm if_split_asm)
  obtain S1 d where f: "fold_res (apply_transfer b58 v chain) ls (drop_observations (ci_ID v) chain g S0) = Inr S1"
    "settleCryptoInvoice env v d (move_cursor v chain g S1) = Inr T"
    using run' unfolding apply_range_def bind_res_eq_Inr by blast
  have same: "cs_transfers (drop_observations (ci_ID v) chain g S0) = cs_transfers S" "cs_transfers S1 = cs_transfers T"
    using cryptoLockChain_Inr [OF s(1)] frame_settle [OF f(2)] move_cursor_frame(1) [of S1 v chain g]
    by (simp_all add: drop_observations_def scan_frame_def)
  have "row_with ci_ID i (cs_invoices S) = Some v"
    using s(2) cryptoLockChain_Inr [OF s(1)] by (simp add: cryptoInvoice_Inr)
  with apply_transfers_backed [OF f(1), of t] keys t same show ?thesis by auto
qed (use t in simp)

end
