(* ===== verification/Invoice_Safety.thy ===== *)
theory Invoice_Safety
  imports Crypto_Invoices Transfer_Origin
begin

text \<open>
  What the creation of an invoice guarantees (the order points to one live attempt, earlier ones are given up, the address is
  new, the shop stays in order), and the whole way of a payment on a chain: from the creation through any scans and other
  handlers to the scan that makes the invoice paid.
\<close>

section \<open>Successful creations\<close>

lemma createE:
  assumes "createCryptoInvoice env actor inp R S = Inr (v, True, T)"
  obtains p where "plan_invoice env (ii_AssetID inp) R = Inr p" "open_invoice env actor inp p S = Inr (v, True, T)"
  using assms by (auto simp: createCryptoInvoice_def bind_res_eq_Inr split: if_split_asm option.split_asm)

lemma plan_asset:
  "plan_invoice env asset R = Inr p \<Longrightarrow> row_with as_ID asset (fs_Assets (ds_settings R)) = Some (ip_asset p)"
  by (auto simp: plan_invoice_def Let_def bind_res_eq_Inr split: option.split_asm if_split_asm)

lemma openE:
  assumes "open_invoice env actor inp p S = Inr (v, True, T)"
  obtains C ord ord1 C1 w where "cryptoLockChain (ch_ChainID (ip_chain p)) (ds_chain S) = Inr C"
    "order_open actor (ii_OrderID inp) C" "raw_order (cs_shop C) (ii_OrderID inp) = Some ord"
    "0 < of_Price (o_Offer ord)" "ie_now env < o_Expires ord" "length (filter (\<lambda>v. ci_OrderID v = o_ID ord) (cs_invoices C)) < 12"
    "switch_payment env (fs_InvoiceMinutes (ip_settings p)) (ii_AssetID inp) ord (S\<lparr>ds_chain := C\<rparr>) = Inr (ord1, C1)"
    "row_with cw_ID (fs_WalletID (ip_settings p)) (ds_wallets S) = Some w" "cryptoWalletReady w = Inr ()"
    "issue_invoice env actor inp p ord1 w (S\<lparr>ds_chain := C1\<rparr>) = Inr (v, T)"
proof -
  obtain C r where C: "cryptoLockChain (ch_ChainID (ip_chain p)) (ds_chain S) = Inr C"
    and r: "cryptoInvoiceReplay env actor inp (S\<lparr>ds_chain := C\<rparr>) = Inr r" "r = None"
    using assms by (auto simp: open_invoice_def Let_def bind_res_eq_Inr split: option.split_asm)
  note run = assms [unfolded open_invoice_def Let_def C r bind_res_Inr option.case]
  from run obtain ord where ord: "order_open actor (ii_OrderID inp) C" "raw_order (cs_shop C) (ii_OrderID inp) = Some ord"
    "0 < of_Price (o_Offer ord)" "ie_now env < o_Expires ord" "length (filter (\<lambda>v. ci_OrderID v = o_ID ord) (cs_invoices C)) < 12"
    by (auto simp: not_le split: if_split_asm option.split_asm)
  with run obtain y where y: "switch_payment env (fs_InvoiceMinutes (ip_settings p)) (ii_AssetID inp) ord (S\<lparr>ds_chain := C\<rparr>) = Inr y"
    by (auto simp: bind_res_eq_Inr split: if_split_asm)
  obtain ord1 C1 where y1: "y = (ord1, C1)" by (cases y)
  from run ord y y1 obtain w where w: "row_with cw_ID (fs_WalletID (ip_settings p)) (ds_wallets S) = Some w" "cryptoWalletReady w = Inr ()"
    "issue_invoice env actor inp p ord1 w (S\<lparr>ds_chain := C1\<rparr>) = Inr (v, T)"
    by (auto simp: bind_res_eq_Inr split: if_split_asm option.split_asm)
  from that [OF C ord y [unfolded y1] w] show thesis .
qed

lemma allocateE:
  assumes "allocate_address env w sol S = Inr (x, T)"
  shows "wa_WalletID x = cw_ID w \<and> wa_Index x = cw_NextIndex w \<and>
    (\<forall>y \<in> set (ds_addresses S). wa_ID y \<noteq> wa_ID x \<and> wa_Address y \<noteq> wa_Address x \<and> (wa_WalletID y, wa_Index y) \<noteq> (wa_WalletID x, wa_Index x)) \<and>
    T = S\<lparr>ds_addresses := ds_addresses S @ [x],
      ds_wallets := set_where (\<lambda>v. cw_ID v = cw_ID w) (\<lambda>v. v\<lparr>cw_NextIndex := cw_NextIndex v + 1\<rparr>) (ds_wallets S)\<rparr>"
proof -
  obtain address path where d: "cryptoWalletDerive env w (cw_NextIndex w) sol = Inr (address, path)"
    using assms by (auto simp: allocate_address_def bind_res_eq_Inr)
  from assms show ?thesis
    by (auto simp: allocate_address_def d Let_def list_ex_iff bind_res_eq_Inr split: if_split_asm)
qed

lemma issueE:
  assumes "issue_invoice env actor inp p ord w S = Inr (v, T)"
  obtains atoms x X where "cryptoQuote (of_Price (o_Offer ord)) (ip_asset p) = Inr atoms"
    "allocate_address env w (ch_ChainID (ip_chain p) = cryptoSolanaChainID) S =
      Inr (x, S\<lparr>ds_addresses := ds_addresses S @ [x],
        ds_wallets := set_where (\<lambda>v. cw_ID v = cw_ID w) (\<lambda>v. v\<lparr>cw_NextIndex := cw_NextIndex v + 1\<rparr>) (ds_wallets S)\<rparr>)"
    "v = new_invoice env actor ord (ie_serial env ''GYP'') (ip_asset p) (ip_chain p) (ip_block p) (wa_Address x) atoms"
    "\<forall>u \<in> set (cs_invoices (ds_chain S)). ci_ID u \<noteq> ci_ID v \<and> ci_AttemptID u \<noteq> ci_AttemptID v \<and> ci_Address u \<noteq> ci_Address v"
    "\<forall>b \<in> set (sh_attempts (cs_shop (ds_chain S))). pa_ID b \<noteq> ie_serial env ''GYP''"
    "point_order env ord (ie_serial env ''GYP'')
      ((cs_shop (ds_chain S))\<lparr>sh_attempts := sh_attempts (cs_shop (ds_chain S)) @ [crypto_attempt env actor ord]\<rparr>) = Inr X"
    "ds_chain T = (ds_chain S)\<lparr>cs_invoices := cs_invoices (ds_chain S) @ [v], cs_shop := X\<rparr>"
    "ds_addresses T = ds_addresses S @ [x]"
    "ds_wallets T = set_where (\<lambda>v. cw_ID v = cw_ID w) (\<lambda>v. v\<lparr>cw_NextIndex := cw_NextIndex v + 1\<rparr>) (ds_wallets S)"
proof -
  obtain atoms where atoms: "cryptoQuote (of_Price (o_Offer ord)) (ip_asset p) = Inr atoms"
    using assms by (auto simp: issue_invoice_def bind_res_eq_Inr commerce_res_Inr)
  obtain y where y: "allocate_address env w (ch_ChainID (ip_chain p) = cryptoSolanaChainID) S = Inr y"
    using assms by (auto simp: issue_invoice_def bind_res_eq_Inr)
  obtain x S1 where xy: "y = (x, S1)" by (cases y)
  note a = allocateE [OF y [unfolded xy]]
  define u where "u = new_invoice env actor ord (ie_serial env ''GYP'') (ip_asset p) (ip_chain p) (ip_block p) (wa_Address x) atoms"
  have att: "pa_ID (crypto_attempt env actor ord) = ie_serial env ''GYP''" by (simp add: crypto_attempt_def)
  have S1: "ds_chain S1 = ds_chain S" using a by simp
  obtain S2 where S2: "insert_attempt (ii_OperationID inp) (crypto_attempt env actor ord) S1 = Inr S2"
    and rest: "\<exists>k S3 X. insert_invoice u k S2 = Inr S3 \<and>
      commerce_res (point_order env ord (ie_serial env ''GYP'') (cs_shop (ds_chain S3))) = Inr X \<and> (v, T) = (u, S3\<lparr>ds_chain := (ds_chain S3)\<lparr>cs_shop := X\<rparr>\<rparr>)"
    using assms by (auto simp: issue_invoice_def atoms y xy commerce_res_def Let_def bind_res_eq_Inr att u_def [symmetric])
  from rest obtain k S3 X where S3: "insert_invoice u k S2 = Inr S3"
    and X: "commerce_res (point_order env ord (ie_serial env ''GYP'') (cs_shop (ds_chain S3))) = Inr X"
    and T: "v = u" "T = S3\<lparr>ds_chain := (ds_chain S3)\<lparr>cs_shop := X\<rparr>\<rparr>" by auto
  have s2: "S2 = S1\<lparr>ds_attemptKeys := ds_attemptKeys S1 @ [ii_OperationID inp], ds_chain := (ds_chain S)\<lparr>cs_shop := (cs_shop (ds_chain S))
      \<lparr>sh_attempts := sh_attempts (cs_shop (ds_chain S)) @ [crypto_attempt env actor ord]\<rparr>\<rparr>\<rparr>"
    "\<forall>b \<in> set (sh_attempts (cs_shop (ds_chain S))). pa_ID b \<noteq> ie_serial env ''GYP''"
    using S2 by (auto simp: insert_attempt_def Let_def S1 att list_ex_iff split: if_split_asm)
  have s3: "S3 = S2\<lparr>ds_columns := ds_columns S2 @ [k], ds_chain := (ds_chain S2)\<lparr>cs_invoices := cs_invoices (ds_chain S) @ [u]\<rparr>\<rparr>"
    "\<forall>w \<in> set (cs_invoices (ds_chain S)). ci_ID w \<noteq> ci_ID u \<and> ci_AttemptID w \<noteq> ci_AttemptID u \<and> ci_Address w \<noteq> ci_Address u"
    using S3 by (auto simp: insert_invoice_def s2(1) list_ex_iff split: if_split_asm)
  show thesis
  proof (rule that)
    show "point_order env ord (ie_serial env ''GYP'')
      ((cs_shop (ds_chain S))\<lparr>sh_attempts := sh_attempts (cs_shop (ds_chain S)) @ [crypto_attempt env actor ord]\<rparr>) = Inr X"
      using X by (simp add: commerce_res_Inr s3(1) s2(1))
  qed (use atoms y xy a T s2 s3 u_def in simp_all)
qed

section \<open>The shop stays in order\<close>

text \<open>Rows that keep their owner, state and hold keep the invariant of the shop.\<close>

lemma shop_ok_rows:
  assumes ok: "shop_ok S" and keep: "\<And>r. r \<in> set (sh_orders S) \<Longrightarrow> or_id (f r) = or_id r \<and> or_user (f r) = or_user r \<and>
      or_state (f r) = or_state r \<and> row_hold (f r) = row_hold r \<and> row_ok (user_ids S) (f r)"
  shows "shop_ok (S\<lparr>sh_orders := map f (sh_orders S)\<rparr>)"
proof -
  have ids: "map or_id (map f (sh_orders S)) = map or_id (sh_orders S)" using keep by simp
  have "sum_where (\<lambda>r. or_user r = u) row_hold (map f rows) = sum_where (\<lambda>r. or_user r = u) row_hold rows"
    if "set rows \<subseteq> set (sh_orders S)" for rows u
    using that keep by (induction rows) auto
  then have "hold_sum (map f (sh_orders S)) u = hold_sum (sh_orders S) u" for u by (simp add: hold_sum_def)
  moreover have "one_active (map f (sh_orders S))"
    unfolding one_active_def
  proof (intro ballI impI)
    fix a b assume "a \<in> set (map f (sh_orders S))" "b \<in> set (map f (sh_orders S))"
      and ab: "or_user a = or_user b \<and> or_state a \<in> set active_states \<and> or_state b \<in> set active_states"
    then obtain q r where "q \<in> set (sh_orders S)" "a = f q" "r \<in> set (sh_orders S)" "b = f r" by auto
    with ab keep ok show "or_id a = or_id b" unfolding shop_ok_def one_active_def by metis
  qed
  moreover have "\<forall>r \<in> set (map f (sh_orders S)). row_ok (user_ids S) r" using keep by auto
  moreover have "user_ids (S\<lparr>sh_orders := z\<rparr>) = user_ids S" for z by (simp add: user_ids_def)
  ultimately show ?thesis using ok ids by (simp add: shop_ok_def del: map_map list.set_map)
qed

lemma point_order_rows:
  assumes "point_order env ord attempt X = Inr Y"
  shows "Y = X\<lparr>sh_orders := map (\<lambda>r. if or_id r = o_ID ord
    then (if or_state r = Pending then saved_row (ie_now env) (ord\<lparr>o_PaymentAttemptID := attempt, o_PaymentProviderID := ''crypto'',
        o_Message := ''waiting for payment on chain''\<rparr>) r else r)\<lparr>or_expires := o_Expires ord\<rparr> else r) (sh_orders X)\<rparr>"
proof -
  define doc where "doc = ord\<lparr>o_PaymentAttemptID := attempt, o_PaymentProviderID := ''crypto'', o_Message := ''waiting for payment on chain''\<rparr>"
  obtain Z where Z: "saveOrder (ie_now env) doc Pending X = Inr Z"
    "Y = Z\<lparr>sh_orders := set_where (\<lambda>r. or_id r = o_ID ord) (\<lambda>r. r\<lparr>or_expires := o_Expires ord\<rparr>) (sh_orders Z)\<rparr>"
    using assms by (auto simp: point_order_def doc_def bind_res_eq_Inr)
  have "o_ID doc = o_ID ord" by (simp add: doc_def)
  with saveOrder_Inr(2) [OF Z(1)] have "sh_orders Z = map (\<lambda>r. if or_id r = o_ID ord \<and> or_state r = Pending then saved_row (ie_now env) doc r else r) (sh_orders X)"
    "Z = X\<lparr>sh_orders := sh_orders Z\<rparr>"
    by (simp_all add: set_where_def saved_row_def)
  with Z(2) show ?thesis
    unfolding doc_def [symmetric] by (cases X) (auto simp: set_where_def intro!: map_cong)
qed

lemma point_order_ok:
  assumes run: "point_order env ord attempt X = Inr Y" and ok: "shop_ok X"
    and row: "row_with or_id (o_ID ord) (sh_orders X) = Some r" "or_state r = Pending"
    and doc: "o_UserID ord = or_user r" "o_State ord = Pending" "o_Offer ord = o_Offer (or_doc r)"
  shows "shop_ok Y" "raw_order Y (o_ID ord) = Some (ord\<lparr>o_PaymentAttemptID := attempt, o_PaymentProviderID := ''crypto'',
        o_Message := ''waiting for payment on chain'', o_Updated := ie_now env\<rparr>)"
proof -
  define doc' where "doc' = ord\<lparr>o_PaymentAttemptID := attempt, o_PaymentProviderID := ''crypto'', o_Message := ''waiting for payment on chain''\<rparr>"
  define f where "f = (\<lambda>q. if or_id q = o_ID ord
    then (if or_state q = Pending then saved_row (ie_now env) doc' q else q)\<lparr>or_expires := o_Expires ord\<rparr> else q)"
  have Y: "Y = X\<lparr>sh_orders := map f (sh_orders X)\<rparr>" using point_order_rows [OF run] by (simp add: f_def doc'_def)
  have r: "r \<in> set (sh_orders X)" "or_id r = o_ID ord" using row_with_Some [OF row(1)] by auto
  have rok: "row_ok (user_ids X) r" using ok r(1) by (simp add: shop_ok_def)
  have one: "q = r" if "q \<in> set (sh_orders X)" "or_id q = o_ID ord" for q
    using ok r that by (metis shop_ok_def distinct_map inj_onD)
  have fr: "f r = (saved_row (ie_now env) doc' r)\<lparr>or_expires := o_Expires ord\<rparr>" using r(2) row(2) by (simp add: f_def)
  have "or_id (f q) = or_id q \<and> or_user (f q) = or_user q \<and> or_state (f q) = or_state q \<and> row_hold (f q) = row_hold q \<and> row_ok (user_ids X) (f q)"
    if q: "q \<in> set (sh_orders X)" for q
  proof (cases "or_id q = o_ID ord")
    case True
    then have "q = r" by (rule one [OF q])
    with rok r row(2) doc show ?thesis by (auto simp: fr saved_row_def row_hold_def row_ok_def doc'_def)
  next
    case False
    with ok q show ?thesis by (simp add: f_def shop_ok_def)
  qed
  then show "shop_ok Y" unfolding Y by (rule shop_ok_rows [OF ok])
  have id: "or_id (f q) = or_id q" for q by (simp add: f_def)
  have "row_with or_id k (map f rows) = map_option f (row_with or_id k rows)" for k rows
    by (induction rows) (simp_all add: row_with_def id)
  with row(1) show "raw_order Y (o_ID ord) = Some (ord\<lparr>o_PaymentAttemptID := attempt, o_PaymentProviderID := ''crypto'',
        o_Message := ''waiting for payment on chain'', o_Updated := ie_now env\<rparr>)"
    by (simp add: Y raw_order_def fr doc'_def)
qed

lemma switchE:
  assumes "switch_payment env minutes asset ord S = Inr (ord1, C1)"
  obtains "o_PaymentAttemptID ord = []" "ord1 = ord\<lparr>o_Expires := ie_now env + minutes * 60\<rparr>" "C1 = ds_chain S"
  | a where "o_PaymentAttemptID ord \<noteq> []" "ord1 = ord" "C1 = cancel_attempt (ie_now env) (o_PaymentAttemptID ord) (ds_chain S)"
    "o_PaymentProviderID ord = ''crypto''" "\<not> order_transfers (o_ID ord) (ds_chain S)"
    "row_with pa_ID (o_PaymentAttemptID ord) (sh_attempts (cs_shop (ds_chain S))) = Some a" "pa_State a = ''awaiting_customer''"
  using assms by (auto simp: switch_payment_def Let_def split: if_split_asm option.split_asm)

lemma switch_frame:
  assumes "switch_payment env minutes asset ord S = Inr (ord1, C1)"
  shows "cs_transfers C1 = cs_transfers (ds_chain S)" "map invoice_data (cs_invoices C1) = map invoice_data (cs_invoices (ds_chain S))"
    "same_core (cs_shop (ds_chain S)) (cs_shop C1)" "o_ID ord1 = o_ID ord" "o_UserID ord1 = o_UserID ord" "o_State ord1 = o_State ord"
    "o_Offer ord1 = o_Offer ord"
  using assms by (auto elim!: switchE simp: cancel_attempt_def invoice_data_def map_set_where_key intro: core_intros)

section \<open>What an opening does\<close>

lemma order_open_row:
  assumes "order_open actor i C" "raw_order (cs_shop C) i = Some ord" "shop_ok (cs_shop C)"
  obtains r where "row_with or_id i (sh_orders (cs_shop C)) = Some r" "or_doc r = ord" "or_user r = actor" "or_state r = Pending"
    "o_ID ord = i" "o_UserID ord = actor" "o_State ord = Pending"
proof -
  have "filter (\<lambda>r. or_id r = i \<and> or_user r = actor \<and> or_state r = Pending) (sh_orders (cs_shop C)) \<noteq> []"
    using assms(1) unfolding order_open_def affected_def by (metis list.size(3) zero_neq_one)
  then obtain r where r: "r \<in> set (sh_orders (cs_shop C))" "or_id r = i" "or_user r = actor" "or_state r = Pending"
    unfolding filter_empty_conv by blast
  have "distinct (map or_id (sh_orders (cs_shop C)))" and ok: "row_ok (user_ids (cs_shop C)) r"
    using assms(3) r(1) unfolding shop_ok_def by blast+
  from row_with_unique [OF this(1) r(1)] r(2) have row: "row_with or_id i (sh_orders (cs_shop C)) = Some r" by simp
  then have doc: "or_doc r = ord" using assms(2) by (simp add: raw_order_def)
  have "o_ID ord = i" "o_UserID ord = actor" "o_State ord = Pending" using ok doc r unfolding row_ok_def by metis+
  from that [OF row doc r(3,4) this] show thesis .
qed

text \<open>Neither the attempt nor its invoice is live any more.\<close>

definition given_up :: "string \<Rightarrow> CryptoStore \<Rightarrow> bool" where
  "given_up attempt C \<longleftrightarrow> list_all (\<lambda>b. pa_ID b = attempt \<longrightarrow> pa_State b \<noteq> ''awaiting_customer'') (sh_attempts (cs_shop C)) \<and>
    list_all (\<lambda>w. ci_AttemptID w = attempt \<longrightarrow> ci_State w \<noteq> ''waiting'') (cs_invoices C)"

lemma list_all_set_where: "(\<And>r. Q (if p r then f r else r)) \<Longrightarrow> list_all Q (set_where p f rows)"
  unfolding set_where_def list_all_iff set_map by blast

lemma cancelled_given_up: "given_up attempt (cancel_attempt now attempt C)"
proof -
  have "list_all (\<lambda>b. pa_ID b = attempt \<longrightarrow> pa_State b \<noteq> ''awaiting_customer'') (sh_attempts (cs_shop (cancel_attempt now attempt C)))"
    unfolding cancel_attempt_def set_attempt_def CryptoStore.select_convs CryptoStore.update_convs Shop.select_convs Shop.update_convs
    by simp (rule list_all_set_where, simp)
  moreover have "list_all (\<lambda>w. ci_AttemptID w = attempt \<longrightarrow> ci_State w \<noteq> ''waiting'') (cs_invoices (cancel_attempt now attempt C))"
    unfolding cancel_attempt_def by simp (rule list_all_set_where, simp)
  ultimately show ?thesis by (simp add: given_up_def)
qed

definition points_to :: "CryptoInvoice \<Rightarrow> Order \<Rightarrow> CryptoStore \<Rightarrow> bool" where
  "points_to v ord C \<longleftrightarrow>
    (case (raw_order (cs_shop C) (o_ID ord), row_with pa_ID (ci_AttemptID v) (sh_attempts (cs_shop C))) of
       (Some o', Some a) \<Rightarrow> o_State o' = Pending \<and> o_PaymentAttemptID o' = ci_AttemptID v \<and> o_Offer o' = o_Offer ord \<and>
         o_Expires o' = ci_Expires v \<and> pa_State a = ''awaiting_customer'' \<and> pa_Amount a = of_Price (o_Offer ord) \<and>
         pa_OrderID a = o_ID ord \<and> pa_Expires a = ci_Expires v
     | _ \<Rightarrow> False)"

lemma invoices_of_order:
  "map invoice_data us = map invoice_data ws \<Longrightarrow>
    length (filter (\<lambda>v. ci_OrderID v = i) us) = length (filter (\<lambda>v. ci_OrderID v = i) ws)"
proof (induction us arbitrary: ws)
  case (Cons u us)
  then show ?case by (cases ws) (auto simp: invoice_data_def)
qed simp

lemma cancel_ids: "map pa_ID (sh_attempts (cs_shop (cancel_attempt now attempt C))) = map pa_ID (sh_attempts (cs_shop C))"
  by (simp add: cancel_attempt_def set_attempt_def map_set_where_key)

lemma row_with_last: "\<forall>b \<in> set bs. key b \<noteq> key a \<Longrightarrow> row_with key (key a) (bs @ [a]) = Some a"
  by (induction bs) (auto simp: row_with_def)

lemma lock_transfers: "cryptoLockChain chain C = Inr D \<Longrightarrow> order_transfers i D = order_transfers i C"
  by (auto simp: cryptoLockChain_def order_transfers_def split: option.split_asm if_split_asm)

lemma invoice_opened:
  assumes create: "createCryptoInvoice env actor inp R S = Inr (v, True, T)" and ok: "shop_ok (cs_shop (ds_chain S))"
  shows "shop_ok (cs_shop (ds_chain T)) \<and> (\<forall>x \<in> set (ds_addresses S). wa_Address x \<noteq> ci_Address v) \<and>
    (\<exists>ord. raw_order (cs_shop (ds_chain S)) (ii_OrderID inp) = Some ord \<and> o_UserID ord = actor \<and> o_State ord = Pending \<and>
       0 < of_Price (o_Offer ord) \<and> points_to v ord (ds_chain T) \<and>
       length (filter (\<lambda>w. ci_OrderID w = o_ID ord) (cs_invoices (ds_chain T))) \<le> 12 \<and>
       (o_PaymentAttemptID ord \<noteq> [] \<longrightarrow> \<not> order_transfers (o_ID ord) (ds_chain S) \<and> given_up (o_PaymentAttemptID ord) (ds_chain T)))"
proof (rule createE [OF create])
  fix p assume plan: "plan_invoice env (ii_AssetID inp) R = Inr p" and "open_invoice env actor inp p S = Inr (v, True, T)"
  from this(2) show ?thesis
  proof (rule openE)
    fix C ord ord1 C1 w
    assume C: "cryptoLockChain (ch_ChainID (ip_chain p)) (ds_chain S) = Inr C" and open': "order_open actor (ii_OrderID inp) C"
      and ord: "raw_order (cs_shop C) (ii_OrderID inp) = Some ord" "0 < of_Price (o_Offer ord)"
      and few: "length (filter (\<lambda>v. ci_OrderID v = o_ID ord) (cs_invoices C)) < 12"
      and switch: "switch_payment env (fs_InvoiceMinutes (ip_settings p)) (ii_AssetID inp) ord (S\<lparr>ds_chain := C\<rparr>) = Inr (ord1, C1)"
      and issue: "issue_invoice env actor inp p ord1 w (S\<lparr>ds_chain := C1\<rparr>) = Inr (v, T)"
    note lock = cryptoLockChain_Inr [OF C]
    have okC: "shop_ok (cs_shop C)" using ok lock by simp
    note frame = switch_frame [OF switch]
    show ?thesis
    proof (rule order_open_row [OF open' ord(1) okC], rule issueE [OF issue])
      fix r atoms x X
      let ?a = "crypto_attempt env actor ord1" and ?X = "(cs_shop (ds_chain (S\<lparr>ds_chain := C1\<rparr>)))
          \<lparr>sh_attempts := sh_attempts (cs_shop (ds_chain (S\<lparr>ds_chain := C1\<rparr>))) @ [crypto_attempt env actor ord1]\<rparr>"
      assume r: "row_with or_id (ii_OrderID inp) (sh_orders (cs_shop C)) = Some r" "or_doc r = ord" "or_user r = actor" "or_state r = Pending"
        "o_ID ord = ii_OrderID inp" "o_UserID ord = actor" "o_State ord = Pending"
        and alloc: "allocate_address env w (ch_ChainID (ip_chain p) = cryptoSolanaChainID) (S\<lparr>ds_chain := C1\<rparr>) = Inr (x, (S\<lparr>ds_chain := C1\<rparr>)
            \<lparr>ds_addresses := ds_addresses (S\<lparr>ds_chain := C1\<rparr>) @ [x],
             ds_wallets := set_where (\<lambda>v. cw_ID v = cw_ID w) (\<lambda>v. v\<lparr>cw_NextIndex := cw_NextIndex v + 1\<rparr>) (ds_wallets (S\<lparr>ds_chain := C1\<rparr>))\<rparr>)"
        and v: "v = new_invoice env actor ord1 (ie_serial env ''GYP'') (ip_asset p) (ip_chain p) (ip_block p) (wa_Address x) atoms"
        and fresh: "\<forall>b \<in> set (sh_attempts (cs_shop (ds_chain (S\<lparr>ds_chain := C1\<rparr>)))). pa_ID b \<noteq> ie_serial env ''GYP''"
        and point: "point_order env ord1 (ie_serial env ''GYP'') ?X = Inr X"
        and T: "ds_chain T = (ds_chain (S\<lparr>ds_chain := C1\<rparr>))\<lparr>cs_invoices := cs_invoices (ds_chain (S\<lparr>ds_chain := C1\<rparr>)) @ [v], cs_shop := X\<rparr>"
      have same: "same_core (cs_shop C) (cs_shop C1)" using frame(3) by simp
      have okX: "shop_ok ?X" and rowX: "row_with or_id (o_ID ord1) (sh_orders ?X) = Some r"
        using okC shop_ok_core [OF same] same r(1,5) frame(4) by (auto simp: same_core_def shop_ok_def user_ids_def)
      note pointed = point_order_ok [OF point okX rowX r(4)]
      have doc: "o_UserID ord1 = or_user r" "o_State ord1 = Pending" "o_Offer ord1 = o_Offer (or_doc r)"
        using frame(5-7) r by simp_all
      have attempts: "sh_attempts X = sh_attempts (cs_shop C1) @ [?a]" using point_order_rows [OF point] by simp
      have new: "row_with pa_ID (ie_serial env ''GYP'') (sh_attempts X) = Some ?a"
        using row_with_last [of "sh_attempts (cs_shop C1)" pa_ID ?a] fresh by (simp add: attempts crypto_attempt_def)
      have points: "points_to v ord (ds_chain T)"
        using pointed(2) [OF doc] new frame(4,7) doc r
        by (simp add: points_to_def T v new_invoice_def crypto_attempt_def)
      have up: "\<not> order_transfers (o_ID ord) (ds_chain S) \<and> given_up (o_PaymentAttemptID ord) (ds_chain T)" if "o_PaymentAttemptID ord \<noteq> []"
        using switch
      proof (cases rule: switchE)
        case (2 a)
        have none: "\<not> order_transfers (o_ID ord) (ds_chain S)"
          using 2(5) lock_transfers [OF C] by simp
        have "o_PaymentAttemptID ord \<noteq> ie_serial env ''GYP''"
        proof
          assume eq: "o_PaymentAttemptID ord = ie_serial env ''GYP''"
          have "o_PaymentAttemptID ord \<in> set (map pa_ID (sh_attempts (cs_shop C)))"
            using row_with_Some [OF 2(6)] by (auto intro: rev_image_eqI)
          then have "o_PaymentAttemptID ord \<in> set (map pa_ID (sh_attempts (cs_shop C1)))" by (simp only: 2(3) cancel_ids) simp
          with fresh eq show False by auto
        qed
        moreover have "given_up (o_PaymentAttemptID ord) C1" using 2(3) cancelled_given_up by simp
        ultimately show ?thesis using none
          by (auto simp: given_up_def T attempts v new_invoice_def crypto_attempt_def)
      qed (use that in simp)
      have "length (filter (\<lambda>v. ci_OrderID v = o_ID ord) (cs_invoices C1)) < 12"
        using few invoices_of_order [OF frame(2)] by simp
      then have "length (filter (\<lambda>v. ci_OrderID v = o_ID ord) (cs_invoices (ds_chain T))) \<le> 12" by (simp add: T)
      moreover have "\<forall>y \<in> set (ds_addresses S). wa_Address y \<noteq> ci_Address v"
        using allocateE [OF alloc] by (auto simp: v new_invoice_def)
      moreover have "shop_ok (cs_shop (ds_chain T))" using pointed(1) [OF doc] by (simp add: T)
      ultimately show ?thesis using ord lock r(6,7) points up by simp
    qed
  qed
qed

section \<open>Invoices and scans over time\<close>

text \<open>Every transfer belongs to an invoice, in addition to \<open>transfers_ok\<close>.\<close>

definition chain_ok :: "CryptoStore \<Rightarrow> bool" where
  "chain_ok C \<longleftrightarrow> transfers_ok C \<and> list_all (\<lambda>t. tr_InvoiceID t \<in> ci_ID ` set (cs_invoices C)) (cs_transfers C)"

definition kept_invoices :: "CryptoStore \<Rightarrow> CryptoStore \<Rightarrow> bool" where
  "kept_invoices C D \<longleftrightarrow> set (map invoice_data (cs_invoices C)) \<subseteq> set (map invoice_data (cs_invoices D))"

lemma kept_invoices_trans: "kept_invoices C D \<Longrightarrow> kept_invoices D E \<Longrightarrow> kept_invoices C E"
  by (simp only: kept_invoices_def)

definition advances :: "CryptoStore \<Rightarrow> CryptoStore \<Rightarrow> bool" where
  "advances C D \<longleftrightarrow> (chain_ok C \<longrightarrow> chain_ok D \<and> kept_invoices C D)"

lemma advances_trans: "advances C D \<Longrightarrow> advances D E \<Longrightarrow> advances C E"
  unfolding advances_def using kept_invoices_trans by blast

lemma advances_same:
  assumes "cs_transfers D = cs_transfers C" "map invoice_data (cs_invoices D) = map invoice_data (cs_invoices C)"
  shows "advances C D"
proof -
  have ids: "map ci_ID (cs_invoices D) = map ci_ID (cs_invoices C)" by (rule distinct_data [OF assms(2)])
  then have "ci_ID ` set (cs_invoices D) = ci_ID ` set (cs_invoices C)" by (metis set_map)
  moreover have "list_all (\<lambda>v. list_all (in_window v) (cs_transfers C)) (cs_invoices D)"
    if "list_all (\<lambda>v. list_all (in_window v) (cs_transfers C)) (cs_invoices C)"
    by (rule windows_data [OF assms(2) that])
  ultimately show ?thesis using assms ids by (simp add: advances_def chain_ok_def transfers_ok_def kept_invoices_def)
qed

lemma scan_advances:
  assumes "applyCryptoScan b58 env i chain g ts C = Inr D"
  shows "advances C D"
  using applyCryptoScan_Inr [OF assms]
proof
  assume "\<exists>v U. row_with ci_ID i (cs_invoices C) = Some v \<and> ci_ID v = i \<and> scanned env v C U D"
  then obtain v U d where v: "row_with ci_ID i (cs_invoices C) = Some v" "scan_writes v (cs_transfers C) (cs_transfers U)"
    "map invoice_data (cs_invoices U) = map invoice_data (cs_invoices C)" "settleCryptoInvoice env v d U = Inr D"
    unfolding scanned_def by blast
  have f: "cs_transfers D = cs_transfers U" "map invoice_data (cs_invoices D) = map invoice_data (cs_invoices C)"
    using frame_settle [OF v(4)] v(3) by (simp_all add: scan_frame_def)
  have ids: "ci_ID ` set (cs_invoices D) = ci_ID ` set (cs_invoices C)" using distinct_data [OF f(2)] by (metis set_map)
  have mine: "ci_ID v \<in> ci_ID ` set (cs_invoices C)" using row_with_Some [OF v(1)] by blast
  have "tr_InvoiceID t \<in> ci_ID ` set (cs_invoices D)" if ok: "chain_ok C" and t: "t \<in> set (cs_transfers D)" for t
  proof -
    have "t \<in> set (cs_transfers C) \<or> written v t"
      using v(2) ok t f(1) by (auto simp: scan_writes_def chain_ok_def transfers_ok_def)
    then show ?thesis using ok ids mine by (auto simp: chain_ok_def list_all_iff written_def)
  qed
  then show ?thesis
    using scan_keeps_transfers [OF assms] f(2) by (auto simp: advances_def chain_ok_def list_all_iff kept_invoices_def)
qed (simp add: advances_same)

lemma scan_step_advances:
  assumes "scan_step b58 env i chain g ts C = (D, e)"
  shows "advances C D"
proof (cases "applyCryptoScan b58 env i chain g ts C")
  case (Inl x)
  with assms show ?thesis
    by (auto simp: scan_step_def freezeCryptoChain_def intro: advances_same split: if_split_asm)
next
  case (Inr x)
  with assms scan_advances [OF Inr] show ?thesis by (simp add: scan_step_def)
qed

lemma new_invoice_advances:
  assumes "cs_transfers D = cs_transfers C" "cs_invoices D = cs_invoices C @ [v]" "\<forall>u \<in> set (cs_invoices C). ci_ID u \<noteq> ci_ID v"
  shows "advances C D"
proof -
  have "in_window v t" if "list_all (\<lambda>t. tr_InvoiceID t \<in> ci_ID ` set (cs_invoices C)) (cs_transfers C)" "t \<in> set (cs_transfers C)" for t
    using that assms(3) by (auto simp: list_all_iff in_window_def)
  then show ?thesis using assms
    by (auto simp: advances_def chain_ok_def transfers_ok_def kept_invoices_def list_all_iff)
qed

lemma lock_advances: "cryptoLockChain chain C = Inr D \<Longrightarrow> advances C D"
  by (rule advances_same) (use cryptoLockChain_Inr in auto)

lemma create_advances:
  assumes "createCryptoInvoice env actor inp R S = Inr (v, b, T)"
  shows "advances (ds_chain S) (ds_chain T) \<and> cs_transfers (ds_chain T) = cs_transfers (ds_chain S) \<and>
    (b \<longrightarrow> v \<in> set (cs_invoices (ds_chain T)) \<and> ci_ID v \<notin> ci_ID ` set (cs_invoices (ds_chain S)))"
proof (cases b)
  case True
  with assms have "createCryptoInvoice env actor inp R S = Inr (v, True, T)" by simp
  then show ?thesis
  proof (rule createE, elim openE)
    fix p C ord ord1 C1 w
    assume C: "cryptoLockChain (ch_ChainID (ip_chain p)) (ds_chain S) = Inr C"
      and switch: "switch_payment env (fs_InvoiceMinutes (ip_settings p)) (ii_AssetID inp) ord (S\<lparr>ds_chain := C\<rparr>) = Inr (ord1, C1)"
      and issue: "issue_invoice env actor inp p ord1 w (S\<lparr>ds_chain := C1\<rparr>) = Inr (v, T)"
    have frame: "cs_transfers C1 = cs_transfers C" "map invoice_data (cs_invoices C1) = map invoice_data (cs_invoices C)"
      using switch_frame [OF switch] by simp_all
    have C1: "advances C C1" by (rule advances_same [OF frame])
    have ids: "ci_ID ` set (cs_invoices C1) = ci_ID ` set (cs_invoices (ds_chain S))"
      using distinct_data [OF frame(2)] cryptoLockChain_Inr [OF C] by (metis set_map)
    from issue show ?thesis
    proof (rule issueE)
      fix X
      assume new: "\<forall>u \<in> set (cs_invoices (ds_chain (S\<lparr>ds_chain := C1\<rparr>))). ci_ID u \<noteq> ci_ID v \<and> ci_AttemptID u \<noteq> ci_AttemptID v \<and> ci_Address u \<noteq> ci_Address v"
        and T: "ds_chain T = (ds_chain (S\<lparr>ds_chain := C1\<rparr>))\<lparr>cs_invoices := cs_invoices (ds_chain (S\<lparr>ds_chain := C1\<rparr>)) @ [v], cs_shop := X\<rparr>"
      then have "advances C1 (ds_chain T)" by (intro new_invoice_advances) auto
      then have "advances (ds_chain S) (ds_chain T)" by (rule advances_trans [OF lock_advances [OF C] advances_trans [OF C1]])
      moreover have "ci_ID v \<notin> ci_ID ` set (cs_invoices (ds_chain S))" unfolding ids [symmetric] using new by auto
      ultimately show ?thesis using T frame(1) cryptoLockChain_Inr [OF C] by simp
    qed
  qed
next
  case False
  have "ds_chain T = ds_chain S \<or> (\<exists>chain. cryptoLockChain chain (ds_chain S) = Inr (ds_chain T))"
    using assms False
    by (auto simp: createCryptoInvoice_def open_invoice_def Let_def bind_res_eq_Inr split: if_split_asm option.split_asm prod.split_asm)
  then have "advances (ds_chain S) (ds_chain T)" "cs_transfers (ds_chain T) = cs_transfers (ds_chain S)"
    using lock_advances cryptoLockChain_Inr by (auto intro: advances_same)
  with False show ?thesis by simp
qed

text \<open>
  The events: a creation, a scan, and everything else, which leaves invoices and transfers alone (other handlers of the shop,
  cursors of scans, wallets, settings). The label is the list of logs a scan was given.
\<close>

inductive desk_step :: "InvoiceDesk \<Rightarrow> Scanned list \<Rightarrow> InvoiceDesk \<Rightarrow> bool" where
  Open: "createCryptoInvoice env actor inp R S = Inr (v, b, T) \<Longrightarrow> desk_step S [] T"
| Scans: "scan_step b58 env i chain g ls (ds_chain S) = (C, e) \<Longrightarrow> desk_step S ls (S\<lparr>ds_chain := C\<rparr>)"
| Other: "cs_invoices (ds_chain T) = cs_invoices (ds_chain S) \<Longrightarrow> cs_transfers (ds_chain T) = cs_transfers (ds_chain S) \<Longrightarrow> desk_step S [] T"

inductive desk_run :: "InvoiceDesk \<Rightarrow> Scanned list \<Rightarrow> InvoiceDesk \<Rightarrow> bool" where
  Stay: "desk_run S [] S"
| Go: "desk_run S ls T \<Longrightarrow> desk_step T ms U \<Longrightarrow> desk_run S (ls @ ms) U"

lemma desk_step_advances: "desk_step S ls T \<Longrightarrow> advances (ds_chain S) (ds_chain T)"
proof (induction rule: desk_step.induct)
  case (Open env actor inp R S v b T)
  then show ?case using create_advances by blast
next
  case (Scans b58 env i chain g ls S C e)
  then show ?case using scan_step_advances by simp
next
  case (Other T S)
  then show ?case by (intro advances_same) simp_all
qed

lemma desk_run_advances: "desk_run S ls T \<Longrightarrow> advances (ds_chain S) (ds_chain T)"
proof (induction rule: desk_run.induct)
  case (Go S ls T ms U)
  then show ?case using advances_trans desk_step_advances by blast
qed (simp add: advances_same)

section \<open>The logs behind an invoice\<close>

text \<open>\<open>v\<close> is an invoice of the store up to its progress, and its confirmed transfers have logs among \<open>ls\<close>.\<close>

definition sourced :: "CryptoInvoice \<Rightarrow> Scanned list \<Rightarrow> CryptoStore \<Rightarrow> bool" where
  "sourced v ls C \<longleftrightarrow> chain_ok C \<and> invoice_data v \<in> set (map invoice_data (cs_invoices C)) \<and> list_all (backed_by v ls) (cs_transfers C)"

lemma sourced_advances:
  assumes "sourced v ls C" "advances C D"
    and "\<And>t. t \<in> set (cs_transfers D) \<Longrightarrow> t \<in> set (cs_transfers C) \<or> backed_by v ms t"
  shows "sourced v (ls @ ms) D"
proof -
  have "chain_ok D" "set (map invoice_data (cs_invoices C)) \<subseteq> set (map invoice_data (cs_invoices D))"
    using assms(1,2) by (simp_all only: sourced_def advances_def kept_invoices_def)
  moreover have "backed_by v (ls @ ms) t" if "t \<in> set (cs_transfers D)" for t
    using assms(1,3) that backed_mono [of v _ t "ls @ ms"] by (auto simp: sourced_def list_all_iff)
  ultimately show ?thesis using assms(1) unfolding sourced_def list_all_iff by blast
qed

lemma scan_sourced:
  assumes "applyCryptoScan b58 env i chain g ls C = Inr D" "sourced v ms C"
  shows "sourced v (ms @ ls) D"
proof (rule sourced_advances [OF assms(2) scan_advances [OF assms(1)]])
  fix t assume t: "t \<in> set (cs_transfers D)"
  have keys: "distinct (map transfer_key (cs_transfers C))" and ids: "distinct (map ci_ID (cs_invoices C))"
    and mine: "invoice_data v \<in> invoice_data ` set (cs_invoices C)"
    using assms(2) unfolding sourced_def chain_ok_def transfers_ok_def set_map by blast+
  from scan_backed [OF assms(1) keys t] show "t \<in> set (cs_transfers C) \<or> backed_by v ls t"
  proof
    assume "\<exists>u. row_with ci_ID i (cs_invoices C) = Some u \<and> tr_InvoiceID t = ci_ID u \<and> backed_by u ls t"
    then obtain u where row: "row_with ci_ID i (cs_invoices C) = Some u" and u: "tr_InvoiceID t = ci_ID u" "backed_by u ls t" by blast
    have mem: "u \<in> set (cs_invoices C)" using row_with_Some [OF row] by simp
    show ?thesis
    proof (cases "ci_ID u = ci_ID v")
      case True
      from mine obtain w where w: "w \<in> set (cs_invoices C)" "invoice_data w = invoice_data v" by (elim imageE) simp
      then have "ci_ID w = ci_ID u" using True by (simp add: invoice_data_def)
      then have "u = w" using ids mem w(1) by (simp add: distinct_map inj_on_def)
      then show ?thesis using u(2) w(2) backed_data [of u v] by simp
    qed (use u(1) in \<open>simp add: backed_by_def\<close>)
  qed simp
qed

lemma step_sourced:
  assumes "desk_step S ls T" "sourced v ms (ds_chain S)"
  shows "sourced v (ms @ ls) (ds_chain T)"
  using assms
proof (induction rule: desk_step.induct)
  case (Open env actor inp R S w b T)
  then show ?case using create_advances [OF Open(1)] by (intro sourced_advances [OF Open(2)]) simp_all
next
  case (Scans b58 env i chain g ls S C e)
  show ?case
  proof (cases "applyCryptoScan b58 env i chain g ls (ds_chain S)")
    case (Inl x)
    then have "cs_transfers C = cs_transfers (ds_chain S)"
      using Scans(1) by (auto simp: scan_step_def freezeCryptoChain_def split: if_split_asm)
    with scan_step_advances [OF Scans(1)] show ?thesis by (intro sourced_advances [OF Scans(2)]) simp_all
  next
    case (Inr D)
    with Scans scan_sourced [OF Inr] show ?thesis by (simp add: scan_step_def)
  qed
next
  case (Other T S)
  then show ?case by (intro sourced_advances [OF Other(3)] advances_same) simp_all
qed

lemma run_sourced: "desk_run S ls T \<Longrightarrow> sourced v ms (ds_chain S) \<Longrightarrow> sourced v (ms @ ls) (ds_chain T)"
proof (induction rule: desk_run.induct)
  case (Go S ls T ns U)
  then show ?case using step_sourced [of T ns U v "ms @ ls"] by simp
qed simp

lemma create_sourced:
  assumes "createCryptoInvoice env actor inp R S = Inr (v, True, T)" "chain_ok (ds_chain S)"
  shows "sourced v [] (ds_chain T)"
proof -
  note c = create_advances [OF assms(1)]
  have "tr_InvoiceID t \<noteq> ci_ID v" if "t \<in> set (cs_transfers (ds_chain T))" for t
    using that c assms(2) unfolding chain_ok_def list_all_iff by metis
  then have "backed_by v [] t" if "t \<in> set (cs_transfers (ds_chain T))" for t
    using that by (simp add: backed_by_def)
  then show ?thesis using c assms(2) by (simp add: sourced_def advances_def list_all_iff)
qed

section \<open>The whole way of a payment\<close>

lemma invoice_quoted:
  assumes "createCryptoInvoice env actor inp R S = Inr (v, True, T)"
    and "row_with as_ID (ii_AssetID inp) (fs_Assets (ds_settings R)) = Some a"
  shows "\<exists>ord. raw_order (cs_shop (ds_chain S)) (ii_OrderID inp) = Some ord \<and> 0 < of_Price (o_Offer ord) \<and>
    cryptoQuote (of_Price (o_Offer ord)) a = Inr (ci_ExpectedAtoms v)"
  using assms(1)
proof (rule createE)
  fix p assume p: "plan_invoice env (ii_AssetID inp) R = Inr p" and "open_invoice env actor inp p S = Inr (v, True, T)"
  have a: "ip_asset p = a" using plan_asset [OF p] assms(2) by simp
  from \<open>open_invoice env actor inp p S = Inr (v, True, T)\<close> show ?thesis
  proof (rule openE)
    fix C ord ord1 C1 w
    assume o: "cryptoLockChain (ch_ChainID (ip_chain p)) (ds_chain S) = Inr C" "raw_order (cs_shop C) (ii_OrderID inp) = Some ord"
      "0 < of_Price (o_Offer ord)"
      and switch: "switch_payment env (fs_InvoiceMinutes (ip_settings p)) (ii_AssetID inp) ord (S\<lparr>ds_chain := C\<rparr>) = Inr (ord1, C1)"
      and issue: "issue_invoice env actor inp p ord1 w (S\<lparr>ds_chain := C1\<rparr>) = Inr (v, T)"
    from issue show ?thesis
    proof (rule issueE)
      fix atoms x
      assume "cryptoQuote (of_Price (o_Offer ord1)) (ip_asset p) = Inr atoms"
        "v = new_invoice env actor ord1 (ie_serial env ''GYP'') (ip_asset p) (ip_chain p) (ip_block p) (wa_Address x) atoms"
      then show ?thesis using o cryptoLockChain_Inr [OF o(1)] switch_frame(7) [OF switch] a by (simp add: new_invoice_def)
    qed
  qed
qed

lemma paid_covers:
  assumes create: "createCryptoInvoice env actor inp R S = Inr (v, True, S1)" and ok: "chain_ok (ds_chain S)"
    and run: "desk_run S1 ls S2" and scan: "applyCryptoScan b58 env' (ci_ID v) chain g ms (ds_chain S2) = Inr C"
    and before: "cryptoInvoice (ci_ID v) (ds_chain S2) = Inr w" "ci_State w \<noteq> ''paid''"
    and after: "cryptoInvoice (ci_ID v) C = Inr w'" "ci_State w' = ''paid''"
    and asset: "row_with as_ID (ii_AssetID inp) (fs_Assets (ds_settings R)) = Some a" "rate_parts (as_CNYPerToken a) = Some (whole, frac)"
  shows "\<exists>ord. raw_order (cs_shop (ds_chain S)) (ii_OrderID inp) = Some ord \<and> 0 < of_Price (o_Offer ord) \<and>
    distinct (map transfer_key (cs_transfers C)) \<and> list_all (\<lambda>t. backing v t \<longrightarrow> list_ex (\<lambda>l. pays_to v l t) (ls @ ms)) (cs_transfers C) \<and>
    nat (of_Price (o_Offer ord)) * 10 ^ nat (as_Decimals a) * 10 ^ length frac
      \<le> sum_list (map (\<lambda>t. digits_value (tr_Atoms t)) (filter (backing v) (cs_transfers C))) * digits_value (whole @ frac) * 100"
proof -
  have s2: "sourced v ls (ds_chain S2)" using run_sourced [OF run create_sourced [OF create ok]] by simp
  then have ok2: "chain_ok (ds_chain S2)" and data: "invoice_data v \<in> set (map invoice_data (cs_invoices (ds_chain S2)))"
    by (simp_all add: sourced_def)
  have "invoice_data v \<in> invoice_data ` set (cs_invoices (ds_chain S2))" using data by simp
  then obtain u where u: "u \<in> set (cs_invoices (ds_chain S2))" "invoice_data u = invoice_data v" by (elim imageE) simp
  have w: "w \<in> set (cs_invoices (ds_chain S2))" "ci_ID w = ci_ID v"
    using row_with_Some [OF before(1) [unfolded cryptoInvoice_Inr]] by simp_all
  have "u = w"
    using ok2 u w by (metis chain_ok_def transfers_ok_def distinct_map inj_onD invoice_data_def prod.inject)
  with u(2) have data: "invoice_data w = invoice_data v" by simp
  then have expected: "ci_ExpectedAtoms w = ci_ExpectedAtoms v" and backing: "backing w = backing v"
    by (simp_all add: invoice_data_def backing_def fun_eq_iff)
  obtain n where n: "cryptoAtoms (ci_ExpectedAtoms v) = Inr n"
    "n \<le> sum_list (map (\<lambda>t. digits_value (tr_Atoms t)) (filter (backing v) (cs_transfers C)))" "distinct (map transfer_key (cs_transfers C))"
    using scan_pays [OF scan _ before after] ok2 by (auto simp: chain_ok_def expected backing)
  have logs: "list_all (\<lambda>t. backing v t \<longrightarrow> list_ex (\<lambda>l. pays_to v l t) (ls @ ms)) (cs_transfers C)"
    using scan_sourced [OF scan s2] by (auto simp: sourced_def list_all_iff backed_by_def backing_def)
  obtain ord where ord: "raw_order (cs_shop (ds_chain S)) (ii_OrderID inp) = Some ord" "0 < of_Price (o_Offer ord)"
    "cryptoQuote (of_Price (o_Offer ord)) a = Inr (ci_ExpectedAtoms v)"
    using invoice_quoted [OF create asset(1)] by blast
  have "nat (of_Price (o_Offer ord)) * 10 ^ nat (as_Decimals a) * 10 ^ length frac \<le> n * digits_value (whole @ frac) * 100"
    using quote_covers_price [OF ord(3) asset(2)] n(1) by auto
  also have "\<dots> \<le> sum_list (map (\<lambda>t. digits_value (tr_Atoms t)) (filter (backing v) (cs_transfers C))) * digits_value (whole @ frac) * 100"
    using n(2) by simp
  finally show ?thesis using ord(1,2) n(3) logs by blast
qed

end
