(* ===== verification/Invoice_Samples.thy ===== *)
theory Invoice_Samples
  imports Invoice_Safety Chain_Samples
begin

text \<open>
  An order for which an invoice is created and paid by one transfer: the input on which the properties of invoices are
  evaluated.
\<close>

section \<open>The creation\<close>

definition pay_surroundings :: invoice_env where
  "pay_surroundings = \<lparr>ie_now = 2100, ie_serial = (\<lambda>kind. kind @ ''-9''), ie_digest = (\<lambda>inp. ii_OrderID inp @ ii_AssetID inp),
     ie_head = (\<lambda>_. Inr (10, 2090)), ie_token = (\<lambda>_ _. Inr ()), ie_derive = (\<lambda>_ _. Inr ''0xAb''),
     ie_solana = (\<lambda>_ _. Inl (Scan ''no secret'')), ie_seal = (\<lambda>_. Inr ())\<rparr>"

definition pay_input :: cryptoInvoiceInput where
  "pay_input = \<lparr>ii_OrderID = ''GYO-2000'', ii_AssetID = ''bsc-usdt'', ii_OperationID = ''operation-confirm-1''\<rparr>"

definition pay_chain :: PaymentChain where
  "pay_chain = \<lparr>ch_ID = ''bsc'', ch_ChainID = 56, ch_NativeSymbol = ''BNB'', ch_FinalityVerified = True, ch_Enabled = True,
     ch_RPCURL = ''https://a'', ch_RPCBackupURL = ''https://b''\<rparr>"

definition pay_wallet :: ReceiveWallet where
  "pay_wallet = \<lparr>cw_ID = ''GYW-1'', cw_Mode = ''watch'', cw_XPub = ''xpub'', cw_Path = ''m/44'', cw_RecoveryRequired = False,
     cw_BackupConfirmed = False, cw_SupportedChainIDs = [1, 56], cw_Enabled = True, cw_NextIndex = 0\<rparr>"

definition pay_settings :: PaymentSettings where
  "pay_settings = \<lparr>fs_Revision = 1, fs_Enabled = True, fs_WalletID = ''GYW-1'', fs_InvoiceMinutes = 30, fs_Chains = [pay_chain],
     fs_Assets = [chain_asset]\<rparr>"

definition pay_order :: Order where
  "pay_order = sample_order sample_offer"

definition pay_desk :: InvoiceDesk where
  "pay_desk = \<lparr>ds_chain = \<lparr>cs_shop = empty_shop\<lparr>sh_orders := [order_row pay_order]\<rparr>, cs_invoices = [], cs_chains = [], cs_transfers = [],
     cs_observations = [], cs_frozen = []\<rparr>, ds_columns = [], ds_wallets = [pay_wallet], ds_addresses = [], ds_settings = pay_settings,
     ds_attemptKeys = []\<rparr>"

definition pay_placed :: Order where
  "pay_placed = pay_order\<lparr>o_Expires := 3900, o_PaymentAttemptID := ''GYP-9'', o_PaymentProviderID := ''crypto'',
     o_Message := ''waiting for payment on chain'', o_Updated := 2100\<rparr>"

definition pay_attempt :: PaymentAttempt where
  "pay_attempt = crypto_attempt pay_surroundings 7 (pay_order\<lparr>o_Expires := 3900\<rparr>)"

definition pay_invoice_row :: CryptoInvoice where
  "pay_invoice_row = \<lparr>ci_ID = ''GYI-9'', ci_OrderID = ''GYO-2000'', ci_UserID = 7, ci_AttemptID = ''GYP-9'', ci_ChainID = 56,
     ci_Address = ''0xAb'', ci_Contract = ''0xtoken'', ci_ExpectedAtoms = nat_string 2000000, ci_State = ''waiting'', ci_Created = 2100,
     ci_Expires = 3900, ci_NextBlock = 10, ci_FinalizedBlock = 0\<rparr>"

definition pay_address :: CryptoWalletAddress where
  "pay_address = \<lparr>wa_ID = ''GYA-9'', wa_WalletID = ''GYW-1'', wa_Index = 0, wa_Path = cryptoFullPath ''m/44'' 0, wa_Address = ''0xAb''\<rparr>"

definition pay_columns :: InvoiceColumns where
  "pay_columns = \<lparr>ik_ID = ''GYI-9'', ik_OperationID = ''operation-confirm-1'', ik_Fingerprint = ''GYO-2000bsc-usdt'', ik_WalletID = ''GYW-1'',
     ik_AddressID = ''GYA-9'', ik_AssetID = ''bsc-usdt'', ik_StartBlock = 10\<rparr>"

definition pay_shop :: Shop where
  "pay_shop = empty_shop\<lparr>sh_orders := [\<lparr>or_id = ''GYO-2000'', or_user = 7, or_state = Pending, or_created = 2000, or_updated = 2100,
     or_expires = 3900, or_doc = pay_placed\<rparr>], sh_attempts := [pay_attempt]\<rparr>"

definition pay_opened :: InvoiceDesk where
  "pay_opened = \<lparr>ds_chain = \<lparr>cs_shop = pay_shop, cs_invoices = [pay_invoice_row], cs_chains = [], cs_transfers = [],
     cs_observations = [], cs_frozen = [(56, False)]\<rparr>, ds_columns = [pay_columns], ds_wallets = [pay_wallet\<lparr>cw_NextIndex := 1\<rparr>],
     ds_addresses = [pay_address], ds_settings = pay_settings, ds_attemptKeys = [''operation-confirm-1'']\<rparr>"

lemma pay_quote: "cryptoQuote 1500 chain_asset = Inr (nat_string 2000000)"
proof -
  have "decimal_ratio ''7'' ''5'' = (15, 2)" by code_simp
  then show ?thesis
    using chain_asset_rate by (simp add: cryptoQuote_def chain_asset_def moneyLimit_def Let_def)
qed

lemma pay_order_facts:
  "o_ID pay_order = ''GYO-2000''" "o_UserID pay_order = 7" "o_State pay_order = Pending" "o_PaymentAttemptID pay_order = []"
  "of_Price (o_Offer pay_order) = 1500" "2100 < o_Expires pay_order" "o_Created pay_order = 2000"
  by (simp_all add: pay_order_def sample_order_def new_order_def sample_data)

lemmas pay_defs = pay_surroundings_def pay_input_def pay_chain_def pay_wallet_def pay_settings_def pay_desk_def

lemma pay_planned:
  "plan_invoice pay_surroundings ''bsc-usdt'' pay_desk = Inr \<lparr>ip_settings = pay_settings, ip_asset = chain_asset, ip_chain = pay_chain, ip_block = 10\<rparr>"
  by (simp add: plan_invoice_def Let_def pay_defs row_with_def chain_asset_def cryptoChainReason_def cryptoChainAutomatic_def)

definition pay_locked :: CryptoStore where
  "pay_locked = (ds_chain pay_desk)\<lparr>cs_frozen := [(56, False)]\<rparr>"

lemma pay_issued:
  "issue_invoice pay_surroundings 7 pay_input \<lparr>ip_settings = pay_settings, ip_asset = chain_asset, ip_chain = pay_chain, ip_block = 10\<rparr>
     (pay_order\<lparr>o_Expires := 3900\<rparr>) pay_wallet (pay_desk\<lparr>ds_chain := pay_locked\<rparr>) = Inr (pay_invoice_row, pay_opened)"
proof -
  have path: "\<not> cryptoIsSolanaPath (cryptoFullPath ''m/44'' 0)" "cryptoFullPath ''m/44'' 0 = ''m/44/0''" by code_simp+
  have address: "allocate_address pay_surroundings pay_wallet False (pay_desk\<lparr>ds_chain := pay_locked\<rparr>)
      = Inr (pay_address, pay_desk\<lparr>ds_chain := pay_locked, ds_addresses := [pay_address], ds_wallets := [pay_wallet\<lparr>cw_NextIndex := 1\<rparr>]\<rparr>)"
    using path by (simp add: allocate_address_def cryptoWalletDerive_def pay_defs Let_def pay_address_def set_where_def)
  have placed: "point_order pay_surroundings (pay_order\<lparr>o_Expires := 3900\<rparr>) ''GYP-9''
      (empty_shop\<lparr>sh_orders := [order_row pay_order], sh_attempts := [pay_attempt]\<rparr>) = Inr pay_shop"
    by (simp add: point_order_def saveOrder_def Let_def affected_def set_where_def order_row_def pay_order_facts pay_shop_def pay_placed_def
        pay_surroundings_def)
  have new: "new_invoice pay_surroundings 7 (pay_order\<lparr>o_Expires := 3900\<rparr>) ''GYP-9'' chain_asset pay_chain 10 ''0xAb'' (nat_string 2000000) = pay_invoice_row"
    by (simp add: new_invoice_def pay_invoice_row_def pay_surroundings_def pay_chain_def pay_order_facts chain_asset_def)
  have fields: "pa_ID pay_attempt = ''GYP-9''" "wa_Address pay_address = ''0xAb''" "wa_ID pay_address = ''GYA-9''" "ci_ID pay_invoice_row = ''GYI-9''"
    by (simp_all add: pay_attempt_def crypto_attempt_def pay_surroundings_def pay_address_def pay_invoice_row_def)
  have start: "cs_shop pay_locked = empty_shop\<lparr>sh_orders := [order_row pay_order]\<rparr>" "cs_invoices pay_locked = []"
    "sh_attempts empty_shop = []" by (simp_all add: pay_locked_def pay_desk_def empty_shop_def)
  have columns: "\<lparr>ik_ID = ''GYI-9'', ik_OperationID = ii_OperationID pay_input, ik_Fingerprint = ie_digest pay_surroundings pay_input, ik_WalletID = cw_ID pay_wallet,
      ik_AddressID = ''GYA-9'', ik_AssetID = as_ID chain_asset, ik_StartBlock = 10\<rparr> = pay_columns"
    by (simp add: pay_columns_def pay_defs chain_asset_def)
  have chain: "(ch_ChainID pay_chain = cryptoSolanaChainID) = False" by (simp add: pay_chain_def cryptoSolanaChainID_def)
  show ?thesis
    by (simp add: issue_invoice_def pay_order_facts pay_quote chain address pay_attempt_def [symmetric] fields new columns commerce_res_def
        insert_attempt_def insert_invoice_def Let_def start placed)
      (simp add: pay_opened_def pay_desk_def pay_locked_def pay_input_def)
qed

lemma pay_created: "createCryptoInvoice pay_surroundings 7 pay_input pay_desk pay_desk = Inr (pay_invoice_row, True, pay_opened)"
proof -
  have lock: "cryptoLockChain 56 (ds_chain pay_desk) = Inr pay_locked"
    by (simp add: cryptoLockChain_def pay_locked_def pay_desk_def)
  have rows: "cs_shop (ds_chain pay_desk) = empty_shop\<lparr>sh_orders := [order_row pay_order]\<rparr>" "cs_invoices pay_locked = []"
    "cs_shop pay_locked = empty_shop\<lparr>sh_orders := [order_row pay_order]\<rparr>" by (simp_all add: pay_desk_def pay_locked_def)
  have replay: "cryptoInvoiceReplay pay_surroundings 7 pay_input (pay_desk\<lparr>ds_chain := C\<rparr>) = Inr None"
    "cryptoInvoiceReplay pay_surroundings 7 pay_input pay_desk = Inr None" for C
    by (simp_all add: cryptoInvoiceReplay_def pay_desk_def row_with_def)
  have payable: "payable pay_surroundings 7 ''GYO-2000'' pay_desk"
    by (simp add: payable_def rows find_order_def row_with_def order_row_def pay_order_facts normalize_state_def pay_surroundings_def)
  have fits: "order_open 7 ''GYO-2000'' pay_locked" "raw_order (cs_shop pay_locked) ''GYO-2000'' = Some pay_order"
    by (simp_all add: order_open_def affected_def rows raw_order_def row_with_def order_row_def pay_order_facts)
  have switch: "switch_payment pay_surroundings 30 a pay_order S = Inr (pay_order\<lparr>o_Expires := 3900\<rparr>, ds_chain S)" for a S
    by (simp add: switch_payment_def Let_def pay_order_facts pay_surroundings_def)
  have wallet: "cryptoWalletReady pay_wallet = Inr ()" "row_with cw_ID ''GYW-1'' (ds_wallets pay_desk) = Some pay_wallet"
    "cryptoWalletSupports (CryptoWallet.truncate pay_wallet) 56"
    by (simp_all add: cryptoWalletReady_def cryptoMaxIndex_def pay_wallet_def pay_desk_def row_with_def cryptoWalletSupports_def
        CryptoWallet.truncate_def)
  have other: "ii_OrderID pay_input = ''GYO-2000''" "ii_AssetID pay_input = ''bsc-usdt''" "valid_operation (ii_OperationID pay_input)"
    "ch_ChainID pay_chain = 56" "as_RateExpiresAt chain_asset = 9000" "ie_now pay_surroundings = 2100" "ds_settings pay_desk = pay_settings"
    "fs_InvoiceMinutes pay_settings = 30" "fs_WalletID pay_settings = ''GYW-1''"
    using sample_operations by (simp_all add: pay_input_def pay_chain_def chain_asset_def pay_surroundings_def pay_desk_def pay_settings_def)
  have "open_invoice pay_surroundings 7 pay_input \<lparr>ip_settings = pay_settings, ip_asset = chain_asset, ip_chain = pay_chain, ip_block = 10\<rparr> pay_desk
      = Inr (pay_invoice_row, True, pay_opened)"
    using pay_order_facts(5,6) by (simp add: open_invoice_def Let_def other lock replay fits(1) fits(2) [unfolded rows] rows switch wallet pay_issued)
  then show ?thesis by (simp add: createCryptoInvoice_def other replay payable pay_planned)
qed

section \<open>The payment\<close>

text \<open>The scanner adds its cursor; a transfer of the expected amount is found.\<close>

definition pay_cursor :: InvoiceDesk where
  "pay_cursor = pay_opened\<lparr>ds_chain := (ds_chain pay_opened)
     \<lparr>cs_chains := [\<lparr>ic_InvoiceID = ''GYI-9'', ic_ChainID = 56, ic_NextBlock = 10, ic_FinalizedHash = []\<rparr>]\<rparr>\<rparr>"

lemma pay_run: "desk_run pay_opened [] pay_cursor"
  using Go [OF Stay Other, of pay_cursor pay_opened] by (simp add: pay_cursor_def)

definition pay_log :: Scanned where
  "pay_log = chain_log\<lparr>sc_Data := ''0x1e8480'', sc_Timestamp := 2500\<rparr>"

definition pay_transfer :: CryptoTransfer where
  "pay_transfer = chain_transfer\<lparr>tr_InvoiceID := ''GYI-9'', tr_Atoms := nat_string 2000000, tr_BlockTime := 2500\<rparr>"

definition pay_moved :: CryptoStore where
  "pay_moved = (ds_chain pay_cursor)\<lparr>cs_invoices := [pay_invoice_row\<lparr>ci_NextBlock := 21, ci_FinalizedBlock := 20\<rparr>],
     cs_chains := [\<lparr>ic_InvoiceID = ''GYI-9'', ic_ChainID = 56, ic_NextBlock = 21, ic_FinalizedHash = ''h20''\<rparr>],
     cs_transfers := [pay_transfer]\<rparr>"

definition pay_settled :: CryptoStore where
  "pay_settled = pay_moved\<lparr>cs_invoices := [pay_invoice_row\<lparr>ci_NextBlock := 21, ci_FinalizedBlock := 20, ci_State := ''paid''\<rparr>],
     cs_shop := pay_shop\<lparr>sh_receipts := [crypto_receipt chain_env pay_invoice_row pay_attempt 2500],
       sh_attempts := [pay_attempt\<lparr>pa_State := ''paid'', pa_ExternalRef := ''invoice:GYI-9'', pa_Updated := 3000,
         pa_Message := ''payment finalized on chain''\<rparr>]\<rparr>\<rparr>"

lemma pay_atoms: "cryptoHexInt ''0x1e8480'' = Inr 2000000" "cryptoAtoms (nat_string 2000000) = Inr 2000000"
proof -
  have h: "hex_value 0 ''1e8480'' = Some 2000000" by (simp add: hex_digit_def Let_def)
  show "cryptoHexInt ''0x1e8480'' = Inr 2000000" by (simp add: cryptoHexInt_def h del: hex_value.simps)
  show "cryptoAtoms (nat_string 2000000) = Inr 2000000" by (rule cryptoAtoms_text) simp
qed

lemma pay_row_fields:
  "ci_ID pay_invoice_row = ''GYI-9''" "ci_AttemptID pay_invoice_row = ''GYP-9''" "ci_OrderID pay_invoice_row = ''GYO-2000''"
  "ci_State pay_invoice_row = ''waiting''" "ci_ExpectedAtoms pay_invoice_row = nat_string 2000000" "ci_ChainID pay_invoice_row = 56"
  "ci_Contract pay_invoice_row = ''0xtoken''" "ci_Expires pay_invoice_row = 3900" "ci_Created pay_invoice_row = 2100"
  "ci_Address pay_invoice_row = ''0xAb''"
  by (simp_all add: pay_invoice_row_def)

lemma pay_applied: "apply_transfer b58 pay_invoice_row 56 pay_log (ds_chain pay_cursor) = Inr ((ds_chain pay_cursor)\<lparr>cs_transfers := [pay_transfer]\<rparr>)"
proof -
  have atoms: "commerce_res (cryptoHexInt (sc_Data pay_log)) = Inr 2000000"
    by (simp add: pay_log_def pay_atoms commerce_res_def)
  have ok: "identity_ok b58 pay_invoice_row 56 pay_log"
    by (simp add: identity_ok_def pay_row_fields pay_log_def chain_log_def cryptoSolanaChainID_def)
  have state: "transfer_state pay_invoice_row 56 pay_log = (''confirmed'', [])"
    by (simp add: transfer_state_def pay_row_fields pay_log_def chain_log_def)
  have row: "transfer_row pay_invoice_row 56 pay_log 2000000 = Inr pay_transfer"
    unfolding transfer_row_def state
    by (simp add: pay_row_fields pay_log_def chain_log_def cryptoSolanaChainID_def pay_transfer_def chain_transfer_def)
  have none: "cs_transfers (ds_chain pay_cursor) = []" "cs_observations (ds_chain pay_cursor) = []"
    by (simp_all add: pay_cursor_def pay_opened_def)
  have final: "sc_Final pay_log" by (simp add: pay_log_def chain_log_def)
  have same: "(ds_chain pay_cursor)\<lparr>cs_observations := []\<rparr> = ds_chain pay_cursor" by (simp add: pay_cursor_def pay_opened_def)
  show ?thesis
    by (simp add: apply_transfer_def atoms ok row put_transfer_def none final same)
qed

lemma pay_settles: "settleCryptoInvoice chain_env pay_invoice_row False pay_moved = Inr pay_settled"
proof -
  note row = pay_row_fields
  have transfers: "cs_transfers pay_moved = [pay_transfer]" "cs_observations pay_moved = []" "cs_shop pay_moved = pay_shop"
    by (simp_all add: pay_moved_def pay_cursor_def pay_opened_def)
  have fields: "tr_InvoiceID pay_transfer = ''GYI-9''" "tr_ChainID pay_transfer = 56" "tr_Contract pay_transfer = ''0xtoken''"
    "tr_Atoms pay_transfer = nat_string 2000000" "tr_BlockTime pay_transfer = 2500" "tr_State pay_transfer = ''confirmed''"
    by (simp_all add: pay_transfer_def chain_transfer_def)
  have amounts: "cryptoInvoiceAmounts pay_invoice_row pay_moved = Inr \<lparr>am_Received = 2000000, am_Confirmed = 2000000, am_Remaining = 0, am_Overpaid = 0\<rparr>"
    by (simp add: cryptoInvoiceAmounts_def amount_rows_def add_amount_def transfers fields row pay_atoms)
  have due: "raw_order pay_shop ''GYO-2000'' = Some pay_placed" "o_State pay_placed = Pending" "o_PaymentAttemptID pay_placed = ''GYP-9''"
    "row_with pa_ID ''GYP-9'' (sh_attempts pay_shop) = Some pay_attempt" "pa_State pay_attempt = ''awaiting_customer''" "pa_ID pay_attempt = ''GYP-9''"
    by (simp_all add: raw_order_def row_with_def pay_shop_def pay_placed_def pay_order_facts pay_attempt_def crypto_attempt_def pay_surroundings_def)
  have shop: "sh_attempts pay_shop = [pay_attempt]" "sh_receipts pay_shop = []"
    and invoices: "cs_invoices pay_moved = [pay_invoice_row\<lparr>ci_NextBlock := 21, ci_FinalizedBlock := 20\<rparr>]"
    by (simp_all add: pay_shop_def empty_shop_def pay_moved_def)
  have times: "paid_times pay_invoice_row pay_moved = [2500]"
    by (simp add: paid_times_def transfers fields row)
  have pay: "pay_invoice chain_env pay_invoice_row pay_attempt pay_moved = Inr pay_settled"
    by (simp add: pay_invoice_def Let_def transfers row times due shop set_invoice_def set_where_def crypto_receipt_def chain_env_def)
      (simp add: pay_settled_def crypto_receipt_def chain_env_def row due set_where_def invoices)
  have reviews: "reviews pay_invoice_row pay_settled = 0"
    by (simp add: reviews_def pay_settled_def pay_moved_def fields)
  show ?thesis
    unfolding settleCryptoInvoice_def
    by (simp add: amounts row transfers due pay_atoms commerce_res_def pay reviews Let_def open_state_def)
qed

lemma pay_scanned: "applyCryptoScan b58 chain_env ''GYI-9'' 56 chain_range [pay_log] (ds_chain pay_cursor) = Inr pay_settled"
proof -
  have "cryptoLockChain 56 (ds_chain pay_cursor) = Inr (ds_chain pay_cursor)"
    by (simp add: cryptoLockChain_def pay_cursor_def pay_opened_def)
  moreover have "cryptoInvoice ''GYI-9'' (ds_chain pay_cursor) = Inr pay_invoice_row"
    by (simp add: cryptoInvoice_def pay_cursor_def pay_opened_def row_with_def pay_invoice_row_def)
  moreover have "find (chain_row ''GYI-9'' 56) (cs_chains (ds_chain pay_cursor))
      = Some \<lparr>ic_InvoiceID = ''GYI-9'', ic_ChainID = 56, ic_NextBlock = 10, ic_FinalizedHash = []\<rparr>"
    by (simp add: pay_cursor_def chain_row_def)
  moreover have "drop_observations i 56 chain_range (ds_chain pay_cursor) = ds_chain pay_cursor" for i
    by (simp add: drop_observations_def pay_cursor_def pay_opened_def)
  moreover have "move_cursor pay_invoice_row 56 chain_range ((ds_chain pay_cursor)\<lparr>cs_transfers := [pay_transfer]\<rparr>) = pay_moved"
    by (simp add: move_cursor_def pay_invoice_row_def pay_cursor_def pay_opened_def pay_moved_def chain_range_def set_where_def chain_row_def
        set_invoice_def Let_def)
  moreover have "sr_from chain_range = 10" "\<not> sr_finalTime chain_range > ci_Expires pay_invoice_row"
    by (simp_all add: chain_range_def pay_invoice_row_def)
  ultimately show ?thesis
    using pay_settles by (simp add: applyCryptoScan_def apply_range_def pay_applied)
qed

lemma pay_facts:
  "shop_ok (cs_shop (ds_chain pay_desk))" "chain_ok (ds_chain pay_desk)"
  "cryptoInvoice ''GYI-9'' (ds_chain pay_cursor) = Inr pay_invoice_row" "ci_ID pay_invoice_row = ''GYI-9''" "ci_State pay_invoice_row \<noteq> ''paid''"
  "cryptoInvoice ''GYI-9'' pay_settled = Inr (pay_invoice_row\<lparr>ci_NextBlock := 21, ci_FinalizedBlock := 20, ci_State := ''paid''\<rparr>)"
  "row_with as_ID (ii_AssetID pay_input) (fs_Assets (ds_settings pay_desk)) = Some chain_asset"
proof -
  have "7 \<in> u_ID ` set (sh_users empty_shop)" "sh_orders empty_shop = []" "price_ok 1500"
    by (simp_all add: sample_data price_ok_def moneyLimit_def)
  with empty_shop_ok(1) show "shop_ok (cs_shop (ds_chain pay_desk))"
    by (simp add: pay_desk_def shop_ok_def user_ids_def row_ok_def order_row_def pay_order_facts hold_sum_def row_hold_def one_active_def)
qed (simp_all add: chain_ok_def transfers_ok_def pay_desk_def cryptoInvoice_def row_with_def pay_cursor_def pay_opened_def pay_invoice_row_def
    pay_settled_def pay_input_def pay_settings_def chain_asset_def)

lemma pay_ordered: "raw_order (cs_shop (ds_chain pay_desk)) (ii_OrderID pay_input) = Some pay_order"
  by (simp add: raw_order_def row_with_def pay_desk_def pay_input_def order_row_def pay_order_facts)

end
