(* ===== verification/Spec2Isabelle.thy ===== *)
theory Spec2Isabelle
  imports Samples Money_Samples Refund_Amount Subsite_Samples Edge_Samples Chain_Samples Sweep_Samples Invoice_Samples
begin

text \<open>
  Guangyue Panel (\<open>src/backend\<close>, Go): the controller of a proxy service that sells plans. The
  packages modelled are \<open>internal/domain\<close>, the commercial and accounting core of
  \<open>internal/controlplane\<close>, the task queue \<open>internal/jobs\<close> and the TLS entry \<open>internal/ingressgateway\<close>. File names below are relative to \<open>backend/internal/controlplane\<close> unless they
  start with \<open>domain/\<close>, \<open>jobs/\<close> or \<open>ingressgateway/\<close>.

  \<^bold>\<open>How the program works.\<close> A user buys an offer: \<open>createOrder\<close> makes a pending order, \<open>orderAction\<close>
  confirms it (money moves from available to held) or cancels it, the worker \<open>commerceWork\<close> carries
  confirmed orders out, settling old connections first, and writes the new plan into the account and
  into the subsites. Money moves only through \<open>postMoney\<close>, a double-entry ledger. A payment provider
  pays orders and top-ups by callbacks (\<open>recordPaymentEvent\<close>, then \<open>reconcilePaymentReceipt\<close>); what
  cannot be applied is refunded (\<open>paymentRefundAction\<close>, \<open>paymentRefundWork\<close>). An account carries one
  active plan and a stack of paused ones; its traffic is metered with a rate per node, and its quota is
  shared between the local core and the subsites by issued grants.

  \<^bold>\<open>Which theory models what.\<close>
  \<^item> \<open>Prelude\<close>: \<open>int64\<close> (words and written-out wrap-around), results (\<open>bind_res\<close>), tables as lists.
  \<^item> \<open>Calendar\<close>: the calendar part of Go's \<open>time\<close> that billing periods use.
  \<^item> \<open>Metering\<close>: \<open>domain/account.go\<close>, \<open>domain/entitlement.go\<close>: records, weighted traffic, counters, periods.
  \<^item> \<open>Plans\<close>: \<open>node_policy.go\<close>, \<open>fixed_node_groups.go\<close>, \<open>entitlement_store.go\<close>, \<open>plan_live_update.go\<close>.
  \<^item> \<open>Ledger\<close>: \<open>postMoney\<close> and the ledger part of \<open>validateCommerce\<close>; the locale of its contract.
  \<^item> \<open>Sites\<close>: \<open>business_types.go\<close>, \<open>business_quota.go\<close>, the snapshot of \<open>business_policy.go\<close>,
    \<open>purchaseSiteBudgets\<close>.
  \<^item> \<open>Shop\<close>: the tables and rows of orders, offers, payments; \<open>Checkout\<close>: \<open>commerce_orders.go\<close>,
    \<open>commerce_order_actions.go\<close>; \<open>Fulfilment\<close>: \<open>commerce_fulfilment.go\<close>.
  \<^item> \<open>Payment_Codec\<close>: \<open>payment_core.go\<close>; \<open>Payments\<close>: \<open>payment_receipts.go\<close>, \<open>payment_refunds.go\<close>.
  \<^item> \<open>Shop_Safety\<close>, \<open>Payment_Safety\<close>: what every handler keeps; \<open>Shop_Steps\<close>: the state machine
    of all handlers and workers, its invariant and its growth; \<open>Refund_Amount\<close>: bounds of refunds and their wrap;
    \<open>Posting_Outcome\<close>: the outcome of one posting, written out; \<open>Free_Orders\<close>: the confirmation of a free order;
    \<open>Refund_Rounds\<close>: a partial refund over any number of rounds of its worker;
    \<open>Samples\<close>, \<open>Money_Samples\<close>: the concrete panel the witnesses evaluate.

  \<^item> \<open>Node_Meter\<close>: \<open>usage_meter.go\<close>, \<open>business_usage_ack.go\<close>; \<open>Usage_Report\<close>: \<open>business_meter.go\<close> and
    \<open>acceptBusinessUsage\<close>; \<open>Usage_Sync\<close>: the agreement of subsite and controller; \<open>Subsite_Accounts\<close>: how a subsite
    takes over the accounts of a snapshot (\<open>business_agent.go\<close>); \<open>Subsite_Protocol\<close>: both sides as a state
    machine with lost replies; \<open>Report_Safety\<close>: what one report may change; \<open>Late_Traffic\<close>: what an accepted report must
    add up to, and why a period taken over with late fractions is refused; \<open>Subsite_Samples\<close>: a concrete subsite.
  \<^item> \<open>Quota_Cycles\<close>: the sweep of \<open>entitlement_cycles.go\<close> over ended plans and quota periods, a step of the
    state machine of \<open>Shop_Steps\<close>; \<open>Cycle_Safety\<close>: what it keeps of the shop; \<open>Period_Renewal\<close>: all it can do to an account whose plan
    still runs.
  \<^item> \<open>Crypto_Scan\<close>: quotes (\<open>crypto_payments.go\<close>), amounts (\<open>crypto_evm.go\<close>, \<open>crypto_invoices.go\<close>), scans and
    settlement (\<open>crypto_scanner.go\<close>); \<open>Crypto_Safety\<close>: exactness of quotes, the transfers behind a payment;
    \<open>Transfer_Origin\<close>: the scanned log behind a confirmed transfer, with its receiver, token and time;
    \<open>Chain_Samples\<close>: concrete inputs of both and of the quota sweep.
  \<^item> \<open>Crypto_Invoices\<close>: the creation of an invoice and its presentation (\<open>crypto_invoices.go\<close>), with the checks of the
    wallet and the next address (\<open>crypto_wallet.go\<close>, \<open>crypto_solana_wallet.go\<close>); \<open>createCryptoInvoice\<close> takes the store the
    handler read before it asked the network and the one of its transaction. \<open>Invoice_Safety\<close>: what a creation leaves, and
    payments over time (\<open>desk_step\<close>: a creation, a scan with its logs, or anything that leaves invoices and transfers
    alone; \<open>desk_run\<close> collects the logs);
    \<open>Invoice_Samples\<close>: an invoice that is created and paid.
  \<^item> \<open>Sweep_Chain\<close>: the answers of chain servers (\<open>crypto_evm.go\<close>), fees (\<open>crypto_collection_fees.go\<close>) and signing
    (\<open>crypto_signing.go\<close>); \<open>Sweep_Plan\<close>: the preview of a sweep (\<open>crypto_sweep.go\<close>, \<open>crypto_auto_gas.go\<close>);
    \<open>Sweep_Store\<close>: the tables and the startup check (\<open>crypto_sweep_integrity.go\<close>); \<open>Sweep_Worker\<close>: jobs, leases, staging
    and following transactions (\<open>crypto_sweep_worker.go\<close>), retry and cancellation. \<open>Sweep_Facts\<close>: what the pure functions
    guarantee; \<open>Sweep_Steps\<close>: the state machine (Create, Claim, Work, Finish, Cancel, Retry, Freeze, Tables) and its
    invariant; \<open>Sweep_Safety\<close>: budgets, completion, leases; \<open>Sweep_Samples\<close>: one sweep from preview to completion.
  \<^item> \<open>Client_Hello\<close>: \<open>ingressgateway/clienthello.go\<close>, the domain rules of \<open>ingressgateway/config.go\<close> and the
    dispatch of \<open>ingressgateway/server.go\<close>; \<open>Hello_Roundtrip\<close>: an encoder of ClientHello messages and the round trip.
  \<^item> \<open>Job_Queue\<close>: the rows and operations of \<open>jobs/manager.go\<close>; \<open>Job_Runner\<close>: the interfaces of its statements
    (locales \<open>row_update\<close> and \<open>table_update\<close>) and its interleavings; \<open>Job_Safety\<close>: their invariant;
    \<open>Edge_Samples\<close>: concrete inputs of both.

  \<^bold>\<open>State and results.\<close> A SQL table is the list of its rows, a statement a function on it with its
  affected-row count where the code reads it; a violated constraint is an error. A transaction
  that fails returns \<open>Inl\<close> and the caller keeps its store; a function that commits part of its work
  returns the store and the error. Error texts are rendered in English; nothing depends on them.
  Sealed JSON documents are the values they seal.

  \<^bold>\<open>Integers.\<close> \<open>WeightedBytes64\<close> and \<open>AddCounter64\<close> are on \<open>64 word\<close> and proved equal to integer
  functions; amounts the code bounds are \<open>int\<close>; products it does not bound (\<open>refundableOrderAmount\<close>) are
  wrapped explicitly.

  \<^bold>\<open>Parameters.\<close> The clock and serial numbers, the time zone database, MD5, SHA-256 fingerprints and
  password checks, the settling of old connections (proxy processes), Stripe's answers, base58, the transfers a chain scan
  reads. What the proofs assume of them is a named hypothesis (\<open>settles_quietly\<close> and \<open>cycle_quiet\<close>: settling writes no
  shop table; \<open>whole_refunded\<close>: Stripe answers a refund with the intent and the amount it was asked for). For sweeps: the two chain servers (\<open>chain_client\<close>, a new one for
  every observation), the keys and the transaction codec (\<open>vault_ok\<close>: what was signed is what is decoded, the funding
  address is not empty), and the sealing of quotes: the event Create assumes that a quote that opens was sealed by a preview.

  \<^bold>\<open>What the lemmas show.\<close> Ledger: a posting is complete or refused and keeps the startup check. Shop: the
  invariant \<open>shop_ok\<close> of every handler, hence of every reachable store; receipts are unique per provider
  transaction, refunds per receipt, and the books only grow. Metering: the machine arithmetic never
  overflows and a stream of deltas is charged as its sum. Plans: pausing and restoring returns the plan, and
  access needs an enabled group. Sites: what all sites and the core can spend stays within the quota.
  Subsites: a report of a subsite that follows the protocol is never refused, whatever replies are lost, as long as new periods
  wait for the traffic of the account; if one does not and a fraction of a byte is late, every later report is refused. An
  accepted report claims exactly what its rows show; acknowledged traffic is stored, a weighted report counts once, quota is taken back only with a complete report, and policies never lose counters.
  Gateway: a ClientHello is read back from any splitting into records, and a relayed connection goes where its own name points, never for a name of the panel. Tasks: no
  work is active twice, workers and rows agree over all interleavings, executions are bounded, finished rows final.
  Periods: while the plan runs, a new one starts only when the old one is over and its grants and connections are settled. Chain: a quote covers the price to the next
  payable step, an invoice is created for a pending order with a new address and one live attempt,
  and it is paid only by final logs to its address, of its token and inside its window, which cover the price of the order. Sweeps: every reachable store
  passes the startup check, signed transfers stay as they are, a complete job has its transfers and their evidence, fees stay
  within the budget, and a worker without its lease writes nothing.
  Payments: a text parses back, an accepted callback is authentic and counts once. The
  negative results (a partial Stripe refund that never ends, a free order that blocks the startup, a refund amount
  that wraps) are properties of the code as it is.

  \<^bold>\<open>Bounds.\<close> No definition uses fuel: the loops run over lists; the ClientHello loop counts the 128 records of the code, and its
  parsers end because every round consumes bytes.

  \<^bold>\<open>Not modelled.\<close> HTTP routing and JSON decoding, SQLite and migrations, the vault's encryption, proxy
  processes, network probing, SMTP, the blockchain clients and their blocks, the refresh of rates, the row of \<open>payment_providers\<close>
  and the version counters of the wallet tables at the creation of an invoice; the recovery of legacy receipts; the
  early return of the workers and of the creation of invoices on a subsite or after a failed startup check; the clean-up statements at the end of the notice
  worker. Of the subsite agent the report and the accounts are modelled, not its lease checks, nodes and exits. Sweeps are
  those of EVM chains: a job on Solana ends in an error of the model; the fee options a preview displays, its reasons and
  fiat prices, the password check of a retry, the creation, backup and deletion of wallets and the check of the stored
  funding rows are left out. A worker's step is one event, in which each transaction checks the lease again, and a retry's
  review and update are one event; serial numbers are not empty. Support tickets and the public pool are listed in the manifest.
\<close>

text \<open>
  C1. Whatever sequence of handlers, callbacks and worker sweeps runs from a store that is in order, the
  store stays in order: the ledger balances, held balances equal the open wallet orders, documents and
  columns agree, each user has at most one active order, a provider transaction has one receipt and a
  receipt one refund.
\<close>

theorem shop_reconciles:
  assumes "all_ok S0" "reachable S0 S"
  shows "shop_ok S \<and> receipts_ok S \<and> refunds_ok S"
  using reachable_ok [OF assms(2,1)] by (simp add: all_ok_def)

theorem shop_reconciles_witness:
  "reachable funded_shop (confirmed_shop create_paid sample_offer held_ledger) \<and>
   shop_ok (confirmed_shop create_paid sample_offer held_ledger)"
  using shop_reconciles [OF funded_all_ok sample_reachable] sample_reachable by simp

text \<open>
  C2. Whatever sequence of operations runs on an empty set of sweeps, the check of the next start succeeds: quotes, items and
  leases agree, each signed transaction says what its row says, is within the approved plan, and a final one has its evidence.
  \<open>vault_ok\<close> assumes that signed bytes decode to what was signed and that derived funding addresses are not empty.
\<close>

theorem sweeps_pass_startup_check:
  assumes "vault_ok A" "tables_ok W" "sweep_run A (now, empty_sweeps W) (now', S)"
  shows "validateCryptoSweeps A S"
  by (rule runs_pass_startup_check [OF assms])

theorem sweeps_pass_startup_check_witness:
  "validateCryptoSweeps sw_vault sw_done \<and> ss_txs sw_done = [sw_settled]"
  using sweeps_pass_startup_check [OF sw_vault_ok sw_run_all] by (simp add: sw_done_def sw_store_def)

text \<open>
  C3. The audit trail is append-only: along any run of handlers and workers the posted transactions are
  a prefix of the later ones, and identity and amount of every receipt and refund never change.
\<close>

theorem books_append_only:
  assumes "all_ok S0" "reachable S0 S"
  shows "prefix (l_txs (sh_ledger S0)) (l_txs (sh_ledger S)) \<and>
    prefix (map (\<lambda>r. (pr_ID r, pr_AccountScope r, pr_ExternalRef r, pr_Amount r)) (sh_receipts S0))
      (map (\<lambda>r. (pr_ID r, pr_AccountScope r, pr_ExternalRef r, pr_Amount r)) (sh_receipts S)) \<and>
    prefix (map (\<lambda>f. (pf_ID f, pf_ReceiptID f, pf_Amount f)) (sh_refunds S0))
      (map (\<lambda>f. (pf_ID f, pf_ReceiptID f, pf_Amount f)) (sh_refunds S))"
proof -
  have "shop_ok S0" using assms(1) by (simp add: all_ok_def)
  from reachable_grow [OF assms(2) this assms(1)] show ?thesis
    unfolding books_grow_def book_keys .
qed

theorem books_append_only_witness:
  "l_txs funded_ledger \<noteq> [] \<and>
   prefix (l_txs funded_ledger) (l_txs (sh_ledger (confirmed_shop create_paid sample_offer held_ledger)))"
proof -
  have "l_txs funded_ledger \<noteq> []"
    using topup_runs unfolding topup_def by (auto dest!: postMoney_txs_grow)
  with books_append_only [OF funded_all_ok sample_reachable] show ?thesis by (simp add: funded_shop_def)
qed

text \<open>
  C4. A signed transfer is never lost, altered or replaced: whatever runs afterwards, the row with its intent is still there,
  a final one exactly as it was, and no nonce of a sender and no kind of transfer of an item is used twice.
\<close>

theorem signed_transfers_stay:
  assumes "vault_ok A" "tables_ok W" "sweep_run A (now, empty_sweeps W) (now', S)" "sweep_run A (now', S) (now'', T)"
  shows "(\<forall>t \<in> set (ss_txs S). \<exists>t' \<in> set (ss_txs T). same_intent t' t \<and> (final_state (ct_State t) \<longrightarrow> t' = t)) \<and>
    distinct (map tx_key (ss_txs T)) \<and> distinct (map (\<lambda>t. (ct_ItemID t, ct_Kind t)) (ss_txs T))"
proof -
  have "sweep_inv A now' S" using sweep_run_inv [OF assms(3,1)] empty_inv [OF assms(2)] by simp
  then have "sweep_inv A now'' T \<and> kept_txs S T" using sweep_run_inv [OF assms(4,1)] by simp
  then show ?thesis by (simp add: kept_txs_def sweep_inv_def keys_ok_def)
qed

theorem signed_transfers_stay_witness:
  "\<exists>t' \<in> set (ss_txs sw_done). same_intent t' sw_sent"
  using signed_transfers_stay [OF sw_vault_ok sw_run_sent sw_run_done] by (auto simp: sw_sent_store_def sw_store_def)

text \<open>
  C5. The whole way of a payment on a chain. An invoice is created for an order (\<open>createCryptoInvoice\<close>); scans (of the logs
  \<open>ls\<close>), other creations and other handlers follow; a scan (of \<open>ms\<close>) makes it paid. Then the stored transfers are distinct,
  and those that count for the invoice cover the price (in cents) at the rate \<open>whole.frac\<close> of the asset; each of them was
  reported by a final log among the scanned ones (\<open>pays_to\<close>): of the token of the invoice, with the address of the invoice as
  receiver, the amount, transaction and block of the row, and a time from the creation of the invoice to before its deadline.
\<close>

theorem paid_order_covers_price:
  assumes "createCryptoInvoice env actor inp R S = Inr (v, True, S1)" "chain_ok (ds_chain S)" "desk_run S1 ls S2"
    "applyCryptoScan b58 env' (ci_ID v) chain g ms (ds_chain S2) = Inr C"
    "cryptoInvoice (ci_ID v) (ds_chain S2) = Inr w" "ci_State w \<noteq> ''paid''"
    "cryptoInvoice (ci_ID v) C = Inr w'" "ci_State w' = ''paid''"
    "row_with as_ID (ii_AssetID inp) (fs_Assets (ds_settings R)) = Some a" "rate_parts (as_CNYPerToken a) = Some (whole, frac)"
  shows "\<exists>ord. raw_order (cs_shop (ds_chain S)) (ii_OrderID inp) = Some ord \<and> 0 < of_Price (o_Offer ord) \<and>
    distinct (map transfer_key (cs_transfers C)) \<and>
    list_all (\<lambda>t. backing v t \<longrightarrow> list_ex (\<lambda>l. pays_to v l t) (ls @ ms)) (cs_transfers C) \<and>
    nat (of_Price (o_Offer ord)) * 10 ^ nat (as_Decimals a) * 10 ^ length frac
      \<le> sum_list (map (\<lambda>t. digits_value (tr_Atoms t)) (filter (backing v) (cs_transfers C))) * digits_value (whole @ frac) * 100"
  by (rule paid_covers [OF assms])

theorem paid_order_covers_price_witness:
  "nat (of_Price (o_Offer pay_order)) * 10 ^ nat (as_Decimals chain_asset) * 10
    \<le> sum_list (map (\<lambda>t. digits_value (tr_Atoms t)) (filter (backing pay_invoice_row) (cs_transfers pay_settled))) * digits_value ''75'' * 100 \<and>
   list_all (\<lambda>t. backing pay_invoice_row t \<longrightarrow> pays_to pay_invoice_row pay_log t) (cs_transfers pay_settled)"
proof -
  have found: "cryptoInvoice (ci_ID pay_invoice_row) (ds_chain pay_cursor) = Inr pay_invoice_row"
    "cryptoInvoice (ci_ID pay_invoice_row) pay_settled
      = Inr (pay_invoice_row\<lparr>ci_NextBlock := 21, ci_FinalizedBlock := 20, ci_State := ''paid''\<rparr>)"
    using pay_facts by simp_all
  have scan: "applyCryptoScan (id, id) chain_env (ci_ID pay_invoice_row) 56 chain_range [pay_log] (ds_chain pay_cursor) = Inr pay_settled"
    using pay_scanned pay_facts(4) by simp
  have paid: "ci_State (pay_invoice_row\<lparr>ci_NextBlock := 21, ci_FinalizedBlock := 20, ci_State := ''paid''\<rparr>) = ''paid''" by simp
  obtain ord where "raw_order (cs_shop (ds_chain pay_desk)) (ii_OrderID pay_input) = Some ord"
    "list_all (\<lambda>t. backing pay_invoice_row t \<longrightarrow> list_ex (\<lambda>l. pays_to pay_invoice_row l t) ([] @ [pay_log])) (cs_transfers pay_settled)"
    "nat (of_Price (o_Offer ord)) * 10 ^ nat (as_Decimals chain_asset) * 10 ^ length ''5''
      \<le> sum_list (map (\<lambda>t. digits_value (tr_Atoms t)) (filter (backing pay_invoice_row) (cs_transfers pay_settled))) * digits_value (''7'' @ ''5'') * 100"
    using paid_order_covers_price [OF pay_created pay_facts(2) pay_run scan found(1) pay_facts(5) found(2) paid pay_facts(7) chain_asset_rate] by blast
  moreover have "raw_order (cs_shop (ds_chain pay_desk)) (ii_OrderID pay_input) = Some pay_order" by (rule pay_ordered)
  ultimately show ?thesis by simp
qed

text \<open>
  C6. A callback delivered twice counts once: after a callback was accepted, the same callback changes
  nothing, at any later time and whatever identifiers are drawn.
\<close>

theorem callback_idempotent:
  assumes "recordPaymentEvent env p event body S = (T, None)" "py_hash env' body = py_hash env body"
  shows "recordPaymentEvent env' p event body T = (T, None)"
  using callback_again [OF assms] .

theorem callback_idempotent_witness:
  "recordPaymentEvent (sample_pay 4000) sample_provider sample_event ''body'' received_shop = (received_shop, None) \<and>
   sh_receipts received_shop \<noteq> []"
  using callback_idempotent [OF callback_sample, of "sample_pay 4000"] received_keys
  by (auto simp: sample_pay_def)

text \<open>
  C7. A provider transaction counts once: when a receipt for it exists, any further event that names it,
  under whatever event id or body, leaves receipts, ledger, orders, accounts and payments alone.
\<close>

theorem transaction_counts_once:
  assumes "r \<in> set (sh_receipts S)" "pr_AccountScope r = py_scope env p" "pr_ExternalRef r = vp_ExternalRef event"
    and "recordPaymentEvent env p event body S = (T, e)"
  shows "sh_receipts T = sh_receipts S \<and> sh_ledger T = sh_ledger S \<and> sh_orders T = sh_orders S \<and>
    sh_users T = sh_users S \<and> sh_attempts T = sh_attempts S"
  using transaction_once [OF _ assms(4)] assms(1-3) by blast

theorem transaction_counts_once_witness:
  "sh_receipts (fst (recordPaymentEvent (sample_pay 5000) sample_provider (sample_event\<lparr>vp_EventID := ''ev2''\<rparr>) ''other'' received_shop))
    = sh_receipts received_shop"
proof -
  let ?e = "sample_event\<lparr>vp_EventID := ''ev2''\<rparr>"
  obtain r where "r \<in> set (sh_receipts received_shop)" "receipt_key r = (''GYR-3000'', ''epay-1'', ''tx-1'', 1500)"
    using received_keys by (auto simp: map_eq_Cons_conv)
  then have "r \<in> set (sh_receipts received_shop)" "pr_AccountScope r = py_scope (sample_pay 5000) sample_provider"
    "pr_ExternalRef r = vp_ExternalRef ?e"
    by (simp_all add: receipt_key_def sample_pay_def sample_provider_def sample_event_def)
  from transaction_counts_once [OF this, of "''other''"] show ?thesis by (metis prod.collapse)
qed

text \<open>
  C8. Completion is evidence: for every address of the approved plan of a complete job a confirmed transfer of exactly the
  approved amount to the approved destination is stored, with valid signature and final receipt.
\<close>

theorem complete_sweep_emptied:
  assumes "vault_ok A" "tables_ok W" "sweep_run A (now, empty_sweeps W) (now', S)"
    and "j \<in> set (ss_jobs S)" "va_open A (sj_Quote j) = Some q" "sj_State j = ''complete''" "plan \<in> set (pv_Items (qu_Preview q))"
  shows "\<exists>t \<in> set (ss_txs S). ct_JobID t = sj_ID j \<and> settled_transfer A q plan t"
proof -
  have "sweep_inv A now' S" using sweep_run_inv [OF assms(3,1)] empty_inv [OF assms(2)] by simp
  then show ?thesis by (rule complete_job_swept [OF _ assms(4-7)])
qed

theorem complete_sweep_emptied_witness:
  "\<exists>t \<in> set (ss_txs sw_done). ct_JobID t = ''J'' \<and> settled_transfer sw_vault sw_quote sw_item t"
proof -
  have j: "sw_job ''complete'' [] 0 1021 \<in> set (ss_jobs sw_done)" by (simp add: sw_done_def sw_store_def)
  have f: "va_open sw_vault (sj_Quote (sw_job ''complete'' [] 0 1021)) = Some sw_quote" "sj_State (sw_job ''complete'' [] 0 1021) = ''complete''"
    "sw_item \<in> set (pv_Items (qu_Preview sw_quote))" "sj_ID (sw_job ''complete'' [] 0 1021) = ''J''"
    by (simp_all add: sw_job_def sw_open sw_quote_def sw_preview_def)
  from complete_sweep_emptied [OF sw_vault_ok sw_run_all j f(1,2,3)] show ?thesis by (simp add: f(4))
qed

text \<open>
  C9. Posting money to a consistent ledger (\<open>chained\<close>: wallets equal their entries, revisions are consecutive, keys distinct) has
  three outcomes and no other: the movement is refused because a balance would become negative or both together exceed the
  limit, it is refused because the transaction or its event key exists, or (\<open>posts\<close>) the wallet of this user alone moves by
  exactly the two amounts, one transaction records the new balances, and its entries balance and move the two accounts.
\<close>

theorem wallet_posting_outcome:
  assumes "chained L" "a = w_available (wallet_of L user) + da" "h = w_held (wallet_of L user) + dh"
  shows "if a < 0 \<or> h < 0 \<or> a + h > moneyLimit
    then postMoney now txid user actor event kind reference reason da dh L
      = Inl (Fail 409 ''insufficient balance or limit exceeded'')
    else if txid \<in> mt_id ` set (l_txs L) \<or> event \<in> mt_event_key ` set (l_txs L)
    then postMoney now txid user actor event kind reference reason da dh L = Inl (Unique ''money_transactions'')
    else \<exists>L'. postMoney now txid user actor event kind reference reason da dh L = Inr (wallet_of L' user, L') \<and>
      posts now txid user event da dh L L'"
  by (rule posting_outcome [OF assms])

theorem wallet_posting_outcome_witness:
  "postMoney 9 ''t2'' 7 1 ''e2'' ''adjust'' [] [] (- 6000) 0 funded_ledger
    = Inl (Fail 409 ''insufficient balance or limit exceeded'') \<and>
   posts 2100 ''GYB-2100'' 7 ''hold:GYO-2000'' (- 1500) 1500 funded_ledger held_ledger"
proof -
  have a: "- 1000 = w_available (wallet_of funded_ledger 7) + - 6000" "0 = w_held (wallet_of funded_ledger 7) + 0"
    "3500 = w_available (wallet_of funded_ledger 7) + - 1500" "1500 = w_held (wallet_of funded_ledger 7) + 1500"
    by (simp_all add: funded_wallet(1))
  have "posts 2100 ''GYB-2100'' 7 ''hold:GYO-2000'' (- 1500) 1500 funded_ledger held_ledger"
    using wallet_posting_outcome [where txid = "''GYB-2100''" and event = "''hold:GYO-2000''" and now = 2100 and actor = 7
      and kind = "''hold''" and reference = "''GYO-2000''" and reason = "''balance held, provisioning''", OF funded_wallet(2) a(3,4)]
      hold_runs [unfolded hold_def]
    by (auto simp: moneyLimit_def split: if_split_asm)
  with wallet_posting_outcome [where txid = "''t2''" and event = "''e2''" and now = 9 and actor = 1 and kind = "''adjust''"
      and reference = "[]" and reason = "[]", OF funded_wallet(2) a(1,2)] show ?thesis by simp
qed

text \<open>
  C10. Fees stay in the approved budget: what all transactions ever signed for a job may cost at most is within its
  \<open>max_gas_atoms\<close>, however often the worker was interrupted and resumed.
\<close>

theorem signed_fees_within_budget:
  assumes "vault_ok A" "tables_ok W" "sweep_run A (now, empty_sweeps W) (now', S)"
    and "j \<in> set (ss_jobs S)" "va_open A (sj_Quote j) = Some q"
  shows "signed_fees S (sj_ID j) \<le> digits_value (sj_MaxGasAtoms j)"
proof -
  have "sweep_inv A now' S" using sweep_run_inv [OF assms(3,1)] empty_inv [OF assms(2)] by simp
  then show ?thesis by (rule fees_within_budget [OF _ assms(4,5)])
qed

theorem signed_fees_within_budget_witness:
  "signed_fees sw_done ''J'' \<le> digits_value (nat_string 46200)"
proof -
  have j: "sw_job ''complete'' [] 0 1021 \<in> set (ss_jobs sw_done)" by (simp add: sw_done_def sw_store_def)
  have f: "va_open sw_vault (sj_Quote (sw_job ''complete'' [] 0 1021)) = Some sw_quote" by (simp add: sw_job_def sw_open)
  from signed_fees_within_budget [OF sw_vault_ok sw_run_all j f] show ?thesis by (simp add: sw_job_def)
qed

text \<open>
  C11. The startup check of the commerce tables, run on a store that is in order, rejects it for one
  reason only: an open order paid from the wallet whose user has no wallet row. Such an order is free.
\<close>

theorem startup_check_exact:
  assumes "all_ok S0" "reachable S0 S"
  shows "(validateCommerce S \<longleftrightarrow>
      (\<forall>r \<in> set (sh_orders S). wallet_order r \<longrightarrow> or_user r \<in> fst ` set (l_wallets (sh_ledger S)))) \<and>
    (\<forall>r \<in> set (sh_orders S). wallet_order r \<and> or_user r \<notin> fst ` set (l_wallets (sh_ledger S)) \<longrightarrow>
      of_Price (o_Offer (or_doc r)) = 0)"
proof -
  have "shop_ok S" using reachable_ok [OF assms(2,1)] by (simp add: all_ok_def)
  then show ?thesis using validateCommerce_iff wallet_order_without_wallet_is_free by blast
qed

theorem startup_check_exact_witness:
  "validateCommerce funded_shop \<longleftrightarrow> (\<forall>r \<in> set (sh_orders funded_shop). wallet_order r \<longrightarrow> or_user r \<in> fst ` set (l_wallets funded_ledger))"
  using startup_check_exact [OF funded_all_ok reachable.start] by (simp add: funded_shop_def)

text \<open>
  C12. A free order stops the panel: in any shop that is in order, for any user without a wallet row, a confirmation of a free
  order that takes effect posts no money and creates no wallet, so the confirmed order is an open wallet order without a
  wallet row, and the startup check rejects the tables (until the worker has carried the order out).
\<close>

theorem free_order_blocks_startup:
  assumes "shop_ok S" "orderAction env pw actor req S = Inr (reply, T)" "aq_Action req = ''confirm''" "T \<noteq> S"
    and "find_order S (aq_ID req) = Some ord" "of_Price (o_Offer ord) = 0" "o_PaymentAttemptID ord = []"
    and "o_UserID ord \<notin> fst ` set (l_wallets (sh_ledger S))"
  shows "shop_ok T \<and> sh_ledger T = sh_ledger S \<and>
    (\<exists>r \<in> set (sh_orders T). or_id r = aq_ID req \<and> wallet_order r \<and> of_Price (o_Offer (or_doc r)) = 0 \<and>
       or_user r \<notin> fst ` set (l_wallets (sh_ledger T))) \<and> \<not> validateCommerce T"
  by (rule free_order_blocks [OF assms])

theorem free_order_blocks_startup_witness:
  "reachable empty_shop (confirmed_shop create_free free_offer empty_ledger) \<and>
   \<not> validateCommerce (confirmed_shop create_free free_offer empty_ledger)"
  using free_order_blocks_startup [OF pending_free_ok [folded free_pending_def] confirm_free_sample [folded free_pending_def] free_facts]
    sample_reachable_free by blast

text \<open>
  C13. What \<open>createCryptoInvoice\<close> leaves: the order of the actor is pending and points to the new attempt (\<open>points_to\<close>), the
  address was never used, an earlier attempt and its invoice are given up, which needs that no transfer has been seen for
  the order, and the invariant of the shop is kept.
\<close>

theorem invoice_opens_payment:
  assumes "createCryptoInvoice env actor inp R S = Inr (v, True, T)" "shop_ok (cs_shop (ds_chain S))"
  shows "shop_ok (cs_shop (ds_chain T)) \<and> (\<forall>x \<in> set (ds_addresses S). wa_Address x \<noteq> ci_Address v) \<and>
    (\<exists>ord. raw_order (cs_shop (ds_chain S)) (ii_OrderID inp) = Some ord \<and> o_UserID ord = actor \<and> o_State ord = Pending \<and>
       0 < of_Price (o_Offer ord) \<and> points_to v ord (ds_chain T) \<and>
       length (filter (\<lambda>w. ci_OrderID w = o_ID ord) (cs_invoices (ds_chain T))) \<le> 12 \<and>
       (o_PaymentAttemptID ord \<noteq> [] \<longrightarrow> \<not> order_transfers (o_ID ord) (ds_chain S) \<and> given_up (o_PaymentAttemptID ord) (ds_chain T)))"
  by (rule invoice_opened [OF assms])

theorem invoice_opens_payment_witness:
  "shop_ok (cs_shop (ds_chain pay_opened)) \<and> points_to pay_invoice_row pay_order (ds_chain pay_opened)"
proof -
  obtain ord where "raw_order (cs_shop (ds_chain pay_desk)) (ii_OrderID pay_input) = Some ord" "points_to pay_invoice_row ord (ds_chain pay_opened)"
    and ok: "shop_ok (cs_shop (ds_chain pay_opened))"
    using invoice_opens_payment [OF pay_created pay_facts(1)] by blast
  moreover have "raw_order (cs_shop (ds_chain pay_desk)) (ii_OrderID pay_input) = Some pay_order" by (rule pay_ordered)
  ultimately show ?thesis by simp
qed

text \<open>
  C14. Payment on a chain: \<open>applyCryptoScan\<close> turns an invoice into a paid one only if the distinct confirmed transfers of
  its token to it, inside the window from creation to deadline, sum up to the quoted amount while its order waits for this
  payment; it then adds one receipt over the amount of the attempt, the first of the invoice.
\<close>

theorem crypto_paid_backed:
  assumes "applyCryptoScan b58 env i chain g ts S = Inr T" "transfers_ok S"
    and "cryptoInvoice i S = Inr v" "ci_State v \<noteq> ''paid''" "cryptoInvoice i T = Inr w" "ci_State w = ''paid''"
  shows "\<exists>expected ord a r. cryptoAtoms (ci_ExpectedAtoms v) = Inr expected \<and>
    expected \<le> sum_list (map (\<lambda>t. digits_value (tr_Atoms t)) (filter (backing v) (cs_transfers T))) \<and>
    distinct (map transfer_key (cs_transfers T)) \<and> list_all (\<lambda>t. backing v t \<longrightarrow> ci_Created v \<le> tr_BlockTime t) (cs_transfers T) \<and>
    raw_order (cs_shop S) (ci_OrderID v) = Some ord \<and> o_State ord = Pending \<and> o_PaymentAttemptID ord = ci_AttemptID v \<and>
    row_with pa_ID (ci_AttemptID v) (sh_attempts (cs_shop S)) = Some a \<and> pa_State a = ''awaiting_customer'' \<and>
    sh_receipts (cs_shop T) = sh_receipts (cs_shop S) @ [r] \<and> pr_Amount r = pa_Amount a \<and> pr_OrderID r = ci_OrderID v \<and>
    \<not> list_ex (same_transaction ''evm_crypto'' (''invoice:'' @ i)) (sh_receipts (cs_shop S))"
  by (rule scan_pays [OF assms])

theorem crypto_paid_backed_witness:
  "1500 \<le> sum_list (map (\<lambda>t. digits_value (tr_Atoms t)) (filter (backing chain_invoice) (cs_transfers chain_paid)))"
  using crypto_paid_backed [OF chain_scanned chain_sample_facts] chain_atoms(2) by (auto simp: chain_invoice_def)

text \<open>
  C15. A partial refund through Stripe never finishes: in each of any number of rounds the worker asks for the full amount of the
  receipt, and the amount Stripe confirms (\<open>whole_refunded\<close>) differs from the amount of the refund and is rejected. The row
  only counts the attempts; it is never failed or succeeded and stays claimable, and no money row or receipt changes.
\<close>

theorem partial_refund_never_succeeds:
  assumes "waiting_refund a receipt refund S" "pf_Amount refund \<noteq> pr_Amount receipt" "pr_ExternalRef receipt \<noteq> []"
    and "whole_refunded post receipt (pf_ID refund)" "list_all (stripe_account a receipt) envs"
    and "refund_rounds get post (pf_ID refund) envs S = (T, es)"
  shows "length es = length envs \<and> T\<lparr>sh_refunds := sh_refunds S\<rparr> = S \<and>
    list_all (\<lambda>e. e = None \<or> e = Some (Broken ''refund receipt mismatch'')) es \<and>
    (\<exists>g. waiting_refund a receipt g T \<and> pf_ID g = pf_ID refund \<and> pf_Amount g = pf_Amount refund \<and>
       pf_Attempts g = pf_Attempts refund + int (length (filter (\<lambda>e. e \<noteq> None) es)) \<and>
       pf_State g = (if list_all (\<lambda>e. e = None) es then pf_State refund else ''processing''))"
  by (rule rounds_of_refund [OF assms])

theorem partial_refund_never_succeeds_witness:
  "\<exists>g. waiting_refund stripe_attempt stripe_receipt g (fst stripe_rounds) \<and> pf_Amount g = 700 \<and> pf_Attempts g = 2 \<and>
     pf_State g = ''processing''"
proof -
  from partial_refund_never_succeeds [OF stripe_waiting(1-5) stripe_rounds_run]
  show ?thesis by (auto simp: stripe_rounds_errors part_refund_def)
qed

text \<open>
  C16. The lease fences late workers: once the job no longer carries its token, a worker's step changes no job, item or
  transaction (it may still freeze a chain whose history changed), and its \<open>cryptoSweepFinish\<close> has no effect.
\<close>

theorem lost_lease_changes_nothing:
  assumes "lease_lost i lease S" "cryptoSweepStep A env now i lease S = (r, T)"
  shows "T = S\<lparr>ss_frozen := ss_frozen T\<rparr> \<and> cryptoSweepFinish i lease state message later T = T"
  using lost_step [OF assms] lost_finish [OF lost_frozen [OF lost_step [OF assms] assms(1)]] by (simp add: only_frozen_def)

theorem lost_lease_changes_nothing_witness:
  "ss_txs (snd (cryptoSweepStep sw_vault (sw_env None 1003) 1003 ''J'' ''old'' sw_sent_store)) = [sw_sent]"
proof -
  have lost: "lease_lost ''J'' ''old'' sw_sent_store" by (simp add: lease_lost_def sw_sent_store_def sw_store_def sw_job_def)
  obtain r T where run: "cryptoSweepStep sw_vault (sw_env None 1003) 1003 ''J'' ''old'' sw_sent_store = (r, T)" by (rule prod.exhaust)
  have "ss_txs T = ss_txs sw_sent_store"
    by (rule kept_rows [OF conjunct1 [OF lost_lease_changes_nothing [OF lost run]]])
  moreover have "ss_txs sw_sent_store = [sw_sent]" by (simp add: sw_sent_store_def sw_store_def)
  ultimately show ?thesis by (simp only: run snd_conv)
qed

text \<open>
  C17. A quota period ends only after everything of it is accounted for. For an account whose plan still runs (a plan that is over
  is swapped instead), \<open>advanceQuotaPeriods\<close> either renews nothing, or the end of the period has come
  (\<open>reset_due\<close>), every subsite has given up the old grants, no order of the account is open, the connections were settled, and
  the new state follows from the settled one: the old period is archived as settled, only the meter of the account
  changes and shows no usage (\<open>period_renewed\<close>), and the grants of the account move to the new period (\<open>site_moved\<close>).
\<close>

theorem period_renewal_settled:
  assumes "advance_user env u S sites = (T, sites', e)" "\<not> plan_over (ce_now (cy_commerce env)) u"
  shows "sites' = sites \<and> (T = S \<or> \<not> commerceBarrier (u_ID u) S \<and>
      (T = mark_reset (cy_commerce env) u S \<or>
       old_grants_settled (u_ID u) sites \<and> T = fst (cy_settle env (mark_reset (cy_commerce env) u S)))) \<or>
    old_grants_settled (u_ID u) sites \<and> \<not> commerceBarrier (u_ID u) S \<and> e = None \<and>
    (\<exists>m. u_Meter u = Some m \<and> reset_due (ce_now (cy_commerce env)) m) \<and>
    (\<exists>S2 w. cy_settle env (mark_reset (cy_commerce env) u S) = (S2, None) \<and> user_record S2 (u_ID u) = Some w \<and>
       period_renewed (cy_commerce env) S2 w T) \<and>
    list_all2 (site_moved (u_ID u) (''period-'' @ ce_token (cy_commerce env) ''period'')) sites sites'"
  by (rule sweep_of_account [OF assms])

theorem period_renewal_settled_witness:
  "old_grants_settled 7 [sample_site] \<and> period_renewed (cy_commerce cycle_sample_env) cycle_shop cycle_user (fst cycle_done) \<and>
   list_all2 (site_moved 7 cycle_token) [sample_site] (fst (snd cycle_done))"
proof -
  obtain T sites e where d: "cycle_done = (T, sites, e)" by (cases cycle_done)
  from period_renewal_settled [of cycle_sample_env cycle_user cycle_shop "[sample_site]" T sites e] cycle_sample_run cycle_changed
  show ?thesis by (auto simp: d cycle_sample_facts cycle_token_def)
qed

text \<open>
  C18. \<open>cryptoPreviewSweep\<close> only offers what is paid for: one gas price for all transfers, at most a quarter above the observed one,
  all fees within the budget, all top-ups within the funding balance, and the destination is none of the own addresses.
\<close>

theorem preview_within_budget:
  assumes "cryptoPreviewSweep env W s actor wallet inp = Inr q" "pv_CanSubmit (qu_Preview q)"
  shows "\<exists>raw price limit balance. rawGasPrice (pe_client env) = Inr raw \<and> raw \<le> price \<and> price \<le> (raw * 125 + 99) div 100 \<and>
    within_budget price limit balance (qu_Preview q) \<and>
    (trim_space (in_MaxGasAtoms inp) \<noteq> [] \<longrightarrow> cryptoAtoms (in_MaxGasAtoms inp) = Inr limit)"
  by (rule preview_budget [OF assms])

theorem preview_within_budget_witness:
  "\<exists>raw price limit balance. rawGasPrice (sw_client None) = Inr raw \<and> price \<le> (raw * 125 + 99) div 100 \<and>
    within_budget price limit balance sw_preview"
proof -
  have "pv_CanSubmit (qu_Preview sw_quote)" by (simp add: sw_quote_def sw_preview_def)
  from preview_within_budget [OF sw_previewed this] show ?thesis by (auto simp: sw_preview_env_def sw_quote_def)
qed

text \<open>
  C19. The 64-bit weighting of traffic by a node rate is exact: it refuses invalid arguments and totals
  beyond the counter limit, and otherwise returns quotient and remainder of bytes times rate plus the
  carried remainder; no intermediate 64-bit product wraps.
\<close>

theorem weighting_machine_exact:
  "sint_pair (WeightedBytes64 bytes rate remainder) =
    (let b = sint bytes; r = sint rate; m = sint remainder in
     if \<not> weighted_args b r m then Inl InvalidWeightedTraffic
     else if CounterLimit < (b * r + m) div 1000 then Inl WeightedLimitExceeded
     else Inr ((b * r + m) div 1000, (b * r + m) mod 1000))"
  by (simp add: WeightedBytes64_sint WeightedBytes_eq Let_def)



text \<open>
  C21. A plan bought over a running one and then given back restores what ran before: the entitlement
  with a fresh revision, quota, protocol switches, the rest of the queue and the traffic used, and the
  time that was left when it was paused.
\<close>

theorem paused_plan_returns:
  assumes "u_Entitlement u = Some e" "u_Meter u = Some m" "u_Expires u = 0 \<or> t0 < u_Expires u"
    and "u_PlanQueue r = u_PlanQueue (assignPlan tz at1 at2 p t0 oid (pauseCurrentPlan t0 u))"
    and "restorePreviousPlan pt rt t1 r = (ok, v)"
  shows "ok \<and> u_PlanQueue v = u_PlanQueue u \<and> u_Entitlement v = Some (e\<lparr>en_Revision := rt\<rparr>) \<and>
    u_Quota v = u_Quota u \<and> u_VLESS v = u_VLESS u \<and> u_HY2 v = u_HY2 u \<and> QuotaUsed v = QuotaUsed u \<and>
    u_Expires v = (if u_Expires u = 0 then 0 else t1 + (u_Expires u - t0))"
  using pause_assign_restore [OF assms] by (simp add: resumed_def)

theorem paused_plan_returns_witness:
  "u_Expires (snd (restorePreviousPlan ''P2'' ''R2'' 500 (assignPlan utc ''P1'' ''R1'' sample_plan 100 ''GYO-9''
      (pauseCurrentPlan 100 running_user)))) = 1400"
proof -
  obtain e m where "u_Entitlement running_user = Some e" "u_Meter running_user = Some m" "u_Expires running_user = 1000"
    by (simp add: running_user_def)
  from paused_plan_returns [OF this(1,2) _ refl prod.collapse [symmetric], where ?t0.0 = 100 and tz = utc and ?at1.0 = "''P1''"
      and ?at2.0 = "''R1''" and p = sample_plan and oid = "''GYO-9''" and pt = "''P2''" and rt = "''R2''" and ?t1.0 = 500] this(3)
  show ?thesis by simp
qed

text \<open>
  C22. A subsite snapshot never oversells a member: the traffic reserved for an account at all subsites
  together after the snapshot is at most what the account has left of its quota, unless more was
  reserved already.
\<close>

theorem no_oversold_quota:
  assumes "businessSnapshot env groups sites users v = Inr (out, v')" "distinct (map u_ID users)"
    and "r \<in> set users" "u_Quota r \<noteq> 0" "distinct (map bs_ID sites)" "v \<in> set sites"
  shows "(\<Sum>s\<leftarrow>replace_site v' sites. siteRuntimeReservation s (u_ID r)) \<le>
    max (\<Sum>s\<leftarrow>sites. siteRuntimeReservation s (u_ID r)) (u_Quota r - QuotaUsed r)"
  using snapshot_total_reserved [OF assms] by (simp add: total_reserved_def sum_where_def)

theorem no_oversold_quota_witness:
  "case businessSnapshot sample_snapshot_env [] [sample_site] [metered_user] sample_site of Inl _ \<Rightarrow> False
   | Inr (out, v) \<Rightarrow> bs_Issued v = [(7, 400000)] \<and> (\<Sum>s\<leftarrow>replace_site v [sample_site]. siteRuntimeReservation s 7) \<le> 1000000"
proof (cases "businessSnapshot sample_snapshot_env [] [sample_site] [metered_user] sample_site")
  case (Inr r)
  obtain out v where r: "r = (out, v)" by (cases r)
  have reserved: "(\<Sum>s\<leftarrow>[sample_site]. siteRuntimeReservation s 7) \<le> 1000000" by code_simp
  have user: "u_ID metered_user = 7" "u_Quota metered_user = 1000000" "QuotaUsed metered_user = 0"
    by (simp_all add: metered_user_def QuotaUsed_def QuotaUpload_def QuotaDownload_def sample_data)
  from no_oversold_quota [OF Inr [unfolded r], of metered_user] user reserved sample_snapshot show ?thesis
    by (simp add: Inr r)
qed (use sample_snapshot in simp)

text \<open>
  C23. A purchase splits the quota among the subsites without exceeding it: the budgets add up to at most the
  quota and each is positive; a plan without limit hands out only unlimited grants.
\<close>

theorem purchase_budgets_within_quota:
  assumes "0 \<le> u_Quota u"
  shows "sum_list (map snd (purchaseSiteBudgets locals nodes_of owner u sites)) \<le> u_Quota u \<and>
    (\<forall>b \<in> set (map snd (purchaseSiteBudgets locals nodes_of owner u sites)). if u_Quota u = 0 then b = 0 else 1 \<le> b)"
proof (cases "u_Quota u = 0")
  case True
  have zero: "b = 0" if "b \<in> set (map snd (allot 0 shares ss r))" for b shares ss r
    using allot_unlimited that by blast
  have "\<forall>b \<in> set bs. b = 0 \<Longrightarrow> sum_list bs = 0" for bs :: "int list" by (induction bs) simp_all
  with zero have "sum_list (map snd (allot 0 shares ss r)) = 0" for shares ss r by blast
  with zero show ?thesis by (simp add: purchaseSiteBudgets_def Let_def True)
next
  case False
  with assms allot_bound [of "u_Quota u" "u_Quota u"] show ?thesis by (simp add: purchaseSiteBudgets_def Let_def)
qed

theorem purchase_budgets_within_quota_witness:
  "purchaseSiteBudgets [private_node] (\<lambda>_. [private_node]) (\<lambda>_. True) open_user two_sites = [(''S1'', 333333), (''S2'', 333333)] \<and>
   333333 + 333333 \<le> u_Quota open_user \<and> (if u_Quota open_user = 0 then (333333 :: int) = 0 else 1 \<le> (333333 :: int))"
proof -
  have "0 \<le> u_Quota open_user" by (simp add: open_user_def metered_user_def)
  from purchase_budgets_within_quota [OF this, of "[private_node]" "\<lambda>_. [private_node]" "\<lambda>_. True" two_sites]
  show ?thesis by (simp add: split_sites)
qed

text \<open>
  C24. Amounts survive the provider: the decimal text the checkout sends for an amount is parsed back to the
  same number of cents.
\<close>

theorem payment_text_roundtrip:
  assumes "0 < amount" "amount \<le> moneyLimit"
  shows "paymentCents (checkout_money amount) = Inr amount"
  using paymentCents_checkout [OF assms] .

theorem payment_text_roundtrip_witness:
  "paymentCents (checkout_money 1505) = Inr 1505"
  using payment_text_roundtrip [of 1505] by (simp add: moneyLimit_def)

text \<open>
  C25. A callback is accepted only when authentic: it names the configured merchant, its signature is the
  digest of its own sorted parameters with the secret, no parameter is repeated, and the event carries
  the order reference, the transaction and the amount of those parameters.
\<close>

theorem epay_callback_authentic:
  assumes "verifyEpay md5 p values = Inr event"
  shows "config_of p ''secret'' \<noteq> [] \<and> form_get values ''pid'' = config_of p ''merchant_id'' \<and>
    map lower_char (form_get values ''sign'') = md5 (epay_text values @ config_of p ''secret'') \<and>
    paymentCents (form_get values ''money'') = Inr (vp_Amount event) \<and> 0 < vp_Amount event \<and> vp_Amount event \<le> moneyLimit \<and>
    vp_MerchantRef event = form_get values ''out_trade_no'' \<and> vp_ExternalRef event = form_get values ''trade_no'' \<and>
    list_all (\<lambda>(k, vs). length vs = 1) values"
  using verifyEpay_sound [OF assms] by (auto simp: list_all_iff)

theorem epay_callback_authentic_witness:
  "case verifyEpay sample_digest epay_provider epay_callback of Inl _ \<Rightarrow> False
   | Inr event \<Rightarrow> vp_Amount event = 1500 \<and> paymentCents (form_get epay_callback ''money'') = Inr 1500"
proof (cases "verifyEpay sample_digest epay_provider epay_callback")
  case (Inr event)
  have "case verifyEpay sample_digest epay_provider epay_callback of Inl _ \<Rightarrow> False | Inr event \<Rightarrow> vp_Amount event = 1500"
    by (rule epay_callback_runs)
  with epay_callback_authentic [OF Inr] Inr show ?thesis by simp
qed (use epay_callback_runs in simp)

text \<open>
  C26. A refund never returns more than was paid and never a negative amount, as long as the price times the
  quota and the price times the duration fit a 64-bit integer.
\<close>

theorem refund_within_price:
  assumes "0 \<le> of_Price (o_Offer ord)" "0 \<le> pl_Quota (of_Plan (o_Offer ord))"
    and "of_Price (o_Offer ord) * pl_Quota (of_Plan (o_Offer ord)) < 2 ^ 63"
    and "of_Price (o_Offer ord) * (pl_ValidDays (of_Plan (o_Offer ord)) * 86400) < 2 ^ 63"
  shows "0 \<le> refundableOrderAmount ord u now \<and> refundableOrderAmount ord u now \<le> of_Price (o_Offer ord)"
  using refundable_bounds [OF assms(1-3)] assms(4) by (simp add: days_total_def)

theorem refund_within_price_witness:
  "0 \<le> refundableOrderAmount (sample_order sample_offer) running_user 100"
  using refund_within_price [of "sample_order sample_offer" running_user 100]
  by (simp add: sample_order_def new_order_def sample_data)

text \<open>
  C27. The proportional refund wraps beyond 63 bits: whenever the product \<open>P\<close> of the price and the unused traffic needs the 64th
  bit, the refund of an active, partly used order is the negative quotient below instead of \<open>P div quota\<close>.
\<close>

theorem large_refund_negative:
  assumes "0 < of_Price (o_Offer ord)" "orderEntitlementPosition u (o_ID ord) = ActivePlan" "0 < QuotaUsed u"
    and "P = of_Price (o_Offer ord) * (pl_Quota (of_Plan (o_Offer ord)) - QuotaUsed u)" "2 ^ 63 \<le> P" "P < 2 ^ 64"
    and "QuotaUsed u \<le> pl_Quota (of_Plan (o_Offer ord))" "pl_Quota (of_Plan (o_Offer ord)) < 2 ^ 63"
  shows "refundableOrderAmount ord u now = - ((2 ^ 64 - P) div pl_Quota (of_Plan (o_Offer ord))) \<and>
    (refundableOrderAmount ord u now < 0 \<longleftrightarrow> pl_Quota (of_Plan (o_Offer ord)) \<le> 2 ^ 64 - P) \<and>
    refundableOrderAmount ord u now < P div pl_Quota (of_Plan (o_Offer ord))"
  using refundable_wraps [OF assms, of now] by blast

theorem large_refund_negative_witness:
  "refundableOrderAmount large_order large_user 100 < 0"
proof -
  have "refundableOrderAmount large_order large_user 100 < 0 \<longleftrightarrow>
      pl_Quota (of_Plan (o_Offer large_order)) \<le> 2 ^ 64 - of_Price (o_Offer large_order) * (pl_Quota (of_Plan (o_Offer large_order)) - QuotaUsed large_user)"
    using large_refund_negative [OF large_facts(1-3) refl large_facts(4-7), of 100] by blast
  from this large_facts(8) show ?thesis by (rule iffD2)
qed

text \<open>
  C28. A subsite that follows the protocol is never refused: whatever it samples, however often replies are
  lost and reports repeated, and whenever the controller issues snapshots and the subsite applies them, the
  controller's recomputation of the weighted totals agrees with the report. The runs (\<open>protocol_run\<close>) apply a snapshot
  that opens a new period for an account only once the traffic of the account is reported (\<open>account_ready\<close>), the case the
  property on late traffic leaves out; and the rates and periods of the pending rows were issued and the report fits one
  message (\<open>report_issued\<close>).
\<close>

theorem honest_report_never_refused:
  assumes "protocol_run rate_of digest P Q" "agreed rate_of digest P" "report_issued (pt_agent Q) (pt_site Q)"
  shows "\<exists>v. verifyBusinessMeter (refreshMonthlyBudget now (pt_site Q)) (agent_report applied (pt_agent Q))
    (rp_node_usage (pt_tables Q)) = Inr v"
  by (rule honest_run_verified [OF assms])

theorem honest_report_never_refused_witness:
  "protocol_run sub_rate sub_digest sub_start sub_carried \<and>
   (\<exists>v. verifyBusinessMeter (refreshMonthlyBudget 5000 sub_site) sub_report [] = Inr v)"
proof -
  have "report_issued (pt_agent sub_carried) (pt_site sub_carried)"
    using sub_issued by (simp add: report_issued_def sub_carried_def sub_start_def sub_pending sub_row_def)
  from honest_report_never_refused [OF sub_run sub_agreed this, of 5000 "''rev1''"]
  show ?thesis using sub_run by (simp add: sub_carried_def sub_start_def sub_reported sub_tables_def)
qed

text \<open>
  C29. The subsite stops reporting a row only when the controller has stored it: every acknowledgement on
  the subsite names a row of the controller's table that is at least as far, in both directions. No traffic is lost between
  the two databases, even when replies are lost or repeated.
\<close>

theorem acknowledged_traffic_stored:
  assumes "protocol_run rate_of digest P Q" "agreed rate_of digest P" "map_of (ms_acks (pt_agent Q)) k = Some (up, down)"
  shows "\<exists>r \<in> set (stored_rows Q). row_key r = k \<and> up \<le> nu_Upload r \<and> down \<le> nu_Download r"
proof -
  have "acks_stored (ms_acks (pt_agent Q)) (stored_rows Q)"
    using run_agreed [OF assms(1,2)] by (simp add: agreed_def in_sync_def stored_rows_def)
  with assms(3) show ?thesis unfolding acks_stored_def by blast
qed

theorem acknowledged_traffic_stored_witness:
  "\<exists>r \<in> set (stored_rows sub_settled). row_key r = (7, ''n1'', ''p1'', ''fast'') \<and> 5 \<le> nu_Upload r \<and> 0 \<le> nu_Download r"
proof -
  have "map_of (ms_acks (pt_agent sub_settled)) (7, ''n1'', ''p1'', ''fast'') = Some (5, 0)"
    by (simp add: sub_settled_def sub_acked_def)
  from acknowledged_traffic_stored [OF sub_run_settled sub_agreed this] show ?thesis .
qed

text \<open>
  C30. A weighted report (protocol 2 or later, each account once) counts once: when the reply is lost and the subsite
  sends the same report again, the second acceptance leaves the accounts, the hourly history, the archived periods and the
  monthly usage of the site as they are. Reports of protocol 1 are accepted without the check of their rows.
\<close>

theorem report_counts_once:
  assumes "acceptBusinessUsage now history inb v R = Inr (v1, R1)" "acceptBusinessUsage now' history' inb v1 R1 = Inr (v2, R2)"
    and "distinct (map fst (bh_Usage inb))" "2 \<le> bh_Protocol inb"
  shows "rp_users R2 = rp_users R1 \<and> rp_traffic R2 = rp_traffic R1 \<and> rp_periods R2 = rp_periods R1 \<and>
    bs_MonthlyUsage v2 = bs_MonthlyUsage (refreshMonthlyBudget now' v1)"
  using repeated_report [OF assms(1,2,3)] assms(4) by simp

theorem report_counts_once_witness:
  "acceptBusinessUsage 5000 True sub_report sub_site sub_tables = Inr (sub_released, sub_stored) \<and>
   acceptBusinessUsage 5000 True sub_report sub_released sub_stored = Inr (sub_released, sub_stored) \<and>
   bs_MonthlyUsage sub_released = bs_MonthlyUsage (refreshMonthlyBudget 5000 sub_released)"
  using report_counts_once [OF sub_accept sub_accept_again] sub_accept sub_accept_again by simp

text \<open>
  C31. Quota that was handed to a subsite is taken back only when it cannot be used any more: an
  issued amount shrinks, or an unlimited grant ends, only with a report that acknowledges the snapshot sent last and
  contains every account that ever had an allocation, usage or a grant there.
\<close>

theorem release_needs_complete_report:
  assumes "acceptBusinessUsage now history inb v R = Inr (v', R')"
    and "site_issued v' i < site_issued v i \<or> site_unlimited v i \<and> \<not> site_unlimited v' i"
  shows "bh_Applied inb \<noteq> [] \<and> bh_Applied inb = bs_Desired v \<and> set (required_users v) \<subseteq> fst ` set (bh_Usage inb)"
  by (rule release_complete [OF assms])

theorem release_needs_complete_report_witness:
  "site_issued sub_released 7 < site_issued sub_site 7 \<and> set (required_users sub_site) \<subseteq> fst ` set (bh_Usage sub_report)"
proof -
  have less: "site_issued sub_released 7 < site_issued sub_site 7"
    by (simp add: site_issued_def sub_released_def sub_site_def map_get_def)
  with release_needs_complete_report [OF sub_accept, of 7] show ?thesis by blast
qed



text \<open>
  C33. The boundary of the protocol, for all accounts, traffic and samples: the two sides agree (\<open>in_sync\<close>), the rows of a
  metered account are ahead of the controller's by an amount with a fraction of a weighted byte (\<open>late_fraction\<close>), and a
  snapshot with a period that is neither the one of its meter nor the one last reported is taken over
  (\<open>adopt_accounts\<close>, \<open>replaceBusinessState\<close>). Then \<open>merge_meter\<close> has dropped the fraction that the controller counts when
  it restarts the period at zero, and whatever is sampled afterwards, the controller refuses the report.
\<close>

theorem fraction_lost_with_period:
  assumes "in_sync rate_of A v (rp_node_usage R)" "ms_users A = agent_users old"
    and "adopt_accounts env accounts old = Inr records" "replaceBusinessState records old = Inr rows"
    and "unique_ids old" "owners_apart accounts old" "x \<in> set old" "u_Meter x = Some m"
    and "changes_period accounts (u_ID x) m (bu_PeriodID (site_usage v (u_ID x)))" "bu_Metered (site_usage v (u_ID x))"
    and "late_fraction CostUp A v (rp_node_usage R) (u_ID x) \<noteq> 0 \<or> late_fraction CostDown A v (rp_node_usage R) (u_ID x) \<noteq> 0"
    and "account_all samples (A\<lparr>ms_users := agent_users rows, ms_nodes := nodes\<rparr>) = Inr A'"
      "revisions_fixed rate_of digest (A\<lparr>ms_users := agent_users rows, ms_nodes := nodes\<rparr>)"
      "list_all (\<lambda>(menv, cs). me_digest menv = digest) samples"
  shows "\<exists>e. acceptBusinessUsage now history (agent_report applied A') v R = Inl e"
  by (rule late_fraction_refused [OF assms])

theorem fraction_lost_with_period_witness:
  "\<exists>e. acceptBusinessUsage 6000 True
     (agent_report ''rev2'' (sub_late\<lparr>ms_users := agent_users [sub_record (sub_next 6 9)], ms_nodes := []\<rparr>)) sub_released sub_stored = Inl e"
proof (rule fraction_lost_with_period [OF sub_late_sync sub_agents(2) [symmetric] sub_adopts(2) sub_replaces(2) sub_unique sub_late_apart,
    where m = "empty_meter\<lparr>qm_PeriodID := ''p1'', qm_Upload := 9\<rparr>" and x = "sub_record sub_late_user" and samples = "[]" and digest = sub_digest and nodes = "[]"])
  show "revisions_fixed sub_rate sub_digest (sub_late\<lparr>ms_users := agent_users [sub_record (sub_next 6 9)], ms_nodes := []\<rparr>)"
    by (rule sub_late_fixed)
qed (simp_all add: sub_late_meter sub_late_changes sub_late_unreported [simplified] account_all_def)

text \<open>
  C34. A report cannot claim anything its rows do not show: for a report of protocol 2 or later with distinct accounts that is
  accepted, every row carries a rate and a period the controller has issued (\<open>row_accepted\<close>), and every account that
  was metered before reports the stored totals plus the counts by which its rows exceed the stored rows, weighted in
  thousandths of a byte at the rate of each row (\<open>gains\<close>).
\<close>

theorem report_totals_exact:
  assumes "acceptBusinessUsage now history inb v R = Inr (v', R')" "2 \<le> bh_Protocol inb" "distinct (map fst (bh_Usage inb))"
    and "(i, reported) \<in> set (bh_Usage inb)" "bu_Metered (site_usage v i)"
  shows "list_all (row_accepted v (rp_node_usage R)) (bh_NodeUsage inb) \<and>
    bu_Upload reported = bu_Upload (site_usage v i) + gains RawUp (rp_node_usage R) (bs_ID v) (bh_NodeUsage inb) i \<and>
    bu_Download reported = bu_Download (site_usage v i) + gains RawDown (rp_node_usage R) (bs_ID v) (bh_NodeUsage inb) i \<and>
    1000 * bu_QuotaUpload reported + bu_UploadRemainder reported = 1000 * bu_QuotaUpload (site_usage v i)
      + (if bu_PeriodID reported = bu_PeriodID (site_usage v i) then bu_UploadRemainder (site_usage v i) else 0)
      + gains CostUp (rp_node_usage R) (bs_ID v) (bh_NodeUsage inb) i \<and>
    1000 * bu_QuotaDownload reported + bu_DownloadRemainder reported = 1000 * bu_QuotaDownload (site_usage v i)
      + (if bu_PeriodID reported = bu_PeriodID (site_usage v i) then bu_DownloadRemainder (site_usage v i) else 0)
      + gains CostDown (rp_node_usage R) (bs_ID v) (bh_NodeUsage inb) i"
  by (rule accepted_totals [OF assms])

theorem report_totals_exact_witness:
  "gains CostUp (rp_node_usage sub_stored) (bs_ID sub_released) (bh_NodeUsage sub_more) 7 = 1500 \<and>
   bu_Upload (site_usage sub_released 7) = 5 \<and> bu_Upload sub_more_usage = 6"
proof -
  have metered: "bu_Metered (site_usage sub_released 7)" by (rule sub_late_changes(2))
  obtain v R where "acceptBusinessUsage 5000 True sub_more sub_released sub_stored = Inr (v, R)" using sub_accept_more by blast
  from report_totals_exact [OF this _ _ _ metered, of sub_more_usage] sub_released_usage
  show ?thesis by (simp add: sub_more_usage_def sub_usage_def no_usage_def)
qed

text \<open>
  C35. The gateway reads what a client says: a ClientHello encoded after RFC 8446, cut into up to 128 non-empty records
  that stay within the 64 KiB of the gateway, gives the offered name and protocols; the raw bytes are the records and
  the rest of the connection is untouched.
\<close>

theorem hello_read_back:
  assumes "offer_ok h" "fragments_ok fs" "concat fs = handshake h"
  shows "readClientHello (stream fs @ rest) =
    Inr (\<lparr>ch_serverName = fst (offered (of_exts h)), ch_protocols = snd (offered (of_exts h)), ch_raw = stream fs\<rparr>, rest)"
  by (rule readClientHello_stream [OF assms])

theorem hello_read_back_witness:
  "readClientHello (stream hello_fragments @ [1, 2]) =
    Inr (\<lparr>ch_serverName = ''a.eu'', ch_protocols = [text_of [0x68, 0x32]], ch_raw = stream hello_fragments\<rparr>, [1, 2])"
  using hello_read_back [OF hello_offer_ok hello_fragments_ok, of "[1, 2]"] by (simp add: hello_offered)

text \<open>
  C36. Whatever bytes a peer sends, a relayed connection replays all of them and its target follows from the name its own
  ClientHello carries: never a domain of the panel, the configured upstream for the Reality name, for any other name the
  socket file of that name inside the socket directory. Nothing is relayed under maintenance or for an ACME challenge,
  and the parser has read at most 64 KiB.
\<close>

theorem relay_confined:
  assumes "dispatch c is_socket maintenance r = Relay u bytes"
  shows "bytes = r \<and> \<not> maintenance \<and> (\<exists>hello rest. readClientHello r = Inr (hello, rest) \<and>
    length (ch_raw hello) \<le> maxHelloBytes \<and> validDomain (ch_serverName hello) \<and>
    ch_serverName hello \<noteq> gc_PanelDomain c \<and> ch_serverName hello \<noteq> gc_NodeDomain c \<and>
    ''acme-tls/1'' \<notin> set (ch_protocols hello) \<and>
    (ch_serverName hello = gc_RealitySNI c \<and> u = Tcp (gc_RealityUpstream c) \<or>
     ch_serverName hello \<noteq> gc_RealitySNI c \<and> CHR ''/'' \<notin> set (ch_serverName hello) \<and>
     is_socket (gc_RealitySocketDir c @ ''/'' @ ch_serverName hello @ ''.sock'') \<and>
     u = Unix (gc_RealitySocketDir c @ ''/'' @ ch_serverName hello @ ''.sock'')))"
  using dispatched_relay [OF assms] unfolding owns_def de_Morgan_disj by blast

theorem relay_confined_witness:
  "\<exists>hello rest. readClientHello (stream hello_fragments @ [1, 2]) = Inr (hello, rest) \<and>
     ch_serverName hello = gc_RealitySNI edge_config \<and> ch_serverName hello \<noteq> gc_PanelDomain edge_config"
  using relay_confined [OF hello_relayed] by (auto simp: edge_config_def)

text \<open>
  C37. The promises of the task queue over all interleavings: work of one kind on one target is never active twice,
  the number of active tasks and of workers stays within the limits of \<open>New\<close>, and a running row has exactly one worker
  that has still to write its end.
\<close>

theorem queue_stays_bounded:
  assumes "job_run (clamp_options opts) handlers json_valid retain es empty_queue = Some q"
  shows "(\<forall>t \<in> set (qu_tasks q). \<forall>u \<in> set (qu_tasks q).
      active t \<and> active u \<and> tk_Kind t = tk_Kind u \<and> tk_Target t = tk_Target u \<longrightarrow> t = u) \<and>
    length (filter active (qu_tasks q)) \<le> 1024 \<and> length (qu_flights q) \<le> 8 \<and>
    (\<forall>t \<in> set (qu_tasks q). tk_State t = Running \<longrightarrow>
      length (filter (\<lambda>f. tk_ID (fl_task f) = tk_ID t) (working q)) = 1)"
  using queue_run_safe [OF assms] by blast

theorem queue_stays_bounded_witness:
  "length (filter active (qu_tasks job_sample)) \<le> 1024 \<and> length (qu_flights job_sample) \<le> 8 \<and> qu_flights job_sample \<noteq> []"
  using queue_stays_bounded [OF job_sample_run] by (simp add: job_sample_def job_queue_def)



text \<open>
  C39. A finished task stays as it is: whatever happens later (the handler of a cancelled task returns, the process
  restarts, the same work is submitted again), a row with its id is the same row, as long as the random id is not drawn again.
\<close>

theorem finished_tasks_final:
  assumes "job_run opts handlers json_valid retain es q = Some q'" "queue_ok opts q"
    and "t \<in> set (qu_tasks q)" "\<not> active t" "\<not> list_ex (submits_id (tk_ID t)) es"
    and "t' \<in> set (qu_tasks q')" "tk_ID t' = tk_ID t"
  shows "t' = t"
  by (rule finished_final [OF assms])

theorem finished_tasks_final_witness:
  "hd (qu_tasks job_final) = job_row Cancelled 105 106 105 2 msg_waiting"
  by (rule finished_tasks_final [OF job_sample_continues job_sample_ok])
    (simp_all add: job_sample_def job_final_def job_queue_def job_row_def active_def job_later_def)

text \<open>
  C40. \<open>cryptoQuote\<close> never undercharges and overcharges by less than one payment step: with the rate written as
  \<open>rate / scale\<close> CNY per token, the atoms cover the price exactly to the next payable step, and the text is canonical.
\<close>

theorem crypto_quote_covers:
  assumes "cryptoQuote cents v = Inr s" "rate_parts (as_CNYPerToken v) = Some (whole, frac)"
  shows "\<exists>atoms. cryptoAtoms s = Inr atoms \<and> 0 < atoms \<and>
    10 ^ nat (as_Decimals v - as_PaymentDecimals v) dvd atoms \<and>
    nat cents * 10 ^ nat (as_Decimals v) * 10 ^ length frac \<le> atoms * digits_value (whole @ frac) * 100 \<and>
    (atoms - 10 ^ nat (as_Decimals v - as_PaymentDecimals v)) * digits_value (whole @ frac) * 100
      < nat cents * 10 ^ nat (as_Decimals v) * 10 ^ length frac"
  by (rule quote_covers_price [OF assms])

theorem crypto_quote_covers_witness:
  "\<exists>atoms. cryptoAtoms (nat_string 2665400) = Inr atoms \<and> 1999 * 10 ^ 6 * 10 \<le> atoms * digits_value (''7'' @ ''5'') * (100 :: nat)"
  using crypto_quote_covers [OF chain_quote chain_asset_rate] by (auto simp: chain_asset_def)

text \<open>
  The reconciliation check stays true: after any posted movement every transaction still balances,
  every wallet still equals its entries and lies in range, and the revisions of a wallet are still
  consecutive.
\<close>

theorem posting_keeps_reconciliation:
  assumes "ledger_ok users L" "user \<in> set users" "(da, dh) \<noteq> (0, 0)"
    and "postMoney now txid user actor event kind reference reason da dh L = Inr (w', L')"
  shows "validateLedger users L' \<and> chained L' \<and> wallet_of L' user = moved da dh (wallet_of L user)"
  using postMoney_keeps_ledger [OF assms] postMoney_wallets [OF assms(4), of user] by (simp add: ledger_ok_def)

theorem posting_keeps_reconciliation_witness:
  "validateLedger [1, 7] funded_ledger \<and> validateLedger [1, 7] held_ledger"
  using posting_keeps_reconciliation [OF ledger_ok_empty _ _ topup_runs [unfolded topup_def], of "[1, 7]"]
    posting_keeps_reconciliation [OF funded_ledger_ok _ _ hold_runs [unfolded hold_def]] by simp

text \<open>
  A sequence of movements that all succeed changes the balances of a user by exactly the sum of the
  amounts posted for that user, and never contains an event key twice or one that was posted before.
\<close>

theorem movements_add_up:
  assumes "fold_res post_movement ms L = Inr L'"
  shows "available_of L' user = available_of L user + (\<Sum>m\<leftarrow>filter (\<lambda>m. mv_user m = user) ms. mv_available m) \<and>
    held_of L' user = held_of L user + (\<Sum>m\<leftarrow>filter (\<lambda>m. mv_user m = user) ms. mv_held m) \<and>
    distinct (map mv_event ms) \<and> set (map mv_event ms) \<inter> events_of L = {}"
proof -
  have "fold_res post_movement ms = wallet_service.post_all post_movement ms"
  proof (induction ms)
    case (Cons m ms)
    show ?case by (rule ext) (simp add: Cons.IH)
  qed (rule ext, simp)
  with assms have run: "wallet_service.post_all post_movement ms L = Inr L'" by simp
  show ?thesis
    using wallets.post_all_available [OF run, of user] wallets.post_all_held [OF run, of user] wallets.post_all_events [OF run]
    by (simp add: sum_where_def)
qed

theorem movements_add_up_witness:
  "available_of held_ledger 7 = 3500"
proof -
  let ?m = "\<lparr>mv_now = 1000, mv_tx = ''GYB-1000'', mv_user = 7, mv_actor = 1, mv_event = ''topup-1'', mv_kind = ''topup'',
    mv_reference = ''manual'', mv_reason = ''cash'', mv_available = 5000, mv_held = 0\<rparr>"
  let ?h = "\<lparr>mv_now = 2100, mv_tx = ''GYB-2100'', mv_user = 7, mv_actor = 7, mv_event = ''hold:GYO-2000'', mv_kind = ''hold'',
    mv_reference = ''GYO-2000'', mv_reason = ''balance held, provisioning'', mv_available = - 1500, mv_held = 1500\<rparr>"
  have "fold_res post_movement [?m, ?h] empty_ledger = Inr held_ledger"
    using topup_runs hold_runs by (simp add: post_movement_def topup_def hold_def)
  from movements_add_up [OF this, of 7] show ?thesis
    by (simp add: available_of_def wallet_of_def empty_ledger_def new_wallet_def)
qed

text \<open>
  The 64-bit addition to a traffic counter is exact and never wraps: it refuses negative arguments and
  sums over the limit, and otherwise returns the mathematical sum.
\<close>

theorem counter_machine_exact:
  "map_sum id sint (AddCounter64 previous delta) =
    (if 0 \<le> sint previous \<and> 0 \<le> sint delta \<and> sint previous + sint delta \<le> CounterLimit
     then Inr (sint previous + sint delta) else Inl TrafficLimitExceeded)"
  by (auto simp: AddCounter64_sint AddCounter_def)

text \<open>
  Access is granted for a reason: when a resolved account without a mount may use a node, one of the
  groups the account or its plan names is enabled, the node belongs to it, and the plan selects the node
  in that group.
\<close>

theorem access_needs_enabled_group:
  assumes "r' \<in> set (resolveAccess groups records)" "nodeGroupAllowed r' n" "u_Mount r' = None"
  shows "\<exists>r grp. r \<in> set records \<and> u_ID r' = u_ID r \<and> grp \<in> set (userNodeGroupIDs r) \<and> group_enabled groups grp \<and>
    grp \<in> set (nd_GroupIDs (normalizeNodePolicy n)) \<and> planSelectsNode (u_Entitlement r) n grp"
  using resolved_access_sound [OF assms] by blast

theorem access_needs_enabled_group_witness:
  "nodeGroupAllowed (hd (resolveAccess [private_group] [sample_user])) private_node \<and> group_enabled [private_group] legacyPrivateGroup"
proof -
  have allowed: "nodeGroupAllowed (hd (resolveAccess [private_group] [sample_user])) private_node" by code_simp
  have mount: "u_Mount (hd (resolveAccess [private_group] [sample_user])) = None" by (simp add: resolveAccess_def sample_data)
  have mem: "hd (resolveAccess [private_group] [sample_user]) \<in> set (resolveAccess [private_group] [sample_user])"
    by (simp add: resolveAccess_def)
  from access_needs_enabled_group [OF mem allowed mount] obtain grp where
    "grp \<in> set (userNodeGroupIDs sample_user)" "group_enabled [private_group] grp" "grp \<in> set (nd_GroupIDs (normalizeNodePolicy private_node))"
    by auto
  then have "group_enabled [private_group] legacyPrivateGroup"
    by (simp add: normalizeNodePolicy_def private_node_def)
  with allowed show ?thesis by simp
qed

text \<open>
  The panel's own core receives only what the subsites do not hold: an account that is enabled there
  has a positive limit, and the limit and all reservations add up to the quota exactly.
\<close>

theorem core_gets_only_the_rest:
  assumes "u_Quota r \<noteq> 0" "(\<Sum>s\<leftarrow>sites. siteRuntimeReservation s (u_ID r)) < 2 ^ 63" "u_Enabled (core_record sites r)"
  shows "0 < u_Quota (core_record sites r) \<and>
    u_Quota (core_record sites r) + (\<Sum>s\<leftarrow>sites. siteRuntimeReservation s (u_ID r)) = u_Quota r"
  using core_record_within [OF assms(1) _ assms(3)] assms(2) by (simp add: total_reserved_def sum_where_def)

theorem core_gets_only_the_rest_witness:
  "u_Quota (core_record [issued_site] metered_user) = 600000"
proof -
  have reserved: "(\<Sum>s\<leftarrow>[issued_site]. siteRuntimeReservation s (u_ID metered_user)) = 400000"
    and enabled: "u_Enabled (core_record [issued_site] metered_user)" by code_simp+
  have "u_Quota metered_user = 1000000" by (simp add: metered_user_def)
  with core_gets_only_the_rest [of metered_user "[issued_site]"] reserved enabled show ?thesis by simp
qed

text \<open>
  The monthly budget of a subsite is never stuck: after a refresh the site may serve or is paused until
  a moment that lies in the future and at most the longest cool-down away, and a second refresh at the
  same moment changes nothing.
\<close>

theorem monthly_budget_opens_or_cools:
  assumes "0 \<le> now" "0 \<le> bs_BudgetCooldownUntil v" "bs_BudgetCooldownUntil v \<le> now + maxBudgetCooldownSeconds"
  shows "(monthlyBudgetAvailable now (refreshMonthlyBudget now v) \<or> now < bs_BudgetCooldownUntil (refreshMonthlyBudget now v)) \<and>
    bs_BudgetCooldownUntil (refreshMonthlyBudget now v) \<le> now + maxBudgetCooldownSeconds \<and>
    refreshMonthlyBudget now (refreshMonthlyBudget now v) = refreshMonthlyBudget now v"
  using refresh_open_or_cooling [OF assms(1,2)] refresh_cooldown_bounded [OF assms(1,3)] refresh_idem [OF assms(1)] by blast

theorem monthly_budget_opens_or_cools_witness:
  "refreshMonthlyBudget 3000 (refreshMonthlyBudget 3000 sample_site) = refreshMonthlyBudget 3000 sample_site"
  using monthly_budget_opens_or_cools [of 3000 sample_site] by (simp add: sample_site_def budget_constants)

text \<open>
  No payment text yields an amount outside the range: whatever is accepted is positive and at most the
  limit, for provider amounts and for the amounts an administrator enters.
\<close>

theorem payment_amounts_bounded:
  "(case paymentCents text of Inl _ \<Rightarrow> True | Inr n \<Rightarrow> 0 < n \<and> n \<le> moneyLimit) \<and>
   (case moneyValue text of Inl _ \<Rightarrow> True | Inr n \<Rightarrow> 0 \<le> n \<and> n \<le> moneyLimit)"
  using paymentCents_bounds moneyValue_bounds by (simp split: sum.split)

text \<open>
  A counter value is charged once: accounting a list of counters with distinct names and then the same
  values again leaves the accounts and the rows of the second run as the first left them, so a repeated
  collection (a retry, a restart of the panel) never charges twice.
\<close>

theorem sample_counts_once:
  assumes "account env counters S = Inr T" "distinct (map ct_Key counters)"
  shows "\<exists>U. account env' counters T = Inr U \<and> ms_users U = ms_users T \<and> ms_usage U = ms_usage T"
  by (rule repeated_sample [OF assms])

theorem sample_counts_once_witness:
  "\<exists>U. account sub_env [sub_counter 5] sub_sampled = Inr U \<and> ms_users U = [(7, sub_charged)]"
  using sample_counts_once [OF sub_account] by (auto simp: sub_sampled_def)

text \<open>
  Replacing the policy of a subsite never loses accounting data: each stored account is still there
  with its lifetime counters, its weighted counters and its baseline; a remainder of a weighted byte is dropped only when the
  quota period changes; local owners are untouched; accounts missing from the snapshot are disabled
  under a reserved name.
\<close>

theorem policy_keeps_counters:
  assumes "adopt_accounts env accounts old = Inr records" "replaceBusinessState records old = Inr rows"
    and "unique_ids old" "owners_apart accounts old" "x \<in> set old"
  shows "\<exists>r. account_of rows (u_ID x) = Some r \<and> same_counters x r \<and> (u_Role x = ''owner'' \<longrightarrow> r = x) \<and>
    (u_Role x \<noteq> ''owner'' \<and> u_ID x \<notin> set (received_ids accounts) \<longrightarrow> \<not> u_Enabled r \<and> u_Username r = retired_name (u_ID x))"
  by (rule adoption_keeps_counters [OF assms])

theorem policy_keeps_counters_witness:
  "\<exists>r. account_of [sub_record (sub_next 5 7)] 7 = Some r \<and> same_counters (sub_record sub_charged) r"
proof -
  have i: "u_ID (sub_record sub_charged) = 7" by (simp add: sub_record_def User.defs sub_charged_def sub_user_def)
  have "\<exists>r. account_of [sub_record (sub_next 5 7)] (u_ID (sub_record sub_charged)) = Some r \<and> same_counters (sub_record sub_charged) r"
    using policy_keeps_counters [OF sub_adopts(1) sub_replaces(1) sub_unique sub_apart, of "sub_record sub_charged"]
    by (auto simp del: account_of_Cons)
  then show ?thesis unfolding i .
qed

text \<open>
  When a new policy cannot be applied, the previous one returns without rewinding a counter: every account of the
  current table is in the result with its current counters and meter, an account whose period had already changed is
  withdrawn, and an account unknown to the previous policy is retired.
\<close>

theorem rollback_keeps_counters:
  assumes "unique_ids previous" "unique_ids current" "u \<in> set current"
  shows "\<exists>r. account_of (preserveBusinessAccounting previous current) (u_ID u) = Some r \<and> counters_of r = counters_of u \<and>
    (\<forall>m. u_Meter u = Some m \<longrightarrow> u_Meter r = Some m \<and>
       (\<forall>old m0. account_of previous (u_ID u) = Some old \<longrightarrow> u_Meter old = Some m0 \<longrightarrow> qm_PeriodID m0 \<noteq> qm_PeriodID m \<longrightarrow> \<not> u_Enabled r)) \<and>
    (account_of previous (u_ID u) = None \<longrightarrow> \<not> u_Enabled r)"
  by (rule rollback_counters [OF assms])

theorem rollback_keeps_counters_witness:
  "\<exists>r. account_of (preserveBusinessAccounting [sub_record sub_charged] [sub_record (sub_next 6 9)]) (u_ID (sub_record (sub_next 6 9))) = Some r \<and>
    counters_of r = counters_of (sub_record (sub_next 6 9))"
  using rollback_keeps_counters [OF sub_unique sub_unique, of "sub_record (sub_next 6 9)" "sub_next 6 9" sub_charged] by auto

end
